(* ===== verification/Roles.thy ===== *)
theory Roles
  imports Prelude
begin

text \<open>
  Device roles and daemon permissions: \<open>protocol/device-access.ts\<close> (\<open>DEVICE_ROLES\<close>),
  \<open>protocol/messages.ts\<close> (\<open>DAEMON_PERMISSIONS\<close>), and the parts of \<open>authorization/roles.ts\<close>
  and \<open>authorization/index.ts\<close> that do not mention an operation. Roles are made a linear order
  by their rank, so that the order lemmas of the library apply to them.
\<close>

section \<open>Roles\<close>

datatype device_role = Viewer | Operator | Owner

fun ROLE_RANK :: "device_role \<Rightarrow> nat" where
  "ROLE_RANK Viewer = 0"
| "ROLE_RANK Operator = 1"
| "ROLE_RANK Owner = 2"

fun parse_role :: "string \<Rightarrow> device_role option" where
  "parse_role s =
     (if s = ''owner'' then Some Owner
      else if s = ''operator'' then Some Operator
      else if s = ''viewer'' then Some Viewer else None)"

definition isDeviceRole :: "string \<Rightarrow> bool" where
  "isDeviceRole s = (parse_role s \<noteq> None)"

definition roleSatisfies :: "device_role \<Rightarrow> device_role \<Rightarrow> bool" where
  "roleSatisfies role required = (ROLE_RANK role \<ge> ROLE_RANK required)"

section \<open>Permissions\<close>

datatype daemon_permission =
    DaemonRead | DaemonManage | TunnelManage | AccessManage
  | WorkspaceRead | WorkspaceWrite | WorkspaceManage | AutomationManage | HubExecute

definition DAEMON_PERMISSIONS :: "daemon_permission list" where
  "DAEMON_PERMISSIONS = [DaemonRead, DaemonManage, TunnelManage, AccessManage,
     WorkspaceRead, WorkspaceWrite, WorkspaceManage, AutomationManage, HubExecute]"

fun permission_name :: "daemon_permission \<Rightarrow> string" where
  "permission_name DaemonRead = ''daemon.read''"
| "permission_name DaemonManage = ''daemon.manage''"
| "permission_name TunnelManage = ''tunnel.manage''"
| "permission_name AccessManage = ''access.manage''"
| "permission_name WorkspaceRead = ''workspace.read''"
| "permission_name WorkspaceWrite = ''workspace.write''"
| "permission_name WorkspaceManage = ''workspace.manage''"
| "permission_name AutomationManage = ''automation.manage''"
| "permission_name HubExecute = ''hub.execute''"

definition permission_of_name :: "string \<Rightarrow> daemon_permission option" where
  "permission_of_name s = find (\<lambda>p. permission_name p = s) DAEMON_PERMISSIONS"

definition isDaemonPermission :: "string \<Rightarrow> bool" where
  "isDaemonPermission s = (s \<in> set (map permission_name DAEMON_PERMISSIONS))"

datatype authorization_error = InvalidDaemonPermission

definition parseDaemonPermissions ::
  "string list \<Rightarrow> authorization_error + daemon_permission list" where
  "parseDaemonPermissions values =
     (let permissions = js_set values in
      if list_all isDaemonPermission permissions
      then Inr (List.map_filter permission_of_name permissions)
      else Inl InvalidDaemonPermission)"

definition OWNER_PERMISSIONS :: "daemon_permission list" where
  "OWNER_PERMISSIONS = DAEMON_PERMISSIONS"

fun PERMISSION_MIN_ROLE :: "daemon_permission \<Rightarrow> device_role" where
  "PERMISSION_MIN_ROLE DaemonRead = Viewer"
| "PERMISSION_MIN_ROLE WorkspaceRead = Viewer"
| "PERMISSION_MIN_ROLE WorkspaceWrite = Operator"
| "PERMISSION_MIN_ROLE WorkspaceManage = Operator"
| "PERMISSION_MIN_ROLE AutomationManage = Operator"
| "PERMISSION_MIN_ROLE HubExecute = Operator"
| "PERMISSION_MIN_ROLE DaemonManage = Owner"
| "PERMISSION_MIN_ROLE AccessManage = Owner"
| "PERMISSION_MIN_ROLE TunnelManage = Owner"

definition minimumRoleForPermission :: "daemon_permission \<Rightarrow> device_role" where
  "minimumRoleForPermission p = PERMISSION_MIN_ROLE p"

definition LEGACY_HUB_EXECUTION_SCOPE :: string where
  "LEGACY_HUB_EXECUTION_SCOPE = ''hub.execution.*''"

definition permissionsForLegacyHubScopes :: "string list \<Rightarrow> daemon_permission list" where
  "permissionsForLegacyHubScopes scopes =
     (if LEGACY_HUB_EXECUTION_SCOPE \<in> set scopes then [HubExecute] else [])"

section \<open>Transports\<close>

datatype session_transport = Direct | Relay | Hub | Mcp

fun TRANSPORT_DEFAULT_ROLE :: "session_transport \<Rightarrow> device_role" where
  "TRANSPORT_DEFAULT_ROLE Direct = Owner"
| "TRANSPORT_DEFAULT_ROLE Relay = Owner"
| "TRANSPORT_DEFAULT_ROLE Hub = Owner"
| "TRANSPORT_DEFAULT_ROLE Mcp = Operator"

definition defaultRoleForTransport :: "session_transport \<Rightarrow> device_role" where
  "defaultRoleForTransport t = TRANSPORT_DEFAULT_ROLE t"

section \<open>The order of roles\<close>

instantiation device_role :: linorder
begin

definition less_eq_device_role :: "device_role \<Rightarrow> device_role \<Rightarrow> bool" where
  "less_eq_device_role r s = (ROLE_RANK r \<le> ROLE_RANK s)"

definition less_device_role :: "device_role \<Rightarrow> device_role \<Rightarrow> bool" where
  "less_device_role r s = (ROLE_RANK r < ROLE_RANK s)"

instance
proof
  fix r s t :: device_role
  show "r \<le> s \<Longrightarrow> s \<le> r \<Longrightarrow> r = s"
    by (cases r; cases s) (auto simp: less_eq_device_role_def)
qed (auto simp: less_eq_device_role_def less_device_role_def)

end

lemma roleSatisfies_iff: "roleSatisfies role required \<longleftrightarrow> required \<le> role"
  by (simp add: roleSatisfies_def less_eq_device_role_def)

lemma role_le_simps [simp]:
  "Viewer \<le> r" "r \<le> Owner" "\<not> Operator \<le> Viewer" "\<not> Owner \<le> Viewer" "\<not> Owner \<le> Operator"
  by (cases r; simp add: less_eq_device_role_def)+

lemma parse_role_inj: "parse_role s = Some r \<Longrightarrow> parse_role t = Some r \<Longrightarrow> s = t"
  by (auto split: if_splits)

lemma isDeviceRole_iff: "isDeviceRole s \<longleftrightarrow> s \<in> {''owner'', ''operator'', ''viewer''}"
  by (simp add: isDeviceRole_def)

lemma all_permissions [simp]: "p \<in> set DAEMON_PERMISSIONS"
  by (cases p) (simp_all add: DAEMON_PERMISSIONS_def)

lemma permission_of_name_name [simp]: "permission_of_name (permission_name p) = Some p"
  by (cases p) (simp_all add: permission_of_name_def DAEMON_PERMISSIONS_def)

lemma isDaemonPermission_iff: "isDaemonPermission s \<longleftrightarrow> (\<exists>p. s = permission_name p)"
  by (auto simp: isDaemonPermission_def)

lemma map_filter_names:
  "list_all isDaemonPermission names \<Longrightarrow>
     map permission_name (List.map_filter permission_of_name names) = names"
  by (induction names) (auto simp: isDaemonPermission_iff map_filter_simps)

lemma parseDaemonPermissions_Inr_iff:
  "parseDaemonPermissions values = Inr ps \<longleftrightarrow>
     (\<forall>v \<in> set values. isDaemonPermission v) \<and> map permission_name ps = js_set values"
proof
  assume "parseDaemonPermissions values = Inr ps"
  then show "(\<forall>v \<in> set values. isDaemonPermission v) \<and> map permission_name ps = js_set values"
    using map_filter_names[of "js_set values"]
    by (auto simp: parseDaemonPermissions_def Let_def list_all_iff split: if_splits)
next
  assume h: "(\<forall>v \<in> set values. isDaemonPermission v) \<and> map permission_name ps = js_set values"
  have "List.map_filter permission_of_name (map permission_name ps) = ps"
    by (induction ps) (auto simp: map_filter_simps)
  with h show "parseDaemonPermissions values = Inr ps"
    by (auto simp: parseDaemonPermissions_def Let_def list_all_iff)
qed

end
