(* ===== verification/Operations.thy ===== *)
theory Operations
  imports Main
begin

text \<open>
  The message types of the session protocol, as \<open>authorization/roles.ts\<close> and
  \<open>authorization/operation-permissions.ts\<close> enumerate them: \<open>SessionInboundMessage["type"]\<close>
  and \<open>SessionOutboundMessage["type"]\<close> are unions of string literals, so each is a datatype
  with one constructor per literal (\<open>.\<close> and \<open>/\<close> written \<open>_\<close>, an outbound literal prefixed
  with \<open>O\<close>). The union is cut, in the order of the source's tables, into blocks, because a
  flat datatype of 260 constructors is too slow to define.
\<close>

datatype (plugins only: code size) inbound_1 =
    Abort_request
  | Agent_config_apply_request
  | Agent_cancel_auto_resume_request
  | Agent_clean_cut_request
  | Agent_detach_request
  | Agent_fork_context_request
  | Agent_provider_account_transfer_request
  | Agent_provider_definitions_list_request
  | Agent_provider_subagents_list_request
  | Agent_provider_subagents_timeline_get_request
  | Agent_rewind_request
  | Agent_timeline_list_prompts_request
  | Agent_timeline_set_subscription_request
  | Agent_permission_response
  | Archive_agent_request
  | Archive_workspace_request
  | Audio_played
  | Auth_device_list_request
  | Auth_device_rename_request
  | Auth_device_revoke_request
  | Auth_device_set_role_request
  | Auth_pairing_code_create_request
  | Auth_pairing_request_decide_request
  | Auth_pairing_request_list_request
  | Auth_password_set_request
  | Auth_settings_get_request
  | Auth_settings_update_request

datatype (plugins only: code size) inbound_2 =
    Branch_suggestions_request
  | Browser_automation_execute_response
  | Cancel_agent_request
  | Capture_terminal_request
  | Chat_create
  | Chat_delete
  | Chat_inspect
  | Chat_list
  | Chat_post
  | Chat_read
  | Chat_wait
  | Checkout_ci_download_job_log_request
  | Checkout_ci_list_runs_request
  | Checkout_streams_get_graph_request
  | Checkout_commits_file_diff_request
  | Checkout_commits_list_request
  | Checkout_discard_changes_request
  | Checkout_forge_get_check_details_request
  | Checkout_forge_set_auto_merge_request
  | Checkout_github_get_check_details_request
  | Checkout_github_set_auto_merge_request
  | Checkout_refresh_request
  | Checkout_rename_branch_request
  | Checkout_commit_request
  | Checkout_merge_from_base_request
  | Checkout_merge_request
  | Checkout_pr_create_request
  | Checkout_pr_merge_request
  | Checkout_pr_status_request
  | Checkout_pull_request
  | Checkout_push_request
  | Checkout_status_request
  | Checkout_switch_branch_request
  | Clear_agent_attention
  | Client_heartbeat
  | Close_items_request

datatype (plugins only: code size) inbound_3 =
    Create_agent_request
  | Create_frogg_worktree_request
  | Create_terminal_request
  | Daemon_config_reload_request
  | Daemon_dev_daemon_get_status_request
  | Daemon_dev_daemon_rebuild_request
  | Daemon_dev_daemon_start_request
  | Daemon_dev_daemon_stop_request
  | Daemon_get_pairing_offer_request
  | Daemon_web_ui_get_status_request
  | Daemon_web_ui_start_request
  | Daemon_web_ui_stop_request
  | Daemon_web_ui_update_request
  | Daemon_get_security_posture_request
  | Daemon_set_security_finding_acknowledged_request
  | Daemon_get_status_request
  | Daemon_host_get_metrics_request
  | Daemon_skills_get_content_request
  | Daemon_skills_list_request
  | Daemon_skills_set_enabled_request
  | Daemon_storage_clean_request
  | Daemon_storage_list_request
  | Daemon_update_check_request
  | Daemon_update_get_status_request
  | Daemon_update_request
  | Daemon_update_start_request

datatype (plugins only: code size) inbound_4 =
    Delete_agent_request
  | Diagnostics_request
  | Dictation_stream_cancel
  | Dictation_stream_chunk
  | Dictation_stream_finish
  | Dictation_stream_start
  | Directory_suggestions_request
  | Fetch_agent_history_request
  | Fetch_agent_request
  | Fetch_agent_timeline_request
  | Fetch_agents_request
  | Fetch_recent_provider_sessions_request
  | Fetch_workspaces_request
  | File_upload_request
  | File_download_token_request
  | File_explorer_request
  | Forge_search_request
  | Fs_directory_zip_request
  | Fs_entry_create_request
  | Fs_entry_delete_request
  | Fs_entry_duplicate_request
  | Fs_entry_rename_request
  | Fs_file_subscribe_request
  | Fs_file_unsubscribe_request
  | Fs_file_write_request

datatype (plugins only: code size) inbound_5 =
    Get_daemon_config_request
  | Get_providers_snapshot_request
  | Github_search_request
  | Hub_execution_agent_create_request
  | Hub_execution_agent_validate_request
  | Hub_execution_control_request
  | Hub_management_daemon_connect_request
  | Hub_management_daemon_disconnect_request
  | Hub_management_daemon_get_status_request
  | Hub_management_daemon_permissions_update_request
  | Import_agent_request
  | Kill_terminal_request
  | List_available_editors_request
  | List_available_providers_request
  | List_commands_request
  | List_provider_features_request
  | List_provider_models_request
  | List_provider_modes_request
  | List_terminals_request
  | Loop_inspect
  | Loop_list
  | Loop_logs
  | Loop_run
  | Loop_stop

datatype (plugins only: code size) inbound_6 =
    Open_in_editor_request
  | Open_project_request
  | Ping
  | Plugins_dev_link_request
  | Plugins_dev_set_enabled_request
  | Plugins_dev_unlink_request
  | Plugins_get_catalog_request
  | Plugins_get_contributions_request
  | Plugins_install_request
  | Plugins_list_request
  | Plugins_repos_add_request
  | Plugins_repos_list_request
  | Plugins_repos_remove_request
  | Plugins_rpc_call_request
  | Plugins_set_enabled_request
  | Plugins_set_remote_control_request
  | Plugins_settings_get_request
  | Plugins_settings_set_request
  | Plugins_uninstall_request
  | Plugins_update_request

datatype (plugins only: code size) inbound_7 =
    Project_add_request
  | Project_create_directory_request
  | Project_github_clone_request
  | Project_icon_get_request
  | Project_icon_set_request
  | Project_import_cancel_request
  | Project_import_commit_request
  | Project_import_list_request
  | Project_import_prepare_request
  | Project_import_preview_request
  | Project_import_read_request
  | Project_import_upload_request
  | Project_list_request
  | Project_remove_request
  | Project_rename_request
  | Project_todo_create_request
  | Project_todo_delete_request
  | Project_todo_get_request
  | Project_todo_list_request
  | Project_todo_release_request
  | Project_todo_set_status_request
  | Project_todo_unsubscribe_request
  | Project_todo_update_request
  | Project_todo_update_plan_request

datatype (plugins only: code size) inbound_8 =
    Project_icon_request
  | Provider_account_create_request
  | Provider_account_delete_request
  | Provider_account_export_request
  | Provider_account_import_request
  | Provider_account_list_request
  | Provider_account_rename_request
  | Provider_account_set_active_request
  | Provider_account_set_allowed_models_request
  | Provider_account_set_preferences_request
  | Provider_claude_plugins_list_request
  | Provider_account_sign_out_request
  | Provider_update_check_request
  | Provider_update_install_request
  | Provider_update_set_preferences_request
  | Provider_usage_list_request
  | Provider_diagnostic_request
  | Pull_request_timeline_request
  | Push_unregister_request
  | Read_project_config_request

datatype (plugins only: code size) inbound_9 =
    Refresh_agent_request
  | Refresh_providers_snapshot_request
  | Register_push_token
  | Restart_server_request
  | Resume_agent_request
  | Send_agent_message_request
  | Set_agent_feature_request
  | Set_agent_mode_request
  | Set_agent_model_request
  | Set_agent_thinking_request
  | Set_daemon_config_request
  | Set_voice_mode
  | Shutdown_server_request
  | Start_workspace_script_request

datatype (plugins only: code size) inbound_10 =
    Stash_list_request
  | Stash_pop_request
  | Stash_save_request
  | Subscribe_checkout_diff_request
  | Subscribe_terminal_request
  | Subscribe_terminals_request
  | Terminal_rename_request
  | Terminal_input
  | Unsubscribe_checkout_diff_request
  | Unsubscribe_terminal_request
  | Unsubscribe_terminals_request
  | Update_agent_request
  | Validate_branch_request
  | Voice_audio_chunk
  | Wait_for_finish_request
  | Workspace_clear_attention_request
  | Workspace_create_request
  | Workspace_github_search_repositories_request
  | Workspace_label_assignment_set_request
  | Workspace_label_delete_inspect_request
  | Workspace_label_delete_request
  | Workspace_label_list_request
  | Workspace_label_update_request
  | Workspace_pin_set_request
  | Workspace_recovery_inspect_request
  | Workspace_recovery_restore_request
  | Workspace_script_list_request
  | Workspace_script_start_request
  | Workspace_script_stop_request
  | Workspace_title_set_request
  | Workspace_setup_status_request
  | Write_project_config_request

datatype (plugins only: code size) inbound_11 =
    Companion_audio_chunk
  | Companion_audio_played
  | Companion_message_send_request
  | Companion_notebook_fetch_request
  | Companion_session_start_request
  | Companion_session_stop_request

datatype (plugins only: code size) inbound_12 =
    Frogg_worktree_archive_request
  | Frogg_worktree_list_request
  | Notification_audio_request
  | Presence_get_request
  | Presence_list_connections_request
  | Presence_report_request

datatype inbound_operation =
    In1 inbound_1
  | In2 inbound_2
  | In3 inbound_3
  | In4 inbound_4
  | In5 inbound_5
  | In6 inbound_6
  | In7 inbound_7
  | In8 inbound_8
  | In9 inbound_9
  | In10 inbound_10
  | In11 inbound_11
  | In12 inbound_12

datatype (plugins only: code size) outbound_1 =
    OActivity_log
  | OAgent_config_apply_response
  | OAgent_cancel_auto_resume_response
  | OAgent_clean_cut_response
  | OAgent_detach_response
  | OAgent_fork_context_response
  | OAgent_provider_account_transfer_response
  | OAgent_provider_definitions_list_response
  | OAgent_provider_subagents_list_response
  | OAgent_provider_subagents_timeline_get_response
  | OAgent_provider_subagents_update
  | OAgent_rewind_response
  | OAgent_timeline_list_prompts_response
  | OAgent_timeline_replacement
  | OAgent_timeline_set_subscription_response
  | OAgent_archived
  | OAgent_attention_required
  | OAgent_deleted
  | OAgent_permission_request
  | OAgent_permission_resolved
  | OAgent_status
  | OAgent_stream
  | OAgent_update
  | OArchive_workspace_response
  | OArtifact
  | OAssistant_chunk

datatype (plugins only: code size) outbound_2 =
    OAudio_output
  | OAuth_device_list_response
  | OAuth_device_rename_response
  | OAuth_device_revoke_response
  | OAuth_device_set_role_response
  | OAuth_pairing_code_create_response
  | OAuth_pairing_request_decide_response
  | OAuth_pairing_request_list_response
  | OAuth_pairing_request_update
  | OAuth_password_set_response
  | OAuth_settings_get_response
  | OAuth_settings_update_response
  | OBranch_suggestions_response
  | OBrowser_automation_execute_request
  | OCancel_agent_response
  | OCapture_terminal_response
  | OChat_create_response
  | OChat_delete_response
  | OChat_inspect_response
  | OChat_list_response
  | OChat_post_response
  | OChat_read_response
  | OChat_wait_response
  | OCheckout_ci_download_job_log_response
  | OCheckout_ci_list_runs_response
  | OCheckout_streams_get_graph_response

datatype (plugins only: code size) outbound_3 =
    OCheckout_commits_file_diff_response
  | OCheckout_commits_list_response
  | OCheckout_discard_changes_response
  | OCheckout_forge_get_check_details_response
  | OCheckout_forge_set_auto_merge_response
  | OCheckout_github_get_check_details_response
  | OCheckout_github_set_auto_merge_response
  | OCheckout_refresh_response
  | OCheckout_rename_branch_response
  | OCheckout_commit_response
  | OCheckout_diff_update
  | OCheckout_merge_from_base_response
  | OCheckout_merge_response
  | OCheckout_pr_create_response
  | OCheckout_pr_merge_response
  | OCheckout_pr_status_response
  | OCheckout_pull_response
  | OCheckout_push_response
  | OCheckout_status_response
  | OCheckout_status_update
  | OCheckout_switch_branch_response
  | OClear_agent_attention_response
  | OCompanion_audio_output
  | OCompanion_input_state
  | OCompanion_job_update
  | OCompanion_message_send_response

datatype (plugins only: code size) outbound_4 =
    OCompanion_notebook_fetch_response
  | OCompanion_notebook_update
  | OCompanion_reply
  | OCompanion_session_start_response
  | OCompanion_session_stop_response
  | OCompanion_transcript
  | OClose_items_response
  | OCreate_frogg_worktree_response
  | OCreate_terminal_response
  | ODaemon_config_reload_response
  | ODaemon_dev_daemon_get_status_response
  | ODaemon_dev_daemon_rebuild_response
  | ODaemon_dev_daemon_start_response
  | ODaemon_dev_daemon_stop_response
  | ODaemon_get_pairing_offer_response
  | ODaemon_web_ui_get_status_response
  | ODaemon_web_ui_start_response
  | ODaemon_web_ui_stop_response
  | ODaemon_web_ui_update_response
  | ODaemon_get_security_posture_response
  | ODaemon_set_security_finding_acknowledged_response
  | ODaemon_get_status_response
  | ODaemon_host_get_metrics_response
  | ODaemon_skills_get_content_response
  | ODaemon_skills_list_response
  | ODaemon_skills_set_enabled_response

datatype (plugins only: code size) outbound_5 =
    ODaemon_storage_clean_response
  | ODaemon_storage_list_response
  | ODaemon_update_progress
  | ODaemon_update_response
  | ODaemon_update_check_response
  | ODaemon_update_start_response
  | ODaemon_update_get_status_response
  | ODaemon_update_run_progress
  | ODiagnostics_response
  | ODictation_stream_ack
  | ODictation_stream_error
  | ODictation_stream_final
  | ODictation_stream_finish_accepted
  | ODictation_stream_partial
  | ODirectory_suggestions_response
  | OFetch_agent_history_response
  | OFetch_agent_response
  | OFetch_agent_timeline_response
  | OFetch_agents_response
  | OFetch_recent_provider_sessions_response
  | OFetch_workspaces_response
  | OFile_upload_response
  | OFile_download_token_response
  | OFile_explorer_response
  | OForge_search_response
  | OFs_directory_zip_response

datatype (plugins only: code size) outbound_6 =
    OFs_entry_create_response
  | OFs_entry_delete_response
  | OFs_entry_duplicate_response
  | OFs_entry_rename_response
  | OFs_file_subscribe_response
  | OFs_file_unsubscribe_response
  | OFs_file_update
  | OFs_file_write_response
  | OGet_daemon_config_response
  | OGet_providers_snapshot_response
  | OGithub_search_response
  | OHub_execution_agent_create_response
  | OHub_execution_agent_stream
  | OHub_execution_agent_update
  | OHub_execution_agent_validate_response
  | OHub_execution_control_response
  | OHub_management_daemon_connect_response
  | OHub_management_daemon_disconnect_response
  | OHub_management_daemon_get_status_response
  | OHub_management_daemon_permissions_update_response
  | OKill_terminal_response
  | OList_available_editors_response
  | OList_available_providers_response
  | OList_commands_response
  | OList_provider_features_response
  | OList_provider_models_response

datatype (plugins only: code size) outbound_7 =
    OList_provider_modes_response
  | OList_terminals_response
  | OLoop_inspect_response
  | OLoop_list_response
  | OLoop_logs_response
  | OLoop_run_response
  | OLoop_stop_response
  | OOpen_in_editor_response
  | OOpen_project_response
  | OFrogg_worktree_archive_response
  | OFrogg_worktree_list_response
  | OPlugins_changed
  | OPlugins_dev_link_response
  | OPlugins_dev_set_enabled_response
  | OPlugins_dev_unlink_response
  | OPlugins_event
  | OPlugins_get_catalog_response
  | OPlugins_get_contributions_response
  | OPlugins_install_response
  | OPlugins_list_response
  | OPlugins_notify
  | OPlugins_repos_add_response
  | OPlugins_repos_list_response
  | OPlugins_repos_remove_response
  | OPlugins_rpc_call_response
  | OPlugins_set_enabled_response

datatype (plugins only: code size) outbound_8 =
    OPlugins_set_remote_control_response
  | OPlugins_settings_get_response
  | OPlugins_settings_set_response
  | OPlugins_uninstall_response
  | OPlugins_update_response
  | OPong
  | OPresence_get_response
  | OPresence_list_connections_response
  | OPresence_report_response
  | OPresence_update
  | OProject_add_response
  | OProject_import_cancel_response
  | OProject_import_commit_response
  | OProject_import_list_response
  | OProject_import_prepare_response
  | OProject_import_preview_response
  | OProject_import_read_response
  | OProject_import_upload_response
  | OProject_create_directory_response
  | OProject_github_clone_response
  | OProject_icon_get_response
  | OProject_icon_set_response
  | OProject_list_response
  | OProject_remove_response
  | OProject_rename_response
  | OProject_todo_changed

datatype (plugins only: code size) outbound_9 =
    OProject_todo_create_response
  | OProject_todo_delete_response
  | OProject_todo_get_response
  | OProject_todo_list_response
  | OProject_todo_release_response
  | OProject_todo_set_status_response
  | OProject_todo_unsubscribe_response
  | OProject_todo_update_response
  | OProject_todo_update_plan_response
  | OProject_update
  | OProject_icon_response
  | OProvider_account_create_response
  | OProvider_account_delete_response
  | OProvider_account_export_response
  | OProvider_account_import_response
  | OProvider_account_list_response
  | OProvider_account_rename_response
  | OProvider_account_set_active_response
  | OProvider_account_set_allowed_models_response
  | OProvider_account_set_preferences_response
  | OProvider_claude_plugins_list_response
  | OProvider_account_sign_out_response
  | OProvider_update_check_response
  | OProvider_update_install_response
  | OProvider_update_set_preferences_response
  | OProvider_usage_list_response

datatype (plugins only: code size) outbound_10 =
    OProvider_diagnostic_response
  | OProviders_snapshot_update
  | OPull_request_timeline_response
  | OPush_unregister_response
  | ONotification_audio_response
  | ORead_project_config_response
  | ORefresh_providers_snapshot_response
  | ORpc_error
  | OScript_status_update
  | OSend_agent_message_response
  | OSet_agent_feature_response
  | OSet_agent_mode_response
  | OSet_agent_model_response
  | OSet_agent_thinking_response
  | OSet_daemon_config_response
  | OSet_voice_mode_response
  | OStart_workspace_script_response
  | OStash_list_response
  | OStash_pop_response
  | OStash_save_response
  | OStatus
  | OSubscribe_checkout_diff_response
  | OSubscribe_terminal_response
  | OTerminal_rename_response
  | OTerminal_attention_required
  | OTerminal_stream_exit

datatype (plugins only: code size) outbound_11 =
    OTerminals_changed
  | OTranscription_result
  | OUpdate_agent_response
  | OValidate_branch_response
  | OVoice_input_state
  | OWait_for_finish_response
  | OWorkspace_clear_attention_response
  | OWorkspace_create_response
  | OWorkspace_github_search_repositories_response
  | OWorkspace_label_assignment_set_response
  | OWorkspace_label_delete_inspect_response
  | OWorkspace_label_delete_response
  | OWorkspace_label_list_response
  | OWorkspace_label_update
  | OWorkspace_label_update_response
  | OWorkspace_pin_set_response
  | OWorkspace_recovery_inspect_response
  | OWorkspace_recovery_restore_response
  | OWorkspace_script_list_response
  | OWorkspace_script_start_response
  | OWorkspace_script_stop_response
  | OWorkspace_title_set_response
  | OWorkspace_setup_progress
  | OWorkspace_setup_status_response
  | OWorkspace_update
  | OWrite_project_config_response

datatype outbound_operation =
    Out1 outbound_1
  | Out2 outbound_2
  | Out3 outbound_3
  | Out4 outbound_4
  | Out5 outbound_5
  | Out6 outbound_6
  | Out7 outbound_7
  | Out8 outbound_8
  | Out9 outbound_9
  | Out10 outbound_10
  | Out11 outbound_11

end
