(* ===== verification/Authorization.thy ===== *)
theory Authorization
  imports Roles Operations
begin

text \<open>
  The authorization of a session: the role and permission tables of
  \<open>authorization/roles.ts\<close> and \<open>authorization/operation-permissions.ts\<close>, and the class
  \<open>SessionAuthorization\<close> of \<open>authorization/index.ts\<close>. Each table is a total function on the
  operations, as the source's \<open>satisfies Record<...>\<close> demands; a permission of \<open>null\<close> is
  \<^const>\<open>None\<close>.
\<close>

section \<open>The role table of inbound operations\<close>

fun INBOUND_ROLE_1 :: "inbound_1 \<Rightarrow> device_role" where
  "INBOUND_ROLE_1 Abort_request = Operator"
| "INBOUND_ROLE_1 Agent_config_apply_request = Operator"
| "INBOUND_ROLE_1 Agent_cancel_auto_resume_request = Operator"
| "INBOUND_ROLE_1 Agent_clean_cut_request = Operator"
| "INBOUND_ROLE_1 Agent_detach_request = Operator"
| "INBOUND_ROLE_1 Agent_fork_context_request = Viewer"
| "INBOUND_ROLE_1 Agent_provider_account_transfer_request = Operator"
| "INBOUND_ROLE_1 Agent_provider_definitions_list_request = Viewer"
| "INBOUND_ROLE_1 Agent_provider_subagents_list_request = Viewer"
| "INBOUND_ROLE_1 Agent_provider_subagents_timeline_get_request = Viewer"
| "INBOUND_ROLE_1 Agent_rewind_request = Operator"
| "INBOUND_ROLE_1 Agent_timeline_list_prompts_request = Viewer"
| "INBOUND_ROLE_1 Agent_timeline_set_subscription_request = Viewer"
| "INBOUND_ROLE_1 Agent_permission_response = Operator"
| "INBOUND_ROLE_1 Archive_agent_request = Operator"
| "INBOUND_ROLE_1 Archive_workspace_request = Operator"
| "INBOUND_ROLE_1 Audio_played = Operator"
| "INBOUND_ROLE_1 Auth_device_list_request = Operator"
| "INBOUND_ROLE_1 Auth_device_rename_request = Owner"
| "INBOUND_ROLE_1 Auth_device_revoke_request = Owner"
| "INBOUND_ROLE_1 Auth_device_set_role_request = Owner"
| "INBOUND_ROLE_1 Auth_pairing_code_create_request = Owner"
| "INBOUND_ROLE_1 Auth_pairing_request_decide_request = Owner"
| "INBOUND_ROLE_1 Auth_pairing_request_list_request = Owner"
| "INBOUND_ROLE_1 Auth_password_set_request = Owner"
| "INBOUND_ROLE_1 Auth_settings_get_request = Operator"
| "INBOUND_ROLE_1 Auth_settings_update_request = Owner"

fun INBOUND_ROLE_2 :: "inbound_2 \<Rightarrow> device_role" where
  "INBOUND_ROLE_2 Branch_suggestions_request = Viewer"
| "INBOUND_ROLE_2 Browser_automation_execute_response = Operator"
| "INBOUND_ROLE_2 Cancel_agent_request = Operator"
| "INBOUND_ROLE_2 Capture_terminal_request = Viewer"
| "INBOUND_ROLE_2 Chat_create = Operator"
| "INBOUND_ROLE_2 Chat_delete = Operator"
| "INBOUND_ROLE_2 Chat_inspect = Viewer"
| "INBOUND_ROLE_2 Chat_list = Viewer"
| "INBOUND_ROLE_2 Chat_post = Operator"
| "INBOUND_ROLE_2 Chat_read = Viewer"
| "INBOUND_ROLE_2 Chat_wait = Viewer"
| "INBOUND_ROLE_2 Checkout_ci_download_job_log_request = Operator"
| "INBOUND_ROLE_2 Checkout_ci_list_runs_request = Viewer"
| "INBOUND_ROLE_2 Checkout_streams_get_graph_request = Viewer"
| "INBOUND_ROLE_2 Checkout_commits_file_diff_request = Viewer"
| "INBOUND_ROLE_2 Checkout_commits_list_request = Viewer"
| "INBOUND_ROLE_2 Checkout_discard_changes_request = Operator"
| "INBOUND_ROLE_2 Checkout_forge_get_check_details_request = Viewer"
| "INBOUND_ROLE_2 Checkout_forge_set_auto_merge_request = Operator"
| "INBOUND_ROLE_2 Checkout_github_get_check_details_request = Viewer"
| "INBOUND_ROLE_2 Checkout_github_set_auto_merge_request = Operator"
| "INBOUND_ROLE_2 Checkout_refresh_request = Viewer"
| "INBOUND_ROLE_2 Checkout_rename_branch_request = Operator"
| "INBOUND_ROLE_2 Checkout_commit_request = Operator"
| "INBOUND_ROLE_2 Checkout_merge_from_base_request = Operator"
| "INBOUND_ROLE_2 Checkout_merge_request = Operator"
| "INBOUND_ROLE_2 Checkout_pr_create_request = Operator"
| "INBOUND_ROLE_2 Checkout_pr_merge_request = Operator"
| "INBOUND_ROLE_2 Checkout_pr_status_request = Viewer"
| "INBOUND_ROLE_2 Checkout_pull_request = Operator"
| "INBOUND_ROLE_2 Checkout_push_request = Operator"
| "INBOUND_ROLE_2 Checkout_status_request = Viewer"
| "INBOUND_ROLE_2 Checkout_switch_branch_request = Operator"
| "INBOUND_ROLE_2 Clear_agent_attention = Operator"
| "INBOUND_ROLE_2 Client_heartbeat = Viewer"
| "INBOUND_ROLE_2 Close_items_request = Operator"

fun INBOUND_ROLE_3 :: "inbound_3 \<Rightarrow> device_role" where
  "INBOUND_ROLE_3 Create_agent_request = Operator"
| "INBOUND_ROLE_3 Create_frogg_worktree_request = Operator"
| "INBOUND_ROLE_3 Create_terminal_request = Operator"
| "INBOUND_ROLE_3 Daemon_config_reload_request = Owner"
| "INBOUND_ROLE_3 Daemon_dev_daemon_get_status_request = Owner"
| "INBOUND_ROLE_3 Daemon_dev_daemon_rebuild_request = Owner"
| "INBOUND_ROLE_3 Daemon_dev_daemon_start_request = Owner"
| "INBOUND_ROLE_3 Daemon_dev_daemon_stop_request = Owner"
| "INBOUND_ROLE_3 Daemon_get_pairing_offer_request = Owner"
| "INBOUND_ROLE_3 Daemon_web_ui_get_status_request = Owner"
| "INBOUND_ROLE_3 Daemon_web_ui_start_request = Owner"
| "INBOUND_ROLE_3 Daemon_web_ui_stop_request = Owner"
| "INBOUND_ROLE_3 Daemon_web_ui_update_request = Owner"
| "INBOUND_ROLE_3 Daemon_get_security_posture_request = Owner"
| "INBOUND_ROLE_3 Daemon_set_security_finding_acknowledged_request = Owner"
| "INBOUND_ROLE_3 Daemon_get_status_request = Viewer"
| "INBOUND_ROLE_3 Daemon_host_get_metrics_request = Viewer"
| "INBOUND_ROLE_3 Daemon_skills_get_content_request = Operator"
| "INBOUND_ROLE_3 Daemon_skills_list_request = Operator"
| "INBOUND_ROLE_3 Daemon_skills_set_enabled_request = Owner"
| "INBOUND_ROLE_3 Daemon_storage_clean_request = Operator"
| "INBOUND_ROLE_3 Daemon_storage_list_request = Operator"
| "INBOUND_ROLE_3 Daemon_update_check_request = Owner"
| "INBOUND_ROLE_3 Daemon_update_get_status_request = Owner"
| "INBOUND_ROLE_3 Daemon_update_request = Owner"
| "INBOUND_ROLE_3 Daemon_update_start_request = Owner"

fun INBOUND_ROLE_4 :: "inbound_4 \<Rightarrow> device_role" where
  "INBOUND_ROLE_4 Delete_agent_request = Operator"
| "INBOUND_ROLE_4 Diagnostics_request = Operator"
| "INBOUND_ROLE_4 Dictation_stream_cancel = Operator"
| "INBOUND_ROLE_4 Dictation_stream_chunk = Operator"
| "INBOUND_ROLE_4 Dictation_stream_finish = Operator"
| "INBOUND_ROLE_4 Dictation_stream_start = Operator"
| "INBOUND_ROLE_4 Directory_suggestions_request = Viewer"
| "INBOUND_ROLE_4 Fetch_agent_history_request = Viewer"
| "INBOUND_ROLE_4 Fetch_agent_request = Viewer"
| "INBOUND_ROLE_4 Fetch_agent_timeline_request = Viewer"
| "INBOUND_ROLE_4 Fetch_agents_request = Viewer"
| "INBOUND_ROLE_4 Fetch_recent_provider_sessions_request = Viewer"
| "INBOUND_ROLE_4 Fetch_workspaces_request = Viewer"
| "INBOUND_ROLE_4 File_upload_request = Operator"
| "INBOUND_ROLE_4 File_download_token_request = Viewer"
| "INBOUND_ROLE_4 File_explorer_request = Viewer"
| "INBOUND_ROLE_4 Forge_search_request = Viewer"
| "INBOUND_ROLE_4 Fs_directory_zip_request = Viewer"
| "INBOUND_ROLE_4 Fs_entry_create_request = Operator"
| "INBOUND_ROLE_4 Fs_entry_delete_request = Operator"
| "INBOUND_ROLE_4 Fs_entry_duplicate_request = Operator"
| "INBOUND_ROLE_4 Fs_entry_rename_request = Operator"
| "INBOUND_ROLE_4 Fs_file_subscribe_request = Viewer"
| "INBOUND_ROLE_4 Fs_file_unsubscribe_request = Viewer"
| "INBOUND_ROLE_4 Fs_file_write_request = Operator"

fun INBOUND_ROLE_5 :: "inbound_5 \<Rightarrow> device_role" where
  "INBOUND_ROLE_5 Get_daemon_config_request = Operator"
| "INBOUND_ROLE_5 Get_providers_snapshot_request = Viewer"
| "INBOUND_ROLE_5 Github_search_request = Viewer"
| "INBOUND_ROLE_5 Hub_execution_agent_create_request = Operator"
| "INBOUND_ROLE_5 Hub_execution_agent_validate_request = Operator"
| "INBOUND_ROLE_5 Hub_execution_control_request = Operator"
| "INBOUND_ROLE_5 Hub_management_daemon_connect_request = Owner"
| "INBOUND_ROLE_5 Hub_management_daemon_disconnect_request = Owner"
| "INBOUND_ROLE_5 Hub_management_daemon_get_status_request = Owner"
| "INBOUND_ROLE_5 Hub_management_daemon_permissions_update_request = Owner"
| "INBOUND_ROLE_5 Import_agent_request = Operator"
| "INBOUND_ROLE_5 Kill_terminal_request = Operator"
| "INBOUND_ROLE_5 List_available_editors_request = Viewer"
| "INBOUND_ROLE_5 List_available_providers_request = Viewer"
| "INBOUND_ROLE_5 List_commands_request = Viewer"
| "INBOUND_ROLE_5 List_provider_features_request = Viewer"
| "INBOUND_ROLE_5 List_provider_models_request = Viewer"
| "INBOUND_ROLE_5 List_provider_modes_request = Viewer"
| "INBOUND_ROLE_5 List_terminals_request = Viewer"
| "INBOUND_ROLE_5 Loop_inspect = Viewer"
| "INBOUND_ROLE_5 Loop_list = Viewer"
| "INBOUND_ROLE_5 Loop_logs = Viewer"
| "INBOUND_ROLE_5 Loop_run = Operator"
| "INBOUND_ROLE_5 Loop_stop = Operator"

fun INBOUND_ROLE_6 :: "inbound_6 \<Rightarrow> device_role" where
  "INBOUND_ROLE_6 Open_in_editor_request = Operator"
| "INBOUND_ROLE_6 Open_project_request = Operator"
| "INBOUND_ROLE_6 Ping = Viewer"
| "INBOUND_ROLE_6 Plugins_dev_link_request = Owner"
| "INBOUND_ROLE_6 Plugins_dev_set_enabled_request = Owner"
| "INBOUND_ROLE_6 Plugins_dev_unlink_request = Owner"
| "INBOUND_ROLE_6 Plugins_get_catalog_request = Viewer"
| "INBOUND_ROLE_6 Plugins_get_contributions_request = Viewer"
| "INBOUND_ROLE_6 Plugins_install_request = Owner"
| "INBOUND_ROLE_6 Plugins_list_request = Viewer"
| "INBOUND_ROLE_6 Plugins_repos_add_request = Owner"
| "INBOUND_ROLE_6 Plugins_repos_list_request = Viewer"
| "INBOUND_ROLE_6 Plugins_repos_remove_request = Owner"
| "INBOUND_ROLE_6 Plugins_rpc_call_request = Operator"
| "INBOUND_ROLE_6 Plugins_set_enabled_request = Owner"
| "INBOUND_ROLE_6 Plugins_set_remote_control_request = Owner"
| "INBOUND_ROLE_6 Plugins_settings_get_request = Viewer"
| "INBOUND_ROLE_6 Plugins_settings_set_request = Owner"
| "INBOUND_ROLE_6 Plugins_uninstall_request = Owner"
| "INBOUND_ROLE_6 Plugins_update_request = Owner"

fun INBOUND_ROLE_7 :: "inbound_7 \<Rightarrow> device_role" where
  "INBOUND_ROLE_7 Project_add_request = Operator"
| "INBOUND_ROLE_7 Project_create_directory_request = Operator"
| "INBOUND_ROLE_7 Project_github_clone_request = Operator"
| "INBOUND_ROLE_7 Project_icon_get_request = Viewer"
| "INBOUND_ROLE_7 Project_icon_set_request = Operator"
| "INBOUND_ROLE_7 Project_import_cancel_request = Operator"
| "INBOUND_ROLE_7 Project_import_commit_request = Operator"
| "INBOUND_ROLE_7 Project_import_list_request = Operator"
| "INBOUND_ROLE_7 Project_import_prepare_request = Operator"
| "INBOUND_ROLE_7 Project_import_preview_request = Operator"
| "INBOUND_ROLE_7 Project_import_read_request = Operator"
| "INBOUND_ROLE_7 Project_import_upload_request = Operator"
| "INBOUND_ROLE_7 Project_list_request = Viewer"
| "INBOUND_ROLE_7 Project_remove_request = Operator"
| "INBOUND_ROLE_7 Project_rename_request = Operator"
| "INBOUND_ROLE_7 Project_todo_create_request = Operator"
| "INBOUND_ROLE_7 Project_todo_delete_request = Operator"
| "INBOUND_ROLE_7 Project_todo_get_request = Viewer"
| "INBOUND_ROLE_7 Project_todo_list_request = Viewer"
| "INBOUND_ROLE_7 Project_todo_release_request = Operator"
| "INBOUND_ROLE_7 Project_todo_set_status_request = Operator"
| "INBOUND_ROLE_7 Project_todo_unsubscribe_request = Viewer"
| "INBOUND_ROLE_7 Project_todo_update_request = Operator"
| "INBOUND_ROLE_7 Project_todo_update_plan_request = Operator"

fun INBOUND_ROLE_8 :: "inbound_8 \<Rightarrow> device_role" where
  "INBOUND_ROLE_8 Project_icon_request = Viewer"
| "INBOUND_ROLE_8 Provider_account_create_request = Owner"
| "INBOUND_ROLE_8 Provider_account_delete_request = Owner"
| "INBOUND_ROLE_8 Provider_account_export_request = Owner"
| "INBOUND_ROLE_8 Provider_account_import_request = Owner"
| "INBOUND_ROLE_8 Provider_account_list_request = Viewer"
| "INBOUND_ROLE_8 Provider_account_rename_request = Owner"
| "INBOUND_ROLE_8 Provider_account_set_active_request = Owner"
| "INBOUND_ROLE_8 Provider_account_set_allowed_models_request = Owner"
| "INBOUND_ROLE_8 Provider_account_set_preferences_request = Owner"
| "INBOUND_ROLE_8 Provider_claude_plugins_list_request = Viewer"
| "INBOUND_ROLE_8 Provider_account_sign_out_request = Owner"
| "INBOUND_ROLE_8 Provider_update_check_request = Viewer"
| "INBOUND_ROLE_8 Provider_update_install_request = Owner"
| "INBOUND_ROLE_8 Provider_update_set_preferences_request = Owner"
| "INBOUND_ROLE_8 Provider_usage_list_request = Viewer"
| "INBOUND_ROLE_8 Provider_diagnostic_request = Operator"
| "INBOUND_ROLE_8 Pull_request_timeline_request = Viewer"
| "INBOUND_ROLE_8 Push_unregister_request = Viewer"
| "INBOUND_ROLE_8 Read_project_config_request = Viewer"

fun INBOUND_ROLE_9 :: "inbound_9 \<Rightarrow> device_role" where
  "INBOUND_ROLE_9 Refresh_agent_request = Operator"
| "INBOUND_ROLE_9 Refresh_providers_snapshot_request = Operator"
| "INBOUND_ROLE_9 Register_push_token = Viewer"
| "INBOUND_ROLE_9 Restart_server_request = Owner"
| "INBOUND_ROLE_9 Resume_agent_request = Operator"
| "INBOUND_ROLE_9 Send_agent_message_request = Operator"
| "INBOUND_ROLE_9 Set_agent_feature_request = Operator"
| "INBOUND_ROLE_9 Set_agent_mode_request = Operator"
| "INBOUND_ROLE_9 Set_agent_model_request = Operator"
| "INBOUND_ROLE_9 Set_agent_thinking_request = Operator"
| "INBOUND_ROLE_9 Set_daemon_config_request = Owner"
| "INBOUND_ROLE_9 Set_voice_mode = Operator"
| "INBOUND_ROLE_9 Shutdown_server_request = Owner"
| "INBOUND_ROLE_9 Start_workspace_script_request = Operator"

fun INBOUND_ROLE_10 :: "inbound_10 \<Rightarrow> device_role" where
  "INBOUND_ROLE_10 Stash_list_request = Viewer"
| "INBOUND_ROLE_10 Stash_pop_request = Operator"
| "INBOUND_ROLE_10 Stash_save_request = Operator"
| "INBOUND_ROLE_10 Subscribe_checkout_diff_request = Viewer"
| "INBOUND_ROLE_10 Subscribe_terminal_request = Viewer"
| "INBOUND_ROLE_10 Subscribe_terminals_request = Viewer"
| "INBOUND_ROLE_10 Terminal_rename_request = Operator"
| "INBOUND_ROLE_10 Terminal_input = Operator"
| "INBOUND_ROLE_10 Unsubscribe_checkout_diff_request = Viewer"
| "INBOUND_ROLE_10 Unsubscribe_terminal_request = Viewer"
| "INBOUND_ROLE_10 Unsubscribe_terminals_request = Viewer"
| "INBOUND_ROLE_10 Update_agent_request = Operator"
| "INBOUND_ROLE_10 Validate_branch_request = Viewer"
| "INBOUND_ROLE_10 Voice_audio_chunk = Operator"
| "INBOUND_ROLE_10 Wait_for_finish_request = Viewer"
| "INBOUND_ROLE_10 Workspace_clear_attention_request = Operator"
| "INBOUND_ROLE_10 Workspace_create_request = Operator"
| "INBOUND_ROLE_10 Workspace_github_search_repositories_request = Viewer"
| "INBOUND_ROLE_10 Workspace_label_assignment_set_request = Operator"
| "INBOUND_ROLE_10 Workspace_label_delete_inspect_request = Viewer"
| "INBOUND_ROLE_10 Workspace_label_delete_request = Operator"
| "INBOUND_ROLE_10 Workspace_label_list_request = Viewer"
| "INBOUND_ROLE_10 Workspace_label_update_request = Operator"
| "INBOUND_ROLE_10 Workspace_pin_set_request = Operator"
| "INBOUND_ROLE_10 Workspace_recovery_inspect_request = Viewer"
| "INBOUND_ROLE_10 Workspace_recovery_restore_request = Operator"
| "INBOUND_ROLE_10 Workspace_script_list_request = Viewer"
| "INBOUND_ROLE_10 Workspace_script_start_request = Operator"
| "INBOUND_ROLE_10 Workspace_script_stop_request = Operator"
| "INBOUND_ROLE_10 Workspace_title_set_request = Operator"
| "INBOUND_ROLE_10 Workspace_setup_status_request = Viewer"
| "INBOUND_ROLE_10 Write_project_config_request = Operator"

fun INBOUND_ROLE_11 :: "inbound_11 \<Rightarrow> device_role" where
  "INBOUND_ROLE_11 Companion_audio_chunk = Operator"
| "INBOUND_ROLE_11 Companion_audio_played = Operator"
| "INBOUND_ROLE_11 Companion_message_send_request = Operator"
| "INBOUND_ROLE_11 Companion_notebook_fetch_request = Viewer"
| "INBOUND_ROLE_11 Companion_session_start_request = Operator"
| "INBOUND_ROLE_11 Companion_session_stop_request = Operator"

fun INBOUND_ROLE_12 :: "inbound_12 \<Rightarrow> device_role" where
  "INBOUND_ROLE_12 Frogg_worktree_archive_request = Operator"
| "INBOUND_ROLE_12 Frogg_worktree_list_request = Viewer"
| "INBOUND_ROLE_12 Notification_audio_request = Viewer"
| "INBOUND_ROLE_12 Presence_get_request = Viewer"
| "INBOUND_ROLE_12 Presence_list_connections_request = Viewer"
| "INBOUND_ROLE_12 Presence_report_request = Viewer"

fun INBOUND_ROLE :: "inbound_operation \<Rightarrow> device_role" where
  "INBOUND_ROLE (In1 x) = INBOUND_ROLE_1 x"
| "INBOUND_ROLE (In2 x) = INBOUND_ROLE_2 x"
| "INBOUND_ROLE (In3 x) = INBOUND_ROLE_3 x"
| "INBOUND_ROLE (In4 x) = INBOUND_ROLE_4 x"
| "INBOUND_ROLE (In5 x) = INBOUND_ROLE_5 x"
| "INBOUND_ROLE (In6 x) = INBOUND_ROLE_6 x"
| "INBOUND_ROLE (In7 x) = INBOUND_ROLE_7 x"
| "INBOUND_ROLE (In8 x) = INBOUND_ROLE_8 x"
| "INBOUND_ROLE (In9 x) = INBOUND_ROLE_9 x"
| "INBOUND_ROLE (In10 x) = INBOUND_ROLE_10 x"
| "INBOUND_ROLE (In11 x) = INBOUND_ROLE_11 x"
| "INBOUND_ROLE (In12 x) = INBOUND_ROLE_12 x"

section \<open>The permission tables\<close>

fun INBOUND_PERMISSION_1 :: "inbound_1 \<Rightarrow> daemon_permission option" where
  "INBOUND_PERMISSION_1 Abort_request = Some WorkspaceWrite"
| "INBOUND_PERMISSION_1 Agent_config_apply_request = Some WorkspaceWrite"
| "INBOUND_PERMISSION_1 Agent_cancel_auto_resume_request = Some WorkspaceWrite"
| "INBOUND_PERMISSION_1 Agent_clean_cut_request = Some WorkspaceWrite"
| "INBOUND_PERMISSION_1 Agent_detach_request = Some WorkspaceWrite"
| "INBOUND_PERMISSION_1 Agent_fork_context_request = Some WorkspaceRead"
| "INBOUND_PERMISSION_1 Agent_provider_account_transfer_request = Some WorkspaceWrite"
| "INBOUND_PERMISSION_1 Agent_provider_definitions_list_request = Some WorkspaceRead"
| "INBOUND_PERMISSION_1 Agent_provider_subagents_list_request = Some WorkspaceRead"
| "INBOUND_PERMISSION_1 Agent_provider_subagents_timeline_get_request = Some WorkspaceRead"
| "INBOUND_PERMISSION_1 Agent_rewind_request = Some WorkspaceWrite"
| "INBOUND_PERMISSION_1 Agent_timeline_list_prompts_request = Some WorkspaceRead"
| "INBOUND_PERMISSION_1 Agent_timeline_set_subscription_request = Some WorkspaceRead"
| "INBOUND_PERMISSION_1 Agent_permission_response = Some WorkspaceWrite"
| "INBOUND_PERMISSION_1 Archive_agent_request = Some WorkspaceWrite"
| "INBOUND_PERMISSION_1 Archive_workspace_request = Some WorkspaceManage"
| "INBOUND_PERMISSION_1 Audio_played = Some WorkspaceWrite"
| "INBOUND_PERMISSION_1 Auth_device_list_request = Some AccessManage"
| "INBOUND_PERMISSION_1 Auth_device_rename_request = Some AccessManage"
| "INBOUND_PERMISSION_1 Auth_device_revoke_request = Some AccessManage"
| "INBOUND_PERMISSION_1 Auth_device_set_role_request = Some AccessManage"
| "INBOUND_PERMISSION_1 Auth_pairing_code_create_request = Some AccessManage"
| "INBOUND_PERMISSION_1 Auth_pairing_request_decide_request = Some AccessManage"
| "INBOUND_PERMISSION_1 Auth_pairing_request_list_request = Some AccessManage"
| "INBOUND_PERMISSION_1 Auth_password_set_request = Some AccessManage"
| "INBOUND_PERMISSION_1 Auth_settings_get_request = Some AccessManage"
| "INBOUND_PERMISSION_1 Auth_settings_update_request = Some AccessManage"

fun INBOUND_PERMISSION_2 :: "inbound_2 \<Rightarrow> daemon_permission option" where
  "INBOUND_PERMISSION_2 Branch_suggestions_request = Some WorkspaceRead"
| "INBOUND_PERMISSION_2 Browser_automation_execute_response = Some WorkspaceWrite"
| "INBOUND_PERMISSION_2 Cancel_agent_request = Some WorkspaceWrite"
| "INBOUND_PERMISSION_2 Capture_terminal_request = Some WorkspaceRead"
| "INBOUND_PERMISSION_2 Chat_create = Some WorkspaceWrite"
| "INBOUND_PERMISSION_2 Chat_delete = Some WorkspaceWrite"
| "INBOUND_PERMISSION_2 Chat_inspect = Some WorkspaceRead"
| "INBOUND_PERMISSION_2 Chat_list = Some WorkspaceRead"
| "INBOUND_PERMISSION_2 Chat_post = Some WorkspaceWrite"
| "INBOUND_PERMISSION_2 Chat_read = Some WorkspaceRead"
| "INBOUND_PERMISSION_2 Chat_wait = Some WorkspaceRead"
| "INBOUND_PERMISSION_2 Checkout_ci_download_job_log_request = Some WorkspaceWrite"
| "INBOUND_PERMISSION_2 Checkout_ci_list_runs_request = Some WorkspaceRead"
| "INBOUND_PERMISSION_2 Checkout_streams_get_graph_request = Some WorkspaceRead"
| "INBOUND_PERMISSION_2 Checkout_commits_file_diff_request = Some WorkspaceRead"
| "INBOUND_PERMISSION_2 Checkout_commits_list_request = Some WorkspaceRead"
| "INBOUND_PERMISSION_2 Checkout_discard_changes_request = Some WorkspaceWrite"
| "INBOUND_PERMISSION_2 Checkout_forge_get_check_details_request = Some WorkspaceRead"
| "INBOUND_PERMISSION_2 Checkout_forge_set_auto_merge_request = Some WorkspaceWrite"
| "INBOUND_PERMISSION_2 Checkout_github_get_check_details_request = Some WorkspaceRead"
| "INBOUND_PERMISSION_2 Checkout_github_set_auto_merge_request = Some WorkspaceWrite"
| "INBOUND_PERMISSION_2 Checkout_refresh_request = Some WorkspaceRead"
| "INBOUND_PERMISSION_2 Checkout_rename_branch_request = Some WorkspaceWrite"
| "INBOUND_PERMISSION_2 Checkout_commit_request = Some WorkspaceWrite"
| "INBOUND_PERMISSION_2 Checkout_merge_from_base_request = Some WorkspaceWrite"
| "INBOUND_PERMISSION_2 Checkout_merge_request = Some WorkspaceWrite"
| "INBOUND_PERMISSION_2 Checkout_pr_create_request = Some WorkspaceWrite"
| "INBOUND_PERMISSION_2 Checkout_pr_merge_request = Some WorkspaceWrite"
| "INBOUND_PERMISSION_2 Checkout_pr_status_request = Some WorkspaceRead"
| "INBOUND_PERMISSION_2 Checkout_pull_request = Some WorkspaceWrite"
| "INBOUND_PERMISSION_2 Checkout_push_request = Some WorkspaceWrite"
| "INBOUND_PERMISSION_2 Checkout_status_request = Some WorkspaceRead"
| "INBOUND_PERMISSION_2 Checkout_switch_branch_request = Some WorkspaceWrite"
| "INBOUND_PERMISSION_2 Clear_agent_attention = Some WorkspaceWrite"
| "INBOUND_PERMISSION_2 Client_heartbeat = Some WorkspaceRead"
| "INBOUND_PERMISSION_2 Close_items_request = Some WorkspaceManage"

fun INBOUND_PERMISSION_3 :: "inbound_3 \<Rightarrow> daemon_permission option" where
  "INBOUND_PERMISSION_3 Create_agent_request = Some WorkspaceWrite"
| "INBOUND_PERMISSION_3 Create_frogg_worktree_request = Some WorkspaceManage"
| "INBOUND_PERMISSION_3 Create_terminal_request = Some WorkspaceWrite"
| "INBOUND_PERMISSION_3 Daemon_config_reload_request = Some DaemonManage"
| "INBOUND_PERMISSION_3 Daemon_dev_daemon_get_status_request = Some DaemonManage"
| "INBOUND_PERMISSION_3 Daemon_dev_daemon_rebuild_request = Some DaemonManage"
| "INBOUND_PERMISSION_3 Daemon_dev_daemon_start_request = Some DaemonManage"
| "INBOUND_PERMISSION_3 Daemon_dev_daemon_stop_request = Some DaemonManage"
| "INBOUND_PERMISSION_3 Daemon_get_pairing_offer_request = Some AccessManage"
| "INBOUND_PERMISSION_3 Daemon_web_ui_get_status_request = Some DaemonManage"
| "INBOUND_PERMISSION_3 Daemon_web_ui_start_request = Some DaemonManage"
| "INBOUND_PERMISSION_3 Daemon_web_ui_stop_request = Some DaemonManage"
| "INBOUND_PERMISSION_3 Daemon_web_ui_update_request = Some DaemonManage"
| "INBOUND_PERMISSION_3 Daemon_get_security_posture_request = Some AccessManage"
| "INBOUND_PERMISSION_3 Daemon_set_security_finding_acknowledged_request = Some AccessManage"
| "INBOUND_PERMISSION_3 Daemon_get_status_request = Some DaemonRead"
| "INBOUND_PERMISSION_3 Daemon_host_get_metrics_request = Some DaemonRead"
| "INBOUND_PERMISSION_3 Daemon_skills_get_content_request = Some DaemonRead"
| "INBOUND_PERMISSION_3 Daemon_skills_list_request = Some DaemonRead"
| "INBOUND_PERMISSION_3 Daemon_skills_set_enabled_request = Some DaemonManage"
| "INBOUND_PERMISSION_3 Daemon_storage_clean_request = Some WorkspaceWrite"
| "INBOUND_PERMISSION_3 Daemon_storage_list_request = Some DaemonRead"
| "INBOUND_PERMISSION_3 Daemon_update_request = Some DaemonManage"
| "INBOUND_PERMISSION_3 Daemon_update_check_request = Some DaemonManage"
| "INBOUND_PERMISSION_3 Daemon_update_start_request = Some DaemonManage"
| "INBOUND_PERMISSION_3 Daemon_update_get_status_request = Some DaemonManage"

fun INBOUND_PERMISSION_4 :: "inbound_4 \<Rightarrow> daemon_permission option" where
  "INBOUND_PERMISSION_4 Delete_agent_request = Some WorkspaceWrite"
| "INBOUND_PERMISSION_4 Diagnostics_request = Some DaemonRead"
| "INBOUND_PERMISSION_4 Dictation_stream_cancel = Some WorkspaceWrite"
| "INBOUND_PERMISSION_4 Dictation_stream_chunk = Some WorkspaceWrite"
| "INBOUND_PERMISSION_4 Dictation_stream_finish = Some WorkspaceWrite"
| "INBOUND_PERMISSION_4 Dictation_stream_start = Some WorkspaceWrite"
| "INBOUND_PERMISSION_4 Directory_suggestions_request = Some WorkspaceRead"
| "INBOUND_PERMISSION_4 Fetch_agent_history_request = Some WorkspaceRead"
| "INBOUND_PERMISSION_4 Fetch_agent_request = Some WorkspaceRead"
| "INBOUND_PERMISSION_4 Fetch_agent_timeline_request = Some WorkspaceRead"
| "INBOUND_PERMISSION_4 Fetch_agents_request = Some WorkspaceRead"
| "INBOUND_PERMISSION_4 Fetch_recent_provider_sessions_request = Some WorkspaceRead"
| "INBOUND_PERMISSION_4 Fetch_workspaces_request = Some WorkspaceRead"
| "INBOUND_PERMISSION_4 File_upload_request = Some WorkspaceWrite"
| "INBOUND_PERMISSION_4 File_download_token_request = Some WorkspaceRead"
| "INBOUND_PERMISSION_4 File_explorer_request = Some WorkspaceRead"
| "INBOUND_PERMISSION_4 Forge_search_request = Some WorkspaceRead"
| "INBOUND_PERMISSION_4 Fs_directory_zip_request = Some WorkspaceRead"
| "INBOUND_PERMISSION_4 Fs_entry_create_request = Some WorkspaceWrite"
| "INBOUND_PERMISSION_4 Fs_entry_delete_request = Some WorkspaceWrite"
| "INBOUND_PERMISSION_4 Fs_entry_duplicate_request = Some WorkspaceWrite"
| "INBOUND_PERMISSION_4 Fs_entry_rename_request = Some WorkspaceWrite"
| "INBOUND_PERMISSION_4 Fs_file_subscribe_request = Some WorkspaceRead"
| "INBOUND_PERMISSION_4 Fs_file_unsubscribe_request = Some WorkspaceRead"
| "INBOUND_PERMISSION_4 Fs_file_write_request = Some WorkspaceWrite"

fun INBOUND_PERMISSION_5 :: "inbound_5 \<Rightarrow> daemon_permission option" where
  "INBOUND_PERMISSION_5 Get_daemon_config_request = Some DaemonRead"
| "INBOUND_PERMISSION_5 Get_providers_snapshot_request = Some DaemonRead"
| "INBOUND_PERMISSION_5 Github_search_request = Some WorkspaceRead"
| "INBOUND_PERMISSION_5 Hub_execution_agent_create_request = Some HubExecute"
| "INBOUND_PERMISSION_5 Hub_execution_agent_validate_request = Some HubExecute"
| "INBOUND_PERMISSION_5 Hub_execution_control_request = Some HubExecute"
| "INBOUND_PERMISSION_5 Hub_management_daemon_connect_request = Some TunnelManage"
| "INBOUND_PERMISSION_5 Hub_management_daemon_disconnect_request = Some TunnelManage"
| "INBOUND_PERMISSION_5 Hub_management_daemon_get_status_request = Some TunnelManage"
| "INBOUND_PERMISSION_5 Hub_management_daemon_permissions_update_request = Some AccessManage"
| "INBOUND_PERMISSION_5 Import_agent_request = Some WorkspaceWrite"
| "INBOUND_PERMISSION_5 Kill_terminal_request = Some WorkspaceWrite"
| "INBOUND_PERMISSION_5 List_available_editors_request = Some WorkspaceRead"
| "INBOUND_PERMISSION_5 List_available_providers_request = Some DaemonRead"
| "INBOUND_PERMISSION_5 List_commands_request = Some DaemonRead"
| "INBOUND_PERMISSION_5 List_provider_features_request = Some DaemonRead"
| "INBOUND_PERMISSION_5 List_provider_models_request = Some DaemonRead"
| "INBOUND_PERMISSION_5 List_provider_modes_request = Some DaemonRead"
| "INBOUND_PERMISSION_5 List_terminals_request = Some WorkspaceRead"
| "INBOUND_PERMISSION_5 Loop_inspect = Some AutomationManage"
| "INBOUND_PERMISSION_5 Loop_list = Some AutomationManage"
| "INBOUND_PERMISSION_5 Loop_logs = Some AutomationManage"
| "INBOUND_PERMISSION_5 Loop_run = Some AutomationManage"
| "INBOUND_PERMISSION_5 Loop_stop = Some AutomationManage"

fun INBOUND_PERMISSION_6 :: "inbound_6 \<Rightarrow> daemon_permission option" where
  "INBOUND_PERMISSION_6 Open_in_editor_request = Some WorkspaceWrite"
| "INBOUND_PERMISSION_6 Open_project_request = Some WorkspaceManage"
| "INBOUND_PERMISSION_6 Ping = Some DaemonRead"
| "INBOUND_PERMISSION_6 Plugins_dev_link_request = Some DaemonManage"
| "INBOUND_PERMISSION_6 Plugins_dev_set_enabled_request = Some DaemonManage"
| "INBOUND_PERMISSION_6 Plugins_dev_unlink_request = Some DaemonManage"
| "INBOUND_PERMISSION_6 Plugins_get_catalog_request = Some DaemonRead"
| "INBOUND_PERMISSION_6 Plugins_get_contributions_request = Some DaemonRead"
| "INBOUND_PERMISSION_6 Plugins_install_request = Some DaemonManage"
| "INBOUND_PERMISSION_6 Plugins_list_request = Some DaemonRead"
| "INBOUND_PERMISSION_6 Plugins_repos_add_request = Some DaemonManage"
| "INBOUND_PERMISSION_6 Plugins_repos_list_request = Some DaemonRead"
| "INBOUND_PERMISSION_6 Plugins_repos_remove_request = Some DaemonManage"
| "INBOUND_PERMISSION_6 Plugins_rpc_call_request = Some WorkspaceWrite"
| "INBOUND_PERMISSION_6 Plugins_set_enabled_request = Some DaemonManage"
| "INBOUND_PERMISSION_6 Plugins_set_remote_control_request = Some DaemonManage"
| "INBOUND_PERMISSION_6 Plugins_settings_get_request = Some DaemonRead"
| "INBOUND_PERMISSION_6 Plugins_settings_set_request = Some DaemonManage"
| "INBOUND_PERMISSION_6 Plugins_uninstall_request = Some DaemonManage"
| "INBOUND_PERMISSION_6 Plugins_update_request = Some DaemonManage"

fun INBOUND_PERMISSION_7 :: "inbound_7 \<Rightarrow> daemon_permission option" where
  "INBOUND_PERMISSION_7 Project_add_request = Some WorkspaceManage"
| "INBOUND_PERMISSION_7 Project_import_cancel_request = Some WorkspaceManage"
| "INBOUND_PERMISSION_7 Project_import_commit_request = Some WorkspaceManage"
| "INBOUND_PERMISSION_7 Project_import_list_request = Some WorkspaceManage"
| "INBOUND_PERMISSION_7 Project_import_prepare_request = Some WorkspaceManage"
| "INBOUND_PERMISSION_7 Project_import_preview_request = Some WorkspaceManage"
| "INBOUND_PERMISSION_7 Project_import_read_request = Some WorkspaceManage"
| "INBOUND_PERMISSION_7 Project_import_upload_request = Some WorkspaceManage"
| "INBOUND_PERMISSION_7 Project_create_directory_request = Some WorkspaceManage"
| "INBOUND_PERMISSION_7 Project_github_clone_request = Some WorkspaceManage"
| "INBOUND_PERMISSION_7 Project_icon_get_request = Some WorkspaceRead"
| "INBOUND_PERMISSION_7 Project_icon_set_request = Some WorkspaceManage"
| "INBOUND_PERMISSION_7 Project_list_request = Some WorkspaceRead"
| "INBOUND_PERMISSION_7 Project_remove_request = Some WorkspaceManage"
| "INBOUND_PERMISSION_7 Project_rename_request = Some WorkspaceManage"
| "INBOUND_PERMISSION_7 Project_todo_create_request = Some WorkspaceManage"
| "INBOUND_PERMISSION_7 Project_todo_delete_request = Some WorkspaceManage"
| "INBOUND_PERMISSION_7 Project_todo_get_request = Some WorkspaceRead"
| "INBOUND_PERMISSION_7 Project_todo_list_request = Some WorkspaceRead"
| "INBOUND_PERMISSION_7 Project_todo_release_request = Some WorkspaceManage"
| "INBOUND_PERMISSION_7 Project_todo_set_status_request = Some WorkspaceManage"
| "INBOUND_PERMISSION_7 Project_todo_unsubscribe_request = Some WorkspaceRead"
| "INBOUND_PERMISSION_7 Project_todo_update_request = Some WorkspaceManage"
| "INBOUND_PERMISSION_7 Project_todo_update_plan_request = Some WorkspaceManage"

fun INBOUND_PERMISSION_8 :: "inbound_8 \<Rightarrow> daemon_permission option" where
  "INBOUND_PERMISSION_8 Project_icon_request = Some WorkspaceRead"
| "INBOUND_PERMISSION_8 Provider_account_create_request = Some DaemonManage"
| "INBOUND_PERMISSION_8 Provider_account_delete_request = Some DaemonManage"
| "INBOUND_PERMISSION_8 Provider_account_export_request = Some DaemonManage"
| "INBOUND_PERMISSION_8 Provider_account_import_request = Some DaemonManage"
| "INBOUND_PERMISSION_8 Provider_account_list_request = Some DaemonRead"
| "INBOUND_PERMISSION_8 Provider_account_rename_request = Some DaemonManage"
| "INBOUND_PERMISSION_8 Provider_account_set_active_request = Some DaemonManage"
| "INBOUND_PERMISSION_8 Provider_account_set_allowed_models_request = Some DaemonManage"
| "INBOUND_PERMISSION_8 Provider_account_set_preferences_request = Some DaemonManage"
| "INBOUND_PERMISSION_8 Provider_claude_plugins_list_request = Some DaemonRead"
| "INBOUND_PERMISSION_8 Provider_account_sign_out_request = Some DaemonManage"
| "INBOUND_PERMISSION_8 Provider_update_check_request = Some DaemonRead"
| "INBOUND_PERMISSION_8 Provider_update_install_request = Some DaemonManage"
| "INBOUND_PERMISSION_8 Provider_update_set_preferences_request = Some DaemonManage"
| "INBOUND_PERMISSION_8 Provider_usage_list_request = Some DaemonRead"
| "INBOUND_PERMISSION_8 Provider_diagnostic_request = Some DaemonRead"
| "INBOUND_PERMISSION_8 Pull_request_timeline_request = Some WorkspaceRead"
| "INBOUND_PERMISSION_8 Push_unregister_request = Some WorkspaceRead"
| "INBOUND_PERMISSION_8 Read_project_config_request = Some WorkspaceRead"

fun INBOUND_PERMISSION_9 :: "inbound_9 \<Rightarrow> daemon_permission option" where
  "INBOUND_PERMISSION_9 Refresh_agent_request = Some WorkspaceWrite"
| "INBOUND_PERMISSION_9 Refresh_providers_snapshot_request = Some DaemonRead"
| "INBOUND_PERMISSION_9 Register_push_token = Some WorkspaceRead"
| "INBOUND_PERMISSION_9 Restart_server_request = Some DaemonManage"
| "INBOUND_PERMISSION_9 Resume_agent_request = Some WorkspaceWrite"
| "INBOUND_PERMISSION_9 Send_agent_message_request = Some WorkspaceWrite"
| "INBOUND_PERMISSION_9 Set_agent_feature_request = Some WorkspaceWrite"
| "INBOUND_PERMISSION_9 Set_agent_mode_request = Some WorkspaceWrite"
| "INBOUND_PERMISSION_9 Set_agent_model_request = Some WorkspaceWrite"
| "INBOUND_PERMISSION_9 Set_agent_thinking_request = Some WorkspaceWrite"
| "INBOUND_PERMISSION_9 Set_daemon_config_request = Some DaemonManage"
| "INBOUND_PERMISSION_9 Set_voice_mode = Some WorkspaceWrite"
| "INBOUND_PERMISSION_9 Shutdown_server_request = Some DaemonManage"
| "INBOUND_PERMISSION_9 Start_workspace_script_request = Some WorkspaceWrite"

fun INBOUND_PERMISSION_10 :: "inbound_10 \<Rightarrow> daemon_permission option" where
  "INBOUND_PERMISSION_10 Stash_list_request = Some WorkspaceRead"
| "INBOUND_PERMISSION_10 Stash_pop_request = Some WorkspaceWrite"
| "INBOUND_PERMISSION_10 Stash_save_request = Some WorkspaceWrite"
| "INBOUND_PERMISSION_10 Subscribe_checkout_diff_request = Some WorkspaceRead"
| "INBOUND_PERMISSION_10 Subscribe_terminal_request = Some WorkspaceRead"
| "INBOUND_PERMISSION_10 Subscribe_terminals_request = Some WorkspaceRead"
| "INBOUND_PERMISSION_10 Terminal_rename_request = Some WorkspaceWrite"
| "INBOUND_PERMISSION_10 Terminal_input = Some WorkspaceWrite"
| "INBOUND_PERMISSION_10 Unsubscribe_checkout_diff_request = Some WorkspaceRead"
| "INBOUND_PERMISSION_10 Unsubscribe_terminal_request = Some WorkspaceRead"
| "INBOUND_PERMISSION_10 Unsubscribe_terminals_request = Some WorkspaceRead"
| "INBOUND_PERMISSION_10 Update_agent_request = Some WorkspaceWrite"
| "INBOUND_PERMISSION_10 Validate_branch_request = Some WorkspaceRead"
| "INBOUND_PERMISSION_10 Voice_audio_chunk = Some WorkspaceWrite"
| "INBOUND_PERMISSION_10 Wait_for_finish_request = Some WorkspaceRead"
| "INBOUND_PERMISSION_10 Workspace_clear_attention_request = Some WorkspaceWrite"
| "INBOUND_PERMISSION_10 Workspace_create_request = Some WorkspaceManage"
| "INBOUND_PERMISSION_10 Workspace_github_search_repositories_request = Some WorkspaceRead"
| "INBOUND_PERMISSION_10 Workspace_label_assignment_set_request = Some WorkspaceManage"
| "INBOUND_PERMISSION_10 Workspace_label_delete_inspect_request = Some WorkspaceRead"
| "INBOUND_PERMISSION_10 Workspace_label_delete_request = Some WorkspaceManage"
| "INBOUND_PERMISSION_10 Workspace_label_list_request = Some WorkspaceRead"
| "INBOUND_PERMISSION_10 Workspace_label_update_request = Some WorkspaceManage"
| "INBOUND_PERMISSION_10 Workspace_pin_set_request = Some WorkspaceManage"
| "INBOUND_PERMISSION_10 Workspace_recovery_inspect_request = Some WorkspaceRead"
| "INBOUND_PERMISSION_10 Workspace_recovery_restore_request = Some WorkspaceManage"
| "INBOUND_PERMISSION_10 Workspace_script_list_request = Some WorkspaceRead"
| "INBOUND_PERMISSION_10 Workspace_script_start_request = Some WorkspaceWrite"
| "INBOUND_PERMISSION_10 Workspace_script_stop_request = Some WorkspaceWrite"
| "INBOUND_PERMISSION_10 Workspace_title_set_request = Some WorkspaceManage"
| "INBOUND_PERMISSION_10 Workspace_setup_status_request = Some WorkspaceRead"
| "INBOUND_PERMISSION_10 Write_project_config_request = Some WorkspaceWrite"

fun INBOUND_PERMISSION_11 :: "inbound_11 \<Rightarrow> daemon_permission option" where
  "INBOUND_PERMISSION_11 Companion_audio_chunk = Some WorkspaceWrite"
| "INBOUND_PERMISSION_11 Companion_audio_played = Some WorkspaceWrite"
| "INBOUND_PERMISSION_11 Companion_message_send_request = Some WorkspaceWrite"
| "INBOUND_PERMISSION_11 Companion_notebook_fetch_request = Some WorkspaceRead"
| "INBOUND_PERMISSION_11 Companion_session_start_request = Some WorkspaceWrite"
| "INBOUND_PERMISSION_11 Companion_session_stop_request = Some WorkspaceWrite"

fun INBOUND_PERMISSION_12 :: "inbound_12 \<Rightarrow> daemon_permission option" where
  "INBOUND_PERMISSION_12 Frogg_worktree_archive_request = Some WorkspaceManage"
| "INBOUND_PERMISSION_12 Frogg_worktree_list_request = Some WorkspaceRead"
| "INBOUND_PERMISSION_12 Presence_get_request = Some WorkspaceRead"
| "INBOUND_PERMISSION_12 Presence_list_connections_request = Some WorkspaceRead"
| "INBOUND_PERMISSION_12 Presence_report_request = Some WorkspaceRead"
| "INBOUND_PERMISSION_12 Notification_audio_request = Some WorkspaceRead"

fun INBOUND_PERMISSION :: "inbound_operation \<Rightarrow> daemon_permission option" where
  "INBOUND_PERMISSION (In1 x) = INBOUND_PERMISSION_1 x"
| "INBOUND_PERMISSION (In2 x) = INBOUND_PERMISSION_2 x"
| "INBOUND_PERMISSION (In3 x) = INBOUND_PERMISSION_3 x"
| "INBOUND_PERMISSION (In4 x) = INBOUND_PERMISSION_4 x"
| "INBOUND_PERMISSION (In5 x) = INBOUND_PERMISSION_5 x"
| "INBOUND_PERMISSION (In6 x) = INBOUND_PERMISSION_6 x"
| "INBOUND_PERMISSION (In7 x) = INBOUND_PERMISSION_7 x"
| "INBOUND_PERMISSION (In8 x) = INBOUND_PERMISSION_8 x"
| "INBOUND_PERMISSION (In9 x) = INBOUND_PERMISSION_9 x"
| "INBOUND_PERMISSION (In10 x) = INBOUND_PERMISSION_10 x"
| "INBOUND_PERMISSION (In11 x) = INBOUND_PERMISSION_11 x"
| "INBOUND_PERMISSION (In12 x) = INBOUND_PERMISSION_12 x"

fun OUTBOUND_PERMISSION_1 :: "outbound_1 \<Rightarrow> daemon_permission option" where
  "OUTBOUND_PERMISSION_1 OActivity_log = Some WorkspaceRead"
| "OUTBOUND_PERMISSION_1 OAgent_config_apply_response = Some WorkspaceWrite"
| "OUTBOUND_PERMISSION_1 OAgent_cancel_auto_resume_response = Some WorkspaceWrite"
| "OUTBOUND_PERMISSION_1 OAgent_clean_cut_response = Some WorkspaceWrite"
| "OUTBOUND_PERMISSION_1 OAgent_detach_response = Some WorkspaceWrite"
| "OUTBOUND_PERMISSION_1 OAgent_fork_context_response = Some WorkspaceRead"
| "OUTBOUND_PERMISSION_1 OAgent_provider_account_transfer_response = Some WorkspaceWrite"
| "OUTBOUND_PERMISSION_1 OAgent_provider_definitions_list_response = Some WorkspaceRead"
| "OUTBOUND_PERMISSION_1 OAgent_provider_subagents_list_response = Some WorkspaceRead"
| "OUTBOUND_PERMISSION_1 OAgent_provider_subagents_timeline_get_response = Some WorkspaceRead"
| "OUTBOUND_PERMISSION_1 OAgent_provider_subagents_update = Some WorkspaceRead"
| "OUTBOUND_PERMISSION_1 OAgent_rewind_response = Some WorkspaceWrite"
| "OUTBOUND_PERMISSION_1 OAgent_timeline_list_prompts_response = Some WorkspaceRead"
| "OUTBOUND_PERMISSION_1 OAgent_timeline_replacement = Some WorkspaceRead"
| "OUTBOUND_PERMISSION_1 OAgent_timeline_set_subscription_response = Some WorkspaceRead"
| "OUTBOUND_PERMISSION_1 OAgent_archived = Some WorkspaceRead"
| "OUTBOUND_PERMISSION_1 OAgent_attention_required = Some WorkspaceRead"
| "OUTBOUND_PERMISSION_1 OAgent_deleted = Some WorkspaceRead"
| "OUTBOUND_PERMISSION_1 OAgent_permission_request = Some WorkspaceRead"
| "OUTBOUND_PERMISSION_1 OAgent_permission_resolved = Some WorkspaceWrite"
| "OUTBOUND_PERMISSION_1 OAgent_status = Some WorkspaceRead"
| "OUTBOUND_PERMISSION_1 OAgent_stream = Some WorkspaceRead"
| "OUTBOUND_PERMISSION_1 OAgent_update = Some WorkspaceRead"
| "OUTBOUND_PERMISSION_1 OArchive_workspace_response = Some WorkspaceManage"
| "OUTBOUND_PERMISSION_1 OArtifact = Some WorkspaceRead"
| "OUTBOUND_PERMISSION_1 OAssistant_chunk = Some WorkspaceRead"

fun OUTBOUND_PERMISSION_2 :: "outbound_2 \<Rightarrow> daemon_permission option" where
  "OUTBOUND_PERMISSION_2 OAudio_output = Some WorkspaceWrite"
| "OUTBOUND_PERMISSION_2 OAuth_device_list_response = Some AccessManage"
| "OUTBOUND_PERMISSION_2 OAuth_device_rename_response = Some AccessManage"
| "OUTBOUND_PERMISSION_2 OAuth_device_revoke_response = Some AccessManage"
| "OUTBOUND_PERMISSION_2 OAuth_device_set_role_response = Some AccessManage"
| "OUTBOUND_PERMISSION_2 OAuth_pairing_code_create_response = Some AccessManage"
| "OUTBOUND_PERMISSION_2 OAuth_pairing_request_decide_response = Some AccessManage"
| "OUTBOUND_PERMISSION_2 OAuth_pairing_request_list_response = Some AccessManage"
| "OUTBOUND_PERMISSION_2 OAuth_pairing_request_update = Some AccessManage"
| "OUTBOUND_PERMISSION_2 OAuth_password_set_response = Some AccessManage"
| "OUTBOUND_PERMISSION_2 OAuth_settings_get_response = Some AccessManage"
| "OUTBOUND_PERMISSION_2 OAuth_settings_update_response = Some AccessManage"
| "OUTBOUND_PERMISSION_2 OBranch_suggestions_response = Some WorkspaceRead"
| "OUTBOUND_PERMISSION_2 OBrowser_automation_execute_request = Some WorkspaceWrite"
| "OUTBOUND_PERMISSION_2 OCancel_agent_response = Some WorkspaceWrite"
| "OUTBOUND_PERMISSION_2 OCapture_terminal_response = Some WorkspaceRead"
| "OUTBOUND_PERMISSION_2 OChat_create_response = Some WorkspaceWrite"
| "OUTBOUND_PERMISSION_2 OChat_delete_response = Some WorkspaceWrite"
| "OUTBOUND_PERMISSION_2 OChat_inspect_response = Some WorkspaceRead"
| "OUTBOUND_PERMISSION_2 OChat_list_response = Some WorkspaceRead"
| "OUTBOUND_PERMISSION_2 OChat_post_response = Some WorkspaceWrite"
| "OUTBOUND_PERMISSION_2 OChat_read_response = Some WorkspaceRead"
| "OUTBOUND_PERMISSION_2 OChat_wait_response = Some WorkspaceRead"
| "OUTBOUND_PERMISSION_2 OCheckout_ci_download_job_log_response = Some WorkspaceWrite"
| "OUTBOUND_PERMISSION_2 OCheckout_ci_list_runs_response = Some WorkspaceRead"
| "OUTBOUND_PERMISSION_2 OCheckout_streams_get_graph_response = Some WorkspaceRead"

fun OUTBOUND_PERMISSION_3 :: "outbound_3 \<Rightarrow> daemon_permission option" where
  "OUTBOUND_PERMISSION_3 OCheckout_commits_file_diff_response = Some WorkspaceRead"
| "OUTBOUND_PERMISSION_3 OCheckout_commits_list_response = Some WorkspaceRead"
| "OUTBOUND_PERMISSION_3 OCheckout_discard_changes_response = Some WorkspaceWrite"
| "OUTBOUND_PERMISSION_3 OCheckout_forge_get_check_details_response = Some WorkspaceRead"
| "OUTBOUND_PERMISSION_3 OCheckout_forge_set_auto_merge_response = Some WorkspaceWrite"
| "OUTBOUND_PERMISSION_3 OCheckout_github_get_check_details_response = Some WorkspaceRead"
| "OUTBOUND_PERMISSION_3 OCheckout_github_set_auto_merge_response = Some WorkspaceWrite"
| "OUTBOUND_PERMISSION_3 OCheckout_refresh_response = Some WorkspaceRead"
| "OUTBOUND_PERMISSION_3 OCheckout_rename_branch_response = Some WorkspaceWrite"
| "OUTBOUND_PERMISSION_3 OCheckout_commit_response = Some WorkspaceWrite"
| "OUTBOUND_PERMISSION_3 OCheckout_diff_update = Some WorkspaceRead"
| "OUTBOUND_PERMISSION_3 OCheckout_merge_from_base_response = Some WorkspaceWrite"
| "OUTBOUND_PERMISSION_3 OCheckout_merge_response = Some WorkspaceWrite"
| "OUTBOUND_PERMISSION_3 OCheckout_pr_create_response = Some WorkspaceWrite"
| "OUTBOUND_PERMISSION_3 OCheckout_pr_merge_response = Some WorkspaceWrite"
| "OUTBOUND_PERMISSION_3 OCheckout_pr_status_response = Some WorkspaceRead"
| "OUTBOUND_PERMISSION_3 OCheckout_pull_response = Some WorkspaceWrite"
| "OUTBOUND_PERMISSION_3 OCheckout_push_response = Some WorkspaceWrite"
| "OUTBOUND_PERMISSION_3 OCheckout_status_response = Some WorkspaceRead"
| "OUTBOUND_PERMISSION_3 OCheckout_status_update = Some WorkspaceRead"
| "OUTBOUND_PERMISSION_3 OCheckout_switch_branch_response = Some WorkspaceWrite"
| "OUTBOUND_PERMISSION_3 OClear_agent_attention_response = Some WorkspaceWrite"
| "OUTBOUND_PERMISSION_3 OCompanion_audio_output = Some WorkspaceWrite"
| "OUTBOUND_PERMISSION_3 OCompanion_input_state = Some WorkspaceWrite"
| "OUTBOUND_PERMISSION_3 OCompanion_job_update = Some WorkspaceWrite"
| "OUTBOUND_PERMISSION_3 OCompanion_message_send_response = Some WorkspaceWrite"

fun OUTBOUND_PERMISSION_4 :: "outbound_4 \<Rightarrow> daemon_permission option" where
  "OUTBOUND_PERMISSION_4 OCompanion_notebook_fetch_response = Some WorkspaceRead"
| "OUTBOUND_PERMISSION_4 OCompanion_notebook_update = Some WorkspaceRead"
| "OUTBOUND_PERMISSION_4 OCompanion_reply = Some WorkspaceWrite"
| "OUTBOUND_PERMISSION_4 OCompanion_session_start_response = Some WorkspaceWrite"
| "OUTBOUND_PERMISSION_4 OCompanion_session_stop_response = Some WorkspaceWrite"
| "OUTBOUND_PERMISSION_4 OCompanion_transcript = Some WorkspaceWrite"
| "OUTBOUND_PERMISSION_4 OClose_items_response = Some WorkspaceManage"
| "OUTBOUND_PERMISSION_4 OCreate_frogg_worktree_response = Some WorkspaceManage"
| "OUTBOUND_PERMISSION_4 OCreate_terminal_response = Some WorkspaceWrite"
| "OUTBOUND_PERMISSION_4 ODaemon_config_reload_response = Some DaemonManage"
| "OUTBOUND_PERMISSION_4 ODaemon_dev_daemon_get_status_response = Some DaemonManage"
| "OUTBOUND_PERMISSION_4 ODaemon_dev_daemon_rebuild_response = Some DaemonManage"
| "OUTBOUND_PERMISSION_4 ODaemon_dev_daemon_start_response = Some DaemonManage"
| "OUTBOUND_PERMISSION_4 ODaemon_dev_daemon_stop_response = Some DaemonManage"
| "OUTBOUND_PERMISSION_4 ODaemon_get_pairing_offer_response = Some AccessManage"
| "OUTBOUND_PERMISSION_4 ODaemon_web_ui_get_status_response = Some DaemonManage"
| "OUTBOUND_PERMISSION_4 ODaemon_web_ui_start_response = Some DaemonManage"
| "OUTBOUND_PERMISSION_4 ODaemon_web_ui_stop_response = Some DaemonManage"
| "OUTBOUND_PERMISSION_4 ODaemon_web_ui_update_response = Some DaemonManage"
| "OUTBOUND_PERMISSION_4 ODaemon_get_security_posture_response = Some AccessManage"
| "OUTBOUND_PERMISSION_4 ODaemon_set_security_finding_acknowledged_response = Some AccessManage"
| "OUTBOUND_PERMISSION_4 ODaemon_get_status_response = Some DaemonRead"
| "OUTBOUND_PERMISSION_4 ODaemon_host_get_metrics_response = Some DaemonRead"
| "OUTBOUND_PERMISSION_4 ODaemon_skills_get_content_response = Some DaemonRead"
| "OUTBOUND_PERMISSION_4 ODaemon_skills_list_response = Some DaemonRead"
| "OUTBOUND_PERMISSION_4 ODaemon_skills_set_enabled_response = Some DaemonManage"

fun OUTBOUND_PERMISSION_5 :: "outbound_5 \<Rightarrow> daemon_permission option" where
  "OUTBOUND_PERMISSION_5 ODaemon_storage_clean_response = Some WorkspaceWrite"
| "OUTBOUND_PERMISSION_5 ODaemon_storage_list_response = Some DaemonRead"
| "OUTBOUND_PERMISSION_5 ODaemon_update_progress = Some DaemonManage"
| "OUTBOUND_PERMISSION_5 ODaemon_update_response = Some DaemonManage"
| "OUTBOUND_PERMISSION_5 ODaemon_update_check_response = Some DaemonManage"
| "OUTBOUND_PERMISSION_5 ODaemon_update_start_response = Some DaemonManage"
| "OUTBOUND_PERMISSION_5 ODaemon_update_get_status_response = Some DaemonManage"
| "OUTBOUND_PERMISSION_5 ODaemon_update_run_progress = Some DaemonManage"
| "OUTBOUND_PERMISSION_5 ODiagnostics_response = Some DaemonRead"
| "OUTBOUND_PERMISSION_5 ODictation_stream_ack = Some WorkspaceWrite"
| "OUTBOUND_PERMISSION_5 ODictation_stream_error = Some WorkspaceWrite"
| "OUTBOUND_PERMISSION_5 ODictation_stream_final = Some WorkspaceWrite"
| "OUTBOUND_PERMISSION_5 ODictation_stream_finish_accepted = Some WorkspaceWrite"
| "OUTBOUND_PERMISSION_5 ODictation_stream_partial = Some WorkspaceWrite"
| "OUTBOUND_PERMISSION_5 ODirectory_suggestions_response = Some WorkspaceRead"
| "OUTBOUND_PERMISSION_5 OFetch_agent_history_response = Some WorkspaceRead"
| "OUTBOUND_PERMISSION_5 OFetch_agent_response = Some WorkspaceRead"
| "OUTBOUND_PERMISSION_5 OFetch_agent_timeline_response = Some WorkspaceRead"
| "OUTBOUND_PERMISSION_5 OFetch_agents_response = Some WorkspaceRead"
| "OUTBOUND_PERMISSION_5 OFetch_recent_provider_sessions_response = Some WorkspaceRead"
| "OUTBOUND_PERMISSION_5 OFetch_workspaces_response = Some WorkspaceRead"
| "OUTBOUND_PERMISSION_5 OFile_upload_response = Some WorkspaceWrite"
| "OUTBOUND_PERMISSION_5 OFile_download_token_response = Some WorkspaceRead"
| "OUTBOUND_PERMISSION_5 OFile_explorer_response = Some WorkspaceRead"
| "OUTBOUND_PERMISSION_5 OForge_search_response = Some WorkspaceRead"
| "OUTBOUND_PERMISSION_5 OFs_directory_zip_response = Some WorkspaceRead"

fun OUTBOUND_PERMISSION_6 :: "outbound_6 \<Rightarrow> daemon_permission option" where
  "OUTBOUND_PERMISSION_6 OFs_entry_create_response = Some WorkspaceWrite"
| "OUTBOUND_PERMISSION_6 OFs_entry_delete_response = Some WorkspaceWrite"
| "OUTBOUND_PERMISSION_6 OFs_entry_duplicate_response = Some WorkspaceWrite"
| "OUTBOUND_PERMISSION_6 OFs_entry_rename_response = Some WorkspaceWrite"
| "OUTBOUND_PERMISSION_6 OFs_file_subscribe_response = Some WorkspaceRead"
| "OUTBOUND_PERMISSION_6 OFs_file_unsubscribe_response = Some WorkspaceRead"
| "OUTBOUND_PERMISSION_6 OFs_file_update = Some WorkspaceRead"
| "OUTBOUND_PERMISSION_6 OFs_file_write_response = Some WorkspaceWrite"
| "OUTBOUND_PERMISSION_6 OGet_daemon_config_response = Some DaemonRead"
| "OUTBOUND_PERMISSION_6 OGet_providers_snapshot_response = Some DaemonRead"
| "OUTBOUND_PERMISSION_6 OGithub_search_response = Some WorkspaceRead"
| "OUTBOUND_PERMISSION_6 OHub_execution_agent_create_response = Some HubExecute"
| "OUTBOUND_PERMISSION_6 OHub_execution_agent_stream = Some HubExecute"
| "OUTBOUND_PERMISSION_6 OHub_execution_agent_update = Some HubExecute"
| "OUTBOUND_PERMISSION_6 OHub_execution_agent_validate_response = Some HubExecute"
| "OUTBOUND_PERMISSION_6 OHub_execution_control_response = Some HubExecute"
| "OUTBOUND_PERMISSION_6 OHub_management_daemon_connect_response = Some TunnelManage"
| "OUTBOUND_PERMISSION_6 OHub_management_daemon_disconnect_response = Some TunnelManage"
| "OUTBOUND_PERMISSION_6 OHub_management_daemon_get_status_response = Some TunnelManage"
| "OUTBOUND_PERMISSION_6 OHub_management_daemon_permissions_update_response = Some AccessManage"
| "OUTBOUND_PERMISSION_6 OKill_terminal_response = Some WorkspaceWrite"
| "OUTBOUND_PERMISSION_6 OList_available_editors_response = Some WorkspaceRead"
| "OUTBOUND_PERMISSION_6 OList_available_providers_response = Some DaemonRead"
| "OUTBOUND_PERMISSION_6 OList_commands_response = Some DaemonRead"
| "OUTBOUND_PERMISSION_6 OList_provider_features_response = Some DaemonRead"
| "OUTBOUND_PERMISSION_6 OList_provider_models_response = Some DaemonRead"

fun OUTBOUND_PERMISSION_7 :: "outbound_7 \<Rightarrow> daemon_permission option" where
  "OUTBOUND_PERMISSION_7 OList_provider_modes_response = Some DaemonRead"
| "OUTBOUND_PERMISSION_7 OList_terminals_response = Some WorkspaceRead"
| "OUTBOUND_PERMISSION_7 OLoop_inspect_response = Some AutomationManage"
| "OUTBOUND_PERMISSION_7 OLoop_list_response = Some AutomationManage"
| "OUTBOUND_PERMISSION_7 OLoop_logs_response = Some AutomationManage"
| "OUTBOUND_PERMISSION_7 OLoop_run_response = Some AutomationManage"
| "OUTBOUND_PERMISSION_7 OLoop_stop_response = Some AutomationManage"
| "OUTBOUND_PERMISSION_7 OOpen_in_editor_response = Some WorkspaceRead"
| "OUTBOUND_PERMISSION_7 OOpen_project_response = Some WorkspaceManage"
| "OUTBOUND_PERMISSION_7 OFrogg_worktree_archive_response = Some WorkspaceManage"
| "OUTBOUND_PERMISSION_7 OFrogg_worktree_list_response = Some WorkspaceRead"
| "OUTBOUND_PERMISSION_7 OPlugins_changed = Some DaemonRead"
| "OUTBOUND_PERMISSION_7 OPlugins_dev_link_response = Some DaemonManage"
| "OUTBOUND_PERMISSION_7 OPlugins_dev_set_enabled_response = Some DaemonManage"
| "OUTBOUND_PERMISSION_7 OPlugins_dev_unlink_response = Some DaemonManage"
| "OUTBOUND_PERMISSION_7 OPlugins_event = Some DaemonRead"
| "OUTBOUND_PERMISSION_7 OPlugins_get_catalog_response = Some DaemonRead"
| "OUTBOUND_PERMISSION_7 OPlugins_get_contributions_response = Some DaemonRead"
| "OUTBOUND_PERMISSION_7 OPlugins_install_response = Some DaemonManage"
| "OUTBOUND_PERMISSION_7 OPlugins_list_response = Some DaemonRead"
| "OUTBOUND_PERMISSION_7 OPlugins_notify = Some DaemonRead"
| "OUTBOUND_PERMISSION_7 OPlugins_repos_add_response = Some DaemonManage"
| "OUTBOUND_PERMISSION_7 OPlugins_repos_list_response = Some DaemonRead"
| "OUTBOUND_PERMISSION_7 OPlugins_repos_remove_response = Some DaemonManage"
| "OUTBOUND_PERMISSION_7 OPlugins_rpc_call_response = Some WorkspaceWrite"
| "OUTBOUND_PERMISSION_7 OPlugins_set_enabled_response = Some DaemonManage"

fun OUTBOUND_PERMISSION_8 :: "outbound_8 \<Rightarrow> daemon_permission option" where
  "OUTBOUND_PERMISSION_8 OPlugins_set_remote_control_response = Some DaemonManage"
| "OUTBOUND_PERMISSION_8 OPlugins_settings_get_response = Some DaemonRead"
| "OUTBOUND_PERMISSION_8 OPlugins_settings_set_response = Some DaemonManage"
| "OUTBOUND_PERMISSION_8 OPlugins_uninstall_response = Some DaemonManage"
| "OUTBOUND_PERMISSION_8 OPlugins_update_response = Some DaemonManage"
| "OUTBOUND_PERMISSION_8 OPong = Some DaemonRead"
| "OUTBOUND_PERMISSION_8 OPresence_get_response = Some WorkspaceRead"
| "OUTBOUND_PERMISSION_8 OPresence_list_connections_response = Some WorkspaceRead"
| "OUTBOUND_PERMISSION_8 OPresence_report_response = Some WorkspaceRead"
| "OUTBOUND_PERMISSION_8 OPresence_update = Some WorkspaceRead"
| "OUTBOUND_PERMISSION_8 OProject_add_response = Some WorkspaceManage"
| "OUTBOUND_PERMISSION_8 OProject_import_cancel_response = Some WorkspaceManage"
| "OUTBOUND_PERMISSION_8 OProject_import_commit_response = Some WorkspaceManage"
| "OUTBOUND_PERMISSION_8 OProject_import_list_response = Some WorkspaceManage"
| "OUTBOUND_PERMISSION_8 OProject_import_prepare_response = Some WorkspaceManage"
| "OUTBOUND_PERMISSION_8 OProject_import_preview_response = Some WorkspaceManage"
| "OUTBOUND_PERMISSION_8 OProject_import_read_response = Some WorkspaceManage"
| "OUTBOUND_PERMISSION_8 OProject_import_upload_response = Some WorkspaceManage"
| "OUTBOUND_PERMISSION_8 OProject_create_directory_response = Some WorkspaceManage"
| "OUTBOUND_PERMISSION_8 OProject_github_clone_response = Some WorkspaceManage"
| "OUTBOUND_PERMISSION_8 OProject_icon_get_response = Some WorkspaceRead"
| "OUTBOUND_PERMISSION_8 OProject_icon_set_response = Some WorkspaceManage"
| "OUTBOUND_PERMISSION_8 OProject_list_response = Some WorkspaceRead"
| "OUTBOUND_PERMISSION_8 OProject_remove_response = Some WorkspaceManage"
| "OUTBOUND_PERMISSION_8 OProject_rename_response = Some WorkspaceManage"
| "OUTBOUND_PERMISSION_8 OProject_todo_changed = Some WorkspaceRead"

fun OUTBOUND_PERMISSION_9 :: "outbound_9 \<Rightarrow> daemon_permission option" where
  "OUTBOUND_PERMISSION_9 OProject_todo_create_response = Some WorkspaceManage"
| "OUTBOUND_PERMISSION_9 OProject_todo_delete_response = Some WorkspaceManage"
| "OUTBOUND_PERMISSION_9 OProject_todo_get_response = Some WorkspaceRead"
| "OUTBOUND_PERMISSION_9 OProject_todo_list_response = Some WorkspaceRead"
| "OUTBOUND_PERMISSION_9 OProject_todo_release_response = Some WorkspaceManage"
| "OUTBOUND_PERMISSION_9 OProject_todo_set_status_response = Some WorkspaceManage"
| "OUTBOUND_PERMISSION_9 OProject_todo_unsubscribe_response = Some WorkspaceRead"
| "OUTBOUND_PERMISSION_9 OProject_todo_update_response = Some WorkspaceManage"
| "OUTBOUND_PERMISSION_9 OProject_todo_update_plan_response = Some WorkspaceManage"
| "OUTBOUND_PERMISSION_9 OProject_update = Some WorkspaceRead"
| "OUTBOUND_PERMISSION_9 OProject_icon_response = Some WorkspaceRead"
| "OUTBOUND_PERMISSION_9 OProvider_account_create_response = Some DaemonManage"
| "OUTBOUND_PERMISSION_9 OProvider_account_delete_response = Some DaemonManage"
| "OUTBOUND_PERMISSION_9 OProvider_account_export_response = Some DaemonManage"
| "OUTBOUND_PERMISSION_9 OProvider_account_import_response = Some DaemonManage"
| "OUTBOUND_PERMISSION_9 OProvider_account_list_response = Some DaemonRead"
| "OUTBOUND_PERMISSION_9 OProvider_account_rename_response = Some DaemonManage"
| "OUTBOUND_PERMISSION_9 OProvider_account_set_active_response = Some DaemonManage"
| "OUTBOUND_PERMISSION_9 OProvider_account_set_allowed_models_response = Some DaemonManage"
| "OUTBOUND_PERMISSION_9 OProvider_account_set_preferences_response = Some DaemonManage"
| "OUTBOUND_PERMISSION_9 OProvider_claude_plugins_list_response = Some DaemonRead"
| "OUTBOUND_PERMISSION_9 OProvider_account_sign_out_response = Some DaemonManage"
| "OUTBOUND_PERMISSION_9 OProvider_update_check_response = Some DaemonRead"
| "OUTBOUND_PERMISSION_9 OProvider_update_install_response = Some DaemonManage"
| "OUTBOUND_PERMISSION_9 OProvider_update_set_preferences_response = Some DaemonManage"
| "OUTBOUND_PERMISSION_9 OProvider_usage_list_response = Some DaemonRead"

fun OUTBOUND_PERMISSION_10 :: "outbound_10 \<Rightarrow> daemon_permission option" where
  "OUTBOUND_PERMISSION_10 OProvider_diagnostic_response = Some DaemonRead"
| "OUTBOUND_PERMISSION_10 OProviders_snapshot_update = Some DaemonRead"
| "OUTBOUND_PERMISSION_10 OPull_request_timeline_response = Some WorkspaceRead"
| "OUTBOUND_PERMISSION_10 OPush_unregister_response = Some WorkspaceRead"
| "OUTBOUND_PERMISSION_10 ONotification_audio_response = Some WorkspaceRead"
| "OUTBOUND_PERMISSION_10 ORead_project_config_response = Some WorkspaceRead"
| "OUTBOUND_PERMISSION_10 ORefresh_providers_snapshot_response = Some DaemonRead"
| "OUTBOUND_PERMISSION_10 ORpc_error = None"
| "OUTBOUND_PERMISSION_10 OScript_status_update = Some WorkspaceRead"
| "OUTBOUND_PERMISSION_10 OSend_agent_message_response = Some WorkspaceWrite"
| "OUTBOUND_PERMISSION_10 OSet_agent_feature_response = Some WorkspaceWrite"
| "OUTBOUND_PERMISSION_10 OSet_agent_mode_response = Some WorkspaceWrite"
| "OUTBOUND_PERMISSION_10 OSet_agent_model_response = Some WorkspaceWrite"
| "OUTBOUND_PERMISSION_10 OSet_agent_thinking_response = Some WorkspaceWrite"
| "OUTBOUND_PERMISSION_10 OSet_daemon_config_response = Some DaemonManage"
| "OUTBOUND_PERMISSION_10 OSet_voice_mode_response = Some WorkspaceWrite"
| "OUTBOUND_PERMISSION_10 OStart_workspace_script_response = Some WorkspaceWrite"
| "OUTBOUND_PERMISSION_10 OStash_list_response = Some WorkspaceRead"
| "OUTBOUND_PERMISSION_10 OStash_pop_response = Some WorkspaceRead"
| "OUTBOUND_PERMISSION_10 OStash_save_response = Some WorkspaceRead"
| "OUTBOUND_PERMISSION_10 OStatus = Some DaemonRead"
| "OUTBOUND_PERMISSION_10 OSubscribe_checkout_diff_response = Some WorkspaceRead"
| "OUTBOUND_PERMISSION_10 OSubscribe_terminal_response = Some WorkspaceRead"
| "OUTBOUND_PERMISSION_10 OTerminal_rename_response = Some WorkspaceWrite"
| "OUTBOUND_PERMISSION_10 OTerminal_attention_required = Some WorkspaceRead"
| "OUTBOUND_PERMISSION_10 OTerminal_stream_exit = Some WorkspaceRead"

fun OUTBOUND_PERMISSION_11 :: "outbound_11 \<Rightarrow> daemon_permission option" where
  "OUTBOUND_PERMISSION_11 OTerminals_changed = Some WorkspaceRead"
| "OUTBOUND_PERMISSION_11 OTranscription_result = Some WorkspaceWrite"
| "OUTBOUND_PERMISSION_11 OUpdate_agent_response = Some WorkspaceWrite"
| "OUTBOUND_PERMISSION_11 OValidate_branch_response = Some WorkspaceRead"
| "OUTBOUND_PERMISSION_11 OVoice_input_state = Some WorkspaceWrite"
| "OUTBOUND_PERMISSION_11 OWait_for_finish_response = Some WorkspaceRead"
| "OUTBOUND_PERMISSION_11 OWorkspace_clear_attention_response = Some WorkspaceWrite"
| "OUTBOUND_PERMISSION_11 OWorkspace_create_response = Some WorkspaceManage"
| "OUTBOUND_PERMISSION_11 OWorkspace_github_search_repositories_response = Some WorkspaceRead"
| "OUTBOUND_PERMISSION_11 OWorkspace_label_assignment_set_response = Some WorkspaceManage"
| "OUTBOUND_PERMISSION_11 OWorkspace_label_delete_inspect_response = Some WorkspaceRead"
| "OUTBOUND_PERMISSION_11 OWorkspace_label_delete_response = Some WorkspaceManage"
| "OUTBOUND_PERMISSION_11 OWorkspace_label_list_response = Some WorkspaceRead"
| "OUTBOUND_PERMISSION_11 OWorkspace_label_update = Some WorkspaceRead"
| "OUTBOUND_PERMISSION_11 OWorkspace_label_update_response = Some WorkspaceManage"
| "OUTBOUND_PERMISSION_11 OWorkspace_pin_set_response = Some WorkspaceManage"
| "OUTBOUND_PERMISSION_11 OWorkspace_recovery_inspect_response = Some WorkspaceRead"
| "OUTBOUND_PERMISSION_11 OWorkspace_recovery_restore_response = Some WorkspaceManage"
| "OUTBOUND_PERMISSION_11 OWorkspace_script_list_response = Some WorkspaceRead"
| "OUTBOUND_PERMISSION_11 OWorkspace_script_start_response = Some WorkspaceWrite"
| "OUTBOUND_PERMISSION_11 OWorkspace_script_stop_response = Some WorkspaceWrite"
| "OUTBOUND_PERMISSION_11 OWorkspace_title_set_response = Some WorkspaceManage"
| "OUTBOUND_PERMISSION_11 OWorkspace_setup_progress = Some WorkspaceRead"
| "OUTBOUND_PERMISSION_11 OWorkspace_setup_status_response = Some WorkspaceRead"
| "OUTBOUND_PERMISSION_11 OWorkspace_update = Some WorkspaceRead"
| "OUTBOUND_PERMISSION_11 OWrite_project_config_response = Some WorkspaceWrite"

fun OUTBOUND_PERMISSION :: "outbound_operation \<Rightarrow> daemon_permission option" where
  "OUTBOUND_PERMISSION (Out1 x) = OUTBOUND_PERMISSION_1 x"
| "OUTBOUND_PERMISSION (Out2 x) = OUTBOUND_PERMISSION_2 x"
| "OUTBOUND_PERMISSION (Out3 x) = OUTBOUND_PERMISSION_3 x"
| "OUTBOUND_PERMISSION (Out4 x) = OUTBOUND_PERMISSION_4 x"
| "OUTBOUND_PERMISSION (Out5 x) = OUTBOUND_PERMISSION_5 x"
| "OUTBOUND_PERMISSION (Out6 x) = OUTBOUND_PERMISSION_6 x"
| "OUTBOUND_PERMISSION (Out7 x) = OUTBOUND_PERMISSION_7 x"
| "OUTBOUND_PERMISSION (Out8 x) = OUTBOUND_PERMISSION_8 x"
| "OUTBOUND_PERMISSION (Out9 x) = OUTBOUND_PERMISSION_9 x"
| "OUTBOUND_PERMISSION (Out10 x) = OUTBOUND_PERMISSION_10 x"
| "OUTBOUND_PERMISSION (Out11 x) = OUTBOUND_PERMISSION_11 x"

section \<open>Roles of outbound frames\<close>

text \<open>
  An outbound message as far as authorization reads it: its type and, when it is a
  \<open>status\<close> frame, the \<open>status\<close> field of its payload.
\<close>

record outbound_message =
  out_type :: outbound_operation
  out_status :: "string option"

definition OUTBOUND_ROLE_OVERRIDES :: "outbound_operation \<Rightarrow> device_role option" where
  "OUTBOUND_ROLE_OVERRIDES t =
     (if t = Out1 OAgent_permission_resolved then Some Viewer
      else if t = Out6 OGet_daemon_config_response then Some Operator
      else if t = Out5 ODiagnostics_response then Some Operator
      else if t = Out2 OAuth_device_list_response then Some Operator
      else if t = Out2 OAuth_settings_get_response then Some Operator
      else None)"

definition STATUS_ROLE_OVERRIDES :: "string \<Rightarrow> device_role option" where
  "STATUS_ROLE_OVERRIDES s =
     (if s = ''daemon_config_changed'' then Some Operator
      else if s = ''storage_alert'' then Some Operator
      else None)"

definition requiredRoleForInbound :: "inbound_operation \<Rightarrow> device_role" where
  "requiredRoleForInbound operation = INBOUND_ROLE operation"

definition requiredRoleForOutbound ::
  "outbound_message \<Rightarrow> daemon_permission option \<Rightarrow> device_role" where
  "requiredRoleForOutbound m permission =
     (case (if out_type m = Out10 OStatus
            then Option.bind (out_status m) STATUS_ROLE_OVERRIDES else None) of
        Some statusOverride \<Rightarrow> statusOverride
      | None \<Rightarrow>
          (case OUTBOUND_ROLE_OVERRIDES (out_type m) of
             Some override \<Rightarrow> override
           | None \<Rightarrow> (case permission of None \<Rightarrow> Viewer | Some p \<Rightarrow> PERMISSION_MIN_ROLE p)))"

definition requiredPermissionForInbound :: "inbound_operation \<Rightarrow> daemon_permission option" where
  "requiredPermissionForInbound operation = INBOUND_PERMISSION operation"

definition requiredPermissionForOutbound :: "outbound_operation \<Rightarrow> daemon_permission option" where
  "requiredPermissionForOutbound operation = OUTBOUND_PERMISSION operation"

section \<open>SessionAuthorization\<close>

text \<open>The permission set is the list of its elements in insertion order.\<close>

record session_authorization =
  permissions :: "daemon_permission list"
  role :: device_role

definition new_SessionAuthorization ::
  "daemon_permission list \<Rightarrow> device_role option \<Rightarrow> session_authorization" where
  "new_SessionAuthorization ps r =
     \<lparr>permissions = js_set ps, role = (case r of None \<Rightarrow> Owner | Some r' \<Rightarrow> r')\<rparr>"

definition hasPermission :: "session_authorization \<Rightarrow> daemon_permission option \<Rightarrow> bool" where
  "hasPermission a p = (case p of None \<Rightarrow> True | Some q \<Rightarrow> q \<in> set (permissions a))"

definition allowsInbound :: "session_authorization \<Rightarrow> inbound_operation \<Rightarrow> bool" where
  "allowsInbound a op =
     (hasPermission a (requiredPermissionForInbound op) \<and>
      roleSatisfies (role a) (requiredRoleForInbound op))"

definition allowsOutbound :: "session_authorization \<Rightarrow> outbound_message \<Rightarrow> bool" where
  "allowsOutbound a m =
     (let permission = requiredPermissionForOutbound (out_type m) in
      hasPermission a permission \<and>
      roleSatisfies (role a) (requiredRoleForOutbound m permission))"

definition replacePermissions ::
  "daemon_permission list \<Rightarrow> session_authorization \<Rightarrow> session_authorization" where
  "replacePermissions ps a = a\<lparr>permissions := js_set ps\<rparr>"

definition replaceRole :: "device_role \<Rightarrow> session_authorization \<Rightarrow> session_authorization" where
  "replaceRole r a = a\<lparr>role := r\<rparr>"

definition allowsPermission :: "session_authorization \<Rightarrow> daemon_permission \<Rightarrow> bool" where
  "allowsPermission a p =
     (p \<in> set (permissions a) \<and> roleSatisfies (role a) (minimumRoleForPermission p))"

definition listPermissions :: "session_authorization \<Rightarrow> daemon_permission list" where
  "listPermissions a = filter (allowsPermission a) (permissions a)"

section \<open>Lemmas\<close>

lemmas authorization_defs =
  allowsInbound_def allowsOutbound_def hasPermission_def requiredPermissionForInbound_def
  requiredPermissionForOutbound_def requiredRoleForInbound_def roleSatisfies_iff Let_def

text \<open>The rows whose role is not the minimum role of their permission.\<close>

abbreviation operator_reads :: "inbound_operation set" where
  "operator_reads \<equiv> {In1 Auth_device_list_request,
     In1 Auth_settings_get_request,
     In3 Daemon_skills_get_content_request,
     In3 Daemon_skills_list_request,
     In3 Daemon_storage_list_request,
     In4 Diagnostics_request,
     In5 Get_daemon_config_request,
     In8 Provider_diagnostic_request,
     In9 Refresh_providers_snapshot_request}"

abbreviation loop_reads :: "inbound_operation set" where
  "loop_reads \<equiv> {In5 Loop_inspect, In5 Loop_list, In5 Loop_logs}"

definition permission_role :: "daemon_permission option \<Rightarrow> device_role" where
  "permission_role p = (case p of None \<Rightarrow> Viewer | Some q \<Rightarrow> PERMISSION_MIN_ROLE q)"

definition role_rule :: "inbound_operation \<Rightarrow> device_role" where
  "role_rule op =
     (if op \<in> operator_reads then Operator
      else if op \<in> loop_reads then Viewer
      else permission_role (INBOUND_PERMISSION op))"

lemma role_rule_1: "INBOUND_ROLE_1 x = role_rule (In1 x)"
  by (cases x) (simp_all add: role_rule_def permission_role_def)

lemma role_rule_2: "INBOUND_ROLE_2 x = role_rule (In2 x)"
  by (cases x) (simp_all add: role_rule_def permission_role_def)

lemma role_rule_3: "INBOUND_ROLE_3 x = role_rule (In3 x)"
  by (cases x) (simp_all add: role_rule_def permission_role_def)

lemma role_rule_4: "INBOUND_ROLE_4 x = role_rule (In4 x)"
  by (cases x) (simp_all add: role_rule_def permission_role_def)

lemma role_rule_5: "INBOUND_ROLE_5 x = role_rule (In5 x)"
  by (cases x) (simp_all add: role_rule_def permission_role_def)

lemma role_rule_6: "INBOUND_ROLE_6 x = role_rule (In6 x)"
  by (cases x) (simp_all add: role_rule_def permission_role_def)

lemma role_rule_7: "INBOUND_ROLE_7 x = role_rule (In7 x)"
  by (cases x) (simp_all add: role_rule_def permission_role_def)

lemma role_rule_8: "INBOUND_ROLE_8 x = role_rule (In8 x)"
  by (cases x) (simp_all add: role_rule_def permission_role_def)

lemma role_rule_9: "INBOUND_ROLE_9 x = role_rule (In9 x)"
  by (cases x) (simp_all add: role_rule_def permission_role_def)

lemma role_rule_10: "INBOUND_ROLE_10 x = role_rule (In10 x)"
  by (cases x) (simp_all add: role_rule_def permission_role_def)

lemma role_rule_11: "INBOUND_ROLE_11 x = role_rule (In11 x)"
  by (cases x) (simp_all add: role_rule_def permission_role_def)

lemma role_rule_12: "INBOUND_ROLE_12 x = role_rule (In12 x)"
  by (cases x) (simp_all add: role_rule_def permission_role_def)

lemmas role_rule_blocks =
  role_rule_1
  role_rule_2
  role_rule_3
  role_rule_4
  role_rule_5
  role_rule_6
  role_rule_7
  role_rule_8
  role_rule_9
  role_rule_10
  role_rule_11
  role_rule_12

lemma INBOUND_ROLE_rule: "INBOUND_ROLE op = role_rule op"
  by (cases op) (simp_all add: role_rule_blocks)

lemma allowsInbound_loop_free:
  "op \<notin> operator_reads \<Longrightarrow> op \<notin> loop_reads \<Longrightarrow>
     allowsInbound a op \<longleftrightarrow> (case INBOUND_PERMISSION op of None \<Rightarrow> True | Some p \<Rightarrow> allowsPermission a p)"
  by (auto simp: authorization_defs INBOUND_ROLE_rule role_rule_def permission_role_def
      allowsPermission_def minimumRoleForPermission_def split: option.splits)

section \<open>Properties\<close>

text \<open>C10. The role table follows the permission table: an inbound operation demands the minimum
  role of its permission, except nine reads of the host's configuration and access settings,
  which demand operator, and the three loop reads, which a viewer may send.\<close>

theorem inbound_role_follows_permission:
  "requiredRoleForInbound op =
     (if op \<in> operator_reads then Operator
      else if op \<in> loop_reads then Viewer
      else case requiredPermissionForInbound op of
             None \<Rightarrow> Viewer | Some p \<Rightarrow> minimumRoleForPermission p)"
  by (simp add: authorization_defs INBOUND_ROLE_rule role_rule_def permission_role_def
      minimumRoleForPermission_def split: option.split)


text \<open>The effective permissions a session reports decide its requests: apart from the
  exceptions listed above, a request passes exactly when its permission is in \<open>listPermissions\<close>.\<close>

theorem listPermissions_decides_inbound:
  assumes "op \<notin> operator_reads" and "op \<notin> loop_reads"
  shows "allowsInbound a op \<longleftrightarrow>
     (case requiredPermissionForInbound op of None \<Rightarrow> True | Some p \<Rightarrow> p \<in> set (listPermissions a))"
  using allowsInbound_loop_free[OF assms, of a]
  by (auto simp: requiredPermissionForInbound_def listPermissions_def allowsPermission_def
      split: option.splits)

theorem listPermissions_decides_inbound_witness:
  "\<not> allowsInbound (new_SessionAuthorization DAEMON_PERMISSIONS (Some Operator)) (In9 Shutdown_server_request)"
proof -
  let ?a = "new_SessionAuthorization DAEMON_PERMISSIONS (Some Operator)"
  have "DaemonManage \<notin> set (listPermissions ?a)"
    by (simp add: listPermissions_def allowsPermission_def new_SessionAuthorization_def
        minimumRoleForPermission_def roleSatisfies_iff)
  then show ?thesis
    using listPermissions_decides_inbound[of "In9 Shutdown_server_request" ?a]
    by (simp add: requiredPermissionForInbound_def)
qed

end
