(* ===== verification/ExpiringMap.thy ===== *)
theory ExpiringMap
  imports Prelude
begin

text \<open>
  What the in-memory secret stores of the daemon have in common. First the pruning loop of
  \<open>claim-offer-store.ts\<close> and \<open>pairing-code-store.ts\<close>: expired entries are deleted, then the
  oldest entries while there are more than \<open>maxLive\<close>. Then the contract of a store whose secrets
  are redeemed, as a locale over its events: what is redeemed was present and is gone
  afterwards, and nothing becomes present but what an event creates. From the contract alone a
  secret is redeemed at most as often as it was created.
\<close>

section \<open>Pruning\<close>

definition drop_expired :: "('v \<Rightarrow> time_ms) \<Rightarrow> time_ms \<Rightarrow> ('k, 'v) js_map \<Rightarrow> ('k, 'v) js_map" where
  "drop_expired expires current m = filter (\<lambda>(k, v). \<not> expires v \<le> current) m"

fun evict_oldest :: "nat \<Rightarrow> ('k, 'v) js_map \<Rightarrow> ('k, 'v) js_map" where
  "evict_oldest maxLive [] = []"
| "evict_oldest maxLive (kv # m) =
     (if length (kv # m) > maxLive then evict_oldest maxLive m else kv # m)"

definition prune_live ::
  "('v \<Rightarrow> time_ms) \<Rightarrow> nat \<Rightarrow> time_ms \<Rightarrow> ('k, 'v) js_map \<Rightarrow> ('k, 'v) js_map" where
  "prune_live expires maxLive current m = evict_oldest maxLive (drop_expired expires current m)"

lemma evict_oldest_drop: "evict_oldest n m = drop (length m - n) m"
  by (induction m) (auto simp: Suc_diff_le)

lemma length_evict_oldest: "length (evict_oldest n m) \<le> n"
  by (simp add: evict_oldest_drop)

lemma evict_oldest_id [simp]: "length m \<le> n \<Longrightarrow> evict_oldest n m = m"
  by (simp add: evict_oldest_drop)

lemma length_prune_live: "length (prune_live f n t m) \<le> n"
  by (simp add: prune_live_def length_evict_oldest)

lemma wf_map_evict [simp]: "wf_map m \<Longrightarrow> wf_map (evict_oldest n m)"
  by (simp add: evict_oldest_drop)

lemma wf_map_prune_live [simp]: "wf_map m \<Longrightarrow> wf_map (prune_live f n t m)"
  by (simp add: prune_live_def drop_expired_def)

lemma wf_map_drop_expired [simp]: "wf_map m \<Longrightarrow> wf_map (drop_expired f t m)"
  by (simp add: drop_expired_def)

lemma set_evict_oldest: "set (evict_oldest n m) \<subseteq> set m"
  by (simp add: evict_oldest_drop set_drop_subset)

lemma prune_live_sub: "kv \<in> set (prune_live f n t m) \<Longrightarrow> kv \<in> set m \<and> t < f (snd kv)"
  using set_evict_oldest by (fastforce simp: prune_live_def drop_expired_def)

lemma prune_live_get:
  "wf_map m \<Longrightarrow> map_of (prune_live f n t m) k = Some v \<Longrightarrow> map_of m k = Some v \<and> t < f v"
  by (metis prune_live_sub map_of_mem mem_map_of snd_conv)

lemma prune_live_absent: "wf_map m \<Longrightarrow> map_of m k = None \<Longrightarrow> map_of (prune_live f n t m) k = None"
  using prune_live_get by (metis not_Some_eq)

lemma drop_expired_get:
  "wf_map m \<Longrightarrow> map_of (drop_expired f t m) k =
     (case map_of m k of None \<Rightarrow> None | Some v \<Rightarrow> if t < f v then Some v else None)"
  by (simp add: drop_expired_def get_filter_wf not_le split: option.split)

section \<open>Which entries an eviction spares\<close>

text \<open>The number of entries inserted after \<open>k\<close>.\<close>

definition younger :: "'k \<Rightarrow> ('k, 'v) js_map \<Rightarrow> nat" where
  "younger k m = length (tl (dropWhile (\<lambda>kv. fst kv \<noteq> k) m))"

lemma younger_Cons: "younger k (kv # m) = (if fst kv = k then length m else younger k m)"
  by (simp add: younger_def)

lemma younger_append:
  "map_of m k \<noteq> None \<Longrightarrow> younger k (m @ m') = younger k m + length m'"
  by (induction m) (auto simp: younger_Cons split: if_splits)

lemma younger_filter:
  "map_of m k = Some v \<Longrightarrow> P (k, v) \<Longrightarrow> younger k (filter P m) \<le> younger k m"
  by (induction m) (auto simp: younger_Cons split: if_splits)

lemma younger_less_length: "map_of m k \<noteq> None \<Longrightarrow> younger k m < length m"
  by (induction m) (auto simp: younger_Cons less_Suc_eq split: if_splits)

lemma evict_spares:
  "map_of m k = Some v \<Longrightarrow> younger k m < n \<Longrightarrow>
     map_of (evict_oldest n m) k = Some v \<and> younger k (evict_oldest n m) = younger k m"
  by (induction m) (auto simp: younger_Cons split: if_splits)

lemma prune_live_spares:
  assumes "wf_map m" "map_of m k = Some v" "younger k m < n" "t < f v"
  shows "map_of (prune_live f n t m) k = Some v \<and> younger k (prune_live f n t m) \<le> younger k m"
proof -
  have "map_of (drop_expired f t m) k = Some v"
    using assms by (simp add: drop_expired_get)
  moreover have "younger k (drop_expired f t m) \<le> younger k m"
    using assms(2,4) by (auto simp: drop_expired_def intro: younger_filter)
  ultimately show ?thesis
    using assms(3) evict_spares[of "drop_expired f t m" k v n] by (simp add: prune_live_def)
qed

section \<open>Single-use secrets\<close>

text \<open>How often an event of a run is observed to concern \<open>k\<close>.\<close>

fun occurrences :: "('e \<Rightarrow> 's \<Rightarrow> 'k option) \<Rightarrow> ('e \<Rightarrow> 's \<Rightarrow> 's) \<Rightarrow> 'k \<Rightarrow> 's \<Rightarrow> 'e list \<Rightarrow> nat" where
  "occurrences obs step k s [] = 0"
| "occurrences obs step k s (e # es) =
     (if obs e s = Some k then 1 else 0) + occurrences obs step k (step e s) es"

locale single_use =
  fixes step :: "'e \<Rightarrow> 's \<Rightarrow> 's"
    and creates :: "'e \<Rightarrow> 's \<Rightarrow> 'k option"
    and redeems :: "'e \<Rightarrow> 's \<Rightarrow> 'k option"
    and present :: "'s \<Rightarrow> 'k \<Rightarrow> bool"
    and inv :: "'s \<Rightarrow> bool"
  assumes redeems_present: "inv s \<Longrightarrow> redeems e s = Some k \<Longrightarrow> present s k"
    and redeems_gone: "inv s \<Longrightarrow> redeems e s = Some k \<Longrightarrow> \<not> present (step e s) k"
    and present_origin:
      "inv s \<Longrightarrow> present (step e s) k \<Longrightarrow> present s k \<or> creates e s = Some k"
    and inv_step: "inv s \<Longrightarrow> inv (step e s)"
begin

lemma at_most_once:
  "inv s \<Longrightarrow> occurrences redeems step k s es
     \<le> occurrences creates step k s es + (if present s k then 1 else 0)"
proof (induction es arbitrary: s)
  case (Cons e es)
  have IH: "occurrences redeems step k (step e s) es
      \<le> occurrences creates step k (step e s) es + (if present (step e s) k then 1 else 0)"
    using Cons inv_step by blast
  show ?case
  proof (cases "redeems e s = Some k")
    case True
    then show ?thesis
      using IH Cons.prems redeems_present redeems_gone by auto
  next
    case False
    then show ?thesis
      using IH present_origin[OF Cons.prems, of e k] by (auto split: if_splits)
  qed
qed simp

lemma redeemed_at_most_once:
  "inv s \<Longrightarrow> \<not> present s k \<Longrightarrow>
     occurrences redeems step k s es \<le> occurrences creates step k s es"
  using at_most_once[of s k es] by simp

end

end
