(* ===== verification/JsString.thy ===== *)
theory JsString
  imports Prelude "HOL-Library.Sublist"
begin

text \<open>
  The string operations of the JavaScript library the modelled sources call, on strings of
  8-bit code units (Latin-1): \<open>trim\<close>, \<open>toLowerCase\<close>, \<open>toUpperCase\<close>, \<open>split\<close> on one character,
  \<open>startsWith\<close>, \<open>endsWith\<close>, \<open>slice\<close>, \<open>indexOf\<close> of one character, and decimal and hexadecimal
  digits. Characters whose upper case lies outside Latin-1 (U+00B5, U+00FF) are left unchanged.
\<close>

abbreviation char_code :: "char \<Rightarrow> nat" where
  "char_code c \<equiv> of_char c"

definition is_space :: "char \<Rightarrow> bool" where
  "is_space c = (char_code c \<in> {9, 10, 11, 12, 13, 32, 160})"

definition js_trim :: "string \<Rightarrow> string" where
  "js_trim s = rev (dropWhile is_space (rev (dropWhile is_space s)))"

definition lower_char :: "char \<Rightarrow> char" where
  "lower_char c =
     (let n = char_code c in
      if 65 \<le> n \<and> n \<le> 90 \<or> 192 \<le> n \<and> n \<le> 222 \<and> n \<noteq> 215 then char_of (n + 32) else c)"

definition toLowerCase :: "string \<Rightarrow> string" where
  "toLowerCase s = map lower_char s"

definition upper_char :: "char \<Rightarrow> string" where
  "upper_char c =
     (let n = char_code c in
      if 97 \<le> n \<and> n \<le> 122 \<or> 224 \<le> n \<and> n \<le> 254 \<and> n \<noteq> 247 then [char_of (n - 32)]
      else if n = 223 then ''SS'' else [c])"

definition toUpperCase :: "string \<Rightarrow> string" where
  "toUpperCase s = concat (map upper_char s)"

fun js_split :: "char \<Rightarrow> string \<Rightarrow> string list" where
  "js_split d [] = [[]]"
| "js_split d (c # s) =
     (if c = d then [] # js_split d s
      else case js_split d s of [] \<Rightarrow> [[c]] | w # ws \<Rightarrow> (c # w) # ws)"

fun js_join :: "string \<Rightarrow> string list \<Rightarrow> string" where
  "js_join d [] = []"
| "js_join d [w] = w"
| "js_join d (w # v # ws) = w @ d @ js_join d (v # ws)"

definition startsWith :: "string \<Rightarrow> string \<Rightarrow> bool" where
  "startsWith s p = prefix p s"

definition endsWith :: "string \<Rightarrow> string \<Rightarrow> bool" where
  "endsWith s p = suffix p s"

fun indexOf :: "char \<Rightarrow> string \<Rightarrow> nat option" where
  "indexOf d [] = None"
| "indexOf d (c # s) = (if c = d then Some 0 else map_option Suc (indexOf d s))"

definition is_digit :: "char \<Rightarrow> bool" where
  "is_digit c = (48 \<le> char_code c \<and> char_code c \<le> 57)"

definition digit_value :: "char \<Rightarrow> nat" where
  "digit_value c = char_code c - 48"

definition parse_decimal :: "string \<Rightarrow> nat" where
  "parse_decimal s = foldl (\<lambda>n c. 10 * n + digit_value c) 0 s"

definition hex_value :: "char \<Rightarrow> nat option" where
  "hex_value c =
     (let n = char_code c in
      if 48 \<le> n \<and> n \<le> 57 then Some (n - 48)
      else if 97 \<le> n \<and> n \<le> 102 then Some (n - 87)
      else if 65 \<le> n \<and> n \<le> 70 then Some (n - 55) else None)"

text \<open>The comparison \<open><\<close> of two strings: lexicographic by code unit.\<close>

fun str_less :: "string \<Rightarrow> string \<Rightarrow> bool" where
  "str_less s [] = False"
| "str_less [] (d # t) = True"
| "str_less (c # s) (d # t) =
     (char_code c < char_code d \<or> (char_code c = char_code d \<and> str_less s t))"

section \<open>Lemmas\<close>

lemma js_split_nonempty [simp]: "js_split d s \<noteq> []"
  by (induction s) (auto split: list.splits)

lemma js_split_no_delim [jsstr]: "d \<notin> set s \<Longrightarrow> js_split d s = [s]"
  by (induction s) auto

lemma js_split_delim [jsstr]:
  "d \<notin> set w \<Longrightarrow> js_split d (w @ d # s) = w # js_split d s"
  by (induction w) auto

lemma js_join_split [jsstr]: "js_join [d] (js_split d s) = s"
proof (induction s)
  case (Cons c s)
  obtain w ws where "js_split d s = w # ws"
    using js_split_nonempty neq_Nil_conv by metis
  with Cons show ?case by (cases ws) auto
qed simp

lemma js_split_join [jsstr]:
  "ws \<noteq> [] \<Longrightarrow> list_all (\<lambda>w. d \<notin> set w) ws \<Longrightarrow> js_split d (js_join [d] ws) = ws"
  by (induction "[d]" ws rule: js_join.induct) (auto simp: jsstr)

lemma js_split_pieces: "w \<in> set (js_split d s) \<Longrightarrow> d \<notin> set w \<and> set w \<subseteq> set s"
proof (induction s arbitrary: w)
  case (Cons c s)
  obtain v vs where v: "js_split d s = v # vs"
    using js_split_nonempty neq_Nil_conv by metis
  have "d \<notin> set u \<and> set u \<subseteq> set s" if "u \<in> set (v # vs)" for u
    using that Cons.IH v by simp
  with Cons.prems v show ?case
    by (fastforce split: if_splits)
qed simp

lemma startsWith_append [simp]: "startsWith (p @ s) p"
  by (simp add: startsWith_def)

lemma endsWith_append [simp]: "endsWith (s @ p) p"
  by (simp add: endsWith_def suffix_def)

lemma dropWhile_all_id: "list_all (\<lambda>c. \<not> P c) s \<Longrightarrow> dropWhile P s = s"
  by (cases s) auto

lemma js_trim_no_space [jsstr]: "list_all (\<lambda>c. \<not> is_space c) s \<Longrightarrow> js_trim s = s"
  by (simp add: js_trim_def dropWhile_all_id)

lemma set_js_trim: "set (js_trim s) \<subseteq> set s"
  unfolding js_trim_def by (metis set_dropWhileD set_rev subsetI)

lemma set_js_trimD: "c \<in> set (js_trim s) \<Longrightarrow> c \<in> set s"
  using set_js_trim by fastforce

lemma js_trim_idem [simp]: "js_trim (js_trim s) = js_trim s"
proof -
  define w where "w = dropWhile is_space s"
  have w: "w = [] \<or> \<not> is_space (hd w)"
    unfolding w_def using hd_dropWhile by blast
  define v where "v = rev (dropWhile is_space (rev w))"
  have "w = v @ rev (takeWhile is_space (rev w))"
    unfolding v_def by (metis rev_append rev_rev_ident takeWhile_dropWhile_id)
  then have hd_v: "v = [] \<or> w \<noteq> [] \<and> hd v = hd w"
    by (metis append_is_Nil_conv hd_append2)
  with w have "dropWhile is_space v = v"
    by (cases v) (auto split: if_splits)
  moreover have "rev (dropWhile is_space (rev v)) = v"
    unfolding v_def by (simp add: dropWhile_idem)
  ultimately show ?thesis unfolding js_trim_def v_def w_def by simp
qed

lemma js_trim_Nil [simp]: "js_trim [] = []"
  by (simp add: js_trim_def)

lemma parse_decimal_snoc: "parse_decimal (s @ [c]) = 10 * parse_decimal s + digit_value c"
  by (simp add: parse_decimal_def)

end
