(* ===== verification/PairingStores.thy ===== *)
theory PairingStores
  imports Complex_Main ExpiringMap JsString Roles
begin

text \<open>
  The in-memory stores of secrets that let a device in: claim offers (\<open>claim-offer-store.ts\<close>),
  pairing codes (\<open>pairing-code-store.ts\<close> and the code functions of \<open>protocol/device-access.ts\<close>),
  owner-approved pairing requests (\<open>pairing-request-store.ts\<close>) and download tokens
  (\<open>file-download/token-store.ts\<close>).

  Every call of \<open>now()\<close> is a parameter, in the order of the calls; so is every random value. An
  ISO time is the instant it denotes. The object a \<open>create\<close> function returns is the set of events
  of a store, and each store interprets the contract \<open>single_use\<close>.
\<close>

section \<open>Claim offers\<close>

record claim_offer_store =
  co_ttlMs :: time_ms
  co_maxLive :: nat
  co_live :: "(string, time_ms) js_map"

record claim_offer =
  offer_token :: string
  offer_expiresAt :: time_ms

definition CLAIM_OFFER_TTL_MS :: time_ms where
  "CLAIM_OFFER_TTL_MS = 10 * 60 * 1000"

definition DEFAULT_MAX_LIVE_OFFERS :: nat where
  "DEFAULT_MAX_LIVE_OFFERS = 16"

definition createClaimOfferStore :: "time_ms option \<Rightarrow> nat option \<Rightarrow> claim_offer_store" where
  "createClaimOfferStore ttlMs maxLive =
     \<lparr>co_ttlMs = (case ttlMs of None \<Rightarrow> CLAIM_OFFER_TTL_MS | Some t \<Rightarrow> t),
      co_maxLive = (case maxLive of None \<Rightarrow> DEFAULT_MAX_LIVE_OFFERS | Some n \<Rightarrow> n),
      co_live = []\<rparr>"

definition offer_prune :: "time_ms \<Rightarrow> claim_offer_store \<Rightarrow> claim_offer_store" where
  "offer_prune current s = s\<lparr>co_live := prune_live id (co_maxLive s) current (co_live s)\<rparr>"

definition offer_issue ::
  "time_ms \<Rightarrow> string \<Rightarrow> time_ms \<Rightarrow> time_ms \<Rightarrow> claim_offer_store \<Rightarrow> claim_offer \<times> claim_offer_store" where
  "offer_issue now1 token now2 now3 s =
     (let s1 = offer_prune now1 s;
          expiresAtMs = now2 + co_ttlMs s1;
          s2 = s1\<lparr>co_live := AList.update token expiresAtMs (co_live s1)\<rparr>
      in (\<lparr>offer_token = token, offer_expiresAt = expiresAtMs\<rparr>, offer_prune now3 s2))"

definition offer_consume ::
  "time_ms \<Rightarrow> time_ms \<Rightarrow> string \<Rightarrow> claim_offer_store \<Rightarrow> bool \<times> claim_offer_store" where
  "offer_consume now1 now2 token s =
     (let s1 = offer_prune now1 s in
      case map_of (co_live s1) token of
        None \<Rightarrow> (False, s1)
      | Some expiresAtMs \<Rightarrow>
          (expiresAtMs > now2, s1\<lparr>co_live := AList.delete token (co_live s1)\<rparr>))"

definition offer_isLive ::
  "time_ms \<Rightarrow> time_ms \<Rightarrow> string \<Rightarrow> claim_offer_store \<Rightarrow> bool \<times> claim_offer_store" where
  "offer_isLive now1 now2 token s =
     (let s1 = offer_prune now1 s in
      (case map_of (co_live s1) token of None \<Rightarrow> False | Some e \<Rightarrow> e > now2, s1))"

definition offer_liveCount :: "time_ms \<Rightarrow> claim_offer_store \<Rightarrow> nat \<times> claim_offer_store" where
  "offer_liveCount now1 s = (let s1 = offer_prune now1 s in (length (co_live s1), s1))"

section \<open>Pairing codes\<close>

definition PAIRING_CODE_ALPHABET :: string where
  "PAIRING_CODE_ALPHABET = ''0123456789ABCDEFGHJKMNPQRSTVWXYZ''"

definition PAIRING_CODE_LENGTH :: nat where
  "PAIRING_CODE_LENGTH = 8"

definition code_replace :: "char \<Rightarrow> char" where
  "code_replace c =
     (if c = CHR ''I'' \<or> c = CHR ''L'' then CHR ''1'' else if c = CHR ''O'' then CHR ''0'' else c)"

definition normalizePairingCode :: "string \<Rightarrow> string option" where
  "normalizePairingCode input =
     (let cleaned = map code_replace
            (filter (\<lambda>c. \<not> (is_space c \<or> c = CHR ''-'')) (toUpperCase (js_trim input))) in
      if length cleaned \<noteq> PAIRING_CODE_LENGTH then None
      else if list_all (\<lambda>c. c \<in> set PAIRING_CODE_ALPHABET) cleaned then Some cleaned
      else None)"

definition formatPairingCode :: "string \<Rightarrow> string" where
  "formatPairingCode code =
     (let normalized = (case normalizePairingCode code of None \<Rightarrow> code | Some n \<Rightarrow> n)
      in take 4 normalized @ ''-'' @ drop 4 normalized)"

definition PAIRING_CODE_DEFAULT_TTL_SECONDS :: int where
  "PAIRING_CODE_DEFAULT_TTL_SECONDS = 600"

definition PAIRING_CODE_MIN_TTL_SECONDS :: int where
  "PAIRING_CODE_MIN_TTL_SECONDS = 30"

definition PAIRING_CODE_MAX_TTL_SECONDS :: int where
  "PAIRING_CODE_MAX_TTL_SECONDS = 3600"

definition DEFAULT_MAX_LIVE_CODES :: nat where
  "DEFAULT_MAX_LIVE_CODES = 8"

text \<open>A requested number of seconds: not given, not finite, or a rational number.\<close>

datatype ttl_seconds = TtlUndefined | TtlNotFinite | TtlSeconds rat

fun clampPairingCodeTtlSeconds :: "ttl_seconds \<Rightarrow> int" where
  "clampPairingCodeTtlSeconds TtlUndefined = PAIRING_CODE_DEFAULT_TTL_SECONDS"
| "clampPairingCodeTtlSeconds TtlNotFinite = PAIRING_CODE_DEFAULT_TTL_SECONDS"
| "clampPairingCodeTtlSeconds (TtlSeconds s) =
     min PAIRING_CODE_MAX_TTL_SECONDS (max PAIRING_CODE_MIN_TTL_SECONDS \<lfloor>s\<rfloor>)"

text \<open>A draw gives the random number of each position; it is taken modulo the length of the
  alphabet, the range of \<open>randomInt\<close>.\<close>

definition random_symbols :: "nat \<Rightarrow> (nat \<Rightarrow> nat) \<Rightarrow> string" where
  "random_symbols n draw =
     map (\<lambda>index. PAIRING_CODE_ALPHABET ! (draw index mod length PAIRING_CODE_ALPHABET)) [0..<n]"

definition generateCode :: "(nat \<Rightarrow> nat) \<Rightarrow> string" where
  "generateCode draw = random_symbols PAIRING_CODE_LENGTH draw"

record pairing_code_entry =
  pc_role :: device_role
  pc_expiresAtMs :: time_ms

record pairing_code_store =
  pc_maxLive :: nat
  pc_live :: "(string, pairing_code_entry) js_map"

record pairing_code =
  code_text :: string
  code_role :: device_role
  code_expiresAt :: time_ms

definition createPairingCodeStore :: "nat option \<Rightarrow> pairing_code_store" where
  "createPairingCodeStore maxLive =
     \<lparr>pc_maxLive = (case maxLive of None \<Rightarrow> DEFAULT_MAX_LIVE_CODES | Some n \<Rightarrow> n), pc_live = []\<rparr>"

text \<open>The loop visits every live code and keeps the last match; equal buffers are equal strings.\<close>

definition findConstantTime :: "(string, 'v) js_map \<Rightarrow> string \<Rightarrow> string option" where
  "findConstantTime live candidate =
     foldl (\<lambda>found code. if length code = length candidate \<and> code = candidate
                          then Some code else found) None (map_keys live)"

definition code_prune :: "time_ms \<Rightarrow> pairing_code_store \<Rightarrow> pairing_code_store" where
  "code_prune current s =
     s\<lparr>pc_live := prune_live pc_expiresAtMs (pc_maxLive s) current (pc_live s)\<rparr>"

text \<open>The loop that draws until the code is not live, over the draws the random source gives:
  \<^const>\<open>None\<close> when the given draws are all live.\<close>

fun draw_code :: "(string, 'v) js_map \<Rightarrow> (nat \<Rightarrow> nat) list \<Rightarrow> string option" where
  "draw_code live [] = None"
| "draw_code live (d # ds) =
     (let code = generateCode d in if map_has live code then draw_code live ds else Some code)"

definition code_issue ::
  "time_ms \<Rightarrow> device_role option \<Rightarrow> ttl_seconds \<Rightarrow> time_ms \<Rightarrow> (nat \<Rightarrow> nat) list \<Rightarrow> time_ms \<Rightarrow>
     pairing_code_store \<Rightarrow> (pairing_code \<times> pairing_code_store) option" where
  "code_issue now1 role ttlSeconds now2 draws now3 s =
     (let s1 = code_prune now1 s;
          r = (case role of None \<Rightarrow> Operator | Some r \<Rightarrow> r);
          expiresAtMs = now2 + clampPairingCodeTtlSeconds ttlSeconds * 1000
      in case draw_code (pc_live s1) draws of
           None \<Rightarrow> None
         | Some code \<Rightarrow>
             let s2 = s1\<lparr>pc_live := AList.update code
                        \<lparr>pc_role = r, pc_expiresAtMs = expiresAtMs\<rparr> (pc_live s1)\<rparr>
             in Some (\<lparr>code_text = code, code_role = r, code_expiresAt = expiresAtMs\<rparr>,
                      code_prune now3 s2))"

definition code_redeem ::
  "time_ms \<Rightarrow> time_ms \<Rightarrow> string \<Rightarrow> pairing_code_store \<Rightarrow> pairing_code option \<times> pairing_code_store" where
  "code_redeem now1 now2 input s =
     (let s1 = code_prune now1 s in
      case normalizePairingCode input of
        None \<Rightarrow> (None, s1)
      | Some normalized \<Rightarrow>
          (case findConstantTime (pc_live s1) normalized of
             None \<Rightarrow> (None, s1)
           | Some code \<Rightarrow>
               (case map_of (pc_live s1) code of
                  None \<Rightarrow> (None, s1)
                | Some entry \<Rightarrow>
                    (if pc_expiresAtMs entry \<le> now2 then None
                     else Some \<lparr>code_text = code, code_role = pc_role entry,
                                code_expiresAt = pc_expiresAtMs entry\<rparr>,
                     s1\<lparr>pc_live := AList.delete code (pc_live s1)\<rparr>))))"

definition code_liveCount :: "time_ms \<Rightarrow> pairing_code_store \<Rightarrow> nat \<times> pairing_code_store" where
  "code_liveCount now1 s = (let s1 = code_prune now1 s in (length (pc_live s1), s1))"

section \<open>Pairing requests\<close>

definition PAIRING_REQUEST_TTL_MS :: time_ms where
  "PAIRING_REQUEST_TTL_MS = 5 * 60000"

definition MATCH_CODE_LENGTH :: nat where
  "MATCH_CODE_LENGTH = 4"

definition DEFAULT_MAX_PENDING :: nat where
  "DEFAULT_MAX_PENDING = 8"

datatype pairing_request_state =
    PrPending time_ms
  | PrDenied
  | PrExpired
  | PrApproved device_role string

record pairing_request_record =
  pr_id :: string
  pr_pollId :: string
  pr_deviceName :: string
  pr_matchCode :: string
  pr_remoteAddress :: "string option"
  pr_createdAt :: time_ms
  pr_expiresAt :: time_ms

record pairing_request_entry =
  pe_record :: pairing_request_record
  pe_expiresAtMs :: time_ms
  pe_outcome :: "pairing_request_state option"

record pairing_request_store =
  pr_ttlMs :: time_ms
  pr_maxPending :: nat
  pr_entries :: "(string, pairing_request_entry) js_map"
  pr_listeners :: "nat list"
  pr_woken :: "nat list"

definition createPairingRequestStore :: "time_ms option \<Rightarrow> nat option \<Rightarrow> pairing_request_store" where
  "createPairingRequestStore ttlMs maxPending =
     \<lparr>pr_ttlMs = (case ttlMs of None \<Rightarrow> PAIRING_REQUEST_TTL_MS | Some t \<Rightarrow> t),
      pr_maxPending = (case maxPending of None \<Rightarrow> DEFAULT_MAX_PENDING | Some n \<Rightarrow> n),
      pr_entries = [], pr_listeners = [], pr_woken = []\<rparr>"

text \<open>A listener is a number; \<open>notify\<close> calls each listener once, in the order they were added, and
  the model logs the calls.\<close>

definition pr_notify :: "pairing_request_store \<Rightarrow> pairing_request_store" where
  "pr_notify s = s\<lparr>pr_woken := pr_woken s @ pr_listeners s\<rparr>"

definition pr_onChange :: "nat \<Rightarrow> pairing_request_store \<Rightarrow> pairing_request_store" where
  "pr_onChange listener s =
     s\<lparr>pr_listeners := (if listener \<in> set (pr_listeners s) then pr_listeners s
                        else pr_listeners s @ [listener])\<rparr>"

definition pr_unsubscribe :: "nat \<Rightarrow> pairing_request_store \<Rightarrow> pairing_request_store" where
  "pr_unsubscribe listener s = s\<lparr>pr_listeners := removeAll listener (pr_listeners s)\<rparr>"

definition generateMatchCode :: "(nat \<Rightarrow> nat) \<Rightarrow> string" where
  "generateMatchCode draw = random_symbols MATCH_CODE_LENGTH draw"

definition findPollId :: "(string, 'v) js_map \<Rightarrow> string \<Rightarrow> string option" where
  "findPollId entries candidate =
     foldl (\<lambda>found pollId. if length pollId = length candidate \<and> pollId = candidate
                            then Some pollId else found) None (map_keys entries)"

definition pr_prune :: "time_ms \<Rightarrow> pairing_request_store \<Rightarrow> pairing_request_store" where
  "pr_prune current s = s\<lparr>pr_entries := drop_expired pe_expiresAtMs current (pr_entries s)\<rparr>"

definition pendingEntries ::
  "time_ms \<Rightarrow> pairing_request_store \<Rightarrow> pairing_request_entry list \<times> pairing_request_store" where
  "pendingEntries current s =
     (let s1 = pr_prune current s in
      (filter (\<lambda>e. pe_outcome e = None) (map snd (pr_entries s1)), s1))"

text \<open>The random values of a request: the two base64url strings and the draw of the match code.\<close>

definition pr_create ::
  "time_ms \<Rightarrow> time_ms \<Rightarrow> time_ms \<Rightarrow> string \<Rightarrow> string \<Rightarrow> (nat \<Rightarrow> nat) \<Rightarrow> string \<Rightarrow> string option \<Rightarrow>
     pairing_request_store \<Rightarrow> pairing_request_record option \<times> pairing_request_store" where
  "pr_create now1 now2 now3 idBytes pollBytes draw deviceName remoteAddress s =
     (let s1 = pr_prune now1 s;
          (pending, s2) = pendingEntries now2 s1
      in if length pending \<ge> pr_maxPending s2 then (None, s2)
         else
           let expiresAtMs = now3 + pr_ttlMs s2;
               r = \<lparr>pr_id = ''pr_'' @ idBytes, pr_pollId = pollBytes, pr_deviceName = deviceName,
                    pr_matchCode = generateMatchCode draw, pr_remoteAddress = remoteAddress,
                    pr_createdAt = now3, pr_expiresAt = expiresAtMs\<rparr>
           in (Some r, pr_notify (s2\<lparr>pr_entries := AList.update pollBytes
                 \<lparr>pe_record = r, pe_expiresAtMs = expiresAtMs, pe_outcome = None\<rparr>
                 (pr_entries s2)\<rparr>)))"

text \<open>What the owner is shown of a request: everything but its \<open>pollId\<close>.\<close>

record pending_pairing_request =
  pp_id :: string
  pp_deviceName :: string
  pp_matchCode :: string
  pp_remoteAddress :: "string option"
  pp_createdAt :: time_ms
  pp_expiresAt :: time_ms

definition pr_list ::
  "time_ms \<Rightarrow> pairing_request_store \<Rightarrow> pending_pairing_request list \<times> pairing_request_store" where
  "pr_list now1 s =
     (let (pending, s1) = pendingEntries now1 s in
      (map (\<lambda>e. let r = pe_record e in
         \<lparr>pp_id = pr_id r, pp_deviceName = pr_deviceName r, pp_matchCode = pr_matchCode r,
          pp_remoteAddress = pr_remoteAddress r, pp_createdAt = pr_createdAt r,
          pp_expiresAt = pr_expiresAt r\<rparr>) pending, s1))"

datatype pairing_decision = Approve | Deny

text \<open>\<open>entry.outcome = ...\<close> writes into the entry the map holds: the entry stored under the key the
  found entry was stored under.\<close>

definition decided_outcome ::
  "pairing_decision \<Rightarrow> device_role option \<Rightarrow> string option \<Rightarrow> pairing_request_entry \<Rightarrow>
     pairing_request_state" where
  "decided_outcome decision role name e =
     (case decision of
        Approve \<Rightarrow> PrApproved (case role of None \<Rightarrow> Operator | Some r \<Rightarrow> r)
          (case name of None \<Rightarrow> pr_deviceName (pe_record e) | Some n \<Rightarrow> n)
      | Deny \<Rightarrow> PrDenied)"

definition pr_decide ::
  "time_ms \<Rightarrow> string \<Rightarrow> pairing_decision \<Rightarrow> device_role option \<Rightarrow> string option \<Rightarrow>
     pairing_request_store \<Rightarrow> pairing_request_record option \<times> pairing_request_store" where
  "pr_decide now1 reqId decision role name s =
     (let s1 = pr_prune now1 s in
      case find (\<lambda>(k, e). pe_outcome e = None \<and> pr_id (pe_record e) = reqId) (pr_entries s1) of
        None \<Rightarrow> (None, s1)
      | Some (k, e) \<Rightarrow>
          (Some (pe_record e),
           pr_notify (s1\<lparr>pr_entries := AList.update k
             (e\<lparr>pe_outcome := Some (decided_outcome decision role name e)\<rparr>) (pr_entries s1)\<rparr>)))"

definition pr_poll ::
  "time_ms \<Rightarrow> string \<Rightarrow> pairing_request_store \<Rightarrow> pairing_request_state option \<times> pairing_request_store" where
  "pr_poll now1 pollId s =
     (let s1 = pr_prune now1 s in
      case findPollId (pr_entries s1) pollId of
        None \<Rightarrow> (None, s1)
      | Some key \<Rightarrow>
          if key = [] then (None, s1) else
          (case map_of (pr_entries s1) key of
             None \<Rightarrow> (None, s1)
           | Some entry \<Rightarrow>
               (case pe_outcome entry of
                  None \<Rightarrow> (Some (PrPending (pr_expiresAt (pe_record entry))), s1)
                | Some outcome \<Rightarrow>
                    let s2 = s1\<lparr>pr_entries := AList.delete key (pr_entries s1)\<rparr>
                    in (Some outcome, if outcome \<noteq> PrDenied then pr_notify s2 else s2))))"

section \<open>Download tokens\<close>

record download_token_entry =
  dt_token :: string
  dt_path :: string
  dt_absolutePath :: string
  dt_fileName :: string
  dt_mimeType :: string
  dt_size :: nat
  dt_expiresAt :: time_ms

record download_token_store =
  dt_ttlMs :: time_ms
  dt_tokens :: "(string, download_token_entry) js_map"

record download_input =
  di_path :: string
  di_absolutePath :: string
  di_fileName :: string
  di_mimeType :: string
  di_size :: nat

definition dt_pruneExpired :: "time_ms \<Rightarrow> download_token_store \<Rightarrow> download_token_store" where
  "dt_pruneExpired current s = s\<lparr>dt_tokens := drop_expired dt_expiresAt current (dt_tokens s)\<rparr>"

definition dt_issueToken ::
  "time_ms \<Rightarrow> string \<Rightarrow> time_ms \<Rightarrow> download_input \<Rightarrow> download_token_store \<Rightarrow>
     download_token_entry \<times> download_token_store" where
  "dt_issueToken now1 token now2 input s =
     (let s1 = dt_pruneExpired now1 s;
          entry = \<lparr>dt_token = token, dt_path = di_path input, dt_absolutePath = di_absolutePath input,
                   dt_fileName = di_fileName input, dt_mimeType = di_mimeType input,
                   dt_size = di_size input, dt_expiresAt = now2 + dt_ttlMs s1\<rparr>
      in (entry, s1\<lparr>dt_tokens := AList.update token entry (dt_tokens s1)\<rparr>))"

definition dt_consumeToken ::
  "time_ms \<Rightarrow> string \<Rightarrow> download_token_store \<Rightarrow> download_token_entry option \<times> download_token_store" where
  "dt_consumeToken now1 token s =
     (case map_of (dt_tokens s) token of
        None \<Rightarrow> (None, s)
      | Some entry \<Rightarrow>
          (if dt_expiresAt entry \<le> now1 then None else Some entry,
           s\<lparr>dt_tokens := AList.delete token (dt_tokens s)\<rparr>))"

end
