(* ===== verification/PairingSafety.thy ===== *)
theory PairingSafety
  imports PairingStores
begin

text \<open>
  The secret stores as sequences of events, in any order and with any clock: each store
  interprets \<open>single_use\<close>, so an offer, a code, an approval and a download token are redeemed at
  most as often as they were issued; a pairing code lets a device in with the role it was issued
  with; an approval is collected only after an owner decided it; unexpired offers survive later
  ones up to the bound.
\<close>

section \<open>Lookups in the stores\<close>

lemma findConstantTime_foldl:
  "foldl (\<lambda>found code. if length code = length c \<and> code = c then Some code else found) acc ks =
     (if c \<in> set ks then Some c else acc)"
  by (induction ks arbitrary: acc) auto

lemma findConstantTime_iff: "findConstantTime m c = (if map_has m c then Some c else None)"
  unfolding findConstantTime_def findConstantTime_foldl
  by (auto simp: map_has_def map_of_eq_None_iff)

lemma findConstantTime_Some: "findConstantTime m c = Some k \<longleftrightarrow> k = c \<and> map_has m c"
  by (auto simp: findConstantTime_iff)

lemma findPollId_eq: "findPollId m c = findConstantTime m c"
  by (simp add: findPollId_def findConstantTime_def)

section \<open>Claim offers\<close>

datatype offer_event =
    OfferIssue time_ms string time_ms time_ms
  | OfferConsume time_ms time_ms string
  | OfferIsLive time_ms time_ms string
  | OfferLiveCount time_ms

fun offer_step :: "offer_event \<Rightarrow> claim_offer_store \<Rightarrow> claim_offer_store" where
  "offer_step (OfferIssue t1 tok t2 t3) s = snd (offer_issue t1 tok t2 t3 s)"
| "offer_step (OfferConsume t1 t2 tok) s = snd (offer_consume t1 t2 tok s)"
| "offer_step (OfferIsLive t1 t2 tok) s = snd (offer_isLive t1 t2 tok s)"
| "offer_step (OfferLiveCount t1) s = snd (offer_liveCount t1 s)"

fun offer_creates :: "offer_event \<Rightarrow> claim_offer_store \<Rightarrow> string option" where
  "offer_creates (OfferIssue t1 tok t2 t3) s = Some tok"
| "offer_creates _ s = None"

fun offer_redeems :: "offer_event \<Rightarrow> claim_offer_store \<Rightarrow> string option" where
  "offer_redeems (OfferConsume t1 t2 tok) s =
     (if fst (offer_consume t1 t2 tok s) then Some tok else None)"
| "offer_redeems _ s = None"

lemmas offer_defs = offer_issue_def offer_consume_def offer_isLive_def offer_liveCount_def
  offer_prune_def Let_def

lemma prune_live_has:
  "wf_map m \<Longrightarrow> map_has (prune_live f n t m) k \<Longrightarrow> map_has m k"
  using prune_live_absent by (fastforce simp: map_has_def)

interpretation offers: single_use offer_step offer_creates offer_redeems
  "\<lambda>s. map_has (co_live s)" "\<lambda>s. wf_map (co_live s)"
proof unfold_locales
  fix s :: claim_offer_store and e k
  assume wf: "wf_map (co_live s)"
  show "wf_map (co_live (offer_step e s))"
    using wf by (cases e) (auto simp: offer_defs split: option.splits)
  show "map_has (co_live s) k" if "offer_redeems e s = Some k"
    using that wf prune_live_absent[OF wf]
    by (cases e) (fastforce simp: offer_defs map_has_def split: option.splits if_splits)+
  show "\<not> map_has (co_live (offer_step e s)) k" if "offer_redeems e s = Some k"
    using that by (cases e) (auto simp: offer_defs map_has_def jsmap split: option.splits if_splits)
  show "map_has (co_live s) k \<or> offer_creates e s = Some k"
    if "map_has (co_live (offer_step e s)) k"
  proof (cases e)
    case (OfferIssue t1 tok t2 t3)
    with that wf have "map_has (AList.update tok (t2 + co_ttlMs s)
        (prune_live id (co_maxLive s) t1 (co_live s))) k"
      by (auto simp: offer_defs intro: prune_live_has)
    with OfferIssue wf show ?thesis
      by (auto simp: map_has_def jsmap dest: prune_live_get split: if_splits)
  qed (use that wf prune_live_has[OF wf] in
      \<open>auto simp: offer_defs map_has_def jsmap dest: prune_live_get split: option.splits if_splits\<close>)
qed

section \<open>Pairing codes\<close>

text \<open>An issue whose random source gave only live codes has not returned and is no step.\<close>

datatype code_event =
    CodeIssue time_ms "device_role option" ttl_seconds time_ms "(nat \<Rightarrow> nat) list" time_ms
  | CodeRedeem time_ms time_ms string
  | CodeLiveCount time_ms

fun code_step :: "code_event \<Rightarrow> pairing_code_store \<Rightarrow> pairing_code_store" where
  "code_step (CodeIssue t1 r ttl t2 ds t3) s =
     (case code_issue t1 r ttl t2 ds t3 s of None \<Rightarrow> s | Some (_, s') \<Rightarrow> s')"
| "code_step (CodeRedeem t1 t2 input) s = snd (code_redeem t1 t2 input s)"
| "code_step (CodeLiveCount t1) s = snd (code_liveCount t1 s)"

fun code_issued :: "code_event \<Rightarrow> pairing_code_store \<Rightarrow> pairing_code option" where
  "code_issued (CodeIssue t1 r ttl t2 ds t3) s = map_option fst (code_issue t1 r ttl t2 ds t3 s)"
| "code_issued _ s = None"

fun code_redeemed :: "code_event \<Rightarrow> pairing_code_store \<Rightarrow> pairing_code option" where
  "code_redeemed (CodeRedeem t1 t2 input) s = fst (code_redeem t1 t2 input s)"
| "code_redeemed _ s = None"

definition code_creates :: "code_event \<Rightarrow> pairing_code_store \<Rightarrow> string option" where
  "code_creates e s = map_option code_text (code_issued e s)"

definition code_redeems :: "code_event \<Rightarrow> pairing_code_store \<Rightarrow> string option" where
  "code_redeems e s = map_option code_text (code_redeemed e s)"

lemmas code_defs = code_issue_def code_redeem_def code_liveCount_def code_prune_def
  code_creates_def code_redeems_def Let_def

lemma set_update_sub: "kv \<in> set (AList.update k v m) \<Longrightarrow> kv = (k, v) \<or> kv \<in> set m"
  by (induction m) (auto split: if_splits)

lemma set_delete_sub: "kv \<in> set (AList.delete k m) \<Longrightarrow> kv \<in> set m"
  by (induction m) (auto split: if_splits)

lemma code_step_live:
  assumes "(k, v) \<in> set (pc_live (code_step e s))"
  shows "(k, v) \<in> set (pc_live s) \<or>
     code_issued e s = Some \<lparr>code_text = k, code_role = pc_role v, code_expiresAt = pc_expiresAtMs v\<rparr>"
  using assms
  by (cases e) (auto simp: code_defs dest!: prune_live_sub set_update_sub set_delete_sub
      split: option.splits if_splits)

lemma code_redeemed_live:
  assumes "wf_map (pc_live s)" "code_redeemed e s = Some pc"
  shows "\<exists>v. map_of (pc_live s) (code_text pc) = Some v \<and>
     pc = \<lparr>code_text = code_text pc, code_role = pc_role v, code_expiresAt = pc_expiresAtMs v\<rparr>"
  using assms
  by (cases e) (auto simp: code_defs dest: prune_live_get split: option.splits if_splits)

lemma code_step_wf: "wf_map (pc_live s) \<Longrightarrow> wf_map (pc_live (code_step e s))"
  by (cases e) (auto simp: code_defs split: option.splits if_splits)

lemma map_has_mem: "map_has m k \<longleftrightarrow> (\<exists>v. (k, v) \<in> set m)"
  by (auto simp: map_has_def dest: map_of_SomeD weak_map_of_SomeI)

interpretation codes: single_use code_step code_creates code_redeems
  "\<lambda>s. map_has (pc_live s)" "\<lambda>s. wf_map (pc_live s)"
proof unfold_locales
  fix s :: pairing_code_store and e k
  assume wf: "wf_map (pc_live s)"
  show "wf_map (pc_live (code_step e s))"
    using wf by (rule code_step_wf)
  show "map_has (pc_live s) k" if "code_redeems e s = Some k"
    using that code_redeemed_live[OF wf] by (force simp: code_redeems_def map_has_def)
  show "\<not> map_has (pc_live (code_step e s)) k" if "code_redeems e s = Some k"
    using that
    by (cases e) (auto simp: code_defs map_has_def jsmap findConstantTime_Some
        split: option.splits if_splits)
  show "map_has (pc_live s) k \<or> code_creates e s = Some k"
    if "map_has (pc_live (code_step e s)) k"
    using that code_step_live[of k _ e s] by (force simp: map_has_mem code_creates_def)
qed

text \<open>Every live code was issued by an event of the run so far.\<close>

definition issued_before :: "pairing_code \<Rightarrow> pairing_code_store \<Rightarrow> code_event list \<Rightarrow> bool" where
  "issued_before pc s es =
     (\<exists>es1 e es2. es = es1 @ e # es2 \<and> code_issued e (fold code_step es1 s) = Some pc)"

lemma issued_before_snoc:
  "issued_before pc s es \<or> code_issued e (fold code_step es s) = Some pc \<Longrightarrow>
     issued_before pc s (es @ [e])"
  unfolding issued_before_def by fastforce

lemma code_run_live:
  assumes "pc_live s = []"
  shows "wf_map (pc_live (fold code_step es s)) \<and>
    ((k, v) \<in> set (pc_live (fold code_step es s)) \<longrightarrow>
      issued_before \<lparr>code_text = k, code_role = pc_role v, code_expiresAt = pc_expiresAtMs v\<rparr> s es)"
proof (induction es rule: rev_induct)
  case (snoc e es)
  then show ?case
    using code_step_live[of k v e "fold code_step es s"] issued_before_snoc code_step_wf
    by (simp) blast
qed (simp add: assms)

lemma code_redeem_in_time:
  "fst (code_redeem t1 t2 input s) = Some pc \<Longrightarrow> t2 < code_expiresAt pc"
  by (auto simp: code_defs split: option.splits if_splits)

section \<open>Pairing requests\<close>

datatype request_event =
    RequestCreate time_ms time_ms time_ms string string "nat \<Rightarrow> nat" string "string option"
  | RequestList time_ms
  | RequestDecide time_ms string pairing_decision "device_role option" "string option"
  | RequestPoll time_ms string
  | RequestOnChange nat
  | RequestUnsubscribe nat

fun request_step :: "request_event \<Rightarrow> pairing_request_store \<Rightarrow> pairing_request_store" where
  "request_step (RequestCreate t1 t2 t3 i p d n a) s = snd (pr_create t1 t2 t3 i p d n a s)"
| "request_step (RequestList t1) s = snd (pr_list t1 s)"
| "request_step (RequestDecide t1 i d r n) s = snd (pr_decide t1 i d r n s)"
| "request_step (RequestPoll t1 p) s = snd (pr_poll t1 p s)"
| "request_step (RequestOnChange l) s = pr_onChange l s"
| "request_step (RequestUnsubscribe l) s = pr_unsubscribe l s"

fun request_creates :: "request_event \<Rightarrow> pairing_request_store \<Rightarrow> string option" where
  "request_creates (RequestCreate t1 t2 t3 i p d n a) s =
     map_option pr_pollId (fst (pr_create t1 t2 t3 i p d n a s))"
| "request_creates _ s = None"

text \<open>A poll that collects an outcome.\<close>

fun request_collects :: "request_event \<Rightarrow> pairing_request_store \<Rightarrow> string option" where
  "request_collects (RequestPoll t1 p) s =
     (case fst (pr_poll t1 p s) of
        Some PrDenied \<Rightarrow> Some p
      | Some (PrApproved r n) \<Rightarrow> Some p
      | _ \<Rightarrow> None)"
| "request_collects _ s = None"

lemmas request_defs = pr_create_def pr_list_def pr_decide_def pr_poll_def pendingEntries_def
  pr_prune_def pr_notify_def pr_onChange_def pr_unsubscribe_def Let_def

lemma drop_expired_sub: "kv \<in> set (drop_expired f t m) \<Longrightarrow> kv \<in> set m \<and> t < f (snd kv)"
  by (auto simp: drop_expired_def)

lemma find_mem: "find P xs = Some x \<Longrightarrow> x \<in> set xs \<and> P x"
  by (auto simp: find_Some_iff)

text \<open>What one event does to the entries: an entry afterwards was there before, is new and
  undecided, or was decided by this event.\<close>

lemma request_step_entries:
  assumes "(k, e) \<in> set (pr_entries (request_step ev s))"
  shows "(k, e) \<in> set (pr_entries s)
    \<or> pe_outcome e = None \<and> request_creates ev s = Some k
    \<or> (\<exists>e0 t i d r n. (k, e0) \<in> set (pr_entries s) \<and> ev = RequestDecide t i d r n \<and>
         pr_id (pe_record e0) = i \<and> e = e0\<lparr>pe_outcome := Some (decided_outcome d r n e0)\<rparr>)"
proof (cases ev)
  case (RequestDecide t i d r n)
  show ?thesis
  proof (cases "find (\<lambda>(k, e). pe_outcome e = None \<and> pr_id (pe_record e) = i)
      (drop_expired pe_expiresAtMs t (pr_entries s))")
    case None
    with assms RequestDecide show ?thesis
      by (auto simp: request_defs dest: drop_expired_sub)
  next
    case (Some ke)
    obtain k0 e0 where ke: "ke = (k0, e0)" by (cases ke)
    with Some have mem: "(k0, e0) \<in> set (pr_entries s)" and id: "pr_id (pe_record e0) = i"
      by (auto dest!: find_mem drop_expired_sub)
    with assms RequestDecide Some ke have
      "(k, e) = (k0, e0\<lparr>pe_outcome := Some (decided_outcome d r n e0)\<rparr>) \<or> (k, e) \<in> set (pr_entries s)"
      by (auto simp: request_defs dest!: set_update_sub dest: drop_expired_sub)
    with mem id RequestDecide show ?thesis by blast
  qed
qed (use assms in \<open>auto simp: request_defs dest!: set_update_sub set_delete_sub drop_expired_sub
      split: option.splits if_splits\<close>)

lemma request_step_wf: "wf_map (pr_entries s) \<Longrightarrow> wf_map (pr_entries (request_step ev s))"
  by (cases ev) (auto simp: request_defs split: option.splits if_splits)

lemma pr_poll_outcome:
  assumes "wf_map (pr_entries s)" "fst (pr_poll t p s) = Some o'" "\<And>x. o' \<noteq> PrPending x"
  shows "\<exists>e. map_of (pr_entries s) p = Some e \<and> pe_outcome e = Some o' \<and> t < pe_expiresAtMs e \<and>
     map_of (pr_entries (snd (pr_poll t p s))) p = None"
  using assms
  by (auto simp: request_defs findPollId_eq findConstantTime_Some drop_expired_get jsmap
      split: option.splits if_splits)

lemma request_collects_outcome:
  assumes "request_collects ev s = Some k"
  shows "\<exists>t o'. ev = RequestPoll t k \<and> fst (pr_poll t k s) = Some o' \<and> (\<forall>x. o' \<noteq> PrPending x)"
  using assms by (cases ev) (auto split: option.splits pairing_request_state.splits)

interpretation requests: single_use request_step request_creates request_collects
  "\<lambda>s. map_has (pr_entries s)" "\<lambda>s. wf_map (pr_entries s)"
proof unfold_locales
  fix s :: pairing_request_store and e k
  assume wf: "wf_map (pr_entries s)"
  show "wf_map (pr_entries (request_step e s))"
    using wf by (rule request_step_wf)
  show "map_has (pr_entries s) k" if "request_collects e s = Some k"
    using request_collects_outcome[OF that] pr_poll_outcome[OF wf] by (force simp: map_has_def)
  show "\<not> map_has (pr_entries (request_step e s)) k" if "request_collects e s = Some k"
    using request_collects_outcome[OF that] pr_poll_outcome[OF wf] by (force simp: map_has_def)
  show "map_has (pr_entries s) k \<or> request_creates e s = Some k"
    if "map_has (pr_entries (request_step e s)) k"
    using that request_step_entries[of k _ e s] by (fastforce simp: map_has_mem)
qed

text \<open>Every approval in the store was given by an event of the run, to this request, with this
  role.\<close>

definition approved_by :: "request_event list \<Rightarrow> pairing_request_entry \<Rightarrow> bool" where
  "approved_by es e =
     (\<forall>r n. pe_outcome e = Some (PrApproved r n) \<longrightarrow>
        (\<exists>t role name. RequestDecide t (pr_id (pe_record e)) Approve role name \<in> set es \<and>
           r = (case role of None \<Rightarrow> Operator | Some r' \<Rightarrow> r')))"

lemma approved_by_snoc: "approved_by es e \<Longrightarrow> approved_by (es @ [ev]) e"
  by (fastforce simp: approved_by_def)

lemma approved_by_decided:
  "RequestDecide t (pr_id (pe_record e0)) d r n \<in> set es \<Longrightarrow>
     approved_by es (e0\<lparr>pe_outcome := Some (decided_outcome d r n e0)\<rparr>)"
  by (cases d) (fastforce simp: approved_by_def decided_outcome_def)+

lemma request_run_approved:
  assumes "pr_entries s = []"
  shows "wf_map (pr_entries (fold request_step es s)) \<and>
    ((k, e) \<in> set (pr_entries (fold request_step es s)) \<longrightarrow> approved_by es e)"
proof (induction es arbitrary: k e rule: rev_induct)
  case (snoc ev es)
  let ?s = "fold request_step es s"
  have wf: "wf_map (pr_entries (request_step ev ?s))"
    using snoc request_step_wf by blast
  have "approved_by (es @ [ev]) e" if mem: "(k, e) \<in> set (pr_entries (request_step ev ?s))"
  proof -
    consider "(k, e) \<in> set (pr_entries ?s)" | "pe_outcome e = None"
      | e0 t d r n where "ev = RequestDecide t (pr_id (pe_record e0)) d r n"
          "e = e0\<lparr>pe_outcome := Some (decided_outcome d r n e0)\<rparr>"
      using request_step_entries[OF mem] by auto
    then show ?thesis
    proof cases
      case 1
      then show ?thesis using snoc approved_by_snoc by blast
    next
      case 2
      then show ?thesis by (simp add: approved_by_def)
    next
      case 3
      with approved_by_decided[of t e0 d r n "es @ [ev]"] show ?thesis by simp
    qed
  qed
  with wf show ?case by simp
qed (simp add: assms)

section \<open>Download tokens\<close>

datatype download_event =
    DownloadIssue time_ms string time_ms download_input
  | DownloadConsume time_ms string

fun download_step :: "download_event \<Rightarrow> download_token_store \<Rightarrow> download_token_store" where
  "download_step (DownloadIssue t1 tok t2 i) s = snd (dt_issueToken t1 tok t2 i s)"
| "download_step (DownloadConsume t1 tok) s = snd (dt_consumeToken t1 tok s)"

fun download_creates :: "download_event \<Rightarrow> download_token_store \<Rightarrow> string option" where
  "download_creates (DownloadIssue t1 tok t2 i) s = Some tok"
| "download_creates _ s = None"

fun download_redeems :: "download_event \<Rightarrow> download_token_store \<Rightarrow> string option" where
  "download_redeems (DownloadConsume t1 tok) s =
     (if fst (dt_consumeToken t1 tok s) \<noteq> None then Some tok else None)"
| "download_redeems _ s = None"

lemmas download_defs = dt_issueToken_def dt_consumeToken_def dt_pruneExpired_def Let_def

interpretation downloads: single_use download_step download_creates download_redeems
  "\<lambda>s. map_has (dt_tokens s)" "\<lambda>s. wf_map (dt_tokens s)"
proof unfold_locales
  fix s :: download_token_store and e k
  assume wf: "wf_map (dt_tokens s)"
  show "wf_map (dt_tokens (download_step e s))"
    using wf by (cases e) (auto simp: download_defs split: option.splits)
  show "map_has (dt_tokens s) k" if "download_redeems e s = Some k"
    using that by (cases e) (auto simp: download_defs map_has_def split: option.splits if_splits)
  show "\<not> map_has (dt_tokens (download_step e s)) k" if "download_redeems e s = Some k"
    using that by (cases e) (auto simp: download_defs map_has_def jsmap split: option.splits if_splits)
  show "map_has (dt_tokens s) k \<or> download_creates e s = Some k"
    if "map_has (dt_tokens (download_step e s)) k"
    using that wf
    by (cases e) (auto simp: download_defs map_has_def jsmap drop_expired_get
        split: option.splits if_splits)
qed

section \<open>Codes as people type them\<close>

definition clean_code :: "string \<Rightarrow> string" where
  "clean_code s = map code_replace (filter (\<lambda>c. \<not> (is_space c \<or> c = CHR ''-'')) (toUpperCase s))"

lemma clean_code_append [simp]: "clean_code (s @ s') = clean_code s @ clean_code s'"
  by (simp add: clean_code_def toUpperCase_def)

lemma clean_code_spaces: "list_all is_space s \<Longrightarrow> clean_code s = []"
  by (induction s) (auto simp: clean_code_def toUpperCase_def upper_char_def is_space_def)

lemma trim_split: "\<exists>a b. s = a @ js_trim s @ b \<and> list_all is_space a \<and> list_all is_space b"
proof -
  let ?w = "dropWhile is_space s"
  have "s = takeWhile is_space s @ ?w" by simp
  moreover have "?w = js_trim s @ rev (takeWhile is_space (rev ?w))"
    unfolding js_trim_def by (metis rev_append rev_rev_ident takeWhile_dropWhile_id)
  moreover have "list_all is_space (takeWhile is_space s)"
    "list_all is_space (rev (takeWhile is_space (rev ?w)))"
    by (auto simp: list_all_iff dest: set_takeWhileD)
  ultimately show ?thesis by metis
qed

lemma clean_code_trim: "clean_code (js_trim s) = clean_code s"
proof -
  obtain a b where s: "s = a @ js_trim s @ b" "list_all is_space a" "list_all is_space b"
    using trim_split by blast
  have "clean_code s = clean_code a @ clean_code (js_trim s) @ clean_code b"
    by (metis s(1) clean_code_append)
  with s(2,3) show ?thesis by (simp add: clean_code_spaces)
qed

lemma normalize_clean:
  "normalizePairingCode s =
     (if length (clean_code s) = PAIRING_CODE_LENGTH \<and>
         list_all (\<lambda>c. c \<in> set PAIRING_CODE_ALPHABET) (clean_code s)
      then Some (clean_code s) else None)"
proof -
  have "map code_replace (filter (\<lambda>c. \<not> (is_space c \<or> c = CHR ''-'')) (toUpperCase (js_trim s)))
      = clean_code s"
    using clean_code_trim[of s] by (simp add: clean_code_def)
  then show ?thesis by (simp add: normalizePairingCode_def Let_def)
qed

lemma clean_alphabet_char: "c \<in> set PAIRING_CODE_ALPHABET \<Longrightarrow> clean_code [c] = [c]"
  by (auto simp: PAIRING_CODE_ALPHABET_def clean_code_def toUpperCase_def upper_char_def
      is_space_def code_replace_def)

lemma clean_alphabet: "list_all (\<lambda>c. c \<in> set PAIRING_CODE_ALPHABET) s \<Longrightarrow> clean_code s = s"
proof (induction s)
  case (Cons c s)
  then show ?case
    using clean_code_append[of "[c]" s] by (simp add: clean_alphabet_char)
qed (simp add: clean_code_def toUpperCase_def)

lemma clean_dash [simp]: "clean_code (CHR ''-'' # s) = clean_code s"
  by (simp add: clean_code_def toUpperCase_def upper_char_def is_space_def)

lemma normalize_Some:
  "normalizePairingCode s = Some n \<Longrightarrow>
     n = clean_code s \<and> length n = 8 \<and> clean_code n = n"
  by (auto simp: normalize_clean clean_alphabet PAIRING_CODE_LENGTH_def split: if_splits)

lemma normalize_format:
  "normalizePairingCode (formatPairingCode s) = normalizePairingCode s"
proof -
  have halves: "clean_code (take 4 w @ ''-'' @ drop 4 w) = clean_code w" for w
    using clean_code_append[of "take 4 w" "drop 4 w"] by simp
  have "clean_code (formatPairingCode s) = clean_code s"
  proof (cases "normalizePairingCode s")
    case None
    then show ?thesis using halves[of s] by (simp add: formatPairingCode_def)
  next
    case (Some n)
    then have "formatPairingCode s = take 4 n @ ''-'' @ drop 4 n"
      by (simp add: formatPairingCode_def)
    then show ?thesis using halves[of n] normalize_Some[OF Some] by metis
  qed
  then show ?thesis by (simp add: normalize_clean)
qed

lemma random_symbols_alphabet:
  "list_all (\<lambda>c. c \<in> set PAIRING_CODE_ALPHABET) (random_symbols n draw)"
proof -
  have "0 < length PAIRING_CODE_ALPHABET" by (simp add: PAIRING_CODE_ALPHABET_def)
  then show ?thesis by (simp add: random_symbols_def list_all_iff)
qed

lemma normalize_generated: "normalizePairingCode (generateCode draw) = Some (generateCode draw)"
  using random_symbols_alphabet[of PAIRING_CODE_LENGTH draw] clean_alphabet
  by (simp add: normalize_clean generateCode_def random_symbols_def)

lemma draw_code_fresh:
  "draw_code live ds = Some code \<Longrightarrow> \<not> map_has live code \<and> (\<exists>d. code = generateCode d)"
  by (induction ds) (auto simp: Let_def split: if_splits)

lemma draw_code_total: "\<exists>d \<in> set ds. \<not> map_has live (generateCode d) \<Longrightarrow> \<exists>code. draw_code live ds = Some code"
  by (induction ds) (auto simp: Let_def)

section \<open>Offers that survive later offers\<close>

lemma younger_update: "tok \<noteq> k \<Longrightarrow> younger k (AList.update tok v m) \<le> Suc (younger k m)"
proof (induction m)
  case (Cons kv m)
  have "length (AList.update tok v m) \<le> Suc (length m)"
    by (cases "map_of m tok = None") (simp_all add: length_update_new length_update_old)
  with Cons show ?case by (cases kv) (auto simp: younger_Cons)
qed (simp add: younger_def)

lemma offer_issue_spares:
  assumes "wf_map (co_live s)" "map_of (co_live s) k = Some e" "tok \<noteq> k"
    "Suc (younger k (co_live s)) < co_maxLive s" "t1 < e" "t3 < e"
  shows "wf_map (co_live (snd (offer_issue t1 tok t2 t3 s))) \<and>
    map_of (co_live (snd (offer_issue t1 tok t2 t3 s))) k = Some e \<and>
    younger k (co_live (snd (offer_issue t1 tok t2 t3 s))) \<le> Suc (younger k (co_live s)) \<and>
    co_maxLive (snd (offer_issue t1 tok t2 t3 s)) = co_maxLive s"
proof -
  let ?n = "co_maxLive s"
  let ?m1 = "prune_live id ?n t1 (co_live s)"
  let ?m2 = "AList.update tok (t2 + co_ttlMs s) ?m1"
  have m1: "wf_map ?m1" "map_of ?m1 k = Some e" "younger k ?m1 \<le> younger k (co_live s)"
    using prune_live_spares[of "co_live s" k e ?n t1 id] assms by auto
  then have m2: "wf_map ?m2" "map_of ?m2 k = Some e" "younger k ?m2 \<le> Suc (younger k (co_live s))"
    using assms(3) younger_update[of tok k "t2 + co_ttlMs s" ?m1] by (auto simp: jsmap)
  then show ?thesis
    using prune_live_spares[of ?m2 k e ?n t3 id] assms by (auto simp: offer_defs)
qed

text \<open>Further offers, each a token with the three readings of the clock.\<close>

fun offer_issues :: "(time_ms \<times> string \<times> time_ms \<times> time_ms) list \<Rightarrow> claim_offer_store \<Rightarrow> claim_offer_store" where
  "offer_issues [] s = s"
| "offer_issues ((t1, tok, t2, t3) # is) s = offer_issues is (snd (offer_issue t1 tok t2 t3 s))"

lemma offer_issues_spare:
  assumes "wf_map (co_live s)" "map_of (co_live s) k = Some e"
    "younger k (co_live s) + length is < co_maxLive s"
    "list_all (\<lambda>(t1, tok, t2, t3). tok \<noteq> k \<and> t1 < e \<and> t3 < e) is"
  shows "wf_map (co_live (offer_issues is s)) \<and> map_of (co_live (offer_issues is s)) k = Some e \<and>
    younger k (co_live (offer_issues is s)) < co_maxLive (offer_issues is s)"
  using assms
proof (induction "is" s rule: offer_issues.induct)
  case (2 t1 tok t2 t3 "is" s)
  then show ?case
    using offer_issue_spares[of s k e tok t1 t3 t2] by simp
qed simp

lemma younger_append_new: "map_of m k = None \<Longrightarrow> younger k (m @ [(k, v)]) = 0"
  by (auto simp: younger_def map_of_eq_None_iff dropWhile_append3 dropWhile_eq_Nil_conv)

lemma append_last_spared:
  assumes "wf_map m" "map_of m k = None" "0 < n" "t < f v"
  shows "map_of (prune_live f n t (AList.update k v m)) k = Some v \<and>
    younger k (prune_live f n t (AList.update k v m)) = 0"
proof -
  have "map_of (m @ [(k, v)]) k = Some v" using assms(2) by (simp add: map_add_def)
  moreover have "wf_map (m @ [(k, v)])"
    using assms(1,2) by (auto simp: wf_map_def map_of_eq_None_iff)
  moreover have "younger k (m @ [(k, v)]) = 0" using assms(2) by (rule younger_append_new)
  ultimately show ?thesis
    using prune_live_spares[of "m @ [(k, v)]" k v n t f] assms by (simp add: update_new_append)
qed

lemma offer_issue_live:
  assumes "wf_map (co_live s)" "\<not> map_has (co_live s) tok" "0 < co_maxLive s" "t3 < t2 + co_ttlMs s"
  shows "map_of (co_live (snd (offer_issue t1 tok t2 t3 s))) tok = Some (t2 + co_ttlMs s) \<and>
    younger tok (co_live (snd (offer_issue t1 tok t2 t3 s))) = 0"
proof -
  let ?m = "prune_live id (co_maxLive s) t1 (co_live s)"
  have "map_of ?m tok = None"
    using assms(1,2) prune_live_absent by (auto simp: map_has_def)
  then show ?thesis
    using append_last_spared[of ?m tok "co_maxLive s" t3 id "t2 + co_ttlMs s"] assms
    by (simp add: offer_defs)
qed

lemma offer_consume_live:
  assumes "wf_map (co_live s)" "map_of (co_live s) tok = Some e" "younger tok (co_live s) < co_maxLive s"
    "u1 < e" "u2 < e"
  shows "fst (offer_consume u1 u2 tok s)"
  using prune_live_spares[of "co_live s" tok e "co_maxLive s" u1 id] assms
  by (auto simp: offer_defs split: option.splits)

lemma offer_run_wf: "wf_map (co_live (fold offer_step es (createClaimOfferStore ttl mx)))"
proof (induction es rule: rev_induct)
  case (snoc e es)
  then show ?case using offers.inv_step by simp
qed (simp add: createClaimOfferStore_def)

lemma offer_step_config:
  "co_maxLive (offer_step e s) = co_maxLive s \<and> co_ttlMs (offer_step e s) = co_ttlMs s"
  by (cases e) (auto simp: offer_defs split: option.splits)

lemma offer_issue_config: "co_maxLive (snd (offer_issue t1 tok t2 t3 s)) = co_maxLive s"
  by (simp add: offer_defs)

section \<open>The bound on pending requests\<close>

abbreviation pending_of :: "pairing_request_store \<Rightarrow> (string \<times> pairing_request_entry) list" where
  "pending_of s \<equiv> filter (\<lambda>(k, e). pe_outcome e = None) (pr_entries s)"

lemma pending_drop_expired:
  "length (filter (\<lambda>(k, e). pe_outcome e = None) (drop_expired f t m))
     \<le> length (filter (\<lambda>(k, e). pe_outcome e = None) m)"
  unfolding drop_expired_def by (induction m) auto

lemma pending_delete:
  "length (filter P (AList.delete k m)) \<le> length (filter P m)"
  by (induction m) auto

lemma pending_update:
  "length (filter P (AList.update k v m)) \<le> Suc (length (filter P m))"
  by (induction m) auto

lemma pending_update_decided:
  "\<not> P (k, v) \<Longrightarrow> length (filter P (AList.update k v m)) \<le> length (filter P m)"
  by (induction m) auto

lemma pendingEntries_length:
  "length (fst (pendingEntries t s)) = length (pending_of (pr_prune t s))"
  by (simp add: pendingEntries_def Let_def filter_map comp_def split_def)

lemma request_step_pending:
  "pr_maxPending (request_step ev s) = pr_maxPending s \<and>
   (length (pending_of s) \<le> pr_maxPending s \<longrightarrow>
    length (pending_of (request_step ev s)) \<le> pr_maxPending s)"
proof (cases ev)
  case (RequestCreate t1 t2 t3 i p d n a)
  let ?P = "\<lambda>(k, e). pe_outcome e = None"
  let ?m1 = "drop_expired pe_expiresAtMs t1 (pr_entries s)"
  let ?m2 = "drop_expired pe_expiresAtMs t2 ?m1"
  have le: "length (filter ?P ?m2) \<le> length (pending_of s)"
    using pending_drop_expired order_trans by blast
  have eq: "length (filter (\<lambda>e. pe_outcome e = None) (map snd ?m2)) = length (filter ?P ?m2)"
    by (simp add: filter_map comp_def split_def)
  have "length (filter ?P (AList.update p e ?m2)) \<le> pr_maxPending s"
    if "\<not> pr_maxPending s \<le> length (filter ?P ?m2)" for e
    using that pending_update[of ?P p e ?m2] by simp
  then show ?thesis
    using RequestCreate le eq by (auto simp: request_defs split: if_splits)
next
  case (RequestList t)
  then show ?thesis
    using pending_drop_expired[of pe_expiresAtMs t "pr_entries s"] by (auto simp: request_defs)
next
  case (RequestDecide t i d r n)
  let ?P = "\<lambda>(k, e). pe_outcome e = None"
  have "length (filter ?P (AList.update k (e\<lparr>pe_outcome := Some o'\<rparr>)
      (drop_expired pe_expiresAtMs t (pr_entries s)))) \<le> length (pending_of s)" for k e o'
    using pending_update_decided[of ?P k "e\<lparr>pe_outcome := Some o'\<rparr>"
        "drop_expired pe_expiresAtMs t (pr_entries s)"]
      pending_drop_expired[of pe_expiresAtMs t "pr_entries s"] by simp
  then show ?thesis
    using RequestDecide pending_drop_expired[of pe_expiresAtMs t "pr_entries s"]
    by (auto simp: request_defs intro: order_trans split: option.splits)
next
  case (RequestPoll t p)
  let ?P = "\<lambda>(k, e). pe_outcome e = None"
  have "length (filter ?P (AList.delete k (drop_expired pe_expiresAtMs t (pr_entries s))))
      \<le> length (pending_of s)" for k
    using pending_delete[of ?P k "drop_expired pe_expiresAtMs t (pr_entries s)"]
      pending_drop_expired[of pe_expiresAtMs t "pr_entries s"] by simp
  then show ?thesis
    using RequestPoll pending_drop_expired[of pe_expiresAtMs t "pr_entries s"]
    by (auto simp: request_defs intro: order_trans split: option.splits)
qed (simp_all add: request_defs)

section \<open>Properties\<close>

text \<open>A claim offer is single use: in any sequence of issues, redemptions and queries on a new
  store, at any readings of the clock, a token is consumed with success at most as often as it
  was issued.\<close>

theorem claim_offer_single_use:
  "occurrences offer_redeems offer_step tok (createClaimOfferStore ttl mx) es
     \<le> occurrences offer_creates offer_step tok (createClaimOfferStore ttl mx) es"
  by (rule offers.redeemed_at_most_once) (simp_all add: createClaimOfferStore_def map_has_def)

text \<open>C8. A pairing code is single use: in any sequence of events on a new store it is redeemed at
  most as often as it was issued.\<close>

theorem pairing_code_single_use:
  "occurrences code_redeems code_step code (createPairingCodeStore mx) es
     \<le> occurrences code_creates code_step code (createPairingCodeStore mx) es"
  by (rule codes.redeemed_at_most_once) (simp_all add: createPairingCodeStore_def map_has_def)

text \<open>A redeemed pairing code was issued before, by an event of the same run, with exactly the
  role and expiry it is redeemed with, and is redeemed before it expires.\<close>

theorem pairing_code_role_as_issued:
  assumes "fst (code_redeem t1 t2 input (fold code_step es (createPairingCodeStore mx))) = Some pc"
  shows "issued_before pc (createPairingCodeStore mx) es \<and> t2 < code_expiresAt pc"
proof -
  let ?init = "createPairingCodeStore mx"
  let ?s = "fold code_step es ?init"
  have empty: "pc_live ?init = []" by (simp add: createPairingCodeStore_def)
  have "code_redeemed (CodeRedeem t1 t2 input) ?s = Some pc" using assms by simp
  then obtain v where "map_of (pc_live ?s) (code_text pc) = Some v" and
    pc: "pc = \<lparr>code_text = code_text pc, code_role = pc_role v, code_expiresAt = pc_expiresAtMs v\<rparr>"
    using code_redeemed_live code_run_live[OF empty, of es] by blast
  then have "issued_before \<lparr>code_text = code_text pc, code_role = pc_role v,
      code_expiresAt = pc_expiresAtMs v\<rparr> ?init es"
    using code_run_live[OF empty, of es "code_text pc" v] map_of_mem by fastforce
  with pc code_redeem_in_time[OF assms] show ?thesis by simp
qed

theorem pairing_code_role_as_issued_witness:
  "issued_before \<lparr>code_text = ''01234567'', code_role = Viewer, code_expiresAt = 600000\<rparr>
     (createPairingCodeStore None)
     [CodeIssue 0 (Some Viewer) TtlUndefined 0 [id] 0]"
proof -
  have "fst (code_redeem 1 2 ''oi23-4567 '' (fold code_step
      [CodeIssue 0 (Some Viewer) TtlUndefined 0 [id] 0]
      (createPairingCodeStore None)))
    = Some \<lparr>code_text = ''01234567'', code_role = Viewer, code_expiresAt = 600000\<rparr>"
    by code_simp
  then show ?thesis using pairing_code_role_as_issued by blast
qed

text \<open>The code an owner reads out lets the device in: redeemed in its dashed form before it
  expires, a code just issued gives back the pairing it was issued with.\<close>

theorem pairing_code_redeemable:
  assumes "s = fold code_step es (createPairingCodeStore mx)"
    and "code_issue t1 r ttl t2 ds t3 s = Some (pc, s')" and "0 < pc_maxLive s"
    and "t3 < code_expiresAt pc" and "u1 < code_expiresAt pc" and "u2 < code_expiresAt pc"
  shows "fst (code_redeem u1 u2 (formatPairingCode (code_text pc)) s') = Some pc"
proof -
  let ?live = "prune_live pc_expiresAtMs (pc_maxLive s) t1 (pc_live s)"
  let ?v = "\<lparr>pc_role = code_role pc, pc_expiresAtMs = code_expiresAt pc\<rparr>"
  have wf: "wf_map (pc_live s)"
    using assms(1) code_run_live[of "createPairingCodeStore mx" es]
    by (simp add: createPairingCodeStore_def)
  have draw: "draw_code ?live ds = Some (code_text pc)" and
    live: "pc_live s' = prune_live pc_expiresAtMs (pc_maxLive s) t3
      (AList.update (code_text pc) ?v ?live)" and max: "pc_maxLive s' = pc_maxLive s"
    using assms(2) by (auto simp: code_issue_def code_prune_def Let_def split: option.splits)
  then obtain d where code: "code_text pc = generateCode d" and
    new: "map_of ?live (code_text pc) = None"
    using draw_code_fresh[OF draw] by (auto simp: map_has_def)
  have wf': "wf_map (AList.update (code_text pc) ?v ?live)" using wf by simp
  have "map_of (pc_live s') (code_text pc) = Some ?v \<and> younger (code_text pc) (pc_live s') = 0"
    using append_last_spared[of ?live "code_text pc" "pc_maxLive s" t3 pc_expiresAtMs ?v]
      wf new assms(3,4) live by simp
  then have "map_of (pc_live (code_prune u1 s')) (code_text pc) = Some ?v"
    using prune_live_spares[of "pc_live s'" "code_text pc" ?v "pc_maxLive s" u1 pc_expiresAtMs]
      wf' live max assms(3,5) by (simp add: code_prune_def)
  moreover have "normalizePairingCode (formatPairingCode (code_text pc)) = Some (code_text pc)"
    using code normalize_generated normalize_format by simp
  ultimately show ?thesis
    using assms(6) by (simp add: code_redeem_def Let_def findConstantTime_iff map_has_def)
qed

theorem pairing_code_redeemable_witness:
  "fst (code_redeem 1 2 (formatPairingCode ''01234567'')
     (snd (the (code_issue 0 None TtlUndefined 0 [id] 0 (createPairingCodeStore None)))))
   = Some \<lparr>code_text = ''01234567'', code_role = Operator, code_expiresAt = 600000\<rparr>"
proof -
  let ?pc = "\<lparr>code_text = ''01234567'', code_role = Operator, code_expiresAt = 600000\<rparr>"
  let ?s = "createPairingCodeStore None"
  have "?s = fold code_step [] (createPairingCodeStore None)" by simp
  moreover have "code_issue 0 None TtlUndefined 0 [id] 0 ?s =
      Some (?pc, snd (the (code_issue 0 None TtlUndefined 0 [id] 0 ?s)))"
    by code_simp
  moreover have "0 < pc_maxLive ?s" by code_simp
  ultimately show ?thesis
    using pairing_code_redeemable[of ?s "[]" None 0 None TtlUndefined 0 "[id]" 0 ?pc _ 1 2] by simp
qed

text \<open>The outcome of a pairing request is collected once: in any sequence of events on a new
  store, a poll secret collects an approval or a denial at most as often as it was created.\<close>

theorem pairing_request_single_use:
  "occurrences request_collects request_step pollId (createPairingRequestStore ttl mx) es
     \<le> occurrences request_creates request_step pollId (createPairingRequestStore ttl mx) es"
  by (rule requests.redeemed_at_most_once) (simp_all add: createPairingRequestStore_def map_has_def)

text \<open>Nobody is let in without an owner: a poll answers \<open>approved\<close> only if the run has an
  approval of that request by its id, with that role (operator when the owner named none), and
  only before the request expires.\<close>

theorem approval_requires_decision:
  assumes "fst (pr_poll t p (fold request_step es (createPairingRequestStore ttl mx)))
      = Some (PrApproved r n)"
  shows "\<exists>e t' role name.
     map_of (pr_entries (fold request_step es (createPairingRequestStore ttl mx))) p = Some e \<and>
     t < pe_expiresAtMs e \<and>
     RequestDecide t' (pr_id (pe_record e)) Approve role name \<in> set es \<and>
     r = (case role of None \<Rightarrow> Operator | Some r' \<Rightarrow> r')"
proof -
  let ?init = "createPairingRequestStore ttl mx"
  let ?s = "fold request_step es ?init"
  have empty: "pr_entries ?init = []" by (simp add: createPairingRequestStore_def)
  obtain e where e: "map_of (pr_entries ?s) p = Some e" "pe_outcome e = Some (PrApproved r n)"
      "t < pe_expiresAtMs e"
    using pr_poll_outcome[OF _ assms] request_run_approved[OF empty, of es] by blast
  then have "approved_by es e"
    using request_run_approved[OF empty, of es p e] map_of_mem by fastforce
  with e show ?thesis by (fastforce simp: approved_by_def)
qed

theorem approval_requires_decision_witness:
  "\<exists>e t' role name.
     map_of (pr_entries (fold request_step
       [RequestCreate 0 0 0 ''a'' ''secret'' id ''phone'' None,
        RequestDecide 10 ''pr_a'' Approve None None] (createPairingRequestStore None None))) ''secret''
       = Some e \<and> 20 < pe_expiresAtMs e \<and>
     RequestDecide t' (pr_id (pe_record e)) Approve role name \<in> set
       [RequestCreate 0 0 0 ''a'' ''secret'' id ''phone'' None,
        RequestDecide 10 ''pr_a'' Approve None None] \<and>
     Operator = (case role of None \<Rightarrow> Operator | Some r' \<Rightarrow> r')"
proof -
  have "fst (pr_poll 20 ''secret'' (fold request_step
       [RequestCreate 0 0 0 ''a'' ''secret'' id ''phone'' None,
        RequestDecide 10 ''pr_a'' Approve None None] (createPairingRequestStore None None)))
      = Some (PrApproved Operator ''phone'')"
    by code_simp
  then show ?thesis by (rule approval_requires_decision)
qed

text \<open>At most \<open>maxPending\<close> requests are ever pending, whatever the clients do.\<close>

theorem pending_requests_bounded:
  "length (pending_of (fold request_step es (createPairingRequestStore ttl mx)))
     \<le> pr_maxPending (createPairingRequestStore ttl mx)"
proof -
  have "pr_maxPending (fold request_step es s) = pr_maxPending s \<and>
      (length (pending_of s) \<le> pr_maxPending s \<longrightarrow>
       length (pending_of (fold request_step es s)) \<le> pr_maxPending s)" for s
  proof (induction es arbitrary: s)
    case (Cons ev es)
    show ?case using Cons[of "request_step ev s"] request_step_pending[of ev s] by auto
  qed simp
  from this[of "createPairingRequestStore ttl mx"] show ?thesis
    by (simp add: createPairingRequestStore_def)
qed

text \<open>Issuing an offer never invalidates an unexpired earlier one within the bound: after an
  offer and fewer than \<open>maxLive\<close> further offers of other tokens, the first is still consumed
  with success at any time before its expiry.\<close>

theorem claim_offer_survives:
  assumes "s = fold offer_step es (createClaimOfferStore ttl mx)"
    and "\<not> map_has (co_live s) tok"
    and "offer_issue t1 tok t2 t3 s = (offer, s')"
    and "t3 < offer_expiresAt offer" and "length is < co_maxLive s"
    and "list_all (\<lambda>(c1, tok', c2, c3). tok' \<noteq> tok \<and> c1 < offer_expiresAt offer \<and>
           c3 < offer_expiresAt offer) is"
    and "u1 < offer_expiresAt offer" and "u2 < offer_expiresAt offer"
  shows "fst (offer_consume u1 u2 tok (offer_issues is s'))"
proof -
  have wf: "wf_map (co_live s)" using assms(1) offer_run_wf by simp
  have s': "s' = snd (offer_issue t1 tok t2 t3 s)" and
    e: "offer_expiresAt offer = t2 + co_ttlMs s"
    using assms(3) by (auto simp: offer_defs)
  have "wf_map (co_live s')"
    using wf offers.inv_step[of s "OfferIssue t1 tok t2 t3"] s' by simp
  moreover have "map_of (co_live s') tok = Some (offer_expiresAt offer) \<and>
      younger tok (co_live s') = 0" "co_maxLive s' = co_maxLive s"
    using offer_issue_live[OF wf assms(2)] assms(4,5) e s' offer_issue_config by auto
  ultimately have "wf_map (co_live (offer_issues is s')) \<and>
      map_of (co_live (offer_issues is s')) tok = Some (offer_expiresAt offer) \<and>
      younger tok (co_live (offer_issues is s')) < co_maxLive (offer_issues is s')"
    using offer_issues_spare[of s' tok _ "is"] assms(5,6) by auto
  then show ?thesis
    using offer_consume_live assms(7,8) by blast
qed

theorem claim_offer_survives_witness:
  "fst (offer_consume 599999 599999 ''a'' (offer_issues [(1, ''b'', 1, 1)]
     (snd (offer_issue 0 ''a'' 0 0 (createClaimOfferStore None (Some 2))))))"
proof (rule claim_offer_survives)
  show "createClaimOfferStore None (Some 2) = fold offer_step [] (createClaimOfferStore None (Some 2))"
    by simp
  show "\<not> map_has (co_live (createClaimOfferStore None (Some 2))) ''a''"
    by (simp add: createClaimOfferStore_def map_has_def)
  show "offer_issue 0 ''a'' 0 0 (createClaimOfferStore None (Some 2)) =
      (\<lparr>offer_token = ''a'', offer_expiresAt = 600000\<rparr>,
       snd (offer_issue 0 ''a'' 0 0 (createClaimOfferStore None (Some 2))))"
    by code_simp
qed (simp_all add: createClaimOfferStore_def)

text \<open>Formatting a code for reading and normalising what is typed agree: the dashed form of any
  input normalises to what the input normalises to.\<close>

theorem normalize_format_pairing_code:
  "normalizePairingCode (formatPairingCode s) = normalizePairingCode s"
  by (rule normalize_format)

text \<open>A download token is single use: it yields its file at most as often as it was issued.\<close>

theorem download_token_single_use:
  "occurrences download_redeems download_step tok \<lparr>dt_ttlMs = ttl, dt_tokens = []\<rparr> es
     \<le> occurrences download_creates download_step tok \<lparr>dt_ttlMs = ttl, dt_tokens = []\<rparr> es"
  by (rule downloads.redeemed_at_most_once) (simp_all add: map_has_def)

end
