(* ===== verification/NetAddress.thy ===== *)
theory NetAddress
  imports JsString
begin

text \<open>
  The address tests of Node's \<open>net\<close> module the daemon relies on: \<open>isIPv4\<close> accepts four decimal
  octets without leading zeros; \<open>isIPv6\<close> accepts eight hextets, or fewer around one \<open>::\<close>, the
  last two of which may be written as a dotted IPv4 address, with an optional zone after \<open>%\<close>.
  The last section computes what the tests say of an address printed from its octets.
\<close>

section \<open>Address syntax\<close>

definition is_octet :: "string \<Rightarrow> bool" where
  "is_octet s =
     (s \<noteq> [] \<and> list_all is_digit s \<and> length s \<le> 3 \<and> (length s = 1 \<or> hd s \<noteq> CHR ''0'') \<and>
      parse_decimal s \<le> 255)"

definition isIPv4 :: "string \<Rightarrow> bool" where
  "isIPv4 s = (let parts = js_split CHR ''.'' s in length parts = 4 \<and> list_all is_octet parts)"

definition is_hextet :: "string \<Rightarrow> bool" where
  "is_hextet s = (s \<noteq> [] \<and> length s \<le> 4 \<and> list_all (\<lambda>c. hex_value c \<noteq> None) s)"

text \<open>The number of 16-bit groups a colon-separated part stands for, \<open>None\<close> when it is not one.
  Only the last piece of an address may be dotted.\<close>

fun hextet_count :: "bool \<Rightarrow> string list \<Rightarrow> nat option" where
  "hextet_count dotted [] = Some 0"
| "hextet_count dotted [w] =
     (if is_hextet w then Some 1 else if dotted \<and> isIPv4 w then Some 2 else None)"
| "hextet_count dotted (w # v # ws) =
     (if is_hextet w then map_option Suc (hextet_count dotted (v # ws)) else None)"

fun cut_at_double_colon :: "string \<Rightarrow> (string \<times> string) option" where
  "cut_at_double_colon (c # d # s) =
     (if c = CHR '':'' \<and> d = CHR '':'' then Some ([], s)
      else map_option (\<lambda>(l, r). (c # l, r)) (cut_at_double_colon (d # s)))"
| "cut_at_double_colon _ = None"

definition colon_groups :: "string \<Rightarrow> string list" where
  "colon_groups s = (if s = [] then [] else js_split CHR '':'' s)"

definition is_ipv6_body :: "string \<Rightarrow> bool" where
  "is_ipv6_body s =
     (case cut_at_double_colon s of
        None \<Rightarrow> hextet_count True (js_split CHR '':'' s) = Some 8
      | Some (l, r) \<Rightarrow>
          (case (hextet_count False (colon_groups l), hextet_count True (colon_groups r)) of
             (Some m, Some n) \<Rightarrow> m + n \<le> 7
           | _ \<Rightarrow> False))"

definition is_zone_char :: "char \<Rightarrow> bool" where
  "is_zone_char c =
     (let n = char_code c in
      (48 \<le> n \<and> n \<le> 57) \<or> (65 \<le> n \<and> n \<le> 90) \<or> (97 \<le> n \<and> n \<le> 122) \<or>
      c \<in> {CHR ''-'', CHR ''.'', CHR '':''})"

definition isIPv6 :: "string \<Rightarrow> bool" where
  "isIPv6 s =
     (case indexOf CHR ''%'' s of
        None \<Rightarrow> is_ipv6_body s
      | Some i \<Rightarrow>
          is_ipv6_body (take i s) \<and> drop (Suc i) s \<noteq> [] \<and> list_all is_zone_char (drop (Suc i) s))"

definition isIP :: "string \<Rightarrow> nat" where
  "isIP s = (if isIPv4 s then 4 else if isIPv6 s then 6 else 0)"

text \<open>\<open>Number.parseInt(s, 16)\<close> on the digits of a hextet: the value of the longest prefix of
  hexadecimal digits, \<open>None\<close> (NaN) when there is none.\<close>

definition parse_hex :: "string \<Rightarrow> nat" where
  "parse_hex s = foldl (\<lambda>n c. 16 * n + the (hex_value c)) 0 s"

definition parseInt16 :: "string \<Rightarrow> nat option" where
  "parseInt16 s =
     (let w = takeWhile (\<lambda>c. hex_value c \<noteq> None) s in if w = [] then None else Some (parse_hex w))"

section \<open>Printed addresses\<close>

definition digit_char :: "nat \<Rightarrow> char" where
  "digit_char d = char_of (48 + d)"

definition print_octet :: "nat \<Rightarrow> string" where
  "print_octet n =
     (if n < 10 then [digit_char n]
      else if n < 100 then [digit_char (n div 10), digit_char (n mod 10)]
      else [digit_char (n div 100), digit_char (n div 10 mod 10), digit_char (n mod 10)])"

definition print_ipv4 :: "nat \<Rightarrow> nat \<Rightarrow> nat \<Rightarrow> nat \<Rightarrow> string" where
  "print_ipv4 a b c d = js_join ''.'' (map print_octet [a, b, c, d])"

lemma digit_char_code [simp]: "d < 10 \<Longrightarrow> char_code (digit_char d) = 48 + d"
  by (simp add: digit_char_def)

lemma digit_char_digit [simp]: "d < 10 \<Longrightarrow> is_digit (digit_char d)"
  by (simp add: is_digit_def)

lemma digit_char_value [simp]: "d < 10 \<Longrightarrow> digit_value (digit_char d) = d"
  by (simp add: digit_value_def)

lemma digit_char_zero: "d < 10 \<Longrightarrow> digit_char d = CHR ''0'' \<Longrightarrow> d = 0"
proof -
  assume "d < 10" and "digit_char d = CHR ''0''"
  moreover from this have "char_code (digit_char d) = 48" by simp
  ultimately show "d = 0" using digit_char_code[of d] by simp
qed

lemma print_octet_digits:
  assumes "n < 256"
  shows "list_all is_digit (print_octet n)" and "parse_decimal (print_octet n) = n"
proof -
  define q where "q = n div 10"
  have "q = q div 10 * 10 + q mod 10" and "n = q * 10 + n mod 10"
    by (simp_all only: q_def div_mult_mod_eq)
  then have "100 * (q div 10) + 10 * (q mod 10) + n mod 10 = n"
    by linarith
  then have "100 * (n div 100) + 10 * (n div 10 mod 10) + n mod 10 = n"
    by (simp add: q_def div_mult2_eq[of n 10 10, simplified])
  then show "list_all is_digit (print_octet n)" and "parse_decimal (print_octet n) = n"
    using assms by (auto simp: print_octet_def parse_decimal_def)
qed

lemma print_octet_facts:
  assumes "n < 256"
  shows "is_octet (print_octet n)" and "parse_decimal (print_octet n) = n"
    and "list_all is_digit (print_octet n)" and "print_octet n \<noteq> []"
proof -
  show "print_octet n \<noteq> []" by (simp add: print_octet_def)
  have "length (print_octet n) = 1 \<or> hd (print_octet n) \<noteq> CHR ''0''"
    using assms by (auto simp: print_octet_def dest!: digit_char_zero[rotated])
  moreover have "length (print_octet n) \<le> 3" by (simp add: print_octet_def)
  ultimately show "is_octet (print_octet n)"
    using assms \<open>print_octet n \<noteq> []\<close> by (simp add: is_octet_def print_octet_digits)
qed (simp_all add: assms print_octet_digits)

lemma digit_no_delim:
  "list_all is_digit s \<Longrightarrow> CHR ''.'' \<notin> set s \<and> CHR '':'' \<notin> set s \<and> CHR ''%'' \<notin> set s"
  by (auto simp: list_all_iff is_digit_def)

lemma print_octet_no_dot: "n < 256 \<Longrightarrow> CHR ''.'' \<notin> set (print_octet n)"
  using print_octet_facts(3) digit_no_delim by blast

lemma split_print_ipv4:
  assumes "a < 256" "b < 256" "c < 256" "d < 256"
  shows "js_split CHR ''.'' (print_ipv4 a b c d) = map print_octet [a, b, c, d]"
  unfolding print_ipv4_def by (rule js_split_join) (use assms in \<open>auto simp: print_octet_no_dot\<close>)

lemma isIPv4_print:
  assumes "a < 256" "b < 256" "c < 256" "d < 256"
  shows "isIPv4 (print_ipv4 a b c d)"
  using assms by (simp add: isIPv4_def Let_def split_print_ipv4 print_octet_facts)

lemma isIPv4_chars: "isIPv4 s \<Longrightarrow> list_all (\<lambda>c. is_digit c \<or> c = CHR ''.'') s"
proof -
  assume v4: "isIPv4 s"
  have "set (js_join [CHR ''.''] ws) \<subseteq> insert CHR ''.'' (\<Union>(set ` set ws))" for ws
    by (induction "[CHR ''.'']" ws rule: js_join.induct) auto
  from this[of "js_split CHR ''.'' s"] v4 show ?thesis
    by (fastforce simp: isIPv4_def Let_def is_octet_def list_all_iff js_join_split)
qed

end
