(* ===== verification/Hostnames.thy ===== *)
theory Hostnames
  imports NetAddress
begin

text \<open>
  The \<open>Host\<close> header allowlist of \<open>hostnames.ts\<close>, the daemon's guard against DNS rebinding. The
  brand's pairing hostname is a parameter. A falsy string is the empty one.
\<close>

datatype hostnames_config = AllHosts | Hosts "string list" | HostsUnset

definition normalizeHostname :: "string \<Rightarrow> string" where
  "normalizeHostname hostname = toLowerCase (js_trim hostname)"

definition parseHostnameFromHostHeader :: "string \<Rightarrow> string option" where
  "parseHostnameFromHostHeader hostHeader =
     (let trimmed = js_trim hostHeader in
      if trimmed = [] then None
      else if startsWith trimmed ''['' then
        (case indexOf CHR '']'' trimmed of
           None \<Rightarrow> None
         | Some end_ \<Rightarrow> Some (normalizeHostname (drop 1 (take end_ trimmed))))
      else
        (case indexOf CHR '':'' trimmed of
           None \<Rightarrow> Some (normalizeHostname trimmed)
         | Some colonIndex \<Rightarrow> Some (normalizeHostname (take colonIndex trimmed))))"

definition matchesHostnamePattern :: "string \<Rightarrow> string \<Rightarrow> bool" where
  "matchesHostnamePattern hostname pattern =
     (let normalizedPattern = normalizeHostname pattern in
      if normalizedPattern = [] then False
      else if startsWith normalizedPattern ''.'' then
        (let base = drop 1 normalizedPattern in
         if base = [] then False
         else hostname = base \<or> endsWith hostname (''.'' @ base))
      else hostname = normalizedPattern)"

definition DEFAULT_ALLOW_PAIRING_HOSTNAME :: bool where
  "DEFAULT_ALLOW_PAIRING_HOSTNAME = True"

definition isDefaultAllowedHostname :: "string \<Rightarrow> string \<Rightarrow> bool \<Rightarrow> bool" where
  "isDefaultAllowedHostname PAIRING_HOSTNAME hostname allowPairingHostname =
     (if hostname = ''localhost'' then True
      else if allowPairingHostname \<and> PAIRING_HOSTNAME \<noteq> [] \<and> hostname = PAIRING_HOSTNAME then True
      else if endsWith hostname ''.localhost'' then True
      else if isIP hostname \<noteq> 0 then True
      else False)"

definition isHostnameAllowed ::
  "string \<Rightarrow> string option \<Rightarrow> hostnames_config \<Rightarrow> bool option \<Rightarrow> bool" where
  "isHostnameAllowed PAIRING_HOSTNAME hostHeader hostnames allowPairingHostname =
     (let hostname = (case hostHeader of None \<Rightarrow> None
                      | Some h \<Rightarrow> if h = [] then None else parseHostnameFromHostHeader h)
      in case hostname of
           None \<Rightarrow> False
         | Some hn \<Rightarrow>
             if hn = [] then False
             else if hostnames = AllHosts then True
             else if isDefaultAllowedHostname PAIRING_HOSTNAME hn
                 (case allowPairingHostname of None \<Rightarrow> DEFAULT_ALLOW_PAIRING_HOSTNAME | Some b \<Rightarrow> b)
             then True
             else
               let patterns = (case hostnames of Hosts ps \<Rightarrow> ps | _ \<Rightarrow> [])
               in list_ex (matchesHostnamePattern hn) patterns)"

text \<open>The loop of \<open>mergeHostnames\<close>; \<open>None\<close> is its early return of \<open>true\<close>.\<close>

fun merge_lists :: "string list \<Rightarrow> hostnames_config list \<Rightarrow> string list option" where
  "merge_lists merged [] = Some merged"
| "merge_lists merged (AllHosts # vs) = None"
| "merge_lists merged (HostsUnset # vs) = merge_lists merged vs"
| "merge_lists merged (Hosts hs # vs) = merge_lists (merged @ hs) vs"

definition mergeHostnames :: "hostnames_config list \<Rightarrow> hostnames_config" where
  "mergeHostnames vs =
     (case merge_lists [] vs of
        None \<Rightarrow> AllHosts
      | Some merged \<Rightarrow> Hosts (js_set (filter (\<lambda>v. length v > 0) (map js_trim merged))))"

definition parseHostnamesEnv :: "string option \<Rightarrow> hostnames_config" where
  "parseHostnamesEnv raw =
     (case raw of None \<Rightarrow> HostsUnset
      | Some r \<Rightarrow>
          let trimmed = js_trim r in
          if trimmed = [] then HostsUnset
          else if toLowerCase trimmed = ''true'' then AllHosts
          else Hosts (filter (\<lambda>s. length s > 0) (map js_trim (js_split CHR '','' trimmed))))"

section \<open>Lemmas\<close>

lemma matches_trim [simp]: "matchesHostnamePattern h (js_trim p) = matchesHostnamePattern h p"
  by (simp add: matchesHostnamePattern_def normalizeHostname_def)

lemma matches_empty [simp]: "\<not> matchesHostnamePattern h []"
  by (simp add: matchesHostnamePattern_def normalizeHostname_def toLowerCase_def)

lemma matches_trimmed:
  "list_ex (matchesHostnamePattern h) (js_set (filter (\<lambda>v. length v > 0) (map js_trim ps))) \<longleftrightarrow>
     list_ex (matchesHostnamePattern h) ps"
proof -
  have "js_trim p \<noteq> []" if "matchesHostnamePattern h p" for p
    using that matches_trim[of h p] matches_empty[of h] by metis
  then show ?thesis
    by (force simp: list_ex_iff)
qed

lemma merge_lists_None: "merge_lists m vs = None \<longleftrightarrow> AllHosts \<in> set vs"
  by (induction m vs rule: merge_lists.induct) auto

definition config_patterns :: "hostnames_config \<Rightarrow> string list" where
  "config_patterns cfg = (case cfg of Hosts ps \<Rightarrow> ps | _ \<Rightarrow> [])"

lemma config_patterns_simps [simp]:
  "config_patterns AllHosts = []" "config_patterns HostsUnset = []" "config_patterns (Hosts ps) = ps"
  by (simp_all add: config_patterns_def)

lemma merge_lists_Some:
  "merge_lists m vs = Some hs \<Longrightarrow> set hs = set m \<union> (\<Union>v \<in> set vs. set (config_patterns v))"
  by (induction m vs rule: merge_lists.induct) auto

text \<open>What the check decides once the header has a host name.\<close>

definition host_permitted :: "string \<Rightarrow> bool \<Rightarrow> hostnames_config \<Rightarrow> string \<Rightarrow> bool" where
  "host_permitted PAIRING_HOSTNAME allowPairing cfg hn =
     (cfg = AllHosts \<or> isDefaultAllowedHostname PAIRING_HOSTNAME hn allowPairing \<or>
      list_ex (matchesHostnamePattern hn) (config_patterns cfg))"

lemma isHostnameAllowed_alt:
  "isHostnameAllowed PH hdr cfg opt \<longleftrightarrow>
     (\<exists>h hn. hdr = Some h \<and> parseHostnameFromHostHeader h = Some hn \<and> hn \<noteq> [] \<and>
       host_permitted PH (case opt of None \<Rightarrow> DEFAULT_ALLOW_PAIRING_HOSTNAME | Some b \<Rightarrow> b) cfg hn)"
proof (cases hdr)
  case (Some h)
  have "parseHostnameFromHostHeader [] = None" by (simp add: parseHostnameFromHostHeader_def)
  with Some show ?thesis
    by (cases "parseHostnameFromHostHeader h"; cases "h = []")
      (simp_all add: isHostnameAllowed_def host_permitted_def config_patterns_def Let_def)
qed (simp add: isHostnameAllowed_def)

lemma host_permitted_merge:
  assumes "vs \<noteq> []"
  shows "host_permitted PH ap (mergeHostnames vs) hn \<longleftrightarrow> (\<exists>v \<in> set vs. host_permitted PH ap v hn)"
proof (cases "merge_lists [] vs")
  case None
  then show ?thesis
    using merge_lists_None[of "[]" vs]
    by (auto simp: mergeHostnames_def host_permitted_def)
next
  case (Some hs)
  have some_mem: "\<exists>v. v \<in> set vs" using assms by (cases vs) auto
  have "AllHosts \<notin> set vs" using Some merge_lists_None[of "[]" vs] by auto
  moreover have "list_ex (matchesHostnamePattern hn) hs \<longleftrightarrow>
      (\<exists>v \<in> set vs. list_ex (matchesHostnamePattern hn) (config_patterns v))"
    unfolding list_ex_iff using merge_lists_Some[OF Some] by auto
  ultimately show ?thesis
    using some_mem Some matches_trimmed[of hn hs]
    by (simp add: mergeHostnames_def host_permitted_def) blast
qed

section \<open>Properties\<close>

text \<open>Merging configurations (file, environment, flags) neither adds nor loses a host: a
  \<open>Host\<close> header is allowed under the merged configuration exactly when one of the merged ones
  allows it.\<close>

theorem merge_allows_union:
  assumes "vs \<noteq> []"
  shows "isHostnameAllowed PH hdr (mergeHostnames vs) opt \<longleftrightarrow>
    list_ex (\<lambda>v. isHostnameAllowed PH hdr v opt) vs"
  using host_permitted_merge[OF assms] by (auto simp: isHostnameAllowed_alt list_ex_iff)

theorem merge_allows_union_witness:
  "isHostnameAllowed ''pair.example'' (Some ''a.example.com:80'')
     (mergeHostnames [HostsUnset, Hosts ['' .Example.com'']]) None"
proof -
  have "isHostnameAllowed ''pair.example'' (Some ''a.example.com:80'') (Hosts ['' .Example.com'']) None"
    by code_simp
  then show ?thesis
    using merge_allows_union[of "[HostsUnset, Hosts ['' .Example.com'']]"] by simp
qed

text \<open>What a pattern with a leading dot admits: the base name and its subdomains, and no other
  name that merely ends in the base (\<open>evilexample.com\<close> for \<open>.example.com\<close>). With no configured
  host name the daemon answers only to localhost, its subdomains, the pairing host when allowed,
  and IP addresses.\<close>

theorem host_rules:
  assumes "normalizeHostname pattern = ''.'' @ base" and "base \<noteq> []"
  shows "(matchesHostnamePattern hn pattern \<longleftrightarrow> hn = base \<or> (\<exists>sub. hn = sub @ ''.'' @ base)) \<and>
    (isHostnameAllowed PH (Some h) HostsUnset opt \<longrightarrow>
      (\<exists>name. parseHostnameFromHostHeader h = Some name \<and>
        (name = ''localhost'' \<or> (\<exists>sub. name = sub @ ''.localhost'') \<or> isIP name \<noteq> 0 \<or>
         (opt \<noteq> Some False \<and> name = PH))))"
proof (intro conjI impI)
  show "matchesHostnamePattern hn pattern \<longleftrightarrow> hn = base \<or> (\<exists>sub. hn = sub @ ''.'' @ base)"
    using assms by (simp add: matchesHostnamePattern_def startsWith_def endsWith_def suffix_def)
next
  assume "isHostnameAllowed PH (Some h) HostsUnset opt"
  then show "\<exists>name. parseHostnameFromHostHeader h = Some name \<and>
        (name = ''localhost'' \<or> (\<exists>sub. name = sub @ ''.localhost'') \<or> isIP name \<noteq> 0 \<or>
         (opt \<noteq> Some False \<and> name = PH))"
    by (auto simp: isHostnameAllowed_alt host_permitted_def isDefaultAllowedHostname_def
        endsWith_def suffix_def split: if_splits option.splits)
qed

theorem host_rules_witness:
  "\<not> matchesHostnamePattern ''evilexample.com'' ''.Example.com'' \<and>
   matchesHostnamePattern ''a.example.com'' ''.Example.com''"
proof -
  have "normalizeHostname ''.Example.com'' = ''.'' @ ''example.com''" by code_simp
  note rules = host_rules[OF this, THEN conjunct1]
  have "\<not> suffix ''.example.com'' ''evilexample.com''" by code_simp
  then have "\<not> matchesHostnamePattern ''evilexample.com'' ''.Example.com''"
    using rules by (auto simp: suffix_def)
  moreover have "''a.example.com'' = ''a'' @ ''.'' @ ''example.com''" by simp
  ultimately show ?thesis using rules by blast
qed

end
