(* ===== verification/RateLimit.thy ===== *)
theory RateLimit
  imports Prelude
begin

text \<open>
  The failed-authentication throttle of \<open>auth-rate-limit.ts\<close>. The limiter is a map from client
  keys to their recent failures and the end of their block; the reading of the clock is a
  parameter of every operation. The two loops of \<open>evictIfFull\<close> are recursive functions over the
  map in insertion order. The entry \<open>entryFor\<close> returns is the object the map holds, so writing a
  field of it is an update of the map; \<open>evict_keeps\<close> shows the key just inserted is still there.
\<close>

record limiter_entry =
  failures :: "time_ms list"
  blockedUntil :: time_ms
  lastSeenAt :: time_ms

record limiter =
  maxFailures :: nat
  windowMs :: time_ms
  blockMs :: time_ms
  maxKeys :: nat
  entries :: "(string, limiter_entry) js_map"

definition DEFAULT_AUTH_MAX_FAILURES :: nat where
  "DEFAULT_AUTH_MAX_FAILURES = 10"

definition DEFAULT_AUTH_WINDOW_MS :: time_ms where
  "DEFAULT_AUTH_WINDOW_MS = 5 * 60000"

definition DEFAULT_AUTH_BLOCK_MS :: time_ms where
  "DEFAULT_AUTH_BLOCK_MS = 5 * 60000"

definition createAuthFailureLimiter ::
  "nat option \<Rightarrow> time_ms option \<Rightarrow> time_ms option \<Rightarrow> nat option \<Rightarrow> limiter" where
  "createAuthFailureLimiter mf wm bm mk =
     \<lparr>maxFailures = (case mf of None \<Rightarrow> DEFAULT_AUTH_MAX_FAILURES | Some n \<Rightarrow> n),
      windowMs = (case wm of None \<Rightarrow> DEFAULT_AUTH_WINDOW_MS | Some t \<Rightarrow> t),
      blockMs = (case bm of None \<Rightarrow> DEFAULT_AUTH_BLOCK_MS | Some t \<Rightarrow> t),
      maxKeys = (case mk of None \<Rightarrow> 4096 | Some n \<Rightarrow> n),
      entries = []\<rparr>"

section \<open>Eviction\<close>

definition entry_expired :: "time_ms \<Rightarrow> time_ms \<Rightarrow> limiter_entry \<Rightarrow> bool" where
  "entry_expired window current e =
     (blockedUntil e \<le> current \<and> list_all (\<lambda>at. at \<le> current - window) (failures e))"

text \<open>The first loop; \<open>n\<close> is the current size of the map, and the loop returns as soon as it is
  within the bound.\<close>

fun evict_expired ::
  "nat \<Rightarrow> time_ms \<Rightarrow> time_ms \<Rightarrow> string \<Rightarrow> nat \<Rightarrow> (string, limiter_entry) js_map \<Rightarrow>
     (string, limiter_entry) js_map" where
  "evict_expired bound window current keep n [] = []"
| "evict_expired bound window current keep n ((k, e) # m) =
     (if n \<le> bound then (k, e) # m
      else if k = keep then (k, e) # evict_expired bound window current keep n m
      else if entry_expired window current e
           then evict_expired bound window current keep (n - 1) m
      else (k, e) # evict_expired bound window current keep n m)"

definition evictable :: "bool \<Rightarrow> time_ms \<Rightarrow> string \<Rightarrow> string \<times> limiter_entry \<Rightarrow> bool" where
  "evictable blockedToo current keep kv =
     (fst kv \<noteq> keep \<and> (blockedToo \<or> \<not> blockedUntil (snd kv) > current))"

text \<open>The scan for the stalest key: the first of the evictable entries with the least
  \<open>lastSeenAt\<close>.\<close>

fun stalest_from ::
  "(string \<times> time_ms) option \<Rightarrow> bool \<Rightarrow> time_ms \<Rightarrow> string \<Rightarrow> (string, limiter_entry) js_map \<Rightarrow>
     (string \<times> time_ms) option" where
  "stalest_from best blockedToo current keep [] = best"
| "stalest_from best blockedToo current keep ((k, e) # m) =
     (if evictable blockedToo current keep (k, e) \<and>
         (case best of None \<Rightarrow> True | Some (_, stalestAt) \<Rightarrow> lastSeenAt e < stalestAt)
      then stalest_from (Some (k, lastSeenAt e)) blockedToo current keep m
      else stalest_from best blockedToo current keep m)"

definition stalest ::
  "bool \<Rightarrow> time_ms \<Rightarrow> string \<Rightarrow> (string, limiter_entry) js_map \<Rightarrow> string option" where
  "stalest blockedToo current keep m =
     map_option fst (stalest_from None blockedToo current keep m)"

lemma stalest_from_origin:
  "stalest_from best b c keep m = Some (k, t) \<Longrightarrow>
     best = Some (k, t) \<or> (\<exists>e. (k, e) \<in> set m \<and> evictable b c keep (k, e))"
proof (induction best b c keep m rule: stalest_from.induct)
  case (2 best b c keep k e m)
  then show ?case
    by (auto split: if_splits option.splits)
qed simp

lemma stalest_mem: "stalest b c keep m = Some k \<Longrightarrow> \<exists>e. (k, e) \<in> set m \<and> evictable b c keep (k, e)"
  using stalest_from_origin[of None b c keep m] by (auto simp: stalest_def)

lemma delete_shorter: "(k, e) \<in> set m \<Longrightarrow> length (AList.delete k m) < length m"
proof (induction m)
  case (Cons kv m)
  then show ?case using length_delete_le[of k m] by (cases kv) (auto simp: less_Suc_eq_le)
qed simp

function evict_stalest ::
  "nat \<Rightarrow> bool \<Rightarrow> time_ms \<Rightarrow> string \<Rightarrow> (string, limiter_entry) js_map \<Rightarrow>
     (string, limiter_entry) js_map" where
  "evict_stalest bound blockedToo current keep m =
     (if length m > bound then
        (case stalest blockedToo current keep m of
           None \<Rightarrow> m
         | Some k \<Rightarrow> evict_stalest bound blockedToo current keep (AList.delete k m))
      else m)"
  by pat_completeness auto
termination
  by (relation "measure (\<lambda>(_, _, _, _, m). length m)") (auto dest!: stalest_mem delete_shorter)

declare evict_stalest.simps [simp del]

definition evictIfFull :: "time_ms \<Rightarrow> string \<Rightarrow> limiter \<Rightarrow> limiter" where
  "evictIfFull current keep l =
     (if length (entries l) \<le> maxKeys l then l
      else
        let m1 = evict_expired (maxKeys l) (windowMs l) current keep (length (entries l)) (entries l);
            m2 = evict_stalest (maxKeys l) False current keep m1
        in l\<lparr>entries := evict_stalest (maxKeys l) True current keep m2\<rparr>)"

section \<open>Operations\<close>

definition entryFor :: "string \<Rightarrow> time_ms \<Rightarrow> limiter \<Rightarrow> limiter_entry \<times> limiter" where
  "entryFor key current l =
     (case map_of (entries l) key of
        Some e \<Rightarrow>
          let e' = e\<lparr>lastSeenAt := current\<rparr>
          in (e', l\<lparr>entries := AList.update key e' (entries l)\<rparr>)
      | None \<Rightarrow>
          let e = \<lparr>failures = [], blockedUntil = 0, lastSeenAt = current\<rparr>;
              l1 = evictIfFull current key (l\<lparr>entries := AList.update key e (entries l)\<rparr>)
          in (e, l1\<lparr>entries := AList.update key e (entries l1)\<rparr>))"

definition isBlocked :: "string \<Rightarrow> time_ms \<Rightarrow> limiter \<Rightarrow> bool" where
  "isBlocked key current l =
     ((case map_of (entries l) key of None \<Rightarrow> 0 | Some e \<Rightarrow> blockedUntil e) > current)"

definition recordFailure :: "string \<Rightarrow> time_ms \<Rightarrow> limiter \<Rightarrow> limiter" where
  "recordFailure key current l =
     (let (entry, l1) = entryFor key current l;
          recent = filter (\<lambda>at. at > current - windowMs l1) (failures entry) @ [current];
          entry' = (if length recent \<ge> maxFailures l1
                    then entry\<lparr>blockedUntil := current + blockMs l1, failures := []\<rparr>
                    else entry\<lparr>failures := recent\<rparr>)
      in l1\<lparr>entries := AList.update key entry' (entries l1)\<rparr>)"

definition recordSuccess :: "string \<Rightarrow> time_ms \<Rightarrow> limiter \<Rightarrow> limiter" where
  "recordSuccess key current l =
     (case map_of (entries l) key of
        None \<Rightarrow> l
      | Some entry \<Rightarrow>
          if blockedUntil entry \<le> current then l\<lparr>entries := AList.delete key (entries l)\<rparr> else l)"

definition retryAfterSeconds :: "string \<Rightarrow> time_ms \<Rightarrow> limiter \<Rightarrow> int" where
  "retryAfterSeconds key current l =
     (let remaining = (case map_of (entries l) key of None \<Rightarrow> 0 | Some e \<Rightarrow> blockedUntil e) - current
      in if remaining > 0 then (remaining + 999) div 1000 else 0)"

section \<open>What eviction keeps\<close>

lemma evict_expired_sub: "set (evict_expired b w c keep n m) \<subseteq> set m"
  by (induction b w c keep n m rule: evict_expired.induct) auto

lemma evict_expired_wf: "wf_map m \<Longrightarrow> wf_map (evict_expired b w c keep n m)"
proof (induction b w c keep n m rule: evict_expired.induct)
  case (2 b w c keep n k e m)
  then show ?case
    using evict_expired_sub[of b w c keep n m] by (force simp: wf_map_def)
qed simp

lemma evict_expired_keeps:
  "(k, e) \<in> set m \<Longrightarrow> k = keep \<or> blockedUntil e > c \<Longrightarrow> (k, e) \<in> set (evict_expired b w c keep n m)"
  by (induction b w c keep n m rule: evict_expired.induct) (auto simp: entry_expired_def)

lemma evict_expired_length: "length (evict_expired b w c keep n m) \<le> length m"
  by (induction b w c keep n m rule: evict_expired.induct) auto

text \<open>With an evictable entry in the map the first loop has either reached the bound or left an
  evictable entry behind.\<close>

lemma stalest_from_None:
  "stalest_from best b c keep m = None \<longleftrightarrow> best = None \<and> list_all (\<lambda>kv. \<not> evictable b c keep kv) m"
proof (induction best b c keep m rule: stalest_from.induct)
  case (2 best b c keep k e m)
  then show ?case by (cases best) auto
qed simp

lemma stalest_None: "stalest b c keep m = None \<longleftrightarrow> list_all (\<lambda>kv. \<not> evictable b c keep kv) m"
  by (simp add: stalest_def stalest_from_None)

lemma set_delete_wf: "wf_map m \<Longrightarrow> set (AList.delete k m) = {kv \<in> set m. fst kv \<noteq> k}"
  by (induction m) (auto simp: wf_map_def)

lemma evict_stalest_keeps:
  "wf_map m \<Longrightarrow> wf_map (evict_stalest n b c keep m) \<and> set (evict_stalest n b c keep m) \<subseteq> set m \<and>
    (\<forall>kv \<in> set m. \<not> evictable b c keep kv \<longrightarrow> kv \<in> set (evict_stalest n b c keep m))"
proof (induction n b c keep m rule: evict_stalest.induct)
  case (1 n b c keep m)
  show ?case
  proof (cases "length m > n")
    case True
    show ?thesis
    proof (cases "stalest b c keep m")
      case None
      then show ?thesis using 1 by (simp add: evict_stalest.simps[of n b c keep m])
    next
      case (Some k)
      obtain e where e: "(k, e) \<in> set m" "evictable b c keep (k, e)"
        using stalest_mem[OF Some] by blast
      have "kv \<in> set (AList.delete k m)" if "kv \<in> set m" "\<not> evictable b c keep kv" for kv
      proof -
        have "kv \<noteq> (k, e)" using e that by auto
        then have "fst kv \<noteq> k"
          using e(1) that(1) 1(2) wf_mem_iff[of m k] by (cases kv) auto
        with that 1(2) show ?thesis by (simp add: set_delete_wf)
      qed
      moreover have "set (AList.delete k m) \<subseteq> set m" using 1(2) by (auto simp: set_delete_wf)
      ultimately show ?thesis
        using 1(1)[OF True Some] 1(2) True Some
        by (simp add: evict_stalest.simps[of n b c keep m]) blast
    qed
  next
    case False
    then show ?thesis using 1 by (simp add: evict_stalest.simps[of n b c keep m])
  qed
qed

lemma evict_stalest_done:
  "length (evict_stalest n b c keep m) \<le> n \<or>
     list_all (\<lambda>kv. \<not> evictable b c keep kv) (evict_stalest n b c keep m)"
proof (induction n b c keep m rule: evict_stalest.induct)
  case (1 n b c keep m)
  show ?case
  proof (cases "length m > n")
    case True
    then show ?thesis
      using 1 stalest_None[of b c keep m]
      by (cases "stalest b c keep m") (auto simp: evict_stalest.simps[of n b c keep m])
  qed (simp add: evict_stalest.simps[of n b c keep m])
qed

text \<open>One entry over the bound and one evictable entry: the loop ends within the bound.\<close>

lemma evict_stalest_one:
  assumes "wf_map m" "length m \<le> Suc n" "kv \<in> set m" "evictable b c keep kv"
  shows "length (evict_stalest n b c keep m) \<le> n"
proof (cases "length m > n")
  case True
  from assms(3,4) obtain k where k: "stalest b c keep m = Some k"
    using stalest_None[of b c keep m] by (auto simp: list_all_iff)
  then obtain e where "(k, e) \<in> set m" using stalest_mem by blast
  then have "length (AList.delete k m) \<le> n"
    using delete_shorter assms(2) by fastforce
  then have "evict_stalest n b c keep m = AList.delete k m"
    using True k evict_stalest.simps[of n b c keep "AList.delete k m"]
    by (simp add: evict_stalest.simps[of n b c keep m])
  with \<open>length (AList.delete k m) \<le> n\<close> show ?thesis by simp
qed (simp add: evict_stalest.simps[of n b c keep m])

lemma evict_stalest_within: "length m \<le> n \<Longrightarrow> evict_stalest n b c keep m = m"
  by (simp add: evict_stalest.simps[of n b c keep m])

lemma evict_expired_one:
  assumes "length m \<le> Suc n" "kv \<in> set m" "evictable False c keep kv"
  shows "length (evict_expired n w c keep (length m) m) \<le> n \<or>
     kv \<in> set (evict_expired n w c keep (length m) m)"
proof -
  have "length (evict_expired n w c keep k m) + k \<le> length m + n \<or>
      kv \<in> set (evict_expired n w c keep k m)" if "kv \<in> set m" "k \<le> Suc n" for k
    using that
  proof (induction n w c keep k m rule: evict_expired.induct)
    case (2 n w c keep k k' e m)
    show ?case
    proof (cases "k' \<noteq> keep \<and> entry_expired w c e \<and> \<not> k \<le> n")
      case True
      then have "evict_expired n w c keep (k - 1) m = m"
        using 2(5) by (cases m) (auto simp: le_Suc_eq)
      with True 2 show ?thesis by auto
    next
      case False
      with 2 show ?thesis by auto
    qed
  qed simp
  from this[OF assms(2,1)] show ?thesis by simp
qed

section \<open>The invariant\<close>

definition limiter_inv :: "limiter \<Rightarrow> bool" where
  "limiter_inv l = (wf_map (entries l) \<and> length (entries l) \<le> max 1 (maxKeys l))"

lemma all_keep_length: "wf_map m \<Longrightarrow> list_all (\<lambda>kv. \<not> evictable True c keep kv) m \<Longrightarrow> length m \<le> 1"
proof (cases m)
  case (Cons kv m')
  moreover assume "wf_map m" "list_all (\<lambda>kv. \<not> evictable True c keep kv) m"
  ultimately show ?thesis by (cases m') (auto simp: wf_map_def evictable_def)
qed simp

lemma evictIfFull_keeps:
  assumes "wf_map (entries l)"
  shows "wf_map (entries (evictIfFull c keep l))"
    and "set (entries (evictIfFull c keep l)) \<subseteq> set (entries l)"
    and "(keep, e) \<in> set (entries l) \<Longrightarrow> (keep, e) \<in> set (entries (evictIfFull c keep l))"
    and "length (entries (evictIfFull c keep l)) \<le> max 1 (maxKeys l)"
proof -
  let ?m1 = "evict_expired (maxKeys l) (windowMs l) c keep (length (entries l)) (entries l)"
  let ?m2 = "evict_stalest (maxKeys l) False c keep ?m1"
  let ?m3 = "evict_stalest (maxKeys l) True c keep ?m2"
  have m1: "wf_map ?m1" using assms by (rule evict_expired_wf)
  note k2 = evict_stalest_keeps[OF m1, of "maxKeys l" False c keep]
  then have m2: "wf_map ?m2" by blast
  note k3 = evict_stalest_keeps[OF m2, of "maxKeys l" True c keep]
  show "wf_map (entries (evictIfFull c keep l))"
    using assms k3 by (simp add: evictIfFull_def Let_def)
  show "set (entries (evictIfFull c keep l)) \<subseteq> set (entries l)"
  proof -
    have "set ?m3 \<subseteq> set (entries l)"
      using k2 k3 evict_expired_sub[of "maxKeys l" "windowMs l" c keep "length (entries l)" "entries l"]
      by blast
    then show ?thesis by (simp add: evictIfFull_def Let_def)
  qed
  show "(keep, e) \<in> set (entries (evictIfFull c keep l))" if "(keep, e) \<in> set (entries l)"
  proof -
    have "(keep, e) \<in> set ?m1" using that evict_expired_keeps by blast
    moreover have "\<not> evictable b c keep (keep, e)" for b by (simp add: evictable_def)
    ultimately show ?thesis using that k2 k3 by (simp add: evictIfFull_def Let_def)
  qed
  have "length ?m3 \<le> max 1 (maxKeys l)"
    using evict_stalest_done[of "maxKeys l" True c keep ?m2] all_keep_length k3 by fastforce
  then show "length (entries (evictIfFull c keep l)) \<le> max 1 (maxKeys l)"
    by (auto simp: evictIfFull_def Let_def)
qed

lemma evictIfFull_config [simp]:
  "maxFailures (evictIfFull c keep l) = maxFailures l" "windowMs (evictIfFull c keep l) = windowMs l"
  "blockMs (evictIfFull c keep l) = blockMs l" "maxKeys (evictIfFull c keep l) = maxKeys l"
  by (auto simp: evictIfFull_def Let_def)

lemma entryFor_new:
  fixes l :: limiter and key :: string and current :: time_ms
  assumes "wf_map (entries l)" "map_of (entries l) key = None"
  defines "e \<equiv> \<lparr>failures = [], blockedUntil = 0, lastSeenAt = current\<rparr>"
  shows "entryFor key current l = (e, evictIfFull current key (l\<lparr>entries := entries l @ [(key, e)]\<rparr>))"
    and "map_of (entries (evictIfFull current key (l\<lparr>entries := entries l @ [(key, e)]\<rparr>))) key = Some e"
proof -
  let ?l = "l\<lparr>entries := entries l @ [(key, e)]\<rparr>"
  let ?l1 = "evictIfFull current key ?l"
  have wf: "wf_map (entries ?l)"
    using assms(1,2) by (auto simp: wf_map_def map_of_eq_None_iff)
  then show get: "map_of (entries ?l1) key = Some e"
    using evictIfFull_keeps(1,3)[OF wf, where c = current and keep = key] by (simp add: mem_map_of)
  then have "AList.update key e (entries ?l1) = entries ?l1"
    by (metis update_triv)
  then have "entryFor key current l = (e, ?l1\<lparr>entries := entries ?l1\<rparr>)"
    using assms(2) by (simp add: entryFor_def e_def Let_def update_new_append)
  then show "entryFor key current l = (e, ?l1)" by simp
qed

lemma entryFor_spec:
  assumes "limiter_inv l"
  shows "limiter_inv (snd (entryFor key current l)) \<and>
    map_of (entries (snd (entryFor key current l))) key = Some (fst (entryFor key current l)) \<and>
    maxKeys (snd (entryFor key current l)) = maxKeys l \<and>
    windowMs (snd (entryFor key current l)) = windowMs l \<and>
    blockMs (snd (entryFor key current l)) = blockMs l \<and>
    maxFailures (snd (entryFor key current l)) = maxFailures l"
proof (cases "map_of (entries l) key")
  case None
  let ?e = "\<lparr>failures = [], blockedUntil = 0, lastSeenAt = current\<rparr>"
  let ?l = "l\<lparr>entries := entries l @ [(key, ?e)]\<rparr>"
  have wf: "wf_map (entries ?l)"
    using assms None by (auto simp: limiter_inv_def wf_map_def map_of_eq_None_iff)
  have wf0: "wf_map (entries l)" using assms by (simp add: limiter_inv_def)
  note new = entryFor_new[OF wf0 None, of current]
  show ?thesis
    using new(2) evictIfFull_keeps(1,4)[OF wf, of current key] by (simp add: new(1) limiter_inv_def)
next
  case (Some e)
  then show ?thesis
    using assms length_update_old[of "entries l" key]
    by (simp add: entryFor_def limiter_inv_def Let_def jsmap)
qed

lemma recordFailure_config [simp]:
  assumes "limiter_inv l"
  shows "maxKeys (recordFailure key current l) = maxKeys l"
    and "windowMs (recordFailure key current l) = windowMs l"
    and "blockMs (recordFailure key current l) = blockMs l"
    and "maxFailures (recordFailure key current l) = maxFailures l"
  using entryFor_spec[OF assms, of key current]
  by (simp_all add: recordFailure_def Let_def split_def)

lemma recordFailure_inv: "limiter_inv l \<Longrightarrow> limiter_inv (recordFailure key current l)"
  using entryFor_spec[of l key current]
    length_update_old[of "entries (snd (entryFor key current l))" key]
  by (auto simp: recordFailure_def Let_def split_def limiter_inv_def)

lemma recordSuccess_inv: "limiter_inv l \<Longrightarrow> limiter_inv (recordSuccess key current l)"
  using length_delete_le[of key "entries l"]
  by (auto simp: recordSuccess_def limiter_inv_def split: option.splits)

text \<open>The events of the limiter; the queries do not change it.\<close>

datatype limiter_event = Failure string time_ms | Success string time_ms

fun limiter_step :: "limiter_event \<Rightarrow> limiter \<Rightarrow> limiter" where
  "limiter_step (Failure key current) l = recordFailure key current l"
| "limiter_step (Success key current) l = recordSuccess key current l"

lemma limiter_step_inv: "limiter_inv l \<Longrightarrow> limiter_inv (limiter_step e l)"
  by (cases e) (simp_all add: recordFailure_inv recordSuccess_inv)

lemma limiter_step_maxKeys: "limiter_inv l \<Longrightarrow> maxKeys (limiter_step e l) = maxKeys l"
  by (cases e) (auto simp: recordSuccess_def split: option.splits)

lemma limiter_run_inv:
  "limiter_inv l \<Longrightarrow> limiter_inv (fold limiter_step es l) \<and> maxKeys (fold limiter_step es l) = maxKeys l"
proof (induction es arbitrary: l)
  case (Cons e es)
  then show ?case
    using Cons.IH[of "limiter_step e l"] limiter_step_inv limiter_step_maxKeys by simp
qed simp

lemma limiter_inv_create: "limiter_inv (createAuthFailureLimiter mf wm bm mk)"
  by (simp add: createAuthFailureLimiter_def limiter_inv_def)

section \<open>Reaching the limit\<close>

lemma recordFailure_get:
  assumes "limiter_inv l"
  shows "map_of (entries (recordFailure key current l)) key =
    (let entry = fst (entryFor key current l);
         recent = filter (\<lambda>at. at > current - windowMs l) (failures entry) @ [current]
     in Some (if length recent \<ge> maxFailures l
              then entry\<lparr>blockedUntil := current + blockMs l, failures := []\<rparr>
              else entry\<lparr>failures := recent\<rparr>))"
  using entryFor_spec[OF assms, of key current]
  by (simp add: recordFailure_def Let_def split_def jsmap)

lemma entryFor_fst_old:
  "map_of (entries l) key = Some e \<Longrightarrow> fst (entryFor key current l) = e\<lparr>lastSeenAt := current\<rparr>"
  by (simp add: entryFor_def Let_def)

lemma entryFor_fst_new:
  "map_of (entries l) key = None \<Longrightarrow>
     fst (entryFor key current l) = \<lparr>failures = [], blockedUntil = 0, lastSeenAt = current\<rparr>"
  by (simp add: entryFor_def Let_def)

text \<open>The failures recorded for a key that was not in the map, while fewer than the limit.\<close>

lemma failures_below_limit:
  assumes "limiter_inv l" "map_of (entries l) key = None" "ts \<noteq> []" "length ts < maxFailures l"
    "\<forall>a \<in> set ts. \<forall>b \<in> set ts. a > b - windowMs l"
  shows "limiter_inv (fold (recordFailure key) ts l) \<and>
    windowMs (fold (recordFailure key) ts l) = windowMs l \<and>
    blockMs (fold (recordFailure key) ts l) = blockMs l \<and>
    maxFailures (fold (recordFailure key) ts l) = maxFailures l \<and>
    (\<exists>e. map_of (entries (fold (recordFailure key) ts l)) key = Some e \<and> failures e = ts \<and>
       blockedUntil e = 0)"
  using assms(3-)
proof (induction ts rule: rev_induct)
  case (snoc t ts)
  show ?case
  proof (cases "ts = []")
    case True
    then show ?thesis
      using snoc.prems assms(1,2) recordFailure_get[OF assms(1), of key t] recordFailure_inv
      by (simp add: entryFor_fst_new Let_def)
  next
    case False
    let ?l = "fold (recordFailure key) ts l"
    obtain e where IH: "limiter_inv ?l" "windowMs ?l = windowMs l" "blockMs ?l = blockMs l"
      "maxFailures ?l = maxFailures l" "map_of (entries ?l) key = Some e" "failures e = ts"
      "blockedUntil e = 0"
      using snoc False by auto
    have "filter (\<lambda>at. t - windowMs l < at) ts = ts"
      using snoc.prems by (simp add: filter_id_conv)
    with IH show ?thesis
      using recordFailure_get[OF IH(1), of key t] recordFailure_inv[OF IH(1)] snoc.prems
      by (simp add: entryFor_fst_old Let_def)
  qed
qed simp

lemma not_blocked_below:
  assumes "limiter_inv l" "map_of (entries l) key = None" "length ts < maxFailures l"
    "\<forall>a \<in> set ts. \<forall>b \<in> set ts. a > b - windowMs l" "0 \<le> now"
  shows "\<not> isBlocked key now (fold (recordFailure key) ts l)"
  using failures_below_limit[OF assms(1,2), of ts] assms by (cases "ts = []") (auto simp: isBlocked_def)

lemma blocked_at_limit:
  assumes "limiter_inv l" "map_of (entries l) key = None" "length (ts @ [t]) = maxFailures l"
    "\<forall>a \<in> set (ts @ [t]). \<forall>b \<in> set (ts @ [t]). a > b - windowMs l"
  shows "isBlocked key now (fold (recordFailure key) (ts @ [t]) l) \<longleftrightarrow> now < t + blockMs l"
proof -
  let ?l = "fold (recordFailure key) ts l"
  have before: "limiter_inv ?l \<and> windowMs ?l = windowMs l \<and> blockMs ?l = blockMs l \<and>
      maxFailures ?l = maxFailures l \<and>
      (ts \<noteq> [] \<longrightarrow> (\<exists>e. map_of (entries ?l) key = Some e \<and> failures e = ts \<and> blockedUntil e = 0))"
    using failures_below_limit[OF assms(1,2), of ts] assms by (cases "ts = []") auto
  have recent: "filter (\<lambda>at. t - windowMs l < at) ts = ts"
    using assms(4) by (simp add: filter_id_conv)
  have fail: "failures (fst (entryFor key t ?l)) = ts"
    using before assms(2) by (cases "ts = []") (auto simp: entryFor_fst_new entryFor_fst_old)
  have "map_of (entries (recordFailure key t ?l)) key =
      Some ((fst (entryFor key t ?l))\<lparr>blockedUntil := t + blockMs l, failures := []\<rparr>)"
    using recordFailure_get[of ?l key t] before recent fail assms(3) by (simp add: Let_def)
  then show ?thesis by (auto simp: isBlocked_def)
qed

section \<open>Keeping a block\<close>

lemma recordFailure_other:
  assumes "limiter_inv l" "k \<noteq> key"
  shows "map_of (entries (recordFailure key t l)) k = map_of (entries (snd (entryFor key t l))) k"
  using assms(2) by (simp add: recordFailure_def Let_def split_def jsmap)

lemma evictIfFull_keeps_block:
  assumes "wf_map (entries l)" "length (entries l) \<le> Suc (maxKeys l)"
    and "(k, e) \<in> set (entries l)" "blockedUntil e > t"
    and "kv \<in> set (entries l)" "evictable False t keep kv"
  shows "(k, e) \<in> set (entries (evictIfFull t keep l))"
proof (cases "length (entries l) \<le> maxKeys l")
  case False
  let ?m1 = "evict_expired (maxKeys l) (windowMs l) t keep (length (entries l)) (entries l)"
  let ?m2 = "evict_stalest (maxKeys l) False t keep ?m1"
  have wf: "wf_map ?m1" using assms(1) by (rule evict_expired_wf)
  have "(k, e) \<in> set ?m1" using assms(3,4) evict_expired_keeps by blast
  then have "(k, e) \<in> set ?m2"
    using evict_stalest_keeps[OF wf, of "maxKeys l" False t keep] assms(4)
    by (fastforce simp: evictable_def)
  moreover have "length ?m2 \<le> maxKeys l"
  proof (cases "length ?m1 \<le> maxKeys l")
    case True
    then show ?thesis by (simp add: evict_stalest_within)
  next
    case more: False
    then have "kv \<in> set ?m1" using evict_expired_one[OF assms(2,5,6)] by blast
    moreover have "length ?m1 \<le> Suc (maxKeys l)"
      using evict_expired_length assms(2) le_trans by blast
    ultimately show ?thesis using evict_stalest_one[OF wf] assms(6) by blast
  qed
  ultimately show ?thesis using False by (simp add: evictIfFull_def Let_def evict_stalest_within)
qed (use assms in \<open>simp add: evictIfFull_def\<close>)

section \<open>Properties\<close>

text \<open>C30. The throttle's memory is bounded: after any sequence of failures and successes the map
  holds at most \<open>maxKeys\<close> keys (one, the key just inserted, when \<open>maxKeys\<close> is zero).\<close>

theorem limiter_memory_bounded:
  "length (entries (fold limiter_step es (createAuthFailureLimiter mf wm bm mk)))
     \<le> max 1 (maxKeys (createAuthFailureLimiter mf wm bm mk))"
  using limiter_run_inv[OF limiter_inv_create, of es mf wm bm mk] by (auto simp: limiter_inv_def)

text \<open>Reaching the limit blocks: from any reachable limiter that does not know the key,
  \<open>maxFailures\<close> failures of it inside one window block it for exactly \<open>blockMs\<close> after the last,
  and one failure fewer does not block it at any time from zero on.\<close>

theorem failures_block:
  assumes "l = fold limiter_step es (createAuthFailureLimiter mf wm bm mk)"
    and "map_of (entries l) key = None"
    and "length (ts @ [t]) = maxFailures l"
    and "\<forall>a \<in> set (ts @ [t]). \<forall>b \<in> set (ts @ [t]). a > b - windowMs l"
    and "0 \<le> now"
  shows "(isBlocked key now (fold (recordFailure key) (ts @ [t]) l) \<longleftrightarrow> now < t + blockMs l) \<and>
    \<not> isBlocked key now (fold (recordFailure key) ts l)"
proof (rule conjI)
  have inv: "limiter_inv l"
    using assms(1) limiter_run_inv[OF limiter_inv_create] by simp
  show "isBlocked key now (fold (recordFailure key) (ts @ [t]) l) \<longleftrightarrow> now < t + blockMs l"
    by (rule blocked_at_limit[OF inv assms(2-4)])
  show "\<not> isBlocked key now (fold (recordFailure key) ts l)"
    by (rule not_blocked_below[OF inv assms(2)]) (use assms in auto)
qed

theorem failures_block_witness:
  "isBlocked ''k'' 11 (fold (recordFailure ''k'') ([5] @ [6]) (createAuthFailureLimiter (Some 2) (Some 10) (Some 9) None))"
proof -
  let ?l = "createAuthFailureLimiter (Some 2) (Some 10) (Some 9) None"
  have "?l = fold limiter_step [] (createAuthFailureLimiter (Some 2) (Some 10) (Some 9) None)"
    by simp
  from failures_block[OF this, of "''k''" "[5]" 6 11] show ?thesis
    by (simp add: createAuthFailureLimiter_def)
qed

text \<open>An active block is kept: a key blocked beyond the time of an event stays blocked until the
  same time through a failure or success of another key, as long as the map has room or holds a
  third key that is not blocked; and a success of the blocked key itself does not lift it.\<close>

theorem active_block_kept:
  assumes "l = fold limiter_step es (createAuthFailureLimiter mf wm bm mk)" and "0 < maxKeys l"
    and "map_of (entries l) k = Some e" and "blockedUntil e > t" and "key \<noteq> k"
    and "length (entries l) < maxKeys l \<or>
      (\<exists>k' e'. (k', e') \<in> set (entries l) \<and> k' \<noteq> key \<and> \<not> blockedUntil e' > t)"
  shows "map_of (entries (limiter_step (Failure key t) l)) k = Some e \<and>
    map_of (entries (limiter_step (Success key t) l)) k = Some e \<and>
    map_of (entries (limiter_step (Success k t) l)) k = Some e"
proof (intro conjI)
  have inv: "limiter_inv l"
    using assms(1) limiter_run_inv[OF limiter_inv_create] by simp
  then have wf: "wf_map (entries l)" and len: "length (entries l) \<le> maxKeys l"
    using assms(2) by (auto simp: limiter_inv_def)
  show "map_of (entries (limiter_step (Success key t) l)) k = Some e"
    using assms(3,5) by (auto simp: recordSuccess_def jsmap split: option.splits)
  show "map_of (entries (limiter_step (Success k t) l)) k = Some e"
    using assms(3,4) by (auto simp: recordSuccess_def)
  have "map_of (entries (snd (entryFor key t l))) k = Some e"
  proof (cases "map_of (entries l) key")
    case (Some e')
    then show ?thesis using assms(3,5) by (simp add: entryFor_def Let_def jsmap)
  next
    case None
    let ?l = "l\<lparr>entries := entries l @ [(key, \<lparr>failures = [], blockedUntil = 0, lastSeenAt = t\<rparr>)]\<rparr>"
    have wf': "wf_map (entries ?l)"
      using wf None by (auto simp: wf_map_def map_of_eq_None_iff)
    have mem: "(k, e) \<in> set (entries ?l)" using assms(3) map_of_mem by fastforce
    have "(k, e) \<in> set (entries (evictIfFull t key ?l))"
    proof (cases "length (entries l) < maxKeys l")
      case True
      then show ?thesis using mem by (simp add: evictIfFull_def)
    next
      case False
      then obtain k' e' where "(k', e') \<in> set (entries ?l)" "evictable False t key (k', e')"
        using assms(6) by (auto simp: evictable_def)
      then show ?thesis
        using evictIfFull_keeps_block[OF wf' _ mem assms(4), of "(k', e')" key] len by simp
    qed
    then show ?thesis
      using entryFor_new(1)[OF wf None, of t] evictIfFull_keeps(1)[OF wf', of t key]
      by (simp add: mem_map_of)
  qed
  then show "map_of (entries (limiter_step (Failure key t) l)) k = Some e"
    using recordFailure_other[OF inv, of k key t] assms(5) by auto
qed

theorem active_block_kept_witness:
  "map_of (entries (limiter_step (Failure ''x'' 5)
     (fold limiter_step [Failure ''k'' 0] (createAuthFailureLimiter (Some 1) None (Some 100) None)))) ''k''
   = Some \<lparr>failures = [], blockedUntil = 100, lastSeenAt = 0\<rparr>"
proof -
  let ?l = "fold limiter_step [Failure ''k'' 0] (createAuthFailureLimiter (Some 1) None (Some 100) None)"
  have eval: "?l = \<lparr>maxFailures = 1, windowMs = 300000, blockMs = 100, maxKeys = 4096,
      entries = [(''k'', \<lparr>failures = [], blockedUntil = 100, lastSeenAt = 0\<rparr>)]\<rparr>"
    by code_simp
  have "0 < maxKeys ?l \<and> length (entries ?l) < maxKeys ?l \<and>
      map_of (entries ?l) ''k'' = Some \<lparr>failures = [], blockedUntil = 100, lastSeenAt = 0\<rparr>"
    unfolding eval by simp
  then show ?thesis
    using active_block_kept[of ?l "[Failure ''k'' 0]" "Some 1" None "Some 100" None "''k''"
        "\<lparr>failures = [], blockedUntil = 100, lastSeenAt = 0\<rparr>" 5 "''x''"] by simp
qed

end
