(* ===== verification/AccessPolicy.thy ===== *)
theory AccessPolicy
  imports NetAddress
begin

unbundle bit_operations_syntax

text \<open>
  Where a request comes from (\<open>access-policy.ts\<close>): the classification of a client address as
  loopback, private network or public, the walk over \<open>X-Forwarded-For\<close> through trusted proxies,
  and the policy the daemon asks. An absent value is \<open>None\<close>; a test \<open>!address\<close> also refuses the
  empty string. The settings the policy reads through its callbacks are the fields of
  \<open>access_settings\<close>, read anew at every call; the brand's default for \<open>trustLan\<close> is a parameter.
\<close>

datatype client_locality = Loopback | Lan | Public

datatype trusted_proxies = TrustAll | TrustList "string list"

datatype forwarded_for = NoForwarded | ForwardedOne string | ForwardedMany "string list"

record request_like =
  remoteAddress :: "string option"
  x_forwarded_for :: forwarded_for

section \<open>Addresses\<close>

definition mapped_prefix :: string where
  "mapped_prefix = ''::ffff:''"

definition isLoopbackIp :: "string option \<Rightarrow> bool" where
  "isLoopbackIp address =
     (case address of None \<Rightarrow> False
      | Some a \<Rightarrow>
          if a = [] then False
          else
            let normalized = toLowerCase (js_trim a) in
            if normalized = ''::1'' \<or> normalized = ''0:0:0:0:0:0:0:1'' then True
            else
              let ipv4 = (if startsWith normalized mapped_prefix
                          then drop (length mapped_prefix) normalized else normalized)
              in isIPv4 ipv4 \<and> startsWith ipv4 ''127.'')"

definition normalizeIp :: "string \<Rightarrow> string" where
  "normalizeIp address =
     (let trimmed = toLowerCase (js_trim address) in
      if startsWith trimmed mapped_prefix then drop (length mapped_prefix) trimmed else trimmed)"

definition ipv4Octets :: "string \<Rightarrow> (nat \<times> nat \<times> nat \<times> nat) option" where
  "ipv4Octets address =
     (if \<not> isIPv4 address then None
      else
        let parts = map parse_decimal (js_split CHR ''.'' address) in
        if length parts \<noteq> 4 then None else Some (parts ! 0, parts ! 1, parts ! 2, parts ! 3))"

definition isPrivateLanIp :: "string option \<Rightarrow> bool" where
  "isPrivateLanIp address =
     (case address of None \<Rightarrow> False
      | Some addr \<Rightarrow>
          if addr = [] then False
          else
            let normalized = normalizeIp addr in
            case ipv4Octets normalized of
              Some (a, b, _, _) \<Rightarrow>
                if a = 10 then True
                else if a = 172 \<and> b \<ge> 16 \<and> b \<le> 31 then True
                else if a = 192 \<and> b = 168 then True
                else if a = 169 \<and> b = 254 then True
                else False
            | None \<Rightarrow>
                if \<not> isIPv6 normalized then False
                else
                  let firstHextet = hd (js_split CHR '':'' normalized) in
                  if firstHextet = [] then False
                  else
                    case parseInt16 firstHextet of
                      None \<Rightarrow> False
                    | Some v \<Rightarrow>
                        if v AND 0xfe00 = 0xfc00 then True
                        else if v AND 0xffc0 = 0xfe80 then True
                        else False)"

definition classifyClientAddress :: "string option \<Rightarrow> client_locality" where
  "classifyClientAddress address =
     (if isLoopbackIp address then Loopback
      else if isPrivateLanIp address then Lan
      else Public)"

section \<open>Trusted proxies\<close>

definition trusted_by :: "string \<Rightarrow> string \<Rightarrow> bool" where
  "trusted_by address entry =
     (let normalized = toLowerCase (js_trim entry) in
      (normalized = ''loopback'' \<and> isLoopbackIp (Some address)) \<or>
      (isIP normalized \<noteq> 0 \<and> normalizeIp normalized = normalizeIp address))"

definition isTrustedProxy :: "string \<Rightarrow> trusted_proxies \<Rightarrow> bool" where
  "isTrustedProxy address trustedProxies =
     (case trustedProxies of
        TrustAll \<Rightarrow> True
      | TrustList es \<Rightarrow> list_ex (trusted_by address) es)"

definition forwarded_hops :: "forwarded_for \<Rightarrow> string list" where
  "forwarded_hops ff =
     filter (\<lambda>hop. length hop > 0)
       (map js_trim
         (js_split CHR '',''
           (case ff of NoForwarded \<Rightarrow> [] | ForwardedOne s \<Rightarrow> s
            | ForwardedMany ss \<Rightarrow> js_join '','' ss)))"

text \<open>The loop over the hops from the right: \<open>hops\<close> is the header's list reversed.\<close>

fun walk_hops :: "trusted_proxies \<Rightarrow> string \<Rightarrow> nat \<Rightarrow> string list \<Rightarrow> string \<times> nat" where
  "walk_hops tp client n [] = (client, n)"
| "walk_hops tp client n (hop # hops) =
     (if \<not> isTrustedProxy client tp then (client, n)
      else if isIP (normalizeIp hop) = 0 then (client, n)
      else walk_hops tp hop (Suc n) hops)"

definition resolveForwardedClient ::
  "string option \<Rightarrow> forwarded_for \<Rightarrow> trusted_proxies \<Rightarrow> string option \<times> bool" where
  "resolveForwardedClient remote ff tp =
     (case remote of None \<Rightarrow> (None, False)
      | Some r \<Rightarrow>
          if r = [] then (None, False)
          else
            let (client, hops) = walk_hops tp r 0 (rev (forwarded_hops ff))
            in (Some client, hops > 0))"

definition resolveClientAddress ::
  "string option \<Rightarrow> forwarded_for \<Rightarrow> trusted_proxies \<Rightarrow> string option" where
  "resolveClientAddress remote ff tp = fst (resolveForwardedClient remote ff tp)"

definition classifyRequestLocality ::
  "string option \<Rightarrow> forwarded_for \<Rightarrow> trusted_proxies \<Rightarrow> client_locality" where
  "classifyRequestLocality remote ff tp =
     (let (address, forwarded) = resolveForwardedClient remote ff tp;
          locality = classifyClientAddress address
      in if forwarded \<and> locality = Loopback then Public else locality)"

section \<open>The policy\<close>

definition isClientTrusted :: "client_locality \<Rightarrow> bool \<Rightarrow> bool" where
  "isClientTrusted client trustLan = (client = Loopback \<or> (client = Lan \<and> trustLan))"

definition isAuthRequired :: "string option \<Rightarrow> bool \<Rightarrow> client_locality \<Rightarrow> bool \<Rightarrow> bool" where
  "isAuthRequired password claimed client trustLan =
     (if password \<noteq> None \<and> password \<noteq> Some [] then True
      else \<not> isClientTrusted client trustLan)"

record access_settings =
  trustedProxies :: trusted_proxies
  trustLanSetting :: "bool option"
  claimModeSetting :: "bool option"

definition claimMode :: "access_settings \<Rightarrow> bool" where
  "claimMode s = (case claimModeSetting s of None \<Rightarrow> False | Some b \<Rightarrow> b)"

definition trustLan :: "bool \<Rightarrow> access_settings \<Rightarrow> bool" where
  "trustLan DEFAULT_TRUST_LAN s =
     (\<not> claimMode s \<and> (case trustLanSetting s of None \<Rightarrow> DEFAULT_TRUST_LAN | Some b \<Rightarrow> b))"

definition clientLocality :: "access_settings \<Rightarrow> request_like \<Rightarrow> client_locality" where
  "clientLocality s req =
     (if remoteAddress req = None \<or> remoteAddress req = Some [] then Loopback
      else classifyRequestLocality (remoteAddress req) (x_forwarded_for req) (trustedProxies s))"

definition clientAddress :: "access_settings \<Rightarrow> request_like \<Rightarrow> string option" where
  "clientAddress s req =
     resolveClientAddress (remoteAddress req) (x_forwarded_for req) (trustedProxies s)"

definition isLoopbackClient :: "access_settings \<Rightarrow> request_like \<Rightarrow> bool" where
  "isLoopbackClient s req = (clientLocality s req = Loopback)"

definition isTrustedClient :: "bool \<Rightarrow> access_settings \<Rightarrow> request_like \<Rightarrow> bool" where
  "isTrustedClient DEFAULT_TRUST_LAN s req =
     isClientTrusted (clientLocality s req) (trustLan DEFAULT_TRUST_LAN s)"

section \<open>Lemmas\<close>

lemma isIPv4_plain:
  assumes "isIPv4 s"
  shows "toLowerCase (js_trim s) = s"
proof -
  have "list_all (\<lambda>c. \<not> is_space c) s" and "list_all (\<lambda>c. lower_char c = c) s"
    using isIPv4_chars[OF assms]
    by (auto simp: list_all_iff is_digit_def is_space_def lower_char_def Let_def)
  then show ?thesis
    by (simp add: js_trim_no_space toLowerCase_def list_all_iff map_idI)
qed

lemma isIPv4_not_mapped: "isIPv4 s \<Longrightarrow> \<not> startsWith s mapped_prefix"
  using isIPv4_chars[of s]
  by (auto simp: startsWith_def mapped_prefix_def prefix_def list_all_iff is_digit_def)

lemma mapped_plain:
  assumes "isIPv4 s"
  shows "toLowerCase (js_trim (mapped_prefix @ s)) = mapped_prefix @ s"
proof -
  have "list_all (\<lambda>c. \<not> is_space c) (mapped_prefix @ s)"
    and "list_all (\<lambda>c. lower_char c = c) (mapped_prefix @ s)"
    using isIPv4_chars[OF assms]
    by (auto simp: list_all_iff is_digit_def is_space_def lower_char_def Let_def mapped_prefix_def)
  then show ?thesis
    by (simp add: js_trim_no_space toLowerCase_def list_all_iff map_idI)
qed

lemma normalizeIp_ipv4 [simp]:
  assumes "isIPv4 s"
  shows "normalizeIp s = s" and "normalizeIp (mapped_prefix @ s) = s"
  using assms by (simp_all add: normalizeIp_def isIPv4_plain isIPv4_not_mapped mapped_plain Let_def)

lemma isIPv4_nonempty: "isIPv4 s \<Longrightarrow> s \<noteq> []"
  by (auto simp: isIPv4_def Let_def)

lemma isIPv4_no_colon: "isIPv4 s \<Longrightarrow> CHR '':'' \<notin> set s"
  using isIPv4_chars[of s] by (auto simp: list_all_iff is_digit_def)

lemma isLoopbackIp_ipv4:
  assumes "isIPv4 s"
  shows "isLoopbackIp (Some s) = startsWith s ''127.''"
    and "isLoopbackIp (Some (mapped_prefix @ s)) = startsWith s ''127.''"
proof -
  have "s \<noteq> ''::1''" and "s \<noteq> ''0:0:0:0:0:0:0:1''"
    using isIPv4_no_colon[OF assms] by auto
  then show "isLoopbackIp (Some s) = startsWith s ''127.''"
    using assms by (simp add: isLoopbackIp_def isIPv4_plain isIPv4_not_mapped isIPv4_nonempty Let_def)
  have "mapped_prefix @ s \<noteq> ''::1''" and "mapped_prefix @ s \<noteq> ''0:0:0:0:0:0:0:1''"
    by (auto simp: mapped_prefix_def)
  then show "isLoopbackIp (Some (mapped_prefix @ s)) = startsWith s ''127.''"
    using assms by (simp add: isLoopbackIp_def mapped_plain isIPv4_nonempty Let_def)
qed

lemma print_octet_127: "print_octet 127 = ''127''"
  by code_simp

lemma startsWith_print_127:
  assumes "a < 256" "b < 256" "c < 256" "d < 256"
  shows "startsWith (print_ipv4 a b c d) ''127.'' \<longleftrightarrow> a = 127"
proof
  assume "startsWith (print_ipv4 a b c d) ''127.''"
  then obtain r where r: "print_ipv4 a b c d = ''127'' @ CHR ''.'' # r"
    by (auto simp: startsWith_def prefix_def)
  then have "print_octet a = ''127''"
    using split_print_ipv4[OF assms] js_split_delim[of "CHR ''.''" "''127''" r] by simp
  then show "a = 127"
    using print_octet_facts(2)[of a] assms by (simp add: parse_decimal_def digit_value_def)
next
  assume "a = 127"
  then show "startsWith (print_ipv4 a b c d) ''127.''"
    using print_octet_127 by (simp add: startsWith_def print_ipv4_def)
qed

lemma ipv4Octets_print:
  assumes "a < 256" "b < 256" "c < 256" "d < 256"
  shows "ipv4Octets (print_ipv4 a b c d) = Some (a, b, c, d)"
  using assms
  by (simp add: ipv4Octets_def isIPv4_print split_print_ipv4 print_octet_facts Let_def)

lemma walk_hops_spec:
  "\<exists>j \<le> length hops. walk_hops tp client n hops = ((client # hops) ! j, n + j) \<and>
     (\<forall>i < j. isTrustedProxy ((client # hops) ! i) tp \<and> isIP (normalizeIp (hops ! i)) \<noteq> 0) \<and>
     (j = length hops \<or> \<not> isTrustedProxy ((client # hops) ! j) tp \<or> isIP (normalizeIp (hops ! j)) = 0)"
proof (induction tp client n hops rule: walk_hops.induct)
  case (2 tp client n hop hops)
  show ?case
  proof (cases "isTrustedProxy client tp \<and> isIP (normalizeIp hop) \<noteq> 0")
    case True
    with 2 obtain j where "j \<le> length hops"
      and "walk_hops tp hop (Suc n) hops = ((hop # hops) ! j, Suc n + j)"
      and "\<forall>i < j. isTrustedProxy ((hop # hops) ! i) tp \<and> isIP (normalizeIp (hops ! i)) \<noteq> 0"
      and "j = length hops \<or> \<not> isTrustedProxy ((hop # hops) ! j) tp \<or>
        isIP (normalizeIp (hops ! j)) = 0"
      by blast
    with True show ?thesis
      by (intro exI[of _ "Suc j"]) (auto simp: less_Suc_eq_0_disj)
  qed auto
qed simp

lemma walk_hops_zero: "walk_hops tp client 0 hops = (c, 0) \<Longrightarrow> c = client"
  using walk_hops_spec[of hops tp client 0] by auto

lemma and_prefix_mask:
  fixes v :: nat
  assumes "v < 2 ^ (k + m)"
  shows "v AND (push_bit k (mask m)) = v div 2 ^ k * 2 ^ k"
proof -
  have "v div 2 ^ k < 2 ^ m"
    using assms by (simp add: less_mult_imp_div_less power_add mult.commute)
  then have "take_bit m (drop_bit k v) = drop_bit k v"
    by (simp add: take_bit_nat_eq_self_iff drop_bit_eq_div)
  moreover have "v AND (push_bit k (mask m)) = push_bit k (take_bit m (drop_bit k v))"
    by (rule bit_eqI) (auto simp: bit_simps)
  ultimately show ?thesis
    by (simp add: push_bit_eq_mult drop_bit_eq_div)
qed

lemma div_mult_interval:
  fixes v :: nat
  assumes "0 < d"
  shows "v div d * d = q * d \<longleftrightarrow> q * d \<le> v \<and> v < Suc q * d"
proof -
  have "v div d * d = q * d \<longleftrightarrow> q \<le> v div d \<and> v div d < Suc q"
    using assms by auto
  also have "\<dots> \<longleftrightarrow> q * d \<le> v \<and> v < Suc q * d"
    using assms by (simp only: less_eq_div_iff_mult_less_eq div_less_iff_less_mult)
  finally show ?thesis .
qed

lemma private_hextet:
  assumes "v < 65536"
  shows "v AND 0xfe00 = (0xfc00 :: nat) \<longleftrightarrow> 0xfc00 \<le> v \<and> v \<le> 0xfdff"
    and "v AND 0xffc0 = (0xfe80 :: nat) \<longleftrightarrow> 0xfe80 \<le> v \<and> v \<le> 0xfebf"
proof -
  have "v AND 0xfe00 = v div 512 * 512"
    using and_prefix_mask[of v 9 7] assms by (simp add: push_bit_eq_mult mask_eq_exp_minus_1)
  then show "v AND 0xfe00 = (0xfc00 :: nat) \<longleftrightarrow> 0xfc00 \<le> v \<and> v \<le> 0xfdff"
    using div_mult_interval[of 512 v 126] by auto
  have "v AND 0xffc0 = v div 64 * 64"
    using and_prefix_mask[of v 6 10] assms by (simp add: push_bit_eq_mult mask_eq_exp_minus_1)
  then show "v AND 0xffc0 = (0xfe80 :: nat) \<longleftrightarrow> 0xfe80 \<le> v \<and> v \<le> 0xfebf"
    using div_mult_interval[of 64 v 1018] by auto
qed

lemma parse_hex_bound: "list_all (\<lambda>c. hex_value c \<noteq> None) w \<Longrightarrow> parse_hex w < 16 ^ length w"
proof (induction w rule: rev_induct)
  case (snoc c w)
  moreover have "the (hex_value c) < 16"
    using snoc.prems by (auto simp: hex_value_def Let_def split: if_splits)
  ultimately show ?case by (simp add: parse_hex_def)
qed (simp add: parse_hex_def)

lemma hextet_count_hd: "hextet_count b (w # v # ws) = Some n \<Longrightarrow> is_hextet w"
  by (auto split: if_splits)

lemma cut_None_hd: "cut_at_double_colon (c # s) = None \<Longrightarrow> cut_at_double_colon s = None"
  by (cases s) (auto split: if_splits)

lemma cut_Some: "cut_at_double_colon s = Some (l, r) \<Longrightarrow> s = l @ ''::'' @ r"
proof (induction s arbitrary: l r rule: cut_at_double_colon.induct)
  case (1 c d s)
  then show ?case by (cases "c = CHR '':'' \<and> d = CHR '':''") auto
qed auto

lemma hd_split_append:
  "hd (js_split d (w @ d # s)) = hd (js_split d w)"
proof (induction w)
  case (Cons c w)
  then show ?case by (cases "c = d") (auto simp: hd_Cons_tl neq_Nil_conv split: list.splits)
qed simp

lemma ipv6_first_hextet:
  assumes "is_ipv6_body s" and "hd (js_split CHR '':'' s) \<noteq> []"
  shows "is_hextet (hd (js_split CHR '':'' s))"
proof (cases "cut_at_double_colon s")
  case None
  then have count: "hextet_count True (js_split CHR '':'' s) = Some 8"
    using assms by (simp add: is_ipv6_body_def)
  then obtain w v ws where "js_split CHR '':'' s = w # v # ws"
    by (cases "(True, js_split CHR '':'' s)" rule: hextet_count.cases) (auto split: if_splits)
  with count hextet_count_hd show ?thesis by (metis list.sel(1))
next
  case (Some lr)
  obtain l r where lr: "lr = (l, r)" by fastforce
  with Some have s: "s = l @ CHR '':'' # CHR '':'' # r" by (auto dest: cut_Some)
  then have hd: "hd (js_split CHR '':'' s) = hd (js_split CHR '':'' l)"
    by (simp add: hd_split_append)
  with assms(2) have "l \<noteq> []" by auto
  with assms(1) Some lr have "hextet_count False (js_split CHR '':'' l) \<noteq> None"
    by (auto simp: is_ipv6_body_def colon_groups_def split: option.splits)
  then have "is_hextet (hd (js_split CHR '':'' l))"
    by (cases "(False, js_split CHR '':'' l)" rule: hextet_count.cases) (auto split: if_splits)
  with hd show ?thesis by simp
qed

section \<open>Properties\<close>

text \<open>C12. A header never makes a client local: the daemon takes a request as loopback exactly when
  it arrived over a socket without a remote address, or its TCP peer is a loopback address and no
  hop of \<open>X-Forwarded-For\<close> was followed. In particular \<open>127.0.0.1\<close> in the header does not help,
  whatever the trusted proxies are.\<close>

theorem loopback_not_forwarded:
  "clientLocality s req = Loopback \<longleftrightarrow>
     remoteAddress req = None \<or> remoteAddress req = Some [] \<or>
     (isLoopbackIp (remoteAddress req) \<and>
      resolveForwardedClient (remoteAddress req) (x_forwarded_for req) (trustedProxies s) =
        (remoteAddress req, False))"
proof (cases "remoteAddress req = None \<or> remoteAddress req = Some []")
  case False
  then obtain r where r: "remoteAddress req = Some r" and "r \<noteq> []" by auto
  obtain c n where walk: "walk_hops (trustedProxies s) r 0 (rev (forwarded_hops (x_forwarded_for req)))
      = (c, n)" by fastforce
  then have "n = 0 \<Longrightarrow> c = r" by (auto dest: walk_hops_zero)
  with r \<open>r \<noteq> []\<close> walk show ?thesis
    by (auto simp: clientLocality_def classifyRequestLocality_def resolveForwardedClient_def
        classifyClientAddress_def)
qed (auto simp: clientLocality_def)

text \<open>The client address is the one the proxy walk defines: of the TCP peer followed by the
  header's hops from right to left, it is the first that is not a trusted proxy, or whose next
  hop is not an address, or the last; every address passed over is a trusted proxy.\<close>

theorem forwarded_client_spec:
  assumes "remoteAddress req = Some r" and "r \<noteq> []"
    and "cs = r # rev (forwarded_hops (x_forwarded_for req))"
  shows "\<exists>n < length cs. clientAddress s req = Some (cs ! n) \<and>
    (\<forall>i < n. isTrustedProxy (cs ! i) (trustedProxies s) \<and> isIP (normalizeIp (cs ! Suc i)) \<noteq> 0) \<and>
    (Suc n = length cs \<or> \<not> isTrustedProxy (cs ! n) (trustedProxies s) \<or>
      isIP (normalizeIp (cs ! Suc n)) = 0)"
proof -
  from walk_hops_spec[of "tl cs" "trustedProxies s" r 0] assms(3)
  obtain n where "n \<le> length (tl cs)" and "walk_hops (trustedProxies s) r 0 (tl cs) = (cs ! n, n)"
    and "\<forall>i < n. isTrustedProxy (cs ! i) (trustedProxies s) \<and> isIP (normalizeIp (tl cs ! i)) \<noteq> 0"
    and "n = length (tl cs) \<or> \<not> isTrustedProxy (cs ! n) (trustedProxies s) \<or>
      isIP (normalizeIp (tl cs ! n)) = 0"
    by auto
  with assms show ?thesis
    by (intro exI[of _ n]) (auto simp: clientAddress_def resolveClientAddress_def
        resolveForwardedClient_def less_Suc_eq_le)
qed

definition proxied_request :: request_like where
  "proxied_request =
     \<lparr>remoteAddress = Some ''127.0.0.1'', x_forwarded_for = ForwardedOne ''8.8.8.8, 127.0.0.1''\<rparr>"

definition loopback_proxy :: access_settings where
  "loopback_proxy =
     \<lparr>trustedProxies = TrustList [''loopback''], trustLanSetting = None, claimModeSetting = None\<rparr>"

lemma proxied_request_hops:
  "[''127.0.0.1'', ''127.0.0.1'', ''8.8.8.8''] =
     ''127.0.0.1'' # rev (forwarded_hops (x_forwarded_for proxied_request))"
  by code_simp

theorem forwarded_client_spec_witness:
  "\<exists>n < length [''127.0.0.1'', ''127.0.0.1'', ''8.8.8.8''].
     clientAddress loopback_proxy proxied_request =
       Some ([''127.0.0.1'', ''127.0.0.1'', ''8.8.8.8''] ! n) \<and>
    (\<forall>i < n. isTrustedProxy ([''127.0.0.1'', ''127.0.0.1'', ''8.8.8.8''] ! i)
         (trustedProxies loopback_proxy) \<and>
       isIP (normalizeIp ([''127.0.0.1'', ''127.0.0.1'', ''8.8.8.8''] ! Suc i)) \<noteq> 0) \<and>
    (Suc n = length [''127.0.0.1'', ''127.0.0.1'', ''8.8.8.8''] \<or>
      \<not> isTrustedProxy ([''127.0.0.1'', ''127.0.0.1'', ''8.8.8.8''] ! n)
         (trustedProxies loopback_proxy) \<or>
      isIP (normalizeIp ([''127.0.0.1'', ''127.0.0.1'', ''8.8.8.8''] ! Suc n)) = 0)"
  by (rule forwarded_client_spec[OF _ _ proxied_request_hops]) (simp_all add: proxied_request_def)

text \<open>An IPv4 address, plain or IPv4-mapped, is classified by its octets: 127/8 is loopback,
  10/8, 172.16/12, 192.168/16 and 169.254/16 are the private network, everything else (100.64/10
  included) is public.\<close>

theorem classify_ipv4:
  assumes "a < 256" "b < 256" "c < 256" "d < 256"
    and "p = [] \<or> p = mapped_prefix"
  shows "classifyClientAddress (Some (p @ print_ipv4 a b c d)) =
    (if a = 127 then Loopback
     else if a = 10 \<or> (a = 172 \<and> b div 16 = 1) \<or> (a = 192 \<and> b = 168) \<or> (a = 169 \<and> b = 254)
     then Lan else Public)"
proof -
  let ?s = "print_ipv4 a b c d"
  have v4: "isIPv4 ?s" using assms by (simp add: isIPv4_print)
  have loop: "isLoopbackIp (Some (p @ ?s)) \<longleftrightarrow> a = 127"
    using assms(5) isLoopbackIp_ipv4[OF v4] startsWith_print_127[OF assms(1-4)] by auto
  have "p @ ?s \<noteq> []" using v4 isIPv4_nonempty by auto
  moreover have "normalizeIp (p @ ?s) = ?s" using assms(5) v4 by auto
  moreover have "b div 16 = 1 \<longleftrightarrow> 16 \<le> b \<and> b \<le> 31" by auto
  ultimately have "isPrivateLanIp (Some (p @ ?s)) \<longleftrightarrow>
      a = 10 \<or> (a = 172 \<and> b div 16 = 1) \<or> (a = 192 \<and> b = 168) \<or> (a = 169 \<and> b = 254)"
    by (auto simp: isPrivateLanIp_def ipv4Octets_print[OF assms(1-4)] Let_def)
  with loop show ?thesis by (simp add: classifyClientAddress_def)
qed

theorem classify_ipv4_witness:
  "classifyClientAddress (Some (mapped_prefix @ print_ipv4 172 20 0 9)) = Lan"
  using classify_ipv4[of 172 20 0 9 mapped_prefix] by simp

text \<open>An IPv6 address that is written in its normal form, without a zone, and begins with a
  hextet is on the private network exactly when the hextet lies in fc00-fdff (fc00::/7) or
  fe80-febf (fe80::/10).\<close>

theorem isPrivateLanIp_ipv6:
  assumes "normalizeIp s = s" and "is_ipv6_body s" and "CHR ''%'' \<notin> set s" and "\<not> isIPv4 s"
    and "hd (js_split CHR '':'' s) \<noteq> []"
  shows "isPrivateLanIp (Some s) \<longleftrightarrow>
    (let v = parse_hex (hd (js_split CHR '':'' s)) in
     (0xfc00 \<le> v \<and> v \<le> 0xfdff) \<or> (0xfe80 \<le> v \<and> v \<le> 0xfebf))"
proof -
  let ?w = "hd (js_split CHR '':'' s)"
  have hex: "is_hextet ?w" using ipv6_first_hextet assms by blast
  then have all: "list_all (\<lambda>c. hex_value c \<noteq> None) ?w" and len: "length ?w \<le> 4"
    by (simp_all add: is_hextet_def)
  have "parse_hex ?w < 16 ^ length ?w" by (rule parse_hex_bound[OF all])
  also have "\<dots> \<le> 16 ^ 4" by (rule power_increasing[OF len]) simp
  finally have bound: "parse_hex ?w < 65536" by simp
  have "indexOf CHR ''%'' s = None"
    using assms(3) by (induction s) auto
  then have v6: "isIPv6 s" using assms(2) by (simp add: isIPv6_def)
  have "takeWhile (\<lambda>c. hex_value c \<noteq> None) ?w = ?w"
    using all by (simp only: takeWhile_eq_all_conv list_all_iff)
  then have "parseInt16 ?w = Some (parse_hex ?w)"
    using assms(5) by (simp only: parseInt16_def Let_def if_False)
  moreover have "s \<noteq> []" using assms(5) by auto
  ultimately show ?thesis
    using assms v6 private_hextet[OF bound] by (simp add: isPrivateLanIp_def ipv4Octets_def Let_def)
qed

theorem isPrivateLanIp_ipv6_witness: "isPrivateLanIp (Some ''fe80::1'')"
proof -
  have "normalizeIp ''fe80::1'' = ''fe80::1''" by code_simp
  moreover have "is_ipv6_body ''fe80::1''"
    by (simp add: is_ipv6_body_def is_hextet_def hex_value_def colon_groups_def)
  moreover have "\<not> isIPv4 ''fe80::1''" by code_simp
  moreover have "hd (js_split CHR '':'' ''fe80::1'') = ''fe80''" by code_simp
  moreover have "parse_hex ''fe80'' = 0xfe80" by (simp add: parse_hex_def hex_value_def)
  ultimately show ?thesis
    using isPrivateLanIp_ipv6[of "''fe80::1''"] by simp
qed

end
