(* ===== verification/ClaimStore.thy ===== *)
theory ClaimStore
  imports Roles JsString
begin

text \<open>
  The paired devices of the daemon and their credentials (\<open>claim-store.ts\<close>), kept in
  \<open>principals.json\<close>. The disk is two optional files, the principals file and the backup of its
  first version; the content of a file is a value of the version-1 or version-2 schema, or
  something neither accepts, and \<open>JSON.stringify\<close> followed by \<open>JSON.parse\<close> gives the value back.
  Reading the clock, drawing a credential and drawing an identifier are arguments of the
  operations that do so, and SHA-256 is the parameter \<open>hash\<close>. A read of an unreadable file throws,
  so every operation returns an error or its result with the new state.

  The in-memory cache of \<open>load\<close> is modelled on its own (\<open>load_cached\<close>) and shown to return what
  reading the file returns; the operations are stated over the latter.
\<close>

section \<open>Records\<close>

datatype paired_via = ViaClaim | ViaOffer | ViaCode | ViaApproval | ViaPassword | ViaLegacy | ViaLocal

record legacy_credential =
  lcred_id :: string
  lcred_sha256 :: string
  lcred_createdAt :: string
  lcred_label :: "string option"

record legacy_principal =
  lprn_id :: string
  lprn_label :: string
  lprn_createdAt :: string
  lprn_permissions :: "daemon_permission list"
  lprn_credentials :: "legacy_credential list"

record legacy_file =
  lfile_claimedAt :: "string option"
  lfile_principals :: "legacy_principal list"

record credential_record =
  cred_id :: string
  cred_sha256 :: string
  cred_createdAt :: string
  cred_name :: string
  cred_role :: "device_role option"
  cred_pairedVia :: "paired_via option"
  cred_lastSeenAt :: "string option"
  cred_clientId :: "string option"

record principal_record =
  prn_id :: string
  prn_label :: string
  prn_createdAt :: string
  prn_permissions :: "daemon_permission list"
  prn_credentials :: "credential_record list"

record principals_file =
  pf_claimedAt :: "string option"
  pf_principals :: "principal_record list"

record device_record =
  dev_id :: string
  dev_name :: string
  dev_role :: device_role
  dev_principalId :: string
  dev_principalLabel :: string
  dev_createdAt :: string
  dev_lastSeenAt :: "string option"
  dev_pairedVia :: "paired_via option"
  dev_permissions :: "daemon_permission list"

record minted_principal =
  mint_principalId :: string
  mint_credentialId :: string
  mint_credential :: string
  mint_permissions :: "daemon_permission list"
  mint_role :: device_role
  mint_deviceName :: string

datatype raw_file = RawV1 legacy_file | RawV2 principals_file | RawOther

section \<open>Schemas\<close>

definition is_sha256_hex :: "string \<Rightarrow> bool" where
  "is_sha256_hex s =
     (length s = 64 \<and> list_all (\<lambda>c. is_digit c \<or> (97 \<le> char_code c \<and> char_code c \<le> 102)) s)"

definition LegacyCredentialSchema :: "legacy_credential \<Rightarrow> bool" where
  "LegacyCredentialSchema c =
     (lcred_id c \<noteq> [] \<and> is_sha256_hex (lcred_sha256 c) \<and> lcred_createdAt c \<noteq> [])"

definition LegacyFileSchema :: "legacy_file \<Rightarrow> bool" where
  "LegacyFileSchema f =
     list_all (\<lambda>p. lprn_id p \<noteq> [] \<and> lprn_label p \<noteq> [] \<and> lprn_createdAt p \<noteq> [] \<and>
       list_all LegacyCredentialSchema (lprn_credentials p)) (lfile_principals f)"

definition CredentialRecordSchema :: "credential_record \<Rightarrow> bool" where
  "CredentialRecordSchema c =
     (cred_id c \<noteq> [] \<and> is_sha256_hex (cred_sha256 c) \<and> cred_createdAt c \<noteq> [] \<and> cred_name c \<noteq> [] \<and>
      cred_clientId c \<noteq> Some [])"

definition PrincipalRecordSchema :: "principal_record \<Rightarrow> bool" where
  "PrincipalRecordSchema p =
     (prn_id p \<noteq> [] \<and> prn_label p \<noteq> [] \<and> prn_createdAt p \<noteq> [] \<and>
      list_all CredentialRecordSchema (prn_credentials p))"

definition PrincipalsFileSchema :: "principals_file \<Rightarrow> bool" where
  "PrincipalsFileSchema f = list_all PrincipalRecordSchema (pf_principals f)"

datatype claim_error = SchemaError

definition emptyPrincipalsFile :: principals_file where
  "emptyPrincipalsFile = \<lparr>pf_claimedAt = None, pf_principals = []\<rparr>"

text \<open>\<open>a || b\<close> on an optional string: the empty string is falsy too.\<close>

definition or_else :: "string option \<Rightarrow> string \<Rightarrow> string" where
  "or_else s d = (case s of None \<Rightarrow> d | Some t \<Rightarrow> if t = [] then d else t)"

definition upgrade_credential :: "legacy_principal \<Rightarrow> legacy_credential \<Rightarrow> credential_record" where
  "upgrade_credential p c =
     \<lparr>cred_id = lcred_id c, cred_sha256 = lcred_sha256 c, cred_createdAt = lcred_createdAt c,
      cred_name = or_else (map_option js_trim (lcred_label c)) (lprn_label p),
      cred_role = Some Owner, cred_pairedVia = Some ViaLegacy,
      cred_lastSeenAt = None, cred_clientId = None\<rparr>"

definition upgrade_principal :: "legacy_principal \<Rightarrow> principal_record" where
  "upgrade_principal p =
     \<lparr>prn_id = lprn_id p, prn_label = lprn_label p, prn_createdAt = lprn_createdAt p,
      prn_permissions = lprn_permissions p,
      prn_credentials = map (upgrade_credential p) (lprn_credentials p)\<rparr>"

definition upgradePrincipalsFile :: "raw_file \<Rightarrow> claim_error + (principals_file \<times> bool)" where
  "upgradePrincipalsFile raw =
     (case raw of
        RawV1 legacy \<Rightarrow>
          if LegacyFileSchema legacy
          then Inr (\<lparr>pf_claimedAt = (if lfile_claimedAt legacy = Some [] then None
                                     else lfile_claimedAt legacy),
                     pf_principals = map upgrade_principal (lfile_principals legacy)\<rparr>, True)
          else Inl SchemaError
      | RawV2 f \<Rightarrow> if PrincipalsFileSchema f then Inr (f, False) else Inl SchemaError
      | RawOther \<Rightarrow> Inl SchemaError)"

definition toDevice :: "principal_record \<Rightarrow> credential_record \<Rightarrow> device_record" where
  "toDevice p c =
     \<lparr>dev_id = cred_id c, dev_name = cred_name c,
      dev_role = (case cred_role c of None \<Rightarrow> Owner | Some r \<Rightarrow> r),
      dev_principalId = prn_id p, dev_principalLabel = prn_label p,
      dev_createdAt = cred_createdAt c, dev_lastSeenAt = cred_lastSeenAt c,
      dev_pairedVia = cred_pairedVia c, dev_permissions = prn_permissions p\<rparr>"

section \<open>Loading\<close>

text \<open>A file on disk with the two numbers \<open>statSync\<close> gives for it.\<close>

record stat_file =
  st_mtimeMs :: int
  st_size :: nat
  st_content :: raw_file

record file_cache =
  fc_mtimeMs :: int
  fc_size :: nat
  fc_value :: principals_file
  fc_upgraded :: bool

definition load_cached ::
  "file_cache option \<Rightarrow> stat_file option \<Rightarrow> claim_error + ((principals_file \<times> bool) \<times> file_cache option)" where
  "load_cached cache disk =
     (case disk of
        None \<Rightarrow> Inr ((emptyPrincipalsFile, False), None)
      | Some f \<Rightarrow>
          (case cache of
             Some c \<Rightarrow>
               if fc_mtimeMs c = st_mtimeMs f \<and> fc_size c = st_size f
               then Inr ((fc_value c, fc_upgraded c), cache)
               else sum_bind (upgradePrincipalsFile (st_content f)) (\<lambda>(file, upgraded).
                 Inr ((file, upgraded), Some \<lparr>fc_mtimeMs = st_mtimeMs f, fc_size = st_size f,
                   fc_value = file, fc_upgraded = upgraded\<rparr>))
           | None \<Rightarrow>
               sum_bind (upgradePrincipalsFile (st_content f)) (\<lambda>(file, upgraded).
                 Inr ((file, upgraded), Some \<lparr>fc_mtimeMs = st_mtimeMs f, fc_size = st_size f,
                   fc_value = file, fc_upgraded = upgraded\<rparr>))))"

record claim_store =
  cs_disk :: "raw_file option"
  cs_backup :: "raw_file option"
  pendingLastSeen :: "(string, string) js_map"
  lastPersistedAt :: "(string, time_ms) js_map"

definition createClaimStore :: "raw_file option \<Rightarrow> raw_file option \<Rightarrow> claim_store" where
  "createClaimStore disk backup =
     \<lparr>cs_disk = disk, cs_backup = backup, pendingLastSeen = [], lastPersistedAt = []\<rparr>"

definition load :: "claim_store \<Rightarrow> claim_error + (principals_file \<times> bool)" where
  "load s =
     (case cs_disk s of
        None \<Rightarrow> Inr (emptyPrincipalsFile, False)
      | Some raw \<Rightarrow> upgradePrincipalsFile raw)"

definition with_pending :: "(string, string) js_map \<Rightarrow> credential_record \<Rightarrow> credential_record" where
  "with_pending pending c =
     (case map_of pending (cred_id c) of
        None \<Rightarrow> c
      | Some seen \<Rightarrow>
          if seen \<noteq> [] \<and>
             (case cred_lastSeenAt c of None \<Rightarrow> True | Some l \<Rightarrow> l = [] \<or> str_less l seen)
          then c\<lparr>cred_lastSeenAt := Some seen\<rparr> else c)"

definition map_credentials ::
  "(credential_record \<Rightarrow> credential_record) \<Rightarrow> principal_record \<Rightarrow> principal_record" where
  "map_credentials f p = p\<lparr>prn_credentials := map f (prn_credentials p)\<rparr>"

definition read :: "claim_store \<Rightarrow> claim_error + principals_file" where
  "read s =
     sum_bind (load s) (\<lambda>(value, _).
       if pendingLastSeen s = [] then Inr value
       else Inr (value\<lparr>pf_principals :=
              map (map_credentials (with_pending (pendingLastSeen s))) (pf_principals value)\<rparr>))"

definition backupV1BeforeFirstWrite :: "claim_store \<Rightarrow> claim_error + claim_store" where
  "backupV1BeforeFirstWrite s =
     (if cs_disk s = None \<or> cs_backup s \<noteq> None then Inr s
      else sum_bind (load s) (\<lambda>(_, upgraded).
        if \<not> upgraded then Inr s else Inr (s\<lparr>cs_backup := cs_disk s\<rparr>)))"

definition write_file :: "principals_file \<Rightarrow> claim_store \<Rightarrow> claim_error + claim_store" where
  "write_file value s =
     sum_bind (backupV1BeforeFirstWrite s) (\<lambda>s1.
       Inr (s1\<lparr>cs_disk := Some (RawV2 value), pendingLastSeen := []\<rparr>))"

section \<open>Operations\<close>

text \<open>The nested \<open>map\<close> of \<open>mutateCredential\<close>; the device it remembers is the last one updated.\<close>

definition updated_devices ::
  "string \<Rightarrow> (credential_record \<Rightarrow> credential_record) \<Rightarrow> principal_record list \<Rightarrow> device_record list" where
  "updated_devices credentialId update ps =
     concat (map (\<lambda>p. map (\<lambda>c. toDevice p (update c))
       (filter (\<lambda>c. cred_id c = credentialId) (prn_credentials p))) ps)"

definition mutateCredential ::
  "string \<Rightarrow> (credential_record \<Rightarrow> credential_record) \<Rightarrow> claim_store \<Rightarrow>
     claim_error + (device_record option \<times> claim_store)" where
  "mutateCredential credentialId update s =
     sum_bind (read s) (\<lambda>current.
       let found = updated_devices credentialId update (pf_principals current);
           principals = map (map_credentials (\<lambda>c. if cred_id c \<noteq> credentialId then c else update c))
             (pf_principals current)
       in if found = [] then Inr (None, s)
          else sum_bind (write_file (current\<lparr>pf_principals := principals\<rparr>) s) (\<lambda>s1.
            Inr (Some (last found), s1)))"

definition file_devices :: "principals_file \<Rightarrow> device_record list" where
  "file_devices f = concat (map (\<lambda>p. map (toDevice p) (prn_credentials p)) (pf_principals f))"

definition listDevices :: "claim_store \<Rightarrow> claim_error + device_record list" where
  "listDevices s = sum_bind (read s) (\<lambda>f. Inr (file_devices f))"

definition file_claimed :: "principals_file \<Rightarrow> bool" where
  "file_claimed f =
     (or_else (pf_claimedAt f) [] \<noteq> [] \<or>
      list_ex (\<lambda>p. list_ex (\<lambda>c. cred_pairedVia c \<noteq> Some ViaLocal) (prn_credentials p))
        (pf_principals f))"

definition isClaimed :: "claim_store \<Rightarrow> claim_error + bool" where
  "isClaimed s = sum_bind (read s) (\<lambda>f. Inr (file_claimed f))"

definition claimedAt :: "claim_store \<Rightarrow> claim_error + string option" where
  "claimedAt s = sum_bind (read s) (\<lambda>f. Inr (pf_claimedAt f))"

definition isDaemonClaimed :: "claim_store \<Rightarrow> string option \<Rightarrow> claim_error + bool" where
  "isDaemonClaimed s password =
     (if or_else password [] \<noteq> [] then Inr True else isClaimed s)"

definition credentialHashes :: "claim_store \<Rightarrow> claim_error + string list" where
  "credentialHashes s =
     sum_bind (read s) (\<lambda>f. Inr (concat (map (\<lambda>p. map cred_sha256 (prn_credentials p)) (pf_principals f))))"

text \<open>Both digests are 64 lower-case hexadecimal digits, so comparing their bytes is comparing the
  strings; the loop does not stop at a match, so the last one counts.\<close>

definition matching_devices :: "string \<Rightarrow> principals_file \<Rightarrow> device_record list" where
  "matching_devices digest f =
     concat (map (\<lambda>p. map (toDevice p) (filter (\<lambda>c. cred_sha256 c = digest) (prn_credentials p)))
       (pf_principals f))"

definition findDeviceByToken ::
  "(string \<Rightarrow> string) \<Rightarrow> string \<Rightarrow> claim_store \<Rightarrow> claim_error + device_record option" where
  "findDeviceByToken hash token s =
     sum_bind (read s) (\<lambda>f.
       let matches = matching_devices (hash token) f
       in Inr (if matches = [] then None else Some (last matches)))"

definition getDevice :: "string \<Rightarrow> claim_store \<Rightarrow> claim_error + device_record option" where
  "getDevice credentialId s =
     sum_bind (listDevices s) (\<lambda>ds. Inr (find (\<lambda>d. dev_id d = credentialId) ds))"

definition getCredentialRole :: "string \<Rightarrow> claim_store \<Rightarrow> claim_error + device_role option" where
  "getCredentialRole credentialId s =
     sum_bind (listDevices s) (\<lambda>ds. Inr (map_option dev_role (find (\<lambda>d. dev_id d = credentialId) ds)))"

definition isLastOwner :: "string \<Rightarrow> claim_store \<Rightarrow> claim_error + bool" where
  "isLastOwner credentialId s =
     sum_bind (listDevices s) (\<lambda>ds.
       let owners = filter (\<lambda>d. dev_role d = Owner) ds
       in Inr (length owners = 1 \<and> dev_id (hd owners) = credentialId))"

record mint_input =
  mi_label :: string
  mi_deviceName :: "string option"
  mi_role :: "device_role option"
  mi_pairedVia :: "paired_via option"
  mi_permissions :: "daemon_permission list option"

text \<open>The values the daemon draws for a new device.\<close>

record mint_draws =
  md_now :: string
  md_secret :: string
  md_principalId :: string
  md_credentialId :: string

definition mintPrincipal ::
  "(string \<Rightarrow> string) \<Rightarrow> mint_draws \<Rightarrow> mint_input \<Rightarrow> claim_store \<Rightarrow>
     claim_error + (minted_principal \<times> claim_store)" where
  "mintPrincipal hash draws input s =
     sum_bind (read s) (\<lambda>current.
       let now = md_now draws;
           principalLabel = or_else (Some (js_trim (mi_label input))) ''Paired device'';
           name = or_else (map_option js_trim (mi_deviceName input)) principalLabel;
           resolvedRole = (case mi_role input of None \<Rightarrow> Owner | Some r \<Rightarrow> r);
           permissions = (case mi_permissions input of None \<Rightarrow> DAEMON_PERMISSIONS | Some ps \<Rightarrow> ps);
           principal = \<lparr>prn_id = md_principalId draws, prn_label = principalLabel, prn_createdAt = now,
             prn_permissions = permissions,
             prn_credentials = [\<lparr>cred_id = md_credentialId draws, cred_sha256 = hash (md_secret draws),
               cred_createdAt = now, cred_name = name, cred_role = Some resolvedRole,
               cred_pairedVia = mi_pairedVia input, cred_lastSeenAt = None, cred_clientId = None\<rparr>]\<rparr>
       in sum_bind (write_file \<lparr>pf_claimedAt = (case pf_claimedAt current of None \<Rightarrow> Some now | Some t \<Rightarrow> Some t),
              pf_principals = pf_principals current @ [principal]\<rparr> s) (\<lambda>s1.
            Inr (\<lparr>mint_principalId = md_principalId draws, mint_credentialId = md_credentialId draws,
                  mint_credential = md_secret draws, mint_permissions = permissions,
                  mint_role = resolvedRole, mint_deviceName = name\<rparr>, s1)))"

datatype client_via = RegPassword | RegLocal

fun paired_via_of :: "client_via \<Rightarrow> paired_via" where
  "paired_via_of RegPassword = ViaPassword"
| "paired_via_of RegLocal = ViaLocal"

definition registered_devices :: "string \<Rightarrow> client_via \<Rightarrow> principals_file \<Rightarrow> device_record list" where
  "registered_devices clientId via f =
     concat (map (\<lambda>p. map (toDevice p) (filter (\<lambda>c. cred_clientId c = Some clientId \<and>
       cred_pairedVia c = Some (paired_via_of via)) (prn_credentials p))) (pf_principals f))"

definition registerClientDevice ::
  "(string \<Rightarrow> string) \<Rightarrow> mint_draws \<Rightarrow> string \<Rightarrow> string \<Rightarrow> client_via \<Rightarrow> claim_store \<Rightarrow>
     claim_error + (device_record \<times> claim_store)" where
  "registerClientDevice hash draws clientId name via s =
     sum_bind (read s) (\<lambda>current.
       case registered_devices clientId via current of
         d # _ \<Rightarrow> Inr (d, s)
       | [] \<Rightarrow>
           let now = md_now draws;
               deviceName = or_else (Some (js_trim name)) ''Unnamed device'';
               credential = \<lparr>cred_id = md_credentialId draws, cred_sha256 = hash (md_secret draws),
                 cred_createdAt = now, cred_name = deviceName, cred_role = Some Owner,
                 cred_pairedVia = Some (paired_via_of via), cred_lastSeenAt = None,
                 cred_clientId = Some clientId\<rparr>;
               principal = \<lparr>prn_id = md_principalId draws, prn_label = deviceName, prn_createdAt = now,
                 prn_permissions = DAEMON_PERMISSIONS, prn_credentials = [credential]\<rparr>
           in sum_bind (write_file (current\<lparr>
                  pf_claimedAt := (if via = RegPassword
                    then (case pf_claimedAt current of None \<Rightarrow> Some now | Some t \<Rightarrow> Some t)
                    else pf_claimedAt current),
                  pf_principals := pf_principals current @ [principal]\<rparr>) s) (\<lambda>s1.
                Inr (toDevice principal credential, s1)))"

definition renameDevice ::
  "string \<Rightarrow> string \<Rightarrow> claim_store \<Rightarrow> claim_error + (device_record option \<times> claim_store)" where
  "renameDevice credentialId name s =
     (let trimmed = js_trim name in
      if trimmed = [] then Inr (None, s)
      else mutateCredential credentialId (\<lambda>c. c\<lparr>cred_name := trimmed\<rparr>) s)"

definition remove_credential :: "string \<Rightarrow> principal_record list \<Rightarrow> principal_record list" where
  "remove_credential credentialId ps =
     filter (\<lambda>p. length (prn_credentials p) > 0)
       (map (\<lambda>p. p\<lparr>prn_credentials := filter (\<lambda>c. cred_id c \<noteq> credentialId) (prn_credentials p)\<rparr>) ps)"

definition revokeDevice :: "string \<Rightarrow> claim_store \<Rightarrow> claim_error + (bool \<times> claim_store)" where
  "revokeDevice credentialId s =
     sum_bind (read s) (\<lambda>current.
       let removed = list_ex (\<lambda>p. list_ex (\<lambda>c. cred_id c = credentialId) (prn_credentials p))
             (pf_principals current)
       in if \<not> removed then Inr (False, s)
          else sum_bind (write_file (current\<lparr>pf_principals :=
                 remove_credential credentialId (pf_principals current)\<rparr>) s) (\<lambda>s1.
            Inr (True, s1\<lparr>lastPersistedAt := AList.delete credentialId (lastPersistedAt s1)\<rparr>)))"

definition setCredentialRole ::
  "string \<Rightarrow> device_role \<Rightarrow> claim_store \<Rightarrow> claim_error + (bool \<times> claim_store)" where
  "setCredentialRole credentialId role s =
     sum_bind (mutateCredential credentialId (\<lambda>c. c\<lparr>cred_role := Some role\<rparr>) s) (\<lambda>(d, s1).
       Inr (d \<noteq> None, s1))"

definition LAST_SEEN_WRITE_INTERVAL_MS :: time_ms where
  "LAST_SEEN_WRITE_INTERVAL_MS = 60000"

text \<open>\<open>now\<close> is a \<open>Date\<close>: \<open>ms\<close> its time value and \<open>stamp\<close> its \<open>toISOString\<close>.\<close>

definition touchLastSeen ::
  "string \<Rightarrow> time_ms \<Rightarrow> string \<Rightarrow> claim_store \<Rightarrow> claim_error + claim_store" where
  "touchLastSeen credentialId ms stamp s =
     (let s1 = s\<lparr>pendingLastSeen := AList.update credentialId stamp (pendingLastSeen s)\<rparr>;
          last' = (case map_of (lastPersistedAt s1) credentialId of None \<Rightarrow> 0 | Some t \<Rightarrow> t)
      in if ms - last' < LAST_SEEN_WRITE_INTERVAL_MS then Inr s1
         else
           let s2 = s1\<lparr>lastPersistedAt := AList.update credentialId ms (lastPersistedAt s1)\<rparr>
           in sum_bind (mutateCredential credentialId (\<lambda>c. c\<lparr>cred_lastSeenAt := Some stamp\<rparr>) s2)
                (\<lambda>(_, s3). Inr s3))"

definition migrate :: "claim_store \<Rightarrow> claim_error + (bool \<times> claim_store)" where
  "migrate s =
     sum_bind (load s) (\<lambda>(value, upgraded).
       if \<not> upgraded then Inr (False, s)
       else sum_bind (write_file value s) (\<lambda>s1. Inr (True, s1)))"

definition reset :: "claim_store \<Rightarrow> bool \<times> claim_store" where
  "reset s =
     (cs_disk s \<noteq> None, s\<lparr>cs_disk := None, pendingLastSeen := [], lastPersistedAt := []\<rparr>)"

section \<open>Events\<close>

datatype claim_event =
    MintEv mint_draws mint_input
  | RegisterEv mint_draws string string client_via
  | RenameEv string string
  | RevokeEv string
  | SetRoleEv string device_role
  | TouchEv string time_ms string
  | MigrateEv

text \<open>One operation that changes the store, its result dropped.\<close>

fun claim_step :: "(string \<Rightarrow> string) \<Rightarrow> claim_event \<Rightarrow> claim_store \<Rightarrow> claim_error + claim_store" where
  "claim_step hash (MintEv draws input) s = map_sum id snd (mintPrincipal hash draws input s)"
| "claim_step hash (RegisterEv draws clientId name via) s =
     map_sum id snd (registerClientDevice hash draws clientId name via s)"
| "claim_step hash (RenameEv credentialId name) s = map_sum id snd (renameDevice credentialId name s)"
| "claim_step hash (RevokeEv credentialId) s = map_sum id snd (revokeDevice credentialId s)"
| "claim_step hash (SetRoleEv credentialId role) s = map_sum id snd (setCredentialRole credentialId role s)"
| "claim_step hash (TouchEv credentialId ms stamp) s = touchLastSeen credentialId ms stamp s"
| "claim_step hash MigrateEv s = map_sum id snd (migrate s)"

fun claim_run :: "(string \<Rightarrow> string) \<Rightarrow> claim_event list \<Rightarrow> claim_store \<Rightarrow> claim_error + claim_store" where
  "claim_run hash [] s = Inr s"
| "claim_run hash (e # es) s = sum_bind (claim_step hash e s) (claim_run hash es)"

text \<open>What the daemon draws is never empty, a digest is a SHA-256 digest, and a hello carries a
  non-empty client id (\<open>WSHelloMessageSchema\<close>).\<close>

definition ok_draws :: "(string \<Rightarrow> string) \<Rightarrow> mint_draws \<Rightarrow> bool" where
  "ok_draws hash d =
     (md_now d \<noteq> [] \<and> md_principalId d \<noteq> [] \<and> md_credentialId d \<noteq> [] \<and>
      is_sha256_hex (hash (md_secret d)))"

fun ok_event :: "(string \<Rightarrow> string) \<Rightarrow> claim_event \<Rightarrow> bool" where
  "ok_event hash (MintEv draws input) = ok_draws hash draws"
| "ok_event hash (RegisterEv draws clientId name via) = (ok_draws hash draws \<and> clientId \<noteq> [])"
| "ok_event hash _ = True"

section \<open>The directory of devices\<close>

text \<open>What the store promises, without files, versions and pending writes: when the daemon was
  claimed, and the devices with their digest and client id in order. When a device was last seen
  is not part of it.\<close>

type_synonym directory_entry = "device_record \<times> string \<times> string option"

record directory =
  dir_claimedAt :: "string option"
  dir_entries :: "directory_entry list"

definition entry_of :: "principal_record \<Rightarrow> credential_record \<Rightarrow> directory_entry" where
  "entry_of p c = ((toDevice p c)\<lparr>dev_lastSeenAt := None\<rparr>, cred_sha256 c, cred_clientId c)"

definition directory_of :: "principals_file \<Rightarrow> directory" where
  "directory_of f =
     \<lparr>dir_claimedAt = pf_claimedAt f,
      dir_entries = concat (map (\<lambda>p. map (entry_of p) (prn_credentials p)) (pf_principals f))\<rparr>"

definition new_device ::
  "mint_draws \<Rightarrow> string \<Rightarrow> string \<Rightarrow> device_role \<Rightarrow> paired_via option \<Rightarrow> daemon_permission list \<Rightarrow> device_record" where
  "new_device draws label name role via permissions =
     \<lparr>dev_id = md_credentialId draws, dev_name = name, dev_role = role,
      dev_principalId = md_principalId draws, dev_principalLabel = label,
      dev_createdAt = md_now draws, dev_lastSeenAt = None, dev_pairedVia = via,
      dev_permissions = permissions\<rparr>"

definition minted_device :: "mint_draws \<Rightarrow> mint_input \<Rightarrow> device_record" where
  "minted_device draws input =
     (let label = or_else (Some (js_trim (mi_label input))) ''Paired device''
      in new_device draws label (or_else (map_option js_trim (mi_deviceName input)) label)
           (case mi_role input of None \<Rightarrow> Owner | Some r \<Rightarrow> r) (mi_pairedVia input)
           (case mi_permissions input of None \<Rightarrow> DAEMON_PERMISSIONS | Some ps \<Rightarrow> ps))"

definition registered_device :: "mint_draws \<Rightarrow> string \<Rightarrow> client_via \<Rightarrow> device_record" where
  "registered_device draws name via =
     (let label = or_else (Some (js_trim name)) ''Unnamed device''
      in new_device draws label label Owner (Some (paired_via_of via)) DAEMON_PERMISSIONS)"

definition map_device ::
  "string \<Rightarrow> (device_record \<Rightarrow> device_record) \<Rightarrow> directory \<Rightarrow> directory" where
  "map_device credentialId f d =
     d\<lparr>dir_entries := map (\<lambda>(v, h, c). (if dev_id v = credentialId then f v else v, h, c))
        (dir_entries d)\<rparr>"

definition is_registered :: "string \<Rightarrow> client_via \<Rightarrow> directory \<Rightarrow> bool" where
  "is_registered clientId via d =
     list_ex (\<lambda>(v, _, c). c = Some clientId \<and> dev_pairedVia v = Some (paired_via_of via)) (dir_entries d)"

fun dir_step :: "(string \<Rightarrow> string) \<Rightarrow> claim_event \<Rightarrow> directory \<Rightarrow> directory" where
  "dir_step hash (MintEv draws input) d =
     \<lparr>dir_claimedAt = (case dir_claimedAt d of None \<Rightarrow> Some (md_now draws) | Some t \<Rightarrow> Some t),
      dir_entries = dir_entries d @ [(minted_device draws input, hash (md_secret draws), None)]\<rparr>"
| "dir_step hash (RegisterEv draws clientId name via) d =
     (if is_registered clientId via d then d
      else \<lparr>dir_claimedAt = (if via = RegPassword
              then (case dir_claimedAt d of None \<Rightarrow> Some (md_now draws) | Some t \<Rightarrow> Some t)
              else dir_claimedAt d),
            dir_entries = dir_entries d @
              [(registered_device draws name via, hash (md_secret draws), Some clientId)]\<rparr>)"
| "dir_step hash (RenameEv credentialId name) d =
     (if js_trim name = [] then d
      else map_device credentialId (\<lambda>v. v\<lparr>dev_name := js_trim name\<rparr>) d)"
| "dir_step hash (RevokeEv credentialId) d =
     d\<lparr>dir_entries := filter (\<lambda>(v, _, _). dev_id v \<noteq> credentialId) (dir_entries d)\<rparr>"
| "dir_step hash (SetRoleEv credentialId role) d = map_device credentialId (\<lambda>v. v\<lparr>dev_role := role\<rparr>) d"
| "dir_step hash (TouchEv credentialId ms stamp) d = d"
| "dir_step hash MigrateEv d = d"

section \<open>Reading and writing\<close>

lemma with_pending_Nil [simp]: "with_pending [] c = c"
  by (simp add: with_pending_def)

lemma with_pending_simps [simp]:
  "cred_id (with_pending m c) = cred_id c" "cred_sha256 (with_pending m c) = cred_sha256 c"
  "cred_createdAt (with_pending m c) = cred_createdAt c" "cred_name (with_pending m c) = cred_name c"
  "cred_role (with_pending m c) = cred_role c" "cred_pairedVia (with_pending m c) = cred_pairedVia c"
  "cred_clientId (with_pending m c) = cred_clientId c"
  by (simp_all add: with_pending_def split: option.splits)

lemma map_credentials_simps [simp]:
  "prn_id (map_credentials f p) = prn_id p" "prn_label (map_credentials f p) = prn_label p"
  "prn_createdAt (map_credentials f p) = prn_createdAt p"
  "prn_permissions (map_credentials f p) = prn_permissions p"
  "prn_credentials (map_credentials f p) = map f (prn_credentials p)"
  by (simp_all add: map_credentials_def)

definition merge_pending :: "(string, string) js_map \<Rightarrow> principals_file \<Rightarrow> principals_file" where
  "merge_pending pending f =
     f\<lparr>pf_principals := map (map_credentials (with_pending pending)) (pf_principals f)\<rparr>"

lemma map_credentials_id [simp]: "map_credentials (\<lambda>c. c) p = p"
  by (simp add: map_credentials_def)

lemma merge_pending_Nil [simp]: "merge_pending [] f = f"
proof -
  have "map_credentials (with_pending []) = (\<lambda>p. p)"
    by (rule ext) (simp add: map_credentials_def map_idI)
  then show ?thesis by (simp add: merge_pending_def)
qed

lemma merge_pending_claimedAt [simp]: "pf_claimedAt (merge_pending m f) = pf_claimedAt f"
  by (simp add: merge_pending_def)

lemma read_eq: "read s = map_sum id (\<lambda>(v, _). merge_pending (pendingLastSeen s) v) (load s)"
  by (cases "load s") (auto simp: read_def merge_pending_def[symmetric])

lemma or_else_nonempty [simp]: "d \<noteq> [] \<Longrightarrow> or_else s d \<noteq> []"
  by (auto simp: or_else_def split: option.splits)

lemma upgrade_schema: "LegacyFileSchema f \<Longrightarrow> list_all PrincipalRecordSchema (map upgrade_principal (lfile_principals f))"
  by (auto simp: LegacyFileSchema_def LegacyCredentialSchema_def PrincipalRecordSchema_def
      CredentialRecordSchema_def upgrade_principal_def upgrade_credential_def list_all_iff)

lemma load_schema: "load s = Inr (f, b) \<Longrightarrow> PrincipalsFileSchema f"
  using upgrade_schema
  by (auto simp: load_def upgradePrincipalsFile_def PrincipalsFileSchema_def emptyPrincipalsFile_def
      split: option.splits raw_file.splits if_splits)

lemma map_credentials_schema:
  assumes "PrincipalsFileSchema f"
    and "\<And>c. CredentialRecordSchema c \<Longrightarrow> CredentialRecordSchema (g c)"
  shows "PrincipalsFileSchema (f\<lparr>pf_principals := map (map_credentials g) (pf_principals f)\<rparr>)"
  using assms by (auto simp: PrincipalsFileSchema_def PrincipalRecordSchema_def list_all_iff)

lemma read_schema: "read s = Inr f \<Longrightarrow> PrincipalsFileSchema f"
proof -
  assume "read s = Inr f"
  then obtain v b where v: "load s = Inr (v, b)" and f: "f = merge_pending (pendingLastSeen s) v"
    by (cases "load s") (auto simp: read_eq)
  show ?thesis
    unfolding f merge_pending_def
    by (rule map_credentials_schema[OF load_schema[OF v]]) (simp add: CredentialRecordSchema_def)
qed

lemma read_load: "read s = Inr f \<Longrightarrow> \<exists>v b. load s = Inr (v, b) \<and> f = merge_pending (pendingLastSeen s) v"
  by (cases "load s") (auto simp: read_eq)

lemma write_spec:
  assumes "load s = Inr (v, up)" and "PrincipalsFileSchema f"
  shows "\<exists>s1. write_file f s = Inr s1 \<and> read s1 = Inr f \<and> load s1 = Inr (f, False) \<and>
    pendingLastSeen s1 = [] \<and> lastPersistedAt s1 = lastPersistedAt s \<and>
    cs_disk s1 = Some (RawV2 f) \<and>
    cs_backup s1 = (if cs_backup s = None \<and> up then cs_disk s else cs_backup s)"
  using assms
  by (auto simp: write_file_def backupV1BeforeFirstWrite_def read_eq load_def upgradePrincipalsFile_def
      split: option.splits)

lemma write_read:
  assumes "read s = Inr g" and "PrincipalsFileSchema f"
  shows "\<exists>s1. write_file f s = Inr s1 \<and> read s1 = Inr f"
  using assms write_spec read_load by metis

section \<open>The store keeps a directory\<close>

lemma entry_of_map_credentials [simp]: "entry_of (map_credentials g p) c = entry_of p c"
  by (simp add: entry_of_def toDevice_def)

lemma entry_of_with_pending [simp]: "entry_of p (with_pending m c) = entry_of p c"
  by (simp add: entry_of_def toDevice_def)

lemma directory_merge [simp]: "directory_of (merge_pending m f) = directory_of f"
  by (simp add: directory_of_def merge_pending_def comp_def)

definition file_mutate ::
  "string \<Rightarrow> (credential_record \<Rightarrow> credential_record) \<Rightarrow> principals_file \<Rightarrow> principals_file" where
  "file_mutate credentialId update f =
     f\<lparr>pf_principals := map (map_credentials (\<lambda>c. if cred_id c \<noteq> credentialId then c else update c))
        (pf_principals f)\<rparr>"

lemma directory_mutate:
  assumes "\<And>p c. cred_id c = credentialId \<Longrightarrow>
    entry_of p (update c) = (g (fst (entry_of p c)), snd (entry_of p c))"
  shows "directory_of (file_mutate credentialId update f) = map_device credentialId g (directory_of f)"
proof -
  have "entry_of p (if cred_id c \<noteq> credentialId then c else update c) =
      (\<lambda>(v, h, k). (if dev_id v = credentialId then g v else v, h, k)) (entry_of p c)" for p c
    using assms[of c p] by (auto simp: entry_of_def toDevice_def)
  then show ?thesis
    by (simp add: directory_of_def map_device_def file_mutate_def comp_def map_concat)
qed

lemma map_device_absent:
  assumes "updated_devices credentialId update (pf_principals f) = []"
  shows "map_device credentialId g (directory_of f) = directory_of f"
proof -
  have "cred_id c \<noteq> credentialId" if "p \<in> set (pf_principals f)" "c \<in> set (prn_credentials p)" for p c
    using assms that by (auto simp: updated_devices_def filter_empty_conv)
  then have "\<forall>e \<in> set (dir_entries (directory_of f)). dev_id (fst e) \<noteq> credentialId"
    by (auto simp: directory_of_def entry_of_def toDevice_def)
  then have "map (\<lambda>(v, h, c). (if dev_id v = credentialId then g v else v, h, c))
      (dir_entries (directory_of f)) = dir_entries (directory_of f)"
    by (intro map_idI) auto
  then show ?thesis by (simp add: map_device_def)
qed

lemma mutate_refines:
  assumes "read s = Inr f"
    and "\<And>c. CredentialRecordSchema c \<Longrightarrow> CredentialRecordSchema (update c)"
    and "\<And>p c. cred_id c = credentialId \<Longrightarrow>
      entry_of p (update c) = (g (fst (entry_of p c)), snd (entry_of p c))"
  shows "\<exists>d s1 f1. mutateCredential credentialId update s = Inr (d, s1) \<and> read s1 = Inr f1 \<and>
    directory_of f1 = map_device credentialId g (directory_of f)"
proof (cases "updated_devices credentialId update (pf_principals f) = []")
  case True
  then show ?thesis
    using assms(1) map_device_absent[OF True] by (simp add: mutateCredential_def)
next
  case False
  have "PrincipalsFileSchema (file_mutate credentialId update f)"
    unfolding file_mutate_def
    by (rule map_credentials_schema[OF read_schema[OF assms(1)]]) (simp add: assms(2))
  from write_read[OF assms(1) this] obtain s1 where
    "write_file (file_mutate credentialId update f) s = Inr s1"
    and "read s1 = Inr (file_mutate credentialId update f)" by blast
  with False assms(1) directory_mutate[OF assms(3)] show ?thesis
    by (simp add: mutateCredential_def Let_def file_mutate_def)
qed

lemma append_refines:
  assumes "read s = Inr f" and "PrincipalRecordSchema p"
  shows "\<exists>s1 f1. write_file \<lparr>pf_claimedAt = t, pf_principals = pf_principals f @ [p]\<rparr> s = Inr s1 \<and>
    read s1 = Inr f1 \<and> directory_of f1 =
      \<lparr>dir_claimedAt = t, dir_entries = dir_entries (directory_of f) @ map (entry_of p) (prn_credentials p)\<rparr>"
proof -
  have "PrincipalsFileSchema \<lparr>pf_claimedAt = t, pf_principals = pf_principals f @ [p]\<rparr>"
    using read_schema[OF assms(1)] assms(2) by (simp add: PrincipalsFileSchema_def)
  from write_read[OF assms(1) this] show ?thesis by (auto simp: directory_of_def)
qed

lemma registered_iff:
  "registered_devices clientId via f = [] \<longleftrightarrow> \<not> is_registered clientId via (directory_of f)"
  by (fastforce simp: registered_devices_def is_registered_def directory_of_def entry_of_def
      toDevice_def list_ex_iff filter_empty_conv)

lemma remove_entries:
  "concat (map (\<lambda>p. map (entry_of p) (prn_credentials p)) (remove_credential credentialId ps)) =
     filter (\<lambda>(v, _, _). dev_id v \<noteq> credentialId)
       (concat (map (\<lambda>p. map (entry_of p) (prn_credentials p)) ps))"
proof -
  have e: "entry_of (p\<lparr>prn_credentials := cs\<rparr>) c = entry_of p c" for p :: principal_record and cs c
    by (simp add: entry_of_def toDevice_def)
  have i: "dev_id (fst (entry_of p c)) = cred_id c" for p c
    by (simp add: entry_of_def toDevice_def)
  show ?thesis
    by (induction ps) (auto simp: remove_credential_def e i filter_map comp_def split_def filter_empty_conv)
qed

lemma mint_refines:
  assumes "read s = Inr f" and "ok_draws hash draws"
  shows "\<exists>m s1 f1. mintPrincipal hash draws input s = Inr (m, s1) \<and> read s1 = Inr f1 \<and>
    directory_of f1 = dir_step hash (MintEv draws input) (directory_of f) \<and>
    mint_credential m = md_secret draws \<and> mint_credentialId m = md_credentialId draws \<and>
    mint_role m = dev_role (minted_device draws input)"
proof -
  define label where "label = or_else (Some (js_trim (mi_label input))) ''Paired device''"
  define c where "c = \<lparr>cred_id = md_credentialId draws, cred_sha256 = hash (md_secret draws),
    cred_createdAt = md_now draws, cred_name = or_else (map_option js_trim (mi_deviceName input)) label,
    cred_role = Some (case mi_role input of None \<Rightarrow> Owner | Some r \<Rightarrow> r),
    cred_pairedVia = mi_pairedVia input, cred_lastSeenAt = None, cred_clientId = None\<rparr>"
  define p where "p = \<lparr>prn_id = md_principalId draws, prn_label = label, prn_createdAt = md_now draws,
    prn_permissions = (case mi_permissions input of None \<Rightarrow> DAEMON_PERMISSIONS | Some ps \<Rightarrow> ps),
    prn_credentials = [c]\<rparr>"
  have "label \<noteq> []" by (simp add: label_def)
  then have "PrincipalRecordSchema p"
    using assms(2) by (simp add: p_def c_def PrincipalRecordSchema_def CredentialRecordSchema_def ok_draws_def)
  from append_refines[OF assms(1) this,
      of "case pf_claimedAt f of None \<Rightarrow> Some (md_now draws) | Some t \<Rightarrow> Some t"]
  show ?thesis
    using assms(1)
    by (auto simp: mintPrincipal_def Let_def p_def c_def label_def entry_of_def toDevice_def
        minted_device_def new_device_def directory_of_def)
qed

lemma register_refines:
  assumes "read s = Inr f" and "ok_draws hash draws" and "clientId \<noteq> []"
  shows "\<exists>d s1 f1. registerClientDevice hash draws clientId name via s = Inr (d, s1) \<and> read s1 = Inr f1 \<and>
    directory_of f1 = dir_step hash (RegisterEv draws clientId name via) (directory_of f)"
proof (cases "registered_devices clientId via f")
  case (Cons d ds)
  then have "is_registered clientId via (directory_of f)"
    using registered_iff[of clientId via f] by auto
  with Cons show ?thesis using assms(1) by (simp add: registerClientDevice_def)
next
  case Nil
  define label where "label = or_else (Some (js_trim name)) ''Unnamed device''"
  define c where "c = \<lparr>cred_id = md_credentialId draws, cred_sha256 = hash (md_secret draws),
    cred_createdAt = md_now draws, cred_name = label, cred_role = Some Owner,
    cred_pairedVia = Some (paired_via_of via), cred_lastSeenAt = None, cred_clientId = Some clientId\<rparr>"
  define p where "p = \<lparr>prn_id = md_principalId draws, prn_label = label, prn_createdAt = md_now draws,
    prn_permissions = DAEMON_PERMISSIONS, prn_credentials = [c]\<rparr>"
  have "label \<noteq> []" by (simp add: label_def)
  then have "PrincipalRecordSchema p"
    using assms(2,3) by (simp add: p_def c_def PrincipalRecordSchema_def CredentialRecordSchema_def ok_draws_def)
  note app = append_refines[OF assms(1) this]
  have upd: "f\<lparr>pf_claimedAt := t, pf_principals := ps\<rparr> = \<lparr>pf_claimedAt = t, pf_principals = ps\<rparr>" for t ps
    by (cases f) simp
  have "\<not> is_registered clientId via (directory_of f)"
    using Nil registered_iff[of clientId via f] by simp
  with Nil app[of "if via = RegPassword
      then (case pf_claimedAt f of None \<Rightarrow> Some (md_now draws) | Some t \<Rightarrow> Some t) else pf_claimedAt f"]
  show ?thesis
    using assms(1)
    by (auto simp: registerClientDevice_def Let_def upd p_def c_def label_def entry_of_def toDevice_def
        registered_device_def new_device_def directory_of_def)
qed

lemma revoke_refines:
  assumes "read s = Inr f"
  shows "\<exists>b s1 f1. revokeDevice credentialId s = Inr (b, s1) \<and> read s1 = Inr f1 \<and>
    directory_of f1 = dir_step hash (RevokeEv credentialId) (directory_of f)"
proof (cases "list_ex (\<lambda>p. list_ex (\<lambda>c. cred_id c = credentialId) (prn_credentials p)) (pf_principals f)")
  case True
  let ?f = "f\<lparr>pf_principals := remove_credential credentialId (pf_principals f)\<rparr>"
  have "PrincipalsFileSchema ?f"
    using read_schema[OF assms]
    by (auto simp: PrincipalsFileSchema_def remove_credential_def PrincipalRecordSchema_def list_all_iff)
  from write_read[OF assms this] obtain s1 where w: "write_file ?f s = Inr s1" "read s1 = Inr ?f" by blast
  have "read (s1\<lparr>lastPersistedAt := AList.delete credentialId (lastPersistedAt s1)\<rparr>) = Inr ?f"
    using w(2) by (simp add: read_eq load_def)
  with w True assms show ?thesis
    by (auto simp: revokeDevice_def directory_of_def remove_entries)
next
  case False
  have "filter (\<lambda>(v, _, _). dev_id v \<noteq> credentialId) (dir_entries (directory_of f)) =
      dir_entries (directory_of f)"
    using False by (auto simp: filter_id_conv directory_of_def entry_of_def toDevice_def list_ex_iff)
  with False assms show ?thesis by (auto simp: revokeDevice_def)
qed

lemma touch_refines:
  assumes "read s = Inr f"
  shows "\<exists>s1 f1. touchLastSeen credentialId ms stamp s = Inr s1 \<and> read s1 = Inr f1 \<and>
    directory_of f1 = directory_of f"
proof -
  define s1 where "s1 = s\<lparr>pendingLastSeen := AList.update credentialId stamp (pendingLastSeen s)\<rparr>"
  define s2 where "s2 = s1\<lparr>lastPersistedAt := AList.update credentialId ms (lastPersistedAt s1)\<rparr>"
  from read_load[OF assms] obtain v b where v: "load s = Inr (v, b)"
    and f: "f = merge_pending (pendingLastSeen s) v" by blast
  then have r1: "read s1 = Inr (merge_pending (pendingLastSeen s1) v)"
    by (simp add: s1_def read_eq load_def)
  then have r2: "read s2 = Inr (merge_pending (pendingLastSeen s1) v)"
    by (simp add: s2_def read_eq load_def)
  have id: "map_device credentialId (\<lambda>d. d) (directory_of v) = directory_of v"
    by (simp add: map_device_def split_def)
  have "\<exists>d s3 f3. mutateCredential credentialId (\<lambda>c. c\<lparr>cred_lastSeenAt := Some stamp\<rparr>) s2 = Inr (d, s3) \<and>
      read s3 = Inr f3 \<and> directory_of f3 = directory_of v"
    using mutate_refines[OF r2, of "\<lambda>c. c\<lparr>cred_lastSeenAt := Some stamp\<rparr>" credentialId "\<lambda>d. d"] id
    by (simp add: CredentialRecordSchema_def entry_of_def toDevice_def)
  then show ?thesis
    using r1 f by (auto simp: touchLastSeen_def Let_def s1_def[symmetric] s2_def[symmetric])
qed

lemma migrate_refines:
  assumes "read s = Inr f"
  shows "\<exists>b s1 f1. migrate s = Inr (b, s1) \<and> read s1 = Inr f1 \<and> directory_of f1 = directory_of f"
proof -
  from read_load[OF assms] obtain v b where v: "load s = Inr (v, b)"
    and f: "f = merge_pending (pendingLastSeen s) v" by blast
  show ?thesis
    using write_read[OF assms load_schema[OF v]] v f assms by (auto simp: migrate_def)
qed

lemma step_refines:
  assumes "read s = Inr f" and "ok_event hash e"
  shows "\<exists>s1 f1. claim_step hash e s = Inr s1 \<and> read s1 = Inr f1 \<and>
    directory_of f1 = dir_step hash e (directory_of f)"
proof (cases e)
  case (MintEv draws input)
  then show ?thesis using mint_refines[OF assms(1), of hash draws input] assms(2) by auto
next
  case (RegisterEv draws clientId name via)
  then show ?thesis using register_refines[OF assms(1), of hash draws clientId name via] assms(2) by auto
next
  case (RenameEv credentialId name)
  have "\<exists>d s1 f1. mutateCredential credentialId (\<lambda>c. c\<lparr>cred_name := js_trim name\<rparr>) s = Inr (d, s1) \<and>
      read s1 = Inr f1 \<and> directory_of f1 =
        map_device credentialId (\<lambda>v. v\<lparr>dev_name := js_trim name\<rparr>) (directory_of f)"
    if "js_trim name \<noteq> []"
    by (rule mutate_refines[OF assms(1)])
      (use that in \<open>simp_all add: CredentialRecordSchema_def entry_of_def toDevice_def\<close>)
  with RenameEv assms(1) show ?thesis by (auto simp: renameDevice_def Let_def)
next
  case (SetRoleEv credentialId role)
  have "\<exists>d s1 f1. mutateCredential credentialId (\<lambda>c. c\<lparr>cred_role := Some role\<rparr>) s = Inr (d, s1) \<and>
      read s1 = Inr f1 \<and> directory_of f1 = map_device credentialId (\<lambda>v. v\<lparr>dev_role := role\<rparr>) (directory_of f)"
    by (rule mutate_refines[OF assms(1)])
      (simp_all add: CredentialRecordSchema_def entry_of_def toDevice_def)
  with SetRoleEv show ?thesis by (auto simp: setCredentialRole_def)
next
  case (RevokeEv credentialId)
  then show ?thesis using revoke_refines[OF assms(1), of credentialId hash] by auto
next
  case (TouchEv credentialId ms stamp)
  then show ?thesis using touch_refines[OF assms(1), of credentialId ms stamp] by auto
next
  case MigrateEv
  then show ?thesis using migrate_refines[OF assms(1)] by auto
qed

lemma run_refines:
  assumes "read s = Inr f" and "list_all (ok_event hash) es"
  shows "\<exists>s1 f1. claim_run hash es s = Inr s1 \<and> read s1 = Inr f1 \<and>
    directory_of f1 = fold (dir_step hash) es (directory_of f)"
  using assms
proof (induction es arbitrary: s f)
  case (Cons e es)
  then obtain s1 f1 where "claim_step hash e s = Inr s1" and "read s1 = Inr f1"
    and "directory_of f1 = dir_step hash e (directory_of f)"
    using step_refines[of s f hash e] by auto
  with Cons show ?case by fastforce
qed simp

definition dir_ids :: "directory \<Rightarrow> string list" where
  "dir_ids d = map (\<lambda>e. dev_id (fst e)) (dir_entries d)"

lemma matching_entries:
  "map (\<lambda>d. d\<lparr>dev_lastSeenAt := None\<rparr>) (matching_devices digest f) =
     map fst (filter (\<lambda>(_, h, _). h = digest) (dir_entries (directory_of f)))"
proof -
  have "map (\<lambda>d. d\<lparr>dev_lastSeenAt := None\<rparr>) (concat (map (\<lambda>p. map (toDevice p)
        (filter (\<lambda>c. cred_sha256 c = digest) (prn_credentials p))) ps)) =
      map fst (filter (\<lambda>(_, h, _). h = digest)
        (concat (map (\<lambda>p. map (entry_of p) (prn_credentials p)) ps)))" for ps
    by (induction ps) (simp_all add: filter_map comp_def entry_of_def split_def)
  then show ?thesis by (simp add: matching_devices_def directory_of_def)
qed

lemma matching_ids:
  assumes "d \<in> set (matching_devices digest f)"
  shows "dev_id d \<in> set (dir_ids (directory_of f))"
proof -
  from assms have "d\<lparr>dev_lastSeenAt := None\<rparr> \<in> set (map fst (dir_entries (directory_of f)))"
    using matching_entries[of digest f]
    by (metis (no_types, lifting) filter_is_subset image_eqI image_mono list.set_map subset_code(1))
  then have "dev_id (d\<lparr>dev_lastSeenAt := None\<rparr>) \<in> set (map dev_id (map fst (dir_entries (directory_of f))))"
    by (simp only: set_map image_eqI[OF refl])
  then show ?thesis by (simp add: dir_ids_def image_image)
qed

lemma find_directory:
  assumes "read s = Inr f"
  shows "map_sum id (map_option (\<lambda>d. d\<lparr>dev_lastSeenAt := None\<rparr>)) (findDeviceByToken hash token s) =
    Inr (let ms = filter (\<lambda>(_, h, _). h = hash token) (dir_entries (directory_of f))
         in if ms = [] then None else Some (fst (last ms)))"
proof -
  have "filter (\<lambda>(_, h, _). h = hash token) (dir_entries (directory_of f)) = [] \<longleftrightarrow>
      matching_devices (hash token) f = []"
    using matching_entries[of "hash token" f] by (metis map_is_Nil_conv)
  moreover have "last (map fst (filter (\<lambda>(_, h, _). h = hash token) (dir_entries (directory_of f)))) =
      (last (matching_devices (hash token) f))\<lparr>dev_lastSeenAt := None\<rparr>"
    if "matching_devices (hash token) f \<noteq> []"
    using that by (simp flip: matching_entries add: last_map)
  ultimately show ?thesis
    using assms by (auto simp: findDeviceByToken_def Let_def last_map)
qed

text \<open>A directory in which claiming is recorded.\<close>

definition latched :: "directory \<Rightarrow> bool" where
  "latched d =
     (dir_claimedAt d \<noteq> Some [] \<and>
      (dir_claimedAt d = None \<longrightarrow> list_all (\<lambda>(v, _, _). dev_pairedVia v = Some ViaLocal) (dir_entries d)))"

lemma claimed_iff: "latched (directory_of f) \<Longrightarrow> file_claimed f \<longleftrightarrow> dir_claimedAt (directory_of f) \<noteq> None"
  by (fastforce simp: latched_def file_claimed_def directory_of_def or_else_def entry_of_def toDevice_def
      list_ex_iff list_all_iff split: option.splits)

lemma latched_step: "latched d \<Longrightarrow> ok_event hash e \<Longrightarrow> latched (dir_step hash e d)"
proof (cases e)
  case (RegisterEv draws i n via)
  assume "latched d" and "ok_event hash e"
  with RegisterEv show ?thesis
    by (cases via) (auto simp: latched_def ok_draws_def registered_device_def new_device_def Let_def
        split: option.splits)
qed (auto simp: latched_def ok_draws_def map_device_def list_all_iff split: option.splits)

lemma latched_run: "latched d \<Longrightarrow> list_all (ok_event hash) es \<Longrightarrow> latched (fold (dir_step hash) es d)"
  by (induction es arbitrary: d) (auto simp: latched_step)

lemma claimed_step: "dir_claimedAt d \<noteq> None \<Longrightarrow> dir_claimedAt (dir_step hash e d) \<noteq> None"
  by (cases e) (auto simp: map_device_def split: option.splits)

lemma claimed_run: "dir_claimedAt d \<noteq> None \<Longrightarrow> dir_claimedAt (fold (dir_step hash) es d) \<noteq> None"
  by (induction es arbitrary: d) (simp_all add: claimed_step del: not_None_eq)

lemma read_fresh: "read (createClaimStore None b) = Inr emptyPrincipalsFile"
  by (simp add: read_eq load_def createClaimStore_def)

lemma latched_fresh: "latched (directory_of emptyPrincipalsFile)"
  by (simp add: latched_def directory_of_def emptyPrincipalsFile_def)

lemma claim_run_append:
  "claim_run hash (es @ es') s = sum_bind (claim_run hash es s) (claim_run hash es')"
  by (induction es arbitrary: s) (auto simp: sum_bind_def split: sum.splits)

text \<open>The credential ids an event introduces.\<close>

fun event_ids :: "claim_event \<Rightarrow> string list" where
  "event_ids (MintEv draws _) = [md_credentialId draws]"
| "event_ids (RegisterEv draws _ _ _) = [md_credentialId draws]"
| "event_ids _ = []"

lemma map_device_ids:
  "(\<And>v. dev_id (g v) = dev_id v) \<Longrightarrow> dir_ids (map_device i g d) = dir_ids d"
  by (simp add: dir_ids_def map_device_def split_def comp_def)

lemma dir_step_ids: "set (dir_ids (dir_step hash e d)) \<subseteq> set (dir_ids d) \<union> set (event_ids e)"
proof (cases e)
  case (RenameEv i n)
  then show ?thesis using map_device_ids[of "\<lambda>v. v\<lparr>dev_name := js_trim n\<rparr>" i d] by auto
next
  case (SetRoleEv i r)
  then show ?thesis using map_device_ids[of "\<lambda>v. v\<lparr>dev_role := r\<rparr>" i d] by auto
next
  case (RegisterEv draws i n via)
  then show ?thesis
    by (cases "is_registered i via d") (auto simp: dir_ids_def registered_device_def new_device_def Let_def)
next
  case (RevokeEv i)
  then show ?thesis by (auto simp: dir_ids_def image_iff)
qed (auto simp: dir_ids_def minted_device_def new_device_def Let_def)

lemma dir_run_ids:
  "set (dir_ids (fold (dir_step hash) es d)) \<subseteq> set (dir_ids d) \<union> (\<Union>e \<in> set es. set (event_ids e))"
proof (induction es arbitrary: d)
  case (Cons e es)
  show ?case using Cons[of "dir_step hash e d"] dir_step_ids[of hash e d] by auto
qed simp

section \<open>Properties\<close>

text \<open>C2. The store implements the directory: whatever is in \<open>principals.json\<close> to begin with, if
  it can be read then every sequence of operations succeeds, leaves a file that can be read
  again, and has on the devices, their roles, names, digests and the claim exactly the effect the
  directory specification gives; pending and throttled last-seen writes never show in it.\<close>

theorem store_refines_directory:
  assumes "read s = Inr f" and "list_all (ok_event hash) es"
  shows "\<exists>s1 f1. claim_run hash es s = Inr s1 \<and> read s1 = Inr f1 \<and>
    directory_of f1 = fold (dir_step hash) es (directory_of f)"
  using assms by (rule run_refines)

definition sample_hash :: "string \<Rightarrow> string" where
  "sample_hash secret = replicate 64 (if secret = ''s1'' then CHR ''1'' else CHR ''2'')"

definition sample_draws :: mint_draws where
  "sample_draws =
     \<lparr>md_now = ''2026-01-01T00:00:00.000Z'', md_secret = ''s1'', md_principalId = ''prn_1'',
      md_credentialId = ''crd_1''\<rparr>"

definition sample_input :: mint_input where
  "sample_input =
     \<lparr>mi_label = '' Ann '', mi_deviceName = None, mi_role = Some Operator, mi_pairedVia = Some ViaCode,
      mi_permissions = None\<rparr>"

lemma sample_draws_ok: "ok_draws sample_hash sample_draws"
  by (simp add: ok_draws_def sample_draws_def is_sha256_hex_def sample_hash_def is_digit_def list_all_iff)

theorem store_refines_directory_witness:
  "\<exists>s1 f1. claim_run sample_hash [MintEv sample_draws sample_input, RevokeEv ''crd_1'']
       (createClaimStore None None) = Inr s1 \<and> read s1 = Inr f1 \<and>
     directory_of f1 = \<lparr>dir_claimedAt = Some ''2026-01-01T00:00:00.000Z'', dir_entries = []\<rparr>"
  using store_refines_directory[OF read_fresh, of sample_hash
      "[MintEv sample_draws sample_input, RevokeEv ''crd_1'']" None] sample_draws_ok
  by (simp add: directory_of_def emptyPrincipalsFile_def minted_device_def new_device_def Let_def
      sample_draws_def)

text \<open>C9. A claim is latched: in a daemon set up from an empty home, once \<open>isClaimed\<close> answers true
  it answers true after every later sequence of operations, revoking every device included
  (\<open>reset\<close> apart).\<close>

theorem claim_latched:
  assumes "list_all (ok_event hash) es" and "list_all (ok_event hash) es'"
    and "claim_run hash es (createClaimStore None b) = Inr s" and "isClaimed s = Inr True"
  shows "\<exists>s'. claim_run hash es' s = Inr s' \<and> isClaimed s' = Inr True"
proof -
  let ?d = "fold (dir_step hash) es (directory_of emptyPrincipalsFile)"
  from run_refines[OF read_fresh assms(1), of b] assms(3)
  obtain f where f: "read s = Inr f" "directory_of f = ?d" by auto
  have l: "latched (directory_of f)" using latched_run[OF latched_fresh assms(1)] f(2) by simp
  from run_refines[OF f(1) assms(2)] obtain s' f' where
    s': "claim_run hash es' s = Inr s'" "read s' = Inr f'"
      "directory_of f' = fold (dir_step hash) es' (directory_of f)" by auto
  have "latched (directory_of f')" using latched_run[OF l assms(2)] s'(3) by simp
  moreover have "dir_claimedAt (directory_of f) \<noteq> None"
    using assms(4) f(1) claimed_iff[OF l] by (simp add: isClaimed_def)
  then have "dir_claimedAt (directory_of f') \<noteq> None"
    using claimed_run[of "directory_of f" hash es'] s'(3) by simp
  ultimately have "file_claimed f'" using claimed_iff by blast
  with s' show ?thesis by (auto simp: isClaimed_def)
qed

theorem claim_latched_witness:
  "\<exists>s'. sum_bind (claim_step sample_hash (MintEv sample_draws sample_input) (createClaimStore None None))
      (claim_run sample_hash [RevokeEv ''crd_1'']) = Inr s' \<and> isClaimed s' = Inr True"
proof -
  from run_refines[OF read_fresh, of sample_hash "[MintEv sample_draws sample_input]" None]
  obtain s f where s: "claim_run sample_hash [MintEv sample_draws sample_input] (createClaimStore None None) = Inr s"
    and f: "read s = Inr f" "directory_of f =
      dir_step sample_hash (MintEv sample_draws sample_input) (directory_of emptyPrincipalsFile)"
    using sample_draws_ok by auto
  then have "pf_claimedAt f = Some (md_now sample_draws)"
    by (simp add: directory_of_def emptyPrincipalsFile_def)
  then have "isClaimed s = Inr True"
    using f(1) by (simp add: isClaimed_def file_claimed_def or_else_def sample_draws_def)
  from claim_latched[OF _ _ s this, of "[RevokeEv ''crd_1'']"] s show ?thesis
    using sample_draws_ok by (auto simp: sum_bind_Inr)
qed

definition v1_home :: raw_file where
  "v1_home = RawV1 \<lparr>lfile_claimedAt = None, lfile_principals = [
     \<lparr>lprn_id = ''prn_0'', lprn_label = ''Phone'', lprn_createdAt = ''2025'', lprn_permissions = [],
      lprn_credentials = [\<lparr>lcred_id = ''crd_0'', lcred_sha256 = replicate 64 CHR ''a'',
        lcred_createdAt = ''2025'', lcred_label = None\<rparr>]\<rparr>]\<rparr>"

text \<open>The latch has a gap: a version-1 file without \<open>claimedAt\<close> counts as claimed by its
  devices, and revoking the last of them leaves the daemon unclaimed, although nothing but
  \<open>reset-claim\<close> is meant to do that.\<close>

theorem v1_claim_not_latched:
  "isClaimed (createClaimStore (Some v1_home) None) = Inr True \<and>
   sum_bind (claim_step sample_hash (RevokeEv ''crd_0'') (createClaimStore (Some v1_home) None)) isClaimed
     = Inr False"
proof -
  have l: "load (createClaimStore (Some v1_home) None) = Inr (\<lparr>pf_claimedAt = None, pf_principals = [
     \<lparr>prn_id = ''prn_0'', prn_label = ''Phone'', prn_createdAt = ''2025'', prn_permissions = [],
      prn_credentials = [\<lparr>cred_id = ''crd_0'', cred_sha256 = replicate 64 CHR ''a'',
        cred_createdAt = ''2025'', cred_name = ''Phone'', cred_role = Some Owner,
        cred_pairedVia = Some ViaLegacy, cred_lastSeenAt = None, cred_clientId = None\<rparr>]\<rparr>]\<rparr>, True)"
    by (simp add: load_def createClaimStore_def v1_home_def upgradePrincipalsFile_def LegacyFileSchema_def
        LegacyCredentialSchema_def is_sha256_hex_def list_all_iff upgrade_principal_def
        upgrade_credential_def or_else_def)
  then show ?thesis
    by (simp add: isClaimed_def read_def createClaimStore_def file_claimed_def or_else_def
        revokeDevice_def Let_def remove_credential_def write_file_def backupV1BeforeFirstWrite_def)
      (simp add: load_def v1_home_def upgradePrincipalsFile_def PrincipalsFileSchema_def)
qed

lemma mint_lookup:
  assumes "read s = Inr f" and "ok_draws hash draws"
  shows "\<exists>m s1 d. mintPrincipal hash draws input s = Inr (m, s1) \<and>
    findDeviceByToken hash (mint_credential m) s1 = Inr (Some d) \<and>
    d\<lparr>dev_lastSeenAt := None\<rparr> = minted_device draws input \<and> dev_id d = mint_credentialId m \<and>
    mint_role m = dev_role (minted_device draws input) \<and>
    (\<exists>f1. read s1 = Inr f1 \<and> directory_of f1 = dir_step hash (MintEv draws input) (directory_of f))"
proof -
  from mint_refines[OF assms, of input] obtain m s1 f1 where
    m: "mintPrincipal hash draws input s = Inr (m, s1)" "read s1 = Inr f1"
      "directory_of f1 = dir_step hash (MintEv draws input) (directory_of f)"
      "mint_credential m = md_secret draws" "mint_credentialId m = md_credentialId draws"
      "mint_role m = dev_role (minted_device draws input)" by auto
  have "map_sum id (map_option (\<lambda>d. d\<lparr>dev_lastSeenAt := None\<rparr>))
      (findDeviceByToken hash (md_secret draws) s1) = Inr (Some (minted_device draws input))"
    unfolding find_directory[OF m(2)] by (simp add: m(3))
  then obtain d where d: "findDeviceByToken hash (md_secret draws) s1 = Inr (Some d)"
    "d\<lparr>dev_lastSeenAt := None\<rparr> = minted_device draws input"
    by (cases "findDeviceByToken hash (md_secret draws) s1") auto
  have "dev_id d = dev_id (d\<lparr>dev_lastSeenAt := None\<rparr>)" by simp
  also have "\<dots> = md_credentialId draws"
    unfolding d(2) by (simp add: minted_device_def new_device_def Let_def)
  finally show ?thesis using d m by auto
qed

text \<open>Minting then presenting the credential finds the minted device, with the role, name,
  permissions and means of pairing that were asked for.\<close>

theorem mint_find:
  assumes "read s = Inr f" and "ok_draws hash draws"
  shows "\<exists>m s1 d. mintPrincipal hash draws input s = Inr (m, s1) \<and>
    findDeviceByToken hash (mint_credential m) s1 = Inr (Some d) \<and>
    d\<lparr>dev_lastSeenAt := None\<rparr> = minted_device draws input \<and> dev_id d = mint_credentialId m"
  using mint_lookup[OF assms, of input] by blast

theorem mint_find_witness:
  "\<exists>m s1 d. mintPrincipal sample_hash sample_draws sample_input (createClaimStore None None) = Inr (m, s1) \<and>
    findDeviceByToken sample_hash (mint_credential m) s1 = Inr (Some d) \<and>
    d\<lparr>dev_lastSeenAt := None\<rparr> = minted_device sample_draws sample_input \<and> dev_id d = mint_credentialId m"
  by (rule mint_find[OF read_fresh sample_draws_ok])

text \<open>C29. A revoked device stays out: after its revocation, whatever else happens to the store, no
  token is resolved to that device, as long as its id is not drawn again.\<close>

theorem revoked_stays_out:
  assumes "read s = Inr f" and "list_all (ok_event hash) es"
    and "credentialId \<notin> (\<Union>e \<in> set es. set (event_ids e))"
    and "claim_run hash (RevokeEv credentialId # es) s = Inr s1"
    and "findDeviceByToken hash token s1 = Inr (Some d)"
  shows "dev_id d \<noteq> credentialId"
proof -
  let ?d1 = "dir_step hash (RevokeEv credentialId) (directory_of f)"
  from run_refines[OF assms(1), of hash "RevokeEv credentialId # es"] assms(2,4)
  obtain f1 where f1: "read s1 = Inr f1" "directory_of f1 = fold (dir_step hash) es ?d1" by auto
  have "credentialId \<notin> set (dir_ids ?d1)" by (auto simp: dir_ids_def)
  then have "credentialId \<notin> set (dir_ids (directory_of f1))"
    using dir_run_ids[of hash es ?d1] assms(3) f1(2) by auto
  moreover have "d \<in> set (matching_devices (hash token) f1)"
    using f1(1) assms(5) by (auto simp: findDeviceByToken_def Let_def split: if_splits)
  then have "dev_id d \<in> set (dir_ids (directory_of f1))"
    by (rule matching_ids)
  ultimately show ?thesis by auto
qed

theorem revoked_stays_out_witness:
  "\<exists>s1 d. claim_run sample_hash [RevokeEv ''crd_0'', MintEv sample_draws sample_input]
       (createClaimStore (Some v1_home) None) = Inr s1 \<and>
     findDeviceByToken sample_hash ''s1'' s1 = Inr (Some d) \<and> dev_id d \<noteq> ''crd_0''"
proof -
  let ?s = "createClaimStore (Some v1_home) None"
  let ?es = "[MintEv sample_draws sample_input]"
  obtain f where f: "read ?s = Inr f"
    by (simp add: read_def load_def createClaimStore_def v1_home_def upgradePrincipalsFile_def
        LegacyFileSchema_def LegacyCredentialSchema_def is_sha256_hex_def list_all_iff)
  then obtain s1 f1 where run: "claim_run sample_hash (RevokeEv ''crd_0'' # ?es) ?s = Inr s1"
    and f1: "read s1 = Inr f1" "directory_of f1 =
      fold (dir_step sample_hash) (RevokeEv ''crd_0'' # ?es) (directory_of f)"
    using run_refines[OF f, of sample_hash "RevokeEv ''crd_0'' # ?es"] sample_draws_ok
    by (auto simp del: claim_run.simps)
  have "map_sum id (map_option (\<lambda>d. d\<lparr>dev_lastSeenAt := None\<rparr>)) (findDeviceByToken sample_hash ''s1'' s1) =
      Inr (Some (minted_device sample_draws sample_input))"
    unfolding find_directory[OF f1(1)] by (simp add: f1(2) sample_draws_def)
  then obtain d where d: "findDeviceByToken sample_hash ''s1'' s1 = Inr (Some d)"
    by (cases "findDeviceByToken sample_hash ''s1'' s1") auto
  have "dev_id d \<noteq> ''crd_0''"
    by (rule revoked_stays_out[OF f _ _ run d]) (simp_all add: sample_draws_ok, simp add: sample_draws_def)
  with run d show ?thesis by blast
qed

definition v1_kept :: "raw_file \<Rightarrow> claim_store \<Rightarrow> bool" where
  "v1_kept raw s = ((cs_disk s = Some raw \<and> cs_backup s = None) \<or> cs_backup s = Some raw)"

lemma write_keeps_v1:
  assumes "v1_kept (RawV1 l) s" and "write_file f s = Inr s1"
  shows "v1_kept (RawV1 l) s1"
proof (cases "cs_backup s")
  case None
  then have "cs_disk s = Some (RawV1 l)" using assms(1) by (simp add: v1_kept_def)
  with None assms(2) show ?thesis
    by (cases "LegacyFileSchema l")
      (auto simp: v1_kept_def write_file_def backupV1BeforeFirstWrite_def load_def upgradePrincipalsFile_def)
next
  case (Some raw)
  with assms show ?thesis
    by (auto simp: v1_kept_def write_file_def backupV1BeforeFirstWrite_def)
qed

text \<open>An operation leaves both files as they are or ends in one write.\<close>

definition same_files :: "claim_store \<Rightarrow> claim_store \<Rightarrow> bool" where
  "same_files s t = (cs_disk t = cs_disk s \<and> cs_backup t = cs_backup s)"

lemma same_files_simps [simp]:
  "same_files s s" "same_files s (t\<lparr>pendingLastSeen := m\<rparr>) = same_files s t"
  "same_files s (t\<lparr>lastPersistedAt := n\<rparr>) = same_files s t"
  by (simp_all add: same_files_def)

definition one_write :: "claim_store \<Rightarrow> claim_store \<Rightarrow> bool" where
  "one_write s s' =
     (same_files s s' \<or> (\<exists>f t t'. same_files s t \<and> write_file f t = Inr t' \<and> same_files t' s'))"

lemma mutate_one_write:
  "mutateCredential i u t = Inr (d, s') \<Longrightarrow> same_files s t \<Longrightarrow> one_write s s'"
  by (fastforce simp: mutateCredential_def one_write_def Let_def sum_bind_Inr split: if_splits)

lemma one_write_intros:
  "one_write s s" "one_write s (s\<lparr>pendingLastSeen := m\<rparr>)"
  "write_file f s = Inr s1 \<Longrightarrow> one_write s s1"
  "write_file f s = Inr s1 \<Longrightarrow> one_write s (s1\<lparr>lastPersistedAt := n\<rparr>)"
  by (auto simp: one_write_def intro: same_files_simps(1))

lemma step_one_write:
  assumes "claim_step hash e s = Inr s'"
  shows "one_write s s'"
proof (cases e)
  case (RegisterEv draws i n via)
  with assms show ?thesis
    by (auto simp: registerClientDevice_def Let_def sum_bind_Inr map_sum_Inr neq_Nil_conv
        intro: one_write_intros split: list.split_asm)
next
  case (TouchEv i ms t)
  with assms show ?thesis
    by (auto simp: touchLastSeen_def Let_def sum_bind_Inr intro: one_write_intros mutate_one_write
        split: if_splits)
qed (use assms in \<open>auto simp: mintPrincipal_def renameDevice_def revokeDevice_def setCredentialRole_def
      migrate_def Let_def sum_bind_Inr map_sum_Inr intro: one_write_intros mutate_one_write
      split: if_splits\<close>)

lemma step_keeps_v1:
  "v1_kept (RawV1 l) s \<Longrightarrow> claim_step hash e s = Inr s' \<Longrightarrow> v1_kept (RawV1 l) s'"
  using step_one_write[of hash e s s'] write_keeps_v1
  by (fastforce simp: one_write_def same_files_def v1_kept_def)

text \<open>The version-1 backup is taken verbatim before the first rewrite and never overwritten: of
  a home with a version-1 file and no backup, every sequence of operations leaves either the file
  itself in place or its exact copy in the backup.\<close>

theorem v1_backup_verbatim:
  assumes "claim_run hash es (createClaimStore (Some (RawV1 l)) None) = Inr s"
  shows "(cs_disk s = Some (RawV1 l) \<and> cs_backup s = None) \<or> cs_backup s = Some (RawV1 l)"
proof -
  have "v1_kept (RawV1 l) t \<Longrightarrow> claim_run hash es t = Inr s \<Longrightarrow> v1_kept (RawV1 l) s" for t
    by (induction es arbitrary: t) (auto simp: sum_bind_Inr dest: step_keeps_v1)
  from this[OF _ assms] show ?thesis
    by (simp add: v1_kept_def createClaimStore_def)
qed

theorem v1_backup_verbatim_witness:
  "\<exists>s l. v1_home = RawV1 l \<and>
     claim_run sample_hash [MigrateEv] (createClaimStore (Some v1_home) None) = Inr s \<and>
     ((cs_disk s = Some (RawV1 l) \<and> cs_backup s = None) \<or> cs_backup s = Some (RawV1 l))"
proof -
  obtain l where l: "v1_home = RawV1 l" by (simp add: v1_home_def)
  have "LegacyFileSchema l"
    using l by (auto simp: v1_home_def LegacyFileSchema_def LegacyCredentialSchema_def is_sha256_hex_def
        list_all_iff)
  then obtain f where "read (createClaimStore (Some v1_home) None) = Inr f"
    by (auto simp: read_def load_def createClaimStore_def l upgradePrincipalsFile_def)
  then obtain s where "claim_run sample_hash [MigrateEv] (createClaimStore (Some v1_home) None) = Inr s"
    using run_refines[of _ f sample_hash "[MigrateEv]"] by (auto simp del: claim_run.simps)
  with v1_backup_verbatim[of sample_hash "[MigrateEv]" l s] l show ?thesis
    by (auto simp del: claim_run.simps)
qed

definition cache_coherent :: "file_cache option \<Rightarrow> stat_file option \<Rightarrow> bool" where
  "cache_coherent cache disk =
     (case (cache, disk) of
        (Some c, Some f) \<Rightarrow>
          fc_mtimeMs c = st_mtimeMs f \<and> fc_size c = st_size f \<longrightarrow>
            upgradePrincipalsFile (st_content f) = Inr (fc_value c, fc_upgraded c)
      | _ \<Rightarrow> True)"

text \<open>The in-memory cache of the parsed file is invisible: while the cache was filled from the
  file its size and modification time name, loading through it returns what parsing the file
  returns, and fills the cache coherently again.\<close>

theorem load_cache_invisible:
  assumes "cache_coherent cache disk"
    and "cs_disk s = map_option st_content disk"
  shows "map_sum id fst (load_cached cache disk) = load s \<and>
    (\<forall>r cache'. load_cached cache disk = Inr (r, cache') \<longrightarrow> cache_coherent cache' disk)"
proof (cases disk)
  case None
  with assms show ?thesis by (auto simp: load_cached_def load_def cache_coherent_def)
next
  case (Some f)
  with assms show ?thesis
    by (cases "upgradePrincipalsFile (st_content f)"; cases cache)
      (auto simp: load_cached_def load_def cache_coherent_def)
qed

theorem load_cache_invisible_witness:
  "map_sum id fst (load_cached None (Some \<lparr>st_mtimeMs = 5, st_size = 9, st_content = v1_home\<rparr>)) =
     load (createClaimStore (Some v1_home) None)"
  using load_cache_invisible[of None "Some \<lparr>st_mtimeMs = 5, st_size = 9, st_content = v1_home\<rparr>"
      "createClaimStore (Some v1_home) None"]
  by (simp add: cache_coherent_def createClaimStore_def)

end
