(* ===== verification/BearerAuth.thy ===== *)
theory BearerAuth
  imports RateLimit AccessPolicy ClaimStore
begin

text \<open>
  Who is talking to the daemon (\<open>auth.ts\<close>, \<open>local-token.ts\<close>): the password check with its memo of
  verified passwords, the bearer of an HTTP request or WebSocket, the throttle key of a client, and
  the decision that admits a paired device, the holder of the local token or of the daemon
  password. The state is the configuration object with the stores behind it; an undefined
  configuration is the one with every part absent. Digests and key derivation are the fields of
  \<open>crypto\<close>; a derivation that throws is \<open>None\<close>. Each reading of the clock in an attempt is a field
  of \<open>auth_clock\<close>. An operation that throws returns the error alone.
\<close>

record crypto =
  cr_sha256 :: "string \<Rightarrow> string"
  cr_bcrypt :: "string \<Rightarrow> string \<Rightarrow> bool"
  cr_scrypt :: "string \<Rightarrow> nat \<Rightarrow> nat \<Rightarrow> nat \<Rightarrow> string \<Rightarrow> string \<Rightarrow> bool option"

record auth_clock =
  ac_seenMs :: time_ms
  ac_seenIso :: string
  ac_block :: time_ms
  ac_record :: time_ms

record daemon_auth =
  da_password :: "string option"
  da_access :: "(access_settings \<times> claim_store) option"
  da_limiter :: "limiter option"
  da_localToken :: "string option option"
  da_verified :: "(string, unit) js_map"

datatype auth_error = StoreFailed claim_error | DerivationFailed

section \<open>Passwords\<close>

definition isLegacyPasswordHash :: "string \<Rightarrow> bool" where
  "isLegacyPasswordHash hash = startsWith hash ''$2''"

definition is_b64url_char :: "char \<Rightarrow> bool" where
  "is_b64url_char c =
     (let n = char_code c in
      (65 \<le> n \<and> n \<le> 90) \<or> (97 \<le> n \<and> n \<le> 122) \<or> (48 \<le> n \<and> n \<le> 57) \<or>
      c = CHR ''_'' \<or> c = CHR ''-'')"

definition parseScrypt :: "string \<Rightarrow> (nat \<times> nat \<times> nat \<times> string \<times> string) option" where
  "parseScrypt hash =
     (case js_split CHR ''$'' hash of
        [tag, n, r, p, salt, expected] \<Rightarrow>
          if tag = ''scrypt'' \<and> list_all (\<lambda>w. w \<noteq> [] \<and> list_all is_digit w) [n, r, p] \<and>
             list_all (\<lambda>w. w \<noteq> [] \<and> list_all is_b64url_char w) [salt, expected]
          then Some (parse_decimal n, parse_decimal r, parse_decimal p, salt, expected) else None
      | _ \<Rightarrow> None)"

definition VERIFIED_CACHE_LIMIT :: nat where
  "VERIFIED_CACHE_LIMIT = 64"

definition verifiedKey :: "crypto \<Rightarrow> string \<Rightarrow> string \<Rightarrow> string" where
  "verifiedKey cr hash token = hash @ [CHR 0x00] @ cr_sha256 cr token"

definition rememberVerified :: "string \<Rightarrow> (string, unit) js_map \<Rightarrow> (string, unit) js_map" where
  "rememberVerified key verified =
     (let m = AList.update key () verified in drop (length m - VERIFIED_CACHE_LIMIT) m)"

text \<open>The derivation itself: \<open>None\<close> when it throws.\<close>

definition password_matches :: "crypto \<Rightarrow> string \<Rightarrow> string \<Rightarrow> bool option" where
  "password_matches cr token hash =
     (if isLegacyPasswordHash hash then Some (cr_bcrypt cr token hash)
      else
        (case parseScrypt hash of
           None \<Rightarrow> Some False
         | Some (n, r, p, salt, expected) \<Rightarrow> cr_scrypt cr token n r p salt expected))"

definition verifyDaemonPassword ::
  "crypto \<Rightarrow> string \<Rightarrow> string \<Rightarrow> (string, unit) js_map \<Rightarrow> auth_error + (bool \<times> (string, unit) js_map)" where
  "verifyDaemonPassword cr token hash verified =
     (let key = verifiedKey cr hash token in
      if map_has verified key then Inr (True, verified)
      else
        (case password_matches cr token hash of
           None \<Rightarrow> Inl DerivationFailed
         | Some ok \<Rightarrow> Inr (ok, if ok then rememberVerified key verified else verified)))"

section \<open>Bearer tokens\<close>

definition matchesCredential :: "crypto \<Rightarrow> string \<Rightarrow> string list \<Rightarrow> bool" where
  "matchesCredential cr token hashes = list_ex (\<lambda>h. h = cr_sha256 cr token) hashes"

definition isBearerTokenValid ::
  "crypto \<Rightarrow> string option \<Rightarrow> string list option \<Rightarrow> string option \<Rightarrow> (string, unit) js_map \<Rightarrow>
     auth_error + (bool \<times> (string, unit) js_map)" where
  "isBearerTokenValid cr password hashesInput token verified =
     (let hashes = (case hashesInput of None \<Rightarrow> [] | Some hs \<Rightarrow> hs) in
      if or_else password [] = [] \<and> length hashes = 0 then Inr (True, verified)
      else
        (case token of
           None \<Rightarrow> Inr (False, verified)
         | Some t \<Rightarrow>
             if length hashes > 0 \<and> matchesCredential cr t hashes then Inr (True, verified)
             else if or_else password [] \<noteq> [] then verifyDaemonPassword cr t (or_else password []) verified
             else Inr (False, verified)))"

text \<open>\<open>s.split(/\s+/)\<close> of a trimmed string: its words, or one empty string.\<close>

function ws_words :: "string \<Rightarrow> string \<Rightarrow> string list" where
  "ws_words w [] = [w]"
| "ws_words w (c # s) =
     (if is_space c then w # ws_words [] (dropWhile is_space s) else ws_words (w @ [c]) s)"
  by pat_completeness auto
termination
  by (relation "measure (\<lambda>(_, s). length s)") (auto simp: length_dropWhile_le less_Suc_eq_le)

definition extractHttpBearerToken :: "string option \<Rightarrow> string option" where
  "extractHttpBearerToken v =
     (case v of None \<Rightarrow> None
      | Some s \<Rightarrow>
          if s = [] then None
          else
            (case ws_words [] (js_trim s) of
               [scheme, token] \<Rightarrow> if scheme = ''Bearer'' then Some token else None
             | _ \<Rightarrow> None))"

definition is_bearer_segments :: "string list \<Rightarrow> bool" where
  "is_bearer_segments segments =
     (length segments \<ge> 3 \<and> segments ! 0 = ''frogg'' \<and> segments ! 1 = ''bearer'')"

definition extractWsBearerProtocol :: "string option \<Rightarrow> string option" where
  "extractWsBearerProtocol v =
     (case v of None \<Rightarrow> None
      | Some s \<Rightarrow>
          if s = [] then None
          else find (\<lambda>trimmed. is_bearer_segments (js_split CHR ''.'' trimmed))
                 (map js_trim (js_split CHR '','' s)))"

definition extractWsBearerToken :: "string option \<Rightarrow> string option" where
  "extractWsBearerToken protocol =
     (case protocol of None \<Rightarrow> None
      | Some s \<Rightarrow>
          if s = [] then None
          else
            let segments = js_split CHR ''.'' s in
            if \<not> is_bearer_segments segments then None
            else Some (js_join ''.'' (drop 2 segments)))"

section \<open>Who is asking\<close>

datatype bearer_principal = DevicePrincipal device_record | PasswordPrincipal | LocalTokenPrincipal

datatype reject_reason = Unclaimed | MissingToken | InvalidToken | RateLimited

datatype bearer_decision = Admitted bearer_principal | Rejected reject_reason

definition requestNeedsBearer :: "daemon_auth \<Rightarrow> request_like \<Rightarrow> bool" where
  "requestNeedsBearer auth req = True"

definition strip_zeros :: "string \<Rightarrow> string" where
  "strip_zeros g =
     (let r = dropWhile (\<lambda>c. c = CHR ''0'') g in if r = [] then ''0'' else r)"

definition expandIpv6 :: "string \<Rightarrow> string list" where
  "expandIpv6 address =
     (let groups =
        (case cut_at_double_colon address of
           None \<Rightarrow> js_split CHR '':'' address
         | Some (head, rest) \<Rightarrow>
             let tail = (case cut_at_double_colon rest of None \<Rightarrow> rest | Some (t, _) \<Rightarrow> t);
                 left = colon_groups head;
                 right = colon_groups tail;
                 missing = 8 - length left - length right
             in left @ replicate missing ''0'' @ right)
      in map strip_zeros groups)"

definition throttleKeyForAddress :: "string option \<Rightarrow> string" where
  "throttleKeyForAddress address =
     (case address of None \<Rightarrow> ''local''
      | Some a \<Rightarrow>
          if a = [] then ''local''
          else
            let normalized = toLowerCase (js_trim a);
                ipv4 = (if startsWith normalized mapped_prefix
                        then drop (length mapped_prefix) normalized else normalized)
            in if isIPv4 ipv4 then ipv4
               else if \<not> isIPv6 normalized then normalized
               else js_join '':'' (take 4 (expandIpv6 normalized)) @ ''::/64'')"

definition clientKey :: "request_like \<Rightarrow> daemon_auth \<Rightarrow> string" where
  "clientKey req auth =
     throttleKeyForAddress
       (case da_access auth of
          None \<Rightarrow> remoteAddress req
        | Some (settings, _) \<Rightarrow>
            (case clientAddress settings req of None \<Rightarrow> remoteAddress req | Some a \<Rightarrow> Some a))"

definition limiter_blocks :: "string \<Rightarrow> time_ms \<Rightarrow> daemon_auth \<Rightarrow> bool" where
  "limiter_blocks key t auth = (case da_limiter auth of None \<Rightarrow> False | Some l \<Rightarrow> isBlocked key t l)"

definition note_failure :: "string \<Rightarrow> time_ms \<Rightarrow> daemon_auth \<Rightarrow> daemon_auth" where
  "note_failure key t auth = auth\<lparr>da_limiter := map_option (recordFailure key t) (da_limiter auth)\<rparr>"

definition note_success :: "string \<Rightarrow> time_ms \<Rightarrow> daemon_auth \<Rightarrow> daemon_auth" where
  "note_success key t auth = auth\<lparr>da_limiter := map_option (recordSuccess key t) (da_limiter auth)\<rparr>"

definition store_result :: "claim_error + 'a \<Rightarrow> auth_error + 'a" where
  "store_result r = map_sum StoreFailed id r"

definition resolveDevice ::
  "crypto \<Rightarrow> auth_clock \<Rightarrow> string \<Rightarrow> daemon_auth \<Rightarrow> auth_error + (device_record option \<times> daemon_auth)" where
  "resolveDevice cr clock token auth =
     (case da_access auth of
        None \<Rightarrow> Inr (None, auth)
      | Some (settings, store) \<Rightarrow>
          sum_bind (store_result (findDeviceByToken (cr_sha256 cr) token store)) (\<lambda>found.
            case found of
              None \<Rightarrow> Inr (None, auth)
            | Some device \<Rightarrow>
                sum_bind (store_result
                    (touchLastSeen (dev_id device) (ac_seenMs clock) (ac_seenIso clock) store)) (\<lambda>store1.
                  Inr (Some device, auth\<lparr>da_access := Some (settings, store1)\<rparr>))))"

text \<open>\<open>local-token.ts\<close>: the file holds the token and a newline.\<close>

definition local_token_read :: "string option \<Rightarrow> string option" where
  "local_token_read file =
     (case file of None \<Rightarrow> None
      | Some content \<Rightarrow> let v = js_trim content in if length v > 0 then Some v else None)"

definition local_token_ensure :: "string \<Rightarrow> string option \<Rightarrow> string \<times> string option" where
  "local_token_ensure random file =
     (case local_token_read file of
        Some existing \<Rightarrow> (existing, file)
      | None \<Rightarrow> (''flt1.'' @ random, Some (''flt1.'' @ random @ [CHR 0x0A])))"

definition local_token_matches :: "string option \<Rightarrow> string option \<Rightarrow> bool" where
  "local_token_matches token file =
     (if or_else token [] = [] then False
      else case local_token_read file of None \<Rightarrow> False | Some expected \<Rightarrow> expected = or_else token [])"

definition matchesLocalToken :: "request_like \<Rightarrow> string \<Rightarrow> daemon_auth \<Rightarrow> bool" where
  "matchesLocalToken req token auth =
     (case da_localToken auth of
        None \<Rightarrow> False
      | Some file \<Rightarrow>
          if \<not> (case da_access auth of None \<Rightarrow> True | Some (settings, _) \<Rightarrow> isLoopbackClient settings req)
          then False
          else local_token_matches (Some token) file)"

definition resolveKnownCredential ::
  "crypto \<Rightarrow> auth_clock \<Rightarrow> request_like \<Rightarrow> string \<Rightarrow> daemon_auth \<Rightarrow>
     auth_error + (bearer_principal option \<times> daemon_auth)" where
  "resolveKnownCredential cr clock req token auth =
     sum_bind (resolveDevice cr clock token auth) (\<lambda>(device, auth1).
       case device of
         Some d \<Rightarrow> Inr (Some (DevicePrincipal d), auth1)
       | None \<Rightarrow>
           if matchesLocalToken req token auth1 then Inr (Some LocalTokenPrincipal, auth1)
           else Inr (None, auth1))"

definition has_secrets :: "daemon_auth \<Rightarrow> auth_error + bool" where
  "has_secrets auth =
     (if or_else (da_password auth) [] \<noteq> [] then Inr True
      else case da_access auth of None \<Rightarrow> Inr False | Some (_, store) \<Rightarrow> store_result (isClaimed store))"

definition missingBearerReason :: "string option \<Rightarrow> daemon_auth \<Rightarrow> auth_error + reject_reason option" where
  "missingBearerReason token auth =
     sum_bind (has_secrets auth) (\<lambda>hasSecrets.
       if \<not> hasSecrets then Inr (Some Unclaimed)
       else if token = None then Inr (Some MissingToken)
       else Inr None)"

datatype pre_decision = Decided bearer_decision | CheckPassword string string string

definition preDecide ::
  "crypto \<Rightarrow> auth_clock \<Rightarrow> request_like \<Rightarrow> string option \<Rightarrow> daemon_auth \<Rightarrow>
     auth_error + (pre_decision \<times> daemon_auth)" where
  "preDecide cr clock req token auth =
     sum_bind (case token of None \<Rightarrow> Inr (None, auth)
               | Some t \<Rightarrow> resolveKnownCredential cr clock req t auth) (\<lambda>(known, auth1).
       case known of
         Some who \<Rightarrow> Inr (Decided (Admitted who), auth1)
       | None \<Rightarrow>
           let key = clientKey req auth1 in
           if limiter_blocks key (ac_block clock) auth1 then Inr (Decided (Rejected RateLimited), auth1)
           else
             sum_bind (missingBearerReason token auth1) (\<lambda>missing.
               case missing of
                 Some reason \<Rightarrow> Inr (Decided (Rejected reason), auth1)
               | None \<Rightarrow>
                   (case token of
                      Some t \<Rightarrow>
                        if or_else (da_password auth1) [] = []
                        then Inr (Decided (Rejected InvalidToken), note_failure key (ac_record clock) auth1)
                        else Inr (CheckPassword key t (or_else (da_password auth1) []), auth1)
                    | None \<Rightarrow>
                        Inr (Decided (Rejected InvalidToken), note_failure key (ac_record clock) auth1))))"

definition finishPassword :: "auth_clock \<Rightarrow> string \<Rightarrow> bool \<Rightarrow> daemon_auth \<Rightarrow> bearer_decision \<times> daemon_auth" where
  "finishPassword clock key ok auth =
     (if ok then (Admitted PasswordPrincipal, note_success key (ac_record clock) auth)
      else (Rejected InvalidToken, note_failure key (ac_record clock) auth))"

definition authorizeBearer ::
  "crypto \<Rightarrow> auth_clock \<Rightarrow> request_like \<Rightarrow> string option \<Rightarrow> daemon_auth \<Rightarrow>
     auth_error + (bearer_decision \<times> daemon_auth)" where
  "authorizeBearer cr clock req token auth =
     sum_bind (preDecide cr clock req token auth) (\<lambda>(pre, auth1).
       case pre of
         Decided decision \<Rightarrow> Inr (decision, auth1)
       | CheckPassword key t password \<Rightarrow>
           sum_bind (verifyDaemonPassword cr t password (da_verified auth1)) (\<lambda>(ok, verified).
             Inr (finishPassword clock key ok (auth1\<lparr>da_verified := verified\<rparr>))))"

definition authorizeTunnelledCredential ::
  "crypto \<Rightarrow> auth_clock \<Rightarrow> string option \<Rightarrow> string \<Rightarrow> daemon_auth \<Rightarrow>
     auth_error + (bearer_decision \<times> daemon_auth)" where
  "authorizeTunnelledCredential cr clock token clientKeyOverride auth =
     sum_bind (case token of None \<Rightarrow> Inr (None, auth)
               | Some t \<Rightarrow> resolveDevice cr clock t auth) (\<lambda>(device, auth1).
       case device of
         Some d \<Rightarrow> Inr (Admitted (DevicePrincipal d), auth1)
       | None \<Rightarrow>
           if limiter_blocks clientKeyOverride (ac_block clock) auth1
           then Inr (Rejected RateLimited, auth1)
           else
             sum_bind (has_secrets auth1) (\<lambda>hasSecrets.
               if \<not> hasSecrets then Inr (Rejected Unclaimed, auth1)
               else
                 (case token of
                    None \<Rightarrow> Inr (Rejected MissingToken, auth1)
                  | Some t \<Rightarrow>
                      if or_else (da_password auth1) [] = []
                      then Inr (Rejected InvalidToken,
                             note_failure clientKeyOverride (ac_record clock) auth1)
                      else
                        sum_bind (verifyDaemonPassword cr t (or_else (da_password auth1) [])
                            (da_verified auth1)) (\<lambda>(ok, verified).
                          Inr (finishPassword clock clientKeyOverride ok
                            (auth1\<lparr>da_verified := verified\<rparr>))))))"

definition hasRealCredential ::
  "crypto \<Rightarrow> auth_clock \<Rightarrow> request_like \<Rightarrow> string option \<Rightarrow> device_role \<Rightarrow> daemon_auth \<Rightarrow>
     auth_error + (bool \<times> daemon_auth)" where
  "hasRealCredential cr clock req token minimumRole auth =
     (case token of
        None \<Rightarrow> Inr (False, auth)
      | Some t \<Rightarrow>
          sum_bind (resolveDevice cr clock t auth) (\<lambda>(device, auth1).
            case device of
              Some d \<Rightarrow> Inr (roleSatisfies (dev_role d) minimumRole, auth1)
            | None \<Rightarrow>
                if matchesLocalToken req t auth1 then Inr (True, auth1)
                else
                  let key = clientKey req auth1 in
                  if or_else (da_password auth1) [] = [] \<or> limiter_blocks key (ac_block clock) auth1
                  then Inr (False, auth1)
                  else
                    sum_bind (verifyDaemonPassword cr t (or_else (da_password auth1) [])
                        (da_verified auth1)) (\<lambda>(ok, verified).
                      let auth2 = auth1\<lparr>da_verified := verified\<rparr>
                      in Inr (ok, if ok then note_success key (ac_record clock) auth2
                                  else note_failure key (ac_record clock) auth2))))"

section \<open>HTTP routes\<close>

definition HTTP_ROUTE_ROLE :: "string \<rightharpoonup> device_role" where
  "HTTP_ROUTE_ROLE =
     map_of [(''/api/status'', Viewer), (''/api/files/download'', Viewer), (''/api/setup/offer'', Owner)]"

definition DEFAULT_HTTP_ROUTE_ROLE :: device_role where
  "DEFAULT_HTTP_ROUTE_ROLE = Operator"

definition requiredRoleForHttpRoute :: "string \<Rightarrow> device_role" where
  "requiredRoleForHttpRoute path =
     (case HTTP_ROUTE_ROLE path of None \<Rightarrow> DEFAULT_HTTP_ROUTE_ROLE | Some r \<Rightarrow> r)"

definition roleForPrincipal :: "bearer_principal \<Rightarrow> device_role" where
  "roleForPrincipal who =
     (case who of DevicePrincipal d \<Rightarrow> dev_role d | _ \<Rightarrow> Owner)"

definition SELF_AUTHENTICATING_ROUTES :: "string list" where
  "SELF_AUTHENTICATING_ROUTES = [''/api/files/download'', ''/mcp/agents'', ''/api/setup/offer'']"

definition PUBLIC_ROUTES :: "string list" where
  "PUBLIC_ROUTES =
     [''/api/health'', ''/api/identity'', ''/api/identity/proof'', ''/api/setup/status'',
      ''/api/setup/claim'', ''/api/setup/request'', ''/api/auth/login'']"

definition isBearerFreeRoute :: "string \<Rightarrow> bool" where
  "isBearerFreeRoute path =
     (if startsWith path ''/api/setup/request/'' then True
      else path \<in> set PUBLIC_ROUTES \<or> path \<in> set SELF_AUTHENTICATING_ROUTES)"

definition shouldBypassBearerAuth :: "string \<Rightarrow> string \<Rightarrow> bool" where
  "shouldBypassBearerAuth method path =
     (if method = ''OPTIONS'' then True else isBearerFreeRoute path)"

text \<open>What the middleware does with a request: call \<open>next\<close>, pass an error on, or answer with a
  status (and \<open>setup: unclaimed\<close>), after reporting the rejection.\<close>

datatype http_outcome = Next | NextError auth_error | Respond nat bool

definition requireBearer ::
  "crypto \<Rightarrow> auth_clock \<Rightarrow> string \<Rightarrow> string \<Rightarrow> string option \<Rightarrow> request_like \<Rightarrow> daemon_auth \<Rightarrow>
     http_outcome \<times> daemon_auth" where
  "requireBearer cr clock method path authorization req auth =
     (if shouldBypassBearerAuth method path then (Next, auth)
      else
        let token = extractHttpBearerToken authorization in
        case authorizeBearer cr clock req token auth of
          Inl e \<Rightarrow> (NextError e, auth)
        | Inr (decision, auth1) \<Rightarrow>
            (case decision of
               Rejected reason \<Rightarrow>
                 (if reason = RateLimited then Respond 429 False
                  else Respond 401 (reason = Unclaimed), auth1)
             | Admitted who \<Rightarrow>
                 if \<not> roleSatisfies (roleForPrincipal who) (requiredRoleForHttpRoute path)
                 then (Respond 403 False, auth1)
                 else (Next, auth1)))"

definition serviceProxyAuthorizer ::
  "crypto \<Rightarrow> auth_clock \<Rightarrow> string option \<Rightarrow> request_like \<Rightarrow> daemon_auth \<Rightarrow> auth_error + (bool \<times> daemon_auth)" where
  "serviceProxyAuthorizer cr clock authorization req auth =
     (if (case da_access auth of None \<Rightarrow> True | Some (settings, _) \<Rightarrow> isLoopbackClient settings req)
      then Inr (True, auth)
      else hasRealCredential cr clock req (extractHttpBearerToken authorization) Viewer auth)"

section \<open>The agent MCP endpoint\<close>

text \<open>Base64url and HMAC-SHA256 are parameters.\<close>

record mac_codec =
  b64url_encode :: "string \<Rightarrow> string"
  b64url_decode :: "string \<Rightarrow> string"
  hmac_b64url :: "string \<Rightarrow> string \<Rightarrow> string"

definition AGENT_MCP_TOKEN_PREFIX :: string where
  "AGENT_MCP_TOKEN_PREFIX = ''fam1''"

definition deriveAgentMcpToken :: "mac_codec \<Rightarrow> string \<Rightarrow> string \<Rightarrow> string" where
  "deriveAgentMcpToken mc secret agentId =
     AGENT_MCP_TOKEN_PREFIX @ ''.'' @ b64url_encode mc agentId @ ''.'' @ hmac_b64url mc secret agentId"

definition verifyAgentMcpToken :: "mac_codec \<Rightarrow> string \<Rightarrow> string \<Rightarrow> string option" where
  "verifyAgentMcpToken mc secret token =
     (case js_split CHR ''.'' token of
        [pre, ident, mac] \<Rightarrow>
          if pre \<noteq> AGENT_MCP_TOKEN_PREFIX \<or> ident = [] \<or> mac = [] then None
          else
            let agentId = b64url_decode mc ident;
                expected = js_split CHR ''.'' (deriveAgentMcpToken mc secret agentId) ! 2
            in if expected = mac then Some agentId else None
      | _ \<Rightarrow> None)"

datatype agent_mcp_authorization = McpOk "string option" | McpDenied nat

definition MCP_MINIMUM_ROLE :: device_role where
  "MCP_MINIMUM_ROLE = defaultRoleForTransport Mcp"

definition mcp_capability :: "mac_codec \<Rightarrow> string option \<Rightarrow> string \<Rightarrow> agent_mcp_authorization option" where
  "mcp_capability mc capabilityToken token =
     (if or_else capabilityToken [] = [] then None
      else
        let secret = or_else capabilityToken [] in
        case verifyAgentMcpToken mc secret token of
          Some (c # agentId) \<Rightarrow> Some (McpOk (Some (c # agentId)))
        | _ \<Rightarrow> if token = secret then Some (McpOk None) else None)"

definition authorizeAgentMcpRequest ::
  "crypto \<Rightarrow> mac_codec \<Rightarrow> auth_clock \<Rightarrow> request_like \<Rightarrow> string option \<Rightarrow> string option \<Rightarrow> daemon_auth \<Rightarrow>
     auth_error + (agent_mcp_authorization \<times> daemon_auth)" where
  "authorizeAgentMcpRequest cr mc clock req capabilityToken authorizationHeader auth =
     (case extractHttpBearerToken authorizationHeader of
        None \<Rightarrow> Inr (McpDenied 401, auth)
      | Some token \<Rightarrow>
          (case mcp_capability mc capabilityToken token of
             Some r \<Rightarrow> Inr (r, auth)
           | None \<Rightarrow>
               sum_bind (resolveDevice cr clock token auth) (\<lambda>(device, auth1).
                 case device of
                   Some d \<Rightarrow>
                     Inr (if roleSatisfies (dev_role d) MCP_MINIMUM_ROLE then McpOk None else McpDenied 403,
                          auth1)
                 | None \<Rightarrow>
                     let key = clientKey req auth1 in
                     if limiter_blocks key (ac_block clock) auth1 then Inr (McpDenied 429, auth1)
                     else
                       sum_bind (if or_else (da_password auth1) [] = [] then Inr (False, da_verified auth1)
                           else verifyDaemonPassword cr token (or_else (da_password auth1) [])
                             (da_verified auth1)) (\<lambda>(ok, verified).
                         let auth2 = auth1\<lparr>da_verified := verified\<rparr>
                         in if ok then Inr (McpOk None, note_success key (ac_record clock) auth2)
                            else Inr (McpDenied 401, note_failure key (ac_record clock) auth2)))))"

definition isAgentMcpRequestAuthorized ::
  "crypto \<Rightarrow> mac_codec \<Rightarrow> auth_clock \<Rightarrow> string option \<Rightarrow> string option \<Rightarrow> string option \<Rightarrow>
     (string, unit) js_map \<Rightarrow> auth_error + bool" where
  "isAgentMcpRequestAuthorized cr mc clock password capabilityToken authorizationHeader verified =
     sum_bind (authorizeAgentMcpRequest cr mc clock
         \<lparr>remoteAddress = None, x_forwarded_for = NoForwarded\<rparr> capabilityToken authorizationHeader
         \<lparr>da_password = password, da_access = None, da_limiter = None, da_localToken = None,
          da_verified = verified\<rparr>)
       (\<lambda>(r, _). Inr (case r of McpOk _ \<Rightarrow> True | McpDenied _ \<Rightarrow> False))"

section \<open>Lemmas\<close>

lemma note_failure_simps [simp]:
  "da_password (note_failure k t a) = da_password a" "da_access (note_failure k t a) = da_access a"
  "da_localToken (note_failure k t a) = da_localToken a" "da_verified (note_failure k t a) = da_verified a"
  "da_limiter (note_failure k t a) = map_option (recordFailure k t) (da_limiter a)"
  by (simp_all add: note_failure_def)

lemma resolveDevice_None:
  "resolveDevice cr clock t auth = Inr (None, auth1) \<Longrightarrow> auth1 = auth"
  by (auto simp: resolveDevice_def sum_bind_Inr split: option.splits)

lemma resolveDevice_Some:
  "resolveDevice cr clock t auth = Inr (Some d, auth1) \<Longrightarrow>
     \<exists>settings store. da_access auth = Some (settings, store) \<and>
       findDeviceByToken (cr_sha256 cr) t store = Inr (Some d)"
  by (auto simp: resolveDevice_def sum_bind_Inr store_result_def map_sum_Inr split: option.splits)

text \<open>A token neither a device credential nor the local token of this client.\<close>

definition unknown_token :: "crypto \<Rightarrow> request_like \<Rightarrow> string \<Rightarrow> daemon_auth \<Rightarrow> bool" where
  "unknown_token cr req t auth =
     ((case da_access auth of None \<Rightarrow> True
       | Some (_, store) \<Rightarrow> findDeviceByToken (cr_sha256 cr) t store = Inr None) \<and>
      \<not> matchesLocalToken req t auth)"

lemma unknown_resolves:
  "unknown_token cr req t auth \<Longrightarrow> resolveKnownCredential cr clock req t auth = Inr (None, auth)"
  by (auto simp: unknown_token_def resolveKnownCredential_def resolveDevice_def store_result_def
      split: option.splits)

text \<open>What an admission rests on.\<close>

definition credential_of :: "crypto \<Rightarrow> request_like \<Rightarrow> string \<Rightarrow> daemon_auth \<Rightarrow> bearer_principal \<Rightarrow> bool" where
  "credential_of cr req t auth who =
     (case who of
        DevicePrincipal d \<Rightarrow>
          \<exists>settings store. da_access auth = Some (settings, store) \<and>
            findDeviceByToken (cr_sha256 cr) t store = Inr (Some d)
      | LocalTokenPrincipal \<Rightarrow>
          (\<exists>file. da_localToken auth = Some file \<and> local_token_read file = Some t) \<and>
          (\<forall>settings store. da_access auth = Some (settings, store) \<longrightarrow> isLoopbackClient settings req)
      | PasswordPrincipal \<Rightarrow>
          \<exists>password verified. da_password auth = Some password \<and> password \<noteq> [] \<and>
            verifyDaemonPassword cr t password (da_verified auth) = Inr (True, verified) \<and>
            \<not> matchesLocalToken req t auth)"

lemma local_token_facts:
  "matchesLocalToken req t auth \<Longrightarrow>
     (\<exists>file. da_localToken auth = Some file \<and> local_token_read file = Some t) \<and>
     (\<forall>settings store. da_access auth = Some (settings, store) \<longrightarrow> isLoopbackClient settings req)"
  by (auto simp: matchesLocalToken_def local_token_matches_def or_else_def split: option.splits if_splits)

lemma known_credential:
  assumes "resolveKnownCredential cr clock req t auth = Inr (Some p, auth1)"
  shows "credential_of cr req t auth p"
  using assms resolveDevice_None[of cr clock t auth] resolveDevice_Some[of cr clock t auth]
    local_token_facts[of req t auth]
  by (auto simp: resolveKnownCredential_def sum_bind_Inr credential_of_def
      split: option.splits if_splits)

lemma unknown_credential:
  assumes "resolveKnownCredential cr clock req t auth = Inr (None, auth1)"
  shows "auth1 = auth \<and> \<not> matchesLocalToken req t auth"
  using assms resolveDevice_None[of cr clock t auth]
  by (auto simp: resolveKnownCredential_def sum_bind_Inr split: option.splits if_splits)

lemma preDecide_admitted:
  assumes "preDecide cr clock req token auth = Inr (Decided (Admitted p), auth1)"
  shows "\<exists>t. token = Some t \<and> credential_of cr req t auth p"
proof (cases token)
  case None
  with assms show ?thesis
    by (auto simp: preDecide_def Let_def sum_bind_Inr split: if_splits option.splits)
next
  case (Some t)
  with assms obtain known auth2 where k: "resolveKnownCredential cr clock req t auth = Inr (known, auth2)"
    by (auto simp: preDecide_def sum_bind_Inr)
  show ?thesis
  proof (cases known)
    case None
    with assms Some k show ?thesis
      by (auto simp: preDecide_def Let_def sum_bind_Inr split: if_splits option.splits)
  next
    case known: (Some q)
    with assms Some k have "p = q" by (simp add: preDecide_def)
    with known k known_credential Some show ?thesis by blast
  qed
qed

lemma preDecide_password:
  assumes "preDecide cr clock req token auth = Inr (CheckPassword key t password, auth1)"
  shows "token = Some t \<and> auth1 = auth \<and> da_password auth = Some password \<and> password \<noteq> [] \<and>
    key = clientKey req auth \<and> \<not> limiter_blocks key (ac_block clock) auth \<and> \<not> matchesLocalToken req t auth"
proof -
  from assms obtain t' where t': "token = Some t'"
    by (cases token) (auto simp: preDecide_def Let_def sum_bind_Inr split: if_splits option.splits)
  with assms obtain known auth2 where k: "resolveKnownCredential cr clock req t' auth = Inr (known, auth2)"
    by (auto simp: preDecide_def sum_bind_Inr)
  with assms t' have "known = None" by (cases known) (auto simp: preDecide_def)
  with k unknown_credential have "auth2 = auth" "\<not> matchesLocalToken req t' auth" by blast+
  with assms t' k \<open>known = None\<close> show ?thesis
    by (auto simp: preDecide_def Let_def sum_bind_Inr or_else_def split: if_splits option.splits)
qed

lemma authorizeBearer_admitted:
  assumes "authorizeBearer cr clock req token auth = Inr (Admitted p, auth1)"
  shows "\<exists>t. token = Some t \<and> credential_of cr req t auth p"
proof -
  from assms obtain pre auth2 where pre: "preDecide cr clock req token auth = Inr (pre, auth2)"
    by (auto simp: authorizeBearer_def sum_bind_Inr)
  show ?thesis
  proof (cases pre)
    case (Decided decision)
    with assms pre have "preDecide cr clock req token auth = Inr (Decided (Admitted p), auth1)"
      by (simp add: authorizeBearer_def)
    then show ?thesis by (rule preDecide_admitted)
  next
    case (CheckPassword key t password)
    with pre preDecide_password have facts: "token = Some t" "auth2 = auth" "da_password auth = Some password"
      "password \<noteq> []" "\<not> matchesLocalToken req t auth" by blast+
    from assms pre CheckPassword facts obtain verified ok where
      "verifyDaemonPassword cr t password (da_verified auth) = Inr (ok, verified)" and "ok"
      and "p = PasswordPrincipal"
      by (auto simp: authorizeBearer_def sum_bind_Inr finishPassword_def split: if_splits)
    with facts show ?thesis by (auto simp: credential_of_def)
  qed
qed

lemma blocked_rejected:
  assumes "unknown_token cr req t auth" and "limiter_blocks (clientKey req auth) (ac_block clock) auth"
  shows "authorizeBearer cr clock req (Some t) auth = Inr (Rejected RateLimited, auth)"
  using assms unknown_resolves[OF assms(1)] by (simp add: authorizeBearer_def preDecide_def Let_def)

lemma wrong_password:
  assumes "unknown_token cr req t auth" and "\<not> limiter_blocks (clientKey req auth) (ac_block clock) auth"
    and "da_password auth = Some password" and "password \<noteq> []"
    and "verifyDaemonPassword cr t password (da_verified auth) = Inr (False, verified)"
  shows "authorizeBearer cr clock req (Some t) auth =
    Inr (Rejected InvalidToken, note_failure (clientKey req auth) (ac_record clock) auth)"
proof -
  have "verified = da_verified auth"
    using assms(5) by (auto simp: verifyDaemonPassword_def Let_def split: if_splits option.splits)
  then show ?thesis
    using assms unknown_resolves[OF assms(1)]
    by (simp add: authorizeBearer_def preDecide_def Let_def missingBearerReason_def has_secrets_def
        or_else_def finishPassword_def)
qed

lemma tunnelled_admitted:
  assumes "authorizeTunnelledCredential cr clock token key auth = Inr (Admitted p, auth1)"
  shows "\<exists>t. token = Some t \<and> p \<noteq> LocalTokenPrincipal \<and>
    (\<forall>d. p = DevicePrincipal d \<longrightarrow> (\<exists>settings store. da_access auth = Some (settings, store) \<and>
       findDeviceByToken (cr_sha256 cr) t store = Inr (Some d))) \<and>
    (p = PasswordPrincipal \<longrightarrow> (\<exists>password verified. da_password auth = Some password \<and> password \<noteq> [] \<and>
       verifyDaemonPassword cr t password (da_verified auth) = Inr (True, verified)))"
proof (cases token)
  case None
  with assms show ?thesis
    by (auto simp: authorizeTunnelledCredential_def sum_bind_Inr split: if_splits)
next
  case (Some t)
  with assms obtain device auth2 where d: "resolveDevice cr clock t auth = Inr (device, auth2)"
    by (auto simp: authorizeTunnelledCredential_def sum_bind_Inr)
  show ?thesis
  proof (cases device)
    case None
    with d have "auth2 = auth" using resolveDevice_None by blast
    with assms Some d None show ?thesis
      by (auto simp: authorizeTunnelledCredential_def sum_bind_Inr finishPassword_def or_else_def
          split: if_splits option.splits)
  next
    case dev: (Some v)
    with assms Some d have "p = DevicePrincipal v" by (auto simp: authorizeTunnelledCredential_def)
    with resolveDevice_Some d dev Some show ?thesis by auto
  qed
qed

text \<open>Attempts of one client, one after the other.\<close>

fun attempts ::
  "crypto \<Rightarrow> request_like \<Rightarrow> (auth_clock \<times> string) list \<Rightarrow> daemon_auth \<Rightarrow> auth_error + daemon_auth" where
  "attempts cr req [] auth = Inr auth"
| "attempts cr req ((clock, t) # as) auth =
     sum_bind (authorizeBearer cr clock req (Some t) auth) (\<lambda>(_, auth1). attempts cr req as auth1)"

lemma attempts_append:
  "attempts cr req (as @ bs) auth = sum_bind (attempts cr req as auth) (attempts cr req bs)"
proof (induction as arbitrary: auth)
  case (Cons a as)
  then show ?case
    by (cases a; cases "authorizeBearer cr (fst a) req (Some (snd a)) auth") (auto simp: split_def)
qed simp

lemma limiter_irrelevant [simp]:
  "matchesLocalToken req t (auth\<lparr>da_limiter := l\<rparr>) = matchesLocalToken req t auth"
  "unknown_token cr req t (auth\<lparr>da_limiter := l\<rparr>) = unknown_token cr req t auth"
  "clientKey req (auth\<lparr>da_limiter := l\<rparr>) = clientKey req auth"
  by (simp_all add: matchesLocalToken_def unknown_token_def clientKey_def split: option.split)

definition wrong_token :: "crypto \<Rightarrow> request_like \<Rightarrow> daemon_auth \<Rightarrow> string \<Rightarrow> bool" where
  "wrong_token cr req auth t =
     (unknown_token cr req t auth \<and>
      (\<exists>password verified. da_password auth = Some password \<and> password \<noteq> [] \<and>
        verifyDaemonPassword cr t password (da_verified auth) = Inr (False, verified)))"

lemma wrong_attempts:
  assumes "da_limiter auth = Some l" and "limiter_inv l"
    and "map_of (entries l) (clientKey req auth) = None"
    and "list_all (\<lambda>(clock, t). wrong_token cr req auth t \<and> 0 \<le> ac_block clock) as"
    and "length as \<le> maxFailures l"
    and "\<forall>a \<in> set as. \<forall>b \<in> set as. ac_record (fst a) > ac_record (fst b) - windowMs l"
  shows "attempts cr req as auth =
    Inr (auth\<lparr>da_limiter := Some (fold (recordFailure (clientKey req auth)) (map (\<lambda>x. ac_record (fst x)) as) l)\<rparr>)"
  using assms(4-)
proof (induction as rule: rev_induct)
  case Nil
  then show ?case using assms(1) by simp
next
  case (snoc a as)
  obtain clock t where a: "a = (clock, t)" by fastforce
  let ?l = "fold (recordFailure (clientKey req auth)) (map (\<lambda>x. ac_record (fst x)) as) l"
  let ?auth = "auth\<lparr>da_limiter := Some ?l\<rparr>"
  have run: "attempts cr req as auth = Inr ?auth" using snoc by simp
  have "\<not> isBlocked (clientKey req auth) (ac_block clock) ?l"
    by (rule not_blocked_below[OF assms(2,3)]) (use snoc.prems a in auto)
  then have "\<not> limiter_blocks (clientKey req ?auth) (ac_block clock) ?auth"
    by (simp add: limiter_blocks_def)
  moreover obtain password verified where "unknown_token cr req t auth" "da_password auth = Some password"
    "password \<noteq> []" "verifyDaemonPassword cr t password (da_verified auth) = Inr (False, verified)"
    using snoc.prems a by (auto simp: wrong_token_def)
  ultimately have "authorizeBearer cr clock req (Some t) ?auth =
      Inr (Rejected InvalidToken, note_failure (clientKey req ?auth) (ac_record clock) ?auth)"
    by (intro wrong_password) simp_all
  then show ?case
    by (simp add: attempts_append run a note_failure_def)
qed

section \<open>Properties\<close>

text \<open>C4. No anonymous admission: a request is admitted only with a token that is the credential of
  the device it is admitted as, the local token presented by a loopback client, or the daemon
  password; where the client connects from never admits it. A credential that arrives through the
  relay tunnel admits a device or the password only, never the local token.\<close>

theorem admission_needs_credential:
  "(authorizeBearer cr clock req token auth = Inr (Admitted p, auth1) \<longrightarrow>
      (\<exists>t. token = Some t \<and> credential_of cr req t auth p)) \<and>
   (authorizeTunnelledCredential cr clock token key auth = Inr (Admitted p, auth1) \<longrightarrow>
      (\<exists>t. token = Some t \<and> p \<noteq> LocalTokenPrincipal \<and>
        (\<forall>d. p = DevicePrincipal d \<longrightarrow> (\<exists>settings store. da_access auth = Some (settings, store) \<and>
           findDeviceByToken (cr_sha256 cr) t store = Inr (Some d))) \<and>
        (p = PasswordPrincipal \<longrightarrow> (\<exists>password verified. da_password auth = Some password \<and> password \<noteq> [] \<and>
           verifyDaemonPassword cr t password (da_verified auth) = Inr (True, verified)))))"
  by (intro conjI impI) (erule authorizeBearer_admitted tunnelled_admitted)+

definition sample_crypto :: crypto where
  "sample_crypto = \<lparr>cr_sha256 = sample_hash, cr_bcrypt = (\<lambda>t h. t = ''right''),
     cr_scrypt = (\<lambda>t n r p s e. Some False)\<rparr>"

definition sample_clock :: "time_ms \<Rightarrow> auth_clock" where
  "sample_clock t = \<lparr>ac_seenMs = t, ac_seenIso = ''2026'', ac_block = t, ac_record = t\<rparr>"

definition sample_request :: request_like where
  "sample_request = \<lparr>remoteAddress = Some ''8.8.8.8'', x_forwarded_for = NoForwarded\<rparr>"

definition sample_auth :: daemon_auth where
  "sample_auth = \<lparr>da_password = Some ''$2b'', da_access = None,
     da_limiter = Some (createAuthFailureLimiter (Some 2) None None None),
     da_localToken = None, da_verified = []\<rparr>"

lemma sample_verify:
  "verifyDaemonPassword sample_crypto t ''$2b'' [] =
     Inr (t = ''right'', if t = ''right'' then [(verifiedKey sample_crypto ''$2b'' t, ())] else [])"
  by (simp add: verifyDaemonPassword_def map_has_def password_matches_def isLegacyPasswordHash_def
      startsWith_def sample_crypto_def rememberVerified_def VERIFIED_CACHE_LIMIT_def Let_def)

lemma sample_unknown: "unknown_token sample_crypto sample_request t sample_auth"
  by (simp add: unknown_token_def matchesLocalToken_def sample_auth_def)

lemma sample_pre:
  "preDecide sample_crypto (sample_clock 5) sample_request (Some t) sample_auth =
     Inr (CheckPassword (clientKey sample_request sample_auth) t ''$2b'', sample_auth)"
  using unknown_resolves[OF sample_unknown]
  by (simp add: preDecide_def Let_def limiter_blocks_def sample_auth_def createAuthFailureLimiter_def
      isBlocked_def sample_clock_def missingBearerReason_def has_secrets_def or_else_def)

theorem admission_needs_credential_witness:
  "\<exists>auth1. authorizeBearer sample_crypto (sample_clock 5) sample_request (Some ''right'') sample_auth =
       Inr (Admitted PasswordPrincipal, auth1) \<and>
     credential_of sample_crypto sample_request ''right'' sample_auth PasswordPrincipal"
proof -
  obtain auth1 where admitted:
    "authorizeBearer sample_crypto (sample_clock 5) sample_request (Some ''right'') sample_auth =
       Inr (Admitted PasswordPrincipal, auth1)"
    using sample_pre[of "''right''"] sample_verify[of "''right''"]
    by (simp add: authorizeBearer_def finishPassword_def sample_auth_def)
  with admission_needs_credential[of sample_crypto "sample_clock 5" sample_request "Some ''right''"
      sample_auth PasswordPrincipal auth1]
  show ?thesis by auto
qed

text \<open>C5. Guessing is throttled. Take a daemon with a password (a wrong token is one that fails its check), a limiter
  reached by any operations from an empty one, and a client key the limiter holds no failures for. When
  \<open>maxFailures\<close> wrong tokens of that client are checked one directly after the other (no other request of the
  daemon in between, so that no success clears the key and no other key evicts it), all inside one window, the next token of
  that client that is not a known credential and comes before the block ends is refused as rate limited, the right password
  included, without reaching the password check; the refusal leaves the state as it was, so the same holds of the tokens
  after it.\<close>

theorem brute_force_refused:
  assumes "da_limiter auth = Some (fold limiter_step es (createAuthFailureLimiter mf wm bm mk))"
    and "l = fold limiter_step es (createAuthFailureLimiter mf wm bm mk)"
    and "map_of (entries l) (clientKey req auth) = None"
    and "list_all (\<lambda>(clock, t). wrong_token cr req auth t \<and> 0 \<le> ac_block clock) (as @ [a])"
    and "length (as @ [a]) = maxFailures l"
    and "\<forall>x \<in> set (as @ [a]). \<forall>y \<in> set (as @ [a]). ac_record (fst x) > ac_record (fst y) - windowMs l"
    and "unknown_token cr req t auth" and "ac_block clock < ac_record (fst a) + blockMs l"
  shows "\<exists>auth1. attempts cr req (as @ [a]) auth = Inr auth1 \<and>
    authorizeBearer cr clock req (Some t) auth1 = Inr (Rejected RateLimited, auth1)"
proof -
  let ?l = "fold (recordFailure (clientKey req auth)) (map (\<lambda>x. ac_record (fst x)) (as @ [a])) l"
  have inv: "limiter_inv l" using assms(2) limiter_run_inv[OF limiter_inv_create] by simp
  have run: "attempts cr req (as @ [a]) auth = Inr (auth\<lparr>da_limiter := Some ?l\<rparr>)"
    by (rule wrong_attempts) (use assms inv in auto)
  have "isBlocked (clientKey req auth) (ac_block clock) ?l"
    using blocked_at_limit[OF inv assms(3), of "map (\<lambda>x. ac_record (fst x)) as" "ac_record (fst a)"] assms(5,6,8)
    by simp
  then have "authorizeBearer cr clock req (Some t) (auth\<lparr>da_limiter := Some ?l\<rparr>) =
      Inr (Rejected RateLimited, auth\<lparr>da_limiter := Some ?l\<rparr>)"
    by (intro blocked_rejected) (simp_all add: assms(7) limiter_blocks_def)
  with run show ?thesis by blast
qed

theorem brute_force_refused_witness:
  "\<exists>auth1. attempts sample_crypto sample_request
       ([(sample_clock 5, ''a'')] @ [(sample_clock 6, ''b'')]) sample_auth = Inr auth1 \<and>
     authorizeBearer sample_crypto (sample_clock 9) sample_request (Some ''right'') auth1 =
       Inr (Rejected RateLimited, auth1)"
proof (rule brute_force_refused[where es = "[]" and mf = "Some 2" and wm = None and bm = None and mk = None
      and l = "createAuthFailureLimiter (Some 2) None None None"])
  have "wrong_token sample_crypto sample_request sample_auth t" if "t \<noteq> ''right''" for t
    using sample_unknown[of t] sample_verify[of t] that by (simp add: wrong_token_def sample_auth_def)
  then show "list_all (\<lambda>(clock, t). wrong_token sample_crypto sample_request sample_auth t \<and>
      0 \<le> ac_block clock) ([(sample_clock 5, ''a'')] @ [(sample_clock 6, ''b'')])"
    by (simp add: sample_clock_def)
  show "da_limiter sample_auth =
      Some (fold limiter_step [] (createAuthFailureLimiter (Some 2) None None None))"
    by (simp add: sample_auth_def)
qed (simp_all add: sample_unknown createAuthFailureLimiter_def sample_clock_def
    DEFAULT_AUTH_WINDOW_MS_def DEFAULT_AUTH_BLOCK_MS_def)

text \<open>The bearer middleware lets a request through to a route that is not exempt only with a
  credential whose role satisfies the role the route requires: operator, unless the table says
  otherwise.\<close>

theorem http_route_guarded:
  assumes "requireBearer cr clock method path authorization req auth = (Next, auth1)"
    and "\<not> shouldBypassBearerAuth method path"
  shows "\<exists>t p. extractHttpBearerToken authorization = Some t \<and> credential_of cr req t auth p \<and>
    requiredRoleForHttpRoute path \<le> roleForPrincipal p"
proof -
  from assms obtain p auth2 where "authorizeBearer cr clock req (extractHttpBearerToken authorization) auth =
      Inr (Admitted p, auth2)" and "roleSatisfies (roleForPrincipal p) (requiredRoleForHttpRoute path)"
    by (auto simp: requireBearer_def Let_def split: sum.splits bearer_decision.splits if_splits)
  with authorizeBearer_admitted show ?thesis
    by (fastforce simp: roleSatisfies_def less_eq_device_role_def)
qed

theorem http_route_guarded_witness:
  "\<exists>t p. extractHttpBearerToken (Some ''Bearer right'') = Some t \<and>
     credential_of sample_crypto sample_request t sample_auth p \<and>
     requiredRoleForHttpRoute ''/api/agents'' \<le> roleForPrincipal p"
proof -
  have token: "extractHttpBearerToken (Some ''Bearer right'') = Some ''right''"
    by code_simp
  obtain auth1 where admitted:
    "authorizeBearer sample_crypto (sample_clock 5) sample_request (Some ''right'') sample_auth =
       Inr (Admitted PasswordPrincipal, auth1)"
    using sample_pre[of "''right''"] sample_verify[of "''right''"]
    by (simp add: authorizeBearer_def finishPassword_def sample_auth_def)
  have bypass: "\<not> shouldBypassBearerAuth ''GET'' ''/api/agents''" by code_simp
  have "requireBearer sample_crypto (sample_clock 5) ''GET'' ''/api/agents'' (Some ''Bearer right'')
      sample_request sample_auth = (Next, auth1)"
    using admitted bypass token
    by (simp add: requireBearer_def roleForPrincipal_def roleSatisfies_def requiredRoleForHttpRoute_def
        HTTP_ROUTE_ROLE_def DEFAULT_HTTP_ROUTE_ROLE_def)
  from http_route_guarded[OF this bypass] show ?thesis .
qed

text \<open>The token of one agent speaks for that agent only: a derived token verifies to the agent
  it was derived for, and whatever token verifies to an agent carries the MAC of that agent's id
  under the secret.\<close>

theorem agent_token_roundtrip:
  assumes "b64url_decode mc (b64url_encode mc agentId) = agentId"
    and "b64url_encode mc agentId \<noteq> []" and "hmac_b64url mc secret agentId \<noteq> []"
    and "\<And>x. CHR ''.'' \<notin> set (b64url_encode mc x)"
    and "\<And>x. CHR ''.'' \<notin> set (hmac_b64url mc secret x)"
  shows "verifyAgentMcpToken mc secret (deriveAgentMcpToken mc secret agentId) = Some agentId \<and>
    (\<forall>token other. verifyAgentMcpToken mc secret token = Some other \<longrightarrow>
      js_split CHR ''.'' token ! 2 = hmac_b64url mc secret other)"
proof (rule conjI)
  have split: "js_split CHR ''.'' (deriveAgentMcpToken mc secret x) =
      [AGENT_MCP_TOKEN_PREFIX, b64url_encode mc x, hmac_b64url mc secret x]" for x
  proof -
    have "deriveAgentMcpToken mc secret x =
        js_join [CHR ''.''] [AGENT_MCP_TOKEN_PREFIX, b64url_encode mc x, hmac_b64url mc secret x]"
      by (simp add: deriveAgentMcpToken_def)
    moreover have "CHR ''.'' \<notin> set AGENT_MCP_TOKEN_PREFIX" by (simp add: AGENT_MCP_TOKEN_PREFIX_def)
    ultimately show ?thesis
      using assms(4,5)[of x] js_split_join[of "[AGENT_MCP_TOKEN_PREFIX, b64url_encode mc x,
        hmac_b64url mc secret x]" "CHR ''.''"] by simp
  qed
  then show "verifyAgentMcpToken mc secret (deriveAgentMcpToken mc secret agentId) = Some agentId"
    using assms(1-3) by (simp add: verifyAgentMcpToken_def)
  show "\<forall>token other. verifyAgentMcpToken mc secret token = Some other \<longrightarrow>
      js_split CHR ''.'' token ! 2 = hmac_b64url mc secret other"
    using split
    by (auto simp: verifyAgentMcpToken_def Let_def split: list.splits if_splits)
qed

definition hex_codec :: mac_codec where
  "hex_codec = \<lparr>b64url_encode = map (\<lambda>c. if c = CHR ''.'' then CHR ''_'' else c),
     b64url_decode = map (\<lambda>c. if c = CHR ''_'' then CHR ''.'' else c),
     hmac_b64url = (\<lambda>secret x. if x = ''ag.1'' then ''m1'' else ''m2'')\<rparr>"

theorem agent_token_roundtrip_witness:
  "verifyAgentMcpToken hex_codec ''s'' (deriveAgentMcpToken hex_codec ''s'' ''ag.1'') = Some ''ag.1''"
  by (rule agent_token_roundtrip[THEN conjunct1]) (auto simp: hex_codec_def)

end
