(* ===== verification/DeviceAccess.thy ===== *)
theory DeviceAccess
  imports BearerAuth PairingStores
begin

text \<open>
  The access settings of a daemon: the device-access service a session calls
  (\<open>device-access-service.ts\<close>), the role store behind it (\<open>authorization/device-role-store.ts\<close>),
  the gate on minting offers (\<open>authorization/owner-offer-gate.ts\<close>) and the admission of an
  authenticated connection (\<open>authorization/admission.ts\<close>). The service works on the claim store,
  the pairing codes and requests and the \<open>daemon.auth\<close> settings; its two callbacks are logged in
  the state, and the password hash, the fingerprint and the deep links of a pairing code are
  parameters. A thrown \<open>DeviceAccessError\<close> is a value of \<open>access_error\<close>.
\<close>

section \<open>State\<close>

record auth_config =
  cfg_claimMode :: bool
  cfg_trustLan :: bool
  cfg_passwordHash :: "string option"

record access_state =
  as_store :: claim_store
  as_codes :: pairing_code_store
  as_requests :: pairing_request_store
  as_config :: auth_config
  as_revoked :: "string list"
  as_settingsChanged :: nat

record caller_device =
  caller_id :: string
  caller_name :: string
  caller_role :: device_role

datatype access_error =
    InvalidDeviceName | OwnerOnly | UnknownDevice | LastOwner | ViewerCannotPair
  | ViewerCannotApprove | UnknownRequest | PasswordTooShort | NoFreshCode | AccessStore claim_error

definition access_result :: "claim_error + 'a \<Rightarrow> access_error + 'a" where
  "access_result r = map_sum AccessStore id r"

section \<open>Admission\<close>

record principal_admission =
  adm_principalId :: string
  adm_permissions :: "daemon_permission list"
  adm_device :: "caller_device option"
  adm_role :: "device_role option"
  adm_transport :: "session_transport option"
  adm_registerVia :: "client_via option"

definition resolveAdmissionRole :: "principal_admission \<Rightarrow> device_role" where
  "resolveAdmissionRole a =
     (case adm_role a of
        Some r \<Rightarrow> r
      | None \<Rightarrow>
          (case adm_device a of
             Some d \<Rightarrow> caller_role d
           | None \<Rightarrow> defaultRoleForTransport
               (case adm_transport a of None \<Rightarrow> Direct | Some t \<Rightarrow> t)))"

definition admissionForPrincipal :: "bearer_principal \<Rightarrow> session_transport \<Rightarrow> principal_admission" where
  "admissionForPrincipal p transport =
     (case p of
        DevicePrincipal d \<Rightarrow>
          \<lparr>adm_principalId = dev_principalId d,
           adm_permissions = (if length (dev_permissions d) > 0 then dev_permissions d else OWNER_PERMISSIONS),
           adm_device = Some \<lparr>caller_id = dev_id d, caller_name = dev_name d, caller_role = dev_role d\<rparr>,
           adm_role = None, adm_transport = Some transport, adm_registerVia = None\<rparr>
      | _ \<Rightarrow>
          \<lparr>adm_principalId = ''owner'', adm_permissions = OWNER_PERMISSIONS, adm_device = None,
           adm_role = None, adm_transport = Some transport,
           adm_registerVia = Some (if p = PasswordPrincipal then RegPassword else RegLocal)\<rparr>)"

definition mayMintPairingOffer :: "bool \<Rightarrow> bool \<Rightarrow> bool" where
  "mayMintPairingOffer claimed localityTrusted = (\<not> claimed \<or> \<not> localityTrusted)"

section \<open>The role store\<close>

definition role_store_getRole :: "string \<Rightarrow> claim_store \<Rightarrow> claim_error + device_role option" where
  "role_store_getRole credentialId s = getCredentialRole credentialId s"

definition role_store_setRole ::
  "string \<Rightarrow> device_role \<Rightarrow> claim_store \<Rightarrow> access_error + (bool \<times> claim_store)" where
  "role_store_setRole credentialId r s =
     sum_bind (if r \<noteq> Owner then access_result (isLastOwner credentialId s) else Inr False) (\<lambda>lastOwner.
       if lastOwner then Inl LastOwner else access_result (setCredentialRole credentialId r s))"

section \<open>The service\<close>

definition DEVICE_NAME_MAX_LENGTH :: nat where
  "DEVICE_NAME_MAX_LENGTH = 120"

definition DAEMON_PASSWORD_MIN_LENGTH :: nat where
  "DAEMON_PASSWORD_MIN_LENGTH = 8"

definition assertName :: "string \<Rightarrow> access_error + string" where
  "assertName name =
     (let trimmed = js_trim name in
      if trimmed = [] \<or> length trimmed > DEVICE_NAME_MAX_LENGTH then Inl InvalidDeviceName
      else Inr trimmed)"

record device_credential =
  dc_device :: device_record
  dc_current :: bool
  dc_connected :: bool

definition toCredential :: "string list \<Rightarrow> device_record \<Rightarrow> caller_device option \<Rightarrow> device_credential" where
  "toCredential online d caller =
     \<lparr>dc_device = d, dc_current = (map_option caller_id caller = Some (dev_id d)),
      dc_connected = (dev_id d \<in> set online)\<rparr>"

definition callerRole :: "caller_device option \<Rightarrow> device_role" where
  "callerRole caller = (case caller of None \<Rightarrow> Owner | Some d \<Rightarrow> caller_role d)"

definition requireOwner :: "caller_device option \<Rightarrow> access_error + unit" where
  "requireOwner caller = (if callerRole caller \<noteq> Owner then Inl OwnerOnly else Inr ())"

record auth_settings =
  set_claimMode :: bool
  set_trustLan :: bool
  set_lanTrustEffective :: bool
  set_claimed :: bool
  set_passwordEnabled :: bool
  set_deviceCount :: nat

definition service_settings :: "access_state \<Rightarrow> access_error + auth_settings" where
  "service_settings s =
     (let cfg = as_config s; passwordEnabled = (or_else (cfg_passwordHash cfg) [] \<noteq> []) in
      sum_bind (access_result (isDaemonClaimed (as_store s) (cfg_passwordHash cfg))) (\<lambda>claimed.
      sum_bind (access_result (listDevices (as_store s))) (\<lambda>devices.
        Inr \<lparr>set_claimMode = cfg_claimMode cfg, set_trustLan = cfg_trustLan cfg,
             set_lanTrustEffective = (cfg_trustLan cfg \<and> \<not> cfg_claimMode cfg),
             set_claimed = claimed, set_passwordEnabled = passwordEnabled,
             set_deviceCount = length devices\<rparr>)))"

definition service_listDevices ::
  "string list \<Rightarrow> caller_device option \<Rightarrow> access_state \<Rightarrow> access_error + device_credential list" where
  "service_listDevices online caller s =
     sum_bind (access_result (listDevices (as_store s))) (\<lambda>ds.
       Inr (map (\<lambda>d. toCredential online d caller) ds))"

definition require_self_or_owner :: "caller_device option \<Rightarrow> device_record \<Rightarrow> access_error + unit" where
  "require_self_or_owner caller target =
     (if map_option caller_id caller \<noteq> Some (dev_id target) then requireOwner caller else Inr ())"

definition service_renameDevice ::
  "string list \<Rightarrow> caller_device option \<Rightarrow> string \<Rightarrow> string \<Rightarrow> access_state \<Rightarrow>
     access_error + (device_credential \<times> access_state)" where
  "service_renameDevice online caller deviceId name s =
     sum_bind (access_result (getDevice deviceId (as_store s))) (\<lambda>target.
       case target of
         None \<Rightarrow> Inl UnknownDevice
       | Some t \<Rightarrow>
           sum_bind (require_self_or_owner caller t) (\<lambda>_.
           sum_bind (assertName name) (\<lambda>checked.
           sum_bind (access_result (renameDevice deviceId checked (as_store s))) (\<lambda>(renamed, store).
             case renamed of
               None \<Rightarrow> Inl UnknownDevice
             | Some d \<Rightarrow> Inr (toCredential online d caller, s\<lparr>as_store := store\<rparr>)))))"

definition service_revokeDevice ::
  "caller_device option \<Rightarrow> string \<Rightarrow> access_state \<Rightarrow> access_error + (bool \<times> access_state)" where
  "service_revokeDevice caller deviceId s =
     sum_bind (access_result (getDevice deviceId (as_store s))) (\<lambda>target.
       case target of
         None \<Rightarrow> Inr (False, s)
       | Some t \<Rightarrow>
           sum_bind (require_self_or_owner caller t) (\<lambda>_.
           sum_bind (access_result (isLastOwner (dev_id t) (as_store s))) (\<lambda>lastOwner.
             if lastOwner then Inl LastOwner
             else
               sum_bind (access_result (revokeDevice deviceId (as_store s))) (\<lambda>(revoked, store).
                 let s1 = s\<lparr>as_store := store\<rparr>
                 in Inr (revoked, if revoked then s1\<lparr>as_revoked := as_revoked s1 @ [deviceId]\<rparr> else s1)))))"

text \<open>The three clock readings and the random draws of \<open>issue\<close>, see \<open>PairingStores\<close>.\<close>

record code_draws =
  cd_now1 :: time_ms
  cd_now2 :: time_ms
  cd_now3 :: time_ms
  cd_draws :: "(nat \<Rightarrow> nat) list"

record created_code =
  cc_code :: string
  cc_expiresAt :: time_ms
  cc_role :: device_role
  cc_serverId :: string
  cc_fingerprint :: string
  cc_links :: "string list"

definition service_createPairingCode ::
  "string \<Rightarrow> string \<Rightarrow> (string \<Rightarrow> device_role \<Rightarrow> string list) \<Rightarrow> code_draws \<Rightarrow> caller_device option \<Rightarrow>
     device_role option \<Rightarrow> ttl_seconds \<Rightarrow> access_state \<Rightarrow> access_error + (created_code \<times> access_state)" where
  "service_createPairingCode serverId fingerprint links draws caller inputRole ttlSeconds s =
     (let r = (case inputRole of None \<Rightarrow> Operator | Some x \<Rightarrow> x) in
      sum_bind (if r = Owner then requireOwner caller else Inr ()) (\<lambda>_.
        if callerRole caller = Viewer then Inl ViewerCannotPair
        else
          (case code_issue (cd_now1 draws) (Some r) ttlSeconds (cd_now2 draws) (cd_draws draws)
              (cd_now3 draws) (as_codes s) of
             None \<Rightarrow> Inl NoFreshCode
           | Some (issued, codes) \<Rightarrow>
               Inr (\<lparr>cc_code = formatPairingCode (code_text issued), cc_expiresAt = code_expiresAt issued,
                     cc_role = r, cc_serverId = serverId, cc_fingerprint = fingerprint,
                     cc_links = links (code_text issued) r\<rparr>, s\<lparr>as_codes := codes\<rparr>))))"

definition service_listPairingRequests ::
  "time_ms \<Rightarrow> access_state \<Rightarrow> pending_pairing_request list \<times> access_state" where
  "service_listPairingRequests t s =
     (let (rs, requests) = pr_list t (as_requests s) in (rs, s\<lparr>as_requests := requests\<rparr>))"

definition service_decidePairingRequest ::
  "time_ms \<Rightarrow> caller_device option \<Rightarrow> string \<Rightarrow> pairing_decision \<Rightarrow> device_role option \<Rightarrow> string option \<Rightarrow>
     access_state \<Rightarrow> access_error + access_state" where
  "service_decidePairingRequest t caller reqId decision inputRole inputName s =
     sum_bind
       (if decision = Approve then
          sum_bind (if (case inputRole of None \<Rightarrow> Operator | Some x \<Rightarrow> x) = Owner
                    then requireOwner caller else Inr ()) (\<lambda>_.
            if callerRole caller = Viewer then Inl ViewerCannotApprove else Inr ())
        else Inr ()) (\<lambda>_.
     sum_bind (if or_else inputName [] = [] then Inr None
               else map_sum id Some (assertName (or_else inputName []))) (\<lambda>name.
       let (decided, requests) = pr_decide t reqId decision inputRole name (as_requests s)
       in if decided = None then Inl UnknownRequest else Inr (s\<lparr>as_requests := requests\<rparr>)))"

definition service_updateSettings ::
  "caller_device option \<Rightarrow> bool option \<Rightarrow> bool option \<Rightarrow> access_state \<Rightarrow>
     access_error + (auth_settings \<times> access_state)" where
  "service_updateSettings caller newClaimMode newTrustLan s =
     sum_bind (requireOwner caller) (\<lambda>_.
       let cfg = as_config s;
           cfg1 = cfg\<lparr>cfg_claimMode := (case newClaimMode of None \<Rightarrow> cfg_claimMode cfg | Some b \<Rightarrow> b),
                      cfg_trustLan := (case newTrustLan of None \<Rightarrow> cfg_trustLan cfg | Some b \<Rightarrow> b)\<rparr>;
           s1 = s\<lparr>as_config := cfg1, as_settingsChanged := Suc (as_settingsChanged s)\<rparr>
       in sum_bind (service_settings s1) (\<lambda>settings. Inr (settings, s1)))"

definition service_setPassword ::
  "(string \<Rightarrow> string) \<Rightarrow> caller_device option \<Rightarrow> string option \<Rightarrow> access_state \<Rightarrow>
     access_error + (auth_settings \<times> access_state)" where
  "service_setPassword hashDaemonPassword caller password s =
     sum_bind (requireOwner caller) (\<lambda>_.
       if (case password of None \<Rightarrow> False | Some p \<Rightarrow> length p < DAEMON_PASSWORD_MIN_LENGTH)
       then Inl PasswordTooShort
       else
         let s1 = s\<lparr>as_config := (as_config s)\<lparr>cfg_passwordHash := map_option hashDaemonPassword password\<rparr>,
                    as_settingsChanged := Suc (as_settingsChanged s)\<rparr>
         in sum_bind (service_settings s1) (\<lambda>settings. Inr (settings, s1)))"

section \<open>The last owner\<close>

text \<open>What can happen to the store from outside: pairing, registration, renaming, sign-ins and
  migration, and revocation and role changes through their guards. A refused operation leaves the
  state as it was.\<close>

datatype access_event =
    StoreEvent claim_event
  | ServiceRevoke "caller_device option" string
  | ServiceSetRole string device_role

fun unguarded :: "claim_event \<Rightarrow> bool" where
  "unguarded (RevokeEv _) = False"
| "unguarded (SetRoleEv _ _) = False"
| "unguarded _ = True"

fun access_step :: "(string \<Rightarrow> string) \<Rightarrow> access_event \<Rightarrow> access_state \<Rightarrow> access_state" where
  "access_step hash (StoreEvent e) s =
     (case claim_step hash e (as_store s) of Inl _ \<Rightarrow> s | Inr store \<Rightarrow> s\<lparr>as_store := store\<rparr>)"
| "access_step hash (ServiceRevoke caller i) s =
     (case service_revokeDevice caller i s of Inl _ \<Rightarrow> s | Inr (_, s1) \<Rightarrow> s1)"
| "access_step hash (ServiceSetRole i r) s =
     (case role_store_setRole i r (as_store s) of Inl _ \<Rightarrow> s | Inr (_, store) \<Rightarrow> s\<lparr>as_store := store\<rparr>)"

text \<open>A sequence of events whose drawn credential ids are new, over a directory's ids.\<close>

fun fresh_events :: "(string \<Rightarrow> string) \<Rightarrow> string list \<Rightarrow> access_event list \<Rightarrow> bool" where
  "fresh_events hash ids [] = True"
| "fresh_events hash ids (StoreEvent e # es) =
     (unguarded e \<and> ok_event hash e \<and> set (event_ids e) \<inter> set ids = {} \<and>
      fresh_events hash (event_ids e @ ids) es)"
| "fresh_events hash ids (ServiceRevoke _ _ # es) = fresh_events hash ids es"
| "fresh_events hash ids (ServiceSetRole _ _ # es) = fresh_events hash ids es"

definition dir_owners :: "directory \<Rightarrow> directory_entry list" where
  "dir_owners d = filter (\<lambda>e. dev_role (fst e) = Owner) (dir_entries d)"

definition owner_inv :: "string list \<Rightarrow> claim_store \<Rightarrow> bool" where
  "owner_inv ids s =
     (case read s of
        Inl _ \<Rightarrow> False
      | Inr f \<Rightarrow> distinct (dir_ids (directory_of f)) \<and> set (dir_ids (directory_of f)) \<subseteq> set ids \<and>
          dir_owners (directory_of f) \<noteq> [])"

lemma file_devices_erased:
  "map (\<lambda>d. d\<lparr>dev_lastSeenAt := None\<rparr>) (file_devices f) = map fst (dir_entries (directory_of f))"
proof -
  have "map (\<lambda>d. d\<lparr>dev_lastSeenAt := None\<rparr>) (concat (map (\<lambda>p. map (toDevice p) (prn_credentials p)) ps)) =
      map fst (concat (map (\<lambda>p. map (entry_of p) (prn_credentials p)) ps))" for ps
    by (induction ps) (simp_all add: entry_of_def)
  then show ?thesis by (simp add: file_devices_def directory_of_def)
qed

lemma isLastOwner_directory:
  assumes "read s = Inr f"
  shows "isLastOwner i s =
    Inr (length (dir_owners (directory_of f)) = 1 \<and> dev_id (fst (hd (dir_owners (directory_of f)))) = i)"
proof -
  let ?e = "\<lambda>d. d\<lparr>dev_lastSeenAt := None\<rparr>"
  let ?os = "filter (\<lambda>d. dev_role d = Owner) (file_devices f)"
  have os: "map fst (dir_owners (directory_of f)) = map ?e ?os"
  proof -
    have "map fst (dir_owners (directory_of f)) =
        filter (\<lambda>d. dev_role d = Owner) (map fst (dir_entries (directory_of f)))"
      by (simp add: dir_owners_def filter_map comp_def)
    also have "\<dots> = map ?e ?os" by (simp flip: file_devices_erased add: filter_map comp_def)
    finally show ?thesis .
  qed
  then have len: "length (dir_owners (directory_of f)) = length ?os"
    by (metis length_map)
  have "dev_id (fst (hd (dir_owners (directory_of f)))) = dev_id (hd ?os)" if "?os \<noteq> []"
  proof -
    have "fst (hd (dir_owners (directory_of f))) = ?e (hd ?os)"
      using os that len by (metis hd_map length_0_conv)
    then show ?thesis by simp
  qed
  with len assms show ?thesis
    by (cases "?os = []") (simp_all add: isLastOwner_def listDevices_def Let_def)
qed

lemma same_key_length: "distinct (map g xs) \<Longrightarrow> \<forall>x \<in> set xs. g x = i \<Longrightarrow> length xs \<le> 1"
  by (cases xs rule: remdups_adj.cases) auto

lemma other_owner:
  assumes "distinct (dir_ids d)" and "dir_owners d \<noteq> []"
    and "\<not> (length (dir_owners d) = 1 \<and> dev_id (fst (hd (dir_owners d))) = i)"
  shows "\<exists>e \<in> set (dir_owners d). dev_id (fst e) \<noteq> i"
proof (rule ccontr)
  assume none: "\<not> (\<exists>e \<in> set (dir_owners d). dev_id (fst e) \<noteq> i)"
  have "distinct (map (\<lambda>e. dev_id (fst e)) (dir_owners d))"
    using assms(1) by (simp add: dir_owners_def dir_ids_def distinct_map_filter)
  with none have "length (dir_owners d) \<le> 1"
    using same_key_length[of "\<lambda>e. dev_id (fst e)" "dir_owners d" i] by auto
  with assms(2) have "length (dir_owners d) = 1" by (cases "dir_owners d") auto
  with none assms(2,3) show False by auto
qed

lemma owner_persists:
  assumes "e \<in> set (dir_owners d)" and "ev = RevokeEv i \<or> ev = SetRoleEv i r" and "dev_id (fst e) \<noteq> i"
  shows "e \<in> set (dir_owners (dir_step hash ev d))"
proof -
  obtain v h c where e: "e = (v, h, c)" by (cases e)
  have "e \<in> set (dir_entries (dir_step hash ev d))"
    using assms e by (auto simp: dir_owners_def map_device_def image_iff intro!: bexI[of _ e])
  with assms(1) show ?thesis by (simp add: dir_owners_def)
qed

lemma owners_role: "dir_owners d = [] \<longleftrightarrow> Owner \<notin> set (map (\<lambda>e. dev_role (fst e)) (dir_entries d))"
proof -
  have "dir_owners d = [] \<longleftrightarrow> (\<forall>e \<in> set (dir_entries d). dev_role (fst e) \<noteq> Owner)"
    by (simp add: dir_owners_def filter_empty_conv)
  also have "\<dots> \<longleftrightarrow> Owner \<notin> set (map (\<lambda>e. dev_role (fst e)) (dir_entries d))" by force
  finally show ?thesis .
qed

lemma owners_unguarded:
  assumes "unguarded ev" and "dir_owners d \<noteq> []"
  shows "dir_owners (dir_step hash ev d) \<noteq> []"
proof (cases ev)
  case (RenameEv i n)
  have "map (\<lambda>e. dev_role (fst e)) (dir_entries (map_device i (\<lambda>v. v\<lparr>dev_name := js_trim n\<rparr>) d)) =
      map (\<lambda>e. dev_role (fst e)) (dir_entries d)"
    by (auto simp: map_device_def)
  then show ?thesis using RenameEv assms(2) by (simp add: owners_role del: set_map)
qed (use assms in \<open>auto simp: dir_owners_def\<close>)

lemma distinct_dir_step:
  assumes "distinct (dir_ids d)" and "set (event_ids ev) \<inter> set (dir_ids d) = {}"
  shows "distinct (dir_ids (dir_step hash ev d))"
proof (cases ev)
  case (RenameEv i n)
  then show ?thesis using assms map_device_ids[of "\<lambda>v. v\<lparr>dev_name := js_trim n\<rparr>" i d] by auto
next
  case (SetRoleEv i r)
  then show ?thesis using assms map_device_ids[of "\<lambda>v. v\<lparr>dev_role := r\<rparr>" i d] by auto
next
  case (RegisterEv draws i n via)
  with assms show ?thesis
    by (cases "is_registered i via d") (auto simp: dir_ids_def registered_device_def new_device_def Let_def)
next
  case (RevokeEv i)
  with assms show ?thesis by (simp add: dir_ids_def distinct_map_filter split_def)
qed (use assms in \<open>auto simp: dir_ids_def minted_device_def new_device_def Let_def\<close>)

lemma owner_inv_step:
  assumes "owner_inv ids s" and "ok_event hash ev" and "set (event_ids ev) \<inter> set ids = {}"
    and "\<And>f. read s = Inr f \<Longrightarrow> dir_owners (dir_step hash ev (directory_of f)) \<noteq> []"
    and "claim_step hash ev s = Inr s1"
  shows "owner_inv (event_ids ev @ ids) s1"
proof -
  from assms(1) obtain f where f: "read s = Inr f" and d: "distinct (dir_ids (directory_of f))"
    and sub: "set (dir_ids (directory_of f)) \<subseteq> set ids"
    by (auto simp: owner_inv_def split: sum.splits)
  from step_refines[OF f assms(2)] assms(5) obtain f1 where
    f1: "read s1 = Inr f1" "directory_of f1 = dir_step hash ev (directory_of f)" by auto
  have "distinct (dir_ids (directory_of f1))"
    using distinct_dir_step[OF d, of ev hash] sub assms(3) f1(2) by auto
  moreover have "set (dir_ids (directory_of f1)) \<subseteq> set (event_ids ev @ ids)"
    using dir_step_ids[of hash ev "directory_of f"] sub f1(2) by auto
  ultimately show ?thesis using assms(4)[OF f] f1 by (simp add: owner_inv_def)
qed

lemma guarded_owner:
  assumes "owner_inv ids s" and "isLastOwner i s = Inr False" and "ev = RevokeEv i \<or> ev = SetRoleEv i r"
    and "read s = Inr f"
  shows "dir_owners (dir_step hash ev (directory_of f)) \<noteq> []"
proof -
  have "\<exists>e \<in> set (dir_owners (directory_of f)). dev_id (fst e) \<noteq> i"
    by (rule other_owner) (use assms isLastOwner_directory[OF assms(4), of i] in
      \<open>auto simp: owner_inv_def split: sum.splits\<close>)
  then show ?thesis using owner_persists[OF _ assms(3)] by (metis empty_iff empty_set)
qed

lemma owner_role_kept:
  assumes "dir_owners d \<noteq> []"
  shows "dir_owners (dir_step hash (SetRoleEv i Owner) d) \<noteq> []"
proof -
  from assms obtain e where e: "e \<in> set (dir_entries d)" "dev_role (fst e) = Owner"
    unfolding owners_role by force
  let ?g = "\<lambda>(v, h, c). (if dev_id v = i then v\<lparr>dev_role := Owner\<rparr> else v, h, c)"
  have "?g e \<in> set (dir_entries (dir_step hash (SetRoleEv i Owner) d))"
    using e(1) by (simp add: map_device_def)
  moreover have "dev_role (fst (?g e)) = Owner" using e(2) by (simp add: split_def)
  ultimately show ?thesis unfolding owners_role by force
qed

lemma access_result_Inr [simp]: "access_result r = Inr x \<longleftrightarrow> r = Inr x"
  by (cases r) (auto simp: access_result_def)

lemma service_revoke_cases:
  assumes "service_revokeDevice caller i s = Inr (b, s1)"
  shows "s1 = s \<or> (isLastOwner i (as_store s) = Inr False \<and>
    revokeDevice i (as_store s) = Inr (b, as_store s1))"
  using assms
  by (auto simp: service_revokeDevice_def sum_bind_Inr getDevice_def find_Some_iff Let_def
      split: option.splits if_splits)

lemma owner_inv_access_step:
  assumes "owner_inv ids (as_store s)" and "fresh_events hash ids (ev # es)"
  shows "\<exists>ids'. owner_inv ids' (as_store (access_step hash ev s)) \<and> fresh_events hash ids' es"
proof (cases ev)
  case (StoreEvent e)
  show ?thesis
  proof (cases "claim_step hash e (as_store s)")
    case (Inl err)
    from assms(1) obtain f where "read (as_store s) = Inr f"
      by (auto simp: owner_inv_def split: sum.splits)
    from step_refines[OF this, of hash e] assms(2) StoreEvent Inl show ?thesis by simp
  next
    case (Inr store)
    have "owner_inv (event_ids e @ ids) store"
    proof (rule owner_inv_step[OF assms(1) _ _ _ Inr])
      fix f assume "read (as_store s) = Inr f"
      then show "dir_owners (dir_step hash e (directory_of f)) \<noteq> []"
        using assms StoreEvent owners_unguarded[of e] by (simp add: owner_inv_def)
    qed (use assms(2) StoreEvent in auto)
    with Inr assms(2) StoreEvent show ?thesis by auto
  qed
next
  case (ServiceRevoke caller i)
  show ?thesis
  proof (cases "service_revokeDevice caller i s")
    case (Inl err)
    then show ?thesis using assms ServiceRevoke by auto
  next
    case (Inr r)
    obtain b s1 where r: "r = (b, s1)" by fastforce
    from Inr r have "service_revokeDevice caller i s = Inr (b, s1)" by simp
    from service_revoke_cases[OF this] show ?thesis
    proof (elim disjE conjE)
      assume "s1 = s"
      with Inr r assms ServiceRevoke show ?thesis by auto
    next
      assume last: "isLastOwner i (as_store s) = Inr False"
        and rv: "revokeDevice i (as_store s) = Inr (b, as_store s1)"
      have "owner_inv (event_ids (RevokeEv i) @ ids) (as_store s1)"
        by (rule owner_inv_step[OF assms(1), where hash = hash])
          (use guarded_owner[OF assms(1) last] rv in \<open>auto simp del: dir_step.simps\<close>)
      with Inr r assms(2) ServiceRevoke show ?thesis by auto
    qed
  qed
next
  case (ServiceSetRole i r)
  show ?thesis
  proof (cases "role_store_setRole i r (as_store s)")
    case (Inl err)
    then show ?thesis using assms ServiceSetRole by auto
  next
    case (Inr x)
    obtain b store where x: "x = (b, store)" by fastforce
    from Inr x have set: "setCredentialRole i r (as_store s) = Inr (b, store)"
      and guard: "r = Owner \<or> isLastOwner i (as_store s) = Inr False"
      by (auto simp: role_store_setRole_def sum_bind_Inr split: if_splits)
    have "owner_inv (event_ids (SetRoleEv i r) @ ids) store"
    proof (rule owner_inv_step[OF assms(1), where hash = hash])
      fix f assume f: "read (as_store s) = Inr f"
      show "dir_owners (dir_step hash (SetRoleEv i r) (directory_of f)) \<noteq> []"
      proof (cases "r = Owner")
        case True
        then show ?thesis using assms(1) f owner_role_kept by (simp add: owner_inv_def)
      next
        case False
        with guard guarded_owner[OF assms(1) _ _ f] show ?thesis by blast
      qed
    qed (use set in auto)
    with Inr x assms(2) ServiceSetRole show ?thesis by auto
  qed
qed

lemma owner_inv_run:
  assumes "owner_inv ids (as_store s)" and "fresh_events hash ids es"
  shows "\<exists>ids'. owner_inv ids' (as_store (fold (access_step hash) es s))"
  using assms
proof (induction es arbitrary: ids s)
  case (Cons ev es)
  then show ?case using owner_inv_access_step[OF Cons.prems] by fastforce
qed auto

lemma assertName_ok: "assertName n = Inr m \<Longrightarrow> m = js_trim n \<and> m \<noteq> [] \<and> length m \<le> DEVICE_NAME_MAX_LENGTH"
  by (auto simp: assertName_def Let_def split: if_splits)

section \<open>Properties\<close>

text \<open>C3. The daemon never loses its last owner: from a store with an owner and pairwise different
  credential ids, whatever devices pair, register, rename, sign in, are revoked through the service
  (by themselves or by others) or have their role set through the role store, some device is an
  owner afterwards.\<close>

theorem owner_never_lost:
  assumes "read (as_store s) = Inr f" and "distinct (dir_ids (directory_of f))"
    and "list_ex (\<lambda>d. dev_role d = Owner) (file_devices f)"
    and "fresh_events hash (dir_ids (directory_of f)) es"
  shows "\<exists>f1. read (as_store (fold (access_step hash) es s)) = Inr f1 \<and>
    list_ex (\<lambda>d. dev_role d = Owner) (file_devices f1)"
proof -
  have owners: "dir_owners (directory_of g) \<noteq> [] \<longleftrightarrow> list_ex (\<lambda>d. dev_role d = Owner) (file_devices g)" for g
  proof -
    have "map (\<lambda>e. dev_role (fst e)) (dir_entries (directory_of g)) = map dev_role (file_devices g)"
      using arg_cong[OF file_devices_erased[of g], of "map dev_role"] by (simp add: comp_def)
    then show ?thesis
      unfolding owners_role list_ex_iff by (metis (mono_tags, lifting) image_iff list.set_map)
  qed
  have "owner_inv (dir_ids (directory_of f)) (as_store s)"
    using assms owners by (simp add: owner_inv_def)
  from owner_inv_run[OF this assms(4)] obtain ids' where
    "owner_inv ids' (as_store (fold (access_step hash) es s))" by blast
  then show ?thesis
    by (cases "read (as_store (fold (access_step hash) es s))") (simp_all add: owner_inv_def owners)
qed

definition owner_state :: access_state where
  "owner_state = \<lparr>as_store = createClaimStore (Some v1_home) None, as_codes = createPairingCodeStore None,
     as_requests = createPairingRequestStore None None,
     as_config = \<lparr>cfg_claimMode = False, cfg_trustLan = False, cfg_passwordHash = None\<rparr>,
     as_revoked = [], as_settingsChanged = 0\<rparr>"

lemma v1_home_read:
  "\<exists>f. read (createClaimStore (Some v1_home) None) = Inr f \<and> dir_ids (directory_of f) = [''crd_0''] \<and>
     map dev_role (file_devices f) = [Owner]"
  by (simp add: read_def load_def createClaimStore_def v1_home_def upgradePrincipalsFile_def
      LegacyFileSchema_def LegacyCredentialSchema_def is_sha256_hex_def list_all_iff dir_ids_def
      directory_of_def upgrade_principal_def upgrade_credential_def entry_of_def toDevice_def file_devices_def)

lemma sample_draws_id: "md_credentialId sample_draws = ''crd_1''"
  by (simp add: sample_draws_def)

theorem owner_never_lost_witness:
  "\<exists>f1. read (as_store (fold (access_step sample_hash)
       [ServiceRevoke None ''crd_0'', StoreEvent (MintEv sample_draws sample_input),
        ServiceSetRole ''crd_0'' Viewer] owner_state)) = Inr f1 \<and>
     list_ex (\<lambda>d. dev_role d = Owner) (file_devices f1)"
proof -
  obtain f where f: "read (as_store owner_state) = Inr f" "dir_ids (directory_of f) = [''crd_0'']"
    "map dev_role (file_devices f) = [Owner]"
    using v1_home_read by (auto simp: owner_state_def)
  then have "list_ex (\<lambda>d. dev_role d = Owner) (file_devices f)" by (auto simp: map_eq_Cons_conv)
  moreover have "fresh_events sample_hash (dir_ids (directory_of f))
      [ServiceRevoke None ''crd_0'', StoreEvent (MintEv sample_draws sample_input),
       ServiceSetRole ''crd_0'' Viewer]"
    using sample_draws_ok by (simp add: f(2) sample_draws_id)
  ultimately show ?thesis
    by (intro owner_never_lost[OF f(1)]) (simp_all add: f(2) del: fresh_events.simps)
qed

lemma set_update_subset: "set (AList.update k v m) \<subseteq> insert (k, v) (set m)"
  by (induction m) (auto split: if_splits)

lemma code_prune_subset: "set (pc_live (code_prune t c)) \<subseteq> set (pc_live c)"
  using prune_live_sub by (fastforce simp: code_prune_def)

lemma issued_codes:
  assumes "code_issue t1 (Some r) ttl t2 draws t3 c = Some (issued, c1)" and "(k, e) \<in> set (pc_live c1)"
  shows "(k, e) \<in> set (pc_live c) \<or> pc_role e = r"
proof -
  obtain code x where "c1 = code_prune t3 ((code_prune t1 c)\<lparr>pc_live := AList.update code
      \<lparr>pc_role = r, pc_expiresAtMs = x\<rparr> (pc_live (code_prune t1 c))\<rparr>)"
    using assms(1) by (auto simp: code_issue_def Let_def split: option.splits)
  then have "(k, e) \<in> set (AList.update code \<lparr>pc_role = r, pc_expiresAtMs = x\<rparr> (pc_live (code_prune t1 c)))"
    using assms(2) code_prune_subset by fastforce
  then show ?thesis using set_update_subset code_prune_subset by fastforce
qed

lemma decided_requests:
  assumes "(k, e) \<in> set (pr_entries (snd (pr_decide t reqId decision r name q)))"
  shows "(k, e) \<in> set (pr_entries q) \<or> (\<exists>e0. pe_outcome e = Some (decided_outcome decision r name e0))"
proof -
  have sub: "set (pr_entries (pr_prune t q)) \<subseteq> set (pr_entries q)" by (simp add: pr_prune_def drop_expired_def)
  show ?thesis
  proof (cases "find (\<lambda>(k, e). pe_outcome e = None \<and> pr_id (pe_record e) = reqId) (pr_entries (pr_prune t q))")
    case None
    then show ?thesis using assms sub by (auto simp: pr_decide_def Let_def)
  next
    case (Some x)
    obtain k0 e0 where "x = (k0, e0)" by fastforce
    with Some assms have "(k, e) \<in> set (AList.update k0 (e0\<lparr>pe_outcome := Some (decided_outcome decision r name e0)\<rparr>)
        (pr_entries (pr_prune t q)))" by (simp add: pr_decide_def Let_def pr_notify_def)
    then have "(k, e) \<in> set (pr_entries (pr_prune t q)) \<or> e = e0\<lparr>pe_outcome := Some (decided_outcome decision r name e0)\<rparr>"
      using set_update_subset by fastforce
    then show ?thesis using sub by auto
  qed
qed

text \<open>C7. Nobody hands out more than they have. When a pairing code is created, the caller is more than a viewer, the role that
  is reported is at most the caller's own, and so is the role stored with every live code that was not in the store before; a
  decision on a pairing request leaves every entry as it was, denied, or approved for a role at most the caller's own; another
  device is renamed or revoked only by an owner, and settings and password are changed only by an owner.\<close>

theorem no_escalation:
  "(service_createPairingCode sid fp links draws caller r ttl s = Inr (code, s1) \<longrightarrow>
      Viewer < callerRole caller \<and> cc_role code \<le> callerRole caller \<and>
      (\<forall>k e. (k, e) \<in> set (pc_live (as_codes s1)) \<longrightarrow>
         (k, e) \<in> set (pc_live (as_codes s)) \<or> pc_role e \<le> callerRole caller)) \<and>
   (service_decidePairingRequest t caller reqId decision r name s = Inr s1 \<longrightarrow>
      (\<forall>k e. (k, e) \<in> set (pr_entries (as_requests s1)) \<longrightarrow>
         (k, e) \<in> set (pr_entries (as_requests s)) \<or> pe_outcome e = Some PrDenied \<or>
         (\<exists>role n. pe_outcome e = Some (PrApproved role n) \<and> role \<le> callerRole caller))) \<and>
   (service_revokeDevice caller i s = Inr (True, s1) \<longrightarrow>
      callerRole caller = Owner \<or> map_option caller_id caller = Some i) \<and>
   (service_renameDevice online caller i n s = Inr (d, s1) \<longrightarrow>
      callerRole caller = Owner \<or> map_option caller_id caller = Some i) \<and>
   (service_updateSettings caller cm lan s = Inr (st, s1) \<longrightarrow> callerRole caller = Owner) \<and>
   (service_setPassword hash caller pw s = Inr (st, s1) \<longrightarrow> callerRole caller = Owner)"
proof (intro conjI impI allI)
  assume created: "service_createPairingCode sid fp links draws caller r ttl s = Inr (code, s1)"
  let ?r = "case r of None \<Rightarrow> Operator | Some x \<Rightarrow> x"
  obtain issued where r: "?r = Owner \<longrightarrow> requireOwner caller = Inr ()" and v: "callerRole caller \<noteq> Viewer"
      and code: "cc_role code = ?r" and issued: "code_issue (cd_now1 draws) (Some ?r) ttl (cd_now2 draws) (cd_draws draws)
        (cd_now3 draws) (as_codes s) = Some (issued, as_codes s1)"
    using created by (auto simp: service_createPairingCode_def Let_def sum_bind_Inr split: if_splits option.splits)
  have own: "?r \<le> callerRole caller"
    using r v by (cases ?r; cases "callerRole caller") (auto simp: requireOwner_def less_eq_device_role_def)
  with code show "cc_role code \<le> callerRole caller" by simp
  from v show "Viewer < callerRole caller"
    by (cases "callerRole caller") (auto simp: less_device_role_def)
  show "(k, e) \<in> set (pc_live (as_codes s)) \<or> pc_role e \<le> callerRole caller" if "(k, e) \<in> set (pc_live (as_codes s1))" for k e
    using issued_codes [OF issued that] own by auto
next
  fix k e
  assume decided: "service_decidePairingRequest t caller reqId decision r name s = Inr s1"
    and e: "(k, e) \<in> set (pr_entries (as_requests s1))"
  let ?r = "case r of None \<Rightarrow> Operator | Some x \<Rightarrow> x"
  obtain name' where guard: "decision = Approve \<longrightarrow> (?r = Owner \<longrightarrow> requireOwner caller = Inr ()) \<and> callerRole caller \<noteq> Viewer"
      and s1: "as_requests s1 = snd (pr_decide t reqId decision r name' (as_requests s))"
    using decided by (auto simp: service_decidePairingRequest_def sum_bind_Inr Let_def case_prod_beta split: if_splits)
  have own: "decision = Approve \<Longrightarrow> ?r \<le> callerRole caller"
    using guard by (cases ?r; cases "callerRole caller") (auto simp: requireOwner_def less_eq_device_role_def)
  from decided_requests [OF e [unfolded s1]]
  show "(k, e) \<in> set (pr_entries (as_requests s)) \<or> pe_outcome e = Some PrDenied \<or>
         (\<exists>role n. pe_outcome e = Some (PrApproved role n) \<and> role \<le> callerRole caller)"
    using own by (cases decision) (auto simp: decided_outcome_def)
next
  assume "service_revokeDevice caller i s = Inr (True, s1)"
  then show "callerRole caller = Owner \<or> map_option caller_id caller = Some i"
    by (auto simp: service_revokeDevice_def sum_bind_Inr require_self_or_owner_def requireOwner_def
        getDevice_def find_Some_iff split: option.splits if_splits)
next
  assume "service_renameDevice online caller i n s = Inr (d, s1)"
  then show "callerRole caller = Owner \<or> map_option caller_id caller = Some i"
    by (auto simp: service_renameDevice_def sum_bind_Inr require_self_or_owner_def requireOwner_def
        getDevice_def find_Some_iff split: option.splits if_splits)
qed (auto simp: service_updateSettings_def service_setPassword_def sum_bind_Inr requireOwner_def
      split: if_splits)

theorem no_escalation_witness:
  "\<exists>code s1. service_createPairingCode ''srv'' ''fp'' (\<lambda>_ _. [])
       \<lparr>cd_now1 = 1, cd_now2 = 1, cd_now3 = 1, cd_draws = [\<lambda>_. 0]\<rparr>
       (Some \<lparr>caller_id = ''crd_9'', caller_name = ''Tablet'', caller_role = Operator\<rparr>)
       None TtlUndefined owner_state = Inr (code, s1) \<and> cc_role code \<le> Operator"
proof -
  let ?caller = "Some \<lparr>caller_id = ''crd_9'', caller_name = ''Tablet'', caller_role = Operator\<rparr>"
  let ?draws = "\<lparr>cd_now1 = 1, cd_now2 = 1, cd_now3 = 1, cd_draws = [\<lambda>_. 0]\<rparr>"
  have live: "pc_live (code_prune 1 (createPairingCodeStore None)) = []"
    by (simp add: code_prune_def createPairingCodeStore_def prune_live_def drop_expired_def)
  obtain code s1 where ok: "service_createPairingCode ''srv'' ''fp'' (\<lambda>_ _. []) ?draws ?caller None
      TtlUndefined owner_state = Inr (code, s1)"
    using live
    by (simp add: service_createPairingCode_def callerRole_def owner_state_def code_issue_def Let_def
        map_has_def)
  moreover have "callerRole ?caller = Operator" by (simp add: callerRole_def)
  ultimately show ?thesis
    using no_escalation[of "''srv''" "''fp''" "\<lambda>_ _. []" ?draws ?caller None TtlUndefined owner_state code s1]
    by auto
qed

end
