(* ===== verification/PairingRoutes.thy ===== *)
theory PairingRoutes
  imports DeviceAccess
begin

text \<open>
  The HTTP routes through which a device gets its credential (\<open>device-access-routes.ts\<close>): redeeming
  an offer token or a pairing code, claiming an unclaimed daemon in claim mode, asking an owner and
  polling for the answer, and logging in with the password. A handler reads the parsed body of its
  request and returns its reply and the new state; the claim store is the one the bearer
  configuration looks devices up in. A body that is not JSON of the right shape is \<open>None\<close>; an
  exception is the reply \<open>ReplyThrown\<close>. The \<open>onPaired\<close> callback is logged.
\<close>

section \<open>State, requests and replies\<close>

record route_state =
  rt_store :: claim_store
  rt_offers :: claim_offer_store
  rt_codes :: pairing_code_store
  rt_requests :: pairing_request_store
  rt_password :: "string option"
  rt_settings :: access_settings
  rt_limiter :: "limiter option"
  rt_localToken :: "string option option"
  rt_verified :: "(string, unit) js_map"
  rt_paired :: "(minted_principal \<times> paired_via) list"

definition auth_view :: "route_state \<Rightarrow> daemon_auth" where
  "auth_view st =
     \<lparr>da_password = rt_password st, da_access = Some (rt_settings st, rt_store st),
      da_limiter = rt_limiter st, da_localToken = rt_localToken st, da_verified = rt_verified st\<rparr>"

datatype claim_scope = ScopeAny | ScopeLocal

record route_deps =
  dep_serverId :: string
  dep_fingerprint :: string
  dep_claimMode :: bool
  dep_claimScope :: "claim_scope option"
  dep_isLocalToken :: "(string option \<Rightarrow> bool) option"

record route_clock =
  rc_block :: time_ms
  rc_record :: time_ms
  rc_now1 :: time_ms
  rc_now2 :: time_ms
  rc_now3 :: time_ms

record device_claim_request =
  rq_token :: "string option"
  rq_pairingCode :: "string option"
  rq_claim :: "unit option"
  rq_deviceName :: "string option"
  rq_label :: "string option"

record device_claim_response =
  rsp_serverId :: string
  rsp_minted :: minted_principal
  rsp_fingerprint :: string

datatype http_reply =
    ReplyError nat
  | ReplyPaired nat device_claim_response
  | ReplyCreated string string time_ms
  | ReplyPoll pairing_request_state
  | ReplyThrown auth_error

definition DEFAULT_DEVICE_NAME :: string where
  "DEFAULT_DEVICE_NAME = ''Paired device''"

section \<open>Bodies\<close>

definition DeviceNameSchema :: "string \<Rightarrow> string option" where
  "DeviceNameSchema s =
     (let t = js_trim s in if length t \<ge> 1 \<and> length t \<le> DEVICE_NAME_MAX_LENGTH then Some t else None)"

text \<open>An optional field: absent, or present and accepted by its schema.\<close>

definition opt_field :: "('a \<Rightarrow> 'b option) \<Rightarrow> 'a option \<Rightarrow> 'b option option" where
  "opt_field schema v = (case v of None \<Rightarrow> Some None | Some x \<Rightarrow> map_option Some (schema x))"

definition DeviceClaimRequestSchema :: "device_claim_request \<Rightarrow> device_claim_request option" where
  "DeviceClaimRequestSchema r =
     (case (opt_field (\<lambda>t. if length t \<ge> 1 then Some t else None) (rq_token r),
            opt_field (\<lambda>c. if length c \<ge> 1 \<and> length c \<le> 32 then Some c else None) (rq_pairingCode r),
            opt_field DeviceNameSchema (rq_deviceName r), opt_field DeviceNameSchema (rq_label r)) of
        (Some token, Some code, Some name, Some label) \<Rightarrow>
          Some \<lparr>rq_token = token, rq_pairingCode = code, rq_claim = rq_claim r, rq_deviceName = name,
                rq_label = label\<rparr>
      | _ \<Rightarrow> None)"

definition PasswordLoginRequestSchema ::
  "string \<times> string option \<Rightarrow> (string \<times> string option) option" where
  "PasswordLoginRequestSchema body =
     (case body of (password, name) \<Rightarrow>
        if length password \<ge> 1 \<and> length password \<le> 1024
        then map_option (Pair password) (opt_field DeviceNameSchema name) else None)"

section \<open>Handlers\<close>

definition route_blocked :: "string \<Rightarrow> route_clock \<Rightarrow> route_state \<Rightarrow> bool" where
  "route_blocked key clock st = limiter_blocks key (rc_block clock) (auth_view st)"

definition route_failure :: "string \<Rightarrow> route_clock \<Rightarrow> route_state \<Rightarrow> route_state" where
  "route_failure key clock st = st\<lparr>rt_limiter := map_option (recordFailure key (rc_record clock)) (rt_limiter st)\<rparr>"

definition route_success :: "string \<Rightarrow> route_clock \<Rightarrow> route_state \<Rightarrow> route_state" where
  "route_success key clock st = st\<lparr>rt_limiter := map_option (recordSuccess key (rc_record clock)) (rt_limiter st)\<rparr>"

definition claimResponse :: "route_deps \<Rightarrow> minted_principal \<Rightarrow> device_claim_response" where
  "claimResponse deps minted =
     \<lparr>rsp_serverId = dep_serverId deps, rsp_minted = minted, rsp_fingerprint = dep_fingerprint deps\<rparr>"

definition mint ::
  "crypto \<Rightarrow> route_deps \<Rightarrow> mint_draws \<Rightarrow> string \<Rightarrow> device_role \<Rightarrow> paired_via \<Rightarrow> route_state \<Rightarrow>
     auth_error + (device_claim_response \<times> route_state)" where
  "mint cr deps draws deviceName r via st =
     sum_bind (store_result (mintPrincipal (cr_sha256 cr) draws
         \<lparr>mi_label = deviceName, mi_deviceName = Some deviceName, mi_role = Some r,
          mi_pairedVia = Some via, mi_permissions = None\<rparr> (rt_store st))) (\<lambda>(minted, store).
       Inr (claimResponse deps minted,
            st\<lparr>rt_store := store, rt_paired := rt_paired st @ [(minted, via)]\<rparr>))"

definition reply_minted ::
  "nat \<Rightarrow> auth_error + (device_claim_response \<times> route_state) \<Rightarrow> route_state \<Rightarrow> http_reply \<times> route_state" where
  "reply_minted status r st =
     (case r of Inl e \<Rightarrow> (ReplyThrown e, st) | Inr (resp, st1) \<Rightarrow> (ReplyPaired status resp, st1))"

definition isLocalClaimant :: "route_deps \<Rightarrow> request_like \<Rightarrow> string option \<Rightarrow> route_state \<Rightarrow> bool" where
  "isLocalClaimant deps req authorization st =
     (let address = (case clientAddress (rt_settings st) req of None \<Rightarrow> remoteAddress req | Some a \<Rightarrow> Some a) in
      if \<not> isLoopbackIp address then False
      else
        let token = extractHttpBearerToken authorization in
        case dep_isLocalToken deps of None \<Rightarrow> False | Some matches \<Rightarrow> matches token)"

definition handleOpenClaim ::
  "crypto \<Rightarrow> route_deps \<Rightarrow> route_clock \<Rightarrow> mint_draws \<Rightarrow> request_like \<Rightarrow> string option \<Rightarrow> string \<Rightarrow> string \<Rightarrow>
     route_state \<Rightarrow> http_reply \<times> route_state" where
  "handleOpenClaim cr deps clock draws req authorization key deviceName st =
     (if \<not> dep_claimMode deps then (ReplyError 409, st)
      else if dep_claimScope deps = Some ScopeLocal \<and> \<not> isLocalClaimant deps req authorization st
      then (ReplyError 403, route_failure key clock st)
      else
        (case isDaemonClaimed (rt_store st) (rt_password st) of
           Inl e \<Rightarrow> (ReplyThrown (StoreFailed e), st)
         | Inr True \<Rightarrow> (ReplyError 409, route_failure key clock st)
         | Inr False \<Rightarrow> reply_minted 201 (mint cr deps draws deviceName Owner ViaClaim st) st))"

definition present :: "'a option \<Rightarrow> nat" where
  "present v = (if v = None then 0 else 1)"

definition deviceClaimHandler ::
  "crypto \<Rightarrow> route_deps \<Rightarrow> route_clock \<Rightarrow> mint_draws \<Rightarrow> request_like \<Rightarrow> string option \<Rightarrow>
     device_claim_request option \<Rightarrow> route_state \<Rightarrow> http_reply \<times> route_state" where
  "deviceClaimHandler cr deps clock draws req authorization body st =
     (case Option.bind body DeviceClaimRequestSchema of
        None \<Rightarrow> (ReplyError 400, st)
      | Some r \<Rightarrow>
          let key = clientKey req (auth_view st) in
          if route_blocked key clock st then (ReplyError 429, st)
          else if present (rq_token r) + present (rq_pairingCode r) + present (rq_claim r) \<noteq> 1
          then (ReplyError 400, st)
          else
            let deviceName = (case rq_deviceName r of Some n \<Rightarrow> n
                 | None \<Rightarrow> (case rq_label r of Some l \<Rightarrow> l | None \<Rightarrow> DEFAULT_DEVICE_NAME)) in
            case rq_token r of
              Some token \<Rightarrow>
                (let (ok, offers) = offer_consume (rc_now1 clock) (rc_now2 clock) token (rt_offers st);
                     st1 = st\<lparr>rt_offers := offers\<rparr>
                 in if \<not> ok then (ReplyError 403, route_failure key clock st1)
                    else
                      let st2 = route_success key clock st1
                      in reply_minted 201 (mint cr deps draws deviceName Owner ViaClaim st2) st2)
            | None \<Rightarrow>
                (case rq_pairingCode r of
                   Some code \<Rightarrow>
                     (let (redeemed, codes) = code_redeem (rc_now1 clock) (rc_now2 clock) code (rt_codes st);
                          st1 = st\<lparr>rt_codes := codes\<rparr>
                      in case redeemed of
                           None \<Rightarrow> (ReplyError 403, route_failure key clock st1)
                         | Some c \<Rightarrow>
                             let st2 = route_success key clock st1
                             in reply_minted 201
                                  (mint cr deps draws deviceName (code_role c) ViaCode st2) st2)
                 | None \<Rightarrow> handleOpenClaim cr deps clock draws req authorization key deviceName st))"

text \<open>The random values of a new pairing request: its two identifiers and the match code draw.\<close>

record request_draws =
  rd_id :: string
  rd_pollId :: string
  rd_match :: "nat \<Rightarrow> nat"

definition pairingRequestCreateHandler ::
  "route_clock \<Rightarrow> request_draws \<Rightarrow> request_like \<Rightarrow> string option \<Rightarrow> route_state \<Rightarrow> http_reply \<times> route_state" where
  "pairingRequestCreateHandler clock draws req body st =
     (case Option.bind body DeviceNameSchema of
        None \<Rightarrow> (ReplyError 400, st)
      | Some deviceName \<Rightarrow>
          let key = clientKey req (auth_view st) in
          if route_blocked key clock st then (ReplyError 429, st)
          else
            (case isClaimed (rt_store st) of
               Inl e \<Rightarrow> (ReplyThrown (StoreFailed e), st)
             | Inr False \<Rightarrow> (ReplyError 409, st)
             | Inr True \<Rightarrow>
                 let (created, requests) = pr_create (rc_now1 clock) (rc_now2 clock) (rc_now3 clock)
                       (rd_id draws) (rd_pollId draws) (rd_match draws) deviceName (remoteAddress req)
                       (rt_requests st);
                     st1 = st\<lparr>rt_requests := requests\<rparr>
                 in case created of
                      None \<Rightarrow> (ReplyError 429, st1)
                    | Some r \<Rightarrow> (ReplyCreated (pr_pollId r) (pr_matchCode r) (pr_expiresAt r), st1)))"

definition pairingRequestPollHandler ::
  "crypto \<Rightarrow> route_deps \<Rightarrow> route_clock \<Rightarrow> mint_draws \<Rightarrow> string \<Rightarrow> route_state \<Rightarrow> http_reply \<times> route_state" where
  "pairingRequestPollHandler cr deps clock draws pollId st =
     (let (state, requests) = pr_poll (rc_now1 clock) pollId (rt_requests st);
          st1 = st\<lparr>rt_requests := requests\<rparr>
      in case state of
           None \<Rightarrow> (ReplyPoll PrExpired, st1)
         | Some (PrApproved r name) \<Rightarrow> reply_minted 200 (mint cr deps draws name r ViaApproval st1) st1
         | Some other \<Rightarrow> (ReplyPoll other, st1))"

definition passwordLoginHandler ::
  "crypto \<Rightarrow> route_deps \<Rightarrow> route_clock \<Rightarrow> mint_draws \<Rightarrow> request_like \<Rightarrow> (string \<times> string option) option \<Rightarrow>
     route_state \<Rightarrow> http_reply \<times> route_state" where
  "passwordLoginHandler cr deps clock draws req body st =
     (case Option.bind body PasswordLoginRequestSchema of
        None \<Rightarrow> (ReplyError 400, st)
      | Some (given, name) \<Rightarrow>
          let key = clientKey req (auth_view st) in
          if route_blocked key clock st then (ReplyError 429, st)
          else
            let password = or_else (rt_password st) [] in
            if password = [] then (ReplyError 409, st)
            else
              (case verifyDaemonPassword cr given password (rt_verified st) of
                 Inl e \<Rightarrow> (ReplyThrown e, st)
               | Inr (ok, verified) \<Rightarrow>
                   let st1 = st\<lparr>rt_verified := verified\<rparr> in
                   if \<not> ok then (ReplyError 401, route_failure key clock st1)
                   else
                     let st2 = route_success key clock st1
                     in reply_minted 201 (mint cr deps draws
                          (case name of None \<Rightarrow> DEFAULT_DEVICE_NAME | Some n \<Rightarrow> n) Owner ViaPassword st2) st2))"

section \<open>Requests\<close>

text \<open>One request to any of the routes, with what it reads of the environment.\<close>

datatype route_request =
    ClaimRequest mint_draws request_like "string option" "device_claim_request option"
  | CreateRequest request_draws request_like "string option"
  | PollRequest mint_draws string
  | LoginRequest mint_draws request_like "(string \<times> string option) option"

fun route_handle ::
  "crypto \<Rightarrow> route_deps \<Rightarrow> route_clock \<Rightarrow> route_request \<Rightarrow> route_state \<Rightarrow> http_reply \<times> route_state" where
  "route_handle cr deps clock (ClaimRequest draws req authorization body) st =
     deviceClaimHandler cr deps clock draws req authorization body st"
| "route_handle cr deps clock (CreateRequest draws req body) st =
     pairingRequestCreateHandler clock draws req body st"
| "route_handle cr deps clock (PollRequest draws pollId) st =
     pairingRequestPollHandler cr deps clock draws pollId st"
| "route_handle cr deps clock (LoginRequest draws req body) st =
     passwordLoginHandler cr deps clock draws req body st"

fun request_draws_ok :: "crypto \<Rightarrow> route_request \<Rightarrow> bool" where
  "request_draws_ok cr (ClaimRequest draws _ _ _) = ok_draws (cr_sha256 cr) draws"
| "request_draws_ok cr (PollRequest draws _) = ok_draws (cr_sha256 cr) draws"
| "request_draws_ok cr (LoginRequest draws _ _) = ok_draws (cr_sha256 cr) draws"
| "request_draws_ok cr (CreateRequest _ _ _) = True"

text \<open>The role a request may be granted: what its offer, code, approval or password stands for.\<close>

fun grants :: "crypto \<Rightarrow> route_deps \<Rightarrow> route_clock \<Rightarrow> route_request \<Rightarrow> route_state \<Rightarrow> device_role \<Rightarrow> bool" where
  "grants cr deps clock (ClaimRequest draws req authorization (Some body)) st r =
     ((\<exists>token. rq_token body = Some token \<and> r = Owner \<and>
         fst (offer_consume (rc_now1 clock) (rc_now2 clock) token (rt_offers st))) \<or>
      (\<exists>code c. rq_pairingCode body = Some code \<and> r = code_role c \<and>
         fst (code_redeem (rc_now1 clock) (rc_now2 clock) code (rt_codes st)) = Some c) \<or>
      (rq_claim body \<noteq> None \<and> r = Owner \<and> dep_claimMode deps \<and>
         isDaemonClaimed (rt_store st) (rt_password st) = Inr False))"
| "grants cr deps clock (PollRequest draws pollId) st r =
     (\<exists>name. fst (pr_poll (rc_now1 clock) pollId (rt_requests st)) = Some (PrApproved r name))"
| "grants cr deps clock (LoginRequest draws req (Some (given, name))) st r =
     (r = Owner \<and> (\<exists>verified. verifyDaemonPassword cr given (or_else (rt_password st) []) (rt_verified st) =
        Inr (True, verified)) \<and> or_else (rt_password st) [] \<noteq> [])"
| "grants cr deps clock _ st r = False"

section \<open>Lemmas\<close>

lemma opt_field_same:
  assumes "opt_field schema v = Some w" and "\<And>x y. schema x = Some y \<Longrightarrow> y = x"
  shows "w = v"
  using assms by (auto simp: opt_field_def split: option.splits)

lemma schema_fields:
  assumes "DeviceClaimRequestSchema body = Some r"
  shows "rq_token r = rq_token body \<and> rq_pairingCode r = rq_pairingCode body \<and> rq_claim r = rq_claim body"
proof -
  from assms obtain token code name label where
    "opt_field (\<lambda>t. if length t \<ge> 1 then Some t else None) (rq_token body) = Some token"
    "opt_field (\<lambda>c. if length c \<ge> 1 \<and> length c \<le> 32 then Some c else None) (rq_pairingCode body) = Some code"
    "r = \<lparr>rq_token = token, rq_pairingCode = code, rq_claim = rq_claim body, rq_deviceName = name,
      rq_label = label\<rparr>"
    unfolding DeviceClaimRequestSchema_def by (auto split: option.splits)
  moreover from this have "token = rq_token body" and "code = rq_pairingCode body"
    by (auto elim!: opt_field_same split: if_splits)
  ultimately show ?thesis by simp
qed

lemma reply_minted_paired:
  "reply_minted n r st = (ReplyPaired k resp, st1) \<longleftrightarrow> k = n \<and> r = Inr (resp, st1)"
  by (auto simp: reply_minted_def split: sum.splits)

lemma route_store_kept [simp]:
  "rt_store (route_failure key clock st) = rt_store st"
  "rt_store (route_success key clock st) = rt_store st"
  by (simp_all add: route_failure_def route_success_def)

text \<open>Every reply that pairs a device ends in one mint, for a role the request is granted.\<close>

definition paired_by ::
  "crypto \<Rightarrow> route_deps \<Rightarrow> route_clock \<Rightarrow> route_request \<Rightarrow> route_state \<Rightarrow> device_claim_response \<Rightarrow>
     route_state \<Rightarrow> bool" where
  "paired_by cr deps clock request st resp st1 =
     (\<exists>st0 draws name r via. rt_store st0 = rt_store st \<and> ok_draws (cr_sha256 cr) draws \<and>
        mint cr deps draws name r via st0 = Inr (resp, st1) \<and> grants cr deps clock request st r)"

lemma paired_byI:
  "rt_store st0 = rt_store st \<Longrightarrow> ok_draws (cr_sha256 cr) draws \<Longrightarrow>
   mint cr deps draws name r via st0 = Inr (resp, st1) \<Longrightarrow> grants cr deps clock request st r \<Longrightarrow>
   paired_by cr deps clock request st resp st1"
  unfolding paired_by_def by blast

lemma open_claim_paired:
  assumes "handleOpenClaim cr deps clock draws req authorization key name st = (ReplyPaired n resp, st1)"
  shows "dep_claimMode deps \<and> isDaemonClaimed (rt_store st) (rt_password st) = Inr False \<and>
    mint cr deps draws name Owner ViaClaim st = Inr (resp, st1)"
  using assms
  by (auto simp: handleOpenClaim_def reply_minted_paired split: if_splits sum.splits bool.splits)

lemma claim_handler_paired:
  assumes "deviceClaimHandler cr deps clock draws req authorization body st = (ReplyPaired n resp, st1)"
    and "ok_draws (cr_sha256 cr) draws"
  shows "paired_by cr deps clock (ClaimRequest draws req authorization body) st resp st1"
proof -
  from assms(1) obtain b r where b: "body = Some b" and r: "DeviceClaimRequestSchema b = Some r"
    by (auto simp: deviceClaimHandler_def split: option.splits Option.bind_splits)
  let ?key = "clientKey req (auth_view st)"
  define name where "name = (case rq_deviceName r of Some n \<Rightarrow> n
    | None \<Rightarrow> (case rq_label r of Some l \<Rightarrow> l | None \<Rightarrow> DEFAULT_DEVICE_NAME))"
  have unblocked: "\<not> route_blocked ?key clock st"
    and one: "present (rq_token r) + present (rq_pairingCode r) + present (rq_claim r) = 1"
    using assms(1) b r by (auto simp: deviceClaimHandler_def Let_def split: if_splits)
  note fields = schema_fields[OF r]
  show ?thesis
  proof (cases "rq_token r")
    case (Some token)
    obtain ok offers where o: "offer_consume (rc_now1 clock) (rc_now2 clock) token (rt_offers st) = (ok, offers)"
      by fastforce
    with Some assms(1) b r unblocked one have ok and
      m: "mint cr deps draws name Owner ViaClaim (route_success ?key clock (st\<lparr>rt_offers := offers\<rparr>)) =
        Inr (resp, st1)"
      by (auto simp: deviceClaimHandler_def Let_def reply_minted_paired name_def split: if_splits)
    show ?thesis
      by (rule paired_byI[OF _ assms(2) m]) (use Some fields b o \<open>ok\<close> in auto)
  next
    case none: None
    show ?thesis
    proof (cases "rq_pairingCode r")
      case (Some code)
      obtain redeemed codes where
        c: "code_redeem (rc_now1 clock) (rc_now2 clock) code (rt_codes st) = (redeemed, codes)" by fastforce
      with none Some assms(1) b r unblocked one obtain pc where pc: "redeemed = Some pc" and
        m: "mint cr deps draws name (code_role pc) ViaCode (route_success ?key clock (st\<lparr>rt_codes := codes\<rparr>)) =
          Inr (resp, st1)"
        by (auto simp: deviceClaimHandler_def Let_def reply_minted_paired name_def split: if_splits option.splits)
      show ?thesis
        by (rule paired_byI[OF _ assms(2) m]) (use Some fields b c pc in auto)
    next
      case None
      with none assms(1) b r unblocked one have
        "handleOpenClaim cr deps clock draws req authorization ?key name st = (ReplyPaired n resp, st1)"
        by (simp add: deviceClaimHandler_def Let_def name_def)
      from open_claim_paired[OF this] show ?thesis
        using None none one fields b assms(2)
        by (intro paired_byI[where r = Owner and via = ViaClaim and name = name and draws = draws])
          (auto simp: present_def split: if_splits)
    qed
  qed
qed

lemma poll_handler_paired:
  assumes "pairingRequestPollHandler cr deps clock draws pollId st = (ReplyPaired n resp, st1)"
    and "ok_draws (cr_sha256 cr) draws"
  shows "paired_by cr deps clock (PollRequest draws pollId) st resp st1"
proof -
  obtain state requests where p: "pr_poll (rc_now1 clock) pollId (rt_requests st) = (state, requests)"
    by fastforce
  with assms(1) obtain r name where "state = Some (PrApproved r name)" and
    m: "mint cr deps draws name r ViaApproval (st\<lparr>rt_requests := requests\<rparr>) = Inr (resp, st1)"
    by (auto simp: pairingRequestPollHandler_def Let_def reply_minted_paired
        split: option.splits pairing_request_state.splits)
  then show ?thesis by (intro paired_byI[OF _ assms(2) m]) (use p in auto)
qed

lemma login_handler_paired:
  assumes "passwordLoginHandler cr deps clock draws req body st = (ReplyPaired n resp, st1)"
    and "ok_draws (cr_sha256 cr) draws"
  shows "paired_by cr deps clock (LoginRequest draws req body) st resp st1"
proof -
  from assms(1) obtain given nm given' name where b: "body = Some (given, nm)"
    and p: "PasswordLoginRequestSchema (given, nm) = Some (given', name)"
    by (auto simp: passwordLoginHandler_def split: option.splits Option.bind_splits)
  then have g: "given' = given" by (auto simp: PasswordLoginRequestSchema_def split: if_splits)
  let ?key = "clientKey req (auth_view st)"
  from assms(1) b p g obtain verified where
    v: "verifyDaemonPassword cr given (or_else (rt_password st) []) (rt_verified st) = Inr (True, verified)"
    and pw: "or_else (rt_password st) [] \<noteq> []"
    and m: "mint cr deps draws (case name of None \<Rightarrow> DEFAULT_DEVICE_NAME | Some n \<Rightarrow> n) Owner ViaPassword
      (route_success ?key clock (st\<lparr>rt_verified := verified\<rparr>)) = Inr (resp, st1)"
    by (auto simp: passwordLoginHandler_def Let_def reply_minted_paired split: if_splits sum.splits)
  show ?thesis by (rule paired_byI[OF _ assms(2) m]) (use b v pw in auto)
qed

lemma create_not_paired:
  "pairingRequestCreateHandler clock draws req body st \<noteq> (ReplyPaired n resp, st1)"
  by (auto simp: pairingRequestCreateHandler_def Let_def split: option.splits sum.splits bool.splits prod.splits)

lemma route_paired:
  assumes "route_handle cr deps clock request st = (ReplyPaired n resp, st1)"
    and "request_draws_ok cr request"
  shows "paired_by cr deps clock request st resp st1"
  using assms claim_handler_paired poll_handler_paired login_handler_paired
  by (cases request) (auto simp: create_not_paired)

lemma mint_device:
  assumes "read (rt_store st) = Inr f" and "ok_draws (cr_sha256 cr) draws"
    and "mint cr deps draws name r via st = Inr (resp, st1)"
  shows "\<exists>d f1. findDeviceByToken (cr_sha256 cr) (mint_credential (rsp_minted resp)) (rt_store st1) = Inr (Some d) \<and>
    dev_role d = r \<and> dev_id d = mint_credentialId (rsp_minted resp) \<and> mint_role (rsp_minted resp) = r \<and>
    read (rt_store st1) = Inr f1 \<and> dir_claimedAt (directory_of f1) \<noteq> None \<and>
    (latched (directory_of f) \<longrightarrow> latched (directory_of f1))"
proof -
  let ?input = "\<lparr>mi_label = name, mi_deviceName = Some name, mi_role = Some r, mi_pairedVia = Some via,
    mi_permissions = None\<rparr>"
  from mint_lookup[OF assms(1,2), of ?input] obtain m s1 d f1 where
    m: "mintPrincipal (cr_sha256 cr) draws ?input (rt_store st) = Inr (m, s1)"
      "findDeviceByToken (cr_sha256 cr) (mint_credential m) s1 = Inr (Some d)"
      "d\<lparr>dev_lastSeenAt := None\<rparr> = minted_device draws ?input" "dev_id d = mint_credentialId m"
      "mint_role m = dev_role (minted_device draws ?input)" "read s1 = Inr f1"
      "directory_of f1 = dir_step (cr_sha256 cr) (MintEv draws ?input) (directory_of f)" by blast
  have role: "dev_role (minted_device draws ?input) = r"
    by (simp add: minted_device_def new_device_def Let_def)
  have "dev_role d = dev_role (d\<lparr>dev_lastSeenAt := None\<rparr>)" by simp
  with m(3) role have "dev_role d = r" by simp
  moreover have "latched (directory_of f1)" if "latched (directory_of f)"
    unfolding m(7) by (rule latched_step[OF that]) (simp add: assms(2))
  moreover have "dir_claimedAt (directory_of f1) \<noteq> None"
    unfolding m(7) by (simp split: option.splits)
  moreover have "rsp_minted resp = m" "rt_store st1 = s1"
    using assms(3) m(1) by (auto simp: mint_def store_result_def claimResponse_def)
  ultimately show ?thesis using m role by auto
qed

lemma open_claim_refused:
  assumes "isClaimed (rt_store st) = Inr True" and "rq_claim body \<noteq> None"
  shows "deviceClaimHandler cr deps clock draws req authorization (Some body) st \<noteq> (ReplyPaired n resp, st1)"
proof
  assume a: "deviceClaimHandler cr deps clock draws req authorization (Some body) st = (ReplyPaired n resp, st1)"
  then obtain r where r: "DeviceClaimRequestSchema body = Some r"
    by (auto simp: deviceClaimHandler_def split: option.splits)
  with schema_fields[OF r] assms(2) have claim: "rq_claim r \<noteq> None" by simp
  with a r have "rq_token r = None" "rq_pairingCode r = None"
    by (auto simp: deviceClaimHandler_def Let_def present_def split: if_splits)
  with a r obtain name where
    "handleOpenClaim cr deps clock draws req authorization (clientKey req (auth_view st)) name st =
       (ReplyPaired n resp, st1)"
    by (auto simp: deviceClaimHandler_def Let_def split: if_splits)
  from open_claim_paired[OF this] assms(1) show False
    by (auto simp: isDaemonClaimed_def split: if_splits)
qed

section \<open>Properties\<close>

text \<open>C1. What a route hands out works, and works for exactly what was granted: whenever a request
  to one of the pairing routes is answered with a credential, it presented a live offer token, a
  live code, an approval or the right password, or claimed an unclaimed daemon in claim mode; and
  the credential is from then on the bearer of a device with exactly the role that stands for.\<close>

theorem paired_credential_works:
  assumes "read (rt_store st) = Inr f" and "request_draws_ok cr request"
    and "route_handle cr deps clock request st = (ReplyPaired n resp, st1)"
  shows "\<exists>r d. grants cr deps clock request st r \<and> mint_role (rsp_minted resp) = r \<and>
    findDeviceByToken (cr_sha256 cr) (mint_credential (rsp_minted resp)) (rt_store st1) = Inr (Some d) \<and>
    dev_role d = r \<and> dev_id d = mint_credentialId (rsp_minted resp)"
proof -
  from route_paired[OF assms(3,2)] obtain st0 draws name r via where
    "rt_store st0 = rt_store st" "ok_draws (cr_sha256 cr) draws"
    "mint cr deps draws name r via st0 = Inr (resp, st1)" "grants cr deps clock request st r"
    by (auto simp: paired_by_def)
  with mint_device[of st0 f cr draws deps name r via resp st1] assms(1) show ?thesis by auto
qed

definition fresh_routes :: route_state where
  "fresh_routes =
     \<lparr>rt_store = createClaimStore None None, rt_offers = createClaimOfferStore None None,
      rt_codes = createPairingCodeStore None, rt_requests = createPairingRequestStore None None,
      rt_password = None,
      rt_settings = \<lparr>trustedProxies = TrustAll, trustLanSetting = None, claimModeSetting = Some True\<rparr>,
      rt_limiter = None, rt_localToken = None, rt_verified = [], rt_paired = []\<rparr>"

definition claim_deps :: route_deps where
  "claim_deps = \<lparr>dep_serverId = ''srv'', dep_fingerprint = ''fp'', dep_claimMode = True,
     dep_claimScope = None, dep_isLocalToken = None\<rparr>"

definition open_claim :: device_claim_request where
  "open_claim = \<lparr>rq_token = None, rq_pairingCode = None, rq_claim = Some (), rq_deviceName = None,
     rq_label = None\<rparr>"

definition clock_zero :: route_clock where
  "clock_zero = \<lparr>rc_block = 0, rc_record = 0, rc_now1 = 0, rc_now2 = 0, rc_now3 = 0\<rparr>"

lemma fresh_claim_paired:
  "\<exists>resp st1. route_handle sample_crypto claim_deps clock
     (ClaimRequest sample_draws sample_request None (Some open_claim)) fresh_routes = (ReplyPaired 201 resp, st1)"
proof -
  have ok: "ok_draws (cr_sha256 sample_crypto) sample_draws"
    using sample_draws_ok by (simp add: sample_crypto_def)
  from mint_lookup[OF read_fresh[of None] ok, of "\<lparr>mi_label = DEFAULT_DEVICE_NAME,
      mi_deviceName = Some DEFAULT_DEVICE_NAME, mi_role = Some Owner, mi_pairedVia = Some ViaClaim,
      mi_permissions = None\<rparr>"]
  obtain m s1 where "mintPrincipal (cr_sha256 sample_crypto) sample_draws \<lparr>mi_label = DEFAULT_DEVICE_NAME,
      mi_deviceName = Some DEFAULT_DEVICE_NAME, mi_role = Some Owner, mi_pairedVia = Some ViaClaim,
      mi_permissions = None\<rparr> (createClaimStore None None) = Inr (m, s1)" by blast
  moreover have "isClaimed (createClaimStore None None) = Inr False"
    by (simp add: isClaimed_def read_fresh file_claimed_def emptyPrincipalsFile_def or_else_def)
  ultimately show ?thesis
    by (simp add: deviceClaimHandler_def DeviceClaimRequestSchema_def opt_field_def open_claim_def
        route_blocked_def limiter_blocks_def auth_view_def fresh_routes_def present_def handleOpenClaim_def
        claim_deps_def isDaemonClaimed_def or_else_def mint_def store_result_def reply_minted_def)
qed

theorem paired_credential_works_witness:
  "\<exists>resp st1 r d. route_handle sample_crypto claim_deps clock_zero
       (ClaimRequest sample_draws sample_request None (Some open_claim)) fresh_routes = (ReplyPaired 201 resp, st1) \<and>
     mint_role (rsp_minted resp) = r \<and>
     findDeviceByToken (cr_sha256 sample_crypto) (mint_credential (rsp_minted resp)) (rt_store st1) = Inr (Some d) \<and>
     dev_role d = r"
proof -
  obtain resp st1 where paired: "route_handle sample_crypto claim_deps clock_zero
      (ClaimRequest sample_draws sample_request None (Some open_claim)) fresh_routes = (ReplyPaired 201 resp, st1)"
    using fresh_claim_paired by blast
  have "read (rt_store fresh_routes) = Inr emptyPrincipalsFile"
    by (simp add: fresh_routes_def read_fresh)
  from paired_credential_works[OF this _ paired] paired show ?thesis
    using sample_draws_ok by (auto simp: sample_crypto_def)
qed

text \<open>C6. The open claim closes. Take a daemon whose devices file has grown from an empty home through the store's operations
  (the side condition: a home with a file of other origin is not covered). Once any route has paired a device, a claim without
  token or code is not answered with a credential after any further run of the store's operations (mint, register,
  rename, revoke, change of role, touch, migration), whatever happened to the devices in between. Resetting the claim (the store's \<open>reset\<close>, which
  deletes the file) is not among these operations: after it the home is empty again and an open claim may succeed.\<close>

theorem open_claim_once:
  assumes "list_all (ok_event (cr_sha256 cr)) es"
    and "claim_run (cr_sha256 cr) es (createClaimStore None b) = Inr (rt_store st)"
    and "request_draws_ok cr request"
    and "route_handle cr deps clock request st = (ReplyPaired n resp, st1)"
    and "list_all (ok_event (cr_sha256 cr)) es'"
    and "claim_run (cr_sha256 cr) es' (rt_store st1) = Inr (rt_store st2)"
    and "rq_claim body \<noteq> None"
  shows "deviceClaimHandler cr deps' clock' draws req authorization (Some body) st2 \<noteq> (ReplyPaired n' resp', st3)"
proof (rule open_claim_refused[OF _ assms(7)])
  from run_refines[OF read_fresh assms(1), of b] assms(2) obtain f where
    f: "read (rt_store st) = Inr f" "directory_of f =
      fold (dir_step (cr_sha256 cr)) es (directory_of emptyPrincipalsFile)" by auto
  then have l: "latched (directory_of f)" using latched_run[OF latched_fresh assms(1)] by simp
  from route_paired[OF assms(4,3)] obtain st0 draws name r via where
    "rt_store st0 = rt_store st" "ok_draws (cr_sha256 cr) draws"
    "mint cr deps draws name r via st0 = Inr (resp, st1)"
    by (auto simp: paired_by_def)
  with mint_device[of st0 f cr draws deps name r via resp st1] f(1) l obtain f1 where
    f1: "read (rt_store st1) = Inr f1" "dir_claimedAt (directory_of f1) \<noteq> None" "latched (directory_of f1)"
    by auto
  from run_refines[OF f1(1) assms(5)] assms(6) obtain f2 where
    f2: "read (rt_store st2) = Inr f2"
      "directory_of f2 = fold (dir_step (cr_sha256 cr)) es' (directory_of f1)" by auto
  have "latched (directory_of f2)" using latched_run[OF f1(3) assms(5)] f2(2) by simp
  moreover have "dir_claimedAt (directory_of f2) \<noteq> None"
    using claimed_run[OF f1(2), of "cr_sha256 cr" es'] f2(2) by simp
  ultimately have "file_claimed f2" using claimed_iff by blast
  with f2(1) show "isClaimed (rt_store st2) = Inr True" by (simp add: isClaimed_def)
qed

theorem open_claim_once_witness:
  "\<exists>resp st1. route_handle sample_crypto claim_deps clock_zero
       (ClaimRequest sample_draws sample_request None (Some open_claim)) fresh_routes = (ReplyPaired 201 resp, st1) \<and>
     deviceClaimHandler sample_crypto claim_deps clock_zero sample_draws sample_request None (Some open_claim) st1
       \<noteq> (ReplyPaired 201 resp, st1)"
proof -
  obtain resp st1 where paired: "route_handle sample_crypto claim_deps clock_zero
      (ClaimRequest sample_draws sample_request None (Some open_claim)) fresh_routes = (ReplyPaired 201 resp, st1)"
    using fresh_claim_paired by blast
  have "deviceClaimHandler sample_crypto claim_deps clock_zero sample_draws sample_request None
      (Some open_claim) st1 \<noteq> (ReplyPaired 201 resp, st1)"
    by (rule open_claim_once[where es = "[]" and es' = "[]", OF _ _ _ paired])
      (use sample_draws_ok in \<open>simp_all add: sample_crypto_def fresh_routes_def open_claim_def\<close>)
  with paired show ?thesis by blast
qed

text \<open>The check for a local claimant looks at the resolved address alone: with trusted proxies a
  forwarded header naming a loopback address passes it, although such a request is not loopback to
  the access policy.\<close>

theorem forwarded_local_claimant:
  "\<exists>settings req deps st. rt_settings st = settings \<and> clientLocality settings req = Public \<and>
     isLocalClaimant deps req (Some ''Bearer t'') st"
proof -
  let ?req = "\<lparr>remoteAddress = Some ''8.8.8.8'', x_forwarded_for = ForwardedOne ''127.0.0.1''\<rparr>"
  let ?deps = "claim_deps\<lparr>dep_isLocalToken := Some (\<lambda>t. t = Some ''t'')\<rparr>"
  have hops: "rev (forwarded_hops (ForwardedOne ''127.0.0.1'')) = [''127.0.0.1'']" by code_simp
  have ip: "isIP (normalizeIp ''127.0.0.1'') = 4" by code_simp
  have loop: "isLoopbackIp (Some ''127.0.0.1'')" by code_simp
  have token: "extractHttpBearerToken (Some ''Bearer t'') = Some ''t''" by code_simp
  have res: "resolveForwardedClient (remoteAddress ?req) (x_forwarded_for ?req) TrustAll =
      (Some ''127.0.0.1'', True)"
    by (simp add: resolveForwardedClient_def hops isTrustedProxy_def ip)
  have "clientLocality (rt_settings fresh_routes) ?req = Public"
    using res loop by (simp add: clientLocality_def classifyRequestLocality_def classifyClientAddress_def fresh_routes_def)
  moreover have "isLocalClaimant ?deps ?req (Some ''Bearer t'') fresh_routes"
    using res loop token
    by (simp add: isLocalClaimant_def clientAddress_def resolveClientAddress_def fresh_routes_def)
  ultimately show ?thesis by blast
qed

end
