(* ===== verification/JsArray.thy ===== *)
theory JsArray
  imports Prelude "HOL-Library.Product_Lexorder"
begin

text \<open>
  The array methods of the JavaScript library that the timeline and stream theories use, and
  the facts about them: \<open>findIndex\<close>, \<open>slice\<close>, the truthiness of an optional string, object
  spread on string-keyed records, and the position of the last element. A call of \<open>sort\<close> with
  the comparison \<open>a.x - b.x || a.y - b.y\<close> is \<^const>\<open>sort_key\<close> on the pair of the keys, which is
  stable as the method is.
\<close>

named_theorems arr "positions and slices of arrays"

fun find_index :: "('a \<Rightarrow> bool) \<Rightarrow> 'a list \<Rightarrow> nat option" where
  "find_index P [] = None"
| "find_index P (x # xs) = (if P x then Some 0 else map_option Suc (find_index P xs))"

definition slice :: "nat \<Rightarrow> nat \<Rightarrow> 'a list \<Rightarrow> 'a list" where
  "slice i j xs = take (j - i) (drop i xs)"

text \<open>The last \<open>n\<close> elements: \<open>xs.slice(xs.length - n)\<close> for \<open>n\<close> at most the length.\<close>

definition last_n :: "nat \<Rightarrow> 'a list \<Rightarrow> 'a list" where
  "last_n n xs = drop (length xs - n) xs"

text \<open>\<open>s ? { key: s } : {}\<close>: an absent and an empty string are both dropped.\<close>

definition truthy :: "string option \<Rightarrow> string option" where
  "truthy s = (case s of None \<Rightarrow> None | Some t \<Rightarrow> if t = [] then None else Some t)"

text \<open>\<open>{ ...a, ...b }\<close>.\<close>

definition spread :: "('k, 'v) js_map \<Rightarrow> ('k, 'v) js_map \<Rightarrow> ('k, 'v) js_map" where
  "spread a b = fold (\<lambda>(k, v) m. AList.update k v m) b a"

definition head_opt :: "'a list \<Rightarrow> 'a option" where
  "head_opt xs = (case xs of [] \<Rightarrow> None | x # _ \<Rightarrow> Some x)"

definition last_opt :: "'a list \<Rightarrow> 'a option" where
  "last_opt xs = (if xs = [] then None else Some (last xs))"

section \<open>Positions\<close>

lemma find_index_None [arr]: "find_index P xs = None \<longleftrightarrow> (\<forall>x\<in>set xs. \<not> P x)"
  by (induction xs) auto

lemma find_index_Some:
  "find_index P xs = Some i \<Longrightarrow>
     i < length xs \<and> P (xs ! i) \<and> take i xs = takeWhile (\<lambda>x. \<not> P x) xs
     \<and> drop i xs = dropWhile (\<lambda>x. \<not> P x) xs"
  by (induction xs arbitrary: i) (auto split: if_splits)

lemma find_index_first:
  assumes "find_index P xs = Some i" "j < i"
  shows "\<not> P (xs ! j)"
  using assms
proof (induction xs arbitrary: i j)
  case (Cons x xs)
  then show ?case by (cases j) (auto split: if_splits)
qed simp

lemma dropWhile_filter_mono:
  assumes "sorted_wrt (\<lambda>x y. P x \<longrightarrow> P y) xs"
  shows "dropWhile (\<lambda>x. \<not> P x) xs = filter P xs"
  using assms by (induction xs) (auto simp: filter_id_conv)

lemma takeWhile_filter_mono:
  assumes "sorted_wrt (\<lambda>x y. P x \<longrightarrow> P y) xs"
  shows "takeWhile (\<lambda>x. \<not> P x) xs = filter (\<lambda>x. \<not> P x) xs"
  using assms by (induction xs) (auto simp: filter_empty_conv)

section \<open>Slices\<close>

lemma length_last_n [simp, arr]: "length (last_n n xs) = min n (length xs)"
  by (simp add: last_n_def)

lemma last_n_all [simp, arr]: "length xs \<le> n \<Longrightarrow> last_n n xs = xs"
  by (simp add: last_n_def)

lemma last_n_Nil [simp]: "last_n n xs = [] \<longleftrightarrow> n = 0 \<or> xs = []"
  by (cases xs) (auto simp: last_n_def)

lemma last_n_append: "xs = take (length xs - n) xs @ last_n n xs"
  by (simp add: last_n_def)

lemma set_last_n: "set (last_n n xs) \<subseteq> set xs"
  by (simp add: last_n_def set_drop_subset)

lemma head_opt_simps [simp]: "head_opt [] = None" "head_opt (x # xs) = Some x"
  by (simp_all add: head_opt_def)

lemma last_opt_simps [simp]: "last_opt [] = None" "last_opt (xs @ [x]) = Some x"
  by (simp_all add: last_opt_def)

lemma last_opt_Some: "last_opt xs = Some x \<longleftrightarrow> xs \<noteq> [] \<and> last xs = x"
  by (simp add: last_opt_def)

lemma last_opt_None [simp]: "last_opt xs = None \<longleftrightarrow> xs = []"
  by (simp add: last_opt_def)

section \<open>Spread\<close>

lemma spread_Nil [simp]: "spread a [] = a"
  by (simp add: spread_def)

lemma wf_map_spread: "wf_map a \<Longrightarrow> wf_map (spread a b)"
  by (induction b arbitrary: a) (auto simp: spread_def)

lemma get_spread:
  "wf_map b \<Longrightarrow> map_of (spread a b) k = (case map_of b k of None \<Rightarrow> map_of a k | Some v \<Rightarrow> Some v)"
proof (induction b arbitrary: a)
  case (Cons kv b)
  have "map_of b (fst kv) = None"
    using Cons.prems by (auto simp: wf_map_def map_of_eq_None_iff)
  with Cons show ?case
    by (cases kv) (auto simp: spread_def wf_map_def jsmap split: option.splits)
qed simp

end
