(* ===== verification/Timeline.thy ===== *)
theory Timeline
  imports JsArray
begin

text \<open>
  The timeline of an agent: the items a provider produces
  (\<open>protocol/src/agent-types.ts\<close>), the in-memory store that numbers them
  (\<open>server/agent/agent-timeline-store.ts\<close>), and the three ways a client reads a window of them.
  A tool call's detail is its type and the rest of the object as opaque text, because no
  operation here looks further; a caller's clock and UUID are arguments.
\<close>

section \<open>Items\<close>

datatype detail_type = DShell | DRead | DEdit | DWrite | DSearch | DFetch | DWorktreeSetup
  | DSubAgent | DPlainText | DPlan | DUnknown

record ToolCallDetail =
  td_type :: detail_type
  td_data :: string

datatype call_status = Running | Completed | Failed | Canceled

datatype call_error = ErrNull | ErrValue string

text \<open>The field \<open>error\<close> is absent (\<open>None\<close>), null or a value; \<open>tc_extra\<close> holds the keys of the index
  signature.\<close>

record ToolCallTimelineItem =
  tc_callId :: string
  tc_name :: string
  tc_detail :: ToolCallDetail
  tc_metadata :: "(string, string) js_map option"
  tc_status :: call_status
  tc_error :: "call_error option"
  tc_extra :: "(string, string) js_map"

record AgentTaskItem =
  task_text :: string
  task_completed :: bool
  task_id :: "string option"
  task_status :: "string option"
  task_activeForm :: "string option"

datatype AgentTimelineItem =
    UserMessage string "string option" "string option"
  | AssistantMessage string "string option"
  | Reasoning string
  | ToolCall ToolCallTimelineItem
  | Todo "AgentTaskItem list"
  | ErrorItem string
  | Compaction bool "string option" "int option" "string option"
  | LegacyPlugin string string string int string

definition timelineItemIdentity :: "AgentTimelineItem \<Rightarrow> string option" where
  "timelineItemIdentity item = (case item of ToolCall t \<Rightarrow> Some (tc_callId t) | _ \<Rightarrow> None)"

record AgentTimelineRow =
  row_seq :: int
  row_timestamp :: string
  row_item :: AgentTimelineItem
  row_turnId :: "string option"
  row_providerMessageId :: "string option"

section \<open>The store\<close>

record AgentTimelineState =
  tl_epoch :: string
  tl_rows :: "AgentTimelineRow list"
  tl_nextSeq :: int

type_synonym timeline_store = "(string, AgentTimelineState) js_map"

datatype timeline_error = UnknownAgent string | UndefinedRow

record SeedAgentTimelineOptions =
  seed_items :: "AgentTimelineItem list option"
  seed_rows :: "AgentTimelineRow list option"
  seed_epoch :: "string option"
  seed_nextSeq :: "int option"
  seed_timestamp :: "string option"

definition no_seed :: SeedAgentTimelineOptions where
  "no_seed = \<lparr>seed_items = None, seed_rows = None, seed_epoch = None, seed_nextSeq = None,
     seed_timestamp = None\<rparr>"

definition requireState :: "timeline_store \<Rightarrow> string \<Rightarrow> timeline_error + AgentTimelineState" where
  "requireState st agentId = (case map_get st agentId of
       None \<Rightarrow> Inl (UnknownAgent agentId)
     | Some s \<Rightarrow> Inr s)"

fun buildRowsFromItems :: "AgentTimelineItem list \<Rightarrow> int \<Rightarrow> string \<Rightarrow> AgentTimelineRow list" where
  "buildRowsFromItems [] nextSeq timestamp = []"
| "buildRowsFromItems (item # items) nextSeq timestamp =
     \<lparr>row_seq = nextSeq, row_timestamp = timestamp, row_item = item, row_turnId = None,
      row_providerMessageId = None\<rparr> # buildRowsFromItems items (nextSeq + 1) timestamp"

definition timeline_has :: "timeline_store \<Rightarrow> string \<Rightarrow> bool" where
  "timeline_has st agentId = map_has st agentId"

definition seed_state :: "SeedAgentTimelineOptions \<Rightarrow> string \<Rightarrow> string \<Rightarrow> AgentTimelineState" where
  "seed_state options uuid nowIso =
     (let timestamp = (case seed_timestamp options of Some t \<Rightarrow> t | None \<Rightarrow> nowIso);
          given = (case seed_rows options of Some rs \<Rightarrow> rs | None \<Rightarrow> []);
          rows = (if given \<noteq> [] then given
                  else buildRowsFromItems (case seed_items options of Some xs \<Rightarrow> xs | None \<Rightarrow> [])
                         (case seed_nextSeq options of Some n \<Rightarrow> n | None \<Rightarrow> 1) timestamp);
          nextSeq = (case seed_nextSeq options of
                       Some n \<Rightarrow> n
                     | None \<Rightarrow> (case last_opt rows of Some r \<Rightarrow> row_seq r + 1 | None \<Rightarrow> 1))
      in \<lparr>tl_epoch = (case seed_epoch options of Some e \<Rightarrow> e | None \<Rightarrow> uuid),
          tl_rows = rows, tl_nextSeq = nextSeq\<rparr>)"

definition timeline_initialize ::
  "timeline_store \<Rightarrow> string \<Rightarrow> SeedAgentTimelineOptions \<Rightarrow> string \<Rightarrow> string \<Rightarrow> timeline_store" where
  "timeline_initialize st agentId options uuid nowIso =
     AList.update agentId (seed_state options uuid nowIso) st"

definition timeline_delete :: "timeline_store \<Rightarrow> string \<Rightarrow> timeline_store" where
  "timeline_delete st agentId = AList.delete agentId st"

definition getItems :: "timeline_store \<Rightarrow> string \<Rightarrow> timeline_error + AgentTimelineItem list" where
  "getItems st agentId = map_sum id (\<lambda>s. map row_item (tl_rows s)) (requireState st agentId)"

definition getRows :: "timeline_store \<Rightarrow> string \<Rightarrow> timeline_error + AgentTimelineRow list" where
  "getRows st agentId = map_sum id tl_rows (requireState st agentId)"

definition is_submitted :: "string \<Rightarrow> AgentTimelineRow \<Rightarrow> bool" where
  "is_submitted clientMessageId row =
     (case row_item row of UserMessage _ _ c \<Rightarrow> c = Some clientMessageId | _ \<Rightarrow> False)"

definition getSubmittedUserMessage ::
  "timeline_store \<Rightarrow> string \<Rightarrow> string \<Rightarrow> timeline_error + AgentTimelineRow option" where
  "getSubmittedUserMessage st agentId clientMessageId =
     map_sum id (\<lambda>s. find (is_submitted clientMessageId) (tl_rows s)) (requireState st agentId)"

definition enrichSubmittedUserMessage ::
  "timeline_store \<Rightarrow> string \<Rightarrow> string \<Rightarrow> string
     \<Rightarrow> timeline_error + (AgentTimelineRow option \<times> timeline_store)" where
  "enrichSubmittedUserMessage st agentId clientMessageId providerMessageId =
     map_sum id
       (\<lambda>s. case find_index (is_submitted clientMessageId) (tl_rows s) of
              None \<Rightarrow> (None, st)
            | Some i \<Rightarrow>
                let enriched = (tl_rows s ! i)\<lparr>row_providerMessageId := Some providerMessageId\<rparr>
                in (Some enriched,
                    AList.update agentId (s\<lparr>tl_rows := (tl_rows s)[i := enriched]\<rparr>) st))
       (requireState st agentId)"

definition getEpoch :: "timeline_store \<Rightarrow> string \<Rightarrow> timeline_error + string" where
  "getEpoch st agentId = map_sum id tl_epoch (requireState st agentId)"

record append_options =
  ap_timestamp :: "string option"
  ap_providerMessageId :: "string option"
  ap_turnId :: "string option"

definition append_state ::
  "AgentTimelineState \<Rightarrow> AgentTimelineItem \<Rightarrow> append_options \<Rightarrow> string
     \<Rightarrow> AgentTimelineRow \<times> AgentTimelineState" where
  "append_state s item options nowIso =
     (let row = \<lparr>row_seq = tl_nextSeq s,
                 row_timestamp = (case ap_timestamp options of Some t \<Rightarrow> t | None \<Rightarrow> nowIso),
                 row_item = item, row_turnId = truthy (ap_turnId options),
                 row_providerMessageId = truthy (ap_providerMessageId options)\<rparr>
      in (row, s\<lparr>tl_nextSeq := tl_nextSeq s + 1, tl_rows := tl_rows s @ [row]\<rparr>))"

definition timeline_append ::
  "timeline_store \<Rightarrow> string \<Rightarrow> AgentTimelineItem \<Rightarrow> append_options \<Rightarrow> string
     \<Rightarrow> timeline_error + (AgentTimelineRow \<times> timeline_store)" where
  "timeline_append st agentId item options nowIso =
     map_sum id
       (\<lambda>s. case append_state s item options nowIso of
              (row, s') \<Rightarrow> (row, AList.update agentId s' st))
       (requireState st agentId)"

definition getLastItem :: "timeline_store \<Rightarrow> string \<Rightarrow> timeline_error + AgentTimelineItem option" where
  "getLastItem st agentId =
     map_sum id (\<lambda>s. map_option row_item (last_opt (tl_rows s))) (requireState st agentId)"

text \<open>The loop of \<open>getLastAssistantMessage\<close> over the rows from the last to the first, with the
  chunks it has pushed.\<close>

fun assistant_chunks :: "AgentTimelineItem list \<Rightarrow> string list \<Rightarrow> string list" where
  "assistant_chunks [] chunks = chunks"
| "assistant_chunks (AssistantMessage text messageId # items) chunks =
     assistant_chunks items (chunks @ [text])"
| "assistant_chunks (item # items) chunks =
     (if chunks \<noteq> [] then chunks else assistant_chunks items chunks)"

definition getLastAssistantMessage :: "timeline_store \<Rightarrow> string \<Rightarrow> timeline_error + string option" where
  "getLastAssistantMessage st agentId =
     map_sum id
       (\<lambda>s. let chunks = assistant_chunks (rev (map row_item (tl_rows s))) []
            in if chunks = [] then None else Some (concat (rev chunks)))
       (requireState st agentId)"

section \<open>Reading a window\<close>

record AgentTimelineCursor =
  cur_epoch :: string
  cur_seq :: int

datatype fetch_direction = Tail | Before | After

record AgentTimelineFetchOptions =
  fo_direction :: "fetch_direction option"
  fo_cursor :: "AgentTimelineCursor option"
  fo_limit :: "int option"

record AgentTimelineWindow =
  win_minSeq :: int
  win_maxSeq :: int
  win_nextSeq :: int

record AgentTimelineFetchResult =
  fr_epoch :: string
  fr_direction :: fetch_direction
  fr_reset :: bool
  fr_staleCursor :: bool
  fr_gap :: bool
  fr_window :: AgentTimelineWindow
  fr_hasOlder :: bool
  fr_hasNewer :: bool
  fr_rows :: "AgentTimelineRow list"

record FetchContext =
  fc_state :: AgentTimelineState
  fc_direction :: fetch_direction
  fc_limit :: nat
  fc_selectAll :: bool
  fc_cursor :: "AgentTimelineCursor option"
  fc_minSeq :: int
  fc_maxSeq :: int
  fc_window :: AgentTimelineWindow

definition DEFAULT_TIMELINE_FETCH_LIMIT :: nat where
  "DEFAULT_TIMELINE_FETCH_LIMIT = 200"

definition fetch_result ::
  "FetchContext \<Rightarrow> bool \<Rightarrow> bool \<Rightarrow> bool \<Rightarrow> bool \<Rightarrow> bool \<Rightarrow> AgentTimelineRow list
     \<Rightarrow> AgentTimelineFetchResult" where
  "fetch_result ctx reset stale gap hasOlder hasNewer rows =
     \<lparr>fr_epoch = tl_epoch (fc_state ctx), fr_direction = fc_direction ctx, fr_reset = reset,
      fr_staleCursor = stale, fr_gap = gap, fr_window = fc_window ctx, fr_hasOlder = hasOlder,
      fr_hasNewer = hasNewer, fr_rows = rows\<rparr>"

text \<open>\<open>selected.length > 0 && selected[0].seq > minSeq\<close>\<close>

definition starts_after :: "int \<Rightarrow> AgentTimelineRow list \<Rightarrow> bool" where
  "starts_after minSeq rows = (case rows of [] \<Rightarrow> False | r # _ \<Rightarrow> row_seq r > minSeq)"

definition fetchTail :: "FetchContext \<Rightarrow> AgentTimelineFetchResult" where
  "fetchTail ctx =
     (let rows = tl_rows (fc_state ctx);
          selected = (if fc_selectAll ctx \<or> fc_limit ctx \<ge> length rows then rows
                      else last_n (fc_limit ctx) rows)
      in fetch_result ctx False False False (starts_after (fc_minSeq ctx) selected) False selected)"

text \<open>Reading \<open>selected[0].seq\<close> of an empty selection would throw: the value \<^const>\<open>UndefinedRow\<close>.\<close>

definition fetchAfter :: "FetchContext \<Rightarrow> timeline_error + AgentTimelineFetchResult" where
  "fetchAfter ctx =
     (let rows = tl_rows (fc_state ctx);
          baseSeq = (case fc_cursor ctx of Some c \<Rightarrow> cur_seq c | None \<Rightarrow> 0)
      in case find_index (\<lambda>row. row_seq row > baseSeq) rows of
           None \<Rightarrow> Inr (fetch_result ctx False False False (baseSeq \<ge> fc_minSeq ctx) False [])
         | Some startIdx \<Rightarrow>
             let selected = (if fc_selectAll ctx then drop startIdx rows
                             else slice startIdx (startIdx + fc_limit ctx) rows)
             in case selected of
                  [] \<Rightarrow> Inl UndefinedRow
                | r # _ \<Rightarrow> Inr (fetch_result ctx False False False (row_seq r > fc_minSeq ctx)
                             (row_seq (last selected) < fc_maxSeq ctx) selected))"

definition fetchBefore :: "FetchContext \<Rightarrow> AgentTimelineFetchResult" where
  "fetchBefore ctx =
     (let rows = tl_rows (fc_state ctx);
          beforeSeq = (case fc_cursor ctx of Some c \<Rightarrow> cur_seq c | None \<Rightarrow> tl_nextSeq (fc_state ctx));
          endExclusive = find_index (\<lambda>row. row_seq row \<ge> beforeSeq) rows;
          boundedRows = (case endExclusive of None \<Rightarrow> rows | Some i \<Rightarrow> slice 0 i rows);
          selected = (if fc_selectAll ctx \<or> fc_limit ctx \<ge> length boundedRows then boundedRows
                      else last_n (fc_limit ctx) boundedRows)
      in fetch_result ctx False False False (starts_after (fc_minSeq ctx) selected)
           (endExclusive \<noteq> None) selected)"

definition fetchReset :: "FetchContext \<Rightarrow> bool \<Rightarrow> bool \<Rightarrow> AgentTimelineFetchResult" where
  "fetchReset ctx stale gap =
     (let all = tl_rows (fc_state ctx);
          rows = (if fc_selectAll ctx \<or> fc_limit ctx \<ge> length all then all
                  else last_n (fc_limit ctx) all)
      in fetch_result ctx True stale gap (starts_after (fc_minSeq ctx) rows) False rows)"

definition fetch_context :: "AgentTimelineState \<Rightarrow> AgentTimelineFetchOptions \<Rightarrow> FetchContext" where
  "fetch_context s options =
     (let limit = (case fo_limit options of
                     None \<Rightarrow> DEFAULT_TIMELINE_FETCH_LIMIT
                   | Some l \<Rightarrow> nat (max 0 l));
          minSeq = (case tl_rows s of [] \<Rightarrow> 0 | r # _ \<Rightarrow> row_seq r);
          maxSeq = (case last_opt (tl_rows s) of None \<Rightarrow> 0 | Some r \<Rightarrow> row_seq r)
      in \<lparr>fc_state = s,
          fc_direction = (case fo_direction options of None \<Rightarrow> Tail | Some d \<Rightarrow> d),
          fc_limit = limit, fc_selectAll = (limit = 0), fc_cursor = fo_cursor options,
          fc_minSeq = minSeq, fc_maxSeq = maxSeq,
          fc_window = \<lparr>win_minSeq = minSeq, win_maxSeq = maxSeq, win_nextSeq = tl_nextSeq s\<rparr>\<rparr>)"

definition fetch_state ::
  "AgentTimelineState \<Rightarrow> AgentTimelineFetchOptions \<Rightarrow> timeline_error + AgentTimelineFetchResult" where
  "fetch_state s options =
     (let ctx = fetch_context s options
      in if (case fc_cursor ctx of None \<Rightarrow> False | Some c \<Rightarrow> cur_epoch c \<noteq> tl_epoch s)
         then Inr (fetchReset ctx True False)
         else if fc_direction ctx = After \<and> tl_rows s \<noteq> []
                 \<and> (case fc_cursor ctx of None \<Rightarrow> False | Some c \<Rightarrow> cur_seq c < fc_minSeq ctx - 1)
         then Inr (fetchReset ctx False True)
         else if tl_rows s = [] then Inr (fetch_result ctx False False False False False [])
         else case fc_direction ctx of
                Tail \<Rightarrow> Inr (fetchTail ctx)
              | After \<Rightarrow> fetchAfter ctx
              | Before \<Rightarrow> Inr (fetchBefore ctx))"

definition timeline_fetch ::
  "timeline_store \<Rightarrow> string \<Rightarrow> AgentTimelineFetchOptions \<Rightarrow> timeline_error + AgentTimelineFetchResult" where
  "timeline_fetch st agentId options = sum_bind (requireState st agentId) (\<lambda>s. fetch_state s options)"

section \<open>The numbering invariant\<close>

definition wf_timeline :: "AgentTimelineState \<Rightarrow> bool" where
  "wf_timeline s = sorted_wrt (<) (map row_seq (tl_rows s) @ [tl_nextSeq s])"

definition wf_store :: "timeline_store \<Rightarrow> bool" where
  "wf_store st = (wf_map st \<and> (\<forall>(a, s)\<in>set st. wf_timeline s))"

text \<open>What a seed has to satisfy: its rows are increasing and below its next number, and it does
  not give a next number together with items that are still to be numbered.\<close>

definition wf_seed :: "SeedAgentTimelineOptions \<Rightarrow> bool" where
  "wf_seed options =
     (case seed_rows options of
        Some (r # rs) \<Rightarrow>
          sorted_wrt (<) (map row_seq (r # rs)) \<and>
          (case seed_nextSeq options of None \<Rightarrow> True | Some n \<Rightarrow> \<forall>x\<in>set (r # rs). row_seq x < n)
      | _ \<Rightarrow> seed_nextSeq options = None \<or> seed_items options \<in> {None, Some []})"

lemma seqs_buildRows: "map row_seq (buildRowsFromItems items n t) = [n..n + int (length items) - 1]"
  by (induction items n t rule: buildRowsFromItems.induct) (simp_all add: upto_rec1 add.commute)

lemma buildRows_Nil [simp]: "buildRowsFromItems items n t = [] \<longleftrightarrow> items = []"
  by (cases items) simp_all

lemma sorted_last_max:
  "sorted_wrt (<) (map f xs) \<Longrightarrow> x \<in> set xs \<Longrightarrow> f x \<le> (f (last xs) :: int)"
proof (induction xs)
  case (Cons y ys)
  then show ?case
    by (cases "ys = []") (auto dest: bspec [OF _ last_in_set] intro: less_imp_le)
qed simp

lemma sorted_upto_less: "sorted_wrt (<) [m..n]"
  by (simp add: strict_sorted_iff)

lemma sorted_buildRows: "sorted_wrt (<) (map row_seq (buildRowsFromItems items n t))"
  unfolding seqs_buildRows by (rule sorted_upto_less)

lemma wf_timelineI:
  assumes "sorted_wrt (<) (map row_seq rows)" "rows \<noteq> [] \<Longrightarrow> row_seq (last rows) < n"
  shows "wf_timeline \<lparr>tl_epoch = e, tl_rows = rows, tl_nextSeq = n\<rparr>"
proof -
  have "row_seq r < n" if "r \<in> set rows" for r
  proof -
    from that have "rows \<noteq> []" by auto
    with sorted_last_max [OF assms(1) that] assms(2) show ?thesis by simp
  qed
  with assms(1) show ?thesis by (auto simp: wf_timeline_def sorted_wrt_append)
qed

lemma seed_wf:
  assumes "wf_seed options"
  shows "wf_timeline (seed_state options uuid nowIso)"
proof (cases "\<exists>r rs. seed_rows options = Some (r # rs)")
  case True
  then show ?thesis
    using assms unfolding seed_state_def Let_def
    by (intro wf_timelineI) (auto simp: wf_seed_def last_opt_def split: option.splits if_splits)
next
  case False
  then have none: "(case seed_rows options of Some rs \<Rightarrow> rs | None \<Rightarrow> []) = []"
    by (auto split: option.splits) (meson list.exhaust)
  have "seed_nextSeq options = None \<or> seed_items options \<in> {None, Some []}"
    using assms False by (auto simp: wf_seed_def split: option.splits list.splits)
  then show ?thesis
    unfolding seed_state_def Let_def none
    by (intro wf_timelineI)
       (auto simp: sorted_buildRows last_opt_def split: option.splits)
qed

lemma append_wf: "wf_timeline s \<Longrightarrow> wf_timeline (snd (append_state s item options nowIso))"
  by (auto simp: wf_timeline_def append_state_def Let_def sorted_wrt_append)

lemma set_row_same_seq:
  assumes "i < length rows" "row_seq r = row_seq (rows ! i)"
  shows "map row_seq (rows[i := r]) = map row_seq rows"
  by (simp add: map_update assms(2)) (metis assms(1) list_update_id nth_map)

lemma set_row_wf:
  assumes "wf_timeline s" "i < length (tl_rows s)" "row_seq r = row_seq (tl_rows s ! i)"
  shows "wf_timeline (s\<lparr>tl_rows := (tl_rows s)[i := r]\<rparr>)"
  using assms(1) by (simp add: wf_timeline_def set_row_same_seq [OF assms(2,3)])

lemma wf_store_get: "wf_store st \<Longrightarrow> map_get st a = Some s \<Longrightarrow> wf_timeline s"
  by (auto simp: wf_store_def dest: map_of_mem)

lemma wf_store_update:
  assumes "wf_store st" "wf_timeline s"
  shows "wf_store (AList.update a s st)"
proof -
  have "set (AList.update a s st) \<subseteq> insert (a, s) (set st)"
    by (induction st) auto
  with assms show ?thesis
    by (auto simp: wf_store_def)
qed

lemma wf_store_delete: "wf_store st \<Longrightarrow> wf_store (AList.delete a st)"
  by (auto simp: wf_store_def AList.delete_eq)

lemma requireState_Inr [simp]: "requireState st a = Inr s \<longleftrightarrow> map_get st a = Some s"
  by (auto simp: requireState_def split: option.splits)

lemma requireState_Inl [simp]:
  "requireState st a = Inl e \<longleftrightarrow> map_get st a = None \<and> e = UnknownAgent a"
  by (auto simp: requireState_def split: option.splits)

section \<open>Runs of the store\<close>

text \<open>The calls that change the store, in the order a daemon makes them; a call that throws leaves
  the store as it was.\<close>

datatype timeline_call =
    CInitialize string SeedAgentTimelineOptions string string
  | CAppend string AgentTimelineItem append_options string
  | CEnrich string string string
  | CDelete string

fun timeline_step :: "timeline_call \<Rightarrow> timeline_store \<Rightarrow> timeline_store" where
  "timeline_step (CInitialize a options uuid nowIso) st = timeline_initialize st a options uuid nowIso"
| "timeline_step (CAppend a item options nowIso) st =
     (case timeline_append st a item options nowIso of Inl _ \<Rightarrow> st | Inr (_, st') \<Rightarrow> st')"
| "timeline_step (CEnrich a c p) st =
     (case enrichSubmittedUserMessage st a c p of Inl _ \<Rightarrow> st | Inr (_, st') \<Rightarrow> st')"
| "timeline_step (CDelete a) st = timeline_delete st a"

fun seeds_ok :: "timeline_call \<Rightarrow> bool" where
  "seeds_ok (CInitialize a options uuid nowIso) = wf_seed options"
| "seeds_ok _ = True"

lemma timeline_append_wf:
  assumes "wf_store st" "timeline_append st a item options nowIso = Inr (r, st')"
  shows "wf_store st'"
proof -
  obtain s where s: "map_get st a = Some s"
    and st': "st' = AList.update a (snd (append_state s item options nowIso)) st"
    using assms(2) by (auto simp: timeline_append_def map_sum_Inr split_def)
  show ?thesis
    unfolding st' using assms(1) append_wf [OF wf_store_get [OF assms(1) s]] by (rule wf_store_update)
qed

lemma enrich_wf:
  assumes "wf_store st" "enrichSubmittedUserMessage st a c p = Inr (r, st')"
  shows "wf_store st'"
  using assms
  by (auto simp: enrichSubmittedUserMessage_def map_sum_Inr Let_def split: option.splits
      intro!: wf_store_update set_row_wf dest: wf_store_get find_index_Some)

lemma timeline_step_wf: "wf_store st \<Longrightarrow> seeds_ok call \<Longrightarrow> wf_store (timeline_step call st)"
  by (cases call)
     (auto simp: timeline_initialize_def timeline_delete_def seed_wf wf_store_delete
        intro: wf_store_update timeline_append_wf enrich_wf split: sum.splits)

lemma timeline_run_wf:
  "wf_store st \<Longrightarrow> list_all seeds_ok calls \<Longrightarrow> wf_store (fold timeline_step calls st)"
  by (induction calls arbitrary: st) (auto intro: timeline_step_wf)

section \<open>Reading page after page\<close>

text \<open>A reader that asks for a page, moves its position to the last element it got and asks
  again while the answer says there is more. The number bounds the requests it makes: \<open>None\<close> when the last
  answer it may ask for still says there is more.\<close>

fun read_pages :: "('r \<Rightarrow> int) \<Rightarrow> (int \<Rightarrow> 'r list \<times> bool) \<Rightarrow> nat \<Rightarrow> int \<Rightarrow> 'r list option" where
  "read_pages pos page 0 c = None"
| "read_pages pos page (Suc n) c =
     (case page c of (rs, again) \<Rightarrow>
        if again then map_option ((@) rs) (read_pages pos page n (pos (last rs))) else Some rs)"

text \<open>The contract of a paged log: a page is a prefix of what lies beyond the position, it is not
  empty when there is more, and its flag says exactly whether anything remains.\<close>

locale paged_log =
  fixes pos :: "'r \<Rightarrow> int"
    and ok :: "'s \<Rightarrow> int \<Rightarrow> bool"
    and log :: "'s \<Rightarrow> 'r list"
    and page :: "'s \<Rightarrow> int \<Rightarrow> 'r list \<times> bool"
  assumes log_sorted: "ok s c \<Longrightarrow> sorted_wrt (<) (map pos (log s))"
    and page_prefix: "ok s c \<Longrightarrow> \<exists>rest. filter (\<lambda>r. c < pos r) (log s) = fst (page s c) @ rest
           \<and> snd (page s c) = (rest \<noteq> [])"
    and page_progress: "ok s c \<Longrightarrow> snd (page s c) \<Longrightarrow> fst (page s c) \<noteq> []"
    and ok_next: "ok s c \<Longrightarrow> snd (page s c) \<Longrightarrow> ok s (pos (last (fst (page s c))))"
begin

lemma beyond_last:
  assumes "ok s c" "filter (\<lambda>r. c < pos r) (log s) = rs @ rest" "rs \<noteq> []"
  shows "filter (\<lambda>r. pos (last rs) < pos r) (log s) = rest"
proof -
  have srt: "sorted_wrt (<) (map pos (rs @ rest))"
    using log_sorted [OF assms(1)]
    by (simp flip: assms(2) add: sorted_wrt_map sorted_wrt_filter)
  have c_le: "c < pos (last rs)"
  proof -
    have "last rs \<in> set (filter (\<lambda>r. c < pos r) (log s))"
      using assms(2,3) by simp
    then show ?thesis by simp
  qed
  have "filter (\<lambda>r. pos (last rs) < pos r) (log s)
      = filter (\<lambda>r. pos (last rs) < pos r) (filter (\<lambda>r. c < pos r) (log s))"
    using c_le by (auto intro: filter_cong)
  also have "\<dots> = filter (\<lambda>r. pos (last rs) < pos r) rs @ filter (\<lambda>r. pos (last rs) < pos r) rest"
    by (simp add: assms(2))
  also have "filter (\<lambda>r. pos (last rs) < pos r) rs = []"
    using srt sorted_last_max [of pos rs] by (force simp: filter_empty_conv sorted_wrt_append)
  also have "filter (\<lambda>r. pos (last rs) < pos r) rest = rest"
    using srt assms(3) by (auto simp: filter_id_conv sorted_wrt_append)
  finally show ?thesis by simp
qed

lemma read_all:
  "ok s c \<Longrightarrow> length (filter (\<lambda>r. c < pos r) (log s)) \<le> n \<Longrightarrow> 0 < n
     \<Longrightarrow> read_pages pos (page s) n c = Some (filter (\<lambda>r. c < pos r) (log s))"
proof (induction n arbitrary: c)
  case (Suc n)
  obtain rs again where pg: "page s c = (rs, again)" by fastforce
  obtain rest where rest: "filter (\<lambda>r. c < pos r) (log s) = rs @ rest" "again = (rest \<noteq> [])"
    using page_prefix [OF Suc.prems(1)] pg by auto
  show ?case
  proof (cases again)
    case True
    with page_progress [OF Suc.prems(1)] pg have "rs \<noteq> []" by simp
    then have beyond: "filter (\<lambda>r. pos (last rs) < pos r) (log s) = rest"
      by (rule beyond_last [OF Suc.prems(1) rest(1)])
    have "length rest \<le> n"
      using Suc.prems(2) rest(1) \<open>rs \<noteq> []\<close> by (cases rs) auto
    moreover have "0 < length rest" using rest(2) True by simp
    ultimately have "0 < n" by linarith
    with Suc.IH [of "pos (last rs)"] ok_next [OF Suc.prems(1)] pg True beyond \<open>length rest \<le> n\<close>
    have "read_pages pos (page s) n (pos (last rs)) = Some rest" by simp
    with pg True rest show ?thesis by simp
  qed (use pg rest in simp)
qed simp

end

definition after_options :: "AgentTimelineState \<Rightarrow> nat \<Rightarrow> int \<Rightarrow> AgentTimelineFetchOptions" where
  "after_options s limit c = \<lparr>fo_direction = Some After,
     fo_cursor = Some \<lparr>cur_epoch = tl_epoch s, cur_seq = c\<rparr>, fo_limit = Some (int limit)\<rparr>"

definition before_options :: "AgentTimelineState \<Rightarrow> nat \<Rightarrow> int \<Rightarrow> AgentTimelineFetchOptions" where
  "before_options s limit c = \<lparr>fo_direction = Some Before,
     fo_cursor = Some \<lparr>cur_epoch = tl_epoch s, cur_seq = c\<rparr>, fo_limit = Some (int limit)\<rparr>"

text \<open>Reading forward: the position is a sequence number. Reading backward: the log is the reversed
  timeline and the position the negated number, so that each page is read from its end.\<close>

definition forward_page :: "nat \<Rightarrow> AgentTimelineState \<Rightarrow> int \<Rightarrow> AgentTimelineRow list \<times> bool" where
  "forward_page limit s c = (case fetch_state s (after_options s limit c) of
       Inl _ \<Rightarrow> ([], False)
     | Inr r \<Rightarrow> (fr_rows r, fr_hasNewer r))"

definition backward_page :: "nat \<Rightarrow> AgentTimelineState \<Rightarrow> int \<Rightarrow> AgentTimelineRow list \<times> bool" where
  "backward_page limit s c = (case fetch_state s (before_options s limit (- c)) of
       Inl _ \<Rightarrow> ([], False)
     | Inr r \<Rightarrow> (rev (fr_rows r), fr_hasOlder r))"

text \<open>A cursor from which the store does not report a gap.\<close>

definition no_gap :: "AgentTimelineState \<Rightarrow> int \<Rightarrow> bool" where
  "no_gap s c = (case tl_rows s of [] \<Rightarrow> True | r # _ \<Rightarrow> row_seq r - 1 \<le> c)"

lemma last_take_less:
  assumes "sorted_wrt (<) (map f ys)" "ys \<noteq> []" "0 < n"
  shows "(f (last (take n ys)) < (f (last ys) :: int)) = (drop n ys \<noteq> [])"
proof (cases "drop n ys = []")
  case False
  have "sorted_wrt (<) (map f (take n ys @ drop n ys))"
    using assms(1) by simp
  then have "f (last (take n ys)) < f (last (drop n ys))"
    using False assms(2,3) last_in_set [of "take n ys"] last_in_set [of "drop n ys"]
    unfolding map_append sorted_wrt_append by (simp del: last_drop)
  with False show ?thesis by (simp add: last_drop)
qed simp

lemma hd_less_last_n:
  assumes "sorted_wrt (<) (map f ys)" "last_n n ys \<noteq> []"
  shows "((f (hd ys) :: int) < f (hd (last_n n ys))) = (take (length ys - n) ys \<noteq> [])"
proof (cases "take (length ys - n) ys = []")
  case True
  then show ?thesis using last_n_append [of ys n] by auto
next
  case False
  have "sorted_wrt (<) (map f (take (length ys - n) ys @ last_n n ys))"
    using assms(1) by (simp add: last_n_def)
  moreover have "hd ys = hd (take (length ys - n) ys)"
    using False by (cases ys) auto
  ultimately show ?thesis
    using False assms(2) by (auto simp: sorted_wrt_append simp del: hd_take)
qed

lemma wf_rows_sorted: "wf_timeline s \<Longrightarrow> sorted_wrt (<) (map row_seq (tl_rows s))"
  by (simp add: wf_timeline_def sorted_wrt_append)

lemma sorted_above:
  assumes "sorted_wrt (<) (map row_seq rows)" "\<And>m n. m < n \<Longrightarrow> P m \<Longrightarrow> P n"
  shows "sorted_wrt (\<lambda>x y. P (row_seq x) \<longrightarrow> P (row_seq y)) rows"
  using assms by (auto simp: sorted_wrt_map elim!: sorted_wrt_mono_rel [rotated])

lemma forward_page_eq:
  assumes "wf_timeline s" "no_gap s c" "0 < limit"
  shows "forward_page limit s c =
    (let beyond = filter (\<lambda>r. c < row_seq r) (tl_rows s)
     in (take limit beyond, drop limit beyond \<noteq> []))"
proof (cases "tl_rows s = []")
  case True
  then show ?thesis
    by (simp add: forward_page_def fetch_state_def after_options_def fetch_context_def
        fetch_result_def Let_def)
next
  case False
  let ?P = "\<lambda>r. c < row_seq r"
  note srt = wf_rows_sorted [OF assms(1)]
  have page: "forward_page limit s c = (case fetchAfter (fetch_context s (after_options s limit c)) of
       Inl _ \<Rightarrow> ([], False) | Inr r \<Rightarrow> (fr_rows r, fr_hasNewer r))"
    using False assms(2)
    by (auto simp: forward_page_def fetch_state_def after_options_def fetch_context_def Let_def
        no_gap_def split: list.splits)
  show ?thesis
  proof (cases "find_index ?P (tl_rows s)")
    case None
    then have "filter ?P (tl_rows s) = []" by (simp add: find_index_None)
    with None show ?thesis
      by (simp add: page fetchAfter_def fetch_context_def after_options_def fetch_result_def Let_def)
  next
    case (Some i)
    from find_index_Some [OF Some] have i: "i < length (tl_rows s)"
      and beyond: "drop i (tl_rows s) = filter ?P (tl_rows s)"
      using dropWhile_filter_mono [OF sorted_above [OF srt, where P = "\<lambda>n. c < n"]] by auto
    have ne: "filter ?P (tl_rows s) \<noteq> []" using i by (simp flip: beyond)
    have lst: "last (filter ?P (tl_rows s)) = last (tl_rows s)"
      using i by (simp flip: beyond add: last_drop)
    have again: "(row_seq (last (take limit (filter ?P (tl_rows s)))) < row_seq (last (tl_rows s)))
        = (drop limit (filter ?P (tl_rows s)) \<noteq> [])"
      using last_take_less [of row_seq "filter ?P (tl_rows s)" limit] srt ne assms(3) lst
      by (simp add: sorted_wrt_map sorted_wrt_filter)
    obtain x xs where x: "take limit (filter ?P (tl_rows s)) = x # xs"
      using ne assms(3) by (cases "take limit (filter ?P (tl_rows s))") auto
    show ?thesis
      using Some False assms(3) again x
      by (simp add: page fetchAfter_def fetch_context_def after_options_def fetch_result_def
          slice_def beyond last_opt_def Let_def)
  qed
qed

lemma filter_rev_neg: "filter (\<lambda>r. c < - row_seq r) (rev rows) = rev (filter (\<lambda>r. row_seq r < - c) rows)"
  by (auto simp: rev_filter intro: filter_cong)

lemma backward_page_eq:
  assumes "wf_timeline s" "0 < limit"
  shows "backward_page limit s c =
    (let below = filter (\<lambda>r. row_seq r < - c) (tl_rows s)
     in (rev (last_n limit below), take (length below - limit) below \<noteq> []))"
proof (cases "tl_rows s")
  case Nil
  then show ?thesis
    by (simp add: backward_page_def fetch_state_def before_options_def fetch_context_def
        fetch_result_def Let_def)
next
  case (Cons r0 rows)
  let ?P = "\<lambda>r. - c \<le> row_seq r"
  let ?below = "filter (\<lambda>r. row_seq r < - c) (tl_rows s)"
  note srt = wf_rows_sorted [OF assms(1)]
  have bounded: "(case find_index ?P (tl_rows s) of None \<Rightarrow> tl_rows s | Some i \<Rightarrow> slice 0 i (tl_rows s))
      = ?below"
  proof (cases "find_index ?P (tl_rows s)")
    case None
    then have "filter (\<lambda>r. row_seq r < - c) (tl_rows s) = tl_rows s"
      by (auto simp: find_index_None filter_id_conv)
    with None show ?thesis by simp
  next
    case (Some i)
    with find_index_Some [OF Some] show ?thesis
      using takeWhile_filter_mono [OF sorted_above [OF srt, where P = "\<lambda>n. - c \<le> n"]]
      by (simp add: slice_def not_le)
  qed
  have older: "starts_after (row_seq r0) (last_n limit ?below)
      = (take (length ?below - limit) ?below \<noteq> [])"
  proof (cases "?below = []")
    case True
    then show ?thesis by (simp add: starts_after_def last_n_def)
  next
    case False
    have ne: "last_n limit ?below \<noteq> []" using False assms(2) by simp
    from False obtain x where "x \<in> set (tl_rows s)" "row_seq x < - c"
      by (auto simp: filter_empty_conv)
    then have "row_seq r0 < - c"
      using srt by (auto simp: Cons)
    then have "hd ?below = r0" by (simp add: Cons)
    with hd_less_last_n [of row_seq ?below limit] srt ne show ?thesis
      by (cases "last_n limit ?below")
         (auto simp: starts_after_def sorted_wrt_map sorted_wrt_filter)
  qed
  have ne: "tl_rows s \<noteq> []" and min: "(case tl_rows s of [] \<Rightarrow> 0 | r # _ \<Rightarrow> row_seq r) = row_seq r0"
    by (simp_all add: Cons)
  show ?thesis
    using assms(2) ne min bounded older
    by (cases "limit \<ge> length ?below")
       (simp_all add: backward_page_def fetch_state_def fetchBefore_def fetch_context_def
        before_options_def fetch_result_def Let_def)
qed

definition forward_ok :: "nat \<Rightarrow> AgentTimelineState \<Rightarrow> int \<Rightarrow> bool" where
  "forward_ok limit s c = (wf_timeline s \<and> no_gap s c \<and> 0 < limit)"

definition backward_ok :: "nat \<Rightarrow> AgentTimelineState \<Rightarrow> int \<Rightarrow> bool" where
  "backward_ok limit s c = (wf_timeline s \<and> 0 < limit)"

lemma no_gap_row: "wf_timeline s \<Longrightarrow> r \<in> set (tl_rows s) \<Longrightarrow> no_gap s (row_seq r)"
  by (cases "tl_rows s") (fastforce simp: no_gap_def dest!: wf_rows_sorted)+

interpretation forward: paged_log row_seq "forward_ok limit" tl_rows "forward_page limit" for limit
proof
  fix s c
  assume ok: "forward_ok limit s c"
  let ?beyond = "filter (\<lambda>r. c < row_seq r) (tl_rows s)"
  from ok have eq: "forward_page limit s c = (take limit ?beyond, drop limit ?beyond \<noteq> [])"
    by (simp add: forward_ok_def forward_page_eq Let_def)
  show "sorted_wrt (<) (map row_seq (tl_rows s))"
    using ok by (simp add: forward_ok_def wf_rows_sorted)
  show "\<exists>rest. ?beyond = fst (forward_page limit s c) @ rest
      \<and> snd (forward_page limit s c) = (rest \<noteq> [])"
    by (intro exI [of _ "drop limit ?beyond"]) (simp add: eq)
  assume again: "snd (forward_page limit s c)"
  with ok show ne: "fst (forward_page limit s c) \<noteq> []"
    by (auto simp: eq forward_ok_def)
  have "last (fst (forward_page limit s c)) \<in> set (tl_rows s)"
    using last_in_set [OF ne] by (auto simp: eq dest!: in_set_takeD)
  with ok show "forward_ok limit s (row_seq (last (fst (forward_page limit s c))))"
    by (simp add: forward_ok_def no_gap_row)
qed

interpretation backward: paged_log "\<lambda>r. - row_seq r" "backward_ok limit" "\<lambda>s. rev (tl_rows s)"
  "backward_page limit" for limit
proof
  fix s c
  assume ok: "backward_ok limit s c"
  let ?below = "filter (\<lambda>r. row_seq r < - c) (tl_rows s)"
  from ok have eq: "backward_page limit s c
      = (rev (last_n limit ?below), take (length ?below - limit) ?below \<noteq> [])"
    by (simp add: backward_ok_def backward_page_eq Let_def)
  show "sorted_wrt (<) (map (\<lambda>r. - row_seq r) (rev (tl_rows s)))"
    using ok wf_rows_sorted [of s] by (simp add: backward_ok_def sorted_wrt_map sorted_wrt_rev)
  have "rev ?below = rev (last_n limit ?below) @ rev (take (length ?below - limit) ?below)"
    by (metis last_n_append rev_append)
  then show "\<exists>rest. filter (\<lambda>r. c < - row_seq r) (rev (tl_rows s)) = fst (backward_page limit s c) @ rest
      \<and> snd (backward_page limit s c) = (rest \<noteq> [])"
    by (intro exI [of _ "rev (take (length ?below - limit) ?below)"]) (simp add: eq filter_rev_neg)
  assume "snd (backward_page limit s c)"
  with ok show "fst (backward_page limit s c) \<noteq> []"
    by (auto simp: eq backward_ok_def)
  from ok show "backward_ok limit s (- row_seq (last (fst (backward_page limit s c))))"
    by (simp add: backward_ok_def)
qed

section \<open>What the store guarantees\<close>

text \<open>However the store is used, as long as every seed is well formed, the rows of each agent
  carry strictly increasing sequence numbers, all below the number the next row will get.\<close>

theorem timeline_numbered:
  assumes "list_all seeds_ok calls" "map_get (fold timeline_step calls []) agentId = Some s"
  shows "sorted_wrt (<) (map row_seq (tl_rows s) @ [tl_nextSeq s])"
proof -
  have "wf_store (fold timeline_step calls [])"
    using assms(1) by (intro timeline_run_wf) (simp_all add: wf_store_def)
  from wf_store_get [OF this assms(2)] show ?thesis
    by (simp add: wf_timeline_def)
qed

definition sample_append :: append_options where
  "sample_append = \<lparr>ap_timestamp = None, ap_providerMessageId = None, ap_turnId = Some ''t1''\<rparr>"

definition sample_calls :: "timeline_call list" where
  "sample_calls =
     [CInitialize ''a'' (no_seed\<lparr>seed_items := Some [Reasoning ''r'', AssistantMessage ''x'' None]\<rparr>) ''e'' ''now'',
      CAppend ''a'' (UserMessage ''q'' None (Some ''c1'')) sample_append ''now'',
      CAppend ''b'' (Reasoning ''lost'') sample_append ''now'',
      CEnrich ''a'' ''c1'' ''p1'']"

definition sample_timeline :: AgentTimelineState where
  "sample_timeline = \<lparr>tl_epoch = ''e'', tl_rows =
     [\<lparr>row_seq = 1, row_timestamp = ''now'', row_item = Reasoning ''r'', row_turnId = None,
       row_providerMessageId = None\<rparr>,
      \<lparr>row_seq = 2, row_timestamp = ''now'', row_item = AssistantMessage ''x'' None, row_turnId = None,
       row_providerMessageId = None\<rparr>,
      \<lparr>row_seq = 3, row_timestamp = ''now'', row_item = UserMessage ''q'' None (Some ''c1''),
       row_turnId = Some ''t1'', row_providerMessageId = Some ''p1''\<rparr>],
     tl_nextSeq = 4\<rparr>"

lemma sample_seeds: "list_all seeds_ok sample_calls"
  by (simp add: sample_calls_def wf_seed_def no_seed_def)

lemma sample_run: "map_get (fold timeline_step sample_calls []) ''a'' = Some sample_timeline"
  by (simp add: sample_calls_def sample_timeline_def sample_append_def no_seed_def seed_state_def
      timeline_initialize_def timeline_append_def enrichSubmittedUserMessage_def append_state_def
      requireState_def is_submitted_def truthy_def last_opt_def Let_def)

theorem timeline_numbered_witness:
  "sorted_wrt (<) (map row_seq (tl_rows sample_timeline) @ [tl_nextSeq sample_timeline])"
  by (rule timeline_numbered [OF sample_seeds sample_run])

text \<open>C31. Take a store reached by such calls, an agent's rows in it, a positive page limit and cursors of the store's own epoch, and
  let nothing be appended between the requests. A client that reads forward from a cursor for which the store reports no gap (not
  earlier than the row before the first it holds) gets every later row exactly once, in order; one that reads backward from
  any cursor gets every earlier row exactly once, latest first. Both stop by what the answers say of newer and older rows,
  after at most as many requests as there are rows (one, when there is none): running out of requests would be \<open>None\<close>.\<close>

theorem paging_complete:
  assumes "list_all seeds_ok calls" "map_get (fold timeline_step calls []) agentId = Some s"
    and "0 < limit" "no_gap s c"
  shows "read_pages row_seq (forward_page limit s) (max 1 (length (tl_rows s))) c
           = Some (filter (\<lambda>r. c < row_seq r) (tl_rows s))
       \<and> read_pages (\<lambda>r. - row_seq r) (backward_page limit s) (max 1 (length (tl_rows s))) (- b)
           = Some (rev (filter (\<lambda>r. row_seq r < b) (tl_rows s)))"
proof -
  have "wf_store (fold timeline_step calls [])"
    using assms(1) by (intro timeline_run_wf) (simp_all add: wf_store_def)
  from wf_store_get [OF this assms(2)] have wf: "wf_timeline s" .
  have ok: "forward_ok limit s c" "backward_ok limit s (- b)"
    using wf assms(3,4) by (simp_all add: forward_ok_def backward_ok_def)
  have enough: "length (filter P (tl_rows s)) \<le> max 1 (length (tl_rows s))"
    "length (filter Q (rev (tl_rows s))) \<le> max 1 (length (tl_rows s))" for P Q
    using length_filter_le [of P "tl_rows s"] length_filter_le [of Q "rev (tl_rows s)"]
    by (simp_all only: length_rev le_max_iff_disj simp_thms)
  have pos: "0 < max 1 (length (tl_rows s))" by simp
  show ?thesis
    using forward.read_all [OF ok(1) enough(1) pos] backward.read_all [OF ok(2) enough(2) pos]
      filter_rev_neg [of "- b" "tl_rows s"] by simp
qed

theorem paging_complete_witness:
  "read_pages row_seq (forward_page 1 sample_timeline) 3 1 = Some (tl (tl_rows sample_timeline))"
proof -
  have "no_gap sample_timeline 1" and len: "max 1 (length (tl_rows sample_timeline)) = 3"
    and beyond: "filter (\<lambda>r. 1 < row_seq r) (tl_rows sample_timeline) = tl (tl_rows sample_timeline)"
    by (simp_all add: sample_timeline_def no_gap_def)
  from paging_complete [OF sample_seeds sample_run zero_less_one this(1)] show ?thesis
    unfolding len beyond by blast
qed

lemma fetchAfter_total:
  assumes "0 < fc_limit ctx \<or> fc_selectAll ctx"
  shows "fetchAfter ctx \<noteq> Inl e"
proof (cases "find_index (\<lambda>row. row_seq row > (case fc_cursor ctx of Some c \<Rightarrow> cur_seq c | None \<Rightarrow> 0))
    (tl_rows (fc_state ctx))")
  case (Some i)
  with find_index_Some [OF Some] assms show ?thesis
    by (auto simp: fetchAfter_def Let_def slice_def split: list.splits)
qed (simp add: fetchAfter_def Let_def)

lemma fetch_context_limit: "0 < fc_limit (fetch_context s options) \<or> fc_selectAll (fetch_context s options)"
  by (auto simp: fetch_context_def Let_def)

text \<open>A fetch throws only for an agent the store does not know: no cursor, direction or limit
  makes it read a row that is not there.\<close>

theorem fetch_throws_only_unknown:
  "timeline_fetch st agentId options = Inl e
     \<longleftrightarrow> e = UnknownAgent agentId \<and> \<not> timeline_has st agentId"
  by (cases "map_get st agentId")
     (auto simp: timeline_fetch_def requireState_def timeline_has_def map_has_def fetch_state_def Let_def
        fetchAfter_total [OF fetch_context_limit] split: fetch_direction.splits)

lemma assistant_chunks_run:
  "assistant_chunks (map (\<lambda>(t, m). AssistantMessage t m) run @ items) chunks
     = assistant_chunks items (chunks @ map fst run)"
  by (induction run arbitrary: chunks) auto

lemma assistant_chunks_skip:
  "list_all (\<lambda>i. \<nexists>t m. i = AssistantMessage t m) post
     \<Longrightarrow> assistant_chunks (post @ items) [] = assistant_chunks items []"
proof (induction post)
  case (Cons i post)
  then show ?case by (cases i) auto
qed simp

lemma assistant_chunks_stop:
  "items = [] \<or> (\<nexists>t m. hd items = AssistantMessage t m) \<Longrightarrow> chunks \<noteq> []
     \<Longrightarrow> assistant_chunks items chunks = chunks"
  by (induction items chunks rule: assistant_chunks.induct) auto

text \<open>The last assistant message is the text of the last unbroken run of assistant items, its
  chunks joined in the order they were appended, whatever non-assistant items follow.\<close>

theorem last_assistant_message:
  assumes "map_get st agentId = Some s"
    and "map row_item (tl_rows s) = pre @ map (\<lambda>(t, m). AssistantMessage t m) run @ post"
    and "run \<noteq> []" "pre = [] \<or> (\<nexists>t m. last pre = AssistantMessage t m)"
    and "list_all (\<lambda>i. \<nexists>t m. i = AssistantMessage t m) post"
  shows "getLastAssistantMessage st agentId = Inr (Some (concat (map fst run)))"
proof -
  have "list_all (\<lambda>i. \<nexists>t m. i = AssistantMessage t m) (rev post)"
    using assms(5) by simp
  then have "assistant_chunks (rev (map row_item (tl_rows s))) []
      = assistant_chunks (rev pre) (map fst (rev run))"
    unfolding assms(2)
    using assistant_chunks_skip assistant_chunks_run [of "rev run" "rev pre" "[]"]
    by (simp add: rev_map)
  also have "\<dots> = map fst (rev run)"
    using assms(3,4) by (intro assistant_chunks_stop) (auto simp: hd_rev)
  finally show ?thesis
    using assms(1,3) by (simp add: getLastAssistantMessage_def requireState_def Let_def rev_map)
qed

theorem last_assistant_message_witness:
  "getLastAssistantMessage [(''a'', sample_timeline)] ''a'' = Inr (Some ''x'')"
  using last_assistant_message [of "[(''a'', sample_timeline)]" "''a''" sample_timeline "[Reasoning ''r'']"
      "[(''x'', None)]" "[UserMessage ''q'' None (Some ''c1'')]"]
  by (simp add: sample_timeline_def)

text \<open>Seeding items together with a next number numbers the items from that number and hands the
  same number out again: the first row appended repeats the number of the first item.\<close>

lemma seed_items_reuse_number:
  assumes "seed_rows options \<in> {None, Some []}" "seed_items options = Some (item # items)"
    and "seed_nextSeq options = Some n"
  shows "\<not> wf_timeline (seed_state options uuid nowIso)"
    and "row_seq (fst (append_state (seed_state options uuid nowIso) item' aoptions nowIso'))
           = row_seq (hd (tl_rows (seed_state options uuid nowIso)))"
  using assms by (auto simp: wf_timeline_def seed_state_def append_state_def Let_def)

end
