(* ===== verification/TimelineProjection.thy ===== *)
theory TimelineProjection
  imports Timeline "HOL-Library.Multiset"
begin

text \<open>
  The projection of a timeline for display (\<open>server/agent/timeline-projection.ts\<close>): tool calls
  collapse into one entry per call, chunks of assistant and reasoning text merge, and every entry
  keeps the ranges of sequence numbers it stands for. The lemmas show that nothing is lost: every
  row is in exactly one entry, the text of each stream and all other items survive in order, and a
  tool call ends in the state its last update reported.
\<close>

section \<open>Entries\<close>

datatype TimelineProjectionMode = Canonical | Projected

datatype TimelineProjectionKind = Assistant_merge | Reasoning_merge | Tool_lifecycle | Identity_kind

record TimelineSeqRange =
  rg_start :: int
  rg_end :: int

record TimelineProjectionEntry =
  pe_item :: AgentTimelineItem
  pe_turnId :: "string option"
  pe_timestamp :: string
  pe_seqStart :: int
  pe_seqEnd :: int
  pe_ranges :: "TimelineSeqRange list"
  pe_collapsed :: "TimelineProjectionKind list"

definition appendSeqToRanges :: "TimelineSeqRange list \<Rightarrow> int \<Rightarrow> TimelineSeqRange list" where
  "appendSeqToRanges ranges seq =
     (case last_opt ranges of
        None \<Rightarrow> [\<lparr>rg_start = seq, rg_end = seq\<rparr>]
      | Some r \<Rightarrow>
          if seq \<le> rg_end r + 1 then butlast ranges @ [r\<lparr>rg_end := max (rg_end r) seq\<rparr>]
          else ranges @ [\<lparr>rg_start = seq, rg_end = seq\<rparr>])"

definition mergeSeqRanges ::
  "TimelineSeqRange list \<Rightarrow> TimelineSeqRange list \<Rightarrow> TimelineSeqRange list" where
  "mergeSeqRanges existing incoming =
     fold (\<lambda>rng merged. fold (\<lambda>seq m. appendSeqToRanges m seq) [rg_start rng..rg_end rng] merged)
       incoming existing"

definition mergeToolCallDetail :: "ToolCallDetail \<Rightarrow> ToolCallDetail \<Rightarrow> ToolCallDetail" where
  "mergeToolCallDetail existing incoming =
     (if td_type existing = DUnknown \<and> td_type incoming \<noteq> DUnknown then incoming
      else if td_type incoming = DUnknown \<and> td_type existing \<noteq> DUnknown then existing
      else incoming)"

definition mergeToolCallItems ::
  "ToolCallTimelineItem \<Rightarrow> ToolCallTimelineItem \<Rightarrow> ToolCallTimelineItem" where
  "mergeToolCallItems existing incoming =
     (let mergedDetail = mergeToolCallDetail (tc_detail existing) (tc_detail incoming);
          mergedMetadata = (case (tc_metadata existing, tc_metadata incoming) of
              (None, None) \<Rightarrow> None
            | (a, b) \<Rightarrow> Some (spread (case a of Some m \<Rightarrow> m | None \<Rightarrow> [])
                               (case b of Some m \<Rightarrow> m | None \<Rightarrow> [])));
          merged = incoming\<lparr>tc_detail := mergedDetail, tc_metadata := mergedMetadata,
             tc_error := (case tc_error incoming of Some e \<Rightarrow> Some e | None \<Rightarrow> tc_error existing),
             tc_extra := spread (tc_extra existing) (tc_extra incoming)\<rparr>
      in if tc_status incoming = Failed then merged\<lparr>tc_error := tc_error incoming\<rparr>
         else if tc_status incoming = Completed \<or> tc_status incoming = Canceled
         then merged\<lparr>tc_error := Some ErrNull\<rparr>
         else if tc_error incoming \<noteq> None then merged\<lparr>tc_error := tc_error incoming\<rparr>
         else merged)"

definition makeCanonicalEntries :: "AgentTimelineRow list \<Rightarrow> TimelineProjectionEntry list" where
  "makeCanonicalEntries rows =
     map (\<lambda>row. \<lparr>pe_item = row_item row, pe_turnId = truthy (row_turnId row),
                 pe_timestamp = row_timestamp row, pe_seqStart = row_seq row, pe_seqEnd = row_seq row,
                 pe_ranges = [\<lparr>rg_start = row_seq row, rg_end = row_seq row\<rparr>], pe_collapsed = []\<rparr>) rows"

definition mergeIdentityMetadata ::
  "TimelineProjectionEntry \<Rightarrow> TimelineProjectionEntry \<Rightarrow> TimelineProjectionKind
     \<Rightarrow> TimelineSeqRange list \<times> TimelineProjectionKind list" where
  "mergeIdentityMetadata existing entry kind =
     (mergeSeqRanges (pe_ranges existing) (pe_ranges entry),
      if kind \<in> set (pe_collapsed existing) then pe_collapsed existing
      else pe_collapsed existing @ [kind])"

definition mergeIdentityEntries ::
  "TimelineProjectionEntry \<Rightarrow> TimelineProjectionEntry \<Rightarrow> TimelineProjectionEntry option" where
  "mergeIdentityEntries existing entry =
     (case (pe_item existing, pe_item entry) of
        (ToolCall old, ToolCall new) \<Rightarrow>
          if pe_turnId existing \<noteq> pe_turnId entry then None
          else (case mergeIdentityMetadata existing entry Tool_lifecycle of (ranges, collapsed) \<Rightarrow>
            Some (existing\<lparr>pe_item := ToolCall (mergeToolCallItems old new),
                    pe_timestamp := pe_timestamp entry,
                    pe_seqEnd := max (pe_seqEnd existing) (pe_seqEnd entry),
                    pe_ranges := ranges, pe_collapsed := collapsed\<rparr>))
      | _ \<Rightarrow> None)"

type_synonym identity_index = "(string, nat) js_map"

definition collapse_step ::
  "TimelineProjectionEntry \<Rightarrow> TimelineProjectionEntry list \<times> identity_index
     \<Rightarrow> TimelineProjectionEntry list \<times> identity_index" where
  "collapse_step entry = (\<lambda>(output, index).
     case timelineItemIdentity (pe_item entry) of
       None \<Rightarrow> (output @ [entry], index)
     | Some ident \<Rightarrow>
         (case map_get index ident of
            None \<Rightarrow> (output @ [entry], AList.update ident (length output) index)
          | Some i \<Rightarrow>
              (case (if i < length output then mergeIdentityEntries (output ! i) entry else None) of
                 None \<Rightarrow> (output @ [entry], AList.update ident (length output) index)
               | Some merged \<Rightarrow> (output[i := merged], index))))"

definition collapseByIdentity :: "TimelineProjectionEntry list \<Rightarrow> TimelineProjectionEntry list" where
  "collapseByIdentity entries = fst (fold collapse_step entries ([], []))"

text \<open>The two merging loops differ in the items they join: a partial function from the items of
  two neighbours to the joined one, which is \<open>None\<close> when the loop keeps them apart.\<close>

definition joinReasoning :: "AgentTimelineItem \<Rightarrow> AgentTimelineItem \<Rightarrow> AgentTimelineItem option" where
  "joinReasoning previous item =
     (case (previous, item) of
        (Reasoning a, Reasoning b) \<Rightarrow> Some (Reasoning (a @ b))
      | _ \<Rightarrow> None)"

definition joinAssistant :: "AgentTimelineItem \<Rightarrow> AgentTimelineItem \<Rightarrow> AgentTimelineItem option" where
  "joinAssistant previous item =
     (case (previous, item) of
        (AssistantMessage a m, AssistantMessage b n) \<Rightarrow>
          if n \<noteq> None \<and> m \<noteq> n then None else Some (AssistantMessage (a @ b) (truthy m))
      | _ \<Rightarrow> None)"

definition merge_step ::
  "(AgentTimelineItem \<Rightarrow> AgentTimelineItem \<Rightarrow> AgentTimelineItem option) \<Rightarrow> TimelineProjectionKind
     \<Rightarrow> TimelineProjectionEntry \<Rightarrow> TimelineProjectionEntry list \<Rightarrow> TimelineProjectionEntry list" where
  "merge_step join kind entry output =
     (case last_opt output of
        None \<Rightarrow> output @ [entry]
      | Some previous \<Rightarrow>
          (if pe_seqEnd previous + 1 = pe_seqStart entry \<and> pe_turnId previous = pe_turnId entry
           then (case join (pe_item previous) (pe_item entry) of
                   None \<Rightarrow> output @ [entry]
                 | Some item \<Rightarrow>
                     butlast output @
                       [previous\<lparr>pe_item := item, pe_timestamp := pe_timestamp entry,
                          pe_seqEnd := pe_seqEnd entry,
                          pe_ranges := mergeSeqRanges (pe_ranges previous) (pe_ranges entry),
                          pe_collapsed := js_set (pe_collapsed previous @ pe_collapsed entry @ [kind])\<rparr>])
           else output @ [entry]))"

definition mergeReasoningChunks :: "TimelineProjectionEntry list \<Rightarrow> TimelineProjectionEntry list" where
  "mergeReasoningChunks entries = fold (merge_step joinReasoning Reasoning_merge) entries []"

definition mergeAssistantChunks :: "TimelineProjectionEntry list \<Rightarrow> TimelineProjectionEntry list" where
  "mergeAssistantChunks entries = fold (merge_step joinAssistant Assistant_merge) entries []"

definition projectTimelineRows ::
  "AgentTimelineRow list \<Rightarrow> TimelineProjectionMode \<Rightarrow> TimelineProjectionEntry list" where
  "projectTimelineRows rows mode =
     (let canonical = makeCanonicalEntries rows
      in if mode = Canonical then canonical
         else mergeReasoningChunks (mergeAssistantChunks (collapseByIdentity canonical)))"

section \<open>Ranges\<close>

definition seqs_of :: "TimelineSeqRange list \<Rightarrow> int list" where
  "seqs_of rs = concat (map (\<lambda>r. [rg_start r..rg_end r]) rs)"

definition ranges_ok :: "TimelineSeqRange list \<Rightarrow> bool" where
  "ranges_ok rs = (rs \<noteq> [] \<and> (\<forall>r\<in>set rs. rg_start r \<le> rg_end r) \<and> sorted_wrt (<) (seqs_of rs))"

lemma seqs_of_simps [simp]:
  "seqs_of [] = []" "seqs_of (r # rs) = [rg_start r..rg_end r] @ seqs_of rs"
  "seqs_of (rs @ rs') = seqs_of rs @ seqs_of rs'"
  by (simp_all add: seqs_of_def)

lemma mergeSeqRanges_fold:
  "mergeSeqRanges existing incoming = fold (\<lambda>seq m. appendSeqToRanges m seq) (seqs_of incoming) existing"
  unfolding mergeSeqRanges_def by (induction incoming arbitrary: existing) simp_all

lemma last_seqs_of: "ranges_ok rs \<Longrightarrow> last (seqs_of rs) = rg_end (last rs)"
proof (induction rs rule: rev_induct)
  case (snoc r rs)
  then have "rg_start r \<le> rg_end r" by (simp add: ranges_ok_def)
  then show ?case by (simp add: upto_rec2)
qed (simp add: ranges_ok_def)

lemma seqs_of_nonempty: "ranges_ok rs \<Longrightarrow> seqs_of rs \<noteq> []"
  by (cases rs) (auto simp: ranges_ok_def)

lemma appendSeq_ok:
  assumes "ranges_ok rs" "last (seqs_of rs) < seq"
  shows "seqs_of (appendSeqToRanges rs seq) = seqs_of rs @ [seq] \<and> ranges_ok (appendSeqToRanges rs seq)"
proof -
  obtain rs' r where rs: "rs = rs' @ [r]"
    using assms(1) by (cases rs rule: rev_cases) (auto simp: ranges_ok_def)
  have r: "rg_start r \<le> rg_end r" "rg_end r < seq"
    using assms last_seqs_of [OF assms(1)] by (auto simp: rs ranges_ok_def)
  have seqs: "seqs_of (appendSeqToRanges rs seq) = seqs_of rs @ [seq]"
  proof (cases "seq = rg_end r + 1")
    case True
    then show ?thesis
      using r by (simp add: appendSeqToRanges_def rs upto_rec2 [of "rg_start r" "rg_end r + 1"])
  next
    case False
    then show ?thesis using r by (simp add: appendSeqToRanges_def rs)
  qed
  have "x \<le> last (seqs_of rs)" if "x \<in> set (seqs_of rs)" for x
    using sorted_last_max [of "\<lambda>x. x" "seqs_of rs"] assms(1) that by (simp add: ranges_ok_def)
  with assms have "sorted_wrt (<) (seqs_of rs @ [seq])"
    by (fastforce simp: sorted_wrt_append ranges_ok_def)
  with seqs assms(1) r show ?thesis
    by (auto simp: ranges_ok_def appendSeqToRanges_def rs)
qed

lemma appendSeqs_ok:
  "ranges_ok a \<Longrightarrow> sorted_wrt (<) (seqs_of a @ xs)
     \<Longrightarrow> seqs_of (fold (\<lambda>seq m. appendSeqToRanges m seq) xs a) = seqs_of a @ xs
       \<and> ranges_ok (fold (\<lambda>seq m. appendSeqToRanges m seq) xs a)"
proof (induction xs arbitrary: a)
  case (Cons x xs)
  have "last (seqs_of a) < x"
    using Cons.prems seqs_of_nonempty by (auto simp: sorted_wrt_append)
  from appendSeq_ok [OF Cons.prems(1) this] Cons.IH [of "appendSeqToRanges a x"] Cons.prems(2)
  show ?case by simp
qed simp

lemma mergeSeqRanges_ok:
  assumes "ranges_ok a" "ranges_ok b" "last (seqs_of a) < hd (seqs_of b)"
  shows "seqs_of (mergeSeqRanges a b) = seqs_of a @ seqs_of b \<and> ranges_ok (mergeSeqRanges a b)"
proof -
  have le: "x \<le> last (seqs_of a)" if "x \<in> set (seqs_of a)" for x
    using sorted_last_max [of "\<lambda>x. x" "seqs_of a"] assms(1) that by (simp add: ranges_ok_def)
  have ge: "hd (seqs_of b) \<le> y" if "y \<in> set (seqs_of b)" for y
    using assms(2) that by (cases "seqs_of b") (auto simp: ranges_ok_def)
  have "sorted_wrt (<) (seqs_of a @ seqs_of b)"
    using assms le ge by (fastforce simp: sorted_wrt_append ranges_ok_def)
  from appendSeqs_ok [OF assms(1) this] show ?thesis
    by (simp add: mergeSeqRanges_fold)
qed

section \<open>Entries stand for their rows\<close>

definition entry_seqs :: "TimelineProjectionEntry \<Rightarrow> int list" where
  "entry_seqs e = seqs_of (pe_ranges e)"

definition entry_ok :: "TimelineProjectionEntry \<Rightarrow> bool" where
  "entry_ok e = (ranges_ok (pe_ranges e) \<and> hd (entry_seqs e) = pe_seqStart e \<and>
     last (entry_seqs e) = pe_seqEnd e)"

definition entries_ok :: "TimelineProjectionEntry list \<Rightarrow> bool" where
  "entries_ok es = (list_all entry_ok es \<and> sorted_wrt (<) (map pe_seqStart es))"

abbreviation all_seqs :: "TimelineProjectionEntry list \<Rightarrow> int multiset" where
  "all_seqs es \<equiv> mset (concat (map entry_seqs es))"

lemma entry_start_le_end: "entry_ok e \<Longrightarrow> pe_seqStart e \<le> pe_seqEnd e"
  using sorted_last_max [of "\<lambda>x. x" "entry_seqs e"] seqs_of_nonempty [of "pe_ranges e"]
  by (metis entry_ok_def entry_seqs_def hd_in_set list.map_ident ranges_ok_def)

lemma merged_entry_ok:
  assumes "entry_ok p" "entry_ok e" "pe_seqEnd p < pe_seqStart e"
    and "pe_ranges m = mergeSeqRanges (pe_ranges p) (pe_ranges e)"
    and "pe_seqStart m = pe_seqStart p" "pe_seqEnd m = pe_seqEnd e"
  shows "entry_ok m \<and> entry_seqs m = entry_seqs p @ entry_seqs e"
proof -
  have "seqs_of (mergeSeqRanges (pe_ranges p) (pe_ranges e)) = entry_seqs p @ entry_seqs e
      \<and> ranges_ok (mergeSeqRanges (pe_ranges p) (pe_ranges e))"
    using assms(1,2,3) unfolding entry_seqs_def by (intro mergeSeqRanges_ok) (auto simp: entry_ok_def entry_seqs_def)
  moreover have "entry_seqs p \<noteq> []" "entry_seqs e \<noteq> []"
    using assms(1,2) by (auto simp: entry_ok_def entry_seqs_def seqs_of_nonempty)
  ultimately show ?thesis
    using assms by (simp add: entry_ok_def entry_seqs_def)
qed

lemma all_seqs_update:
  assumes "i < length es" "entry_seqs m = entry_seqs (es ! i) @ xs"
  shows "all_seqs (es[i := m]) = all_seqs es + mset xs"
proof -
  have "es = take i es @ es ! i # drop (Suc i) es"
    using assms(1) by (rule id_take_nth_drop)
  then have "all_seqs es = all_seqs (take i es @ es ! i # drop (Suc i) es)" by simp
  with assms show ?thesis
    by (simp add: upd_conv_take_nth_drop)
qed

lemma mergeIdentityEntries_Some:
  "mergeIdentityEntries existing entry = Some m \<longleftrightarrow>
     (\<exists>old new. pe_item existing = ToolCall old \<and> pe_item entry = ToolCall new
       \<and> pe_turnId existing = pe_turnId entry
       \<and> m = existing\<lparr>pe_item := ToolCall (mergeToolCallItems old new),
               pe_timestamp := pe_timestamp entry,
               pe_seqEnd := max (pe_seqEnd existing) (pe_seqEnd entry),
               pe_ranges := mergeSeqRanges (pe_ranges existing) (pe_ranges entry),
               pe_collapsed := snd (mergeIdentityMetadata existing entry Tool_lifecycle)\<rparr>)"
  by (auto simp: mergeIdentityEntries_def mergeIdentityMetadata_def split: AgentTimelineItem.splits)

lemma collapse_step_cases:
  obtains (push) idx' where "collapse_step e (out, idx) = (out @ [e], idx')"
  | (merge) i m where "collapse_step e (out, idx) = (out[i := m], idx)" "i < length out"
      "mergeIdentityEntries (out ! i) e = Some m"
proof -
  have "(\<exists>idx'. collapse_step e (out, idx) = (out @ [e], idx')) \<or>
    (\<exists>i m. collapse_step e (out, idx) = (out[i := m], idx) \<and> i < length out
        \<and> mergeIdentityEntries (out ! i) e = Some m)"
    by (auto simp: collapse_step_def split: option.splits if_splits)
  with push merge show thesis by blast
qed

lemma collapse_step_ok:
  assumes "entries_ok out" "entry_ok e" "\<forall>o'\<in>set out. pe_seqEnd o' < pe_seqStart e"
    and "collapse_step e (out, idx) = (out', idx')"
  shows "entries_ok out' \<and> (\<forall>o'\<in>set out'. pe_seqEnd o' \<le> pe_seqEnd e)
    \<and> all_seqs out' = all_seqs out + mset (entry_seqs e)"
proof (cases rule: collapse_step_cases [of e out idx])
  case (push idx2)
  have "pe_seqStart o' < pe_seqStart e" if "o' \<in> set out" for o'
    using that assms(1,3) entry_start_le_end [of o'] by (fastforce simp: entries_ok_def list_all_iff)
  then show ?thesis
    using assms push entry_start_le_end [OF assms(2)]
    by (fastforce simp: entries_ok_def sorted_wrt_append)
next
  case (merge i m)
  let ?p = "out ! i"
  have p: "entry_ok ?p" "pe_seqEnd ?p < pe_seqStart e"
    using assms(1,3) merge(2) by (auto simp: entries_ok_def list_all_length)
  have m: "pe_ranges m = mergeSeqRanges (pe_ranges ?p) (pe_ranges e)" "pe_seqStart m = pe_seqStart ?p"
    "pe_seqEnd m = pe_seqEnd e"
    using merge(3) p(2) entry_start_le_end [OF assms(2)] by (auto simp: mergeIdentityEntries_Some)
  from merged_entry_ok [OF p(1) assms(2) p(2) m] have mok: "entry_ok m"
    "entry_seqs m = entry_seqs ?p @ entry_seqs e" by auto
  have starts: "map pe_seqStart (out[i := m]) = map pe_seqStart out"
    using m(2) merge(2) by (metis list_update_id map_update nth_map)
  have "\<forall>o'\<in>set (out[i := m]). pe_seqEnd o' \<le> pe_seqEnd e"
    using assms(3) m(3) entry_start_le_end [OF assms(2)] set_update_subset_insert [of out i m]
    by (fastforce simp: less_imp_le)
  moreover have "list_all entry_ok (out[i := m])"
    using assms(1) mok(1) set_update_subset_insert [of out i m]
    by (auto simp: entries_ok_def list_all_iff)
  ultimately show ?thesis
    using assms(1,4) merge(1) starts all_seqs_update [OF merge(2) mok(2)]
    by (simp add: entries_ok_def)
qed

lemma collapse_fold_ok:
  "entries_ok out \<Longrightarrow> list_all entry_ok es
     \<Longrightarrow> sorted_wrt (\<lambda>a b. pe_seqEnd a < pe_seqStart b) es
     \<Longrightarrow> \<forall>o'\<in>set out. \<forall>e\<in>set es. pe_seqEnd o' < pe_seqStart e
     \<Longrightarrow> entries_ok (fst (fold collapse_step es (out, idx)))
       \<and> all_seqs (fst (fold collapse_step es (out, idx))) = all_seqs out + all_seqs es"
proof (induction es arbitrary: out idx)
  case (Cons e es)
  obtain out' idx' where step: "collapse_step e (out, idx) = (out', idx')" by fastforce
  have ok: "entries_ok out'" and bound: "\<forall>o'\<in>set out'. pe_seqEnd o' \<le> pe_seqEnd e"
    and seqs: "all_seqs out' = all_seqs out + mset (entry_seqs e)"
    using collapse_step_ok [OF Cons.prems(1) _ _ step] Cons.prems(2,4) by auto
  have "\<forall>o'\<in>set out'. \<forall>x\<in>set es. pe_seqEnd o' < pe_seqStart x"
    using bound Cons.prems(3) by fastforce
  with Cons.IH [OF ok] Cons.prems(2,3) step seqs show ?case
    by (simp add: add.assoc)
qed simp

lemma merge_step_cases:
  obtains (push) "merge_step join kind e out = out @ [e]"
  | (merge) pre p m item where "out = pre @ [p]" "merge_step join kind e out = pre @ [m]"
      "pe_seqEnd p + 1 = pe_seqStart e" "join (pe_item p) (pe_item e) = Some item"
      "pe_item m = item" "pe_seqStart m = pe_seqStart p" "pe_seqEnd m = pe_seqEnd e"
      "pe_ranges m = mergeSeqRanges (pe_ranges p) (pe_ranges e)" "pe_turnId m = pe_turnId e"
proof (cases out rule: rev_cases)
  case (snoc pre p)
  show thesis
  proof (cases "pe_seqEnd p + 1 = pe_seqStart e \<and> pe_turnId p = pe_turnId e
      \<and> join (pe_item p) (pe_item e) \<noteq> None")
    case True
    then obtain item where "join (pe_item p) (pe_item e) = Some item" by auto
    with True snoc show thesis
      by (intro merge [of pre p "last (merge_step join kind e out)" item]) (auto simp: merge_step_def)
  next
    case False
    with snoc show thesis by (intro push) (auto simp: merge_step_def)
  qed
qed (simp add: push merge_step_def)

lemma merge_step_ok:
  assumes "entries_ok out" "entry_ok e" "\<forall>o'\<in>set out. pe_seqStart o' < pe_seqStart e"
  shows "entries_ok (merge_step join kind e out)
    \<and> (\<forall>o'\<in>set (merge_step join kind e out). pe_seqStart o' \<le> pe_seqStart e)
    \<and> all_seqs (merge_step join kind e out) = all_seqs out + mset (entry_seqs e)"
proof (cases rule: merge_step_cases [of join kind e out])
  case push
  with assms show ?thesis by (fastforce simp: entries_ok_def sorted_wrt_append)
next
  case (merge pre p m item)
  have "entry_ok p" using assms(1) merge(1) by (simp add: entries_ok_def)
  from merged_entry_ok [OF this assms(2) _ merge(8,6,7)] merge(3)
  have "entry_ok m \<and> entry_seqs m = entry_seqs p @ entry_seqs e" by simp
  with assms merge show ?thesis
    by (fastforce simp: entries_ok_def sorted_wrt_append)
qed

lemma merge_fold_ok:
  "entries_ok out \<Longrightarrow> list_all entry_ok es \<Longrightarrow> sorted_wrt (<) (map pe_seqStart es)
     \<Longrightarrow> \<forall>o'\<in>set out. \<forall>e\<in>set es. pe_seqStart o' < pe_seqStart e
     \<Longrightarrow> entries_ok (fold (merge_step join kind) es out)
       \<and> all_seqs (fold (merge_step join kind) es out) = all_seqs out + all_seqs es"
proof (induction es arbitrary: out)
  case (Cons e es)
  let ?out = "merge_step join kind e out"
  have step: "entries_ok ?out" "\<forall>o'\<in>set ?out. pe_seqStart o' \<le> pe_seqStart e"
    "all_seqs ?out = all_seqs out + mset (entry_seqs e)"
    using merge_step_ok [OF Cons.prems(1), of e join kind] Cons.prems(2,4) by auto
  have "\<forall>o'\<in>set ?out. \<forall>x\<in>set es. pe_seqStart o' < pe_seqStart x"
    using step(2) Cons.prems(3) by fastforce
  with Cons.IH [OF step(1)] Cons.prems(2,3) step(3) show ?case
    by (simp add: add.assoc)
qed simp

lemma merge_chunks_ok:
  assumes "entries_ok es"
  shows "entries_ok (fold (merge_step join kind) es []) \<and> all_seqs (fold (merge_step join kind) es []) = all_seqs es"
  using merge_fold_ok [of "[]" es join kind] assms by (simp add: entries_ok_def)

lemma canonical_ok:
  "list_all entry_ok (makeCanonicalEntries rows)"
  "concat (map entry_seqs (makeCanonicalEntries rows)) = map row_seq rows"
  "map pe_seqStart (makeCanonicalEntries rows) = map row_seq rows"
  "sorted_wrt (<) (map row_seq rows)
     \<Longrightarrow> sorted_wrt (\<lambda>a b. pe_seqEnd a < pe_seqStart b) (makeCanonicalEntries rows)"
  by (auto simp: makeCanonicalEntries_def list_all_iff entry_ok_def entry_seqs_def ranges_ok_def
      sorted_wrt_map comp_def intro!: concat_map_singleton)

lemma project_ok:
  assumes "sorted_wrt (<) (map row_seq rows)"
  shows "entries_ok (projectTimelineRows rows mode)
    \<and> all_seqs (projectTimelineRows rows mode) = mset (map row_seq rows)"
proof (cases mode)
  case Canonical
  then show ?thesis
    using assms by (simp add: projectTimelineRows_def entries_ok_def canonical_ok flip: mset_map)
next
  case Projected
  have "entries_ok (collapseByIdentity (makeCanonicalEntries rows))
      \<and> all_seqs (collapseByIdentity (makeCanonicalEntries rows)) = mset (map row_seq rows)"
    using collapse_fold_ok [of "[]" "makeCanonicalEntries rows" "[]"] canonical_ok [of rows] assms
    by (simp add: collapseByIdentity_def entries_ok_def)
  then show ?thesis
    using Projected merge_chunks_ok
    by (simp add: projectTimelineRows_def mergeReasoningChunks_def mergeAssistantChunks_def)
qed

lemma concat_update:
  assumes "i < length xs"
  shows "concat (map f (xs[i := m])) = concat (map f (take i xs)) @ f m @ concat (map f (drop (Suc i) xs))"
    and "concat (map f xs) = concat (map f (take i xs)) @ f (xs ! i) @ concat (map f (drop (Suc i) xs))"
proof -
  show "concat (map f (xs[i := m])) = concat (map f (take i xs)) @ f m @ concat (map f (drop (Suc i) xs))"
    using assms by (simp add: upd_conv_take_nth_drop)
  have "map f xs = map f (take i xs) @ f (xs ! i) # map f (drop (Suc i) xs)"
    using id_take_nth_drop [OF assms] by (metis list.simps(9) map_append)
  then show "concat (map f xs) = concat (map f (take i xs)) @ f (xs ! i) @ concat (map f (drop (Suc i) xs))"
    by simp
qed

lemma concat_update_none:
  "i < length xs \<Longrightarrow> f (xs ! i) = [] \<Longrightarrow> f m = [] \<Longrightarrow> concat (map f (xs[i := m])) = concat (map f xs)"
  using concat_update(1) [of i xs f m] concat_update(2) [of i xs f] by simp

lemma concat_update_single:
  "i < length xs \<Longrightarrow> f (xs ! i) = [a] \<Longrightarrow> concat (map f xs) = [a] \<Longrightarrow> concat (map f (xs[i := m])) = f m"
proof -
  assume i: "i < length xs" "f (xs ! i) = [a]" "concat (map f xs) = [a]"
  have "ys @ a # zs = [a] \<Longrightarrow> ys = [] \<and> zs = []" for ys zs by (cases ys) auto
  with concat_update(2) [OF i(1), of f] i(2,3)
  have "concat (map f (take i xs)) = [] \<and> concat (map f (drop (Suc i) xs)) = []"
    by (metis append_Cons append_Nil)
  with concat_update(1) [OF i(1), of f m] show ?thesis
    by (simp del: concat_eq_Nil_conv)
qed

section \<open>What a reader of the entries sees\<close>

text \<open>The text of the assistant, the reasoning text, and the items that are neither text nor tool
  calls.\<close>

definition assistant_text :: "AgentTimelineItem \<Rightarrow> string" where
  "assistant_text item = (case item of AssistantMessage t _ \<Rightarrow> t | _ \<Rightarrow> [])"

definition reasoning_text :: "AgentTimelineItem \<Rightarrow> string" where
  "reasoning_text item = (case item of Reasoning t \<Rightarrow> t | _ \<Rightarrow> [])"

definition other_items :: "AgentTimelineItem \<Rightarrow> AgentTimelineItem list" where
  "other_items item =
     (case item of AssistantMessage _ _ \<Rightarrow> [] | Reasoning _ \<Rightarrow> [] | ToolCall _ \<Rightarrow> [] | _ \<Rightarrow> [item])"

definition calls_of :: "string \<Rightarrow> AgentTimelineItem \<Rightarrow> AgentTimelineItem list" where
  "calls_of k item = (if timelineItemIdentity item = Some k then [item] else [])"

text \<open>A way to read items that joining two neighbours does not change; and one that moreover
  ignores tool calls, which collapsing does not change either.\<close>

locale stream_reading =
  fixes g :: "AgentTimelineItem \<Rightarrow> 'a list"
  assumes join_reasoning: "joinReasoning a b = Some c \<Longrightarrow> g c = g a @ g b"
    and join_assistant: "joinAssistant a b = Some c \<Longrightarrow> g c = g a @ g b"
begin

lemma merge_step_reading:
  assumes "\<And>a b c. join a b = Some c \<Longrightarrow> g c = g a @ g b"
  shows "concat (map (\<lambda>e. g (pe_item e)) (merge_step join kind e out))
    = concat (map (\<lambda>e. g (pe_item e)) out) @ g (pe_item e)"
  by (cases rule: merge_step_cases [of join kind e out]) (simp_all add: assms)

lemma merge_reading:
  assumes "\<And>a b c. join a b = Some c \<Longrightarrow> g c = g a @ g b"
  shows "concat (map (\<lambda>e. g (pe_item e)) (fold (merge_step join kind) es out))
    = concat (map (\<lambda>e. g (pe_item e)) out) @ concat (map (\<lambda>e. g (pe_item e)) es)"
  by (induction es arbitrary: out) (simp_all add: merge_step_reading [OF assms])

lemma project_reading:
  "concat (map (\<lambda>e. g (pe_item e)) (projectTimelineRows rows Projected))
     = concat (map (\<lambda>e. g (pe_item e)) (collapseByIdentity (makeCanonicalEntries rows)))"
  by (simp add: projectTimelineRows_def mergeReasoningChunks_def mergeAssistantChunks_def
      merge_reading [OF join_reasoning] merge_reading [OF join_assistant])

end

locale plain_reading = stream_reading +
  assumes tool_call: "g (ToolCall t) = []"
begin

lemma collapse_step_reading:
  "concat (map (\<lambda>e. g (pe_item e)) (fst (collapse_step e (out, idx))))
     = concat (map (\<lambda>e. g (pe_item e)) out) @ g (pe_item e)"
proof (cases rule: collapse_step_cases [of e out idx])
  case (merge i m)
  then have "g (pe_item (out ! i)) = []" "g (pe_item m) = []" "g (pe_item e) = []"
    by (auto simp: mergeIdentityEntries_Some tool_call)
  with merge(1) concat_update_none [OF merge(2), of "\<lambda>e. g (pe_item e)"] show ?thesis by simp
qed simp

lemma collapse_fold_reading:
  "concat (map (\<lambda>e. g (pe_item e)) (fst (fold collapse_step es (out, idx))))
     = concat (map (\<lambda>e. g (pe_item e)) out) @ concat (map (\<lambda>e. g (pe_item e)) es)"
proof (induction es arbitrary: out idx)
  case (Cons e es)
  then show ?case
    using collapse_step_reading [of e out idx]
    by (cases "collapse_step e (out, idx)") simp
qed simp

lemma reading_kept:
  "concat (map (\<lambda>e. g (pe_item e)) (projectTimelineRows rows mode))
     = concat (map (\<lambda>r. g (row_item r)) rows)"
proof -
  have canonical: "map (\<lambda>e. g (pe_item e)) (makeCanonicalEntries rows) = map (\<lambda>r. g (row_item r)) rows"
    by (simp add: makeCanonicalEntries_def comp_def)
  show ?thesis
  proof (cases mode)
    case Projected
    then show ?thesis
      by (simp add: project_reading collapseByIdentity_def collapse_fold_reading canonical)
  qed (simp add: projectTimelineRows_def canonical)
qed

end

lemma joinReasoning_Some:
  "joinReasoning a b = Some c \<longleftrightarrow> (\<exists>s t. a = Reasoning s \<and> b = Reasoning t \<and> c = Reasoning (s @ t))"
  by (auto simp: joinReasoning_def split: AgentTimelineItem.splits)

lemma joinAssistant_Some:
  "joinAssistant a b = Some c \<Longrightarrow> \<exists>s m t n. a = AssistantMessage s m \<and> b = AssistantMessage t n
     \<and> c = AssistantMessage (s @ t) (truthy m)"
  by (auto simp: joinAssistant_def split: AgentTimelineItem.splits if_splits)

interpretation assistant: plain_reading assistant_text
  by unfold_locales (auto simp: assistant_text_def joinReasoning_Some dest!: joinAssistant_Some)

interpretation reasoning: plain_reading reasoning_text
  by unfold_locales (auto simp: reasoning_text_def joinReasoning_Some dest!: joinAssistant_Some)

interpretation others: plain_reading other_items
  by unfold_locales (auto simp: other_items_def joinReasoning_Some dest!: joinAssistant_Some)

interpretation calls: stream_reading "calls_of k" for k
  by unfold_locales
     (auto simp: calls_of_def timelineItemIdentity_def joinReasoning_Some dest!: joinAssistant_Some)

text \<open>The projection loses nothing a reader would see: the assistant's text, the reasoning text
  and the sequence of all other items are those of the rows, in the same order, in both modes.\<close>

theorem projection_lossless:
  "concat (map (\<lambda>e. assistant_text (pe_item e)) (projectTimelineRows rows mode))
     = concat (map (\<lambda>r. assistant_text (row_item r)) rows)
   \<and> concat (map (\<lambda>e. reasoning_text (pe_item e)) (projectTimelineRows rows mode))
     = concat (map (\<lambda>r. reasoning_text (row_item r)) rows)
   \<and> concat (map (\<lambda>e. other_items (pe_item e)) (projectTimelineRows rows mode))
     = concat (map (\<lambda>r. other_items (row_item r)) rows)"
  by (intro conjI assistant.reading_kept reasoning.reading_kept others.reading_kept)

definition sample_tool :: "call_status \<Rightarrow> ToolCallTimelineItem" where
  "sample_tool status = \<lparr>tc_callId = ''k'', tc_name = ''bash'', tc_detail = \<lparr>td_type = DShell, td_data = ''ls''\<rparr>,
     tc_metadata = None, tc_status = status, tc_error = Some ErrNull, tc_extra = []\<rparr>"

definition sample_row :: "int \<Rightarrow> AgentTimelineItem \<Rightarrow> AgentTimelineRow" where
  "sample_row n item = \<lparr>row_seq = n, row_timestamp = ''now'', row_item = item, row_turnId = Some ''t'',
     row_providerMessageId = None\<rparr>"

definition sample_rows :: "AgentTimelineRow list" where
  "sample_rows = [sample_row 1 (ToolCall (sample_tool Running)), sample_row 2 (AssistantMessage ''a'' None),
     sample_row 3 (AssistantMessage ''b'' None), sample_row 4 (ToolCall (sample_tool Completed))]"

text \<open>C23. For a timeline with increasing sequence numbers, the numbers in the source ranges of the
  projected entries are exactly the numbers of the rows, each in exactly one entry and once, and
  the entries are in the order of their first row.\<close>

theorem projection_partition:
  assumes "sorted_wrt (<) (map row_seq rows)"
  shows "mset (concat (map entry_seqs (projectTimelineRows rows mode))) = mset (map row_seq rows)
    \<and> sorted_wrt (<) (map pe_seqStart (projectTimelineRows rows mode))"
  using project_ok [OF assms] by (simp add: entries_ok_def)

theorem projection_partition_witness:
  "mset (concat (map entry_seqs (projectTimelineRows sample_rows Projected))) = mset [1, 2, 3, 4]
    \<and> sorted_wrt (<) (map pe_seqStart (projectTimelineRows sample_rows Projected))"
proof -
  have "map row_seq sample_rows = [1, 2, 3, 4]"
    by (simp add: sample_rows_def sample_row_def)
  with projection_partition [of sample_rows Projected] show ?thesis by simp
qed

section \<open>The life cycle of a tool call\<close>

definition calls_in :: "string \<Rightarrow> TimelineProjectionEntry list \<Rightarrow> AgentTimelineItem list" where
  "calls_in k es = concat (map (\<lambda>e. calls_of k (pe_item e)) es)"

lemma calls_in_simps [simp]: "calls_in k [] = []"
  "calls_in k (es @ [e]) = calls_in k es @ calls_of k (pe_item e)"
  by (simp_all add: calls_in_def)

text \<open>What the collapsing loop knows of one call after a prefix of the entries: nothing, or the
  position of the one entry of the call, which has the status of the latest update.\<close>

definition call_state ::
  "string \<Rightarrow> string option \<Rightarrow> TimelineProjectionEntry list \<Rightarrow> TimelineProjectionEntry list
     \<Rightarrow> identity_index \<Rightarrow> bool" where
  "call_state k turn seen out idx =
     (case last_opt (calls_in k seen) of
        None \<Rightarrow> map_get idx k = None \<and> calls_in k out = []
      | Some latest \<Rightarrow>
          (\<exists>i t u. map_get idx k = Some i \<and> i < length out \<and> pe_item (out ! i) = ToolCall t
             \<and> latest = ToolCall u \<and> tc_status t = tc_status u \<and> tc_name t = tc_name u
             \<and> tc_callId t = k \<and> pe_turnId (out ! i) = turn
             \<and> calls_in k out = [ToolCall t]))"

lemma mergeToolCallItems_simps [simp]:
  "tc_status (mergeToolCallItems a b) = tc_status b" "tc_callId (mergeToolCallItems a b) = tc_callId b"
  "tc_name (mergeToolCallItems a b) = tc_name b"
  by (simp_all add: mergeToolCallItems_def Let_def)

definition index_ok :: "TimelineProjectionEntry list \<Rightarrow> identity_index \<Rightarrow> bool" where
  "index_ok out idx = (\<forall>k i. map_get idx k = Some i \<longrightarrow>
     i < length out \<and> timelineItemIdentity (pe_item (out ! i)) = Some k)"

lemma identity_Some: "timelineItemIdentity item = Some k \<longleftrightarrow> (\<exists>t. item = ToolCall t \<and> tc_callId t = k)"
  by (auto simp: timelineItemIdentity_def split: AgentTimelineItem.splits)

lemma collapse_step_index:
  assumes "index_ok out idx" "collapse_step e (out, idx) = (out', idx')"
  shows "index_ok out' idx'"
proof (cases "timelineItemIdentity (pe_item e)")
  case None
  with assms show ?thesis by (fastforce simp: collapse_step_def index_ok_def nth_append)
next
  case (Some k)
  have push: "index_ok (out @ [e]) (AList.update k (length out) idx)"
    using assms(1) Some by (fastforce simp: index_ok_def nth_append get_update split: if_splits)
  have merge: "index_ok (out[i := m]) idx"
    if "map_get idx k = Some i" "mergeIdentityEntries (out ! i) e = Some m" for i m
  proof -
    have "timelineItemIdentity (pe_item m) = Some k"
      using that(2) Some by (auto simp: mergeIdentityEntries_Some identity_Some)
    moreover have "timelineItemIdentity (pe_item (out ! i)) = Some k" "i < length out"
      using assms(1) that(1) by (simp_all add: index_ok_def)
    ultimately show ?thesis
      using assms(1) by (fastforce simp: index_ok_def nth_list_update)
  qed
  show ?thesis
    using assms(2) Some push merge
    by (auto simp: collapse_step_def split: option.splits if_splits)
qed

lemma call_state_other:
  assumes "index_ok out idx" "call_state k turn seen out idx" "timelineItemIdentity (pe_item e) \<noteq> Some k"
    and "collapse_step e (out, idx) = (out', idx')"
  shows "call_state k turn (seen @ [e]) out' idx'"
proof -
  have none: "calls_of k (pe_item e) = []" using assms(3) by (simp add: calls_of_def)
  have push: "call_state k turn (seen @ [e]) (out @ [e]) idx2" if "map_get idx2 k = map_get idx k" for idx2
    using assms(2) none that by (auto simp: call_state_def nth_append split: option.splits)
  have merge: "call_state k turn (seen @ [e]) (out[i := m]) idx"
    if "map_get idx k' = Some i" "k' \<noteq> k" "timelineItemIdentity (pe_item m) = Some k'" for i m k'
  proof -
    have i: "i < length out" "timelineItemIdentity (pe_item (out ! i)) = Some k'"
      using assms(1) that(1) by (auto simp: index_ok_def)
    have eq: "calls_in k (out[i := m])
        = calls_in k out"
      using i that unfolding calls_in_def by (intro concat_update_none) (auto simp: calls_of_def)
    have "j \<noteq> i" if "pe_item (out ! j) = ToolCall t" "tc_callId t = k" for j t
      using that i(2) \<open>k' \<noteq> k\<close> by (auto simp: timelineItemIdentity_def)
    then show ?thesis
      using assms(2) none unfolding call_state_def eq
      by (fastforce split: option.splits simp: nth_list_update)
  qed
  show ?thesis
  proof (cases "timelineItemIdentity (pe_item e)")
    case None
    with assms(4) push show ?thesis by (auto simp: collapse_step_def)
  next
    case (Some k')
    with assms(3) have "k' \<noteq> k" by simp
    moreover have "timelineItemIdentity (pe_item m) = Some k'"
      if "mergeIdentityEntries (out ! i) e = Some m" for i m
      using that Some by (auto simp: mergeIdentityEntries_Some identity_Some)
    ultimately show ?thesis
      using assms(4) Some push merge
      by (auto simp: collapse_step_def get_update split: option.splits if_splits)
  qed
qed

lemma call_state_same:
  assumes "call_state k turn seen out idx" "pe_item e = ToolCall u" "tc_callId u = k" "pe_turnId e = turn"
    and "collapse_step e (out, idx) = (out', idx')"
  shows "call_state k turn (seen @ [e]) out' idx'"
proof (cases "last_opt (calls_in k seen)")
  case None
  with assms show ?thesis
    by (auto simp: call_state_def collapse_step_def timelineItemIdentity_def calls_of_def get_update
        last_opt_def)
next
  case (Some latest)
  with assms(1) obtain i t where i: "map_get idx k = Some i" "i < length out"
    "pe_item (out ! i) = ToolCall t" "tc_callId t = k" "pe_turnId (out ! i) = turn"
    "calls_in k out = [ToolCall t]"
    by (auto simp: call_state_def)
  then obtain m where m: "mergeIdentityEntries (out ! i) e = Some m"
    "pe_item m = ToolCall (mergeToolCallItems t u)" "pe_turnId m = turn"
    using assms(2,4) by (auto simp: mergeIdentityEntries_Some)
  have out': "out' = out[i := m]" "idx' = idx"
    using assms(2,3,5) i m(1) by (auto simp: collapse_step_def timelineItemIdentity_def)
  have "calls_in k (out[i := m]) = calls_of k (pe_item m)"
    unfolding calls_in_def by (rule concat_update_single [OF i(2) _ i(6) [unfolded calls_in_def]])
       (simp add: i calls_of_def timelineItemIdentity_def)
  then show ?thesis
    using i m(2,3) assms(2,3) out'
    by (auto simp: call_state_def calls_of_def timelineItemIdentity_def)
qed

lemma call_state_fold:
  "index_ok out idx \<Longrightarrow> call_state k turn seen out idx
     \<Longrightarrow> \<forall>e\<in>set es. timelineItemIdentity (pe_item e) = Some k \<longrightarrow> pe_turnId e = turn
     \<Longrightarrow> fold collapse_step es (out, idx) = (out', idx') \<Longrightarrow> call_state k turn (seen @ es) out' idx'"
proof (induction es arbitrary: seen out idx)
  case (Cons e es)
  obtain out1 idx1 where step: "collapse_step e (out, idx) = (out1, idx1)" by fastforce
  have "call_state k turn (seen @ [e]) out1 idx1"
  proof (cases "timelineItemIdentity (pe_item e) = Some k")
    case True
    with Cons.prems step show ?thesis by (auto simp: identity_Some intro: call_state_same)
  qed (use Cons.prems step in \<open>auto intro: call_state_other\<close>)
  from Cons.IH [OF collapse_step_index [OF Cons.prems(1) step] this] Cons.prems(3,4) step
  show ?case by simp
qed simp

text \<open>A tool call whose rows carry one turn is one projected entry, with the name and the status
  of the last row of the call, however many updates it received and whatever came between.\<close>

theorem tool_call_last_wins:
  assumes "filter (\<lambda>r. timelineItemIdentity (row_item r) = Some k) rows = earlier @ [r]"
    and "row_item r = ToolCall u"
    and "\<forall>x\<in>set earlier. truthy (row_turnId x) = truthy (row_turnId r)"
  shows "\<exists>t. filter (\<lambda>i. timelineItemIdentity i = Some k) (map pe_item (projectTimelineRows rows Projected))
               = [ToolCall t]
     \<and> tc_status t = tc_status u \<and> tc_name t = tc_name u"
proof -
  have calls: "concat (map (\<lambda>x. calls_of k (h x)) xs) = filter (\<lambda>i. timelineItemIdentity i = Some k) (map h xs)"
    for h :: "'x \<Rightarrow> AgentTimelineItem" and xs
    by (induction xs) (auto simp: calls_of_def)
  obtain out idx where f: "fold collapse_step (makeCanonicalEntries rows) ([], []) = (out, idx)" by fastforce
  have "x \<in> set (earlier @ [r])" if "x \<in> set rows" "timelineItemIdentity (row_item x) = Some k" for x
    using that by (simp flip: assms(1))
  then have turn: "\<forall>e\<in>set (makeCanonicalEntries rows).
      timelineItemIdentity (pe_item e) = Some k \<longrightarrow> pe_turnId e = truthy (row_turnId r)"
    using assms(3) by (fastforce simp: makeCanonicalEntries_def)
  have "call_state k (truthy (row_turnId r)) ([] @ makeCanonicalEntries rows) out idx"
    by (rule call_state_fold [OF _ _ turn f]) (simp_all add: index_ok_def call_state_def)
  moreover have "calls_in k (makeCanonicalEntries rows)
      = map row_item earlier @ [ToolCall u]"
    using assms(1,2) by (simp add: calls_in_def calls makeCanonicalEntries_def comp_def filter_map)
  ultimately obtain t where "calls_in k out = [ToolCall t]"
    "tc_status t = tc_status u" "tc_name t = tc_name u"
    by (auto simp: call_state_def)
  then show ?thesis
    using calls.project_reading [of k rows] f by (auto simp: calls calls_in_def collapseByIdentity_def)
qed

theorem tool_call_last_wins_witness:
  "\<exists>t. filter (\<lambda>i. timelineItemIdentity i = Some ''k'') (map pe_item (projectTimelineRows sample_rows Projected))
         = [ToolCall t]
     \<and> tc_status t = Completed \<and> tc_name t = ''bash''"
  using tool_call_last_wins [of "''k''" sample_rows "[sample_row 1 (ToolCall (sample_tool Running))]"
      "sample_row 4 (ToolCall (sample_tool Completed))" "sample_tool Completed"]
  by (simp add: sample_rows_def sample_row_def sample_tool_def timelineItemIdentity_def)

end
