(* ===== verification/TimelinePages.thy ===== *)
theory TimelinePages
  imports TimelineProjection
begin

text \<open>
  Reading a projected timeline (\<open>server/agent/timeline-projection.ts\<close>): the window of the latest
  entries with its expansion to a closed range of rows, the pages read forward and backward, and
  the limit on plain items.

  Numbers compared with an infinity are options: the minimum \<open>None\<close> is plus infinity, the
  maximum \<open>None\<close> minus infinity.
\<close>

section \<open>Windows\<close>

record ProjectedWindowSelection =
  pw_entries :: "TimelineProjectionEntry list"
  pw_rows :: "AgentTimelineRow list"
  pw_minSeq :: "int option"
  pw_maxSeq :: "int option"

definition computeWindowBounds :: "TimelineProjectionEntry list \<Rightarrow> int option \<times> int option" where
  "computeWindowBounds entries =
     fold (\<lambda>entry (minSeq, maxSeq).
         (if (case minSeq of None \<Rightarrow> True | Some m \<Rightarrow> pe_seqStart entry < m)
          then Some (pe_seqStart entry) else minSeq,
          if (case maxSeq of None \<Rightarrow> True | Some m \<Rightarrow> pe_seqEnd entry > m)
          then Some (pe_seqEnd entry) else maxSeq))
       entries (None, None)"

definition overlaps :: "int option \<times> int option \<Rightarrow> TimelineProjectionEntry \<Rightarrow> bool" where
  "overlaps bounds entry =
     (case bounds of (Some minSeq, Some maxSeq) \<Rightarrow> pe_seqStart entry \<le> maxSeq \<and> pe_seqEnd entry \<ge> minSeq
      | _ \<Rightarrow> False)"

fun expand_window ::
  "nat \<Rightarrow> TimelineProjectionEntry list \<Rightarrow> TimelineProjectionEntry list \<Rightarrow> int option \<times> int option
     \<Rightarrow> TimelineProjectionEntry list \<times> (int option \<times> int option)" where
  "expand_window 0 projectedAll expanded bounds = (expanded, bounds)"
| "expand_window (Suc n) projectedAll expanded bounds =
     (let overlapping = filter (overlaps bounds) projectedAll;
          nextBounds = computeWindowBounds overlapping
      in if length overlapping = length expanded \<and> nextBounds = bounds
         then (overlapping, bounds)
         else expand_window n projectedAll overlapping nextBounds)"

definition empty_window :: ProjectedWindowSelection where
  "empty_window = \<lparr>pw_entries = [], pw_rows = [], pw_minSeq = None, pw_maxSeq = None\<rparr>"

definition first_window ::
  "TimelineProjectionEntry list \<Rightarrow> fetch_direction \<Rightarrow> nat \<Rightarrow> TimelineProjectionEntry list" where
  "first_window projectedAll direction limit =
     (if limit = 0 \<or> limit \<ge> length projectedAll then projectedAll
      else if direction = After then take limit projectedAll
      else last_n limit projectedAll)"

definition selectTimelineWindowByProjectedLimit ::
  "AgentTimelineRow list \<Rightarrow> fetch_direction \<Rightarrow> int \<Rightarrow> ProjectedWindowSelection" where
  "selectTimelineWindowByProjectedLimit rows direction inputLimit =
     (let limit = nat (max 0 inputLimit);
          canonical = makeCanonicalEntries rows;
          projectedAll = mergeReasoningChunks (mergeAssistantChunks (collapseByIdentity canonical))
      in if projectedAll = [] then empty_window
         else
           let projectedEntries = first_window projectedAll direction limit
           in if projectedEntries = [] then empty_window
              else
                case expand_window (length projectedAll + 1) projectedAll projectedEntries
                       (computeWindowBounds projectedEntries) of
                  (expanded, (minSeq, maxSeq)) \<Rightarrow>
                    \<lparr>pw_entries = expanded,
                     pw_rows = filter (\<lambda>row.
                        (case minSeq of None \<Rightarrow> False | Some m \<Rightarrow> row_seq row \<ge> m) \<and>
                        (case maxSeq of None \<Rightarrow> False | Some m \<Rightarrow> row_seq row \<le> m)) rows,
                     pw_minSeq = minSeq, pw_maxSeq = maxSeq\<rparr>)"

section \<open>Pages\<close>

record ProjectedTimelinePageSelection =
  pp_entries :: "TimelineProjectionEntry list"
  pp_startSeq :: "int option"
  pp_endSeq :: "int option"
  pp_hasOlder :: bool
  pp_hasNewer :: bool

definition getTimelineBounds :: "AgentTimelineRow list \<Rightarrow> (int \<times> int) option" where
  "getTimelineBounds rows =
     (case rows of [] \<Rightarrow> None | first # _ \<Rightarrow> Some (row_seq first, row_seq (last rows)))"

fun first_in_ranges :: "TimelineSeqRange list \<Rightarrow> int \<Rightarrow> int \<Rightarrow> int option" where
  "first_in_ranges [] startSeq endSeq = None"
| "first_in_ranges (rng # ranges) startSeq endSeq =
     (let firstSeq = max (rg_start rng) startSeq
      in if firstSeq \<le> min (rg_end rng) endSeq then Some firstSeq
         else first_in_ranges ranges startSeq endSeq)"

definition firstSourceSeqInRange :: "TimelineProjectionEntry \<Rightarrow> int \<Rightarrow> int \<Rightarrow> int option" where
  "firstSourceSeqInRange entry startSeq endSeq = first_in_ranges (pe_ranges entry) startSeq endSeq"

text \<open>The \<open>while\<close> that moves the range index past the ranges ending before the row, on the ranges
  that are left; and the loop over the rows that moves the cursor.\<close>

definition skip_ranges :: "int \<Rightarrow> TimelineSeqRange list \<Rightarrow> TimelineSeqRange list" where
  "skip_ranges seq ranges = dropWhile (\<lambda>r. rg_end r < seq) ranges"

fun advance_cursor ::
  "int \<Rightarrow> int \<Rightarrow> AgentTimelineRow list \<Rightarrow> TimelineSeqRange list \<Rightarrow> int \<Rightarrow> int" where
  "advance_cursor startSeq maxSeq [] ranges endSeq = endSeq"
| "advance_cursor startSeq maxSeq (row # rows) ranges endSeq =
     (if row_seq row < startSeq then advance_cursor startSeq maxSeq rows ranges endSeq
      else if row_seq row > maxSeq \<or> row_seq row \<noteq> endSeq + 1 then endSeq
      else (case skip_ranges (row_seq row) ranges of
              [] \<Rightarrow> endSeq
            | rng # rest \<Rightarrow>
                if row_seq row < rg_start rng \<or> row_seq row > rg_end rng then endSeq
                else advance_cursor startSeq maxSeq rows (rng # rest) (row_seq row)))"

definition candidates ::
  "TimelineProjectionEntry list \<Rightarrow> int \<Rightarrow> int \<Rightarrow> (int \<times> nat \<times> TimelineProjectionEntry) list" where
  "candidates entries startSeq maxSeq =
     concat (map (\<lambda>(index, entry). case firstSourceSeqInRange entry startSeq maxSeq of
                    None \<Rightarrow> []
                  | Some firstSourceSeq \<Rightarrow> [(firstSourceSeq, index, entry)])
       (zip [0..<length entries] entries))"

definition selectProjectedEntriesAfter ::
  "TimelineProjectionEntry list \<Rightarrow> AgentTimelineRow list \<Rightarrow> int \<Rightarrow> int \<Rightarrow> nat
     \<Rightarrow> TimelineProjectionEntry list \<times> int option" where
  "selectProjectedEntriesAfter entries rows startSeq maxSeq limit =
     (let eligible = sort_key (\<lambda>(f, i, e). (f, i)) (candidates entries startSeq maxSeq);
          selected = (if limit = 0 then eligible else take limit eligible);
          selectedEntries = map (\<lambda>(f, i, e). e) (sort_key (\<lambda>(f, i, e). i) selected)
      in if selectedEntries = [] then ([], None)
         else
           let selectedRanges = sort_key (\<lambda>r. (rg_start r, rg_end r))
                 (concat (map pe_ranges selectedEntries));
               endSeq = advance_cursor startSeq maxSeq rows selectedRanges (startSeq - 1)
           in (selectedEntries, if endSeq \<ge> startSeq then Some endSeq else None))"

definition selectProjectedEntriesBefore ::
  "TimelineProjectionEntry list \<Rightarrow> int \<Rightarrow> nat \<Rightarrow> TimelineProjectionEntry list \<times> int option \<times> bool" where
  "selectProjectedEntriesBefore entries endSeq limit =
     (let eligible = filter (\<lambda>entry. pe_seqStart entry \<le> endSeq) entries;
          selected = (if limit = 0 \<or> limit \<ge> length eligible then eligible else last_n limit eligible)
      in (selected, map_option pe_seqStart (head_opt selected), length selected < length eligible))"

definition page_result ::
  "TimelineProjectionEntry list \<Rightarrow> int option \<Rightarrow> int option \<Rightarrow> bool \<Rightarrow> bool
     \<Rightarrow> ProjectedTimelinePageSelection" where
  "page_result entries startSeq endSeq hasOlder hasNewer =
     \<lparr>pp_entries = entries, pp_startSeq = startSeq, pp_endSeq = endSeq, pp_hasOlder = hasOlder,
      pp_hasNewer = hasNewer\<rparr>"

record page_input =
  pi_rows :: "AgentTimelineRow list"
  pi_bounds :: "(int \<times> int) option"
  pi_direction :: fetch_direction
  pi_cursorSeq :: "int option"
  pi_limit :: "int option"
  pi_projected :: "TimelineProjectionEntry list option"

definition selectProjectedTimelinePage :: "page_input \<Rightarrow> ProjectedTimelinePageSelection" where
  "selectProjectedTimelinePage input =
     (let limit = (case pi_limit input of None \<Rightarrow> 0 | Some l \<Rightarrow> nat (max 0 l));
          projectedAll = (case pi_projected input of
              Some es \<Rightarrow> es
            | None \<Rightarrow> projectTimelineRows (pi_rows input) Projected);
          cursorOr = (\<lambda>d. case pi_cursorSeq input of Some c \<Rightarrow> c | None \<Rightarrow> d)
      in case (case pi_bounds input of Some b \<Rightarrow> Some b | None \<Rightarrow> getTimelineBounds (pi_rows input)) of
           None \<Rightarrow> page_result [] None None False False
         | Some (minSeq, maxSeq) \<Rightarrow>
             if projectedAll = [] then
               (case pi_direction input of
                  After \<Rightarrow> (let cursorSeq = cursorOr (minSeq - 1)
                    in page_result [] None None (cursorSeq \<ge> minSeq) (cursorSeq < maxSeq))
                | Before \<Rightarrow> (let cursorSeq = cursorOr (maxSeq + 1)
                    in page_result [] None None (cursorSeq > minSeq) (cursorSeq \<le> maxSeq))
                | Tail \<Rightarrow> page_result [] None None False False)
             else
               (case pi_direction input of
                  Tail \<Rightarrow>
                    (let selected = selectTimelineWindowByProjectedLimit (pi_rows input) Tail (int limit)
                     in page_result (pw_entries selected) (pw_minSeq selected) (pw_maxSeq selected)
                          (case pw_minSeq selected of None \<Rightarrow> False | Some m \<Rightarrow> m > minSeq) False)
                | After \<Rightarrow>
                    (let cursorSeq = cursorOr (minSeq - 1);
                         startSeq = max minSeq (cursorSeq + 1)
                     in case selectProjectedEntriesAfter projectedAll (pi_rows input) startSeq maxSeq limit of
                          (entries, endSeq) \<Rightarrow>
                            page_result entries (if endSeq = None then None else Some startSeq) endSeq
                              (startSeq > minSeq)
                              (case endSeq of None \<Rightarrow> False | Some e \<Rightarrow> e < maxSeq))
                | Before \<Rightarrow>
                    (let cursorSeq = cursorOr (maxSeq + 1);
                         endSeq = min maxSeq (cursorSeq - 1)
                     in if endSeq < minSeq then page_result [] None None False (endSeq < maxSeq)
                        else case selectProjectedEntriesBefore projectedAll endSeq limit of
                          (entries, startSeq, hasOlder) \<Rightarrow>
                            page_result entries startSeq (Some endSeq) hasOlder (endSeq < maxSeq))))"

section \<open>Plain items\<close>

record ProjectedItemSelection =
  ps_items :: "AgentTimelineItem list"
  ps_totalProjected :: nat
  ps_shownProjected :: nat

definition selectItemsByProjectedLimit ::
  "AgentTimelineItem list \<Rightarrow> fetch_direction \<Rightarrow> int \<Rightarrow> ProjectedItemSelection" where
  "selectItemsByProjectedLimit items direction limit =
     (let rows = map (\<lambda>(index, item). \<lparr>row_seq = int index + 1, row_timestamp = '''', row_item = item,
                 row_turnId = None, row_providerMessageId = None\<rparr>) (zip [0..<length items] items);
          window = selectTimelineWindowByProjectedLimit rows direction limit
      in \<lparr>ps_items = map row_item (pw_rows window),
          ps_totalProjected = length (projectTimelineRows rows Projected),
          ps_shownProjected = length (pw_entries window)\<rparr>)"

section \<open>The window expansion reaches a closed range\<close>

definition tight_bounds :: "TimelineProjectionEntry list \<Rightarrow> int \<Rightarrow> int \<Rightarrow> bool" where
  "tight_bounds es lo hi = ((\<forall>e\<in>set es. lo \<le> pe_seqStart e \<and> pe_seqEnd e \<le> hi)
     \<and> (\<exists>e\<in>set es. pe_seqStart e = lo) \<and> (\<exists>e\<in>set es. pe_seqEnd e = hi))"

lemma computeWindowBounds_tight:
  "es \<noteq> [] \<Longrightarrow> \<exists>lo hi. computeWindowBounds es = (Some lo, Some hi) \<and> tight_bounds es lo hi"
proof (induction es rule: rev_induct)
  case (snoc e es)
  show ?case
  proof (cases "es = []")
    case True
    then show ?thesis by (simp add: computeWindowBounds_def tight_bounds_def)
  next
    case False
    with snoc.IH obtain lo hi where "computeWindowBounds es = (Some lo, Some hi)" "tight_bounds es lo hi"
      by auto
    then show ?thesis
      by (fastforce simp: computeWindowBounds_def tight_bounds_def)
  qed
qed simp

lemma tight_unique: "tight_bounds es lo hi \<Longrightarrow> tight_bounds es' lo' hi' \<Longrightarrow> set es = set es' \<Longrightarrow> lo = lo' \<and> hi = hi'"
  by (fastforce simp: tight_bounds_def)

lemma computeWindowBounds_cong:
  assumes "set es = set es'"
  shows "computeWindowBounds es = computeWindowBounds es'"
proof (cases "es = []")
  case False
  then have "es' \<noteq> []" using assms by auto
  with False computeWindowBounds_tight [of es] computeWindowBounds_tight [of es'] tight_unique assms
  show ?thesis by fastforce
qed (use assms in simp)

lemma overlaps_own_bounds:
  assumes "e \<in> set es" "\<forall>e\<in>set es. pe_seqStart e \<le> pe_seqEnd e"
  shows "overlaps (computeWindowBounds es) e"
proof -
  obtain lo hi where "computeWindowBounds es = (Some lo, Some hi)" "tight_bounds es lo hi"
    using computeWindowBounds_tight [of es] assms(1) by (cases es) auto
  with assms show ?thesis by (fastforce simp: overlaps_def tight_bounds_def)
qed

lemma expand_window_closed:
  assumes "distinct all" "\<forall>e\<in>set all. pe_seqStart e \<le> pe_seqEnd e"
  shows "distinct es \<Longrightarrow> set es \<subseteq> set all \<Longrightarrow> length all < n + length es
    \<Longrightarrow> expand_window n all es (computeWindowBounds es) = (es', b)
    \<Longrightarrow> es' = filter (overlaps b) all \<and> computeWindowBounds es' = b \<and> set es \<subseteq> set es'"
proof (induction n arbitrary: es)
  case 0
  then have "card (set all) < card (set es)"
    using assms(1) by (simp add: distinct_card)
  with 0 card_mono [of "set all" "set es"] show ?case by simp
next
  case (Suc n)
  let ?o = "filter (overlaps (computeWindowBounds es)) all"
  have sub: "set es \<subseteq> set ?o"
    using Suc.prems(2) assms(2) by (auto intro!: overlaps_own_bounds)
  have dist: "distinct ?o" using assms(1) by simp
  show ?case
  proof (cases "length ?o = length es")
    case True
    then have "set es = set ?o"
      using sub dist Suc.prems(1) by (metis List.finite_set card_subset_eq distinct_card)
    then have "computeWindowBounds ?o = computeWindowBounds es"
      by (intro computeWindowBounds_cong) simp
    with True Suc.prems(4) sub show ?thesis by (auto simp: Let_def)
  next
    case False
    have "card (set es) \<le> card (set ?o)" using sub by (intro card_mono) auto
    then have "length es < length ?o"
      using False distinct_card [OF dist] distinct_card [OF Suc.prems(1)] by linarith
    with Suc.prems(3) have len: "length all < n + length ?o" by simp
    have "expand_window n all ?o (computeWindowBounds ?o) = (es', b)"
      using Suc.prems(4) False by (simp add: Let_def)
    from Suc.IH [OF dist _ len this] sub show ?thesis by auto
  qed
qed

lemma first_window_sub:
  fixes d :: fetch_direction and l :: nat
  assumes "all \<noteq> []" "distinct all"
  shows "set (first_window all d l) \<subseteq> set all" "distinct (first_window all d l)"
    "first_window all d l \<noteq> []"
    "l \<noteq> 0 \<Longrightarrow> length (first_window all d l) = min l (length all)"
  using assms by (auto simp: first_window_def set_last_n last_n_def dest: in_set_takeD in_set_dropD)

lemma in_entry_bounds:
  assumes "entry_ok e" "q \<in> set (entry_seqs e)"
  shows "pe_seqStart e \<le> q \<and> q \<le> pe_seqEnd e"
proof -
  have srt: "sorted_wrt (<) (map (\<lambda>x. x) (entry_seqs e))"
    using assms(1) by (simp add: entry_ok_def ranges_ok_def entry_seqs_def)
  have "hd (entry_seqs e) \<le> q"
    using srt assms(2) by (cases "entry_seqs e") auto
  moreover have "q \<le> last (entry_seqs e)"
    using sorted_last_max [OF srt assms(2)] .
  ultimately show ?thesis using assms(1) by (simp add: entry_ok_def)
qed

lemma entries_distinct: "entries_ok es \<Longrightarrow> distinct es"
  by (metis distinct_map entries_ok_def strict_sorted_iff)

lemma entries_ordered: "entries_ok es \<Longrightarrow> \<forall>e\<in>set es. pe_seqStart e \<le> pe_seqEnd e"
  by (auto simp: entries_ok_def list_all_iff entry_start_le_end)

lemma all_seqs_filter:
  assumes "distinct (concat (map entry_seqs es))"
  shows "distinct (concat (map entry_seqs (filter P es)))"
  using assms by (induction es) auto

lemma seqs_in_rows:
  assumes "sorted_wrt (<) (map row_seq rows)"
  shows "(\<Union>e\<in>set (projectTimelineRows rows m). set (entry_seqs e)) = row_seq ` set rows"
    "distinct (concat (map entry_seqs (projectTimelineRows rows m)))"
proof -
  have ms: "all_seqs (projectTimelineRows rows m) = mset (map row_seq rows)"
    using project_ok [OF assms] by simp
  from mset_eq_setD [OF this] show "(\<Union>e\<in>set (projectTimelineRows rows m). set (entry_seqs e)) = row_seq ` set rows"
    by simp
  have "distinct (map row_seq rows)" using assms by (simp add: strict_sorted_iff)
  with mset_eq_imp_distinct_iff [OF ms] show "distinct (concat (map entry_seqs (projectTimelineRows rows m)))"
    by simp
qed

lemma project_Projected:
  "mergeReasoningChunks (mergeAssistantChunks (collapseByIdentity (makeCanonicalEntries rows)))
     = projectTimelineRows rows Projected"
  by (simp add: projectTimelineRows_def)

lemma project_Nil_iff:
  assumes "sorted_wrt (<) (map row_seq rows)"
  shows "projectTimelineRows rows m = [] \<longleftrightarrow> rows = []"
proof
  assume "projectTimelineRows rows m = []"
  with project_ok [OF assms, of m] show "rows = []" by simp
qed (simp add: projectTimelineRows_def makeCanonicalEntries_def collapseByIdentity_def
      mergeAssistantChunks_def mergeReasoningChunks_def)

lemma window_cases:
  assumes "sorted_wrt (<) (map row_seq rows)" "rows \<noteq> []"
  obtains lo hi where
    "pw_minSeq (selectTimelineWindowByProjectedLimit rows d l) = Some lo"
    "pw_maxSeq (selectTimelineWindowByProjectedLimit rows d l) = Some hi"
    "pw_entries (selectTimelineWindowByProjectedLimit rows d l)
       = filter (overlaps (Some lo, Some hi)) (projectTimelineRows rows Projected)"
    "pw_rows (selectTimelineWindowByProjectedLimit rows d l)
       = filter (\<lambda>row. lo \<le> row_seq row \<and> row_seq row \<le> hi) rows"
    "tight_bounds (pw_entries (selectTimelineWindowByProjectedLimit rows d l)) lo hi"
    "set (first_window (projectTimelineRows rows Projected) d (nat l))
       \<subseteq> set (pw_entries (selectTimelineWindowByProjectedLimit rows d l))"
proof -
  let ?all = "projectTimelineRows rows Projected"
  let ?first = "first_window ?all d (nat (max 0 l))"
  have ok: "entries_ok ?all" and ne: "?all \<noteq> []"
    using project_ok [OF assms(1)] project_Nil_iff [OF assms(1)] assms(2) by auto
  note first = first_window_sub [OF ne entries_distinct [OF ok], where d = d and l = "nat (max 0 l)"]
  obtain es lo hi where e: "expand_window (length ?all + 1) ?all ?first (computeWindowBounds ?first)
      = (es, (lo, hi))" by (metis prod.exhaust)
  have sel: "selectTimelineWindowByProjectedLimit rows d l = \<lparr>pw_entries = es,
      pw_rows = filter (\<lambda>row. (case lo of None \<Rightarrow> False | Some m \<Rightarrow> row_seq row \<ge> m) \<and>
                        (case hi of None \<Rightarrow> False | Some m \<Rightarrow> row_seq row \<le> m)) rows,
      pw_minSeq = lo, pw_maxSeq = hi\<rparr>"
    using ne first(3) e by (simp add: selectTimelineWindowByProjectedLimit_def project_Projected Let_def)
  have closed: "es = filter (overlaps (lo, hi)) ?all \<and> computeWindowBounds es = (lo, hi) \<and> set ?first \<subseteq> set es"
    by (rule expand_window_closed [OF entries_distinct [OF ok] entries_ordered [OF ok] first(2,1) _ e]) simp
  moreover have "es \<noteq> []" using closed first(3) by auto
  ultimately obtain lo' hi' where b: "lo = Some lo'" "hi = Some hi'" "tight_bounds es lo' hi'"
    using computeWindowBounds_tight [of es] by auto
  have "nat (max 0 l) = nat l" by simp
  with closed b sel show thesis by (intro that [of lo' hi']) auto
qed

lemma closed_range_seqs:
  assumes "sorted_wrt (<) (map row_seq rows)"
    and "tight_bounds (filter (overlaps (Some lo, Some hi)) (projectTimelineRows rows m)) lo hi"
  shows "(\<Union>e\<in>set (filter (overlaps (Some lo, Some hi)) (projectTimelineRows rows m)). set (entry_seqs e))
    = row_seq ` set (filter (\<lambda>row. lo \<le> row_seq row \<and> row_seq row \<le> hi) rows)"
proof -
  let ?all = "projectTimelineRows rows m"
  have bounds: "pe_seqStart e \<le> q \<and> q \<le> pe_seqEnd e" if "e \<in> set ?all" "q \<in> set (entry_seqs e)" for e q
    using that project_ok [OF assms(1), of m] in_entry_bounds by (auto simp: entries_ok_def list_all_iff)
  have "overlaps (Some lo, Some hi) e \<longleftrightarrow> lo \<le> q \<and> q \<le> hi"
    if "e \<in> set ?all" "q \<in> set (entry_seqs e)" for e q
    using bounds [OF that] that assms(2) by (fastforce simp: overlaps_def tight_bounds_def)
  then have "(\<Union>e\<in>set (filter (overlaps (Some lo, Some hi)) ?all). set (entry_seqs e))
      = {q \<in> (\<Union>e\<in>set ?all. set (entry_seqs e)). lo \<le> q \<and> q \<le> hi}"
    by auto
  then show ?thesis
    by (auto simp: seqs_in_rows(1) [OF assms(1)])
qed

text \<open>The entries that are asked for, and the entries that lie in a range.\<close>

definition requested_entries :: "TimelineProjectionEntry list \<Rightarrow> fetch_direction \<Rightarrow> int \<Rightarrow> TimelineProjectionEntry list" where
  "requested_entries es direction limit =
     (if limit \<le> 0 \<or> int (length es) \<le> limit then es
      else if direction = After then take (nat limit) es
      else drop (length es - nat limit) es)"

definition inside :: "int \<Rightarrow> int \<Rightarrow> TimelineProjectionEntry \<Rightarrow> bool" where
  "inside lo hi e = (lo \<le> pe_seqStart e \<and> pe_seqEnd e \<le> hi)"

definition cuts_none :: "TimelineProjectionEntry list \<Rightarrow> int \<Rightarrow> int \<Rightarrow> bool" where
  "cuts_none es lo hi = (\<forall>e\<in>set es. overlaps (Some lo, Some hi) e \<longrightarrow> inside lo hi e)"

lemma first_requested: "first_window es d (nat (max 0 l)) = requested_entries es d l"
  "first_window es d (nat l) = requested_entries es d l"
  by (auto simp: first_window_def requested_entries_def last_n_def)

lemma bounds_inside:
  assumes "list_all (inside lo hi) es" "cuts_none all lo hi"
  shows "list_all (inside lo hi) (filter (overlaps (computeWindowBounds es)) all)"
proof (cases "es = []")
  case True
  then show ?thesis by (simp add: computeWindowBounds_def overlaps_def list_all_iff)
next
  case False
  then obtain a b where b: "computeWindowBounds es = (Some a, Some b)" "tight_bounds es a b"
    using computeWindowBounds_tight by blast
  have "lo \<le> a" "b \<le> hi" using b(2) assms(1) by (auto simp: tight_bounds_def inside_def list_all_iff)
  then have "overlaps (Some a, Some b) e \<Longrightarrow> overlaps (Some lo, Some hi) e" for e by (auto simp: overlaps_def)
  with assms(2) b(1) show ?thesis by (auto simp: cuts_none_def list_all_iff)
qed

lemma expand_window_inside:
  assumes "cuts_none all lo hi"
  shows "list_all (inside lo hi) es \<Longrightarrow> expand_window n all es (computeWindowBounds es) = (es', b)
    \<Longrightarrow> list_all (inside lo hi) es'"
proof (induction n arbitrary: es)
  case (Suc n)
  have next_inside: "list_all (inside lo hi) (filter (overlaps (computeWindowBounds es)) all)"
    by (rule bounds_inside [OF Suc.prems(1) assms])
  with Suc.IH [OF next_inside] Suc.prems(2) show ?case by (auto simp: Let_def split: if_splits)
qed simp

lemma window_inside:
  assumes "cuts_none (projectTimelineRows rows Projected) lo hi"
    and "list_all (inside lo hi) (requested_entries (projectTimelineRows rows Projected) d l)"
  shows "list_all (inside lo hi) (pw_entries (selectTimelineWindowByProjectedLimit rows d l))"
proof -
  let ?all = "projectTimelineRows rows Projected"
  let ?first = "requested_entries ?all d l"
  obtain es b where e: "expand_window (length ?all + 1) ?all ?first (computeWindowBounds ?first) = (es, b)"
    by (meson surj_pair)
  have "list_all (inside lo hi) es" by (rule expand_window_inside [OF assms e])
  then show ?thesis
    unfolding selectTimelineWindowByProjectedLimit_def project_Projected Let_def first_requested(1) e
    by (simp add: empty_window_def split: prod.split)
qed

text \<open>C25. The window of a timeline with increasing numbers is the smallest closed range around the entries asked for, the first
  or the last \<open>limit\<close> of the projected ones (all of them for a limit that is not positive). It holds these entries; it is
  closed: its entries are exactly the entries that overlap its range, and its rows are exactly the rows these stand for, so no
  entry is cut and no row of the range is missing; and it is the smallest: its entries lie in every range that
  contains the entries asked for and cuts no entry. So it holds more entries than the limit only where closing the range
  forces them in.\<close>

theorem window_exact:
  fixes rows :: "AgentTimelineRow list" and direction :: fetch_direction and limit :: int
  assumes "sorted_wrt (<) (map row_seq rows)"
  defines "w \<equiv> selectTimelineWindowByProjectedLimit rows direction limit"
  shows "set (requested_entries (projectTimelineRows rows Projected) direction limit) \<subseteq> set (pw_entries w)
    \<and> pw_entries w = filter (overlaps (pw_minSeq w, pw_maxSeq w)) (projectTimelineRows rows Projected)
    \<and> mset (concat (map entry_seqs (pw_entries w))) = mset (map row_seq (pw_rows w))
    \<and> (\<forall>lo hi. cuts_none (projectTimelineRows rows Projected) lo hi
        \<and> list_all (inside lo hi) (requested_entries (projectTimelineRows rows Projected) direction limit)
        \<longrightarrow> list_all (inside lo hi) (pw_entries w))"
proof (cases "rows = []")
  case True
  with project_Nil_iff [of rows Projected] show ?thesis
    by (simp add: w_def selectTimelineWindowByProjectedLimit_def project_Projected empty_window_def requested_entries_def)
next
  case False
  let ?all = "projectTimelineRows rows Projected"
  obtain lo hi where w: "pw_minSeq w = Some lo" "pw_maxSeq w = Some hi"
    "pw_entries w = filter (overlaps (Some lo, Some hi)) ?all"
    "pw_rows w = filter (\<lambda>row. lo \<le> row_seq row \<and> row_seq row \<le> hi) rows"
    "tight_bounds (pw_entries w) lo hi"
    "set (first_window ?all direction (nat limit)) \<subseteq> set (pw_entries w)"
    unfolding w_def by (rule window_cases [OF assms(1) False])
  have ok: "entries_ok ?all" using project_ok [OF assms(1)] by simp
  have ne: "?all \<noteq> []" using project_Nil_iff [OF assms(1)] False by simp
  have "(\<Union>e\<in>set (pw_entries w). set (entry_seqs e)) = row_seq ` set (pw_rows w)"
    using w(5) unfolding w(3,4) by (rule closed_range_seqs [OF assms(1)])
  moreover have "distinct (concat (map entry_seqs (pw_entries w)))"
    unfolding w(3) by (rule all_seqs_filter [OF seqs_in_rows(2) [OF assms(1)]])
  moreover have "distinct (map row_seq (pw_rows w))"
    using assms(1) by (simp add: w(4) distinct_map_filter strict_sorted_iff)
  ultimately have "mset (concat (map entry_seqs (pw_entries w))) = mset (map row_seq (pw_rows w))"
    by (subst set_eq_iff_mset_eq_distinct [symmetric]) auto
  moreover have "list_all (inside lo hi) (pw_entries w)"
    if "cuts_none ?all lo hi" "list_all (inside lo hi) (requested_entries ?all direction limit)" for lo hi
    unfolding w_def by (rule window_inside [OF that])
  moreover have "set (requested_entries ?all direction limit) \<subseteq> set (pw_entries w)"
    using w(6) by (simp only: first_requested)
  ultimately show ?thesis by (simp add: w(1-3))
qed

lemma sample_rows_sorted: "sorted_wrt (<) (map row_seq sample_rows)"
  by (simp add: sample_rows_def sample_row_def)

theorem window_exact_witness:
  "set (requested_entries (projectTimelineRows sample_rows Projected) Tail 1)
     \<subseteq> set (pw_entries (selectTimelineWindowByProjectedLimit sample_rows Tail 1))
   \<and> mset (concat (map entry_seqs (pw_entries (selectTimelineWindowByProjectedLimit sample_rows Tail 1))))
     = mset (map row_seq (pw_rows (selectTimelineWindowByProjectedLimit sample_rows Tail 1)))"
  using window_exact [OF sample_rows_sorted, of Tail 1] by blast

section \<open>Pages read forward\<close>

definition covers :: "TimelineSeqRange list \<Rightarrow> int \<Rightarrow> bool" where
  "covers rs q = (\<exists>r\<in>set rs. rg_start r \<le> q \<and> q \<le> rg_end r)"

lemma covers_seqs: "covers rs q \<longleftrightarrow> q \<in> set (seqs_of rs)"
  by (auto simp: covers_def seqs_of_def)

lemma first_in_ranges_Some:
  "first_in_ranges rs a b = Some f \<Longrightarrow> a \<le> f \<and> f \<le> b \<and> covers rs f"
  by (induction rs) (auto simp: Let_def covers_def split: if_splits)

lemma first_in_ranges_start:
  assumes "ranges_ok rs" "covers rs a" "a \<le> b"
  shows "first_in_ranges rs a b = Some a"
  using assms
proof (induction rs)
  case (Cons r rs)
  show ?case
  proof (cases "rg_start r \<le> a \<and> a \<le> rg_end r")
    case True
    with Cons.prems(3) show ?thesis by (simp add: Let_def max_def)
  next
    case False
    with Cons.prems(2) have cov: "covers rs a" by (auto simp: covers_def)
    have r: "rg_start r \<le> rg_end r" using Cons.prems(1) by (simp add: ranges_ok_def)
    then have "rg_end r < a"
      using Cons.prems(1) cov unfolding covers_seqs ranges_ok_def by (auto simp: sorted_wrt_append)
    moreover have "ranges_ok rs"
      using Cons.prems(1) cov by (auto simp: ranges_ok_def sorted_wrt_append covers_def)
    ultimately show ?thesis
      using Cons.IH [OF _ cov Cons.prems(3)] by (simp add: Let_def)
  qed
qed (simp add: covers_def)

lemma advance_cursor_covered:
  "endSeq \<le> advance_cursor startSeq maxSeq rows rs endSeq
   \<and> (\<forall>q. endSeq < q \<and> q \<le> advance_cursor startSeq maxSeq rows rs endSeq \<longrightarrow> covers rs q)
   \<and> advance_cursor startSeq maxSeq rows rs endSeq \<le> max endSeq maxSeq"
proof (induction startSeq maxSeq rows rs endSeq rule: advance_cursor.induct)
  case (2 startSeq maxSeq row rows rs endSeq)
  show ?case
  proof (cases "row_seq row < startSeq \<or> row_seq row > maxSeq \<or> row_seq row \<noteq> endSeq + 1")
    case True
    with 2(1) show ?thesis by (cases "row_seq row < startSeq") auto
  next
    case False
    show ?thesis
    proof (cases "skip_ranges (row_seq row) rs")
      case (Cons rng rest)
      then have sub: "set (rng # rest) \<subseteq> set rs"
        using set_dropWhileD by (metis skip_ranges_def subsetI)
      show ?thesis
      proof (cases "row_seq row < rg_start rng \<or> row_seq row > rg_end rng")
        case out: False
        let ?n = "advance_cursor startSeq maxSeq rows (rng # rest) (row_seq row)"
        have eq: "advance_cursor startSeq maxSeq (row # rows) rs endSeq = ?n"
          and row: "row_seq row = endSeq + 1" "row_seq row \<le> maxSeq"
          using False Cons out by auto
        have IH: "row_seq row \<le> ?n" "\<And>q. row_seq row < q \<Longrightarrow> q \<le> ?n \<Longrightarrow> covers (rng # rest) q"
          "?n \<le> max (row_seq row) maxSeq"
          using 2(2) [OF _ _ Cons out] False by auto
        have "covers rs q" if "endSeq < q" "q \<le> ?n" for q
        proof (cases "q = row_seq row")
          case True
          then show ?thesis using out sub by (auto simp: covers_def not_less)
        next
          case neq: False
          then have "covers (rng # rest) q" using that row(1) by (intro IH(2)) auto
          then show ?thesis using sub by (auto simp: covers_def)
        qed
        then show ?thesis unfolding eq using IH(1,3) row by auto
      qed (use False Cons in auto)
    qed (use False in auto)
  qed
qed auto

lemma skip_ranges_hit:
  assumes "sorted (map rg_start rs)" "covers rs q"
  shows "\<exists>r rest. skip_ranges q rs = r # rest \<and> rg_start r \<le> q \<and> q \<le> rg_end r"
  using assms
proof (induction rs)
  case (Cons r rs)
  then show ?case
    by (cases "rg_end r < q") (auto simp: skip_ranges_def covers_def dest: order_trans)
qed (simp add: covers_def)

lemma advance_cursor_progress:
  assumes "sorted_wrt (<) (map row_seq rows)" "startSeq \<in> row_seq ` set rows" "startSeq \<le> maxSeq"
    and "sorted (map rg_start rs)" "covers rs startSeq"
  shows "startSeq \<le> advance_cursor startSeq maxSeq rows rs (startSeq - 1)"
  using assms(1,2)
proof (induction rows)
  case (Cons row rows)
  show ?case
  proof (cases "row_seq row = startSeq")
    case True
    obtain r rest where "skip_ranges startSeq rs = r # rest" "rg_start r \<le> startSeq" "startSeq \<le> rg_end r"
      using skip_ranges_hit [OF assms(4,5)] by auto
    with True assms(3) advance_cursor_covered [of startSeq startSeq maxSeq rows "r # rest"]
    show ?thesis by simp
  next
    case False
    with Cons have "row_seq row < startSeq" by auto
    with Cons False show ?thesis by auto
  qed
qed simp

lemma in_candidates:
  "(f, i, e) \<in> set (candidates es a b) \<longleftrightarrow>
     i < length es \<and> es ! i = e \<and> firstSourceSeqInRange e a b = Some f"
proof -
  have z: "(j, x) \<in> set (zip [0..<length es] es) \<longleftrightarrow> j < length es \<and> es ! j = x" for j x
    by (auto simp: in_set_zip intro!: exI [of _ j])
  show ?thesis
    by (auto simp: candidates_def z split: option.splits intro!: bexI [of _ "(i, e)"])
qed

lemma sort_key_hd_min:
  assumes "x \<in> set xs"
  shows "f (hd (sort_key f xs)) \<le> f x" "hd (sort_key f xs) \<in> set xs"
proof -
  have ne: "sort_key f xs \<noteq> []" using assms by (metis empty_iff empty_set set_sort)
  have "sorted (map f (sort_key f xs))" by simp
  moreover have "x \<in> set (sort_key f xs)" using assms by simp
  ultimately show "f (hd (sort_key f xs)) \<le> f x"
    using ne by (cases "sort_key f xs") auto
  show "hd (sort_key f xs) \<in> set xs"
    using ne by (metis hd_in_set set_sort)
qed

lemma sorted_pair_fst: "sorted (map (\<lambda>r. (f r, g r)) xs) \<Longrightarrow> sorted (map f xs)"
  by (induction xs) (auto simp: less_eq_prod_def)

lemma selected_covers_start:
  fixes limit :: nat
  assumes "list_all entry_ok es" "e \<in> set es" "startSeq \<in> set (entry_seqs e)" "startSeq \<le> maxSeq"
  defines "eligible \<equiv> sort_key (\<lambda>(f, i, e). (f, i)) (candidates es startSeq maxSeq)"
  defines "selected \<equiv> (if limit = 0 then eligible else take limit eligible)"
  shows "\<exists>(f, i, x)\<in>set selected. covers (pe_ranges x) startSeq"
proof -
  obtain i where i: "i < length es" "es ! i = e" using assms(2) by (auto simp: in_set_conv_nth)
  have "firstSourceSeqInRange e startSeq maxSeq = Some startSeq"
    using assms(1-4) unfolding firstSourceSeqInRange_def
    by (intro first_in_ranges_start) (auto simp: covers_seqs entry_seqs_def list_all_iff entry_ok_def)
  with i have cand: "(startSeq, i, e) \<in> set (candidates es startSeq maxSeq)"
    by (simp add: in_candidates)
  obtain f j x where h: "hd eligible = (f, j, x)" by (metis prod.exhaust)
  have hmem: "(f, j, x) \<in> set (candidates es startSeq maxSeq)"
    and le: "(f, j) \<le> (startSeq, i)"
    using sort_key_hd_min [OF cand, of "\<lambda>(f, i, e). (f, i)"] h unfolding eligible_def by auto
  from hmem have "firstSourceSeqInRange x startSeq maxSeq = Some f" by (simp add: in_candidates)
  then have "startSeq \<le> f \<and> covers (pe_ranges x) f"
    using first_in_ranges_Some by (auto simp: firstSourceSeqInRange_def)
  with le have "covers (pe_ranges x) startSeq" by (auto simp: less_eq_prod_def)
  moreover have "(f, j, x) \<in> set selected"
  proof -
    have "eligible \<noteq> []" using cand unfolding eligible_def by (metis empty_iff empty_set set_sort)
    with h show ?thesis
      unfolding selected_def by (cases eligible; cases limit) auto
  qed
  ultimately show ?thesis by auto
qed

lemma selectAfter_progress:
  assumes "sorted_wrt (<) (map row_seq rows)" "startSeq \<in> row_seq ` set rows" "startSeq \<le> maxSeq"
    and "selectProjectedEntriesAfter (projectTimelineRows rows m) rows startSeq maxSeq limit = (es, endSeq)"
  shows "\<exists>e. endSeq = Some e \<and> startSeq \<le> e \<and> e \<le> maxSeq
    \<and> (\<forall>q. startSeq \<le> q \<and> q \<le> e \<longrightarrow> (\<exists>x\<in>set es. q \<in> set (entry_seqs x)))"
proof -
  let ?all = "projectTimelineRows rows m"
  define eligible where "eligible = sort_key (\<lambda>(f, i, e). (f, i)) (candidates ?all startSeq maxSeq)"
  define selected where "selected = (if limit = 0 then eligible else take limit eligible)"
  define entries where "entries = map (\<lambda>(f, i, e). e) (sort_key (\<lambda>(f, i, e). i) selected)"
  define ranges where "ranges = sort_key (\<lambda>r. (rg_start r, rg_end r)) (concat (map pe_ranges entries))"
  define e where "e = advance_cursor startSeq maxSeq rows ranges (startSeq - 1)"
  have ok: "list_all entry_ok ?all" using project_ok [OF assms(1)] by (simp add: entries_ok_def)
  obtain y where "y \<in> set ?all" "startSeq \<in> set (entry_seqs y)"
    using seqs_in_rows(1) [OF assms(1), of m] assms(2) by blast
  from selected_covers_start [OF ok this assms(3), of limit]
  obtain f i x where x: "(f, i, x) \<in> set selected" "covers (pe_ranges x) startSeq"
    unfolding selected_def eligible_def by blast
  have xin: "x \<in> set entries" using x(1) by (force simp: entries_def)
  have cov: "covers ranges q \<longleftrightarrow> (\<exists>x\<in>set entries. q \<in> set (entry_seqs x))" for q
    by (auto simp: ranges_def covers_def entry_seqs_def simp flip: covers_seqs)
  have "covers ranges startSeq" using xin x(2) by (auto simp: cov entry_seqs_def simp flip: covers_seqs)
  moreover have "sorted (map rg_start ranges)"
    unfolding ranges_def by (rule sorted_pair_fst [where g = rg_end]) simp
  ultimately have le: "startSeq \<le> e"
    unfolding e_def using advance_cursor_progress assms(1,2,3) by blast
  have "e \<le> maxSeq \<and> (\<forall>q. startSeq \<le> q \<and> q \<le> e \<longrightarrow> covers ranges q)"
    using advance_cursor_covered [of "startSeq - 1" startSeq maxSeq rows ranges] assms(3)
    unfolding e_def [symmetric] by auto
  moreover have "selectProjectedEntriesAfter ?all rows startSeq maxSeq limit
      = (if entries = [] then ([], None) else (entries, if e \<ge> startSeq then Some e else None))"
    unfolding selectProjectedEntriesAfter_def Let_def e_def ranges_def entries_def selected_def eligible_def
    by (rule refl)
  then have "es = entries \<and> endSeq = Some e"
    using assms(4) xin le by (cases entries) auto
  ultimately show ?thesis using le cov by auto
qed

text \<open>Reading forward: the cursor of the next request is the end of the page.\<close>

definition after_input :: "AgentTimelineRow list \<Rightarrow> int \<Rightarrow> int \<Rightarrow> page_input" where
  "after_input rows limit cursor = \<lparr>pi_rows = rows, pi_bounds = None, pi_direction = After,
     pi_cursorSeq = Some cursor, pi_limit = Some limit, pi_projected = None\<rparr>"

fun follow_pages :: "AgentTimelineRow list \<Rightarrow> int \<Rightarrow> nat \<Rightarrow> int \<Rightarrow> TimelineProjectionEntry list" where
  "follow_pages rows limit 0 cursor = []"
| "follow_pages rows limit (Suc n) cursor =
     (let page = selectProjectedTimelinePage (after_input rows limit cursor)
      in pp_entries page @
         (case pp_endSeq page of
            None \<Rightarrow> []
          | Some e \<Rightarrow> if pp_hasNewer page then follow_pages rows limit n e else []))"

definition contiguous :: "AgentTimelineRow list \<Rightarrow> bool" where
  "contiguous rows = (rows \<noteq> [] \<and> map row_seq rows = [row_seq (hd rows)..row_seq (last rows)])"

lemma contiguous_facts:
  assumes "contiguous rows"
  shows "sorted_wrt (<) (map row_seq rows)" "row_seq ` set rows = {row_seq (hd rows)..row_seq (last rows)}"
    "getTimelineBounds rows = Some (row_seq (hd rows), row_seq (last rows))" "rows \<noteq> []"
proof -
  have eq: "map row_seq rows = [row_seq (hd rows)..row_seq (last rows)]" and ne: "rows \<noteq> []"
    using assms by (auto simp: contiguous_def)
  show "sorted_wrt (<) (map row_seq rows)" unfolding eq by (rule sorted_upto_less)
  have "row_seq ` set rows = set (map row_seq rows)" by simp
  then show "row_seq ` set rows = {row_seq (hd rows)..row_seq (last rows)}"
    unfolding eq by simp
  show "getTimelineBounds rows = Some (row_seq (hd rows), row_seq (last rows))"
    using ne by (cases rows) (simp_all add: getTimelineBounds_def)
qed (use assms in \<open>simp add: contiguous_def\<close>)

lemma after_page_progress:
  assumes "contiguous rows" "row_seq (hd rows) - 1 \<le> c" "c < row_seq (last rows)"
  obtains e where "pp_endSeq (selectProjectedTimelinePage (after_input rows limit c)) = Some e"
    "c < e" "e \<le> row_seq (last rows)"
    "pp_hasNewer (selectProjectedTimelinePage (after_input rows limit c)) = (e < row_seq (last rows))"
    "\<And>q. c < q \<Longrightarrow> q \<le> e \<Longrightarrow>
       \<exists>x\<in>set (pp_entries (selectProjectedTimelinePage (after_input rows limit c))). q \<in> set (entry_seqs x)"
proof -
  note rows = contiguous_facts [OF assms(1)]
  have ne: "projectTimelineRows rows Projected \<noteq> []" using project_Nil_iff [OF rows(1)] rows(4) by simp
  have start: "max (row_seq (hd rows)) (c + 1) = c + 1" using assms(2) by simp
  obtain es endSeq where sel: "selectProjectedEntriesAfter (projectTimelineRows rows Projected) rows (c + 1)
      (row_seq (last rows)) (nat (max 0 limit)) = (es, endSeq)" by fastforce
  obtain e where e: "endSeq = Some e" "c + 1 \<le> e" "e \<le> row_seq (last rows)"
    "\<forall>q. c + 1 \<le> q \<and> q \<le> e \<longrightarrow> (\<exists>x\<in>set es. q \<in> set (entry_seqs x))"
    using selectAfter_progress [OF rows(1) _ _ sel] rows(2) assms(2,3) by auto
  have "selectProjectedTimelinePage (after_input rows limit c)
      = page_result es (Some (c + 1)) (Some e) (c + 1 > row_seq (hd rows)) (e < row_seq (last rows))"
    using ne sel e(1) rows(3) start
    by (simp add: selectProjectedTimelinePage_def after_input_def Let_def)
  with e show thesis by (intro that [of e]) (auto simp: page_result_def)
qed

lemma follow_pages_covers:
  assumes "contiguous rows"
  shows "row_seq (hd rows) - 1 \<le> c \<Longrightarrow> c < q \<Longrightarrow> q \<le> row_seq (last rows)
    \<Longrightarrow> row_seq (last rows) - c \<le> int n
    \<Longrightarrow> \<exists>x\<in>set (follow_pages rows limit n c). q \<in> set (entry_seqs x)"
proof (induction n arbitrary: c)
  case (Suc n)
  from Suc.prems have "c < row_seq (last rows)" by simp
  obtain e where e: "pp_endSeq (selectProjectedTimelinePage (after_input rows limit c)) = Some e"
    "c < e" "e \<le> row_seq (last rows)"
    "pp_hasNewer (selectProjectedTimelinePage (after_input rows limit c)) = (e < row_seq (last rows))"
    "\<And>q. c < q \<Longrightarrow> q \<le> e \<Longrightarrow>
       \<exists>x\<in>set (pp_entries (selectProjectedTimelinePage (after_input rows limit c))). q \<in> set (entry_seqs x)"
    by (rule after_page_progress [OF assms Suc.prems(1) \<open>c < row_seq (last rows)\<close>]) blast
  show ?case
  proof (cases "q \<le> e")
    case True
    with e(5) [OF Suc.prems(2)] show ?thesis by (fastforce simp: Let_def)
  next
    case False
    with Suc.IH [of e] Suc.prems e(2,3) have "\<exists>x\<in>set (follow_pages rows limit n e). q \<in> set (entry_seqs x)"
      by simp
    moreover have "e < row_seq (last rows)" using False Suc.prems(3) by simp
    ultimately show ?thesis by (auto simp: Let_def e(1,4))
  qed
qed simp

text \<open>Reading a projected timeline forward, whatever the page limit, a client that follows the
  end of each page reaches the last row within as many requests as there are rows, and every row
  after its cursor is in an entry it was given: a page never ends before the row it starts at.\<close>

theorem forward_projection_complete:
  assumes "contiguous rows" "row_seq (hd rows) - 1 \<le> cursor" "cursor < q" "q \<le> row_seq (last rows)"
  shows "\<exists>e\<in>set (follow_pages rows limit (length rows) cursor). q \<in> set (entry_seqs e)"
proof (rule follow_pages_covers [OF assms])
  have "length rows = length [row_seq (hd rows)..row_seq (last rows)]"
    using assms(1) by (metis contiguous_def length_map)
  then have "int (length rows) = row_seq (last rows) - row_seq (hd rows) + 1"
    using assms by simp
  with assms(2) show "row_seq (last rows) - cursor \<le> int (length rows)" by simp
qed

lemma sample_contiguous: "contiguous sample_rows"
  by (simp add: contiguous_def sample_rows_def sample_row_def upto_rec1)

theorem forward_projection_complete_witness:
  "\<exists>e\<in>set (follow_pages sample_rows 1 (length sample_rows) 0). 3 \<in> set (entry_seqs e)"
  by (rule forward_projection_complete [OF sample_contiguous])
     (simp_all add: sample_rows_def sample_row_def)

section \<open>Pages read backward\<close>

definition before_input :: "AgentTimelineRow list \<Rightarrow> nat \<Rightarrow> int \<Rightarrow> page_input" where
  "before_input rows limit cursor = \<lparr>pi_rows = rows, pi_bounds = None, pi_direction = Before,
     pi_cursorSeq = Some cursor, pi_limit = Some (int limit), pi_projected = None\<rparr>"

definition older_page :: "nat \<Rightarrow> AgentTimelineRow list \<Rightarrow> int \<Rightarrow> TimelineProjectionEntry list \<times> bool" where
  "older_page limit rows c =
     (let page = selectProjectedTimelinePage (before_input rows limit (- c))
      in (rev (pp_entries page), pp_hasOlder page))"

definition older_ok :: "nat \<Rightarrow> AgentTimelineRow list \<Rightarrow> int \<Rightarrow> bool" where
  "older_ok limit rows c = (sorted_wrt (<) (map row_seq rows) \<and> rows \<noteq> [] \<and> 0 < limit)"

lemma older_page_eq:
  assumes "older_ok limit rows c"
  shows "older_page limit rows c =
    (let below = filter (\<lambda>e. pe_seqStart e < - c) (projectTimelineRows rows Projected)
     in (rev (last_n limit below), limit < length below))"
proof -
  let ?all = "projectTimelineRows rows Projected"
  let ?lo = "row_seq (hd rows)" and ?hi = "row_seq (last rows)"
  let ?below = "filter (\<lambda>e. pe_seqStart e < - c) ?all"
  have srt: "sorted_wrt (<) (map row_seq rows)" and ne: "rows \<noteq> []" "0 < limit"
    using assms by (auto simp: older_ok_def)
  have bounds: "getTimelineBounds rows = Some (?lo, ?hi)"
    using ne(1) by (cases rows) (simp_all add: getTimelineBounds_def)
  have all_ne: "?all \<noteq> []" using project_Nil_iff [OF srt] ne(1) by simp
  have range: "?lo \<le> pe_seqStart e \<and> pe_seqStart e \<le> ?hi" if "e \<in> set ?all" for e
  proof -
    have "entry_ok e" using that project_ok [OF srt] by (auto simp: entries_ok_def list_all_iff)
    then have "pe_seqStart e \<in> set (entry_seqs e)"
      using seqs_of_nonempty [of "pe_ranges e"] hd_in_set [of "entry_seqs e"]
      by (simp add: entry_ok_def entry_seqs_def)
    with that seqs_in_rows(1) [OF srt, of Projected] have "pe_seqStart e \<in> row_seq ` set rows" by blast
    then show ?thesis
      using srt sorted_last_max [OF srt] ne(1) by (cases rows) (auto split: if_splits)
  qed
  define m where "m = min ?hi (- c - 1)"
  have elig: "filter (\<lambda>e. pe_seqStart e \<le> m) ?all = ?below"
    unfolding m_def using range by (intro filter_cong) auto
  show ?thesis
  proof (cases "m < ?lo")
    case True
    then have "?below = []"
      unfolding elig [symmetric] using range by (fastforce simp: filter_empty_conv)
    with True bounds all_ne show ?thesis
      by (simp add: older_page_def before_input_def selectProjectedTimelinePage_def page_result_def Let_def m_def)
  next
    case False
    have "selectProjectedEntriesBefore ?all m limit
        = (last_n limit ?below, map_option pe_seqStart (head_opt (last_n limit ?below)), limit < length ?below)"
      using ne(2) unfolding selectProjectedEntriesBefore_def elig Let_def by auto
    with False bounds all_ne show ?thesis
      by (simp add: older_page_def before_input_def selectProjectedTimelinePage_def page_result_def Let_def m_def)
  qed
qed

interpretation older: paged_log "\<lambda>e. - pe_seqStart e" "older_ok limit"
  "\<lambda>rows. rev (projectTimelineRows rows Projected)" "older_page limit" for limit
proof
  fix rows c
  assume ok: "older_ok limit rows c"
  let ?all = "projectTimelineRows rows Projected"
  let ?below = "filter (\<lambda>e. pe_seqStart e < - c) ?all"
  from ok have eq: "older_page limit rows c = (rev (last_n limit ?below), limit < length ?below)"
    by (simp add: older_page_eq Let_def)
  show "sorted_wrt (<) (map (\<lambda>e. - pe_seqStart e) (rev ?all))"
    using ok project_ok [of rows Projected]
    by (auto simp: older_ok_def entries_ok_def sorted_wrt_map sorted_wrt_rev)
  have "rev ?below = rev (last_n limit ?below) @ rev (take (length ?below - limit) ?below)"
    by (metis last_n_append rev_append)
  moreover have "filter (\<lambda>e. c < - pe_seqStart e) (rev ?all) = rev ?below"
    by (auto simp: rev_filter intro: filter_cong)
  moreover have "?below = [] \<Longrightarrow> \<not> limit < length ?below" by simp
  ultimately show "\<exists>rest. filter (\<lambda>e. c < - pe_seqStart e) (rev ?all) = fst (older_page limit rows c) @ rest
      \<and> snd (older_page limit rows c) = (rest \<noteq> [])"
    by (intro exI [of _ "rev (take (length ?below - limit) ?below)"]) (auto simp: eq)
  assume "snd (older_page limit rows c)"
  with ok show "fst (older_page limit rows c) \<noteq> []"
    by (auto simp: eq older_ok_def)
  from ok show "older_ok limit rows (- pe_seqStart (last (fst (older_page limit rows c))))"
    by (simp add: older_ok_def)
qed

text \<open>Reading a projected timeline backward with a page limit, a client that continues from the
  start of each page gets every entry that starts before its cursor exactly once, latest first,
  and stops by itself: an entry whose tool call was updated later is never repeated.\<close>

theorem backward_projection_complete:
  assumes "sorted_wrt (<) (map row_seq rows)" "rows \<noteq> []" "0 < limit"
  shows "read_pages (\<lambda>e. - pe_seqStart e) (older_page limit rows)
      (length (projectTimelineRows rows Projected)) (- cursor)
    = Some (rev (filter (\<lambda>e. pe_seqStart e < cursor) (projectTimelineRows rows Projected)))"
proof -
  have "older_ok limit rows (- cursor)" using assms by (simp add: older_ok_def)
  moreover have "0 < length (projectTimelineRows rows Projected)"
    using project_Nil_iff [OF assms(1), of Projected] assms(2) by simp
  ultimately show ?thesis
    using older.read_all [of limit rows "- cursor" "length (projectTimelineRows rows Projected)"]
      length_filter_le [of "\<lambda>e. pe_seqStart e < cursor" "rev (projectTimelineRows rows Projected)"]
    by (simp add: rev_filter)
qed

theorem backward_projection_complete_witness:
  "read_pages (\<lambda>e. - pe_seqStart e) (older_page 1 sample_rows)
      (length (projectTimelineRows sample_rows Projected)) (- 5)
    = Some (rev (filter (\<lambda>e. pe_seqStart e < 5) (projectTimelineRows sample_rows Projected)))"
  by (rule backward_projection_complete [OF sample_rows_sorted]) (simp_all add: sample_rows_def)

end
