(* ===== verification/StreamCoalescer.thy ===== *)
theory StreamCoalescer
  imports TimelineProjection
begin

text \<open>
  The coalescer of an agent's stream (\<open>server/agent/agent-stream-coalescer.ts\<close>): chunks of text
  and updates of tool calls are buffered per agent and flushed at most once per window, with the
  first event after an idle window and every finished tool call flushed at once.

  The callback that receives flushed items is the list of payloads an operation emits, in order.
  A buffer has a number of its own, which stands for the identity of the object that a timer
  callback compares. The readings of the clock are arguments: one for the test of the window and
  one for the time of a flush.
\<close>

section \<open>Events and buffers\<close>

datatype AgentStreamEvent =
    TimelineEvent AgentTimelineItem string "string option"
  | OtherEvent string

record AgentStreamCoalescerFlush =
  fl_agentId :: string
  fl_item :: AgentTimelineItem
  fl_provider :: string
  fl_turnId :: "string option"

datatype PendingAgentStreamEntry =
    PendingText AgentTimelineItem string string "string option"
  | PendingToolCall ToolCallTimelineItem string "string option"

record PendingAgentStreamBuffer =
  pb_id :: nat
  pb_entries :: "PendingAgentStreamEntry list"
  pb_toolCallEntryIndexes :: "(string, nat) js_map"
  pb_timer :: bool
  pb_flushing :: bool
  pb_lastFlushAt :: "time_ms option"

record AgentStreamCoalescer =
  co_buffers :: "(string, PendingAgentStreamBuffer) js_map"
  co_windowMs :: time_ms
  co_created :: nat

definition AGENT_STREAM_COALESCE_DEFAULT_WINDOW_MS :: time_ms where
  "AGENT_STREAM_COALESCE_DEFAULT_WINDOW_MS = 60"

definition createCoalescer :: "time_ms option \<Rightarrow> AgentStreamCoalescer" where
  "createCoalescer windowMs = \<lparr>co_buffers = [],
     co_windowMs = (case windowMs of Some w \<Rightarrow> w | None \<Rightarrow> AGENT_STREAM_COALESCE_DEFAULT_WINDOW_MS),
     co_created = 0\<rparr>"

fun isCoalescableTimelineEvent :: "AgentStreamEvent \<Rightarrow> bool" where
  "isCoalescableTimelineEvent (TimelineEvent (AssistantMessage _ _) _ _) = True"
| "isCoalescableTimelineEvent (TimelineEvent (Reasoning _) _ _) = True"
| "isCoalescableTimelineEvent (TimelineEvent (ToolCall _) _ _) = True"
| "isCoalescableTimelineEvent _ = False"

definition item_text :: "AgentTimelineItem \<Rightarrow> string option" where
  "item_text item = (case item of AssistantMessage t _ \<Rightarrow> Some t | Reasoning t \<Rightarrow> Some t | _ \<Rightarrow> None)"

definition isTextTimelineItem :: "AgentTimelineItem \<Rightarrow> bool" where
  "isTextTimelineItem item = (item_text item \<noteq> None)"

definition isTerminalToolCall :: "AgentTimelineItem \<Rightarrow> bool" where
  "isTerminalToolCall item = (case item of
       ToolCall t \<Rightarrow> tc_status t = Completed \<or> tc_status t = Failed \<or> tc_status t = Canceled
     | _ \<Rightarrow> False)"

definition isSameTextStream :: "AgentTimelineItem \<Rightarrow> AgentTimelineItem \<Rightarrow> bool" where
  "isSameTextStream previous next' = (case (previous, next') of
       (AssistantMessage _ m, AssistantMessage _ n) \<Rightarrow> m = n
     | (Reasoning _, Reasoning _) \<Rightarrow> True
     | _ \<Rightarrow> False)"

definition collapse_entry ::
  "PendingAgentStreamEntry \<Rightarrow> PendingAgentStreamEntry list \<Rightarrow> PendingAgentStreamEntry list" where
  "collapse_entry entry collapsed =
     (case (last_opt collapsed, entry) of
        (Some (PendingText i t p u), PendingText i' t' p' u') \<Rightarrow>
          if isSameTextStream i i' \<and> p = p' \<and> u = u'
          then butlast collapsed @ [PendingText i (t @ t') p u]
          else collapsed @ [entry]
      | _ \<Rightarrow> collapsed @ [entry])"

definition collapseEntries :: "PendingAgentStreamEntry list \<Rightarrow> PendingAgentStreamEntry list" where
  "collapseEntries entries = fold collapse_entry entries []"

text \<open>\<open>{ ...entry.item, text: entry.text }\<close>\<close>

definition with_text :: "AgentTimelineItem \<Rightarrow> string \<Rightarrow> AgentTimelineItem" where
  "with_text item t = (case item of
       AssistantMessage _ m \<Rightarrow> AssistantMessage t m
     | Reasoning _ \<Rightarrow> Reasoning t
     | _ \<Rightarrow> item)"

fun entry_item :: "PendingAgentStreamEntry \<Rightarrow> AgentTimelineItem" where
  "entry_item (PendingText i t p u) = with_text i t"
| "entry_item (PendingToolCall c p u) = ToolCall c"

fun flush_payload :: "string \<Rightarrow> PendingAgentStreamEntry \<Rightarrow> AgentStreamCoalescerFlush" where
  "flush_payload agentId (PendingText i t p u) =
     \<lparr>fl_agentId = agentId, fl_item = with_text i t, fl_provider = p, fl_turnId = u\<rparr>"
| "flush_payload agentId (PendingToolCall c p u) =
     \<lparr>fl_agentId = agentId, fl_item = ToolCall c, fl_provider = p, fl_turnId = u\<rparr>"

section \<open>Operations\<close>

definition new_buffer :: "nat \<Rightarrow> PendingAgentStreamBuffer" where
  "new_buffer n = \<lparr>pb_id = n, pb_entries = [], pb_toolCallEntryIndexes = [], pb_timer = False,
     pb_flushing = False, pb_lastFlushAt = None\<rparr>"

definition getOrCreateBuffer ::
  "AgentStreamCoalescer \<Rightarrow> string \<Rightarrow> PendingAgentStreamBuffer \<times> AgentStreamCoalescer" where
  "getOrCreateBuffer co agentId =
     (case map_get (co_buffers co) agentId of
        Some b \<Rightarrow> (b, co)
      | None \<Rightarrow>
          (let b = new_buffer (co_created co)
           in (b, co\<lparr>co_buffers := AList.update agentId b (co_buffers co), co_created := co_created co + 1\<rparr>)))"

definition put_buffer ::
  "string \<Rightarrow> PendingAgentStreamBuffer \<Rightarrow> AgentStreamCoalescer \<Rightarrow> AgentStreamCoalescer" where
  "put_buffer agentId b co = co\<lparr>co_buffers := AList.update agentId b (co_buffers co)\<rparr>"

definition appendToBuffer ::
  "PendingAgentStreamBuffer \<Rightarrow> AgentTimelineItem \<Rightarrow> string \<Rightarrow> string option \<Rightarrow> PendingAgentStreamBuffer" where
  "appendToBuffer b item provider turnId =
     (case item of
        ToolCall c \<Rightarrow>
          (let entry = PendingToolCall c provider turnId
           in case map_get (pb_toolCallEntryIndexes b) (tc_callId c) of
                Some i \<Rightarrow> b\<lparr>pb_entries := (pb_entries b)[i := entry]\<rparr>
              | None \<Rightarrow>
                  b\<lparr>pb_toolCallEntryIndexes :=
                       AList.update (tc_callId c) (length (pb_entries b)) (pb_toolCallEntryIndexes b),
                    pb_entries := pb_entries b @ [entry]\<rparr>)
      | _ \<Rightarrow>
          (case item_text item of
             Some t \<Rightarrow> b\<lparr>pb_entries := pb_entries b @ [PendingText item t provider turnId]\<rparr>
           | None \<Rightarrow> b))"

definition flushBuffer ::
  "AgentStreamCoalescer \<Rightarrow> string \<Rightarrow> nat option \<Rightarrow> time_ms
     \<Rightarrow> AgentStreamCoalescerFlush list \<times> AgentStreamCoalescer" where
  "flushBuffer co agentId expectedBuffer now =
     (case map_get (co_buffers co) agentId of
        None \<Rightarrow> ([], co)
      | Some b \<Rightarrow>
          if (case expectedBuffer of None \<Rightarrow> False | Some n \<Rightarrow> pb_id b \<noteq> n) then ([], co)
          else if pb_flushing b then ([], co)
          else
            let b1 = b\<lparr>pb_timer := False\<rparr>
            in if pb_entries b1 = [] then ([], put_buffer agentId b1 co)
               else (map (flush_payload agentId) (collapseEntries (pb_entries b1)),
                     put_buffer agentId (b1\<lparr>pb_entries := [], pb_toolCallEntryIndexes := [],
                        pb_lastFlushAt := Some now, pb_flushing := False\<rparr>) co))"

definition co_handle ::
  "AgentStreamCoalescer \<Rightarrow> string \<Rightarrow> AgentStreamEvent \<Rightarrow> time_ms \<Rightarrow> time_ms
     \<Rightarrow> bool \<times> AgentStreamCoalescerFlush list \<times> AgentStreamCoalescer" where
  "co_handle co agentId event nowTest nowFlush =
     (case event of
        TimelineEvent item provider turnId \<Rightarrow>
          if \<not> isCoalescableTimelineEvent event then (False, [], co)
          else if item_text item = Some [] then (True, [], co)
          else
            (case getOrCreateBuffer co agentId of (b, co1) \<Rightarrow>
               let b1 = appendToBuffer b item provider turnId;
                   co2 = put_buffer agentId b1 co1
               in if isTerminalToolCall item then (True, flushBuffer co2 agentId None nowFlush)
                  else if \<not> pb_timer b1 then
                    (if (case pb_lastFlushAt b1 of None \<Rightarrow> True
                         | Some at \<Rightarrow> nowTest - at \<ge> co_windowMs co2)
                     then (True, flushBuffer co2 agentId None nowFlush)
                     else (True, [], put_buffer agentId (b1\<lparr>pb_timer := True\<rparr>) co2))
                  else (True, [], co2))
      | OtherEvent _ \<Rightarrow> (False, [], co))"

definition flushFor :: "AgentStreamCoalescer \<Rightarrow> string \<Rightarrow> time_ms
     \<Rightarrow> AgentStreamCoalescerFlush list \<times> AgentStreamCoalescer" where
  "flushFor co agentId now = flushBuffer co agentId None now"

fun flush_each :: "string list \<Rightarrow> time_ms \<Rightarrow> AgentStreamCoalescer
     \<Rightarrow> AgentStreamCoalescerFlush list \<times> AgentStreamCoalescer" where
  "flush_each [] now co = ([], co)"
| "flush_each (a # as) now co =
     (case flushBuffer co a None now of (out, co1) \<Rightarrow>
        case flush_each as now co1 of (out', co2) \<Rightarrow> (out @ out', co2))"

definition flushAll :: "AgentStreamCoalescer \<Rightarrow> time_ms
     \<Rightarrow> AgentStreamCoalescerFlush list \<times> AgentStreamCoalescer" where
  "flushAll co now = flush_each (map_keys (co_buffers co)) now co"

definition flushAndDiscard :: "AgentStreamCoalescer \<Rightarrow> string \<Rightarrow> time_ms
     \<Rightarrow> AgentStreamCoalescerFlush list \<times> AgentStreamCoalescer" where
  "flushAndDiscard co agentId now =
     (case flushBuffer co agentId None now of (out, co1) \<Rightarrow>
        (out, co1\<lparr>co_buffers := AList.delete agentId (co_buffers co1)\<rparr>))"

text \<open>The callback of the timer that \<open>scheduleFlush\<close> set for a buffer.\<close>

definition timer_fires :: "AgentStreamCoalescer \<Rightarrow> string \<Rightarrow> nat \<Rightarrow> time_ms
     \<Rightarrow> AgentStreamCoalescerFlush list \<times> AgentStreamCoalescer" where
  "timer_fires co agentId bufferId now = flushBuffer co agentId (Some bufferId) now"

section \<open>Runs\<close>

datatype co_op =
    Handle string AgentStreamEvent time_ms time_ms
  | FlushFor string time_ms
  | FlushAll time_ms
  | FlushAndDiscard string time_ms
  | TimerFires string nat time_ms

fun co_step :: "co_op \<Rightarrow> AgentStreamCoalescer \<Rightarrow> AgentStreamCoalescerFlush list \<times> AgentStreamCoalescer" where
  "co_step (Handle a ev t t') co = snd (co_handle co a ev t t')"
| "co_step (FlushFor a t) co = flushFor co a t"
| "co_step (FlushAll t) co = flushAll co t"
| "co_step (FlushAndDiscard a t) co = flushAndDiscard co a t"
| "co_step (TimerFires a n t) co = timer_fires co a n t"

fun co_run :: "co_op list \<Rightarrow> AgentStreamCoalescer \<Rightarrow> AgentStreamCoalescerFlush list \<times> AgentStreamCoalescer" where
  "co_run [] co = ([], co)"
| "co_run (op # ops) co =
     (case co_step op co of (out, co1) \<Rightarrow> case co_run ops co1 of (out', co2) \<Rightarrow> (out @ out', co2))"

text \<open>The coalescable items of one agent that an operation hands in, the items flushed for it, and
  the items that wait in its buffer.\<close>

fun handed_in :: "string \<Rightarrow> co_op \<Rightarrow> AgentTimelineItem list" where
  "handed_in a (Handle a' (TimelineEvent item p u) t t') =
     (if a' = a \<and> isCoalescableTimelineEvent (TimelineEvent item p u) then [item] else [])"
| "handed_in a _ = []"

definition flushed :: "string \<Rightarrow> AgentStreamCoalescerFlush list \<Rightarrow> AgentTimelineItem list" where
  "flushed a outs = map fl_item (filter (\<lambda>f. fl_agentId f = a) outs)"

definition entries_of :: "AgentStreamCoalescer \<Rightarrow> string \<Rightarrow> PendingAgentStreamEntry list" where
  "entries_of co a = (case map_get (co_buffers co) a of None \<Rightarrow> [] | Some b \<Rightarrow> pb_entries b)"

definition waiting :: "AgentStreamCoalescer \<Rightarrow> string \<Rightarrow> AgentTimelineItem list" where
  "waiting co a = map entry_item (entries_of co a)"

section \<open>Buffers between operations\<close>

text \<open>The index map points at exactly the tool calls of the buffer, no flush is under way, and what
  waits has a timer set.\<close>

fun text_entry_ok :: "PendingAgentStreamEntry \<Rightarrow> bool" where
  "text_entry_ok (PendingText i t p u) = isTextTimelineItem i"
| "text_entry_ok (PendingToolCall c p u) = True"

definition buffer_index_ok :: "PendingAgentStreamBuffer \<Rightarrow> bool" where
  "buffer_index_ok b = (\<not> pb_flushing b \<and> list_all text_entry_ok (pb_entries b) \<and>
     (\<forall>k i. map_get (pb_toolCallEntryIndexes b) k = Some i \<longleftrightarrow>
        i < length (pb_entries b) \<and>
        (\<exists>c p u. pb_entries b ! i = PendingToolCall c p u \<and> tc_callId c = k)))"

definition buffer_ok :: "PendingAgentStreamBuffer \<Rightarrow> bool" where
  "buffer_ok b = (buffer_index_ok b \<and> (pb_entries b = [] \<or> pb_timer b))"

definition co_ok :: "AgentStreamCoalescer \<Rightarrow> bool" where
  "co_ok co = (\<forall>a b. map_get (co_buffers co) a = Some b \<longrightarrow> buffer_ok b)"

lemma get_put_buffer [simp]:
  "map_get (co_buffers (put_buffer a b co)) a' = (if a' = a then Some b else map_get (co_buffers co) a')"
  by (simp add: put_buffer_def get_update)

lemma entries_of_put [simp]:
  "entries_of (put_buffer a b co) a' = (if a' = a then pb_entries b else entries_of co a')"
  by (simp add: entries_of_def)

lemma co_ok_put: "co_ok co \<Longrightarrow> buffer_ok b \<Longrightarrow> co_ok (put_buffer a b co)"
  by (simp add: co_ok_def)

lemma buffer_ok_cleared:
  "buffer_ok (b\<lparr>pb_timer := t, pb_entries := [], pb_toolCallEntryIndexes := [], pb_lastFlushAt := n,
     pb_flushing := False\<rparr>)"
  by (simp add: buffer_ok_def buffer_index_ok_def)

lemma flushed_simps [simp]:
  "flushed a [] = []" "flushed a (xs @ ys) = flushed a xs @ flushed a ys"
  by (simp_all add: flushed_def)

lemma flush_payload_simps [simp]:
  "fl_agentId (flush_payload a e) = a" "fl_item (flush_payload a e) = entry_item e"
  by (cases e; simp)+

lemma flushed_payloads: "flushed a (map (flush_payload a') es) = (if a' = a then map entry_item es else [])"
  by (induction es) (auto simp: flushed_def)

lemma append_index_ok:
  assumes "buffer_index_ok b"
  shows "buffer_index_ok (appendToBuffer b item p u)"
proof (cases item)
  case (ToolCall c)
  show ?thesis
  proof (cases "map_get (pb_toolCallEntryIndexes b) (tc_callId c)")
    case None
    have "pb_entries b ! i \<noteq> PendingToolCall c' p u"
      if "i < length (pb_entries b)" "tc_callId c' = tc_callId c" for i c' p u
    proof
      assume "pb_entries b ! i = PendingToolCall c' p u"
      with that assms have "map_get (pb_toolCallEntryIndexes b) (tc_callId c) = Some i"
        by (auto simp: buffer_index_ok_def)
      with None show False by simp
    qed
    with None assms ToolCall show ?thesis
      by (auto simp: buffer_index_ok_def appendToBuffer_def Let_def nth_append get_update less_Suc_eq
          split: if_splits)
  next
    case (Some i)
    then have "i < length (pb_entries b)" "\<exists>c' p u. pb_entries b ! i = PendingToolCall c' p u \<and> tc_callId c' = tc_callId c"
      using assms by (auto simp: buffer_index_ok_def)
    moreover have "appendToBuffer b item p u = b\<lparr>pb_entries := (pb_entries b)[i := PendingToolCall c p u]\<rparr>"
      using Some ToolCall by (simp add: appendToBuffer_def)
    ultimately show ?thesis
      using assms set_update_subset_insert [of "pb_entries b" i "PendingToolCall c p u"]
      by (fastforce simp: buffer_index_ok_def nth_list_update list_all_iff)
  qed
qed (use assms in \<open>auto simp: buffer_index_ok_def appendToBuffer_def isTextTimelineItem_def item_text_def nth_append less_Suc_eq\<close>)

text \<open>A reading of items that joining two chunks of one stream does not change.\<close>

locale chunk_reading =
  fixes g :: "AgentTimelineItem \<Rightarrow> 'a list"
  assumes chunk: "isSameTextStream i i' \<Longrightarrow> g (with_text i (t @ t')) = g (with_text i t) @ g (with_text i' t')"
begin

lemma collapse_entry_reading:
  "concat (map g (map entry_item (collapse_entry e es))) = concat (map g (map entry_item es)) @ g (entry_item e)"
proof (cases es rule: rev_cases)
  case (snoc pre x)
  then show ?thesis
    by (cases x; cases e) (simp_all add: collapse_entry_def chunk)
qed (simp add: collapse_entry_def)

lemma collapse_reading:
  "concat (map g (map entry_item (collapseEntries es))) = concat (map g (map entry_item es))"
proof -
  have "concat (map g (map entry_item (fold collapse_entry es acc)))
      = concat (map g (map entry_item acc)) @ concat (map g (map entry_item es))" for acc
    by (induction es arbitrary: acc) (simp_all add: collapse_entry_reading del: map_map)
  from this [of "[]"] show ?thesis by (simp add: collapseEntries_def)
qed

lemma flush_reading:
  "flushBuffer co a' ex now = (out, co') \<Longrightarrow>
     concat (map g (flushed a out)) @ concat (map g (waiting co' a)) = concat (map g (waiting co a))"
  by (auto simp: flushBuffer_def waiting_def flushed_payloads collapse_reading entries_of_def Let_def
      simp del: map_map split: option.splits if_splits)

end

lemma flush_co_ok:
  assumes "co_ok co" "flushBuffer co a ex now = (out, co')"
  shows "co_ok co'"
proof (cases "map_get (co_buffers co) a")
  case (Some b)
  with assms(1) have "buffer_ok b" by (simp add: co_ok_def)
  then have "pb_entries b = [] \<Longrightarrow> buffer_ok (b\<lparr>pb_timer := False\<rparr>)"
    by (simp add: buffer_ok_def buffer_index_ok_def)
  with assms Some buffer_ok_cleared [where b = b and t = False] show ?thesis
    by (auto simp: flushBuffer_def Let_def co_ok_put split: if_splits)
qed (use assms in \<open>simp add: flushBuffer_def\<close>)

text \<open>A flush of a buffer that has just been filled, whose timer may not be set.\<close>

lemma flush_filled_ok:
  assumes "co_ok co" "buffer_index_ok b" "flushBuffer (put_buffer a b co) a None now = (out, co')"
  shows "co_ok co' \<and> waiting co' a = []"
proof (cases "pb_entries b = []")
  case True
  then have "buffer_ok (b\<lparr>pb_timer := False\<rparr>)"
    using assms(2) by (simp add: buffer_ok_def buffer_index_ok_def)
  moreover have "co' = put_buffer a (b\<lparr>pb_timer := False\<rparr>) (put_buffer a b co)"
    using True assms(2,3) by (simp add: flushBuffer_def Let_def buffer_index_ok_def)
  ultimately show ?thesis
    using True assms(1) by (auto simp: co_ok_def waiting_def)
next
  case False
  then have co': "co' = put_buffer a (b\<lparr>pb_timer := False, pb_entries := [], pb_toolCallEntryIndexes := [],
      pb_lastFlushAt := Some now, pb_flushing := False\<rparr>) (put_buffer a b co)"
    using assms(2,3) by (simp add: flushBuffer_def Let_def buffer_index_ok_def)
  show ?thesis
    using assms(1) buffer_ok_cleared [where b = b and t = False and n = "Some now"]
    by (auto simp: co' co_ok_def waiting_def)
qed

lemma create_ok:
  assumes "co_ok co" "getOrCreateBuffer co a = (b, co1)"
  shows "co_ok co1 \<and> buffer_ok b \<and> map_get (co_buffers co1) a = Some b \<and> entries_of co1 = entries_of co"
proof (cases "map_get (co_buffers co) a")
  case None
  have "buffer_ok (new_buffer n)" for n
    by (simp add: new_buffer_def buffer_ok_def buffer_index_ok_def)
  with None assms show ?thesis
    by (auto simp: getOrCreateBuffer_def co_ok_def entries_of_def fun_eq_iff get_update new_buffer_def Let_def
        split: if_splits)
qed (use assms in \<open>auto simp: getOrCreateBuffer_def co_ok_def\<close>)

text \<open>What an event that is buffered does: the buffer it fills, then a flush, a timer, or nothing.\<close>

lemma co_handle_cases:
  assumes "co_ok co" "co_handle co a (TimelineEvent item p u) t t' = (r, out, co')"
    and "isCoalescableTimelineEvent (TimelineEvent item p u)" "item_text item \<noteq> Some []"
  obtains co1 b where "co_ok co1" "entries_of co1 = entries_of co" "buffer_ok b"
    "map_get (co_buffers co1) a = Some b"
    "flushBuffer (put_buffer a (appendToBuffer b item p u) co1) a None t' = (out, co') \<or>
     out = [] \<and> (\<exists>b1. co' = put_buffer a b1 co1 \<and> pb_entries b1 = pb_entries (appendToBuffer b item p u)
       \<and> pb_timer b1 \<and> buffer_index_ok b1)"
proof -
  obtain b co1 where c: "getOrCreateBuffer co a = (b, co1)" by fastforce
  note ok = create_ok [OF assms(1) c]
  let ?b = "appendToBuffer b item p u"
  have "buffer_index_ok ?b" using ok by (simp add: append_index_ok buffer_ok_def)
  moreover have "buffer_index_ok (?b\<lparr>pb_timer := True\<rparr>)" using calculation by (simp add: buffer_index_ok_def)
  moreover have "put_buffer a (?b\<lparr>pb_timer := True\<rparr>) (put_buffer a ?b co1) = put_buffer a (?b\<lparr>pb_timer := True\<rparr>) co1"
    by (simp add: put_buffer_def)
  ultimately have "flushBuffer (put_buffer a ?b co1) a None t' = (out, co') \<or>
     out = [] \<and> (\<exists>b1. co' = put_buffer a b1 co1 \<and> pb_entries b1 = pb_entries ?b
       \<and> pb_timer b1 \<and> buffer_index_ok b1)"
    using assms(2,3,4) c
    by (auto simp: co_handle_def Let_def split: if_splits option.splits)
  with ok that show thesis by blast
qed

lemma co_handle_ignored:
  assumes "\<not> (\<exists>item p u. ev = TimelineEvent item p u \<and> isCoalescableTimelineEvent ev \<and> item_text item \<noteq> Some [])"
  shows "snd (co_handle co a ev t t') = ([], co)"
  using assms by (auto simp: co_handle_def split: AgentStreamEvent.splits)

lemma handle_ok:
  assumes "co_ok co"
  shows "co_ok (snd (snd (co_handle co a ev t t')))"
proof (cases "\<exists>item p u. ev = TimelineEvent item p u \<and> isCoalescableTimelineEvent ev \<and> item_text item \<noteq> Some []")
  case True
  then obtain item p u where ev: "ev = TimelineEvent item p u" "isCoalescableTimelineEvent (TimelineEvent item p u)"
    "item_text item \<noteq> Some []" by auto
  obtain r out co' where h: "co_handle co a (TimelineEvent item p u) t t' = (r, out, co')"
    by (metis prod.exhaust)
  show ?thesis
  proof (rule co_handle_cases [OF assms h ev(2,3)])
    fix co1 b
    assume c: "co_ok co1" "buffer_ok b" and cases: "flushBuffer (put_buffer a (appendToBuffer b item p u) co1) a None t' = (out, co') \<or>
      out = [] \<and> (\<exists>b1. co' = put_buffer a b1 co1 \<and> pb_entries b1 = pb_entries (appendToBuffer b item p u)
        \<and> pb_timer b1 \<and> buffer_index_ok b1)"
    have "buffer_index_ok (appendToBuffer b item p u)"
      using c(2) by (simp add: append_index_ok buffer_ok_def)
    with cases c(1) flush_filled_ok have "co_ok co'"
      by (auto intro!: co_ok_put simp: buffer_ok_def)
    with h ev(1) show ?thesis by simp
  qed
qed (simp add: co_handle_ignored assms)

lemma flush_each_ok: "co_ok co \<Longrightarrow> flush_each as now co = (out, co') \<Longrightarrow> co_ok co'"
  by (induction as arbitrary: co out co') (auto split: prod.splits dest: flush_co_ok)

lemma discard_ok: "co_ok co \<Longrightarrow> co_ok (co\<lparr>co_buffers := AList.delete a (co_buffers co)\<rparr>)"
  by (simp add: co_ok_def get_delete)

lemma co_step_ok: "co_ok co \<Longrightarrow> co_step op co = (out, co') \<Longrightarrow> co_ok co'"
proof (cases op)
  case (Handle a ev t t')
  assume "co_ok co" "co_step op co = (out, co')"
  with Handle handle_ok [of co a ev t t'] show ?thesis by (cases "co_handle co a ev t t'") simp
qed (auto simp: flushFor_def flushAll_def flushAndDiscard_def timer_fires_def split: prod.splits
      intro: flush_each_ok flush_co_ok discard_ok)

lemma co_run_ok: "co_ok co \<Longrightarrow> co_run ops co = (out, co') \<Longrightarrow> co_ok co'"
proof (induction ops arbitrary: co out)
  case (Cons op ops)
  then show ?case by (auto split: prod.splits dest: co_step_ok)
qed simp

text \<open>A flush on request empties the buffer of the agent.\<close>

lemma flush_empties:
  assumes "co_ok co" "flushBuffer co a None now = (out, co')"
  shows "waiting co' a = []"
proof (cases "map_get (co_buffers co) a")
  case (Some b)
  with assms have "\<not> pb_flushing b" by (simp add: co_ok_def buffer_ok_def buffer_index_ok_def)
  with Some assms show ?thesis
    by (auto simp: flushBuffer_def Let_def waiting_def split: if_splits)
qed (use assms in \<open>auto simp: flushBuffer_def waiting_def entries_of_def\<close>)

text \<open>A reading of the items of one agent together with what is observed of it, which an event
  extends by its item: either everything that was read, or the latest state of a tool call.\<close>

locale observed_reading = chunk_reading g
  for g :: "AgentTimelineItem \<Rightarrow> 'a list" +
  fixes view :: "'a list \<Rightarrow> 'b"
  assumes view_append: "buffer_index_ok b \<Longrightarrow> isCoalescableTimelineEvent (TimelineEvent item p u) \<Longrightarrow>
      view (xs @ concat (map g (map entry_item (pb_entries (appendToBuffer b item p u)))) @ ys)
        = view (xs @ concat (map g (map entry_item (pb_entries b))) @ g item @ ys)"
begin

lemma empty_text:
  assumes "item_text item = Some []"
  shows "g item = []"
proof -
  have "isSameTextStream item item" "with_text item [] = item"
    using assms by (auto simp: item_text_def isSameTextStream_def with_text_def split: AgentTimelineItem.splits)
  with chunk [of item item "[]" "[]"] show ?thesis by simp
qed

lemma handle_view:
  assumes "co_ok co"
  shows "view (xs @ concat (map g (flushed a (fst (snd (co_handle co a' ev t t')))))
      @ concat (map g (waiting (snd (snd (co_handle co a' ev t t'))) a)) @ ys)
    = view (xs @ concat (map g (waiting co a)) @ concat (map g (handed_in a (Handle a' ev t t'))) @ ys)"
proof (cases "\<exists>item p u. ev = TimelineEvent item p u \<and> isCoalescableTimelineEvent ev \<and> item_text item \<noteq> Some []")
  case False
  then have none: "concat (map g (handed_in a (Handle a' ev t t'))) = []"
    by (cases ev) (auto simp: empty_text)
  show ?thesis unfolding none co_handle_ignored [OF False] by simp
next
  case True
  then obtain item p u where ev: "ev = TimelineEvent item p u" "isCoalescableTimelineEvent (TimelineEvent item p u)"
    "item_text item \<noteq> Some []" by auto
  obtain r out co' where h: "co_handle co a' (TimelineEvent item p u) t t' = (r, out, co')"
    by (metis prod.exhaust)
  obtain co1 b where c: "co_ok co1" "entries_of co1 = entries_of co" "buffer_ok b"
    "map_get (co_buffers co1) a' = Some b"
    "flushBuffer (put_buffer a' (appendToBuffer b item p u) co1) a' None t' = (out, co') \<or>
     out = [] \<and> (\<exists>b1. co' = put_buffer a' b1 co1 \<and> pb_entries b1 = pb_entries (appendToBuffer b item p u)
       \<and> pb_timer b1 \<and> buffer_index_ok b1)"
    by (rule co_handle_cases [OF assms h ev(2,3)])
  let ?co2 = "put_buffer a' (appendToBuffer b item p u) co1"
  have "concat (map g (flushed a out)) @ concat (map g (waiting co' a)) = concat (map g (waiting ?co2 a))"
    using c(5) flush_reading by (auto simp: waiting_def)
  moreover have "pb_entries b = entries_of co a'"
    using c(2,4) by (metis entries_of_def option.simps(5))
  ultimately show ?thesis
    using view_append [of b item p u xs ys] c(2,3) ev h
    by (auto simp: waiting_def buffer_ok_def simp flip: append_assoc)
qed

lemma flush_each_reading:
  "flush_each as now co = (out, co') \<Longrightarrow>
     concat (map g (flushed a out)) @ concat (map g (waiting co' a)) = concat (map g (waiting co a))"
proof (induction as arbitrary: co out)
  case (Cons x as)
  obtain o1 co1 where f: "flushBuffer co x None now = (o1, co1)" by fastforce
  obtain o2 where e: "flush_each as now co1 = (o2, co')" "out = o1 @ o2"
    using Cons.prems f by (auto split: prod.splits)
  from Cons.IH [OF e(1)] flush_reading [OF f, of a] e(2) show ?case by simp
qed simp

lemma step_view:
  assumes "co_ok co" "co_step op co = (out, co')"
  shows "view (xs @ concat (map g (flushed a out)) @ concat (map g (waiting co' a)) @ ys)
    = view (xs @ concat (map g (waiting co a)) @ concat (map g (handed_in a op)) @ ys)"
proof (cases op)
  case (Handle a' ev t t')
  with assms(2) handle_view [OF assms(1), of xs a a' ev t t' ys] show ?thesis
    by (cases "co_handle co a' ev t t'") simp
next
  case (FlushAndDiscard a' t)
  obtain co1 where f: "flushBuffer co a' None t = (out, co1)"
    and co': "co' = co1\<lparr>co_buffers := AList.delete a' (co_buffers co1)\<rparr>"
    using assms(2) FlushAndDiscard by (auto simp: flushAndDiscard_def split: prod.splits)
  have "waiting co' a = waiting co1 a"
    using flush_empties [OF assms(1) f] by (auto simp: co' waiting_def entries_of_def get_delete)
  with flush_reading [OF f, of a] FlushAndDiscard show ?thesis
    by (simp flip: append_assoc)
next
  case (FlushAll t)
  with assms(2) flush_each_reading show ?thesis
    by (simp add: flushAll_def flip: append_assoc)
next
  case (FlushFor a' t)
  with assms(2) flush_reading show ?thesis
    by (simp add: flushFor_def flip: append_assoc)
next
  case (TimerFires a' n t)
  with assms(2) flush_reading show ?thesis
    by (simp add: timer_fires_def flip: append_assoc)
qed

lemma run_view:
  "co_ok co \<Longrightarrow> co_run ops co = (out, co') \<Longrightarrow>
     view (xs @ concat (map g (flushed a out)) @ concat (map g (waiting co' a)))
       = view (xs @ concat (map g (waiting co a)) @ concat (map g (concat (map (handed_in a) ops))))"
proof (induction ops arbitrary: co out xs)
  case (Cons op ops)
  obtain o1 co1 where f: "co_step op co = (o1, co1)" by fastforce
  obtain o2 where e: "co_run ops co1 = (o2, co')" "out = o1 @ o2"
    using Cons.prems(2) f by (auto split: prod.splits)
  have "view ((xs @ concat (map g (flushed a o1))) @ concat (map g (flushed a o2)) @ concat (map g (waiting co' a)))
      = view ((xs @ concat (map g (flushed a o1))) @ concat (map g (waiting co1 a))
          @ concat (map g (concat (map (handed_in a) ops))))"
    by (rule Cons.IH [OF co_step_ok [OF Cons.prems(1) f] e(1)])
  also have "\<dots> = view (xs @ concat (map g (waiting co a)) @ concat (map g (handed_in a op))
          @ concat (map g (concat (map (handed_in a) ops))))"
    using step_view [OF Cons.prems(1) f] by simp
  finally show ?case using e(2) by simp
qed simp

end

lemma created_ok: "co_ok (createCoalescer w)" "waiting (createCoalescer w) a = []"
  by (simp_all add: createCoalescer_def co_ok_def waiting_def entries_of_def)

lemma same_stream_cases:
  assumes "isSameTextStream i i'"
  obtains (assistant) s m s' where "i = AssistantMessage s m" "i' = AssistantMessage s' m"
  | (reasoning) s s' where "i = Reasoning s" "i' = Reasoning s'"
  using assms by (auto simp: isSameTextStream_def split: AgentTimelineItem.splits)

lemma append_reading:
  fixes g :: "AgentTimelineItem \<Rightarrow> 'a list"
  assumes "\<And>c. g (ToolCall c) = []" "buffer_index_ok b" "isCoalescableTimelineEvent (TimelineEvent item p u)"
  shows "concat (map g (map entry_item (pb_entries (appendToBuffer b item p u))))
    = concat (map g (map entry_item (pb_entries b))) @ g item"
proof (cases item)
  case (ToolCall c)
  show ?thesis
  proof (cases "map_get (pb_toolCallEntryIndexes b) (tc_callId c)")
    case (Some i)
    then have i: "i < length (pb_entries b)" "\<exists>c' p u. pb_entries b ! i = PendingToolCall c' p u"
      using assms(2) by (auto simp: buffer_index_ok_def)
    have "concat (map (\<lambda>e. g (entry_item e)) ((pb_entries b)[i := PendingToolCall c p u]))
        = concat (map (\<lambda>e. g (entry_item e)) (pb_entries b))"
      using i by (intro concat_update_none) (auto simp: assms(1))
    with Some ToolCall assms(1) show ?thesis
      by (simp add: appendToBuffer_def comp_def)
  qed (use ToolCall assms(1) in \<open>simp add: appendToBuffer_def Let_def\<close>)
qed (use assms(3) in \<open>simp_all add: appendToBuffer_def item_text_def with_text_def\<close>)

interpretation assistant_stream: observed_reading assistant_text "\<lambda>xs. xs"
proof
  show "assistant_text (with_text i (t @ t')) = assistant_text (with_text i t) @ assistant_text (with_text i' t')"
    if "isSameTextStream i i'" for i i' t t'
    using that by (cases rule: same_stream_cases) (simp_all add: assistant_text_def with_text_def)
qed (simp add: append_reading assistant_text_def del: map_map)

interpretation reasoning_stream: observed_reading reasoning_text "\<lambda>xs. xs"
proof
  show "reasoning_text (with_text i (t @ t')) = reasoning_text (with_text i t) @ reasoning_text (with_text i' t')"
    if "isSameTextStream i i'" for i i' t t'
    using that by (cases rule: same_stream_cases) (simp_all add: reasoning_text_def with_text_def)
qed (simp add: append_reading reasoning_text_def del: map_map)

lemma entry_call:
  "text_entry_ok e \<Longrightarrow> calls_of k (entry_item e) =
     (case e of PendingToolCall c p u \<Rightarrow> if tc_callId c = k then [ToolCall c] else [] | _ \<Rightarrow> [])"
  by (cases e) (auto simp: calls_of_def timelineItemIdentity_def isTextTimelineItem_def item_text_def
      with_text_def split: AgentTimelineItem.splits)

lemma waiting_call:
  assumes "buffer_index_ok b" "map_get (pb_toolCallEntryIndexes b) k = Some i"
  shows "concat (map (\<lambda>e. calls_of k (entry_item e)) (pb_entries b)) = calls_of k (entry_item (pb_entries b ! i))"
proof -
  have i: "i < length (pb_entries b)" using assms by (simp add: buffer_index_ok_def)
  have none: "calls_of k (entry_item (pb_entries b ! j)) = []" if "j < length (pb_entries b)" "j \<noteq> i" for j
  proof (rule ccontr)
    assume "calls_of k (entry_item (pb_entries b ! j)) \<noteq> []"
    moreover have "text_entry_ok (pb_entries b ! j)"
      using that(1) assms(1) by (simp add: buffer_index_ok_def list_all_length)
    ultimately have "\<exists>c p u. pb_entries b ! j = PendingToolCall c p u \<and> tc_callId c = k"
      by (auto simp: entry_call split: PendingAgentStreamEntry.splits if_splits)
    with that(1) assms(1) have "map_get (pb_toolCallEntryIndexes b) k = Some j"
      unfolding buffer_index_ok_def by blast
    with assms(2) that(2) show False by simp
  qed
  have "concat (map (\<lambda>e. calls_of k (entry_item e)) (take i (pb_entries b))) = []"
    "concat (map (\<lambda>e. calls_of k (entry_item e)) (drop (Suc i) (pb_entries b))) = []"
    using none i by (auto simp: in_set_conv_nth)
  with concat_update(2) [OF i, of "\<lambda>e. calls_of k (entry_item e)"] show ?thesis
    by (simp del: concat_eq_Nil_conv)
qed

lemma append_call:
  assumes "buffer_index_ok b" "isCoalescableTimelineEvent (TimelineEvent item p u)"
  shows "last_opt (xs @ concat (map (\<lambda>e. calls_of k (entry_item e)) (pb_entries (appendToBuffer b item p u))) @ ys)
    = last_opt (xs @ concat (map (\<lambda>e. calls_of k (entry_item e)) (pb_entries b)) @ calls_of k item @ ys)"
proof (cases item)
  case (ToolCall c)
  show ?thesis
  proof (cases "map_get (pb_toolCallEntryIndexes b) (tc_callId c)")
    case None
    with ToolCall show ?thesis by (simp add: appendToBuffer_def Let_def)
  next
    case (Some i)
    have i: "i < length (pb_entries b)" "calls_of (tc_callId c) (entry_item (pb_entries b ! i)) \<noteq> []"
      "k \<noteq> tc_callId c \<Longrightarrow> calls_of k (entry_item (pb_entries b ! i)) = []"
      using Some assms(1)
      by (auto simp: buffer_index_ok_def calls_of_def timelineItemIdentity_def)
    have app: "pb_entries (appendToBuffer b item p u) = (pb_entries b)[i := PendingToolCall c p u]"
      using Some ToolCall by (simp add: appendToBuffer_def)
    show ?thesis
    proof (cases "k = tc_callId c")
      case True
      obtain d where d: "calls_of k (entry_item (pb_entries b ! i)) = [d]"
        using i(2) True by (auto simp: calls_of_def split: if_splits)
      have "concat (map (\<lambda>e. calls_of k (entry_item e)) ((pb_entries b)[i := PendingToolCall c p u])) = [ToolCall c]"
        using concat_update_single [OF i(1), of "\<lambda>e. calls_of k (entry_item e)" d "PendingToolCall c p u"]
          waiting_call [OF assms(1) Some [folded True]] d True
        by (simp add: calls_of_def timelineItemIdentity_def)
      then show ?thesis
        unfolding app using waiting_call [OF assms(1) Some [folded True]] d True ToolCall
        by (simp add: last_opt_def calls_of_def timelineItemIdentity_def del: concat_eq_Nil_conv)
    next
      case False
      then show ?thesis
        unfolding app using i(1) i(3) [OF False] ToolCall
        by (subst concat_update_none) (auto simp: calls_of_def timelineItemIdentity_def)
    qed
  qed
qed (use assms(2) in \<open>simp_all add: appendToBuffer_def item_text_def with_text_def calls_of_def
        timelineItemIdentity_def\<close>)

interpretation call_stream: observed_reading "calls_of k" last_opt for k
proof
  show "calls_of k (with_text i (t @ t')) = calls_of k (with_text i t) @ calls_of k (with_text i' t')"
    if "isSameTextStream i i'" for i i' t t'
    using that by (cases rule: same_stream_cases) (simp_all add: calls_of_def with_text_def timelineItemIdentity_def)
qed (use append_call in \<open>simp add: comp_def\<close>)

section \<open>What the coalescer guarantees\<close>

text \<open>C24. Whatever is handed in, flushed on request or flushed by a timer, and in whatever order, the
  text flushed for an agent followed by the text still waiting is the text handed in, for the
  assistant and for the reasoning: no chunk is lost, repeated or reordered. The last state of a
  tool call that was flushed or waits is the last one handed in.\<close>

theorem stream_conserved:
  assumes "co_run ops (createCoalescer w) = (out, co)"
  shows "concat (map assistant_text (flushed a out @ waiting co a))
           = concat (map assistant_text (concat (map (handed_in a) ops)))
       \<and> concat (map reasoning_text (flushed a out @ waiting co a))
           = concat (map reasoning_text (concat (map (handed_in a) ops)))
       \<and> last_opt (concat (map (calls_of k) (flushed a out @ waiting co a)))
           = last_opt (concat (map (calls_of k) (concat (map (handed_in a) ops))))"
  using assistant_stream.run_view [OF created_ok(1) assms, of "[]" a]
    reasoning_stream.run_view [OF created_ok(1) assms, of "[]" a]
    call_stream.run_view [OF created_ok(1) assms, where k = k and xs = "[]" and a = a]
  by (simp add: created_ok(2))

definition sample_stream :: "co_op list" where
  "sample_stream =
     [Handle ''a'' (TimelineEvent (AssistantMessage ''x'' None) ''p'' None) 0 0,
      Handle ''a'' (TimelineEvent (AssistantMessage ''y'' None) ''p'' None) 10 10,
      Handle ''a'' (TimelineEvent (ToolCall (sample_tool Running)) ''p'' None) 20 20]"

definition sample_buffer :: PendingAgentStreamBuffer where
  "sample_buffer = \<lparr>pb_id = 0,
     pb_entries = [PendingText (AssistantMessage ''y'' None) ''y'' ''p'' None,
                   PendingToolCall (sample_tool Running) ''p'' None],
     pb_toolCallEntryIndexes = [(''k'', 1)], pb_timer = True, pb_flushing = False, pb_lastFlushAt = Some 0\<rparr>"

lemma sample_stream_run:
  "co_run sample_stream (createCoalescer None) =
     ([\<lparr>fl_agentId = ''a'', fl_item = AssistantMessage ''x'' None, fl_provider = ''p'', fl_turnId = None\<rparr>],
      \<lparr>co_buffers = [(''a'', sample_buffer)], co_windowMs = 60, co_created = 1\<rparr>)"
  by (simp add: sample_stream_def sample_buffer_def sample_tool_def createCoalescer_def co_handle_def
      AGENT_STREAM_COALESCE_DEFAULT_WINDOW_MS_def getOrCreateBuffer_def new_buffer_def put_buffer_def
      appendToBuffer_def item_text_def isTerminalToolCall_def flushBuffer_def collapseEntries_def
      collapse_entry_def with_text_def Let_def)

theorem stream_conserved_witness:
  "concat (map assistant_text ([AssistantMessage ''x'' None] @ map entry_item (pb_entries sample_buffer))) = ''xy''"
  using stream_conserved [OF sample_stream_run, of "''a''"]
  by (simp add: flushed_def waiting_def entries_of_def sample_stream_def assistant_text_def)

text \<open>Between operations, whatever waits for an agent has a timer set, and when that timer fires
  everything that waits is flushed; so does a flush on request.\<close>

theorem waiting_is_scheduled:
  assumes "co_run ops (createCoalescer w) = (out, co)" "map_get (co_buffers co) a = Some b"
  shows "(pb_entries b = [] \<or> pb_timer b)
    \<and> waiting (snd (timer_fires co a (pb_id b) now)) a = [] \<and> waiting (snd (flushFor co a now)) a = []"
proof -
  have ok: "co_ok co" by (rule co_run_ok [OF created_ok(1) assms(1)])
  have "flushBuffer co a (Some (pb_id b)) now = flushBuffer co a None now"
    using assms(2) by (simp add: flushBuffer_def)
  with ok assms(2) flush_empties [OF ok] show ?thesis
    by (auto simp: timer_fires_def flushFor_def co_ok_def buffer_ok_def prod.split_sel
        intro: flush_empties [OF ok surjective_pairing])
qed

theorem waiting_is_scheduled_witness: "pb_entries sample_buffer = [] \<or> pb_timer sample_buffer"
  using waiting_is_scheduled [OF sample_stream_run, of "''a''" sample_buffer 0] by simp

end
