(* ===== verification/DirectorySync.thy ===== *)
theory DirectorySync
  imports JsArray
begin

text \<open>
  The directory that connected apps keep in step with (\<open>server/directory-sync/\<close>): a versioned
  collection per kind of entity, which numbers every change, remembers removals for a while, and
  answers a client's cursor with the changes since it or with a snapshot; and the service that
  owns the collections of projects, workspaces and agents under one generation.

  The values are opaque: their id and their fingerprint are functions of the collection's
  options. Values are sorted by their number; the comparison of ids that breaks ties in the
  source is never reached, since no two entries share a number (lemma \<open>numbers_distinct\<close>).
\<close>

section \<open>Versioned collections\<close>

record 'v StoredValue =
  sv_seq :: int
  sv_value :: 'v
  sv_fingerprint :: string

record 'v VersionedCollectionOptions =
  opt_getId :: "'v \<Rightarrow> string"
  opt_fingerprint :: "'v \<Rightarrow> string"
  opt_maxTombstones :: nat

record 'v VersionedCollection =
  vc_values :: "(string, 'v StoredValue) js_map"
  vc_tombstones :: "(string, int) js_map"
  vc_expiredThroughSeq :: int
  vc_nextSeq :: int

datatype read_mode = ChangesMode | SnapshotMode
datatype read_reason = NoCursor | GenerationChanged | CursorExpired

record 'v CollectionRead =
  cr_mode :: read_mode
  cr_reason :: "read_reason option"
  cr_headSeq :: int
  cr_values :: "(int \<times> 'v) list"
  cr_removals :: "(string \<times> int) list"

datatype 'v PublishedChange = PubUpsert int 'v | PubRemove int string

definition new_collection :: "'v VersionedCollection" where
  "new_collection = \<lparr>vc_values = [], vc_tombstones = [], vc_expiredThroughSeq = 0, vc_nextSeq = 0\<rparr>"

definition DEFAULT_MAX_TOMBSTONES :: nat where
  "DEFAULT_MAX_TOMBSTONES = 5000"

definition headSeq :: "'v VersionedCollection \<Rightarrow> int" where
  "headSeq c = vc_nextSeq c"

definition sequenceFor :: "'v VersionedCollection \<Rightarrow> string \<Rightarrow> int option" where
  "sequenceFor c ident = (case map_get (vc_values c) ident of
       Some sv \<Rightarrow> Some (sv_seq sv)
     | None \<Rightarrow> map_get (vc_tombstones c) ident)"

definition advance :: "'v VersionedCollection \<Rightarrow> int \<times> 'v VersionedCollection" where
  "advance c = (vc_nextSeq c + 1, c\<lparr>vc_nextSeq := vc_nextSeq c + 1\<rparr>)"

definition vc_replace ::
  "'v VersionedCollectionOptions \<Rightarrow> 'v \<Rightarrow> 'v VersionedCollection
     \<Rightarrow> 'v PublishedChange option \<times> 'v VersionedCollection" where
  "vc_replace opts value c =
     (let ident = opt_getId opts value;
          fingerprint = opt_fingerprint opts value
      in if map_option sv_fingerprint (map_get (vc_values c) ident) = Some fingerprint then (None, c)
         else case advance c of (seq, c1) \<Rightarrow>
           (Some (PubUpsert seq value),
            c1\<lparr>vc_values := AList.update ident \<lparr>sv_seq = seq, sv_value = value, sv_fingerprint = fingerprint\<rparr>
                 (vc_values c1),
               vc_tombstones := AList.delete ident (vc_tombstones c1)\<rparr>))"

fun trim_tombstones :: "nat \<Rightarrow> (string, int) js_map \<Rightarrow> int \<Rightarrow> (string, int) js_map \<times> int" where
  "trim_tombstones m [] expired = ([], expired)"
| "trim_tombstones m ((ident, seq) # ts) expired =
     (if length ((ident, seq) # ts) > m then trim_tombstones m ts (max expired seq)
      else ((ident, seq) # ts, expired))"

definition trimTombstones :: "'v VersionedCollectionOptions \<Rightarrow> 'v VersionedCollection \<Rightarrow> 'v VersionedCollection" where
  "trimTombstones opts c =
     (case trim_tombstones (opt_maxTombstones opts) (vc_tombstones c) (vc_expiredThroughSeq c) of
        (ts, expired) \<Rightarrow> c\<lparr>vc_tombstones := ts, vc_expiredThroughSeq := expired\<rparr>)"

definition vc_remove ::
  "'v VersionedCollectionOptions \<Rightarrow> string \<Rightarrow> 'v VersionedCollection
     \<Rightarrow> 'v PublishedChange option \<times> 'v VersionedCollection" where
  "vc_remove opts ident c =
     (if \<not> map_has (vc_values c) ident \<and> map_has (vc_tombstones c) ident then (None, c)
      else
        let had = map_has (vc_values c) ident;
            c1 = c\<lparr>vc_values := AList.delete ident (vc_values c)\<rparr>
        in if \<not> had \<and> \<not> map_has (vc_tombstones c1) ident then (None, c1)
           else case advance c1 of (seq, c2) \<Rightarrow>
             (Some (PubRemove seq ident),
              trimTombstones opts
                (c2\<lparr>vc_tombstones := AList.update ident seq (AList.delete ident (vc_tombstones c2))\<rparr>)))"

definition replaceAll ::
  "'v VersionedCollectionOptions \<Rightarrow> 'v list \<Rightarrow> 'v VersionedCollection \<Rightarrow> 'v VersionedCollection" where
  "replaceAll opts values c =
     (let c1 = fold (\<lambda>value c. snd (vc_replace opts value c)) values c;
          retained = map (opt_getId opts) values
      in fold (\<lambda>ident c. if ident \<in> set retained then c else snd (vc_remove opts ident c))
           (map_keys (vc_values c1)) c1)"

definition sortedValues :: "'v VersionedCollection \<Rightarrow> (int \<times> 'v) list" where
  "sortedValues c = sort_key fst (map (\<lambda>(ident, sv). (sv_seq sv, sv_value sv)) (vc_values c))"

definition readSnapshot :: "read_reason \<Rightarrow> 'v VersionedCollection \<Rightarrow> 'v CollectionRead" where
  "readSnapshot reason c = \<lparr>cr_mode = SnapshotMode, cr_reason = Some reason, cr_headSeq = headSeq c,
     cr_values = sortedValues c, cr_removals = []\<rparr>"

definition readAfter :: "int \<Rightarrow> 'v VersionedCollection \<Rightarrow> 'v CollectionRead" where
  "readAfter afterSeq c =
     (if afterSeq < vc_expiredThroughSeq c \<or> afterSeq > headSeq c then readSnapshot CursorExpired c
      else \<lparr>cr_mode = ChangesMode, cr_reason = None, cr_headSeq = headSeq c,
            cr_values = filter (\<lambda>(seq, value). seq > afterSeq) (sortedValues c),
            cr_removals = sort_key snd (filter (\<lambda>(ident, seq). seq > afterSeq) (vc_tombstones c))\<rparr>)"

section \<open>The service\<close>

record DirectorySyncCursor =
  dc_generation :: "string option"
  dc_afterSeq :: "int option"

record ('p, 'w, 'a) DirectorySyncService =
  ds_generation :: string
  ds_projects :: "'p VersionedCollection"
  ds_workspaces :: "'w VersionedCollection"
  ds_agents :: "'a VersionedCollection"

record ('p, 'w, 'a) directory_ids =
  di_projects :: "'p VersionedCollectionOptions"
  di_workspaces :: "'w VersionedCollectionOptions"
  di_agents :: "'a VersionedCollectionOptions"

definition createDirectory :: "string \<Rightarrow> ('p, 'w, 'a) DirectorySyncService" where
  "createDirectory generation = \<lparr>ds_generation = generation, ds_projects = new_collection,
     ds_workspaces = new_collection, ds_agents = new_collection\<rparr>"

definition directory_read :: "string \<Rightarrow> 'v VersionedCollection \<Rightarrow> DirectorySyncCursor \<Rightarrow> 'v CollectionRead" where
  "directory_read generation c cursor =
     (if dc_generation cursor \<noteq> Some generation then
        readSnapshot (if dc_generation cursor = None then NoCursor else GenerationChanged) c
      else case dc_afterSeq cursor of
             None \<Rightarrow> readSnapshot NoCursor c
           | Some afterSeq \<Rightarrow> readAfter afterSeq c)"

definition directory_version :: "string \<Rightarrow> 'v VersionedCollection \<Rightarrow> string \<Rightarrow> (string \<times> int) option" where
  "directory_version generation c ident = map_option (\<lambda>seq. (generation, seq)) (sequenceFor c ident)"

definition withVersion :: "bool \<Rightarrow> (string \<times> int) option \<Rightarrow> (string \<times> int) option" where
  "withVersion includeSequence version = (if includeSequence then version else None)"

definition synchronizeProjects ::
  "('p, 'w, 'a) directory_ids \<Rightarrow> 'p list \<Rightarrow> DirectorySyncCursor \<Rightarrow> ('p, 'w, 'a) DirectorySyncService
     \<Rightarrow> 'p CollectionRead \<times> ('p, 'w, 'a) DirectorySyncService" where
  "synchronizeProjects ids snapshot cursor d =
     (let c = replaceAll (di_projects ids) snapshot (ds_projects d)
      in (directory_read (ds_generation d) c cursor, d\<lparr>ds_projects := c\<rparr>))"

definition synchronizeWorkspaces ::
  "('p, 'w, 'a) directory_ids \<Rightarrow> 'w list \<Rightarrow> DirectorySyncCursor \<Rightarrow> ('p, 'w, 'a) DirectorySyncService
     \<Rightarrow> 'w CollectionRead \<times> ('p, 'w, 'a) DirectorySyncService" where
  "synchronizeWorkspaces ids snapshot cursor d =
     (let c = replaceAll (di_workspaces ids) snapshot (ds_workspaces d)
      in (directory_read (ds_generation d) c cursor, d\<lparr>ds_workspaces := c\<rparr>))"

definition synchronizeAgents ::
  "('p, 'w, 'a) directory_ids \<Rightarrow> 'a list \<Rightarrow> DirectorySyncCursor \<Rightarrow> ('p, 'w, 'a) DirectorySyncService
     \<Rightarrow> 'a CollectionRead \<times> ('p, 'w, 'a) DirectorySyncService" where
  "synchronizeAgents ids snapshot cursor d =
     (let c = replaceAll (di_agents ids) snapshot (ds_agents d)
      in (directory_read (ds_generation d) c cursor, d\<lparr>ds_agents := c\<rparr>))"

text \<open>An update is an upsert of a value or the removal of an id; it is answered with the version to
  attach to the message, if any.\<close>

definition apply_update ::
  "'v VersionedCollectionOptions \<Rightarrow> 'v option \<Rightarrow> string \<Rightarrow> 'v VersionedCollection \<Rightarrow> 'v VersionedCollection" where
  "apply_update opts value ident c =
     (case value of Some v \<Rightarrow> snd (vc_replace opts v c) | None \<Rightarrow> snd (vc_remove opts ident c))"

definition sequenceProjectUpdate ::
  "('p, 'w, 'a) directory_ids \<Rightarrow> 'p option \<Rightarrow> string \<Rightarrow> bool \<Rightarrow> ('p, 'w, 'a) DirectorySyncService
     \<Rightarrow> (string \<times> int) option \<times> ('p, 'w, 'a) DirectorySyncService" where
  "sequenceProjectUpdate ids value projectId includeSequence d =
     (let c = apply_update (di_projects ids) value projectId (ds_projects d);
          ident = (case value of Some p \<Rightarrow> opt_getId (di_projects ids) p | None \<Rightarrow> projectId)
      in (withVersion includeSequence (directory_version (ds_generation d) c ident), d\<lparr>ds_projects := c\<rparr>))"

definition sequenceWorkspaceUpdate ::
  "('p, 'w, 'a) directory_ids \<Rightarrow> 'w option \<Rightarrow> string \<Rightarrow> bool \<Rightarrow> ('p, 'w, 'a) DirectorySyncService
     \<Rightarrow> (string \<times> int) option \<times> ('p, 'w, 'a) DirectorySyncService" where
  "sequenceWorkspaceUpdate ids value ident includeSequence d =
     (let c = apply_update (di_workspaces ids) value ident (ds_workspaces d)
      in (withVersion includeSequence (directory_version (ds_generation d) c ident), d\<lparr>ds_workspaces := c\<rparr>))"

definition sequenceAgentUpdate ::
  "('p, 'w, 'a) directory_ids \<Rightarrow> 'a option \<Rightarrow> string \<Rightarrow> bool \<Rightarrow> ('p, 'w, 'a) DirectorySyncService
     \<Rightarrow> (string \<times> int) option \<times> ('p, 'w, 'a) DirectorySyncService" where
  "sequenceAgentUpdate ids value ident includeSequence d =
     (let c = apply_update (di_agents ids) value ident (ds_agents d)
      in (withVersion includeSequence (directory_version (ds_generation d) c ident), d\<lparr>ds_agents := c\<rparr>))"

section \<open>The invariant\<close>

definition coll_ok :: "'v VersionedCollectionOptions \<Rightarrow> 'v VersionedCollection \<Rightarrow> bool" where
  "coll_ok opts c =
     (wf_map (vc_values c) \<and> wf_map (vc_tombstones c)
      \<and> (\<forall>k sv. map_get (vc_values c) k = Some sv \<longrightarrow>
           opt_getId opts (sv_value sv) = k \<and> sv_seq sv \<le> vc_nextSeq c \<and> map_get (vc_tombstones c) k = None)
      \<and> (\<forall>k s. map_get (vc_tombstones c) k = Some s \<longrightarrow> s \<le> vc_nextSeq c)
      \<and> vc_expiredThroughSeq c \<le> vc_nextSeq c)"

text \<open>What a later state of the collection still knows of an earlier one: an entry is the earlier one
  or has a newer number, and a removed entry has a newer removal unless removals that new have
  been forgotten.\<close>

definition knows :: "int \<Rightarrow> 'v StoredValue option \<Rightarrow> 'v StoredValue option \<Rightarrow> int option \<Rightarrow> int \<Rightarrow> bool" where
  "knows n v0 v t e = (case v of
       Some sv \<Rightarrow> n < sv_seq sv \<or> v0 = Some sv
     | None \<Rightarrow> v0 = None \<or> (\<exists>s. t = Some s \<and> n < s) \<or> n < e)"

definition remembers :: "'v VersionedCollection \<Rightarrow> 'v VersionedCollection \<Rightarrow> bool" where
  "remembers c0 c =
     (vc_nextSeq c0 \<le> vc_nextSeq c
      \<and> (\<forall>k. knows (vc_nextSeq c0) (map_get (vc_values c0) k) (map_get (vc_values c) k)
            (map_get (vc_tombstones c) k) (vc_expiredThroughSeq c)))"

lemma new_collection_ok: "0 \<le> vc_nextSeq new_collection" "coll_ok opts new_collection"
  by (simp_all add: new_collection_def coll_ok_def)

lemma remembers_refl: "remembers c c"
  by (auto simp: remembers_def knows_def split: option.splits)

lemma knows_trim:
  "knows n v0 v t e \<Longrightarrow> e \<le> e' \<Longrightarrow> (\<And>s. t = Some s \<Longrightarrow> t' = Some s \<or> s \<le> e') \<Longrightarrow> knows n v0 v t' e'"
  by (fastforce simp: knows_def split: option.splits)

lemma map_has_iff [simp]: "map_has m k \<longleftrightarrow> map_get m k \<noteq> None"
  by (simp add: map_has_def)

lemma trim_facts:
  assumes "wf_map ts" "trim_tombstones m ts e = (ts', e')"
  shows "wf_map ts' \<and> e \<le> e'
    \<and> (\<forall>k s. map_get ts' k = Some s \<longrightarrow> map_get ts k = Some s)
    \<and> (\<forall>k s. map_get ts k = Some s \<longrightarrow> map_get ts' k = Some s \<or> s \<le> e')
    \<and> e' \<in> insert e (snd ` set ts)
    \<and> length ts' \<le> m"
  using assms
proof (induction m ts e rule: trim_tombstones.induct)
  case (2 m k s ts e)
  show ?case
  proof (cases "length ((k, s) # ts) > m")
    case True
    with 2(3) have t: "trim_tombstones m ts (max e s) = (ts', e')" by simp
    have wf: "wf_map ts" "map_get ts k = None"
      using 2(2) by (auto simp: wf_map_def map_of_eq_None_iff)
    from 2(1) [OF True wf(1) t] wf(2) show ?thesis
      by (auto simp: max_def split: if_splits)
  next
    case False
    with 2(2,3) show ?thesis by auto
  qed
qed auto

lemma int_le_add1: "(x :: int) \<le> y \<Longrightarrow> x \<le> y + 1"
  by simp

lemma replace_ok:
  assumes "coll_ok opts c"
  shows "coll_ok opts (snd (vc_replace opts v c))"
  using assms
  by (auto simp: vc_replace_def coll_ok_def advance_def Let_def get_update get_delete intro: int_le_add1)

lemma replace_changed:
  assumes "snd (vc_replace opts v c) \<noteq> c"
  shows "snd (vc_replace opts v c) = c\<lparr>vc_nextSeq := vc_nextSeq c + 1,
      vc_values := AList.update (opt_getId opts v)
        \<lparr>sv_seq = vc_nextSeq c + 1, sv_value = v, sv_fingerprint = opt_fingerprint opts v\<rparr> (vc_values c),
      vc_tombstones := AList.delete (opt_getId opts v) (vc_tombstones c)\<rparr>"
  using assms by (auto simp: vc_replace_def advance_def Let_def split: if_splits)

lemma replace_remembers:
  assumes "remembers c0 c" "coll_ok opts c"
  shows "remembers c0 (snd (vc_replace opts v c))"
proof (cases "snd (vc_replace opts v c) = c")
  case False
  let ?k = "opt_getId opts v"
  let ?sv = "\<lparr>sv_seq = vc_nextSeq c + 1, sv_value = v, sv_fingerprint = opt_fingerprint opts v\<rparr>"
  note eq = replace_changed [OF False]
  have le: "vc_nextSeq c0 \<le> vc_nextSeq c" using assms(1) by (simp add: remembers_def)
  have "knows (vc_nextSeq c0) (map_get (vc_values c0) k) (map_get (AList.update ?k ?sv (vc_values c)) k)
      (map_get (AList.delete ?k (vc_tombstones c)) k) (vc_expiredThroughSeq c)" for k
  proof (cases "k = ?k")
    case True
    with le show ?thesis by (simp add: knows_def get_update)
  next
    case False
    with assms(1) show ?thesis by (simp add: remembers_def get_update get_delete)
  qed
  with le show ?thesis unfolding eq by (simp add: remembers_def)
qed (use assms in simp)

lemma remove_absent: "map_get (vc_values c) k = None \<Longrightarrow> snd (vc_remove opts k c) = c"
  by (auto simp: vc_remove_def Let_def delete_id map_of_eq_None_iff)

lemma remove_present:
  assumes "coll_ok opts c" "map_get (vc_values c) k = Some sv"
  obtains ts e where
    "snd (vc_remove opts k c) = c\<lparr>vc_values := AList.delete k (vc_values c), vc_nextSeq := vc_nextSeq c + 1,
        vc_tombstones := ts, vc_expiredThroughSeq := e\<rparr>"
    "trim_tombstones (opt_maxTombstones opts)
        (AList.update k (vc_nextSeq c + 1) (AList.delete k (vc_tombstones c))) (vc_expiredThroughSeq c) = (ts, e)"
proof -
  obtain ts e where t: "trim_tombstones (opt_maxTombstones opts)
        (AList.update k (vc_nextSeq c + 1) (AList.delete k (vc_tombstones c))) (vc_expiredThroughSeq c) = (ts, e)"
    by fastforce
  show thesis
    by (rule that [OF _ t]) (simp add: vc_remove_def assms(2) advance_def trimTombstones_def t Let_def)
qed

lemma removal_trimmed:
  assumes "coll_ok opts c"
    and "trim_tombstones m (AList.update k (vc_nextSeq c + 1) (AList.delete k (vc_tombstones c)))
           (vc_expiredThroughSeq c) = (ts, e)"
  shows "wf_map ts" "vc_expiredThroughSeq c \<le> e" "e \<le> vc_nextSeq c + 1" "length ts \<le> m"
    and "map_get ts k' = Some s \<Longrightarrow> s \<le> vc_nextSeq c + 1 \<and> (k' = k \<or> map_get (vc_tombstones c) k' = Some s)"
    and "map_get ts k = Some (vc_nextSeq c + 1) \<or> vc_nextSeq c + 1 \<le> e"
    and "k' \<noteq> k \<Longrightarrow> map_get (vc_tombstones c) k' = Some s \<Longrightarrow> map_get ts k' = Some s \<or> s \<le> e"
proof -
  let ?ts = "AList.update k (vc_nextSeq c + 1) (AList.delete k (vc_tombstones c))"
  have wf: "wf_map ?ts" using assms(1) by (simp add: coll_ok_def)
  have le: "s \<le> vc_nextSeq c" if "map_get (vc_tombstones c) k' = Some s" for k' s
    using that assms(1) by (simp add: coll_ok_def)
  note t = trim_facts [OF wf assms(2)]
  have kept: "map_get ts k' = Some s \<Longrightarrow> map_get ?ts k' = Some s"
    and lost: "map_get ?ts k' = Some s \<Longrightarrow> map_get ts k' = Some s \<or> s \<le> e" for k' s
    using t by blast+
  show "wf_map ts" "vc_expiredThroughSeq c \<le> e" "length ts \<le> m" using t by auto
  show "e \<le> vc_nextSeq c + 1"
  proof -
    have "s \<le> vc_nextSeq c + 1" if "(k', s) \<in> set ?ts" for k' s
      using that le [of k' s] by (auto simp: wf_mem_iff [OF wf] get_update get_delete split: if_splits)
    with t assms(1) show ?thesis by (auto simp: coll_ok_def)
  qed
  show "map_get ts k' = Some s \<Longrightarrow> s \<le> vc_nextSeq c + 1 \<and> (k' = k \<or> map_get (vc_tombstones c) k' = Some s)"
    using kept [of k' s] le [of k' s] by (auto simp: get_update get_delete split: if_splits)
  show "map_get ts k = Some (vc_nextSeq c + 1) \<or> vc_nextSeq c + 1 \<le> e"
    "k' \<noteq> k \<Longrightarrow> map_get (vc_tombstones c) k' = Some s \<Longrightarrow> map_get ts k' = Some s \<or> s \<le> e"
    using lost [of k "vc_nextSeq c + 1"] lost [of k' s] by (simp_all add: get_update get_delete)
qed

lemma remove_ok:
  assumes "coll_ok opts c"
  shows "coll_ok opts (snd (vc_remove opts k c))"
proof (cases "map_get (vc_values c) k")
  case (Some sv)
  obtain ts e where eq: "snd (vc_remove opts k c) = c\<lparr>vc_values := AList.delete k (vc_values c),
      vc_nextSeq := vc_nextSeq c + 1, vc_tombstones := ts, vc_expiredThroughSeq := e\<rparr>"
    and t: "trim_tombstones (opt_maxTombstones opts)
        (AList.update k (vc_nextSeq c + 1) (AList.delete k (vc_tombstones c))) (vc_expiredThroughSeq c) = (ts, e)"
    by (rule remove_present [OF assms Some])
  note trimmed = removal_trimmed [OF assms t]
  have "map_get ts k' = None" if "k' \<noteq> k" "map_get (vc_values c) k' = Some sv'" for k' sv'
    using trimmed(5) [of k'] that assms by (fastforce simp: coll_ok_def)
  moreover have "s \<le> vc_nextSeq c + 1" if "map_get ts k' = Some s" for k' s
    using trimmed(5) [OF that] by simp
  ultimately show ?thesis
    using assms trimmed(1,3) unfolding eq
    by (auto simp: coll_ok_def get_delete intro: int_le_add1 split: if_splits)
qed (simp add: remove_absent assms)

lemma remove_remembers:
  assumes "remembers c0 c" "coll_ok opts c"
  shows "remembers c0 (snd (vc_remove opts k c))"
proof (cases "map_get (vc_values c) k")
  case (Some sv)
  obtain ts e where eq: "snd (vc_remove opts k c) = c\<lparr>vc_values := AList.delete k (vc_values c),
      vc_nextSeq := vc_nextSeq c + 1, vc_tombstones := ts, vc_expiredThroughSeq := e\<rparr>"
    and t: "trim_tombstones (opt_maxTombstones opts)
        (AList.update k (vc_nextSeq c + 1) (AList.delete k (vc_tombstones c))) (vc_expiredThroughSeq c) = (ts, e)"
    by (rule remove_present [OF assms(2) Some])
  note trimmed = removal_trimmed [OF assms(2) t]
  have le: "vc_nextSeq c0 \<le> vc_nextSeq c" using assms(1) by (simp add: remembers_def)
  have "knows (vc_nextSeq c0) (map_get (vc_values c0) k') (map_get (AList.delete k (vc_values c)) k')
      (map_get ts k') e" for k'
  proof (cases "k' = k")
    case True
    with trimmed(6) le show ?thesis by (auto simp: get_delete knows_def)
  next
    case False
    have "knows (vc_nextSeq c0) (map_get (vc_values c0) k') (map_get (vc_values c) k')
        (map_get (vc_tombstones c) k') (vc_expiredThroughSeq c)"
      using assms(1) by (simp add: remembers_def)
    from knows_trim [OF this trimmed(2)] trimmed(7) [OF False] False show ?thesis
      by (simp add: get_delete)
  qed
  with le show ?thesis unfolding eq by (simp add: remembers_def)
qed (simp add: remove_absent assms)

section \<open>Runs of a collection\<close>

datatype 'v coll_op = OReplace 'v | ORemove string | OReplaceAll "'v list"

fun coll_step :: "'v VersionedCollectionOptions \<Rightarrow> 'v coll_op \<Rightarrow> 'v VersionedCollection \<Rightarrow> 'v VersionedCollection" where
  "coll_step opts (OReplace v) c = snd (vc_replace opts v c)"
| "coll_step opts (ORemove k) c = snd (vc_remove opts k c)"
| "coll_step opts (OReplaceAll vs) c = replaceAll opts vs c"

text \<open>A property that replacing and removing one entry keep is kept by every operation.\<close>

lemma coll_step_induct:
  assumes "\<And>v c. P c \<Longrightarrow> P (snd (vc_replace opts v c))" "\<And>k c. P c \<Longrightarrow> P (snd (vc_remove opts k c))" "P c"
  shows "P (coll_step opts op c)"
proof (cases op)
  case (OReplaceAll vs)
  have "P (fold (\<lambda>v c. snd (vc_replace opts v c)) vs c)"
    using assms(1,3) by (induction vs arbitrary: c) auto
  moreover have "P c \<Longrightarrow> P (fold (\<lambda>k c. if k \<in> R then c else snd (vc_remove opts k c)) ks c)" for R ks c
    using assms(2) by (induction ks arbitrary: c) auto
  ultimately show ?thesis by (simp add: OReplaceAll replaceAll_def Let_def)
qed (use assms in auto)

lemma coll_run_ok: "coll_ok opts c \<Longrightarrow> coll_ok opts (fold (coll_step opts) ops c)"
proof (induction ops arbitrary: c)
  case (Cons op ops)
  have "coll_ok opts (coll_step opts op c)"
    by (rule coll_step_induct [where P = "coll_ok opts"]) (simp_all add: replace_ok remove_ok Cons.prems)
  with Cons.IH show ?case by simp
qed simp

lemma coll_run_remembers:
  "coll_ok opts c \<Longrightarrow> remembers c0 c \<Longrightarrow> remembers c0 (fold (coll_step opts) ops c)"
proof (induction ops arbitrary: c)
  case (Cons op ops)
  have "coll_ok opts (coll_step opts op c) \<and> remembers c0 (coll_step opts op c)"
    by (rule coll_step_induct [where P = "\<lambda>c. coll_ok opts c \<and> remembers c0 c"])
       (simp_all add: replace_ok remove_ok replace_remembers remove_remembers Cons.prems)
  with Cons.IH show ?case by simp
qed simp

section \<open>A client's replica\<close>

text \<open>What a client that follows the protocol does with an answer: a snapshot replaces its replica, a
  set of changes deletes the removed ids and stores the values under their ids.\<close>

definition contents :: "'v VersionedCollection \<Rightarrow> string \<Rightarrow> (int \<times> 'v) option" where
  "contents c k = map_option (\<lambda>sv. (sv_seq sv, sv_value sv)) (map_get (vc_values c) k)"

definition store_values :: "('v \<Rightarrow> string) \<Rightarrow> (int \<times> 'v) list \<Rightarrow> (string \<Rightarrow> (int \<times> 'v) option) \<Rightarrow> string \<Rightarrow> (int \<times> 'v) option" where
  "store_values getId vs m = fold (\<lambda>x m. m(getId (snd x) := Some x)) vs m"

definition apply_read ::
  "('v \<Rightarrow> string) \<Rightarrow> 'v CollectionRead \<Rightarrow> (string \<Rightarrow> (int \<times> 'v) option) \<Rightarrow> string \<Rightarrow> (int \<times> 'v) option" where
  "apply_read getId read m =
     (case cr_mode read of
        SnapshotMode \<Rightarrow> store_values getId (cr_values read) (\<lambda>_. None)
      | ChangesMode \<Rightarrow> store_values getId (cr_values read)
          (fold (\<lambda>(k, _) m. m(k := None)) (cr_removals read) m))"

lemma store_values_get:
  assumes "\<And>x. x \<in> set vs \<Longrightarrow> f (getId (snd x)) = Some x"
  shows "store_values getId vs m k = (if \<exists>x\<in>set vs. getId (snd x) = k then f k else m k)"
  using assms unfolding store_values_def
  by (induction vs arbitrary: m) auto

lemma removals_get: "fold (\<lambda>(k, _) m. m(k := None)) rs m k = (if k \<in> fst ` set rs then None else m k)"
  by (induction rs arbitrary: m) auto

lemma sorted_contents:
  assumes "coll_ok opts c"
  shows "(s, v) \<in> set (sortedValues c) \<longleftrightarrow> contents c (opt_getId opts v) = Some (s, v)"
proof
  assume "(s, v) \<in> set (sortedValues c)"
  then obtain k sv where "(k, sv) \<in> set (vc_values c)" "s = sv_seq sv" "v = sv_value sv"
    by (auto simp: sortedValues_def)
  with assms show "contents c (opt_getId opts v) = Some (s, v)"
    by (auto simp: coll_ok_def wf_mem_iff contents_def)
next
  assume "contents c (opt_getId opts v) = Some (s, v)"
  then show "(s, v) \<in> set (sortedValues c)"
    by (force simp: sortedValues_def contents_def dest: map_of_mem)
qed

lemma contents_id: "coll_ok opts c \<Longrightarrow> contents c k = Some x \<Longrightarrow> opt_getId opts (snd x) = k"
  by (auto simp: contents_def coll_ok_def)

lemma snapshot_contents:
  assumes "coll_ok opts c"
  shows "apply_read (opt_getId opts) (readSnapshot r c) m = contents c"
proof
  fix k
  have "store_values (opt_getId opts) (sortedValues c) (\<lambda>_. None) k
      = (if \<exists>x\<in>set (sortedValues c). opt_getId opts (snd x) = k then contents c k else None)"
    by (rule store_values_get) (use sorted_contents [OF assms] in auto)
  moreover have "\<exists>x\<in>set (sortedValues c). opt_getId opts (snd x) = k" if "contents c k = Some x" for x
    using that contents_id [OF assms that] sorted_contents [OF assms, of "fst x" "snd x"] by (intro bexI [of _ x]) auto
  ultimately show "apply_read (opt_getId opts) (readSnapshot r c) m k = contents c k"
    by (cases "contents c k") (auto simp: apply_read_def readSnapshot_def)
qed

lemma changes_contents:
  assumes "coll_ok opts c" "remembers c0 c" "vc_expiredThroughSeq c \<le> headSeq c0"
  shows "apply_read (opt_getId opts) (readAfter (headSeq c0) c) (contents c0) = contents c"
proof
  fix k
  let ?n = "headSeq c0"
  let ?new = "filter (\<lambda>(s, v). s > ?n) (sortedValues c)"
  let ?gone = "sort_key snd (filter (\<lambda>(k, s). s > ?n) (vc_tombstones c))"
  have read: "readAfter ?n c = \<lparr>cr_mode = ChangesMode, cr_reason = None, cr_headSeq = headSeq c,
      cr_values = ?new, cr_removals = ?gone\<rparr>"
    using assms(2,3) by (simp add: readAfter_def remembers_def headSeq_def)
  have new: "store_values (opt_getId opts) ?new m k
      = (if \<exists>x\<in>set ?new. opt_getId opts (snd x) = k then contents c k else m k)" for m
    by (rule store_values_get) (use sorted_contents [OF assms(1)] in auto)
  have in_new: "(\<exists>x\<in>set ?new. opt_getId opts (snd x) = k) \<longleftrightarrow> (\<exists>x. contents c k = Some x \<and> ?n < fst x)"
  proof
    assume "\<exists>x\<in>set ?new. opt_getId opts (snd x) = k"
    then show "\<exists>x. contents c k = Some x \<and> ?n < fst x"
      using sorted_contents [OF assms(1)] by auto
  next
    assume "\<exists>x. contents c k = Some x \<and> ?n < fst x"
    then obtain x where x: "contents c k = Some x" "?n < fst x" by auto
    with contents_id [OF assms(1) x(1)] sorted_contents [OF assms(1), of "fst x" "snd x"]
    show "\<exists>x\<in>set ?new. opt_getId opts (snd x) = k" by (intro bexI [of _ x]) (auto simp: case_prod_beta)
  qed
  have in_gone: "k \<in> fst ` set ?gone \<longleftrightarrow> (\<exists>s. map_get (vc_tombstones c) k = Some s \<and> ?n < s)"
    using assms(1) by (force simp: coll_ok_def wf_mem_iff)
  have kn: "knows ?n (map_get (vc_values c0) k) (map_get (vc_values c) k)
      (map_get (vc_tombstones c) k) (vc_expiredThroughSeq c)"
    using assms(2) by (simp add: remembers_def headSeq_def)
  have "apply_read (opt_getId opts) (readAfter ?n c) (contents c0) k
      = store_values (opt_getId opts) ?new (fold (\<lambda>(k, _) m. m(k := None)) ?gone (contents c0)) k"
    by (simp add: read apply_read_def)
  also have "\<dots> = (if \<exists>x. contents c k = Some x \<and> ?n < fst x then contents c k
         else if \<exists>s. map_get (vc_tombstones c) k = Some s \<and> ?n < s then None else contents c0 k)"
    unfolding new in_new removals_get in_gone by (rule refl)
  also have "\<dots> = contents c k"
    using kn assms(1,3) by (cases "map_get (vc_values c) k") (auto simp: knows_def contents_def coll_ok_def)
  finally show "apply_read (opt_getId opts) (readAfter ?n c) (contents c0) k = contents c k" .
qed

lemma read_converges:
  assumes "coll_ok opts c0" "c1 = fold (coll_step opts) ops c0"
  shows "apply_read (opt_getId opts)
      (directory_read g c1 \<lparr>dc_generation = Some g, dc_afterSeq = Some (headSeq c0)\<rparr>) (contents c0) = contents c1"
proof -
  have ok: "coll_ok opts c1" using assms by (simp add: coll_run_ok)
  have rem: "remembers c0 c1" using assms by (simp add: coll_run_remembers remembers_refl)
  show ?thesis
  proof (cases "vc_expiredThroughSeq c1 \<le> headSeq c0")
    case True
    from changes_contents [OF ok rem this] show ?thesis by (simp add: directory_read_def)
  next
    case False
    then show ?thesis by (simp add: directory_read_def readAfter_def snapshot_contents [OF ok])
  qed
qed

definition numbers_inj :: "'v VersionedCollection \<Rightarrow> bool" where
  "numbers_inj c = (\<forall>k k' s. sequenceFor c k = Some s \<longrightarrow> sequenceFor c k' = Some s \<longrightarrow> k = k')"

lemma sequenceFor_le: "coll_ok opts c \<Longrightarrow> sequenceFor c k = Some s \<Longrightarrow> s \<le> vc_nextSeq c"
  by (auto simp: sequenceFor_def coll_ok_def split: option.splits)

lemma numbers_inj_step:
  assumes "coll_ok opts c" "numbers_inj c"
    and "\<And>k' s. sequenceFor c' k' = Some s \<Longrightarrow> (k' = k \<and> s = vc_nextSeq c + 1) \<or> (k' \<noteq> k \<and> sequenceFor c k' = Some s)"
  shows "numbers_inj c'"
proof (unfold numbers_inj_def, intro allI impI)
  fix k1 k2 s
  assume "sequenceFor c' k1 = Some s" "sequenceFor c' k2 = Some s"
  then show "k1 = k2"
    using assms(3) [of k1 s] assms(3) [of k2 s] assms(2) sequenceFor_le [OF assms(1), of k1 s]
      sequenceFor_le [OF assms(1), of k2 s]
    by (auto simp: numbers_inj_def)
qed

lemma replace_inj:
  assumes "coll_ok opts c" "numbers_inj c"
  shows "numbers_inj (snd (vc_replace opts v c))"
proof (cases "snd (vc_replace opts v c) = c")
  case False
  show ?thesis
    unfolding replace_changed [OF False]
    by (intro numbers_inj_step [OF assms, where k = "opt_getId opts v"])
       (auto simp: sequenceFor_def get_update get_delete split: if_splits option.splits)
qed (use assms in simp)

lemma remove_inj:
  assumes "coll_ok opts c" "numbers_inj c"
  shows "numbers_inj (snd (vc_remove opts k c))"
proof (cases "map_get (vc_values c) k")
  case (Some sv)
  obtain ts e where eq: "snd (vc_remove opts k c) = c\<lparr>vc_values := AList.delete k (vc_values c),
      vc_nextSeq := vc_nextSeq c + 1, vc_tombstones := ts, vc_expiredThroughSeq := e\<rparr>"
    and t: "trim_tombstones (opt_maxTombstones opts)
        (AList.update k (vc_nextSeq c + 1) (AList.delete k (vc_tombstones c))) (vc_expiredThroughSeq c) = (ts, e)"
    by (rule remove_present [OF assms(1) Some])
  have "map_get ts k' = Some s \<Longrightarrow> map_get (AList.update k (vc_nextSeq c + 1) (AList.delete k (vc_tombstones c))) k' = Some s"
    for k' s
    using trim_facts [OF _ t] assms(1) by (auto simp: coll_ok_def)
  then show ?thesis
    unfolding eq
    by (intro numbers_inj_step [OF assms, where k = k])
       (fastforce simp: sequenceFor_def get_delete get_update split: option.splits if_splits)
qed (simp add: remove_absent assms)

text \<open>No two entries or removals share a number, so sorting by the number alone is the order of the
  source.\<close>

lemma numbers_distinct:
  assumes "sequenceFor (fold (coll_step opts) ops new_collection) k = Some s"
    and "sequenceFor (fold (coll_step opts) ops new_collection) k' = Some s"
  shows "k = k'"
proof -
  have "coll_ok opts (coll_step opts op c) \<and> numbers_inj (coll_step opts op c)"
    if "coll_ok opts c \<and> numbers_inj c" for op c
    by (rule coll_step_induct [where P = "\<lambda>c. coll_ok opts c \<and> numbers_inj c"])
       (simp_all add: replace_ok remove_ok replace_inj remove_inj that)
  then have "coll_ok opts c \<and> numbers_inj c \<Longrightarrow> numbers_inj (fold (coll_step opts) ops c)" for c
    by (induction ops arbitrary: c) simp_all
  moreover have "numbers_inj (new_collection :: 'a VersionedCollection)"
    by (simp add: numbers_inj_def sequenceFor_def new_collection_def)
  ultimately have "numbers_inj (fold (coll_step opts) ops new_collection)"
    by (simp add: new_collection_ok)
  with assms show ?thesis by (auto simp: numbers_inj_def)
qed

text \<open>A cursor of this generation at the collection's head, and one without a generation.\<close>

definition cursor_at :: "string \<Rightarrow> 'v VersionedCollection \<Rightarrow> DirectorySyncCursor" where
  "cursor_at g c = \<lparr>dc_generation = Some g, dc_afterSeq = Some (headSeq c)\<rparr>"

lemma sync_collection:
  assumes "coll_ok opts c0" "c1 = fold (coll_step opts) ops c0"
  shows "apply_read (opt_getId opts) (directory_read g c1 (cursor_at g c0)) (contents c0) = contents c1
    \<and> cr_headSeq (directory_read g c1 (cursor_at g c0)) = headSeq c1"
proof -
  have "cr_headSeq (directory_read g c1 cursor) = headSeq c1" for cursor
    by (auto simp: directory_read_def readSnapshot_def readAfter_def split: option.splits)
  with read_converges [OF assms] show ?thesis by (simp add: cursor_at_def)
qed

section \<open>Runs of the service\<close>

datatype ('p, 'w, 'a) dir_op =
    SyncProjects "'p list" DirectorySyncCursor
  | SyncWorkspaces "'w list" DirectorySyncCursor
  | SyncAgents "'a list" DirectorySyncCursor
  | UpdateProject "'p option" string bool
  | UpdateWorkspace "'w option" string bool
  | UpdateAgent "'a option" string bool

fun dir_step :: "('p, 'w, 'a) directory_ids \<Rightarrow> ('p, 'w, 'a) dir_op \<Rightarrow> ('p, 'w, 'a) DirectorySyncService
     \<Rightarrow> ('p, 'w, 'a) DirectorySyncService" where
  "dir_step ids (SyncProjects vs cu) d = snd (synchronizeProjects ids vs cu d)"
| "dir_step ids (SyncWorkspaces vs cu) d = snd (synchronizeWorkspaces ids vs cu d)"
| "dir_step ids (SyncAgents vs cu) d = snd (synchronizeAgents ids vs cu d)"
| "dir_step ids (UpdateProject v k b) d = snd (sequenceProjectUpdate ids v k b d)"
| "dir_step ids (UpdateWorkspace v k b) d = snd (sequenceWorkspaceUpdate ids v k b d)"
| "dir_step ids (UpdateAgent v k b) d = snd (sequenceAgentUpdate ids v k b d)"

definition update_op :: "'v option \<Rightarrow> string \<Rightarrow> 'v coll_op" where
  "update_op v k = (case v of Some v \<Rightarrow> OReplace v | None \<Rightarrow> ORemove k)"

lemma apply_update_step: "apply_update opts v k c = coll_step opts (update_op v k) c"
  by (simp add: apply_update_def update_op_def split: option.splits)

text \<open>Each collection of the service runs by itself.\<close>

lemmas dir_step_defs = synchronizeProjects_def synchronizeWorkspaces_def synchronizeAgents_def
  sequenceProjectUpdate_def sequenceWorkspaceUpdate_def sequenceAgentUpdate_def apply_update_step Let_def

lemma dir_step_projects: "\<exists>ops. ds_projects (dir_step ids op d) = fold (coll_step (di_projects ids)) ops (ds_projects d)"
proof (cases op)
  case (SyncProjects vs cu)
  then show ?thesis by (intro exI [of _ "[OReplaceAll vs]"]) (simp add: dir_step_defs)
next
  case (UpdateProject v k b)
  then show ?thesis by (intro exI [of _ "[update_op v k]"]) (simp add: dir_step_defs)
qed (auto simp: dir_step_defs intro: exI [of _ "[]"])

lemma dir_step_workspaces: "\<exists>ops. ds_workspaces (dir_step ids op d) = fold (coll_step (di_workspaces ids)) ops (ds_workspaces d)"
proof (cases op)
  case (SyncWorkspaces vs cu)
  then show ?thesis by (intro exI [of _ "[OReplaceAll vs]"]) (simp add: dir_step_defs)
next
  case (UpdateWorkspace v k b)
  then show ?thesis by (intro exI [of _ "[update_op v k]"]) (simp add: dir_step_defs)
qed (auto simp: dir_step_defs intro: exI [of _ "[]"])

lemma dir_step_agents: "\<exists>ops. ds_agents (dir_step ids op d) = fold (coll_step (di_agents ids)) ops (ds_agents d)"
proof (cases op)
  case (SyncAgents vs cu)
  then show ?thesis by (intro exI [of _ "[OReplaceAll vs]"]) (simp add: dir_step_defs)
next
  case (UpdateAgent v k b)
  then show ?thesis by (intro exI [of _ "[update_op v k]"]) (simp add: dir_step_defs)
qed (auto simp: dir_step_defs intro: exI [of _ "[]"])

lemma step_run:
  assumes "\<And>op d. \<exists>ops. f (step op d) = fold (coll_step opts) ops (f d)"
  shows "\<exists>ops. f (fold step dops d) = fold (coll_step opts) ops (f d)"
proof (induction dops arbitrary: d)
  case (Cons op dops)
  obtain ops1 where "f (step op d) = fold (coll_step opts) ops1 (f d)" using assms by blast
  moreover obtain ops2 where "f (fold step dops (step op d)) = fold (coll_step opts) ops2 (f (step op d))"
    using Cons.IH by blast
  ultimately show ?case by (intro exI [of _ "ops1 @ ops2"]) simp
qed (intro exI [of _ "[]"], simp)

lemma dir_run_generation: "ds_generation (fold (dir_step ids) ops d) = ds_generation d"
proof (induction ops arbitrary: d)
  case (Cons op ops)
  have "ds_generation (dir_step ids op d) = ds_generation d" by (cases op) (simp_all add: dir_step_defs)
  with Cons show ?case by simp
qed simp

lemma collection_converges:
  assumes "\<And>op d. \<exists>ops. f (step op d) = fold (coll_step opts) ops (f d)" "coll_ok opts (f d)"
    and "d0 = fold step before d" "d1 = fold step since d0"
  shows "apply_read (opt_getId opts) (directory_read g (f d1) (cursor_at g (f d0))) (contents (f d0)) = contents (f d1)
    \<and> cr_headSeq (directory_read g (f d1) (cursor_at g (f d0))) = headSeq (f d1)"
proof -
  obtain ops0 where d0: "f d0 = fold (coll_step opts) ops0 (f d)" using step_run [where f = f and step = step and opts = opts, OF assms(1)] assms(3) by blast
  obtain ops1 where d1: "f d1 = fold (coll_step opts) ops1 (f d0)" using step_run [where f = f and step = step and opts = opts, OF assms(1)] assms(4) by blast
  have "coll_ok opts (f d0)" by (simp add: d0 coll_run_ok assms(2))
  from sync_collection [OF this d1] show ?thesis .
qed

text \<open>C21. A client whose replica of the projects, the workspaces or the agents was the daemon's at its
  cursor, and that applies the daemon's answer to that cursor, has exactly the daemon's
  collection of now and a cursor at its head, whatever was replaced, removed or reloaded in
  between and whether the daemon answers with changes or, after forgetting removals, with a
  snapshot. A client without a cursor gets the same, whatever its replica was.\<close>

theorem directory_converges:
  assumes "d0 = fold (dir_step ids) before (createDirectory g)" "d1 = fold (dir_step ids) since d0"
  shows "apply_read (opt_getId (di_projects ids))
           (directory_read (ds_generation d1) (ds_projects d1) (cursor_at g (ds_projects d0)))
           (contents (ds_projects d0)) = contents (ds_projects d1)
       \<and> apply_read (opt_getId (di_workspaces ids))
           (directory_read (ds_generation d1) (ds_workspaces d1) (cursor_at g (ds_workspaces d0)))
           (contents (ds_workspaces d0)) = contents (ds_workspaces d1)
       \<and> apply_read (opt_getId (di_agents ids))
           (directory_read (ds_generation d1) (ds_agents d1) (cursor_at g (ds_agents d0)))
           (contents (ds_agents d0)) = contents (ds_agents d1)
       \<and> cr_headSeq (directory_read (ds_generation d1) (ds_agents d1) (cursor_at g (ds_agents d0)))
           = headSeq (ds_agents d1)"
proof -
  have g: "ds_generation d1 = g"
    using assms by (simp add: dir_run_generation createDirectory_def)
  have new: "ds_projects (createDirectory g) = new_collection" "ds_workspaces (createDirectory g) = new_collection"
    "ds_agents (createDirectory g) = new_collection" by (simp_all add: createDirectory_def)
  from collection_converges [where f = ds_projects and g = g, OF dir_step_projects _ assms]
    collection_converges [where f = ds_workspaces and g = g, OF dir_step_workspaces _ assms]
    collection_converges [where f = ds_agents and g = g, OF dir_step_agents _ assms]
  show ?thesis by (simp add: g new new_collection_ok)
qed

definition sample_opts :: "(string \<times> string) VersionedCollectionOptions" where
  "sample_opts = \<lparr>opt_getId = fst, opt_fingerprint = snd, opt_maxTombstones = 1\<rparr>"

definition sample_ids :: "(string \<times> string, string \<times> string, string \<times> string) directory_ids" where
  "sample_ids = \<lparr>di_projects = sample_opts, di_workspaces = sample_opts, di_agents = sample_opts\<rparr>"

theorem directory_converges_witness:
  "apply_read fst
     (directory_read ''g'' (ds_projects (fold (dir_step sample_ids) [UpdateProject None ''a'' True]
          (fold (dir_step sample_ids) [UpdateProject (Some (''a'', ''1'')) ''a'' True] (createDirectory ''g''))))
        \<lparr>dc_generation = Some ''g'', dc_afterSeq = Some 1\<rparr>)
     (\<lambda>k. if k = ''a'' then Some (1, (''a'', ''1'')) else None) ''a'' = None"
  using directory_converges [of _ sample_ids "[UpdateProject (Some (''a'', ''1'')) ''a'' True]" "''g''" _
      "[UpdateProject None ''a'' True]", OF refl refl]
  by (auto simp: sample_ids_def sample_opts_def dir_step_defs update_op_def vc_replace_def vc_remove_def
      advance_def createDirectory_def new_collection_def trimTombstones_def contents_def cursor_at_def
      headSeq_def directory_read_def readAfter_def apply_read_def store_values_def sortedValues_def)

end
