(* ===== verification/WorkspaceLabels.thy ===== *)
theory WorkspaceLabels
  imports JsArray JsString
begin

text \<open>
  Workspace labels (\<open>server/workspace-labels/\<close> and \<open>protocol/src/workspace-labels.ts\<close>): the host's
  catalog of labels, their assignment to workspaces, and the journal from which a client that was
  away catches up.

  A commit of the catalog store either throws or installs the planned catalog and workspaces at
  once; its write-ahead file is not modelled. The loops that look an object up and then compare
  by identity are a position in the list.
\<close>

section \<open>Names\<close>

function squeeze :: "string \<Rightarrow> string" where
  "squeeze [] = []"
| "squeeze (c # s) = (if is_space c then CHR '' '' # squeeze (dropWhile is_space s) else c # squeeze s)"
  by pat_completeness auto
termination
  by (relation "measure length") (auto simp: le_imp_less_Suc length_dropWhile_le)

definition normalizeWorkspaceLabelName :: "string \<Rightarrow> string" where
  "normalizeWorkspaceLabelName name = js_trim (squeeze name)"

definition workspaceLabelKey :: "string \<Rightarrow> string" where
  "workspaceLabelKey name = toLowerCase (normalizeWorkspaceLabelName name)"

record WorkspaceLabelDefinition =
  lb_name :: string
  lb_color :: string

datatype label_error = LabelNameEmpty | LabelNotFound | LabelNameTaken | WorkspaceNotFound

definition requireName :: "string \<Rightarrow> label_error + string" where
  "requireName raw =
     (let name = normalizeWorkspaceLabelName raw
      in if name = [] then Inl LabelNameEmpty else Inr name)"

section \<open>The journal\<close>

datatype WorkspaceLabelChange =
    LabelUpsert WorkspaceLabelDefinition "string option"
  | LabelRemove string

record WorkspaceLabelSequence =
  sq_generation :: string
  sq_headSeq :: int
  sq_journal :: "(int \<times> WorkspaceLabelChange) list"
  sq_journalLimit :: nat

record WorkspaceLabelCursor =
  lc_generation :: string
  lc_afterSeq :: int

record WorkspaceLabelSync =
  sy_labels :: "WorkspaceLabelDefinition list"
  sy_snapshot :: bool
  sy_generation :: string
  sy_headSeq :: int
  sy_removals :: "(string \<times> int) list"

definition new_sequence :: "string \<Rightarrow> nat \<Rightarrow> WorkspaceLabelSequence" where
  "new_sequence generation limit = \<lparr>sq_generation = generation, sq_headSeq = 0, sq_journal = [],
     sq_journalLimit = limit\<rparr>"

definition DEFAULT_JOURNAL_LIMIT :: nat where
  "DEFAULT_JOURNAL_LIMIT = 256"

definition label_publish :: "WorkspaceLabelChange \<Rightarrow> WorkspaceLabelSequence \<Rightarrow> WorkspaceLabelSequence" where
  "label_publish change s =
     (let seq = sq_headSeq s + 1;
          journal = sq_journal s @ [(seq, change)]
      in s\<lparr>sq_headSeq := seq,
           sq_journal := (if length journal > sq_journalLimit s then tl journal else journal)\<rparr>)"

type_synonym catch_up =
  "(string, WorkspaceLabelDefinition) js_map \<times> (string, string \<times> int) js_map"

text \<open>A key that leaves the catalog: an upsert collected so far is taken back, otherwise the removal is
  recorded.\<close>

definition catch_up_remove :: "string \<Rightarrow> int \<Rightarrow> catch_up \<Rightarrow> catch_up" where
  "catch_up_remove name seq = (\<lambda>(upserts, removals).
     let key = toLowerCase name;
         wasCreatedDuringCatchUp = map_has upserts key
     in (AList.delete key upserts,
         if wasCreatedDuringCatchUp then removals else AList.update key (name, seq) removals))"

fun catch_up_step :: "int \<times> WorkspaceLabelChange \<Rightarrow> catch_up \<Rightarrow> catch_up" where
  "catch_up_step (seq, LabelRemove name) acc = catch_up_remove name seq acc"
| "catch_up_step (seq, LabelUpsert label previousName) acc =
     (case (case truthy previousName of Some p \<Rightarrow> catch_up_remove p seq acc | None \<Rightarrow> acc) of
        (upserts, removals) \<Rightarrow>
          (AList.update (toLowerCase (lb_name label)) label upserts,
           AList.delete (toLowerCase (lb_name label)) removals))"

definition label_synchronize ::
  "WorkspaceLabelDefinition list \<Rightarrow> WorkspaceLabelCursor option \<Rightarrow> WorkspaceLabelSequence \<Rightarrow> WorkspaceLabelSync" where
  "label_synchronize catalog cursor s =
     (let oldestSeq = (case head_opt (sq_journal s) of Some e \<Rightarrow> fst e | None \<Rightarrow> sq_headSeq s + 1);
          canCatchUp = (case cursor of
              None \<Rightarrow> False
            | Some c \<Rightarrow> lc_generation c = sq_generation s \<and> lc_afterSeq c \<le> sq_headSeq s
                \<and> lc_afterSeq c \<ge> oldestSeq - 1)
      in if \<not> canCatchUp then
           \<lparr>sy_labels = catalog, sy_snapshot = True, sy_generation = sq_generation s,
            sy_headSeq = sq_headSeq s, sy_removals = []\<rparr>
         else
           let changes = filter (\<lambda>e. fst e > (case cursor of Some c \<Rightarrow> lc_afterSeq c | None \<Rightarrow> 0)) (sq_journal s)
           in case fold catch_up_step changes ([], []) of (upserts, removals) \<Rightarrow>
                \<lparr>sy_labels = map snd upserts, sy_snapshot = False, sy_generation = sq_generation s,
                 sy_headSeq = sq_headSeq s, sy_removals = map snd removals\<rparr>)"

section \<open>The service\<close>

record labelled_workspace =
  lw_labels :: "string list option"
  lw_archived :: bool
  lw_updatedAt :: string

record label_state =
  ls_catalog :: "WorkspaceLabelDefinition list"
  ls_workspaces :: "(string, labelled_workspace) js_map"
  ls_sequence :: WorkspaceLabelSequence

definition current_labels :: "labelled_workspace \<Rightarrow> string list" where
  "current_labels w = (case lw_labels w of Some ls \<Rightarrow> ls | None \<Rightarrow> [])"

text \<open>\<open>None\<close> is the unchanged list itself, which the caller compares by identity.\<close>

definition updateAssignmentLabels :: "string list \<Rightarrow> string \<Rightarrow> string \<Rightarrow> bool \<Rightarrow> string list option" where
  "updateAssignmentLabels current key displayName assigned =
     (case find_index (\<lambda>label. workspaceLabelKey label = key) current of
        None \<Rightarrow> if assigned then Some (current @ [displayName]) else None
      | Some i \<Rightarrow> if assigned then None else Some (take i current @ drop (Suc i) current))"

definition workspaceHasLabel :: "labelled_workspace \<Rightarrow> string \<Rightarrow> bool" where
  "workspaceHasLabel w key = list_ex (\<lambda>label. workspaceLabelKey label = key) (current_labels w)"

definition non_empty :: "string list \<Rightarrow> string list option" where
  "non_empty ls = (if ls = [] then None else Some ls)"

definition rewriteAssignments ::
  "(string, labelled_workspace) js_map \<Rightarrow> string \<Rightarrow> string option \<Rightarrow> string \<Rightarrow> (string, labelled_workspace) js_map" where
  "rewriteAssignments ws fromKey to now =
     concat (map (\<lambda>(k, w).
       if \<not> workspaceHasLabel w fromKey then []
       else [(k, w\<lparr>lw_labels := non_empty (concat (map (\<lambda>label.
                      if workspaceLabelKey label \<noteq> fromKey then [label]
                      else (case truthy to of Some t \<Rightarrow> [t] | None \<Rightarrow> [])) (current_labels w))),
                   lw_updatedAt := now\<rparr>)]) ws)"

definition apply_updates ::
  "(string, labelled_workspace) js_map \<Rightarrow> (string, labelled_workspace) js_map \<Rightarrow> (string, labelled_workspace) js_map" where
  "apply_updates updates ws = fold (\<lambda>(k, w) m. AList.update k w m) updates ws"

definition find_label :: "string \<Rightarrow> WorkspaceLabelDefinition list \<Rightarrow> nat option" where
  "find_label key catalog = find_index (\<lambda>label. workspaceLabelKey (lb_name label) = key) catalog"

record 'r WorkspaceLabelMutation =
  mu_labels :: "WorkspaceLabelDefinition list"
  mu_updates :: "(string, labelled_workspace) js_map"
  mu_result :: 'r

type_synonym 'r planner =
  "WorkspaceLabelDefinition list \<Rightarrow> (string, labelled_workspace) js_map \<Rightarrow> label_error + 'r WorkspaceLabelMutation"

record AssignmentCommit =
  ac_definition :: WorkspaceLabelDefinition
  ac_workspaceLabels :: "string list"
  ac_catalogChanged :: bool

record UpdateCommit =
  uc_label :: WorkspaceLabelDefinition
  uc_affectedWorkspaceCount :: nat
  uc_changed :: bool
  uc_previousName :: "string option"

record DeleteCommit =
  dc_affectedWorkspaceCount :: nat
  dc_deletedName :: "string option"

definition plan_assignment :: "string \<Rightarrow> string \<Rightarrow> string \<Rightarrow> bool \<Rightarrow> string \<Rightarrow> AssignmentCommit planner" where
  "plan_assignment workspaceId name color assigned now catalog workspaces =
     (case map_get workspaces workspaceId of
        None \<Rightarrow> Inl WorkspaceNotFound
      | Some w \<Rightarrow>
          if lw_archived w then Inl WorkspaceNotFound
          else
            let key = workspaceLabelKey name;
                existing = find_label key catalog;
                definition = (case existing of Some i \<Rightarrow> catalog ! i
                              | None \<Rightarrow> \<lparr>lb_name = name, lb_color = color\<rparr>);
                current = current_labels w;
                changed = updateAssignmentLabels current key (lb_name definition) assigned;
                workspaceLabels = (case changed of Some ls \<Rightarrow> ls | None \<Rightarrow> current);
                catalogChanged = (existing = None \<and> assigned)
            in Inr \<lparr>mu_labels = (if catalogChanged then catalog @ [definition] else catalog),
                    mu_updates = (if changed \<noteq> None then
                       [(workspaceId, w\<lparr>lw_labels := non_empty workspaceLabels, lw_updatedAt := now\<rparr>)] else []),
                    mu_result = \<lparr>ac_definition = definition, ac_workspaceLabels = workspaceLabels,
                       ac_catalogChanged = catalogChanged\<rparr>\<rparr>)"

definition plan_update :: "string \<Rightarrow> string option \<Rightarrow> string option \<Rightarrow> string \<Rightarrow> UpdateCommit planner" where
  "plan_update fromKey newName color now catalog workspaces =
     (case find_label fromKey catalog of
        None \<Rightarrow> Inl LabelNotFound
      | Some i \<Rightarrow>
          let existing = catalog ! i
          in if (case newName of None \<Rightarrow> False
                 | Some n \<Rightarrow> workspaceLabelKey n \<noteq> fromKey \<and> find_label (workspaceLabelKey n) catalog \<noteq> None)
             then Inl LabelNameTaken
             else
               let nameChanged = (newName \<noteq> None \<and> newName \<noteq> Some (lb_name existing));
                   colorChanged = (color \<noteq> None \<and> color \<noteq> Some (lb_color existing))
               in if \<not> nameChanged \<and> \<not> colorChanged then
                    Inr \<lparr>mu_labels = catalog, mu_updates = [],
                         mu_result = \<lparr>uc_label = existing, uc_affectedWorkspaceCount = 0, uc_changed = False,
                           uc_previousName = None\<rparr>\<rparr>
                  else
                    let label = \<lparr>lb_name = (case newName of Some n \<Rightarrow> if nameChanged then n else lb_name existing
                                              | None \<Rightarrow> lb_name existing),
                                 lb_color = (case color of Some c \<Rightarrow> c | None \<Rightarrow> lb_color existing)\<rparr>;
                        updates = (if nameChanged then rewriteAssignments workspaces fromKey (Some (lb_name label)) now
                                   else [])
                    in Inr \<lparr>mu_labels = catalog[i := label], mu_updates = updates,
                            mu_result = \<lparr>uc_label = label, uc_affectedWorkspaceCount = length updates,
                              uc_changed = True,
                              uc_previousName = (if nameChanged then Some (lb_name existing) else None)\<rparr>\<rparr>)"

definition plan_delete :: "string \<Rightarrow> string \<Rightarrow> DeleteCommit planner" where
  "plan_delete key now catalog workspaces =
     (case find_label key catalog of
        None \<Rightarrow> Inr \<lparr>mu_labels = catalog, mu_updates = [],
                   mu_result = \<lparr>dc_affectedWorkspaceCount = 0, dc_deletedName = None\<rparr>\<rparr>
      | Some i \<Rightarrow>
          let updates = rewriteAssignments workspaces key None now
          in Inr \<lparr>mu_labels = take i catalog @ drop (Suc i) catalog, mu_updates = updates,
                  mu_result = \<lparr>dc_affectedWorkspaceCount = length updates,
                    dc_deletedName = Some (lb_name (catalog ! i))\<rparr>\<rparr>)"

definition plan_count :: "string \<Rightarrow> nat planner" where
  "plan_count key catalog workspaces =
     Inr \<lparr>mu_labels = catalog, mu_updates = [],
          mu_result = length (filter (\<lambda>(k, w). workspaceHasLabel w key) workspaces)\<rparr>"

text \<open>A commit that succeeds: what the store promises the service.\<close>

definition catalog_commit :: "'r planner \<Rightarrow> label_state \<Rightarrow> label_error + ('r \<times> label_state)" where
  "catalog_commit planner s =
     map_sum id (\<lambda>m. (mu_result m, s\<lparr>ls_catalog := mu_labels m,
         ls_workspaces := apply_updates (mu_updates m) (ls_workspaces s)\<rparr>))
       (planner (ls_catalog s) (ls_workspaces s))"

definition publishing :: "WorkspaceLabelChange \<Rightarrow> label_state \<Rightarrow> label_state" where
  "publishing change s = s\<lparr>ls_sequence := label_publish change (ls_sequence s)\<rparr>"

definition setAssignment ::
  "string \<Rightarrow> WorkspaceLabelDefinition \<Rightarrow> bool \<Rightarrow> string \<Rightarrow> label_state
     \<Rightarrow> label_error + ((WorkspaceLabelDefinition \<times> string list) \<times> label_state)" where
  "setAssignment workspaceId label assigned now s =
     sum_bind (requireName (lb_name label)) (\<lambda>name.
     sum_bind (catalog_commit (plan_assignment workspaceId name (lb_color label) assigned now) s) (\<lambda>(c, s').
       Inr ((ac_definition c, ac_workspaceLabels c),
            if ac_catalogChanged c then publishing (LabelUpsert (ac_definition c) None) s' else s')))"

definition label_update ::
  "string \<Rightarrow> string option \<Rightarrow> string option \<Rightarrow> string \<Rightarrow> label_state
     \<Rightarrow> label_error + ((WorkspaceLabelDefinition \<times> nat) \<times> label_state)" where
  "label_update name newName color now s =
     sum_bind (requireName name) (\<lambda>from.
     sum_bind (case newName of None \<Rightarrow> Inr None | Some n \<Rightarrow> map_sum id Some (requireName n)) (\<lambda>new.
     sum_bind (catalog_commit (plan_update (workspaceLabelKey from) new color now) s) (\<lambda>(c, s').
       Inr ((uc_label c, uc_affectedWorkspaceCount c),
            if uc_changed c then publishing (LabelUpsert (uc_label c) (uc_previousName c)) s' else s'))))"

definition label_delete :: "string \<Rightarrow> string \<Rightarrow> label_state \<Rightarrow> label_error + (nat \<times> label_state)" where
  "label_delete nameInput now s =
     sum_bind (requireName nameInput) (\<lambda>name.
     sum_bind (catalog_commit (plan_delete (workspaceLabelKey name) now) s) (\<lambda>(c, s').
       Inr (dc_affectedWorkspaceCount c,
            case truthy (dc_deletedName c) of Some n \<Rightarrow> publishing (LabelRemove n) s' | None \<Rightarrow> s')))"

definition countAffectedWorkspaces :: "string \<Rightarrow> label_state \<Rightarrow> label_error + (nat \<times> label_state)" where
  "countAffectedWorkspaces nameInput s =
     sum_bind (requireName nameInput) (\<lambda>name. catalog_commit (plan_count (workspaceLabelKey name)) s)"

section \<open>A client's view of the catalog\<close>

type_synonym label_view = "string \<Rightarrow> WorkspaceLabelDefinition option"

definition store_labels :: "WorkspaceLabelDefinition list \<Rightarrow> label_view \<Rightarrow> label_view" where
  "store_labels labels m = fold (\<lambda>l m. m(toLowerCase (lb_name l) := Some l)) labels m"

text \<open>What one change does to the catalog, by key, and what a client does with an answer.\<close>

fun apply_change :: "WorkspaceLabelChange \<Rightarrow> label_view \<Rightarrow> label_view" where
  "apply_change (LabelRemove name) m = m(toLowerCase name := None)"
| "apply_change (LabelUpsert label previousName) m =
     (case truthy previousName of Some p \<Rightarrow> m(toLowerCase p := None) | None \<Rightarrow> m)
       (toLowerCase (lb_name label) := Some label)"

definition apply_label_sync :: "WorkspaceLabelSync \<Rightarrow> label_view \<Rightarrow> label_view" where
  "apply_label_sync sync m =
     (if sy_snapshot sync then store_labels (sy_labels sync) (\<lambda>_. None)
      else store_labels (sy_labels sync)
             (fold (\<lambda>(n, _) m. m(toLowerCase n := None)) (sy_removals sync) m))"

text \<open>The keys a change takes out of the catalog and the one it puts in; a sequence of changes is
  \<open>clean\<close> for a client if no label the client has is edited and later removed or renamed.\<close>

fun leaving :: "WorkspaceLabelChange \<Rightarrow> string list" where
  "leaving (LabelRemove name) = [toLowerCase name]"
| "leaving (LabelUpsert label previousName) =
     (case truthy previousName of
        Some p \<Rightarrow> if toLowerCase p = toLowerCase (lb_name label) then [] else [toLowerCase p]
      | None \<Rightarrow> [])"

fun entering :: "WorkspaceLabelChange \<Rightarrow> string list" where
  "entering (LabelRemove name) = []"
| "entering (LabelUpsert label previousName) = [toLowerCase (lb_name label)]"

fun clean :: "label_view \<Rightarrow> string list \<Rightarrow> WorkspaceLabelChange list \<Rightarrow> bool" where
  "clean m seen [] = True"
| "clean m seen (ch # chs) =
     ((\<forall>k\<in>set (leaving ch). k \<in> set seen \<longrightarrow> m k = None) \<and> clean m (entering ch @ seen) chs)"

section \<open>Catching up\<close>

definition key_ok :: "label_view \<Rightarrow> label_view \<Rightarrow> catch_up \<Rightarrow> string \<Rightarrow> bool" where
  "key_ok m0 m acc k = (case map_get (fst acc) k of
       Some l \<Rightarrow> m k = Some l \<and> map_get (snd acc) k = None
     | None \<Rightarrow> m k = (if map_get (snd acc) k = None then m0 k else None))"

definition acc_ok :: "catch_up \<Rightarrow> string list \<Rightarrow> bool" where
  "acc_ok acc seen = (wf_map (fst acc) \<and> wf_map (snd acc)
     \<and> (\<forall>k l. map_get (fst acc) k = Some l \<longrightarrow> k = toLowerCase (lb_name l) \<and> k \<in> set seen)
     \<and> (\<forall>k n s. map_get (snd acc) k = Some (n, s) \<longrightarrow> k = toLowerCase n))"

lemma catch_up_remove_get:
  "map_get (fst (catch_up_remove n s acc)) k = (if k = toLowerCase n then None else map_get (fst acc) k)"
  "map_get (snd (catch_up_remove n s acc)) k =
     (if k = toLowerCase n \<and> map_get (fst acc) k = None then Some (n, s) else map_get (snd acc) k)"
  by (auto simp: catch_up_remove_def map_has_def get_delete get_update Let_def split: prod.splits)

lemma catch_up_remove_ok: "acc_ok acc seen \<Longrightarrow> acc_ok (catch_up_remove n s acc) seen"
  by (cases acc)
     (auto simp: acc_ok_def catch_up_remove_def map_has_def get_delete get_update Let_def split: if_splits)

lemma key_ok_remove:
  assumes "key_ok m0 m acc k" "k = toLowerCase n \<Longrightarrow> map_get (fst acc) k \<noteq> None \<Longrightarrow> m0 k = None"
  shows "key_ok m0 (m(toLowerCase n := None)) (catch_up_remove n s acc) k"
  using assms by (auto simp: key_ok_def catch_up_remove_get split: option.splits)

lemma catch_up_step_ok:
  assumes "acc_ok acc seen" "\<And>k. key_ok m0 m acc k" "\<forall>k\<in>set (leaving ch). k \<in> set seen \<longrightarrow> m0 k = None"
  shows "acc_ok (catch_up_step (s, ch) acc) (entering ch @ seen)
    \<and> (\<forall>k. key_ok m0 (apply_change ch m) (catch_up_step (s, ch) acc) k)"
proof (cases ch)
  case (LabelRemove n)
  have "map_get (fst acc) (toLowerCase n) \<noteq> None \<Longrightarrow> m0 (toLowerCase n) = None"
    using assms(1,3) LabelRemove by (auto simp: acc_ok_def)
  then have "key_ok m0 (m(toLowerCase n := None)) (catch_up_remove n s acc) k" for k
    using assms(2) by (auto intro: key_ok_remove)
  with LabelRemove catch_up_remove_ok [OF assms(1)] show ?thesis by simp
next
  case (LabelUpsert l prev)
  define acc1 where "acc1 = (case truthy prev of Some p \<Rightarrow> catch_up_remove p s acc | None \<Rightarrow> acc)"
  define m1 where "m1 = (case truthy prev of Some p \<Rightarrow> m(toLowerCase p := None) | None \<Rightarrow> m)"
  let ?k = "toLowerCase (lb_name l)"
  have ok1: "acc_ok acc1 seen"
    using assms(1) by (auto simp: acc1_def catch_up_remove_ok split: option.splits)
  have key1: "key_ok m0 m1 acc1 k" if "k \<noteq> ?k" for k
  proof (cases "truthy prev")
    case (Some p)
    have "key_ok m0 (m(toLowerCase p := None)) (catch_up_remove p s acc) k"
    proof (rule key_ok_remove [OF assms(2)])
      assume "k = toLowerCase p" "map_get (fst acc) k \<noteq> None"
      with that Some LabelUpsert assms(1,3) show "m0 k = None" by (auto simp: acc_ok_def)
    qed
    with Some show ?thesis by (simp add: acc1_def m1_def)
  qed (simp add: acc1_def m1_def assms(2))
  have step: "catch_up_step (s, ch) acc = (AList.update ?k l (fst acc1), AList.delete ?k (snd acc1))"
    by (simp add: LabelUpsert acc1_def split_def)
  have change: "apply_change ch m = m1(?k := Some l)"
    by (simp add: LabelUpsert m1_def)
  have "key_ok m0 (m1(?k := Some l)) (AList.update ?k l (fst acc1), AList.delete ?k (snd acc1)) k" for k
    using key1 [of k]
    by (cases "k = ?k") (auto simp: key_ok_def get_update get_delete split: option.splits)
  moreover have "acc_ok (AList.update ?k l (fst acc1), AList.delete ?k (snd acc1)) (entering ch @ seen)"
    using ok1 by (auto simp: acc_ok_def get_update get_delete LabelUpsert)
  ultimately show ?thesis by (simp add: step change)
qed

lemma catch_up_fold_ok:
  "acc_ok acc seen \<Longrightarrow> (\<And>k. key_ok m0 m acc k) \<Longrightarrow> clean m0 seen (map snd es)
     \<Longrightarrow> \<exists>seen'. acc_ok (fold catch_up_step es acc) seen'
          \<and> (\<forall>k. key_ok m0 (fold apply_change (map snd es) m) (fold catch_up_step es acc) k)"
proof (induction es arbitrary: acc seen m)
  case (Cons e es)
  obtain s ch where e: "e = (s, ch)" by fastforce
  have "acc_ok (catch_up_step e acc) (entering ch @ seen)
    \<and> (\<forall>k. key_ok m0 (apply_change ch m) (catch_up_step e acc) k)"
    unfolding e by (rule catch_up_step_ok [OF Cons.prems(1,2)]) (use Cons.prems(3) e in simp)
  with Cons.IH [of "catch_up_step e acc" "entering ch @ seen" "apply_change ch m"] Cons.prems(3) e
  show ?case by simp
qed auto

lemma store_labels_get:
  assumes "wf_map ups" "\<And>k l. map_get ups k = Some l \<Longrightarrow> k = toLowerCase (lb_name l)"
  shows "store_labels (map snd ups) m k = (case map_get ups k of Some l \<Rightarrow> Some l | None \<Rightarrow> m k)"
  using assms
proof (induction ups arbitrary: m)
  case (Cons kl ups)
  obtain k1 l1 where kl: "kl = (k1, l1)" by fastforce
  have wf: "wf_map ups" "map_get ups k1 = None"
    using Cons.prems(1) by (auto simp: kl wf_map_def map_of_eq_None_iff)
  have k1: "k1 = toLowerCase (lb_name l1)" using Cons.prems(2) [of k1 l1] by (simp add: kl)
  have "map_get ups k = Some l \<Longrightarrow> k = toLowerCase (lb_name l)" for k l
    using Cons.prems(2) [of k l] wf(2) by (cases "k = k1") (simp_all add: kl)
  from Cons.IH [OF wf(1) this] wf(2) show ?case
    by (auto simp: kl store_labels_def k1 split: option.splits)
qed (simp add: store_labels_def)

lemma removals_view:
  assumes "wf_map rs" "\<And>k n s. map_get rs k = Some (n, s) \<Longrightarrow> k = toLowerCase n"
  shows "fold (\<lambda>(n, _) m. m(toLowerCase n := None)) (map snd rs) m k
    = (if map_get rs k = None then m k else None)"
  using assms
proof (induction rs arbitrary: m)
  case (Cons kr rs)
  obtain k1 n1 s1 where kr: "kr = (k1, n1, s1)" by (metis prod.exhaust)
  have wf: "wf_map rs" "map_get rs k1 = None"
    using Cons.prems(1) by (auto simp: kr wf_map_def map_of_eq_None_iff)
  have k1: "k1 = toLowerCase n1" using Cons.prems(2) [of k1 n1 s1] by (simp add: kr)
  have "map_get rs k = Some (n, s) \<Longrightarrow> k = toLowerCase n" for k n s
    using Cons.prems(2) [of k n s] wf(2) by (cases "k = k1") (simp_all add: kr)
  from Cons.IH [OF wf(1) this] wf(2) show ?case
    by (auto simp: kr k1)
qed simp

lemma catch_up_view:
  assumes "clean m0 [] (map snd es)" "fold catch_up_step es ([], []) = (ups, rems)"
  shows "store_labels (map snd ups) (fold (\<lambda>(n, _) m. m(toLowerCase n := None)) (map snd rems) m0)
    = fold apply_change (map snd es) m0"
proof
  fix k
  obtain seen where ok: "acc_ok (ups, rems) seen" "key_ok m0 (fold apply_change (map snd es) m0) (ups, rems) k"
    using catch_up_fold_ok [of "([], [])" "[]" m0 m0 es] assms by (auto simp: acc_ok_def key_ok_def)
  have ups: "wf_map ups" "\<And>k l. map_get ups k = Some l \<Longrightarrow> k = toLowerCase (lb_name l)"
    and rems: "wf_map rems" "\<And>k n s. map_get rems k = Some (n, s) \<Longrightarrow> k = toLowerCase n"
    using ok(1) by (auto simp: acc_ok_def)
  show "store_labels (map snd ups) (fold (\<lambda>(n, _) m. m(toLowerCase n := None)) (map snd rems) m0) k
      = fold apply_change (map snd es) m0 k"
    using ok(2) store_labels_get [OF ups, where k = k
        and m = "fold (\<lambda>(n, _) m. m(toLowerCase n := None)) (map snd rems) m0"]
      removals_view [OF rems, where k = k and m = m0]
    by (auto simp: key_ok_def split: option.splits)
qed

section \<open>The journal holds the latest changes\<close>

definition numbered :: "WorkspaceLabelChange list \<Rightarrow> (int \<times> WorkspaceLabelChange) list" where
  "numbered chs = zip [1..int (length chs)] chs"

lemma numbered_snoc: "numbered (chs @ [ch]) = numbered chs @ [(int (length chs) + 1, ch)]"
proof -
  have "[1..int (length chs) + 1] = [1..int (length chs)] @ [int (length chs) + 1]"
    by (simp add: upto_rec2)
  then show ?thesis by (simp add: numbered_def add.commute)
qed

lemma length_numbered [simp]: "length (numbered chs) = length chs"
  by (simp add: numbered_def)

lemma nth_numbered: "i < length chs \<Longrightarrow> numbered chs ! i = (int i + 1, chs ! i)"
  by (simp add: numbered_def nth_upto)

lemma publish_fields:
  "sq_headSeq (label_publish ch s) = sq_headSeq s + 1" "sq_generation (label_publish ch s) = sq_generation s"
  "sq_journal (label_publish ch s) =
     (let journal = sq_journal s @ [(sq_headSeq s + 1, ch)]
      in if length journal > sq_journalLimit s then tl journal else journal)"
  "sq_journalLimit (label_publish ch s) = sq_journalLimit s"
  by (simp_all add: label_publish_def Let_def)

lemma publish_run:
  defines "run chs g limit \<equiv> fold label_publish chs (new_sequence g limit)"
  shows "sq_journal (run chs g limit) = drop (length chs - limit) (numbered chs)
     \<and> sq_headSeq (run chs g limit) = int (length chs)
     \<and> sq_generation (run chs g limit) = g \<and> sq_journalLimit (run chs g limit) = limit"
proof (induction chs rule: rev_induct)
  case Nil
  then show ?case by (simp add: run_def new_sequence_def numbered_def)
next
  case (snoc ch chs)
  let ?s = "run chs g limit" and ?d = "length chs - limit"
  have run: "run (chs @ [ch]) g limit = label_publish ch ?s" by (simp add: run_def)
  have s: "sq_journal ?s = drop ?d (numbered chs)" "sq_headSeq ?s = int (length chs)"
    "sq_generation ?s = g" "sq_journalLimit ?s = limit"
    using snoc by auto
  have j: "sq_journal ?s @ [(int (length chs) + 1, ch)] = drop ?d (numbered (chs @ [ch]))"
    using s(1) by (simp add: numbered_snoc)
  have "sq_journal (label_publish ch ?s) =
      (let journal = drop ?d (numbered (chs @ [ch])) in if length journal > limit then tl journal else journal)"
    using s(2,4) j by (simp only: publish_fields)
  also have "\<dots> = drop (length (chs @ [ch]) - limit) (numbered (chs @ [ch]))"
    by (auto simp: Let_def Suc_diff_le drop_Suc tl_drop)
  finally show ?case
    unfolding run using s by (simp add: publish_fields(1,2,4))
qed

lemma oldest_seq:
  assumes "s = fold label_publish chs (new_sequence g limit)"
  shows "(case head_opt (sq_journal s) of Some e \<Rightarrow> fst e | None \<Rightarrow> sq_headSeq s + 1) = int (length chs - limit) + 1"
proof -
  let ?d = "length chs - limit"
  have s: "sq_journal s = drop ?d (numbered chs)" "sq_headSeq s = int (length chs)"
    using publish_run [of chs g limit] assms by auto
  show ?thesis
  proof (cases "?d < length chs")
    case True
    then have "drop ?d (numbered chs) = numbered chs ! ?d # drop (Suc ?d) (numbered chs)"
      by (simp add: Cons_nth_drop_Suc)
    with nth_numbered [OF True] show ?thesis by (simp add: s)
  qed (simp add: s)
qed

lemma filter_numbered:
  assumes "d \<le> length before"
  shows "map snd (filter (\<lambda>e. fst e > int (length before)) (drop d (numbered (before @ since)))) = since"
proof -
  let ?Z = "numbered (before @ since)"
  have split: "drop d ?Z = drop d (take (length before) ?Z) @ drop (length before) ?Z"
    using assms by (metis append_take_drop_id drop_append diff_is_0_eq' drop_0 length_numbered length_take
        length_append min.absorb2 le_add1)
  have "fst e \<le> int (length before)" if "e \<in> set (take (length before) ?Z)" for e
    using that by (auto simp: in_set_conv_nth nth_numbered)
  then have low: "filter (\<lambda>e. fst e > int (length before)) (drop d (take (length before) ?Z)) = []"
    by (fastforce simp: filter_empty_conv dest: in_set_dropD)
  have "fst e > int (length before)" if "e \<in> set (drop (length before) ?Z)" for e
    using that by (auto simp: in_set_conv_nth nth_numbered)
  then have high: "filter (\<lambda>e. fst e > int (length before)) (drop (length before) ?Z) = drop (length before) ?Z"
    by (simp add: filter_id_conv)
  have "map snd (drop (length before) ?Z) = since"
    by (simp add: numbered_def drop_map [symmetric] del: drop_zip)
  with low high show ?thesis by (simp add: split)
qed

text \<open>C32. A client that kept the catalog as it was at its cursor and applies the answer to that cursor
  has the catalog of now, however much of the journal has been dropped, provided no label it had
  was edited and later removed or renamed while it was away.\<close>

theorem label_catch_up_correct:
  assumes "s = fold label_publish (before @ since) (new_sequence g limit)"
    and "store_labels catalog (\<lambda>_. None) = fold apply_change since view"
    and "clean view [] since"
  shows "apply_label_sync
      (label_synchronize catalog (Some \<lparr>lc_generation = g, lc_afterSeq = int (length before)\<rparr>) s) view
    = fold apply_change since view"
proof -
  define d where "d = length (before @ since) - limit"
  have d: "sq_journal s = drop d (numbered (before @ since))" "sq_headSeq s = int (length (before @ since))"
    "sq_generation s = g"
    using publish_run [of "before @ since" g limit] assms(1) by (auto simp: d_def)
  note oldest = oldest_seq [OF assms(1), folded d_def]
  let ?cursor = "Some \<lparr>lc_generation = g, lc_afterSeq = int (length before)\<rparr>"
  show ?thesis
  proof (cases "d \<le> length before")
    case False
    then have "label_synchronize catalog ?cursor s = \<lparr>sy_labels = catalog, sy_snapshot = True,
        sy_generation = g, sy_headSeq = sq_headSeq s, sy_removals = []\<rparr>"
      using oldest d(3) by (simp add: label_synchronize_def Let_def)
    with assms(2) show ?thesis by (simp add: apply_label_sync_def)
  next
    case True
    let ?es = "filter (\<lambda>e. fst e > int (length before)) (sq_journal s)"
    have es: "map snd ?es = since" using filter_numbered [OF True] d(1) by simp
    obtain ups rems where f: "fold catch_up_step ?es ([], []) = (ups, rems)" by fastforce
    have "label_synchronize catalog ?cursor s = \<lparr>sy_labels = map snd ups, sy_snapshot = False,
        sy_generation = g, sy_headSeq = sq_headSeq s, sy_removals = map snd rems\<rparr>"
      using oldest True d(2,3) f by (simp add: label_synchronize_def Let_def)
    with catch_up_view [OF _ f, of view] assms(3) es show ?thesis
      by (simp add: apply_label_sync_def)
  qed
qed

theorem label_catch_up_correct_witness:
  "apply_label_sync
      (label_synchronize [] (Some \<lparr>lc_generation = ''g'', lc_afterSeq = 1\<rparr>)
        (fold label_publish [LabelUpsert \<lparr>lb_name = ''b'', lb_color = ''red''\<rparr> None, LabelRemove ''b'']
          (new_sequence ''g'' 256)))
      ((\<lambda>_. None)(toLowerCase ''b'' := Some \<lparr>lb_name = ''b'', lb_color = ''red''\<rparr>)) = (\<lambda>_. None)"
  using label_catch_up_correct [of _ "[LabelUpsert \<lparr>lb_name = ''b'', lb_color = ''red''\<rparr> None]" "[LabelRemove ''b'']"
      "''g''" 256 "[]" "(\<lambda>_. None)(toLowerCase ''b'' := Some \<lparr>lb_name = ''b'', lb_color = ''red''\<rparr>)", OF refl]
  by (simp add: store_labels_def)

section \<open>An edited label that is then deleted\<close>

lemma find_index_map: "find_index (\<lambda>x. P (f x)) xs = find_index P (map f xs)"
  by (induction xs) auto

lemma find_label_recolor:
  assumes "find_label key catalog = Some i"
  shows "find_label key (catalog[i := \<lparr>lb_name = lb_name (catalog ! i), lb_color = c\<rparr>]) = Some i" "i < length catalog"
proof -
  show i: "i < length catalog"
    using assms find_index_Some unfolding find_label_def by fastforce
  have "map lb_name (catalog[i := \<lparr>lb_name = lb_name (catalog ! i), lb_color = c\<rparr>]) = map lb_name catalog"
    using i by (metis WorkspaceLabelDefinition.select_convs(1) list_update_id map_update nth_map)
  then show "find_label key (catalog[i := \<lparr>lb_name = lb_name (catalog ! i), lb_color = c\<rparr>]) = Some i"
    using assms unfolding find_label_def find_index_map [of "\<lambda>n. workspaceLabelKey n = key" lb_name] by simp
qed

text \<open>A label that is recoloured and then deleted while a client is away is gone from the catalog,
  but the changes the client is sent name neither the label nor its removal: whatever the client
  showed it keeps showing, the deleted label included.\<close>

theorem label_edit_then_delete_lost:
  assumes "requireName name = Inr n" "find_label (workspaceLabelKey n) (ls_catalog s) = Some i"
    and "color \<noteq> lb_color (ls_catalog s ! i)" "lb_name (ls_catalog s ! i) \<noteq> []"
    and "ls_sequence s = fold label_publish before (new_sequence g limit)" "2 \<le> limit"
  shows "\<exists>r1 s1 r2 s2. label_update name None (Some color) now s = Inr (r1, s1)
    \<and> label_delete name now s1 = Inr (r2, s2)
    \<and> length (ls_catalog s2) + 1 = length (ls_catalog s)
    \<and> (let sync = label_synchronize (ls_catalog s2)
              (Some \<lparr>lc_generation = g, lc_afterSeq = sq_headSeq (ls_sequence s)\<rparr>) (ls_sequence s2)
       in sy_labels sync = [] \<and> sy_removals sync = [] \<and> apply_label_sync sync view = view)"
proof -
  let ?old = "ls_catalog s ! i"
  let ?new = "\<lparr>lb_name = lb_name ?old, lb_color = color\<rparr>"
  let ?chs = "[LabelUpsert ?new None, LabelRemove (lb_name ?old)]"
  define s1 where "s1 = publishing (LabelUpsert ?new None) (s\<lparr>ls_catalog := (ls_catalog s)[i := ?new],
      ls_workspaces := apply_updates [] (ls_workspaces s)\<rparr>)"
  have up: "label_update name None (Some color) now s = Inr ((?new, 0), s1)"
    using assms(1,2,3) by (simp add: label_update_def plan_update_def catalog_commit_def Let_def s1_def)
  note found = find_label_recolor(1) [OF assms(2), of color] find_label_recolor(2) [OF assms(2)]
  obtain r2 s2 where del: "label_delete name now s1 = Inr (r2, s2)"
    and cat: "length (ls_catalog s2) + 1 = length (ls_catalog s)"
    and sq: "ls_sequence s2 = fold label_publish (before @ ?chs) (new_sequence g limit)"
    using assms(1,4,5) found by (simp add: label_delete_def plan_delete_def catalog_commit_def publishing_def truthy_def Let_def s1_def)
  have head: "sq_headSeq (ls_sequence s) = int (length before)"
    using publish_run [of before g limit] assms(5) by simp
  let ?d = "length (before @ ?chs) - limit"
  have run: "sq_journal (ls_sequence s2) = drop ?d (numbered (before @ ?chs))"
    "sq_headSeq (ls_sequence s2) = int (length before) + 2" "sq_generation (ls_sequence s2) = g"
    using publish_run [of "before @ ?chs" g limit] sq by auto
  have d: "?d \<le> length before" using assms(6) by simp
  note oldest = oldest_seq [OF sq]
  let ?es = "filter (\<lambda>e. fst e > int (length before)) (sq_journal (ls_sequence s2))"
  have "map snd ?es = ?chs" using filter_numbered [OF d] run(1) by simp
  then obtain q1 q2 where "?es = [(q1, LabelUpsert ?new None), (q2, LabelRemove (lb_name ?old))]"
    by (auto simp: map_eq_Cons_conv)
  then have "fold catch_up_step ?es ([], []) = ([], [])"
    by (simp add: truthy_def catch_up_remove_def map_has_def Let_def)
  then have "label_synchronize (ls_catalog s2) (Some \<lparr>lc_generation = g, lc_afterSeq = sq_headSeq (ls_sequence s)\<rparr>)
        (ls_sequence s2) = \<lparr>sy_labels = [], sy_snapshot = False, sy_generation = g,
          sy_headSeq = sq_headSeq (ls_sequence s2), sy_removals = []\<rparr>"
    using oldest d run(2,3) head by (simp add: label_synchronize_def Let_def)
  with up del cat show ?thesis
    by (simp add: apply_label_sync_def store_labels_def Let_def)
qed

definition sample_labels :: label_state where
  "sample_labels = \<lparr>ls_catalog = [\<lparr>lb_name = ''b'', lb_color = ''red''\<rparr>], ls_workspaces = [],
     ls_sequence = fold label_publish [LabelUpsert \<lparr>lb_name = ''b'', lb_color = ''red''\<rparr> None] (new_sequence ''g'' 256)\<rparr>"

theorem label_edit_then_delete_lost_witness:
  "\<exists>r1 s1 r2 s2. label_update ''b'' None (Some ''blue'') ''now'' sample_labels = Inr (r1, s1)
    \<and> label_delete ''b'' ''now'' s1 = Inr (r2, s2) \<and> ls_catalog s2 = []
    \<and> apply_label_sync (label_synchronize (ls_catalog s2)
         (Some \<lparr>lc_generation = ''g'', lc_afterSeq = sq_headSeq (ls_sequence sample_labels)\<rparr>) (ls_sequence s2)) (\<lambda>_. Some \<lparr>lb_name = ''b'', lb_color = ''red''\<rparr>)
      = (\<lambda>_. Some \<lparr>lb_name = ''b'', lb_color = ''red''\<rparr>)"
proof -
  have "requireName ''b'' = Inr ''b''"
    by (simp add: requireName_def normalizeWorkspaceLabelName_def js_trim_def is_space_def)
  moreover have "find_label (workspaceLabelKey ''b'') (ls_catalog sample_labels) = Some 0"
    by (simp add: sample_labels_def find_label_def)
  moreover have "length (ls_catalog sample_labels) = 1" by (simp add: sample_labels_def)
  ultimately show ?thesis
    using label_edit_then_delete_lost [of "''b''" "''b''" sample_labels 0 "''blue''"
        "[LabelUpsert \<lparr>lb_name = ''b'', lb_color = ''red''\<rparr> None]" "''g''" 256 "''now''" "\<lambda>_. Some \<lparr>lb_name = ''b'', lb_color = ''red''\<rparr>"]
    by (simp add: sample_labels_def Let_def) blast
qed

end
