(* ===== verification/LabelCatalog.thy ===== *)
theory LabelCatalog
  imports WorkspaceLabels
begin

text \<open>
  The durable side of workspace labels (\<open>server/workspace-labels/internal/catalog-store.ts\<close>) and the
  registry of workspaces it shares a transaction with (\<open>FileBackedRegistry\<close> and
  \<open>commitWorkspaceLabelMutation\<close> of \<open>server/workspace-registry.ts\<close>).

  A commit changes two files, the catalog and the workspaces, and a third file, the transaction,
  says how to undo it. Every access to a file may fail or be the last thing the daemon does: the
  world carries a script of faults, one per access, and an access that throws or crashes may
  have taken effect or not (a file is replaced by a rename, so it is never half written). A script
  that has run out means no more faults. Memory and files are parts of one record; a restart
  keeps the files only.
\<close>

section \<open>Files, memory and faults\<close>

datatype fault = Fine | ThrowsBefore | ThrowsAfter | CrashesBefore | CrashesAfter

datatype tx_phase = Prepared | Committed

record workspace_state =
  wst_labels :: "string list option"
  wst_updatedAt :: string

record WorkspaceLabelTransaction =
  tx_phase :: tx_phase
  tx_beforeLabels :: "WorkspaceLabelDefinition list"
  tx_afterLabels :: "WorkspaceLabelDefinition list"
  tx_beforeWorkspaces :: "(string \<times> workspace_state) list"
  tx_afterWorkspaces :: "(string \<times> workspace_state) list"

type_synonym workspaces = "(string, labelled_workspace) js_map"

record label_world =
  fl_catalog :: "WorkspaceLabelDefinition list option"
  fl_transaction :: "WorkspaceLabelTransaction option"
  fl_workspaces :: "workspaces option"
  st_loaded :: bool
  st_labels :: "WorkspaceLabelDefinition list"
  st_blocked :: bool
  rg_loaded :: bool
  rg_cache :: workspaces
  rg_frozen :: bool
  wd_faults :: "fault list"

datatype store_error = Refused label_error | StorageUncertain | IoFailed | MutationsBlocked

datatype 'a outcome = Returned 'a | Threw store_error | Crashed

type_synonym 'a io = "label_world \<Rightarrow> 'a outcome \<times> label_world"

definition io_return :: "'a \<Rightarrow> 'a io" where
  "io_return a w = (Returned a, w)"

definition io_throw :: "store_error \<Rightarrow> 'a io" where
  "io_throw e w = (Threw e, w)"

definition io_bind :: "'a io \<Rightarrow> ('a \<Rightarrow> 'b io) \<Rightarrow> 'b io" where
  "io_bind m f w = (case m w of
       (Returned a, w') \<Rightarrow> f a w'
     | (Threw e, w') \<Rightarrow> (Threw e, w')
     | (Crashed, w') \<Rightarrow> (Crashed, w'))"

definition io_catch :: "'a io \<Rightarrow> (store_error \<Rightarrow> 'a io) \<Rightarrow> 'a io" where
  "io_catch m h w = (case m w of
       (Threw e, w') \<Rightarrow> h e w'
     | (Returned a, w') \<Rightarrow> (Returned a, w')
     | (Crashed, w') \<Rightarrow> (Crashed, w'))"

definition io_modify :: "(label_world \<Rightarrow> label_world) \<Rightarrow> unit io" where
  "io_modify f w = (Returned (), f w)"

definition next_fault :: "label_world \<Rightarrow> fault" where
  "next_fault w = (case wd_faults w of [] \<Rightarrow> Fine | f # _ \<Rightarrow> f)"

definition spent :: "label_world \<Rightarrow> label_world" where
  "spent w = w\<lparr>wd_faults := tl (wd_faults w)\<rparr>"

definition disk_write :: "(label_world \<Rightarrow> label_world) \<Rightarrow> unit io" where
  "disk_write f w = (case next_fault w of
       Fine \<Rightarrow> (Returned (), f (spent w))
     | ThrowsBefore \<Rightarrow> (Threw IoFailed, spent w)
     | ThrowsAfter \<Rightarrow> (Threw IoFailed, f (spent w))
     | CrashesBefore \<Rightarrow> (Crashed, spent w)
     | CrashesAfter \<Rightarrow> (Crashed, f (spent w)))"

definition disk_read :: "(label_world \<Rightarrow> 'a) \<Rightarrow> 'a io" where
  "disk_read g w = (case next_fault w of
       Fine \<Rightarrow> (Returned (g w), spent w)
     | ThrowsBefore \<Rightarrow> (Threw IoFailed, spent w)
     | ThrowsAfter \<Rightarrow> (Threw IoFailed, spent w)
     | CrashesBefore \<Rightarrow> (Crashed, spent w)
     | CrashesAfter \<Rightarrow> (Crashed, spent w))"

definition catalog_of :: "label_world \<Rightarrow> WorkspaceLabelDefinition list" where
  "catalog_of w = (case fl_catalog w of Some ls \<Rightarrow> ls | None \<Rightarrow> [])"

definition records_of :: "label_world \<Rightarrow> workspaces" where
  "records_of w = (case fl_workspaces w of Some rs \<Rightarrow> rs | None \<Rightarrow> [])"

definition readCatalog :: "WorkspaceLabelDefinition list io" where
  "readCatalog = disk_read catalog_of"

definition writeCatalog :: "WorkspaceLabelDefinition list \<Rightarrow> unit io" where
  "writeCatalog labels = disk_write (\<lambda>w. w\<lparr>fl_catalog := Some labels\<rparr>)"

definition readTransaction :: "WorkspaceLabelTransaction option io" where
  "readTransaction = disk_read fl_transaction"

definition writeTransaction :: "WorkspaceLabelTransaction \<Rightarrow> unit io" where
  "writeTransaction tx = disk_write (\<lambda>w. w\<lparr>fl_transaction := Some tx\<rparr>)"

text \<open>Removing a file that is not there throws.\<close>

definition removeTransaction :: "unit io" where
  "removeTransaction w =
     io_bind (disk_write (\<lambda>w. w\<lparr>fl_transaction := None\<rparr>))
       (\<lambda>_. if fl_transaction w = None then io_throw IoFailed else io_return ()) w"

definition writeRecords :: "workspaces \<Rightarrow> unit io" where
  "writeRecords records = disk_write (\<lambda>w. w\<lparr>fl_workspaces := Some records\<rparr>)"

section \<open>The registry of workspaces\<close>

definition registry_load :: "unit io" where
  "registry_load w =
     (if rg_loaded w then (Returned (), w)
      else io_bind (io_catch (disk_read records_of) (\<lambda>_. io_return []))
        (\<lambda>parsed. io_modify (\<lambda>w. w\<lparr>rg_cache := apply_updates parsed [], rg_loaded := True\<rparr>)) w)"

text \<open>An updater returns the new map, or \<open>None\<close> when it sets and deletes nothing: the records it sets are
  fresh objects, so the comparison of the maps by identity tells exactly these apart.\<close>

definition mutateCache ::
  "(workspaces \<Rightarrow> store_error + workspaces option \<times> bool \<times> 'r) \<Rightarrow> ('r \<Rightarrow> unit io) \<Rightarrow> ('r \<Rightarrow> unit io)
     \<Rightarrow> ('r \<Rightarrow> label_world \<Rightarrow> label_world) \<Rightarrow> 'r io" where
  "mutateCache updater beforeWrite afterWrite afterCommit =
     io_bind registry_load (\<lambda>_ w.
       if rg_frozen w then (Threw MutationsBlocked, w)
       else case updater (rg_cache w) of
         Inl e \<Rightarrow> (Threw e, w)
       | Inr (staged, forcePersist, result) \<Rightarrow>
           if staged = None \<and> \<not> forcePersist then (Returned result, w)
           else
             io_bind (beforeWrite result) (\<lambda>_.
             io_bind (case staged of None \<Rightarrow> io_return () | Some records \<Rightarrow> writeRecords records) (\<lambda>_.
             io_bind (afterWrite result) (\<lambda>_.
             io_bind (case staged of None \<Rightarrow> io_return ()
                      | Some records \<Rightarrow> io_modify (\<lambda>w. w\<lparr>rg_cache := records\<rparr>)) (\<lambda>_.
             io_bind (io_modify (afterCommit result)) (\<lambda>_. io_return result))))) w)"

definition commitWorkspaceLabelMutation ::
  "(workspaces \<Rightarrow> store_error + workspaces \<times> bool \<times> 'r) \<Rightarrow> ('r \<Rightarrow> unit io) \<Rightarrow> ('r \<Rightarrow> unit io)
     \<Rightarrow> ('r \<Rightarrow> label_world \<Rightarrow> label_world) \<Rightarrow> 'r io" where
  "commitWorkspaceLabelMutation stage beforeWrite afterWrite afterCommit =
     mutateCache (\<lambda>records.
         map_sum id (\<lambda>(updates, forcePersist, result).
             (if updates = [] then None else Some (apply_updates updates records), forcePersist, result))
           (stage records))
       beforeWrite afterWrite afterCommit"

text \<open>The registry's own mutations have no hooks.\<close>

definition mutate_records :: "(workspaces \<Rightarrow> workspaces option \<times> 'r) \<Rightarrow> 'r io" where
  "mutate_records updater =
     mutateCache (\<lambda>records. case updater records of (staged, r) \<Rightarrow> Inr (staged, False, r))
       (\<lambda>_. io_return ()) (\<lambda>_. io_return ()) (\<lambda>_ w. w)"

definition registry_upsert :: "string \<Rightarrow> labelled_workspace \<Rightarrow> unit io" where
  "registry_upsert k record = mutate_records (\<lambda>records. (Some (AList.update k record records), ()))"

definition registry_update ::
  "string \<Rightarrow> (labelled_workspace \<Rightarrow> labelled_workspace) \<Rightarrow> labelled_workspace option io" where
  "registry_update k updater = mutate_records (\<lambda>records. case map_get records k of
       None \<Rightarrow> (None, None)
     | Some existing \<Rightarrow> (Some (AList.update k (updater existing) records), Some (updater existing)))"

definition removeIfPresent :: "string \<Rightarrow> labelled_workspace option io" where
  "removeIfPresent k = mutate_records (\<lambda>records. case map_get records k of
       None \<Rightarrow> (None, None)
     | Some existing \<Rightarrow> (Some (AList.delete k records), Some existing))"

definition freezeMutationsUntilRestart :: "unit io" where
  "freezeMutationsUntilRestart = io_modify (\<lambda>w. w\<lparr>rg_frozen := True\<rparr>)"

section \<open>The catalog store\<close>

definition workspaceState :: "labelled_workspace \<Rightarrow> workspace_state" where
  "workspaceState w = \<lparr>wst_labels = lw_labels w, wst_updatedAt = lw_updatedAt w\<rparr>"

definition transactionFor ::
  "WorkspaceLabelDefinition list \<Rightarrow> 'r WorkspaceLabelMutation \<Rightarrow> workspaces \<Rightarrow> WorkspaceLabelTransaction" where
  "transactionFor currentLabels m workspaces =
     \<lparr>tx_phase = Prepared, tx_beforeLabels = currentLabels, tx_afterLabels = mu_labels m,
      tx_beforeWorkspaces = concat (map (\<lambda>(k, _). case map_get workspaces k of
          Some current \<Rightarrow> [(k, workspaceState current)] | None \<Rightarrow> []) (mu_updates m)),
      tx_afterWorkspaces = map (\<lambda>(k, w). (k, workspaceState w)) (mu_updates m)\<rparr>"

definition catalogsEqual :: "WorkspaceLabelDefinition list \<Rightarrow> WorkspaceLabelDefinition list \<Rightarrow> bool" where
  "catalogsEqual left right =
     list_all2 (\<lambda>l r. lb_name l = lb_name r \<and> lb_color l = lb_color r) left right"

definition blockUntilRestart :: "'a io" where
  "blockUntilRestart =
     io_bind (io_modify (\<lambda>w. w\<lparr>st_blocked := True\<rparr>)) (\<lambda>_.
     io_bind freezeMutationsUntilRestart (\<lambda>_. io_throw StorageUncertain))"

definition restored :: "(string \<times> workspace_state) list \<Rightarrow> workspaces \<Rightarrow> workspaces" where
  "restored states workspaces = concat (map (\<lambda>(k, state). case map_get workspaces k of
       Some current \<Rightarrow> [(k, current\<lparr>lw_labels := wst_labels state, lw_updatedAt := wst_updatedAt state\<rparr>)]
     | None \<Rightarrow> []) states)"

definition recover :: "WorkspaceLabelTransaction \<Rightarrow> unit io" where
  "recover tx =
     (if tx_phase tx = Committed then
        io_bind readCatalog (\<lambda>labels.
        io_bind (io_modify (\<lambda>w. w\<lparr>st_labels := labels\<rparr>)) (\<lambda>_.
          io_catch removeTransaction (\<lambda>_. io_return ())))
      else
        commitWorkspaceLabelMutation
          (\<lambda>workspaces. Inr (restored (tx_beforeWorkspaces tx) workspaces, True, ()))
          (\<lambda>_. writeCatalog (tx_beforeLabels tx))
          (\<lambda>_. removeTransaction)
          (\<lambda>_ w. w\<lparr>st_labels := tx_beforeLabels tx\<rparr>))"

definition resolveFailedCommit :: "store_error \<Rightarrow> 'a io" where
  "resolveFailedCommit error =
     io_bind (io_catch readTransaction (\<lambda>_. blockUntilRestart)) (\<lambda>durable.
       case durable of
         None \<Rightarrow> io_throw error
       | Some tx \<Rightarrow>
           if tx_phase tx = Committed then blockUntilRestart
           else io_bind (io_catch (recover tx) (\<lambda>_. blockUntilRestart)) (\<lambda>_. io_throw error))"

definition loadAndRecover :: "unit io" where
  "loadAndRecover =
     io_bind readTransaction (\<lambda>transaction.
       case transaction of
         Some tx \<Rightarrow> io_bind (recover tx) (\<lambda>_. io_modify (\<lambda>w. w\<lparr>st_loaded := True\<rparr>))
       | None \<Rightarrow> io_bind readCatalog (\<lambda>labels. io_modify (\<lambda>w. w\<lparr>st_labels := labels, st_loaded := True\<rparr>)))"

definition store_initialize :: "unit io" where
  "store_initialize w = (if st_loaded w then (Returned (), w) else loadAndRecover w)"

definition store_commit :: "'r planner \<Rightarrow> 'r io" where
  "store_commit planner =
     io_bind store_initialize (\<lambda>_ w.
       if st_blocked w then (Threw StorageUncertain, w)
       else
         io_bind (io_catch
           (commitWorkspaceLabelMutation
             (\<lambda>workspaces. case planner (st_labels w) workspaces of
                Inl e \<Rightarrow> Inl (Refused e)
              | Inr m \<Rightarrow> Inr (mu_updates m, mu_updates m \<noteq> [] \<or> \<not> catalogsEqual (st_labels w) (mu_labels m),
                             (m, transactionFor (st_labels w) m workspaces)))
             (\<lambda>(m, tx). io_bind (writeTransaction tx) (\<lambda>_. writeCatalog (tx_afterLabels tx)))
             (\<lambda>(m, tx). writeTransaction (tx\<lparr>tx_phase := Committed\<rparr>))
             (\<lambda>(m, tx) w. w\<lparr>st_labels := mu_labels m\<rparr>))
           resolveFailedCommit)
         (\<lambda>(m, tx).
            io_bind (io_catch removeTransaction (\<lambda>_. io_return ())) (\<lambda>_. io_return (mu_result m))) w)"

text \<open>A restart forgets what was in memory; the daemon reads the registry before it opens the catalog.\<close>

definition restarted :: "fault list \<Rightarrow> label_world \<Rightarrow> label_world" where
  "restarted faults w = w\<lparr>st_loaded := False, st_labels := [], st_blocked := False,
     rg_loaded := False, rg_cache := [], rg_frozen := False, wd_faults := faults\<rparr>"

definition startup :: "unit io" where
  "startup = io_bind registry_load (\<lambda>_. store_initialize)"

section \<open>What the files stand for\<close>

text \<open>The undo of a prepared transaction, and the state a set of files stands for: what recovery makes
  of it.\<close>

definition undo :: "WorkspaceLabelTransaction \<Rightarrow> workspaces \<Rightarrow> workspaces" where
  "undo tx workspaces = apply_updates (restored (tx_beforeWorkspaces tx) workspaces) workspaces"

type_synonym label_contents = "WorkspaceLabelDefinition list \<times> workspaces"

definition durable :: "label_world \<Rightarrow> label_contents" where
  "durable w = (catalog_of w, records_of w)"

definition pending_tx :: "label_world \<Rightarrow> WorkspaceLabelTransaction option" where
  "pending_tx w = (case fl_transaction w of
       Some tx \<Rightarrow> if tx_phase tx = Prepared then Some tx else None
     | None \<Rightarrow> None)"

definition stored_state :: "label_world \<Rightarrow> label_contents" where
  "stored_state w = (case pending_tx w of
       Some tx \<Rightarrow> (tx_beforeLabels tx, undo tx (records_of w))
     | None \<Rightarrow> durable w)"

definition stores :: "label_contents \<Rightarrow> label_world \<Rightarrow> bool" where
  "stores s w = (stored_state w = s \<and> wf_map (records_of w))"

definition memory_at :: "label_contents \<Rightarrow> label_world \<Rightarrow> bool" where
  "memory_at s w = (st_loaded w \<and> rg_loaded w \<and> \<not> st_blocked w \<and> \<not> rg_frozen w
     \<and> st_labels w = fst s \<and> rg_cache w = snd s)"

definition ready :: "label_contents \<Rightarrow> label_world \<Rightarrow> bool" where
  "ready s w = (memory_at s w \<and> durable w = s \<and> pending_tx w = None \<and> wf_map (snd s))"

definition shut :: "label_world \<Rightarrow> bool" where
  "shut w = (st_loaded w \<and> st_blocked w \<and> rg_frozen w)"

section \<open>Maps with the same keys\<close>

lemma apply_updates_Nil [simp]: "apply_updates [] m = m"
  by (simp add: apply_updates_def)

lemma apply_updates_Cons: "apply_updates ((k, v) # us) m = apply_updates us (AList.update k v m)"
  by (simp add: apply_updates_def)

lemma apply_updates_get:
  "map_of (apply_updates us m) k = (case map_of (rev us) k of Some v \<Rightarrow> Some v | None \<Rightarrow> map_of m k)"
proof (induction us arbitrary: m)
  case (Cons u us)
  then show ?case
    by (cases u) (simp add: apply_updates_Cons update_conv map_add_def split: option.splits)
qed simp

lemma apply_updates_wf: "wf_map m \<Longrightarrow> wf_map (apply_updates us m)"
  by (induction us arbitrary: m) (auto simp: apply_updates_Cons)

lemma update_old_keys: "map_of m k \<noteq> None \<Longrightarrow> map fst (AList.update k v m) = map fst m"
  by (simp add: map_of_eq_None_iff update_keys)

lemma apply_updates_keys:
  "\<forall>(k, v)\<in>set us. map_of m k \<noteq> None \<Longrightarrow> map fst (apply_updates us m) = map fst m"
proof (induction us arbitrary: m)
  case (Cons u us)
  obtain k v where u: "u = (k, v)" by (cases u)
  have "map fst (apply_updates us (AList.update k v m)) = map fst (AList.update k v m)"
    using Cons.prems by (intro Cons.IH) (auto simp: update_conv)
  with Cons.prems u show ?case by (simp add: apply_updates_Cons update_old_keys)
qed simp

lemma same_map:
  "wf_map m \<Longrightarrow> map fst m = map fst m' \<Longrightarrow> (\<And>k. map_of m k = map_of m' k) \<Longrightarrow> m = m'"
proof (induction m arbitrary: m')
  case (Cons x m)
  then obtain y m2 where m': "m' = y # m2" "fst x = fst y" "map fst m = map fst m2" by (cases m') auto
  from Cons.prems(3) [of "fst x"] m' have "snd x = snd y" by (cases x; cases y) simp
  moreover have "map_of m k = map_of m2 k" for k
  proof (cases "k = fst x")
    case True
    with Cons.prems(1) m' have "k \<notin> fst ` set m" "k \<notin> fst ` set m2"
      by (auto simp: wf_map_def simp flip: set_map)
    then show ?thesis by (simp add: map_of_eq_None_iff [symmetric])
  next
    case False
    with Cons.prems(3) [of k] m' show ?thesis by (cases x; cases y) simp
  qed
  moreover have "wf_map m" using Cons.prems(1) by (simp add: wf_map_def)
  ultimately show ?case using Cons.IH [of m2] m' by (cases x; cases y) simp
qed simp

lemma apply_updates_fresh: "wf_map m \<Longrightarrow> apply_updates m [] = m"
proof -
  have "wf_map (m1 @ m2) \<Longrightarrow> apply_updates m2 m1 = m1 @ m2" for m1 m2 :: workspaces
  proof (induction m2 arbitrary: m1)
    case (Cons u m2)
    obtain k v where u: "u = (k, v)" by (cases u)
    have "map_of m1 k = None" using Cons.prems u by (auto simp: wf_map_def map_of_eq_None_iff)
    then show ?case using Cons.IH [of "m1 @ [u]"] Cons.prems u
      by (simp add: apply_updates_Cons update_new_append)
  qed simp
  from this [of "[]" m] show "wf_map m \<Longrightarrow> apply_updates m [] = m" by simp
qed

section \<open>Undoing\<close>

definition set_back :: "workspace_state option \<Rightarrow> labelled_workspace \<Rightarrow> labelled_workspace" where
  "set_back st w = (case st of
       Some s \<Rightarrow> w\<lparr>lw_labels := wst_labels s, lw_updatedAt := wst_updatedAt s\<rparr>
     | None \<Rightarrow> w)"

lemma restored_rev: "rev (restored states m) = restored (rev states) m"
  by (induction states) (auto simp: restored_def split: option.splits)

lemma restored_get:
  "map_of (restored states m) k =
     (case map_of m k of None \<Rightarrow> None | Some w \<Rightarrow> map_option (\<lambda>s. set_back (Some s) w) (map_of states k))"
  by (induction states) (auto simp: restored_def set_back_def split: option.splits)

lemma restored_present: "(k, v) \<in> set (restored states m) \<Longrightarrow> map_of m k \<noteq> None"
  by (auto simp: restored_def split: option.splits) metis

lemma undo_get: "map_of (undo tx m) k = map_option (set_back (map_of (rev (tx_beforeWorkspaces tx)) k)) (map_of m k)"
  by (auto simp: undo_def apply_updates_get restored_rev restored_get set_back_def split: option.splits)

lemma undo_keys: "map fst (undo tx m) = map fst m"
  unfolding undo_def by (rule apply_updates_keys) (auto dest: restored_present)

lemma undo_wf: "wf_map m \<Longrightarrow> wf_map (undo tx m)"
  unfolding undo_def by (rule apply_updates_wf)

lemma undo_idem: "wf_map m \<Longrightarrow> undo tx (undo tx m) = undo tx m"
proof (rule same_map)
  show "map_of (undo tx (undo tx m)) k = map_of (undo tx m) k" for k
    by (auto simp: undo_get set_back_def option.map_comp comp_def split: option.splits
        intro!: option.map_cong0)
qed (simp_all add: undo_keys undo_wf)

lemma undo_none: "restored (tx_beforeWorkspaces tx) m = [] \<Longrightarrow> undo tx m = m"
  by (simp add: undo_def)

section \<open>Weakest preconditions\<close>

text \<open>Three postconditions: for a normal return, for an exception and for a crash.\<close>

definition wp ::
  "'a io \<Rightarrow> ('a \<Rightarrow> label_world \<Rightarrow> bool) \<Rightarrow> (store_error \<Rightarrow> label_world \<Rightarrow> bool) \<Rightarrow> (label_world \<Rightarrow> bool)
     \<Rightarrow> label_world \<Rightarrow> bool" where
  "wp m Q E C w = (case m w of
       (Returned a, w') \<Rightarrow> Q a w'
     | (Threw e, w') \<Rightarrow> E e w'
     | (Crashed, w') \<Rightarrow> C w')"

named_theorems wp_rules "weakest preconditions of the primitives"

lemma wp_bind [wp_rules]: "wp (io_bind m f) Q E C = wp m (\<lambda>a. wp (f a) Q E C) E C"
  by (rule ext) (auto simp: wp_def io_bind_def split: prod.splits outcome.splits)

lemma wp_catch [wp_rules]: "wp (io_catch m h) Q E C = wp m Q (\<lambda>e. wp (h e) Q E C) C"
  by (rule ext) (auto simp: wp_def io_catch_def split: prod.splits outcome.splits)

lemma wp_return [wp_rules]: "wp (io_return a) Q E C = Q a"
  by (rule ext) (simp add: wp_def io_return_def)

lemma wp_throw [wp_rules]: "wp (io_throw e) Q E C = E e"
  by (rule ext) (simp add: wp_def io_throw_def)

lemma wp_modify [wp_rules]: "wp (io_modify f) Q E C = (\<lambda>w. Q () (f w))"
  by (rule ext) (simp add: wp_def io_modify_def)

lemma wp_write:
  assumes "Q () (f (spent w))" "E IoFailed (spent w)" "E IoFailed (f (spent w))" "C (spent w)" "C (f (spent w))"
  shows "wp (disk_write f) Q E C w"
  using assms by (simp add: wp_def disk_write_def split: fault.split)

lemma wp_read:
  assumes "Q (g w) (spent w)" "E IoFailed (spent w)" "C (spent w)"
  shows "wp (disk_read g) Q E C w"
  using assms by (simp add: wp_def disk_read_def split: fault.split)

lemma wp_mono:
  assumes "wp m Q E C w" "\<And>a w'. Q a w' \<Longrightarrow> Q' a w'" "\<And>e w'. E e w' \<Longrightarrow> E' e w'" "\<And>w'. C w' \<Longrightarrow> C' w'"
  shows "wp m Q' E' C' w"
  using assms by (auto simp: wp_def split: prod.splits outcome.splits)

lemma wp_block [wp_rules]:
  "wp blockUntilRestart Q E C = (\<lambda>w. E StorageUncertain (w\<lparr>st_blocked := True, rg_frozen := True\<rparr>))"
  by (simp add: blockUntilRestart_def freezeMutationsUntilRestart_def wp_rules)

lemma spent_simps [simp]:
  "fl_catalog (spent w) = fl_catalog w" "fl_transaction (spent w) = fl_transaction w"
  "fl_workspaces (spent w) = fl_workspaces w" "st_loaded (spent w) = st_loaded w"
  "st_labels (spent w) = st_labels w" "st_blocked (spent w) = st_blocked w" "rg_loaded (spent w) = rg_loaded w"
  "rg_cache (spent w) = rg_cache w" "rg_frozen (spent w) = rg_frozen w"
  by (simp_all add: spent_def)

lemma spent_files [simp]:
  "catalog_of (spent w) = catalog_of w" "records_of (spent w) = records_of w" "durable (spent w) = durable w"
  "pending_tx (spent w) = pending_tx w" "stored_state (spent w) = stored_state w"
  by (simp_all add: catalog_of_def records_of_def durable_def pending_tx_def stored_state_def cong: option.case_cong)

lemmas file_defs = stores_def stored_state_def durable_def pending_tx_def catalog_of_def records_of_def

lemma stores_spent [simp]: "stores s (spent w) = stores s w"
  and ready_spent [simp]: "ready s (spent w) = ready s w"
  by (simp_all add: stores_def ready_def memory_at_def)

lemma ready_stores: "ready s w \<Longrightarrow> stores s w"
  by (auto simp: ready_def stores_def stored_state_def durable_def)

section \<open>Recovery\<close>

text \<open>The registry as the store meets it: loaded and not frozen.\<close>

definition registry_at :: "workspaces \<Rightarrow> label_world \<Rightarrow> bool" where
  "registry_at m w = (rg_loaded w \<and> \<not> rg_frozen w \<and> rg_cache w = m)"

lemma registry_load_loaded: "rg_loaded w \<Longrightarrow> registry_load w = (Returned (), w)"
  by (simp add: registry_load_def)

lemma bind_returned: "m w = (Returned a, w') \<Longrightarrow> io_bind m f w = f a w'"
  by (simp add: io_bind_def)

lemma wp_at: "m w = m' w \<Longrightarrow> wp m Q E C w = wp m' Q E C w"
  by (simp add: wp_def)

lemma wp_mutate_refused:
  assumes "registry_at m w" "updater m = Inl e"
  shows "wp (mutateCache updater bw aw ac) Q E C w = E e w"
proof -
  have "mutateCache updater bw aw ac w = io_throw e w"
    using assms by (simp add: mutateCache_def bind_returned [OF registry_load_loaded] registry_at_def io_throw_def)
  then show ?thesis using wp_at [of _ w "io_throw e"] by (simp add: wp_rules)
qed

lemma wp_mutate_nothing:
  assumes "registry_at m w" "updater m = Inr (None, False, r)"
  shows "wp (mutateCache updater bw aw ac) Q E C w = Q r w"
proof -
  have "mutateCache updater bw aw ac w = io_return r w"
    using assms by (simp add: mutateCache_def bind_returned [OF registry_load_loaded] registry_at_def io_return_def)
  then show ?thesis using wp_at [of _ w "io_return r"] by (simp add: wp_rules)
qed

text \<open>What a mutation writes, and what it keeps in memory when it has.\<close>

definition write_staged :: "workspaces option \<Rightarrow> unit io" where
  "write_staged staged = (case staged of None \<Rightarrow> io_return () | Some records \<Rightarrow> writeRecords records)"

definition keep_staged :: "workspaces option \<Rightarrow> label_world \<Rightarrow> label_world" where
  "keep_staged staged w = (case staged of None \<Rightarrow> w | Some records \<Rightarrow> w\<lparr>rg_cache := records\<rparr>)"

lemma wp_mutate:
  assumes "registry_at m w" "updater m = Inr (staged, force, r)" "staged \<noteq> None \<or> force"
  shows "wp (mutateCache updater bw aw ac) Q E C w =
    wp (bw r) (\<lambda>_. wp (write_staged staged) (\<lambda>_. wp (aw r) (\<lambda>_ w. Q r (ac r (keep_staged staged w))) E C) E C) E C w"
proof -
  let ?prog = "io_bind (bw r) (\<lambda>_. io_bind (write_staged staged) (\<lambda>_. io_bind (aw r) (\<lambda>_.
      io_bind (case staged of None \<Rightarrow> io_return () | Some records \<Rightarrow> io_modify (\<lambda>w. w\<lparr>rg_cache := records\<rparr>)) (\<lambda>_.
      io_bind (io_modify (ac r)) (\<lambda>_. io_return r)))))"
  have "mutateCache updater bw aw ac w = ?prog w"
    using assms
    by (auto simp: mutateCache_def bind_returned [OF registry_load_loaded] registry_at_def write_staged_def)
  then have "wp (mutateCache updater bw aw ac) Q E C w = wp ?prog Q E C w" by (rule wp_at)
  then show ?thesis by (cases staged) (simp_all add: wp_rules keep_staged_def)
qed

lemma wp_removal:
  "wp removeTransaction Q E C w =
     wp (disk_write (\<lambda>w. w\<lparr>fl_transaction := None\<rparr>))
       (\<lambda>_. if fl_transaction w = None then E IoFailed else Q ()) E C w"
proof -
  have "wp removeTransaction Q E C w = wp (io_bind (disk_write (\<lambda>w. w\<lparr>fl_transaction := None\<rparr>))
       (\<lambda>_. if fl_transaction w = None then io_throw IoFailed else io_return ())) Q E C w"
    by (rule wp_at) (simp only: removeTransaction_def)
  then show ?thesis by (simp add: wp_rules)
qed

lemma wp_remove:
  assumes "fl_transaction w \<noteq> None" "Q () ((spent w)\<lparr>fl_transaction := None\<rparr>)" "E IoFailed (spent w)"
    "E IoFailed ((spent w)\<lparr>fl_transaction := None\<rparr>)" "C (spent w)" "C ((spent w)\<lparr>fl_transaction := None\<rparr>)"
  shows "wp removeTransaction Q E C w"
  unfolding wp_removal using assms by (intro wp_write) simp_all

lemma wp_cleanup:
  assumes "Q () (spent w)" "Q () ((spent w)\<lparr>fl_transaction := None\<rparr>)" "C (spent w)"
    "C ((spent w)\<lparr>fl_transaction := None\<rparr>)"
  shows "wp removeTransaction Q (\<lambda>e. Q ()) C w"
  unfolding wp_removal using assms by (intro wp_write) simp_all

text \<open>Undoing a prepared transaction: whatever fails, the files stand for the same state, and if nothing
  does the transaction is gone and files and memory hold that state.\<close>

lemma wp_undo:
  fixes tx :: WorkspaceLabelTransaction and m :: workspaces
  defines "s \<equiv> (tx_beforeLabels tx, undo tx m)"
  assumes tx: "tx_phase tx = Prepared" "fl_transaction w = Some tx"
    and reg: "registry_at m w" and files: "undo tx (records_of w) = undo tx m" "wf_map (records_of w)" "wf_map m"
    and none: "restored (tx_beforeWorkspaces tx) m = [] \<longrightarrow> records_of w = m"
  shows "wp (recover tx)
    (\<lambda>_ w'. durable w' = s \<and> fl_transaction w' = None \<and> st_labels w' = fst s \<and> registry_at (snd s) w'
        \<and> st_loaded w' = st_loaded w \<and> st_blocked w' = st_blocked w)
    (\<lambda>_ w'. stores s w' \<and> st_loaded w' = st_loaded w) (stores s) w" (is "wp _ ?Q ?E ?C w")
proof -
  let ?rs = "restored (tx_beforeWorkspaces tx) m"
  define staged where "staged = (if ?rs = [] then None else Some (undo tx m))"
  define during where "during = (\<lambda>w'. fl_transaction w' = Some tx \<and> registry_at m w'
      \<and> (records_of w' = records_of w \<or> records_of w' = undo tx m)
      \<and> st_loaded w' = st_loaded w \<and> st_blocked w' = st_blocked w)"
  define post where "post = (\<lambda>w. ?Q () ((keep_staged staged w)\<lparr>st_labels := tx_beforeLabels tx\<rparr>))"
  have idem: "undo tx (undo tx m) = undo tx m" "wf_map (undo tx m)"
    using files(3) by (simp_all add: undo_idem undo_wf)
  have safe: "stores s w'" if "during w'" for w'
    using that tx(1) files idem by (auto simp: during_def s_def stores_def stored_state_def pending_tx_def)
  have fails: "?E e w'" if "during w'" for e w'
    using safe [OF that] that by (simp add: during_def)
  have removed: "wp removeTransaction (\<lambda>_. post) ?E ?C w'"
    if "during w'" "catalog_of w' = tx_beforeLabels tx" "records_of w' = undo tx m" for w'
  proof -
    have 1: "stores s (spent w')" using safe [OF that(1)] by simp
    have 2: "stores s ((spent w')\<lparr>fl_transaction := None\<rparr>)"
      using that(2,3) idem(2)
      by (simp add: stores_def s_def stored_state_def pending_tx_def durable_def catalog_of_def records_of_def)
    have 3: "post ((spent w')\<lparr>fl_transaction := None\<rparr>)"
      using that none undo_none [of tx m]
      by (auto simp: post_def during_def registry_at_def keep_staged_def staged_def durable_def s_def catalog_of_def
          records_of_def)
    show ?thesis using that(1) 1 2 3 by (intro wp_remove) (simp_all add: during_def)
  qed
  have written: "wp (write_staged staged)
      (\<lambda>_. wp removeTransaction (\<lambda>_. post) ?E ?C) ?E ?C w'"
    if "during w'" "catalog_of w' = tx_beforeLabels tx" "records_of w' = records_of w" for w'
  proof (cases "?rs = []")
    case True
    with that none undo_none [of tx m] show ?thesis
      by (simp add: write_staged_def staged_def wp_rules removed)
  next
    case False
    let ?w = "(spent w')\<lparr>fl_workspaces := Some (undo tx m)\<rparr>"
    have "during (spent w')" "during ?w" "catalog_of ?w = tx_beforeLabels tx" "records_of ?w = undo tx m"
      using that by (simp_all add: during_def registry_at_def catalog_of_def records_of_def)
    then have "wp (writeRecords (undo tx m)) (\<lambda>_. wp removeTransaction (\<lambda>_. post) ?E ?C) ?E ?C w'"
      unfolding writeRecords_def by (intro wp_write removed fails safe)
    with False show ?thesis by (simp add: write_staged_def staged_def)
  qed
  have "wp (writeCatalog (tx_beforeLabels tx)) (\<lambda>_. wp (write_staged staged)
      (\<lambda>_. wp removeTransaction (\<lambda>_. post) ?E ?C) ?E ?C) ?E ?C w"
  proof -
    let ?w = "(spent w)\<lparr>fl_catalog := Some (tx_beforeLabels tx)\<rparr>"
    have "during (spent w)" "during ?w" "catalog_of ?w = tx_beforeLabels tx" "records_of ?w = records_of w"
      using tx(2) reg by (simp_all add: during_def registry_at_def catalog_of_def records_of_def)
    then show ?thesis unfolding writeCatalog_def by (intro wp_write written fails safe)
  qed
  then show ?thesis
    using tx(1) wp_mutate [OF reg, where staged = staged and force = True and r = "()"]
    by (simp add: recover_def commitWorkspaceLabelMutation_def staged_def undo_def post_def)
qed

text \<open>Starting the daemon: files and memory hold the state the files stood for, or the files still do. The first
  access is the read of the registry; when it throws, the registry is taken for an empty one, so the scripts here are those in
  which it succeeds or crashes.\<close>

definition registry_readable :: "fault list \<Rightarrow> bool" where
  "registry_readable fs = (case fs of [] \<Rightarrow> True | f # _ \<Rightarrow> f \<noteq> ThrowsBefore \<and> f \<noteq> ThrowsAfter)"

lemma wp_startup_read:
  assumes "stores s w0" "fs = [] \<or> hd fs = Fine"
  shows "wp startup (\<lambda>_. ready s) (\<lambda>_. stores s) (stores s) (restarted fs w0)"
proof -
  let ?m = "records_of w0"
  define w where "w = (restarted (tl fs) w0)\<lparr>rg_cache := ?m, rg_loaded := True\<rparr>"
  have wf: "wf_map ?m" using assms by (simp add: stores_def)
  have load: "registry_load (restarted fs w0) = (Returned (), w)"
    using wf assms(2)
    by (cases fs) (auto simp: registry_load_def w_def restarted_def io_bind_def io_catch_def disk_read_def next_fault_def
        spent_def io_modify_def apply_updates_fresh records_of_def)
  have files: "stored_state w = s" "records_of w = ?m" "registry_at ?m w" "\<not> st_loaded w" "\<not> st_blocked w"
    using assms
    by (simp_all add: w_def restarted_def stores_def stored_state_def records_of_def durable_def catalog_of_def
        pending_tx_def registry_at_def cong: option.case_cong)
  have safe: "stores s w" using files wf by (simp add: stores_def)
  have "wp startup (\<lambda>_. ready s) (\<lambda>_. stores s) (stores s) (restarted fs w0)
      = wp loadAndRecover (\<lambda>_. ready s) (\<lambda>_. stores s) (stores s) w"
    using load files(4) by (simp add: wp_def startup_def bind_returned store_initialize_def)
  also have "\<dots>"
  proof (cases "fl_transaction w")
    case None
    then have "s = durable w" using files by (simp add: stored_state_def pending_tx_def)
    with None files wf have "ready s (w'\<lparr>st_labels := catalog_of w, st_loaded := True\<rparr>)" if "w' = spent (spent w)" for w'
      using that by (simp add: ready_def memory_at_def durable_def pending_tx_def registry_at_def catalog_of_def records_of_def)
    with None safe show ?thesis
      by (simp add: loadAndRecover_def readTransaction_def readCatalog_def wp_rules wp_read)
  next
    case (Some tx)
    show ?thesis
    proof (cases "tx_phase tx")
      case Prepared
      have s: "s = (tx_beforeLabels tx, undo tx ?m)"
        using files(1,2) Some Prepared by (simp add: stored_state_def pending_tx_def)
      have "wp (recover tx) (\<lambda>_ w'. ready s (w'\<lparr>st_loaded := True\<rparr>)) (\<lambda>_. stores s) (stores s) (spent w)"
        using files(2,3) Some Prepared wf
        by (intro wp_mono [OF wp_undo [of tx "spent w" ?m]])
           (auto simp: s undo_wf registry_at_def ready_def memory_at_def durable_def pending_tx_def catalog_of_def
             records_of_def files(5))
      with Some safe show ?thesis
        by (simp add: loadAndRecover_def readTransaction_def wp_rules wp_read)
    next
      case Committed
      then have s: "s = durable w" using files Some by (simp add: stored_state_def pending_tx_def)
      let ?w = "(spent (spent w))\<lparr>st_labels := catalog_of w\<rparr>"
      have "ready s ((spent ?w)\<lparr>st_loaded := True\<rparr>)" "ready s ((spent ?w)\<lparr>fl_transaction := None, st_loaded := True\<rparr>)"
        "stores s (spent ?w)" "stores s ((spent ?w)\<lparr>fl_transaction := None\<rparr>)"
        using files wf Some Committed
        by (simp_all add: s ready_def memory_at_def stores_def stored_state_def durable_def pending_tx_def registry_at_def
            catalog_of_def records_of_def)
      then have "wp removeTransaction (\<lambda>_ w. ready s (w\<lparr>st_loaded := True\<rparr>)) (\<lambda>_ w. ready s (w\<lparr>st_loaded := True\<rparr>))
          (stores s) ?w"
        by (intro wp_cleanup)
      with Some Committed safe show ?thesis
        by (simp add: loadAndRecover_def readTransaction_def readCatalog_def recover_def wp_rules wp_read)
    qed
  qed
  finally show ?thesis .
qed

lemma wp_startup:
  assumes "stores s w0" "registry_readable fs"
  shows "wp startup (\<lambda>_. ready s) (\<lambda>_. stores s) (stores s) (restarted fs w0)"
proof (cases "fs = [] \<or> hd fs = Fine")
  case True
  with assms(1) show ?thesis by (rule wp_startup_read)
next
  case False
  with assms(2) obtain f fs' where fs: "fs = f # fs'" "f = CrashesBefore \<or> f = CrashesAfter"
    by (cases fs; cases "hd fs") (auto simp: registry_readable_def)
  have "stores s (restarted fs' w0)"
    using assms(1) by (simp add: restarted_def file_defs cong: option.case_cong)
  moreover have "startup (restarted fs w0) = (Crashed, restarted fs' w0)"
    using fs by (auto simp: startup_def registry_load_def restarted_def io_bind_def io_catch_def disk_read_def
        next_fault_def spent_def)
  ultimately show ?thesis by (simp add: wp_def)
qed


section \<open>Planners\<close>

definition planned :: "'r planner \<Rightarrow> label_contents \<Rightarrow> label_contents" where
  "planned planner s = (case planner (fst s) (snd s) of
       Inl _ \<Rightarrow> s
     | Inr m \<Rightarrow> (mu_labels m, apply_updates (mu_updates m) (snd s)))"

text \<open>What the store relies on: a plan updates records that exist, and of these only the labels and the
  time of the update. Then undoing from the before-images gives back the records, before and after
  the update is written.\<close>

lemma before_states:
  assumes "\<And>k v. (k, v) \<in> set (mu_updates mu) \<Longrightarrow> map_of m k \<noteq> None"
  shows "map_of (rev (tx_beforeWorkspaces (transactionFor labels mu m))) k =
    (if k \<in> fst ` set (mu_updates mu) then map_option workspaceState (map_of m k) else None)"
proof -
  let ?f = "\<lambda>(k, _). case map_of m k of Some u \<Rightarrow> [(k, workspaceState u)] | None \<Rightarrow> []"
  have rev: "rev (concat (map ?f us)) = concat (map ?f (rev us))" for us :: workspaces
    by (induction us) (auto split: option.splits)
  have get: "map_of (concat (map ?f us)) k = (if k \<in> fst ` set us then map_option workspaceState (map_of m k) else None)"
    if "\<And>k v. (k, v) \<in> set us \<Longrightarrow> map_of m k \<noteq> None" for us :: workspaces
    using that
  proof (induction us)
    case (Cons x us)
    obtain j v where x: "x = (j, v)" by (cases x)
    then obtain u where "map_of m j = Some u" using Cons.prems [of j v] by auto
    moreover have "map_of (concat (map ?f us)) k = (if k \<in> fst ` set us then map_option workspaceState (map_of m k) else None)"
      using Cons.prems by (intro Cons.IH) auto
    ultimately show ?case using x by simp
  qed simp
  show ?thesis
    using get [of "rev (mu_updates mu)"] assms by (simp add: transactionFor_def rev)
qed

lemma set_back_own: "lw_archived v = lw_archived u \<Longrightarrow> set_back (Some (workspaceState u)) v = u"
  by (cases u; cases v) (simp add: set_back_def workspaceState_def)

locale label_planner =
  fixes planner :: "'r planner"
  assumes updates_present: "wf_map m \<Longrightarrow> planner labels m = Inr mu \<Longrightarrow> (k, v) \<in> set (mu_updates mu)
      \<Longrightarrow> \<exists>u. map_of m k = Some u \<and> lw_archived v = lw_archived u"
begin

lemma undo_before:
  assumes "wf_map m" "planner labels m = Inr mu"
  shows "undo (transactionFor labels mu m) m = m"
proof (rule same_map)
  have present: "map_of m k \<noteq> None" if "(k, v) \<in> set (mu_updates mu)" for k v
    using updates_present [OF assms that] by auto
  show "map_of (undo (transactionFor labels mu m) m) k = map_of m k" for k
    by (cases "map_of m k")
       (auto simp: undo_get before_states [of mu m, OF present] set_back_own set_back_def [of None])
qed (use assms in \<open>simp_all add: undo_keys undo_wf\<close>)

lemma planned_wf: "wf_map (snd s) \<Longrightarrow> wf_map (snd (planned planner s))"
  by (simp add: planned_def apply_updates_wf split: sum.split)

lemma undo_after:
  assumes "wf_map m" "planner labels m = Inr mu"
  shows "undo (transactionFor labels mu m) (apply_updates (mu_updates mu) m) = m"
proof (rule same_map)
  have present: "map_of m k \<noteq> None" if "(k, v) \<in> set (mu_updates mu)" for k v
    using updates_present [OF assms that] by auto
  show "map fst (undo (transactionFor labels mu m) (apply_updates (mu_updates mu) m)) = map fst m"
    using present by (subst undo_keys, subst apply_updates_keys) auto
  show "map_of (undo (transactionFor labels mu m) (apply_updates (mu_updates mu) m)) k = map_of m k" for k
  proof (cases "map_of (rev (mu_updates mu)) k")
    case None
    then have "k \<notin> fst ` set (mu_updates mu)" by (auto simp: map_of_eq_None_iff)
    with None show ?thesis
      by (cases "map_of m k")
         (simp_all add: undo_get apply_updates_get before_states [of mu m, OF present] set_back_def)
  next
    case (Some v)
    then have v: "(k, v) \<in> set (mu_updates mu)" by (auto dest: map_of_SomeD)
    then obtain u where "map_of m k = Some u" "lw_archived v = lw_archived u"
      using updates_present [OF assms] by blast
    moreover have "k \<in> fst ` set (mu_updates mu)" using v by force
    ultimately show ?thesis using Some
      by (simp add: undo_get apply_updates_get before_states [of mu m, OF present] set_back_own)
  qed
  show "wf_map (undo (transactionFor labels mu m) (apply_updates (mu_updates mu) m))"
    using assms(1) by (simp add: undo_wf apply_updates_wf)
qed

lemma nothing_restored:
  assumes "wf_map m" "planner labels m = Inr mu"
    "restored (tx_beforeWorkspaces (transactionFor labels mu m)) m = []"
  shows "mu_updates mu = []"
proof (rule ccontr)
  assume "mu_updates mu \<noteq> []"
  then obtain k v where v: "(k, v) \<in> set (mu_updates mu)" by (cases "mu_updates mu") auto
  then obtain u where "map_of m k = Some u" using updates_present [OF assms(1,2)] by blast
  with v have "(k, workspaceState u) \<in> set (tx_beforeWorkspaces (transactionFor labels mu m))"
    by (force simp: transactionFor_def)
  with \<open>map_of m k = Some u\<close> assms(3) show False by (force simp: restored_def)
qed

end

section \<open>Commits under faults\<close>

text \<open>How far a commit has come when it fails: memory is as before and the files hold the old contents
  and no prepared transaction, a prepared one, or the new contents and a committed one.\<close>

definition untouched :: "label_contents \<Rightarrow> label_world \<Rightarrow> bool" where
  "untouched s w = (memory_at s w \<and> pending_tx w = None \<and> durable w = s)"

definition half_way :: "label_contents \<Rightarrow> WorkspaceLabelTransaction \<Rightarrow> workspaces \<Rightarrow> label_world \<Rightarrow> bool" where
  "half_way s tx after w = (memory_at s w \<and> fl_transaction w = Some tx \<and> (records_of w = snd s \<or> records_of w = after))"

definition written :: "label_contents \<Rightarrow> label_contents \<Rightarrow> label_world \<Rightarrow> bool" where
  "written s after w = (memory_at s w \<and> durable w = after \<and> wf_map (snd after)
     \<and> (\<exists>tx. fl_transaction w = Some tx \<and> tx_phase tx = Committed))"

lemma memory_spent [simp]: "memory_at s (spent w) = memory_at s w"
  by (simp add: memory_at_def)

lemma progress_spent [simp]:
  "untouched s (spent w) = untouched s w" "half_way s tx m (spent w) = half_way s tx m w"
  "written s after (spent w) = written s after w"
  by (simp_all add: untouched_def half_way_def written_def)

lemma catalogsEqual_iff: "catalogsEqual left right \<longleftrightarrow> left = right"
proof -
  have "lb_name l = lb_name r \<and> lb_color l = lb_color r \<longleftrightarrow> l = r" for l r :: WorkspaceLabelDefinition
    by (cases l; cases r) simp
  then show ?thesis by (simp add: catalogsEqual_def list.rel_eq [unfolded fun_eq_iff])
qed

lemma shut_block: "st_loaded w \<Longrightarrow> shut (w\<lparr>st_blocked := True, rg_frozen := True\<rparr>)"
  by (simp add: shut_def)

lemma stores_block [simp]: "stores s (w\<lparr>st_blocked := b, rg_frozen := c\<rparr>) = stores s w"
  by (simp add: file_defs cong: option.case_cong)

lemma untouched_ready: "untouched s w \<Longrightarrow> wf_map (snd s) \<Longrightarrow> ready s w"
  by (simp add: untouched_def ready_def)

lemma written_stores: "written s after w \<Longrightarrow> stores after w"
  by (auto simp: written_def stores_def stored_state_def pending_tx_def durable_def)

context label_planner
begin

lemma half_way_stores:
  assumes "wf_map (snd s)" "planner (fst s) (snd s) = Inr mu"
    "half_way s (transactionFor (fst s) mu (snd s)) (apply_updates (mu_updates mu) (snd s)) w"
  shows "stores s w"
proof -
  have "undo (transactionFor (fst s) mu (snd s)) (records_of w) = snd s" "wf_map (records_of w)"
    using assms(1,3) undo_before [OF assms(1,2)] undo_after [OF assms(1,2)]
    by (auto simp: half_way_def apply_updates_wf)
  with assms(3) show ?thesis
    by (simp add: half_way_def stores_def stored_state_def pending_tx_def transactionFor_def)
qed

text \<open>A failed commit is rolled back, or, when that fails or the outcome cannot be told, the store shuts.\<close>

lemma wp_resolve:
  assumes wf: "wf_map (snd s)"
    and w: "untouched s w \<or> (\<exists>mu. planner (fst s) (snd s) = Inr mu
      \<and> (half_way s (transactionFor (fst s) mu (snd s)) (apply_updates (mu_updates mu) (snd s)) w
         \<or> written s (planned planner s) w))"
  shows "wp (resolveFailedCommit e) Q
    (\<lambda>e' w'. e' = StorageUncertain \<and> shut w' \<and> (stores s w' \<or> stores (planned planner s) w') \<or> e' = e \<and> ready s w')
    (\<lambda>w'. stores s w' \<or> stores (planned planner s) w') w" (is "wp _ _ ?E ?C w")
proof -
  have mem: "memory_at s w" using w by (auto simp: untouched_def half_way_def written_def)
  have safe: "stores s w \<or> stores (planned planner s) w"
    using w wf half_way_stores [OF wf] written_stores ready_stores [OF untouched_ready] by blast
  have block: "?E StorageUncertain (w'\<lparr>st_blocked := True, rg_frozen := True\<rparr>)"
    if "st_loaded w'" "stores s w' \<or> stores (planned planner s) w'" for w'
    using that by (simp add: shut_block)
  have loaded: "st_loaded w" using mem by (simp add: memory_at_def)
  have "wp (case fl_transaction w of
         None \<Rightarrow> io_throw e
       | Some tx \<Rightarrow>
           if tx_phase tx = Committed then blockUntilRestart
           else io_bind (io_catch (recover tx) (\<lambda>_. blockUntilRestart)) (\<lambda>_. io_throw e)) Q ?E ?C (spent w)"
  proof (cases "fl_transaction w")
    case None
    with w have "untouched s w" by (auto simp: half_way_def written_def)
    with None wf show ?thesis by (simp add: wp_rules untouched_ready)
  next
    case (Some tx)
    show ?thesis
    proof (cases "tx_phase tx")
      case Committed
      with Some safe loaded show ?thesis by (simp add: wp_rules shut_block)
    next
      case Prepared
      with w Some obtain mu where mu: "planner (fst s) (snd s) = Inr mu"
        and half: "half_way s (transactionFor (fst s) mu (snd s)) (apply_updates (mu_updates mu) (snd s)) w"
        by (auto simp: untouched_def written_def pending_tx_def)
      with Some have tx: "tx = transactionFor (fst s) mu (snd s)" by (simp add: half_way_def)
      have s: "(tx_beforeLabels tx, undo tx (snd s)) = s"
        using undo_before [OF wf mu] by (simp add: tx) (simp add: transactionFor_def)
      have "undo tx (records_of w) = undo tx (snd s)" "wf_map (records_of w)"
        "restored (tx_beforeWorkspaces tx) (snd s) = [] \<longrightarrow> records_of w = snd s"
        using half wf undo_before [OF wf mu] undo_after [OF wf mu] nothing_restored [OF wf mu]
        by (auto simp: half_way_def tx apply_updates_wf)
      then have "wp (recover tx)
          (\<lambda>_ w'. durable w' = s \<and> fl_transaction w' = None \<and> st_labels w' = fst s \<and> registry_at (snd s) w'
            \<and> st_loaded w' = st_loaded (spent w) \<and> st_blocked w' = st_blocked (spent w))
          (\<lambda>_ w'. stores s w' \<and> st_loaded w' = st_loaded (spent w)) (stores s) (spent w)"
        using wp_undo [of tx "spent w" "snd s", unfolded s] Prepared Some mem wf
        by (simp add: memory_at_def registry_at_def)
      then have "wp (recover tx) (\<lambda>_ w'. ?E e w') (\<lambda>_ w'. ?E StorageUncertain (w'\<lparr>st_blocked := True, rg_frozen := True\<rparr>)) ?C (spent w)"
      proof (rule wp_mono)
        fix w'
        assume "durable w' = s \<and> fl_transaction w' = None \<and> st_labels w' = fst s \<and> registry_at (snd s) w'
            \<and> st_loaded w' = st_loaded (spent w) \<and> st_blocked w' = st_blocked (spent w)"
        with mem wf show "?E e w'" by (simp add: ready_def memory_at_def registry_at_def pending_tx_def)
      next
        fix w'
        assume "stores s w' \<and> st_loaded w' = st_loaded (spent w)"
        with loaded show "?E StorageUncertain (w'\<lparr>st_blocked := True, rg_frozen := True\<rparr>)"
          by (simp add: shut_block)
      qed simp
      with Some Prepared show ?thesis by (simp add: wp_rules)
    qed
  qed
  with safe loaded show ?thesis
    by (simp add: resolveFailedCommit_def readTransaction_def wp_rules wp_read shut_block)
qed

end

text \<open>What a commit promises, in each of the three ways it may end.\<close>

definition commit_returned :: "'r planner \<Rightarrow> label_contents \<Rightarrow> 'r \<Rightarrow> label_world \<Rightarrow> bool" where
  "commit_returned planner s r w = ((\<exists>mu. planner (fst s) (snd s) = Inr mu \<and> r = mu_result mu) \<and> ready (planned planner s) w)"

definition commit_threw :: "'r planner \<Rightarrow> label_contents \<Rightarrow> store_error \<Rightarrow> label_world \<Rightarrow> bool" where
  "commit_threw planner s e w = (if e = StorageUncertain then shut w \<and> (stores s w \<or> stores (planned planner s) w)
     else ready s w \<and> (\<forall>l. e = Refused l \<longrightarrow> planner (fst s) (snd s) = Inl l))"

definition commit_crashed :: "'r planner \<Rightarrow> label_contents \<Rightarrow> label_world \<Rightarrow> bool" where
  "commit_crashed planner s w = (stores s w \<or> stores (planned planner s) w)"

context label_planner
begin

lemma wp_main:
  fixes s :: label_contents and mu :: "'r WorkspaceLabelMutation"
  defines "tx \<equiv> transactionFor (fst s) mu (snd s)"
    and "staged \<equiv> if mu_updates mu = [] then None else Some (apply_updates (mu_updates mu) (snd s))"
  assumes wf: "wf_map (snd s)" and mu: "planner (fst s) (snd s) = Inr mu" and w: "untouched s w"
    and fails: "\<And>w'. untouched s w' \<or> half_way s tx (apply_updates (mu_updates mu) (snd s)) w'
        \<or> written s (planned planner s) w' \<Longrightarrow> E IoFailed w'"
    and stops: "\<And>w'. stores s w' \<or> stores (planned planner s) w' \<Longrightarrow> C w'"
    and returns: "\<And>w'. written s (planned planner s) w' \<Longrightarrow> Q w'"
  shows "wp (io_bind (writeTransaction tx) (\<lambda>_. writeCatalog (tx_afterLabels tx)))
    (\<lambda>_. wp (write_staged staged) (\<lambda>_. wp (writeTransaction (tx\<lparr>tx_phase := Committed\<rparr>)) (\<lambda>_. Q) E C) E C) E C w"
proof -
  let ?after = "apply_updates (mu_updates mu) (snd s)"
  have after: "planned planner s = (mu_labels mu, ?after)" by (simp add: planned_def mu)
  have half: "C w'" "E IoFailed w'" if "half_way s tx ?after w'" for w'
    using that half_way_stores [OF wf mu] stops fails by (auto simp: tx_def)
  have committed: "wp (writeTransaction (tx\<lparr>tx_phase := Committed\<rparr>)) (\<lambda>_. Q) E C w'"
    if "half_way s tx ?after w'" "catalog_of w' = mu_labels mu" "records_of w' = ?after" for w'
  proof -
    let ?w = "(spent w')\<lparr>fl_transaction := Some (tx\<lparr>tx_phase := Committed\<rparr>)\<rparr>"
    have wr: "written s (planned planner s) ?w"
      using that wf
      by (simp add: written_def half_way_def after memory_at_def durable_def catalog_of_def records_of_def apply_updates_wf)
    then have "stores (planned planner s) ?w" by (rule written_stores)
    with wr that(1) half fails stops returns show ?thesis
      unfolding writeTransaction_def by (intro wp_write) auto
  qed
  have recs: "wp (write_staged staged) (\<lambda>_. wp (writeTransaction (tx\<lparr>tx_phase := Committed\<rparr>)) (\<lambda>_. Q) E C) E C w'"
    if "half_way s tx ?after w'" "catalog_of w' = mu_labels mu" "records_of w' = snd s" for w'
  proof (cases "mu_updates mu = []")
    case True
    with that committed show ?thesis by (simp add: write_staged_def staged_def wp_rules)
  next
    case False
    let ?w = "(spent w')\<lparr>fl_workspaces := Some ?after\<rparr>"
    have "half_way s tx ?after ?w" "catalog_of ?w = mu_labels mu" "records_of ?w = ?after"
      using that by (simp_all add: half_way_def memory_at_def catalog_of_def records_of_def)
    then have "wp (writeRecords ?after) (\<lambda>_. wp (writeTransaction (tx\<lparr>tx_phase := Committed\<rparr>)) (\<lambda>_. Q) E C) E C w'"
      unfolding writeRecords_def using that(1) half by (intro wp_write committed) auto
    with False show ?thesis by (simp add: write_staged_def staged_def)
  qed
  have cat: "wp (writeCatalog (tx_afterLabels tx)) (\<lambda>_. wp (write_staged staged)
      (\<lambda>_. wp (writeTransaction (tx\<lparr>tx_phase := Committed\<rparr>)) (\<lambda>_. Q) E C) E C) E C w'"
    if "half_way s tx ?after w'" "records_of w' = snd s" for w'
  proof -
    let ?w = "(spent w')\<lparr>fl_catalog := Some (tx_afterLabels tx)\<rparr>"
    have "half_way s tx ?after ?w" "catalog_of ?w = mu_labels mu" "records_of ?w = snd s"
      using that by (simp_all add: half_way_def memory_at_def catalog_of_def records_of_def tx_def transactionFor_def)
    with that(1) half recs show ?thesis unfolding writeCatalog_def by (intro wp_write) auto
  qed
  let ?w = "(spent w)\<lparr>fl_transaction := Some tx\<rparr>"
  have h: "half_way s tx ?after ?w" "records_of ?w = snd s"
    using w by (auto simp: untouched_def half_way_def memory_at_def durable_def records_of_def)
  have "stores s w" using w wf by (intro ready_stores untouched_ready)
  with w have "E IoFailed (spent w)" "C (spent w)" using fails stops by simp_all
  with half [OF h(1)] cat [OF h] show ?thesis
    by (simp add: wp_rules) (simp add: writeTransaction_def wp_write)
qed

lemma wp_commit:
  assumes "ready s w"
  shows "wp (store_commit planner) (commit_returned planner s) (commit_threw planner s) (commit_crashed planner s) w"
    (is "wp _ ?Q ?E ?C w")
proof -
  let ?stage = "\<lambda>workspaces. case planner (fst s) workspaces of
                Inl e \<Rightarrow> Inl (Refused e)
              | Inr m \<Rightarrow> Inr (mu_updates m, mu_updates m \<noteq> [] \<or> \<not> catalogsEqual (fst s) (mu_labels m),
                             (m, transactionFor (fst s) m workspaces))"
  let ?body = "commitWorkspaceLabelMutation ?stage
             (\<lambda>(m, tx). io_bind (writeTransaction tx) (\<lambda>_. writeCatalog (tx_afterLabels tx)))
             (\<lambda>(m, tx). writeTransaction (tx\<lparr>tx_phase := Committed\<rparr>))
             (\<lambda>(m :: 'r WorkspaceLabelMutation, tx) w. w\<lparr>st_labels := mu_labels m\<rparr>)"
  let ?tail = "\<lambda>(m :: 'r WorkspaceLabelMutation, tx :: WorkspaceLabelTransaction). io_bind (io_catch removeTransaction (\<lambda>_. io_return ())) (\<lambda>_. io_return (mu_result m))"
  have wf: "wf_map (snd s)" and un: "untouched s w" and reg: "registry_at (snd s) w"
    using assms by (auto simp: ready_def untouched_def memory_at_def registry_at_def)
  have "store_commit planner w = io_bind (io_catch ?body resolveFailedCommit) ?tail w"
    using assms
    by (simp add: store_commit_def bind_returned store_initialize_def ready_def memory_at_def cong: sum.case_cong)
  then have "wp (store_commit planner) ?Q ?E ?C w = wp (io_bind (io_catch ?body resolveFailedCommit) ?tail) ?Q ?E ?C w"
    by (rule wp_at)
  also have "\<dots> = wp ?body (\<lambda>r. wp (?tail r) ?Q ?E ?C) (\<lambda>e. wp (resolveFailedCommit e) (\<lambda>r. wp (?tail r) ?Q ?E ?C) ?E ?C) ?C w"
    by (simp only: wp_bind wp_catch)
  also have "\<dots>"
  proof -
    have fails: "wp (resolveFailedCommit e) (\<lambda>r. wp (?tail r) ?Q ?E ?C) ?E ?C w'"
      if "untouched s w' \<or> (\<exists>mu. planner (fst s) (snd s) = Inr mu
          \<and> (half_way s (transactionFor (fst s) mu (snd s)) (apply_updates (mu_updates mu) (snd s)) w'
             \<or> written s (planned planner s) w'))"
        "\<forall>l. e = Refused l \<longrightarrow> planner (fst s) (snd s) = Inl l" "e \<noteq> StorageUncertain" for e w'
    proof (rule wp_mono [OF wp_resolve [OF wf that(1)]])
      fix e' w''
      assume "e' = StorageUncertain \<and> shut w'' \<and> (stores s w'' \<or> stores (planned planner s) w'') \<or> e' = e \<and> ready s w''"
      with that(2,3) show "?E e' w''" by (auto simp: commit_threw_def)
    qed (simp_all add: commit_crashed_def)
    have finish: "wp (?tail (mu, tx)) ?Q ?E ?C w'"
      if "ready (planned planner s) w'" "planner (fst s) (snd s) = Inr mu" for mu tx w'
    proof -
      have "ready (planned planner s) (spent w')" "ready (planned planner s) ((spent w')\<lparr>fl_transaction := None\<rparr>)"
        using that(1) by (simp_all add: ready_def memory_at_def durable_def pending_tx_def catalog_of_def records_of_def)
      then have "wp removeTransaction (\<lambda>_. ?Q (mu_result mu)) (\<lambda>_. ?Q (mu_result mu)) ?C w'"
        using that(2) ready_stores by (intro wp_cleanup) (auto simp: commit_returned_def commit_crashed_def)
      then show ?thesis by (simp add: wp_rules)
    qed
    show ?thesis
    proof (cases "planner (fst s) (snd s)")
      case (Inl l)
      with un fails [of w "Refused l"] show ?thesis
        unfolding commitWorkspaceLabelMutation_def by (subst wp_mutate_refused [OF reg]) auto
    next
      case (Inr mu)
      show ?thesis
      proof (cases "mu_updates mu = [] \<and> mu_labels mu = fst s")
        case True
        with Inr have "planned planner s = s" by (simp add: planned_def)
        with True Inr assms finish [of w mu] show ?thesis
          unfolding commitWorkspaceLabelMutation_def
          by (subst wp_mutate_nothing [OF reg]) (auto simp: catalogsEqual_iff)
      next
        case False
        let ?tx = "transactionFor (fst s) mu (snd s)"
        let ?staged = "if mu_updates mu = [] then None else Some (apply_updates (mu_updates mu) (snd s))"
        have after: "planned planner s = (mu_labels mu, apply_updates (mu_updates mu) (snd s))"
          by (simp add: planned_def Inr)
        have ret: "wp (?tail (mu, ?tx)) ?Q ?E ?C ((keep_staged ?staged w')\<lparr>st_labels := mu_labels mu\<rparr>)"
          if "written s (planned planner s) w'" for w'
          using that Inr
          by (intro finish)
             (auto simp: written_def ready_def memory_at_def keep_staged_def after durable_def pending_tx_def
               catalog_of_def records_of_def)
        have "wp (io_bind (writeTransaction ?tx) (\<lambda>_. writeCatalog (tx_afterLabels ?tx)))
            (\<lambda>_. wp (write_staged ?staged) (\<lambda>_. wp (writeTransaction (?tx\<lparr>tx_phase := Committed\<rparr>))
              (\<lambda>_ w. wp (?tail (mu, ?tx)) ?Q ?E ?C ((keep_staged ?staged w)\<lparr>st_labels := mu_labels mu\<rparr>))
              (\<lambda>e. wp (resolveFailedCommit e) (\<lambda>r. wp (?tail r) ?Q ?E ?C) ?E ?C) ?C)
              (\<lambda>e. wp (resolveFailedCommit e) (\<lambda>r. wp (?tail r) ?Q ?E ?C) ?E ?C) ?C)
            (\<lambda>e. wp (resolveFailedCommit e) (\<lambda>r. wp (?tail r) ?Q ?E ?C) ?E ?C) ?C w"
        proof (rule wp_main [OF wf Inr un])
          fix w'
          assume "untouched s w' \<or> half_way s ?tx (apply_updates (mu_updates mu) (snd s)) w' \<or> written s (planned planner s) w'"
          with Inr show "wp (resolveFailedCommit IoFailed) (\<lambda>r. wp (?tail r) ?Q ?E ?C) ?E ?C w'"
            by (intro fails) auto
        qed (simp add: commit_crashed_def, rule ret)
        with False Inr show ?thesis
          unfolding commitWorkspaceLabelMutation_def
          by (subst wp_mutate [OF reg, where staged = ?staged and force = True and r = "(mu, ?tx)"])
             (auto simp: catalogsEqual_iff)
      qed
    qed
  qed
  finally show ?thesis .
qed

end

section \<open>The planners of the service\<close>

lemma rewritten:
  "wf_map ws \<Longrightarrow> (k, v) \<in> set (rewriteAssignments ws fromKey to now) \<Longrightarrow>
     \<exists>u. map_of ws k = Some u \<and> lw_archived v = lw_archived u"
  by (auto simp: rewriteAssignments_def mem_map_of split: if_splits)

interpretation assignment: label_planner "plan_assignment workspaceId name color assigned now"
  for workspaceId name color assigned now
  by unfold_locales (auto simp: plan_assignment_def Let_def split: option.splits if_splits)

interpretation edit: label_planner "plan_update fromKey newName color now" for fromKey newName color now
  by unfold_locales (auto simp: plan_update_def Let_def dest: rewritten split: option.splits if_splits)

interpretation deletion: label_planner "plan_delete key now" for key now
  by unfold_locales (auto simp: plan_delete_def Let_def dest: rewritten split: option.splits)

interpretation counting: label_planner "plan_count key" for key
  by unfold_locales (auto simp: plan_count_def)

section \<open>The daemon under faults\<close>

datatype label_request =
    AskAssign string string string bool string
  | AskUpdate string "string option" "string option" string
  | AskDelete string string
  | AskCount string

definition forgetting :: "'a io \<Rightarrow> unit io" where
  "forgetting m = io_bind m (\<lambda>_. io_return ())"

fun perform :: "label_request \<Rightarrow> unit io" where
  "perform (AskAssign workspaceId name color assigned now) =
     forgetting (store_commit (plan_assignment workspaceId name color assigned now))"
| "perform (AskUpdate fromKey newName color now) = forgetting (store_commit (plan_update fromKey newName color now))"
| "perform (AskDelete key now) = forgetting (store_commit (plan_delete key now))"
| "perform (AskCount key) = forgetting (store_commit (plan_count key))"

definition refused :: "'r planner \<Rightarrow> label_contents \<Rightarrow> label_error option" where
  "refused planner s = (case planner (fst s) (snd s) of Inl e \<Rightarrow> Some e | Inr _ \<Rightarrow> None)"

fun refusal :: "label_request \<Rightarrow> label_contents \<Rightarrow> label_error option" where
  "refusal (AskAssign workspaceId name color assigned now) s = refused (plan_assignment workspaceId name color assigned now) s"
| "refusal (AskUpdate fromKey newName color now) s = refused (plan_update fromKey newName color now) s"
| "refusal (AskDelete key now) s = refused (plan_delete key now) s"
| "refusal (AskCount key) s = refused (plan_count key) s"

fun requested :: "label_request \<Rightarrow> label_contents \<Rightarrow> label_contents" where
  "requested (AskAssign workspaceId name color assigned now) s = planned (plan_assignment workspaceId name color assigned now) s"
| "requested (AskUpdate fromKey newName color now) s = planned (plan_update fromKey newName color now) s"
| "requested (AskDelete key now) s = planned (plan_delete key now) s"
| "requested (AskCount key) s = planned (plan_count key) s"

text \<open>A daemon serves requests, with a script of faults for each, until it crashes, and is restarted.\<close>

datatype store_action = Serve label_request "fault list" | Restart "fault list"

datatype store_event = Answered label_request "unit outcome" | Opened label_contents | NotOpened | NoDaemon

fun store_act :: "store_action \<Rightarrow> bool \<times> label_world \<Rightarrow> store_event \<times> bool \<times> label_world" where
  "store_act (Serve r faults) (up, w) =
     (if \<not> up then (NoDaemon, False, w)
      else case perform r (w\<lparr>wd_faults := faults\<rparr>) of (out, w') \<Rightarrow> (Answered r out, out \<noteq> Crashed, w'))"
| "store_act (Restart faults) (up, w) =
     (case startup (restarted faults w) of
        (Returned _, w') \<Rightarrow> (Opened (st_labels w', rg_cache w'), True, w')
      | (_, w') \<Rightarrow> (NotOpened, False, w'))"

fun store_run :: "store_action list \<Rightarrow> bool \<times> label_world \<Rightarrow> store_event list \<times> bool \<times> label_world" where
  "store_run [] d = ([], d)"
| "store_run (a # as) d = (case store_act a d of (e, d') \<Rightarrow> case store_run as d' of (es, d'') \<Rightarrow> (e # es, d''))"

text \<open>The specification: one state, which a request changes at once or not at all. A request that
  returned took effect, one that threw anything but \<open>StorageUncertain\<close> did not, and for the others
  either may be the case; whoever opens the store sees the state.\<close>

fun possible :: "label_request \<Rightarrow> unit outcome \<Rightarrow> label_contents \<Rightarrow> label_contents list" where
  "possible r (Returned _) s = (if refusal r s = None then [requested r s] else [])"
| "possible r (Threw (Refused e)) s = (if refusal r s = Some e then [s] else [])"
| "possible r (Threw StorageUncertain) s = [s, requested r s]"
| "possible r (Threw _) s = [s]"
| "possible r Crashed s = [s, requested r s]"

fun explains :: "label_contents \<Rightarrow> store_event list \<Rightarrow> label_contents \<Rightarrow> bool" where
  "explains s [] t = (t = s)"
| "explains s (Answered r out # es) t = (\<exists>s'\<in>set (possible r out s). explains s' es t)"
| "explains s (Opened seen # es) t = (seen = s \<and> explains s es t)"
| "explains s (_ # es) t = explains s es t"

definition up_with :: "label_contents \<Rightarrow> label_world \<Rightarrow> bool" where
  "up_with s w = (ready s w \<or> shut w \<and> stores s w)"

lemma up_with_stores: "up_with s w \<Longrightarrow> stores s w"
  by (auto simp: up_with_def ready_stores)

lemma faults_irrelevant [simp]: "up_with s (w\<lparr>wd_faults := fs\<rparr>) = up_with s w" "stores s (w\<lparr>wd_faults := fs\<rparr>) = stores s w"
  by (simp_all add: up_with_def ready_def shut_def memory_at_def stores_def stored_state_def durable_def pending_tx_def
      catalog_of_def records_of_def cong: option.case_cong)

lemma planned_refused: "refused planner s = Some e \<Longrightarrow> planned planner s = s"
  by (simp add: refused_def planned_def split: sum.splits)

context label_planner
begin

lemma answered:
  assumes "up_with s w" "store_commit planner w = (out, w')"
  shows "case out of
      Returned _ \<Rightarrow> refused planner s = None \<and> up_with (planned planner s) w'
    | Threw e \<Rightarrow> (case e of
        Refused l \<Rightarrow> refused planner s = Some l \<and> up_with s w'
      | StorageUncertain \<Rightarrow> up_with s w' \<or> up_with (planned planner s) w'
      | _ \<Rightarrow> up_with s w')
    | Crashed \<Rightarrow> stores s w' \<or> stores (planned planner s) w'"
proof (cases "ready s w")
  case True
  have "wp (store_commit planner) (commit_returned planner s) (commit_threw planner s) (commit_crashed planner s) w"
    by (rule wp_commit [OF True])
  with assms(2) show ?thesis
    by (auto simp: wp_def commit_returned_def commit_threw_def commit_crashed_def refused_def up_with_def
        split: outcome.splits store_error.splits sum.splits)
next
  case False
  with assms(1) have "shut w" "stores s w" by (auto simp: up_with_def)
  then have "store_commit planner w = (Threw StorageUncertain, w)"
    by (simp add: store_commit_def shut_def bind_returned store_initialize_def)
  with assms have "out = Threw StorageUncertain" "w' = w" by auto
  with assms(1) show ?thesis by simp
qed

end

lemma forgetting_run: "forgetting m w = (out, w') \<Longrightarrow>
    \<exists>o2. m w = (o2, w') \<and> out = (case o2 of Returned _ \<Rightarrow> Returned () | Threw e \<Rightarrow> Threw e | Crashed \<Rightarrow> Crashed)"
  by (auto simp: forgetting_def io_bind_def io_return_def split: prod.splits outcome.splits)

lemma answer_possible:
  assumes "up_with s w" "perform r w = (out, w')"
  shows "\<exists>s'\<in>set (possible r out s). if out = Crashed then stores s' w' else up_with s' w'"
proof -
  have step: "\<exists>s'\<in>set (possible r out s). if out = Crashed then stores s' w' else up_with s' w'"
    if p: "label_planner planner" and run: "forgetting (store_commit planner) w = (out, w')"
      and r: "refusal r s = refused planner s" "requested r s = planned planner s"
    for planner :: "'a planner"
  proof -
    obtain o2 where o2: "store_commit planner w = (o2, w')"
        "out = (case o2 of Returned _ \<Rightarrow> Returned () | Threw e \<Rightarrow> Threw e | Crashed \<Rightarrow> Crashed)"
      using forgetting_run [OF run] by blast
    show ?thesis
      using label_planner.answered [OF p assms(1) o2(1)] o2(2) r
      by (auto split: outcome.splits store_error.splits)
  qed
  show ?thesis
  proof (cases r)
    case (AskAssign workspaceId name color assigned now)
    with assms(2) show ?thesis by (intro step [OF assignment.label_planner_axioms]) simp_all
  next
    case (AskUpdate fromKey newName color now)
    with assms(2) show ?thesis by (intro step [OF edit.label_planner_axioms]) simp_all
  next
    case (AskDelete key now)
    with assms(2) show ?thesis by (intro step [OF deletion.label_planner_axioms]) simp_all
  next
    case (AskCount key)
    with assms(2) show ?thesis by (intro step [OF counting.label_planner_axioms]) simp_all
  qed
qed

definition daemon_holds :: "label_contents \<Rightarrow> bool \<times> label_world \<Rightarrow> bool" where
  "daemon_holds s d = (if fst d then up_with s (snd d) else stores s (snd d))"

lemma daemon_stores: "daemon_holds s d \<Longrightarrow> stores s (snd d)"
  by (auto simp: daemon_holds_def up_with_stores split: if_splits)

lemma restart_holds:
  assumes "daemon_holds s d" "store_act (Restart faults) d = (e, d')" "registry_readable faults"
  shows "daemon_holds s d' \<and> (e = Opened s \<or> e = NotOpened)"
proof -
  obtain up w where d: "d = (up, w)" by (cases d)
  obtain out w' where run: "startup (restarted faults w) = (out, w')" by fastforce
  have "wp startup (\<lambda>_. ready s) (\<lambda>_. stores s) (stores s) (restarted faults w)"
    by (rule wp_startup) (use daemon_stores [OF assms(1)] d assms(3) in simp_all)
  with run assms(2) d show ?thesis
    by (auto simp: wp_def daemon_holds_def up_with_def ready_def memory_at_def split: outcome.splits)
qed

text \<open>The restarts of a run read the registry, or crash at it.\<close>

definition registry_always_read :: "store_action list \<Rightarrow> bool" where
  "registry_always_read actions = (\<forall>a\<in>set actions. case a of Restart faults \<Rightarrow> registry_readable faults | Serve _ _ \<Rightarrow> True)"

lemma run_explained:
  "daemon_holds s d \<Longrightarrow> registry_always_read as \<Longrightarrow> store_run as d = (es, d') \<Longrightarrow> \<exists>t. explains s es t \<and> daemon_holds t d'"
proof (induction as arbitrary: s d es)
  case (Cons a as)
  obtain e d2 where a: "store_act a d = (e, d2)" by (cases "store_act a d")
  obtain es2 where es: "store_run as d2 = (es2, d')" "es = e # es2"
    using Cons.prems(3) a by (auto split: prod.splits)
  have rest: "registry_always_read as" using Cons.prems(2) by (simp add: registry_always_read_def)
  show ?case
  proof (cases a)
    case (Restart faults)
    with Cons.prems(2) have "registry_readable faults" by (simp add: registry_always_read_def)
    with Restart restart_holds Cons.prems(1) a have "daemon_holds s d2" "e = Opened s \<or> e = NotOpened" by blast+
    with Cons.IH rest es show ?thesis by fastforce
  next
    case (Serve r faults)
    obtain up w where d: "d = (up, w)" by (cases d)
    show ?thesis
    proof (cases up)
      case False
      with Serve a d have "e = NoDaemon" "d2 = d" by auto
      with Cons.IH [OF Cons.prems(1) rest, of es2] es show ?thesis by auto
    next
      case True
      obtain out w' where out: "perform r (w\<lparr>wd_faults := faults\<rparr>) = (out, w')" by fastforce
      with Serve a d True have e: "e = Answered r out" "d2 = (out \<noteq> Crashed, w')" by auto
      have "up_with s (w\<lparr>wd_faults := faults\<rparr>)"
        using Cons.prems(1) d True by (simp add: daemon_holds_def)
      from answer_possible [OF this out] obtain s' where s': "s' \<in> set (possible r out s)" "daemon_holds s' d2"
        by (auto simp: e(2) daemon_holds_def)
      from Cons.IH [OF s'(2) rest es(1)] obtain t where "explains s' es2 t" "daemon_holds t d'" by blast
      then have "explains s es t" using s'(1) es(2) e(1) by auto
      with \<open>daemon_holds t d'\<close> show ?thesis by blast
    qed
  qed
qed simp

text \<open>Without a fault a restart always opens the store.\<close>

lemmas io_defs = io_bind_def io_catch_def io_return_def io_throw_def io_modify_def disk_read_def disk_write_def
  next_fault_def spent_def

lemma startup_calm: "fst (startup (restarted [] w)) = Returned ()"
proof (cases "fl_transaction w")
  case None
  then show ?thesis
    by (simp add: startup_def registry_load_def store_initialize_def loadAndRecover_def readTransaction_def
        readCatalog_def restarted_def io_defs)
next
  case (Some tx)
  then show ?thesis
    by (cases "tx_phase tx")
       (auto simp: startup_def registry_load_def store_initialize_def loadAndRecover_def readTransaction_def
        readCatalog_def restarted_def recover_def removeTransaction_def commitWorkspaceLabelMutation_def mutateCache_def
        writeCatalog_def writeRecords_def io_defs)
qed

section \<open>Atomicity\<close>

text \<open>C22. Changes of labels are atomic and durable across both files, as long as every restart reads the registry of workspaces
  (its first access does not throw; it may crash). Whatever requests a daemon is sent, whichever of its other reads, writes and
  removals fail or are the last thing it does, and however often its restarts are themselves cut short, there is one
  state, the catalog with the assignments, that every request changed at once or not at all: a request that returned took
  effect, one that threw anything but an uncertain outcome did not, and each time the store opens it shows exactly that state.
  The condition is needed: \<open>registry_read_failure_tears\<close> below. What the daemon tells its listeners after a commit is not
  part of the state.\<close>

theorem label_commits_atomic:
  assumes "wf_map (records_of w)" "registry_always_read actions" "store_run actions (False, w) = (events, up, w')"
  shows "explains (stored_state w) events (stored_state w')"
proof -
  have "daemon_holds (stored_state w) (False, w)"
    using assms(1) by (simp add: daemon_holds_def stores_def)
  from run_explained [OF this assms(2,3)] obtain t where "explains (stored_state w) events t" "daemon_holds t (up, w')"
    by blast
  moreover have "t = stored_state w'"
    using daemon_stores [OF calculation(2)] by (simp add: stores_def)
  ultimately show ?thesis by simp
qed

text \<open>The store is never stuck: after any run of requests, faults, crashes and failed restarts, a restart
  in which nothing fails opens the store with the state the files stand for.\<close>

theorem label_store_reopens:
  assumes "wf_map (records_of w)" "registry_always_read actions" "store_run actions (False, w) = (events, d)"
  shows "\<exists>w'. store_act (Restart []) d = (Opened (stored_state (snd d)), True, w')"
proof -
  obtain up v where d: "d = (up, v)" by (cases d)
  have "daemon_holds (stored_state w) (False, w)"
    using assms(1) by (simp add: daemon_holds_def stores_def)
  from run_explained [OF this assms(2,3)] obtain t where t: "daemon_holds t d" by blast
  then have "t = stored_state (snd d)" using daemon_stores by (auto simp: stores_def)
  obtain e d' where act: "store_act (Restart []) d = (e, d')" by (cases "store_act (Restart []) d")
  moreover obtain w' where "startup (restarted [] v) = (Returned (), w')"
    using startup_calm [of v] by (cases "startup (restarted [] v)") auto
  ultimately show ?thesis
    using restart_holds [OF t act] registry_readable_def d \<open>t = stored_state (snd d)\<close> by auto
qed

text \<open>When the removal of the marker of a finished commit has failed, which the store lets pass, the next
  request that is merely refused, because its workspace or label does not exist or its new name is
  taken, is answered as an uncertain outcome and blocks every later change of workspaces and labels
  until the daemon is restarted.\<close>

theorem leftover_marker_blocks:
  assumes "ready s w" "fl_transaction w \<noteq> None" "refusal r s = Some e" "wd_faults w = []"
  shows "\<exists>w'. perform r w = (Threw StorageUncertain, w') \<and> st_blocked w' \<and> rg_frozen w'"
proof -
  obtain tx where tx: "fl_transaction w = Some tx" "tx_phase tx = Committed"
    using assms(1,2) by (cases "fl_transaction w") (auto simp: ready_def pending_tx_def split: if_splits intro: tx_phase.exhaust)
  have blocks: "\<exists>w'. forgetting (store_commit planner) w = (Threw StorageUncertain, w') \<and> st_blocked w' \<and> rg_frozen w'"
    if "refused planner s = Some e" for planner :: "'a planner"
    using assms(1,4) tx that
    by (simp add: refused_def forgetting_def store_commit_def store_initialize_def ready_def memory_at_def
        commitWorkspaceLabelMutation_def mutateCache_def registry_load_def resolveFailedCommit_def readTransaction_def
        blockUntilRestart_def freezeMutationsUntilRestart_def io_defs split: sum.splits)
  from assms(3) show ?thesis by (cases r) (simp_all add: blocks)
qed

definition sample_files :: label_world where
  "sample_files = \<lparr>fl_catalog = None, fl_transaction = None,
     fl_workspaces = Some [(''w'', \<lparr>lw_labels = None, lw_archived = False, lw_updatedAt = ''t''\<rparr>)],
     st_loaded = False, st_labels = [], st_blocked = False, rg_loaded = False, rg_cache = [], rg_frozen = False,
     wd_faults = []\<rparr>"

definition sample_assign :: label_request where
  "sample_assign = AskAssign ''w'' ''b'' ''red'' True ''now''"

definition sample_after :: label_contents where
  "sample_after = ([\<lparr>lb_name = ''b'', lb_color = ''red''\<rparr>],
     [(''w'', \<lparr>lw_labels = Some [''b''], lw_archived = False, lw_updatedAt = ''now''\<rparr>)])"

lemmas run_defs = startup_def registry_load_def store_initialize_def loadAndRecover_def readTransaction_def
  readCatalog_def restarted_def recover_def removeTransaction_def commitWorkspaceLabelMutation_def mutateCache_def
  writeCatalog_def writeRecords_def writeTransaction_def store_commit_def forgetting_def catalog_of_def records_of_def
  resolveFailedCommit_def blockUntilRestart_def freezeMutationsUntilRestart_def transactionFor_def workspaceState_def
  restored_def io_defs

lemma sample_plan:
  "plan_assignment ''w'' ''b'' ''red'' True ''now'' []
     [(''w'', \<lparr>lw_labels = None, lw_archived = False, lw_updatedAt = ''t''\<rparr>)] =
   Inr \<lparr>mu_labels = fst sample_after, mu_updates = snd sample_after,
     mu_result = \<lparr>ac_definition = \<lparr>lb_name = ''b'', lb_color = ''red''\<rparr>, ac_workspaceLabels = [''b''],
       ac_catalogChanged = True\<rparr>\<rparr>"
  by (simp add: plan_assignment_def find_label_def current_labels_def updateAssignmentLabels_def non_empty_def
      sample_after_def Let_def)

text \<open>A crash once the workspaces are written and before the commit is marked is undone; one after the mark
  is kept.\<close>

definition sample_actions :: "store_action list" where
  "sample_actions = [Restart [], Serve sample_assign [Fine, Fine, CrashesAfter], Restart [],
     Serve sample_assign [Fine, Fine, Fine, CrashesAfter], Restart []]"

lemma sample_store_run:
  "fst (store_run sample_actions (False, sample_files)) =
    [Opened ([], records_of sample_files), Answered sample_assign Crashed, Opened ([], records_of sample_files),
     Answered sample_assign Crashed, Opened sample_after]"
  by (simp add: sample_actions_def sample_assign_def run_defs sample_files_def sample_plan sample_after_def
      apply_updates_def)

theorem label_commits_atomic_witness:
  "explains ([], records_of sample_files)
     [Opened ([], records_of sample_files), Answered sample_assign Crashed, Opened ([], records_of sample_files),
      Answered sample_assign Crashed, Opened sample_after]
     (stored_state (snd (snd (store_run sample_actions (False, sample_files)))))"
proof -
  obtain events up w' where run: "store_run sample_actions (False, sample_files) = (events, up, w')"
    by (cases "store_run sample_actions (False, sample_files)")
  have "wf_map (records_of sample_files)" "stored_state sample_files = ([], records_of sample_files)"
    by (simp_all add: sample_files_def records_of_def wf_map_def stored_state_def pending_tx_def durable_def catalog_of_def)
  moreover have "registry_always_read sample_actions"
    by (simp add: registry_always_read_def sample_actions_def registry_readable_def)
  ultimately show ?thesis using label_commits_atomic [OF _ _ run] sample_store_run run by simp
qed

theorem label_store_reopens_witness:
  "\<exists>w'. store_act (Restart []) (snd (store_run sample_actions (False, sample_files)))
      = (Opened (stored_state (snd (snd (store_run sample_actions (False, sample_files))))), True, w')"
proof -
  obtain events d where run: "store_run sample_actions (False, sample_files) = (events, d)"
    by (cases "store_run sample_actions (False, sample_files)")
  have "wf_map (records_of sample_files)" by (simp add: sample_files_def records_of_def wf_map_def)
  moreover have "registry_always_read sample_actions"
    by (simp add: registry_always_read_def sample_actions_def registry_readable_def)
  ultimately show ?thesis using label_store_reopens [OF _ _ run] run by simp
qed

definition sample_stale :: label_world where
  "sample_stale = snd (snd (store_run
     [Restart [], Serve sample_assign [Fine, Fine, Fine, Fine, ThrowsBefore]] (False, sample_files)))"

theorem leftover_marker_blocks_witness:
  "\<exists>w'. perform (AskAssign ''elsewhere'' ''b'' ''red'' True ''now'') sample_stale = (Threw StorageUncertain, w')
     \<and> st_blocked w' \<and> rg_frozen w'"
proof (rule leftover_marker_blocks)
  show "ready sample_after sample_stale" "fl_transaction sample_stale \<noteq> None" "wd_faults sample_stale = []"
    by (simp_all add: sample_stale_def sample_assign_def run_defs sample_files_def sample_plan sample_after_def
        apply_updates_def ready_def memory_at_def durable_def pending_tx_def wf_map_def)
  show "refusal (AskAssign ''elsewhere'' ''b'' ''red'' True ''now'') sample_after = Some WorkspaceNotFound"
    by (simp add: refused_def plan_assignment_def sample_after_def)
qed


text \<open>A registry file that cannot be read is taken for an empty one, and the next mutation writes that.\<close>

lemma unreadable_registry_overwritten:
  assumes "\<not> rg_loaded w" "\<not> rg_frozen w" "wd_faults w = [ThrowsBefore]"
  shows "\<exists>w'. registry_upsert k r w = (Returned (), w') \<and> fl_workspaces w' = Some [(k, r)]"
  using assms
  by (simp add: registry_upsert_def mutate_records_def mutateCache_def registry_load_def writeRecords_def io_defs
      apply_updates_def)


end
