(* ===== verification/ProjectTodos.thy ===== *)
theory ProjectTodos
  imports JsArray JsString
begin

text \<open>
  Project to-dos (\<open>server/project-todos/operations.ts\<close>, \<open>service.ts\<close> and the id rule of
  \<open>store.ts\<close>): the items of a project, the claims by which agents reserve them, and the mutations
  of the service on the index and the plans of one project.

  A mutation reads the index under the project's lock and writes it back only when it returns an
  item, so an operation that throws changes nothing: the model threads the index through a result
  type and leaves the texts of error messages out. The clock, the agents that run and the ids
  drawn for new items are arguments. The projection of an item to a listing and the sorting of
  categories by locale are not modelled.
\<close>

section \<open>Items\<close>

datatype ProjectTodoStatus = Backlog | Ready | Claimed | InProgress | Review | Done | Blocked

datatype ProjectTodoPriority = LowPriority | MediumPriority | HighPriority | UrgentPriority

record ProjectTodoClaim =
  tcl_agentId :: string
  tcl_sessionId :: "string option"
  tcl_workspaceId :: "string option"
  tcl_branch :: "string option"
  tcl_claimedAt :: string
  tcl_lastHeartbeat :: string

record ProjectTodoProgressEntry =
  pr_at :: string
  pr_agentId :: "string option"
  pr_note :: string

record ProjectTodoItem =
  ti_id :: string
  ti_title :: string
  ti_description :: string
  ti_category :: "string option"
  ti_priority :: ProjectTodoPriority
  ti_status :: ProjectTodoStatus
  ti_allowParallel :: bool
  ti_claims :: "ProjectTodoClaim list"
  ti_progress :: "ProjectTodoProgressEntry list"
  ti_createdAt :: string
  ti_updatedAt :: string
  ti_planUpdatedAt :: "string option"

record ProjectTodoStore =
  ts_items :: "ProjectTodoItem list"
  ts_plans :: "(string, string) js_map"

record ProjectTodoClaimView =
  cv_claim :: ProjectTodoClaim
  cv_stale :: bool

datatype ProjectTodoError =
    TodoNotFound string
  | ClaimConflict "ProjectTodoClaimView list"
  | TakeoverNotAllowed "ProjectTodoClaimView list"
  | NotClaimed
  | InvalidRequest
  | TodoFailed
  | IdDrawsUsedUp

record ProjectTodoClaimant =
  clm_agentId :: string
  clm_sessionId :: "string option"
  clm_workspaceId :: "string option"
  clm_branch :: "string option"

record CreateTodoInput =
  ci_title :: string
  ci_description :: "string option"
  ci_category :: "string option"
  ci_priority :: "ProjectTodoPriority option"
  ci_status :: "ProjectTodoStatus option"
  ci_allowParallel :: "bool option"

text \<open>An update may leave the category alone (\<open>None\<close>), clear it or set it.\<close>

record UpdateTodoInput =
  ui_title :: "string option"
  ui_description :: "string option"
  ui_category :: "string option option"
  ui_priority :: "ProjectTodoPriority option"
  ui_allowParallel :: "bool option"

definition PROJECT_TODO_TITLE_MAX :: nat where "PROJECT_TODO_TITLE_MAX = 200"
definition PROJECT_TODO_DESCRIPTION_MAX :: nat where "PROJECT_TODO_DESCRIPTION_MAX = 20000"
definition PROJECT_TODO_CATEGORY_MAX :: nat where "PROJECT_TODO_CATEGORY_MAX = 64"
definition PROJECT_TODO_NOTE_MAX :: nat where "PROJECT_TODO_NOTE_MAX = 4000"
definition PROJECT_TODO_PLAN_MAX :: nat where "PROJECT_TODO_PLAN_MAX = 200000"

definition CLAIM_BOUND_STATUSES :: "ProjectTodoStatus list" where
  "CLAIM_BOUND_STATUSES = [Claimed, InProgress]"

definition trimmed_within :: "nat \<Rightarrow> string \<Rightarrow> ProjectTodoError + string" where
  "trimmed_within limit s =
     (let trimmed = js_trim s
      in if trimmed = [] then Inl InvalidRequest
         else if length trimmed > limit then Inl InvalidRequest
         else Inr trimmed)"

definition normalizeTitle :: "string \<Rightarrow> ProjectTodoError + string" where
  "normalizeTitle title = trimmed_within PROJECT_TODO_TITLE_MAX title"

definition normalizeNote :: "string \<Rightarrow> ProjectTodoError + string" where
  "normalizeNote note = trimmed_within PROJECT_TODO_NOTE_MAX note"

definition normalizeDescription :: "string \<Rightarrow> ProjectTodoError + string" where
  "normalizeDescription description =
     (if length description > PROJECT_TODO_DESCRIPTION_MAX then Inl InvalidRequest else Inr description)"

definition normalizeCategory :: "string option \<Rightarrow> ProjectTodoError + string option" where
  "normalizeCategory category =
     (let trimmed = (case category of Some c \<Rightarrow> js_trim c | None \<Rightarrow> [])
      in if trimmed = [] then Inr None
         else if length trimmed > PROJECT_TODO_CATEGORY_MAX then Inl InvalidRequest
         else Inr (Some trimmed))"

definition findItem :: "ProjectTodoItem list \<Rightarrow> string \<Rightarrow> ProjectTodoError + ProjectTodoItem" where
  "findItem items ident = (case find (\<lambda>i. ti_id i = ident) items of
       Some i \<Rightarrow> Inr i
     | None \<Rightarrow> Inl (TodoNotFound ident))"

definition toClaimViews :: "ProjectTodoClaim list \<Rightarrow> (string \<Rightarrow> bool) \<Rightarrow> ProjectTodoClaimView list" where
  "toClaimViews claims isAgentRunning =
     map (\<lambda>c. \<lparr>cv_claim = c, cv_stale = \<not> isAgentRunning (tcl_agentId c)\<rparr>) claims"

section \<open>Mutations of one item\<close>

definition createItem ::
  "string \<Rightarrow> CreateTodoInput \<Rightarrow> string \<Rightarrow> ProjectTodoItem list
     \<Rightarrow> ProjectTodoError + (ProjectTodoItem \<times> ProjectTodoItem list)" where
  "createItem ident input now items =
     (let status = (case ci_status input of Some s \<Rightarrow> s | None \<Rightarrow> Backlog)
      in if status \<in> set CLAIM_BOUND_STATUSES then Inl InvalidRequest
         else
           sum_bind (normalizeTitle (ci_title input)) (\<lambda>title.
           sum_bind (normalizeDescription (case ci_description input of Some d \<Rightarrow> d | None \<Rightarrow> [])) (\<lambda>description.
           sum_bind (normalizeCategory (ci_category input)) (\<lambda>category.
             let item = \<lparr>ti_id = ident, ti_title = title, ti_description = description,
                   ti_category = category,
                   ti_priority = (case ci_priority input of Some p \<Rightarrow> p | None \<Rightarrow> MediumPriority),
                   ti_status = status,
                   ti_allowParallel = (case ci_allowParallel input of Some b \<Rightarrow> b | None \<Rightarrow> False),
                   ti_claims = [], ti_progress = [], ti_createdAt = now, ti_updatedAt = now,
                   ti_planUpdatedAt = None\<rparr>
             in Inr (item, items @ [item])))))"

definition updateItem :: "UpdateTodoInput \<Rightarrow> string \<Rightarrow> ProjectTodoItem \<Rightarrow> ProjectTodoError + ProjectTodoItem" where
  "updateItem input now item =
     sum_bind (case ui_title input of None \<Rightarrow> Inr item
               | Some t \<Rightarrow> map_sum id (\<lambda>t. item\<lparr>ti_title := t\<rparr>) (normalizeTitle t)) (\<lambda>i1.
     sum_bind (case ui_description input of None \<Rightarrow> Inr i1
               | Some d \<Rightarrow> map_sum id (\<lambda>d. i1\<lparr>ti_description := d\<rparr>) (normalizeDescription d)) (\<lambda>i2.
     sum_bind (case ui_category input of None \<Rightarrow> Inr i2
               | Some c \<Rightarrow> map_sum id (\<lambda>c. i2\<lparr>ti_category := c\<rparr>) (normalizeCategory c)) (\<lambda>i3.
       let i4 = (case ui_priority input of None \<Rightarrow> i3 | Some p \<Rightarrow> i3\<lparr>ti_priority := p\<rparr>);
           i5 = (case ui_allowParallel input of None \<Rightarrow> i4 | Some b \<Rightarrow> i4\<lparr>ti_allowParallel := b\<rparr>)
       in Inr (i5\<lparr>ti_updatedAt := now\<rparr>))))"

definition coalesce :: "'a option \<Rightarrow> 'a option \<Rightarrow> 'a option" where
  "coalesce a b = (case a of Some x \<Rightarrow> Some x | None \<Rightarrow> b)"

definition refresh_claim :: "ProjectTodoClaimant \<Rightarrow> string \<Rightarrow> ProjectTodoClaim \<Rightarrow> ProjectTodoClaim" where
  "refresh_claim claimant now own =
     own\<lparr>tcl_sessionId := coalesce (clm_sessionId claimant) (tcl_sessionId own),
         tcl_workspaceId := coalesce (clm_workspaceId claimant) (tcl_workspaceId own),
         tcl_branch := coalesce (clm_branch claimant) (tcl_branch own),
         tcl_lastHeartbeat := now\<rparr>"

definition new_claim :: "ProjectTodoClaimant \<Rightarrow> string \<Rightarrow> ProjectTodoClaim" where
  "new_claim claimant now = \<lparr>tcl_agentId = clm_agentId claimant, tcl_sessionId = clm_sessionId claimant,
     tcl_workspaceId = clm_workspaceId claimant, tcl_branch = clm_branch claimant,
     tcl_claimedAt = now, tcl_lastHeartbeat = now\<rparr>"

definition add_claim :: "ProjectTodoClaimant \<Rightarrow> string \<Rightarrow> ProjectTodoItem \<Rightarrow> ProjectTodoItem" where
  "add_claim claimant now item =
     item\<lparr>ti_claims := ti_claims item @ [new_claim claimant now],
          ti_status := (if ti_status item = Backlog \<or> ti_status item = Ready then Claimed else ti_status item),
          ti_updatedAt := now\<rparr>"

definition claimItem ::
  "ProjectTodoClaimant \<Rightarrow> bool \<Rightarrow> (string \<Rightarrow> bool) \<Rightarrow> string \<Rightarrow> ProjectTodoItem
     \<Rightarrow> ProjectTodoError + (string list \<times> ProjectTodoItem)" where
  "claimItem claimant takeover isAgentRunning now item =
     (if ti_status item = Done then Inl InvalidRequest
      else case find_index (\<lambda>c. tcl_agentId c = clm_agentId claimant) (ti_claims item) of
        Some i \<Rightarrow>
          Inr ([], item\<lparr>ti_claims := (ti_claims item)[i := refresh_claim claimant now (ti_claims item ! i)],
                        ti_updatedAt := now\<rparr>)
      | None \<Rightarrow>
          if ti_claims item \<noteq> [] \<and> \<not> ti_allowParallel item then
            (let views = toClaimViews (ti_claims item) isAgentRunning
             in if \<not> takeover then Inl (ClaimConflict views)
                else if list_ex (\<lambda>v. \<not> cv_stale v) views then Inl (TakeoverNotAllowed views)
                else
                  let tookOverFrom = map tcl_agentId (ti_claims item)
                  in Inr (tookOverFrom, add_claim claimant now
                       (item\<lparr>ti_claims := [],
                             ti_progress := ti_progress item @
                               [\<lparr>pr_at = now, pr_agentId = Some (clm_agentId claimant),
                                 pr_note = ''Took over stale claim from '' @ js_join '', '' tookOverFrom\<rparr>]\<rparr>)))
          else Inr ([], add_claim claimant now item))"

definition releaseItem :: "string option \<Rightarrow> string \<Rightarrow> ProjectTodoItem \<Rightarrow> bool \<times> ProjectTodoItem" where
  "releaseItem agentId now item =
     (let claims = (case truthy agentId of
                      Some a \<Rightarrow> filter (\<lambda>c. tcl_agentId c \<noteq> a) (ti_claims item)
                    | None \<Rightarrow> [])
      in if length claims = length (ti_claims item) then (False, item\<lparr>ti_claims := claims\<rparr>)
         else (True, item\<lparr>ti_claims := claims,
                ti_status := (if claims = [] \<and> ti_status item \<in> set CLAIM_BOUND_STATUSES then Ready
                              else ti_status item),
                ti_updatedAt := now\<rparr>))"

definition setItemStatus :: "ProjectTodoStatus \<Rightarrow> string \<Rightarrow> ProjectTodoItem \<Rightarrow> ProjectTodoItem" where
  "setItemStatus status now item =
     item\<lparr>ti_status := status, ti_claims := (if status = Done then [] else ti_claims item),
          ti_updatedAt := now\<rparr>"

definition appendProgress :: "string \<Rightarrow> string option \<Rightarrow> string \<Rightarrow> ProjectTodoItem \<Rightarrow> ProjectTodoError + ProjectTodoItem" where
  "appendProgress note agentId now item =
     sum_bind (normalizeNote note) (\<lambda>n.
       let claims = (case truthy agentId of
             None \<Rightarrow> ti_claims item
           | Some a \<Rightarrow>
               (case find_index (\<lambda>c. tcl_agentId c = a) (ti_claims item) of
                  None \<Rightarrow> ti_claims item
                | Some i \<Rightarrow> (ti_claims item)[i := (ti_claims item ! i)\<lparr>tcl_lastHeartbeat := now\<rparr>]))
       in Inr (item\<lparr>ti_progress := ti_progress item @ [\<lparr>pr_at = now, pr_agentId = truthy agentId, pr_note = n\<rparr>],
                    ti_claims := claims, ti_updatedAt := now\<rparr>))"

section \<open>The service\<close>

definition id_char :: "char \<Rightarrow> bool" where
  "id_char c = (let n = char_code c in 65 \<le> n \<and> n \<le> 90 \<or> 97 \<le> n \<and> n \<le> 122 \<or> 48 \<le> n \<and> n \<le> 57
     \<or> n = 95 \<or> n = 45)"

definition isValidTodoId :: "string \<Rightarrow> bool" where
  "isValidTodoId ident = (1 \<le> length ident \<and> length ident \<le> 64 \<and> list_all id_char ident)"

definition put_item :: "ProjectTodoItem \<Rightarrow> ProjectTodoItem list \<Rightarrow> ProjectTodoItem list" where
  "put_item item items =
     (case find_index (\<lambda>i. ti_id i = ti_id item) items of None \<Rightarrow> items | Some n \<Rightarrow> items[n := item])"

definition mutate_item ::
  "string \<Rightarrow> (ProjectTodoItem \<Rightarrow> ProjectTodoError + ProjectTodoItem) \<Rightarrow> ProjectTodoStore
     \<Rightarrow> ProjectTodoError + (ProjectTodoItem \<times> ProjectTodoStore)" where
  "mutate_item todoId f s =
     sum_bind (findItem (ts_items s) todoId) (\<lambda>item.
     sum_bind (f item) (\<lambda>item'. Inr (item', s\<lparr>ts_items := put_item item' (ts_items s)\<rparr>)))"

definition writePlan :: "string \<Rightarrow> string \<Rightarrow> ProjectTodoItem \<Rightarrow> (string, string) js_map
     \<Rightarrow> ProjectTodoError + (ProjectTodoItem \<times> (string, string) js_map)" where
  "writePlan plan now item plans =
     (if length plan > PROJECT_TODO_PLAN_MAX then Inl InvalidRequest
      else Inr (item\<lparr>ti_planUpdatedAt := Some now, ti_updatedAt := now\<rparr>, AList.update (ti_id item) plan plans))"

text \<open>The loop that draws an id until it is new takes the draws as a list; a list that holds no new id
  is a loop that has not ended.\<close>

definition todo_create ::
  "string list \<Rightarrow> CreateTodoInput \<Rightarrow> string option \<Rightarrow> string \<Rightarrow> ProjectTodoStore
     \<Rightarrow> ProjectTodoError + (ProjectTodoItem \<times> ProjectTodoStore)" where
  "todo_create draws input plan now s =
     (case find (\<lambda>d. \<not> list_ex (\<lambda>i. ti_id i = d) (ts_items s)) draws of
        None \<Rightarrow> Inl IdDrawsUsedUp
      | Some ident \<Rightarrow>
          if \<not> isValidTodoId ident then Inl TodoFailed
          else
            sum_bind (createItem ident input now (ts_items s)) (\<lambda>(item, items).
              case truthy plan of
                None \<Rightarrow> Inr (item, s\<lparr>ts_items := items\<rparr>)
              | Some p \<Rightarrow>
                  sum_bind (writePlan p now item (ts_plans s)) (\<lambda>(item', plans).
                    Inr (item', s\<lparr>ts_items := put_item item' items, ts_plans := plans\<rparr>))))"

definition todo_update :: "string \<Rightarrow> UpdateTodoInput \<Rightarrow> string \<Rightarrow> ProjectTodoStore
     \<Rightarrow> ProjectTodoError + (ProjectTodoItem \<times> ProjectTodoStore)" where
  "todo_update todoId input now = mutate_item todoId (updateItem input now)"

definition todo_updatePlan :: "string \<Rightarrow> string \<Rightarrow> string \<Rightarrow> ProjectTodoStore
     \<Rightarrow> ProjectTodoError + (ProjectTodoItem \<times> ProjectTodoStore)" where
  "todo_updatePlan todoId plan now s =
     sum_bind (findItem (ts_items s) todoId) (\<lambda>item.
     sum_bind (writePlan plan now item (ts_plans s)) (\<lambda>(item', plans).
       Inr (item', s\<lparr>ts_items := put_item item' (ts_items s), ts_plans := plans\<rparr>)))"

definition todo_setStatus :: "string \<Rightarrow> ProjectTodoStatus \<Rightarrow> string option \<Rightarrow> string option \<Rightarrow> string \<Rightarrow> ProjectTodoStore
     \<Rightarrow> ProjectTodoError + (ProjectTodoItem \<times> ProjectTodoStore)" where
  "todo_setStatus todoId status agentId note now =
     mutate_item todoId (\<lambda>item.
       map_sum id (setItemStatus status now)
         (case note of
            None \<Rightarrow> Inr item
          | Some n \<Rightarrow> if js_trim n = [] then Inr item else appendProgress n agentId now item))"

definition todo_claim :: "string \<Rightarrow> ProjectTodoClaimant \<Rightarrow> bool \<Rightarrow> (string \<Rightarrow> bool) \<Rightarrow> string \<Rightarrow> ProjectTodoStore
     \<Rightarrow> ProjectTodoError + (ProjectTodoItem \<times> ProjectTodoStore)" where
  "todo_claim todoId claimant takeover isAgentRunning now =
     mutate_item todoId (\<lambda>item. map_sum id snd (claimItem claimant takeover isAgentRunning now item))"

definition todo_release :: "string \<Rightarrow> string option \<Rightarrow> bool \<Rightarrow> string \<Rightarrow> ProjectTodoStore
     \<Rightarrow> ProjectTodoError + (ProjectTodoItem \<times> ProjectTodoStore)" where
  "todo_release todoId agentId requireClaim now s =
     sum_bind (findItem (ts_items s) todoId) (\<lambda>item.
       case releaseItem agentId now item of (changed, item') \<Rightarrow>
         if \<not> changed \<and> requireClaim then Inl NotClaimed
         else if changed then Inr (item', s\<lparr>ts_items := put_item item' (ts_items s)\<rparr>)
         else Inr (item', s))"

definition todo_addProgress :: "string \<Rightarrow> string \<Rightarrow> string option \<Rightarrow> string \<Rightarrow> ProjectTodoStore
     \<Rightarrow> ProjectTodoError + (ProjectTodoItem \<times> ProjectTodoStore)" where
  "todo_addProgress todoId note agentId now = mutate_item todoId (appendProgress note agentId now)"

definition todo_delete :: "string \<Rightarrow> ProjectTodoStore \<Rightarrow> bool \<times> ProjectTodoStore" where
  "todo_delete todoId s =
     (let next' = filter (\<lambda>i. ti_id i \<noteq> todoId) (ts_items s)
      in if length next' = length (ts_items s) then (False, s)
         else (True, s\<lparr>ts_items := next', ts_plans := AList.delete todoId (ts_plans s)\<rparr>))"

definition releaseAgentInProject :: "string \<Rightarrow> string \<Rightarrow> ProjectTodoStore \<Rightarrow> ProjectTodoStore" where
  "releaseAgentInProject agentId now s =
     s\<lparr>ts_items := map (\<lambda>item.
         if list_ex (\<lambda>c. tcl_agentId c = agentId) (ti_claims item) then
           (case releaseItem (Some agentId) now item of (released, item') \<Rightarrow>
              if released then item'\<lparr>ti_progress := ti_progress item' @
                [\<lparr>pr_at = now, pr_agentId = Some agentId, pr_note = ''Claim released: agent archived''\<rparr>]\<rparr>
              else item')
         else item) (ts_items s)\<rparr>"

section \<open>Runs\<close>

datatype todo_op =
    OCreate "string list" CreateTodoInput "string option" string
  | OUpdate string UpdateTodoInput string
  | OUpdatePlan string string string
  | OSetStatus string ProjectTodoStatus "string option" "string option" string
  | OClaim string ProjectTodoClaimant bool "string \<Rightarrow> bool" string
  | ORelease string "string option" bool string
  | OAddProgress string string "string option" string
  | ODelete string
  | OReleaseAgent string string

definition committed :: "ProjectTodoStore \<Rightarrow> 'e + ('i \<times> ProjectTodoStore) \<Rightarrow> ProjectTodoStore" where
  "committed s r = (case r of Inl _ \<Rightarrow> s | Inr (_, s') \<Rightarrow> s')"

fun todo_step :: "todo_op \<Rightarrow> ProjectTodoStore \<Rightarrow> ProjectTodoStore" where
  "todo_step (OCreate draws input plan now) s = committed s (todo_create draws input plan now s)"
| "todo_step (OUpdate t input now) s = committed s (todo_update t input now s)"
| "todo_step (OUpdatePlan t plan now) s = committed s (todo_updatePlan t plan now s)"
| "todo_step (OSetStatus t st a note now) s = committed s (todo_setStatus t st a note now s)"
| "todo_step (OClaim t c takeover running now) s = committed s (todo_claim t c takeover running now s)"
| "todo_step (ORelease t a req now) s = committed s (todo_release t a req now s)"
| "todo_step (OAddProgress t note a now) s = committed s (todo_addProgress t note a now s)"
| "todo_step (ODelete t) s = snd (todo_delete t s)"
| "todo_step (OReleaseAgent a now) s = releaseAgentInProject a now s"

definition empty_todos :: ProjectTodoStore where
  "empty_todos = \<lparr>ts_items = [], ts_plans = []\<rparr>"

section \<open>Invariants of items\<close>

definition note_progress :: "ProjectTodoProgressEntry \<Rightarrow> ProjectTodoItem \<Rightarrow> ProjectTodoItem" where
  "note_progress p item = item\<lparr>ti_progress := ti_progress item @ [p]\<rparr>"

definition stamp_plan :: "string \<Rightarrow> ProjectTodoItem \<Rightarrow> ProjectTodoItem" where
  "stamp_plan now item = item\<lparr>ti_planUpdatedAt := Some now, ti_updatedAt := now\<rparr>"

lemma put_item_all: "list_all P items \<Longrightarrow> P item \<Longrightarrow> list_all P (put_item item items)"
  using set_update_subset_insert by (fastforce simp: put_item_def list_all_iff split: option.splits)

lemma findItem_Inr: "findItem items k = Inr i \<Longrightarrow> i \<in> set items \<and> ti_id i = k"
  by (auto simp: findItem_def find_Some_iff split: option.splits)

text \<open>A property of single items that every mutation of an item keeps, for the operations it allows,
  holds of every item in every store they reach.\<close>

locale item_invariant =
  fixes P :: "ProjectTodoItem \<Rightarrow> bool" and allowed :: "todo_op \<Rightarrow> bool"
  assumes created: "allowed (OCreate draws input plan now) \<Longrightarrow> createItem k input now items = Inr (i, items')
      \<Longrightarrow> P i"
    and planned: "P i \<Longrightarrow> P (stamp_plan now i)"
    and updated: "allowed (OUpdate t change now) \<Longrightarrow> P i \<Longrightarrow> updateItem change now i = Inr i' \<Longrightarrow> P i'"
    and status_set: "allowed (OSetStatus t st a note now) \<Longrightarrow> P i \<Longrightarrow> P (setItemStatus st now i)"
    and progressed: "P i \<Longrightarrow> appendProgress tx a now i = Inr i' \<Longrightarrow> P i'"
    and claimed: "P i \<Longrightarrow> claimItem c takeover running now i = Inr (from, i') \<Longrightarrow> P i'"
    and released: "P i \<Longrightarrow> P (snd (releaseItem a now i))"
    and noted: "P i \<Longrightarrow> P (note_progress p i)"
begin

lemma found_ok: "list_all P items \<Longrightarrow> findItem items t = Inr i \<Longrightarrow> P i"
  by (auto simp: list_all_iff dest: findItem_Inr)

lemma mutate_all:
  assumes "list_all P (ts_items s)" "mutate_item t f s = Inr (i, s')" "\<And>i i'. P i \<Longrightarrow> f i = Inr i' \<Longrightarrow> P i'"
  shows "list_all P (ts_items s')"
proof -
  obtain j where j: "findItem (ts_items s) t = Inr j" "f j = Inr i" "s' = s\<lparr>ts_items := put_item i (ts_items s)\<rparr>"
    using assms(2) by (auto simp: mutate_item_def sum_bind_Inr)
  have "P i" by (rule assms(3) [OF found_ok [OF assms(1) j(1)] j(2)])
  with assms(1) j(3) show ?thesis by (simp add: put_item_all)
qed

lemma plan_all:
  assumes "list_all P (ts_items s)" "todo_updatePlan t plan now s = Inr (i, s')"
  shows "list_all P (ts_items s')"
proof -
  obtain j where "findItem (ts_items s) t = Inr j" "ts_items s' = put_item (stamp_plan now j) (ts_items s)"
    using assms(2)
    by (auto simp: todo_updatePlan_def sum_bind_Inr writePlan_def stamp_plan_def split: if_splits)
  with found_ok [OF assms(1)] assms(1) show ?thesis by (simp add: put_item_all planned)
qed

lemma release_all:
  assumes "list_all P (ts_items s)" "todo_release t a req now s = Inr (i, s')"
  shows "list_all P (ts_items s')"
proof -
  obtain j where j: "findItem (ts_items s) t = Inr j"
    "ts_items s' = ts_items s \<or> ts_items s' = put_item (snd (releaseItem a now j)) (ts_items s)"
    using assms(2) by (auto simp: todo_release_def sum_bind_Inr split_def split: if_splits)
  with found_ok [OF assms(1) j(1)] assms(1) show ?thesis by (auto simp: put_item_all released)
qed

lemma create_all:
  assumes "list_all P (ts_items s)" "allowed (OCreate draws input plan now)"
    and "todo_create draws input plan now s = Inr (i, s')"
  shows "list_all P (ts_items s')"
proof -
  obtain k j items where c: "createItem k input now (ts_items s) = Inr (j, items)"
    and r: "ts_items s' = items \<or> ts_items s' = put_item (stamp_plan now j) items"
    using assms(3)
    by (auto simp: todo_create_def sum_bind_Inr writePlan_def stamp_plan_def split: option.splits if_splits)
  have "P j" by (rule created [OF assms(2) c])
  moreover have "items = ts_items s @ [j]"
    using c by (auto simp: createItem_def sum_bind_Inr Let_def split: if_splits)
  ultimately show ?thesis
    using assms(1) r by (auto simp: put_item_all planned)
qed

lemma step_all:
  assumes "list_all P (ts_items s)" "allowed op"
  shows "list_all P (ts_items (todo_step op s))"
proof (cases op)
  case (OCreate draws input plan now)
  with assms create_all show ?thesis by (auto simp: committed_def split: sum.splits)
next
  case (OUpdate t input now)
  with assms mutate_all [OF assms(1)] updated show ?thesis
    by (auto simp: committed_def todo_update_def split: sum.splits)
next
  case (OUpdatePlan t plan now)
  with assms(1) plan_all show ?thesis by (auto simp: committed_def split: sum.splits)
next
  case (OSetStatus t st a nt now)
  with assms(2) have allowed: "allowed (OSetStatus t st a nt now)" by simp
  have "list_all P (ts_items s')" if m: "todo_setStatus t st a nt now s = Inr (i, s')" for i s'
    using m unfolding todo_setStatus_def
    by (rule mutate_all [OF assms(1)])
       (auto simp: map_sum_Inr intro: status_set [OF allowed] progressed split: option.splits if_splits)
  with OSetStatus assms(1) show ?thesis by (auto simp: committed_def split: sum.splits)
next
  case (OClaim t c tko running now)
  have "list_all P (ts_items s')" if m: "todo_claim t c tko running now s = Inr (i, s')" for i s'
    using m unfolding todo_claim_def
    by (rule mutate_all [OF assms(1)]) (auto simp: map_sum_Inr intro: claimed)
  with OClaim assms(1) show ?thesis by (auto simp: committed_def split: sum.splits)
next
  case (ORelease t a req now)
  with assms(1) release_all show ?thesis by (auto simp: committed_def split: sum.splits)
next
  case (OAddProgress t nt a now)
  then show ?thesis
    using assms(1) mutate_all [OF assms(1)] progressed
    by (auto simp: committed_def todo_addProgress_def split: sum.splits)
next
  case (ODelete t)
  with assms(1) show ?thesis by (auto simp: todo_delete_def Let_def list_all_iff)
next
  case (OReleaseAgent a now)
  have "P (note_progress p (snd (releaseItem b now i)))" if "P i" for i b p
    using that noted released by blast
  with assms(1) OReleaseAgent released show ?thesis
    by (auto simp: releaseAgentInProject_def list_all_iff split_def simp flip: note_progress_def)
qed

lemma run_all:
  "list_all P (ts_items s) \<Longrightarrow> list_all allowed ops \<Longrightarrow> list_all P (ts_items (fold todo_step ops s))"
  by (induction ops arbitrary: s) (simp_all add: step_all)

end

section \<open>What the service guarantees\<close>

definition category_ok :: "string option \<Rightarrow> bool" where
  "category_ok c = (case c of None \<Rightarrow> True | Some c \<Rightarrow> c \<noteq> [] \<and> length c \<le> PROJECT_TODO_CATEGORY_MAX)"

definition todo_ok :: "ProjectTodoItem \<Rightarrow> bool" where
  "todo_ok i = (distinct (map tcl_agentId (ti_claims i)) \<and> (ti_status i \<noteq> Done \<or> ti_claims i = [])
     \<and> ti_title i \<noteq> [] \<and> length (ti_title i) \<le> PROJECT_TODO_TITLE_MAX
     \<and> length (ti_description i) \<le> PROJECT_TODO_DESCRIPTION_MAX \<and> category_ok (ti_category i))"

lemma trimmed_within_ok: "trimmed_within n s = Inr t \<Longrightarrow> t \<noteq> [] \<and> length t \<le> n"
  by (auto simp: trimmed_within_def Let_def split: if_splits)

lemma normalizeTitle_ok: "normalizeTitle s = Inr t \<Longrightarrow> t \<noteq> [] \<and> length t \<le> PROJECT_TODO_TITLE_MAX"
  unfolding normalizeTitle_def by (rule trimmed_within_ok)

lemma normalizeDescription_ok: "normalizeDescription s = Inr t \<Longrightarrow> length t \<le> PROJECT_TODO_DESCRIPTION_MAX"
  by (auto simp: normalizeDescription_def split: if_splits)

lemma normalizeCategory_ok: "normalizeCategory s = Inr c \<Longrightarrow> category_ok c"
  by (auto simp: normalizeCategory_def category_ok_def Let_def split: if_splits)

lemmas normalized = normalizeTitle_ok normalizeDescription_ok normalizeCategory_ok

lemma map_agents_update:
  "n < length cs \<Longrightarrow> tcl_agentId c = tcl_agentId (cs ! n) \<Longrightarrow> map tcl_agentId (cs[n := c]) = map tcl_agentId cs"
  by (metis list_update_id map_update nth_map)

lemma refresh_agent [simp]: "tcl_agentId (refresh_claim cl now c) = tcl_agentId c"
  by (simp add: refresh_claim_def)

text \<open>What a successful claim did: refreshed the claimant's own claim, joined an item that is free or
  open to parallel work, or took over from agents that all had stopped.\<close>

lemma claimItem_cases:
  assumes "claimItem cl tko running now i = Inr (from, i')"
  obtains (own) n where "ti_status i \<noteq> Done" "n < length (ti_claims i)" "tcl_agentId (ti_claims i ! n) = clm_agentId cl"
      "i' = i\<lparr>ti_claims := (ti_claims i)[n := refresh_claim cl now (ti_claims i ! n)], ti_updatedAt := now\<rparr>"
  | (join) "ti_status i \<noteq> Done" "clm_agentId cl \<notin> tcl_agentId ` set (ti_claims i)"
      "ti_claims i = [] \<or> ti_allowParallel i" "i' = add_claim cl now i"
  | (takeover) p where "ti_status i \<noteq> Done" "tko" "\<forall>c\<in>set (ti_claims i). \<not> running (tcl_agentId c)"
      "i' = add_claim cl now (note_progress p (i\<lparr>ti_claims := []\<rparr>))"
proof (cases "find_index (\<lambda>c. tcl_agentId c = clm_agentId cl) (ti_claims i)")
  case (Some n)
  with find_index_Some [OF Some] assms own show thesis
    by (auto simp: claimItem_def split: if_splits)
next
  case None
  then have "clm_agentId cl \<notin> tcl_agentId ` set (ti_claims i)" by (auto simp: find_index_None)
  with None assms join takeover show thesis
    by (auto simp: claimItem_def Let_def note_progress_def toClaimViews_def list_ex_iff split: if_splits)
qed

lemma claim_ok: "todo_ok i \<Longrightarrow> claimItem cl tko running now i = Inr (from, i') \<Longrightarrow> todo_ok i'"
  by (erule claimItem_cases)
     (auto simp: todo_ok_def map_agents_update add_claim_def new_claim_def note_progress_def)

lemma progress_claims:
  assumes "appendProgress tx a now i = Inr i'"
  shows "map tcl_agentId (ti_claims i') = map tcl_agentId (ti_claims i)" "ti_status i' = ti_status i"
    "ti_title i' = ti_title i" "ti_description i' = ti_description i" "ti_category i' = ti_category i"
    "ti_allowParallel i' = ti_allowParallel i"
  using assms
  by (auto simp: appendProgress_def sum_bind_Inr Let_def split: option.splits
      intro!: map_agents_update dest: find_index_Some)

lemma progress_ok: "todo_ok i \<Longrightarrow> appendProgress tx a now i = Inr i' \<Longrightarrow> todo_ok i'"
  using progress_claims [of tx a now i i'] by (auto simp: todo_ok_def)

lemma release_ok: "todo_ok i \<Longrightarrow> todo_ok (snd (releaseItem a now i))"
  by (auto simp: releaseItem_def todo_ok_def Let_def CLAIM_BOUND_STATUSES_def distinct_map_filter split: option.splits)

lemma item_created_ok:
  assumes "createItem k input now items = Inr (i, items')"
  shows "todo_ok i" "ti_claims i = []"
    "ti_allowParallel i = (case ci_allowParallel input of Some b \<Rightarrow> b | None \<Rightarrow> False)"
  using assms normalized
  by (auto simp: createItem_def sum_bind_Inr Let_def todo_ok_def split: if_splits)

lemma updateItem_parts:
  assumes "updateItem change now i = Inr i'"
  obtains t d c p b where
    "i' = i\<lparr>ti_title := t, ti_description := d, ti_category := c, ti_priority := p, ti_allowParallel := b,
       ti_updatedAt := now\<rparr>"
    "case ui_title change of None \<Rightarrow> t = ti_title i | Some x \<Rightarrow> normalizeTitle x = Inr t"
    "case ui_description change of None \<Rightarrow> d = ti_description i | Some x \<Rightarrow> normalizeDescription x = Inr d"
    "case ui_category change of None \<Rightarrow> c = ti_category i | Some x \<Rightarrow> normalizeCategory x = Inr c"
    "b = (case ui_allowParallel change of Some b \<Rightarrow> b | None \<Rightarrow> ti_allowParallel i)"
proof -
  obtain i1 i2 i3 where
    1: "(case ui_title change of None \<Rightarrow> Inr i
         | Some t \<Rightarrow> map_sum id (\<lambda>t. i\<lparr>ti_title := t\<rparr>) (normalizeTitle t)) = Inr i1"
    and 2: "(case ui_description change of None \<Rightarrow> Inr i1
         | Some d \<Rightarrow> map_sum id (\<lambda>d. i1\<lparr>ti_description := d\<rparr>) (normalizeDescription d)) = Inr i2"
    and 3: "(case ui_category change of None \<Rightarrow> Inr i2
         | Some c \<Rightarrow> map_sum id (\<lambda>c. i2\<lparr>ti_category := c\<rparr>) (normalizeCategory c)) = Inr i3"
    and 4: "i' = (let i4 = (case ui_priority change of None \<Rightarrow> i3 | Some p \<Rightarrow> i3\<lparr>ti_priority := p\<rparr>)
         in case ui_allowParallel change of None \<Rightarrow> i4 | Some b \<Rightarrow> i4\<lparr>ti_allowParallel := b\<rparr>)\<lparr>ti_updatedAt := now\<rparr>"
    using assms unfolding updateItem_def sum_bind_Inr Let_def by blast
  obtain t where t: "i1 = i\<lparr>ti_title := t\<rparr>"
      "case ui_title change of None \<Rightarrow> t = ti_title i | Some x \<Rightarrow> normalizeTitle x = Inr t"
    using 1 by (cases "ui_title change") (auto simp: map_sum_Inr intro: that [of "ti_title i"])
  obtain d where d: "i2 = i1\<lparr>ti_description := d\<rparr>"
      "case ui_description change of None \<Rightarrow> d = ti_description i | Some x \<Rightarrow> normalizeDescription x = Inr d"
    using 2 t(1) by (cases "ui_description change") (auto simp: map_sum_Inr intro: that [of "ti_description i"])
  obtain c where c: "i3 = i2\<lparr>ti_category := c\<rparr>"
      "case ui_category change of None \<Rightarrow> c = ti_category i | Some x \<Rightarrow> normalizeCategory x = Inr c"
    using 3 t(1) d(1) by (cases "ui_category change") (auto simp: map_sum_Inr intro: that [of "ti_category i"])
  show thesis
  proof (rule that [OF _ t(2) d(2) c(2) refl])
    show "i' = i\<lparr>ti_title := t, ti_description := d, ti_category := c,
       ti_priority := (case ui_priority change of Some p \<Rightarrow> p | None \<Rightarrow> ti_priority i),
       ti_allowParallel := (case ui_allowParallel change of Some b \<Rightarrow> b | None \<Rightarrow> ti_allowParallel i),
       ti_updatedAt := now\<rparr>"
      unfolding 4 c(1) d(1) t(1) Let_def
      by (cases "ui_priority change"; cases "ui_allowParallel change") simp_all
  qed
qed

lemma update_ok:
  assumes "todo_ok i" "updateItem change now i = Inr i'"
  shows "todo_ok i'"
  using assms(2)
proof (rule updateItem_parts)
  fix t d c p b
  assume i': "i' = i\<lparr>ti_title := t, ti_description := d, ti_category := c, ti_priority := p,
       ti_allowParallel := b, ti_updatedAt := now\<rparr>"
    and t: "case ui_title change of None \<Rightarrow> t = ti_title i | Some x \<Rightarrow> normalizeTitle x = Inr t"
    and d: "case ui_description change of None \<Rightarrow> d = ti_description i | Some x \<Rightarrow> normalizeDescription x = Inr d"
    and c: "case ui_category change of None \<Rightarrow> c = ti_category i | Some x \<Rightarrow> normalizeCategory x = Inr c"
  have "t \<noteq> [] \<and> length t \<le> PROJECT_TODO_TITLE_MAX"
    using t assms(1) by (cases "ui_title change") (auto simp: todo_ok_def dest: normalizeTitle_ok)
  moreover have "length d \<le> PROJECT_TODO_DESCRIPTION_MAX"
    using d assms(1) by (cases "ui_description change") (auto simp: todo_ok_def dest: normalizeDescription_ok)
  moreover have "category_ok c"
    using c assms(1) by (cases "ui_category change") (auto simp: todo_ok_def dest: normalizeCategory_ok)
  ultimately show "todo_ok i'" using i' assms(1) by (simp add: todo_ok_def)
qed

lemma stamp_ok: "todo_ok i \<Longrightarrow> todo_ok (stamp_plan now i)"
  and status_ok: "todo_ok i \<Longrightarrow> todo_ok (setItemStatus st now i)"
  and noted_ok: "todo_ok i \<Longrightarrow> todo_ok (note_progress p i)"
  by (auto simp: todo_ok_def stamp_plan_def setItemStatus_def note_progress_def)

interpretation well_formed: item_invariant todo_ok "\<lambda>_. True"
  by unfold_locales
     (erule item_created_ok(1) | erule (1) update_ok | erule (1) progress_ok | erule (1) claim_ok
      | erule stamp_ok | erule status_ok | erule noted_ok | erule release_ok)+

text \<open>At most one agent holds an item that nobody has opened to parallel work.\<close>

definition exclusive :: "ProjectTodoItem \<Rightarrow> bool" where
  "exclusive i = (\<not> ti_allowParallel i \<and> length (ti_claims i) \<le> 1)"

fun keeps_exclusive :: "todo_op \<Rightarrow> bool" where
  "keeps_exclusive (OCreate draws input plan now) = (ci_allowParallel input \<noteq> Some True)"
| "keeps_exclusive (OUpdate t change now) = (ui_allowParallel change \<noteq> Some True)"
| "keeps_exclusive _ = True"

lemma claim_exclusive: "exclusive i \<Longrightarrow> claimItem cl tko running now i = Inr (from, i') \<Longrightarrow> exclusive i'"
  by (erule claimItem_cases) (auto simp: exclusive_def add_claim_def note_progress_def)

lemma progress_exclusive: "exclusive i \<Longrightarrow> appendProgress tx a now i = Inr i' \<Longrightarrow> exclusive i'"
  using progress_claims [of tx a now i i'] by (metis exclusive_def length_map)

lemma create_exclusive:
  "keeps_exclusive (OCreate draws input plan now) \<Longrightarrow> createItem k input now items = Inr (i, items') \<Longrightarrow> exclusive i"
  using item_created_ok [of k input now items i items'] by (auto simp: exclusive_def split: option.splits)

lemma update_exclusive:
  "keeps_exclusive (OUpdate t change now) \<Longrightarrow> exclusive i \<Longrightarrow> updateItem change now i = Inr i' \<Longrightarrow> exclusive i'"
  by (erule updateItem_parts) (auto simp: exclusive_def split: option.splits)

lemma stamp_exclusive: "exclusive i \<Longrightarrow> exclusive (stamp_plan now i)"
  and status_exclusive: "exclusive i \<Longrightarrow> exclusive (setItemStatus st now i)"
  and noted_exclusive: "exclusive i \<Longrightarrow> exclusive (note_progress p i)"
  and release_exclusive: "exclusive i \<Longrightarrow> exclusive (snd (releaseItem a now i))"
  by (auto simp: exclusive_def stamp_plan_def setItemStatus_def note_progress_def releaseItem_def Let_def
      intro: le_trans [OF length_filter_le] split: option.splits)

interpretation one_claim: item_invariant exclusive keeps_exclusive
  by unfold_locales
     (erule (1) create_exclusive | erule (2) update_exclusive | erule (1) progress_exclusive
      | erule (1) claim_exclusive | erule stamp_exclusive | erule status_exclusive | erule noted_exclusive
      | erule release_exclusive)+

text \<open>C34. Every item a project's store ever holds is well formed: each agent holds at most one claim on
  it, a finished item has no claims, and its title, description and category are within their
  bounds and not empty where they must not be.\<close>

theorem todos_well_formed: "list_all todo_ok (ts_items (fold todo_step ops empty_todos))"
  by (rule well_formed.run_all) (simp_all add: empty_todos_def list_all_iff)

text \<open>As long as no item is created or updated to allow parallel work, no item is ever claimed by
  two agents, whatever claims, takeovers, releases and status changes are made.\<close>

theorem claims_exclusive:
  assumes "list_all keeps_exclusive ops" "i \<in> set (ts_items (fold todo_step ops empty_todos))"
  shows "length (ti_claims i) \<le> 1"
  using one_claim.run_all [of empty_todos ops] assms by (auto simp: empty_todos_def list_all_iff exclusive_def)

text \<open>C28. A claim never takes an item away from an agent that is running: whoever claims it, with or
  without takeover, a running holder still holds it afterwards.\<close>

theorem running_claim_survives:
  assumes "claimItem claimant takeover running now item = Inr (tookOverFrom, item')"
    and "c \<in> set (ti_claims item)" "running (tcl_agentId c)"
  shows "tcl_agentId c \<in> tcl_agentId ` set (ti_claims item')"
  using assms(1)
proof (cases rule: claimItem_cases)
  case (own n)
  then have "map tcl_agentId (ti_claims item') = map tcl_agentId (ti_claims item)"
    by (simp add: map_agents_update)
  with assms(2) show ?thesis by (metis image_eqI image_set)
next
  case join
  with assms(2) show ?thesis by (auto simp: add_claim_def)
next
  case (takeover p)
  with assms(2,3) show ?thesis by auto
qed

definition sample_claimant :: "string \<Rightarrow> ProjectTodoClaimant" where
  "sample_claimant a = \<lparr>clm_agentId = a, clm_sessionId = None, clm_workspaceId = None, clm_branch = None\<rparr>"

definition sample_item :: "bool \<Rightarrow> ProjectTodoItem" where
  "sample_item shared = \<lparr>ti_id = ''t'', ti_title = ''x'', ti_description = [], ti_category = None,
     ti_priority = MediumPriority, ti_status = Claimed, ti_allowParallel = shared,
     ti_claims = [new_claim (sample_claimant ''a'') ''now''], ti_progress = [], ti_createdAt = ''now'',
     ti_updatedAt = ''now'', ti_planUpdatedAt = None\<rparr>"

theorem running_claim_survives_witness:
  "''a'' \<in> tcl_agentId ` set (ti_claims (add_claim (sample_claimant ''b'') ''later'' (sample_item True)))"
proof -
  have "claimItem (sample_claimant ''b'') False (\<lambda>_. True) ''later'' (sample_item True)
      = Inr ([], add_claim (sample_claimant ''b'') ''later'' (sample_item True))"
    by (simp add: claimItem_def sample_item_def sample_claimant_def new_claim_def)
  from running_claim_survives [OF this, of "new_claim (sample_claimant ''a'') ''now''"] show ?thesis
    by (simp add: sample_item_def new_claim_def sample_claimant_def)
qed

definition sample_create :: CreateTodoInput where
  "sample_create = \<lparr>ci_title = ''x'', ci_description = None, ci_category = None, ci_priority = None,
     ci_status = None, ci_allowParallel = None\<rparr>"

definition sample_todo_ops :: "todo_op list" where
  "sample_todo_ops =
     [OCreate [''t''] sample_create None ''now'', OClaim ''t'' (sample_claimant ''a'') False (\<lambda>_. True) ''now'',
      OClaim ''t'' (sample_claimant ''b'') True (\<lambda>_. True) ''now'']"

lemma sample_todo_run: "ts_items (fold todo_step sample_todo_ops empty_todos) = [sample_item False]"
  by (simp add: sample_todo_ops_def empty_todos_def committed_def todo_create_def isValidTodoId_def id_char_def
      createItem_def sample_create_def CLAIM_BOUND_STATUSES_def normalizeTitle_def trimmed_within_def js_trim_def
      is_space_def PROJECT_TODO_TITLE_MAX_def normalizeDescription_def normalizeCategory_def truthy_def
      todo_claim_def mutate_item_def findItem_def claimItem_def add_claim_def put_item_def sample_item_def
      sample_claimant_def new_claim_def toClaimViews_def Let_def)

theorem claims_exclusive_witness: "length (ti_claims (sample_item False)) \<le> 1"
  by (rule claims_exclusive [of sample_todo_ops])
     (simp_all add: sample_todo_run, simp add: sample_todo_ops_def sample_create_def)

end
