(* ===== verification/Utf8.thy ===== *)
theory Utf8
  imports Main "HOL-Library.Word"
begin

text \<open>
  Text and bytes, as \<open>TextEncoder\<close> and \<open>TextDecoder\<close> relate them. A text is the list of its code
  points, lone surrogates among them; the encoder writes the replacement character for those. The
  decoder follows the steps of the encoding standard: an ill-formed sequence yields one error for
  its longest prefix that could have begun a character, which the fatal decoder refuses and the
  other replaces, and a byte order mark at the start is dropped.
\<close>

type_synonym bytes = "8 word list"
type_synonym codes = "nat list"

named_theorems utf8 "decoding what was encoded"

definition scalar :: "nat \<Rightarrow> bool" where
  "scalar c = (c < 0xD800 \<or> 0xDFFF < c \<and> c \<le> 0x10FFFF)"

definition byte :: "nat \<Rightarrow> 8 word" where
  "byte n = word_of_nat n"

definition utf8_char :: "nat \<Rightarrow> bytes" where
  "utf8_char c =
     (if c < 0x80 then [byte c]
      else if c < 0x800 then [byte (0xC0 + c div 64), byte (0x80 + c mod 64)]
      else if c < 0x10000 then
        [byte (0xE0 + c div 4096), byte (0x80 + c div 64 mod 64), byte (0x80 + c mod 64)]
      else
        [byte (0xF0 + c div 262144), byte (0x80 + c div 4096 mod 64), byte (0x80 + c div 64 mod 64),
         byte (0x80 + c mod 64)])"

definition text_encode :: "codes \<Rightarrow> bytes" where
  "text_encode s = concat (map (\<lambda>c. utf8_char (if scalar c then c else 0xFFFD)) s)"

text \<open>The first byte of a character says how many follow, between which bounds the next one lies and
  which bits it contributes.\<close>

definition utf8_first :: "8 word \<Rightarrow> (nat \<times> nat \<times> nat \<times> nat) option" where
  "utf8_first b =
     (let n = unat b in
      if n < 0x80 then Some (0, 0, 0, n)
      else if n < 0xC2 then None
      else if n < 0xE0 then Some (1, 0x80, 0xBF, n - 0xC0)
      else if n < 0xF0 then Some (2, if n = 0xE0 then 0xA0 else 0x80, if n = 0xED then 0x9F else 0xBF, n - 0xE0)
      else if n < 0xF5 then Some (3, if n = 0xF0 then 0x90 else 0x80, if n = 0xF4 then 0x8F else 0xBF, n - 0xF0)
      else None)"

fun utf8_rest :: "nat \<Rightarrow> nat \<Rightarrow> nat \<Rightarrow> nat \<Rightarrow> bytes \<Rightarrow> nat option \<times> bytes" where
  "utf8_rest 0 lower upper cp bs = (Some cp, bs)"
| "utf8_rest (Suc n) lower upper cp [] = (None, [])"
| "utf8_rest (Suc n) lower upper cp (b # bs) =
     (if lower \<le> unat b \<and> unat b \<le> upper then utf8_rest n 0x80 0xBF (cp * 64 + (unat b - 0x80)) bs
      else (None, b # bs))"

lemma utf8_rest_shorter: "length (snd (utf8_rest n lower upper cp bs)) \<le> length bs"
  by (induction n lower upper cp bs rule: utf8_rest.induct) (auto simp: le_Suc_eq)

function utf8_chars :: "bytes \<Rightarrow> nat option list" where
  "utf8_chars [] = []"
| "utf8_chars (b # bs) =
     (case utf8_first b of
        None \<Rightarrow> None # utf8_chars bs
      | Some (n, lower, upper, cp) \<Rightarrow>
          fst (utf8_rest n lower upper cp bs) # utf8_chars (snd (utf8_rest n lower upper cp bs)))"
  by pat_completeness auto
termination
  by (relation "measure length") (auto simp: le_imp_less_Suc utf8_rest_shorter)

definition strip_bom :: "nat option list \<Rightarrow> nat option list" where
  "strip_bom cs = (case cs of Some c # cs' \<Rightarrow> if c = 0xFEFF then cs' else cs | _ \<Rightarrow> cs)"

definition text_decode :: "bytes \<Rightarrow> codes" where
  "text_decode bs = map (\<lambda>c. case c of Some c \<Rightarrow> c | None \<Rightarrow> 0xFFFD) (strip_bom (utf8_chars bs))"

definition text_decode_fatal :: "bytes \<Rightarrow> codes option" where
  "text_decode_fatal bs =
     (if None \<in> set (utf8_chars bs) then None else Some (map the (strip_bom (utf8_chars bs))))"

text \<open>\<open>String.prototype.trim\<close>.\<close>

definition code_space :: "nat \<Rightarrow> bool" where
  "code_space c = (9 \<le> c \<and> c \<le> 13 \<or> c = 32 \<or> c = 0xA0 \<or> c = 0x1680 \<or> 0x2000 \<le> c \<and> c \<le> 0x200A
     \<or> c = 0x2028 \<or> c = 0x2029 \<or> c = 0x202F \<or> c = 0x205F \<or> c = 0x3000 \<or> c = 0xFEFF)"

definition text_trim :: "codes \<Rightarrow> codes" where
  "text_trim s = rev (dropWhile code_space (rev (dropWhile code_space s)))"

section \<open>Round trip\<close>

lemma unat_byte [simp]: "n < 256 \<Longrightarrow> unat (byte n) = n"
  by (simp add: byte_def unat_of_nat take_bit_eq_mod)

lemma sextets:
  fixes c :: nat
  shows "c = c div 64 * 64 + c mod 64" "c div 64 = c div 4096 * 64 + c div 64 mod 64"
    "c div 4096 = c div 262144 * 64 + c div 4096 mod 64"
proof -
  have "c div 64 div 64 = c div 4096" "c div 4096 div 64 = c div 262144"
    by (simp_all flip: div_mult2_eq)
  then show "c = c div 64 * 64 + c mod 64" "c div 64 = c div 4096 * 64 + c div 64 mod 64"
    "c div 4096 = c div 262144 * 64 + c div 4096 mod 64"
    by (metis div_mod_decomp)+
qed

lemma utf8_read_2:
  assumes "2 \<le> a" "a < 32" "b < 64"
  shows "utf8_chars (byte (192 + a) # byte (128 + b) # bs) = Some (a * 64 + b) # utf8_chars bs"
  using assms by (simp add: utf8_first_def Let_def)

lemma utf8_read_3:
  assumes "a < 16" "b < 64" "d < 64" "a = 0 \<Longrightarrow> 32 \<le> b" "a = 13 \<Longrightarrow> b < 32"
  shows "utf8_chars (byte (224 + a) # byte (128 + b) # byte (128 + d) # bs)
    = Some (a * 4096 + b * 64 + d) # utf8_chars bs"
  using assms by (auto simp: utf8_first_def Let_def numeral_2_eq_2)

lemma utf8_read_4:
  assumes "a < 5" "b < 64" "d < 64" "e < 64" "a = 0 \<Longrightarrow> 16 \<le> b" "a = 4 \<Longrightarrow> b < 16"
  shows "utf8_chars (byte (240 + a) # byte (128 + b) # byte (128 + d) # byte (128 + e) # bs)
    = Some (a * 262144 + b * 4096 + d * 64 + e) # utf8_chars bs"
  using assms by (auto simp: utf8_first_def Let_def numeral_3_eq_3)

lemma utf8_char_read:
  assumes "scalar c"
  shows "utf8_chars (utf8_char c @ bs) = Some c # utf8_chars bs"
proof -
  have c: "c \<le> 0x10FFFF" using assms by (auto simp: scalar_def)
  consider "c < 0x80" | "0x80 \<le> c" "c < 0x800" | "0x800 \<le> c" "c < 0x10000" | "0x10000 \<le> c" by linarith
  then show ?thesis
  proof cases
    case 1
    then show ?thesis by (simp add: utf8_char_def utf8_first_def)
  next
    case 2
    define a where "a = c div 64"
    define b where "b = c mod 64"
    have "c = a * 64 + b" "b < 64" by (simp_all add: a_def b_def)
    with 2 have "2 \<le> a" "a < 32" by linarith+
    with 2 \<open>b < 64\<close> show ?thesis
      using utf8_read_2 [of a b bs] \<open>c = a * 64 + b\<close> by (simp add: utf8_char_def flip: a_def b_def)
  next
    case 3
    define a where "a = c div 4096"
    define b where "b = c div 64 mod 64"
    define d where "d = c mod 64"
    have eq: "c = a * 4096 + b * 64 + d"
      using sextets [of c] unfolding a_def b_def d_def by linarith
    have bounds: "b < 64" "d < 64" by (simp_all add: b_def d_def)
    with eq 3 have a: "a < 16" by linarith
    have "a = 0 \<Longrightarrow> 32 \<le> b" using eq bounds 3 by linarith
    moreover have "a = 13 \<Longrightarrow> b < 32" using eq bounds 3 assms by (auto simp: scalar_def)
    ultimately have "utf8_chars (byte (224 + a) # byte (128 + b) # byte (128 + d) # bs) = Some c # utf8_chars bs"
      unfolding eq using a bounds by (intro utf8_read_3)
    with 3 show ?thesis by (simp add: utf8_char_def a_def b_def d_def)
  next
    case 4
    define a where "a = c div 262144"
    define b where "b = c div 4096 mod 64"
    define d where "d = c div 64 mod 64"
    define e where "e = c mod 64"
    have eq: "c = a * 262144 + b * 4096 + d * 64 + e"
      using sextets [of c] unfolding a_def b_def d_def e_def by linarith
    have bounds: "b < 64" "d < 64" "e < 64" by (simp_all add: b_def d_def e_def)
    with eq c have a: "a < 5" by linarith
    have "a = 0 \<Longrightarrow> 16 \<le> b" using eq bounds 4 by linarith
    moreover have "a = 4 \<Longrightarrow> b < 16" using eq bounds c by linarith
    ultimately have "utf8_chars (byte (240 + a) # byte (128 + b) # byte (128 + d) # byte (128 + e) # bs)
        = Some c # utf8_chars bs"
      unfolding eq using a bounds by (intro utf8_read_4)
    with 4 show ?thesis by (simp add: utf8_char_def a_def b_def d_def e_def)
  qed
qed

lemma utf8_chars_encode: "utf8_chars (text_encode s) = map (\<lambda>c. Some (if scalar c then c else 0xFFFD)) s"
  by (induction s) (simp_all add: text_encode_def utf8_char_read scalar_def)

lemma text_decode_encode [utf8]:
  assumes "list_all scalar s" "s = [] \<or> hd s \<noteq> 0xFEFF"
  shows "text_decode_fatal (text_encode s) = Some s" "text_decode (text_encode s) = s"
proof -
  have "map (\<lambda>c. Some (if scalar c then c else 0xFFFD)) s = map Some s"
    using assms(1) by (simp add: list_all_iff)
  then have "utf8_chars (text_encode s) = map Some s" by (simp add: utf8_chars_encode)
  moreover have "strip_bom (map Some s) = map Some s" using assms(2) by (cases s) (auto simp: strip_bom_def)
  ultimately show "text_decode_fatal (text_encode s) = Some s" "text_decode (text_encode s) = s"
    by (auto simp: text_decode_fatal_def text_decode_def comp_def)
qed

lemma bom_dropped: "list_all scalar s \<Longrightarrow> text_decode_fatal (text_encode (0xFEFF # s)) = Some s"
proof -
  assume "list_all scalar s"
  then have "map (\<lambda>c. Some (if scalar c then c else 0xFFFD)) (0xFEFF # s) = map Some (0xFEFF # s)"
    by (simp add: list_all_iff scalar_def)
  then have "utf8_chars (text_encode (0xFEFF # s)) = map Some (0xFEFF # s)" by (simp only: utf8_chars_encode)
  then show ?thesis by (auto simp: text_decode_fatal_def strip_bom_def comp_def)
qed

end
