(* ===== verification/Json.thy ===== *)
theory Json
  imports Utf8 "HOL-Library.AList"
begin

text \<open>
  \<open>JSON.parse\<close> and \<open>JSON.stringify\<close>. A number is its literal: nothing here computes with one. An
  object is the list of its members in the order of their keys' first occurrence, the last value of
  a key counting. The parser descends on fuel; as every step down has consumed a character or is
  paid for by a closing bracket, the length of the text is enough.
\<close>

datatype json =
    JNull
  | JBool bool
  | JNumber codes
  | JString codes
  | JArray "json list"
  | JObject "(codes \<times> json) list"

definition js :: "string \<Rightarrow> codes" where
  "js = map of_char"

lemma js_scalar: "list_all scalar (js s)"
proof -
  have "scalar (of_char c)" for c using nat_of_char_less_256 [of c] unfolding scalar_def by linarith
  then show ?thesis by (simp add: js_def list_all_iff)
qed

lemma js_inj: "js a = js b \<longleftrightarrow> a = b"
  unfolding js_def by (metis inj_map_eq_map inj_of_char)

section \<open>Printing\<close>

definition hex_code :: "nat \<Rightarrow> nat" where
  "hex_code n = (if n < 10 then 48 + n else 87 + n)"

definition escape :: "nat \<Rightarrow> codes" where
  "escape c =
     (if c = 34 then [92, 34] else if c = 92 then [92, 92]
      else if c = 8 then [92, 98] else if c = 9 then [92, 116] else if c = 10 then [92, 110]
      else if c = 12 then [92, 102] else if c = 13 then [92, 114]
      else if c < 32 \<or> 0xD800 \<le> c \<and> c \<le> 0xDFFF then
        [92, 117, hex_code (c div 4096), hex_code (c div 256 mod 16), hex_code (c div 16 mod 16), hex_code (c mod 16)]
      else [c])"

definition json_quote :: "codes \<Rightarrow> codes" where
  "json_quote s = 34 # concat (map escape s) @ [34]"

fun commas :: "codes list \<Rightarrow> codes" where
  "commas [] = []"
| "commas [x] = x"
| "commas (x # xs) = x @ 44 # commas xs"

primrec json_print :: "json \<Rightarrow> codes" where
  "json_print JNull = js ''null''"
| "json_print (JBool b) = (if b then js ''true'' else js ''false'')"
| "json_print (JNumber l) = l"
| "json_print (JString s) = json_quote s"
| "json_print (JArray vs) = 91 # commas (map json_print vs) @ [93]"
| "json_print (JObject ms) =
     123 # commas (map (\<lambda>(k, t). json_quote k @ 58 # t) (map (map_prod id json_print) ms)) @ [125]"

section \<open>Parsing\<close>

definition skip :: "codes \<Rightarrow> codes" where
  "skip = dropWhile (\<lambda>c. c = 32 \<or> c = 9 \<or> c = 10 \<or> c = 13)"

definition expect :: "nat \<Rightarrow> codes \<Rightarrow> codes option" where
  "expect c s = (case skip s of [] \<Rightarrow> None | x # t \<Rightarrow> if x = c then Some t else None)"

definition hex_value :: "nat \<Rightarrow> nat option" where
  "hex_value c = (if 48 \<le> c \<and> c \<le> 57 then Some (c - 48)
     else if 97 \<le> c \<and> c \<le> 102 then Some (c - 87)
     else if 65 \<le> c \<and> c \<le> 70 then Some (c - 55) else None)"

definition hex_unit :: "codes \<Rightarrow> nat option" where
  "hex_unit s = (case map hex_value s of
       [Some a, Some b, Some c, Some d] \<Rightarrow> Some (a * 4096 + b * 256 + c * 16 + d)
     | _ \<Rightarrow> None)"

definition unescape :: "nat \<Rightarrow> nat option" where
  "unescape e = map_of [(34, 34), (92, 92), (47, 47), (98, 8), (102, 12), (110, 10), (114, 13), (116, 9)] e"

function parse_chars :: "codes \<Rightarrow> (codes \<times> codes) option" where
  "parse_chars [] = None"
| "parse_chars (c # s) =
     (if c = 34 then Some ([], s)
      else if c < 32 then None
      else if c = 92 then
        (case s of
           [] \<Rightarrow> None
         | e # t \<Rightarrow>
             if e = 117 then
               (case hex_unit (take 4 t) of
                  None \<Rightarrow> None
                | Some u \<Rightarrow> map_option (apfst (Cons u)) (parse_chars (drop 4 t)))
             else
               (case unescape e of
                  None \<Rightarrow> None
                | Some u \<Rightarrow> map_option (apfst (Cons u)) (parse_chars t)))
      else map_option (apfst (Cons c)) (parse_chars s))"
  by pat_completeness auto
termination
  by (relation "measure length") auto

fun pair_surrogates :: "codes \<Rightarrow> codes" where
  "pair_surrogates (a # b # s) =
     (if 0xD800 \<le> a \<and> a \<le> 0xDBFF \<and> 0xDC00 \<le> b \<and> b \<le> 0xDFFF
      then (0x10000 + (a - 0xD800) * 1024 + (b - 0xDC00)) # pair_surrogates s
      else a # pair_surrogates (b # s))"
| "pair_surrogates s = s"

definition is_digit :: "nat \<Rightarrow> bool" where
  "is_digit c = (48 \<le> c \<and> c \<le> 57)"

definition number_exponent :: "codes \<Rightarrow> codes \<Rightarrow> (codes \<times> codes) option" where
  "number_exponent l s =
     (case s of
        e # t \<Rightarrow>
          if e = 101 \<or> e = 69 then
            (let sign = (case t of c # _ \<Rightarrow> if c = 43 \<or> c = 45 then [c] else [] | [] \<Rightarrow> []);
                 u = drop (length sign) t; ds = takeWhile is_digit u
             in if ds = [] then None else Some (l @ e # sign @ ds, dropWhile is_digit u))
          else Some (l, s)
      | [] \<Rightarrow> Some (l, s))"

definition number_fraction :: "codes \<Rightarrow> codes \<Rightarrow> (codes \<times> codes) option" where
  "number_fraction l s =
     (case s of
        p # t \<Rightarrow>
          if p = 46 then
            (let ds = takeWhile is_digit t
             in if ds = [] then None else number_exponent (l @ p # ds) (dropWhile is_digit t))
          else number_exponent l s
      | [] \<Rightarrow> Some (l, s))"

definition parse_number :: "codes \<Rightarrow> (codes \<times> codes) option" where
  "parse_number s =
     (let sign = (case s of c # _ \<Rightarrow> if c = 45 then [c] else [] | [] \<Rightarrow> []);
          u = drop (length sign) s; ds = takeWhile is_digit u
      in if ds = [] then None
         else if hd ds = 48 then number_fraction (sign @ [48]) (tl u)
         else number_fraction (sign @ ds) (dropWhile is_digit u))"

definition literal :: "codes \<Rightarrow> json \<Rightarrow> codes \<Rightarrow> (json \<times> codes) option" where
  "literal l v s = (if take (length l) s = l then Some (v, drop (length l) s) else None)"

fun parse_value :: "nat \<Rightarrow> codes \<Rightarrow> (json \<times> codes) option"
  and parse_items :: "nat \<Rightarrow> codes \<Rightarrow> (json list \<times> codes) option"
  and parse_members :: "nat \<Rightarrow> codes \<Rightarrow> ((codes \<times> json) list \<times> codes) option" where
  "parse_value 0 s = None"
| "parse_value (Suc n) s =
     (case skip s of
        [] \<Rightarrow> None
      | c # t \<Rightarrow>
          if c = 123 then
            (case expect 125 t of
               Some u \<Rightarrow> Some (JObject [], u)
             | None \<Rightarrow> map_option (apfst (\<lambda>ms. JObject (fold (\<lambda>(k, v). AList.update k v) ms []))) (parse_members n t))
          else if c = 91 then
            (case expect 93 t of
               Some u \<Rightarrow> Some (JArray [], u)
             | None \<Rightarrow> map_option (apfst JArray) (parse_items n t))
          else if c = 34 then map_option (apfst (\<lambda>s. JString (pair_surrogates s))) (parse_chars t)
          else if c = 110 then literal (js ''null'') JNull (c # t)
          else if c = 116 then literal (js ''true'') (JBool True) (c # t)
          else if c = 102 then literal (js ''false'') (JBool False) (c # t)
          else map_option (apfst JNumber) (parse_number (c # t)))"
| "parse_items 0 s = None"
| "parse_items (Suc n) s =
     (case parse_value n s of
        None \<Rightarrow> None
      | Some (v, t) \<Rightarrow>
          (case expect 44 t of
             Some u \<Rightarrow> map_option (apfst (Cons v)) (parse_items n u)
           | None \<Rightarrow> map_option (Pair [v]) (expect 93 t)))"
| "parse_members 0 s = None"
| "parse_members (Suc n) s =
     (case expect 34 s of
        None \<Rightarrow> None
      | Some t \<Rightarrow>
          (case parse_chars t of
             None \<Rightarrow> None
           | Some (k, u) \<Rightarrow>
               (case expect 58 u of
                  None \<Rightarrow> None
                | Some v \<Rightarrow>
                    (case parse_value n v of
                       None \<Rightarrow> None
                     | Some (x, w) \<Rightarrow>
                         (case expect 44 w of
                            Some y \<Rightarrow> map_option (apfst (Cons (pair_surrogates k, x))) (parse_members n y)
                          | None \<Rightarrow> map_option (Pair [(pair_surrogates k, x)]) (expect 125 w))))))"

definition json_parse :: "codes \<Rightarrow> json option" where
  "json_parse s = (case parse_value (Suc (length s)) s of
       Some (v, t) \<Rightarrow> if skip t = [] then Some v else None
     | None \<Rightarrow> None)"

definition json_member :: "codes \<Rightarrow> json \<Rightarrow> json option" where
  "json_member k v = (case v of JObject ms \<Rightarrow> map_of ms k | _ \<Rightarrow> None)"

section \<open>Round trip\<close>

text \<open>Values a program can build from texts without lone surrogates and natural numbers.\<close>

definition plain_number :: "codes \<Rightarrow> bool" where
  "plain_number l = (l \<noteq> [] \<and> list_all is_digit l \<and> (hd l = 48 \<longrightarrow> l = [48]))"

primrec json_plain :: "json \<Rightarrow> bool" where
  "json_plain JNull = True"
| "json_plain (JBool b) = True"
| "json_plain (JNumber l) = plain_number l"
| "json_plain (JString s) = list_all scalar s"
| "json_plain (JArray vs) = list_all (\<lambda>b. b) (map json_plain vs)"
| "json_plain (JObject ms) =
     (distinct (map fst ms) \<and> list_all (\<lambda>(k, b). list_all scalar k \<and> b) (map (map_prod id json_plain) ms))"

definition stops :: "codes \<Rightarrow> bool" where
  "stops rest = (case rest of [] \<Rightarrow> True | c # _ \<Rightarrow> \<not> is_digit c \<and> c \<noteq> 46 \<and> c \<noteq> 101 \<and> c \<noteq> 69)"

lemma skip_Cons: "skip (c # s) = (if c = 32 \<or> c = 9 \<or> c = 10 \<or> c = 13 then skip s else c # s)"
  by (simp add: skip_def)

lemma expect_Cons: "c \<notin> {32, 9, 10, 13} \<Longrightarrow> expect x (c # s) = (if c = x then Some s else None)"
  by (simp add: expect_def skip_Cons)

lemma hex_round: "n < 16 \<Longrightarrow> hex_value (hex_code n) = Some n"
  by (auto simp: hex_value_def hex_code_def)

lemma nibbles:
  fixes c :: nat
  assumes "c < 65536"
  shows "c div 4096 * 4096 + c div 256 mod 16 * 256 + c div 16 mod 16 * 16 + c mod 16 = c" "c div 4096 < 16"
proof -
  have "c div 16 div 16 = c div 256" "c div 256 div 16 = c div 4096" by (simp_all flip: div_mult2_eq)
  moreover have "c = c div 16 * 16 + c mod 16" by simp
  moreover have "c div 16 = c div 16 div 16 * 16 + c div 16 mod 16" by simp
  moreover have "c div 256 = c div 256 div 16 * 16 + c div 256 mod 16" by simp
  ultimately show "c div 4096 * 4096 + c div 256 mod 16 * 256 + c div 16 mod 16 * 16 + c mod 16 = c" by linarith
  show "c div 4096 < 16" using assms by simp
qed

lemma escape_read: "parse_chars (escape c @ s) = map_option (apfst (Cons c)) (parse_chars s)"
proof (cases "c = 34 \<or> c = 92 \<or> c = 8 \<or> c = 9 \<or> c = 10 \<or> c = 12 \<or> c = 13")
  case True
  then show ?thesis by (auto simp: escape_def unescape_def)
next
  case False
  show ?thesis
  proof (cases "c < 32 \<or> 0xD800 \<le> c \<and> c \<le> 0xDFFF")
    case True
    then have "c < 65536" by auto
    with True False show ?thesis
      by (simp add: escape_def hex_unit_def hex_round nibbles)
  next
    case False2: False
    with False show ?thesis by (auto simp: escape_def)
  qed
qed

lemma quote_read: "parse_chars (concat (map escape s) @ 34 # rest) = Some (s, rest)"
  by (induction s) (simp_all add: escape_read)

lemma no_surrogates: "list_all scalar s \<Longrightarrow> pair_surrogates s = s"
  by (induction s rule: pair_surrogates.induct) (auto simp: scalar_def)

lemma number_read: "plain_number l \<Longrightarrow> stops rest \<Longrightarrow> parse_number (l @ rest) = Some (l, rest)"
proof -
  assume l: "plain_number l" and rest: "stops rest"
  have take: "takeWhile is_digit (l @ rest) = l" "dropWhile is_digit (l @ rest) = rest"
    using l rest by (auto simp: plain_number_def stops_def list_all_iff takeWhile_append2 dropWhile_append2
        split: list.splits)
  have frac: "number_fraction l rest = Some (l, rest)"
    using rest by (auto simp: number_fraction_def number_exponent_def stops_def split: list.splits)
  obtain c t where c: "l = c # t" "is_digit c" using l by (cases l) (auto simp: plain_number_def)
  then have "(case l @ rest of c # _ \<Rightarrow> if c = 45 then [c] else [] | [] \<Rightarrow> []) = []"
    by (simp add: is_digit_def)
  then show ?thesis
    using take frac c l by (auto simp: parse_number_def Let_def plain_number_def)
qed

definition readable :: "json \<Rightarrow> bool" where
  "readable v = (\<forall>n rest. length (json_print v) \<le> n \<longrightarrow> stops rest \<longrightarrow> parse_value n (json_print v @ rest) = Some (v, rest))"

definition starts_value :: "codes \<Rightarrow> bool" where
  "starts_value s = (case s of [] \<Rightarrow> False | c # _ \<Rightarrow> c \<notin> {32, 9, 10, 13, 93, 125})"

lemma print_starts: "json_plain v \<Longrightarrow> starts_value (json_print v @ rest)"
  by (cases v) (auto simp: starts_value_def js_def json_quote_def plain_number_def is_digit_def neq_Nil_conv)

lemma starts_skip: "starts_value s \<Longrightarrow> skip s = s"
  by (auto simp: starts_value_def skip_Cons split: list.splits)

lemma starts_expect: "starts_value s \<Longrightarrow> expect 93 s = None" "starts_value s \<Longrightarrow> expect 125 s = None"
  by (auto simp: starts_value_def expect_Cons split: list.splits)

lemma stops_comma [simp]: "stops (44 # s)" "stops (93 # s)" "stops (125 # s)" "stops []"
  by (simp_all add: stops_def is_digit_def)

lemma print_nonempty: "json_plain v \<Longrightarrow> 0 < length (json_print v)"
  using print_starts [of v "[]"] by (auto simp: starts_value_def)

lemma items_read:
  "vs \<noteq> [] \<Longrightarrow> \<forall>v\<in>set vs. json_plain v \<and> readable v \<Longrightarrow> Suc (length (commas (map json_print vs))) \<le> n \<Longrightarrow>
     parse_items n (commas (map json_print vs) @ 93 # rest) = Some (vs, rest)"
proof (induction "map json_print vs" arbitrary: vs n rest rule: commas.induct)
  case (2 x)
  then obtain v where "vs = [v]" by auto
  with 2 show ?case by (cases n) (auto simp: readable_def expect_Cons)
next
  case (3 x y zs)
  then obtain v vs' where vs: "vs = v # vs'" "y # zs = map json_print vs'" by (auto simp: map_eq_Cons_conv)
  obtain m where n: "n = Suc m" using 3(5) by (cases n) auto
  have "commas (map json_print vs) = json_print v @ 44 # commas (map json_print vs')"
    using vs by (simp flip: vs(2))
  moreover have "parse_items m (commas (map json_print vs') @ 93 # rest) = Some (vs', rest)"
    using 3 vs n calculation by (intro 3(1)) auto
  ultimately show ?case
    using 3(4,5) vs(1) n by (simp add: readable_def expect_Cons)
qed simp

definition member_text :: "codes \<times> json \<Rightarrow> codes" where
  "member_text = (\<lambda>(k, v). json_quote k @ 58 # json_print v)"

lemma members_read:
  "ms \<noteq> [] \<Longrightarrow> \<forall>(k, v)\<in>set ms. list_all scalar k \<and> json_plain v \<and> readable v \<Longrightarrow>
     Suc (length (commas (map member_text ms))) \<le> n \<Longrightarrow>
     parse_members n (commas (map member_text ms) @ 125 # rest) = Some (ms, rest)"
proof (induction "map member_text ms" arbitrary: ms n rest rule: commas.induct)
  case (2 x)
  then obtain k v where ms: "ms = [(k, v)]" by auto
  obtain m where "n = Suc m" using 2(4) by (cases n) auto
  with 2 ms print_starts [of v "125 # rest"] show ?case
    by (auto simp: member_text_def json_quote_def expect_Cons quote_read readable_def no_surrogates)
next
  case (3 x y zs)
  then obtain k v ms' where ms: "ms = (k, v) # ms'" "y # zs = map member_text ms'" by (auto simp: map_eq_Cons_conv)
  obtain m where n: "n = Suc m" using 3(5) by (cases n) auto
  have *: "commas (map member_text ms) = member_text (k, v) @ 44 # commas (map member_text ms')"
    using ms by (simp flip: ms(2))
  moreover have "parse_members m (commas (map member_text ms') @ 125 # rest) = Some (ms', rest)"
    using 3 ms n calculation by (intro 3(1)) auto
  ultimately show ?case
    using 3(4,5) ms(1) n
    by (auto simp: member_text_def json_quote_def expect_Cons quote_read readable_def no_surrogates)
qed simp

lemma fold_update: "distinct (map fst ms) \<Longrightarrow> fold (\<lambda>(k, v). AList.update k v) ms [] = ms"
proof -
  have "distinct (map fst (m1 @ m2)) \<Longrightarrow> fold (\<lambda>(k, v). AList.update k v) m2 m1 = m1 @ m2" for m1 m2 :: "('a \<times> 'b) list"
  proof (induction m2 arbitrary: m1)
    case (Cons u m2)
    obtain k v where u: "u = (k, v)" by (cases u)
    have "AList.update k v m = m @ [(k, v)]" if "k \<notin> fst ` set m" for m :: "('a \<times> 'b) list"
      using that by (induction m) auto
    then show ?case using Cons.IH [of "m1 @ [u]"] Cons.prems u by simp
  qed simp
  from this [of "[]" ms] show "distinct (map fst ms) \<Longrightarrow> fold (\<lambda>(k, v). AList.update k v) ms [] = ms" by simp
qed

lemma print_readable: "json_plain v \<Longrightarrow> readable v"
proof (induction v)
  case (JArray vs)
  show ?case
    unfolding readable_def
  proof (intro allI impI)
    fix n rest
    assume n: "length (json_print (JArray vs)) \<le> n" and "stops rest"
    then obtain m where m: "n = Suc m" by (cases n) auto
    have ok: "\<forall>v\<in>set vs. json_plain v \<and> readable v" using JArray by (auto simp: list_all_iff)
    show "parse_value n (json_print (JArray vs) @ rest) = Some (JArray vs, rest)"
    proof (cases vs)
      case Nil
      with m show ?thesis by (simp add: skip_Cons expect_Cons)
    next
      case (Cons v vs')
      have "starts_value (commas (map json_print vs) @ 93 # rest)"
        using print_starts [of v] ok Cons by (cases vs') auto
      then show ?thesis
        using items_read [of vs m rest] ok Cons m n by (simp add: skip_Cons starts_expect)
    qed
  qed
next
  case (JObject ms)
  have print: "json_print (JObject ms) = 123 # commas (map member_text ms) @ [125]"
    by (simp add: member_text_def case_prod_unfold comp_def)
  show ?case
    unfolding readable_def
  proof (intro allI impI)
    fix n rest
    assume n: "length (json_print (JObject ms)) \<le> n" and "stops rest"
    then obtain m where m: "n = Suc m" by (cases n) auto
    have ok: "\<forall>(k, v)\<in>set ms. list_all scalar k \<and> json_plain v \<and> readable v" "distinct (map fst ms)"
      using JObject by (force simp: list_all_iff)+
    show "parse_value n (json_print (JObject ms) @ rest) = Some (JObject ms, rest)"
    proof (cases ms)
      case Nil
      with m show ?thesis by (simp add: skip_Cons expect_Cons)
    next
      case (Cons u ms')
      have "starts_value (commas (map member_text ms) @ 125 # rest)"
        using Cons by (cases ms'; cases u) (auto simp: member_text_def json_quote_def starts_value_def)
      then show ?thesis
        using members_read [of ms m rest] ok Cons m n print fold_update [OF ok(2)]
        by (simp add: skip_Cons starts_expect del: json_print.simps)
    qed
  qed
next
  case (JNumber l)
  then obtain c t where c: "l = c # t" "is_digit c" by (cases l) (auto simp: plain_number_def)
  show ?case
    unfolding readable_def
  proof (intro allI impI)
    fix n rest
    assume "length (json_print (JNumber l)) \<le> n" "stops rest"
    with c JNumber number_read [of l rest] show "parse_value n (json_print (JNumber l) @ rest) = Some (JNumber l, rest)"
      by (cases n) (auto simp: skip_Cons is_digit_def)
  qed
next
  case (JString s)
  show ?case
    unfolding readable_def
  proof (intro allI impI)
    fix n rest
    assume "length (json_print (JString s)) \<le> n"
    with JString show "parse_value n (json_print (JString s) @ rest) = Some (JString s, rest)"
      by (cases n) (auto simp: skip_Cons json_quote_def quote_read no_surrogates)
  qed
next
  case JNull
  show ?case
    unfolding readable_def
  proof (intro allI impI)
    fix n rest
    assume "length (json_print JNull) \<le> n"
    then show "parse_value n (json_print JNull @ rest) = Some (JNull, rest)"
      by (cases n) (auto simp: skip_Cons js_def literal_def)
  qed
next
  case (JBool b)
  show ?case
    unfolding readable_def
  proof (intro allI impI)
    fix n rest
    assume "length (json_print (JBool b)) \<le> n"
    then show "parse_value n (json_print (JBool b) @ rest) = Some (JBool b, rest)"
      by (cases n; cases b) (auto simp: skip_Cons js_def literal_def)
  qed
qed

theorem json_roundtrip:
  assumes "json_plain v"
  shows "json_parse (json_print v) = Some v"
proof -
  have "parse_value (Suc (length (json_print v))) (json_print v @ []) = Some (v, [])"
    using print_readable [OF assms] unfolding readable_def by (metis le_SucI order_refl stops_comma(4))
  then show ?thesis by (simp add: json_parse_def skip_def del: parse_value.simps)
qed

end
