(* ===== verification/BinaryFrames.thy ===== *)
theory BinaryFrames
  imports Json
begin

text \<open>
  The binary frames of the protocol (\<open>protocol/src/binary-frames/terminal.ts\<close>, \<open>file-transfer.ts\<close>, \<open>demux.ts\<close>):
  terminal streams, file transfers and the reader that tells them apart by their first byte. An
  encoder that throws is \<open>None\<close>, and so is a decoder that finds no frame. The zod schemas are read
  on JSON values; a number literal is read exactly.
\<close>

section \<open>JSON payloads\<close>

fun nat_codes :: "nat \<Rightarrow> codes" where
  "nat_codes n = (if n < 10 then [48 + n] else nat_codes (n div 10) @ [48 + n mod 10])"

definition digits_value :: "codes \<Rightarrow> nat" where
  "digits_value ds = foldl (\<lambda>n d. n * 10 + (d - 48)) 0 ds"

definition number_parts :: "codes \<Rightarrow> bool \<times> codes \<times> codes \<times> int" where
  "number_parts l =
     (let neg = (l \<noteq> [] \<and> hd l = 45); u = (if neg then tl l else l);
          whole = takeWhile is_digit u; v = dropWhile is_digit u;
          frac = (if v \<noteq> [] \<and> hd v = 46 then takeWhile is_digit (tl v) else []);
          w = (if v \<noteq> [] \<and> hd v = 46 then dropWhile is_digit (tl v) else v);
          ex = (if w = [] then 0
                else if tl w \<noteq> [] \<and> hd (tl w) = 45 then - int (digits_value (tl (tl w)))
                else if tl w \<noteq> [] \<and> hd (tl w) = 43 then int (digits_value (tl (tl w)))
                else int (digits_value (tl w)))
      in (neg, whole, frac, ex))"

text \<open>A literal of a whole number that is not negative and that a double represents with certainty, as zod's \<open>int\<close> requires.\<close>

definition json_nat :: "codes \<Rightarrow> nat option" where
  "json_nat l =
     (case number_parts l of (neg, whole, frac, ex) \<Rightarrow>
        let m = digits_value (whole @ frac); s = ex - int (length frac);
            n = (if 0 \<le> s then m * 10 ^ nat s else m div 10 ^ nat (- s))
        in if (0 \<le> s \<or> m mod 10 ^ nat (- s) = 0) \<and> (neg \<longrightarrow> n = 0) \<and> n \<le> 9007199254740991 then Some n else None)"

definition encodeJsonPayload :: "json \<Rightarrow> bytes" where
  "encodeJsonPayload v = text_encode (json_print v)"

definition decodeJsonPayload :: "bytes \<Rightarrow> json" where
  "decodeJsonPayload bs = (case json_parse (text_decode bs) of Some v \<Rightarrow> v | None \<Rightarrow> JNull)"

definition required_string :: "codes \<Rightarrow> json \<Rightarrow> codes option" where
  "required_string k v = (case json_member k v of Some (JString s) \<Rightarrow> Some s | _ \<Rightarrow> None)"

definition optional_string :: "codes \<Rightarrow> json \<Rightarrow> codes option option" where
  "optional_string k v =
     (case json_member k v of None \<Rightarrow> Some None | Some (JString s) \<Rightarrow> Some (Some s) | Some _ \<Rightarrow> None)"

definition required_nat :: "codes \<Rightarrow> json \<Rightarrow> nat option" where
  "required_nat k v = (case json_member k v of Some (JNumber l) \<Rightarrow> json_nat l | _ \<Rightarrow> None)"

definition member_if :: "codes \<Rightarrow> json option \<Rightarrow> (codes \<times> json) list" where
  "member_if k v = (case v of Some x \<Rightarrow> [(k, x)] | None \<Rightarrow> [])"

section \<open>Terminal streams\<close>

datatype TerminalStreamOpcode = Output | Input | Resize | Snapshot | Restore

definition terminal_code :: "TerminalStreamOpcode \<Rightarrow> nat" where
  "terminal_code c = (case c of Output \<Rightarrow> 1 | Input \<Rightarrow> 2 | Resize \<Rightarrow> 3 | Snapshot \<Rightarrow> 4 | Restore \<Rightarrow> 5)"

definition terminalStreamOpcode :: "8 word \<Rightarrow> TerminalStreamOpcode option" where
  "terminalStreamOpcode b = List.find (\<lambda>c. terminal_code c = unat b) [Output, Input, Resize, Snapshot, Restore]"

record TerminalStreamFrame =
  ts_opcode :: TerminalStreamOpcode
  ts_slot :: "8 word"
  ts_payload :: bytes

definition encodeTerminalStreamFrame :: "TerminalStreamOpcode \<Rightarrow> int \<Rightarrow> bytes \<Rightarrow> bytes" where
  "encodeTerminalStreamFrame opcode slot payload =
     byte (terminal_code opcode) # word_of_int (slot mod 256) # payload"

definition decodeTerminalStreamFrame :: "bytes \<Rightarrow> TerminalStreamFrame option" where
  "decodeTerminalStreamFrame bs =
     (if length bs < 2 then None
      else case terminalStreamOpcode (bs ! 0) of
        None \<Rightarrow> None
      | Some opcode \<Rightarrow> Some \<lparr>ts_opcode = opcode, ts_slot = bs ! 1, ts_payload = drop 2 bs\<rparr>)"

datatype resize_intent = ResizeClaim | ResizeUpdate

record TerminalStreamResize =
  rz_rows :: nat
  rz_cols :: nat
  rz_intent :: "resize_intent option"

definition intent_text :: "resize_intent \<Rightarrow> codes" where
  "intent_text i = (case i of ResizeClaim \<Rightarrow> js ''claim'' | ResizeUpdate \<Rightarrow> js ''update'')"

definition intent_of :: "codes \<Rightarrow> resize_intent option" where
  "intent_of s = List.find (\<lambda>i. intent_text i = s) [ResizeClaim, ResizeUpdate]"

definition encodeTerminalResizePayload :: "TerminalStreamResize \<Rightarrow> bytes" where
  "encodeTerminalResizePayload r =
     encodeJsonPayload (JObject
       ([(js ''rows'', JNumber (nat_codes (rz_rows r))), (js ''cols'', JNumber (nat_codes (rz_cols r)))]
        @ member_if (js ''intent'') (map_option (\<lambda>i. JString (intent_text i)) (rz_intent r))))"

definition decodeTerminalResizePayload :: "bytes \<Rightarrow> TerminalStreamResize option" where
  "decodeTerminalResizePayload bs =
     (let v = decodeJsonPayload bs
      in case (required_nat (js ''rows'') v, required_nat (js ''cols'') v, optional_string (js ''intent'') v) of
           (Some rows, Some cols, Some intent) \<Rightarrow>
             if rows = 0 \<or> cols = 0 then None
             else (case intent of
                     None \<Rightarrow> Some \<lparr>rz_rows = rows, rz_cols = cols, rz_intent = None\<rparr>
                   | Some s \<Rightarrow> map_option (\<lambda>i. \<lparr>rz_rows = rows, rz_cols = cols, rz_intent = Some i\<rparr>) (intent_of s))
         | _ \<Rightarrow> None)"

section \<open>File transfers\<close>

datatype file_encoding = Utf8Encoding | BinaryEncoding

record FileBeginMetadata =
  fm_mime :: codes
  fm_size :: nat
  fm_encoding :: file_encoding
  fm_modifiedAt :: codes
  fm_revision :: "codes option"
  fm_fileName :: "codes option"

datatype FileTransferFrame =
    FileBegin (ff_requestId: codes) FileBeginMetadata
  | FileChunk (ff_requestId: codes) bytes
  | FileEnd (ff_requestId: codes)

definition FILE_BEGIN :: nat where "FILE_BEGIN = 0x10"
definition FILE_CHUNK :: nat where "FILE_CHUNK = 0x11"
definition FILE_END :: nat where "FILE_END = 0x12"

definition encoding_text :: "file_encoding \<Rightarrow> codes" where
  "encoding_text e = (case e of Utf8Encoding \<Rightarrow> js ''utf-8'' | BinaryEncoding \<Rightarrow> js ''binary'')"

definition encoding_of :: "codes \<Rightarrow> file_encoding option" where
  "encoding_of s = List.find (\<lambda>e. encoding_text e = s) [Utf8Encoding, BinaryEncoding]"

definition metadata_json :: "FileBeginMetadata \<Rightarrow> json" where
  "metadata_json m = JObject
     ([(js ''mime'', JString (fm_mime m)), (js ''size'', JNumber (nat_codes (fm_size m))),
       (js ''encoding'', JString (encoding_text (fm_encoding m))), (js ''modifiedAt'', JString (fm_modifiedAt m))]
      @ member_if (js ''revision'') (map_option JString (fm_revision m))
      @ member_if (js ''fileName'') (map_option JString (fm_fileName m)))"

definition metadata_of :: "json \<Rightarrow> FileBeginMetadata option" where
  "metadata_of v =
     (case (required_string (js ''mime'') v, required_nat (js ''size'') v, required_string (js ''encoding'') v,
            required_string (js ''modifiedAt'') v, optional_string (js ''revision'') v, optional_string (js ''fileName'') v) of
        (Some mime, Some sz, Some enc, Some modifiedAt, Some revision, Some fileName) \<Rightarrow>
          if mime = [] then None
          else map_option (\<lambda>e. \<lparr>fm_mime = mime, fm_size = sz, fm_encoding = e, fm_modifiedAt = modifiedAt,
                 fm_revision = revision, fm_fileName = fileName\<rparr>) (encoding_of enc)
      | _ \<Rightarrow> None)"

definition encodeRequestId :: "codes \<Rightarrow> bytes option" where
  "encodeRequestId requestId =
     (let bs = text_encode requestId
      in if length bs = 0 then None else if length bs > 0xff then None else Some bs)"

definition setUint16 :: "nat \<Rightarrow> bytes" where
  "setUint16 n = [byte (n div 256 mod 256), byte (n mod 256)]"

definition getUint16 :: "bytes \<Rightarrow> nat" where
  "getUint16 bs = unat (bs ! 0) * 256 + unat (bs ! 1)"

definition frame_head :: "nat \<Rightarrow> bytes \<Rightarrow> bytes" where
  "frame_head opcode requestId = byte opcode # byte (length requestId) # requestId"

definition encodeFileTransferFrame :: "FileTransferFrame \<Rightarrow> bytes option" where
  "encodeFileTransferFrame f =
     (case encodeRequestId (ff_requestId f) of
        None \<Rightarrow> None
      | Some requestId \<Rightarrow>
          (case f of
             FileBegin _ m \<Rightarrow>
               (let metadata = encodeJsonPayload (metadata_json m)
                in if length metadata > 0xffff then None
                   else Some (frame_head FILE_BEGIN requestId @ setUint16 (length metadata) @ metadata))
           | FileChunk _ payload \<Rightarrow> Some (frame_head FILE_CHUNK requestId @ payload)
           | FileEnd _ \<Rightarrow> Some (frame_head FILE_END requestId)))"

definition isFileTransferOpcode :: "8 word \<Rightarrow> bool" where
  "isFileTransferOpcode b = (unat b \<in> {FILE_BEGIN, FILE_CHUNK, FILE_END})"

definition decodeFileTransferFrame :: "bytes \<Rightarrow> FileTransferFrame option" where
  "decodeFileTransferFrame bs =
     (if length bs < 2 then None
      else if \<not> isFileTransferOpcode (bs ! 0) then None
      else let requestIdLength = unat (bs ! 1)
           in if requestIdLength = 0 \<or> requestIdLength > length bs - 2 then None
              else let requestId = text_decode (take requestIdLength (drop 2 bs));
                       body = drop (2 + requestIdLength) bs
                   in if unat (bs ! 0) = FILE_BEGIN then
                        (if length body < 2 then None
                         else if getUint16 body \<noteq> length body - 2 then None
                         else map_option (FileBegin requestId) (metadata_of (decodeJsonPayload (drop 2 body))))
                      else if unat (bs ! 0) = FILE_CHUNK then Some (FileChunk requestId body)
                      else if length body \<noteq> 0 then None
                      else Some (FileEnd requestId))"

section \<open>Telling frames apart\<close>

datatype BinaryFrame = TerminalFrame TerminalStreamFrame | FileFrame FileTransferFrame

definition decodeBinaryFrame :: "bytes \<Rightarrow> BinaryFrame option" where
  "decodeBinaryFrame bs =
     (case bs of
        [] \<Rightarrow> None
      | b # _ \<Rightarrow>
          if terminalStreamOpcode b \<noteq> None then map_option TerminalFrame (decodeTerminalStreamFrame bs)
          else if isFileTransferOpcode b then map_option FileFrame (decodeFileTransferFrame bs)
          else None)"

definition encodeBinaryFrame :: "BinaryFrame \<Rightarrow> bytes option" where
  "encodeBinaryFrame f =
     (case f of
        TerminalFrame t \<Rightarrow> Some (encodeTerminalStreamFrame (ts_opcode t) (uint (ts_slot t)) (ts_payload t))
      | FileFrame t \<Rightarrow> encodeFileTransferFrame t)"

section \<open>Round trips\<close>

definition plain_text :: "codes \<Rightarrow> bool" where
  "plain_text s = list_all scalar s"

definition file_frame_ok :: "FileTransferFrame \<Rightarrow> bool" where
  "file_frame_ok f =
     (plain_text (ff_requestId f) \<and> hd (ff_requestId f) \<noteq> 0xFEFF
      \<and> (case f of
           FileBegin _ m \<Rightarrow>
             fm_mime m \<noteq> [] \<and> fm_size m \<le> 9007199254740991 \<and> plain_text (fm_mime m) \<and> plain_text (fm_modifiedAt m)
             \<and> pred_option plain_text (fm_revision m) \<and> pred_option plain_text (fm_fileName m)
         | _ \<Rightarrow> True))"

declare nat_codes.simps [simp del]

lemma nat_codes_digits: "list_all is_digit (nat_codes n) \<and> nat_codes n \<noteq> []"
proof (induction n rule: nat_codes.induct)
  case (1 n)
  have "n < 10 \<Longrightarrow> is_digit (48 + n)" "is_digit (48 + n mod 10)" by (simp_all add: is_digit_def)
  with 1 show ?case by (subst (1 2) nat_codes.simps) simp
qed

lemma nat_codes_value: "digits_value (nat_codes n) = n"
proof (induction n rule: nat_codes.induct)
  case (1 n)
  then show ?case by (subst nat_codes.simps) (auto simp: digits_value_def)
qed

lemma nat_codes_hd: "hd (nat_codes n) = 48 \<Longrightarrow> n = 0"
proof (induction n rule: nat_codes.induct)
  case (1 n)
  show ?case
  proof (cases "n < 10")
    case True
    with 1(2) show ?thesis by (simp add: nat_codes.simps [of n])
  next
    case False
    then have "hd (nat_codes n) = hd (nat_codes (n div 10))" using nat_codes_digits [of "n div 10"]
      by (subst nat_codes.simps) simp
    with 1 False show ?thesis by simp
  qed
qed

lemma nat_codes_plain: "plain_number (nat_codes n)"
proof -
  have "nat_codes 0 = [48]" by (subst nat_codes.simps) simp
  then show ?thesis using nat_codes_digits [of n] nat_codes_hd [of n] by (auto simp: plain_number_def)
qed

lemma json_nat_codes: "n \<le> 9007199254740991 \<Longrightarrow> json_nat (nat_codes n) = Some n"
proof -
  assume n: "n \<le> 9007199254740991"
  have ds: "list_all is_digit (nat_codes n)" "nat_codes n \<noteq> []" using nat_codes_digits by auto
  then have "takeWhile is_digit (nat_codes n) = nat_codes n" "dropWhile is_digit (nat_codes n) = []"
    by (auto simp: list_all_iff takeWhile_eq_all_conv)
  moreover have "hd (nat_codes n) \<noteq> 45" using ds by (cases "nat_codes n") (auto simp: is_digit_def)
  ultimately have "number_parts (nat_codes n) = (False, nat_codes n, [], 0)" by (simp add: number_parts_def Let_def)
  with n show ?thesis by (simp add: json_nat_def nat_codes_value)
qed

lemma plain_json_text:
  assumes "json_plain (JObject ms)" "list_all scalar (json_print (JObject ms))"
  shows "decodeJsonPayload (encodeJsonPayload (JObject ms)) = JObject ms"
  unfolding decodeJsonPayload_def encodeJsonPayload_def
  using text_decode_encode(2) [OF assms(2)] json_roundtrip [OF assms(1)] by simp

lemma hex_code_scalar: "n < 16 \<Longrightarrow> scalar (hex_code n)"
  by (auto simp: hex_code_def scalar_def)

lemma escape_scalar: "scalar c \<Longrightarrow> list_all scalar (escape c)"
proof -
  assume c: "scalar c"
  have "c < 65536 \<Longrightarrow> c div 4096 < 16" by auto
  with c show ?thesis
    by (auto simp: escape_def intro!: hex_code_scalar) (auto simp: scalar_def)
qed

lemma quote_scalar: "list_all scalar s \<Longrightarrow> list_all scalar (json_quote s)"
  using escape_scalar by (auto simp: json_quote_def list_all_iff) (auto simp: scalar_def)

lemma commas_scalar: "\<forall>x\<in>set xs. list_all scalar x \<Longrightarrow> list_all scalar (commas xs)"
  by (induction xs rule: commas.induct) (auto simp: scalar_def)

lemma scalar_numeral: "scalar (numeral w) \<longleftrightarrow> (numeral w :: nat) < 0xD800 \<or> 0xDFFF < (numeral w :: nat) \<and> (numeral w :: nat) \<le> 0x10FFFF"
  by (simp add: scalar_def)

lemma print_scalar: "json_plain v \<Longrightarrow> list_all scalar (json_print v)"
proof (induction v)
  case (JNumber l)
  then show ?case by (auto simp: plain_number_def list_all_iff is_digit_def scalar_def)
next
  case (JArray vs)
  then have "list_all scalar (commas (map json_print vs))" by (intro commas_scalar) (auto simp: list_all_iff)
  then show ?case by (simp add: scalar_numeral)
next
  case (JObject ms)
  have "list_all scalar (json_quote k @ 58 # json_print v)" if "(k, v) \<in> set ms" for k v
    using JObject that quote_scalar [of k] by (force simp: list_all_iff scalar_def)
  then have "list_all scalar (commas (map (\<lambda>(k, t). json_quote k @ 58 # t) (map (map_prod id json_print) ms)))"
    by (intro commas_scalar) auto
  then show ?case by (simp add: scalar_numeral)
qed (auto simp: js_def scalar_def quote_scalar)

lemma json_payload_roundtrip: "json_plain (JObject ms) \<Longrightarrow> decodeJsonPayload (encodeJsonPayload (JObject ms)) = JObject ms"
  using plain_json_text print_scalar by blast

lemma member_if_keys: "fst ` set (member_if k v) \<subseteq> {k}"
  by (auto simp: member_if_def split: option.splits)

lemma metadata_plain:
  assumes "file_frame_ok (FileBegin r m)"
  shows "json_plain (metadata_json m)"
proof -
  have "list_all scalar (encoding_text (fm_encoding m))" by (auto simp: encoding_text_def js_scalar split: file_encoding.splits)
  with assms show ?thesis
    by (auto simp: metadata_json_def file_frame_ok_def plain_text_def member_if_def js_scalar js_inj nat_codes_plain
        split: option.splits)
qed

lemma metadata_read:
  assumes "file_frame_ok (FileBegin r m)"
  shows "metadata_of (metadata_json m) = Some m"
proof -
  have "encoding_of (encoding_text (fm_encoding m)) = Some (fm_encoding m)"
    by (cases "fm_encoding m") (simp_all add: encoding_of_def encoding_text_def js_inj)
  moreover have "fm_mime m \<noteq> []" "json_nat (nat_codes (fm_size m)) = Some (fm_size m)"
    using assms json_nat_codes by (simp_all add: file_frame_ok_def)
  ultimately show ?thesis
    by (cases "fm_revision m"; cases "fm_fileName m")
      (simp_all add: metadata_of_def metadata_json_def required_string_def required_nat_def optional_string_def
        json_member_def member_if_def js_inj)
qed

lemma metadata_roundtrip:
  assumes "file_frame_ok (FileBegin r m)"
  shows "metadata_of (decodeJsonPayload (encodeJsonPayload (metadata_json m))) = Some m"
  using json_payload_roundtrip metadata_plain [OF assms] metadata_read [OF assms] by (simp add: metadata_json_def)

lemma uint16_roundtrip: "n \<le> 0xffff \<Longrightarrow> getUint16 (setUint16 n @ bs) = n"
proof -
  assume "n \<le> 0xffff"
  then have "n div 256 < 256" by auto
  then show ?thesis by (simp add: getUint16_def setUint16_def)
qed

lemma request_id_read:
  assumes "file_frame_ok f" "encodeRequestId (ff_requestId f) = Some bs"
  shows "text_decode bs = ff_requestId f" "0 < length bs" "length bs < 256"
  using assms text_decode_encode(2) [of "ff_requestId f"]
  by (auto simp: encodeRequestId_def Let_def file_frame_ok_def plain_text_def split: if_splits)

lemma head_read:
  assumes "0 < length r" "length r < 256" "opcode < 256"
  shows "unat ((frame_head opcode r @ body) ! 0) = opcode" "unat ((frame_head opcode r @ body) ! 1) = length r"
    "take (length r) (drop 2 (frame_head opcode r @ body)) = r" "drop (2 + length r) (frame_head opcode r @ body) = body"
    "length (frame_head opcode r @ body) = 2 + length r + length body"
  using assms by (simp_all add: frame_head_def)

lemma file_frame_roundtrip:
  assumes "file_frame_ok f" "encodeFileTransferFrame f = Some bs"
  shows "decodeFileTransferFrame bs = Some f"
proof -
  from assms(2) obtain r where r: "encodeRequestId (ff_requestId f) = Some r"
    by (auto simp: encodeFileTransferFrame_def split: option.splits)
  note rid = request_id_read [OF assms(1) r]
  note heads = head_read [OF rid(2,3)]
  have enough: "length r \<noteq> 0" "\<not> 2 + length r + n < 2" "\<not> length r > 2 + length r + n - 2" for n using rid by auto
  show ?thesis
  proof (cases f)
    case (FileBegin i m)
    with assms(2) r have "length (encodeJsonPayload (metadata_json m)) \<le> 0xffff"
      "bs = frame_head FILE_BEGIN r @ setUint16 (length (encodeJsonPayload (metadata_json m))) @ encodeJsonPayload (metadata_json m)"
      by (auto simp: encodeFileTransferFrame_def Let_def split: if_splits)
    moreover have "length (setUint16 n) = 2" for n by (simp add: setUint16_def)
    ultimately show ?thesis
      using metadata_roundtrip [of i m] assms(1) FileBegin rid(1) heads [of FILE_BEGIN] enough uint16_roundtrip
      by (simp add: decodeFileTransferFrame_def Let_def isFileTransferOpcode_def FILE_BEGIN_def)
  next
    case (FileChunk i p)
    with assms(2) r have "bs = frame_head FILE_CHUNK r @ p" by (auto simp: encodeFileTransferFrame_def)
    with FileChunk rid(1) heads [of FILE_CHUNK] enough show ?thesis
      by (simp add: decodeFileTransferFrame_def Let_def isFileTransferOpcode_def FILE_BEGIN_def FILE_CHUNK_def)
  next
    case (FileEnd i)
    with assms(2) r have "bs = frame_head FILE_END r @ []" by (auto simp: encodeFileTransferFrame_def)
    with FileEnd rid(1) heads [of FILE_END "[]"] enough show ?thesis
      by (simp add: decodeFileTransferFrame_def Let_def isFileTransferOpcode_def FILE_BEGIN_def FILE_CHUNK_def FILE_END_def)
  qed
qed

lemma file_opcode: "n \<in> {FILE_BEGIN, FILE_CHUNK, FILE_END} \<Longrightarrow> isFileTransferOpcode (byte n) \<and> terminalStreamOpcode (byte n) = None"
  by (auto simp: isFileTransferOpcode_def terminalStreamOpcode_def terminal_code_def FILE_BEGIN_def FILE_CHUNK_def FILE_END_def)

lemma encoded_opcode:
  "encodeFileTransferFrame f = Some bs \<Longrightarrow> \<exists>b bs'. bs = b # bs' \<and> isFileTransferOpcode b \<and> terminalStreamOpcode b = None"
  using file_opcode
  by (auto simp: encodeFileTransferFrame_def frame_head_def Let_def split: option.splits FileTransferFrame.splits if_splits)

lemma terminal_opcode_read: "terminalStreamOpcode (byte (terminal_code c)) = Some c"
  by (cases c) (simp_all add: terminalStreamOpcode_def terminal_code_def)

lemma resize_roundtrip:
  assumes "0 < rz_rows r" "0 < rz_cols r" "rz_rows r \<le> 9007199254740991" "rz_cols r \<le> 9007199254740991"
  shows "decodeTerminalResizePayload (encodeTerminalResizePayload r) = Some r"
proof -
  let ?ms = "[(js ''rows'', JNumber (nat_codes (rz_rows r))), (js ''cols'', JNumber (nat_codes (rz_cols r)))]
        @ member_if (js ''intent'') (map_option (\<lambda>i. JString (intent_text i)) (rz_intent r))"
  have "list_all scalar (intent_text i)" "intent_of (intent_text i) = Some i" for i
    by (cases i; simp add: intent_text_def intent_of_def js_scalar js_inj)+
  moreover from this(1) have "json_plain (JObject ?ms)"
    by (auto simp: member_if_def js_scalar js_inj nat_codes_plain split: option.splits)
  ultimately show ?thesis
    using assms json_payload_roundtrip [of ?ms]
    by (cases "rz_intent r")
      (simp_all add: decodeTerminalResizePayload_def encodeTerminalResizePayload_def required_nat_def optional_string_def
        json_member_def member_if_def js_inj json_nat_codes del: json_plain.simps)
qed

section \<open>Properties\<close>

definition binary_frame_ok :: "BinaryFrame \<Rightarrow> bool" where
  "binary_frame_ok f = (case f of TerminalFrame _ \<Rightarrow> True | FileFrame t \<Rightarrow> file_frame_ok t)"

text \<open>C36. Every frame that is encoded is read back as the frame it was, terminal frames as terminal frames and file
  transfers as file transfers, with their identifiers, metadata and payloads; the encoder refuses a file frame only
  for an identifier that is empty or longer than a byte can count, or metadata longer than two bytes can count.\<close>

theorem binary_frame_roundtrip:
  assumes "binary_frame_ok f"
  shows "(case encodeBinaryFrame f of
      Some bs \<Rightarrow> decodeBinaryFrame bs = Some f
    | None \<Rightarrow> \<exists>t. f = FileFrame t \<and> (length (text_encode (ff_requestId t)) \<notin> {1..255}
        \<or> (\<exists>r m. t = FileBegin r m \<and> 65535 < length (encodeJsonPayload (metadata_json m)))))"
proof (cases f)
  case (TerminalFrame t)
  have "word_of_int (uint (ts_slot t) mod 256) = ts_slot t"
    using unsigned_less [where ?'a = int and ?'b = 8, of "ts_slot t"] by (simp add: mod_pos_pos_trivial)
  with TerminalFrame terminal_opcode_read show ?thesis
    by (simp add: encodeBinaryFrame_def decodeBinaryFrame_def encodeTerminalStreamFrame_def decodeTerminalStreamFrame_def)
next
  case (FileFrame t)
  then have ok: "file_frame_ok t" using assms by (simp add: binary_frame_ok_def)
  show ?thesis
  proof (cases "encodeFileTransferFrame t")
    case None
    with FileFrame show ?thesis
      by (auto simp: encodeBinaryFrame_def encodeFileTransferFrame_def encodeRequestId_def Let_def
          split: option.splits FileTransferFrame.splits if_splits)
  next
    case (Some bs)
    with FileFrame file_frame_roundtrip [OF ok Some] encoded_opcode [OF Some] show ?thesis
      by (auto simp: encodeBinaryFrame_def decodeBinaryFrame_def)
  qed
qed

definition sample_begin :: FileTransferFrame where
  "sample_begin = FileBegin (js ''r1'')
     \<lparr>fm_mime = js ''text/plain'', fm_size = 12, fm_encoding = BinaryEncoding, fm_modifiedAt = js ''now'',
      fm_revision = None, fm_fileName = Some (js ''a.txt'')\<rparr>"

lemma sample_begin_ok: "binary_frame_ok (FileFrame sample_begin)"
  by (simp add: binary_frame_ok_def sample_begin_def file_frame_ok_def plain_text_def js_scalar) (simp add: js_def)

theorem binary_frame_roundtrip_witness:
  "binary_frame_ok (FileFrame sample_begin) \<and> (case encodeBinaryFrame (FileFrame sample_begin) of
      Some bs \<Rightarrow> decodeBinaryFrame bs = Some (FileFrame sample_begin) | None \<Rightarrow> \<exists>t. FileFrame sample_begin = FileFrame t
        \<and> (length (text_encode (ff_requestId t)) \<notin> {1..255}
        \<or> (\<exists>r m. t = FileBegin r m \<and> 65535 < length (encodeJsonPayload (metadata_json m)))))"
  using binary_frame_roundtrip [OF sample_begin_ok] sample_begin_ok by blast
end
