(* ===== verification/FileUpload.thy ===== *)
theory FileUpload
  imports BinaryFrames
begin

text \<open>
  The store of file uploads (\<open>server/file-upload/index.ts\<close>) and the client that feeds it
  (\<open>uploadFile\<close> of \<open>client/src/daemon-client.ts\<close>). An upload is an object that outlives its place in the
  map of pending uploads: \<open>fu_uploads\<close> lists the objects, \<open>fu_pending\<close> says which one a request
  identifier names, and each object has its queue of tasks, which run one at a time in any
  interleaving with the other uploads and the operations of the store. A task is one step. The
  directories under \<open>uploads\<close> are a map; whether the file system succeeds is an argument of the task.
\<close>

section \<open>Names\<close>

definition FILE_UPLOAD_MAX_BYTES :: nat where
  "FILE_UPLOAD_MAX_BYTES = 4 * 1024 * 1024 * 1024"

definition id_code :: "nat \<Rightarrow> bool" where
  "id_code c = (97 \<le> c \<and> c \<le> 122 \<or> 65 \<le> c \<and> c \<le> 90 \<or> 48 \<le> c \<and> c \<le> 57 \<or> c = 46 \<or> c = 95 \<or> c = 45)"

definition name_code :: "nat \<Rightarrow> bool" where
  "name_code c = (id_code c \<or> c = 32)"

text \<open>A character outside the basic plane is two units, and each of them is replaced.\<close>

definition replace_unless :: "(nat \<Rightarrow> bool) \<Rightarrow> codes \<Rightarrow> codes" where
  "replace_unless P s = concat (map (\<lambda>c. if P c then [c] else if c > 0xFFFF then [95, 95] else [95]) s)"

definition posix_basename :: "codes \<Rightarrow> codes" where
  "posix_basename s = rev (takeWhile (\<lambda>c. c \<noteq> 47) (dropWhile (\<lambda>c. c = 47) (rev s)))"

definition sanitizeUploadId :: "codes \<Rightarrow> codes" where
  "sanitizeUploadId v = (let s = replace_unless id_code v in if s = [] then js ''file'' else s)"

definition buildUploadId :: "codes \<Rightarrow> nat \<Rightarrow> codes" where
  "buildUploadId requestId attempt =
     (let baseId = js ''upload_'' @ sanitizeUploadId requestId
      in if attempt = 1 then baseId else baseId @ 95 # nat_codes attempt)"

definition sanitizeFileName :: "codes \<Rightarrow> codes" where
  "sanitizeFileName v =
     (let name = text_trim (replace_unless name_code (posix_basename v))
      in if name \<noteq> [] \<and> name \<noteq> [46] \<and> name \<noteq> [46, 46] then name else js ''upload'')"

section \<open>The store\<close>

record FileUploadRequest =
  fr_requestId :: codes
  fr_fileName :: codes
  fr_mimeType :: codes
  fr_size :: nat

datatype upload_task = ApplyFrame FileTransferFrame | RemoveDirectory

record PendingUpload =
  up_requestId :: codes
  up_id :: codes
  up_attempt :: nat
  up_fileName :: codes
  up_mimeType :: codes
  up_size :: nat
  up_receivedBytes :: nat
  up_started :: bool
  up_queue :: "upload_task list"

record FileUploadStore =
  fu_uploads :: "PendingUpload list"
  fu_pending :: "codes \<rightharpoonup> nat"
  fu_dirs :: "codes \<rightharpoonup> (codes \<rightharpoonup> bytes)"

datatype upload_error = TooLarge | ChunkBeforeBegin | Exceeded nat nat | SizeMismatch nat nat | FileSystemError

datatype FileUploadResponse =
    Uploaded codes codes codes codes nat
  | NotUploaded codes upload_error

definition empty_uploads :: FileUploadStore where
  "empty_uploads = \<lparr>fu_uploads = [], fu_pending = Map.empty, fu_dirs = Map.empty\<rparr>"

definition upd_upload :: "nat \<Rightarrow> (PendingUpload \<Rightarrow> PendingUpload) \<Rightarrow> FileUploadStore \<Rightarrow> FileUploadStore" where
  "upd_upload i f st = st\<lparr>fu_uploads := (fu_uploads st)[i := f (fu_uploads st ! i)]\<rparr>"

definition enqueue_task :: "nat \<Rightarrow> upload_task \<Rightarrow> FileUploadStore \<Rightarrow> FileUploadStore" where
  "enqueue_task i t = upd_upload i (\<lambda>u. u\<lparr>up_queue := up_queue u @ [t]\<rparr>)"

definition clearPendingUpload :: "nat \<Rightarrow> FileUploadStore \<Rightarrow> FileUploadStore" where
  "clearPendingUpload i st =
     (let r = up_requestId (fu_uploads st ! i)
      in if fu_pending st r = Some i then st\<lparr>fu_pending := (fu_pending st)(r := None)\<rparr> else st)"

definition removeUploadDirectory :: "nat \<Rightarrow> bool \<Rightarrow> FileUploadStore \<Rightarrow> FileUploadStore" where
  "removeUploadDirectory i removed st =
     (if removed then st\<lparr>fu_dirs := (fu_dirs st)(up_id (fu_uploads st ! i) := None)\<rparr> else st)"

definition beginUpload :: "FileUploadRequest \<Rightarrow> FileUploadStore \<Rightarrow> FileUploadStore \<times> FileUploadResponse option" where
  "beginUpload request st =
     (if fr_size request > FILE_UPLOAD_MAX_BYTES then (st, Some (NotUploaded (fr_requestId request) TooLarge))
      else
        let existing = fu_pending st (fr_requestId request);
            st' = (case existing of None \<Rightarrow> st | Some i \<Rightarrow> enqueue_task i RemoveDirectory (clearPendingUpload i st));
            attempt = (case existing of None \<Rightarrow> 1 | Some i \<Rightarrow> up_attempt (fu_uploads st ! i) + 1);
            upload = \<lparr>up_requestId = fr_requestId request, up_id = buildUploadId (fr_requestId request) attempt,
              up_attempt = attempt, up_fileName = sanitizeFileName (fr_fileName request),
              up_mimeType = fr_mimeType request, up_size = fr_size request, up_receivedBytes = 0, up_started = False,
              up_queue = []\<rparr>
        in (st'\<lparr>fu_uploads := fu_uploads st' @ [upload],
                fu_pending := (fu_pending st')(fr_requestId request \<mapsto> length (fu_uploads st'))\<rparr>, None))"

definition receiveFrame :: "FileTransferFrame \<Rightarrow> FileUploadStore \<Rightarrow> FileUploadStore" where
  "receiveFrame frame st =
     (case fu_pending st (ff_requestId frame) of None \<Rightarrow> st | Some i \<Rightarrow> enqueue_task i (ApplyFrame frame) st)"

definition startWriting :: "nat \<Rightarrow> bool \<Rightarrow> FileUploadStore \<Rightarrow> upload_error + FileUploadStore" where
  "startWriting i works st =
     (if \<not> works then Inl FileSystemError
      else let u = fu_uploads st ! i;
               dir = (case fu_dirs st (up_id u) of None \<Rightarrow> Map.empty | Some d \<Rightarrow> d)
           in Inr (upd_upload i (\<lambda>u. u\<lparr>up_started := True\<rparr>)
                (st\<lparr>fu_dirs := (fu_dirs st)(up_id u \<mapsto> dir(up_fileName u \<mapsto> []))\<rparr>)))"

definition writeChunk :: "nat \<Rightarrow> bool \<Rightarrow> bytes \<Rightarrow> FileUploadStore \<Rightarrow> upload_error + FileUploadStore" where
  "writeChunk i works bs st =
     (let u = fu_uploads st ! i; nextReceivedBytes = up_receivedBytes u + length bs
      in if \<not> up_started u then Inl ChunkBeforeBegin
         else if nextReceivedBytes > up_size u then Inl (Exceeded (up_size u) nextReceivedBytes)
         else if \<not> works then Inl FileSystemError
         else case fu_dirs st (up_id u) of
           None \<Rightarrow> Inl FileSystemError
         | Some d \<Rightarrow>
             let old = (case d (up_fileName u) of None \<Rightarrow> [] | Some c \<Rightarrow> c)
             in Inr (upd_upload i (\<lambda>u. u\<lparr>up_receivedBytes := nextReceivedBytes\<rparr>)
                  (st\<lparr>fu_dirs := (fu_dirs st)(up_id u \<mapsto> d(up_fileName u \<mapsto> old @ bs))\<rparr>)))"

definition uploaded :: "PendingUpload \<Rightarrow> FileUploadResponse" where
  "uploaded u = Uploaded (up_requestId u) (up_id u) (up_fileName u) (up_mimeType u) (up_size u)"

definition completeUpload :: "nat \<Rightarrow> bool \<Rightarrow> FileUploadStore \<Rightarrow> FileUploadStore \<times> FileUploadResponse" where
  "completeUpload i removed st =
     (let u = fu_uploads st ! i; st' = clearPendingUpload i st
      in if up_receivedBytes u \<noteq> up_size u
         then (removeUploadDirectory i removed st', NotUploaded (up_requestId u) (SizeMismatch (up_size u) (up_receivedBytes u)))
         else (st', uploaded u))"

definition removeFailedUpload :: "nat \<Rightarrow> bool \<Rightarrow> FileUploadStore \<Rightarrow> FileUploadStore" where
  "removeFailedUpload i removed st = removeUploadDirectory i removed (clearPendingUpload i st)"

definition applyFrame ::
  "nat \<Rightarrow> bool \<Rightarrow> bool \<Rightarrow> FileTransferFrame \<Rightarrow> FileUploadStore \<Rightarrow> FileUploadStore \<times> FileUploadResponse option" where
  "applyFrame i works removed frame st =
     (if fu_pending st (up_requestId (fu_uploads st ! i)) \<noteq> Some i then (st, None)
      else
        let written = (case frame of
              FileBegin _ _ \<Rightarrow> Some (startWriting i works st)
            | FileChunk _ bs \<Rightarrow> Some (writeChunk i works bs st)
            | FileEnd _ \<Rightarrow> None)
        in case written of
             None \<Rightarrow> (case completeUpload i removed st of (st', r) \<Rightarrow> (st', Some r))
           | Some (Inr st') \<Rightarrow> (st', None)
           | Some (Inl e) \<Rightarrow> (removeFailedUpload i removed st, Some (NotUploaded (up_requestId (fu_uploads st ! i)) e)))"

definition expireStaleUpload :: "codes \<Rightarrow> FileUploadStore \<Rightarrow> FileUploadStore" where
  "expireStaleUpload requestId st =
     (case fu_pending st requestId of
        None \<Rightarrow> st
      | Some i \<Rightarrow> enqueue_task i RemoveDirectory (clearPendingUpload i st))"

text \<open>The next task of an upload.\<close>

definition run_task :: "nat \<Rightarrow> bool \<Rightarrow> bool \<Rightarrow> FileUploadStore \<Rightarrow> FileUploadStore \<times> FileUploadResponse option" where
  "run_task i works removed st =
     (case up_queue (fu_uploads st ! i) of
        [] \<Rightarrow> (st, None)
      | t # ts \<Rightarrow>
          let st' = upd_upload i (\<lambda>u. u\<lparr>up_queue := ts\<rparr>) st
          in case t of
               ApplyFrame frame \<Rightarrow> applyFrame i works removed frame st'
             | RemoveDirectory \<Rightarrow> (removeUploadDirectory i removed st', None))"

section \<open>The client\<close>

function chunks_of :: "nat \<Rightarrow> bytes \<Rightarrow> bytes list" where
  "chunks_of n bs = (if bs = [] \<or> n = 0 then [] else take n bs # chunks_of n (drop n bs))"
  by pat_completeness auto
termination
  by (relation "measure (length \<circ> snd)") auto

declare chunks_of.simps [simp del]

definition uploadFile_request :: "codes \<Rightarrow> codes \<Rightarrow> codes \<Rightarrow> bytes \<Rightarrow> FileUploadRequest" where
  "uploadFile_request requestId fileName mimeType bs =
     \<lparr>fr_requestId = requestId, fr_fileName = fileName, fr_mimeType = mimeType, fr_size = length bs\<rparr>"

definition uploadFile_frames :: "codes \<Rightarrow> codes \<Rightarrow> codes \<Rightarrow> codes \<Rightarrow> nat \<Rightarrow> bytes \<Rightarrow> FileTransferFrame list" where
  "uploadFile_frames requestId fileName mimeType modifiedAt chunkSize bs =
     FileBegin requestId
       \<lparr>fm_mime = mimeType, fm_size = length bs, fm_encoding = BinaryEncoding, fm_modifiedAt = modifiedAt,
        fm_revision = None, fm_fileName = Some fileName\<rparr>
     # map (FileChunk requestId) (chunks_of chunkSize bs) @ [FileEnd requestId]"

section \<open>Runs of the store\<close>

text \<open>\<open>applied\<close> records, for every upload, the frames that were applied to it while it was pending.\<close>

definition live :: "FileUploadStore \<Rightarrow> nat \<Rightarrow> bool" where
  "live st i = (fu_pending st (up_requestId (fu_uploads st ! i)) = Some i)"

definition applied :: "nat \<Rightarrow> FileUploadStore \<Rightarrow> (nat \<Rightarrow> FileTransferFrame list) \<Rightarrow> nat \<Rightarrow> FileTransferFrame list" where
  "applied i st ap = (case up_queue (fu_uploads st ! i) of
       ApplyFrame f # _ \<Rightarrow> if live st i then ap(i := ap i @ [f]) else ap
     | _ \<Rightarrow> ap)"

definition answers :: "nat \<Rightarrow> FileUploadResponse option \<Rightarrow> (nat \<times> FileUploadResponse) list" where
  "answers i r = (case r of None \<Rightarrow> [] | Some a \<Rightarrow> [(i, a)])"

inductive upload_run ::
  "FileUploadStore \<Rightarrow> (nat \<Rightarrow> FileTransferFrame list) \<Rightarrow> (nat \<times> FileUploadResponse) list \<Rightarrow> bool" where
  Empty: "upload_run empty_uploads (\<lambda>_. []) []"
| Begins: "upload_run st ap rs \<Longrightarrow> beginUpload q st = (st', r) \<Longrightarrow> upload_run st' ap rs"
| Receives: "upload_run st ap rs \<Longrightarrow> upload_run (receiveFrame f st) ap rs"
| Runs: "upload_run st ap rs \<Longrightarrow> i < length (fu_uploads st) \<Longrightarrow> run_task i works removed st = (st', r) \<Longrightarrow>
    upload_run st' (applied i st ap) (rs @ answers i r)"
| Expires: "upload_run st ap rs \<Longrightarrow> upload_run (expireStaleUpload requestId st) ap rs"

definition chunk_bytes :: "FileTransferFrame \<Rightarrow> bytes" where
  "chunk_bytes f = (case f of FileChunk _ bs \<Rightarrow> bs | _ \<Rightarrow> [])"

definition received :: "FileTransferFrame list \<Rightarrow> nat" where
  "received fs = length (concat (map chunk_bytes fs))"

definition begun :: "FileTransferFrame list \<Rightarrow> bool" where
  "begun fs = (\<exists>f\<in>set fs. is_FileBegin f)"

definition content :: "FileTransferFrame list \<Rightarrow> bytes" where
  "content fs = foldl (\<lambda>c f. if is_FileBegin f then [] else c @ chunk_bytes f) [] fs"

lemma content_snoc [simp]: "content (fs @ [f]) = (if is_FileBegin f then [] else content fs @ chunk_bytes f)"
  by (simp add: content_def)

lemma received_snoc [simp]: "received (fs @ [f]) = received fs + length (chunk_bytes f)" "received [] = 0"
  by (simp_all add: received_def)

lemma begun_snoc [simp]: "begun (fs @ [f]) = (begun fs \<or> is_FileBegin f)" "begun [] = False"
  by (auto simp: begun_def)

lemma content_once:
  assumes "\<not> begun fs"
  shows "content (FileBegin r m # fs) = concat (map chunk_bytes fs)"
  using assms
proof (induction fs rule: rev_induct)
  case Nil
  then show ?case by (simp add: content_def)
next
  case (snoc f fs)
  then show ?case using content_snoc [of "FileBegin r m # fs" f] by (simp add: begun_def)
qed

definition stored :: "(codes \<rightharpoonup> (codes \<rightharpoonup> bytes)) \<Rightarrow> PendingUpload \<Rightarrow> FileTransferFrame list \<Rightarrow> bool" where
  "stored dirs u fs = (begun fs \<longrightarrow> (\<exists>d. dirs (up_id u) = Some d \<and> d (up_fileName u) = Some (content fs)))"

definition object_ok :: "(codes \<rightharpoonup> (codes \<rightharpoonup> bytes)) \<Rightarrow> FileTransferFrame list \<Rightarrow> PendingUpload \<Rightarrow> bool" where
  "object_ok dirs fs u =
     (up_receivedBytes u = received fs \<and> up_started u = begun fs \<and> RemoveDirectory \<notin> set (up_queue u) \<and> stored dirs u fs)"

definition accepted :: "FileUploadResponse \<Rightarrow> bool" where
  "accepted a = (case a of Uploaded _ _ _ _ _ \<Rightarrow> True | NotUploaded _ _ \<Rightarrow> False)"

definition finished :: "(nat \<times> FileUploadResponse) list \<Rightarrow> nat \<Rightarrow> bool" where
  "finished rs i = (\<exists>a. (i, a) \<in> set rs \<and> accepted a)"

definition uploads_ok :: "FileUploadStore \<Rightarrow> (nat \<Rightarrow> FileTransferFrame list) \<Rightarrow> (nat \<times> FileUploadResponse) list \<Rightarrow> bool" where
  "uploads_ok st ap rs =
     ((\<forall>r i. fu_pending st r = Some i \<longrightarrow> i < length (fu_uploads st) \<and> up_requestId (fu_uploads st ! i) = r)
      \<and> (\<forall>i<length (fu_uploads st). live st i \<or> finished rs i \<longrightarrow> object_ok (fu_dirs st) (ap i) (fu_uploads st ! i))
      \<and> (\<forall>i. finished rs i \<longrightarrow> i < length (fu_uploads st) \<and> \<not> live st i \<and> received (ap i) = up_size (fu_uploads st ! i))
      \<and> (\<forall>i\<ge>length (fu_uploads st). ap i = []))"

definition fixed_part :: "PendingUpload \<Rightarrow> codes \<times> codes \<times> codes \<times> codes \<times> nat" where
  "fixed_part u = (up_requestId u, up_id u, up_fileName u, up_mimeType u, up_size u)"

lemma fixed_eq: "fixed_part u = fixed_part v \<longleftrightarrow>
    up_requestId u = up_requestId v \<and> up_id u = up_id v \<and> up_fileName u = up_fileName v
    \<and> up_mimeType u = up_mimeType v \<and> up_size u = up_size v"
  by (simp add: fixed_part_def)

text \<open>A step on one upload: the other objects and their directories stay, the request may lose its place.\<close>

definition touches :: "nat \<Rightarrow> FileUploadStore \<Rightarrow> FileUploadStore \<Rightarrow> bool" where
  "touches i st st' =
     (length (fu_uploads st') = length (fu_uploads st)
      \<and> fixed_part (fu_uploads st' ! i) = fixed_part (fu_uploads st ! i)
      \<and> (\<forall>k. k \<noteq> i \<longrightarrow> fu_uploads st' ! k = fu_uploads st ! k)
      \<and> (\<forall>d. d \<noteq> up_id (fu_uploads st ! i) \<longrightarrow> fu_dirs st' d = fu_dirs st d)
      \<and> (fu_pending st' = fu_pending st
         \<or> live st i \<and> fu_pending st' = (fu_pending st)(up_requestId (fu_uploads st ! i) := None)))"

lemma touches_refl [simp]: "touches i st st"
  by (simp add: touches_def)

lemma touches_upd: "(\<And>u. fixed_part (f u) = fixed_part u) \<Longrightarrow> touches i st st' \<Longrightarrow> touches i st (upd_upload i f st')"
  by (cases "i < length (fu_uploads st')") (auto simp: touches_def upd_upload_def list_update_beyond)

lemma touches_dirs: "touches i st st' \<Longrightarrow> touches i st (st'\<lparr>fu_dirs := (fu_dirs st')(up_id (fu_uploads st' ! i) := x)\<rparr>)"
  by (auto simp: touches_def fixed_eq)

lemma touches_live: "touches i st st' \<Longrightarrow> live st' k \<Longrightarrow> live st k"
  by (cases "k = i") (auto simp: touches_def live_def fixed_eq split: if_splits)

lemma touches_clear: "touches i st st' \<Longrightarrow> touches i st (clearPendingUpload i st')"
  by (auto simp: touches_def clearPendingUpload_def Let_def live_def fixed_eq)

lemma touches_remove: "touches i st st' \<Longrightarrow> touches i st (removeUploadDirectory i removed st')"
  using touches_dirs [of i st st' None] by (simp add: removeUploadDirectory_def)

lemma touched_ok:
  assumes ok: "uploads_ok st ap rs" and ids: "distinct (map up_id (fu_uploads st))" and i: "i < length (fu_uploads st)"
    and t: "touches i st st'" and other: "\<forall>k. k \<noteq> i \<longrightarrow> ap' k = ap k" "\<forall>k. k \<noteq> i \<longrightarrow> finished rs' k = finished rs k"
    and own: "live st' i \<or> finished rs' i \<Longrightarrow> object_ok (fu_dirs st') (ap' i) (fu_uploads st' ! i)"
    and fin: "finished rs' i \<Longrightarrow> \<not> live st' i \<and> received (ap' i) = up_size (fu_uploads st' ! i)"
  shows "uploads_ok st' ap' rs'"
  unfolding uploads_ok_def
proof (intro conjI allI impI)
  fix r j
  assume j: "fu_pending st' r = Some j"
  then have "fu_pending st r = Some j" using t by (auto simp: touches_def split: if_splits)
  then have "j < length (fu_uploads st)" "up_requestId (fu_uploads st ! j) = r" using ok by (auto simp: uploads_ok_def)
  then show "j < length (fu_uploads st')" "up_requestId (fu_uploads st' ! j) = r"
    using t by (cases "j = i"; auto simp: touches_def fixed_eq)+
next
  fix k
  assume k: "k < length (fu_uploads st')" "live st' k \<or> finished rs' k"
  show "object_ok (fu_dirs st') (ap' k) (fu_uploads st' ! k)"
  proof (cases "k = i")
    case True
    with own k show ?thesis by simp
  next
    case False
    have n: "k < length (fu_uploads st)" using k t by (simp add: touches_def)
    have "live st k \<or> finished rs k" using k False other touches_live [OF t] by auto
    then have "object_ok (fu_dirs st) (ap k) (fu_uploads st ! k)" using ok n by (auto simp: uploads_ok_def)
    moreover have "up_id (fu_uploads st ! k) \<noteq> up_id (fu_uploads st ! i)"
      using ids n i False by (metis length_map nth_eq_iff_index_eq nth_map)
    ultimately show ?thesis using t other False by (simp add: touches_def object_ok_def stored_def)
  qed
next
  fix k
  assume k: "finished rs' k"
  show "k < length (fu_uploads st')" "\<not> live st' k" "received (ap' k) = up_size (fu_uploads st' ! k)"
  proof -
    have "k < length (fu_uploads st') \<and> \<not> live st' k \<and> received (ap' k) = up_size (fu_uploads st' ! k)"
    proof (cases "k = i")
      case True
      with fin k i t show ?thesis by (simp add: touches_def)
    next
      case False
      then have "k < length (fu_uploads st) \<and> \<not> live st k \<and> received (ap k) = up_size (fu_uploads st ! k)"
        using ok k other by (auto simp: uploads_ok_def)
      with False other t touches_live [OF t] show ?thesis by (auto simp: touches_def)
    qed
    then show "k < length (fu_uploads st')" "\<not> live st' k" "received (ap' k) = up_size (fu_uploads st' ! k)" by auto
  qed
next
  fix k
  assume "length (fu_uploads st') \<le> k"
  with ok t other i show "ap' k = []" by (auto simp: uploads_ok_def touches_def)
qed

lemma upd_fields [simp]: "fu_pending (upd_upload i f st) = fu_pending st" "fu_dirs (upd_upload i f st) = fu_dirs st"
  "length (fu_uploads (upd_upload i f st)) = length (fu_uploads st)"
  "i < length (fu_uploads st) \<Longrightarrow> fu_uploads (upd_upload i f st) ! i = f (fu_uploads st ! i)"
  by (simp_all add: upd_upload_def)

lemma clear_fields [simp]: "fu_uploads (clearPendingUpload i st) = fu_uploads st" "fu_dirs (clearPendingUpload i st) = fu_dirs st"
  "\<not> live (clearPendingUpload i st) i"
  by (simp_all add: clearPendingUpload_def Let_def live_def)

lemma remove_fields [simp]: "fu_uploads (removeUploadDirectory i removed st) = fu_uploads st"
  "fu_pending (removeUploadDirectory i removed st) = fu_pending st"
  by (simp_all add: removeUploadDirectory_def)

lemma finished_append [simp]: "finished (rs @ answers i None) k = finished rs k"
  "finished (rs @ answers i (Some (NotUploaded r e))) k = finished rs k"
  "finished (rs @ answers i (Some (uploaded u))) k = (finished rs k \<or> k = i)"
  by (auto simp: finished_def answers_def uploaded_def accepted_def)

lemma live_remove [simp]: "live (removeUploadDirectory i removed st) k = live st k"
  by (simp add: live_def)

lemma unfinished: "uploads_ok st ap rs \<Longrightarrow> live st i \<Longrightarrow> \<not> finished rs i"
  by (auto simp: uploads_ok_def)

text \<open>A frame applied to a live upload: what each outcome leaves.\<close>

definition outcome_ok :: "nat \<Rightarrow> FileUploadStore \<Rightarrow> FileTransferFrame list \<Rightarrow> FileUploadStore \<Rightarrow> FileUploadResponse option \<Rightarrow> bool" where
  "outcome_ok i st fs st' r =
     (touches i st st'
      \<and> (case r of
           None \<Rightarrow> object_ok (fu_dirs st') fs (fu_uploads st' ! i)
         | Some (NotUploaded _ _) \<Rightarrow> \<not> live st' i
         | Some a \<Rightarrow> a = uploaded (fu_uploads st ! i) \<and> \<not> live st' i \<and> received fs = up_size (fu_uploads st' ! i)
             \<and> object_ok (fu_dirs st') fs (fu_uploads st' ! i)))"

lemma start_outcome:
  assumes "i < length (fu_uploads st)" "object_ok (fu_dirs st) fs (fu_uploads st ! i)" "startWriting i works st = Inr st'"
  shows "outcome_ok i st (fs @ [FileBegin r m]) st' None"
proof -
  let ?u = "fu_uploads st ! i"
  obtain d where st': "st' = upd_upload i (\<lambda>u. u\<lparr>up_started := True\<rparr>) (st\<lparr>fu_dirs := (fu_dirs st)(up_id ?u \<mapsto> d(up_fileName ?u \<mapsto> []))\<rparr>)"
    using assms(3) by (auto simp: startWriting_def Let_def split: if_splits)
  have "touches i st st'"
    unfolding st' by (intro touches_upd touches_dirs touches_refl) (simp add: fixed_eq)
  then show ?thesis
    using assms(1,2) unfolding outcome_ok_def st' by (simp add: object_ok_def stored_def chunk_bytes_def)
qed

lemma chunk_outcome:
  assumes "i < length (fu_uploads st)" "object_ok (fu_dirs st) fs (fu_uploads st ! i)" "writeChunk i works bs st = Inr st'"
  shows "outcome_ok i st (fs @ [FileChunk r bs]) st' None"
proof -
  let ?u = "fu_uploads st ! i"
  have begun: "begun fs" using assms(2,3) by (auto simp: writeChunk_def Let_def object_ok_def split: if_splits)
  with assms(2) obtain d where d: "fu_dirs st (up_id ?u) = Some d" "d (up_fileName ?u) = Some (content fs)"
    by (auto simp: object_ok_def stored_def)
  have st': "st' = upd_upload i (\<lambda>u. u\<lparr>up_receivedBytes := up_receivedBytes ?u + length bs\<rparr>)
      (st\<lparr>fu_dirs := (fu_dirs st)(up_id ?u \<mapsto> d(up_fileName ?u \<mapsto> content fs @ bs))\<rparr>)"
    using assms(3) d by (auto simp: writeChunk_def Let_def split: if_splits)
  have "touches i st st'"
    unfolding st' by (intro touches_upd touches_dirs touches_refl) (simp add: fixed_eq)
  then show ?thesis
    using assms(1,2) begun unfolding outcome_ok_def st' by (simp add: object_ok_def stored_def chunk_bytes_def)
qed

lemma end_outcome:
  assumes "object_ok (fu_dirs st) fs (fu_uploads st ! i)" "completeUpload i removed st = (st', r)"
  shows "outcome_ok i st (fs @ [FileEnd q]) st' (Some r)"
  using assms touches_clear [OF touches_refl, of i st] touches_remove [OF touches_clear [OF touches_refl], of i st removed]
  by (auto simp: outcome_ok_def completeUpload_def Let_def object_ok_def stored_def chunk_bytes_def uploaded_def split: if_splits)

lemma apply_outcome:
  assumes i: "i < length (fu_uploads st)" and l: "live st i" and ok: "object_ok (fu_dirs st) fs (fu_uploads st ! i)"
    and a: "applyFrame i works removed f st = (st', r)"
  shows "outcome_ok i st (fs @ [f]) st' r"
proof -
  have failed: "outcome_ok i st fs' (removeFailedUpload i removed st) (Some (NotUploaded q e))" for fs' q e
    using touches_remove [OF touches_clear [OF touches_refl], of i st removed]
    by (simp add: outcome_ok_def removeFailedUpload_def)
  show ?thesis
  proof (cases f)
    case (FileBegin q m)
    with a l start_outcome [OF i ok] failed show ?thesis
      by (cases "startWriting i works st") (auto simp: applyFrame_def live_def)
  next
    case (FileChunk q bs)
    with a l chunk_outcome [OF i ok] failed show ?thesis
      by (cases "writeChunk i works bs st") (auto simp: applyFrame_def live_def)
  next
    case (FileEnd q)
    with a l end_outcome [OF ok] show ?thesis
      by (cases "completeUpload i removed st") (auto simp: applyFrame_def live_def)
  qed
qed

lemma touches_trans: "touches i st st' \<Longrightarrow> touches i st' st'' \<Longrightarrow> fu_pending st' = fu_pending st \<Longrightarrow> touches i st st''"
  by (auto simp: touches_def fixed_eq live_def)

lemma queue_popped:
  assumes "i < length (fu_uploads st)" "up_queue (fu_uploads st ! i) = t # ts"
  defines "st' \<equiv> upd_upload i (\<lambda>u. u\<lparr>up_queue := ts\<rparr>) st"
  shows "touches i st st'" "live st' i = live st i" "fu_pending st' = fu_pending st"
    "object_ok (fu_dirs st) fs (fu_uploads st ! i) \<Longrightarrow> object_ok (fu_dirs st') fs (fu_uploads st' ! i)"
    "i < length (fu_uploads st')" "uploaded (fu_uploads st' ! i) = uploaded (fu_uploads st ! i)"
  using assms(1,2) unfolding st'_def
  by (auto simp: live_def object_ok_def stored_def uploaded_def fixed_eq intro!: touches_upd)

lemma run_ok:
  assumes ok: "uploads_ok st ap rs" and ids: "distinct (map up_id (fu_uploads st))" and i: "i < length (fu_uploads st)"
    and run: "run_task i works removed st = (st', r)"
  shows "uploads_ok st' (applied i st ap) (rs @ answers i r)"
proof (cases "up_queue (fu_uploads st ! i)")
  case Nil
  with run ok show ?thesis by (auto simp: run_task_def applied_def answers_def)
next
  case (Cons t ts)
  let ?p = "upd_upload i (\<lambda>u. u\<lparr>up_queue := ts\<rparr>) st"
  note popped = queue_popped [OF i Cons]
  show ?thesis
  proof (cases "\<exists>f. t = ApplyFrame f \<and> live st i")
    case True
    then obtain f where f: "t = ApplyFrame f" "live st i" by auto
    have "applyFrame i works removed f ?p = (st', r)" using run Cons f by (simp add: run_task_def)
    moreover have "object_ok (fu_dirs st) (ap i) (fu_uploads st ! i)" using ok i f by (auto simp: uploads_ok_def)
    ultimately have out: "outcome_ok i ?p (ap i @ [f]) st' r"
      using apply_outcome popped f by blast
    then have t: "touches i st st'" using touches_trans [OF popped(1) _ popped(3)] by (simp add: outcome_ok_def)
    have ap: "applied i st ap = ap(i := ap i @ [f])" using Cons f by (simp add: applied_def)
    have nf: "\<not> finished rs i" by (rule unfinished [OF ok f(2)])
    show ?thesis
    proof (cases r)
      case None
      with out nf show ?thesis
        unfolding ap by (intro touched_ok [OF ok ids i t]) (auto simp: outcome_ok_def)
    next
      case (Some a)
      show ?thesis
      proof (cases a)
        case (NotUploaded q e)
        with Some out nf show ?thesis
          unfolding ap by (intro touched_ok [OF ok ids i t]) (auto simp: outcome_ok_def)
      next
        case (Uploaded a1 a2 a3 a4 a5)
        with Some out have "r = Some (uploaded (fu_uploads ?p ! i))" "\<not> live st' i"
          "received (ap i @ [f]) = up_size (fu_uploads st' ! i)" "object_ok (fu_dirs st') (ap i @ [f]) (fu_uploads st' ! i)"
          by (auto simp: outcome_ok_def)
        then show ?thesis
          unfolding ap by (intro touched_ok [OF ok ids i t]) auto
      qed
    qed
  next
    case False
    then have ap: "applied i st ap = ap" using Cons by (auto simp: applied_def split: upload_task.splits)
    have "st' = ?p \<and> r = None \<or> t = RemoveDirectory \<and> st' = removeUploadDirectory i removed ?p \<and> r = None"
    proof (cases t)
      case (ApplyFrame f)
      then have "\<not> live ?p i" using False popped(2) by simp
      with run Cons ApplyFrame show ?thesis by (simp add: run_task_def applyFrame_def live_def)
    next
      case RemoveDirectory
      with run Cons show ?thesis by (simp add: run_task_def)
    qed
    then have r: "r = None" and st': "st' = ?p \<or> t = RemoveDirectory \<and> st' = removeUploadDirectory i removed ?p" by auto
    have t: "touches i st st'" using st' popped(1) touches_remove by auto
    have l: "live st' i = live st i" using st' popped(2) by auto
    have own: "object_ok (fu_dirs st') (ap i) (fu_uploads st' ! i)" if "live st i \<or> finished rs i"
    proof -
      have o: "object_ok (fu_dirs st) (ap i) (fu_uploads st ! i)" using that ok i by (auto simp: uploads_ok_def)
      then have "t \<noteq> RemoveDirectory" using Cons by (auto simp: object_ok_def)
      with st' popped(4) [OF o] show ?thesis by auto
    qed
    have "finished rs i \<Longrightarrow> \<not> live st' i \<and> received (ap i) = up_size (fu_uploads st' ! i)"
      using ok l t by (auto simp: uploads_ok_def touches_def fixed_eq)
    with own l show ?thesis
      unfolding ap r by (intro touched_ok [OF ok ids i t]) auto
  qed
qed

lemma enqueue_facts:
  assumes "i < length (fu_uploads st)"
  shows "touches i st (enqueue_task i t st)" "live (enqueue_task i t st) i = live st i"
    "t \<noteq> RemoveDirectory \<Longrightarrow> object_ok (fu_dirs st) fs (fu_uploads st ! i) \<Longrightarrow>
      object_ok (fu_dirs (enqueue_task i t st)) fs (fu_uploads (enqueue_task i t st) ! i)"
  using assms by (auto simp: enqueue_task_def live_def object_ok_def stored_def fixed_eq intro!: touches_upd)

lemma pending_live: "uploads_ok st ap rs \<Longrightarrow> fu_pending st r = Some i \<Longrightarrow> i < length (fu_uploads st) \<and> live st i"
  by (simp add: uploads_ok_def live_def)

lemma receive_keeps:
  assumes ok: "uploads_ok st ap rs" and ids: "distinct (map up_id (fu_uploads st))"
  shows "uploads_ok (receiveFrame f st) ap rs"
proof (cases "fu_pending st (ff_requestId f)")
  case None
  with ok show ?thesis by (simp add: receiveFrame_def)
next
  case (Some i)
  note i = pending_live [OF ok Some]
  have o: "object_ok (fu_dirs st) (ap i) (fu_uploads st ! i)" "\<not> finished rs i"
    using ok i unfinished [OF ok, of i] by (simp_all add: uploads_ok_def)
  have "uploads_ok (enqueue_task i (ApplyFrame f) st) ap rs"
  proof (rule touched_ok [OF ok ids conjunct1 [OF i] enqueue_facts(1) [OF conjunct1 [OF i]]])
    show "object_ok (fu_dirs (enqueue_task i (ApplyFrame f) st)) (ap i) (fu_uploads (enqueue_task i (ApplyFrame f) st) ! i)"
      using o(1) i by (intro enqueue_facts(3)) auto
    show "finished rs i \<Longrightarrow> \<not> live (enqueue_task i (ApplyFrame f) st) i
        \<and> received (ap i) = up_size (fu_uploads (enqueue_task i (ApplyFrame f) st) ! i)"
      using o(2) by blast
  qed simp_all
  with Some show ?thesis by (simp add: receiveFrame_def)
qed

lemma dropped_ok:
  assumes ok: "uploads_ok st ap rs" and ids: "distinct (map up_id (fu_uploads st))" and p: "fu_pending st r = Some i"
  shows "uploads_ok (enqueue_task i t (clearPendingUpload i st)) ap rs"
proof -
  note i = pending_live [OF ok p]
  have "touches i st (enqueue_task i t (clearPendingUpload i st))"
    using touches_clear [OF touches_refl, of i st] by (auto simp: enqueue_task_def fixed_eq intro!: touches_upd)
  moreover have "\<not> live (enqueue_task i t (clearPendingUpload i st)) i"
    using i by (simp add: enqueue_facts)
  ultimately show ?thesis
    using i unfinished [OF ok] by (intro touched_ok [OF ok ids]) auto
qed

lemma expire_keeps:
  assumes "uploads_ok st ap rs" "distinct (map up_id (fu_uploads st))"
  shows "uploads_ok (expireStaleUpload r st) ap rs"
  using assms dropped_ok by (cases "fu_pending st r") (simp_all add: expireStaleUpload_def)

lemma added_ok:
  assumes ok: "uploads_ok st ap rs" and none: "fu_pending st r = None"
    and u: "up_requestId u = r" "up_receivedBytes u = 0" "\<not> up_started u" "up_queue u = []"
  shows "uploads_ok (st\<lparr>fu_uploads := fu_uploads st @ [u], fu_pending := (fu_pending st)(r \<mapsto> length (fu_uploads st))\<rparr>) ap rs"
proof -
  let ?st = "st\<lparr>fu_uploads := fu_uploads st @ [u], fu_pending := (fu_pending st)(r \<mapsto> length (fu_uploads st))\<rparr>"
  have "ap (length (fu_uploads st)) = []" using ok by (simp add: uploads_ok_def)
  then have new: "object_ok (fu_dirs st) (ap (length (fu_uploads st))) u"
    using u by (simp add: object_ok_def stored_def)
  have l: "live ?st k = live st k" if "k < length (fu_uploads st)" for k
    using that none by (auto simp: live_def nth_append)
  have nf: "\<not> finished rs (length (fu_uploads st))" using ok by (auto simp: uploads_ok_def)
  show ?thesis
    unfolding uploads_ok_def
  proof (intro conjI allI impI)
    fix q i
    assume "fu_pending ?st q = Some i"
    then show "i < length (fu_uploads ?st)" "up_requestId (fu_uploads ?st ! i) = q"
      using ok u by (auto simp: uploads_ok_def nth_append less_Suc_eq split: if_splits)
  next
    fix k
    assume "k < length (fu_uploads ?st)" "live ?st k \<or> finished rs k"
    then show "object_ok (fu_dirs ?st) (ap k) (fu_uploads ?st ! k)"
      using ok new l by (cases "k = length (fu_uploads st)") (auto simp: uploads_ok_def nth_append)
  next
    fix k
    assume k: "finished rs k"
    then have "k < length (fu_uploads st)" "\<not> live st k" "received (ap k) = up_size (fu_uploads st ! k)"
      using ok by (auto simp: uploads_ok_def)
    then show "k < length (fu_uploads ?st)" "\<not> live ?st k" "received (ap k) = up_size (fu_uploads ?st ! k)"
      using l by (auto simp: nth_append)
  next
    fix k
    assume "length (fu_uploads ?st) \<le> k"
    with ok show "ap k = []" by (simp add: uploads_ok_def)
  qed
qed

lemma begin_keeps:
  assumes ok: "uploads_ok st ap rs" and ids: "distinct (map up_id (fu_uploads st))" and b: "beginUpload q st = (st', r)"
  shows "uploads_ok st' ap rs"
proof (cases "fu_pending st (fr_requestId q)")
  case None
  with b ok added_ok [OF ok None] show ?thesis by (auto simp: beginUpload_def Let_def split: if_splits)
next
  case (Some i)
  let ?d = "enqueue_task i RemoveDirectory (clearPendingUpload i st)"
  note i = pending_live [OF ok Some]
  have "fu_pending ?d (fr_requestId q) = None"
    using Some i ok by (auto simp: enqueue_task_def clearPendingUpload_def Let_def live_def uploads_ok_def)
  from added_ok [OF dropped_ok [OF ok ids Some] this] b ok Some show ?thesis
    by (auto simp: beginUpload_def Let_def split: if_splits)
qed

text \<open>Uploads are only added, and what identifies one never changes.\<close>

definition extends :: "FileUploadStore \<Rightarrow> FileUploadStore \<Rightarrow> bool" where
  "extends st st' = (\<exists>us. map fixed_part (fu_uploads st') = map fixed_part (fu_uploads st) @ us)"

lemma touches_fixed: "touches i st st' \<Longrightarrow> map fixed_part (fu_uploads st') = map fixed_part (fu_uploads st)"
  by (rule nth_equalityI) (auto simp: touches_def fixed_eq)

lemma upd_fixed: "(\<And>u. fixed_part (f u) = fixed_part u) \<Longrightarrow> map fixed_part (fu_uploads (upd_upload i f st)) = map fixed_part (fu_uploads st)"
  using touches_fixed [OF touches_upd [OF _ touches_refl]] by blast

lemma enqueue_fixed [simp]: "map fixed_part (fu_uploads (enqueue_task i t st)) = map fixed_part (fu_uploads st)"
  unfolding enqueue_task_def by (rule upd_fixed) (simp add: fixed_eq)

lemma apply_fixed: "applyFrame i works removed f st = (st', r) \<Longrightarrow> map fixed_part (fu_uploads st') = map fixed_part (fu_uploads st)"
proof -
  assume a: "applyFrame i works removed f st = (st', r)"
  have "startWriting i works st = Inr s \<Longrightarrow> map fixed_part (fu_uploads s) = map fixed_part (fu_uploads st)" for s
    by (auto simp: startWriting_def Let_def fixed_eq split: if_splits intro!: trans [OF upd_fixed])
  moreover have "writeChunk i works bs st = Inr s \<Longrightarrow> map fixed_part (fu_uploads s) = map fixed_part (fu_uploads st)" for s bs
    by (auto simp: writeChunk_def Let_def fixed_eq split: if_splits option.splits intro!: trans [OF upd_fixed])
  ultimately show ?thesis
    using a by (auto simp: applyFrame_def Let_def completeUpload_def removeFailedUpload_def
        split: if_splits FileTransferFrame.splits sum.splits)
qed

lemma run_task_fixed: "run_task i works removed st = (st', r) \<Longrightarrow> map fixed_part (fu_uploads st') = map fixed_part (fu_uploads st)"
  using apply_fixed [of i works removed]
  by (auto simp: run_task_def Let_def fixed_eq split: list.splits upload_task.splits
      intro!: upd_fixed dest!: apply_fixed intro: trans [OF _ upd_fixed])

lemma begin_extends: "beginUpload q st = (st', r) \<Longrightarrow> extends st st'"
  by (cases "fu_pending st (fr_requestId q)") (auto simp: beginUpload_def Let_def extends_def split: if_splits)

lemma extends_distinct: "extends st st' \<Longrightarrow> distinct (map up_id (fu_uploads st')) \<Longrightarrow> distinct (map up_id (fu_uploads st))"
proof -
  assume e: "extends st st'" and d: "distinct (map up_id (fu_uploads st'))"
  have id: "map up_id us = map (fst \<circ> snd) (map fixed_part us)" for us by (simp add: fixed_part_def)
  from e obtain us where "map fixed_part (fu_uploads st') = map fixed_part (fu_uploads st) @ us" by (auto simp: extends_def)
  then have "map up_id (fu_uploads st') = map up_id (fu_uploads st) @ map (fst \<circ> snd) us" unfolding id by (simp only: map_append)
  with d show ?thesis by simp
qed

lemma upload_run_ok: "upload_run st ap rs \<Longrightarrow> distinct (map up_id (fu_uploads st)) \<Longrightarrow> uploads_ok st ap rs"
proof (induction rule: upload_run.induct)
  case Empty
  then show ?case by (simp add: uploads_ok_def empty_uploads_def finished_def)
next
  case (Begins st ap rs q st' r)
  then show ?case using begin_keeps extends_distinct [OF begin_extends] by blast
next
  case (Receives st ap rs f)
  have "extends st (receiveFrame f st)" by (auto simp: receiveFrame_def extends_def split: option.splits)
  with Receives show ?case using receive_keeps extends_distinct by blast
next
  case (Runs st ap rs i works removed st' r)
  have "extends st st'" using run_task_fixed [OF Runs(3)] by (simp add: extends_def)
  with Runs show ?case using run_ok extends_distinct by blast
next
  case (Expires st ap rs q)
  have "extends st (expireStaleUpload q st)" by (auto simp: expireStaleUpload_def extends_def split: option.splits)
  with Expires show ?case using expire_keeps extends_distinct by blast
qed

lemma uploaded_fixed: "fixed_part u = fixed_part v \<Longrightarrow> uploaded u = uploaded v"
  by (simp add: fixed_eq uploaded_def)

lemma extends_nth: "extends st st' \<Longrightarrow> i < length (fu_uploads st) \<Longrightarrow>
    i < length (fu_uploads st') \<and> fixed_part (fu_uploads st' ! i) = fixed_part (fu_uploads st ! i)"
proof -
  assume e: "extends st st'" and i: "i < length (fu_uploads st)"
  from e obtain us where us: "map fixed_part (fu_uploads st') = map fixed_part (fu_uploads st) @ us" by (auto simp: extends_def)
  then have n: "length (fu_uploads st') = length (fu_uploads st) + length us" by (metis length_append length_map)
  with i have "map fixed_part (fu_uploads st') ! i = map fixed_part (fu_uploads st) ! i" unfolding us by (simp add: nth_append)
  with i n show ?thesis by simp
qed

lemma accepted_answer: "run_task i works removed st = (st', Some a) \<Longrightarrow> accepted a \<Longrightarrow> i < length (fu_uploads st) \<Longrightarrow> a = uploaded (fu_uploads st ! i)"
  by (auto simp: run_task_def applyFrame_def completeUpload_def uploaded_def accepted_def Let_def
      split: list.splits upload_task.splits if_splits FileTransferFrame.splits sum.splits)

definition answered :: "FileUploadStore \<Rightarrow> (nat \<times> FileUploadResponse) list \<Rightarrow> bool" where
  "answered st rs = (\<forall>i a. (i, a) \<in> set rs \<longrightarrow> accepted a \<longrightarrow> i < length (fu_uploads st) \<and> a = uploaded (fu_uploads st ! i))"

lemma answers_kept: "extends st st' \<Longrightarrow> answered st rs \<Longrightarrow> answered st' rs"
  unfolding answered_def using extends_nth uploaded_fixed by metis

lemma run_answers: "upload_run st ap rs \<Longrightarrow> answered st rs"
proof (induction rule: upload_run.induct)
  case Empty
  then show ?case by (simp add: answered_def)
next
  case (Begins st ap rs q st' r)
  then show ?case using answers_kept [OF begin_extends] by blast
next
  case (Receives st ap rs f)
  have "extends st (receiveFrame f st)" by (auto simp: receiveFrame_def extends_def split: option.splits)
  with Receives show ?case using answers_kept by blast
next
  case (Runs st ap rs i works removed st' r)
  have "extends st st'" using run_task_fixed [OF Runs(3)] by (simp add: extends_def)
  moreover have "answered st (rs @ answers i r)"
    using Runs accepted_answer by (auto simp: answered_def answers_def split: option.splits)
  ultimately show ?case by (rule answers_kept)
next
  case (Expires st ap rs q)
  have "extends st (expireStaleUpload q st)" by (auto simp: expireStaleUpload_def extends_def split: option.splits)
  with Expires show ?case using answers_kept by blast
qed

section \<open>Names stay inside the store\<close>

definition name_ok :: "codes \<Rightarrow> bool" where
  "name_ok s = (s \<noteq> [] \<and> s \<noteq> [46] \<and> s \<noteq> [46, 46] \<and> list_all name_code s)"

definition upload_id_ok :: "codes \<Rightarrow> bool" where
  "upload_id_ok s = (take 7 s = js ''upload_'' \<and> list_all id_code s)"

lemma replaced: "P 95 \<Longrightarrow> list_all P (replace_unless P s)"
  by (induction s) (auto simp: replace_unless_def)

lemma trim_subset: "set (text_trim s) \<subseteq> set s"
proof
  fix x
  assume "x \<in> set (text_trim s)"
  then have "x \<in> set (dropWhile code_space (rev (dropWhile code_space s)))" by (simp add: text_trim_def)
  then have "x \<in> set (dropWhile code_space s)" using set_dropWhileD by fastforce
  then show "x \<in> set s" using set_dropWhileD by fastforce
qed

lemma file_name_ok: "name_ok (sanitizeFileName v)"
proof -
  have "list_all name_code (replace_unless name_code (posix_basename v))" by (rule replaced) (simp add: name_code_def id_code_def)
  then have "list_all name_code (text_trim (replace_unless name_code (posix_basename v)))"
    using trim_subset by (auto simp: list_all_iff)
  moreover have "name_ok (js ''upload'')" by (simp add: name_ok_def js_def name_code_def id_code_def)
  ultimately show ?thesis by (simp add: sanitizeFileName_def Let_def name_ok_def)
qed

lemma digits_id: "list_all is_digit s \<Longrightarrow> list_all id_code s"
  by (auto simp: list_all_iff is_digit_def id_code_def)

lemma upload_id_ok_built: "upload_id_ok (buildUploadId r attempt)"
proof -
  have "list_all id_code (replace_unless id_code r)" by (rule replaced) (simp add: id_code_def)
  then have "list_all id_code (sanitizeUploadId r)" by (simp add: sanitizeUploadId_def Let_def js_def id_code_def)
  moreover have "list_all id_code (js ''upload_'')" "length (js ''upload_'') = 7" "id_code 95" by (simp_all add: js_def id_code_def)
  ultimately show ?thesis
    using digits_id [of "nat_codes attempt"] nat_codes_digits [of attempt]
    by (auto simp: upload_id_ok_def buildUploadId_def Let_def)
qed

definition contained :: "FileUploadStore \<Rightarrow> bool" where
  "contained st =
     ((\<forall>u\<in>set (fu_uploads st). upload_id_ok (up_id u) \<and> name_ok (up_fileName u))
      \<and> (\<forall>i d. fu_dirs st i = Some d \<longrightarrow> upload_id_ok i \<and> (\<forall>n\<in>dom d. name_ok n)))"

lemma contained_upd: "(\<And>u. fixed_part (f u) = fixed_part u) \<Longrightarrow> contained st \<Longrightarrow> contained (upd_upload i f st)"
proof -
  assume f: "\<And>u. fixed_part (f u) = fixed_part u" and c: "contained st"
  have "set (fu_uploads (upd_upload i f st)) \<subseteq> set (fu_uploads st) \<union> (if i < length (fu_uploads st) then {f (fu_uploads st ! i)} else {})"
    using set_update_subset_insert [of "fu_uploads st" i] by (auto simp: upd_upload_def list_update_beyond)
  moreover have "up_id (f u) = up_id u" "up_fileName (f u) = up_fileName u" for u using f [of u] by (auto simp: fixed_eq)
  ultimately show ?thesis using c unfolding contained_def by (auto split: if_splits dest!: subsetD)
qed

lemma contained_clear [simp]: "contained (clearPendingUpload i st) = contained st"
  by (simp add: contained_def clearPendingUpload_def Let_def)

lemma contained_remove: "contained st \<Longrightarrow> contained (removeUploadDirectory i removed st)"
  by (simp add: contained_def removeUploadDirectory_def)

lemma contained_write:
  assumes "contained st" "i < length (fu_uploads st)" "d = Map.empty \<or> fu_dirs st (up_id (fu_uploads st ! i)) = Some d"
  shows "contained (st\<lparr>fu_dirs := (fu_dirs st)(up_id (fu_uploads st ! i) \<mapsto> d(up_fileName (fu_uploads st ! i) \<mapsto> c))\<rparr>)"
proof -
  have "name_ok n" if "n \<in> dom d" for n using assms(3)
  proof
    assume "fu_dirs st (up_id (fu_uploads st ! i)) = Some d"
    with assms(1) that show ?thesis unfolding contained_def by blast
  qed (use that in simp)
  then show ?thesis using assms(1) nth_mem [OF assms(2)] by (auto simp: contained_def)
qed

lemma contained_apply:
  assumes c: "contained st" and i: "i < length (fu_uploads st)" and a: "applyFrame i works removed f st = (st', r)"
  shows "contained st'"
proof -
  have "contained s" if "startWriting i works st = Inr s" for s
    using that contained_write [OF c i] by (auto simp: startWriting_def Let_def fixed_eq split: if_splits option.splits intro!: contained_upd)
  moreover have "contained s" if "writeChunk i works bs st = Inr s" for s bs
    using that contained_write [OF c i] by (auto simp: writeChunk_def Let_def fixed_eq split: if_splits option.splits intro!: contained_upd)
  ultimately show ?thesis
    using a c by (auto simp: applyFrame_def completeUpload_def removeFailedUpload_def Let_def contained_remove
        split: if_splits FileTransferFrame.splits sum.splits)
qed

lemma contained_enqueue: "contained st \<Longrightarrow> contained (enqueue_task i t st)"
  unfolding enqueue_task_def by (rule contained_upd) (simp_all add: fixed_eq)

lemma contained_run:
  assumes c: "contained st" and i: "i < length (fu_uploads st)" and r: "run_task i works removed st = (st', r)"
  shows "contained st'"
proof -
  have popped: "contained (upd_upload i (\<lambda>u. u\<lparr>up_queue := ts\<rparr>) st)" for ts
    using c by (intro contained_upd) (simp_all add: fixed_eq)
  have "i < length (fu_uploads (upd_upload i f st))" for f using i by simp
  with r c popped contained_apply contained_remove [OF popped] show ?thesis
    by (fastforce simp: run_task_def Let_def split: list.splits upload_task.splits)
qed

lemma contained_begin: "contained st \<Longrightarrow> beginUpload q st = (st', r) \<Longrightarrow> contained st'"
proof -
  have add: "contained (s\<lparr>fu_uploads := fu_uploads s @ [u], fu_pending := p\<rparr>)"
    if "contained s" "upload_id_ok (up_id u)" "name_ok (up_fileName u)" for s u p
    using that by (auto simp: contained_def)
  show "contained st \<Longrightarrow> beginUpload q st = (st', r) \<Longrightarrow> contained st'"
    by (cases "fu_pending st (fr_requestId q)")
      (auto simp: beginUpload_def Let_def contained_enqueue upload_id_ok_built file_name_ok split: if_splits intro!: add)
qed

lemma upload_run_contained: "upload_run st ap rs \<Longrightarrow> contained st"
proof (induction rule: upload_run.induct)
  case Empty
  then show ?case by (simp add: contained_def empty_uploads_def)
next
  case (Begins st ap rs q st' r)
  then show ?case using contained_begin by blast
next
  case (Receives st ap rs f)
  then show ?case by (simp add: receiveFrame_def contained_enqueue split: option.splits)
next
  case (Runs st ap rs i works removed st' r)
  then show ?case using contained_run by blast
next
  case (Expires st ap rs q)
  then show ?case by (simp add: expireStaleUpload_def contained_enqueue split: option.splits)
qed

section \<open>From the client to the file\<close>

text \<open>A binary message reaches the store, and its task runs on a working file system.\<close>

definition serve :: "bytes \<Rightarrow> FileUploadStore \<Rightarrow> FileUploadStore \<times> FileUploadResponse list" where
  "serve bs st =
     (case decodeBinaryFrame bs of
        Some (FileFrame f) \<Rightarrow>
          (case fu_pending st (ff_requestId f) of
             None \<Rightarrow> (receiveFrame f st, [])
           | Some i \<Rightarrow>
               (case run_task i True True (receiveFrame f st) of
                  (st', r) \<Rightarrow> (st', case r of None \<Rightarrow> [] | Some a \<Rightarrow> [a])))
      | _ \<Rightarrow> (st, []))"

fun serve_all :: "bytes list \<Rightarrow> FileUploadStore \<Rightarrow> FileUploadStore \<times> FileUploadResponse list" where
  "serve_all [] st = (st, [])"
| "serve_all (bs # rest) st =
     (case serve bs st of (st', as) \<Rightarrow> case serve_all rest st' of (st'', as') \<Rightarrow> (st'', as @ as'))"

definition idle :: "nat \<Rightarrow> FileUploadStore \<Rightarrow> bool" where
  "idle i st = (i < length (fu_uploads st) \<and> live st i \<and> up_queue (fu_uploads st ! i) = [])"

lemma serve_one:
  assumes "idle i st" "ff_requestId f = up_requestId (fu_uploads st ! i)" "file_frame_ok f" "encodeFileTransferFrame f = Some bs"
  shows "serve bs st = (case applyFrame i True True f st of (st', r) \<Rightarrow> (st', case r of None \<Rightarrow> [] | Some a \<Rightarrow> [a]))"
proof -
  have "decodeBinaryFrame bs = Some (FileFrame f)"
    using file_frame_roundtrip [OF assms(3,4)] encoded_opcode [OF assms(4)] by (auto simp: decodeBinaryFrame_def)
  moreover have "fu_pending st (ff_requestId f) = Some i" using assms(1,2) by (simp add: idle_def live_def)
  moreover have "run_task i True True (enqueue_task i (ApplyFrame f) st) = applyFrame i True True f st"
  proof -
    have i: "i < length (fu_uploads st)" "up_queue (fu_uploads st ! i) = []" using assms(1) by (simp_all add: idle_def)
    have same: "(fu_uploads st ! i)\<lparr>up_queue := []\<rparr> = fu_uploads st ! i" using i(2) by simp
    have "upd_upload i (\<lambda>u. u\<lparr>up_queue := []\<rparr>) (enqueue_task i (ApplyFrame f) st) = st"
      using i(1) by (simp add: upd_upload_def enqueue_task_def same)
    moreover have "up_queue (fu_uploads (enqueue_task i (ApplyFrame f) st) ! i) = [ApplyFrame f]"
      using i by (simp add: enqueue_task_def)
    ultimately show ?thesis by (simp add: run_task_def)
  qed
  ultimately show ?thesis by (simp add: serve_def receiveFrame_def split: prod.splits)
qed

text \<open>An upload that has written some bytes.\<close>

definition writing :: "nat \<Rightarrow> (codes \<rightharpoonup> bytes) \<Rightarrow> bytes \<Rightarrow> FileUploadStore \<Rightarrow> FileUploadStore" where
  "writing i dir c st =
     (let u = fu_uploads st ! i
      in st\<lparr>fu_uploads := (fu_uploads st)[i := u\<lparr>up_started := True, up_receivedBytes := length c\<rparr>],
            fu_dirs := (fu_dirs st)(up_id u \<mapsto> dir(up_fileName u \<mapsto> c))\<rparr>)"

lemma writing_fields:
  assumes "i < length (fu_uploads st)"
  shows "fu_uploads (writing i dir c st) ! i = (fu_uploads st ! i)\<lparr>up_started := True, up_receivedBytes := length c\<rparr>"
    "fu_pending (writing i dir c st) = fu_pending st" "idle i st \<Longrightarrow> idle i (writing i dir c st)"
  using assms by (simp_all add: writing_def Let_def idle_def live_def)

lemma writing_starts:
  assumes "idle i st" "up_receivedBytes (fu_uploads st ! i) = 0"
  shows "\<exists>dir. applyFrame i True True (FileBegin r m) st = (writing i dir [] st, None)"
proof -
  let ?u = "fu_uploads st ! i"
  let ?dir = "case fu_dirs st (up_id ?u) of None \<Rightarrow> Map.empty | Some d \<Rightarrow> d"
  have "?u\<lparr>up_started := True, up_receivedBytes := 0\<rparr> = ?u\<lparr>up_started := True\<rparr>" using assms(2) by simp
  then have "startWriting i True st = Inr (writing i ?dir [] st)"
    by (cases st) (simp add: startWriting_def writing_def upd_upload_def Let_def)
  then show ?thesis
    using assms(1) by (auto simp: idle_def live_def applyFrame_def)
qed

lemma writing_chunk:
  assumes "idle i st" "length (c @ bs) \<le> up_size (fu_uploads st ! i)"
  shows "applyFrame i True True (FileChunk r bs) (writing i dir c st) = (writing i dir (c @ bs) st, None)"
proof -
  have i: "i < length (fu_uploads st)" using assms(1) by (simp add: idle_def)
  have "writeChunk i True bs (writing i dir c st) = Inr (writing i dir (c @ bs) st)"
    using i assms(2) unfolding writeChunk_def by (simp add: writing_def Let_def upd_upload_def)
  then show ?thesis
    using assms(1) i writing_fields(1,2) [OF i] by (simp add: applyFrame_def idle_def live_def)
qed

lemma writing_end:
  assumes "idle i st" "length c = up_size (fu_uploads st ! i)"
  shows "applyFrame i True True (FileEnd r) (writing i dir c st)
    = (clearPendingUpload i (writing i dir c st), Some (uploaded (fu_uploads st ! i)))"
  using assms writing_fields(1,2) [of i st]
  by (simp add: applyFrame_def completeUpload_def idle_def live_def Let_def uploaded_def)

definition encoded :: "FileTransferFrame \<Rightarrow> bytes" where
  "encoded f = (case encodeFileTransferFrame f of Some bs \<Rightarrow> bs | None \<Rightarrow> [])"

lemma serve_encoded:
  assumes "idle i st" "ff_requestId f = up_requestId (fu_uploads st ! i)" "file_frame_ok f" "encodeFileTransferFrame f \<noteq> None"
    and "applyFrame i True True f st = (st', r)"
  shows "serve (encoded f) st = (st', case r of None \<Rightarrow> [] | Some a \<Rightarrow> [a])"
  using assms serve_one [OF assms(1-3)] by (auto simp: encoded_def)

definition sendable :: "codes \<Rightarrow> bool" where
  "sendable r = (plain_text r \<and> r \<noteq> [] \<and> hd r \<noteq> 0xFEFF \<and> length (text_encode r) \<in> {1..255})"

lemma sendable_frames:
  assumes "sendable r"
  shows "file_frame_ok (FileChunk r bs)" "encodeFileTransferFrame (FileChunk r bs) \<noteq> None"
    "file_frame_ok (FileEnd r)" "encodeFileTransferFrame (FileEnd r) \<noteq> None"
  using assms by (auto simp: sendable_def file_frame_ok_def encodeFileTransferFrame_def encodeRequestId_def Let_def)

lemma chunks_written:
  assumes "sendable r" "idle i st" "r = up_requestId (fu_uploads st ! i)"
  shows "length (c @ concat bss) \<le> up_size (fu_uploads st ! i) \<Longrightarrow>
    serve_all (map encoded (map (FileChunk r) bss) @ rest) (writing i dir c st)
      = serve_all rest (writing i dir (c @ concat bss) st)"
proof (induction bss arbitrary: c)
  case (Cons bs bss)
  have i: "i < length (fu_uploads st)" using assms(2) by (simp add: idle_def)
  have "serve (encoded (FileChunk r bs)) (writing i dir c st) = (writing i dir (c @ bs) st, [])"
    using serve_encoded [OF writing_fields(3) [OF i assms(2)] _ sendable_frames(1,2) [OF assms(1)]
        writing_chunk [OF assms(2)]] Cons.prems assms(3) writing_fields(1) [OF i] by simp
  with Cons.IH [of "c @ bs"] Cons.prems show ?case by (simp split: prod.splits)
qed simp

lemma chunks_concat: "0 < n \<Longrightarrow> concat (chunks_of n bs) = bs"
proof (induction n bs rule: chunks_of.induct)
  case (1 n bs)
  then show ?case by (subst chunks_of.simps) auto
qed

lemma begun_upload:
  assumes "beginUpload q st = (st0, None)"
  shows "idle (length (fu_uploads st0) - 1) st0" "up_receivedBytes (last (fu_uploads st0)) = 0"
    "last (fu_uploads st0) = fu_uploads st0 ! (length (fu_uploads st0) - 1)"
    "up_requestId (last (fu_uploads st0)) = fr_requestId q" "up_size (last (fu_uploads st0)) = fr_size q"
    "up_fileName (last (fu_uploads st0)) = sanitizeFileName (fr_fileName q)" "up_mimeType (last (fu_uploads st0)) = fr_mimeType q"
  using assms by (auto simp: beginUpload_def Let_def idle_def live_def last_conv_nth split: if_splits)

lemma upload_served:
  assumes b: "beginUpload (uploadFile_request r name mime bs) st = (st0, None)" and r: "sendable r" "0 < chunkSize"
    and f: "uploadFile_frames r name mime modifiedAt chunkSize bs = bg # rest" "file_frame_ok bg" "encodeFileTransferFrame bg \<noteq> None"
  defines "u \<equiv> last (fu_uploads st0)"
  shows "\<exists>st1 dir. serve_all (map encoded (bg # rest)) st0 = (st1, [uploaded u])
    \<and> fu_dirs st1 (up_id u) = Some dir \<and> dir (up_fileName u) = Some bs"
proof -
  define i where "i = length (fu_uploads st0) - 1"
  note up = begun_upload [OF b, folded u_def i_def]
  have fields: "up_requestId u = r" "up_size u = length bs" using up by (simp_all add: uploadFile_request_def)
  obtain m where bg: "bg = FileBegin r m" and rest: "rest = map (FileChunk r) (chunks_of chunkSize bs) @ [FileEnd r]"
    using f(1) by (auto simp: uploadFile_frames_def)
  obtain dir where "applyFrame i True True bg st0 = (writing i dir [] st0, None)"
    using writing_starts [OF up(1)] up(2,3) unfolding bg by metis
  with serve_encoded [OF up(1) _ f(2,3)] have s1: "serve (encoded bg) st0 = (writing i dir [] st0, [])"
    using fields up(3) bg by simp
  have i: "i < length (fu_uploads st0)" using up(1) by (simp add: idle_def)
  have "concat (chunks_of chunkSize bs) = bs" by (rule chunks_concat [OF r(2)])
  with chunks_written [OF r(1) up(1), of "[]" "chunks_of chunkSize bs" "[encoded (FileEnd r)]" dir]
  have s2: "serve_all (map encoded rest) (writing i dir [] st0) = serve_all [encoded (FileEnd r)] (writing i dir bs st0)"
    using fields up(3) by (simp add: rest)
  have s3: "serve (encoded (FileEnd r)) (writing i dir bs st0) = (clearPendingUpload i (writing i dir bs st0), [uploaded u])"
    using serve_encoded [OF writing_fields(3) [OF i up(1)] _ sendable_frames(3,4) [OF r(1)] writing_end [OF up(1)]]
      fields up(3) writing_fields(1) [OF i] by simp
  have "serve_all (map encoded (bg # rest)) st0 = (clearPendingUpload i (writing i dir bs st0), [uploaded u])"
    using s1 s2 s3 by simp
  moreover have "fu_dirs (clearPendingUpload i (writing i dir bs st0)) (up_id u) = Some (dir(up_fileName u \<mapsto> bs))"
    using up(3) by (simp add: writing_def Let_def)
  ultimately show ?thesis by (metis fun_upd_same)
qed

section \<open>Properties\<close>

text \<open>Every file the store ever writes lies in a directory of its own making, directly under the directory of uploads: through any
  run, whatever identifiers and names the client gives, directory and file names are single harmless components.\<close>

theorem uploads_contained:
  assumes "upload_run st ap rs" "fu_dirs st i = Some d" "d n \<noteq> None"
  shows "(\<exists>s. i = js ''upload_'' @ s) \<and> 47 \<notin> set i \<and> 47 \<notin> set n \<and> n \<notin> {[], [46], [46, 46]}"
proof -
  have "upload_id_ok i" "name_ok n" using upload_run_contained [OF assms(1)] assms(2,3) by (auto simp: contained_def dom_def)
  moreover from this(1) have "i = js ''upload_'' @ drop 7 i" by (metis append_take_drop_id upload_id_ok_def)
  ultimately show ?thesis by (auto simp: upload_id_ok_def name_ok_def list_all_iff name_code_def id_code_def)
qed

text \<open>C26. What a finished upload holds, under two conditions. First, no two uploads of the run, finished ones and the attempts
  replaced by a restart included, were given the same directory; the store does give one directory twice, when two request ids
  become equal by sanitising, or when an id is used again after its upload has left the pending map, and then the statement is
  false. Second, exactly one begin frame was applied to the upload, before its other frames. Then, when the store reports the
  upload as done, at any later time of the run its file holds exactly the bytes of its chunks, in order, and they are as many as
  the request declared, whatever uploads to other directories, restarts and expiries were interleaved.\<close>

theorem upload_content:
  assumes "upload_run st ap rs" "distinct (map up_id (fu_uploads st))" "(i, Uploaded q d n mime sz) \<in> set rs"
    and "ap i = FileBegin r m # fs" "\<not> begun fs"
  shows "\<exists>dir. fu_dirs st d = Some dir \<and> dir n = Some (concat (map chunk_bytes fs)) \<and> length (concat (map chunk_bytes fs)) = sz"
proof -
  have ok: "uploads_ok st ap rs" by (rule upload_run_ok [OF assms(1,2)])
  have "finished rs i" using assms(3) by (auto simp: finished_def accepted_def)
  with ok have i: "i < length (fu_uploads st)" "received (ap i) = up_size (fu_uploads st ! i)"
    "object_ok (fu_dirs st) (ap i) (fu_uploads st ! i)"
    by (auto simp: uploads_ok_def)
  have "Uploaded q d n mime sz = uploaded (fu_uploads st ! i)"
    using run_answers [OF assms(1)] assms(3) by (auto simp: answered_def accepted_def)
  then have "d = up_id (fu_uploads st ! i)" "n = up_fileName (fu_uploads st ! i)" "sz = up_size (fu_uploads st ! i)"
    by (simp_all add: uploaded_def)
  moreover have "received (ap i) = length (concat (map chunk_bytes fs))" using assms(4) by (simp add: received_def chunk_bytes_def)
  ultimately show ?thesis
    using i assms(4) content_once [OF assms(5), of r m] by (auto simp: object_ok_def stored_def begun_def)
qed

text \<open>C27. A file the client uploads arrives: when the store has accepted the request and the client's frames, encoded, sent and decoded one
  after the other, have been handled, there is one response, it reports the file, and the file holds the client's bytes, whatever the
  size of the chunks.\<close>

theorem upload_arrives:
  assumes "beginUpload (uploadFile_request r name mime bs) st = (st0, None)" "sendable r" "0 < chunkSize"
    and "uploadFile_frames r name mime modifiedAt chunkSize bs = bg # rest" "file_frame_ok bg" "encodeFileTransferFrame bg \<noteq> None"
  shows "\<exists>st1 d dir. serve_all (map encoded (bg # rest)) st0 = (st1, [Uploaded r d (sanitizeFileName name) mime (length bs)])
    \<and> fu_dirs st1 d = Some dir \<and> dir (sanitizeFileName name) = Some bs"
proof -
  have "uploaded (last (fu_uploads st0)) = Uploaded r (up_id (last (fu_uploads st0))) (sanitizeFileName name) mime (length bs)"
    "up_fileName (last (fu_uploads st0)) = sanitizeFileName name"
    using begun_upload [OF assms(1)] by (simp_all add: uploaded_def uploadFile_request_def)
  then show ?thesis using upload_served [OF assms] by metis
qed

section \<open>Frames out of order\<close>

text \<open>A second begin frame empties the file but not the count of received bytes, and an upload of no bytes is reported as done
  although no begin frame created its file.\<close>

fun run_tasks :: "nat \<Rightarrow> FileUploadStore \<Rightarrow> FileUploadStore \<times> FileUploadResponse list" where
  "run_tasks 0 st = (st, [])"
| "run_tasks (Suc k) st =
     (case run_task 0 True True st of (st', r) \<Rightarrow>
      case run_tasks k st' of (st'', as) \<Rightarrow> (st'', (case r of None \<Rightarrow> [] | Some a \<Rightarrow> [a]) @ as))"

definition one_upload :: "codes \<Rightarrow> codes \<Rightarrow> codes \<Rightarrow> codes \<Rightarrow> nat \<Rightarrow> FileTransferFrame list \<Rightarrow> FileUploadStore" where
  "one_upload r d n mime sz fs =
     \<lparr>fu_uploads = [\<lparr>up_requestId = r, up_id = d, up_attempt = 1, up_fileName = n, up_mimeType = mime, up_size = sz,
        up_receivedBytes = 0, up_started = False, up_queue = map ApplyFrame fs\<rparr>],
      fu_pending = [r \<mapsto> 0], fu_dirs = Map.empty\<rparr>"

lemmas task_defs = one_upload_def run_task_def applyFrame_def startWriting_def writeChunk_def completeUpload_def
  clearPendingUpload_def upd_upload_def uploaded_def

lemma repeated_begin_loses:
  "case run_tasks 5 (one_upload r d n mime 3 [FileBegin r m, FileChunk r [1, 2], FileBegin r m, FileChunk r [3], FileEnd r]) of
     (st, as) \<Rightarrow> as = [Uploaded r d n mime 3] \<and> fu_dirs st d = Some [n \<mapsto> [3]]"
  by (simp add: task_defs numeral_eq_Suc Let_def)

lemma empty_upload_without_file:
  "case run_tasks 1 (one_upload r d n mime 0 [FileEnd r]) of
     (st, as) \<Rightarrow> as = [Uploaded r d n mime 0] \<and> fu_dirs st = Map.empty"
  by (simp add: task_defs Let_def)

section \<open>A concrete upload\<close>

definition sample_bytes :: bytes where "sample_bytes = [1, 2, 3, 4, 5]"

definition sample_started :: FileUploadStore where
  "sample_started = fst (beginUpload (uploadFile_request (js ''r1'') (js ''a.txt'') (js ''text/plain'') sample_bytes) empty_uploads)"

lemma sample_started_ok:
  "beginUpload (uploadFile_request (js ''r1'') (js ''a.txt'') (js ''text/plain'') sample_bytes) empty_uploads = (sample_started, None)"
  by (simp add: sample_started_def beginUpload_def uploadFile_request_def sample_bytes_def FILE_UPLOAD_MAX_BYTES_def Let_def)

lemma sample_sendable: "sendable (js ''r1'')"
  by (simp add: sendable_def plain_text_def js_scalar) (simp add: js_def text_encode_def utf8_char_def scalar_def)

definition sample_first :: FileTransferFrame where
  "sample_first = FileBegin (js ''r1'')
     \<lparr>fm_mime = js ''text/plain'', fm_size = 5, fm_encoding = BinaryEncoding, fm_modifiedAt = js ''now'',
      fm_revision = None, fm_fileName = Some (js ''a.txt'')\<rparr>"

lemma sample_frames:
  "uploadFile_frames (js ''r1'') (js ''a.txt'') (js ''text/plain'') (js ''now'') 2 sample_bytes
    = sample_first # [FileChunk (js ''r1'') [1, 2], FileChunk (js ''r1'') [3, 4], FileChunk (js ''r1'') [5], FileEnd (js ''r1'')]"
  by (simp add: uploadFile_frames_def sample_first_def sample_bytes_def chunks_of.simps)

lemma sample_first_ok: "file_frame_ok sample_first"
  by (simp add: sample_first_def file_frame_ok_def plain_text_def js_scalar) (simp add: js_def)

lemma sample_first_encodes: "encodeFileTransferFrame sample_first \<noteq> None"
proof -
  have "length (text_encode s) \<le> 4 * length s" for s
    by (induction s) (auto simp: text_encode_def utf8_char_def)
  from this [of "json_print (metadata_json \<lparr>fm_mime = js ''text/plain'', fm_size = 5, fm_encoding = BinaryEncoding, fm_modifiedAt = js ''now'',
      fm_revision = None, fm_fileName = Some (js ''a.txt'')\<rparr>)"]
  have "length (encodeJsonPayload (metadata_json \<lparr>fm_mime = js ''text/plain'', fm_size = 5, fm_encoding = BinaryEncoding, fm_modifiedAt = js ''now'',
      fm_revision = None, fm_fileName = Some (js ''a.txt'')\<rparr>)) \<le> 65535"
    unfolding encodeJsonPayload_def by (rule order_trans)
      (simp add: metadata_json_def member_if_def encoding_text_def json_quote_def js_def escape_def nat_codes.simps)
  then show ?thesis
    using sample_sendable by (auto simp: sample_first_def encodeFileTransferFrame_def encodeRequestId_def sendable_def Let_def)
qed

theorem upload_arrives_witness:
  "\<exists>st1 d dir as. serve_all (map encoded (sample_first # [FileChunk (js ''r1'') [1, 2], FileChunk (js ''r1'') [3, 4],
        FileChunk (js ''r1'') [5], FileEnd (js ''r1'')])) sample_started = (st1, [Uploaded (js ''r1'') d (sanitizeFileName (js ''a.txt'')) (js ''text/plain'') as])
    \<and> as = length sample_bytes \<and> fu_dirs st1 d = Some dir \<and> dir (sanitizeFileName (js ''a.txt'')) = Some sample_bytes"
  using upload_arrives [OF sample_started_ok sample_sendable _ sample_frames sample_first_ok sample_first_encodes] by auto

lemma one_upload_begins:
  "r' = fr_requestId q \<Longrightarrow> fr_size q \<le> FILE_UPLOAD_MAX_BYTES \<Longrightarrow> beginUpload q empty_uploads
    = (one_upload r' (buildUploadId r' 1) (sanitizeFileName (fr_fileName q)) (fr_mimeType q) (fr_size q) [], None)"
  by (simp add: beginUpload_def empty_uploads_def one_upload_def Let_def)

lemma one_upload_receives: "ff_requestId f = r \<Longrightarrow> receiveFrame f (one_upload r d n mime sz fs) = one_upload r d n mime sz (fs @ [f])"
  by (simp add: receiveFrame_def one_upload_def enqueue_task_def upd_upload_def)

definition sample_metadata :: FileBeginMetadata where
  "sample_metadata = \<lparr>fm_mime = js ''m'', fm_size = 1, fm_encoding = BinaryEncoding, fm_modifiedAt = js ''now'',
     fm_revision = None, fm_fileName = None\<rparr>"

definition sample_begin_frame :: FileTransferFrame where
  "sample_begin_frame = FileBegin (js ''r'') sample_metadata"

lemma sample_upload_run:
  fixes r f mime :: codes
  defines "d \<equiv> buildUploadId r 1" and "n \<equiv> sanitizeFileName f"
  shows "\<exists>st ap. upload_run st ap [(0, Uploaded r d n mime 1)] \<and> map up_id (fu_uploads st) = [d]
    \<and> ap 0 = [FileBegin r m, FileChunk r [7], FileEnd r] \<and> fu_dirs st d = Some [n \<mapsto> [7]]"
proof -
  let ?q = "\<lparr>fr_requestId = r, fr_fileName = f, fr_mimeType = mime, fr_size = 1\<rparr>"
  let ?fs = "[FileBegin r m, FileChunk r [7], FileEnd r]"
  let ?run = "run_task 0 True True"
  define s0 where "s0 = one_upload r d n mime 1 ?fs"
  have "upload_run (one_upload r d n mime 1 []) (\<lambda>_. []) []"
    using Begins [OF Empty one_upload_begins [of r ?q]] unfolding d_def n_def by (simp add: FILE_UPLOAD_MAX_BYTES_def)
  then have "upload_run (one_upload r d n mime 1 [FileBegin r m]) (\<lambda>_. []) []"
    using Receives [of _ _ _ "FileBegin r m"] one_upload_receives [of "FileBegin r m"] by fastforce
  then have "upload_run (one_upload r d n mime 1 [FileBegin r m, FileChunk r [7]]) (\<lambda>_. []) []"
    using Receives [of _ _ _ "FileChunk r [7]"] one_upload_receives [of "FileChunk r [7]" r d n mime 1 "[FileBegin r m]"] by fastforce
  then have run: "upload_run s0 (\<lambda>_. []) []"
    using Receives [of _ _ _ "FileEnd r"] one_upload_receives [of "FileEnd r" r d n mime 1 "[FileBegin r m, FileChunk r [7]]"]
    unfolding s0_def by fastforce
  define s1 where "s1 = fst (?run s0)"
  define s2 where "s2 = fst (?run s1)"
  define s3 where "s3 = fst (?run s2)"
  have r1: "?run s0 = (s1, None)" unfolding s1_def s0_def by (simp add: task_defs Let_def)
  have r2: "?run s1 = (s2, None)" unfolding s2_def s1_def s0_def by (simp add: task_defs Let_def)
  have r3: "?run s2 = (s3, Some (Uploaded r d n mime 1))"
    unfolding s3_def s2_def s1_def s0_def by (simp add: task_defs Let_def)
  have len: "0 < length (fu_uploads s0)" "0 < length (fu_uploads s1)" "0 < length (fu_uploads s2)"
    unfolding s2_def s1_def s0_def by (simp_all add: task_defs Let_def)
  let ?a1 = "applied 0 s0 (\<lambda>_. [])" and ?a2 = "applied 0 s1 (applied 0 s0 (\<lambda>_. []))"
  have "upload_run s3 (applied 0 s2 ?a2) [(0, Uploaded r d n mime 1)]"
    using Runs [OF Runs [OF Runs [OF run len(1) r1] len(2) r2] len(3) r3] by (simp add: answers_def)
  moreover have "map up_id (fu_uploads s3) = [d]" "fu_dirs s3 d = Some [n \<mapsto> [7]]"
    unfolding s3_def s2_def s1_def s0_def by (simp_all add: task_defs Let_def)
  moreover have "applied 0 s2 ?a2 0 = ?fs"
    unfolding s2_def s1_def s0_def by (simp add: task_defs applied_def live_def Let_def)
  ultimately show ?thesis by (intro exI [of _ s3] exI [of _ "applied 0 s2 ?a2"] conjI)
qed

theorem upload_content_witness:
  "\<exists>st ap dir. upload_run st ap [(0, Uploaded (js ''r'') (buildUploadId (js ''r'') 1) (sanitizeFileName (js ''f'')) (js ''m'') 1)]
    \<and> fu_dirs st (buildUploadId (js ''r'') 1) = Some dir \<and> dir (sanitizeFileName (js ''f'')) = Some [7]"
proof -
  obtain st ap where run: "upload_run st ap [(0, Uploaded (js ''r'') (buildUploadId (js ''r'') 1) (sanitizeFileName (js ''f'')) (js ''m'') 1)]"
    "map up_id (fu_uploads st) = [buildUploadId (js ''r'') 1]" "ap 0 = [sample_begin_frame, FileChunk (js ''r'') [7], FileEnd (js ''r'')]"
    using sample_upload_run [of "js ''r''" "js ''f''" "js ''m''" sample_metadata] unfolding sample_begin_frame_def by auto
  then show ?thesis
    using upload_content [OF run(1), of 0 "js ''r''" "buildUploadId (js ''r'') 1" "sanitizeFileName (js ''f'')" "js ''m''" 1]
    by (auto simp: sample_begin_frame_def begun_def chunk_bytes_def)
qed

theorem uploads_contained_witness:
  "\<exists>st ap rs d n dir. upload_run st ap rs \<and> fu_dirs st d = Some dir \<and> dir n \<noteq> None \<and> 47 \<notin> set d \<and> 47 \<notin> set n"
proof -
  obtain st ap rs where run: "upload_run st ap rs" "fu_dirs st (buildUploadId (js ''r'') 1) = Some [sanitizeFileName (js ''f'') \<mapsto> [7]]"
    using sample_upload_run [of "js ''r''" "js ''f''" "js ''m''" sample_metadata] by blast
  from uploads_contained [OF run, of "sanitizeFileName (js ''f'')"] run show ?thesis by fastforce
qed

end
