(* ===== verification/EncryptedChannel.thy ===== *)
theory EncryptedChannel
  imports Json "HOL-Library.Sublist"
begin

text \<open>
  The end-to-end encrypted channel between a client and a daemon over the relay
  (\<open>relay/src/encrypted-channel.ts\<close>, \<open>crypto.ts\<close>, \<open>base64.ts\<close>): the handshake, the sealing and opening
  of messages, retries and the queue of messages sent before the channel is open.

  The libraries tweetnacl and base64-js are a parameter, the record \<open>crypto\<close>; what the theorems use
  of them is the predicate \<open>crypto_ok\<close>. A handler returns the new state and what it did, in order. The
  transport accepts what it is given; a nonce, and the outcome of a send where the code looks at
  it, are arguments. An exception inside a handler is the branch it leads to, without its message.
\<close>

section \<open>Cryptography\<close>

record crypto =
  cr_scalarMult :: "bytes \<Rightarrow> bytes \<Rightarrow> bytes"
  cr_before :: "bytes \<Rightarrow> bytes \<Rightarrow> bytes"
  cr_after :: "bytes \<Rightarrow> bytes \<Rightarrow> bytes \<Rightarrow> bytes"
  cr_openAfter :: "bytes \<Rightarrow> bytes \<Rightarrow> bytes \<Rightarrow> bytes option"
  cr_fromByteArray :: "bytes \<Rightarrow> codes"
  cr_toByteArray :: "codes \<Rightarrow> bytes option"

record KeyPair =
  kp_publicKey :: bytes
  kp_secretKey :: bytes

definition KEY_LENGTH :: nat where "KEY_LENGTH = 32"
definition NONCE_LENGTH :: nat where "NONCE_LENGTH = 24"

definition base64_char :: "nat \<Rightarrow> bool" where
  "base64_char c = (65 \<le> c \<and> c \<le> 90 \<or> 97 \<le> c \<and> c \<le> 122 \<or> 48 \<le> c \<and> c \<le> 57 \<or> c = 43 \<or> c = 47)"

definition base64_form :: "codes \<Rightarrow> bool" where
  "base64_form s = (length s mod 4 = 0 \<and> dropWhile base64_char s \<in> {[], [61], [61, 61]})"

definition decodePublicKeyBase64 :: "crypto \<Rightarrow> codes \<Rightarrow> bytes option" where
  "decodePublicKeyBase64 cr base64 =
     (if \<not> base64_form base64 then None
      else case cr_toByteArray cr base64 of
        None \<Rightarrow> None
      | Some b \<Rightarrow> if cr_fromByteArray cr b \<noteq> base64 then None else Some b)"

definition exportPublicKey :: "crypto \<Rightarrow> bytes \<Rightarrow> codes option" where
  "exportPublicKey cr publicKey =
     (if length publicKey \<noteq> KEY_LENGTH then None else Some (cr_fromByteArray cr publicKey))"

definition importPublicKey :: "crypto \<Rightarrow> codes \<Rightarrow> bytes option" where
  "importPublicKey cr base64 =
     (case decodePublicKeyBase64 cr base64 of
        None \<Rightarrow> None
      | Some b \<Rightarrow> if length b \<noteq> KEY_LENGTH then None else Some b)"

definition deriveSharedKey :: "crypto \<Rightarrow> bytes \<Rightarrow> bytes \<Rightarrow> bytes option" where
  "deriveSharedKey cr ourSecretKey peerPublicKey =
     (if length ourSecretKey \<noteq> KEY_LENGTH \<or> length peerPublicKey \<noteq> KEY_LENGTH then None
      else if cr_scalarMult cr ourSecretKey peerPublicKey = replicate KEY_LENGTH 0 then None
      else Some (cr_before cr peerPublicKey ourSecretKey))"

datatype payload = TextData codes | BinaryData bytes

definition toUint8 :: "payload \<Rightarrow> bytes" where
  "toUint8 data = (case data of TextData s \<Rightarrow> text_encode s | BinaryData b \<Rightarrow> b)"

definition seal :: "crypto \<Rightarrow> bytes \<Rightarrow> bytes \<Rightarrow> payload \<Rightarrow> bytes" where
  "seal cr sharedKey nonce data = nonce @ cr_after cr (toUint8 data) nonce sharedKey"

definition unseal :: "crypto \<Rightarrow> bytes \<Rightarrow> bytes \<Rightarrow> bytes option" where
  "unseal cr sharedKey data =
     (if length data < NONCE_LENGTH then None
      else cr_openAfter cr (drop NONCE_LENGTH data) (take NONCE_LENGTH data) sharedKey)"

definition base64ToArrayBuffer :: "crypto \<Rightarrow> codes \<Rightarrow> bytes option" where
  "base64ToArrayBuffer cr base64 =
     (let standard = map (\<lambda>c. if c = 45 then 43 else if c = 95 then 47 else c) (text_trim base64);
          padLen = (4 - length standard mod 4) mod 4
      in cr_toByteArray cr (standard @ replicate padLen 61))"

section \<open>Handshake messages\<close>

record TransportMessage =
  tm_data :: payload
  tm_isBinary :: bool

definition text_message :: "codes \<Rightarrow> TransportMessage" where
  "text_message s = \<lparr>tm_data = TextData s, tm_isBinary = False\<rparr>"

definition decodeTransportText :: "payload \<Rightarrow> codes" where
  "decodeTransportText data = (case data of TextData s \<Rightarrow> s | BinaryData b \<Rightarrow> text_decode b)"

definition requireArrayBuffer :: "payload \<Rightarrow> bytes option" where
  "requireArrayBuffer data = (case data of TextData _ \<Rightarrow> None | BinaryData b \<Rightarrow> Some b)"

definition isE2EECapabilities :: "json option \<Rightarrow> bool" where
  "isE2EECapabilities v = (case v of
       None \<Rightarrow> True
     | Some (JObject ms) \<Rightarrow>
         (case map_of ms (js ''binaryCiphertext'') of None \<Rightarrow> True | Some (JBool _) \<Rightarrow> True | Some _ \<Rightarrow> False)
     | Some _ \<Rightarrow> False)"

definition helloKey :: "json \<Rightarrow> codes option" where
  "helloKey v =
     (case (json_member (js ''type'') v, json_member (js ''key'') v) of
        (Some (JString t), Some (JString k)) \<Rightarrow>
          if t = js ''e2ee_hello'' \<and> text_trim k \<noteq> [] \<and> isE2EECapabilities (json_member (js ''capabilities'') v)
          then Some k else None
      | _ \<Rightarrow> None)"

definition isE2EEReadyMessage :: "json \<Rightarrow> bool" where
  "isE2EEReadyMessage v =
     (json_member (js ''type'') v = Some (JString (js ''e2ee_ready''))
      \<and> isE2EECapabilities (json_member (js ''capabilities'') v))"

definition supportsBinaryCiphertext :: "json \<Rightarrow> bool" where
  "supportsBinaryCiphertext v =
     (case json_member (js ''capabilities'') v of
        Some c \<Rightarrow> json_member (js ''binaryCiphertext'') c = Some (JBool True)
      | None \<Rightarrow> False)"

definition capabilities_json :: "(codes \<times> json) list" where
  "capabilities_json = [(js ''capabilities'', JObject [(js ''binaryCiphertext'', JBool True)])]"

definition hello_json :: "codes \<Rightarrow> json" where
  "hello_json k = JObject ([(js ''type'', JString (js ''e2ee_hello'')), (js ''key'', JString k)] @ capabilities_json)"

definition ready_json :: "bool \<Rightarrow> json" where
  "ready_json binaryCiphertext =
     JObject ((js ''type'', JString (js ''e2ee_ready'')) # (if binaryCiphertext then capabilities_json else []))"

section \<open>The channel\<close>

datatype ChannelState = Handshaking | Open | Closed

record EncryptedChannel =
  ec_sharedKey :: bytes
  ec_state :: ChannelState
  ec_daemonKeyPair :: "KeyPair option"
  ec_binaryCiphertext :: bool
  ec_pendingSends :: "payload list"
  ec_flushing :: "payload list"

datatype channel_out =
    Sent payload
  | Opened
  | Delivered payload
  | ClosedTransport int
  | Reported

definition MAX_PENDING_SENDS :: nat where "MAX_PENDING_SENDS = 200"
definition REHANDSHAKE_REJECTION_CODE :: int where "REHANDSHAKE_REJECTION_CODE = 1008"
definition ENCRYPTED_PAYLOAD_OVERHEAD_BYTES :: int where "ENCRYPTED_PAYLOAD_OVERHEAD_BYTES = 40"

definition new_channel :: "bytes \<Rightarrow> KeyPair option \<Rightarrow> bool \<Rightarrow> EncryptedChannel" where
  "new_channel sharedKey daemonKeyPair binaryCiphertext =
     \<lparr>ec_sharedKey = sharedKey, ec_state = Handshaking, ec_daemonKeyPair = daemonKeyPair,
      ec_binaryCiphertext = binaryCiphertext, ec_pendingSends = [], ec_flushing = []\<rparr>"

definition sealed :: "crypto \<Rightarrow> EncryptedChannel \<Rightarrow> bytes \<Rightarrow> payload \<Rightarrow> payload" where
  "sealed cr ch nonce data =
     (let ciphertext = seal cr (ec_sharedKey ch) nonce data
      in case data of
           BinaryData _ \<Rightarrow> if ec_binaryCiphertext ch then BinaryData ciphertext
                          else TextData (cr_fromByteArray cr ciphertext)
         | TextData _ \<Rightarrow> TextData (cr_fromByteArray cr ciphertext))"

text \<open>\<open>None\<close> is the exception of a channel that is not open.\<close>

definition channel_send ::
  "crypto \<Rightarrow> bytes \<Rightarrow> payload \<Rightarrow> EncryptedChannel \<Rightarrow> (EncryptedChannel \<times> channel_out list) option" where
  "channel_send cr nonce data ch =
     (case ec_state ch of
        Handshaking \<Rightarrow>
          Some (ch\<lparr>ec_pendingSends :=
            (if length (ec_pendingSends ch) \<ge> MAX_PENDING_SENDS then tl (ec_pendingSends ch)
             else ec_pendingSends ch) @ [data]\<rparr>, [])
      | Open \<Rightarrow> Some (ch, [Sent (sealed cr ch nonce data)])
      | Closed \<Rightarrow> None)"

text \<open>The flush takes the queue over when the channel opens and then sends one message after the
  other, waiting for the transport in between. A send that fails closes the channel.\<close>

definition flush_next :: "crypto \<Rightarrow> bytes \<Rightarrow> bool \<Rightarrow> EncryptedChannel \<Rightarrow> EncryptedChannel \<times> channel_out list" where
  "flush_next cr nonce accepted ch =
     (case ec_flushing ch of
        [] \<Rightarrow> (ch, [])
      | data # rest \<Rightarrow>
          (case channel_send cr nonce data (ch\<lparr>ec_flushing := rest\<rparr>) of
             Some (ch', outs) \<Rightarrow>
               if accepted then (ch', outs)
               else (ch'\<lparr>ec_state := Closed, ec_flushing := []\<rparr>, [Reported, ClosedTransport 1011])
           | None \<Rightarrow> (ch\<lparr>ec_state := Closed, ec_flushing := []\<rparr>, [Reported, ClosedTransport 1011])))"

definition keysEqual :: "bytes \<Rightarrow> bytes \<Rightarrow> bool" where
  "keysEqual a b = (length a = length b \<and> foldl (\<lambda>d (x, y). or d (xor x y)) 0 (zip a b) = 0)"

definition ready_text :: "bool \<Rightarrow> payload" where
  "ready_text binaryCiphertext = TextData (json_print (ready_json binaryCiphertext))"

text \<open>A hello on an open channel: the same key is answered again, another key closes the channel, and a
  key that cannot be read (\<open>None\<close>) is left to be taken for ciphertext.\<close>

definition handleDaemonRehello ::
  "crypto \<Rightarrow> codes \<Rightarrow> KeyPair \<Rightarrow> EncryptedChannel \<Rightarrow> (EncryptedChannel \<times> channel_out list) option" where
  "handleDaemonRehello cr key keyPair ch =
     (case importPublicKey cr key of
        None \<Rightarrow> None
      | Some clientPublicKey \<Rightarrow>
          (case deriveSharedKey cr (kp_secretKey keyPair) clientPublicKey of
             None \<Rightarrow> None
           | Some retryKey \<Rightarrow>
               if \<not> keysEqual retryKey (ec_sharedKey ch)
               then Some (ch\<lparr>ec_state := Closed\<rparr>, [ClosedTransport REHANDSHAKE_REJECTION_CODE])
               else Some (ch, [Sent (ready_text (ec_binaryCiphertext ch))])))"

definition decodePlaintext :: "bytes \<Rightarrow> bool option \<Rightarrow> payload option" where
  "decodePlaintext data isBinary =
     (case isBinary of
        Some True \<Rightarrow> Some (BinaryData data)
      | Some False \<Rightarrow> map_option TextData (text_decode_fatal data)
      | None \<Rightarrow> Some (case text_decode_fatal data of Some s \<Rightarrow> TextData s | None \<Rightarrow> BinaryData data))"

definition frame_bytes :: "crypto \<Rightarrow> bool \<Rightarrow> TransportMessage \<Rightarrow> (bytes \<times> bool option) option" where
  "frame_bytes cr binaryCiphertext m =
     (if binaryCiphertext then
        (if tm_isBinary m then map_option (\<lambda>b. (b, Some True)) (requireArrayBuffer (tm_data m))
         else map_option (\<lambda>b. (b, Some False)) (base64ToArrayBuffer cr (decodeTransportText (tm_data m))))
      else if \<not> tm_isBinary m then
        map_option (\<lambda>b. (b, None)) (base64ToArrayBuffer cr (decodeTransportText (tm_data m)))
      else
        (case base64ToArrayBuffer cr (decodeTransportText (tm_data m)) of
           Some b \<Rightarrow> Some (b, None)
         | None \<Rightarrow> map_option (\<lambda>b. (b, None)) (requireArrayBuffer (tm_data m))))"

definition open_frame :: "crypto \<Rightarrow> TransportMessage \<Rightarrow> EncryptedChannel \<Rightarrow> payload option" where
  "open_frame cr m ch =
     (case frame_bytes cr (ec_binaryCiphertext ch) m of
        None \<Rightarrow> None
      | Some (data, isBinary) \<Rightarrow>
          (case unseal cr (ec_sharedKey ch) data of
             None \<Rightarrow> None
           | Some plaintext \<Rightarrow> decodePlaintext plaintext isBinary))"

text \<open>The plaintext JSON of a frame on an open channel, if it is one.\<close>

definition plain_json :: "TransportMessage \<Rightarrow> json option" where
  "plain_json m =
     (if tm_isBinary m then None
      else let s = decodeTransportText (tm_data m)
           in case text_trim s of
                c # _ \<Rightarrow> if c = 123 then json_parse s else None
              | [] \<Rightarrow> None)"

definition take_ciphertext :: "crypto \<Rightarrow> TransportMessage \<Rightarrow> EncryptedChannel \<Rightarrow> EncryptedChannel \<times> channel_out list" where
  "take_ciphertext cr m ch =
     (case open_frame cr m ch of
        Some plaintext \<Rightarrow> (ch, [Delivered plaintext])
      | None \<Rightarrow> (ch, [ClosedTransport 1011]))"

definition handle_handshaking :: "TransportMessage \<Rightarrow> EncryptedChannel \<Rightarrow> EncryptedChannel \<times> channel_out list" where
  "handle_handshaking m ch =
     (if tm_isBinary m then (ch, [])
      else case json_parse (decodeTransportText (tm_data m)) of
        None \<Rightarrow> (ch, [])
      | Some v \<Rightarrow>
          if isE2EEReadyMessage v then
            (ch\<lparr>ec_binaryCiphertext := supportsBinaryCiphertext v, ec_state := Open,
                ec_flushing := ec_pendingSends ch, ec_pendingSends := []\<rparr>, [Opened])
          else (ch, []))"

definition handle_open :: "crypto \<Rightarrow> TransportMessage \<Rightarrow> EncryptedChannel \<Rightarrow> EncryptedChannel \<times> channel_out list" where
  "handle_open cr m ch =
     (case plain_json m of
        Some v \<Rightarrow>
          (case helloKey v of
             Some key \<Rightarrow>
               (case ec_daemonKeyPair ch of
                  None \<Rightarrow> (ch, [])
                | Some keyPair \<Rightarrow>
                    (case handleDaemonRehello cr key keyPair ch of
                       Some r \<Rightarrow> r
                     | None \<Rightarrow> take_ciphertext cr m ch))
           | None \<Rightarrow> if isE2EEReadyMessage v then (ch, []) else (ch, [ClosedTransport 1011]))
      | None \<Rightarrow> take_ciphertext cr m ch)"

definition handleMessage :: "crypto \<Rightarrow> TransportMessage \<Rightarrow> EncryptedChannel \<Rightarrow> EncryptedChannel \<times> channel_out list" where
  "handleMessage cr m ch =
     (case ec_state ch of
        Handshaking \<Rightarrow> handle_handshaking m ch
      | Open \<Rightarrow> handle_open cr m ch
      | Closed \<Rightarrow> (ch, []))"

definition channel_close :: "int \<Rightarrow> EncryptedChannel \<Rightarrow> EncryptedChannel \<times> channel_out list" where
  "channel_close code ch = (ch\<lparr>ec_state := Closed\<rparr>, [ClosedTransport code])"

definition transport_closed :: "EncryptedChannel \<Rightarrow> EncryptedChannel" where
  "transport_closed ch = ch\<lparr>ec_state := Closed\<rparr>"

definition isOpen :: "EncryptedChannel \<Rightarrow> bool" where
  "isOpen ch = (ec_state ch = Open)"

definition base64EncryptedWireByteLength :: "int \<Rightarrow> int" where
  "base64EncryptedWireByteLength plaintextBytes =
     4 * ((plaintextBytes + ENCRYPTED_PAYLOAD_OVERHEAD_BYTES + 2) div 3)"

definition maxBase64EncryptedPlaintextByteLength :: "int \<Rightarrow> int" where
  "maxBase64EncryptedPlaintextByteLength wireBytes = wireBytes div 4 * 3 - ENCRYPTED_PAYLOAD_OVERHEAD_BYTES"

definition outboundWireByteLength :: "payload \<Rightarrow> EncryptedChannel \<Rightarrow> int" where
  "outboundWireByteLength data ch =
     (let plaintextBytes = int (length (toUint8 data))
      in if ec_binaryCiphertext ch \<and> (\<exists>b. data = BinaryData b)
         then plaintextBytes + ENCRYPTED_PAYLOAD_OVERHEAD_BYTES
         else base64EncryptedWireByteLength plaintextBytes)"

section \<open>Client and daemon\<close>

definition createClientChannel :: "crypto \<Rightarrow> KeyPair \<Rightarrow> codes \<Rightarrow> (EncryptedChannel \<times> payload) option" where
  "createClientChannel cr keyPair daemonPublicKeyB64 =
     (case importPublicKey cr daemonPublicKeyB64 of
        None \<Rightarrow> None
      | Some daemonPublicKey \<Rightarrow>
          (case deriveSharedKey cr (kp_secretKey keyPair) daemonPublicKey of
             None \<Rightarrow> None
           | Some sharedKey \<Rightarrow>
               map_option (\<lambda>k. (new_channel sharedKey None False, TextData (json_print (hello_json k))))
                 (exportPublicKey cr (kp_publicKey keyPair))))"

definition hello_tick :: "payload \<Rightarrow> EncryptedChannel \<Rightarrow> channel_out list" where
  "hello_tick hello ch = (if isOpen ch then [] else [Sent hello])"

text \<open>The daemon waits for a hello, replies, keeping what arrives until the reply is sent, and runs the
  channel. A refusal rejects the promise, and its caller drops the connection.\<close>

datatype daemon_end =
    Waiting
  | Replying EncryptedChannel "TransportMessage list"
  | Running EncryptedChannel
  | RefusedHello

definition shouldIgnorePostHelloPlaintext :: "TransportMessage \<Rightarrow> bool" where
  "shouldIgnorePostHelloPlaintext m =
     (\<not> tm_isBinary m \<and> (case json_parse (decodeTransportText (tm_data m)) of
        Some v \<Rightarrow> helloKey v \<noteq> None \<or> isE2EEReadyMessage v | None \<Rightarrow> False))"

definition handleHello :: "crypto \<Rightarrow> KeyPair \<Rightarrow> TransportMessage \<Rightarrow> daemon_end \<times> channel_out list" where
  "handleHello cr keyPair m =
     (if tm_isBinary m then (RefusedHello, [])
      else case json_parse (decodeTransportText (tm_data m)) of
        None \<Rightarrow> (RefusedHello, [])
      | Some v \<Rightarrow>
          (case helloKey v of
             None \<Rightarrow> (RefusedHello, [])
           | Some key \<Rightarrow>
               (case importPublicKey cr key of
                  None \<Rightarrow> (RefusedHello, [])
                | Some clientPublicKey \<Rightarrow>
                    (case deriveSharedKey cr (kp_secretKey keyPair) clientPublicKey of
                       None \<Rightarrow> (RefusedHello, [])
                     | Some sharedKey \<Rightarrow>
                         (Replying (new_channel sharedKey (Some keyPair) (supportsBinaryCiphertext v)) [],
                          [Sent (ready_text (supportsBinaryCiphertext v))])))))"

definition daemon_receive :: "crypto \<Rightarrow> KeyPair \<Rightarrow> TransportMessage \<Rightarrow> daemon_end \<Rightarrow> daemon_end \<times> channel_out list" where
  "daemon_receive cr keyPair m d =
     (case d of
        Waiting \<Rightarrow> handleHello cr keyPair m
      | Replying ch buffered \<Rightarrow> (Replying ch (buffered @ [m]), [])
      | Running ch \<Rightarrow> (case handleMessage cr m ch of (ch', outs) \<Rightarrow> (Running ch', outs))
      | RefusedHello \<Rightarrow> (RefusedHello, []))"

fun handle_all :: "crypto \<Rightarrow> TransportMessage list \<Rightarrow> EncryptedChannel \<Rightarrow> EncryptedChannel \<times> channel_out list" where
  "handle_all cr [] ch = (ch, [])"
| "handle_all cr (m # ms) ch =
     (case (if shouldIgnorePostHelloPlaintext m then (ch, []) else handleMessage cr m ch) of
        (ch', outs) \<Rightarrow> case handle_all cr ms ch' of (ch'', outs') \<Rightarrow> (ch'', outs @ outs'))"

definition daemon_replied :: "crypto \<Rightarrow> daemon_end \<Rightarrow> daemon_end \<times> channel_out list" where
  "daemon_replied cr d =
     (case d of
        Replying ch buffered \<Rightarrow>
          (case handle_all cr buffered (ch\<lparr>ec_state := Open\<rparr>) of (ch', outs) \<Rightarrow> (Running ch', Opened # outs))
      | _ \<Rightarrow> (d, []))"

section \<open>What is used of the libraries\<close>

text \<open>What was boxed under a key and nonce opens under them, and base 64 text is well formed, has the
  usual length and reads back.\<close>

definition crypto_ok :: "crypto \<Rightarrow> bool" where
  "crypto_ok cr =
     ((\<forall>p n k. length n = NONCE_LENGTH \<longrightarrow> cr_openAfter cr (cr_after cr p n k) n k = Some p)
      \<and> (\<forall>p n k. length (cr_after cr p n k) = length p + 16)
      \<and> (\<forall>b. cr_toByteArray cr (cr_fromByteArray cr b) = Some b)
      \<and> (\<forall>b. base64_form (cr_fromByteArray cr b))
      \<and> (\<forall>b. length (cr_fromByteArray cr b) = 4 * ((length b + 2) div 3)))"

lemma crypto_okD:
  assumes "crypto_ok cr"
  shows "length n = NONCE_LENGTH \<Longrightarrow> cr_openAfter cr (cr_after cr p n k) n k = Some p"
    "length (cr_after cr p n k) = length p + 16"
    "cr_toByteArray cr (cr_fromByteArray cr b) = Some b" "base64_form (cr_fromByteArray cr b)"
    "length (cr_fromByteArray cr b) = 4 * ((length b + 2) div 3)"
  using assms by (auto simp: crypto_ok_def)

lemma base64_chars: "base64_form s \<Longrightarrow> c \<in> set s \<Longrightarrow> base64_char c \<or> c = 61"
proof -
  assume form: "base64_form s" and c: "c \<in> set s"
  have "set s = set (takeWhile base64_char s) \<union> set (dropWhile base64_char s)"
    by (metis set_append takeWhile_dropWhile_id)
  with form c show "base64_char c \<or> c = 61" by (auto simp: base64_form_def dest: set_takeWhileD)
qed

lemma base64_char_facts:
  "base64_char c \<or> c = 61 \<Longrightarrow> \<not> code_space c \<and> c \<noteq> 45 \<and> c \<noteq> 95 \<and> c \<noteq> 123 \<and> scalar c"
  by (auto simp: base64_char_def code_space_def scalar_def)

lemma trim_id: "\<forall>c\<in>set s. \<not> code_space c \<Longrightarrow> text_trim s = s"
  by (simp add: text_trim_def dropWhile_eq_self_iff) (metis dropWhile_eq_self_iff hd_in_set rev_rev_ident set_rev)

lemma base64_plain: "base64_form s \<Longrightarrow> text_trim s = s" "base64_form s \<Longrightarrow> list_all scalar s"
  using base64_chars base64_char_facts by (auto simp: list_all_iff intro!: trim_id)

lemma base64_read:
  assumes "crypto_ok cr"
  shows "base64ToArrayBuffer cr (cr_fromByteArray cr b) = Some b"
proof -
  let ?s = "cr_fromByteArray cr b"
  have form: "base64_form ?s" by (rule crypto_okD [OF assms])
  have "map (\<lambda>c. if c = 45 then 43 else if c = 95 then 47 else c) ?s = ?s"
    using base64_chars [OF form] base64_char_facts by (intro map_idI) auto
  moreover have "(4 - length ?s mod 4) mod 4 = 0" using form by (simp add: base64_form_def)
  ultimately show ?thesis
    using crypto_okD(3) [OF assms] base64_plain [OF form] by (simp add: base64ToArrayBuffer_def Let_def)
qed

lemma key_read:
  assumes "crypto_ok cr" "length b = KEY_LENGTH"
  shows "importPublicKey cr (cr_fromByteArray cr b) = Some b"
  using assms crypto_okD [OF assms(1)] by (simp add: importPublicKey_def decodePublicKeyBase64_def)

section \<open>Opening what was sealed\<close>

text \<open>A transport that keeps frames apart and their kind.\<close>

definition message_of :: "payload \<Rightarrow> TransportMessage" where
  "message_of data = \<lparr>tm_data = data, tm_isBinary = (case data of BinaryData _ \<Rightarrow> True | TextData _ \<Rightarrow> False)\<rparr>"

definition payload_ok :: "payload \<Rightarrow> bool" where
  "payload_ok data = (case data of
       TextData s \<Rightarrow> list_all scalar s \<and> (s = [] \<or> hd s \<noteq> 0xFEFF)
     | BinaryData _ \<Rightarrow> True)"

definition same_keys :: "EncryptedChannel \<Rightarrow> EncryptedChannel \<Rightarrow> bool" where
  "same_keys a b = (ec_sharedKey a = ec_sharedKey b \<and> ec_binaryCiphertext a = ec_binaryCiphertext b)"

lemma unseal_seal:
  "crypto_ok cr \<Longrightarrow> length n = NONCE_LENGTH \<Longrightarrow> unseal cr k (seal cr k n d) = Some (toUint8 d)"
  by (simp add: unseal_def seal_def crypto_okD)

lemma base64_not_json:
  assumes "crypto_ok cr"
  shows "plain_json (message_of (TextData (cr_fromByteArray cr b))) = None"
proof -
  have form: "base64_form (cr_fromByteArray cr b)" by (rule crypto_okD [OF assms])
  show ?thesis
    using base64_chars [OF form] base64_char_facts
    by (auto simp: plain_json_def message_of_def decodeTransportText_def base64_plain [OF form] Let_def split: list.splits)
qed

lemma binary_not_json: "plain_json (message_of (BinaryData b)) = None"
  by (simp add: plain_json_def message_of_def)

lemma sealed_not_json: "crypto_ok cr \<Longrightarrow> plain_json (message_of (sealed cr a n d)) = None"
  by (simp add: sealed_def Let_def base64_not_json binary_not_json split: payload.splits)

lemma open_sealed:
  assumes "crypto_ok cr" "length n = NONCE_LENGTH" "payload_ok d" "same_keys a b"
    and "ec_binaryCiphertext b \<or> (\<exists>s. d = TextData s)"
  shows "open_frame cr (message_of (sealed cr a n d)) b = Some d"
proof (cases d)
  case (TextData s)
  then have "text_decode_fatal (toUint8 d) = Some s"
    using assms(3) by (simp add: payload_ok_def toUint8_def text_decode_encode)
  with TextData assms show ?thesis
    by (simp add: open_frame_def frame_bytes_def sealed_def Let_def message_of_def decodeTransportText_def
        base64_read unseal_seal same_keys_def decodePlaintext_def)
next
  case (BinaryData b')
  with assms show ?thesis
    by (simp add: open_frame_def frame_bytes_def sealed_def Let_def message_of_def requireArrayBuffer_def
        unseal_seal same_keys_def decodePlaintext_def toUint8_def)
qed

section \<open>Reading the handshake\<close>

lemma plain_hello: "list_all scalar k \<Longrightarrow> json_plain (hello_json k)" "json_plain (ready_json b)"
  by (simp_all add: hello_json_def ready_json_def capabilities_json_def js_def scalar_def)

lemma print_object_ends: "\<exists>s. json_print (JObject ms) = 123 # s @ [125]"
  by auto

lemma trim_object: "text_trim (123 # s @ [125]) = 123 # s @ [125]"
  by (simp add: text_trim_def code_space_def)

lemma object_message:
  assumes "json_plain (JObject ms)"
  shows "plain_json (message_of (TextData (json_print (JObject ms)))) = Some (JObject ms)"
    "json_parse (decodeTransportText (tm_data (message_of (TextData (json_print (JObject ms)))))) = Some (JObject ms)"
proof -
  obtain s where s: "json_print (JObject ms) = 123 # s @ [125]" using print_object_ends by blast
  have "json_parse (123 # s @ [125]) = Some (JObject ms)" using json_roundtrip [OF assms] s by simp
  then show "plain_json (message_of (TextData (json_print (JObject ms)))) = Some (JObject ms)"
    "json_parse (decodeTransportText (tm_data (message_of (TextData (json_print (JObject ms)))))) = Some (JObject ms)"
    unfolding s by (simp_all add: plain_json_def message_of_def decodeTransportText_def trim_object Let_def)
qed

lemma hello_facts:
  assumes "text_trim k \<noteq> []"
  shows "helloKey (hello_json k) = Some k" "supportsBinaryCiphertext (hello_json k)"
  using assms by (simp_all add: hello_json_def helloKey_def json_member_def supportsBinaryCiphertext_def
      capabilities_json_def js_def isE2EECapabilities_def)

lemma ready_facts:
  shows "isE2EEReadyMessage (ready_json b)" "helloKey (ready_json b) = None" "supportsBinaryCiphertext (ready_json b) = b"
  by (simp_all add: ready_json_def helloKey_def json_member_def supportsBinaryCiphertext_def
      capabilities_json_def js_def isE2EECapabilities_def isE2EEReadyMessage_def)

lemma hello_read:
  assumes "list_all scalar k"
  shows "plain_json (message_of (TextData (json_print (hello_json k)))) = Some (hello_json k)"
    "json_parse (decodeTransportText (tm_data (message_of (TextData (json_print (hello_json k)))))) = Some (hello_json k)"
  using object_message plain_hello(1) [OF assms] unfolding hello_json_def by blast+

lemma ready_read:
  shows "plain_json (message_of (ready_text b)) = Some (ready_json b)"
    "json_parse (decodeTransportText (tm_data (message_of (ready_text b)))) = Some (ready_json b)"
  using object_message plain_hello(2) [of b] unfolding ready_json_def ready_text_def by blast+

lemma text_message_kind: "tm_isBinary (message_of (TextData s)) = False" "tm_isBinary (message_of (ready_text b)) = False"
  by (simp_all add: message_of_def ready_text_def)

lemma base64_not_object:
  assumes "crypto_ok cr" "json_parse (cr_fromByteArray cr b) = Some v"
  shows "helloKey v = None" "\<not> isE2EEReadyMessage v"
proof -
  have form: "base64_form (cr_fromByteArray cr b)" by (rule crypto_okD [OF assms(1)])
  have "\<forall>ms. v \<noteq> JObject ms"
  proof (cases "cr_fromByteArray cr b")
    case Nil
    with assms(2) show ?thesis by (simp add: json_parse_def skip_def)
  next
    case (Cons c t)
    have "\<not> code_space c \<and> c \<noteq> 123" using base64_chars [OF form] base64_char_facts Cons by auto
    then have "skip (c # t) = c # t" "c \<noteq> 123" by (auto simp: skip_Cons code_space_def)
    with assms(2) Cons show ?thesis
      by (auto simp: json_parse_def literal_def split: option.splits if_splits prod.splits)
  qed
  then show "helloKey v = None" "\<not> isE2EEReadyMessage v"
    by (cases v; simp add: helloKey_def isE2EEReadyMessage_def json_member_def)+
qed

lemma sealed_kept: "crypto_ok cr \<Longrightarrow> \<not> shouldIgnorePostHelloPlaintext (message_of (sealed cr a n d))"
  using base64_not_object [of cr]
  by (auto simp: sealed_def Let_def shouldIgnorePostHelloPlaintext_def message_of_def decodeTransportText_def
      split: payload.splits option.splits)

lemma hello_ignored:
  assumes "list_all scalar k" "text_trim k \<noteq> []"
  shows "shouldIgnorePostHelloPlaintext (message_of (TextData (json_print (hello_json k))))"
  by (simp add: shouldIgnorePostHelloPlaintext_def text_message_kind hello_read [OF assms(1)] hello_facts [OF assms(2)])

lemma xor_fold_zero: "foldl (\<lambda>d (x, y). or d (xor x y)) 0 (zip a a) = (0 :: 8 word)"
  by (induction a) auto

lemma keysEqual_refl: "keysEqual a a"
  by (simp add: keysEqual_def xor_fold_zero)

lemma exported_key:
  assumes "crypto_ok cr" "length b = KEY_LENGTH"
  shows "list_all scalar (cr_fromByteArray cr b)" "text_trim (cr_fromByteArray cr b) \<noteq> []"
proof -
  have form: "base64_form (cr_fromByteArray cr b)" by (rule crypto_okD [OF assms(1)])
  have "length (cr_fromByteArray cr b) \<noteq> 0" using crypto_okD(5) [OF assms(1)] assms(2) by (simp add: KEY_LENGTH_def)
  then show "list_all scalar (cr_fromByteArray cr b)" "text_trim (cr_fromByteArray cr b) \<noteq> []"
    using base64_plain [OF form] by auto
qed

section \<open>What a daemon end delivers\<close>

definition delivered :: "channel_out list \<Rightarrow> payload list" where
  "delivered outs = List.map_filter (\<lambda>out. case out of Delivered p \<Rightarrow> Some p | _ \<Rightarrow> None) outs"

lemma delivered_simps [simp]:
  "delivered [] = []" "delivered (Delivered p # outs) = p # delivered outs" "delivered (Sent x # outs) = delivered outs"
  "delivered (Opened # outs) = delivered outs" "delivered (ClosedTransport c # outs) = delivered outs"
  "delivered (Reported # outs) = delivered outs" "delivered (outs @ outs') = delivered outs @ delivered outs'"
  by (simp_all add: delivered_def map_filter_def)

text \<open>The runs of one end from the moment it waits: any frames may arrive, at any time.\<close>

inductive daemon_history :: "crypto \<Rightarrow> KeyPair \<Rightarrow> TransportMessage list \<Rightarrow> daemon_end \<Rightarrow> channel_out list \<Rightarrow> bool"
  for cr kp where
  Begin: "daemon_history cr kp [] Waiting []"
| Arrives: "daemon_history cr kp ms d outs \<Longrightarrow> daemon_receive cr kp m d = (d', o1)
    \<Longrightarrow> daemon_history cr kp (ms @ [m]) d' (outs @ o1)"
| Replies: "daemon_history cr kp ms d outs \<Longrightarrow> daemon_replied cr d = (d', o1)
    \<Longrightarrow> daemon_history cr kp ms d' (outs @ o1)"
| Sends: "daemon_history cr kp ms (Running ch) outs \<Longrightarrow> channel_send cr n p ch = Some (ch', o1)
    \<Longrightarrow> daemon_history cr kp ms (Running ch') (outs @ o1)"
| Closes: "daemon_history cr kp ms (Running ch) outs \<Longrightarrow> channel_close code ch = (ch', o1)
    \<Longrightarrow> daemon_history cr kp ms (Running ch') (outs @ o1)"
| Drops: "daemon_history cr kp ms (Running ch) outs \<Longrightarrow> daemon_history cr kp ms (Running (transport_closed ch)) outs"

definition opens_as :: "crypto \<Rightarrow> EncryptedChannel \<Rightarrow> TransportMessage list \<Rightarrow> payload list \<Rightarrow> bool" where
  "opens_as cr ch ms ps = (\<exists>fs. subseq fs ms \<and> map (\<lambda>m. open_frame cr m ch) fs = map Some ps)"

lemma opens_as_Nil [simp]: "opens_as cr ch ms []"
  by (simp add: opens_as_def)

lemma opens_as_append: "opens_as cr ch ms ps \<Longrightarrow> opens_as cr ch ms' ps' \<Longrightarrow> opens_as cr ch (ms @ ms') (ps @ ps')"
  unfolding opens_as_def by (metis list_emb_append_mono map_append)

lemma opens_as_one: "open_frame cr m ch = Some p \<Longrightarrow> opens_as cr ch [m] [p]"
  unfolding opens_as_def by (intro exI [of _ "[m]"]) simp

lemma same_keys_open: "same_keys a b \<Longrightarrow> open_frame cr m a = open_frame cr m b"
  unfolding same_keys_def open_frame_def by (elim conjE) (simp only:)

lemma same_keys_opens: "same_keys a b \<Longrightarrow> opens_as cr a ms ps = opens_as cr b ms ps"
  by (simp add: opens_as_def same_keys_open)

lemma same_keys_refl [simp]: "same_keys a a" "same_keys (a\<lparr>ec_state := s\<rparr>) b = same_keys a b"
  "same_keys a (b\<lparr>ec_state := s\<rparr>) = same_keys a b"
  by (simp_all add: same_keys_def)

lemma same_keys_trans: "same_keys a b \<Longrightarrow> same_keys b c \<Longrightarrow> same_keys a c"
  by (simp add: same_keys_def)

text \<open>Past the handshake no operation changes the key or the kind of ciphertext.\<close>

definition settled :: "EncryptedChannel \<Rightarrow> bool" where
  "settled ch = (ec_state ch \<noteq> Handshaking)"

lemma send_settled: "settled ch \<Longrightarrow> channel_send cr n p ch = Some (ch', outs) \<Longrightarrow> ch' = ch \<and> delivered outs = []"
  by (auto simp: channel_send_def settled_def split: ChannelState.splits)

lemma take_keeps: "take_ciphertext cr m ch = (ch', outs) \<Longrightarrow> ch' = ch \<and> opens_as cr ch [m] (delivered outs)"
  by (auto simp: take_ciphertext_def opens_as_one split: option.splits)

lemma rehello_settled: "settled ch \<Longrightarrow> handleDaemonRehello cr key kp ch = Some (ch', outs) \<Longrightarrow>
    settled ch' \<and> same_keys ch ch' \<and> delivered outs = []"
  by (auto simp: handleDaemonRehello_def settled_def split: option.splits if_splits)

lemma open_keeps:
  assumes "settled ch" "handle_open cr m ch = (ch', outs)"
  shows "settled ch' \<and> same_keys ch ch' \<and> opens_as cr ch [m] (delivered outs)"
  using assms take_keeps [of cr m ch ch' outs] rehello_settled [OF assms(1)]
  by (auto simp: handle_open_def split: option.splits if_splits)

lemma message_keeps:
  assumes "settled ch" "handleMessage cr m ch = (ch', outs)"
  shows "settled ch' \<and> same_keys ch ch' \<and> opens_as cr ch [m] (delivered outs)"
  using assms open_keeps [OF assms(1)] by (auto simp: handleMessage_def settled_def split: ChannelState.splits)

lemma all_keeps:
  "settled ch \<Longrightarrow> handle_all cr ms ch = (ch', outs) \<Longrightarrow> settled ch' \<and> same_keys ch ch' \<and> opens_as cr ch ms (delivered outs)"
proof (induction ms arbitrary: ch ch' outs)
  case (Cons m ms)
  obtain c o1 where c: "(if shouldIgnorePostHelloPlaintext m then (ch, []) else handleMessage cr m ch) = (c, o1)"
    by (cases "if shouldIgnorePostHelloPlaintext m then (ch, []) else handleMessage cr m ch")
  then have one: "settled c \<and> same_keys ch c \<and> opens_as cr ch [m] (delivered o1)"
    using message_keeps [OF Cons.prems(1)] Cons.prems(1) by (auto split: if_splits)
  obtain o2 where o2: "handle_all cr ms c = (ch', o2)" "outs = o1 @ o2"
    using Cons.prems(2) c by (auto split: prod.splits)
  then have "settled ch' \<and> same_keys c ch' \<and> opens_as cr c ms (delivered o2)" using Cons.IH one by blast
  then show ?case
    using one o2(2) opens_as_append [of cr ch "[m]" "delivered o1" ms "delivered o2"] same_keys_opens [of ch c]
    by (auto intro: same_keys_trans)
qed simp

definition keyed_by :: "crypto \<Rightarrow> KeyPair \<Rightarrow> TransportMessage \<Rightarrow> EncryptedChannel \<Rightarrow> bool" where
  "keyed_by cr kp m ch = (\<exists>c outs. handleHello cr kp m = (Replying c [], outs) \<and> same_keys c ch)"

lemma hello_cases:
  "handleHello cr kp m = (d, outs) \<Longrightarrow>
    delivered outs = [] \<and> (d = RefusedHello \<or> (\<exists>c. d = Replying c [] \<and> ec_state c = Handshaking))"
  by (auto simp: handleHello_def new_channel_def split: if_splits option.splits)

definition end_ok :: "crypto \<Rightarrow> KeyPair \<Rightarrow> TransportMessage list \<Rightarrow> daemon_end \<Rightarrow> payload list \<Rightarrow> bool" where
  "end_ok cr kp ms d ps =
     (case d of
        Waiting \<Rightarrow> ms = [] \<and> ps = []
      | RefusedHello \<Rightarrow> ps = []
      | Replying ch buffered \<Rightarrow> ps = [] \<and> (\<exists>m. ms = m # buffered \<and> keyed_by cr kp m ch)
      | Running ch \<Rightarrow> settled ch \<and> (\<exists>m rest. ms = m # rest \<and> keyed_by cr kp m ch \<and> opens_as cr ch rest ps))"

lemma keyed_same: "keyed_by cr kp m a \<Longrightarrow> same_keys a b \<Longrightarrow> keyed_by cr kp m b"
  unfolding keyed_by_def by (blast intro: same_keys_trans)

lemma receive_ok:
  assumes "end_ok cr kp ms d ps" "daemon_receive cr kp m d = (d', outs)"
  shows "end_ok cr kp (ms @ [m]) d' (ps @ delivered outs)"
proof (cases d)
  case Waiting
  with assms have "ms = []" "ps = []" "handleHello cr kp m = (d', outs)"
    by (simp_all add: end_ok_def daemon_receive_def)
  with hello_cases [of cr kp m d' outs] show ?thesis
    by (auto simp: end_ok_def keyed_by_def)
next
  case (Replying ch buffered)
  with assms show ?thesis by (auto simp: end_ok_def daemon_receive_def)
next
  case (Running ch)
  with assms obtain ch' where ch': "handleMessage cr m ch = (ch', outs)" "d' = Running ch'" "settled ch"
    by (auto simp: daemon_receive_def end_ok_def split: prod.splits)
  from assms(1) Running obtain h rest where h: "ms = h # rest" "keyed_by cr kp h ch" "opens_as cr ch rest ps"
    by (auto simp: end_ok_def)
  from message_keeps [OF ch'(3,1)] have "settled ch'" "same_keys ch ch'" "opens_as cr ch [m] (delivered outs)" by auto
  with h ch'(2) opens_as_append [OF h(3)] show ?thesis
    using keyed_same [OF h(2)] same_keys_opens [of ch ch'] by (auto simp: end_ok_def)
next
  case RefusedHello
  with assms show ?thesis by (auto simp: end_ok_def daemon_receive_def)
qed

lemma replied_ok:
  assumes "end_ok cr kp ms d ps" "daemon_replied cr d = (d', outs)"
  shows "end_ok cr kp ms d' (ps @ delivered outs)"
proof (cases "\<exists>ch buffered. d = Replying ch buffered")
  case True
  then obtain ch buffered where d: "d = Replying ch buffered" by auto
  with assms(2) obtain ch' o2 where o2: "handle_all cr buffered (ch\<lparr>ec_state := Open\<rparr>) = (ch', o2)"
    "d' = Running ch'" "outs = Opened # o2"
    by (auto simp: daemon_replied_def split: prod.splits)
  have "settled (ch\<lparr>ec_state := Open\<rparr>)" by (simp add: settled_def)
  from all_keeps [OF this o2(1)] have k: "settled ch'" "same_keys ch ch'" "opens_as cr (ch\<lparr>ec_state := Open\<rparr>) buffered (delivered o2)"
    by auto
  have "same_keys (ch\<lparr>ec_state := Open\<rparr>) ch'" using k(2) by simp
  from k(3) same_keys_opens [OF this] have "opens_as cr ch' buffered (delivered o2)" by simp
  with assms(1) d k o2 show ?thesis
    by (auto simp: end_ok_def intro: keyed_same)
next
  case False
  with assms show ?thesis by (cases d) (auto simp: daemon_replied_def)
qed

lemma end_ok_state: "end_ok cr kp ms (Running ch) ps \<Longrightarrow> settled ch' \<Longrightarrow> same_keys ch ch' \<Longrightarrow> end_ok cr kp ms (Running ch') ps"
  using same_keys_opens [of ch ch'] by (auto simp: end_ok_def intro: keyed_same)

lemma history_ok: "daemon_history cr kp ms d outs \<Longrightarrow> end_ok cr kp ms d (delivered outs)"
proof (induction rule: daemon_history.induct)
  case Begin
  then show ?case by (simp add: end_ok_def)
next
  case (Arrives ms d outs m d' o1)
  then show ?case using receive_ok by simp
next
  case (Replies ms d outs d' o1)
  then show ?case using replied_ok by simp
next
  case (Sends ms ch outs n p ch' o1)
  then have "settled ch" by (simp add: end_ok_def)
  with send_settled [OF this Sends(2)] Sends show ?case by simp
next
  case (Closes ms ch outs code ch' o1)
  then have "ch' = ch\<lparr>ec_state := Closed\<rparr>" "delivered o1 = []" by (auto simp: channel_close_def)
  with end_ok_state [OF Closes(3), of ch'] show ?case by (simp add: settled_def)
next
  case (Drops ms ch outs)
  from end_ok_state [OF Drops(2), of "transport_closed ch"] show ?case by (simp add: settled_def transport_closed_def)
qed

section \<open>Both ends over a relay that keeps order\<close>

text \<open>\<open>li_sent_up\<close> and \<open>li_sent_down\<close> record what each end handed to its transport, \<open>li_got_up\<close> and
  \<open>li_got_down\<close> what the other end delivered, \<open>li_closed\<close> the codes with which an end closed.\<close>

record link =
  li_client :: EncryptedChannel
  li_daemon :: daemon_end
  li_up :: "TransportMessage list"
  li_down :: "TransportMessage list"
  li_sent_up :: "payload list"
  li_got_up :: "payload list"
  li_sent_down :: "payload list"
  li_got_down :: "payload list"
  li_closed :: "int list"

definition frames :: "channel_out list \<Rightarrow> TransportMessage list" where
  "frames outs = List.map_filter (\<lambda>out. case out of Sent x \<Rightarrow> Some (message_of x) | _ \<Rightarrow> None) outs"

definition closings :: "channel_out list \<Rightarrow> int list" where
  "closings outs = List.map_filter (\<lambda>out. case out of ClosedTransport c \<Rightarrow> Some c | _ \<Rightarrow> None) outs"

lemma frames_simps [simp]:
  "frames [] = []" "frames (Sent x # outs) = message_of x # frames outs" "frames (Delivered p # outs) = frames outs"
  "frames (Opened # outs) = frames outs" "frames (outs @ outs') = frames outs @ frames outs'"
  by (simp_all add: frames_def map_filter_def)

lemma closings_simps [simp]:
  "closings [] = []" "closings (Sent x # outs) = closings outs" "closings (Delivered p # outs) = closings outs"
  "closings (Opened # outs) = closings outs" "closings (ClosedTransport c # outs) = c # closings outs"
  "closings (outs @ outs') = closings outs @ closings outs'"
  by (simp_all add: closings_def map_filter_def)

inductive link_step :: "crypto \<Rightarrow> KeyPair \<Rightarrow> payload \<Rightarrow> link \<Rightarrow> link \<Rightarrow> bool" for cr kp hello where
  HelloTick:
    "link_step cr kp hello l (l\<lparr>li_up := li_up l @ frames (hello_tick hello (li_client l))\<rparr>)"
| ClientSends:
    "length n = NONCE_LENGTH \<Longrightarrow> payload_ok p \<Longrightarrow> channel_send cr n p (li_client l) = Some (c, outs) \<Longrightarrow>
     link_step cr kp hello l
       (l\<lparr>li_client := c, li_up := li_up l @ frames outs,
          li_sent_up := li_sent_up l @ (if isOpen (li_client l) then [p] else [])\<rparr>)"
| ClientFlushes:
    "length n = NONCE_LENGTH \<Longrightarrow> flush_next cr n True (li_client l) = (c, outs) \<Longrightarrow>
     link_step cr kp hello l
       (l\<lparr>li_client := c, li_up := li_up l @ frames outs, li_closed := li_closed l @ closings outs,
          li_sent_up := li_sent_up l @ take 1 (ec_flushing (li_client l))\<rparr>)"
| DaemonSends:
    "length n = NONCE_LENGTH \<Longrightarrow> payload_ok p \<Longrightarrow> li_daemon l = Running ch \<Longrightarrow>
     channel_send cr n p ch = Some (ch', outs) \<Longrightarrow>
     link_step cr kp hello l
       (l\<lparr>li_daemon := Running ch', li_down := li_down l @ frames outs,
          li_sent_down := li_sent_down l @ (if isOpen ch then [p] else [])\<rparr>)"
| UpArrives:
    "li_up l = m # ms \<Longrightarrow> daemon_receive cr kp m (li_daemon l) = (d, outs) \<Longrightarrow>
     link_step cr kp hello l
       (l\<lparr>li_daemon := d, li_up := ms, li_down := li_down l @ frames outs,
          li_got_up := li_got_up l @ delivered outs, li_closed := li_closed l @ closings outs\<rparr>)"
| DaemonReplies:
    "daemon_replied cr (li_daemon l) = (d, outs) \<Longrightarrow>
     link_step cr kp hello l
       (l\<lparr>li_daemon := d, li_down := li_down l @ frames outs,
          li_got_up := li_got_up l @ delivered outs, li_closed := li_closed l @ closings outs\<rparr>)"
| DownArrives:
    "li_down l = m # ms \<Longrightarrow> handleMessage cr m (li_client l) = (c, outs) \<Longrightarrow>
     link_step cr kp hello l
       (l\<lparr>li_client := c, li_down := ms, li_up := li_up l @ frames outs,
          li_got_down := li_got_down l @ delivered outs, li_closed := li_closed l @ closings outs\<rparr>)"

definition link_start :: "EncryptedChannel \<Rightarrow> payload \<Rightarrow> link" where
  "link_start c hello =
     \<lparr>li_client = c, li_daemon = Waiting, li_up = [message_of hello], li_down = [], li_sent_up = [], li_got_up = [],
      li_sent_down = [], li_got_down = [], li_closed = []\<rparr>"

definition buffered :: "daemon_end \<Rightarrow> TransportMessage list" where
  "buffered d = (case d of Replying _ ms \<Rightarrow> ms | _ \<Rightarrow> [])"

text \<open>The messages on the way: what opens among the frames that are not handshake frames.\<close>

definition flying :: "crypto \<Rightarrow> bytes \<Rightarrow> TransportMessage list \<Rightarrow> payload list" where
  "flying cr k ms =
     List.map_filter (\<lambda>m. if plain_json m = None then open_frame cr m (new_channel k None True) else None) ms"

subsection \<open>The invariant\<close>

definition sealed_frame :: "crypto \<Rightarrow> bytes \<Rightarrow> TransportMessage \<Rightarrow> payload \<Rightarrow> bool" where
  "sealed_frame cr k m p =
     (\<exists>n. length n = NONCE_LENGTH \<and> payload_ok p \<and> m = message_of (sealed cr (new_channel k None True) n p))"

definition app_frame :: "crypto \<Rightarrow> bytes \<Rightarrow> TransportMessage \<Rightarrow> bool" where
  "app_frame cr k m = (\<exists>p. sealed_frame cr k m p)"

definition open_with :: "bytes \<Rightarrow> EncryptedChannel \<Rightarrow> bool" where
  "open_with k ch = (ec_state ch = Open \<and> same_keys ch (new_channel k None True))"

lemma sealed_cong: "same_keys a b \<Longrightarrow> sealed cr a n p = sealed cr b n p"
  unfolding same_keys_def sealed_def by (elim conjE) (simp only:)

lemma send_open:
  assumes "open_with k ch" "length n = NONCE_LENGTH" "payload_ok p" "channel_send cr n p ch = Some (ch', outs)"
  shows "ch' = ch \<and> (\<exists>m. frames outs = [m] \<and> sealed_frame cr k m p) \<and> closings outs = []"
  using assms sealed_cong [of ch "new_channel k None True"]
  by (auto simp: open_with_def channel_send_def sealed_frame_def)

lemma sealed_opens:
  assumes "crypto_ok cr" "sealed_frame cr k m p" "same_keys ch (new_channel k None True)"
  shows "open_frame cr m ch = Some p" "plain_json m = None" "\<not> shouldIgnorePostHelloPlaintext m"
proof -
  from assms(2) obtain n where n: "length n = NONCE_LENGTH" "payload_ok p" "m = message_of (sealed cr (new_channel k None True) n p)"
    by (auto simp: sealed_frame_def)
  have "same_keys (new_channel k None True) ch" using assms(3) by (simp add: same_keys_def)
  from open_sealed [OF assms(1) n(1,2) this] assms(3) n(3) show "open_frame cr m ch = Some p"
    by (simp add: same_keys_def new_channel_def)
  show "plain_json m = None" "\<not> shouldIgnorePostHelloPlaintext m"
    using sealed_not_json sealed_kept assms(1) n(3) by auto
qed

lemma sealed_arrives:
  assumes "crypto_ok cr" "sealed_frame cr k m p" "open_with k ch"
  shows "handleMessage cr m ch = (ch, [Delivered p])"
proof -
  have "same_keys ch (new_channel k None True)" using assms(3) by (simp add: open_with_def)
  from sealed_opens [OF assms(1,2) this] assms(3) show ?thesis
    by (simp add: open_with_def handleMessage_def handle_open_def take_ciphertext_def)
qed

lemma flying_simps [simp]: "flying cr k [] = []" "flying cr k (ms @ ms') = flying cr k ms @ flying cr k ms'"
  by (simp_all add: flying_def map_filter_def)

lemma flying_sealed:
  assumes "crypto_ok cr" "sealed_frame cr k m p"
  shows "flying cr k (m # ms) = p # flying cr k ms"
  using sealed_opens [OF assms, of "new_channel k None True"] by (simp add: flying_def map_filter_def)

lemma flying_plain: "plain_json m \<noteq> None \<Longrightarrow> flying cr k (m # ms) = flying cr k ms"
  by (auto simp: flying_def map_filter_def)

text \<open>The set-up: a client that knows the daemon's public key, and secret keys that agree.\<close>

definition agreed :: "crypto \<Rightarrow> KeyPair \<Rightarrow> KeyPair \<Rightarrow> bytes \<Rightarrow> bool" where
  "agreed cr client daemon k =
     (crypto_ok cr \<and> length (kp_publicKey client) = KEY_LENGTH \<and> length (kp_publicKey daemon) = KEY_LENGTH
      \<and> deriveSharedKey cr (kp_secretKey client) (kp_publicKey daemon) = Some k
      \<and> deriveSharedKey cr (kp_secretKey daemon) (kp_publicKey client) = Some k)"

definition hello_of :: "crypto \<Rightarrow> KeyPair \<Rightarrow> payload" where
  "hello_of cr client = TextData (json_print (hello_json (cr_fromByteArray cr (kp_publicKey client))))"

lemma agreed_client:
  assumes "agreed cr client daemon k"
  shows "createClientChannel cr client (cr_fromByteArray cr (kp_publicKey daemon)) = Some (new_channel k None False, hello_of cr client)"
  using assms key_read by (simp add: agreed_def createClientChannel_def exportPublicKey_def hello_of_def)

lemma hello_plain:
  assumes "agreed cr client daemon k"
  shows "plain_json (message_of (hello_of cr client)) \<noteq> None" "shouldIgnorePostHelloPlaintext (message_of (hello_of cr client))"
  using assms exported_key [of cr "kp_publicKey client"] hello_read hello_ignored
  by (simp_all add: agreed_def hello_of_def)

lemma hello_answered:
  assumes "agreed cr client daemon k"
  shows "handleHello cr daemon (message_of (hello_of cr client))
    = (Replying (new_channel k (Some daemon) True) [], [Sent (ready_text True)])"
proof -
  let ?k = "cr_fromByteArray cr (kp_publicKey client)"
  have key: "list_all scalar ?k" "text_trim ?k \<noteq> []" "importPublicKey cr ?k = Some (kp_publicKey client)"
    "deriveSharedKey cr (kp_secretKey daemon) (kp_publicKey client) = Some k"
    using assms exported_key [of cr "kp_publicKey client"] key_read by (simp_all add: agreed_def)
  show ?thesis
    unfolding handleHello_def hello_of_def text_message_kind hello_read(2) [OF key(1)]
    by (simp add: hello_facts [OF key(2)] key)
qed

lemma hello_repeated:
  assumes "agreed cr client daemon k" "open_with k ch" "ec_daemonKeyPair ch = Some daemon"
  shows "handleMessage cr (message_of (hello_of cr client)) ch = (ch, [Sent (ready_text True)])"
proof -
  let ?k = "cr_fromByteArray cr (kp_publicKey client)"
  have key: "list_all scalar ?k" "text_trim ?k \<noteq> []" "importPublicKey cr ?k = Some (kp_publicKey client)"
    "deriveSharedKey cr (kp_secretKey daemon) (kp_publicKey client) = Some k"
    using assms(1) exported_key [of cr "kp_publicKey client"] key_read by (simp_all add: agreed_def)
  have "handleDaemonRehello cr ?k daemon ch = Some (ch, [Sent (ready_text True)])"
    using assms(2) key by (simp add: handleDaemonRehello_def keysEqual_refl open_with_def same_keys_def new_channel_def)
  then show ?thesis
    using assms(2,3) unfolding handleMessage_def handle_open_def hello_of_def hello_read(1) [OF key(1)]
    by (simp add: hello_facts [OF key(2)] open_with_def)
qed

lemma ready_opens:
  assumes "ec_state ch = Handshaking"
  shows "handleMessage cr (message_of (ready_text b)) ch =
    (ch\<lparr>ec_binaryCiphertext := b, ec_state := Open, ec_flushing := ec_pendingSends ch, ec_pendingSends := []\<rparr>, [Opened])"
  using assms unfolding handleMessage_def handle_handshaking_def text_message_kind ready_read(2)
  by (simp add: ready_facts)

lemma ready_repeated: "ec_state ch = Open \<Longrightarrow> handleMessage cr (message_of (ready_text b)) ch = (ch, [])"
  unfolding handleMessage_def handle_open_def ready_read(1) by (simp add: ready_facts)

definition client_ok :: "bytes \<Rightarrow> EncryptedChannel \<Rightarrow> bool" where
  "client_ok k c =
     ((ec_state c = Handshaking \<and> ec_sharedKey c = k \<and> ec_flushing c = [] \<or> open_with k c)
      \<and> list_all payload_ok (ec_pendingSends c @ ec_flushing c))"

definition daemon_ok :: "bytes \<Rightarrow> KeyPair \<Rightarrow> daemon_end \<Rightarrow> bool" where
  "daemon_ok k kp d =
     (case d of
        Waiting \<Rightarrow> True
      | Replying ch _ \<Rightarrow> ch = new_channel k (Some kp) True
      | Running ch \<Rightarrow> open_with k ch \<and> ec_daemonKeyPair ch = Some kp
      | RefusedHello \<Rightarrow> False)"

definition up_ok :: "crypto \<Rightarrow> bytes \<Rightarrow> payload \<Rightarrow> bool \<Rightarrow> TransportMessage list \<Rightarrow> bool" where
  "up_ok cr k hello opened ms = (\<forall>m\<in>set ms. m = message_of hello \<or> opened \<and> app_frame cr k m)"

definition down_ok :: "crypto \<Rightarrow> bytes \<Rightarrow> TransportMessage list \<Rightarrow> bool" where
  "down_ok cr k ms = (\<forall>m\<in>set ms. m = message_of (ready_text True) \<or> app_frame cr k m)"

text \<open>Before the client has opened, everything it has sent is a hello and, once the daemon has read one,
  the next frame it receives is the reply.\<close>

definition handshake_ok :: "link \<Rightarrow> bool" where
  "handshake_ok l =
     (if isOpen (li_client l) then li_daemon l \<noteq> Waiting
      else if li_daemon l = Waiting then li_down l = []
      else \<exists>ms. li_down l = message_of (ready_text True) # ms)"

definition link_ok :: "crypto \<Rightarrow> bytes \<Rightarrow> KeyPair \<Rightarrow> payload \<Rightarrow> link \<Rightarrow> bool" where
  "link_ok cr k kp hello l =
     (client_ok k (li_client l) \<and> daemon_ok k kp (li_daemon l) \<and> handshake_ok l
      \<and> up_ok cr k hello (isOpen (li_client l)) (buffered (li_daemon l) @ li_up l) \<and> down_ok cr k (li_down l)
      \<and> li_sent_up l = li_got_up l @ flying cr k (buffered (li_daemon l) @ li_up l)
      \<and> li_sent_down l = li_got_down l @ flying cr k (li_down l) \<and> li_closed l = [])"

lemmas link_defs = link_ok_def handshake_ok_def up_ok_def down_ok_def

lemma all_open:
  assumes "agreed cr client daemon k" "open_with k ch"
  shows "up_ok cr k (hello_of cr client) opened ms \<Longrightarrow>
    \<exists>outs. handle_all cr ms ch = (ch, outs) \<and> delivered outs = flying cr k ms \<and> frames outs = [] \<and> closings outs = []"
proof (induction ms)
  case (Cons m ms)
  then obtain outs where outs: "handle_all cr ms ch = (ch, outs)" "delivered outs = flying cr k ms" "frames outs = []"
    "closings outs = []"
    by (auto simp: up_ok_def)
  have ok: "crypto_ok cr" using assms(1) by (simp add: agreed_def)
  from Cons.prems consider "m = message_of (hello_of cr client)" | p where "sealed_frame cr k m p"
    by (auto simp: up_ok_def app_frame_def)
  then show ?case
  proof cases
    case 1
    with outs hello_plain [OF assms(1)] show ?thesis by (simp add: flying_plain)
  next
    case 2
    then have "\<not> shouldIgnorePostHelloPlaintext m"
      using sealed_opens(3) [OF ok] by (metis open_with_def assms(2))
    with outs sealed_arrives [OF ok 2 assms(2)] flying_sealed [OF ok 2] show ?thesis by simp
  qed
qed simp

lemma tick_ok:
  assumes "agreed cr client daemon k" "link_ok cr k daemon (hello_of cr client) l"
  shows "link_ok cr k daemon (hello_of cr client) (l\<lparr>li_up := li_up l @ frames (hello_tick (hello_of cr client) (li_client l))\<rparr>)"
  using assms hello_plain [OF assms(1)] by (auto simp: link_defs hello_tick_def flying_plain)

lemma client_handshaking: "client_ok k c \<Longrightarrow> \<not> isOpen c \<Longrightarrow> ec_state c = Handshaking \<and> ec_sharedKey c = k \<and> ec_flushing c = []"
  by (auto simp: client_ok_def open_with_def isOpen_def)

lemma client_open: "client_ok k c \<Longrightarrow> isOpen c \<Longrightarrow> open_with k c"
  by (auto simp: client_ok_def isOpen_def)

lemma handshake_only_client:
  "isOpen c = isOpen (li_client l) \<Longrightarrow> handshake_ok (l\<lparr>li_client := c, li_up := up, li_sent_up := s\<rparr>) = handshake_ok l"
  by (simp add: handshake_ok_def)

lemma list_all_tl: "list_all P xs \<Longrightarrow> list_all P (tl xs)"
  by (cases xs) auto

lemma client_sends_ok:
  assumes "agreed cr client daemon k" "link_ok cr k daemon hello l" "length n = NONCE_LENGTH" "payload_ok p"
    and send: "channel_send cr n p (li_client l) = Some (c, outs)"
  shows "link_ok cr k daemon hello
    (l\<lparr>li_client := c, li_up := li_up l @ frames outs, li_sent_up := li_sent_up l @ (if isOpen (li_client l) then [p] else [])\<rparr>)"
proof (cases "isOpen (li_client l)")
  case True
  have "crypto_ok cr" using assms(1) by (simp add: agreed_def)
  moreover have "open_with k (li_client l)" using True assms(2) client_open by (simp add: link_ok_def)
  with send_open [OF _ assms(3,4) send] obtain m where "c = li_client l" "frames outs = [m]" "sealed_frame cr k m p" by blast
  ultimately show ?thesis
    using assms(2) True by (auto simp: link_defs flying_sealed app_frame_def)
next
  case False
  then have "ec_state (li_client l) = Handshaking" "client_ok k (li_client l)" using assms(2) client_handshaking
    by (auto simp: link_ok_def)
  with send assms(4) have "outs = []" "isOpen c = isOpen (li_client l)" "client_ok k c"
    by (auto simp: channel_send_def isOpen_def client_ok_def open_with_def list_all_tl split: if_splits)
  with assms(2) False show ?thesis by (simp add: link_defs)
qed

lemma client_flushes_ok:
  assumes "agreed cr client daemon k" "link_ok cr k daemon hello l" "length n = NONCE_LENGTH"
    and flush: "flush_next cr n True (li_client l) = (c, outs)"
  shows "link_ok cr k daemon hello
    (l\<lparr>li_client := c, li_up := li_up l @ frames outs, li_closed := li_closed l @ closings outs,
       li_sent_up := li_sent_up l @ take 1 (ec_flushing (li_client l))\<rparr>)"
proof (cases "ec_flushing (li_client l)")
  case Nil
  with flush assms(2) show ?thesis by (auto simp: flush_next_def link_defs)
next
  case (Cons p rest)
  have c: "client_ok k (li_client l)" using assms(2) by (simp add: link_ok_def)
  with Cons have opened: "open_with k (li_client l)" "payload_ok p" "isOpen (li_client l)"
    by (auto simp: client_ok_def isOpen_def open_with_def)
  let ?c = "li_client l\<lparr>ec_flushing := rest\<rparr>"
  have next_open: "open_with k ?c" using opened(1) by (simp add: open_with_def same_keys_def)
  then have "channel_send cr n p ?c = Some (?c, [Sent (sealed cr ?c n p)])"
    by (simp add: channel_send_def open_with_def)
  from this send_open [OF next_open assms(3) opened(2) this] flush Cons
  obtain m where "c = ?c" "frames outs = [m]" "sealed_frame cr k m p" "closings outs = []"
    by (auto simp: flush_next_def)
  moreover have "client_ok k ?c" "isOpen ?c" using c Cons next_open by (auto simp: client_ok_def isOpen_def open_with_def)
  moreover have "crypto_ok cr" using assms(1) by (simp add: agreed_def)
  ultimately show ?thesis
    using assms(2) Cons opened(3) by (auto simp: link_defs flying_sealed app_frame_def)
qed

lemma daemon_sends_ok:
  assumes "agreed cr client daemon k" "link_ok cr k daemon hello l" "length n = NONCE_LENGTH" "payload_ok p"
    and "li_daemon l = Running ch" "channel_send cr n p ch = Some (ch', outs)"
  shows "link_ok cr k daemon hello
    (l\<lparr>li_daemon := Running ch', li_down := li_down l @ frames outs, li_sent_down := li_sent_down l @ (if isOpen ch then [p] else [])\<rparr>)"
proof -
  have ch: "open_with k ch" "crypto_ok cr" using assms by (auto simp: link_ok_def daemon_ok_def agreed_def)
  then have "isOpen ch" by (simp add: open_with_def isOpen_def)
  moreover from send_open [OF ch(1) assms(3,4,6)] obtain m where "ch' = ch" "frames outs = [m]" "sealed_frame cr k m p" by blast
  ultimately show ?thesis
    using assms(2,5) ch by (auto simp: link_defs flying_sealed app_frame_def buffered_def)
qed

lemma up_hello_ok:
  assumes "agreed cr client daemon k" "link_ok cr k daemon (hello_of cr client) l"
    and up: "li_up l = message_of (hello_of cr client) # ms"
    and recv: "daemon_receive cr daemon (message_of (hello_of cr client)) (li_daemon l) = (d, outs)"
  shows "link_ok cr k daemon (hello_of cr client)
    (l\<lparr>li_daemon := d, li_up := ms, li_down := li_down l @ frames outs,
       li_got_up := li_got_up l @ delivered outs, li_closed := li_closed l @ closings outs\<rparr>)"
proof (cases "li_daemon l")
  case Waiting
  with recv hello_answered [OF assms(1)] have "d = Replying (new_channel k (Some daemon) True) []" "outs = [Sent (ready_text True)]"
    by (auto simp: daemon_receive_def)
  with assms(2) Waiting up hello_plain [OF assms(1)] ready_read(1) [of True] show ?thesis
    by (auto simp: link_defs daemon_ok_def buffered_def flying_plain split: if_splits)
next
  case (Replying ch b)
  with recv have "d = Replying ch (b @ [message_of (hello_of cr client)])" "outs = []" by (auto simp: daemon_receive_def)
  with assms(2) Replying up hello_plain [OF assms(1)] show ?thesis
    by (auto simp: link_defs daemon_ok_def buffered_def flying_plain split: if_splits)
next
  case (Running ch)
  then have ch: "open_with k ch" "ec_daemonKeyPair ch = Some daemon" using assms(2) by (auto simp: link_ok_def daemon_ok_def)
  with recv Running hello_repeated [OF assms(1) ch] have "d = Running ch" "outs = [Sent (ready_text True)]"
    by (auto simp: daemon_receive_def)
  with assms(2) Running up hello_plain [OF assms(1)] ready_read(1) [of True] show ?thesis
    by (auto simp: link_defs daemon_ok_def buffered_def flying_plain split: if_splits)
next
  case RefusedHello
  with assms(2) show ?thesis by (simp add: link_ok_def daemon_ok_def)
qed

lemma up_sealed_ok:
  assumes "agreed cr client daemon k" "link_ok cr k daemon hello l"
    and up: "li_up l = m # ms" and m: "isOpen (li_client l)" "sealed_frame cr k m p"
    and recv: "daemon_receive cr daemon m (li_daemon l) = (d, outs)"
  shows "link_ok cr k daemon hello
    (l\<lparr>li_daemon := d, li_up := ms, li_down := li_down l @ frames outs,
       li_got_up := li_got_up l @ delivered outs, li_closed := li_closed l @ closings outs\<rparr>)"
proof -
  have ok: "crypto_ok cr" using assms(1) by (simp add: agreed_def)
  show ?thesis
  proof (cases "li_daemon l")
    case Waiting
    with assms(2) m(1) show ?thesis by (simp add: link_defs)
  next
    case (Replying ch b)
    with recv have "d = Replying ch (b @ [m])" "outs = []" by (auto simp: daemon_receive_def)
    with assms(2) Replying up m ok show ?thesis
      by (auto simp: link_defs daemon_ok_def buffered_def flying_sealed split: if_splits)
  next
    case (Running ch)
    then have ch: "open_with k ch" "ec_daemonKeyPair ch = Some daemon" using assms(2) by (auto simp: link_ok_def daemon_ok_def)
    with recv Running sealed_arrives [OF ok m(2) ch(1)] have "d = Running ch" "outs = [Delivered p]"
      by (auto simp: daemon_receive_def)
    with assms(2) Running up m ok show ?thesis
      by (auto simp: link_defs daemon_ok_def buffered_def flying_sealed split: if_splits)
  next
    case RefusedHello
    with assms(2) show ?thesis by (simp add: link_ok_def daemon_ok_def)
  qed
qed

lemma replies_ok:
  assumes "agreed cr client daemon k" "link_ok cr k daemon (hello_of cr client) l"
    and replied: "daemon_replied cr (li_daemon l) = (d, outs)"
  shows "link_ok cr k daemon (hello_of cr client)
    (l\<lparr>li_daemon := d, li_down := li_down l @ frames outs,
       li_got_up := li_got_up l @ delivered outs, li_closed := li_closed l @ closings outs\<rparr>)"
proof (cases "\<exists>ch b. li_daemon l = Replying ch b")
  case True
  then obtain ch b where d: "li_daemon l = Replying ch b" by auto
  with assms(2) have "ch = new_channel k (Some daemon) True" by (simp add: link_ok_def daemon_ok_def)
  then have opened: "open_with k (ch\<lparr>ec_state := Open\<rparr>)" "ec_daemonKeyPair ch = Some daemon"
    by (simp_all add: open_with_def new_channel_def same_keys_def)
  have "up_ok cr k (hello_of cr client) (isOpen (li_client l)) b" using assms(2) d by (auto simp: link_defs buffered_def)
  from all_open [OF assms(1) opened(1) this] d replied obtain outs' where
    "d = Running (ch\<lparr>ec_state := Open\<rparr>)" "outs = Opened # outs'" "delivered outs' = flying cr k b" "frames outs' = []" "closings outs' = []"
    by (auto simp: daemon_replied_def)
  with assms(2) d opened show ?thesis by (auto simp: link_defs daemon_ok_def buffered_def)
next
  case False
  with replied have "d = li_daemon l" "outs = []" by (auto simp: daemon_replied_def split: daemon_end.splits)
  with assms(2) show ?thesis by (auto simp: link_defs)
qed

lemma down_ready_ok:
  assumes "agreed cr client daemon k" "link_ok cr k daemon hello l"
    and down: "li_down l = message_of (ready_text True) # ms"
    and recv: "handleMessage cr (message_of (ready_text True)) (li_client l) = (c, outs)"
  shows "link_ok cr k daemon hello
    (l\<lparr>li_client := c, li_down := ms, li_up := li_up l @ frames outs,
       li_got_down := li_got_down l @ delivered outs, li_closed := li_closed l @ closings outs\<rparr>)"
proof (cases "isOpen (li_client l)")
  case True
  with recv ready_repeated [of "li_client l" cr True] have "c = li_client l" "outs = []" by (auto simp: isOpen_def)
  with assms(2) True down ready_read(1) [of True] show ?thesis by (auto simp: link_defs flying_plain)
next
  case False
  have client: "client_ok k (li_client l)" "li_daemon l \<noteq> Waiting"
    using assms(2) down False by (auto simp: link_defs)
  note hs = client_handshaking [OF client(1) False]
  let ?c = "(li_client l)\<lparr>ec_binaryCiphertext := True, ec_state := Open, ec_flushing := ec_pendingSends (li_client l), ec_pendingSends := []\<rparr>"
  have c: "c = ?c" "outs = [Opened]" using recv ready_opens [of "li_client l" cr True] hs by auto
  have opened: "client_ok k ?c" "isOpen ?c"
    using hs client(1) by (auto simp: client_ok_def open_with_def same_keys_def new_channel_def isOpen_def)
  have "up_ok cr k hello True (buffered (li_daemon l) @ li_up l)" using assms(2) by (auto simp: link_defs)
  moreover have "down_ok cr k ms" "flying cr k (li_down l) = flying cr k ms"
    using assms(2) down ready_read(1) [of True] by (auto simp: link_defs flying_plain)
  ultimately show ?thesis
    using assms(2) c opened client by (simp add: link_ok_def handshake_ok_def)
qed

lemma down_sealed_ok:
  assumes "agreed cr client daemon k" "link_ok cr k daemon hello l"
    and down: "li_down l = m # ms" and m: "sealed_frame cr k m p"
    and recv: "handleMessage cr m (li_client l) = (c, outs)"
  shows "link_ok cr k daemon hello
    (l\<lparr>li_client := c, li_down := ms, li_up := li_up l @ frames outs,
       li_got_down := li_got_down l @ delivered outs, li_closed := li_closed l @ closings outs\<rparr>)"
proof -
  have ok: "crypto_ok cr" using assms(1) by (simp add: agreed_def)
  have "plain_json m = None" using sealed_opens(2) [OF ok m same_keys_refl(1)] .
  then have "m \<noteq> message_of (ready_text True)" using ready_read(1) [of True] by auto
  then have opened: "isOpen (li_client l)"
    using assms(2) down by (auto simp: link_ok_def handshake_ok_def split: if_splits)
  then have "open_with k (li_client l)" using assms(2) client_open by (simp add: link_ok_def)
  with recv sealed_arrives [OF ok m] have "c = li_client l" "outs = [Delivered p]" by auto
  with assms(2) opened down flying_sealed [OF ok m] show ?thesis by (auto simp: link_defs)
qed

lemma link_step_ok:
  assumes "agreed cr client daemon k" "link_ok cr k daemon (hello_of cr client) l" "link_step cr daemon (hello_of cr client) l l'"
  shows "link_ok cr k daemon (hello_of cr client) l'"
  using assms(3)
proof cases
  case HelloTick
  then show ?thesis using tick_ok [OF assms(1,2)] by simp
next
  case (ClientSends n p c outs)
  then show ?thesis using client_sends_ok [OF assms(1,2)] by simp
next
  case (ClientFlushes n c outs)
  then show ?thesis using client_flushes_ok [OF assms(1,2)] by simp
next
  case (DaemonSends n p ch ch' outs)
  then show ?thesis using daemon_sends_ok [OF assms(1,2)] by simp
next
  case (UpArrives m ms d outs)
  then have "m = message_of (hello_of cr client) \<or> isOpen (li_client l) \<and> (\<exists>p. sealed_frame cr k m p)"
    using assms(2) by (auto simp: link_defs app_frame_def)
  with UpArrives show ?thesis
    using up_hello_ok [OF assms(1,2)] up_sealed_ok [OF assms(1,2)] by metis
next
  case (DaemonReplies d outs)
  then show ?thesis using replies_ok [OF assms(1,2)] by simp
next
  case (DownArrives m ms c outs)
  then have "m = message_of (ready_text True) \<or> (\<exists>p. sealed_frame cr k m p)"
    using assms(2) by (auto simp: link_defs app_frame_def)
  with DownArrives show ?thesis
    using down_ready_ok [OF assms(1,2)] down_sealed_ok [OF assms(1,2)] by metis
qed

lemma link_start_ok: "agreed cr client daemon k \<Longrightarrow>
    link_ok cr k daemon (hello_of cr client) (link_start (new_channel k None False) (hello_of cr client))"
  using hello_plain [of cr client daemon k]
  by (simp add: link_defs link_start_def client_ok_def daemon_ok_def new_channel_def isOpen_def buffered_def
      flying_plain)

lemma link_reaches_ok:
  "(link_step cr daemon (hello_of cr client))\<^sup>*\<^sup>* l l' \<Longrightarrow> agreed cr client daemon k \<Longrightarrow>
    link_ok cr k daemon (hello_of cr client) l \<Longrightarrow> link_ok cr k daemon (hello_of cr client) l'"
  by (induction rule: rtranclp_induct) (auto intro: link_step_ok)

section \<open>Sessions one after the other\<close>

text \<open>A daemon serves every connection with a fresh end and the same key pair.\<close>

fun receive_all :: "crypto \<Rightarrow> KeyPair \<Rightarrow> TransportMessage list \<Rightarrow> daemon_end \<Rightarrow> daemon_end \<times> channel_out list" where
  "receive_all cr kp [] d = (d, [])"
| "receive_all cr kp (m # ms) d =
     (case daemon_receive cr kp m d of (d', outs) \<Rightarrow>
      case receive_all cr kp ms d' of (d'', outs') \<Rightarrow> (d'', outs @ outs'))"

definition daemon_session :: "crypto \<Rightarrow> KeyPair \<Rightarrow> TransportMessage list \<Rightarrow> channel_out list" where
  "daemon_session cr kp ms =
     (case receive_all cr kp (take 1 ms) Waiting of (d, o1) \<Rightarrow>
      case daemon_replied cr d of (d', o2) \<Rightarrow> o1 @ o2 @ snd (receive_all cr kp (drop 1 ms) d'))"

lemma sealed_received:
  assumes "crypto_ok cr" "open_with k ch"
  shows "list_all2 (sealed_frame cr k) ms ps \<Longrightarrow> receive_all cr kp ms (Running ch) = (Running ch, map Delivered ps)"
proof (induction rule: list_all2_induct)
  case (Cons m ms p ps)
  with sealed_arrives [OF assms(1) Cons(1) assms(2)] show ?case by (simp add: daemon_receive_def)
qed simp

lemma session_delivers:
  assumes "agreed cr client daemon k" "list_all2 (sealed_frame cr k) ms ps"
  shows "daemon_session cr daemon (message_of (hello_of cr client) # ms) = [Sent (ready_text True), Opened] @ map Delivered ps"
proof -
  let ?ch = "(new_channel k (Some daemon) True)\<lparr>ec_state := Open\<rparr>"
  have "crypto_ok cr" "open_with k ?ch" using assms(1) by (simp_all add: agreed_def open_with_def same_keys_def new_channel_def)
  from sealed_received [OF this assms(2)] show ?thesis
    using hello_answered [OF assms(1)] by (simp add: daemon_session_def daemon_receive_def daemon_replied_def)
qed

lemma delivered_map [simp]: "delivered (map Delivered ps) = ps"
  by (induction ps) auto

section \<open>Lengths\<close>

lemma wire_length:
  assumes "crypto_ok cr" "length n = NONCE_LENGTH"
  shows "int (case sealed cr ch n p of TextData s \<Rightarrow> length s | BinaryData b \<Rightarrow> length b) = outboundWireByteLength p ch"
proof -
  have len: "length (seal cr k n q) = length (toUint8 q) + 40" for k q
    using crypto_okD(2) [OF assms(1)] assms(2) by (simp add: seal_def NONCE_LENGTH_def)
  show ?thesis
    using crypto_okD(5) [OF assms(1)]
    by (cases p) (simp_all add: sealed_def Let_def len outboundWireByteLength_def base64EncryptedWireByteLength_def
        ENCRYPTED_PAYLOAD_OVERHEAD_BYTES_def zdiv_int)
qed

lemma length_maximal:
  "base64EncryptedWireByteLength p \<le> w \<longleftrightarrow> p \<le> maxBase64EncryptedPlaintextByteLength w"
proof -
  define q where "q = (p + 42) div 3"
  define v where "v = w div 4"
  have "3 * q \<le> p + 42" "p + 42 < 3 * q + 3" "4 * v \<le> w" "w < 4 * v + 4" unfolding q_def v_def by linarith+
  then have "4 * q \<le> w \<longleftrightarrow> q \<le> v" "q \<le> v \<longleftrightarrow> p \<le> v * 3 - 40" by auto
  then have "4 * q \<le> w \<longleftrightarrow> p \<le> v * 3 - 40" by simp
  then show ?thesis
    by (simp add: base64EncryptedWireByteLength_def maxBase64EncryptedPlaintextByteLength_def
        ENCRYPTED_PAYLOAD_OVERHEAD_BYTES_def q_def v_def add.assoc)
qed

section \<open>A run of the handshake\<close>

definition running_link :: "KeyPair \<Rightarrow> bytes \<Rightarrow> link" where
  "running_link daemon k =
     \<lparr>li_client = (new_channel k None True)\<lparr>ec_state := Open\<rparr>, li_daemon = Running ((new_channel k (Some daemon) True)\<lparr>ec_state := Open\<rparr>),
      li_up = [], li_down = [], li_sent_up = [], li_got_up = [], li_sent_down = [], li_got_down = [], li_closed = []\<rparr>"

lemma handshake_completes:
  assumes "agreed cr client daemon k"
  shows "(link_step cr daemon (hello_of cr client))\<^sup>*\<^sup>* (link_start (new_channel k None False) (hello_of cr client)) (running_link daemon k)"
proof -
  let ?step = "link_step cr daemon (hello_of cr client)"
  let ?l0 = "link_start (new_channel k None False) (hello_of cr client)"
  let ?l1 = "?l0\<lparr>li_daemon := Replying (new_channel k (Some daemon) True) [], li_up := [], li_down := [message_of (ready_text True)]\<rparr>"
  let ?l2 = "?l1\<lparr>li_daemon := Running ((new_channel k (Some daemon) True)\<lparr>ec_state := Open\<rparr>)\<rparr>"
  have "daemon_receive cr daemon (message_of (hello_of cr client)) (li_daemon ?l0)
    = (Replying (new_channel k (Some daemon) True) [], [Sent (ready_text True)])"
    using hello_answered [OF assms] by (simp add: daemon_receive_def link_start_def)
  from UpArrives [OF _ this, of "[]" "hello_of cr client"] have s1: "?step ?l0 ?l1" by (simp add: link_start_def)
  have "daemon_replied cr (li_daemon ?l1) = (Running ((new_channel k (Some daemon) True)\<lparr>ec_state := Open\<rparr>), [Opened])"
    by (simp add: daemon_replied_def)
  from DaemonReplies [OF this, of daemon "hello_of cr client"] have s2: "?step ?l1 ?l2" by (simp add: link_start_def)
  have "handleMessage cr (message_of (ready_text True)) (li_client ?l2)
    = ((new_channel k None True)\<lparr>ec_state := Open\<rparr>, [Opened])"
    by (simp add: link_start_def ready_opens new_channel_def)
  from DownArrives [OF _ this, of "[]" daemon "hello_of cr client"] have s3: "?step ?l2 (running_link daemon k)"
    by (simp add: link_start_def running_link_def)
  from s1 s2 s3 show ?thesis by (meson converse_rtranclp_into_rtranclp r_into_rtranclp)
qed

lemma first_message:
  fixes n :: bytes
  assumes "agreed cr client daemon k" "length n = NONCE_LENGTH" "payload_ok p"
  shows "(link_step cr daemon (hello_of cr client))\<^sup>*\<^sup>* (link_start (new_channel k None False) (hello_of cr client))
    (running_link daemon k\<lparr>li_sent_up := [p], li_got_up := [p]\<rparr>)"
proof -
  let ?step = "link_step cr daemon (hello_of cr client)"
  let ?l0 = "running_link daemon k"
  let ?c = "li_client ?l0"
  let ?d = "(new_channel k (Some daemon) True)\<lparr>ec_state := Open\<rparr>"
  let ?m = "message_of (sealed cr ?c n p)"
  let ?l1 = "?l0\<lparr>li_up := [?m], li_sent_up := [p]\<rparr>"
  have send: "channel_send cr n p ?c = Some (?c, [Sent (sealed cr ?c n p)])" "isOpen ?c"
    by (simp_all add: running_link_def channel_send_def isOpen_def)
  from ClientSends [OF assms(2,3) send(1), of daemon "hello_of cr client"] send(2) have s1: "?step ?l0 ?l1"
    by (simp add: running_link_def)
  have "sealed_frame cr k ?m p"
    using assms(2,3) sealed_cong [of ?c "new_channel k None True"]
    by (auto simp: sealed_frame_def running_link_def same_keys_def)
  moreover have "crypto_ok cr" "open_with k ?d" using assms(1) by (simp_all add: agreed_def open_with_def same_keys_def new_channel_def)
  ultimately have "daemon_receive cr daemon ?m (li_daemon ?l1) = (Running ?d, [Delivered p])"
    using sealed_arrives by (simp add: daemon_receive_def running_link_def)
  from UpArrives [OF _ this, of "[]" "hello_of cr client"] have s2: "?step ?l1 (?l0\<lparr>li_sent_up := [p], li_got_up := [p]\<rparr>)"
    by (simp add: running_link_def)
  from handshake_completes [OF assms(1)] s1 s2 show ?thesis by (meson rtranclp.rtrancl_into_rtrancl)
qed

section \<open>A lawful instance\<close>

text \<open>Base 64 and, in place of curve25519 and the secret box, a sum of keys and a keyed tag: enough to
  show that what is assumed of the libraries can hold.\<close>

definition b64_symbol :: "nat \<Rightarrow> nat" where
  "b64_symbol n = (if n < 26 then 65 + n else if n < 52 then 71 + n else if n < 62 then n - 4 else if n = 62 then 43 else 47)"

definition b64_index :: "nat \<Rightarrow> nat" where
  "b64_index c = (if 65 \<le> c \<and> c \<le> 90 then c - 65 else if 97 \<le> c \<and> c \<le> 122 then c - 71
     else if 48 \<le> c \<and> c \<le> 57 then c + 4 else if c = 43 then 62 else 63)"

fun b64_encode :: "nat list \<Rightarrow> codes" where
  "b64_encode (a # b # c # s) =
     [b64_symbol (a div 4), b64_symbol (a mod 4 * 16 + b div 16), b64_symbol (b mod 16 * 4 + c div 64), b64_symbol (c mod 64)]
     @ b64_encode s"
| "b64_encode [a, b] = [b64_symbol (a div 4), b64_symbol (a mod 4 * 16 + b div 16), b64_symbol (b mod 16 * 4), 61]"
| "b64_encode [a] = [b64_symbol (a div 4), b64_symbol (a mod 4 * 16), 61, 61]"
| "b64_encode [] = []"

fun b64_decode :: "codes \<Rightarrow> nat list option" where
  "b64_decode [] = Some []"
| "b64_decode (p # q # r # s # t) =
     (if r = 61 then Some [b64_index p * 4 + b64_index q div 16]
      else if s = 61 then Some [b64_index p * 4 + b64_index q div 16, b64_index q mod 16 * 16 + b64_index r div 4]
      else map_option (\<lambda>bs. [b64_index p * 4 + b64_index q div 16, b64_index q mod 16 * 16 + b64_index r div 4,
             b64_index r mod 4 * 64 + b64_index s] @ bs) (b64_decode t))"
| "b64_decode _ = None"

lemma b64_symbol [simp]: "n < 64 \<Longrightarrow> b64_index (b64_symbol n) = n" "n < 64 \<Longrightarrow> b64_symbol n \<noteq> 61"
  "n < 64 \<Longrightarrow> base64_char (b64_symbol n)"
  by (auto simp: b64_symbol_def b64_index_def base64_char_def)

lemma b64_bounds:
  fixes a b :: nat
  assumes "a < 256" "b < 256"
  shows "a div 4 < 64" "a mod 4 * 16 + b div 16 < 64" "a mod 16 * 4 + b div 64 < 64"
    "a mod 4 * 16 < 64" "a mod 16 * 4 < 64" "a mod 64 < 64"
proof -
  have "a mod 4 < 4" "b div 16 < 16" "a mod 16 < 16" "b div 64 < 4" using assms by auto
  then show "a mod 4 * 16 + b div 16 < 64" "a mod 16 * 4 + b div 64 < 64" "a mod 4 * 16 < 64" "a mod 16 * 4 < 64"
    by linarith+
  show "a div 4 < 64" "a mod 64 < 64" using assms by auto
qed

lemma b64_join:
  fixes a b :: nat
  assumes "b < 256"
  shows "a div 4 * 4 + (a mod 4 * 16 + b div 16) div 16 = a" "(a mod 4 * 16 + b div 16) mod 16 * 16 + b mod 16 = b"
    "(a mod 16 * 4 + b div 64) div 4 = a mod 16" "(a mod 16 * 4 + b div 64) mod 4 * 64 + b mod 64 = b"
proof -
  have "b div 16 < 16" "b div 64 < 4" using assms by auto
  then show "a div 4 * 4 + (a mod 4 * 16 + b div 16) div 16 = a" "(a mod 4 * 16 + b div 16) mod 16 * 16 + b mod 16 = b"
    "(a mod 16 * 4 + b div 64) div 4 = a mod 16" "(a mod 16 * 4 + b div 64) mod 4 * 64 + b mod 64 = b"
    by simp_all
qed

lemma b64_decode_four:
  assumes "w < 64" "x < 64" "y < 64" "z < 64"
  shows "b64_decode ([b64_symbol w, b64_symbol x, b64_symbol y, b64_symbol z] @ t)
    = map_option (\<lambda>bs. [w * 4 + x div 16, x mod 16 * 16 + y div 4, y mod 4 * 64 + z] @ bs) (b64_decode t)"
  using assms by (cases "b64_decode t") simp_all

lemma b64_round: "list_all (\<lambda>n. n < 256) s \<Longrightarrow> b64_decode (b64_encode s) = Some s"
proof (induction s rule: b64_encode.induct)
  case (1 a b c s)
  then have "b64_decode (b64_encode s) = Some s" by simp
  moreover have small: "a < 256" "b < 256" "c < 256" using 1 by auto
  ultimately show ?case
    unfolding b64_encode.simps b64_decode_four [OF b64_bounds(1) [OF small(1,2)] b64_bounds(2) [OF small(1,2)]
        b64_bounds(3) [OF small(2,3)] b64_bounds(6) [OF small(3,3)]]
    by (simp only: b64_join [OF small(2)] b64_join [OF small(3)] option.map append.simps)
next
  case (2 a b)
  then have small: "a < 256" "b < 256" by auto
  have "b mod 16 * 4 div 4 = b mod 16" by simp
  then show ?case
    using b64_bounds(1,2) [OF small] b64_bounds(5) [OF small(2,2)]
    by (simp only: b64_encode.simps b64_decode.simps b64_symbol if_False if_True simp_thms b64_join [OF small(2)])
next
  case (3 a)
  then have small: "a < 256" by auto
  have "a div 4 * 4 + a mod 4 * 16 div 16 = a" by simp
  then show ?case
    using b64_bounds(1,4) [OF small small]
    by (simp only: b64_encode.simps b64_decode.simps b64_symbol if_False if_True simp_thms)
qed simp

lemma b64_form: "list_all (\<lambda>n. n < 256) s \<Longrightarrow> base64_form (b64_encode s) \<and> length (b64_encode s) = 4 * ((length s + 2) div 3)"
proof (induction s rule: b64_encode.induct)
  case (1 a b c s)
  then have small: "a < 256" "b < 256" "c < 256" by auto
  have "base64_char (b64_symbol (a div 4))" "base64_char (b64_symbol (a mod 4 * 16 + b div 16))"
    "base64_char (b64_symbol (b mod 16 * 4 + c div 64))" "base64_char (b64_symbol (c mod 64))"
    using b64_bounds small by (simp_all only: b64_symbol(3))
  moreover have "(5 + length s) div 3 = Suc (Suc (Suc (length s)) div 3)" by presburger
  ultimately show ?case using 1 by (simp add: base64_form_def)
next
  case (2 a b)
  then have small: "a < 256" "b < 256" by auto
  have "base64_char (b64_symbol (a div 4))" "base64_char (b64_symbol (a mod 4 * 16 + b div 16))"
    "base64_char (b64_symbol (b mod 16 * 4))"
    using b64_bounds small by (simp_all only: b64_symbol(3))
  then show ?case by (simp add: base64_form_def base64_char_def [of 61])
next
  case (3 a)
  then have small: "a < 256" by auto
  have "base64_char (b64_symbol (a div 4))" "base64_char (b64_symbol (a mod 4 * 16))"
    using b64_bounds [OF small small] by (simp_all only: b64_symbol(3))
  then show ?case by (simp add: base64_form_def base64_char_def [of 61])
qed (simp add: base64_form_def)

definition key_tag :: "bytes \<Rightarrow> bytes \<Rightarrow> bytes" where
  "key_tag k n = take 16 (k @ n @ replicate 16 0)"

definition sample_crypto :: crypto where
  "sample_crypto =
     \<lparr>cr_scalarMult = (\<lambda>s p. p), cr_before = (\<lambda>p s. map2 (+) p s),
      cr_after = (\<lambda>p n k. key_tag k n @ p),
      cr_openAfter = (\<lambda>b n k. if take 16 b = key_tag k n then Some (drop 16 b) else None),
      cr_fromByteArray = (\<lambda>b. b64_encode (map unat b)),
      cr_toByteArray = (\<lambda>s. map_option (map byte) (b64_decode s))\<rparr>"

lemma key_tag_length: "length (key_tag k n) = 16"
  by (simp add: key_tag_def)

lemma sample_crypto_ok: "crypto_ok sample_crypto"
proof -
  have small: "list_all (\<lambda>n. n < 256) (map unat b)" for b :: bytes
    using unsigned_less [where ?'a = nat and ?'b = 8] by (auto simp: list_all_iff)
  have "byte (unat x) = x" for x by (simp add: byte_def)
  then have "map (byte \<circ> unat) b = b" for b by (simp add: map_idI)
  with b64_round [OF small] b64_form [OF small] show ?thesis
    by (simp add: crypto_ok_def sample_crypto_def key_tag_length)
qed

definition sample_client :: KeyPair where
  "sample_client = \<lparr>kp_publicKey = replicate 32 1, kp_secretKey = replicate 32 1\<rparr>"

definition sample_daemon :: KeyPair where
  "sample_daemon = \<lparr>kp_publicKey = replicate 32 2, kp_secretKey = replicate 32 2\<rparr>"

lemma sample_agreed: "agreed sample_crypto sample_client sample_daemon (replicate 32 3)"
  using sample_crypto_ok
  by (simp add: agreed_def deriveSharedKey_def sample_client_def sample_daemon_def sample_crypto_def KEY_LENGTH_def zip_replicate
      replicate_eq_replicate)

definition sample_nonce :: bytes where "sample_nonce = replicate 24 7"
definition sample_payload :: payload where "sample_payload = TextData (js ''hi'')"

lemma sample_ok: "length sample_nonce = NONCE_LENGTH" "payload_ok sample_payload"
  by (simp_all add: sample_nonce_def NONCE_LENGTH_def sample_payload_def payload_ok_def js_def scalar_def)

definition sample_frame :: TransportMessage where
  "sample_frame = message_of (sealed sample_crypto (new_channel (replicate 32 3) None True) sample_nonce sample_payload)"

lemma sample_frame_sealed: "sealed_frame sample_crypto (replicate 32 3) sample_frame sample_payload"
  using sample_ok by (auto simp: sealed_frame_def sample_frame_def)

section \<open>Properties\<close>

lemma open_send_overtakes:
  assumes "ec_state ch = Open" "ec_flushing ch = q # qs" "channel_send cr n p ch = Some (ch', o1)"
    and "flush_next cr n' True ch' = (ch'', o2)"
  shows "o1 @ o2 = [Sent (sealed cr ch n p), Sent (sealed cr (ch\<lparr>ec_flushing := qs\<rparr>) n' q)]"
  using assms by (auto simp: channel_send_def flush_next_def)

text \<open>C15. Whatever frames reach a daemon end, and whatever it sends or closes meanwhile, it delivers nothing before it has read a
  hello, and what it delivers was opened, in order and each from another frame that arrived after the hello, under the key that
  its own secret key and the key in that hello determine.\<close>

theorem channel_authentic:
  assumes "daemon_history cr kp ms d outs" "delivered outs \<noteq> []"
  shows "\<exists>ch hello rest v key peer fs.
    d = Running ch \<and> ms = hello # rest \<and> json_parse (decodeTransportText (tm_data hello)) = Some v \<and> helloKey v = Some key
    \<and> importPublicKey cr key = Some peer \<and> deriveSharedKey cr (kp_secretKey kp) peer = Some (ec_sharedKey ch)
    \<and> subseq fs rest \<and> map (\<lambda>m. open_frame cr m ch) fs = map Some (delivered outs)"
proof -
  from history_ok [OF assms(1)] assms(2) obtain ch hello rest fs where
    ch: "d = Running ch" "ms = hello # rest" "keyed_by cr kp hello ch" "subseq fs rest"
      "map (\<lambda>m. open_frame cr m ch) fs = map Some (delivered outs)"
    by (auto simp: end_ok_def opens_as_def split: daemon_end.splits)
  from ch(3) have "\<exists>v key peer. json_parse (decodeTransportText (tm_data hello)) = Some v \<and> helloKey v = Some key
    \<and> importPublicKey cr key = Some peer \<and> deriveSharedKey cr (kp_secretKey kp) peer = Some (ec_sharedKey ch)"
    by (auto simp: keyed_by_def handleHello_def same_keys_def new_channel_def split: if_splits option.splits)
  with ch show ?thesis by blast
qed

text \<open>C16. Between a client and a daemon whose keys agree, over transports that keep order, both ends deliver exactly what the other
  sent, in order and unchanged, as text or as binary: what was sent is what was delivered followed by what is on the way. Repeated
  hellos and replies disturb nothing, and no end closes the connection.\<close>

theorem channel_faithful:
  assumes "agreed cr client daemon k"
    and "createClientChannel cr client (cr_fromByteArray cr (kp_publicKey daemon)) = Some (c, hello)"
    and "(link_step cr daemon hello)\<^sup>*\<^sup>* (link_start c hello) l"
  shows "li_sent_up l = li_got_up l @ flying cr k (buffered (li_daemon l) @ li_up l)
    \<and> li_sent_down l = li_got_down l @ flying cr k (li_down l) \<and> li_closed l = []"
proof -
  have "c = new_channel k None False" "hello = hello_of cr client" using agreed_client [OF assms(1)] assms(2) by simp_all
  with link_reaches_ok [OF _ assms(1) link_start_ok [OF assms(1)]] assms(3)
  have "link_ok cr k daemon (hello_of cr client) l" by simp
  then show ?thesis by (simp add: link_ok_def)
qed

theorem channel_faithful_witness:
  "createClientChannel sample_crypto sample_client (cr_fromByteArray sample_crypto (kp_publicKey sample_daemon))
      = Some (new_channel (replicate 32 3) None False, hello_of sample_crypto sample_client)
   \<and> (\<exists>l. (link_step sample_crypto sample_daemon (hello_of sample_crypto sample_client))\<^sup>*\<^sup>*
          (link_start (new_channel (replicate 32 3) None False) (hello_of sample_crypto sample_client)) l
        \<and> li_got_up l = [sample_payload] \<and> li_sent_up l = li_got_up l @ flying sample_crypto (replicate 32 3) (buffered (li_daemon l) @ li_up l))"
  using agreed_client [OF sample_agreed] first_message [OF sample_agreed sample_ok]
    channel_faithful [OF sample_agreed agreed_client [OF sample_agreed] first_message [OF sample_agreed sample_ok]]
  by (metis (no_types, lifting) link.select_convs(6) link.surjective link.update_convs(6))

lemma sample_history:
  "\<exists>d outs. daemon_history sample_crypto sample_daemon [message_of (hello_of sample_crypto sample_client), sample_frame] d outs
    \<and> delivered outs = [sample_payload]"
proof -
  let ?h = "message_of (hello_of sample_crypto sample_client)"
  let ?c = "(new_channel (replicate 32 3) (Some sample_daemon) True)\<lparr>ec_state := Open\<rparr>"
  have "daemon_history sample_crypto sample_daemon [?h] (Replying (new_channel (replicate 32 3) (Some sample_daemon) True) []) [Sent (ready_text True)]"
    using Arrives [OF Begin, of sample_crypto sample_daemon ?h] hello_answered [OF sample_agreed] by (simp add: daemon_receive_def)
  from Replies [OF this] have "daemon_history sample_crypto sample_daemon [?h] (Running ?c) [Sent (ready_text True), Opened]"
    by (simp add: daemon_replied_def)
  from Arrives [OF this, of sample_frame] sealed_arrives [OF sample_crypto_ok sample_frame_sealed, of ?c]
  have "daemon_history sample_crypto sample_daemon [?h, sample_frame] (Running ?c) [Sent (ready_text True), Opened, Delivered sample_payload]"
    by (simp add: daemon_receive_def open_with_def same_keys_def new_channel_def)
  then show ?thesis by (intro exI conjI) (assumption, simp)
qed

theorem channel_authentic_witness:
  "\<exists>d outs ch hello rest. daemon_history sample_crypto sample_daemon [message_of (hello_of sample_crypto sample_client), sample_frame] d outs
    \<and> delivered outs = [sample_payload] \<and> d = Running ch
    \<and> [message_of (hello_of sample_crypto sample_client), sample_frame] = hello # rest
    \<and> (\<exists>fs. subseq fs rest \<and> map (\<lambda>m. open_frame sample_crypto m ch) fs = [Some sample_payload])"
proof -
  obtain d outs where h: "daemon_history sample_crypto sample_daemon [message_of (hello_of sample_crypto sample_client), sample_frame] d outs"
    "delivered outs = [sample_payload]"
    using sample_history by blast
  with channel_authentic [OF h(1)] show ?thesis by fastforce
qed

text \<open>C35. The daemon adds nothing of its own to a session's key. The frames a client once sent, its hello and the messages sealed
  after it, are delivered again in full when they are presented to the daemon on another connection.\<close>

theorem recorded_session_accepted:
  assumes "agreed cr client daemon k" "list_all2 (sealed_frame cr k) ms ps"
    and "recording = message_of (hello_of cr client) # ms"
  shows "delivered (daemon_session cr daemon recording) = ps
    \<and> delivered (daemon_session cr daemon recording @ daemon_session cr daemon recording) = ps @ ps"
  using session_delivers [OF assms(1,2)] assms(3) by simp

theorem recorded_session_accepted_witness:
  "delivered (daemon_session sample_crypto sample_daemon [message_of (hello_of sample_crypto sample_client), sample_frame]) = [sample_payload]"
  using recorded_session_accepted [OF sample_agreed, of "[sample_frame]" "[sample_payload]"] sample_frame_sealed by simp

text \<open>The length computed for an outgoing message is the length of the frame that is sent, and the largest plaintext computed
  for a frame limit is the largest whose base 64 frame keeps within the limit.\<close>

theorem wire_length_exact:
  assumes "crypto_ok cr" "length n = NONCE_LENGTH" "channel_send cr n p ch = Some (ch', [Sent x])"
  shows "outboundWireByteLength p ch = int (case x of TextData s \<Rightarrow> length s | BinaryData b \<Rightarrow> length b)
    \<and> (\<forall>size limit. base64EncryptedWireByteLength size \<le> limit \<longleftrightarrow> size \<le> maxBase64EncryptedPlaintextByteLength limit)"
proof -
  have "x = sealed cr ch n p" using assms(3) by (auto simp: channel_send_def split: ChannelState.splits)
  with wire_length [OF assms(1,2)] length_maximal show ?thesis by simp
qed

theorem wire_length_exact_witness:
  "outboundWireByteLength sample_payload ((new_channel (replicate 32 3) None True)\<lparr>ec_state := Open\<rparr>) = 56
   \<and> outboundWireByteLength sample_payload ((new_channel (replicate 32 3) None True)\<lparr>ec_state := Open\<rparr>)
     = int (case sealed sample_crypto ((new_channel (replicate 32 3) None True)\<lparr>ec_state := Open\<rparr>) sample_nonce sample_payload of
         TextData s \<Rightarrow> length s | BinaryData b \<Rightarrow> length b)"
proof -
  let ?ch = "(new_channel (replicate 32 3) None True)\<lparr>ec_state := Open\<rparr>"
  have "channel_send sample_crypto sample_nonce sample_payload ?ch = Some (?ch, [Sent (sealed sample_crypto ?ch sample_nonce sample_payload)])"
    by (simp add: channel_send_def)
  moreover have "outboundWireByteLength sample_payload ?ch = 56"
    by (simp add: outboundWireByteLength_def sample_payload_def toUint8_def js_def text_encode_def scalar_def utf8_char_def
        base64EncryptedWireByteLength_def ENCRYPTED_PAYLOAD_OVERHEAD_BYTES_def)
  ultimately show ?thesis using wire_length_exact [OF sample_crypto_ok sample_ok(1)] by blast
qed

end
