(* ===== verification/RelayObject.thy ===== *)
theory RelayObject
  imports EncryptedChannel
begin

text \<open>
  The relay (\<open>relay/src/cloudflare-adapter.ts\<close>): the durable object that joins the sockets of one server, and the
  worker that chooses the object. The runtime's list of sockets is \<open>ro_sockets\<close>; a socket stays in it until the
  runtime reports its end, also after the object has asked for it to be closed. Whether a send succeeds
  is the argument \<open>alive\<close>. A handler returns the new state and what it did, in order.
\<close>

section \<open>Sockets\<close>

datatype RelayProtocolVersion = V1 | V2
datatype ConnectionRole = ServerRole | ClientRole

definition resolveRelayVersion :: "codes option \<Rightarrow> RelayProtocolVersion option" where
  "resolveRelayVersion rawValue =
     (case rawValue of
        None \<Rightarrow> Some V1
      | Some raw \<Rightarrow>
          (let v = text_trim raw
           in if v = [] then Some V1 else if v = js ''1'' then Some V1 else if v = js ''2'' then Some V2 else None))"

record RelaySocket =
  so_id :: nat
  so_tags :: "codes list"
  so_serverId :: codes
  so_role :: ConnectionRole
  so_version :: RelayProtocolVersion
  so_connectionId :: "codes option"

record RelayDurableObject =
  ro_sockets :: "RelaySocket list"
  ro_pendingFrames :: "codes \<rightharpoonup> payload list"
  ro_next :: nat

datatype control_message = Sync "codes list" | Connected codes | Disconnected codes | Ping | Pong

datatype relay_out =
    ToSocket nat payload
  | ToControl nat control_message
  | CloseSocket nat int

record RelayRequest =
  rq_upgrade :: "codes option"
  rq_role :: "codes option"
  rq_serverId :: "codes option"
  rq_connectionId :: "codes option"
  rq_v :: "codes option"

datatype relay_response = Status nat | SwitchingProtocols nat

definition new_object :: RelayDurableObject where
  "new_object = \<lparr>ro_sockets = [], ro_pendingFrames = Map.empty, ro_next = 0\<rparr>"

definition role_text :: "ConnectionRole \<Rightarrow> codes" where
  "role_text r = (case r of ServerRole \<Rightarrow> js ''server'' | ClientRole \<Rightarrow> js ''client'')"

definition control_tag :: codes where "control_tag = js ''server-control''"
definition data_tag :: "codes \<Rightarrow> codes" where "data_tag c = js ''server:'' @ c"
definition client_tag :: "codes \<Rightarrow> codes" where "client_tag c = js ''client:'' @ c"

definition getWebSockets :: "codes \<Rightarrow> RelayDurableObject \<Rightarrow> RelaySocket list" where
  "getWebSockets tag st = filter (\<lambda>s. tag \<in> set (so_tags s)) (ro_sockets st)"

definition ascii_lower :: "codes \<Rightarrow> codes" where
  "ascii_lower = map (\<lambda>c. if 65 \<le> c \<and> c \<le> 90 then c + 32 else c)"

definition requireWebSocketUpgrade :: "RelayRequest \<Rightarrow> relay_response option" where
  "requireWebSocketUpgrade q =
     (case rq_upgrade q of
        Some h \<Rightarrow> if h \<noteq> [] \<and> ascii_lower h = js ''websocket'' then None else Some (Status 426)
      | None \<Rightarrow> Some (Status 426))"

definition hasServerDataSocket :: "codes \<Rightarrow> RelayDurableObject \<Rightarrow> bool" where
  "hasServerDataSocket connectionId st = (getWebSockets (data_tag connectionId) st \<noteq> [])"

definition hasClientSocket :: "codes \<Rightarrow> RelayDurableObject \<Rightarrow> bool" where
  "hasClientSocket connectionId st = (getWebSockets (client_tag connectionId) st \<noteq> [])"

definition close_all :: "codes \<Rightarrow> int \<Rightarrow> RelayDurableObject \<Rightarrow> relay_out list" where
  "close_all tag code st = map (\<lambda>s. CloseSocket (so_id s) code) (getWebSockets tag st)"

definition closeExistingServerSockets :: "bool \<Rightarrow> bool \<Rightarrow> codes \<Rightarrow> RelayDurableObject \<Rightarrow> relay_out list" where
  "closeExistingServerSockets isServerControl isServerData c st =
     (if isServerControl then close_all control_tag 1008 st
      else if isServerData then close_all (data_tag c) 1008 st
      else [])"

definition handleControlKeepalive :: "(nat \<Rightarrow> bool) \<Rightarrow> RelaySocket \<Rightarrow> codes \<Rightarrow> relay_out list" where
  "handleControlKeepalive alive ws message =
     (case json_parse message of
        None \<Rightarrow> []
      | Some v \<Rightarrow>
          if json_member (js ''type'') v = Some (JString (js ''ping'')) \<and> alive (so_id ws)
          then [ToControl (so_id ws) Pong] else [])"

definition bufferFrame :: "codes \<Rightarrow> payload \<Rightarrow> RelayDurableObject \<Rightarrow> RelayDurableObject" where
  "bufferFrame connectionId message st =
     (let existing = (case ro_pendingFrames st connectionId of Some fs \<Rightarrow> fs | None \<Rightarrow> []) @ [message]
      in st\<lparr>ro_pendingFrames := (ro_pendingFrames st)(connectionId \<mapsto> drop (length existing - 200) existing)\<rparr>)"

text \<open>\<open>working\<close> is how many frames the new socket takes before a send fails.\<close>

definition flushFrames :: "nat \<Rightarrow> codes \<Rightarrow> nat \<Rightarrow> RelayDurableObject \<Rightarrow> RelayDurableObject \<times> relay_out list" where
  "flushFrames working connectionId serverWs st =
     (case ro_pendingFrames st connectionId of
        None \<Rightarrow> (st, [])
      | Some held \<Rightarrow>
          if held = [] then (st, [])
          else let st' = st\<lparr>ro_pendingFrames := (ro_pendingFrames st)(connectionId := None)\<rparr>
               in (case drop working held of
                     [] \<Rightarrow> (st', map (ToSocket serverWs) held)
                   | frame # _ \<Rightarrow> (bufferFrame connectionId frame st', map (ToSocket serverWs) (take working held))))"

fun keep_first :: "'a list \<Rightarrow> 'a list" where
  "keep_first [] = []"
| "keep_first (x # xs) = x # filter (\<lambda>y. y \<noteq> x) (keep_first xs)"

definition listConnectedConnectionIds :: "RelayDurableObject \<Rightarrow> codes list" where
  "listConnectedConnectionIds st =
     keep_first (List.map_filter (\<lambda>s. if so_role s = ClientRole
         then (case so_connectionId s of Some c \<Rightarrow> if c = [] then None else Some c | None \<Rightarrow> None) else None)
       (getWebSockets (js ''client'') st))"

definition notifyControls :: "(nat \<Rightarrow> bool) \<Rightarrow> control_message \<Rightarrow> RelayDurableObject \<Rightarrow> relay_out list" where
  "notifyControls alive message st =
     map (\<lambda>s. if alive (so_id s) then ToControl (so_id s) message else CloseSocket (so_id s) 1011)
       (getWebSockets control_tag st)"

text \<open>The two timers started when a client connects.\<close>

definition nudge_first :: "(nat \<Rightarrow> bool) \<Rightarrow> codes \<Rightarrow> RelayDurableObject \<Rightarrow> relay_out list" where
  "nudge_first alive connectionId st =
     (if \<not> hasClientSocket connectionId st then []
      else if hasServerDataSocket connectionId st then []
      else notifyControls alive (Sync (listConnectedConnectionIds st)) st)"

definition nudge_second :: "codes \<Rightarrow> RelayDurableObject \<Rightarrow> relay_out list" where
  "nudge_second connectionId st =
     (if \<not> hasClientSocket connectionId st then []
      else if hasServerDataSocket connectionId st then []
      else close_all control_tag 1011 st)"

section \<open>Requests\<close>

definition new_socket ::
  "nat \<Rightarrow> codes list \<Rightarrow> codes \<Rightarrow> ConnectionRole \<Rightarrow> RelayProtocolVersion \<Rightarrow> codes option \<Rightarrow> RelaySocket" where
  "new_socket k tags serverId r version connectionId =
     \<lparr>so_id = k, so_tags = tags, so_serverId = serverId, so_role = r, so_version = version, so_connectionId = connectionId\<rparr>"

definition accept_socket ::
  "codes list \<Rightarrow> codes \<Rightarrow> ConnectionRole \<Rightarrow> RelayProtocolVersion \<Rightarrow> codes option \<Rightarrow> RelayDurableObject \<Rightarrow> RelayDurableObject" where
  "accept_socket tags serverId r version connectionId st =
     st\<lparr>ro_sockets := ro_sockets st @ [new_socket (ro_next st) tags serverId r version connectionId],
        ro_next := ro_next st + 1\<rparr>"

definition fetchV1 :: "RelayRequest \<Rightarrow> ConnectionRole \<Rightarrow> codes \<Rightarrow> RelayDurableObject \<Rightarrow> RelayDurableObject \<times> relay_out list \<times> relay_response" where
  "fetchV1 q r serverId st =
     (case requireWebSocketUpgrade q of
        Some e \<Rightarrow> (st, [], e)
      | None \<Rightarrow> (accept_socket [role_text r] serverId r V1 None st, close_all (role_text r) 1008 st, SwitchingProtocols (ro_next st)))"

definition assigned_id :: "codes \<Rightarrow> codes" where
  "assigned_id uuid = js ''conn_'' @ take 16 (filter (\<lambda>c. c \<noteq> 45) uuid)"

definition fetchV2 ::
  "(nat \<Rightarrow> bool) \<Rightarrow> nat \<Rightarrow> codes \<Rightarrow> RelayRequest \<Rightarrow> ConnectionRole \<Rightarrow> codes \<Rightarrow> codes \<Rightarrow> RelayDurableObject
     \<Rightarrow> RelayDurableObject \<times> relay_out list \<times> relay_response" where
  "fetchV2 alive working uuid q r serverId connectionId st =
     (case requireWebSocketUpgrade q of
        Some e \<Rightarrow> (st, [], e)
      | None \<Rightarrow>
          (let resolved = (if r = ClientRole \<and> connectionId = [] then assigned_id uuid else connectionId);
               isServerControl = (r = ServerRole \<and> resolved = []);
               isServerData = (r = ServerRole \<and> resolved \<noteq> []);
               closed = closeExistingServerSockets isServerControl isServerData resolved st;
               tags = (if r = ClientRole then [js ''client'', client_tag resolved]
                       else if isServerControl then [control_tag] else [js ''server'', data_tag resolved]);
               st1 = accept_socket tags serverId r V2 (if resolved = [] then None else Some resolved) st;
               k = ro_next st;
               notified = (if r = ClientRole then notifyControls alive (Connected resolved) st1 else []);
               synced = (if isServerControl \<and> alive k then [ToControl k (Sync (listConnectedConnectionIds st1))] else [])
           in case (if isServerData then flushFrames working resolved k st1 else (st1, [])) of
                (st2, flushed) \<Rightarrow> (st2, closed @ notified @ synced @ flushed, SwitchingProtocols k)))"

definition relay_fetch ::
  "(nat \<Rightarrow> bool) \<Rightarrow> nat \<Rightarrow> codes \<Rightarrow> RelayRequest \<Rightarrow> RelayDurableObject \<Rightarrow> RelayDurableObject \<times> relay_out list \<times> relay_response" where
  "relay_fetch alive working uuid q st =
     (let r = (case rq_role q of
                 Some t \<Rightarrow> if t = js ''server'' then Some ServerRole else if t = js ''client'' then Some ClientRole else None
               | None \<Rightarrow> None);
          connectionId = (case rq_connectionId q of Some c \<Rightarrow> text_trim c | None \<Rightarrow> [])
      in case r of
           None \<Rightarrow> (st, [], Status 400)
         | Some r \<Rightarrow>
             (case rq_serverId q of
                None \<Rightarrow> (st, [], Status 400)
              | Some serverId \<Rightarrow>
                  if serverId = [] then (st, [], Status 400)
                  else (case resolveRelayVersion (rq_v q) of
                          None \<Rightarrow> (st, [], Status 400)
                        | Some V1 \<Rightarrow> fetchV1 q r serverId st
                        | Some V2 \<Rightarrow> fetchV2 alive working uuid q r serverId connectionId st)))"

section \<open>Messages\<close>

definition forward :: "(nat \<Rightarrow> bool) \<Rightarrow> payload \<Rightarrow> RelaySocket list \<Rightarrow> relay_out list" where
  "forward alive message targets = map (\<lambda>s. ToSocket (so_id s) message) (filter (\<lambda>s. alive (so_id s)) targets)"

definition webSocketMessage ::
  "(nat \<Rightarrow> bool) \<Rightarrow> RelaySocket \<Rightarrow> payload \<Rightarrow> RelayDurableObject \<Rightarrow> RelayDurableObject \<times> relay_out list" where
  "webSocketMessage alive ws message st =
     (case so_version ws of
        V1 \<Rightarrow>
          (st, forward alive message (getWebSockets (role_text (if so_role ws = ServerRole then ClientRole else ServerRole)) st))
      | V2 \<Rightarrow>
          (case so_connectionId ws of
             None \<Rightarrow> (st, case message of TextData s \<Rightarrow> handleControlKeepalive alive ws s | BinaryData _ \<Rightarrow> [])
           | Some c \<Rightarrow>
               if so_role ws = ClientRole then
                 (let servers = getWebSockets (data_tag c) st
                  in if servers = [] then (bufferFrame c message st, []) else (st, forward alive message servers))
               else (st, forward alive message (getWebSockets (client_tag c) st))))"

definition webSocketClose :: "(nat \<Rightarrow> bool) \<Rightarrow> RelaySocket \<Rightarrow> RelayDurableObject \<Rightarrow> RelayDurableObject \<times> relay_out list" where
  "webSocketClose alive ws st =
     (case so_version ws of
        V1 \<Rightarrow> (st, [])
      | V2 \<Rightarrow>
          (case so_connectionId ws of
             None \<Rightarrow> (st, [])
           | Some c \<Rightarrow>
               if so_role ws = ClientRole then
                 (if list_ex (\<lambda>s. s \<noteq> ws) (getWebSockets (client_tag c) st) then (st, [])
                  else (st\<lparr>ro_pendingFrames := (ro_pendingFrames st)(c := None)\<rparr>,
                        close_all (data_tag c) 1001 st @ notifyControls alive (Disconnected c) st))
               else (st, close_all (client_tag c) 1012 st)))"

text \<open>The runtime forgets a socket when its end has been handled.\<close>

definition socket_gone :: "RelaySocket \<Rightarrow> RelayDurableObject \<Rightarrow> RelayDurableObject" where
  "socket_gone ws st = st\<lparr>ro_sockets := filter (\<lambda>s. so_id s \<noteq> so_id ws) (ro_sockets st)\<rparr>"

section \<open>The worker\<close>

datatype worker_route = ToUpstream | Respond nat | ToObject codes RelayRequest

definition version_text :: "RelayProtocolVersion \<Rightarrow> codes" where
  "version_text v = (case v of V1 \<Rightarrow> js ''1'' | V2 \<Rightarrow> js ''2'')"

definition worker_fetch :: "bool \<Rightarrow> codes \<Rightarrow> RelayRequest \<Rightarrow> worker_route" where
  "worker_fetch upstream path q =
     (if upstream then ToUpstream
      else if path = js ''/health'' then Respond 200
      else if path = js ''/ws'' then
        (case rq_serverId q of
           None \<Rightarrow> Respond 400
         | Some serverId \<Rightarrow>
             if serverId = [] then Respond 400
             else (case resolveRelayVersion (rq_v q) of
                     None \<Rightarrow> Respond 400
                   | Some v \<Rightarrow> ToObject (js ''relay-v'' @ version_text v @ 58 # serverId) (q\<lparr>rq_v := Some (version_text v)\<rparr>)))
      else Respond 404)"

section \<open>Runs\<close>

text \<open>The runs of an object of the second version: \<open>ever\<close> lists the sockets it has accepted, \<open>rcv\<close> the messages it
  received with the socket each came from, \<open>snt\<close> the messages it sent with the number of the socket.\<close>

definition frames_to :: "relay_out list \<Rightarrow> (nat \<times> payload) list" where
  "frames_to outs = List.map_filter (\<lambda>out. case out of ToSocket k f \<Rightarrow> Some (k, f) | _ \<Rightarrow> None) outs"

inductive relay_run ::
  "RelayDurableObject \<Rightarrow> RelaySocket list \<Rightarrow> (RelaySocket \<times> payload) list \<Rightarrow> (nat \<times> payload) list \<Rightarrow> bool" where
  Start: "relay_run new_object [] [] []"
| Fetches: "relay_run st ever rcv snt \<Longrightarrow> resolveRelayVersion (rq_v q) = Some V2 \<Longrightarrow>
    relay_fetch alive working uuid q st = (st', outs, resp) \<Longrightarrow>
    relay_run st' (ever @ drop (length (ro_sockets st)) (ro_sockets st')) rcv (snt @ frames_to outs)"
| Messages: "relay_run st ever rcv snt \<Longrightarrow> ws \<in> set (ro_sockets st) \<Longrightarrow> webSocketMessage alive ws m st = (st', outs) \<Longrightarrow>
    relay_run st' ever (rcv @ [(ws, m)]) (snt @ frames_to outs)"
| Closes: "relay_run st ever rcv snt \<Longrightarrow> ws \<in> set (ro_sockets st) \<Longrightarrow> webSocketClose alive ws st = (st', outs) \<Longrightarrow>
    relay_run (socket_gone ws st') ever rcv (snt @ frames_to outs)"

definition sent_to :: "nat \<Rightarrow> (nat \<times> payload) list \<Rightarrow> payload list" where
  "sent_to k snt = map snd (filter (\<lambda>p. fst p = k) snt)"

definition from_side :: "ConnectionRole \<Rightarrow> codes \<Rightarrow> (RelaySocket \<times> payload) list \<Rightarrow> payload list" where
  "from_side r c rcv = map snd (filter (\<lambda>p. so_connectionId (fst p) = Some c \<and> so_role (fst p) = r) rcv)"

definition other_side :: "ConnectionRole \<Rightarrow> ConnectionRole" where
  "other_side r = (if r = ServerRole then ClientRole else ServerRole)"

lemma frames_to_simps [simp]: "frames_to [] = []" "frames_to (a @ b) = frames_to a @ frames_to b"
  "frames_to (ToSocket k f # a) = (k, f) # frames_to a"
  "frames_to (map (ToSocket k) fs) = map (Pair k) fs" "frames_to (close_all tag code st) = []"
  "frames_to (notifyControls alive m st) = []" "frames_to [ToControl k m] = []"
  by (auto simp: frames_to_def map_filter_def close_all_def notifyControls_def comp_def filter_empty_conv)

lemma frames_to_keepalive [simp]: "frames_to (handleControlKeepalive alive ws s) = []"
  by (auto simp: handleControlKeepalive_def frames_to_def map_filter_def split: option.splits)

lemma frames_to_closed [simp]: "frames_to (closeExistingServerSockets a b c st) = []"
  by (auto simp: closeExistingServerSockets_def)

lemma frames_to_forward: "frames_to (forward alive m ss) = map (\<lambda>s. (so_id s, m)) (filter (\<lambda>s. alive (so_id s)) ss)"
  by (induction ss) (simp_all add: forward_def frames_to_def map_filter_def)

lemma sent_to_simps [simp]: "sent_to k [] = []" "sent_to k (a @ b) = sent_to k a @ sent_to k b"
  "sent_to k (map (Pair j) fs) = (if j = k then fs else [])"
  by (simp_all add: sent_to_def filter_map comp_def)

lemma from_side_snoc [simp]: "from_side r c (rcv @ [(ws, m)])
    = from_side r c rcv @ (if so_connectionId ws = Some c \<and> so_role ws = r then [m] else [])"
  by (simp add: from_side_def)

lemma sent_to_forward:
  assumes "distinct (map so_id ss)"
  shows "sent_to k (map (\<lambda>s. (so_id s, m)) ss) = (if k \<in> so_id ` set ss then [m] else [])"
  using assms by (induction ss) (auto simp: sent_to_def)

text \<open>Tags and attachments of the sockets of the second version.\<close>

definition socket_ok :: "RelaySocket \<Rightarrow> bool" where
  "socket_ok s =
     (so_version s = V2 \<and> so_connectionId s \<noteq> Some []
      \<and> so_tags s = (case so_connectionId s of
           None \<Rightarrow> [control_tag]
         | Some c \<Rightarrow> if so_role s = ClientRole then [js ''client'', client_tag c] else [js ''server'', data_tag c])
      \<and> (so_connectionId s = None \<longrightarrow> so_role s = ServerRole))"

lemma tag_clash [simp]: "client_tag c \<noteq> data_tag d" "data_tag c \<noteq> client_tag d" "control_tag \<noteq> data_tag c" "control_tag \<noteq> client_tag c"
  "data_tag c \<noteq> control_tag" "client_tag c \<noteq> control_tag" "js ''client'' \<noteq> client_tag c" "js ''server'' \<noteq> data_tag c"
  "client_tag c \<noteq> js ''client''" "data_tag c \<noteq> js ''server''" "client_tag c \<noteq> js ''server''" "data_tag c \<noteq> js ''client''"
  "js ''client'' \<noteq> data_tag c" "js ''server'' \<noteq> client_tag c" "js ''client'' \<noteq> control_tag" "js ''server'' \<noteq> control_tag"
  "control_tag \<noteq> js ''client''" "control_tag \<noteq> js ''server''"
  "client_tag c = client_tag d \<longleftrightarrow> c = d" "data_tag c = data_tag d \<longleftrightarrow> c = d"
  by (auto simp: client_tag_def data_tag_def control_tag_def js_def)

lemma tagged_data: "socket_ok s \<Longrightarrow> data_tag c \<in> set (so_tags s) \<longleftrightarrow> so_connectionId s = Some c \<and> so_role s = ServerRole"
  by (auto simp: socket_ok_def split: option.splits if_splits) (metis ConnectionRole.exhaust)

lemma tagged_client: "socket_ok s \<Longrightarrow> client_tag c \<in> set (so_tags s) \<longleftrightarrow> so_connectionId s = Some c \<and> so_role s = ClientRole"
  by (auto simp: socket_ok_def split: option.splits if_splits)

lemma tagged_control: "socket_ok s \<Longrightarrow> control_tag \<in> set (so_tags s) \<longleftrightarrow> so_connectionId s = None"
  by (auto simp: socket_ok_def split: option.splits if_splits)

definition routed :: "RelaySocket list \<Rightarrow> (RelaySocket \<times> payload) list \<Rightarrow> (nat \<times> payload) list \<Rightarrow> bool" where
  "routed ever rcv snt =
     (\<forall>s\<in>set ever. case so_connectionId s of
        None \<Rightarrow> sent_to (so_id s) snt = []
      | Some c \<Rightarrow> subseq (sent_to (so_id s) snt) (from_side (other_side (so_role s)) c rcv))"

definition relay_ok ::
  "RelayDurableObject \<Rightarrow> RelaySocket list \<Rightarrow> (RelaySocket \<times> payload) list \<Rightarrow> (nat \<times> payload) list \<Rightarrow> bool" where
  "relay_ok st ever rcv snt =
     (distinct (map so_id ever) \<and> (\<forall>s\<in>set ever. so_id s < ro_next st \<and> socket_ok s) \<and> set (ro_sockets st) \<subseteq> set ever
      \<and> (\<forall>(k, f)\<in>set snt. k < ro_next st) \<and> routed ever rcv snt
      \<and> (\<forall>c fs. ro_pendingFrames st c = Some fs \<longrightarrow>
           subseq fs (from_side ClientRole c rcv) \<and> length fs \<le> 200 \<and> hasClientSocket c st))"

lemma sent_fresh: "\<forall>(k, f)\<in>set snt. k < n \<Longrightarrow> sent_to n snt = []"
  by (auto simp: sent_to_def filter_empty_conv)

lemma drop_subseq: "subseq fs gs \<Longrightarrow> subseq (drop n fs) gs"
  using suffix_drop [of n fs] suffix_imp_subseq subseq_order.order_trans by blast

lemma from_side_mono: "subseq fs (from_side r c rcv) \<Longrightarrow> subseq fs (from_side r c (rcv @ [x]))"
  by (cases x) (auto simp: list_emb_append2 intro: subseq_order.order_trans)

lemma routed_more: "routed ever rcv snt \<Longrightarrow> routed ever (rcv @ [x]) snt"
  unfolding routed_def
proof
  fix s
  assume all: "\<forall>s\<in>set ever. case so_connectionId s of None \<Rightarrow> sent_to (so_id s) snt = []
    | Some c \<Rightarrow> subseq (sent_to (so_id s) snt) (from_side (other_side (so_role s)) c rcv)" and "s \<in> set ever"
  then have "case so_connectionId s of None \<Rightarrow> sent_to (so_id s) snt = []
    | Some c \<Rightarrow> subseq (sent_to (so_id s) snt) (from_side (other_side (so_role s)) c rcv)" by blast
  then show "case so_connectionId s of None \<Rightarrow> sent_to (so_id s) snt = []
    | Some c \<Rightarrow> subseq (sent_to (so_id s) snt) (from_side (other_side (so_role s)) c (rcv @ [x]))"
    by (cases "so_connectionId s") (simp_all add: from_side_mono)
qed

text \<open>Forwarding a message to sockets of the other side of its connection.\<close>

lemma forward_routed:
  assumes ok: "relay_ok st ever rcv snt" and ws: "so_connectionId ws = Some c"
    and to: "\<forall>s\<in>set targets. s \<in> set ever \<and> so_connectionId s = Some c \<and> so_role s = other_side (so_role ws)"
    and d: "distinct (map so_id targets)"
  shows "routed ever (rcv @ [(ws, m)]) (snt @ frames_to (forward alive m targets))"
  unfolding routed_def
proof
  fix s
  assume s: "s \<in> set ever"
  have new: "sent_to (so_id s) (frames_to (forward alive m targets))
      = (if so_id s \<in> so_id ` set (filter (\<lambda>s. alive (so_id s)) targets) then [m] else [])"
    unfolding frames_to_forward by (rule sent_to_forward) (rule distinct_map_filter [OF d])
  have old: "case so_connectionId s of None \<Rightarrow> sent_to (so_id s) snt = []
    | Some c \<Rightarrow> subseq (sent_to (so_id s) snt) (from_side (other_side (so_role s)) c rcv)"
    using ok s by (simp add: relay_ok_def routed_def)
  have more: "subseq (sent_to (so_id s) snt) (from_side (other_side (so_role s)) d (rcv @ [(ws, m)]))"
    if "so_connectionId s = Some d" for d
    using old that by (auto intro: from_side_mono)
  show "case so_connectionId s of None \<Rightarrow> sent_to (so_id s) (snt @ frames_to (forward alive m targets)) = []
    | Some c \<Rightarrow> subseq (sent_to (so_id s) (snt @ frames_to (forward alive m targets))) (from_side (other_side (so_role s)) c (rcv @ [(ws, m)]))"
  proof (cases "so_id s \<in> so_id ` set (filter (\<lambda>s. alive (so_id s)) targets)")
    case True
    then obtain t where t: "t \<in> set targets" "so_id t = so_id s" by auto
    then have "t = s" using to ok s by (metis relay_ok_def distinct_map inj_onD)
    with t to have sc: "so_connectionId s = Some c" "so_role s = other_side (so_role ws)" by auto
    then have "so_role ws = other_side (so_role s)" by (cases "so_role ws") (auto simp: other_side_def)
    with sc old ws new True show ?thesis by (simp add: list_emb_append_mono)
  next
    case False
    with new more old show ?thesis by (auto split: option.splits)
  qed
qed

lemma ok_sockets: "relay_ok st ever rcv snt \<Longrightarrow> s \<in> set (ro_sockets st) \<Longrightarrow> s \<in> set ever \<and> socket_ok s"
  by (auto simp: relay_ok_def)

definition ids_distinct :: "RelayDurableObject \<Rightarrow> bool" where
  "ids_distinct st = distinct (map so_id (ro_sockets st))"

lemma buffer_ok:
  assumes ok: "relay_ok st ever rcv snt" and ws: "ws \<in> set (ro_sockets st)" "so_connectionId ws = Some c" "so_role ws = ClientRole"
  shows "relay_ok (bufferFrame c m st) ever (rcv @ [(ws, m)]) snt"
proof -
  let ?fs = "(case ro_pendingFrames st c of Some fs \<Rightarrow> fs | None \<Rightarrow> []) @ [m]"
  have base: "subseq (case ro_pendingFrames st c of Some fs \<Rightarrow> fs | None \<Rightarrow> []) (from_side ClientRole c rcv)"
    using ok by (auto simp: relay_ok_def split: option.splits)
  then have all: "subseq ?fs (from_side ClientRole c (rcv @ [(ws, m)]))" using ws by (simp add: list_emb_append_mono)
  define g where "g = drop (length ?fs - 200) ?fs"
  have g: "subseq g (from_side ClientRole c (rcv @ [(ws, m)]))" "length g \<le> 200"
    unfolding g_def by (rule drop_subseq [OF all]) simp
  have b: "bufferFrame c m st = st\<lparr>ro_pendingFrames := (ro_pendingFrames st)(c \<mapsto> g)\<rparr>"
    by (simp add: bufferFrame_def Let_def g_def)
  have "hasClientSocket c st"
    using ok_sockets [OF ok ws(1)] ws tagged_client [of ws c] by (auto simp: hasClientSocket_def getWebSockets_def filter_empty_conv)
  moreover have "hasClientSocket d (st\<lparr>ro_pendingFrames := x\<rparr>) = hasClientSocket d st" for d x
    by (simp add: hasClientSocket_def getWebSockets_def)
  ultimately show ?thesis
    using ok g routed_more [of ever rcv snt "(ws, m)"] from_side_mono
    unfolding b relay_ok_def by (simp del: from_side_snoc)
qed

lemma message_ok:
  assumes ok: "relay_ok st ever rcv snt" and i: "ids_distinct st" and ws: "ws \<in> set (ro_sockets st)"
    and m: "webSocketMessage alive ws m st = (st', outs)"
  shows "relay_ok st' ever (rcv @ [(ws, m)]) (snt @ frames_to outs)"
proof -
  note ws_ok = ok_sockets [OF ok ws]
  have same: "relay_ok st ever (rcv @ [(ws, m)]) (snt @ out)"
    if "routed ever (rcv @ [(ws, m)]) (snt @ out)" "\<forall>(k, f)\<in>set out. k < ro_next st" for out
    using ok that from_side_mono by (auto simp: relay_ok_def simp del: from_side_snoc)
  have fwd: "relay_ok st ever (rcv @ [(ws, m)]) (snt @ frames_to (forward alive m (filter P (ro_sockets st))))"
    if c: "so_connectionId ws = Some c" and P: "\<And>s. socket_ok s \<Longrightarrow> P s \<longleftrightarrow> so_connectionId s = Some c \<and> so_role s = other_side (so_role ws)" for P c
  proof (rule same)
    show "routed ever (rcv @ [(ws, m)]) (snt @ frames_to (forward alive m (filter P (ro_sockets st))))"
      using i P ok_sockets [OF ok] by (intro forward_routed [OF ok c]) (auto simp: ids_distinct_def distinct_map_filter)
    show "\<forall>(k, f)\<in>set (frames_to (forward alive m (filter P (ro_sockets st)))). k < ro_next st"
      using ok by (auto simp: frames_to_forward relay_ok_def)
  qed
  have v: "so_version ws = V2" using ws_ok by (simp add: socket_ok_def)
  show ?thesis
  proof (cases "so_connectionId ws")
    case None
    with m v have "st' = st" "frames_to outs = []" by (auto simp: webSocketMessage_def split: payload.splits)
    with same [of "[]"] ok routed_more show ?thesis by (auto simp: relay_ok_def)
  next
    case (Some c)
    show ?thesis
    proof (cases "so_role ws = ClientRole")
      case True
      with m v Some buffer_ok [OF ok ws Some True] fwd [OF Some, of "\<lambda>s. data_tag c \<in> set (so_tags s)"] show ?thesis
        by (auto simp: webSocketMessage_def Let_def getWebSockets_def tagged_data other_side_def split: if_splits)
    next
      case False
      then have "so_role ws = ServerRole" by (cases "so_role ws") auto
      with False m v Some fwd [OF Some, of "\<lambda>s. client_tag c \<in> set (so_tags s)"] show ?thesis
        by (auto simp: webSocketMessage_def getWebSockets_def tagged_client other_side_def)
    qed
  qed
qed

lemma closed_sockets: "relay_ok st ever rcv snt \<Longrightarrow> \<forall>c. ro_pendingFrames st c \<noteq> None \<longrightarrow> hasClientSocket c (socket_gone ws st)
    \<Longrightarrow> relay_ok (socket_gone ws st) ever rcv snt"
  by (auto simp: relay_ok_def socket_gone_def)

lemma close_ok:
  assumes ok: "relay_ok st ever rcv snt" and ws: "ws \<in> set (ro_sockets st)" and c: "webSocketClose alive ws st = (st', outs)"
  shows "relay_ok (socket_gone ws st') ever rcv (snt @ frames_to outs)"
proof -
  note ws_ok = ok_sockets [OF ok ws]
  have out: "frames_to outs = []"
    using c by (auto simp: webSocketClose_def split: RelayProtocolVersion.splits option.splits if_splits)
  have st': "ro_sockets st' = ro_sockets st" "relay_ok st' ever rcv snt"
    using c ok by (auto simp: webSocketClose_def relay_ok_def hasClientSocket_def getWebSockets_def
        split: RelayProtocolVersion.splits option.splits if_splits)
  have "hasClientSocket d (socket_gone ws st')" if pending: "ro_pendingFrames st' d \<noteq> None" for d
  proof -
    have client: "hasClientSocket d st'" using st'(2) pending by (auto simp: relay_ok_def)
    then obtain s where s: "s \<in> set (ro_sockets st)" "client_tag d \<in> set (so_tags s)"
      using st'(1) by (auto simp: hasClientSocket_def getWebSockets_def filter_empty_conv)
    then have sd: "so_connectionId s = Some d" "so_role s = ClientRole" using ok_sockets [OF ok s(1)] tagged_client by blast+
    have "\<exists>t\<in>set (ro_sockets st). client_tag d \<in> set (so_tags t) \<and> so_id t \<noteq> so_id ws"
    proof (cases "so_id s = so_id ws")
      case False
      with s show ?thesis by blast
    next
      case True
      with s(1) ws ok ok_sockets [OF ok] have "s = ws" unfolding relay_ok_def by (metis distinct_map inj_onD)
      with sd pending c have "list_ex (\<lambda>t. t \<noteq> ws) (getWebSockets (client_tag d) st)"
        using ws_ok by (auto simp: webSocketClose_def socket_ok_def split: if_splits)
      then obtain t where t: "t \<in> set (ro_sockets st)" "client_tag d \<in> set (so_tags t)" "t \<noteq> ws"
        by (auto simp: list_ex_iff getWebSockets_def)
      then have "so_id t \<noteq> so_id ws" using ws ok ok_sockets [OF ok] unfolding relay_ok_def by (metis distinct_map inj_onD)
      with t show ?thesis by blast
    qed
    then show ?thesis using st'(1) by (auto simp: hasClientSocket_def getWebSockets_def socket_gone_def filter_empty_conv)
  qed
  with closed_sockets [OF st'(2)] out show ?thesis by auto
qed

text \<open>A new socket, before anything is flushed to it.\<close>

lemma accept_ok:
  assumes ok: "relay_ok st ever rcv snt" and new: "new = new_socket (ro_next st) tags serverId r V2 c" and s: "socket_ok new"
  shows "relay_ok (accept_socket tags serverId r V2 c st) (ever @ [new]) rcv snt"
proof -
  have "sent_to (ro_next st) snt = []" using ok by (auto simp: relay_ok_def intro: sent_fresh)
  then have "routed (ever @ [new]) rcv snt"
    using ok by (auto simp: relay_ok_def routed_def new new_socket_def split: option.splits)
  moreover have "hasClientSocket d (accept_socket tags serverId r V2 c st)" if "hasClientSocket d st" for d
    using that by (simp add: hasClientSocket_def getWebSockets_def accept_socket_def)
  ultimately show ?thesis
    using ok s by (auto simp: relay_ok_def accept_socket_def new new_socket_def less_Suc_eq)
qed

lemma flush_ok:
  assumes ok: "relay_ok st ever rcv snt" and s: "s \<in> set ever" "so_connectionId s = Some c" "so_role s = ServerRole" "so_id s = k"
    and fresh: "sent_to k snt = []" and f: "flushFrames working c k st = (st', outs)"
  shows "relay_ok st' ever rcv (snt @ frames_to outs) \<and> ro_sockets st' = ro_sockets st"
proof (cases "ro_pendingFrames st c")
  case None
  with f ok show ?thesis by (simp add: flushFrames_def)
next
  case (Some held)
  then have sub: "subseq held (from_side ClientRole c rcv)" and len: "length held \<le> 200" and cl: "hasClientSocket c st"
    using ok by (auto simp: relay_ok_def)
  have k: "k < ro_next st" using ok s by (auto simp: relay_ok_def)
  have uniq: "t = s" if "t \<in> set ever" "so_id t = k" for t
    using ok s that by (metis distinct_map inj_onD relay_ok_def)
  have r: "routed ever rcv (snt @ map (Pair k) (take n held))" for n
    unfolding routed_def
  proof
    fix t
    assume t: "t \<in> set ever"
    have old: "case so_connectionId t of None \<Rightarrow> sent_to (so_id t) snt = []
      | Some c \<Rightarrow> subseq (sent_to (so_id t) snt) (from_side (other_side (so_role t)) c rcv)"
      using ok t by (simp add: relay_ok_def routed_def)
    show "case so_connectionId t of None \<Rightarrow> sent_to (so_id t) (snt @ map (Pair k) (take n held)) = []
      | Some c \<Rightarrow> subseq (sent_to (so_id t) (snt @ map (Pair k) (take n held))) (from_side (other_side (so_role t)) c rcv)"
    proof (cases "so_id t = k")
      case True
      then have "t = s" by (rule uniq [OF t])
      moreover have "subseq (take n held) (from_side ClientRole c rcv)"
        using sub take_is_prefix [of n held] prefix_imp_subseq subseq_order.order_trans by blast
      ultimately show ?thesis using s fresh by (simp add: other_side_def)
    next
      case False
      with old show ?thesis by (cases "so_connectionId t") auto
    qed
  qed
  have sent: "\<forall>(j, x)\<in>set (snt @ map (Pair k) fs). j < ro_next st" for fs using ok k by (auto simp: relay_ok_def)
  have hc: "hasClientSocket d (st\<lparr>ro_pendingFrames := x\<rparr>) = hasClientSocket d st" for d x
    by (simp add: hasClientSocket_def getWebSockets_def)
  have cleared: "relay_ok (st\<lparr>ro_pendingFrames := (ro_pendingFrames st)(c := None)\<rparr>) ever rcv (snt @ map (Pair k) (take n held))" for n
    using ok r sent unfolding relay_ok_def by (simp add: hc)
  have one: "subseq [frame] (from_side ClientRole c rcv)" if "frame \<in> set held" for frame
  proof -
    have "subseq [frame] held" using that by (simp add: subseq_singleton_left)
    then show ?thesis by (rule subseq_order.order_trans [OF _ sub])
  qed
  have again: "relay_ok (bufferFrame c frame (st\<lparr>ro_pendingFrames := (ro_pendingFrames st)(c := None)\<rparr>)) ever rcv (snt @ map (Pair k) (take n held))"
    if "frame \<in> set held" for n frame
    using ok r sent one [OF that] cl unfolding relay_ok_def bufferFrame_def Let_def by (simp add: hc)
  show ?thesis
  proof (cases "held = []")
    case True
    with f Some ok show ?thesis by (simp add: flushFrames_def)
  next
    case False
    show ?thesis
    proof (cases "drop working held")
      case Nil
      with f Some False cleared [of "length held"] show ?thesis by (auto simp: flushFrames_def Let_def)
    next
      case (Cons frame rest)
      then have "frame \<in> set held" by (metis in_set_dropD list.set_intros(1))
      with Cons f Some False again show ?thesis by (auto simp: flushFrames_def Let_def bufferFrame_def)
    qed
  qed
qed

text \<open>The socket a request is given, and the part of it that concerns frames.\<close>

definition tags_for :: "ConnectionRole \<Rightarrow> codes \<Rightarrow> codes list" where
  "tags_for r c = (if r = ClientRole then [js ''client'', client_tag c]
     else if c = [] then [control_tag] else [js ''server'', data_tag c])"

lemma new_socket_ok: "r = ServerRole \<or> c \<noteq> [] \<Longrightarrow> socket_ok (new_socket k (tags_for r c) serverId r V2 (if c = [] then None else Some c))"
  by (auto simp: socket_ok_def new_socket_def tags_for_def)

lemma fetchV2_frames:
  assumes "fetchV2 alive working uuid q r serverId connectionId st = (st', outs, resp)"
  obtains (refused) "st' = st" "outs = []"
  | (accepted) c st1 flushed where "r = ServerRole \<or> c \<noteq> []" "c = (if r = ClientRole \<and> connectionId = [] then assigned_id uuid else connectionId)"
      "st1 = accept_socket (tags_for r c) serverId r V2 (if c = [] then None else Some c) st" "resp = SwitchingProtocols (ro_next st)"
      "(if r = ServerRole \<and> c \<noteq> [] then flushFrames working c (ro_next st) st1 else (st1, [])) = (st', flushed)"
      "frames_to outs = frames_to flushed"
proof (cases "requireWebSocketUpgrade q")
  case (Some e)
  with assms refused show thesis by (simp add: fetchV2_def)
next
  case None
  let ?c = "if r = ClientRole \<and> connectionId = [] then assigned_id uuid else connectionId"
  let ?st1 = "accept_socket (tags_for r ?c) serverId r V2 (if ?c = [] then None else Some ?c) st"
  obtain st2 flushed where f: "(if r = ServerRole \<and> ?c \<noteq> [] then flushFrames working ?c (ro_next st) ?st1 else (?st1, [])) = (st2, flushed)"
    by fastforce
  have tags: "(if r = ClientRole then [js ''client'', client_tag ?c]
      else if r = ServerRole \<and> ?c = [] then [control_tag] else [js ''server'', data_tag ?c]) = tags_for r ?c"
    by (cases r) (auto simp: tags_for_def)
  have "assigned_id uuid \<noteq> []" by (simp add: assigned_id_def js_def)
  then have ne: "r = ServerRole \<or> ?c \<noteq> []" by (cases r) auto
  have "st' = st2" "resp = SwitchingProtocols (ro_next st)" "frames_to outs = frames_to flushed"
    using assms None f unfolding fetchV2_def Let_def tags by (auto split: if_splits)
  with ne f show thesis by (intro accepted [of ?c ?st1 flushed]) auto
qed

lemma fetchV2_ok:
  assumes ok: "relay_ok st ever rcv snt" and f: "fetchV2 alive working uuid q r serverId connectionId st = (st', outs, resp)"
  shows "relay_ok st' (ever @ drop (length (ro_sockets st)) (ro_sockets st')) rcv (snt @ frames_to outs)
    \<and> (\<exists>new. ro_sockets st' = ro_sockets st @ new \<and> (\<forall>s\<in>set new. so_id s = ro_next st) \<and> length new \<le> 1)"
  using f
proof (cases rule: fetchV2_frames)
  case refused
  with ok show ?thesis by (auto intro: exI [of _ "[]"])
next
  case (accepted c st1 flushed)
  let ?new = "new_socket (ro_next st) (tags_for r c) serverId r V2 (if c = [] then None else Some c)"
  have ok1: "relay_ok st1 (ever @ [?new]) rcv snt"
    unfolding accepted(3) by (rule accept_ok [OF ok refl new_socket_ok [OF accepted(1)]])
  have s1: "ro_sockets st1 = ro_sockets st @ [?new]" unfolding accepted(3) by (simp add: accept_socket_def)
  have fresh: "sent_to (ro_next st) snt = []" using ok by (auto simp: relay_ok_def intro: sent_fresh)
  have "relay_ok st' (ever @ [?new]) rcv (snt @ frames_to outs) \<and> ro_sockets st' = ro_sockets st1"
  proof (cases "r = ServerRole \<and> c \<noteq> []")
    case True
    have "relay_ok st' (ever @ [?new]) rcv (snt @ frames_to flushed) \<and> ro_sockets st' = ro_sockets st1"
      using True accepted(5) by (intro flush_ok [OF ok1 _ _ _ _ fresh, of ?new c working]) (simp_all add: new_socket_def)
    with accepted(6) show ?thesis by simp
  next
    case False
    with accepted(5,6) ok1 show ?thesis by auto
  qed
  with s1 show ?thesis by (auto simp: new_socket_def intro: exI [of _ "[?new]"])
qed

lemma fetch_ok:
  assumes ok: "relay_ok st ever rcv snt" and v: "resolveRelayVersion (rq_v q) = Some V2"
    and f: "relay_fetch alive working uuid q st = (st', outs, resp)"
  shows "relay_ok st' (ever @ drop (length (ro_sockets st)) (ro_sockets st')) rcv (snt @ frames_to outs)
    \<and> (\<exists>new. ro_sockets st' = ro_sockets st @ new \<and> (\<forall>s\<in>set new. so_id s = ro_next st) \<and> length new \<le> 1)"
proof (cases "outs = [] \<and> st' = st")
  case True
  with ok show ?thesis by (auto intro: exI [of _ "[]"])
next
  case False
  with f v obtain r serverId c where "fetchV2 alive working uuid q r serverId c st = (st', outs, resp)"
    by (auto simp: relay_fetch_def Let_def split: option.splits if_splits)
  with fetchV2_ok [OF ok] show ?thesis by blast
qed

lemma distinct_grows:
  assumes "ids_distinct st" "relay_ok st ever rcv snt" "ro_sockets st' = ro_sockets st @ new" "\<forall>s\<in>set new. so_id s = ro_next st" "length new \<le> 1"
  shows "ids_distinct st'"
proof -
  have lt: "so_id s < ro_next st" if "s \<in> set (ro_sockets st)" for s using assms(2) that by (auto simp: relay_ok_def)
  have "ro_next st \<notin> so_id ` set (ro_sockets st)" by (metis imageE less_irrefl lt)
  with assms show ?thesis by (cases new) (auto simp: ids_distinct_def)
qed

lemma relay_run_ok: "relay_run st ever rcv snt \<Longrightarrow> relay_ok st ever rcv snt \<and> ids_distinct st"
proof (induction rule: relay_run.induct)
  case Start
  then show ?case by (simp add: relay_ok_def new_object_def routed_def ids_distinct_def)
next
  case (Fetches st ever rcv snt q alive working uuid st' outs resp)
  from fetch_ok [OF conjunct1 [OF Fetches(4)] Fetches(2,3)] distinct_grows [of st ever rcv snt st'] Fetches(4) show ?case by blast
next
  case (Messages st ever rcv snt ws alive m st' outs)
  have "ro_sockets st' = ro_sockets st"
    using Messages(3) by (auto simp: webSocketMessage_def bufferFrame_def Let_def
        split: RelayProtocolVersion.splits option.splits if_splits)
  moreover have "relay_ok st' ever (rcv @ [(ws, m)]) (snt @ frames_to outs)"
    using message_ok [OF _ _ Messages(2,3)] Messages(4) by blast
  ultimately show ?case using Messages(4) by (simp add: ids_distinct_def)
next
  case (Closes st ever rcv snt ws alive st' outs)
  have "ro_sockets st' = ro_sockets st"
    using Closes(3) by (auto simp: webSocketClose_def split: RelayProtocolVersion.splits option.splits if_splits)
  moreover have "relay_ok (socket_gone ws st') ever rcv (snt @ frames_to outs)"
    using close_ok [OF _ Closes(2,3)] Closes(4) by blast
  ultimately show ?case using Closes(4) by (simp add: ids_distinct_def socket_gone_def distinct_map_filter)
qed

section \<open>Frames that arrive before the daemon does\<close>

fun client_sends :: "(nat \<Rightarrow> bool) \<Rightarrow> RelaySocket \<Rightarrow> payload list \<Rightarrow> RelayDurableObject \<Rightarrow> RelayDurableObject \<times> relay_out list" where
  "client_sends alive ws [] st = (st, [])"
| "client_sends alive ws (m # ms) st =
     (case webSocketMessage alive ws m st of (st', o1) \<Rightarrow>
      case client_sends alive ws ms st' of (st'', o2) \<Rightarrow> (st'', o1 @ o2))"

definition client_of :: "codes \<Rightarrow> RelaySocket \<Rightarrow> bool" where
  "client_of c ws = (socket_ok ws \<and> so_connectionId ws = Some c \<and> so_role ws = ClientRole)"

lemma buffering:
  assumes "client_of c ws" "\<not> hasServerDataSocket c st"
  shows "webSocketMessage alive ws m st = (bufferFrame c m st, [])"
  using assms by (simp add: client_of_def socket_ok_def webSocketMessage_def hasServerDataSocket_def Let_def)

lemma buffered_frames:
  assumes "client_of c ws"
  shows "\<not> hasServerDataSocket c st \<Longrightarrow> length (held @ ms) \<le> 200 \<Longrightarrow> ro_pendingFrames st c = (if held = [] then None else Some held) \<Longrightarrow>
    client_sends alive ws ms st = (st\<lparr>ro_pendingFrames := (ro_pendingFrames st)(c := if held @ ms = [] then None else Some (held @ ms))\<rparr>, [])"
proof (induction ms arbitrary: held st)
  case Nil
  then have same: "(ro_pendingFrames st)(c := if held = [] then None else Some held) = ro_pendingFrames st" by auto
  show ?case unfolding append_Nil2 same by simp
next
  case (Cons m ms)
  have b: "bufferFrame c m st = st\<lparr>ro_pendingFrames := (ro_pendingFrames st)(c \<mapsto> held @ [m])\<rparr>"
    using Cons.prems by (simp add: bufferFrame_def Let_def)
  have "\<not> hasServerDataSocket c (bufferFrame c m st)"
    using Cons.prems(1) by (simp add: b hasServerDataSocket_def getWebSockets_def)
  from Cons.IH [OF this, of "held @ [m]"] Cons.prems buffering [OF assms Cons.prems(1)] show ?case
    by (simp add: b cong: if_cong)
qed

definition data_request :: "codes \<Rightarrow> codes \<Rightarrow> RelayRequest" where
  "data_request serverId c =
     \<lparr>rq_upgrade = Some (js ''websocket''), rq_role = Some (js ''server''), rq_serverId = Some serverId,
      rq_connectionId = Some c, rq_v = Some (js ''2'')\<rparr>"

lemma no_upgrade_error: "requireWebSocketUpgrade (data_request serverId c) = None"
  by (simp add: requireWebSocketUpgrade_def data_request_def ascii_lower_def js_def)

lemma version_two: "resolveRelayVersion (Some (js ''2'')) = Some V2"
  by (simp add: resolveRelayVersion_def text_trim_def code_space_def js_def)

lemma data_tags: "c \<noteq> [] \<Longrightarrow> tags_for ServerRole c = [js ''server'', data_tag c]"
  by (simp add: tags_for_def)

lemma data_fetched:
  assumes "serverId \<noteq> []" "c \<noteq> []" "text_trim c = c" "ro_pendingFrames st c = (if held = [] then None else Some held)" "length held \<le> working"
  shows "relay_fetch alive working uuid (data_request serverId c) st =
    ((accept_socket (tags_for ServerRole c) serverId ServerRole V2 (Some c) st)\<lparr>ro_pendingFrames := (ro_pendingFrames st)(c := None)\<rparr>,
     close_all (data_tag c) 1008 st @ map (ToSocket (ro_next st)) held, SwitchingProtocols (ro_next st))"
proof -
  have same: "held = [] \<Longrightarrow> (ro_pendingFrames st)(c := None) = ro_pendingFrames st" using assms(4) by auto
  have "relay_fetch alive working uuid (data_request serverId c) st = fetchV2 alive working uuid (data_request serverId c) ServerRole serverId c st"
    using assms(1,3) version_two by (simp add: relay_fetch_def data_request_def Let_def js_def)
  then show ?thesis
    using assms same no_upgrade_error [of serverId c]
    by (cases "held = []") (simp_all add: fetchV2_def Let_def flushFrames_def closeExistingServerSockets_def tags_for_def accept_socket_def)
qed

section \<open>Properties\<close>

text \<open>C17. Whatever connects, sends and leaves, a socket of the relay is sent only what sockets of the other side of the same
  connection sent, each frame at most once and in the order in which the relay received them, whether it was forwarded at once or
  held back until the daemon connected; and a control socket is sent no frame at all.\<close>

theorem relay_routes:
  assumes "relay_run st ever rcv snt" "s \<in> set ever"
  shows "case so_connectionId s of
      None \<Rightarrow> sent_to (so_id s) snt = []
    | Some c \<Rightarrow> subseq (sent_to (so_id s) snt) (from_side (other_side (so_role s)) c rcv)"
  using relay_run_ok [OF assms(1)] assms(2) by (simp add: relay_ok_def routed_def)

text \<open>What the relay holds back is bounded: at most two hundred frames for a connection, and only for a connection one of whose
  clients is still there.\<close>

theorem relay_memory_bounded:
  assumes "relay_run st ever rcv snt" "ro_pendingFrames st c = Some fs"
  shows "length fs \<le> 200 \<and> hasClientSocket c st"
  using relay_run_ok [OF assms(1)] assms(2) by (simp add: relay_ok_def)

text \<open>No early frame is lost: up to two hundred frames that a client sends before the daemon has opened its socket for the
  connection are sent to that socket when it connects, in order, before anything else, and none is kept back.\<close>

theorem early_frames_delivered:
  assumes "client_of c ws" "text_trim c = c" "serverId \<noteq> []" "\<not> hasServerDataSocket c st" "ro_pendingFrames st c = None"
    and "length ms \<le> 200" "length ms \<le> working"
    and "client_sends alive ws ms st = (st1, o1)" "relay_fetch alive working uuid (data_request serverId c) st1 = (st2, o2, resp)"
  shows "o1 = [] \<and> resp = SwitchingProtocols (ro_next st) \<and> frames_to o2 = map (Pair (ro_next st)) ms
    \<and> ro_pendingFrames st2 c = None \<and> hasServerDataSocket c st2"
proof -
  have c: "c \<noteq> []" using assms(1) by (auto simp: client_of_def socket_ok_def)
  have s1: "st1 = st\<lparr>ro_pendingFrames := (ro_pendingFrames st)(c := if ms = [] then None else Some ms)\<rparr>" "o1 = []"
    using buffered_frames [OF assms(1,4), of "[]" ms alive] assms(5,6,8) by (cases "ms = []"; simp)+
  then have "ro_pendingFrames st1 c = (if ms = [] then None else Some ms)" by simp
  from data_fetched [OF assms(3) c assms(2) this assms(7)] assms(9) s1 show ?thesis
    by (auto simp: accept_socket_def hasServerDataSocket_def getWebSockets_def new_socket_def data_tags [OF c])
qed

text \<open>When a send fails during the flush, the frame at which it failed is kept, and the later ones are gone.\<close>

lemma flush_failure_loses:
  assumes "ro_pendingFrames st c = Some [a, b, d]" "flushFrames 1 c k st = (st', outs)"
  shows "outs = [ToSocket k a] \<and> ro_pendingFrames st' c = Some [b]"
  using assms by (auto simp: flushFrames_def bufferFrame_def Let_def)

section \<open>A concrete run\<close>

definition sample_request :: "codes \<Rightarrow> codes \<Rightarrow> RelayRequest" where
  "sample_request r c =
     \<lparr>rq_upgrade = Some (js ''websocket''), rq_role = Some r, rq_serverId = Some (js ''s1''),
      rq_connectionId = Some c, rq_v = Some (js ''2'')\<rparr>"

definition always :: "nat \<Rightarrow> bool" where "always k = True"

definition sample_relay_client :: RelaySocket where
  "sample_relay_client = new_socket 0 (tags_for ClientRole (js ''c1'')) (js ''s1'') ClientRole V2 (Some (js ''c1''))"

definition sample_joined :: RelayDurableObject where
  "sample_joined = \<lparr>ro_sockets = [sample_relay_client], ro_pendingFrames = Map.empty, ro_next = 1\<rparr>"

lemma sample_trim: "text_trim (js ''c1'') = js ''c1''"
  by (simp add: text_trim_def code_space_def js_def)

lemma sample_join:
  "relay_fetch always 0 [] (sample_request (js ''client'') (js ''c1'')) new_object = (sample_joined, [], SwitchingProtocols 0)"
proof -
  have "text_trim (js ''c1'') = js ''c1''" "js ''c1'' \<noteq> []" "js ''s1'' \<noteq> []" "js ''client'' \<noteq> js ''server''"
    by (rule sample_trim) (simp_all add: js_def)
  moreover have "requireWebSocketUpgrade (sample_request (js ''client'') (js ''c1'')) = None"
    by (simp add: requireWebSocketUpgrade_def sample_request_def ascii_lower_def js_def)
  ultimately show ?thesis
    by (simp add: relay_fetch_def sample_request_def version_two fetchV2_def Let_def closeExistingServerSockets_def
        notifyControls_def getWebSockets_def accept_socket_def new_object_def new_socket_def sample_joined_def sample_relay_client_def tags_for_def)
qed

lemma sample_joined_run: "relay_run sample_joined [sample_relay_client] [] []"
  using Fetches [OF Start, of "sample_request (js ''client'') (js ''c1'')"] sample_join version_two
  by (fastforce simp: sample_request_def new_object_def sample_joined_def)

lemma sample_client_of: "client_of (js ''c1'') sample_relay_client"
proof -
  have "socket_ok (new_socket 0 (tags_for ClientRole (js ''c1'')) (js ''s1'') ClientRole V2 (if js ''c1'' = [] then None else Some (js ''c1'')))"
    by (rule new_socket_ok) (simp add: js_def)
  then show ?thesis by (simp add: client_of_def sample_relay_client_def new_socket_def js_def)
qed

definition sample_frame1 :: payload where "sample_frame1 = TextData (js ''a'')"
definition sample_frame2 :: payload where "sample_frame2 = TextData (js ''b'')"

definition sample_held :: RelayDurableObject where
  "sample_held = sample_joined\<lparr>ro_pendingFrames := [js ''c1'' \<mapsto> [sample_frame1, sample_frame2]]\<rparr>"

lemma sample_no_server: "\<not> hasServerDataSocket (js ''c1'') sample_joined"
  by (simp add: hasServerDataSocket_def getWebSockets_def sample_joined_def sample_relay_client_def new_socket_def tags_for_def)

lemma sample_sends: "client_sends always sample_relay_client [sample_frame1, sample_frame2] sample_joined = (sample_held, [])"
  using buffered_frames [OF sample_client_of sample_no_server, of "[]" "[sample_frame1, sample_frame2]" always]
  by (simp add: sample_held_def sample_joined_def)

lemma sample_held_run:
  "relay_run sample_held [sample_relay_client] [(sample_relay_client, sample_frame1), (sample_relay_client, sample_frame2)] []"
proof -
  have m1: "webSocketMessage always sample_relay_client sample_frame1 sample_joined = (bufferFrame (js ''c1'') sample_frame1 sample_joined, [])"
    by (rule buffering [OF sample_client_of sample_no_server])
  have "\<not> hasServerDataSocket (js ''c1'') (bufferFrame (js ''c1'') sample_frame1 sample_joined)"
    using sample_no_server by (simp add: bufferFrame_def Let_def hasServerDataSocket_def getWebSockets_def)
  note m2 = buffering [OF sample_client_of this, of always sample_frame2]
  have "bufferFrame (js ''c1'') sample_frame2 (bufferFrame (js ''c1'') sample_frame1 sample_joined) = sample_held"
    by (simp add: bufferFrame_def Let_def sample_held_def sample_joined_def)
  moreover have "sample_relay_client \<in> set (ro_sockets sample_joined)" by (simp add: sample_joined_def)
  moreover have "sample_relay_client \<in> set (ro_sockets (bufferFrame (js ''c1'') sample_frame1 sample_joined))"
    by (simp add: sample_joined_def bufferFrame_def Let_def)
  ultimately show ?thesis
    using Messages [OF Messages [OF sample_joined_run _ m1] _ m2] by simp
qed

theorem relay_memory_bounded_witness:
  "ro_pendingFrames sample_held (js ''c1'') = Some [sample_frame1, sample_frame2]
   \<and> length [sample_frame1, sample_frame2] \<le> 200 \<and> hasClientSocket (js ''c1'') sample_held"
proof -
  have "ro_pendingFrames sample_held (js ''c1'') = Some [sample_frame1, sample_frame2]" by (simp add: sample_held_def)
  with relay_memory_bounded [OF sample_held_run] show ?thesis by blast
qed

lemma sample_attach:
  "relay_fetch always 2 [] (data_request (js ''s1'') (js ''c1'')) sample_held =
    ((accept_socket (tags_for ServerRole (js ''c1'')) (js ''s1'') ServerRole V2 (Some (js ''c1'')) sample_held)\<lparr>ro_pendingFrames := Map.empty\<rparr>,
     map (ToSocket 1) [sample_frame1, sample_frame2], SwitchingProtocols 1)"
proof -
  have "close_all (data_tag (js ''c1'')) 1008 sample_held = []"
    using sample_no_server by (simp add: close_all_def hasServerDataSocket_def getWebSockets_def sample_held_def)
  moreover have "js ''s1'' \<noteq> []" "js ''c1'' \<noteq> []" by (simp_all add: js_def)
  ultimately show ?thesis
    using data_fetched [of "js ''s1''" "js ''c1''" sample_held "[sample_frame1, sample_frame2]" 2 always "[]"] sample_trim
    by (simp add: sample_held_def sample_joined_def)
qed

theorem early_frames_delivered_witness:
  "client_sends always sample_relay_client [sample_frame1, sample_frame2] sample_joined = (sample_held, [])
   \<and> frames_to (fst (snd (relay_fetch always 2 [] (data_request (js ''s1'') (js ''c1'')) sample_held))) = map (Pair 1) [sample_frame1, sample_frame2]"
proof -
  have "js ''s1'' \<noteq> []" by (simp add: js_def)
  then show ?thesis
    using sample_sends sample_attach early_frames_delivered [OF sample_client_of sample_trim _ sample_no_server _ _ _ sample_sends sample_attach]
    by (simp add: sample_joined_def)
qed

theorem relay_routes_witness:
  "\<exists>st ever rcv snt s. relay_run st ever rcv snt \<and> s \<in> set ever \<and> so_connectionId s = Some (js ''c1'')
    \<and> sent_to (so_id s) snt = [sample_frame1, sample_frame2]
    \<and> subseq (sent_to (so_id s) snt) (from_side (other_side (so_role s)) (js ''c1'') rcv)"
proof -
  let ?s = "new_socket 1 (tags_for ServerRole (js ''c1'')) (js ''s1'') ServerRole V2 (Some (js ''c1''))"
  let ?st = "(accept_socket (tags_for ServerRole (js ''c1'')) (js ''s1'') ServerRole V2 (Some (js ''c1'')) sample_held)\<lparr>ro_pendingFrames := Map.empty\<rparr>"
  have "relay_run ?st ([sample_relay_client] @ drop (length (ro_sockets sample_held)) (ro_sockets ?st))
      [(sample_relay_client, sample_frame1), (sample_relay_client, sample_frame2)] ([] @ frames_to (map (ToSocket 1) [sample_frame1, sample_frame2]))"
    using Fetches [OF sample_held_run _ sample_attach] version_two by (simp add: data_request_def)
  then have run: "relay_run ?st [sample_relay_client, ?s] [(sample_relay_client, sample_frame1), (sample_relay_client, sample_frame2)]
      (map (Pair 1) [sample_frame1, sample_frame2])"
    by (simp add: accept_socket_def sample_held_def sample_joined_def)
  moreover have "sent_to (so_id ?s) (map (Pair 1) [sample_frame1, sample_frame2]) = [sample_frame1, sample_frame2]"
    by (simp only: sent_to_simps) (simp add: new_socket_def)
  moreover have "so_connectionId ?s = Some (js ''c1'')" by (simp add: new_socket_def)
  ultimately show ?thesis
    using relay_routes [OF run, of ?s] by (intro exI [of _ ?st] exI [of _ "[sample_relay_client, ?s]"] exI [of _ ?s] exI) auto
qed

end
