(* ===== verification/RelayTransport.thy ===== *)
theory RelayTransport
  imports RelayObject
begin

text \<open>
  The daemon's side of the relay (\<open>server/relay-transport.ts\<close>): the control socket, its keepalive and
  reconnection, and a data socket for every connection the relay announces. Sockets are numbered as
  they are created; what a handler does to them is its list of actions. The variables that a handler of one
  control socket closes over are those of the current one, for every handler first checks that its
  socket is current.
\<close>

section \<open>Control messages\<close>

definition control_json :: "control_message \<Rightarrow> json" where
  "control_json m =
     (let typ = (\<lambda>t. (js ''type'', JString (js t)))
      in case m of
           Sync ids \<Rightarrow> JObject [typ ''sync'', (js ''connectionIds'', JArray (map JString ids))]
         | Connected c \<Rightarrow> JObject [typ ''connected'', (js ''connectionId'', JString c)]
         | Disconnected c \<Rightarrow> JObject [typ ''disconnected'', (js ''connectionId'', JString c)]
         | Ping \<Rightarrow> JObject [typ ''ping'']
         | Pong \<Rightarrow> JObject [typ ''pong''])"

definition control_text :: "control_message \<Rightarrow> codes" where
  "control_text m = json_print (control_json m)"

definition named_connection :: "json \<Rightarrow> codes option" where
  "named_connection v = (case json_member (js ''connectionId'') v of
       Some (JString c) \<Rightarrow> if text_trim c \<noteq> [] then Some (text_trim c) else None
     | _ \<Rightarrow> None)"

definition string_ids :: "json list \<Rightarrow> codes list" where
  "string_ids vs = List.map_filter (\<lambda>v. case v of JString c \<Rightarrow> if text_trim c \<noteq> [] then Some c else None | _ \<Rightarrow> None) vs"

definition tryParseControlMessage :: "codes \<Rightarrow> control_message option" where
  "tryParseControlMessage t =
     (case json_parse t of
        None \<Rightarrow> None
      | Some v \<Rightarrow>
          (case json_member (js ''type'') v of
             Some (JString typ) \<Rightarrow>
               if typ = js ''ping'' then Some Ping
               else if typ = js ''pong'' then Some Pong
               else if typ = js ''sync'' then
                 (case json_member (js ''connectionIds'') v of Some (JArray vs) \<Rightarrow> Some (Sync (string_ids vs)) | _ \<Rightarrow> None)
               else if typ = js ''connected'' then map_option Connected (named_connection v)
               else if typ = js ''disconnected'' then map_option Disconnected (named_connection v)
               else None
           | _ \<Rightarrow> None))"

section \<open>The transport\<close>

record RelayTransport =
  rt_stopped :: bool
  rt_controlWs :: "nat option"
  rt_controlConnected :: bool
  rt_reconnectTimeout :: "nat option"
  rt_reconnectAttempt :: nat
  rt_dataSockets :: "codes \<rightharpoonup> nat"
  rt_keepalive :: bool
  rt_readyTimeout :: bool
  rt_lastSeenAt :: int
  rt_next :: nat

datatype transport_action =
    OpenControl nat
  | OpenData nat codes
  | AttachData nat codes
  | CloseWs nat
  | TerminateWs nat
  | PingWs nat
  | SendWs nat control_message

definition CONTROL_STALE_TIMEOUT_MS :: int where "CONTROL_STALE_TIMEOUT_MS = 30000"

definition connectControl :: "RelayTransport \<Rightarrow> RelayTransport \<times> transport_action list" where
  "connectControl t =
     (if rt_stopped t then (t, [])
      else (t\<lparr>rt_controlWs := Some (rt_next t), rt_controlConnected := False, rt_next := rt_next t + 1\<rparr>,
            [OpenControl (rt_next t)]))"

definition startRelayTransport :: "RelayTransport \<times> transport_action list" where
  "startRelayTransport =
     connectControl \<lparr>rt_stopped = False, rt_controlWs = None, rt_controlConnected = False, rt_reconnectTimeout = None,
       rt_reconnectAttempt = 0, rt_dataSockets = Map.empty, rt_keepalive = False, rt_readyTimeout = False,
       rt_lastSeenAt = 0, rt_next = 0\<rparr>"

definition scheduleReconnect :: "RelayTransport \<Rightarrow> RelayTransport" where
  "scheduleReconnect t =
     (if rt_stopped t then t
      else if rt_reconnectTimeout t \<noteq> None then t
      else t\<lparr>rt_reconnectAttempt := rt_reconnectAttempt t + 1,
             rt_reconnectTimeout := Some (min 30000 (1000 * (rt_reconnectAttempt t + 1)))\<rparr>)"

definition reconnect_fires :: "RelayTransport \<Rightarrow> RelayTransport \<times> transport_action list" where
  "reconnect_fires t = connectControl (t\<lparr>rt_reconnectTimeout := None\<rparr>)"

definition ping_or_terminate :: "nat \<Rightarrow> bool \<Rightarrow> transport_action list" where
  "ping_or_terminate k pinged = (if pinged then [PingWs k] else [TerminateWs k])"

definition control_open :: "nat \<Rightarrow> int \<Rightarrow> bool \<Rightarrow> RelayTransport \<Rightarrow> RelayTransport \<times> transport_action list" where
  "control_open k now pinged t =
     (if rt_controlWs t \<noteq> Some k then (t, [])
      else (t\<lparr>rt_lastSeenAt := now, rt_keepalive := True, rt_readyTimeout := True\<rparr>, ping_or_terminate k pinged))"

definition ready_timeout :: "nat \<Rightarrow> RelayTransport \<Rightarrow> transport_action list" where
  "ready_timeout k t =
     (if rt_stopped t \<or> rt_controlWs t \<noteq> Some k \<or> rt_controlConnected t then [] else [TerminateWs k])"

definition keepalive_tick :: "nat \<Rightarrow> int \<Rightarrow> bool \<Rightarrow> bool \<Rightarrow> RelayTransport \<Rightarrow> transport_action list" where
  "keepalive_tick k now readyStateOpen pinged t =
     (if rt_stopped t \<or> rt_controlWs t \<noteq> Some k \<or> \<not> readyStateOpen then []
      else if now - rt_lastSeenAt t > CONTROL_STALE_TIMEOUT_MS then [TerminateWs k]
      else ping_or_terminate k pinged)"

definition control_closed :: "nat \<Rightarrow> RelayTransport \<Rightarrow> RelayTransport" where
  "control_closed k t =
     (if rt_controlWs t \<noteq> Some k then t
      else scheduleReconnect (t\<lparr>rt_controlWs := None, rt_keepalive := False, rt_readyTimeout := False\<rparr>))"

definition control_pong :: "nat \<Rightarrow> int \<Rightarrow> RelayTransport \<Rightarrow> RelayTransport" where
  "control_pong k now t = (if rt_controlWs t \<noteq> Some k then t else t\<lparr>rt_lastSeenAt := now\<rparr>)"

definition markControlReady :: "RelayTransport \<Rightarrow> RelayTransport" where
  "markControlReady t =
     (if rt_controlConnected t then t
      else t\<lparr>rt_controlConnected := True, rt_reconnectAttempt := 0, rt_readyTimeout := False\<rparr>)"

definition ensureClientDataSocket :: "codes \<Rightarrow> RelayTransport \<Rightarrow> RelayTransport \<times> transport_action list" where
  "ensureClientDataSocket connectionId t =
     (if rt_stopped t \<or> connectionId = [] \<or> rt_dataSockets t connectionId \<noteq> None then (t, [])
      else (t\<lparr>rt_dataSockets := (rt_dataSockets t)(connectionId \<mapsto> rt_next t), rt_next := rt_next t + 1\<rparr>,
            [OpenData (rt_next t) connectionId]))"

fun ensure_all :: "codes list \<Rightarrow> RelayTransport \<Rightarrow> RelayTransport \<times> transport_action list" where
  "ensure_all [] t = (t, [])"
| "ensure_all (c # cs) t =
     (case ensureClientDataSocket c t of (t', a) \<Rightarrow> case ensure_all cs t' of (t'', b) \<Rightarrow> (t'', a @ b))"

definition on_control_message :: "nat \<Rightarrow> int \<Rightarrow> codes \<Rightarrow> RelayTransport \<Rightarrow> RelayTransport \<times> transport_action list" where
  "on_control_message k now data t =
     (if rt_controlWs t \<noteq> Some k then (t, [])
      else let t1 = t\<lparr>rt_lastSeenAt := now\<rparr>
           in case tryParseControlMessage data of
                None \<Rightarrow> (t1, [])
              | Some msg \<Rightarrow>
                  let t2 = markControlReady t1
                  in (case msg of
                        Ping \<Rightarrow> (t2, [SendWs k Pong])
                      | Pong \<Rightarrow> (t2, [])
                      | Sync ids \<Rightarrow> ensure_all ids t2
                      | Connected c \<Rightarrow> ensureClientDataSocket c t2
                      | Disconnected c \<Rightarrow>
                          (case rt_dataSockets t2 c of
                             None \<Rightarrow> (t2, [])
                           | Some s \<Rightarrow> (t2\<lparr>rt_dataSockets := (rt_dataSockets t2)(c := None)\<rparr>, [CloseWs s]))))"

definition data_open :: "nat \<Rightarrow> codes \<Rightarrow> transport_action list" where
  "data_open k connectionId = [AttachData k connectionId]"

definition data_open_timeout :: "nat \<Rightarrow> bool \<Rightarrow> RelayTransport \<Rightarrow> transport_action list" where
  "data_open_timeout k readyStateOpen t = (if rt_stopped t \<or> readyStateOpen then [] else [TerminateWs k])"

definition data_closed :: "nat \<Rightarrow> codes \<Rightarrow> RelayTransport \<Rightarrow> RelayTransport" where
  "data_closed k connectionId t =
     (if rt_dataSockets t connectionId = Some k then t\<lparr>rt_dataSockets := (rt_dataSockets t)(connectionId := None)\<rparr> else t)"

text \<open>The sockets in the map of data sockets are closed in the order of their keys; the order is left open, as a list of the map's values.\<close>

definition stop_transport :: "nat list \<Rightarrow> RelayTransport \<Rightarrow> RelayTransport \<times> transport_action list" where
  "stop_transport socks t =
     (t\<lparr>rt_stopped := True, rt_reconnectTimeout := None, rt_keepalive := False, rt_readyTimeout := False,
        rt_controlWs := None, rt_dataSockets := Map.empty\<rparr>,
      (case rt_controlWs t of None \<Rightarrow> [] | Some k \<Rightarrow> [CloseWs k]) @ map CloseWs socks)"

section \<open>Runs\<close>

inductive transport_run :: "RelayTransport \<Rightarrow> transport_action list \<Rightarrow> bool" where
  Starts: "startRelayTransport = (t, a) \<Longrightarrow> transport_run t a"
| Opens: "transport_run t a \<Longrightarrow> control_open k now pinged t = (t', b) \<Longrightarrow> transport_run t' (a @ b)"
| ReadyTimeout: "transport_run t a \<Longrightarrow> rt_readyTimeout t \<Longrightarrow> transport_run t (a @ ready_timeout k t)"
| Keepalive: "transport_run t a \<Longrightarrow> rt_keepalive t \<Longrightarrow> transport_run t (a @ keepalive_tick k now readyStateOpen pinged t)"
| ControlCloses: "transport_run t a \<Longrightarrow> transport_run (control_closed k t) a"
| Pongs: "transport_run t a \<Longrightarrow> transport_run (control_pong k now t) a"
| Messages: "transport_run t a \<Longrightarrow> on_control_message k now data t = (t', b) \<Longrightarrow> transport_run t' (a @ b)"
| Reconnects: "transport_run t a \<Longrightarrow> rt_reconnectTimeout t \<noteq> None \<Longrightarrow> reconnect_fires t = (t', b) \<Longrightarrow> transport_run t' (a @ b)"
| DataOpens: "transport_run t a \<Longrightarrow> transport_run t (a @ data_open k c)"
| DataTimeout: "transport_run t a \<Longrightarrow> transport_run t (a @ data_open_timeout k readyStateOpen t)"
| DataCloses: "transport_run t a \<Longrightarrow> transport_run (data_closed k c t) a"
| Stops: "transport_run t a \<Longrightarrow> set socks = ran (rt_dataSockets t) \<Longrightarrow> stop_transport socks t = (t', b) \<Longrightarrow> transport_run t' (a @ b)"

definition transport_ok :: "RelayTransport \<Rightarrow> bool" where
  "transport_ok t =
     (if rt_stopped t then rt_controlWs t = None \<and> rt_reconnectTimeout t = None \<and> rt_dataSockets t = Map.empty \<and> \<not> rt_keepalive t
      else case rt_reconnectTimeout t of
             None \<Rightarrow> rt_controlWs t \<noteq> None
           | Some delay \<Rightarrow> rt_controlWs t = None \<and> \<not> rt_keepalive t \<and> 1000 \<le> delay \<and> delay \<le> 30000)"

lemma ensure_ok:
  "ensureClientDataSocket c t = (t', a) \<Longrightarrow> transport_ok t \<Longrightarrow> transport_ok t'"
  by (auto simp: ensureClientDataSocket_def transport_ok_def split: if_splits option.splits)

lemma ensure_all_ok: "ensure_all cs t = (t', a) \<Longrightarrow> transport_ok t \<Longrightarrow> transport_ok t'"
  by (induction cs arbitrary: t t' a) (auto split: prod.splits dest: ensure_ok)

lemma mark_ok: "transport_ok t \<Longrightarrow> transport_ok (markControlReady (t\<lparr>rt_lastSeenAt := now\<rparr>))"
  by (auto simp: markControlReady_def transport_ok_def split: if_splits option.splits)

lemma message_step_ok: "on_control_message k now data t = (t', a) \<Longrightarrow> transport_ok t \<Longrightarrow> transport_ok t'"
proof -
  assume m: "on_control_message k now data t = (t', a)" and ok: "transport_ok t"
  have seen: "transport_ok (t\<lparr>rt_lastSeenAt := now\<rparr>)" using ok by (auto simp: transport_ok_def split: if_splits option.splits)
  note ready = mark_ok [OF ok, of now]
  have dropped: "transport_ok (u\<lparr>rt_dataSockets := (rt_dataSockets u)(c := None)\<rparr>)" if "transport_ok u" for u c
    using that by (auto simp: transport_ok_def split: if_splits option.splits)
  show ?thesis
  proof (cases "rt_controlWs t = Some k \<and> tryParseControlMessage data \<noteq> None")
    case False
    with m ok seen show ?thesis by (auto simp: on_control_message_def split: if_splits)
  next
    case True
    then obtain msg where "tryParseControlMessage data = Some msg" by auto
    with True m ready dropped [OF ready] ensure_ok [OF _ ready] ensure_all_ok [OF _ ready] show ?thesis
      by (cases msg) (auto simp: on_control_message_def Let_def split: option.splits)
  qed
qed

lemma transport_run_ok: "transport_run t a \<Longrightarrow> transport_ok t"
proof (induction rule: transport_run.induct)
  case (Starts t a)
  then show ?case by (auto simp: startRelayTransport_def connectControl_def transport_ok_def)
next
  case (Opens t a k now pinged t' b)
  then show ?case by (auto simp: control_open_def transport_ok_def split: if_splits option.splits)
next
  case (ControlCloses t a k)
  then show ?case
    by (auto simp: control_closed_def scheduleReconnect_def transport_ok_def split: if_splits option.splits)
next
  case (Pongs t a k now)
  then show ?case by (auto simp: control_pong_def transport_ok_def split: if_splits option.splits)
next
  case (Messages t a k now data t' b)
  then show ?case using message_step_ok by blast
next
  case (Reconnects t a t' b)
  then show ?case by (auto simp: reconnect_fires_def connectControl_def transport_ok_def split: if_splits option.splits)
next
  case (DataCloses t a k c)
  then show ?case by (auto simp: data_closed_def transport_ok_def split: if_splits option.splits)
next
  case (Stops t a socks t' b)
  then show ?case by (auto simp: stop_transport_def transport_ok_def)
qed simp_all


section \<open>What the relay announces is read\<close>

lemma announced_read:
  assumes "list_all scalar c" "text_trim c \<noteq> []"
  shows "tryParseControlMessage (control_text (Connected c)) = Some (Connected (text_trim c))"
    "tryParseControlMessage (control_text (Disconnected c)) = Some (Disconnected (text_trim c))"
proof -
  have "json_plain (control_json (Connected c))" "json_plain (control_json (Disconnected c))"
    using assms(1) by (simp_all add: control_json_def Let_def js_scalar js_inj)
  then have "json_parse (control_text (Connected c)) = Some (control_json (Connected c))"
    "json_parse (control_text (Disconnected c)) = Some (control_json (Disconnected c))"
    using json_roundtrip by (simp_all only: control_text_def)
  then show "tryParseControlMessage (control_text (Connected c)) = Some (Connected (text_trim c))"
    "tryParseControlMessage (control_text (Disconnected c)) = Some (Disconnected (text_trim c))"
    using assms(2) by (simp_all add: tryParseControlMessage_def control_json_def Let_def json_member_def named_connection_def js_inj)
qed

lemma synced_read:
  assumes "list_all (list_all scalar) ids" "\<forall>c\<in>set ids. text_trim c \<noteq> []"
  shows "tryParseControlMessage (control_text (Sync ids)) = Some (Sync ids)"
proof -
  have "json_plain (control_json (Sync ids))" using assms(1) js_scalar by (auto simp: control_json_def Let_def list_all_iff js_inj)
  then have "json_parse (control_text (Sync ids)) = Some (control_json (Sync ids))"
    using json_roundtrip by (simp only: control_text_def)
  moreover have "string_ids (map JString ids) = ids"
    using assms(2) by (induction ids) (simp_all add: string_ids_def map_filter_def)
  ultimately show ?thesis by (simp add: tryParseControlMessage_def control_json_def Let_def json_member_def js_inj)
qed

lemma announced_opens:
  assumes "list_all scalar c" "text_trim c = c" "c \<noteq> []" "rt_controlWs t = Some k" "\<not> rt_stopped t" "rt_dataSockets t c = None"
  shows "snd (on_control_message k now (control_text (Connected c)) t) = [OpenData (rt_next t) c]"
proof -
  have "rt_next (markControlReady u) = rt_next u" "rt_stopped (markControlReady u) = rt_stopped u"
    "rt_dataSockets (markControlReady u) = rt_dataSockets u" for u
    by (simp_all add: markControlReady_def)
  then show ?thesis
    using assms announced_read(1) [OF assms(1)] by (simp add: on_control_message_def Let_def ensureClientDataSocket_def)
qed

section \<open>Properties\<close>

text \<open>C20. The daemon never gives up the relay and never outlives its stop: in every reachable state that has not been stopped there is a
  control socket or, with no control socket, a pending reconnection within one to thirty seconds, never both; after the stop there
  is neither, no data socket is tracked and no keepalive runs.\<close>

theorem control_never_abandoned:
  assumes "transport_run t a"
  shows "if rt_stopped t then rt_controlWs t = None \<and> rt_reconnectTimeout t = None \<and> rt_dataSockets t = Map.empty \<and> \<not> rt_keepalive t
    else (rt_controlWs t = None \<longleftrightarrow> rt_reconnectTimeout t \<noteq> None) \<and> rt_reconnectTimeout t \<in> {None} \<union> Some ` {1000..30000}"
  using transport_run_ok [OF assms] by (auto simp: transport_ok_def split: if_splits option.splits)

text \<open>The connection a client's request names, or is given.\<close>

definition joined_as :: "codes \<Rightarrow> RelayRequest \<Rightarrow> codes" where
  "joined_as uuid q =
     (let c = (case rq_connectionId q of Some c \<Rightarrow> text_trim c | None \<Rightarrow> []) in if c = [] then assigned_id uuid else c)"

definition client_joins :: "codes \<Rightarrow> RelayRequest \<Rightarrow> bool" where
  "client_joins serverId q =
     (serverId \<noteq> [] \<and> rq_serverId q = Some serverId \<and> rq_role q = Some (js ''client'')
      \<and> resolveRelayVersion (rq_v q) = Some V2 \<and> requireWebSocketUpgrade q = None)"

lemma joined_not_empty: "joined_as uuid q \<noteq> []"
  by (simp add: joined_as_def Let_def assigned_id_def js_def)

text \<open>What the relay does when a client joins: the socket is taken in and every control socket that works is told.\<close>

lemma client_fetched:
  assumes "client_joins serverId q" "c = joined_as uuid q"
  shows "relay_fetch alive working uuid q st =
    (accept_socket (tags_for ClientRole c) serverId ClientRole V2 (Some c) st,
     notifyControls alive (Connected c) st, SwitchingProtocols (ro_next st))"
proof -
  let ?n = "case rq_connectionId q of Some c \<Rightarrow> text_trim c | None \<Rightarrow> []"
  have roles: "js ''client'' \<noteq> js ''server''" by (simp add: js_def)
  have fetch: "relay_fetch alive working uuid q st = fetchV2 alive working uuid q ClientRole serverId ?n st"
    using assms(1) roles by (simp add: relay_fetch_def client_joins_def Let_def)
  have same: "notifyControls alive m (accept_socket (tags_for ClientRole c) serverId ClientRole V2 (Some c) st) = notifyControls alive m st"
    for m by (simp add: notifyControls_def getWebSockets_def accept_socket_def new_socket_def tags_for_def)
  have c: "(if ?n = [] then assigned_id uuid else ?n) = c" using assms(2) by (simp add: joined_as_def Let_def)
  show ?thesis
    using assms(1) joined_not_empty [of uuid q] same c
    unfolding fetch fetchV2_def client_joins_def assms(2) [symmetric]
    by (simp add: Let_def closeExistingServerSockets_def tags_for_def)
qed

text \<open>C18. A client reaches the daemon. Let a client join the relay (a websocket request for the role \<open>client\<close>, with a
  connection id of its own or the one the relay assigns) while a control socket of the daemon works and the connection has neither a
  data socket nor frames held back. The relay takes the client in and, in the same request, announces the connection on the control
  socket; the frames the client then sends are held; the daemon, which reads the announcement, opens a socket for that connection;
  when the relay takes that socket in, the daemon receives the client's frames on it, all of them and in order; and what the client
  sends from then on is forwarded to it at once. The side conditions: up to 200 early frames (the relay's bound), sends that
  work, and a connection id that has no surrounding blanks and no lone surrogates.\<close>

theorem client_reaches_daemon:
  assumes "client_joins serverId q" "c = joined_as uuid q" "text_trim c = c" "list_all scalar c"
    and "\<not> hasServerDataSocket c st" "ro_pendingFrames st c = None"
    and "rt_controlWs t = Some k" "\<not> rt_stopped t" "rt_dataSockets t c = None" "s \<in> set (getWebSockets control_tag st)" "alive (so_id s)"
    and "length ms \<le> 200" "length ms \<le> working" "alive (Suc (ro_next st))"
  shows "\<exists>st0 o0 ws st1 st2 o2.
    relay_fetch alive working uuid q st = (st0, o0, SwitchingProtocols (ro_next st))
    \<and> ToControl (so_id s) (Connected c) \<in> set o0
    \<and> ro_sockets st0 = ro_sockets st @ [ws] \<and> so_id ws = ro_next st
    \<and> client_sends alive ws ms st0 = (st1, [])
    \<and> snd (on_control_message k now (control_text (Connected c)) t) = [OpenData (rt_next t) c]
    \<and> relay_fetch alive working uuid' (data_request serverId c) st1 = (st2, o2, SwitchingProtocols (Suc (ro_next st)))
    \<and> frames_to o2 = map (Pair (Suc (ro_next st))) ms
    \<and> webSocketMessage alive ws m st2 = (st2, [ToSocket (Suc (ro_next st)) m])"
proof -
  have c: "c \<noteq> []" using assms(2) joined_not_empty by simp
  let ?ws = "new_socket (ro_next st) (tags_for ClientRole c) serverId ClientRole V2 (Some c)"
  let ?st0 = "accept_socket (tags_for ClientRole c) serverId ClientRole V2 (Some c) st"
  have ws: "client_of c ?ws" using c by (simp add: client_of_def socket_ok_def new_socket_def tags_for_def)
  have st0: "\<not> hasServerDataSocket c ?st0" "ro_pendingFrames ?st0 c = (if ([] :: payload list) = [] then None else Some [])"
    using assms(5,6) by (simp_all add: hasServerDataSocket_def getWebSockets_def accept_socket_def new_socket_def tags_for_def)
  let ?st1 = "?st0\<lparr>ro_pendingFrames := (ro_pendingFrames ?st0)(c := if ms = [] then None else Some ms)\<rparr>"
  let ?st2 = "(accept_socket (tags_for ServerRole c) serverId ServerRole V2 (Some c) ?st1)\<lparr>ro_pendingFrames := (ro_pendingFrames ?st1)(c := None)\<rparr>"
  have sent: "client_sends alive ?ws ms ?st0 = (?st1, [])"
    using buffered_frames [OF ws st0(1) _ st0(2), of ms alive] assms(12) by simp
  have next1: "ro_next ?st1 = Suc (ro_next st)" by (simp add: accept_socket_def)
  have "ro_pendingFrames ?st1 c = (if ms = [] then None else Some ms)" by simp
  note taken = data_fetched [OF _ c assms(3) this assms(13), of serverId alive uuid', unfolded next1]
  have told: "ToControl (so_id s) (Connected c) \<in> set (notifyControls alive (Connected c) st)"
    using assms(10,11) by (auto simp: notifyControls_def)
  have "filter (\<lambda>s. data_tag c \<in> set (so_tags s)) (ro_sockets st) = []"
    using assms(5) by (simp add: hasServerDataSocket_def getWebSockets_def)
  then have sock: "getWebSockets (data_tag c) ?st2 = [new_socket (Suc (ro_next st)) (tags_for ServerRole c) serverId ServerRole V2 (Some c)]"
    using c by (simp add: getWebSockets_def accept_socket_def new_socket_def tags_for_def)
  then have later: "webSocketMessage alive ?ws m ?st2 = (?st2, [ToSocket (Suc (ro_next st)) m])"
    using assms(14) by (simp add: webSocketMessage_def Let_def forward_def new_socket_def)
  have sid: "serverId \<noteq> []" using assms(1) by (simp add: client_joins_def)
  show ?thesis
    using client_fetched [OF assms(1,2), of alive working st] told sent taken [OF sid] later
      announced_opens [OF assms(4,3) c assms(7,8,9)]
    by (intro exI [of _ ?st0] exI [of _ "notifyControls alive (Connected c) st"] exI [of _ ?ws] exI [of _ ?st1] exI [of _ ?st2]
        exI [of _ "close_all (data_tag c) 1008 ?st1 @ map (ToSocket (Suc (ro_next st))) ms"])
      (simp add: accept_socket_def new_socket_def)
qed

section \<open>A concrete meeting\<close>

definition sample_transport :: RelayTransport where
  "sample_transport = fst startRelayTransport"

lemma sample_transport_run: "transport_run sample_transport [OpenControl 0]"
  by (rule Starts) (simp add: sample_transport_def startRelayTransport_def connectControl_def)

theorem control_never_abandoned_witness:
  "\<exists>t a. transport_run t a \<and> \<not> rt_stopped t \<and> rt_controlWs t = None \<and> rt_reconnectTimeout t = Some 1000
    \<and> rt_reconnectTimeout t \<in> {None} \<union> Some ` {1000..30000}"
proof -
  have run: "transport_run (control_closed 0 sample_transport) [OpenControl 0]" by (rule ControlCloses [OF sample_transport_run])
  have t: "\<not> rt_stopped (control_closed 0 sample_transport)" "rt_controlWs (control_closed 0 sample_transport) = None"
    "rt_reconnectTimeout (control_closed 0 sample_transport) = Some 1000"
    by (simp_all add: control_closed_def scheduleReconnect_def sample_transport_def startRelayTransport_def connectControl_def)
  then show ?thesis using run control_never_abandoned [OF run] by auto
qed

definition sample_control :: RelaySocket where
  "sample_control = new_socket 7 (tags_for ServerRole []) (js ''s1'') ServerRole V2 None"

definition sample_meeting :: RelayDurableObject where
  "sample_meeting = \<lparr>ro_sockets = [sample_control], ro_pendingFrames = Map.empty, ro_next = 8\<rparr>"

definition sample_joining :: RelayRequest where
  "sample_joining = \<lparr>rq_upgrade = Some (js ''WebSocket''), rq_role = Some (js ''client''), rq_serverId = Some (js ''s1''),
     rq_connectionId = Some (js ''c1''), rq_v = Some (js ''2'')\<rparr>"

theorem client_reaches_daemon_witness:
  "\<exists>st0 o0 ws st1 st2 o2.
    relay_fetch always 2 [] sample_joining sample_meeting = (st0, o0, SwitchingProtocols 8)
    \<and> ToControl 7 (Connected (js ''c1'')) \<in> set o0
    \<and> client_sends always ws [sample_frame1, sample_frame2] st0 = (st1, [])
    \<and> snd (on_control_message 0 0 (control_text (Connected (js ''c1''))) sample_transport) = [OpenData (rt_next sample_transport) (js ''c1'')]
    \<and> relay_fetch always 2 [] (data_request (js ''s1'') (js ''c1'')) st1 = (st2, o2, SwitchingProtocols 9)
    \<and> frames_to o2 = map (Pair 9) [sample_frame1, sample_frame2]"
proof -
  have ids: "so_id sample_control = 7"
    by (simp add: sample_control_def new_socket_def)
  have nexts: "ro_next sample_meeting = 8" "Suc 8 = 9" by (simp_all add: sample_meeting_def)
  have on: "always n" for n by (simp add: always_def)
  have joins: "client_joins (js ''s1'') sample_joining"
    using version_two by (simp add: client_joins_def sample_joining_def requireWebSocketUpgrade_def ascii_lower_def js_def)
  have c: "js ''c1'' = joined_as [] sample_joining"
    using sample_trim by (simp add: joined_as_def sample_joining_def Let_def) (simp add: js_def)
  have chars: "list_all scalar (js ''c1'')" by (simp add: js_def scalar_def)
  have st: "\<not> hasServerDataSocket (js ''c1'') sample_meeting" "ro_pendingFrames sample_meeting (js ''c1'') = None"
      "sample_control \<in> set (getWebSockets control_tag sample_meeting)"
    by (simp_all add: sample_meeting_def hasServerDataSocket_def getWebSockets_def sample_control_def new_socket_def tags_for_def)
  have t: "rt_controlWs sample_transport = Some 0" "\<not> rt_stopped sample_transport" "rt_dataSockets sample_transport (js ''c1'') = None"
    by (simp_all add: sample_transport_def startRelayTransport_def connectControl_def)
  have "length [sample_frame1, sample_frame2] \<le> 200" "length [sample_frame1, sample_frame2] \<le> 2" by simp_all
  note met = client_reaches_daemon [where alive = always, OF joins c sample_trim chars st(1,2) t st(3) on this on,
      where uuid' = "[]" and now = 0 and m = sample_frame1, unfolded ids nexts]
  show ?thesis using met by blast
qed

end
