(* ===== verification/PidLock.thy ===== *)
theory PidLock
  imports Utf8
begin

text \<open>
  The lock that keeps two daemons from sharing a state directory (\<open>server/pid-lock.ts\<close>). Daemons that start are
  processes that share one file; each step of a process is one operation on the file system, and the steps of
  different processes interleave in any order. The file holds a lock, or something that is not one
  (\<open>None\<close>), and has a modification time. Which processes run is the argument \<open>alive\<close>.
\<close>

section \<open>Locks\<close>

record BrandIdentity =
  bi_id :: codes
  bi_applicationId :: codes

record PidLockInfo =
  pl_brand :: "BrandIdentity option"
  pl_pid :: int
  pl_startedAt :: codes
  pl_hostname :: codes
  pl_uid :: int
  pl_listen :: "codes option"
  pl_desktopManaged :: "bool option"
  pl_heartbeat :: bool

datatype PidLockError =
    OtherProduct PidLockInfo
  | LockHeld PidLockInfo
  | LockChanged
  | LockRace
  | LockMissing
  | LockInvalid
  | LockNotOwned PidLockInfo

definition PID_LOCK_STALE_MS :: int where "PID_LOCK_STALE_MS = 5 * 60000"
definition PID_LOCK_READ_RETRY_ATTEMPTS :: nat where "PID_LOCK_READ_RETRY_ATTEMPTS = 10"

definition frogg_id :: codes where "frogg_id = map of_char ''frogg''"

definition matchesBrand :: "BrandIdentity \<Rightarrow> BrandIdentity option \<Rightarrow> bool" where
  "matchesBrand expected actual = (case actual of None \<Rightarrow> bi_id expected = frogg_id | Some b \<Rightarrow> b = expected)"

record lock_fs =
  lf_file :: "(PidLockInfo option \<times> int) option"

definition readPidLock :: "lock_fs \<Rightarrow> PidLockInfo option" where
  "readPidLock fs = (case lf_file fs of Some (Some l, _) \<Rightarrow> Some l | _ \<Rightarrow> None)"

definition lock_exists :: "lock_fs \<Rightarrow> bool" where
  "lock_exists fs = (lf_file fs \<noteq> None)"

definition isPidLockFresh :: "int \<Rightarrow> lock_fs \<Rightarrow> bool" where
  "isPidLockFresh now fs = (case lf_file fs of Some (_, mtime) \<Rightarrow> now - PID_LOCK_STALE_MS \<le> mtime | None \<Rightarrow> False)"

definition touchPidLockFile :: "int \<Rightarrow> lock_fs \<Rightarrow> lock_fs" where
  "touchPidLockFile now fs = fs\<lparr>lf_file := map_option (\<lambda>(c, _). (c, now)) (lf_file fs)\<rparr>"

definition resolveOwnerPid :: "int \<Rightarrow> int option \<Rightarrow> int" where
  "resolveOwnerPid processPid ownerPid = (case ownerPid of Some p \<Rightarrow> if p > 0 then p else processPid | None \<Rightarrow> processPid)"

section \<open>Acquiring\<close>

text \<open>A daemon that starts: its own lock and whether it may take over a stale lock of the desktop.\<close>

record starter =
  st_lock :: PidLockInfo
  st_reclaim :: bool

definition canReclaimLiveLock :: "PidLockInfo \<Rightarrow> starter \<Rightarrow> bool" where
  "canReclaimLiveLock lock s = (st_reclaim s \<and> pl_desktopManaged lock = Some True)"

definition isSamePidLock :: "PidLockInfo \<Rightarrow> PidLockInfo \<Rightarrow> bool" where
  "isSamePidLock left right = (pl_pid left = pl_pid right \<and> pl_startedAt left = pl_startedAt right)"

text \<open>Where a process is in \<open>acquirePidLock\<close>: the operation on the file system it does next.\<close>

datatype acquire_pc =
    AtRead nat
  | AtExists nat
  | AtUnreadable
  | AtClear PidLockInfo
  | AtTouch
  | AtFresh PidLockInfo
  | AtConfirm PidLockInfo
  | AtConfirmFresh PidLockInfo
  | AtUnlink
  | AtLink
  | AtRaceRead nat
  | AtRaceExists nat
  | Holds
  | Refused PidLockError

definition clear_decision :: "BrandIdentity \<Rightarrow> (int \<Rightarrow> bool) \<Rightarrow> starter \<Rightarrow> PidLockInfo \<Rightarrow> acquire_pc" where
  "clear_decision brand alive s lock =
     (if \<not> matchesBrand brand (pl_brand lock) then Refused (OtherProduct lock)
      else if pl_pid lock = pl_pid (st_lock s) \<and> alive (pl_pid lock) then AtTouch
      else if alive (pl_pid lock) then (if canReclaimLiveLock lock s then AtFresh lock else Refused (LockHeld lock))
      else AtUnlink)"

definition acquire_step ::
  "BrandIdentity \<Rightarrow> (int \<Rightarrow> bool) \<Rightarrow> int \<Rightarrow> starter \<Rightarrow> lock_fs \<Rightarrow> acquire_pc \<Rightarrow> lock_fs \<times> acquire_pc" where
  "acquire_step brand alive now s fs pc =
     (case pc of
        AtRead n \<Rightarrow> (fs, case readPidLock fs of Some l \<Rightarrow> AtClear l | None \<Rightarrow> AtExists n)
      | AtExists n \<Rightarrow>
          (fs, if \<not> lock_exists fs then AtUnreadable
               else if n + 1 < PID_LOCK_READ_RETRY_ATTEMPTS then AtRead (n + 1) else AtUnreadable)
      | AtUnreadable \<Rightarrow> (fs, if lock_exists fs then AtUnlink else AtLink)
      | AtClear l \<Rightarrow> (fs, clear_decision brand alive s l)
      | AtTouch \<Rightarrow> if lock_exists fs then (touchPidLockFile now fs, Holds) else (fs, Refused LockMissing)
      | AtFresh l \<Rightarrow> (fs, if isPidLockFresh now fs then Refused (LockHeld l) else AtConfirm l)
      | AtConfirm l \<Rightarrow>
          (fs, case readPidLock fs of
                 Some l' \<Rightarrow> if isSamePidLock l l' then AtConfirmFresh l else Refused LockChanged
               | None \<Rightarrow> Refused LockChanged)
      | AtConfirmFresh l \<Rightarrow> (fs, if isPidLockFresh now fs then Refused LockChanged else AtUnlink)
      | AtUnlink \<Rightarrow> (fs\<lparr>lf_file := None\<rparr>, AtLink)
      | AtLink \<Rightarrow>
          (if lock_exists fs then (fs, AtRaceRead 0) else (fs\<lparr>lf_file := Some (Some (st_lock s), now)\<rparr>, Holds))
      | AtRaceRead n \<Rightarrow> (fs, case readPidLock fs of Some l \<Rightarrow> Refused (LockHeld l) | None \<Rightarrow> AtRaceExists n)
      | AtRaceExists n \<Rightarrow>
          (fs, if lock_exists fs \<and> n + 1 < PID_LOCK_READ_RETRY_ATTEMPTS then AtRaceRead (n + 1) else Refused LockRace)
      | Holds \<Rightarrow> (fs, pc)
      | Refused e \<Rightarrow> (fs, pc))"

section \<open>The other operations\<close>

definition refreshPidLock :: "BrandIdentity \<Rightarrow> int \<Rightarrow> int \<Rightarrow> lock_fs \<Rightarrow> PidLockError + lock_fs" where
  "refreshPidLock brand owner now fs =
     (case lf_file fs of
        None \<Rightarrow> Inl LockMissing
      | Some (None, _) \<Rightarrow> Inl LockInvalid
      | Some (Some l, _) \<Rightarrow>
          if pl_pid l \<noteq> owner \<or> \<not> matchesBrand brand (pl_brand l) then Inl (LockNotOwned l)
          else Inr (touchPidLockFile now fs))"

text \<open>An update reads and checks the lock, empties the file and writes it; in between the file is unreadable.\<close>

definition update_check :: "BrandIdentity \<Rightarrow> int \<Rightarrow> lock_fs \<Rightarrow> PidLockError + PidLockInfo" where
  "update_check brand owner fs =
     (case lf_file fs of
        None \<Rightarrow> Inl LockMissing
      | Some (None, _) \<Rightarrow> Inl LockInvalid
      | Some (Some l, _) \<Rightarrow>
          if pl_pid l \<noteq> owner \<or> \<not> matchesBrand brand (pl_brand l) then Inl (LockNotOwned l) else Inr l)"

definition update_truncate :: "int \<Rightarrow> lock_fs \<Rightarrow> lock_fs" where
  "update_truncate now fs = fs\<lparr>lf_file := Some (None, now)\<rparr>"

definition update_write :: "codes \<Rightarrow> PidLockInfo \<Rightarrow> int \<Rightarrow> lock_fs \<Rightarrow> lock_fs" where
  "update_write listen l now fs = fs\<lparr>lf_file := Some (Some (l\<lparr>pl_listen := Some listen\<rparr>), now)\<rparr>"

definition updatePidLock :: "BrandIdentity \<Rightarrow> int \<Rightarrow> codes \<Rightarrow> int \<Rightarrow> lock_fs \<Rightarrow> PidLockError + lock_fs" where
  "updatePidLock brand owner listen now fs =
     (case update_check brand owner fs of
        Inl e \<Rightarrow> Inl e
      | Inr l \<Rightarrow> Inr (update_write listen l now (update_truncate now fs)))"

definition releasePidLock :: "BrandIdentity \<Rightarrow> int \<Rightarrow> lock_fs \<Rightarrow> lock_fs" where
  "releasePidLock brand owner fs =
     (case readPidLock fs of
        Some l \<Rightarrow> if pl_pid l = owner \<and> matchesBrand brand (pl_brand l) then fs\<lparr>lf_file := None\<rparr> else fs
      | None \<Rightarrow> fs)"

definition isLocked :: "(int \<Rightarrow> bool) \<Rightarrow> lock_fs \<Rightarrow> bool \<times> PidLockInfo option" where
  "isLocked alive fs =
     (case readPidLock fs of None \<Rightarrow> (False, None) | Some l \<Rightarrow> (alive (pl_pid l), Some l))"

section \<open>Daemons that start at once\<close>

record lock_system =
  ls_fs :: lock_fs
  ls_pcs :: "acquire_pc list"

text \<open>A heartbeat of a process refreshes the lock; when the refresh fails (the lock is not that process's, or is gone) the
  file stays as it is.\<close>

datatype lock_event = Moves nat int | Heartbeat int int

definition lock_event_step :: "BrandIdentity \<Rightarrow> (int \<Rightarrow> bool) \<Rightarrow> starter list \<Rightarrow> lock_event \<Rightarrow> lock_system \<Rightarrow> lock_system" where
  "lock_event_step brand alive ss e y =
     (case e of
        Moves i now \<Rightarrow>
          (if i < length ss \<and> i < length (ls_pcs y)
           then (case acquire_step brand alive now (ss ! i) (ls_fs y) (ls_pcs y ! i) of
                   (fs, pc) \<Rightarrow> y\<lparr>ls_fs := fs, ls_pcs := (ls_pcs y)[i := pc]\<rparr>)
           else y)
      | Heartbeat owner now \<Rightarrow>
          (case refreshPidLock brand owner now (ls_fs y) of Inl _ \<Rightarrow> y | Inr fs \<Rightarrow> y\<lparr>ls_fs := fs\<rparr>))"

definition lock_events :: "BrandIdentity \<Rightarrow> (int \<Rightarrow> bool) \<Rightarrow> starter list \<Rightarrow> lock_event list \<Rightarrow> lock_system \<Rightarrow> lock_system" where
  "lock_events brand alive ss es y = fold (lock_event_step brand alive ss) es y"

definition starting :: "(PidLockInfo option \<times> int) option \<Rightarrow> nat \<Rightarrow> lock_system" where
  "starting file n = \<lparr>ls_fs = \<lparr>lf_file = file\<rparr>, ls_pcs = replicate n (AtRead 0)\<rparr>"

text \<open>The owner's heartbeats come in time: whenever a process moves, the last of them is not stale.\<close>

fun timely :: "BrandIdentity \<Rightarrow> PidLockInfo \<Rightarrow> int \<Rightarrow> lock_event list \<Rightarrow> bool" where
  "timely brand lock mtime [] = True"
| "timely brand lock mtime (Moves i now # es) = (now - PID_LOCK_STALE_MS \<le> mtime \<and> timely brand lock mtime es)"
| "timely brand lock mtime (Heartbeat owner now # es) =
     timely brand lock (if owner = pl_pid lock \<and> matchesBrand brand (pl_brand lock) then now else mtime) es"

definition lock_respected :: "PidLockInfo \<Rightarrow> acquire_pc \<Rightarrow> bool" where
  "lock_respected lock pc =
     (case pc of AtRead _ \<Rightarrow> True | AtClear l \<Rightarrow> l = lock | AtFresh l \<Rightarrow> l = lock | Refused _ \<Rightarrow> True | _ \<Rightarrow> False)"

lemma step_lock_respected:
  assumes "lock_respected lock pc" "lf_file fs = Some (Some lock, mtime)" "alive (pl_pid lock)" "pl_pid (st_lock s) \<noteq> pl_pid lock"
    and "\<not> canReclaimLiveLock lock s \<or> now - PID_LOCK_STALE_MS \<le> mtime"
    and "\<not> canReclaimLiveLock lock s \<longrightarrow> pc \<noteq> AtFresh lock"
  shows "fst (acquire_step brand alive now s fs pc) = fs \<and> lock_respected lock (snd (acquire_step brand alive now s fs pc))
    \<and> (\<not> canReclaimLiveLock lock s \<longrightarrow> snd (acquire_step brand alive now s fs pc) \<noteq> AtFresh lock)"
  using assms
  by (cases pc) (simp_all add: lock_respected_def acquire_step_def readPidLock_def clear_decision_def isPidLockFresh_def)

definition guarded :: "PidLockInfo \<Rightarrow> starter list \<Rightarrow> int \<Rightarrow> lock_system \<Rightarrow> bool" where
  "guarded lock ss mtime y =
     (lf_file (ls_fs y) = Some (Some lock, mtime) \<and> length (ls_pcs y) = length ss
      \<and> (\<forall>i<length ss. lock_respected lock (ls_pcs y ! i) \<and> (\<not> canReclaimLiveLock lock (ss ! i) \<longrightarrow> ls_pcs y ! i \<noteq> AtFresh lock)))"

lemma events_guarded:
  assumes "alive (pl_pid lock)" "\<forall>s\<in>set ss. pl_pid (st_lock s) \<noteq> pl_pid lock"
  shows "guarded lock ss mtime y \<Longrightarrow> (\<forall>s\<in>set ss. \<not> canReclaimLiveLock lock s) \<or> timely brand lock mtime es \<Longrightarrow>
    \<exists>mtime'. guarded lock ss mtime' (lock_events brand alive ss es y)"
proof (induction es arbitrary: mtime y)
  case Nil
  then show ?case by (auto simp: lock_events_def)
next
  case (Cons e es)
  let ?y = "lock_event_step brand alive ss e y"
  have tail: "lock_events brand alive ss (e # es) y = lock_events brand alive ss es ?y" by (simp add: lock_events_def)
  show ?case
  proof (cases e)
    case (Heartbeat owner now)
    let ?mtime = "if owner = pl_pid lock \<and> matchesBrand brand (pl_brand lock) then now else mtime"
    from Heartbeat have "guarded lock ss ?mtime ?y"
      using Cons.prems(1)
      by (auto simp: guarded_def lock_event_step_def refreshPidLock_def readPidLock_def lock_exists_def touchPidLockFile_def)
    with Cons.IH [of ?mtime ?y] Cons.prems(2) Heartbeat tail show ?thesis by simp
  next
    case (Moves i now)
    have "guarded lock ss mtime ?y"
    proof (cases "i < length ss")
      case True
      note step = step_lock_respected [of lock "ls_pcs y ! i" "ls_fs y" mtime alive "ss ! i" now brand]
      have "\<not> canReclaimLiveLock lock (ss ! i) \<or> now - PID_LOCK_STALE_MS \<le> mtime"
        using Cons.prems(2) Moves True by auto
      with step Cons.prems(1) assms True show ?thesis
        by (auto simp: guarded_def lock_event_step_def Moves nth_list_update split: prod.splits)
    next
      case False
      with Cons.prems(1) Moves show ?thesis by (simp add: lock_event_step_def)
    qed
    with Cons.IH [of mtime ?y] Cons.prems(2) Moves tail show ?thesis by auto
  qed
qed

section \<open>Alone\<close>

fun alone :: "nat \<Rightarrow> BrandIdentity \<Rightarrow> (int \<Rightarrow> bool) \<Rightarrow> int \<Rightarrow> starter \<Rightarrow> lock_fs \<times> acquire_pc \<Rightarrow> lock_fs \<times> acquire_pc" where
  "alone 0 brand alive now s x = x"
| "alone (Suc n) brand alive now s x = alone n brand alive now s (acquire_step brand alive now s (fst x) (snd x))"

lemma alone_add: "alone (m + n) brand alive now s x = alone n brand alive now s (alone m brand alive now s x)"
  by (induction m arbitrary: x) auto

definition decided :: "acquire_pc \<Rightarrow> bool" where
  "decided pc = (case pc of Holds \<Rightarrow> True | Refused _ \<Rightarrow> True | _ \<Rightarrow> False)"

lemma decided_simps [simp]: "decided Holds" "decided (Refused e)"
  by (simp_all add: decided_def)

lemma decided_stays: "decided pc \<Longrightarrow> acquire_step brand alive now s fs pc = (fs, pc)"
  by (cases pc) (simp_all add: decided_def acquire_step_def)

lemma alone_done: "decided pc \<Longrightarrow> alone n brand alive now s (fs, pc) = (fs, pc)"
  by (induction n) (simp_all add: decided_stays)

lemma alone_after:
  assumes "alone m brand alive now s x = (fs, pc)" "decided pc" "m \<le> n"
  shows "alone n brand alive now s x = (fs, pc)"
proof -
  obtain k where "n = m + k" using \<open>m \<le> n\<close> le_Suc_ex by blast
  with assms show ?thesis by (simp add: alone_add alone_done)
qed

definition own_lock :: "starter \<Rightarrow> int \<Rightarrow> lock_fs" where
  "own_lock s now = \<lparr>lf_file = Some (Some (st_lock s), now)\<rparr>"

definition lone_outcome :: "BrandIdentity \<Rightarrow> (int \<Rightarrow> bool) \<Rightarrow> int \<Rightarrow> starter \<Rightarrow> lock_fs \<Rightarrow> lock_fs \<times> acquire_pc" where
  "lone_outcome brand alive now s fs =
     (case lf_file fs of
        None \<Rightarrow> (own_lock s now, Holds)
      | Some (None, _) \<Rightarrow> (own_lock s now, Holds)
      | Some (Some l, mtime) \<Rightarrow>
          if \<not> matchesBrand brand (pl_brand l) then (fs, Refused (OtherProduct l))
          else if \<not> alive (pl_pid l) then (own_lock s now, Holds)
          else if pl_pid l = pl_pid (st_lock s) then (touchPidLockFile now fs, Holds)
          else if canReclaimLiveLock l s \<and> mtime < now - PID_LOCK_STALE_MS then (own_lock s now, Holds)
          else (fs, Refused (LockHeld l)))"

lemma fs_own [simp]: "fs\<lparr>lf_file := Some (Some (st_lock s), now)\<rparr> = own_lock s now" for fs :: lock_fs
  by (simp add: own_lock_def)

lemma unreadable_retries:
  assumes "lf_file fs = Some (None, t)"
  shows "k \<le> 9 \<Longrightarrow> alone (2 * (10 - k)) brand alive now s (fs, AtRead k) = (fs, AtUnreadable)"
proof (induction "9 - k" arbitrary: k)
  case 0
  then have "k = 9" by simp
  with assms show ?case
    by (simp add: numeral_2_eq_2 acquire_step_def readPidLock_def lock_exists_def PID_LOCK_READ_RETRY_ATTEMPTS_def)
next
  case (Suc d)
  then have "2 * (10 - k) = Suc (Suc (2 * (10 - Suc k)))" by simp
  moreover have "alone (2 * (10 - Suc k)) brand alive now s (fs, AtRead (Suc k)) = (fs, AtUnreadable)"
    using Suc by (intro Suc(1)) auto
  ultimately show ?case
    using assms Suc by (simp add: acquire_step_def readPidLock_def lock_exists_def PID_LOCK_READ_RETRY_ATTEMPTS_def)
qed

lemmas alone_simps = acquire_step_def readPidLock_def lock_exists_def clear_decision_def isPidLockFresh_def isSamePidLock_def

lemma lone_unreadable:
  assumes "lf_file fs = Some (None, t)"
  shows "alone 23 brand alive now s (fs, AtRead 0) = (own_lock s now, Holds)"
proof -
  have reads: "alone 20 brand alive now s (fs, AtRead 0) = (fs, AtUnreadable)"
    using unreadable_retries [OF assms, of 0] by simp
  have "alone (20 + 3) brand alive now s (fs, AtRead 0) = (own_lock s now, Holds)"
    unfolding alone_add reads using assms by (simp add: numeral_3_eq_3 acquire_step_def lock_exists_def)
  then show ?thesis by simp
qed

lemma lone_absent:
  assumes "lf_file fs = None"
  shows "alone 4 brand alive now s (fs, AtRead 0) = (own_lock s now, Holds)"
  using assms by (simp add: eval_nat_numeral acquire_step_def readPidLock_def lock_exists_def)

lemma lone_lock:
  assumes "lf_file fs = Some (Some l, mtime)"
  shows "\<exists>k\<le>7. alone k brand alive now s (fs, AtRead 0) = lone_outcome brand alive now s fs"
proof -
  have unlinks: "alone 2 brand alive now s (fs, AtUnlink) = (own_lock s now, Holds)"
    by (simp add: eval_nat_numeral acquire_step_def lock_exists_def)
  consider
      (product) "\<not> matchesBrand brand (pl_brand l)"
    | (dead) "matchesBrand brand (pl_brand l)" "\<not> alive (pl_pid l)"
    | (own) "matchesBrand brand (pl_brand l)" "alive (pl_pid l)" "pl_pid l = pl_pid (st_lock s)"
    | (stale) "matchesBrand brand (pl_brand l)" "alive (pl_pid l)" "pl_pid l \<noteq> pl_pid (st_lock s)"
        "canReclaimLiveLock l s" "mtime < now - PID_LOCK_STALE_MS"
    | (held) "matchesBrand brand (pl_brand l)" "alive (pl_pid l)" "pl_pid l \<noteq> pl_pid (st_lock s)"
        "\<not> (canReclaimLiveLock l s \<and> mtime < now - PID_LOCK_STALE_MS)"
    by blast
  then show ?thesis
  proof cases
    case product
    with assms have "alone 2 brand alive now s (fs, AtRead 0) = lone_outcome brand alive now s fs"
      by (simp add: eval_nat_numeral alone_simps lone_outcome_def)
    then show ?thesis by (intro exI [of _ 2]) simp
  next
    case dead
    with assms unlinks have "alone (2 + 2) brand alive now s (fs, AtRead 0) = lone_outcome brand alive now s fs"
      unfolding alone_add by (simp add: numeral_2_eq_2 alone_simps lone_outcome_def)
    then show ?thesis by (intro exI [of _ 4]) simp
  next
    case own
    with assms have "alone 3 brand alive now s (fs, AtRead 0) = lone_outcome brand alive now s fs"
      by (simp add: eval_nat_numeral alone_simps lone_outcome_def)
    then show ?thesis by (intro exI [of _ 3]) simp
  next
    case stale
    then have "alone 5 brand alive now s (fs, AtRead 0) = (fs, AtUnlink)"
      using assms by (simp add: eval_nat_numeral alone_simps)
    with unlinks have "alone (5 + 2) brand alive now s (fs, AtRead 0) = (own_lock s now, Holds)"
      unfolding alone_add by simp
    with assms stale show ?thesis by (intro exI [of _ 7]) (simp add: lone_outcome_def)
  next
    case held
    with assms have "alone 3 brand alive now s (fs, AtRead 0) = lone_outcome brand alive now s fs"
      by (cases "canReclaimLiveLock l s") (simp_all add: eval_nat_numeral alone_simps lone_outcome_def decided_stays)
    then show ?thesis by (intro exI [of _ 3]) simp
  qed
qed

lemma lone_outcome_decided: "decided (snd (lone_outcome brand alive now s fs))"
  by (auto simp: lone_outcome_def split: option.splits)

text \<open>C38. A daemon that starts alone always comes to a decision, in at most 23 operations on the lock file, and the decision
  is the documented one: it takes the lock when there is no file, when the file is not a lock even after the ten reads, when the
  owner is dead, or when the desktop may reclaim a live lock whose heartbeat is stale; it keeps a lock it has already, with a
  new heartbeat; otherwise it leaves the file as it is and is refused with the reason.\<close>
theorem lone_start_decides:
  assumes "23 \<le> n"
  shows "alone n brand alive now s (fs, AtRead 0) = lone_outcome brand alive now s fs"
proof -
  have "\<exists>k\<le>23. alone k brand alive now s (fs, AtRead 0) = lone_outcome brand alive now s fs"
  proof (cases "lf_file fs")
    case None
    then show ?thesis using lone_absent [of fs brand alive now s] by (intro exI [of _ 4]) (simp add: lone_outcome_def)
  next
    case (Some f)
    obtain c t where f: "f = (c, t)" by fastforce
    show ?thesis
    proof (cases c)
      case None
      with Some f show ?thesis using lone_unreadable [of fs t brand alive now s]
        by (intro exI [of _ 23]) (simp add: lone_outcome_def)
    next
      case (Some l)
      with \<open>lf_file fs = Some f\<close> f have "lf_file fs = Some (Some l, t)" by simp
      from lone_lock [OF this, of brand alive now s] show ?thesis by (meson le_trans numeral_le_iff semiring_norm)
    qed
  qed
  then show ?thesis using alone_after lone_outcome_decided assms by (metis le_trans surjective_pairing)
qed

text \<open>C37. A lock whose owner runs is not taken, in two cases: none of the daemons that start may reclaim it (it is not a desktop
  lock, or they were not told to reclaim one), or the owner's heartbeats come in time (whenever a process moves, the last one is
  less than five minutes old). However the operations of the daemons, none of which has the owner's pid, interleave with
  each other and with heartbeats of any process, the file still holds that lock and none of them believes it holds one.
  In the remaining case, a stale desktop lock that may be reclaimed, taking it is what the code is for. The owner's own
  update of the lock, which truncates the file first, is not among the operations.\<close>
theorem live_lock_respected:
  fixes lock mtime es brand alive ss
  defines "y \<equiv> lock_events brand alive ss es (starting (Some (Some lock, mtime)) (length ss))"
  assumes "alive (pl_pid lock)" "\<forall>s\<in>set ss. pl_pid (st_lock s) \<noteq> pl_pid lock"
    and "(\<forall>s\<in>set ss. \<not> canReclaimLiveLock lock s) \<or> timely brand lock mtime es"
  shows "readPidLock (ls_fs y) = Some lock \<and> length (ls_pcs y) = length ss \<and> Holds \<notin> set (ls_pcs y)"
proof -
  have "guarded lock ss mtime (starting (Some (Some lock, mtime)) (length ss))"
    by (simp add: guarded_def starting_def lock_respected_def)
  then obtain mtime' where end_state: "guarded lock ss mtime' y"
    using events_guarded [of alive lock ss mtime _ brand es] assms by blast
  moreover have "\<not> lock_respected lock Holds" by (simp add: lock_respected_def)
  ultimately show ?thesis by (auto simp: guarded_def readPidLock_def in_set_conv_nth)
qed

section \<open>Races\<close>

definition fresh_race :: "int \<Rightarrow> lock_event list" where
  "fresh_race t = replicate 2 (Moves 0 t) @ replicate 4 (Moves 1 t) @ replicate 3 (Moves 0 t)"

definition stale_race :: "int \<Rightarrow> lock_event list" where
  "stale_race t = replicate 2 (Moves 0 t) @ replicate 4 (Moves 1 t) @ replicate 2 (Moves 0 t)"

lemmas race_simps = lock_events_def lock_event_step_def starting_def acquire_step_def readPidLock_def lock_exists_def eval_nat_numeral

text \<open>C39. The lock is not exclusive for daemons that start at once in a fresh state directory. The first finds no lock file;
  before it looks a second time, to remove a file that stays unreadable, the second daemon publishes its lock; the first takes
  that file for the unreadable one, removes it and publishes its own. Both believe they hold the lock.\<close>
theorem lock_not_exclusive:
  "ls_pcs (lock_events brand alive [s0, s1] (fresh_race t) (starting None 2)) = [Holds, Holds]"
  by (simp add: fresh_race_def race_simps)

text \<open>The same when both start over the lock of a dead daemon: the removal is by path, so the first removes the second's lock.\<close>

lemma dead_lock_race:
  assumes "matchesBrand brand (pl_brand dead)" "\<not> alive (pl_pid dead)"
  shows "ls_pcs (lock_events brand alive [s0, s1] (stale_race t) (starting (Some (Some dead, t0)) 2)) = [Holds, Holds]"
  using assms by (simp add: stale_race_def race_simps clear_decision_def)

text \<open>Only the owner's lock is refreshed, updated or released, and a lock of another product is none of them.\<close>

lemma other_owner_untouched:
  assumes "lf_file fs = Some (Some l, t)" "pl_pid l \<noteq> owner \<or> \<not> matchesBrand brand (pl_brand l)"
  shows "refreshPidLock brand owner now fs = Inl (LockNotOwned l)"
    and "updatePidLock brand owner listen now fs = Inl (LockNotOwned l)"
    and "releasePidLock brand owner fs = fs"
  using assms by (auto simp: refreshPidLock_def updatePidLock_def update_check_def releasePidLock_def readPidLock_def)

lemma owner_updates:
  assumes "updatePidLock brand owner listen now fs = Inr fs'"
  shows "\<exists>l. readPidLock fs = Some l \<and> pl_pid l = owner \<and> readPidLock fs' = Some (l\<lparr>pl_listen := Some listen\<rparr>)"
  using assms
  by (auto simp: updatePidLock_def update_check_def update_write_def update_truncate_def readPidLock_def
      split: option.splits sum.splits if_splits)

section \<open>Witnesses\<close>

definition sample_lock :: "int \<Rightarrow> PidLockInfo" where
  "sample_lock p = \<lparr>pl_brand = Some \<lparr>bi_id = [1], bi_applicationId = [2]\<rparr>, pl_pid = p, pl_startedAt = [nat p], pl_hostname = [104],
     pl_uid = 0, pl_listen = None, pl_desktopManaged = Some True, pl_heartbeat = True\<rparr>"

definition sample_starter :: "int \<Rightarrow> starter" where
  "sample_starter p = \<lparr>st_lock = sample_lock p, st_reclaim = True\<rparr>"

lemma lone_start_decides_witness:
  "alone 23 \<lparr>bi_id = [1], bi_applicationId = [2]\<rparr> (\<lambda>p. p = 7) 400000 (sample_starter 8)
      (\<lparr>lf_file = Some (Some (sample_lock 7), 50000)\<rparr>, AtRead 0)
    = (\<lparr>lf_file = Some (Some (sample_lock 8), 400000)\<rparr>, Holds)"
  by (simp add: lone_start_decides lone_outcome_def sample_starter_def sample_lock_def matchesBrand_def canReclaimLiveLock_def
      PID_LOCK_STALE_MS_def own_lock_def)

lemma live_lock_respected_witness:
  "Holds \<notin> set (ls_pcs (lock_events \<lparr>bi_id = [1], bi_applicationId = [2]\<rparr> (\<lambda>p. p = 7) [sample_starter 8, sample_starter 9]
      [Moves 0 200000, Moves 1 250000, Heartbeat 7 260000, Moves 0 500000, Moves 0 500000, Moves 1 550000]
      (starting (Some (Some (sample_lock 7), 50000)) (Suc (Suc 0)))))"
  using live_lock_respected [of "\<lambda>p. p = 7" "sample_lock 7" "[sample_starter 8, sample_starter 9]"
      "\<lparr>bi_id = [1], bi_applicationId = [2]\<rparr>" 50000
      "[Moves 0 200000, Moves 1 250000, Heartbeat 7 260000, Moves 0 500000, Moves 0 500000, Moves 1 550000]"]
  by (simp add: sample_starter_def sample_lock_def PID_LOCK_STALE_MS_def matchesBrand_def)

end
