(* ===== verification/AgentRuns.thy ===== *)
theory AgentRuns
  imports JsArray
begin

text \<open>
  The runs of agents and the streams that report a turn to whoever started it (\<open>server/agent/agent-run-state.ts\<close>).

  A tracked run has a token of its own; its settled flag and its promise are whether the token is in the list of settled
  tokens. An event is anything with a turn id, an argument of the operations that look at it. A stream is the object
  \<open>ForegroundTurnStream\<close>: the waiter that the manager holds and the generator that the consumer resumes share its state.
\<close>

section \<open>Tracked runs\<close>

datatype run_start = StartPending | StartStarted string | StartFailed string

datatype 'e TrackedAgentRun =
    PendingForegroundRun nat "'e list" run_start
  | AutonomousAgentRun nat "string option"

fun run_token :: "'e TrackedAgentRun \<Rightarrow> nat" where
  "run_token (PendingForegroundRun token _ _) = token"
| "run_token (AutonomousAgentRun token _) = token"

record 'e AgentRunState =
  rs_runs :: "(string, 'e TrackedAgentRun) js_map"
  rs_settled :: "nat list"
  rs_created :: nat

definition new_run_state :: "'e AgentRunState" where
  "new_run_state = \<lparr>rs_runs = [], rs_settled = [], rs_created = 0\<rparr>"

definition put_run :: "string \<Rightarrow> 'e TrackedAgentRun \<Rightarrow> 'e AgentRunState \<Rightarrow> 'e AgentRunState" where
  "put_run agentId run rs = rs\<lparr>rs_runs := AList.update agentId run (rs_runs rs)\<rparr>"

definition createPendingRun :: "string \<Rightarrow> 'e AgentRunState \<Rightarrow> nat \<times> 'e AgentRunState" where
  "createPendingRun agentId rs =
     (rs_created rs, put_run agentId (PendingForegroundRun (rs_created rs) [] StartPending) (rs\<lparr>rs_created := rs_created rs + 1\<rparr>))"

definition getRun :: "string \<Rightarrow> 'e AgentRunState \<Rightarrow> 'e TrackedAgentRun option" where
  "getRun agentId rs = map_get (rs_runs rs) agentId"

definition hasRun :: "string \<Rightarrow> 'e AgentRunState \<Rightarrow> bool" where
  "hasRun agentId rs = map_has (rs_runs rs) agentId"

definition getPendingRun :: "string \<Rightarrow> 'e AgentRunState \<Rightarrow> 'e TrackedAgentRun option" where
  "getPendingRun agentId rs =
     (case getRun agentId rs of Some (PendingForegroundRun t es s) \<Rightarrow> Some (PendingForegroundRun t es s) | _ \<Rightarrow> None)"

definition hasPendingRun :: "string \<Rightarrow> 'e AgentRunState \<Rightarrow> bool" where
  "hasPendingRun agentId rs = (getPendingRun agentId rs \<noteq> None)"

fun run_turn :: "'e TrackedAgentRun \<Rightarrow> string option" where
  "run_turn (AutonomousAgentRun _ turnId) = turnId"
| "run_turn (PendingForegroundRun _ _ (StartStarted turnId)) = Some turnId"
| "run_turn (PendingForegroundRun _ _ _) = None"

definition getTurnId :: "string \<Rightarrow> 'e AgentRunState \<Rightarrow> string option" where
  "getTurnId agentId rs = (case getRun agentId rs of None \<Rightarrow> None | Some run \<Rightarrow> run_turn run)"

definition trackAutonomousRun ::
  "string \<Rightarrow> string option \<Rightarrow> 'e AgentRunState \<Rightarrow> 'e TrackedAgentRun \<times> 'e AgentRunState" where
  "trackAutonomousRun agentId turnId rs =
     (case getRun agentId rs of
        Some current \<Rightarrow> (current, rs)
      | None \<Rightarrow>
          (let run = AutonomousAgentRun (rs_created rs) turnId
           in (run, put_run agentId run (rs\<lparr>rs_created := rs_created rs + 1\<rparr>))))"

definition settleTrackedRun :: "'e TrackedAgentRun \<Rightarrow> 'e AgentRunState \<Rightarrow> 'e AgentRunState" where
  "settleTrackedRun run rs =
     (if run_token run \<in> set (rs_settled rs) then rs else rs\<lparr>rs_settled := rs_settled rs @ [run_token run]\<rparr>)"

definition clearRun :: "string \<Rightarrow> 'e TrackedAgentRun \<Rightarrow> 'e AgentRunState \<Rightarrow> 'e AgentRunState" where
  "clearRun agentId run rs = settleTrackedRun run (rs\<lparr>rs_runs := AList.delete agentId (rs_runs rs)\<rparr>)"

text \<open>Whether a terminal event of a turn ends a run: a foreground run only by its own turn, an autonomous run also when
  the run or the event does not name a turn.\<close>

fun ends_run :: "string option \<Rightarrow> 'e TrackedAgentRun \<Rightarrow> bool" where
  "ends_run turnId (PendingForegroundRun _ _ start) = (case start of StartStarted t \<Rightarrow> Some t = turnId | _ \<Rightarrow> False)"
| "ends_run turnId (AutonomousAgentRun _ t) = (t = None \<or> turnId = None \<or> t = turnId)"

definition settleTerminalRun :: "string \<Rightarrow> string option \<Rightarrow> 'e AgentRunState \<Rightarrow> 'e AgentRunState" where
  "settleTerminalRun agentId turnId rs =
     (case getRun agentId rs of None \<Rightarrow> rs | Some run \<Rightarrow> if ends_run turnId run then clearRun agentId run rs else rs)"

definition settleForegroundRun :: "string \<Rightarrow> nat \<Rightarrow> 'e AgentRunState \<Rightarrow> 'e AgentRunState" where
  "settleForegroundRun agentId token rs =
     (case getRun agentId rs of
        Some (PendingForegroundRun t es s) \<Rightarrow> if t = token then clearRun agentId (PendingForegroundRun t es s) rs else rs
      | _ \<Rightarrow> rs)"

definition clearAgentRun :: "string \<Rightarrow> 'e AgentRunState \<Rightarrow> 'e AgentRunState" where
  "clearAgentRun agentId rs = (case getRun agentId rs of None \<Rightarrow> rs | Some run \<Rightarrow> clearRun agentId run rs)"

definition is_settled :: "nat \<Rightarrow> 'e AgentRunState \<Rightarrow> bool" where
  "is_settled token rs = (token \<in> set (rs_settled rs))"

text \<open>What the manager writes into the run object it holds.\<close>

definition set_run_start :: "string \<Rightarrow> nat \<Rightarrow> run_start \<Rightarrow> 'e AgentRunState \<Rightarrow> 'e AgentRunState" where
  "set_run_start agentId token start rs =
     (case getRun agentId rs of
        Some (PendingForegroundRun t es s) \<Rightarrow> if t = token then put_run agentId (PendingForegroundRun t es start) rs else rs
      | _ \<Rightarrow> rs)"

definition stage_event :: "string \<Rightarrow> 'e \<Rightarrow> 'e AgentRunState \<Rightarrow> 'e AgentRunState" where
  "stage_event agentId e rs =
     (case getRun agentId rs of
        Some (PendingForegroundRun t es s) \<Rightarrow> put_run agentId (PendingForegroundRun t (es @ [e]) s) rs
      | _ \<Rightarrow> rs)"

definition staged_events :: "string \<Rightarrow> 'e AgentRunState \<Rightarrow> 'e list" where
  "staged_events agentId rs = (case getRun agentId rs of Some (PendingForegroundRun _ es _) \<Rightarrow> es | _ \<Rightarrow> [])"

definition clear_staged :: "string \<Rightarrow> 'e AgentRunState \<Rightarrow> 'e AgentRunState" where
  "clear_staged agentId rs =
     (case getRun agentId rs of
        Some (PendingForegroundRun t es s) \<Rightarrow> put_run agentId (PendingForegroundRun t [] s) rs
      | _ \<Rightarrow> rs)"

named_theorems runs "what the operations on runs do to the run of an agent"

lemma getRun_put [runs]: "getRun a (put_run b r rs) = (if a = b then Some r else getRun a rs)"
  by (simp add: getRun_def put_run_def get_update)

lemma getRun_clear [runs]: "getRun a (clearRun b r rs) = (if a = b then None else getRun a rs)"
  by (simp add: getRun_def clearRun_def settleTrackedRun_def get_delete)

lemma settled_clear [runs]: "set (rs_settled (clearRun b r rs)) = insert (run_token r) (set (rs_settled rs))"
  by (auto simp: clearRun_def settleTrackedRun_def)

lemma created_clear [runs]: "rs_created (clearRun b r rs) = rs_created rs"
  by (simp add: clearRun_def settleTrackedRun_def)

lemma put_simps [runs]: "rs_settled (put_run a r rs) = rs_settled rs" "rs_created (put_run a r rs) = rs_created rs"
  by (simp_all add: put_run_def)

lemma getRun_created [runs]: "getRun a (rs\<lparr>rs_created := n\<rparr>) = getRun a rs"
  by (simp add: getRun_def)

lemma hasRun_iff [runs]: "hasRun a rs \<longleftrightarrow> getRun a rs \<noteq> None"
  by (simp add: hasRun_def getRun_def map_has_def)

text \<open>The tokens are distinct and a tracked run is not settled.\<close>

definition runs_ok :: "'e AgentRunState \<Rightarrow> bool" where
  "runs_ok rs = ((\<forall>t\<in>set (rs_settled rs). t < rs_created rs)
     \<and> (\<forall>a r. getRun a rs = Some r \<longrightarrow> run_token r < rs_created rs \<and> run_token r \<notin> set (rs_settled rs))
     \<and> (\<forall>a b r s. getRun a rs = Some r \<longrightarrow> getRun b rs = Some s \<longrightarrow> run_token r = run_token s \<longrightarrow> a = b))"

lemma runs_ok_new [simp]: "runs_ok new_run_state"
  by (simp add: runs_ok_def new_run_state_def getRun_def)

lemma runs_ok_clear:
  assumes "runs_ok rs" "getRun a rs = Some r"
  shows "runs_ok (clearRun a r rs)"
  using assms by (simp add: runs_ok_def runs) (metis (no_types))

lemma runs_ok_put_same:
  assumes "runs_ok rs" "getRun a rs = Some r" "run_token r' = run_token r"
  shows "runs_ok (put_run a r' rs)"
  using assms by (simp add: runs_ok_def runs) (metis (no_types))

lemma runs_ok_put_new:
  assumes "runs_ok rs" "run_token r = rs_created rs"
  shows "runs_ok (put_run a r (rs\<lparr>rs_created := rs_created rs + 1\<rparr>))"
  using assms unfolding runs_ok_def by (auto simp: runs less_Suc_eq) (metis less_irrefl)+

section \<open>Streams of a turn\<close>

record 'e ForegroundTurnStream =
  ts_turnId :: string
  ts_settled :: bool
  ts_queue :: "'e list"
  ts_sleeping :: bool
  ts_done :: bool
  ts_finished :: bool
  ts_received :: "'e list"

definition new_stream :: "string \<Rightarrow> 'e ForegroundTurnStream" where
  "new_stream turnId = \<lparr>ts_turnId = turnId, ts_settled = False, ts_queue = [], ts_sleeping = False, ts_done = False,
     ts_finished = False, ts_received = []\<rparr>"

definition wake :: "'e ForegroundTurnStream \<Rightarrow> 'e ForegroundTurnStream" where
  "wake s = s\<lparr>ts_sleeping := False\<rparr>"

definition waiter_callback :: "'e \<Rightarrow> 'e ForegroundTurnStream \<Rightarrow> 'e ForegroundTurnStream" where
  "waiter_callback e s = wake (s\<lparr>ts_queue := ts_queue s @ [e]\<rparr>)"

definition settleWaiter :: "'e ForegroundTurnStream \<Rightarrow> 'e ForegroundTurnStream" where
  "settleWaiter s = s\<lparr>ts_settled := True\<rparr>"

text \<open>One resumption of the generator \<open>events\<close>, up to its next \<open>yield\<close>, its sleep or its end.\<close>

definition stream_next :: "('e \<Rightarrow> bool) \<Rightarrow> 'e ForegroundTurnStream \<Rightarrow> 'e ForegroundTurnStream" where
  "stream_next isTerminalEvent s =
     (if ts_finished s \<or> ts_sleeping s then s
      else if ts_done s then s\<lparr>ts_finished := True\<rparr>
      else (case ts_queue s of
              e # rest \<Rightarrow> s\<lparr>ts_queue := rest, ts_received := ts_received s @ [e], ts_done := isTerminalEvent e\<rparr>
            | [] \<Rightarrow> if ts_settled s then s\<lparr>ts_finished := True\<rparr> else s\<lparr>ts_sleeping := True\<rparr>))"

text \<open>The waiters of an agent are the streams registered for it, by their place in the list of all its streams.\<close>

definition getMatchingWaiters :: "'e ForegroundTurnStream list \<Rightarrow> nat list \<Rightarrow> string option \<Rightarrow> nat list" where
  "getMatchingWaiters streams waiters turnId =
     (case turnId of
        None \<Rightarrow> []
      | Some t \<Rightarrow> filter (\<lambda>i. i < length streams \<and> ts_turnId (streams ! i) = t \<and> \<not> ts_settled (streams ! i)) waiters)"

definition notify_waiter :: "'e \<Rightarrow> bool \<Rightarrow> nat \<Rightarrow> 'e ForegroundTurnStream list \<Rightarrow> 'e ForegroundTurnStream list" where
  "notify_waiter e terminal i streams =
     streams[i := (if terminal then settleWaiter (waiter_callback e (streams ! i)) else waiter_callback e (streams ! i))]"

definition notifyWaiters :: "nat list \<Rightarrow> 'e \<Rightarrow> bool \<Rightarrow> 'e ForegroundTurnStream list \<Rightarrow> 'e ForegroundTurnStream list" where
  "notifyWaiters idxs e terminal streams = fold (notify_waiter e terminal) idxs streams"

definition cancelWaiters :: "nat list \<Rightarrow> (string \<Rightarrow> 'e) \<Rightarrow> 'e ForegroundTurnStream list \<Rightarrow> 'e ForegroundTurnStream list" where
  "cancelWaiters idxs createEvent streams =
     fold (\<lambda>i ss. notify_waiter (createEvent (ts_turnId (ss ! i))) True i ss) idxs streams"

text \<open>The turns of an agent that ended, the oldest first.\<close>

definition rememberFinalizedTurn :: "string \<Rightarrow> string list \<Rightarrow> string list" where
  "rememberFinalizedTurn turnId finalized =
     (let f = (if turnId \<in> set finalized then finalized else finalized @ [turnId])
      in if length f \<le> 50 then f else if hd f = [] then f else tl f)"

definition hasFinalizedTurn :: "string list \<Rightarrow> string \<Rightarrow> bool" where
  "hasFinalizedTurn finalized turnId = (turnId \<in> set finalized)"

section \<open>Streams deliver\<close>

text \<open>What happens to a stream: the manager hands it an event, the last one with the settling, or the consumer resumes it.\<close>

datatype 'e stream_event = Hand 'e | HandLast 'e | Resume

fun stream_step :: "('e \<Rightarrow> bool) \<Rightarrow> 'e stream_event \<Rightarrow> 'e ForegroundTurnStream \<Rightarrow> 'e ForegroundTurnStream" where
  "stream_step isT (Hand e) s = (if ts_settled s then s else waiter_callback e s)"
| "stream_step isT (HandLast e) s = (if ts_settled s then s else settleWaiter (waiter_callback e s))"
| "stream_step isT Resume s = stream_next isT s"

fun handed :: "'e stream_event list \<Rightarrow> 'e list" where
  "handed [] = []"
| "handed (Hand e # es) = e # handed es"
| "handed (HandLast e # es) = [e]"
| "handed (Resume # es) = handed es"

lemma handed_append: "(\<forall>e\<in>set xs. \<not> (\<exists>x. e = HandLast x)) \<Longrightarrow> handed (xs @ ys) = handed xs @ handed ys"
proof (induction xs)
  case (Cons x xs)
  then show ?case by (cases x) auto
qed simp

text \<open>The last event of a stream is the terminal one, and a stream that sleeps has nothing to deliver.\<close>

definition told :: "('e \<Rightarrow> bool) \<Rightarrow> bool \<Rightarrow> 'e list \<Rightarrow> bool" where
  "told isT over xs =
     (if over then xs \<noteq> [] \<and> isT (last xs) \<and> (\<forall>e\<in>set (butlast xs). \<not> isT e) else \<forall>e\<in>set xs. \<not> isT e)"

definition stream_ok :: "('e \<Rightarrow> bool) \<Rightarrow> 'e ForegroundTurnStream \<Rightarrow> bool" where
  "stream_ok isT s =
     (told isT (ts_settled s) (ts_received s @ ts_queue s)
      \<and> (ts_done s \<or> ts_finished s \<longrightarrow> ts_settled s \<and> ts_queue s = [])
      \<and> (ts_sleeping s \<longrightarrow> ts_queue s = [] \<and> \<not> ts_settled s))"

lemma told_hand: "told isT False xs \<Longrightarrow> told isT (isT e) (xs @ [e])"
  by (auto simp: told_def)

lemma told_terminal: "told isT over (xs @ e # rest) \<Longrightarrow> isT e \<Longrightarrow> rest = [] \<and> over"
  by (auto simp: told_def butlast_append split: if_splits)

fun stream_event_ok :: "('e \<Rightarrow> bool) \<Rightarrow> 'e stream_event \<Rightarrow> bool" where
  "stream_event_ok isT (Hand e) = (\<not> isT e)"
| "stream_event_ok isT (HandLast e) = isT e"
| "stream_event_ok isT Resume = True"

lemma stream_ok_new [simp]: "stream_ok isT (new_stream t)"
  by (simp add: stream_ok_def new_stream_def told_def)

lemma hand_ok: "stream_ok isT s \<Longrightarrow> \<not> ts_settled s \<Longrightarrow> \<not> isT e \<Longrightarrow> stream_ok isT (waiter_callback e s)"
  using told_hand [of isT "ts_received s @ ts_queue s" e] by (auto simp: stream_ok_def waiter_callback_def wake_def)

lemma hand_last_ok:
  "stream_ok isT s \<Longrightarrow> \<not> ts_settled s \<Longrightarrow> isT e \<Longrightarrow> stream_ok isT (settleWaiter (waiter_callback e s))"
  using told_hand [of isT "ts_received s @ ts_queue s" e]
  by (auto simp: stream_ok_def waiter_callback_def wake_def settleWaiter_def)

lemma next_ok:
  assumes "stream_ok isT s"
  shows "stream_ok isT (stream_next isT s)"
proof (cases "ts_queue s")
  case Nil
  then consider "stream_next isT s = s"
    | "stream_next isT s = s\<lparr>ts_finished := True\<rparr>" "ts_settled s \<or> ts_done s"
    | "stream_next isT s = s\<lparr>ts_sleeping := True\<rparr>" "\<not> ts_settled s"
    by (cases "ts_finished s \<or> ts_sleeping s"; cases "ts_done s"; cases "ts_settled s"; simp add: stream_next_def)
  then show ?thesis using assms Nil by cases (auto simp: stream_ok_def)
next
  case (Cons e rest)
  then have "\<not> ts_done s" "\<not> ts_finished s" "\<not> ts_sleeping s" using assms by (auto simp: stream_ok_def)
  moreover have "isT e \<Longrightarrow> rest = [] \<and> ts_settled s"
    using told_terminal [of isT "ts_settled s" "ts_received s" e rest] assms Cons by (simp add: stream_ok_def)
  ultimately show ?thesis using assms Cons by (simp add: stream_next_def stream_ok_def)
qed

lemma next_conserves: "ts_received (stream_next isT s) @ ts_queue (stream_next isT s) = ts_received s @ ts_queue s"
  by (simp add: stream_next_def split: list.splits)

lemma next_settled [simp]: "ts_settled (stream_next isT s) = ts_settled s"
  by (simp add: stream_next_def split: list.splits)

lemma settled_drains:
  assumes "stream_ok isT s" "ts_settled s" "length (ts_queue s) + 2 \<le> n"
  shows "ts_finished ((stream_next isT ^^ n) s) \<and> ts_received ((stream_next isT ^^ n) s) = ts_received s @ ts_queue s"
  using assms
proof (induction n arbitrary: s)
  case (Suc n)
  have awake: "\<not> ts_sleeping s" using Suc.prems by (auto simp: stream_ok_def)
  have finished: "(stream_next isT ^^ m) s = s" if "ts_finished s" for m s
    using that by (induction m) (simp_all add: stream_next_def)
  show ?case
  proof (cases "ts_finished s")
    case True
    with finished [of s "Suc n"] Suc.prems show ?thesis by (simp add: stream_ok_def)
  next
    case going: False
    show ?thesis
    proof (cases "ts_queue s")
      case Nil
      with going awake Suc.prems have "ts_finished (stream_next isT s)" "ts_received (stream_next isT s) = ts_received s"
        by (simp_all add: stream_next_def)
      with finished [of "stream_next isT s" n] Nil show ?thesis by (simp add: funpow_swap1)
    next
      case (Cons e rest)
      then have "\<not> ts_done s" using Suc.prems by (auto simp: stream_ok_def)
      with Cons going awake have "length (ts_queue (stream_next isT s)) + 2 \<le> n"
        using Suc.prems by (simp add: stream_next_def)
      from Suc.IH [OF next_ok [OF Suc.prems(1)] _ this] Suc.prems next_conserves [of isT s] show ?thesis
        by (simp add: funpow_swap1)
    qed
  qed
qed simp

lemma stream_steps:
  assumes "stream_ok isT s" "list_all (stream_event_ok isT) es" "ts_settled s \<longrightarrow> hs = []"
    and "\<not> ts_settled s \<longrightarrow> hs = handed es"
  shows "stream_ok isT (fold (stream_step isT) es s)
    \<and> ts_received (fold (stream_step isT) es s) @ ts_queue (fold (stream_step isT) es s) = ts_received s @ ts_queue s @ hs
    \<and> (ts_settled (fold (stream_step isT) es s) \<longleftrightarrow> ts_settled s \<or> (\<exists>e. HandLast e \<in> set es))"
  using assms
proof (induction es arbitrary: s hs)
  case (Cons x es)
  show ?case
  proof (cases "ts_settled s")
    case True
    with Cons.prems have next_s: "stream_ok isT (stream_step isT x s)" "ts_settled (stream_step isT x s)"
        "ts_received (stream_step isT x s) @ ts_queue (stream_step isT x s) = ts_received s @ ts_queue s"
      by (cases x; simp add: next_ok next_conserves)+
    from Cons.IH [OF next_s(1), of "[]"] Cons.prems True next_s(2,3) show ?thesis by simp
  next
    case open_stream: False
    show ?thesis
    proof (cases x)
      case (Hand e)
      with Cons.prems open_stream have "stream_ok isT (stream_step isT x s)" by (simp add: hand_ok)
      from Cons.IH [OF this, of "handed es"] Cons.prems open_stream Hand show ?thesis
        by (simp add: waiter_callback_def wake_def)
    next
      case (HandLast e)
      with Cons.prems open_stream have "stream_ok isT (stream_step isT x s)" by (simp add: hand_last_ok)
      from Cons.IH [OF this, of "[]"] Cons.prems open_stream HandLast show ?thesis
        by (auto simp: waiter_callback_def wake_def settleWaiter_def)
    next
      case Resume
      with Cons.prems have "stream_ok isT (stream_step isT x s)" by (simp add: next_ok)
      from Cons.IH [OF this, of "handed es"] Cons.prems open_stream Resume next_conserves [of isT s] show ?thesis by auto
    qed
  qed
qed (simp, blast)

text \<open>A turn's stream loses nothing and ends. Whatever the order in which the manager hands it events and the consumer
  resumes it, what the consumer has received and what is queued are the events handed to it up to and with the terminal one, in
  order; it sleeps only when nothing is queued and the turn is not over, so no wake-up is lost; and once the terminal event is
  handed to it, it ends after as many more resumptions as events are queued and two, with every event received.\<close>
theorem turn_stream_complete:
  assumes "list_all (stream_event_ok isT) es" "s = fold (stream_step isT) es (new_stream t)"
  shows "ts_received s @ ts_queue s = handed es
    \<and> (ts_sleeping s \<longrightarrow> ts_queue s = [] \<and> \<not> ts_settled s)
    \<and> ((\<exists>e. HandLast e \<in> set es) \<longrightarrow>
         (\<forall>n\<ge>length (ts_queue s) + 2. ts_finished ((stream_next isT ^^ n) s) \<and> ts_received ((stream_next isT ^^ n) s) = handed es))"
proof -
  have start: "\<not> ts_settled (new_stream t :: 'a ForegroundTurnStream)" "ts_received (new_stream t) = ([] :: 'a list)"
      "ts_queue (new_stream t) = ([] :: 'a list)"
    by (simp_all add: new_stream_def)
  have ok: "stream_ok isT s" and all: "ts_received s @ ts_queue s = handed es"
    and over: "ts_settled s \<longleftrightarrow> (\<exists>e. HandLast e \<in> set es)"
    using stream_steps [OF stream_ok_new assms(1), of t "handed es"] start assms(2) by simp_all
  moreover have "ts_sleeping s \<longrightarrow> ts_queue s = [] \<and> \<not> ts_settled s" using ok by (simp add: stream_ok_def)
  moreover have "ts_finished ((stream_next isT ^^ n) s) \<and> ts_received ((stream_next isT ^^ n) s) = handed es"
    if "\<exists>e. HandLast e \<in> set es" "length (ts_queue s) + 2 \<le> n" for n
    using settled_drains [OF ok _ that(2)] over that(1) all by simp
  ultimately show ?thesis by blast
qed

lemma turn_stream_complete_witness:
  "ts_received ((stream_next (\<lambda>n. n = (0::nat)) ^^ 4) (fold (stream_step (\<lambda>n. n = 0)) [Resume, Hand 7, Resume, Hand 8, HandLast 0, Hand 9]
      (new_stream ''t''))) = [7, 8, 0]"
  using turn_stream_complete [of "\<lambda>n. n = (0::nat)" "[Resume, Hand 7, Resume, Hand 8, HandLast 0, Hand 9]" _ "''t''", OF _ refl]
  by (simp add: new_stream_def stream_next_def waiter_callback_def wake_def settleWaiter_def)

end
