(* ===== verification/AgentTurns.thy ===== *)
theory AgentTurns
  imports AgentRuns StreamCoalescer JsString
begin

text \<open>
  The turns of one agent (\<open>server/agent/agent-manager.ts\<close>): prompts that start, replace, steer and cancel turns, the events of
  the provider's session, and what subscribers and the callers' streams are told.

  The world is what the manager keeps for the agent: the agent itself, its tracked run, the streams, the queue of session
  events (the promise chain \<open>sessionEventTails\<close>), the barrier of a steering, the coalescer, its timeline, the prompts in
  progress, and all it has sent to subscribers, oldest first. A step is the code between two awaits that matter: the
  handling of one event is one step. Clocks, random ids and answers of the session are in the readings of a step. Truncating
  the content of items is the argument \<open>lim\<close>.
\<close>

section \<open>Events and agents\<close>

type_synonym usage = "(string, int) js_map"

datatype attention_reason = AttentionFinished | AttentionError | AttentionPermission

datatype permission_resolution = DeniedBecause string | AnsweredWith string

record AgentRuntimeInfo =
  ri_model :: "string option"
  ri_sessionId :: "string option"
  ri_modeId :: "string option"
  ri_thinkingOptionId :: "string option"

datatype event_body =
    ThreadStarted string
  | TurnStarted
  | TurnCompleted "usage option"
  | UsageUpdated usage
  | ModeChanged "string option" "string list"
  | ModelChanged AgentRuntimeInfo
  | ThinkingOptionChanged "string option"
  | TurnFailed string "string option" "string option"
  | TurnCanceled string
  | TimelineOf AgentTimelineItem "string option"
  | PermissionRequested string string
  | PermissionResolved string permission_resolution
  | AttentionRequired attention_reason
  | ProviderSubagent string

record AgentEvent =
  ae_provider :: string
  ae_turnId :: "string option"
  ae_body :: event_body

datatype lifecycle = LifeInitializing | LifeIdle | LifeRunning | LifeError | LifeClosed

record ManagedAgent =
  ma_id :: string
  ma_provider :: string
  ma_lifecycle :: lifecycle
  ma_activeForegroundTurnId :: "string option"
  ma_activeTurnId :: "string option"
  ma_activeTurnStartedAt :: "time_ms option"
  ma_pendingReplacement :: bool
  ma_lastError :: "string option"
  ma_lastUsage :: "usage option"
  ma_lastUsageAt :: "time_ms option"
  ma_lastUserMessageAt :: "time_ms option"
  ma_updatedAt :: time_ms
  ma_attention :: "(attention_reason \<times> time_ms) option"
  ma_internal :: bool
  ma_delegated :: bool
  ma_pendingPermissions :: "(string, string) js_map"
  ma_bufferedResolutions :: "(string, AgentEvent) js_map"
  ma_inFlightResponses :: "string list"
  ma_finalizedTurns :: "string list"
  ma_waiters :: "nat list"
  ma_currentModeId :: "string option"
  ma_availableModes :: "string list"
  ma_runtimeInfo :: "AgentRuntimeInfo option"
  ma_thinkingOptionId :: "string option"
  ma_persistence :: "string option"

datatype manager_event =
    AgentStateEvent ManagedAgent
  | AgentStreamEventOf AgentEvent "int option"
  | AttentionCallback attention_reason
  | PersistSnapshot
  | DurableAppend AgentTimelineRow
  | DurableUpdate AgentTimelineRow
  | SubagentUpdate string
  | FilesMayHaveChanged

text \<open>A prompt in progress: the generator \<open>streamForwarder\<close> and what it closes over.\<close>

datatype call_state = CallCreated | CallStarting | CallStreaming nat | CallEnded | CallThrew

record turn_call =
  ca_token :: nat
  ca_isReplacement :: bool
  ca_prompt :: string
  ca_clientMessageId :: "string option"
  ca_state :: call_state

record turn_world =
  tw_agent :: ManagedAgent
  tw_closed :: bool
  tw_runs :: "AgentEvent AgentRunState"
  tw_streams :: "AgentEvent ForegroundTurnStream list"
  tw_calls :: "turn_call list"
  tw_queue :: "AgentEvent list"
  tw_barrier :: "AgentEvent list option"
  tw_previousStatus :: "lifecycle option"
  tw_coalescer :: AgentStreamCoalescer
  tw_timeline :: AgentTimelineState
  tw_cancel :: "AgentEvent TrackedAgentRun option"
  tw_out :: "manager_event list"

record readings =
  rd_now :: time_ms
  rd_iso :: string
  rd_uuid :: string
  rd_describe :: "string option"
  rd_durableLast :: "AgentTimelineItem option"

definition is_terminal_body :: "event_body \<Rightarrow> bool" where
  "is_terminal_body b = (case b of TurnCompleted _ \<Rightarrow> True | TurnFailed _ _ _ \<Rightarrow> True | TurnCanceled _ \<Rightarrow> True | _ \<Rightarrow> False)"

definition isTurnTerminalEvent :: "AgentEvent \<Rightarrow> bool" where
  "isTurnTerminalEvent ev = is_terminal_body (ae_body ev)"

definition agent_id :: "turn_world \<Rightarrow> string" where
  "agent_id w = ma_id (tw_agent w)"

definition upd_agent :: "(ManagedAgent \<Rightarrow> ManagedAgent) \<Rightarrow> turn_world \<Rightarrow> turn_world" where
  "upd_agent f w = w\<lparr>tw_agent := f (tw_agent w)\<rparr>"

definition emit :: "manager_event \<Rightarrow> turn_world \<Rightarrow> turn_world" where
  "emit e w = w\<lparr>tw_out := tw_out w @ [e]\<rparr>"

definition upd_runs :: "(AgentEvent AgentRunState \<Rightarrow> AgentEvent AgentRunState) \<Rightarrow> turn_world \<Rightarrow> turn_world" where
  "upd_runs f w = w\<lparr>tw_runs := f (tw_runs w)\<rparr>"

definition touchUpdatedAt :: "time_ms \<Rightarrow> ManagedAgent \<Rightarrow> ManagedAgent" where
  "touchUpdatedAt now a = a\<lparr>ma_updatedAt := (if now > ma_updatedAt a then now else ma_updatedAt a + 1)\<rparr>"

definition touch :: "readings \<Rightarrow> turn_world \<Rightarrow> turn_world" where
  "touch rd w = upd_agent (touchUpdatedAt (rd_now rd)) w"

section \<open>Telling subscribers\<close>

definition broadcastAgentAttention :: "attention_reason \<Rightarrow> turn_world \<Rightarrow> turn_world" where
  "broadcastAgentAttention reason w = (if ma_delegated (tw_agent w) then w else emit (AttentionCallback reason) w)"

definition checkAndSetAttention :: "readings \<Rightarrow> turn_world \<Rightarrow> turn_world" where
  "checkAndSetAttention rd w =
     (let a = tw_agent w; previous = tw_previousStatus w; w1 = w\<lparr>tw_previousStatus := Some (ma_lifecycle a)\<rparr>
      in if ma_internal a \<or> ma_attention a \<noteq> None then w1
         else if previous = Some LifeRunning \<and> ma_lifecycle a = LifeIdle
         then broadcastAgentAttention AttentionFinished
                (upd_agent (\<lambda>a. a\<lparr>ma_attention := Some (AttentionFinished, rd_now rd)\<rparr>) w1)
         else if previous \<noteq> Some LifeError \<and> ma_lifecycle a = LifeError
         then broadcastAgentAttention AttentionError
                (upd_agent (\<lambda>a. a\<lparr>ma_attention := Some (AttentionError, rd_now rd)\<rparr>) w1)
         else w1)"

definition emitState :: "readings \<Rightarrow> bool \<Rightarrow> turn_world \<Rightarrow> turn_world" where
  "emitState rd persist w =
     (let w1 = checkAndSetAttention rd w; w2 = (if persist then emit PersistSnapshot w1 else w1)
      in emit (AgentStateEvent (tw_agent w2)) w2)"

definition limitAgentStreamEventContent :: "(AgentTimelineItem \<Rightarrow> AgentTimelineItem) \<Rightarrow> AgentEvent \<Rightarrow> AgentEvent" where
  "limitAgentStreamEventContent lim ev =
     (case ae_body ev of TimelineOf item ts \<Rightarrow> ev\<lparr>ae_body := TimelineOf (lim item) ts\<rparr> | _ \<Rightarrow> ev)"

definition dispatchStream ::
  "(AgentTimelineItem \<Rightarrow> AgentTimelineItem) \<Rightarrow> AgentEvent \<Rightarrow> int option \<Rightarrow> turn_world \<Rightarrow> turn_world" where
  "dispatchStream lim ev seqno w = emit (AgentStreamEventOf (limitAgentStreamEventContent lim ev) seqno) w"

section \<open>Timeline\<close>

definition recordTimeline ::
  "(AgentTimelineItem \<Rightarrow> AgentTimelineItem) \<Rightarrow> readings \<Rightarrow> AgentTimelineItem \<Rightarrow> append_options \<Rightarrow> turn_world
     \<Rightarrow> AgentTimelineRow \<times> turn_world" where
  "recordTimeline lim rd item options w =
     (case append_state (tw_timeline w) (lim item) options (rd_iso rd) of
        (row, tl1) \<Rightarrow> (row, emit (DurableAppend row) (w\<lparr>tw_timeline := tl1\<rparr>)))"

definition timeline_event :: "AgentTimelineItem \<Rightarrow> string \<Rightarrow> string option \<Rightarrow> AgentEvent" where
  "timeline_event item provider turnId = \<lparr>ae_provider = provider, ae_turnId = turnId, ae_body = TimelineOf item None\<rparr>"

definition recordAndDispatchTimelineItem ::
  "(AgentTimelineItem \<Rightarrow> AgentTimelineItem) \<Rightarrow> readings \<Rightarrow> AgentTimelineItem \<Rightarrow> string \<Rightarrow> string option \<Rightarrow> string option
     \<Rightarrow> turn_world \<Rightarrow> AgentEvent \<times> turn_world" where
  "recordAndDispatchTimelineItem lim rd item provider turnId providerMessageId w =
     (case recordTimeline lim rd item
             \<lparr>ap_timestamp = None, ap_providerMessageId = providerMessageId, ap_turnId = turnId\<rparr> w of
        (row, w1) \<Rightarrow>
          let ev = timeline_event item provider turnId
          in (ev, dispatchStream lim ev (Some (row_seq row)) w1))"

definition submitted_row :: "string \<Rightarrow> turn_world \<Rightarrow> AgentTimelineRow option" where
  "submitted_row clientMessageId w = find (is_submitted clientMessageId) (tl_rows (tw_timeline w))"

definition recordSubmittedPrompt ::
  "(AgentTimelineItem \<Rightarrow> AgentTimelineItem) \<Rightarrow> readings \<Rightarrow> string \<Rightarrow> string \<Rightarrow> string option \<Rightarrow> string option \<Rightarrow> string option
     \<Rightarrow> turn_world \<Rightarrow> turn_world" where
  "recordSubmittedPrompt lim rd prompt clientMessageId messageId providerMessageId turnId w =
     (if submitted_row clientMessageId w \<noteq> None then w
      else snd (recordAndDispatchTimelineItem lim rd (UserMessage prompt (truthy messageId) (Some clientMessageId))
                  (ma_provider (tw_agent w)) turnId providerMessageId
                  (upd_agent (\<lambda>a. a\<lparr>ma_lastUserMessageAt := Some (rd_now rd)\<rparr>) (touch rd w))))"

definition enrich_submitted :: "string \<Rightarrow> string \<Rightarrow> turn_world \<Rightarrow> turn_world" where
  "enrich_submitted clientMessageId providerMessageId w =
     (case find_index (is_submitted clientMessageId) (tl_rows (tw_timeline w)) of
        None \<Rightarrow> w
      | Some i \<Rightarrow>
          let row = (tl_rows (tw_timeline w) ! i)\<lparr>row_providerMessageId := Some providerMessageId\<rparr>
          in emit (DurableUpdate row)
               (w\<lparr>tw_timeline := (tw_timeline w)\<lparr>tl_rows := (tl_rows (tw_timeline w))[i := row]\<rparr>\<rparr>))"

definition reconcileSubmittedPromptEcho ::
  "(AgentTimelineItem \<Rightarrow> AgentTimelineItem) \<Rightarrow> readings \<Rightarrow> string \<Rightarrow> string option \<Rightarrow> string \<Rightarrow> string option \<Rightarrow> turn_world
     \<Rightarrow> bool \<times> turn_world" where
  "reconcileSubmittedPromptEcho lim rd prompt messageId clientMessageId turnId w =
     (let w1 = recordSubmittedPrompt lim rd prompt clientMessageId (Some clientMessageId) (truthy messageId) (truthy turnId) w
      in case submitted_row clientMessageId w1 of
           None \<Rightarrow> (False, w1)
         | Some _ \<Rightarrow>
             (True, case truthy messageId of None \<Rightarrow> w1 | Some m \<Rightarrow> enrich_submitted clientMessageId m w1))"

definition SYSTEM_ERROR_PREFIX :: string where "SYSTEM_ERROR_PREFIX = ''[System Error]''"

definition formatTurnFailedMessage :: "string \<Rightarrow> string option \<Rightarrow> string option \<Rightarrow> string" where
  "formatTurnFailedMessage error code diagnostic =
     (let base = js_trim error;
          parts = [if base \<noteq> [] then base else ''Provider run failed'']
            @ (case truthy (map_option js_trim code) of Some c \<Rightarrow> [''code: '' @ c] | None \<Rightarrow> [])
            @ (case truthy (map_option js_trim diagnostic) of Some d \<Rightarrow> if d \<noteq> base then [d] else [] | None \<Rightarrow> [])
      in js_join [CHR 10, CHR 10] parts)"

definition appendSystemErrorTimelineMessage ::
  "(AgentTimelineItem \<Rightarrow> AgentTimelineItem) \<Rightarrow> readings \<Rightarrow> string \<Rightarrow> string \<Rightarrow> bool \<Rightarrow> turn_world \<Rightarrow> turn_world" where
  "appendSystemErrorTimelineMessage lim rd provider message fromHistory w =
     (if fromHistory \<or> js_trim message = [] then w
      else
        let body = SYSTEM_ERROR_PREFIX @ '' '' @ js_trim message;
            lastItem = (case last_opt (tl_rows (tw_timeline w)) of Some r \<Rightarrow> Some (row_item r) | None \<Rightarrow> rd_durableLast rd)
        in if (case lastItem of Some (AssistantMessage t _) \<Rightarrow> t = body | _ \<Rightarrow> False) then w
           else (case recordTimeline lim rd (AssistantMessage body None)
                        \<lparr>ap_timestamp = None, ap_providerMessageId = None, ap_turnId = None\<rparr> w of
                   (row, w1) \<Rightarrow>
                     dispatchStream lim (timeline_event (AssistantMessage body None) provider None) (Some (row_seq row)) w1))"

definition envelope_open :: string where "envelope_open = ''<frogg-system>'' @ [CHR 10]"
definition envelope_close :: string where "envelope_close = CHR 10 # ''</frogg-system>''"

definition isSystemInjectedEnvelope :: "string \<Rightarrow> bool" where
  "isSystemInjectedEnvelope s =
     (length envelope_open + length envelope_close \<le> length s \<and> startsWith s envelope_open \<and> endsWith s envelope_close)"

section \<open>Streams and the coalescer\<close>

definition agent_waiters :: "string option \<Rightarrow> turn_world \<Rightarrow> nat list" where
  "agent_waiters turnId w = getMatchingWaiters (tw_streams w) (ma_waiters (tw_agent w)) turnId"

definition notifyForegroundTurnWaiters :: "AgentEvent \<Rightarrow> turn_world \<Rightarrow> turn_world" where
  "notifyForegroundTurnWaiters ev w =
     (if ae_turnId ev = None \<or> tw_closed w then w
      else w\<lparr>tw_streams := notifyWaiters (agent_waiters (ae_turnId ev) w) ev False (tw_streams w)\<rparr>)"

definition on_flush ::
  "(AgentTimelineItem \<Rightarrow> AgentTimelineItem) \<Rightarrow> readings \<Rightarrow> AgentStreamCoalescerFlush \<Rightarrow> turn_world \<Rightarrow> turn_world" where
  "on_flush lim rd f w =
     (case recordAndDispatchTimelineItem lim rd (fl_item f) (fl_provider f) (fl_turnId f) None w of
        (ev, w1) \<Rightarrow> notifyForegroundTurnWaiters ev w1)"

definition coalescer_event :: "AgentEvent \<Rightarrow> AgentStreamEvent" where
  "coalescer_event ev =
     (case ae_body ev of
        TimelineOf item _ \<Rightarrow> TimelineEvent item (ae_provider ev) (ae_turnId ev)
      | _ \<Rightarrow> OtherEvent [])"

definition coalescer_handle ::
  "(AgentTimelineItem \<Rightarrow> AgentTimelineItem) \<Rightarrow> readings \<Rightarrow> AgentEvent \<Rightarrow> turn_world \<Rightarrow> bool \<times> turn_world" where
  "coalescer_handle lim rd ev w =
     (case co_handle (tw_coalescer w) (agent_id w) (coalescer_event ev) (rd_now rd) (rd_now rd) of
        (buffered, flushes, co) \<Rightarrow> (buffered, fold (on_flush lim rd) flushes (w\<lparr>tw_coalescer := co\<rparr>)))"

definition coalescer_flush :: "(AgentTimelineItem \<Rightarrow> AgentTimelineItem) \<Rightarrow> readings \<Rightarrow> turn_world \<Rightarrow> turn_world" where
  "coalescer_flush lim rd w =
     (case flushFor (tw_coalescer w) (agent_id w) (rd_now rd) of
        (flushes, co) \<Rightarrow> fold (on_flush lim rd) flushes (w\<lparr>tw_coalescer := co\<rparr>))"

definition coalescer_timer ::
  "(AgentTimelineItem \<Rightarrow> AgentTimelineItem) \<Rightarrow> readings \<Rightarrow> nat \<Rightarrow> turn_world \<Rightarrow> turn_world" where
  "coalescer_timer lim rd bufferId w =
     (case timer_fires (tw_coalescer w) (agent_id w) bufferId (rd_now rd) of
        (flushes, co) \<Rightarrow> fold (on_flush lim rd) flushes (w\<lparr>tw_coalescer := co\<rparr>))"

section \<open>Turns\<close>

text \<open>A turn id is absent, empty or a name; the sources test it for truth.\<close>

definition active_foreground :: "ManagedAgent \<Rightarrow> string option" where
  "active_foreground a = truthy (ma_activeForegroundTurnId a)"

definition current_turn :: "ManagedAgent \<Rightarrow> string option" where
  "current_turn a = (case ma_activeForegroundTurnId a of Some t \<Rightarrow> Some t | None \<Rightarrow> ma_activeTurnId a)"

definition attachManagedTurnIdentity :: "string \<Rightarrow> ManagedAgent \<Rightarrow> AgentEvent \<Rightarrow> bool \<Rightarrow> AgentEvent \<times> string option" where
  "attachManagedTurnIdentity uuid a ev fromHistory =
     (if fromHistory \<or> ae_turnId ev \<noteq> None then (ev, ae_turnId ev)
      else
        (case ae_body ev of
           TurnStarted \<Rightarrow>
             (let t = (case current_turn a of Some t \<Rightarrow> t | None \<Rightarrow> ''autonomous-'' @ uuid)
              in (ev\<lparr>ae_turnId := Some t\<rparr>, Some t))
         | TimelineOf _ _ \<Rightarrow>
             ((case truthy (current_turn a) of Some t \<Rightarrow> ev\<lparr>ae_turnId := Some t\<rparr> | None \<Rightarrow> ev), current_turn a)
         | _ \<Rightarrow>
             if isTurnTerminalEvent ev
             then ((case truthy (current_turn a) of Some t \<Rightarrow> ev\<lparr>ae_turnId := Some t\<rparr> | None \<Rightarrow> ev), current_turn a)
             else (ev, None)))"

datatype disposition = ClosedCurrent | Stale | Untracked

definition applyActiveTurnTerminal :: "string option \<Rightarrow> bool \<Rightarrow> ManagedAgent \<Rightarrow> disposition \<times> ManagedAgent" where
  "applyActiveTurnTerminal turnId fromHistory a =
     (if fromHistory then (Stale, a)
      else if truthy (ma_activeTurnId a) = None then (Untracked, a)
      else if truthy turnId \<noteq> None \<and> ma_activeTurnId a \<noteq> turnId then (Stale, a)
      else (ClosedCurrent, a\<lparr>ma_activeTurnId := None, ma_activeTurnStartedAt := None\<rparr>))"

definition openActiveTurn :: "string \<Rightarrow> time_ms \<Rightarrow> ManagedAgent \<Rightarrow> ManagedAgent" where
  "openActiveTurn turnId startedAt a = a\<lparr>ma_activeTurnId := Some turnId, ma_activeTurnStartedAt := Some startedAt\<rparr>"

definition finalizeForegroundTurn :: "readings \<Rightarrow> string option \<Rightarrow> turn_world \<Rightarrow> turn_world" where
  "finalizeForegroundTurn rd turnId w =
     (let a = tw_agent w;
          a1 = (case truthy turnId of
                  Some t \<Rightarrow> a\<lparr>ma_finalizedTurns := rememberFinalizedTurn t (ma_finalizedTurns a)\<rparr>
                | None \<Rightarrow> a);
          a2 = snd (applyActiveTurnTerminal turnId False (a1\<lparr>ma_activeForegroundTurnId := None\<rparr>));
          failed = truthy (ma_lastError a2) \<noteq> None;
          hold = ma_pendingReplacement a2 \<and> \<not> failed;
          a3 = a2\<lparr>ma_lifecycle := (if hold then LifeRunning else if failed then LifeError else LifeIdle)\<rparr>;
          handle = (case rd_describe rd of
                      Some h \<Rightarrow> Some h
                    | None \<Rightarrow> (case ma_runtimeInfo a3 of Some i \<Rightarrow> truthy (ri_sessionId i) | None \<Rightarrow> None));
          a4 = (case handle of Some h \<Rightarrow> a3\<lparr>ma_persistence := Some h\<rparr> | None \<Rightarrow> a3);
          w1 = w\<lparr>tw_agent := a4\<rparr>
      in if hold then w1 else emitState rd True (touch rd w1))"

definition resolvePendingPermissionsForAgent ::
  "(AgentTimelineItem \<Rightarrow> AgentTimelineItem) \<Rightarrow> string \<Rightarrow> bool \<Rightarrow> string \<Rightarrow> turn_world \<Rightarrow> turn_world" where
  "resolvePendingPermissionsForAgent lim provider fromHistory message w =
     (let ids = map_keys (ma_pendingPermissions (tw_agent w));
          w1 = upd_agent (\<lambda>a. a\<lparr>ma_pendingPermissions := []\<rparr>) w
      in if fromHistory then w1
         else fold (\<lambda>p. dispatchStream lim \<lparr>ae_provider = provider, ae_turnId = None,
                                          ae_body = PermissionResolved p (DeniedBecause message)\<rparr> None) ids w1)"

section \<open>Events of the session\<close>

text \<open>What handling an event leaves: the world, whether the event itself is dispatched, and whether waiters are notified.\<close>

type_synonym handled = "turn_world \<times> bool \<times> bool"

definition onStreamThreadStarted :: "readings \<Rightarrow> turn_world \<Rightarrow> turn_world" where
  "onStreamThreadStarted rd w =
     (case rd_describe rd of
        None \<Rightarrow> w
      | Some h \<Rightarrow>
          let w1 = upd_agent (\<lambda>a. a\<lparr>ma_persistence := Some h\<rparr>) w
          in if ma_persistence (tw_agent w) = Some h then w1 else emitState rd True w1)"

definition onStreamTimelineEvent ::
  "(AgentTimelineItem \<Rightarrow> AgentTimelineItem) \<Rightarrow> readings \<Rightarrow> bool \<Rightarrow> AgentEvent \<Rightarrow> AgentTimelineItem \<Rightarrow> string option
     \<Rightarrow> turn_world \<Rightarrow> handled" where
  "onStreamTimelineEvent lim rd fromHistory ev item timestamp w =
     (case item of
        UserMessage body messageId clientMessageId \<Rightarrow>
          if isSystemInjectedEnvelope body then (w, False, False)
          else
            (case (case truthy clientMessageId of
                     None \<Rightarrow> (False, w)
                   | Some c \<Rightarrow> reconcileSubmittedPromptEcho lim rd body messageId c (ae_turnId ev) w) of
               (reconciled, w1) \<Rightarrow>
                 if reconciled then (w1, False, False)
                 else if fromHistory
                 then (snd (recordTimeline lim rd item
                         \<lparr>ap_timestamp = truthy timestamp, ap_providerMessageId = None, ap_turnId = None\<rparr> w1), False, False)
                 else (emitState rd True
                         (upd_agent (\<lambda>a. a\<lparr>ma_lastUserMessageAt := Some (rd_now rd)\<rparr>)
                            (snd (recordAndDispatchTimelineItem lim rd item (ae_provider ev) (ae_turnId ev) None w1))),
                       False, True))
      | _ \<Rightarrow>
          if fromHistory
          then (snd (recordTimeline lim rd item
                  \<lparr>ap_timestamp = truthy timestamp, ap_providerMessageId = None, ap_turnId = None\<rparr> w), False, False)
          else (snd (recordAndDispatchTimelineItem lim rd item (ae_provider ev) (ae_turnId ev) None w), False, True))"

definition onStreamUsageUpdated :: "readings \<Rightarrow> bool \<Rightarrow> usage \<Rightarrow> turn_world \<Rightarrow> turn_world" where
  "onStreamUsageUpdated rd fromHistory u w =
     emitState rd True
       (upd_agent (\<lambda>a. (a\<lparr>ma_lastUsage := Some u\<rparr>)
          \<lparr>ma_lastUsageAt := (if fromHistory then ma_lastUsageAt a else Some (rd_now rd))\<rparr>) w)"

definition onStreamTurnCompleted :: "readings \<Rightarrow> usage option \<Rightarrow> bool \<Rightarrow> disposition \<Rightarrow> turn_world \<Rightarrow> turn_world" where
  "onStreamTurnCompleted rd u isForegroundEvent d w =
     (if d = Stale then w
      else
        let w1 = upd_agent (\<lambda>a. a\<lparr>ma_lastUsage := (case u of
                                        None \<Rightarrow> ma_lastUsage a
                                      | Some m \<Rightarrow> Some (spread (case ma_lastUsage a of None \<Rightarrow> [] | Some l \<Rightarrow> l) m)),
                                  ma_lastUsageAt := Some (rd_now rd), ma_lastError := None\<rparr>) w;
            a = tw_agent w1
        in if \<not> isForegroundEvent \<and> active_foreground a = None \<and> ma_lifecycle a \<noteq> LifeIdle \<and> \<not> ma_pendingReplacement a
           then emitState rd True (upd_agent (\<lambda>a. a\<lparr>ma_lifecycle := LifeIdle\<rparr>) w1)
           else w1)"

definition onStreamTurnFailed ::
  "(AgentTimelineItem \<Rightarrow> AgentTimelineItem) \<Rightarrow> readings \<Rightarrow> bool \<Rightarrow> string \<Rightarrow> string \<Rightarrow> string option \<Rightarrow> string option \<Rightarrow> bool
     \<Rightarrow> disposition \<Rightarrow> turn_world \<Rightarrow> turn_world" where
  "onStreamTurnFailed lim rd fromHistory provider error code diagnostic isForegroundEvent d w =
     (if d = Stale then w
      else
        let own = (\<not> isForegroundEvent \<and> active_foreground (tw_agent w) = None);
            w1 = upd_agent (\<lambda>a. (if own then a\<lparr>ma_lifecycle := LifeError\<rparr> else a)\<lparr>ma_lastError := Some error\<rparr>) w;
            w2 = appendSystemErrorTimelineMessage lim rd provider (formatTurnFailedMessage error code diagnostic) fromHistory w1;
            w3 = resolvePendingPermissionsForAgent lim provider fromHistory ''Turn failed'' w2
        in if own then emitState rd True w3 else w3)"

definition onStreamTurnCanceled ::
  "(AgentTimelineItem \<Rightarrow> AgentTimelineItem) \<Rightarrow> readings \<Rightarrow> bool \<Rightarrow> string \<Rightarrow> bool \<Rightarrow> disposition \<Rightarrow> turn_world
     \<Rightarrow> turn_world" where
  "onStreamTurnCanceled lim rd fromHistory provider isForegroundEvent d w =
     (if d = Stale then w
      else
        let own = (\<not> isForegroundEvent \<and> active_foreground (tw_agent w) = None);
            w1 = upd_agent (\<lambda>a. (if own \<and> \<not> ma_pendingReplacement a then a\<lparr>ma_lifecycle := LifeIdle\<rparr> else a)
                                  \<lparr>ma_lastError := None\<rparr>) w;
            w2 = resolvePendingPermissionsForAgent lim provider fromHistory ''Interrupted'' w1
        in if own then emitState rd True w2 else w2)"

definition onStreamTurnStarted :: "readings \<Rightarrow> string option \<Rightarrow> bool \<Rightarrow> turn_world \<Rightarrow> handled" where
  "onStreamTurnStarted rd turnId isForegroundEvent w =
     (if isForegroundEvent \<or> active_foreground (tw_agent w) \<noteq> None then (w, False, False)
      else
        let w1 = upd_runs (\<lambda>rs. snd (trackAutonomousRun (agent_id w) turnId rs)) w;
            w2 = upd_agent (\<lambda>a. (case truthy turnId of Some t \<Rightarrow> openActiveTurn t (rd_now rd) a | None \<Rightarrow> a)
                                  \<lparr>ma_lifecycle := LifeRunning\<rparr>) w1
        in (emitState rd True w2, True, True))"

definition onStreamPermissionRequested :: "readings \<Rightarrow> string \<Rightarrow> string \<Rightarrow> turn_world \<Rightarrow> turn_world" where
  "onStreamPermissionRequested rd requestId request w =
     (let had = (ma_pendingPermissions (tw_agent w) \<noteq> []);
          w1 = upd_agent (\<lambda>a. a\<lparr>ma_pendingPermissions := AList.update requestId request (ma_pendingPermissions a)\<rparr>) w
      in emitState rd True
           (if \<not> had \<and> \<not> ma_internal (tw_agent w) then broadcastAgentAttention AttentionPermission w1 else w1))"

definition onStreamPermissionResolved :: "readings \<Rightarrow> bool \<Rightarrow> AgentEvent \<Rightarrow> string \<Rightarrow> turn_world \<Rightarrow> handled" where
  "onStreamPermissionResolved rd fromHistory ev requestId w =
     (let w1 = upd_agent (\<lambda>a. a\<lparr>ma_pendingPermissions := AList.delete requestId (ma_pendingPermissions a)\<rparr>) w
      in if \<not> fromHistory \<and> requestId \<in> set (ma_inFlightResponses (tw_agent w))
         then (upd_agent (\<lambda>a. a\<lparr>ma_bufferedResolutions := AList.update requestId ev (ma_bufferedResolutions a)\<rparr>) w1, False, True)
         else (emitState rd True w1, True, True))"

definition runtime_with :: "(AgentRuntimeInfo \<Rightarrow> AgentRuntimeInfo) \<Rightarrow> ManagedAgent \<Rightarrow> ManagedAgent" where
  "runtime_with f a = a\<lparr>ma_runtimeInfo := map_option f (ma_runtimeInfo a)\<rparr>"

definition dispatchStreamEventByType ::
  "(AgentTimelineItem \<Rightarrow> AgentTimelineItem) \<Rightarrow> readings \<Rightarrow> bool \<Rightarrow> AgentEvent \<Rightarrow> string option \<Rightarrow> bool \<Rightarrow> disposition
     \<Rightarrow> turn_world \<Rightarrow> handled" where
  "dispatchStreamEventByType lim rd fromHistory ev turnId isForegroundEvent d w =
     (case ae_body ev of
        ThreadStarted _ \<Rightarrow> (onStreamThreadStarted rd w, True, True)
      | UsageUpdated u \<Rightarrow> (onStreamUsageUpdated rd fromHistory u w, True, True)
      | ModeChanged mode modes \<Rightarrow>
          (emitState rd True (upd_agent (\<lambda>a. runtime_with (\<lambda>i. i\<lparr>ri_modeId := mode\<rparr>)
             (a\<lparr>ma_currentModeId := mode, ma_availableModes := modes\<rparr>)) w), False, True)
      | ModelChanged info \<Rightarrow>
          (emitState rd True (upd_agent (\<lambda>a. a\<lparr>ma_runtimeInfo := Some info,
             ma_persistence := (if ma_persistence a = None then truthy (ri_sessionId info) else ma_persistence a),
             ma_currentModeId := (case ri_modeId info of Some m \<Rightarrow> Some m | None \<Rightarrow> ma_currentModeId a)\<rparr>) w), False, True)
      | ThinkingOptionChanged option \<Rightarrow>
          (emitState rd True (upd_agent (\<lambda>a. runtime_with (\<lambda>i. i\<lparr>ri_thinkingOptionId := option\<rparr>)
             (a\<lparr>ma_thinkingOptionId := option\<rparr>)) w), False, True)
      | TimelineOf item timestamp \<Rightarrow> onStreamTimelineEvent lim rd fromHistory ev item timestamp w
      | TurnCompleted u \<Rightarrow> (onStreamTurnCompleted rd u isForegroundEvent d w, True, True)
      | TurnFailed error code diagnostic \<Rightarrow>
          (onStreamTurnFailed lim rd fromHistory (ae_provider ev) error code diagnostic isForegroundEvent d w, True, True)
      | TurnCanceled _ \<Rightarrow> (onStreamTurnCanceled lim rd fromHistory (ae_provider ev) isForegroundEvent d w, True, True)
      | TurnStarted \<Rightarrow> onStreamTurnStarted rd turnId isForegroundEvent w
      | PermissionRequested requestId request \<Rightarrow> (onStreamPermissionRequested rd requestId request w, True, True)
      | PermissionResolved requestId _ \<Rightarrow> onStreamPermissionResolved rd fromHistory ev requestId w
      | AttentionRequired _ \<Rightarrow> (w, True, True)
      | ProviderSubagent _ \<Rightarrow> (w, True, True))"

text \<open>The end of handling a live event, after its own handler.\<close>

definition handle_tail ::
  "(AgentTimelineItem \<Rightarrow> AgentTimelineItem) \<Rightarrow> readings \<Rightarrow> AgentEvent \<Rightarrow> string option \<Rightarrow> bool \<Rightarrow> bool \<Rightarrow> turn_world
     \<Rightarrow> turn_world" where
  "handle_tail lim rd ev turnId isForegroundEvent shouldDispatch w =
     (let w1 = (if isTurnTerminalEvent ev
                then (let w2 = upd_runs (settleTerminalRun (agent_id w) turnId) (emit FilesMayHaveChanged w)
                      in if isForegroundEvent then finalizeForegroundTurn rd turnId w2 else w2)
                else w)
      in if shouldDispatch then dispatchStream lim ev None w1 else w1)"

definition handleStreamEvent ::
  "(AgentTimelineItem \<Rightarrow> AgentTimelineItem) \<Rightarrow> readings \<Rightarrow> bool \<Rightarrow> AgentEvent \<Rightarrow> turn_world \<Rightarrow> bool \<times> turn_world" where
  "handleStreamEvent lim rd fromHistory ev0 w =
     (case attachManagedTurnIdentity (rd_uuid rd) (tw_agent w) (limitAgentStreamEventContent lim ev0) fromHistory of
        (ev, turnId) \<Rightarrow>
          let isForegroundEvent = (turnId \<noteq> None \<and> ma_activeForegroundTurnId (tw_agent w) = turnId)
          in if (case truthy turnId of None \<Rightarrow> False | Some t \<Rightarrow> isTurnTerminalEvent ev \<and> hasFinalizedTurn (ma_finalizedTurns (tw_agent w)) t)
             then (False, w)
             else
               (case (if fromHistory then (False, w) else coalescer_handle lim rd ev (touch rd w)) of
                  (buffered, w1) \<Rightarrow>
                    if buffered then (False, w1)
                    else
                      let w2 = (if fromHistory then w1 else coalescer_flush lim rd w1);
                          terminal = applyActiveTurnTerminal turnId fromHistory (tw_agent w2);
                          d = (if isTurnTerminalEvent ev then fst terminal else Untracked);
                          w3 = (if isTurnTerminalEvent ev then w2\<lparr>tw_agent := snd terminal\<rparr> else w2)
                      in (case dispatchStreamEventByType lim rd fromHistory ev turnId isForegroundEvent d w3 of
                            (w4, shouldDispatch, shouldNotify) \<Rightarrow>
                              (shouldNotify,
                               if fromHistory then w4
                               else handle_tail lim rd ev turnId isForegroundEvent shouldDispatch w4))))"

definition dispatchSessionEvent ::
  "(AgentTimelineItem \<Rightarrow> AgentTimelineItem) \<Rightarrow> readings \<Rightarrow> AgentEvent \<Rightarrow> turn_world \<Rightarrow> turn_world" where
  "dispatchSessionEvent lim rd ev w =
     (case ae_body ev of
        ProviderSubagent update \<Rightarrow> emit (SubagentUpdate update) w
      | _ \<Rightarrow>
          (let matching = agent_waiters (ae_turnId ev) w
           in case handleStreamEvent lim rd False ev w of
                (notify, w1) \<Rightarrow>
                  if notify
                  then w1\<lparr>tw_streams := notifyWaiters matching ev (isTurnTerminalEvent ev) (tw_streams w1)\<rparr>
                  else w1))"

definition enqueueSessionEvent :: "AgentEvent \<Rightarrow> turn_world \<Rightarrow> turn_world" where
  "enqueueSessionEvent ev w =
     (case tw_barrier w of
        Some held \<Rightarrow> w\<lparr>tw_barrier := Some (held @ [ev])\<rparr>
      | None \<Rightarrow>
          (case getRun (agent_id w) (tw_runs w) of
             Some (PendingForegroundRun _ _ StartPending) \<Rightarrow> upd_runs (stage_event (agent_id w) ev) w
           | _ \<Rightarrow> w\<lparr>tw_queue := tw_queue w @ [ev]\<rparr>))"

definition dequeue_session_event ::
  "(AgentTimelineItem \<Rightarrow> AgentTimelineItem) \<Rightarrow> readings \<Rightarrow> turn_world \<Rightarrow> turn_world" where
  "dequeue_session_event lim rd w =
     (case tw_queue w of
        [] \<Rightarrow> w
      | ev # rest \<Rightarrow>
          let w1 = w\<lparr>tw_queue := rest\<rparr>
          in if tw_closed w then w1 else dispatchSessionEvent lim rd ev w1)"

section \<open>Prompts\<close>

datatype stream_refusal = AgentClosed | AlreadyActive

definition streamAgent :: "string \<Rightarrow> string option \<Rightarrow> turn_world \<Rightarrow> stream_refusal + turn_world" where
  "streamAgent prompt clientMessageId w =
     (if tw_closed w then Inl AgentClosed
      else if active_foreground (tw_agent w) \<noteq> None \<or> hasRun (agent_id w) (tw_runs w) then Inl AlreadyActive
      else
        (case createPendingRun (agent_id w) (tw_runs w) of
           (token, rs) \<Rightarrow>
             Inr (upd_agent (\<lambda>a. a\<lparr>ma_lastError := None\<rparr>)
               (w\<lparr>tw_runs := rs,
                  tw_calls := tw_calls w @ [\<lparr>ca_token = token, ca_isReplacement = ma_pendingReplacement (tw_agent w),
                     ca_prompt = prompt, ca_clientMessageId = clientMessageId, ca_state = CallCreated\<rparr>]\<rparr>))))"

definition set_call :: "nat \<Rightarrow> call_state \<Rightarrow> turn_world \<Rightarrow> turn_world" where
  "set_call i st w = w\<lparr>tw_calls := (tw_calls w)[i := (tw_calls w ! i)\<lparr>ca_state := st\<rparr>]\<rparr>"

text \<open>The first resumption of the generator asks the session to start the turn.\<close>

definition call_first :: "nat \<Rightarrow> turn_world \<Rightarrow> turn_world" where
  "call_first i w = (if ca_state (tw_calls w ! i) = CallCreated then set_call i CallStarting w else w)"

definition prompt_echo :: "string \<Rightarrow> AgentEvent \<Rightarrow> bool" where
  "prompt_echo clientMessageId ev =
     (case ae_body ev of TimelineOf (UserMessage _ _ c) _ \<Rightarrow> c = Some clientMessageId | _ \<Rightarrow> False)"

definition echo_index :: "string option \<Rightarrow> AgentEvent list \<Rightarrow> nat option" where
  "echo_index clientMessageId staged =
     (case truthy clientMessageId of None \<Rightarrow> None | Some c \<Rightarrow> find_index (prompt_echo c) staged)"

definition echo_message :: "AgentEvent \<Rightarrow> string option" where
  "echo_message ev = (case ae_body ev of TimelineOf (UserMessage _ m _) _ \<Rightarrow> m | _ \<Rightarrow> None)"

text \<open>The staged events that are replayed: all but the start of the accepted turn and the echo of the prompt.\<close>

definition replayed :: "string \<Rightarrow> nat option \<Rightarrow> AgentEvent list \<Rightarrow> AgentEvent list" where
  "replayed turnId echo staged =
     map snd (filter (\<lambda>(i, ev). \<not> (ae_body ev = TurnStarted \<and> ae_turnId ev = Some turnId) \<and> echo \<noteq> Some i)
                (enumerate 0 staged))"

definition turn_started_event :: "turn_world \<Rightarrow> string \<Rightarrow> AgentEvent" where
  "turn_started_event w turnId = \<lparr>ae_provider = ma_provider (tw_agent w), ae_turnId = Some turnId, ae_body = TurnStarted\<rparr>"

definition start_accepted ::
  "(AgentTimelineItem \<Rightarrow> AgentTimelineItem) \<Rightarrow> readings \<Rightarrow> nat \<Rightarrow> string \<Rightarrow> turn_world \<Rightarrow> turn_world" where
  "start_accepted lim rd i turnId w =
     (let call = tw_calls w ! i;
          w1 = upd_runs (set_run_start (agent_id w) (ca_token call) (StartStarted turnId)) w;
          w2 = touch rd (upd_agent (\<lambda>a. (openActiveTurn turnId (rd_now rd)
                  (a\<lparr>ma_pendingReplacement := (if ca_isReplacement call then False else ma_pendingReplacement a),
                     ma_activeForegroundTurnId := Some turnId\<rparr>))\<lparr>ma_lifecycle := LifeRunning\<rparr>) w1);
          w3 = dispatchStream lim (turn_started_event w2 turnId) None w2;
          staged = staged_events (agent_id w) (tw_runs w3);
          echo = echo_index (ca_clientMessageId call) staged;
          w4 = (case truthy (ca_clientMessageId call) of
                  None \<Rightarrow> w3
                | Some c \<Rightarrow> recordSubmittedPrompt lim rd (ca_prompt call) c (Some c)
                              (case echo of None \<Rightarrow> None | Some k \<Rightarrow> echo_message (staged ! k)) (Some turnId) w3);
          w5 = fold enqueueSessionEvent (replayed turnId echo staged) (upd_runs (clear_staged (agent_id w)) w4);
          w6 = emitState rd True w5
      in set_call i (CallStreaming (length (tw_streams w6)))
           (upd_agent (\<lambda>a. a\<lparr>ma_waiters := ma_waiters a @ [length (tw_streams w6)]\<rparr>)
              (w6\<lparr>tw_streams := tw_streams w6 @ [new_stream turnId]\<rparr>)))"

definition start_resolves ::
  "(AgentTimelineItem \<Rightarrow> AgentTimelineItem) \<Rightarrow> readings \<Rightarrow> nat \<Rightarrow> string \<Rightarrow> turn_world \<Rightarrow> turn_world" where
  "start_resolves lim rd i turnId w =
     (if ca_state (tw_calls w ! i) \<noteq> CallStarting then w
      else if is_settled (ca_token (tw_calls w ! i)) (tw_runs w) then set_call i CallThrew w
      else start_accepted lim rd i turnId w)"

definition start_rejects ::
  "(AgentTimelineItem \<Rightarrow> AgentTimelineItem) \<Rightarrow> readings \<Rightarrow> nat \<Rightarrow> string \<Rightarrow> turn_world \<Rightarrow> turn_world" where
  "start_rejects lim rd i error w =
     (if ca_state (tw_calls w ! i) \<noteq> CallStarting then w
      else if is_settled (ca_token (tw_calls w ! i)) (tw_runs w) then set_call i CallThrew w
      else
        (let token = ca_token (tw_calls w ! i);
             w1 = upd_runs (set_run_start (agent_id w) token (StartFailed error))
                    (upd_agent (\<lambda>a. a\<lparr>ma_pendingReplacement := False\<rparr>) w);
             w2 = snd (handleStreamEvent lim rd False
                    \<lparr>ae_provider = ma_provider (tw_agent w), ae_turnId = None, ae_body = TurnFailed error None None\<rparr> w1);
             w3 = finalizeForegroundTurn rd None w2
         in set_call i CallThrew (upd_runs (settleForegroundRun (agent_id w) token) w3)))"

text \<open>The \<open>finally\<close> of the generator; the refresh of the runtime information it may start is left out.\<close>

definition call_finally :: "nat \<Rightarrow> nat \<Rightarrow> turn_world \<Rightarrow> turn_world" where
  "call_finally i j w =
     set_call i CallEnded
       (upd_runs (settleForegroundRun (agent_id w) (ca_token (tw_calls w ! i)))
          (upd_agent (\<lambda>a. a\<lparr>ma_waiters := removeAll j (ma_waiters a)\<rparr>)
             (w\<lparr>tw_streams := (tw_streams w)[j := settleWaiter (tw_streams w ! j)]\<rparr>)))"

definition call_next :: "nat \<Rightarrow> turn_world \<Rightarrow> turn_world" where
  "call_next i w =
     (case ca_state (tw_calls w ! i) of
        CallStreaming j \<Rightarrow>
          (let s = stream_next isTurnTerminalEvent (tw_streams w ! j);
               w1 = w\<lparr>tw_streams := (tw_streams w)[j := s]\<rparr>
           in if ts_finished s then call_finally i j w1 else w1)
      | _ \<Rightarrow> w)"

text \<open>The consumer leaves its loop before the stream has ended.\<close>

definition call_return :: "nat \<Rightarrow> turn_world \<Rightarrow> turn_world" where
  "call_return i w =
     (case ca_state (tw_calls w ! i) of
        CallStreaming j \<Rightarrow>
          call_finally i j (w\<lparr>tw_streams := (tw_streams w)[j := (tw_streams w ! j)\<lparr>ts_finished := True\<rparr>]\<rparr>)
      | _ \<Rightarrow> w)"

section \<open>Cancelling and replacing\<close>

datatype cancellation = NotRunning | Settled | RefusedToStop

text \<open>The beginning of \<open>cancelAgentRunNow\<close>, up to the interruption of the session. The mutations of an agent are
  serialised, so at most one cancellation is in progress.\<close>

definition cancel_begin :: "turn_world \<Rightarrow> turn_world" where
  "cancel_begin w =
     (if tw_closed w \<or> tw_cancel w \<noteq> None then w
      else
        (case getRun (agent_id w) (tw_runs w) of
           Some run \<Rightarrow> w\<lparr>tw_cancel := Some run\<rparr>
         | None \<Rightarrow>
             if ma_lifecycle (tw_agent w) = LifeRunning
             then (case trackAutonomousRun (agent_id w) None (tw_runs w) of
                     (run, rs) \<Rightarrow> w\<lparr>tw_runs := rs, tw_cancel := Some run\<rparr>)
             else w))"

definition canceled_event :: "turn_world \<Rightarrow> string option \<Rightarrow> AgentEvent" where
  "canceled_event w turnId = \<lparr>ae_provider = ma_provider (tw_agent w), ae_turnId = turnId, ae_body = TurnCanceled ''interrupted''\<rparr>"

definition is_foreground_run :: "AgentEvent TrackedAgentRun \<Rightarrow> bool" where
  "is_foreground_run run = (case run of PendingForegroundRun _ _ _ \<Rightarrow> True | AutonomousAgentRun _ _ \<Rightarrow> False)"

text \<open>What is done when the session has acknowledged the interruption and the run has still not settled.\<close>

definition cancel_timed_out ::
  "(AgentTimelineItem \<Rightarrow> AgentTimelineItem) \<Rightarrow> readings \<Rightarrow> AgentEvent TrackedAgentRun \<Rightarrow> turn_world \<Rightarrow> turn_world" where
  "cancel_timed_out lim rd run w =
     (case truthy (getTurnId (agent_id w) (tw_runs w)) of
        Some t \<Rightarrow> dispatchSessionEvent lim rd (canceled_event w (Some t)) w
      | None \<Rightarrow>
          if is_foreground_run run
          then (let w1 = upd_runs (settleForegroundRun (agent_id w) (run_token run)) w
                in if ma_pendingReplacement (tw_agent w1) then w1
                   else emitState rd True (touch rd (upd_agent (\<lambda>a. a\<lparr>ma_lifecycle := LifeIdle\<rparr>) w1)))
          else dispatchSessionEvent lim rd (canceled_event w None) w)"

definition cancel_clears_permissions ::
  "(AgentTimelineItem \<Rightarrow> AgentTimelineItem) \<Rightarrow> readings \<Rightarrow> turn_world \<Rightarrow> turn_world" where
  "cancel_clears_permissions lim rd w =
     (if ma_pendingPermissions (tw_agent w) = [] then w
      else emitState rd True (touch rd
             (resolvePendingPermissionsForAgent lim (ma_provider (tw_agent w)) False ''Interrupted'' w)))"

text \<open>The rest of \<open>cancelAgentRunNow\<close>: whether the session acknowledged, and whether the wait for the run timed out. A
  wait that did not time out ended because the run had settled.\<close>

definition cancel_end ::
  "(AgentTimelineItem \<Rightarrow> AgentTimelineItem) \<Rightarrow> readings \<Rightarrow> bool \<Rightarrow> bool \<Rightarrow> turn_world \<Rightarrow> cancellation \<times> turn_world" where
  "cancel_end lim rd acknowledged timedOut w =
     (case tw_cancel w of
        None \<Rightarrow> (NotRunning, w)
      | Some run \<Rightarrow>
          let w1 = w\<lparr>tw_cancel := None\<rparr>
          in if \<not> acknowledged then (if timedOut then RefusedToStop else Settled, w1)
             else (Settled, cancel_clears_permissions lim rd (if timedOut then cancel_timed_out lim rd run w1 else w1)))"

definition needs_replacement :: "turn_world \<Rightarrow> bool" where
  "needs_replacement w =
     (ma_lifecycle (tw_agent w) = LifeRunning \<or> active_foreground (tw_agent w) \<noteq> None \<or> hasRun (agent_id w) (tw_runs w))"

definition hasInFlightRun :: "turn_world \<Rightarrow> bool" where
  "hasInFlightRun w = (\<not> tw_closed w \<and> needs_replacement w)"

text \<open>\<open>replaceAgentRun\<close> before it cancels, when a turn is in flight, and its end, which starts the new turn.\<close>

definition replace_begin :: "readings \<Rightarrow> turn_world \<Rightarrow> turn_world" where
  "replace_begin rd w =
     (if tw_closed w then w
      else emitState rd True (touch rd
             (upd_agent (\<lambda>a. a\<lparr>ma_pendingReplacement := True, ma_lifecycle := LifeRunning\<rparr>) w)))"

definition replace_end :: "string \<Rightarrow> string option \<Rightarrow> cancellation \<Rightarrow> turn_world \<Rightarrow> turn_world" where
  "replace_end prompt clientMessageId result w =
     (let failed = upd_agent (\<lambda>a. a\<lparr>ma_pendingReplacement := False\<rparr>) w
      in if result = RefusedToStop then failed
         else (case streamAgent prompt clientMessageId w of Inl _ \<Rightarrow> failed | Inr w1 \<Rightarrow> w1))"

section \<open>Steering\<close>

definition steer_begin ::
  "(AgentTimelineItem \<Rightarrow> AgentTimelineItem) \<Rightarrow> readings \<Rightarrow> string \<Rightarrow> turn_world \<Rightarrow> bool \<times> turn_world" where
  "steer_begin lim rd expectedTurnId w =
     (let w1 = coalescer_flush lim rd w
      in if ma_activeTurnId (tw_agent w1) \<noteq> Some expectedTurnId then (False, w1)
         else (True, w1\<lparr>tw_barrier := Some []\<rparr>))"

definition recordAcceptedSteer ::
  "(AgentTimelineItem \<Rightarrow> AgentTimelineItem) \<Rightarrow> readings \<Rightarrow> string \<Rightarrow> string option \<Rightarrow> string \<Rightarrow> turn_world \<Rightarrow> turn_world" where
  "recordAcceptedSteer lim rd prompt clientMessageId expectedTurnId w =
     (case truthy clientMessageId of
        None \<Rightarrow> w
      | Some c \<Rightarrow> emitState rd True (recordSubmittedPrompt lim rd prompt c (Some c) None (Some expectedTurnId) w))"

definition steer_end ::
  "(AgentTimelineItem \<Rightarrow> AgentTimelineItem) \<Rightarrow> readings \<Rightarrow> bool \<Rightarrow> string \<Rightarrow> string option \<Rightarrow> string \<Rightarrow> turn_world
     \<Rightarrow> turn_world" where
  "steer_end lim rd accepted prompt clientMessageId expectedTurnId w =
     (let w1 = (if accepted then recordAcceptedSteer lim rd prompt clientMessageId expectedTurnId w else w)
      in case tw_barrier w1 of
           None \<Rightarrow> w1
         | Some held \<Rightarrow> fold enqueueSessionEvent held (w1\<lparr>tw_barrier := None\<rparr>))"

section \<open>Permissions, attention and closing\<close>

definition permission_response_begins :: "string \<Rightarrow> turn_world \<Rightarrow> turn_world" where
  "permission_response_begins requestId w =
     upd_agent (\<lambda>a. a\<lparr>ma_inFlightResponses := List.insert requestId (ma_inFlightResponses a)\<rparr>) w"

definition response_finally :: "string \<Rightarrow> turn_world \<Rightarrow> turn_world" where
  "response_finally requestId w =
     upd_agent (\<lambda>a. a\<lparr>ma_inFlightResponses := removeAll requestId (ma_inFlightResponses a),
                      ma_bufferedResolutions := AList.delete requestId (ma_bufferedResolutions a)\<rparr>) w"

text \<open>The session has taken the response; \<open>pending\<close> is what it says is pending when its state is read again.\<close>

definition permission_response_taken ::
  "(AgentTimelineItem \<Rightarrow> AgentTimelineItem) \<Rightarrow> readings \<Rightarrow> string \<Rightarrow> (string, string) js_map \<Rightarrow> turn_world \<Rightarrow> turn_world" where
  "permission_response_taken lim rd requestId pending w =
     (let w1 = emitState rd True (emit PersistSnapshot (touch rd
                 (upd_agent (\<lambda>a. a\<lparr>ma_pendingPermissions := pending\<rparr>) w)));
          w2 = (case map_get (ma_bufferedResolutions (tw_agent w1)) requestId of
                  None \<Rightarrow> w1
                | Some ev \<Rightarrow> dispatchStream lim ev None w1)
      in response_finally requestId w2)"

definition permission_response_throws :: "string \<Rightarrow> turn_world \<Rightarrow> turn_world" where
  "permission_response_throws requestId w = response_finally requestId w"

definition clearAgentAttention :: "readings \<Rightarrow> turn_world \<Rightarrow> turn_world" where
  "clearAgentAttention rd w =
     (if ma_attention (tw_agent w) = None then w
      else emitState rd False (emit PersistSnapshot (upd_agent (\<lambda>a. a\<lparr>ma_attention := None\<rparr>) w)))"

definition prepareAgentForClosure ::
  "(AgentTimelineItem \<Rightarrow> AgentTimelineItem) \<Rightarrow> readings \<Rightarrow> string \<Rightarrow> turn_world \<Rightarrow> turn_world" where
  "prepareAgentForClosure lim rd cancelReason w =
     (case flushAndDiscard (tw_coalescer w) (agent_id w) (rd_now rd) of
        (flushes, co) \<Rightarrow>
          let w1 = fold (on_flush lim rd) flushes (w\<lparr>tw_coalescer := co\<rparr>);
              ended = (\<lambda>t. \<lparr>ae_provider = ma_provider (tw_agent w1), ae_turnId = Some t, ae_body = TurnCanceled cancelReason\<rparr>)
          in w1\<lparr>tw_closed := True, tw_previousStatus := None,
                tw_streams := cancelWaiters (ma_waiters (tw_agent w1)) ended (tw_streams w1),
                tw_runs := clearAgentRun (agent_id w1) (tw_runs w1),
                tw_agent := (tw_agent w1)\<lparr>ma_lifecycle := LifeClosed, ma_activeForegroundTurnId := None,
                   ma_activeTurnId := None, ma_activeTurnStartedAt := None, ma_pendingPermissions := [],
                   ma_bufferedResolutions := [], ma_inFlightResponses := [], ma_pendingReplacement := False,
                   ma_waiters := [], ma_finalizedTurns := []\<rparr>\<rparr>)"

definition closeAgentRuntime :: "(AgentTimelineItem \<Rightarrow> AgentTimelineItem) \<Rightarrow> readings \<Rightarrow> turn_world \<Rightarrow> turn_world" where
  "closeAgentRuntime lim rd w =
     (if tw_closed w then w
      else emitState rd False (emit PersistSnapshot (prepareAgentForClosure lim rd ''agent closed'' w)))"

section \<open>Runs\<close>

datatype turn_op =
    SessionEmits AgentEvent
  | DequeueEvent readings
  | CoalescerTimer readings nat
  | StreamPrompt string "string option"
  | CallFirst nat
  | StartResolves readings nat string
  | StartRejects readings nat string
  | CallNext nat
  | CallReturn nat
  | CancelBegin
  | CancelEnd readings bool bool
  | ReplaceBegin readings
  | ReplaceEnd string "string option" cancellation
  | SteerBegin readings string
  | SteerEnd readings bool string "string option" string
  | PermissionBegins string
  | PermissionTaken readings string "(string, string) js_map"
  | PermissionThrows string
  | ClearAttention readings
  | CloseAgent readings

definition turn_step :: "(AgentTimelineItem \<Rightarrow> AgentTimelineItem) \<Rightarrow> turn_op \<Rightarrow> turn_world \<Rightarrow> turn_world" where
  "turn_step lim op w =
     (if tw_closed w \<and> (case op of CallFirst _ \<Rightarrow> False | StartResolves _ _ _ \<Rightarrow> False | StartRejects _ _ _ \<Rightarrow> False
           | CallNext _ \<Rightarrow> False | CallReturn _ \<Rightarrow> False | DequeueEvent _ \<Rightarrow> False | _ \<Rightarrow> True) then w
      else
        (case op of
           SessionEmits ev \<Rightarrow> enqueueSessionEvent ev w
         | DequeueEvent rd \<Rightarrow> dequeue_session_event lim rd w
         | CoalescerTimer rd b \<Rightarrow> coalescer_timer lim rd b w
         | StreamPrompt p c \<Rightarrow> (case streamAgent p c w of Inl _ \<Rightarrow> w | Inr w1 \<Rightarrow> w1)
         | CallFirst i \<Rightarrow> if i < length (tw_calls w) then call_first i w else w
         | StartResolves rd i t \<Rightarrow> if i < length (tw_calls w) then start_resolves lim rd i t w else w
         | StartRejects rd i e \<Rightarrow> if i < length (tw_calls w) then start_rejects lim rd i e w else w
         | CallNext i \<Rightarrow> if i < length (tw_calls w) then call_next i w else w
         | CallReturn i \<Rightarrow> if i < length (tw_calls w) then call_return i w else w
         | CancelBegin \<Rightarrow> cancel_begin w
         | CancelEnd rd ack late \<Rightarrow>
             (case tw_cancel w of
                None \<Rightarrow> w
              | Some run \<Rightarrow> if late = is_settled (run_token run) (tw_runs w) then w else snd (cancel_end lim rd ack late w))
         | ReplaceBegin rd \<Rightarrow> if needs_replacement w \<or> ma_activeTurnId (tw_agent w) \<noteq> None then replace_begin rd w else w
         | ReplaceEnd p c r \<Rightarrow> replace_end p c r w
         | SteerBegin rd t \<Rightarrow> if tw_queue w = [] \<and> tw_barrier w = None then snd (steer_begin lim rd t w) else w
         | SteerEnd rd acc p c t \<Rightarrow> if tw_barrier w = None then w else steer_end lim rd acc p c t w
         | PermissionBegins r \<Rightarrow> permission_response_begins r w
         | PermissionTaken rd r pending \<Rightarrow> permission_response_taken lim rd r pending w
         | PermissionThrows r \<Rightarrow> permission_response_throws r w
         | ClearAttention rd \<Rightarrow> clearAgentAttention rd w
         | CloseAgent rd \<Rightarrow> if tw_queue w = [] then closeAgentRuntime lim rd w else w))"

definition turn_run :: "(AgentTimelineItem \<Rightarrow> AgentTimelineItem) \<Rightarrow> turn_op list \<Rightarrow> turn_world \<Rightarrow> turn_world" where
  "turn_run lim ops w = fold (turn_step lim) ops w"

definition new_agent :: "string \<Rightarrow> string \<Rightarrow> time_ms \<Rightarrow> ManagedAgent" where
  "new_agent i provider now = \<lparr>ma_id = i, ma_provider = provider, ma_lifecycle = LifeIdle, ma_activeForegroundTurnId = None,
     ma_activeTurnId = None, ma_activeTurnStartedAt = None, ma_pendingReplacement = False, ma_lastError = None,
     ma_lastUsage = None, ma_lastUsageAt = None, ma_lastUserMessageAt = None, ma_updatedAt = now, ma_attention = None,
     ma_internal = False, ma_delegated = False, ma_pendingPermissions = [], ma_bufferedResolutions = [],
     ma_inFlightResponses = [], ma_finalizedTurns = [], ma_waiters = [], ma_currentModeId = None, ma_availableModes = [],
     ma_runtimeInfo = None, ma_thinkingOptionId = None, ma_persistence = None\<rparr>"

definition new_turn_world :: "ManagedAgent \<Rightarrow> AgentTimelineState \<Rightarrow> turn_world" where
  "new_turn_world a timeline = \<lparr>tw_agent = a, tw_closed = False, tw_runs = new_run_state, tw_streams = [], tw_calls = [],
     tw_queue = [], tw_barrier = None, tw_previousStatus = Some (ma_lifecycle a), tw_coalescer = createCoalescer None,
     tw_timeline = timeline, tw_cancel = None, tw_out = []\<rparr>"

end
