(* ===== verification/AgentTurnFrames.thy ===== *)
theory AgentTurnFrames
  imports AgentTurns
begin

text \<open>
  What the steps of an agent's turns leave alone. Telling subscribers, recording items and notifying the streams of running
  turns keep the view of the agent on which its turns depend, the tracked run, the prompts and the queues: such a step is quiet.
  Every other step is an update of the view followed by a quiet step.
\<close>

section \<open>The view of an agent\<close>

definition turn_view :: "ManagedAgent \<Rightarrow> string \<times> lifecycle \<times> string option \<times> string option \<times> bool \<times> string option \<times> string list \<times> nat list" where
  "turn_view a = (ma_id a, ma_lifecycle a, ma_activeForegroundTurnId a, ma_activeTurnId a, ma_pendingReplacement a,
     ma_lastError a, ma_finalizedTurns a, ma_waiters a)"

lemma turn_view_eq [simp]:
  "turn_view a = turn_view b \<longleftrightarrow>
     ma_id a = ma_id b \<and> ma_lifecycle a = ma_lifecycle b \<and> ma_activeForegroundTurnId a = ma_activeForegroundTurnId b
     \<and> ma_activeTurnId a = ma_activeTurnId b \<and> ma_pendingReplacement a = ma_pendingReplacement b
     \<and> ma_lastError a = ma_lastError b \<and> ma_finalizedTurns a = ma_finalizedTurns b \<and> ma_waiters a = ma_waiters b"
  by (simp add: turn_view_def)

definition stream_kept :: "AgentEvent ForegroundTurnStream \<Rightarrow> AgentEvent ForegroundTurnStream \<Rightarrow> bool" where
  "stream_kept s s' = (ts_turnId s' = ts_turnId s \<and> ts_settled s' = ts_settled s
     \<and> (stream_ok isTurnTerminalEvent s \<longrightarrow> stream_ok isTurnTerminalEvent s'))"

lemma stream_kept_refl [simp]: "stream_kept s s"
  by (simp add: stream_kept_def)

lemma streams_kept_refl [simp]: "list_all2 stream_kept ss ss"
  by (simp add: list.rel_refl)

lemma streams_kept_trans: "list_all2 stream_kept ss ts \<Longrightarrow> list_all2 stream_kept ts us \<Longrightarrow> list_all2 stream_kept ss us"
  by (rule list_all2_trans [of stream_kept stream_kept]) (auto simp: stream_kept_def)

definition quiet :: "turn_world \<Rightarrow> turn_world \<Rightarrow> bool" where
  "quiet w w' =
     (turn_view (tw_agent w') = turn_view (tw_agent w) \<and> tw_runs w' = tw_runs w \<and> tw_calls w' = tw_calls w
      \<and> tw_cancel w' = tw_cancel w \<and> tw_closed w' = tw_closed w \<and> tw_queue w' = tw_queue w \<and> tw_barrier w' = tw_barrier w
      \<and> list_all2 stream_kept (tw_streams w) (tw_streams w')
      \<and> (\<exists>es. tw_out w' = tw_out w @ es \<and> (\<forall>a. AgentStateEvent a \<in> set es \<longrightarrow> turn_view a = turn_view (tw_agent w))))"

lemma quiet_refl [simp]: "quiet w w"
  by (simp add: quiet_def)

lemma quiet_trans [trans]:
  assumes "quiet u v" "quiet v w"
  shows "quiet u w"
proof -
  obtain es fs where "tw_out v = tw_out u @ es" "\<forall>a. AgentStateEvent a \<in> set es \<longrightarrow> turn_view a = turn_view (tw_agent u)"
      "tw_out w = tw_out v @ fs" "\<forall>a. AgentStateEvent a \<in> set fs \<longrightarrow> turn_view a = turn_view (tw_agent v)"
    using assms unfolding quiet_def by blast
  moreover have "turn_view (tw_agent v) = turn_view (tw_agent u)" using assms(1) by (simp only: quiet_def)
  ultimately have "\<exists>gs. tw_out w = tw_out u @ gs \<and> (\<forall>a. AgentStateEvent a \<in> set gs \<longrightarrow> turn_view a = turn_view (tw_agent u))"
    by (intro exI [of _ "es @ fs"]) auto
  moreover have "list_all2 stream_kept (tw_streams u) (tw_streams w)"
    using assms streams_kept_trans unfolding quiet_def by blast
  ultimately show ?thesis using assms unfolding quiet_def by simp
qed

lemma quiet_emit: "quiet u w \<Longrightarrow> (\<And>a. e \<noteq> AgentStateEvent a) \<Longrightarrow> quiet u (emit e w)"
  by (rule quiet_trans, assumption) (auto simp: quiet_def emit_def)

lemma quiet_emits [simp]:
  assumes "quiet u w"
  shows "quiet u (emit (AgentStreamEventOf ev n) w)" "quiet u (emit PersistSnapshot w)" "quiet u (emit (DurableAppend r) w)"
    "quiet u (emit (DurableUpdate r) w)" "quiet u (emit (AttentionCallback x) w)" "quiet u (emit (SubagentUpdate m) w)"
    "quiet u (emit FilesMayHaveChanged w)"
  using assms by (auto intro: quiet_emit)

lemma quiet_upd_agent:
  "quiet u w \<Longrightarrow> turn_view (f (tw_agent w)) = turn_view (tw_agent w) \<Longrightarrow> quiet u (upd_agent f w)"
  by (rule quiet_trans, assumption) (simp add: quiet_def upd_agent_def)

lemma quiet_fold: "quiet u w \<Longrightarrow> (\<And>x v. x \<in> set xs \<Longrightarrow> quiet u v \<Longrightarrow> quiet u (f x v)) \<Longrightarrow> quiet u (fold f xs w)"
  by (induction xs arbitrary: w) auto

lemma quiet_touch [simp]: "quiet u w \<Longrightarrow> quiet u (touch rd w)"
  by (simp add: touch_def quiet_upd_agent touchUpdatedAt_def)

lemma quiet_fields [simp]:
  assumes "quiet u w"
  shows "quiet u (w\<lparr>tw_previousStatus := p\<rparr>)" "quiet u (w\<lparr>tw_coalescer := co\<rparr>)" "quiet u (w\<lparr>tw_timeline := t\<rparr>)"
  using assms by (auto simp: quiet_def)

lemma quiet_broadcast [simp]: "quiet u w \<Longrightarrow> quiet u (broadcastAgentAttention reason w)"
  by (simp add: broadcastAgentAttention_def)

lemma quiet_attention [simp]: "quiet u w \<Longrightarrow> quiet u (checkAndSetAttention rd w)"
  by (simp add: checkAndSetAttention_def Let_def quiet_upd_agent)

lemma quiet_told: "quiet u w \<Longrightarrow> quiet u (emit (AgentStateEvent (tw_agent w)) w)"
  by (rule quiet_trans, assumption) (auto simp: quiet_def emit_def)

lemma quiet_emitState [simp]: "quiet u w \<Longrightarrow> quiet u (emitState rd persist w)"
  by (simp add: emitState_def Let_def quiet_told)

lemma quiet_dispatchStream [simp]: "quiet u w \<Longrightarrow> quiet u (dispatchStream lim ev n w)"
  by (simp add: dispatchStream_def)

lemma quiet_recordTimeline [simp]: "quiet u w \<Longrightarrow> quiet u (snd (recordTimeline lim rd item options w))"
  by (simp add: recordTimeline_def case_prod_beta)

lemma quiet_recordAndDispatch [simp]:
  "quiet u w \<Longrightarrow> quiet u (snd (recordAndDispatchTimelineItem lim rd item provider t m w))"
  by (simp add: recordAndDispatchTimelineItem_def case_prod_beta Let_def)

lemma quiet_submitted [simp]: "quiet u w \<Longrightarrow> quiet u (recordSubmittedPrompt lim rd prompt c m p t w)"
  by (simp add: recordSubmittedPrompt_def quiet_upd_agent)

lemma quiet_enrich [simp]: "quiet u w \<Longrightarrow> quiet u (enrich_submitted c m w)"
  by (simp add: enrich_submitted_def Let_def split: option.splits)

lemma quiet_reconcile [simp]: "quiet u w \<Longrightarrow> quiet u (snd (reconcileSubmittedPromptEcho lim rd prompt m c t w))"
  by (simp add: reconcileSubmittedPromptEcho_def Let_def split: option.splits)

lemma quiet_systemError [simp]: "quiet u w \<Longrightarrow> quiet u (appendSystemErrorTimelineMessage lim rd provider message h w)"
  by (simp add: appendSystemErrorTimelineMessage_def Let_def case_prod_beta)

lemma quiet_resolvePending [simp]: "quiet u w \<Longrightarrow> quiet u (resolvePendingPermissionsForAgent lim provider h message w)"
  by (simp add: resolvePendingPermissionsForAgent_def Let_def quiet_fold quiet_upd_agent)

section \<open>Notifying the streams of a turn\<close>

lemma hand_kept: "\<not> ts_settled s \<Longrightarrow> \<not> isTurnTerminalEvent ev \<Longrightarrow> stream_kept s (waiter_callback ev s)"
  using hand_ok by (auto simp: stream_kept_def waiter_callback_def wake_def)

lemma notify_kept:
  assumes "\<forall>i\<in>set idxs. i < length ss \<and> \<not> ts_settled (ss ! i)" "\<not> isTurnTerminalEvent ev"
  shows "list_all2 stream_kept ss (notifyWaiters idxs ev False ss)"
  using assms(1)
proof (induction idxs arbitrary: ss)
  case (Cons i idxs)
  let ?ss = "notify_waiter ev False i ss"
  have kept: "list_all2 stream_kept ss ?ss"
    using Cons.prems hand_kept [OF _ assms(2)]
    by (auto simp: notify_waiter_def list_all2_conv_all_nth nth_list_update)
  then have "\<forall>i\<in>set idxs. i < length ?ss \<and> \<not> ts_settled (?ss ! i)"
    using Cons.prems by (auto simp: list_all2_conv_all_nth stream_kept_def)
  from streams_kept_trans [OF kept Cons.IH [OF this]] show ?case by (simp add: notifyWaiters_def)
qed (simp add: notifyWaiters_def)

lemma matching_open: "i \<in> set (getMatchingWaiters ss ws t) \<Longrightarrow> i \<in> set ws \<and> i < length ss \<and> \<not> ts_settled (ss ! i) \<and> t = Some (ts_turnId (ss ! i))"
  by (auto simp: getMatchingWaiters_def split: option.splits)

lemma quiet_notify:
  assumes "quiet u w" "\<forall>i\<in>set idxs. i < length (tw_streams w) \<and> \<not> ts_settled (tw_streams w ! i)" "\<not> isTurnTerminalEvent ev"
  shows "quiet u (w\<lparr>tw_streams := notifyWaiters idxs ev False (tw_streams w)\<rparr>)"
  by (rule quiet_trans [OF assms(1)]) (simp add: quiet_def notify_kept [OF assms(2,3)])

lemma quiet_notifyForeground [simp]: "quiet u w \<Longrightarrow> \<not> isTurnTerminalEvent ev \<Longrightarrow> quiet u (notifyForegroundTurnWaiters ev w)"
  using matching_open by (auto simp: notifyForegroundTurnWaiters_def agent_waiters_def intro!: quiet_notify)

lemma recorded_event [simp]: "fst (recordAndDispatchTimelineItem lim rd item provider t m w) = timeline_event item provider t"
  by (simp add: recordAndDispatchTimelineItem_def Let_def split: prod.splits)

lemma timeline_not_terminal [simp]: "\<not> isTurnTerminalEvent (timeline_event item provider t)"
  by (simp add: timeline_event_def isTurnTerminalEvent_def is_terminal_body_def)

lemma quiet_on_flush [simp]: "quiet u w \<Longrightarrow> quiet u (on_flush lim rd f w)"
  by (simp add: on_flush_def case_prod_beta)

lemma quiet_flushes [simp]: "quiet u w \<Longrightarrow> quiet u (fold (on_flush lim rd) flushes w)"
  by (simp add: quiet_fold)

lemma quiet_coalescer_ops [simp]:
  assumes "quiet u w"
  shows "quiet u (snd (coalescer_handle lim rd ev w))" "quiet u (coalescer_flush lim rd w)" "quiet u (coalescer_timer lim rd b w)"
  using assms by (simp_all add: coalescer_handle_def coalescer_flush_def coalescer_timer_def case_prod_beta)

section \<open>Events that do not start or end a turn\<close>

lemma quiet_threadStarted [simp]: "quiet u w \<Longrightarrow> quiet u (onStreamThreadStarted rd w)"
  by (simp add: onStreamThreadStarted_def Let_def quiet_upd_agent split: option.splits)

lemma quiet_timelineEvent [simp]: "quiet u w \<Longrightarrow> quiet u (fst (onStreamTimelineEvent lim rd h ev item ts w))"
  by (cases item) (simp_all add: onStreamTimelineEvent_def case_prod_beta quiet_upd_agent split: option.splits)

lemma quiet_usage [simp]: "quiet u w \<Longrightarrow> quiet u (onStreamUsageUpdated rd h m w)"
  by (simp add: onStreamUsageUpdated_def quiet_upd_agent)

lemma quiet_permissions [simp]:
  assumes "quiet u w"
  shows "quiet u (onStreamPermissionRequested rd r q w)" "quiet u (fst (onStreamPermissionResolved rd h ev r w))"
  using assms by (simp_all add: onStreamPermissionRequested_def onStreamPermissionResolved_def Let_def quiet_upd_agent)

definition turns_alone :: "event_body \<Rightarrow> bool" where
  "turns_alone b = (b \<noteq> TurnStarted \<and> \<not> is_terminal_body b)"

lemma quiet_byType:
  assumes "turns_alone (ae_body ev)" "quiet u w"
  shows "quiet u (fst (dispatchStreamEventByType lim rd h ev t fg d w))"
  using assms
  by (cases "ae_body ev")
    (simp_all add: turns_alone_def is_terminal_body_def dispatchStreamEventByType_def quiet_upd_agent runtime_with_def)

end
