(* ===== verification/AgentTurnEnds.thy ===== *)
theory AgentTurnEnds
  imports AgentTurnFrames
begin

text \<open>
  How the events that start and end turns act on the view of an agent: each handler is an update of the view, named here, with
  quiet steps before and after it.
\<close>

section \<open>Worlds that agree on the turns\<close>

definition world_view where
  "world_view w = (turn_view (tw_agent w), tw_runs w, tw_calls w, tw_cancel w, tw_closed w, agent_id w)"

definition kept :: "turn_world \<Rightarrow> turn_world \<Rightarrow> bool" where
  "kept w w' = (world_view w' = world_view w \<and> list_all2 stream_kept (tw_streams w) (tw_streams w'))"

lemma kept_iff:
  "kept w w' \<longleftrightarrow>
     turn_view (tw_agent w') = turn_view (tw_agent w) \<and> tw_runs w' = tw_runs w \<and> tw_calls w' = tw_calls w
      \<and> tw_cancel w' = tw_cancel w \<and> tw_closed w' = tw_closed w
      \<and> list_all2 stream_kept (tw_streams w) (tw_streams w')"
  unfolding kept_def world_view_def agent_id_def turn_view_def by auto

lemma quiet_kept: "quiet w w' \<Longrightarrow> kept w w'"
  unfolding quiet_def kept_iff by blast

lemma kept_refl [simp]: "kept w w"
  by (simp add: kept_def)

lemma kept_trans [trans]: "kept u v \<Longrightarrow> kept v w \<Longrightarrow> kept u w"
  unfolding kept_def using streams_kept_trans by metis

definition on_view :: "(ManagedAgent \<Rightarrow> ManagedAgent) \<Rightarrow> bool" where
  "on_view f = (\<forall>a b. turn_view a = turn_view b \<longrightarrow> turn_view (f a) = turn_view (f b))"

lemma kept_upd_agent: "kept v w \<Longrightarrow> on_view f \<Longrightarrow> kept (upd_agent f v) (upd_agent f w)"
proof -
  assume k: "kept v w" and "on_view f"
  then have "turn_view (f (tw_agent w)) = turn_view (f (tw_agent v))" unfolding on_view_def kept_iff by blast
  with k show ?thesis unfolding kept_iff upd_agent_def by (simp del: turn_view_eq)
qed

lemma kept_upd_runs: "kept v w \<Longrightarrow> kept (upd_runs f v) (upd_runs f w)"
  by (simp add: kept_iff upd_runs_def)

lemma upd_simps [simp]:
  "tw_agent (upd_agent f w) = f (tw_agent w)" "tw_runs (upd_agent f w) = tw_runs w" "tw_calls (upd_agent f w) = tw_calls w"
  "tw_cancel (upd_agent f w) = tw_cancel w" "tw_closed (upd_agent f w) = tw_closed w" "tw_queue (upd_agent f w) = tw_queue w"
  "tw_barrier (upd_agent f w) = tw_barrier w" "tw_streams (upd_agent f w) = tw_streams w" "tw_out (upd_agent f w) = tw_out w"
  "tw_agent (upd_runs g w) = tw_agent w" "tw_runs (upd_runs g w) = g (tw_runs w)" "tw_calls (upd_runs g w) = tw_calls w"
  "tw_cancel (upd_runs g w) = tw_cancel w" "tw_closed (upd_runs g w) = tw_closed w" "tw_queue (upd_runs g w) = tw_queue w"
  "tw_barrier (upd_runs g w) = tw_barrier w" "tw_streams (upd_runs g w) = tw_streams w" "tw_out (upd_runs g w) = tw_out w"
  by (simp_all add: upd_agent_def upd_runs_def)

lemma upd_upd [simp]: "upd_agent f (upd_agent g w) = upd_agent (f \<circ> g) w"
  by (simp add: upd_agent_def)

lemma upd_runs_id [simp]: "upd_runs (\<lambda>rs. rs) w = w" "upd_agent (\<lambda>a. a) w = w" "upd_agent id w = w"
  by (simp_all add: upd_runs_def upd_agent_def)

lemma quiet_upd_both: "turn_view (f (tw_agent w)) = turn_view (g (tw_agent w)) \<Longrightarrow> quiet (upd_agent f w) (upd_agent g w)"
  by (simp add: quiet_def)

section \<open>What subscribers are shown\<close>

text \<open>While a prompt replaces the running turn no state shows the agent idle, and an agent with a turn of a prompt is
  shown running.\<close>

definition shown_ok :: "ManagedAgent \<Rightarrow> bool" where
  "shown_ok a = ((ma_activeForegroundTurnId a \<noteq> None \<longrightarrow> ma_lifecycle a = LifeRunning)
     \<and> (ma_pendingReplacement a \<longrightarrow> ma_lifecycle a = LifeRunning \<or> ma_lifecycle a = LifeError))"

definition out_ok :: "turn_world \<Rightarrow> bool" where
  "out_ok w = (\<forall>a. AgentStateEvent a \<in> set (tw_out w) \<longrightarrow> shown_ok a)"

lemma shown_view: "turn_view a = turn_view b \<Longrightarrow> shown_ok a = shown_ok b"
  by (simp add: shown_ok_def)

lemma quiet_out: "quiet w w' \<Longrightarrow> shown_ok (tw_agent w) \<Longrightarrow> out_ok w \<Longrightarrow> out_ok w'"
proof -
  assume "quiet w w'" and shown: "shown_ok (tw_agent w)" and ok: "out_ok w"
  then obtain es where es: "tw_out w' = tw_out w @ es" "\<forall>a. AgentStateEvent a \<in> set es \<longrightarrow> turn_view a = turn_view (tw_agent w)"
    unfolding quiet_def by blast
  show "out_ok w'"
    unfolding out_ok_def
  proof (intro allI impI)
    fix a assume "AgentStateEvent a \<in> set (tw_out w')"
    then consider "AgentStateEvent a \<in> set (tw_out w)" | "turn_view a = turn_view (tw_agent w)" using es by auto
    then show "shown_ok a"
    proof cases
      case 1 with ok show ?thesis by (simp add: out_ok_def)
    next
      case 2 from shown_view [OF this] shown show ?thesis by simp
    qed
  qed
qed

lemma quiet_shown: "quiet w w' \<Longrightarrow> shown_ok (tw_agent w') = shown_ok (tw_agent w)"
  by (rule shown_view) (simp only: quiet_def)

section \<open>The end of a turn\<close>

definition failure :: "event_body \<Rightarrow> string option" where
  "failure b = (case b of TurnFailed e _ _ \<Rightarrow> Some e | _ \<Rightarrow> None)"

definition is_failure :: "event_body \<Rightarrow> bool" where
  "is_failure b = (failure b \<noteq> None)"

text \<open>The handler of a terminal event, on the view.\<close>

definition end_view :: "event_body \<Rightarrow> bool \<Rightarrow> disposition \<Rightarrow> ManagedAgent \<Rightarrow> ManagedAgent" where
  "end_view b isForegroundEvent d a =
     (if d = Stale then a
      else if \<not> isForegroundEvent \<and> active_foreground a = None
      then a\<lparr>ma_lifecycle := (if is_failure b then LifeError else if ma_pendingReplacement a then ma_lifecycle a else LifeIdle),
             ma_lastError := failure b\<rparr>
      else a\<lparr>ma_lastError := failure b\<rparr>)"

text \<open>The finalisation of a foreground turn, on the view.\<close>

definition forget_view :: "string option \<Rightarrow> ManagedAgent \<Rightarrow> ManagedAgent" where
  "forget_view turnId a =
     a\<lparr>ma_activeForegroundTurnId := None,
       ma_finalizedTurns := (case truthy turnId of
                               Some t \<Rightarrow> rememberFinalizedTurn t (ma_finalizedTurns a)
                             | None \<Rightarrow> ma_finalizedTurns a)\<rparr>"

definition close_view :: "string option \<Rightarrow> ManagedAgent \<Rightarrow> ManagedAgent" where
  "close_view turnId a = snd (applyActiveTurnTerminal turnId False a)"

definition rest_view :: "ManagedAgent \<Rightarrow> ManagedAgent" where
  "rest_view a = a\<lparr>ma_lifecycle := (if truthy (ma_lastError a) \<noteq> None then LifeError
                                   else if ma_pendingReplacement a then LifeRunning else LifeIdle)\<rparr>"

definition final_view :: "string option \<Rightarrow> ManagedAgent \<Rightarrow> ManagedAgent" where
  "final_view turnId a = rest_view (close_view turnId (forget_view turnId a))"

lemma end_view_stale [simp]: "end_view b fg Stale = (\<lambda>a. a)"
  by (simp add: end_view_def fun_eq_iff)

lemma on_end_view [simp]: "on_view (end_view b fg d)"
  by (simp add: on_view_def end_view_def active_foreground_def)

lemma on_close_view [simp]: "on_view (close_view t)"
  by (simp add: on_view_def close_view_def applyActiveTurnTerminal_def)

lemma on_view_comp: "on_view f \<Longrightarrow> on_view g \<Longrightarrow> on_view (f \<circ> g)"
  unfolding on_view_def o_def by blast

lemma on_final_view [simp]: "on_view (final_view t)"
proof -
  have "on_view (forget_view t)" "on_view rest_view"
    by (simp_all add: on_view_def forget_view_def rest_view_def split: option.splits)
  then have "on_view (rest_view \<circ> (close_view t \<circ> forget_view t))" by (intro on_view_comp on_close_view)
  then show ?thesis by (simp add: final_view_def [abs_def] o_def)
qed

lemma on_view_id [simp]: "on_view id" "on_view (\<lambda>a. a)"
  by (simp_all add: on_view_def)

lemma finalize_quiet: "quiet (upd_agent (final_view turnId) w) (finalizeForegroundTurn rd turnId w)"
proof -
  have same: "quiet (upd_agent (final_view turnId) w) (w\<lparr>tw_agent := a\<rparr>)"
    if "turn_view a = turn_view (final_view turnId (tw_agent w))" for a
    using that by (simp add: quiet_def)
  define a1 where "a1 = (case truthy turnId of
       Some t \<Rightarrow> (tw_agent w)\<lparr>ma_finalizedTurns := rememberFinalizedTurn t (ma_finalizedTurns (tw_agent w))\<rparr>
     | None \<Rightarrow> tw_agent w)"
  have forget: "a1\<lparr>ma_activeForegroundTurnId := None\<rparr> = forget_view turnId (tw_agent w)"
    by (simp add: a1_def forget_view_def split: option.splits)
  show ?thesis
    unfolding finalizeForegroundTurn_def Let_def a1_def [symmetric] forget close_view_def [symmetric]
    by (auto intro!: same quiet_emitState quiet_touch simp: final_view_def rest_view_def split: option.splits)
qed

lemma completed_quiet: "quiet (upd_agent (end_view (TurnCompleted u) fg d) w) (onStreamTurnCompleted rd u fg d w)"
  by (auto simp: onStreamTurnCompleted_def end_view_def Let_def failure_def is_failure_def active_foreground_def
      intro!: quiet_emitState quiet_upd_both)

lemma failed_quiet:
  "quiet (upd_agent (end_view (TurnFailed e c g) fg d) w) (onStreamTurnFailed lim rd False provider e c g fg d w)"
  by (auto simp: onStreamTurnFailed_def end_view_def Let_def failure_def is_failure_def
      intro!: quiet_emitState quiet_resolvePending quiet_systemError quiet_upd_both)

lemma canceled_quiet: "quiet (upd_agent (end_view (TurnCanceled r) fg d) w) (onStreamTurnCanceled lim rd False provider fg d w)"
  by (auto simp: onStreamTurnCanceled_def end_view_def Let_def failure_def is_failure_def active_foreground_def
      intro!: quiet_emitState quiet_resolvePending quiet_upd_both)

lemma terminal_handler:
  assumes "is_terminal_body (ae_body ev)"
  shows "quiet (upd_agent (end_view (ae_body ev) fg d) w) (fst (dispatchStreamEventByType lim rd False ev t fg d w))"
    and "snd (dispatchStreamEventByType lim rd False ev t fg d w) = (True, True)"
  using assms by (cases "ae_body ev";
      simp add: is_terminal_body_def dispatchStreamEventByType_def completed_quiet failed_quiet canceled_quiet)+

lemma disposition_view: "turn_view a = turn_view b \<Longrightarrow> fst (applyActiveTurnTerminal t False a) = fst (applyActiveTurnTerminal t False b)"
  by (simp add: applyActiveTurnTerminal_def)

text \<open>All of a terminal event on the world: the active turn is closed, the handler runs, the run settles, and a foreground
  turn is finalised.\<close>

definition is_foreground :: "string option \<Rightarrow> ManagedAgent \<Rightarrow> bool" where
  "is_foreground turnId a = (turnId \<noteq> None \<and> ma_activeForegroundTurnId a = turnId)"

definition handler_view :: "event_body \<Rightarrow> string option \<Rightarrow> ManagedAgent \<Rightarrow> ManagedAgent" where
  "handler_view b turnId a =
     end_view b (is_foreground turnId a) (fst (applyActiveTurnTerminal turnId False a)) (close_view turnId a)"

definition ended_view :: "event_body \<Rightarrow> string option \<Rightarrow> ManagedAgent \<Rightarrow> ManagedAgent" where
  "ended_view b turnId a =
     (if is_foreground turnId a then final_view turnId (handler_view b turnId a) else handler_view b turnId a)"

definition ended_world :: "event_body \<Rightarrow> string option \<Rightarrow> turn_world \<Rightarrow> turn_world" where
  "ended_world b turnId w = upd_agent (ended_view b turnId) (upd_runs (settleTerminalRun (agent_id w) turnId) w)"

lemma not_buffered: "isTurnTerminalEvent ev \<or> ae_body ev = TurnStarted \<Longrightarrow> fst (coalescer_handle lim rd ev w) = False"
  by (cases "ae_body ev")
    (simp_all add: coalescer_handle_def coalescer_event_def co_handle_def isTurnTerminalEvent_def is_terminal_body_def)

lemma on_viewD: "on_view f \<Longrightarrow> turn_view a = turn_view b \<Longrightarrow> turn_view (f a) = turn_view (f b)"
  unfolding on_view_def by blast

lemma is_foreground_view: "turn_view a = turn_view b \<Longrightarrow> is_foreground t a = is_foreground t b"
  by (simp add: is_foreground_def)

lemma on_handler_view [simp]: "on_view (handler_view b t)"
  unfolding on_view_def handler_view_def
proof (intro allI impI)
  fix a c assume same: "turn_view a = turn_view c"
  from on_viewD [OF on_end_view on_viewD [OF on_close_view same]]
  show "turn_view (end_view b (is_foreground t a) (fst (applyActiveTurnTerminal t False a)) (close_view t a)) =
      turn_view (end_view b (is_foreground t c) (fst (applyActiveTurnTerminal t False c)) (close_view t c))"
    unfolding disposition_view [OF same] is_foreground_view [OF same] .
qed

lemma on_ended_view [simp]: "on_view (ended_view b t)"
  unfolding on_view_def ended_view_def
proof (intro allI impI)
  fix a c assume same: "turn_view a = turn_view c"
  from on_viewD [OF on_handler_view same] on_viewD [OF on_final_view on_viewD [OF on_handler_view same]]
  show "turn_view (if is_foreground t a then final_view t (handler_view b t a) else handler_view b t a) =
      turn_view (if is_foreground t c then final_view t (handler_view b t c) else handler_view b t c)"
    unfolding is_foreground_view [OF same] by simp
qed

lemma on_view_if [simp]: "on_view f \<Longrightarrow> on_view (\<lambda>a. if c then f a else a)"
  by (cases c) simp_all

lemma ended_kept: "kept v w \<Longrightarrow> kept (ended_world b t v) (ended_world b t w)"
  unfolding ended_world_def
proof -
  assume k: "kept v w"
  then have "agent_id w = agent_id v" by (simp add: agent_id_def kept_iff)
  with kept_upd_agent [OF kept_upd_runs [OF k] on_ended_view]
  show "kept (upd_agent (ended_view b t) (upd_runs (settleTerminalRun (agent_id v) t) v))
      (upd_agent (ended_view b t) (upd_runs (settleTerminalRun (agent_id w) t) w))" by simp
qed

lemma handler_id: "ma_id (handler_view b t a) = ma_id a" "ma_id (final_view t a) = ma_id a"
  by (simp_all add: handler_view_def end_view_def close_view_def applyActiveTurnTerminal_def final_view_def rest_view_def
      forget_view_def)

lemma handle_tail_terminal:
  assumes "isTurnTerminalEvent ev" "turn_view (tw_agent v) = turn_view (handler_view (ae_body ev) t a)"
    and shown: "shown_ok (tw_agent v)" "shown_ok (ended_view (ae_body ev) t a)" and out: "out_ok v"
  shows "kept (upd_agent (\<lambda>h. if is_foreground t a then final_view t h else h) (upd_runs (settleTerminalRun (agent_id v) t) v))
      (handle_tail lim rd ev t (is_foreground t a) True v)"
    and "out_ok (handle_tail lim rd ev t (is_foreground t a) True v)"
proof -
  define u where "u = upd_runs (settleTerminalRun (agent_id (emit FilesMayHaveChanged v)) t) (emit FilesMayHaveChanged v)"
  have u: "tw_agent u = tw_agent v" "kept (upd_runs (settleTerminalRun (agent_id v) t) v) u" "out_ok u"
    using out by (auto simp: u_def emit_def agent_id_def kept_iff out_ok_def)
  show "kept (upd_agent (\<lambda>h. if is_foreground t a then final_view t h else h) (upd_runs (settleTerminalRun (agent_id v) t) v))
      (handle_tail lim rd ev t (is_foreground t a) True v)"
    and "out_ok (handle_tail lim rd ev t (is_foreground t a) True v)"
  proof -
    let ?fin = "if is_foreground t a then finalizeForegroundTurn rd t u else u"
    have tail: "handle_tail lim rd ev t (is_foreground t a) True v = dispatchStream lim ev None ?fin"
      using assms(1) by (simp add: handle_tail_def Let_def u_def agent_id_def emit_def)
    have q: "quiet (upd_agent (\<lambda>h. if is_foreground t a then final_view t h else h) u) (dispatchStream lim ev None ?fin)"
      using finalize_quiet [of t u rd] by simp
    have "kept (upd_agent (\<lambda>h. if is_foreground t a then final_view t h else h) (upd_runs (settleTerminalRun (agent_id v) t) v))
        (upd_agent (\<lambda>h. if is_foreground t a then final_view t h else h) u)"
      by (rule kept_upd_agent [OF u(2)]) simp
    from kept_trans [OF this quiet_kept [OF q]]
    show "kept (upd_agent (\<lambda>h. if is_foreground t a then final_view t h else h) (upd_runs (settleTerminalRun (agent_id v) t) v))
        (handle_tail lim rd ev t (is_foreground t a) True v)" unfolding tail .
    have "shown_ok (tw_agent (upd_agent (\<lambda>h. if is_foreground t a then final_view t h else h) u))"
      using shown u(1) shown_view [OF on_viewD [OF on_final_view [of t] assms(2)]] by (simp add: ended_view_def split: if_splits)
    from quiet_out [OF q this] u(3) show "out_ok (handle_tail lim rd ev t (is_foreground t a) True v)"
      unfolding tail by (simp add: out_ok_def)
  qed
qed

definition terminal_turn :: "ManagedAgent \<Rightarrow> AgentEvent \<Rightarrow> string option" where
  "terminal_turn a ev = (case ae_turnId ev of Some t \<Rightarrow> Some t | None \<Rightarrow> current_turn a)"

lemma attach_terminal:
  assumes "isTurnTerminalEvent ev"
  obtains ev' where "attachManagedTurnIdentity uuid a (limitAgentStreamEventContent lim ev) False = (ev', terminal_turn a ev)"
    "ae_body ev' = ae_body ev"
proof -
  have "limitAgentStreamEventContent lim ev = ev"
    using assms by (cases "ae_body ev")
      (simp_all add: isTurnTerminalEvent_def is_terminal_body_def limitAgentStreamEventContent_def)
  then show ?thesis
    using assms that by (cases "ae_body ev"; cases "ae_turnId ev"; cases "truthy (current_turn a)")
      (simp_all add: isTurnTerminalEvent_def is_terminal_body_def attachManagedTurnIdentity_def terminal_turn_def)
qed

lemma upd_both: "upd_agent f (upd_runs g w) = upd_runs g (upd_agent f w)"
  by (simp add: upd_agent_def upd_runs_def)

lemma handle_terminal:
  assumes terminal: "isTurnTerminalEvent ev0" and t: "t = terminal_turn (tw_agent w) ev0"
    and unfinished: "\<And>x. truthy t = Some x \<Longrightarrow> x \<notin> set (ma_finalizedTurns (tw_agent w))"
    and shown: "shown_ok (tw_agent w)" "shown_ok (handler_view (ae_body ev0) t (tw_agent w))"
      "shown_ok (ended_view (ae_body ev0) t (tw_agent w))" "out_ok w"
  obtains w' where "handleStreamEvent lim rd False ev0 w = (True, w')" "kept (ended_world (ae_body ev0) t w) w'" "out_ok w'"
proof -
  obtain ev where attach: "attachManagedTurnIdentity (rd_uuid rd) (tw_agent w) (limitAgentStreamEventContent lim ev0) False = (ev, t)"
      and body: "ae_body ev = ae_body ev0"
    using attach_terminal [OF terminal] t by metis
  have ends: "isTurnTerminalEvent ev" using terminal body by (simp add: isTurnTerminalEvent_def)
  let ?a = "tw_agent w" and ?b = "ae_body ev0"
  define w1 where "w1 = snd (coalescer_handle lim rd ev (touch rd w))"
  define w2 where "w2 = coalescer_flush lim rd w1"
  have q2: "quiet w w2" by (simp add: w1_def w2_def)
  then have view2: "turn_view (tw_agent w2) = turn_view ?a" by (simp only: quiet_def)
  have fg: "is_foreground t ?a = is_foreground t (tw_agent w2)" by (rule is_foreground_view) (simp only: view2)
  define w3 where "w3 = upd_agent (close_view t) w2"
  define d where "d = fst (applyActiveTurnTerminal t False (tw_agent w2))"
  define w4 where "w4 = fst (dispatchStreamEventByType lim rd False ev t (is_foreground t ?a) d w3)"
  have by_type: "dispatchStreamEventByType lim rd False ev t (is_foreground t ?a) d w3 = (w4, True, True)"
    using terminal_handler(2) [of ev lim rd t "is_foreground t ?a" d w3] ends
    by (simp add: w4_def isTurnTerminalEvent_def prod_eq_iff)
  have handle: "handleStreamEvent lim rd False ev0 w = (True, handle_tail lim rd ev t (is_foreground t ?a) True w4)"
    using unfinished not_buffered [of ev lim rd "touch rd w"] ends by_type
    unfolding handleStreamEvent_def attach
    by (cases "truthy t") (simp_all add: hasFinalizedTurn_def is_foreground_def Let_def case_prod_beta
        w1_def [symmetric] w2_def [symmetric] d_def [symmetric] w3_def close_view_def upd_agent_def)
  have q4: "quiet (upd_agent (handler_view ?b t) w2) w4"
    using terminal_handler(1) [of ev "is_foreground t ?a" d w3 lim rd t] ends
    by (simp add: w4_def w3_def isTurnTerminalEvent_def handler_view_def fg d_def upd_agent_def body)
  have view4: "turn_view (tw_agent w4) = turn_view (handler_view ?b t ?a)"
    using q4 on_viewD [OF on_handler_view view2, of ?b t] unfolding quiet_def upd_simps by metis
  have ok4: "out_ok w4" "shown_ok (tw_agent w4)"
  proof -
    have "shown_ok (tw_agent (upd_agent (handler_view ?b t) w2))"
      using shown(2) shown_view [OF on_viewD [OF on_handler_view view2]] by simp
    moreover have "out_ok (upd_agent (handler_view ?b t) w2)"
      using quiet_out [OF q2 shown(1,4)] by (simp add: out_ok_def)
    ultimately show "out_ok w4" by (rule quiet_out [OF q4])
    show "shown_ok (tw_agent w4)" using shown(2) shown_view [OF view4] by simp
  qed
  have tail: "kept (upd_agent (\<lambda>h. if is_foreground t ?a then final_view t h else h) (upd_runs (settleTerminalRun (agent_id w4) t) w4))
      (handle_tail lim rd ev t (is_foreground t ?a) True w4)" "out_ok (handle_tail lim rd ev t (is_foreground t ?a) True w4)"
    using handle_tail_terminal [OF ends, of w4 t ?a lim rd] view4 ok4 shown(3) unfolding body by simp_all
  have "kept (upd_agent (handler_view ?b t) w) w4"
    using kept_trans [OF kept_upd_agent [OF quiet_kept [OF q2] on_handler_view] quiet_kept [OF q4]] .
  moreover from this have "agent_id w4 = agent_id w" by (simp add: kept_iff agent_id_def handler_id)
  ultimately have "kept (upd_agent (\<lambda>h. if is_foreground t ?a then final_view t h else h)
        (upd_runs (settleTerminalRun (agent_id w) t) (upd_agent (handler_view ?b t) w)))
      (upd_agent (\<lambda>h. if is_foreground t ?a then final_view t h else h) (upd_runs (settleTerminalRun (agent_id w4) t) w4))"
    using kept_upd_agent [OF kept_upd_runs] by simp
  moreover have "upd_agent (\<lambda>h. if is_foreground t ?a then final_view t h else h)
        (upd_runs (settleTerminalRun (agent_id w) t) (upd_agent (handler_view ?b t) w)) = ended_world ?b t w"
    by (simp add: ended_world_def ended_view_def upd_agent_def upd_runs_def)
  ultimately have "kept (ended_world ?b t w) (handle_tail lim rd ev t (is_foreground t ?a) True w4)"
    using kept_trans tail(1) by metis
  with handle tail(2) that show ?thesis by blast
qed

section \<open>Other events\<close>

text \<open>The start of a turn by the session itself, on the world.\<close>

definition started_turn :: "string \<Rightarrow> ManagedAgent \<Rightarrow> AgentEvent \<Rightarrow> string" where
  "started_turn uuid a ev =
     (case ae_turnId ev of Some t \<Rightarrow> t | None \<Rightarrow> (case current_turn a of Some t \<Rightarrow> t | None \<Rightarrow> ''autonomous-'' @ uuid))"

definition started_world :: "time_ms \<Rightarrow> string \<Rightarrow> turn_world \<Rightarrow> turn_world" where
  "started_world now t w =
     (if active_foreground (tw_agent w) \<noteq> None \<or> is_foreground (Some t) (tw_agent w) then w
      else upd_agent (\<lambda>a. (case truthy (Some t) of Some x \<Rightarrow> openActiveTurn x now a | None \<Rightarrow> a)\<lparr>ma_lifecycle := LifeRunning\<rparr>)
             (upd_runs (\<lambda>rs. snd (trackAutonomousRun (agent_id w) (Some t) rs)) w))"

lemma handle_started:
  assumes started: "ae_body ev0 = TurnStarted" and t: "t = started_turn (rd_uuid rd) (tw_agent w) ev0"
    and shown: "shown_ok (tw_agent w)" "shown_ok (tw_agent (started_world (rd_now rd) t w))" "out_ok w"
  obtains b w' where "handleStreamEvent lim rd False ev0 w = (b, w')" "kept (started_world (rd_now rd) t w) w'" "out_ok w'"
proof -
  define ev where "ev = ev0\<lparr>ae_turnId := Some t\<rparr>"
  have attach: "attachManagedTurnIdentity (rd_uuid rd) (tw_agent w) (limitAgentStreamEventContent lim ev0) False = (ev, Some t)"
    using started by (cases "ae_turnId ev0"; cases "current_turn (tw_agent w)")
      (auto simp: attachManagedTurnIdentity_def limitAgentStreamEventContent_def t ev_def started_turn_def Let_def)
  have body: "ae_body ev = TurnStarted" "\<not> isTurnTerminalEvent ev"
    using started by (simp_all add: ev_def isTurnTerminalEvent_def is_terminal_body_def)
  let ?fg = "is_foreground (Some t) (tw_agent w)"
  define w2 where "w2 = coalescer_flush lim rd (snd (coalescer_handle lim rd ev (touch rd w)))"
  have q2: "quiet w w2" by (simp add: w2_def)
  define r where "r = onStreamTurnStarted rd (Some t) ?fg w2"
  have handle: "handleStreamEvent lim rd False ev0 w = (snd (snd r), handle_tail lim rd ev (Some t) ?fg (fst (snd r)) (fst r))"
    using not_buffered [of ev lim rd "touch rd w"] body
    unfolding handleStreamEvent_def attach
    by (cases "truthy (Some t)") (simp_all add: hasFinalizedTurn_def is_foreground_def Let_def case_prod_beta
        w2_def [symmetric] dispatchStreamEventByType_def r_def)
  have tail: "quiet v (handle_tail lim rd ev (Some t) ?fg sd v)" for sd v
    using body by (simp add: handle_tail_def)
  show ?thesis
  proof (cases "?fg \<or> active_foreground (tw_agent w) \<noteq> None")
    case True
    have "active_foreground (tw_agent w2) = active_foreground (tw_agent w)"
      using q2 by (simp add: quiet_def active_foreground_def)
    with True have "fst r = w2" by (simp add: r_def onStreamTurnStarted_def)
    then have "quiet w (snd (handleStreamEvent lim rd False ev0 w))"
      using quiet_trans [OF q2 tail] by (simp add: handle)
    moreover have "started_world (rd_now rd) t w = w" using True by (auto simp: started_world_def)
    ultimately show ?thesis using that [of _ "snd (handleStreamEvent lim rd False ev0 w)"] quiet_kept quiet_out shown
      by (metis prod.collapse)
  next
    case False
    define f where "f = (\<lambda>a. (case truthy (Some t) of Some x \<Rightarrow> openActiveTurn x (rd_now rd) a | None \<Rightarrow> a)\<lparr>ma_lifecycle := LifeRunning\<rparr>)"
    define g where "g = (\<lambda>rs :: AgentEvent AgentRunState. snd (trackAutonomousRun (agent_id w) (Some t) rs))"
    have on_f: "on_view f" by (simp add: on_view_def f_def openActiveTurn_def split: option.splits)
    have same: "active_foreground (tw_agent w2) = active_foreground (tw_agent w)" "agent_id w2 = agent_id w"
      using q2 by (simp_all add: quiet_def active_foreground_def agent_id_def)
    with False have "fst r = emitState rd True (upd_agent f (upd_runs g w2))"
      by (simp add: r_def onStreamTurnStarted_def Let_def f_def g_def)
    then have q: "quiet (upd_agent f (upd_runs g w2)) (snd (handleStreamEvent lim rd False ev0 w))"
      using quiet_trans [OF quiet_emitState [OF quiet_refl] tail] by (simp add: handle)
    have world: "started_world (rd_now rd) t w = upd_agent f (upd_runs g w)"
      using False by (simp add: started_world_def f_def g_def)
    have k: "kept (upd_agent f (upd_runs g w)) (upd_agent f (upd_runs g w2))"
      by (rule kept_upd_agent [OF kept_upd_runs [OF quiet_kept [OF q2]] on_f])
    have "shown_ok (f (tw_agent w2))"
    proof -
      have "turn_view (tw_agent w2) = turn_view (tw_agent w)" using q2 by (simp only: quiet_def)
      from shown_view [OF on_viewD [OF on_f this]] shown(2) show ?thesis by (simp add: world)
    qed
    moreover have "out_ok (upd_agent f (upd_runs g w2))"
      using quiet_out [OF q2 shown(1,3)] by (simp add: out_ok_def)
    ultimately have "out_ok (snd (handleStreamEvent lim rd False ev0 w))" using quiet_out [OF q] by simp
    then show ?thesis using that [of _ "snd (handleStreamEvent lim rd False ev0 w)"] kept_trans [OF k quiet_kept [OF q]] world
      by (metis prod.collapse)
  qed
qed

lemma attach_body: "ae_body (fst (attachManagedTurnIdentity uuid a ev h)) = ae_body ev"
  by (cases "ae_body ev") (simp_all add: attachManagedTurnIdentity_def Let_def split: option.splits)

lemma handle_alone:
  assumes "turns_alone (ae_body ev0)"
  shows "quiet w (snd (handleStreamEvent lim rd False ev0 w))"
proof -
  define x where "x = attachManagedTurnIdentity (rd_uuid rd) (tw_agent w) (limitAgentStreamEventContent lim ev0) False"
  obtain ev t where x: "x = (ev, t)" by fastforce
  have "ae_body ev = ae_body (limitAgentStreamEventContent lim ev0)"
    using attach_body [of "rd_uuid rd" "tw_agent w" "limitAgentStreamEventContent lim ev0" False] x by (simp add: x_def)
  then have "turns_alone (ae_body ev)"
    using assms by (cases "ae_body ev0") (simp_all add: limitAgentStreamEventContent_def turns_alone_def is_terminal_body_def)
  then have alone: "turns_alone (ae_body ev)" "\<not> isTurnTerminalEvent ev" by (simp_all add: turns_alone_def isTurnTerminalEvent_def)
  show ?thesis
    unfolding handleStreamEvent_def x_def [symmetric] x
    using alone by (simp add: Let_def case_prod_beta quiet_byType handle_tail_def)
qed

end
