(* ===== verification/AgentTurnSafety.thy ===== *)
theory AgentTurnSafety
  imports AgentTurnEnds
begin

text \<open>
  The invariant of an agent's turns and its preservation by every step: the turn of a prompt is the active turn and shows the
  agent running, at most one prompt has a run, the streams of running turns are open, and no state that is shown to
  subscribers is idle while a prompt replaces the running turn.
\<close>

section \<open>The invariant\<close>

definition agent_ok :: "ManagedAgent \<Rightarrow> bool" where
  "agent_ok a =
     ((\<forall>t. ma_activeForegroundTurnId a = Some t \<longrightarrow> ma_lifecycle a = LifeRunning \<and> ma_activeTurnId a = Some t)
      \<and> (\<forall>t. ma_activeTurnId a = Some t \<longrightarrow> t \<noteq> [] \<and> t \<notin> set (ma_finalizedTurns a))
      \<and> (ma_pendingReplacement a \<longrightarrow> ma_lifecycle a = LifeRunning \<or> ma_lifecycle a = LifeError)
      \<and> distinct (ma_waiters a))"

definition run_ok :: "ManagedAgent \<Rightarrow> AgentEvent TrackedAgentRun option \<Rightarrow> bool" where
  "run_ok a run =
     (case run of
        None \<Rightarrow> True
      | Some (PendingForegroundRun _ _ StartPending) \<Rightarrow> ma_activeForegroundTurnId a = None
      | Some (PendingForegroundRun _ _ (StartStarted t)) \<Rightarrow> ma_activeForegroundTurnId a = Some t
      | Some (PendingForegroundRun _ _ (StartFailed _)) \<Rightarrow> False
      | Some (AutonomousAgentRun _ None) \<Rightarrow> True
      | Some (AutonomousAgentRun _ (Some t)) \<Rightarrow>
          ma_activeForegroundTurnId a = None \<and> t \<noteq> [] \<and> t \<notin> set (ma_finalizedTurns a))"

definition tracked :: "turn_world \<Rightarrow> AgentEvent TrackedAgentRun option" where
  "tracked w = getRun (agent_id w) (tw_runs w)"

text \<open>A prompt whose run has not settled is the tracked one, and its stream is registered and open.\<close>

definition call_ok :: "turn_world \<Rightarrow> turn_call \<Rightarrow> bool" where
  "call_ok w c =
     (ca_token c < rs_created (tw_runs w) \<and> (\<forall>j. ca_state c = CallStreaming j \<longrightarrow> j < length (tw_streams w))
      \<and> (\<not> is_settled (ca_token c) (tw_runs w) \<longrightarrow>
           (case ca_state c of
              CallStreaming j \<Rightarrow>
                j \<in> set (ma_waiters (tw_agent w)) \<and> \<not> ts_settled (tw_streams w ! j)
                \<and> (\<exists>es. tracked w = Some (PendingForegroundRun (ca_token c) es (StartStarted (ts_turnId (tw_streams w ! j)))))
            | CallCreated \<Rightarrow> \<exists>es. tracked w = Some (PendingForegroundRun (ca_token c) es StartPending)
            | CallStarting \<Rightarrow> \<exists>es. tracked w = Some (PendingForegroundRun (ca_token c) es StartPending)
            | _ \<Rightarrow> False)))"

definition calls_ok :: "turn_world \<Rightarrow> bool" where
  "calls_ok w =
     (distinct (map ca_token (tw_calls w)) \<and> (\<forall>c\<in>set (tw_calls w). call_ok w c)
      \<and> (\<forall>i k j. i < length (tw_calls w) \<longrightarrow> k < length (tw_calls w) \<longrightarrow> ca_state (tw_calls w ! i) = CallStreaming j
            \<longrightarrow> ca_state (tw_calls w ! k) = CallStreaming j \<longrightarrow> i = k))"

definition waiters_ok :: "turn_world \<Rightarrow> bool" where
  "waiters_ok w = (\<forall>j\<in>set (ma_waiters (tw_agent w)).
     j < length (tw_streams w) \<and> stream_ok isTurnTerminalEvent (tw_streams w ! j))"

definition cancel_ok :: "turn_world \<Rightarrow> bool" where
  "cancel_ok w =
     (\<forall>run. tw_cancel w = Some run \<longrightarrow> run_token run < rs_created (tw_runs w)
        \<and> (\<not> is_settled (run_token run) (tw_runs w) \<longrightarrow>
             (\<exists>now. tracked w = Some now \<and> run_token now = run_token run \<and> is_foreground_run now = is_foreground_run run)))"

definition closed_ok :: "turn_world \<Rightarrow> bool" where
  "closed_ok w =
     (tw_closed w \<longrightarrow> tracked w = None \<and> ma_activeForegroundTurnId (tw_agent w) = None \<and> ma_activeTurnId (tw_agent w) = None
        \<and> \<not> ma_pendingReplacement (tw_agent w) \<and> ma_waiters (tw_agent w) = [])"

definition core_inv :: "turn_world \<Rightarrow> bool" where
  "core_inv w = (agent_ok (tw_agent w) \<and> run_ok (tw_agent w) (tracked w) \<and> runs_ok (tw_runs w) \<and> calls_ok w \<and> waiters_ok w
     \<and> cancel_ok w \<and> closed_ok w)"

definition turn_inv :: "turn_world \<Rightarrow> bool" where
  "turn_inv w = (core_inv w \<and> out_ok w)"

lemma agent_shown: "agent_ok a \<Longrightarrow> shown_ok a"
  by (auto simp: agent_ok_def shown_ok_def)

lemma agent_ok_view: "turn_view a = turn_view b \<Longrightarrow> agent_ok a = agent_ok b"
  by (simp add: agent_ok_def)

lemma run_ok_view: "turn_view a = turn_view b \<Longrightarrow> run_ok a r = run_ok b r"
  by (simp add: run_ok_def split: option.splits TrackedAgentRun.splits run_start.splits)

lemma kept_streams:
  assumes "kept w w'" "j < length (tw_streams w)"
  shows "ts_turnId (tw_streams w' ! j) = ts_turnId (tw_streams w ! j)" "ts_settled (tw_streams w' ! j) = ts_settled (tw_streams w ! j)"
    "stream_ok isTurnTerminalEvent (tw_streams w ! j) \<Longrightarrow> stream_ok isTurnTerminalEvent (tw_streams w' ! j)"
  using assms by (auto simp: kept_def list_all2_conv_all_nth stream_kept_def)

lemma kept_length: "kept w w' \<Longrightarrow> length (tw_streams w') = length (tw_streams w)"
  by (auto simp: kept_def dest: list_all2_lengthD)

lemma kept_tracked: "kept w w' \<Longrightarrow> tracked w' = tracked w"
  by (simp add: kept_iff tracked_def agent_id_def)

lemma call_ok_kept:
  assumes k: "kept w w'" and ok: "call_ok w c"
  shows "call_ok w' c"
proof -
  have same: "tw_runs w' = tw_runs w" "ma_waiters (tw_agent w') = ma_waiters (tw_agent w)" using k by (simp_all add: kept_iff)
  show ?thesis
    using ok kept_streams [OF k] unfolding call_ok_def same kept_length [OF k] kept_tracked [OF k]
    by (cases "ca_state c") auto
qed

lemma core_kept: "kept w w' \<Longrightarrow> core_inv w \<Longrightarrow> core_inv w'"
proof -
  assume k: "kept w w'" and inv: "core_inv w"
  have view: "turn_view (tw_agent w') = turn_view (tw_agent w)" using k unfolding kept_iff by blast
  have same: "tw_runs w' = tw_runs w" "tw_calls w' = tw_calls w" "tw_cancel w' = tw_cancel w" "tw_closed w' = tw_closed w"
      "ma_waiters (tw_agent w') = ma_waiters (tw_agent w)" using k by (simp_all add: kept_iff)
  have "calls_ok w'" using inv call_ok_kept [OF k] unfolding calls_ok_def core_inv_def same by blast
  moreover have "waiters_ok w'" using inv kept_streams [OF k] unfolding waiters_ok_def core_inv_def same kept_length [OF k] by blast
  moreover have "cancel_ok w'" "closed_ok w'"
    using inv view unfolding core_inv_def cancel_ok_def closed_ok_def same kept_tracked [OF k] by simp_all
  ultimately show ?thesis
    using inv agent_ok_view [OF view] run_ok_view [OF view]
    unfolding core_inv_def same kept_tracked [OF k] by simp
qed

lemma inv_quiet: "quiet w w' \<Longrightarrow> turn_inv w \<Longrightarrow> turn_inv w'"
  using core_kept [OF quiet_kept] quiet_out agent_shown unfolding turn_inv_def core_inv_def by blast

section \<open>The end of a turn\<close>

lemma ended_foreground:
  assumes "ma_activeTurnId a = Some y" "ma_activeForegroundTurnId a = Some y" "y \<noteq> []"
  shows "ended_view b (Some y) a = a\<lparr>ma_activeTurnId := None, ma_activeTurnStartedAt := None, ma_lastError := failure b,
        ma_activeForegroundTurnId := None, ma_finalizedTurns := rememberFinalizedTurn y (ma_finalizedTurns a),
        ma_lifecycle := (if truthy (failure b) \<noteq> None then LifeError else if ma_pendingReplacement a then LifeRunning else LifeIdle)\<rparr>"
proof -
  have y: "truthy (Some y) = Some y" using assms by (simp add: truthy_def)
  have h: "handler_view b (Some y) a = a\<lparr>ma_activeTurnId := None, ma_activeTurnStartedAt := None, ma_lastError := failure b\<rparr>"
    using assms y by (simp add: handler_view_def end_view_def close_view_def applyActiveTurnTerminal_def is_foreground_def)
  have "ended_view b (Some y) a = final_view (Some y) (handler_view b (Some y) a)"
    using assms by (simp add: ended_view_def is_foreground_def)
  then show ?thesis
    using assms y unfolding h
    by (simp add: final_view_def rest_view_def forget_view_def close_view_def applyActiveTurnTerminal_def)
qed

lemma agent_ended:
  assumes "agent_ok a" "t \<noteq> Some []" "t = None \<longrightarrow> current_turn a = None"
  shows "agent_ok (ended_view b t a)" "shown_ok (handler_view b t a)"
proof -
  have active: "\<And>y. ma_activeForegroundTurnId a = Some y \<Longrightarrow> ma_activeTurnId a = Some y" using assms(1) by (simp add: agent_ok_def)
  consider (none) "ma_activeTurnId a = None" "ma_activeForegroundTurnId a = None"
    | (stale) y where "ma_activeTurnId a = Some y" "t \<noteq> Some y"
    | (own) y where "ma_activeTurnId a = Some y" "t = Some y" "ma_activeForegroundTurnId a = None"
    | (fg) y where "ma_activeTurnId a = Some y" "t = Some y" "ma_activeForegroundTurnId a = Some y"
    using active by (metis option.exhaust option.inject)
  then have "agent_ok (ended_view b t a) \<and> shown_ok (handler_view b t a)"
  proof cases
    case none
    then have "\<not> is_foreground t a" by (auto simp: is_foreground_def)
    with none have h: "handler_view b t a = a\<lparr>ma_lifecycle := (if is_failure b then LifeError else if ma_pendingReplacement a then ma_lifecycle a else LifeIdle),
             ma_lastError := failure b\<rparr>" and e: "ended_view b t a = handler_view b t a"
      by (simp_all add: ended_view_def handler_view_def end_view_def close_view_def applyActiveTurnTerminal_def
          active_foreground_def truthy_def)
    show ?thesis using none assms(1) unfolding e unfolding h by (simp add: agent_ok_def shown_ok_def)
  next
    case stale
    then have "truthy (Some y) = Some y" "truthy t \<noteq> None" "\<not> is_foreground t a"
      using assms by (auto simp: truthy_def agent_ok_def is_foreground_def current_turn_def split: option.splits)
    with stale have "ended_view b t a = a" "handler_view b t a = a"
      by (simp_all add: ended_view_def handler_view_def end_view_def close_view_def applyActiveTurnTerminal_def)
    with assms agent_shown show ?thesis by simp
  next
    case own
    then have y: "truthy (Some y) = Some y" using assms by (simp add: truthy_def agent_ok_def)
    with own have h: "handler_view b t a = a\<lparr>ma_activeTurnId := None, ma_activeTurnStartedAt := None,
             ma_lifecycle := (if is_failure b then LifeError else if ma_pendingReplacement a then ma_lifecycle a else LifeIdle),
             ma_lastError := failure b\<rparr>" and e: "ended_view b t a = handler_view b t a"
      by (simp_all add: ended_view_def handler_view_def end_view_def close_view_def applyActiveTurnTerminal_def is_foreground_def
          active_foreground_def) (simp_all add: truthy_def)
    show ?thesis using own assms(1) unfolding e unfolding h by (simp add: agent_ok_def shown_ok_def)
  next
    case fg
    then have y: "truthy (Some y) = Some y" using assms by (simp add: truthy_def agent_ok_def)
    with fg have h: "handler_view b t a = a\<lparr>ma_activeTurnId := None, ma_activeTurnStartedAt := None, ma_lastError := failure b\<rparr>"
      by (simp add: handler_view_def end_view_def close_view_def applyActiveTurnTerminal_def is_foreground_def)
    have e: "ended_view b t a = a\<lparr>ma_activeTurnId := None, ma_activeTurnStartedAt := None, ma_lastError := failure b, ma_activeForegroundTurnId := None,
        ma_finalizedTurns := rememberFinalizedTurn y (ma_finalizedTurns a),
        ma_lifecycle := (if truthy (failure b) \<noteq> None then LifeError else if ma_pendingReplacement a then LifeRunning else LifeIdle)\<rparr>"
      unfolding fg(2) by (rule ended_foreground [OF fg(1,3)]) (use y in \<open>auto simp: truthy_def\<close>)
    show ?thesis using fg assms(1) unfolding e unfolding h by (simp add: agent_ok_def shown_ok_def)
  qed
  then show "agent_ok (ended_view b t a)" "shown_ok (handler_view b t a)" by simp_all
qed

lemma tracked_upd [simp]:
  "tracked (upd_agent f w) = getRun (ma_id (f (tw_agent w))) (tw_runs w)" "tracked (upd_runs g w) = getRun (agent_id w) (g (tw_runs w))"
  by (simp_all add: tracked_def agent_id_def)

lemma ended_id [simp]: "ma_id (ended_view b t a) = ma_id a"
  by (simp add: ended_view_def handler_id)

lemma ended_finalized:
  "ma_activeForegroundTurnId a = None \<Longrightarrow> ma_finalizedTurns (ended_view b t a) = ma_finalizedTurns a"
  "ma_activeForegroundTurnId a = None \<Longrightarrow> ma_activeForegroundTurnId (ended_view b t a) = None"
proof -
  have kept: "ma_finalizedTurns (end_view b f d a) = ma_finalizedTurns a" "ma_finalizedTurns (close_view t a) = ma_finalizedTurns a"
    "ma_activeForegroundTurnId (end_view b f d a) = ma_activeForegroundTurnId a"
    "ma_activeForegroundTurnId (close_view t a) = ma_activeForegroundTurnId a" for f d a
    by (simp_all add: end_view_def close_view_def applyActiveTurnTerminal_def)
  assume "ma_activeForegroundTurnId a = None"
  then have "\<not> is_foreground t a" by (auto simp: is_foreground_def)
  then show "ma_finalizedTurns (ended_view b t a) = ma_finalizedTurns a"
    by (simp add: ended_view_def handler_view_def kept)
next
  have kept: "ma_activeForegroundTurnId (end_view b f d a) = ma_activeForegroundTurnId a"
    "ma_activeForegroundTurnId (close_view t a) = ma_activeForegroundTurnId a" for f d a
    by (simp_all add: end_view_def close_view_def applyActiveTurnTerminal_def)
  assume none: "ma_activeForegroundTurnId a = None"
  then have "\<not> is_foreground t a" by (auto simp: is_foreground_def)
  then show "ma_activeForegroundTurnId (ended_view b t a) = None"
    using none by (simp add: ended_view_def handler_view_def kept)
qed

lemma ended_waiters [simp]: "ma_waiters (ended_view b t a) = ma_waiters a"
proof -
  have "ma_waiters (end_view b f d a) = ma_waiters a" "ma_waiters (close_view t a) = ma_waiters a"
    "ma_waiters (rest_view a) = ma_waiters a" "ma_waiters (forget_view t a) = ma_waiters a" for f d a
    by (simp_all add: end_view_def close_view_def applyActiveTurnTerminal_def rest_view_def forget_view_def)
  then show ?thesis by (simp add: ended_view_def handler_view_def final_view_def)
qed

lemma ended_other:
  assumes "agent_ok a" "ma_activeForegroundTurnId a = Some y" "t \<noteq> Some y" "t \<noteq> Some []" "t = None \<longrightarrow> current_turn a = None"
  shows "ended_view b t a = a"
proof -
  have "ma_activeTurnId a = Some y" "t \<noteq> None" using assms by (auto simp: agent_ok_def current_turn_def)
  then have "truthy (Some y) = Some y" "truthy t \<noteq> None" "\<not> is_foreground t a" "ma_activeTurnId a \<noteq> t"
    using assms by (auto simp: truthy_def agent_ok_def is_foreground_def)
  then show ?thesis using \<open>ma_activeTurnId a = Some y\<close>
    by (simp add: ended_view_def handler_view_def end_view_def close_view_def applyActiveTurnTerminal_def)
qed

lemma settle_tracked:
  "getRun i (settleTerminalRun i t rs) = (case getRun i rs of Some r \<Rightarrow> if ends_run t r then None else Some r | None \<Rightarrow> None)"
  by (simp add: settleTerminalRun_def runs split: option.splits)

lemma settle_settled:
  "set (rs_settled (settleTerminalRun i t rs)) =
     (case getRun i rs of Some r \<Rightarrow> if ends_run t r then insert (run_token r) (set (rs_settled rs)) else set (rs_settled rs)
      | None \<Rightarrow> set (rs_settled rs))" "rs_created (settleTerminalRun i t rs) = rs_created rs"
  by (simp_all add: settleTerminalRun_def runs split: option.splits)

lemma settle_runs_ok: "runs_ok rs \<Longrightarrow> runs_ok (settleTerminalRun i t rs)"
  using runs_ok_clear by (auto simp: settleTerminalRun_def split: option.splits)

lemma run_ended:
  assumes ok: "agent_ok a" "run_ok a run" and t: "t \<noteq> Some []" "t = None \<longrightarrow> current_turn a = None"
  shows "run_ok (ended_view b t a) (case run of Some r \<Rightarrow> if ends_run t r then None else Some r | None \<Rightarrow> None)"
proof (cases run)
  case None
  then show ?thesis by (simp add: run_ok_def)
next
  case (Some r)
  show ?thesis
  proof (cases r)
    case (AutonomousAgentRun k x)
    show ?thesis
    proof (cases x)
      case None
      with Some AutonomousAgentRun show ?thesis by (simp add: run_ok_def)
    next
      case (Some y)
      with \<open>run = Some r\<close> AutonomousAgentRun ok have "ma_activeForegroundTurnId a = None" "y \<noteq> []" "y \<notin> set (ma_finalizedTurns a)"
        by (simp_all add: run_ok_def)
      with Some \<open>run = Some r\<close> AutonomousAgentRun show ?thesis by (simp add: run_ok_def ended_finalized)
    qed
  next
    case (PendingForegroundRun k es start)
    show ?thesis
    proof (cases start)
      case StartPending
      with Some PendingForegroundRun ok show ?thesis by (simp add: run_ok_def ended_finalized)
    next
      case (StartStarted y)
      with Some PendingForegroundRun ok have fg: "ma_activeForegroundTurnId a = Some y" by (simp add: run_ok_def)
      show ?thesis
      proof (cases "t = Some y")
        case True
        with Some PendingForegroundRun StartStarted show ?thesis by (simp add: run_ok_def)
      next
        case False
        from ended_other [OF ok(1) fg False t, of b] ok(2) Some PendingForegroundRun StartStarted False show ?thesis by simp
      qed
    next
      case (StartFailed e)
      with Some PendingForegroundRun ok show ?thesis by (simp add: run_ok_def)
    qed
  qed
qed

lemma core_ended:
  assumes inv: "core_inv w" and open_world: "\<not> tw_closed w" and t: "t \<noteq> Some []" "t = None \<longrightarrow> current_turn (tw_agent w) = None"
  shows "core_inv (ended_world b t w)"
proof -
  let ?w = "ended_world b t w" and ?i = "agent_id w"
  have fields: "tw_agent ?w = ended_view b t (tw_agent w)" "tw_runs ?w = settleTerminalRun ?i t (tw_runs w)"
      "tw_calls ?w = tw_calls w" "tw_streams ?w = tw_streams w" "tw_cancel ?w = tw_cancel w" "tw_closed ?w = False"
    using open_world by (simp_all add: ended_world_def)
  have tracked: "tracked ?w = (case tracked w of Some r \<Rightarrow> if ends_run t r then None else Some r | None \<Rightarrow> None)"
    using settle_tracked [of ?i t "tw_runs w"] by (simp add: tracked_def fields agent_id_def)
  have settled: "is_settled k (tw_runs w) \<Longrightarrow> is_settled k (tw_runs ?w)"
      "tracked w = Some r \<Longrightarrow> ends_run t r \<Longrightarrow> is_settled (run_token r) (tw_runs ?w)" for k r
    by (auto simp: is_settled_def fields settle_settled tracked_def split: option.splits)
  have still: "\<not> is_settled (run_token r) (tw_runs ?w) \<Longrightarrow> tracked w = Some r \<Longrightarrow> tracked ?w = Some r" for r
    using settled(2) [of r] by (auto simp: tracked)
  have "agent_ok (tw_agent ?w)" using agent_ended [OF _ t] inv by (simp add: core_inv_def fields)
  moreover have "run_ok (tw_agent ?w) (tracked ?w)"
    unfolding tracked unfolding fields using run_ended [OF _ _ t] inv by (simp add: core_inv_def)
  moreover have "runs_ok (tw_runs ?w)" using inv by (simp add: core_inv_def fields settle_runs_ok)
  moreover have "call_ok ?w c" if "call_ok w c" for c
  proof -
    have live: "\<not> is_settled (ca_token c) (tw_runs ?w) \<Longrightarrow> \<not> is_settled (ca_token c) (tw_runs w)" using settled(1) by blast
    have same: "tracked w = Some (PendingForegroundRun (ca_token c) es st) \<Longrightarrow> \<not> is_settled (ca_token c) (tw_runs ?w) \<Longrightarrow>
        tracked ?w = Some (PendingForegroundRun (ca_token c) es st)" for es st
      using still [of "PendingForegroundRun (ca_token c) es st"] by simp
    show ?thesis
      using that live same unfolding call_ok_def
      by (cases "ca_state c") (auto simp: fields settle_settled)
  qed
  then have "calls_ok ?w" using inv unfolding core_inv_def calls_ok_def fields by blast
  moreover have "waiters_ok ?w" using inv by (simp add: core_inv_def waiters_ok_def fields)
  moreover have "cancel_ok ?w"
    unfolding cancel_ok_def
  proof (intro allI impI conjI)
    fix run assume "tw_cancel ?w = Some run"
    then have run: "run_token run < rs_created (tw_runs w)" "\<not> is_settled (run_token run) (tw_runs w) \<longrightarrow>
        (\<exists>now. tracked w = Some now \<and> run_token now = run_token run \<and> is_foreground_run now = is_foreground_run run)"
      using inv by (auto simp: core_inv_def cancel_ok_def fields)
    then show "run_token run < rs_created (tw_runs ?w)" by (simp add: fields settle_settled)
    assume "\<not> is_settled (run_token run) (tw_runs ?w)"
    with run(2) settled(1) still
    show "\<exists>now. tracked ?w = Some now \<and> run_token now = run_token run \<and> is_foreground_run now = is_foreground_run run"
      by metis
  qed
  moreover have "closed_ok ?w" by (simp add: closed_ok_def fields)
  ultimately show ?thesis by (simp add: core_inv_def)
qed

end
