(* ===== verification/AgentTurnSteps.thy ===== *)
theory AgentTurnSteps
  imports AgentTurnSafety
begin

text \<open>
  Every step of an agent's turns keeps their invariant, in a session whose turn ids are not empty and are not used again after
  the turn has ended.
\<close>

section \<open>Events of the session\<close>

lemma notify_length [simp]: "length (notifyWaiters idxs ev b ss) = length ss"
  by (induction idxs arbitrary: ss) (simp_all add: notifyWaiters_def notify_waiter_def)

lemma notify_last:
  "distinct idxs \<Longrightarrow> j < length ss \<Longrightarrow>
    notifyWaiters idxs ev True ss ! j = (if j \<in> set idxs then settleWaiter (waiter_callback ev (ss ! j)) else ss ! j)"
proof (induction idxs arbitrary: ss)
  case (Cons i idxs)
  have unfolded: "notifyWaiters (i # idxs) ev True ss = notifyWaiters idxs ev True (notify_waiter ev True i ss)"
    by (simp add: notifyWaiters_def)
  have prems: "distinct idxs" "j < length (notify_waiter ev True i ss)" using Cons.prems by (simp_all add: notify_waiter_def)
  show ?case
    unfolding unfolded Cons.IH [OF prems] using Cons.prems by (cases "j = i") (auto simp: notify_waiter_def)
qed (simp add: notifyWaiters_def)

lemma matching_distinct: "distinct ws \<Longrightarrow> distinct (getMatchingWaiters ss ws t)"
  by (simp add: getMatchingWaiters_def split: option.splits)

lemma core_notified:
  assumes inv: "core_inv w" and terminal: "isTurnTerminalEvent ev" and "distinct idxs"
    and idxs: "\<forall>i\<in>set idxs. i < length (tw_streams w) \<and> \<not> ts_settled (tw_streams w ! i) \<and> ts_turnId (tw_streams w ! i) = x"
    and over: "\<And>k es. tracked w \<noteq> Some (PendingForegroundRun k es (StartStarted x))"
  shows "core_inv (w\<lparr>tw_streams := notifyWaiters idxs ev True (tw_streams w)\<rparr>)"
proof -
  let ?ss = "notifyWaiters idxs ev True (tw_streams w)" and ?w = "w\<lparr>tw_streams := notifyWaiters idxs ev True (tw_streams w)\<rparr>"
  have nth: "j < length (tw_streams w) \<Longrightarrow>
      ?ss ! j = (if j \<in> set idxs then settleWaiter (waiter_callback ev (tw_streams w ! j)) else tw_streams w ! j)" for j
    by (rule notify_last [OF assms(3)])
  have len: "length ?ss = length (tw_streams w)" by simp
  have same: "tracked ?w = tracked w" by (simp add: tracked_def agent_id_def)
  have turn: "j < length (tw_streams w) \<Longrightarrow> ts_turnId (?ss ! j) = ts_turnId (tw_streams w ! j)" for j
    by (simp add: nth settleWaiter_def waiter_callback_def wake_def)
  have "call_ok ?w c" if ok: "call_ok w c" for c
  proof (cases "ca_state c")
    case (CallStreaming j)
    with ok have j: "j < length (tw_streams w)" by (simp add: call_ok_def)
    have "j \<notin> set idxs" if "\<not> is_settled (ca_token c) (tw_runs w)"
    proof
      assume "j \<in> set idxs"
      then have "ts_turnId (tw_streams w ! j) = x" using idxs by blast
      with ok that CallStreaming over show False by (auto simp: call_ok_def)
    qed
    with ok CallStreaming j show ?thesis by (simp add: call_ok_def same len turn nth)
  qed (use ok in \<open>simp_all add: call_ok_def same len\<close>)
  then have "calls_ok ?w" using inv by (simp add: core_inv_def calls_ok_def)
  moreover have "waiters_ok ?w"
    using inv idxs terminal by (auto simp: core_inv_def waiters_ok_def nth intro!: hand_last_ok)
  moreover have "cancel_ok ?w" "closed_ok ?w" using inv by (simp_all add: core_inv_def cancel_ok_def closed_ok_def same)
  ultimately show ?thesis using inv by (simp add: core_inv_def same)
qed

text \<open>Ids of turns are not empty, and the session does not start again a turn that has ended.\<close>

definition event_fresh :: "readings \<Rightarrow> turn_world \<Rightarrow> AgentEvent \<Rightarrow> bool" where
  "event_fresh rd w ev =
     (ae_turnId ev \<noteq> Some []
      \<and> (ae_body ev = TurnStarted \<longrightarrow>
           started_turn (rd_uuid rd) (tw_agent w) ev \<notin> set (ma_finalizedTurns (tw_agent w))))"

lemma core_started:
  assumes inv: "core_inv w" and "\<not> tw_closed w" "t \<noteq> []" "t \<notin> set (ma_finalizedTurns (tw_agent w))"
  shows "core_inv (started_world now t w)"
proof (cases "active_foreground (tw_agent w) \<noteq> None \<or> is_foreground (Some t) (tw_agent w)")
  case True
  then show ?thesis using inv by (auto simp: started_world_def)
next
  case False
  have fg: "ma_activeForegroundTurnId (tw_agent w) = None"
  proof (rule ccontr)
    assume "\<not> ?thesis"
    then obtain y where "ma_activeForegroundTurnId (tw_agent w) = Some y" by blast
    with False inv show False by (auto simp: active_foreground_def truthy_def core_inv_def agent_ok_def split: if_splits)
  qed
  define rs where "rs = snd (trackAutonomousRun (agent_id w) (Some t) (tw_runs w))"
  define a where "a = (openActiveTurn t now (tw_agent w))\<lparr>ma_lifecycle := LifeRunning\<rparr>"
  have world: "started_world now t w = w\<lparr>tw_agent := a, tw_runs := rs\<rparr>"
    using False assms(3) by (simp add: started_world_def a_def rs_def truthy_def upd_agent_def upd_runs_def)
  have id: "ma_id a = agent_id w" by (simp add: a_def openActiveTurn_def agent_id_def)
  have agent: "agent_ok a" using inv fg assms(3,4) by (simp add: a_def openActiveTurn_def core_inv_def agent_ok_def)
  have fields: "ma_activeForegroundTurnId a = None" "ma_waiters a = ma_waiters (tw_agent w)"
      "ma_finalizedTurns a = ma_finalizedTurns (tw_agent w)"
    using fg by (simp_all add: a_def openActiveTurn_def)
  show ?thesis
  proof (cases "tracked w")
    case None
    then have rs: "rs = put_run (agent_id w) (AutonomousAgentRun (rs_created (tw_runs w)) (Some t))
        ((tw_runs w)\<lparr>rs_created := rs_created (tw_runs w) + 1\<rparr>)"
      by (simp add: rs_def trackAutonomousRun_def tracked_def Let_def)
    have now: "tracked (w\<lparr>tw_agent := a, tw_runs := rs\<rparr>) = Some (AutonomousAgentRun (rs_created (tw_runs w)) (Some t))"
      by (simp add: tracked_def agent_id_def id rs runs)
    have settled: "is_settled k rs = is_settled k (tw_runs w)" "rs_created rs = Suc (rs_created (tw_runs w))" for k
      by (simp_all add: rs is_settled_def runs)
    have "call_ok (w\<lparr>tw_agent := a, tw_runs := rs\<rparr>) c" if "call_ok w c" for c
    proof -
      have "is_settled (ca_token c) (tw_runs w)"
        using that None unfolding call_ok_def by (cases "ca_state c") auto
      with that show ?thesis by (simp add: call_ok_def settled)
    qed
    moreover have "runs_ok rs" using runs_ok_put_new [of "tw_runs w"] inv by (simp add: rs core_inv_def)
    moreover have "run_token run < rs_created (tw_runs w) \<and> is_settled (run_token run) (tw_runs w)" if "tw_cancel w = Some run" for run
      using inv None that by (auto simp: core_inv_def cancel_ok_def)
    ultimately show ?thesis
      using inv agent assms(2,3,4) fields unfolding world
      by (simp add: core_inv_def now calls_ok_def waiters_ok_def cancel_ok_def closed_ok_def run_ok_def settled less_Suc_eq)
  next
    case (Some r)
    then have rs: "rs = tw_runs w" by (simp add: rs_def trackAutonomousRun_def tracked_def)
    have world': "w\<lparr>tw_agent := a, tw_runs := rs\<rparr> = w\<lparr>tw_agent := a\<rparr>" by (simp add: rs)
    have now: "tracked (w\<lparr>tw_agent := a\<rparr>) = tracked w" by (simp add: tracked_def agent_id_def id rs)
    have "call_ok (w\<lparr>tw_agent := a\<rparr>) c" if "call_ok w c" for c
      using that unfolding call_ok_def now by (cases "ca_state c") (simp_all add: fields rs)
    moreover have "run_ok a (tracked w)"
      using inv fg fields unfolding core_inv_def run_ok_def by (simp split: option.splits TrackedAgentRun.splits run_start.splits)
    ultimately show ?thesis
      using inv agent assms(2) fields unfolding world world'
      by (simp add: core_inv_def now calls_ok_def waiters_ok_def cancel_ok_def closed_ok_def rs)
  qed
qed

lemma started_shown: "core_inv w \<Longrightarrow> core_inv (started_world now t w) \<Longrightarrow> shown_ok (tw_agent (started_world now t w))"
  by (simp add: core_inv_def agent_shown)

lemma started_turn_ok:
  assumes "core_inv w" "event_fresh rd w ev" "ae_body ev = TurnStarted"
  shows "started_turn (rd_uuid rd) (tw_agent w) ev \<noteq> []"
proof (cases "ae_turnId ev")
  case (Some t)
  with assms show ?thesis by (simp add: event_fresh_def started_turn_def)
next
  case None
  show ?thesis
  proof (cases "current_turn (tw_agent w)")
    case (Some t)
    with assms(1) have "t \<noteq> []" by (auto simp: core_inv_def agent_ok_def current_turn_def split: option.splits)
    with None Some show ?thesis by (simp add: started_turn_def)
  qed (use None in \<open>simp add: started_turn_def\<close>)
qed

lemma terminal_turn_ok:
  assumes "core_inv w" "event_fresh rd w ev"
  shows "terminal_turn (tw_agent w) ev \<noteq> Some []"
    and "terminal_turn (tw_agent w) ev = None \<longrightarrow> current_turn (tw_agent w) = None"
  using assms
  by (auto simp: terminal_turn_def event_fresh_def core_inv_def agent_ok_def current_turn_def split: option.splits)

lemma terminal_finished:
  assumes "isTurnTerminalEvent ev" "terminal_turn (tw_agent w) ev = Some x" "x \<noteq> []" "x \<in> set (ma_finalizedTurns (tw_agent w))"
  shows "handleStreamEvent lim rd False ev w = (False, w)"
proof -
  obtain ev' where attach: "attachManagedTurnIdentity (rd_uuid rd) (tw_agent w) (limitAgentStreamEventContent lim ev) False = (ev', Some x)"
      and "ae_body ev' = ae_body ev"
    using attach_terminal [OF assms(1)] assms(2) by metis
  then have "isTurnTerminalEvent ev'" using assms(1) by (simp add: isTurnTerminalEvent_def)
  with assms(3,4) show ?thesis unfolding handleStreamEvent_def attach by (simp add: truthy_def hasFinalizedTurn_def)
qed

lemma dispatch_simp:
  assumes "\<And>u. ae_body ev \<noteq> ProviderSubagent u"
  shows "dispatchSessionEvent lim rd ev w =
    (case handleStreamEvent lim rd False ev w of
       (notify, w1) \<Rightarrow> if notify
         then w1\<lparr>tw_streams := notifyWaiters (agent_waiters (ae_turnId ev) w) ev (isTurnTerminalEvent ev) (tw_streams w1)\<rparr> else w1)"
proof -
  have "\<forall>u. ae_body ev \<noteq> ProviderSubagent u" using assms by blast
  then show ?thesis by (cases "ae_body ev") (simp_all add: dispatchSessionEvent_def)
qed

lemma agent_waiters_open:
  "i \<in> set (agent_waiters t w) \<Longrightarrow> i \<in> set (ma_waiters (tw_agent w)) \<and> i < length (tw_streams w) \<and> \<not> ts_settled (tw_streams w ! i)
     \<and> t = Some (ts_turnId (tw_streams w ! i))"
  unfolding agent_waiters_def by (rule matching_open)

lemma agent_waiters_None [simp]: "agent_waiters None w = []" "notifyWaiters [] ev b ss = ss"
  by (simp_all add: agent_waiters_def getMatchingWaiters_def notifyWaiters_def)

lemma notify_core:
  assumes "core_inv w'" "list_all2 (\<lambda>s s'. ts_settled s' = ts_settled s) (tw_streams w) (tw_streams w')" "\<not> isTurnTerminalEvent ev"
  shows "quiet w' (w'\<lparr>tw_streams := notifyWaiters (agent_waiters t w) ev False (tw_streams w')\<rparr>)"
  using agent_waiters_open [of _ t w] assms(2,3)
  by (intro quiet_notify) (auto simp: list_all2_conv_all_nth)

lemma kept_settled: "kept w w' \<Longrightarrow> list_all2 (\<lambda>s s'. ts_settled s' = ts_settled s) (tw_streams w) (tw_streams w')"
  by (auto simp: kept_def list_all2_conv_all_nth stream_kept_def)

text \<open>A terminal event whose turn has not ended yet: the world it leaves, with the streams of the turn told and settled.\<close>

lemma dispatch_terminal:
  assumes inv: "turn_inv w" and terminal: "isTurnTerminalEvent ev" and fresh: "event_fresh rd w ev"
    and unfinished: "\<And>x. terminal_turn (tw_agent w) ev = Some x \<Longrightarrow> x \<notin> set (ma_finalizedTurns (tw_agent w))"
  obtains w' where "kept (ended_world (ae_body ev) (terminal_turn (tw_agent w) ev) w) w'" "out_ok w'"
    "dispatchSessionEvent lim rd ev w =
       w'\<lparr>tw_streams := notifyWaiters (agent_waiters (ae_turnId ev) w) ev True (tw_streams w')\<rparr>"
proof -
  let ?t = "terminal_turn (tw_agent w) ev"
  have core: "core_inv w" "agent_ok (tw_agent w)" using inv by (simp_all add: turn_inv_def core_inv_def)
  note t = terminal_turn_ok [OF core(1) fresh]
  have "x \<notin> set (ma_finalizedTurns (tw_agent w))" if "truthy ?t = Some x" for x
    using that unfinished by (auto simp: truthy_def split: option.splits if_splits)
  moreover have "shown_ok (ended_view (ae_body ev) ?t (tw_agent w))" "shown_ok (handler_view (ae_body ev) ?t (tw_agent w))"
    using agent_ended [OF core(2) t] agent_shown by simp_all
  ultimately obtain w' where w': "handleStreamEvent lim rd False ev w = (True, w')" "kept (ended_world (ae_body ev) ?t w) w'" "out_ok w'"
    using handle_terminal [OF terminal refl, of w lim rd] agent_shown [OF core(2)] inv by (metis turn_inv_def)
  have "\<And>u. ae_body ev \<noteq> ProviderSubagent u" using terminal by (auto simp: isTurnTerminalEvent_def is_terminal_body_def)
  from dispatch_simp [OF this, of lim rd w] w'(1) terminal that [OF w'(2,3)] show ?thesis by simp
qed

lemma dispatch_inv:
  assumes inv: "turn_inv w" and open_world: "\<not> tw_closed w" and fresh: "event_fresh rd w ev"
  shows "turn_inv (dispatchSessionEvent lim rd ev w)"
proof -
  have core: "core_inv w" "out_ok w" "shown_ok (tw_agent w)" using inv agent_shown by (simp_all add: turn_inv_def core_inv_def)
  consider (sub) u where "ae_body ev = ProviderSubagent u"
    | (alone) "turns_alone (ae_body ev)" "\<And>u. ae_body ev \<noteq> ProviderSubagent u"
    | (start) "ae_body ev = TurnStarted" | (terminal) "isTurnTerminalEvent ev"
    unfolding turns_alone_def isTurnTerminalEvent_def by blast
  then show ?thesis
  proof cases
    case sub
    then have "quiet w (dispatchSessionEvent lim rd ev w)" by (simp add: dispatchSessionEvent_def)
    from inv_quiet [OF this inv] show ?thesis .
  next
    case alone
    define h where "h = handleStreamEvent lim rd False ev w"
    have q: "quiet w (snd h)" unfolding h_def by (rule handle_alone [OF alone(1)])
    have nt: "\<not> isTurnTerminalEvent ev" using alone(1) by (simp add: turns_alone_def isTurnTerminalEvent_def)
    have "core_inv (snd h)" using inv_quiet [OF q inv] by (simp add: turn_inv_def)
    from notify_core [OF this kept_settled [OF quiet_kept [OF q]] nt, of "ae_turnId ev"]
    have "quiet w (dispatchSessionEvent lim rd ev w)"
      using q nt quiet_trans [OF q] unfolding dispatch_simp [OF alone(2)] h_def [symmetric] by (simp add: case_prod_beta)
    from inv_quiet [OF this inv] show ?thesis .
  next
    case start
    define t where "t = started_turn (rd_uuid rd) (tw_agent w) ev"
    have t: "t \<noteq> []" "t \<notin> set (ma_finalizedTurns (tw_agent w))"
      using started_turn_ok [OF core(1) fresh start] fresh start by (simp_all add: t_def event_fresh_def)
    have started: "core_inv (started_world (rd_now rd) t w)" by (rule core_started [OF core(1) open_world t])
    obtain b w' where h: "handleStreamEvent lim rd False ev w = (b, w')" "kept (started_world (rd_now rd) t w) w'" "out_ok w'"
      using handle_started [OF start t_def core(3) started_shown [OF core(1) started] core(2)] by metis
    have nt: "\<not> isTurnTerminalEvent ev" "\<And>u. ae_body ev \<noteq> ProviderSubagent u"
      using start by (simp_all add: isTurnTerminalEvent_def is_terminal_body_def)
    have inv': "turn_inv w'" using core_kept [OF h(2) started] h(3) by (simp add: turn_inv_def)
    have "tw_streams (started_world (rd_now rd) t w) = tw_streams w" by (simp add: started_world_def)
    with notify_core [OF _ _ nt(1), of w' w "ae_turnId ev"] kept_settled [OF h(2)] inv'
    have "quiet w' (w'\<lparr>tw_streams := notifyWaiters (agent_waiters (ae_turnId ev) w) ev False (tw_streams w')\<rparr>)"
      by (simp add: turn_inv_def)
    from inv_quiet [OF this inv'] inv' show ?thesis unfolding dispatch_simp [OF nt(2)] h(1) using nt(1) by simp
  next
    case terminal
    let ?t = "terminal_turn (tw_agent w) ev"
    note t = terminal_turn_ok [OF core(1) fresh]
    have sub: "\<And>u. ae_body ev \<noteq> ProviderSubagent u" using terminal by (auto simp: isTurnTerminalEvent_def is_terminal_body_def)
    show ?thesis
    proof (cases "\<exists>x. ?t = Some x \<and> x \<in> set (ma_finalizedTurns (tw_agent w))")
      case True
      then have "handleStreamEvent lim rd False ev w = (False, w)" using terminal_finished [OF terminal] t(1) by blast
      with inv show ?thesis unfolding dispatch_simp [OF sub] by simp
    next
      case False
      obtain w' where w': "kept (ended_world (ae_body ev) ?t w) w'" "out_ok w'" "dispatchSessionEvent lim rd ev w =
           w'\<lparr>tw_streams := notifyWaiters (agent_waiters (ae_turnId ev) w) ev True (tw_streams w')\<rparr>"
        using dispatch_terminal [OF inv terminal fresh] False by metis
      have ended: "core_inv (ended_world (ae_body ev) ?t w)" by (rule core_ended [OF core(1) open_world t])
      have core': "core_inv w'" by (rule core_kept [OF w'(1) ended])
      have same: "tw_streams (ended_world (ae_body ev) ?t w) = tw_streams w" by (simp add: ended_world_def)
      let ?idxs = "agent_waiters (ae_turnId ev) w"
      have idxs: "distinct ?idxs" using core(1) by (simp add: agent_waiters_def matching_distinct core_inv_def agent_ok_def)
      have told: "\<forall>i\<in>set ?idxs. i < length (tw_streams w') \<and> \<not> ts_settled (tw_streams w' ! i)
          \<and> Some (ts_turnId (tw_streams w' ! i)) = ae_turnId ev"
        using agent_waiters_open kept_streams [OF w'(1), unfolded same] kept_length [OF w'(1), unfolded same] by metis
      have over: "tracked w' \<noteq> Some (PendingForegroundRun k es (StartStarted x))" if "ae_turnId ev = Some x" for k es x
      proof -
        have "?t = Some x" using that by (simp add: terminal_turn_def)
        moreover have "tracked (ended_world (ae_body ev) ?t w) = (case tracked w of Some r \<Rightarrow> if ends_run ?t r then None else Some r | None \<Rightarrow> None)"
          using settle_tracked by (simp add: ended_world_def tracked_def agent_id_def)
        ultimately show ?thesis using kept_tracked [OF w'(1)] by (auto split: option.splits if_splits)
      qed
      have "core_inv (dispatchSessionEvent lim rd ev w)"
      proof (cases "ae_turnId ev")
        case None
        with core' w'(3) show ?thesis by simp
      next
        case (Some x)
        with told over show ?thesis unfolding w'(3)
          by (intro core_notified [OF core' terminal idxs, where x = x]) auto
      qed
      moreover have "out_ok (dispatchSessionEvent lim rd ev w)" using w'(2) by (simp add: w'(3) out_ok_def)
      ultimately show ?thesis by (simp add: turn_inv_def)
    qed
  qed
qed

end
