(* ===== verification/AgentTurnInvariant.thy ===== *)
theory AgentTurnInvariant
  imports AgentTurnSteps
begin

text \<open>
  The prompts, the cancellations and the other operations on an agent keep the invariant of its turns; so every history
  does, and what follows from it: the theorems on turns.
\<close>

section \<open>Queues\<close>

lemma enqueue_agent [simp]:
  "tw_agent (enqueueSessionEvent ev w) = tw_agent w" "tw_calls (enqueueSessionEvent ev w) = tw_calls w"
  "tw_cancel (enqueueSessionEvent ev w) = tw_cancel w" "tw_closed (enqueueSessionEvent ev w) = tw_closed w"
  "tw_streams (enqueueSessionEvent ev w) = tw_streams w" "tw_out (enqueueSessionEvent ev w) = tw_out w"
  "agent_id (enqueueSessionEvent ev w) = agent_id w"
  by (simp_all add: enqueueSessionEvent_def agent_id_def split: option.splits TrackedAgentRun.splits run_start.splits)

lemma enqueue_started:
  assumes "\<And>k es. tracked w \<noteq> Some (PendingForegroundRun k es StartPending)"
  shows "tw_runs (enqueueSessionEvent ev w) = tw_runs w"
  using assms by (auto simp: enqueueSessionEvent_def tracked_def split: option.splits TrackedAgentRun.splits run_start.splits)

text \<open>Changing only the events a run holds back keeps the invariant.\<close>

definition restage :: "AgentEvent list \<Rightarrow> AgentEvent TrackedAgentRun \<Rightarrow> AgentEvent TrackedAgentRun" where
  "restage es r = (case r of PendingForegroundRun k _ s \<Rightarrow> PendingForegroundRun k es s | AutonomousAgentRun k t \<Rightarrow> AutonomousAgentRun k t)"

lemma restage_simps [simp]: "run_token (restage es r) = run_token r" "is_foreground_run (restage es r) = is_foreground_run r"
  by (cases r; simp add: restage_def is_foreground_run_def)+

lemma core_restaged:
  assumes inv: "core_inv w" and r: "tracked w = Some r" and runs: "tw_runs w' = put_run (agent_id w) (restage es r) (tw_runs w)"
    and same: "tw_agent w' = tw_agent w" "tw_calls w' = tw_calls w" "tw_cancel w' = tw_cancel w" "tw_closed w' = tw_closed w"
      "tw_streams w' = tw_streams w"
  shows "core_inv w'"
proof -
  have tracked: "tracked w' = Some (restage es r)" by (simp add: tracked_def agent_id_def same runs getRun_put)
  have settled: "is_settled k (tw_runs w') = is_settled k (tw_runs w)" "rs_created (tw_runs w') = rs_created (tw_runs w)" for k
    by (simp_all add: is_settled_def runs put_simps)
  have "runs_ok (tw_runs w')"
    unfolding runs using inv r by (intro runs_ok_put_same [of _ _ r]) (simp_all add: core_inv_def tracked_def)
  moreover have "run_ok (tw_agent w') (tracked w')"
    using inv r unfolding tracked unfolding same by (cases r) (simp_all add: core_inv_def run_ok_def restage_def)
  moreover have "call_ok w' c" if "call_ok w c" for c
    using that r unfolding call_ok_def settled tracked unfolding same
    by (cases "ca_state c") (auto simp: restage_def)
  moreover have "cancel_ok w'"
    using inv r unfolding core_inv_def cancel_ok_def settled tracked unfolding same by auto
  ultimately show ?thesis
    using inv r unfolding core_inv_def calls_ok_def waiters_ok_def closed_ok_def by (simp add: same tracked)
qed

lemma enqueue_inv: "turn_inv w \<Longrightarrow> turn_inv (enqueueSessionEvent ev w)"
proof -
  assume inv: "turn_inv w"
  have out: "out_ok (enqueueSessionEvent ev w)" using inv by (simp add: turn_inv_def out_ok_def)
  have "core_inv (enqueueSessionEvent ev w)"
  proof (cases "\<exists>k es. tracked w = Some (PendingForegroundRun k es StartPending) \<and> tw_barrier w = None")
    case True
    then obtain k es where r: "tracked w = Some (PendingForegroundRun k es StartPending)" "tw_barrier w = None" by blast
    have "tw_runs (enqueueSessionEvent ev w)
        = put_run (agent_id w) (restage (es @ [ev]) (PendingForegroundRun k es StartPending)) (tw_runs w)"
      using r by (simp add: enqueueSessionEvent_def tracked_def stage_event_def restage_def)
    with core_restaged [OF _ r(1)] inv show ?thesis by (simp add: turn_inv_def)
  next
    case False
    then have "tw_runs (enqueueSessionEvent ev w) = tw_runs w"
      by (cases "tw_barrier w") (auto simp: enqueueSessionEvent_def tracked_def split: option.splits TrackedAgentRun.splits run_start.splits)
    then have "kept w (enqueueSessionEvent ev w)" by (simp add: kept_iff)
    from core_kept [OF this] inv show ?thesis by (simp add: turn_inv_def)
  qed
  with out show ?thesis by (simp add: turn_inv_def)
qed

lemma enqueue_all_inv: "turn_inv w \<Longrightarrow> turn_inv (fold enqueueSessionEvent evs w)"
  by (induction evs arbitrary: w) (simp_all add: enqueue_inv)

lemma enqueue_all_same [simp]:
  "tw_agent (fold enqueueSessionEvent evs w) = tw_agent w" "tw_calls (fold enqueueSessionEvent evs w) = tw_calls w"
  "tw_cancel (fold enqueueSessionEvent evs w) = tw_cancel w" "tw_closed (fold enqueueSessionEvent evs w) = tw_closed w"
  "tw_streams (fold enqueueSessionEvent evs w) = tw_streams w" "tw_out (fold enqueueSessionEvent evs w) = tw_out w"
  by (induction evs arbitrary: w) simp_all

lemma enqueue_all_started:
  assumes "\<And>k es. tracked w \<noteq> Some (PendingForegroundRun k es StartPending)"
  shows "tw_runs (fold enqueueSessionEvent evs w) = tw_runs w"
  using assms
proof (induction evs arbitrary: w)
  case (Cons ev evs)
  have same: "tw_runs (enqueueSessionEvent ev w) = tw_runs w" by (rule enqueue_started) (rule Cons.prems)
  then have "tracked (enqueueSessionEvent ev w) = tracked w" by (simp add: tracked_def agent_id_def)
  with Cons.IH [of "enqueueSessionEvent ev w"] Cons.prems same show ?case by simp
qed simp

section \<open>Prompts\<close>

lemma set_call_simps [simp]:
  "tw_agent (set_call i st w) = tw_agent w" "tw_runs (set_call i st w) = tw_runs w" "tw_cancel (set_call i st w) = tw_cancel w"
  "tw_closed (set_call i st w) = tw_closed w" "tw_streams (set_call i st w) = tw_streams w" "tw_out (set_call i st w) = tw_out w"
  "tw_calls (set_call i st w) = (tw_calls w)[i := (tw_calls w ! i)\<lparr>ca_state := st\<rparr>]"
  by (simp_all add: set_call_def)

lemma stream_prompt_inv:
  assumes inv: "turn_inv w" and accepted: "streamAgent p c w = Inr w'"
  shows "turn_inv w'"
proof -
  let ?n = "rs_created (tw_runs w)" and ?i = "agent_id w"
  let ?rs = "put_run ?i (PendingForegroundRun ?n [] StartPending) ((tw_runs w)\<lparr>rs_created := ?n + 1\<rparr>)"
  have core: "core_inv w" using inv by (simp add: turn_inv_def)
  have free: "\<not> tw_closed w" "active_foreground (tw_agent w) = None" "tracked w = None"
    using accepted by (auto simp: streamAgent_def tracked_def runs split: if_splits)
  have fg: "ma_activeForegroundTurnId (tw_agent w) = None"
    using free(2) core by (cases "ma_activeForegroundTurnId (tw_agent w)")
      (auto simp: active_foreground_def truthy_def core_inv_def agent_ok_def split: if_splits)
  have w': "w' = upd_agent (\<lambda>a. a\<lparr>ma_lastError := None\<rparr>) (w\<lparr>tw_runs := ?rs,
      tw_calls := tw_calls w @ [\<lparr>ca_token = ?n, ca_isReplacement = ma_pendingReplacement (tw_agent w), ca_prompt = p,
        ca_clientMessageId = c, ca_state = CallCreated\<rparr>]\<rparr>)"
    using accepted free by (simp add: streamAgent_def tracked_def runs createPendingRun_def split: if_splits)
  have tracked: "tracked w' = Some (PendingForegroundRun ?n [] StartPending)"
    by (simp add: w' agent_id_def runs)
  have settled: "is_settled k (tw_runs w') = is_settled k (tw_runs w)" "rs_created (tw_runs w') = Suc ?n" for k
    by (simp_all add: w' is_settled_def runs)
  have settled_calls: "ca_token d < ?n \<and> is_settled (ca_token d) (tw_runs w)" if "d \<in> set (tw_calls w)" for d
    using core that free(3) unfolding core_inv_def calls_ok_def call_ok_def by (cases "ca_state d") fastforce+
  have streams: "\<And>d j. d \<in> set (tw_calls w) \<Longrightarrow> ca_state d = CallStreaming j \<Longrightarrow> j < length (tw_streams w)"
    using core by (auto simp: core_inv_def calls_ok_def call_ok_def)
  have "\<not> is_settled ?n (tw_runs w)"
    using core by (auto simp: core_inv_def runs_ok_def is_settled_def)
  then have "call_ok w' d" if "d \<in> set (tw_calls w')" for d
    using that settled_calls streams unfolding call_ok_def settled tracked
    by (cases "d \<in> set (tw_calls w)") (auto simp: w' less_SucI)
  moreover have "distinct (map ca_token (tw_calls w'))"
    using core by (auto simp: w' core_inv_def calls_ok_def dest: settled_calls)
  moreover have "i = k" if "i < length (tw_calls w')" "k < length (tw_calls w')" "ca_state (tw_calls w' ! i) = CallStreaming j"
      "ca_state (tw_calls w' ! k) = CallStreaming j" for i k j
    using core that by (auto simp: w' core_inv_def calls_ok_def nth_append split: if_splits)
  ultimately have "calls_ok w'" unfolding calls_ok_def by blast
  moreover have "runs_ok (tw_runs w')" using runs_ok_put_new [of "tw_runs w"] core by (simp add: w' core_inv_def)
  moreover have "cancel_ok w'"
    using core free(3) unfolding core_inv_def cancel_ok_def settled by (auto simp: w')
  ultimately have "core_inv w'"
    using core fg free(1) by (simp add: core_inv_def tracked run_ok_def waiters_ok_def closed_ok_def)
      (simp add: w' agent_ok_def)
  moreover have "out_ok w'" using inv by (simp add: w' turn_inv_def out_ok_def)
  ultimately show ?thesis by (simp add: turn_inv_def)
qed

lemma call_ok_same:
  assumes "tw_runs w' = tw_runs w" "tw_streams w' = tw_streams w" "ma_waiters (tw_agent w') = ma_waiters (tw_agent w)"
    "tracked w' = tracked w"
  shows "call_ok w' c = call_ok w c"
  unfolding call_ok_def assms ..

lemma token_unique:
  assumes "core_inv w" "c \<in> set (tw_calls w)" "\<not> is_settled (ca_token c) (tw_runs w)" "tracked w = Some r"
  shows "run_token r = ca_token c"
  using assms unfolding core_inv_def calls_ok_def call_ok_def by (cases "ca_state c") fastforce+

lemma unsettled_tracked:
  assumes "core_inv w" "c \<in> set (tw_calls w)" "\<not> is_settled (ca_token c) (tw_runs w)"
  shows "tracked w \<noteq> None"
  using assms unfolding core_inv_def calls_ok_def call_ok_def by (cases "ca_state c") fastforce+

lemma core_clear:
  assumes core: "core_inv w" and r: "tracked w = Some r"
  shows "core_inv (upd_runs (clearRun (agent_id w) r) w)"
proof -
  let ?w = "upd_runs (clearRun (agent_id w) r) w"
  have tracked: "tracked ?w = None" by (simp add: runs)
  have settled: "is_settled k (tw_runs ?w) \<longleftrightarrow> k = run_token r \<or> is_settled k (tw_runs w)" "rs_created (tw_runs ?w) = rs_created (tw_runs w)" for k
    by (auto simp: is_settled_def runs)
  have "call_ok ?w c" if "c \<in> set (tw_calls w)" for c
  proof -
    have "is_settled (ca_token c) (tw_runs ?w)"
    proof (cases "is_settled (ca_token c) (tw_runs w)")
      case True
      then show ?thesis unfolding settled by simp
    next
      case False
      show ?thesis unfolding settled token_unique [OF core that False r] by simp
    qed
    moreover have "call_ok w c" using core that by (simp add: core_inv_def calls_ok_def)
    ultimately show ?thesis by (simp add: call_ok_def runs)
  qed
  then have "calls_ok ?w" using core by (simp add: core_inv_def calls_ok_def)
  moreover have "runs_ok (tw_runs ?w)" using runs_ok_clear [of "tw_runs w" "agent_id w" r] core r by (simp add: core_inv_def tracked_def)
  moreover have "cancel_ok ?w"
    using core r unfolding core_inv_def cancel_ok_def settled tracked by auto
  ultimately show ?thesis
    using core by (simp add: core_inv_def run_ok_def waiters_ok_def closed_ok_def runs)
qed

lemma core_settle_foreground:
  assumes core: "core_inv w"
  shows "core_inv (upd_runs (settleForegroundRun (agent_id w) k) w)"
proof (cases "tracked w")
  case None
  then have "upd_runs (settleForegroundRun (agent_id w) k) w = w" by (simp add: upd_runs_def settleForegroundRun_def tracked_def)
  with core show ?thesis by simp
next
  case (Some r)
  then have "upd_runs (settleForegroundRun (agent_id w) k) w \<in> {w, upd_runs (clearRun (agent_id w) r) w}"
    by (cases r) (simp_all add: upd_runs_def settleForegroundRun_def tracked_def)
  with core core_clear [OF core Some] show ?thesis by auto
qed

lemma settle_foreground_settles:
  assumes core: "core_inv w" and c: "c \<in> set (tw_calls w)"
  shows "is_settled (ca_token c) (settleForegroundRun (agent_id w) (ca_token c) (tw_runs w))"
proof (cases "is_settled (ca_token c) (tw_runs w)")
  case True
  then show ?thesis by (auto simp: settleForegroundRun_def is_settled_def runs split: option.splits TrackedAgentRun.splits)
next
  case False
  then obtain es st where "tracked w = Some (PendingForegroundRun (ca_token c) es st)"
    using core c unfolding core_inv_def calls_ok_def call_ok_def by (cases "ca_state c") fastforce+
  then show ?thesis by (simp add: settleForegroundRun_def tracked_def is_settled_def runs)
qed

text \<open>Changing the state of a prompt whose run has settled, and detaching its stream, keeps the invariant.\<close>

lemma core_set_call:
  assumes core: "core_inv w"
    and i: "i < length (tw_calls w)"
      "is_settled (ca_token (tw_calls w ! i)) (tw_runs w) \<or> ca_state (tw_calls w ! i) = CallCreated \<and> st = CallStarting"
    and st: "\<And>j. st \<noteq> CallStreaming j"
  shows "core_inv (set_call i st w)"
proof -
  let ?w = "set_call i st w" and ?c = "tw_calls w ! i"
  have tracked: "tracked ?w = tracked w" by (simp add: tracked_def agent_id_def)
  have "call_ok w (?c\<lparr>ca_state := st\<rparr>)"
    using core i st nth_mem [OF i(1)] by (auto simp: core_inv_def calls_ok_def call_ok_def)
  then have "call_ok w c" if "c \<in> set (tw_calls ?w)" for c
    using that core set_update_subset_insert [of "tw_calls w" i "?c\<lparr>ca_state := st\<rparr>"]
    by (auto simp: core_inv_def calls_ok_def)
  then have "\<forall>c\<in>set (tw_calls ?w). call_ok ?w c" using call_ok_same [of ?w w, OF _ _ _ tracked] by simp
  moreover have "map ca_token (tw_calls ?w) = map ca_token (tw_calls w)"
    using i by (simp add: map_update) (metis (no_types, lifting) list_update_id map_update)
  moreover have state: "ca_state (tw_calls ?w ! n) = (if n = i then st else ca_state (tw_calls w ! n))" if "n < length (tw_calls w)" for n
    using that i by (simp add: nth_list_update)
  have "k = n" if "k < length (tw_calls ?w)" "n < length (tw_calls ?w)" "ca_state (tw_calls ?w ! k) = CallStreaming j"
      "ca_state (tw_calls ?w ! n) = CallStreaming j" for k n j
  proof -
    have "k < length (tw_calls w)" "n < length (tw_calls w)" using that by simp_all
    with that(3,4) state st have "ca_state (tw_calls w ! k) = CallStreaming j" "ca_state (tw_calls w ! n) = CallStreaming j"
      by (metis (no_types))+
    with core \<open>k < length (tw_calls w)\<close> \<open>n < length (tw_calls w)\<close> show ?thesis unfolding core_inv_def calls_ok_def by blast
  qed
  ultimately have "calls_ok ?w" using core unfolding calls_ok_def core_inv_def by metis
  then show ?thesis using core by (simp add: core_inv_def tracked waiters_ok_def cancel_ok_def closed_ok_def)
qed

lemma core_detach:
  assumes core: "core_inv w" and i: "i < length (tw_calls w)" "is_settled (ca_token (tw_calls w ! i)) (tw_runs w)"
    and j: "ca_state (tw_calls w ! i) = CallStreaming j"
  shows "core_inv (upd_agent (\<lambda>a. a\<lparr>ma_waiters := removeAll j (ma_waiters a)\<rparr>) (w\<lparr>tw_streams := (tw_streams w)[j := s]\<rparr>))"
proof -
  let ?w = "upd_agent (\<lambda>a. a\<lparr>ma_waiters := removeAll j (ma_waiters a)\<rparr>) (w\<lparr>tw_streams := (tw_streams w)[j := s]\<rparr>)"
  have tracked: "tracked ?w = tracked w" by (simp add: agent_id_def tracked_def)
  have "call_ok ?w c" if c: "c \<in> set (tw_calls w)" for c
  proof (cases "is_settled (ca_token c) (tw_runs w)")
    case True
    then show ?thesis using core c by (simp add: core_inv_def calls_ok_def call_ok_def)
  next
    case False
    obtain k where k: "k < length (tw_calls w)" "c = tw_calls w ! k" using c by (auto simp: in_set_conv_nth)
    with False i(2) have "k \<noteq> i" by auto
    then have "ca_state c \<noteq> CallStreaming j" using core i(1) j k by (auto simp: core_inv_def calls_ok_def)
    then show ?thesis using core c unfolding core_inv_def calls_ok_def call_ok_def tracked
      by (cases "ca_state c") auto
  qed
  then have "calls_ok ?w" using core by (simp add: core_inv_def calls_ok_def)
  moreover have "waiters_ok ?w" using core by (auto simp: core_inv_def waiters_ok_def)
  moreover have "agent_ok (tw_agent ?w)" using core by (simp add: core_inv_def agent_ok_def distinct_removeAll)
  moreover have "run_ok (tw_agent ?w) (tracked ?w)" using core
    unfolding tracked core_inv_def run_ok_def by (simp split: option.splits TrackedAgentRun.splits run_start.splits)
  ultimately show ?thesis using core unfolding core_inv_def cancel_ok_def closed_ok_def tracked by simp
qed

lemma core_finally:
  assumes core: "core_inv w" and i: "i < length (tw_calls w)" and j: "ca_state (tw_calls w ! i) = CallStreaming j"
  shows "core_inv (call_finally i j (w\<lparr>tw_streams := (tw_streams w)[j := s]\<rparr>))"
proof -
  let ?k = "ca_token (tw_calls w ! i)"
  define v where "v = upd_runs (settleForegroundRun (agent_id w) ?k) w"
  define u where "u = upd_agent (\<lambda>a. a\<lparr>ma_waiters := removeAll j (ma_waiters a)\<rparr>) (v\<lparr>tw_streams := (tw_streams v)[j := settleWaiter ((tw_streams w)[j := s] ! j)]\<rparr>)"
  have v: "core_inv v" unfolding v_def by (rule core_settle_foreground [OF core])
  have "is_settled ?k (tw_runs v)" using settle_foreground_settles [OF core nth_mem [OF i]] by (simp add: v_def)
  with core_detach [OF v, of i j] i j have u: "core_inv u" "i < length (tw_calls u)" "is_settled (ca_token (tw_calls u ! i)) (tw_runs u)"
    by (simp_all add: u_def v_def)
  have "call_finally i j (w\<lparr>tw_streams := (tw_streams w)[j := s]\<rparr>) = set_call i CallEnded u"
    by (simp add: call_finally_def u_def v_def set_call_def upd_agent_def upd_runs_def agent_id_def)
  with core_set_call [OF u(1,2)] u(3) show ?thesis by simp
qed

lemma call_next_inv:
  assumes inv: "turn_inv w" and i: "i < length (tw_calls w)"
  shows "turn_inv (call_next i w)"
proof (cases "\<exists>j. ca_state (tw_calls w ! i) = CallStreaming j")
  case True
  then obtain j where j: "ca_state (tw_calls w ! i) = CallStreaming j" by blast
  let ?s = "stream_next isTurnTerminalEvent (tw_streams w ! j)"
  have core: "core_inv w" using inv by (simp add: turn_inv_def)
  have len: "j < length (tw_streams w)" using core j nth_mem [OF i] by (auto simp: core_inv_def calls_ok_def call_ok_def)
  show ?thesis
  proof (cases "ts_finished ?s")
    case True
    with j have "call_next i w = call_finally i j (w\<lparr>tw_streams := (tw_streams w)[j := ?s]\<rparr>)" by (simp add: call_next_def Let_def)
    with core_finally [OF core i j] inv show ?thesis
      by (simp add: turn_inv_def out_ok_def) (simp add: call_finally_def)
  next
    case False
    have "ts_turnId ?s = ts_turnId (tw_streams w ! j)" by (simp add: stream_next_def split: list.splits)
    then have "stream_kept (tw_streams w ! j) ?s" by (simp add: stream_kept_def next_ok)
    then have "list_all2 stream_kept (tw_streams w) ((tw_streams w)[j := ?s])"
      using len by (simp add: list_all2_conv_all_nth nth_list_update)
    then have "quiet w (w\<lparr>tw_streams := (tw_streams w)[j := ?s]\<rparr>)" by (simp add: quiet_def)
    from inv_quiet [OF this inv] False j show ?thesis by (simp add: call_next_def Let_def)
  qed
qed (use inv in \<open>auto simp: call_next_def split: call_state.splits\<close>)

lemma call_return_inv:
  assumes inv: "turn_inv w" and i: "i < length (tw_calls w)"
  shows "turn_inv (call_return i w)"
proof (cases "\<exists>j. ca_state (tw_calls w ! i) = CallStreaming j")
  case True
  then obtain j where j: "ca_state (tw_calls w ! i) = CallStreaming j" by blast
  have core: "core_inv w" using inv by (simp add: turn_inv_def)
  with core_finally [OF core i j] inv j show ?thesis
    by (simp add: call_return_def turn_inv_def out_ok_def) (simp add: call_finally_def)
qed (use inv in \<open>auto simp: call_return_def split: call_state.splits\<close>)

lemma call_threw_inv:
  "turn_inv w \<Longrightarrow> i < length (tw_calls w) \<Longrightarrow> is_settled (ca_token (tw_calls w ! i)) (tw_runs w) \<Longrightarrow> turn_inv (set_call i CallThrew w)"
  using core_set_call [of w i CallThrew] by (simp add: turn_inv_def out_ok_def)

lemma call_first_inv: "turn_inv w \<Longrightarrow> i < length (tw_calls w) \<Longrightarrow> turn_inv (call_first i w)"
  using core_set_call [of w i CallStarting] by (simp add: call_first_def turn_inv_def out_ok_def)

section \<open>A turn is accepted or refused\<close>

lemma starting_call:
  assumes core: "core_inv w" and i: "i < length (tw_calls w)" "ca_state (tw_calls w ! i) = CallStarting"
    "\<not> is_settled (ca_token (tw_calls w ! i)) (tw_runs w)"
  obtains es where "tracked w = Some (PendingForegroundRun (ca_token (tw_calls w ! i)) es StartPending)"
    "ma_activeForegroundTurnId (tw_agent w) = None" "\<not> tw_closed w"
proof -
  have "call_ok w (tw_calls w ! i)" using core nth_mem [OF i(1)] by (simp add: core_inv_def calls_ok_def)
  then obtain es where es: "tracked w = Some (PendingForegroundRun (ca_token (tw_calls w ! i)) es StartPending)"
    using i by (auto simp: call_ok_def)
  moreover have "ma_activeForegroundTurnId (tw_agent w) = None" "\<not> tw_closed w"
    using core es by (auto simp: core_inv_def run_ok_def closed_ok_def)
  ultimately show ?thesis by (rule that)
qed

definition accepted_view :: "readings \<Rightarrow> bool \<Rightarrow> string \<Rightarrow> ManagedAgent \<Rightarrow> ManagedAgent" where
  "accepted_view rd isReplacement turnId a =
     (openActiveTurn turnId (rd_now rd)
        (a\<lparr>ma_pendingReplacement := (if isReplacement then False else ma_pendingReplacement a),
           ma_activeForegroundTurnId := Some turnId\<rparr>))\<lparr>ma_lifecycle := LifeRunning\<rparr>"

lemma accepted_streaming:
  fixes w t n w' token
  assumes core: "core_inv w" and i: "i < length (tw_calls w)" "ca_state (tw_calls w ! i) = CallStarting"
    and run: "tracked w = Some (PendingForegroundRun (ca_token (tw_calls w ! i)) es StartPending)" and "\<not> tw_closed w"
    and t: "t \<noteq> []" "t \<notin> set (ma_finalizedTurns (tw_agent w))"
    and agent: "turn_view (tw_agent w') = turn_view ((accepted_view rd b t (tw_agent w))\<lparr>ma_waiters := ma_waiters (tw_agent w) @ [length (tw_streams w)]\<rparr>)"
    and runs: "tw_runs w' = put_run (agent_id w) (PendingForegroundRun (ca_token (tw_calls w ! i)) [] (StartStarted t)) (tw_runs w)"
    and calls: "tw_calls w' = (tw_calls w)[i := (tw_calls w ! i)\<lparr>ca_state := CallStreaming (length (tw_streams w))\<rparr>]"
    and streams: "\<exists>ss. tw_streams w' = ss @ [new_stream t] \<and> list_all2 stream_kept (tw_streams w) ss"
    and rest: "tw_cancel w' = tw_cancel w" "tw_closed w' = tw_closed w"
  shows "core_inv w'"
proof -
  let ?c = "tw_calls w ! i" and ?n = "length (tw_streams w)"
  obtain ss where ss: "tw_streams w' = ss @ [new_stream t]" "list_all2 stream_kept (tw_streams w) ss" using streams by blast
  have len: "length ss = ?n" using ss(2) by (simp add: list_all2_lengthD)
  have fields: "ma_activeForegroundTurnId (tw_agent w') = Some t" "ma_activeTurnId (tw_agent w') = Some t"
      "ma_lifecycle (tw_agent w') = LifeRunning" "ma_finalizedTurns (tw_agent w') = ma_finalizedTurns (tw_agent w)"
      "ma_waiters (tw_agent w') = ma_waiters (tw_agent w) @ [?n]" "ma_id (tw_agent w') = agent_id w"
    using agent by (simp_all add: accepted_view_def openActiveTurn_def agent_id_def)
  have tracked: "tracked w' = Some (PendingForegroundRun (ca_token ?c) [] (StartStarted t))"
    using fields(6) by (simp add: tracked_def runs getRun_put) (simp add: agent_id_def)
  have settled: "is_settled k (tw_runs w') = is_settled k (tw_runs w)" "rs_created (tw_runs w') = rs_created (tw_runs w)" for k
    by (simp_all add: runs is_settled_def put_simps)
  have registered: "j \<in> set (ma_waiters (tw_agent w)) \<Longrightarrow> j < ?n \<and> stream_ok isTurnTerminalEvent (tw_streams w ! j)" for j
    using core by (simp add: core_inv_def waiters_ok_def)
  have "agent_ok (tw_agent w')"
    using fields t registered core by (auto simp: agent_ok_def core_inv_def)
  moreover have "run_ok (tw_agent w') (tracked w')" by (simp add: tracked run_ok_def fields)
  moreover have "runs_ok (tw_runs w')"
    unfolding runs using core run by (intro runs_ok_put_same [of _ _ "PendingForegroundRun (ca_token ?c) es StartPending"])
      (simp_all add: core_inv_def tracked_def)
  moreover have "calls_ok w'"
  proof -
    have "map ca_token (tw_calls w') = map ca_token (tw_calls w)"
      using i by (simp add: calls map_update) (metis (no_types, lifting) list_update_id map_update)
    moreover have others: "j < ?n" if "c \<in> set (tw_calls w)" "ca_state c = CallStreaming j" for c j
      using core that by (auto simp: core_inv_def calls_ok_def call_ok_def)
    moreover have "call_ok w' c" if c': "c \<in> set (tw_calls w')" for c
    proof -
      obtain k where k: "k < length (tw_calls w)" "c = tw_calls w' ! k"
        using c' unfolding calls in_set_conv_nth by auto
      show ?thesis
      proof (cases "k = i")
        case True
        then have "c = ?c\<lparr>ca_state := CallStreaming ?n\<rparr>" using k i by (simp add: calls)
        moreover have "ca_token ?c < rs_created (tw_runs w)" using core nth_mem [OF i(1)] by (auto simp: core_inv_def calls_ok_def call_ok_def)
        ultimately show ?thesis
          by (simp add: call_ok_def settled tracked fields ss(1) len nth_append new_stream_def)
      next
        case False
        then have c: "c = tw_calls w ! k" "c \<in> set (tw_calls w)" using k by (simp_all add: calls)
        have "distinct (map ca_token (tw_calls w))" using core by (simp add: core_inv_def calls_ok_def)
        then have "ca_token c \<noteq> ca_token ?c" using False c(1) k(1) i(1) by (metis length_map nth_eq_iff_index_eq nth_map)
        then have "is_settled (ca_token c) (tw_runs w)" using token_unique [OF core c(2) _ run] by fastforce
        moreover have "call_ok w c" using core c(2) by (simp add: core_inv_def calls_ok_def)
        ultimately show ?thesis using others [OF c(2)] by (auto simp: call_ok_def settled ss(1) len)
      qed
    qed
    moreover have "k = n" if "k < length (tw_calls w')" "n < length (tw_calls w')" "ca_state (tw_calls w' ! k) = CallStreaming j"
        "ca_state (tw_calls w' ! n) = CallStreaming j" for k n j
    proof -
      have kn: "k < length (tw_calls w)" "n < length (tw_calls w)" using that by (simp_all add: calls)
      show ?thesis
      proof (cases "j = ?n")
        case True
        then have "k = i" "n = i" using that kn others nth_mem
          by (metis calls less_irrefl nth_list_update_neq)+
        then show ?thesis by simp
      next
        case False
        then have "k \<noteq> i" "n \<noteq> i" using that i by (auto simp: calls)
        with that kn core show ?thesis by (simp add: calls core_inv_def calls_ok_def)
      qed
    qed
    ultimately show ?thesis using core unfolding calls_ok_def core_inv_def by metis
  qed
  moreover have "waiters_ok w'"
    using less_SucI [OF conjunct1 [OF registered]] registered ss(2)
    by (auto simp: waiters_ok_def fields ss(1) len nth_append list_all2_conv_all_nth stream_kept_def)
  moreover have "cancel_ok w'"
    using core run unfolding core_inv_def cancel_ok_def settled rest tracked by (auto simp: is_foreground_run_def)
  moreover have "closed_ok w'" using \<open>\<not> tw_closed w\<close> by (simp add: closed_ok_def rest)
  ultimately show ?thesis by (simp add: core_inv_def)
qed

lemma quiet_prompt_record:
  "quiet u w \<Longrightarrow> quiet u (case x of None \<Rightarrow> w | Some c \<Rightarrow> recordSubmittedPrompt lim rd p c (f c) m t w)"
  by (simp split: option.split)

lemma accepted_inv:
  assumes inv: "turn_inv w" and i: "i < length (tw_calls w)" "ca_state (tw_calls w ! i) = CallStarting"
    "\<not> is_settled (ca_token (tw_calls w ! i)) (tw_runs w)"
    and t: "t \<noteq> []" "t \<notin> set (ma_finalizedTurns (tw_agent w))"
  shows "turn_inv (start_accepted lim rd i t w)"
proof -
  let ?call = "tw_calls w ! i" and ?id = "agent_id w"
  have core: "core_inv w" using inv by (simp add: turn_inv_def)
  obtain es where run: "tracked w = Some (PendingForegroundRun (ca_token ?call) es StartPending)"
      and "\<not> tw_closed w" using starting_call [OF core i] by blast
  define f where "f = accepted_view rd (ca_isReplacement ?call) t"
  define w1 where "w1 = upd_agent f (upd_runs (set_run_start ?id (ca_token ?call) (StartStarted t)) w)"
  define w3 where "w3 = dispatchStream lim (turn_started_event (touch rd w1) t) None (touch rd w1)"
  define staged where "staged = staged_events ?id (tw_runs w3)"
  define w4 where "w4 = (case truthy (ca_clientMessageId ?call) of
                  None \<Rightarrow> w3
                | Some c \<Rightarrow> recordSubmittedPrompt lim rd (ca_prompt ?call) c (Some c)
                              (case echo_index (ca_clientMessageId ?call) staged of None \<Rightarrow> None | Some k \<Rightarrow> echo_message (staged ! k)) (Some t) w3)"
  define w5 where "w5 = fold enqueueSessionEvent (replayed t (echo_index (ca_clientMessageId ?call) staged) staged)
      (upd_runs (clear_staged ?id) w4)"
  define w6 where "w6 = emitState rd True w5"
  have whole: "start_accepted lim rd i t w = set_call i (CallStreaming (length (tw_streams w6)))
           (upd_agent (\<lambda>a. a\<lparr>ma_waiters := ma_waiters a @ [length (tw_streams w6)]\<rparr>)
              (w6\<lparr>tw_streams := tw_streams w6 @ [new_stream t]\<rparr>))"
    unfolding start_accepted_def Let_def w6_def w5_def w4_def staged_def w3_def w1_def f_def accepted_view_def [abs_def]
      upd_agent_def upd_runs_def touch_def turn_started_event_def by simp
  have runs1: "tw_runs w1 = put_run ?id (PendingForegroundRun (ca_token ?call) es (StartStarted t)) (tw_runs w)"
    using run by (simp add: w1_def set_run_start_def tracked_def)
  have q4: "quiet w1 w4" unfolding w4_def by (rule quiet_prompt_record) (simp add: w3_def)
  have runs5: "tw_runs (upd_runs (clear_staged ?id) w4) = put_run ?id (PendingForegroundRun (ca_token ?call) [] (StartStarted t)) (tw_runs w)"
    using q4 runs1 by (simp add: quiet_def clear_staged_def runs) (simp add: put_run_def)
  have id4: "agent_id (upd_runs (clear_staged ?id) w4) = ?id"
    using q4 by (simp add: agent_id_def quiet_def w1_def f_def accepted_view_def openActiveTurn_def)
  then have "tracked (upd_runs (clear_staged ?id) w4) = Some (PendingForegroundRun (ca_token ?call) [] (StartStarted t))"
    unfolding tracked_def runs5 by (simp add: runs)
  then have runs6: "tw_runs w5 = put_run ?id (PendingForegroundRun (ca_token ?call) [] (StartStarted t)) (tw_runs w)"
    unfolding w5_def runs5 [symmetric] by (intro enqueue_all_started) simp
  have q6: "quiet w5 w6" by (simp add: w6_def)
  have agent1: "tw_agent w1 = f (tw_agent w)" "tw_out w1 = tw_out w" "tw_streams w1 = tw_streams w" "tw_calls w1 = tw_calls w"
      "tw_cancel w1 = tw_cancel w" "tw_closed w1 = tw_closed w" by (simp_all add: w1_def)
  have w5: "tw_agent w5 = tw_agent w4" "tw_out w5 = tw_out w4" "tw_streams w5 = tw_streams w4" "tw_calls w5 = tw_calls w4"
      "tw_cancel w5 = tw_cancel w4" "tw_closed w5 = tw_closed w4" by (simp_all add: w5_def)
  have view6: "turn_view (tw_agent w6) = turn_view (f (tw_agent w))"
    using q4 q6 agent1 w5 unfolding quiet_def by metis
  have streams6: "list_all2 stream_kept (tw_streams w) (tw_streams w6)"
    using q4 q6 streams_kept_trans agent1 w5 unfolding quiet_def by metis
  have calls6: "tw_calls w6 = tw_calls w" "tw_cancel w6 = tw_cancel w" "tw_closed w6 = tw_closed w" "tw_runs w6 = tw_runs w5"
    using q4 q6 agent1 w5 unfolding quiet_def by simp_all
  have len6: "length (tw_streams w6) = length (tw_streams w)" using streams6 by (simp add: list_all2_lengthD)
  have waiters: "ma_waiters (f (tw_agent w)) = ma_waiters (tw_agent w)" by (simp add: f_def accepted_view_def openActiveTurn_def)
  have "core_inv (start_accepted lim rd i t w)"
  proof (rule accepted_streaming [OF core i(1,2) run \<open>\<not> tw_closed w\<close> t])
    show "turn_view (tw_agent (start_accepted lim rd i t w)) =
        turn_view ((accepted_view rd (ca_isReplacement ?call) t (tw_agent w))\<lparr>ma_waiters := ma_waiters (tw_agent w) @ [length (tw_streams w)]\<rparr>)"
      using view6 unfolding whole len6 by (simp add: f_def) (simp add: accepted_view_def openActiveTurn_def)
    show "tw_runs (start_accepted lim rd i t w) = put_run ?id (PendingForegroundRun (ca_token ?call) [] (StartStarted t)) (tw_runs w)"
      by (simp add: whole calls6 runs6)
    show "tw_calls (start_accepted lim rd i t w) = (tw_calls w)[i := ?call\<lparr>ca_state := CallStreaming (length (tw_streams w))\<rparr>]"
      by (simp add: whole calls6 len6)
    show "\<exists>ss. tw_streams (start_accepted lim rd i t w) = ss @ [new_stream t] \<and> list_all2 stream_kept (tw_streams w) ss"
      using streams6 by (simp add: whole)
  qed (simp_all add: whole calls6)
  moreover have "out_ok (start_accepted lim rd i t w)"
  proof -
    have shown1: "shown_ok (tw_agent w1)" by (simp add: agent1 f_def shown_ok_def accepted_view_def openActiveTurn_def)
    have "out_ok w1" using inv by (simp add: out_ok_def agent1 turn_inv_def)
    then have "out_ok w5" using quiet_out [OF q4 shown1] by (simp add: out_ok_def w5)
    moreover have "shown_ok (tw_agent w5)" using quiet_shown [OF q4] shown1 by (simp add: w5)
    ultimately have "out_ok w6" using quiet_out [OF q6] by simp
    then show ?thesis by (simp add: out_ok_def whole)
  qed
  ultimately show ?thesis by (simp add: turn_inv_def)
qed

end
