(* ===== verification/AgentTurnHistory.thy ===== *)
theory AgentTurnHistory
  imports AgentTurnInvariant
begin

text \<open>
  Refused starts, cancellations, replacements, steering and closing keep the invariant of an agent's turns, so every history
  does, and the theorems on turns: what is shown during a replacement, the end of a turn, and the cancellation of a run.
\<close>

section \<open>A start that is refused\<close>

lemma close_none: "agent_ok a \<Longrightarrow> ma_activeForegroundTurnId a = None \<Longrightarrow>
    agent_ok (final_view None (a\<lparr>ma_pendingReplacement := False\<rparr>))
    \<and> ma_activeForegroundTurnId (final_view None (a\<lparr>ma_pendingReplacement := False\<rparr>)) = None"
  by (simp add: final_view_def rest_view_def forget_view_def close_view_def applyActiveTurnTerminal_def agent_ok_def truthy_def
      split: option.splits)

lemma rejected_inv:
  assumes inv: "turn_inv w" and i: "i < length (tw_calls w)" "ca_state (tw_calls w ! i) = CallStarting"
    "\<not> is_settled (ca_token (tw_calls w ! i)) (tw_runs w)"
  shows "turn_inv (start_rejects lim rd i e w)"
proof -
  let ?k = "ca_token (tw_calls w ! i)" and ?id = "agent_id w" and ?b = "TurnFailed e None None"
  let ?ev = "\<lparr>ae_provider = ma_provider (tw_agent w), ae_turnId = None, ae_body = TurnFailed e None None\<rparr>"
  have core: "core_inv w" using inv by (simp add: turn_inv_def)
  obtain es where run: "tracked w = Some (PendingForegroundRun ?k es StartPending)" and fg: "ma_activeForegroundTurnId (tw_agent w) = None"
      and open_world: "\<not> tw_closed w" using starting_call [OF core i] by blast
  define a where "a = (tw_agent w)\<lparr>ma_pendingReplacement := False\<rparr>"
  define w1 where "w1 = upd_runs (set_run_start ?id ?k (StartFailed e)) (upd_agent (\<lambda>a. a\<lparr>ma_pendingReplacement := False\<rparr>) w)"
  have w1: "tw_agent w1 = a" "tw_runs w1 = put_run ?id (PendingForegroundRun ?k es (StartFailed e)) (tw_runs w)"
      "tw_out w1 = tw_out w" "tw_calls w1 = tw_calls w" "tw_streams w1 = tw_streams w" "tw_cancel w1 = tw_cancel w" "tw_closed w1 = False"
    using run open_world by (simp_all add: w1_def a_def set_run_start_def tracked_def)
  have a: "agent_ok a" "ma_activeForegroundTurnId a = None" "ma_pendingReplacement a = False"
    using core fg by (auto simp: a_def core_inv_def agent_ok_def)
  define t where "t = terminal_turn (tw_agent w1) ?ev"
  have t: "t \<noteq> Some []" "t = None \<longrightarrow> current_turn a = None" "\<And>x. truthy t = Some x \<Longrightarrow> x \<notin> set (ma_finalizedTurns (tw_agent w1))"
    using a by (auto simp: t_def terminal_turn_def w1 current_turn_def agent_ok_def truthy_def split: option.splits if_splits)
  have terminal: "isTurnTerminalEvent ?ev" by (simp add: isTurnTerminalEvent_def is_terminal_body_def)
  have shown: "shown_ok (tw_agent w1)" "shown_ok (handler_view ?b t (tw_agent w1))" "agent_ok (ended_view ?b t (tw_agent w1))"
    using agent_ended [OF a(1) t(1,2)] agent_shown [OF a(1)] by (simp_all add: w1)
  have out1: "out_ok w1" using inv by (simp add: out_ok_def w1 turn_inv_def)
  obtain w2 where w2: "handleStreamEvent lim rd False ?ev w1 = (True, w2)" "kept (ended_world ?b t w1) w2" "out_ok w2"
    using handle_terminal [OF terminal t_def t(3), of lim rd] shown out1 agent_shown [OF shown(3)] by auto
  define w3 where "w3 = finalizeForegroundTurn rd None w2"
  have rejects: "start_rejects lim rd i e w = set_call i CallThrew (upd_runs (settleForegroundRun ?id ?k) w3)"
    using i w2(1) by (simp add: start_rejects_def Let_def w3_def w1_def)
  let ?a2 = "ended_view ?b t a"
  have view2: "turn_view (tw_agent w2) = turn_view ?a2" using w2(2) unfolding kept_iff by (simp add: ended_world_def w1)
  have a2: "agent_ok ?a2" "ma_activeForegroundTurnId ?a2 = None" "ma_pendingReplacement ?a2 = False"
  proof -
    show "agent_ok ?a2" using shown(3) by (simp add: w1)
    show "ma_activeForegroundTurnId ?a2 = None" by (rule ended_finalized(2) [OF a(2)])
    have "\<not> is_foreground t a" using a(2) by (auto simp: is_foreground_def)
    then show "ma_pendingReplacement ?a2 = False"
      using a(3) by (simp add: ended_view_def handler_view_def end_view_def close_view_def applyActiveTurnTerminal_def)
  qed
  have a3: "agent_ok (final_view None ?a2)" "ma_activeForegroundTurnId (final_view None ?a2) = None"
      "ma_pendingReplacement (final_view None ?a2) = False" "ma_waiters (final_view None ?a2) = ma_waiters a"
  proof -
    have "h\<lparr>ma_pendingReplacement := False\<rparr> = h" if "\<not> ma_pendingReplacement h" for h :: ManagedAgent
      using that by (cases h) simp
    from this [of ?a2] a2(3) have same: "?a2\<lparr>ma_pendingReplacement := False\<rparr> = ?a2" by simp
    show "agent_ok (final_view None ?a2)" "ma_activeForegroundTurnId (final_view None ?a2) = None"
      using close_none [OF a2(1,2)] unfolding same by simp_all
    show "ma_pendingReplacement (final_view None ?a2) = False" "ma_waiters (final_view None ?a2) = ma_waiters a"
      using a2(3) ended_waiters [of ?b t a]
      by (simp_all add: final_view_def rest_view_def forget_view_def close_view_def applyActiveTurnTerminal_def)
  qed
  have q3: "quiet (upd_agent (final_view None) w2) w3" unfolding w3_def by (rule finalize_quiet)
  have k3: "kept (upd_agent (final_view None) (ended_world ?b t w1)) w3"
    by (rule kept_trans [OF kept_upd_agent [OF w2(2) on_final_view] quiet_kept [OF q3]])
  define u where "u = w\<lparr>tw_agent := final_view None ?a2\<rparr>"
  have id: "ma_id (final_view None ?a2) = agent_id w" by (simp add: handler_id a_def agent_id_def)
  have u: "core_inv (upd_runs (clearRun ?id (PendingForegroundRun ?k es StartPending)) u)"
  proof -
    have tracked: "tracked u = tracked w" using id by (simp add: u_def tracked_def agent_id_def)
    have "call_ok u c = call_ok w c" for c
      using call_ok_same [of u w] tracked a3(4) by (simp add: u_def a_def)
    moreover have "cancel_ok u" using core unfolding core_inv_def cancel_ok_def tracked by (simp add: u_def)
    moreover have "waiters_ok u" "closed_ok u"
      using core a3 open_world by (simp_all add: core_inv_def waiters_ok_def closed_ok_def u_def a_def)
    moreover have "run_ok (tw_agent u) (tracked u)" "agent_ok (tw_agent u)"
      unfolding tracked run using a3 by (simp_all add: run_ok_def u_def)
    ultimately have "core_inv u" using core by (simp add: core_inv_def calls_ok_def u_def)
    from core_clear [OF this] run tracked id show ?thesis by (simp add: u_def agent_id_def)
  qed
  define v where "v = upd_runs (settleForegroundRun ?id ?k) (upd_agent (final_view None) (ended_world ?b t w1))"
  have v: "core_inv v"
  proof -
    have "settleTerminalRun (agent_id w1) t (tw_runs w1) = tw_runs w1"
      using id by (simp add: settleTerminalRun_def w1 agent_id_def a_def runs)
    moreover have "settleForegroundRun ?id ?k (tw_runs w1) = clearRun ?id (PendingForegroundRun ?k es StartPending) (tw_runs w)"
      by (simp add: settleForegroundRun_def w1 runs) (simp add: clearRun_def settleTrackedRun_def put_run_def AList.delete_update_same)
    ultimately have "v = upd_runs (clearRun ?id (PendingForegroundRun ?k es StartPending)) u"
      by (simp add: v_def ended_world_def w1(1) u_def) (simp add: w1_def upd_agent_def upd_runs_def a_def)
    with u show ?thesis by simp
  qed
  have same_id: "agent_id w3 = ?id" using k3 by (simp add: kept_iff agent_id_def ended_world_def w1 handler_id a_def)
  have "core_inv (upd_runs (settleForegroundRun ?id ?k) w3)"
    using core_kept [OF kept_upd_runs [OF k3] v [unfolded v_def]] .
  moreover have "is_settled ?k (settleForegroundRun ?id ?k (tw_runs w3))"
  proof -
    have "tw_runs w3 = put_run ?id (PendingForegroundRun ?k es (StartFailed e)) (tw_runs w)"
      using k3 id by (simp add: kept_iff ended_world_def settleTerminalRun_def w1 agent_id_def a_def runs)
    then show ?thesis by (simp add: settleForegroundRun_def runs is_settled_def)
  qed
  moreover have "tw_calls w3 = tw_calls w" using k3 by (simp add: kept_iff ended_world_def w1)
  ultimately have "core_inv (start_rejects lim rd i e w)"
    unfolding rejects using core_set_call [of "upd_runs (settleForegroundRun ?id ?k) w3" i CallThrew] i by simp
  moreover have "out_ok (start_rejects lim rd i e w)"
  proof -
    have "shown_ok (final_view None (tw_agent w2))"
      using shown_view [OF on_viewD [OF on_final_view view2]] agent_shown [OF a3(1)] by simp
    then have "out_ok w3" using quiet_out [OF q3] w2(3) by (simp add: out_ok_def)
    then show ?thesis by (simp add: rejects out_ok_def)
  qed
  ultimately show ?thesis by (simp add: turn_inv_def)
qed

section \<open>Cancelling\<close>

lemma inv_cancel: "turn_inv w \<Longrightarrow> turn_inv (w\<lparr>tw_cancel := None\<rparr>)"
proof -
  assume inv: "turn_inv w"
  have tracked: "tracked (w\<lparr>tw_cancel := None\<rparr>) = tracked w" by (simp add: tracked_def agent_id_def)
  have "call_ok (w\<lparr>tw_cancel := None\<rparr>) c = call_ok w c" for c using call_ok_same [OF _ _ _ tracked] by simp
  with inv show ?thesis
    by (simp add: turn_inv_def core_inv_def calls_ok_def waiters_ok_def cancel_ok_def closed_ok_def out_ok_def tracked)
qed

lemma cancel_begin_inv:
  assumes inv: "turn_inv w"
  shows "turn_inv (cancel_begin w)"
proof -
  have core: "core_inv w" using inv by (simp add: turn_inv_def)
  show ?thesis
  proof (cases "tw_closed w \<or> tw_cancel w \<noteq> None")
    case True
    then show ?thesis using inv by (auto simp: cancel_begin_def)
  next
    case False
    show ?thesis
    proof (cases "tracked w")
      case (Some r)
      let ?w = "w\<lparr>tw_cancel := Some r\<rparr>"
      have tracked: "tracked ?w = Some r" using Some by (simp add: tracked_def agent_id_def)
      have "call_ok ?w c = call_ok w c" for c using call_ok_same [of ?w w] Some tracked by simp
      moreover have "run_token r < rs_created (tw_runs w)" using core Some by (auto simp: core_inv_def runs_ok_def tracked_def)
      ultimately have "core_inv ?w"
        using core Some by (simp add: core_inv_def calls_ok_def waiters_ok_def cancel_ok_def closed_ok_def tracked)
      then show ?thesis using inv False Some by (simp add: cancel_begin_def turn_inv_def out_ok_def tracked_def)
    next
      case None
      show ?thesis
      proof (cases "ma_lifecycle (tw_agent w) = LifeRunning")
        case True
        let ?n = "rs_created (tw_runs w)"
        let ?r = "AutonomousAgentRun ?n None"
        let ?rs = "put_run (agent_id w) ?r ((tw_runs w)\<lparr>rs_created := Suc ?n\<rparr>)"
        let ?w = "w\<lparr>tw_runs := ?rs, tw_cancel := Some ?r\<rparr>"
        have tracked: "tracked ?w = Some ?r" by (simp add: tracked_def agent_id_def runs)
        have settled: "is_settled k ?rs = is_settled k (tw_runs w)" "rs_created ?rs = Suc ?n" for k by (simp_all add: is_settled_def runs)
        have "call_ok ?w c" if c: "c \<in> set (tw_calls w)" for c
        proof -
          have "is_settled (ca_token c) (tw_runs w)" using unsettled_tracked [OF core c] None by blast
          moreover have "call_ok w c" using core c by (simp add: core_inv_def calls_ok_def)
          ultimately show ?thesis by (simp add: call_ok_def settled)
        qed
        then have "core_inv ?w"
          using core False runs_ok_put_new [of "tw_runs w" ?r]
          by (simp add: core_inv_def calls_ok_def waiters_ok_def cancel_ok_def closed_ok_def tracked settled run_ok_def)
        then show ?thesis using inv False None True
          by (simp add: cancel_begin_def turn_inv_def out_ok_def tracked_def trackAutonomousRun_def Let_def)
      next
        case False
        with None \<open>\<not> (tw_closed w \<or> tw_cancel w \<noteq> None)\<close> inv show ?thesis by (simp add: cancel_begin_def tracked_def)
      qed
    qed
  qed
qed

text \<open>Events the manager makes itself are fresh.\<close>

lemma canceled_fresh: "x \<noteq> Some [] \<Longrightarrow> event_fresh rd w (canceled_event w x)"
  by (simp add: event_fresh_def canceled_event_def)

lemma canceled_terminal: "isTurnTerminalEvent (canceled_event w x)"
  by (simp add: isTurnTerminalEvent_def is_terminal_body_def canceled_event_def)

lemma core_agent:
  assumes core: "core_inv w" and f: "ma_id (f (tw_agent w)) = ma_id (tw_agent w)" "ma_waiters (f (tw_agent w)) = ma_waiters (tw_agent w)"
    "agent_ok (f (tw_agent w))" "run_ok (f (tw_agent w)) (tracked w)" and "\<not> tw_closed w"
  shows "core_inv (upd_agent f w)"
proof -
  have tracked: "tracked (upd_agent f w) = tracked w" using f by (simp add: tracked_def agent_id_def)
  have "call_ok (upd_agent f w) c = call_ok w c" for c using call_ok_same [OF _ _ _ tracked] f by simp
  with assms show ?thesis
    unfolding core_inv_def calls_ok_def waiters_ok_def cancel_ok_def closed_ok_def tracked by simp
qed

lemma cancel_timed_out_inv:
  assumes inv: "turn_inv w" and r: "tracked w = Some r" "run_token r = run_token run" "is_foreground_run r = is_foreground_run run"
    and open_world: "\<not> tw_closed w"
  shows "turn_inv (cancel_timed_out lim rd run w)"
proof -
  have core: "core_inv w" using inv by (simp add: turn_inv_def)
  show ?thesis
  proof (cases "truthy (getTurnId (agent_id w) (tw_runs w))")
    case (Some t)
    then have "Some t \<noteq> Some []" by (auto simp: truthy_def split: option.splits if_splits)
    from dispatch_inv [OF inv open_world canceled_fresh [OF this]] Some show ?thesis by (simp add: cancel_timed_out_def)
  next
    case None
    show ?thesis
    proof (cases r)
      case (AutonomousAgentRun k x)
      with r have "\<not> is_foreground_run run" by (simp add: is_foreground_run_def)
      with dispatch_inv [OF inv open_world canceled_fresh [of None]] None show ?thesis by (simp add: cancel_timed_out_def)
    next
      case (PendingForegroundRun k es start)
      then have fg: "is_foreground_run run" "run_token run = k" using r by (simp_all add: is_foreground_run_def)
      let ?v = "upd_runs (settleForegroundRun (agent_id w) (run_token run)) w"
      have v: "core_inv ?v" "tracked ?v = None" "out_ok ?v"
        using core_settle_foreground [OF core] r PendingForegroundRun fg inv
        by (simp_all add: settleForegroundRun_def tracked_def runs out_ok_def turn_inv_def agent_id_def)
      have none: "ma_activeForegroundTurnId (tw_agent w) = None"
      proof (cases start)
        case StartPending
        then show ?thesis using core r PendingForegroundRun by (simp add: core_inv_def run_ok_def)
      next
        case (StartStarted t)
        then have "ma_activeForegroundTurnId (tw_agent w) = Some t" "t = []"
          using core r None PendingForegroundRun by (auto simp: core_inv_def run_ok_def tracked_def truthy_def getTurnId_def split: if_splits)
        then show ?thesis using core by (auto simp: core_inv_def agent_ok_def)
      next
        case (StartFailed e)
        then show ?thesis using core r PendingForegroundRun by (simp add: core_inv_def run_ok_def)
      qed
      let ?f = "\<lambda>a. a\<lparr>ma_lifecycle := LifeIdle\<rparr>"
      show ?thesis
      proof (cases "ma_pendingReplacement (tw_agent w)")
        case True
        with v None fg show ?thesis by (simp add: cancel_timed_out_def Let_def turn_inv_def)
      next
        case False
        have "agent_ok (?f (tw_agent w))" using core False none by (auto simp: core_inv_def agent_ok_def)
        moreover have "run_ok (?f (tw_agent w)) (tracked ?v)" unfolding v(2) by (simp add: run_ok_def)
        ultimately have "core_inv (upd_agent ?f ?v)" using open_world by (intro core_agent [OF v(1)]) simp_all
        then have "turn_inv (upd_agent ?f ?v)" using v(3) by (simp add: turn_inv_def out_ok_def)
        then have "turn_inv (emitState rd True (touch rd (upd_agent ?f ?v)))" by (rule inv_quiet [rotated]) simp
        with False None fg show ?thesis by (simp add: cancel_timed_out_def Let_def)
      qed
    qed
  qed
qed

lemma cancel_permissions_quiet: "quiet w (cancel_clears_permissions lim rd w)"
  by (simp add: cancel_clears_permissions_def)

lemma cancel_end_inv:
  assumes inv: "turn_inv w" and run: "tw_cancel w = Some run" and late: "late \<longleftrightarrow> \<not> is_settled (run_token run) (tw_runs w)"
    and open_world: "\<not> tw_closed w"
  shows "turn_inv (snd (cancel_end lim rd ack late w))"
proof -
  let ?w = "w\<lparr>tw_cancel := None\<rparr>"
  have w: "turn_inv ?w" by (rule inv_cancel [OF inv])
  have "turn_inv (cancel_timed_out lim rd run ?w)" if timed_out: late
  proof -
    obtain r where "tracked w = Some r" "run_token r = run_token run" "is_foreground_run r = is_foreground_run run"
      using inv run late timed_out by (auto simp: turn_inv_def core_inv_def cancel_ok_def)
    then show ?thesis by (intro cancel_timed_out_inv [OF w, of r]) (simp_all add: tracked_def agent_id_def open_world)
  qed
  with w inv_quiet [OF cancel_permissions_quiet] run show ?thesis by (simp add: cancel_end_def Let_def)
qed

section \<open>Replacing, steering, permissions\<close>

lemma inv_upd_agent:
  assumes inv: "turn_inv w" and f: "ma_id (f (tw_agent w)) = ma_id (tw_agent w)" "ma_waiters (f (tw_agent w)) = ma_waiters (tw_agent w)"
    "agent_ok (f (tw_agent w))" "run_ok (f (tw_agent w)) (tracked w)" and "\<not> tw_closed w"
  shows "turn_inv (upd_agent f w)"
  using core_agent [of w f] assms by (simp add: turn_inv_def out_ok_def)

lemma run_ok_flags: "run_ok (a\<lparr>ma_pendingReplacement := b, ma_lifecycle := l\<rparr>) run = run_ok a run"
    "run_ok (a\<lparr>ma_pendingReplacement := b\<rparr>) run = run_ok a run"
  by (simp_all add: run_ok_def split: option.splits TrackedAgentRun.splits run_start.splits)

lemma replace_begin_inv:
  assumes inv: "turn_inv w"
  shows "turn_inv (replace_begin rd w)"
proof (cases "tw_closed w")
  case False
  let ?f = "\<lambda>a. a\<lparr>ma_pendingReplacement := True, ma_lifecycle := LifeRunning\<rparr>"
  have "agent_ok (?f (tw_agent w))" "run_ok (?f (tw_agent w)) (tracked w)"
    using inv by (simp_all add: run_ok_flags turn_inv_def core_inv_def) (simp add: agent_ok_def)
  with inv False have "turn_inv (upd_agent ?f w)" by (intro inv_upd_agent) simp_all
  then have "turn_inv (emitState rd True (touch rd (upd_agent ?f w)))" by (rule inv_quiet [rotated]) simp
  then show ?thesis using False by (simp add: replace_begin_def)
qed (use inv in \<open>simp add: replace_begin_def\<close>)

lemma replace_end_inv:
  assumes inv: "turn_inv w" and "\<not> tw_closed w"
  shows "turn_inv (replace_end p c result w)"
proof -
  let ?f = "\<lambda>a. a\<lparr>ma_pendingReplacement := False\<rparr>"
  have "agent_ok (?f (tw_agent w))" "run_ok (?f (tw_agent w)) (tracked w)"
    using inv by (simp_all add: run_ok_flags turn_inv_def core_inv_def) (simp add: agent_ok_def)
  with assms have failed: "turn_inv (upd_agent ?f w)" by (intro inv_upd_agent) simp_all
  show ?thesis
  proof (cases "streamAgent p c w")
    case (Inr w1)
    from stream_prompt_inv [OF inv this] failed Inr show ?thesis by (simp add: replace_end_def Let_def)
  qed (use failed in \<open>simp add: replace_end_def Let_def\<close>)
qed

lemma inv_barrier: "turn_inv w \<Longrightarrow> turn_inv (w\<lparr>tw_barrier := x\<rparr>)"
proof -
  assume inv: "turn_inv w"
  have tracked: "tracked (w\<lparr>tw_barrier := x\<rparr>) = tracked w" by (simp add: tracked_def agent_id_def)
  have "call_ok (w\<lparr>tw_barrier := x\<rparr>) c = call_ok w c" for c using call_ok_same [OF _ _ _ tracked] by simp
  with inv show ?thesis
    by (simp add: turn_inv_def core_inv_def calls_ok_def waiters_ok_def cancel_ok_def closed_ok_def out_ok_def tracked)
qed

lemma inv_queue: "turn_inv w \<Longrightarrow> turn_inv (w\<lparr>tw_queue := x\<rparr>)"
proof -
  assume inv: "turn_inv w"
  have tracked: "tracked (w\<lparr>tw_queue := x\<rparr>) = tracked w" by (simp add: tracked_def agent_id_def)
  have "call_ok (w\<lparr>tw_queue := x\<rparr>) c = call_ok w c" for c using call_ok_same [OF _ _ _ tracked] by simp
  with inv show ?thesis
    by (simp add: turn_inv_def core_inv_def calls_ok_def waiters_ok_def cancel_ok_def closed_ok_def out_ok_def tracked)
qed

lemma steer_begin_inv: "turn_inv w \<Longrightarrow> turn_inv (snd (steer_begin lim rd t w))"
  using inv_quiet [of w "coalescer_flush lim rd w"] by (simp add: steer_begin_def Let_def inv_barrier)

lemma quiet_steer: "quiet w (recordAcceptedSteer lim rd p c t w)"
  by (simp add: recordAcceptedSteer_def split: option.split)

lemma steer_end_inv: "turn_inv w \<Longrightarrow> turn_inv (steer_end lim rd acc p c t w)"
  using inv_quiet [OF quiet_steer, of w lim rd p c t]
  by (simp add: steer_end_def Let_def inv_barrier enqueue_all_inv split: option.split)

lemma permissions_quiet:
  "quiet w (permission_response_begins r w)" "quiet w (response_finally r w)" "quiet w (permission_response_taken lim rd r pending w)"
proof -
  show "quiet w (permission_response_begins r w)" by (simp add: permission_response_begins_def quiet_upd_agent)
  have fin: "quiet u v \<Longrightarrow> quiet u (response_finally r v)" for u v by (simp add: response_finally_def quiet_upd_agent)
  from fin [of w w] show "quiet w (response_finally r w)" by simp
  show "quiet w (permission_response_taken lim rd r pending w)"
    by (simp add: permission_response_taken_def Let_def fin quiet_upd_agent split: option.split)
qed

lemma attention_quiet: "quiet w (clearAgentAttention rd w)"
  by (simp add: clearAgentAttention_def quiet_upd_agent)

section \<open>Closing\<close>

lemma cancelWaiters_length [simp]: "length (cancelWaiters idxs f ss) = length ss"
  by (induction idxs arbitrary: ss) (simp_all add: cancelWaiters_def notify_waiter_def)

lemma settled_when_untracked:
  assumes "core_inv w" "tracked w = None"
  shows "c \<in> set (tw_calls w) \<Longrightarrow> is_settled (ca_token c) (tw_runs w)"
    and "tw_cancel w = Some run \<Longrightarrow> is_settled (run_token run) (tw_runs w)"
  using unsettled_tracked [OF assms(1)] assms by (auto simp: core_inv_def cancel_ok_def)

lemma core_closed:
  assumes core: "core_inv w" and none: "tracked w = None"
    and runs: "tw_runs w' = tw_runs w" and same: "tw_calls w' = tw_calls w" "tw_cancel w' = tw_cancel w"
      "length (tw_streams w') = length (tw_streams w)"
    and agent: "ma_id (tw_agent w') = ma_id (tw_agent w)" "agent_ok (tw_agent w')" "ma_activeForegroundTurnId (tw_agent w') = None"
      "ma_activeTurnId (tw_agent w') = None" "\<not> ma_pendingReplacement (tw_agent w')" "ma_waiters (tw_agent w') = []"
  shows "core_inv w'"
proof -
  have tracked: "tracked w' = None" using none by (simp add: tracked_def agent_id_def runs agent)
  note settled = settled_when_untracked [OF core none]
  have "call_ok w' c" if "c \<in> set (tw_calls w)" for c
    using core that settled(1) [OF that] by (auto simp: core_inv_def calls_ok_def call_ok_def runs same)
  then have "calls_ok w'" using core unfolding core_inv_def calls_ok_def same by blast
  moreover have "cancel_ok w'" using core settled(2) by (auto simp: core_inv_def cancel_ok_def runs same)
  ultimately show ?thesis
    using core agent by (simp add: core_inv_def waiters_ok_def closed_ok_def tracked runs run_ok_def)
qed

lemma prepare_closed:
  assumes inv: "turn_inv w"
  shows "turn_inv (prepareAgentForClosure lim rd reason w)"
proof -
  have core: "core_inv w" "out_ok w" "shown_ok (tw_agent w)" using inv agent_shown by (simp_all add: turn_inv_def core_inv_def)
  obtain flushes co where fl: "flushAndDiscard (tw_coalescer w) (agent_id w) (rd_now rd) = (flushes, co)" by fastforce
  define w1 where "w1 = fold (on_flush lim rd) flushes (w\<lparr>tw_coalescer := co\<rparr>)"
  have "quiet w w1" by (simp add: w1_def)
  then have w1: "core_inv w1" "out_ok w1" using core_kept [OF quiet_kept] quiet_out core by blast+
  define u where "u = upd_runs (clearAgentRun (agent_id w1)) w1"
  have u: "core_inv u" "tracked u = None"
    using w1 core_clear [OF w1(1)]
    by (cases "tracked w1"; simp add: u_def clearAgentRun_def tracked_def upd_runs_def agent_id_def runs)+
  have "core_inv (prepareAgentForClosure lim rd reason w)"
    by (rule core_closed [OF u])
      (simp_all add: prepareAgentForClosure_def fl [unfolded agent_id_def] w1_def [symmetric] Let_def u_def agent_id_def agent_ok_def upd_runs_def)
  moreover have "out_ok (prepareAgentForClosure lim rd reason w)"
    using w1(2) by (simp add: prepareAgentForClosure_def fl w1_def Let_def out_ok_def)
  ultimately show ?thesis by (simp add: turn_inv_def)
qed

lemma close_inv:
  assumes inv: "turn_inv w"
  shows "turn_inv (closeAgentRuntime lim rd w)"
proof (cases "tw_closed w")
  case False
  let ?p = "prepareAgentForClosure lim rd ''agent closed'' w"
  have "quiet ?p (emitState rd False (emit PersistSnapshot ?p))" by simp
  from inv_quiet [OF this prepare_closed [OF inv]] False show ?thesis by (simp add: closeAgentRuntime_def)
qed (use inv in \<open>simp add: closeAgentRuntime_def\<close>)

section \<open>Histories\<close>

text \<open>What is asked of the provider: it names turns, and does not start or accept a turn that has ended.\<close>

definition op_fresh :: "turn_op \<Rightarrow> turn_world \<Rightarrow> bool" where
  "op_fresh op w =
     (case op of
        DequeueEvent rd \<Rightarrow> (case tw_queue w of [] \<Rightarrow> True | ev # _ \<Rightarrow> event_fresh rd w ev)
      | StartResolves _ _ t \<Rightarrow> t \<noteq> [] \<and> t \<notin> set (ma_finalizedTurns (tw_agent w))
      | _ \<Rightarrow> True)"

fun fresh_run :: "(AgentTimelineItem \<Rightarrow> AgentTimelineItem) \<Rightarrow> turn_op list \<Rightarrow> turn_world \<Rightarrow> bool" where
  "fresh_run lim [] w = True"
| "fresh_run lim (op # ops) w = (op_fresh op w \<and> fresh_run lim ops (turn_step lim op w))"

lemma dequeue_inv: "turn_inv w \<Longrightarrow> op_fresh (DequeueEvent rd) w \<Longrightarrow> turn_inv (dequeue_session_event lim rd w)"
  using dispatch_inv [OF inv_queue, of w] by (auto simp: dequeue_session_event_def op_fresh_def event_fresh_def Let_def inv_queue
      started_turn_def split: list.split)

lemma start_resolves_inv:
  assumes "turn_inv w" "i < length (tw_calls w)" "t \<noteq> []" "t \<notin> set (ma_finalizedTurns (tw_agent w))"
  shows "turn_inv (start_resolves lim rd i t w)"
  using accepted_inv [OF assms(1,2) _ _ assms(3,4)] call_threw_inv [OF assms(1,2)] assms by (simp add: start_resolves_def)

lemma start_rejects_inv:
  assumes "turn_inv w" "i < length (tw_calls w)"
  shows "turn_inv (start_rejects lim rd i e w)"
proof (cases "ca_state (tw_calls w ! i) = CallStarting \<and> \<not> is_settled (ca_token (tw_calls w ! i)) (tw_runs w)")
  case True
  with rejected_inv [OF assms] show ?thesis by blast
next
  case False
  with call_threw_inv [OF assms] assms show ?thesis by (auto simp: start_rejects_def)
qed

lemma turn_step_inv:
  assumes inv: "turn_inv w" and fresh: "op_fresh op w"
  shows "turn_inv (turn_step lim op w)"
proof (cases "tw_closed w")
  case True
  with inv fresh call_first_inv call_next_inv call_return_inv start_resolves_inv start_rejects_inv dequeue_inv show ?thesis
    by (cases op) (simp_all add: turn_step_def op_fresh_def)
next
  case False
  have quiet: "quiet w w' \<Longrightarrow> turn_inv w'" for w' using inv inv_quiet by blast
  show ?thesis
  proof (cases op)
    case (CancelEnd rd ack late)
    then show ?thesis
      using inv False cancel_end_inv [OF inv, of _ late lim rd ack] by (cases "tw_cancel w") (simp_all add: turn_step_def)
  next
    case (StreamPrompt p c)
    then show ?thesis using inv False stream_prompt_inv [OF inv] by (cases "streamAgent p c w") (simp_all add: turn_step_def)
  qed (use inv fresh False quiet [OF permissions_quiet(1)] quiet [OF permissions_quiet(3)] quiet [OF permissions_quiet(2)]
        quiet [OF attention_quiet] quiet [of "coalescer_timer lim _ _ w"] close_inv steer_end_inv steer_begin_inv replace_end_inv
        replace_begin_inv cancel_begin_inv call_first_inv call_next_inv call_return_inv start_resolves_inv start_rejects_inv
        dequeue_inv enqueue_inv in
      \<open>simp_all add: turn_step_def op_fresh_def permission_response_throws_def\<close>)
qed

lemma turn_run_inv: "turn_inv w \<Longrightarrow> fresh_run lim ops w \<Longrightarrow> turn_inv (turn_run lim ops w)"
  by (induction ops arbitrary: w) (simp_all add: turn_run_def turn_step_inv)

lemma new_world_inv: "turn_inv (new_turn_world (new_agent i p now) timeline)"
  by (simp add: turn_inv_def core_inv_def new_turn_world_def new_agent_def agent_ok_def run_ok_def tracked_def new_run_state_def
      getRun_def runs_ok_new [unfolded new_run_state_def] calls_ok_def waiters_ok_def cancel_ok_def closed_ok_def out_ok_def)

end
