(* ===== verification/AgentTurnTheorems.thy ===== *)
theory AgentTurnTheorems
  imports AgentTurnHistory
begin

text \<open>
  The theorems on the turns of an agent: what its states show, the end of a turn and how it reaches the caller, and the
  cancellation of a run; and what a terminal event that does not name its turn leaves behind.
\<close>

section \<open>An example history\<close>

definition example_readings :: readings where
  "example_readings = \<lparr>rd_now = 5, rd_iso = ''now'', rd_uuid = ''u'', rd_describe = None, rd_durableLast = None\<rparr>"

definition example_world :: turn_world where
  "example_world = new_turn_world (new_agent ''a'' ''p'' 0) (seed_state no_seed ''e'' ''now'')"

definition completed :: "string option \<Rightarrow> AgentEvent" where
  "completed t = \<lparr>ae_provider = ''p'', ae_turnId = t, ae_body = TurnCompleted None\<rparr>"

text \<open>A prompt is sent, its turn is accepted, and then something happens.\<close>

definition example_ops :: "turn_op \<Rightarrow> turn_op list" where
  "example_ops op = [StreamPrompt ''go'' None, CallFirst 0, StartResolves example_readings 0 ''t'', op]"

definition running_agent :: "nat list \<Rightarrow> ManagedAgent" where
  "running_agent ws = (new_agent ''a'' ''p'' 0)\<lparr>ma_lifecycle := LifeRunning, ma_activeForegroundTurnId := Some ''t'',
     ma_activeTurnId := Some ''t'', ma_activeTurnStartedAt := Some 5, ma_updatedAt := 5, ma_waiters := ws\<rparr>"

definition running_world :: "AgentEvent list \<Rightarrow> turn_world" where
  "running_world q = example_world\<lparr>tw_agent := running_agent [0],
     tw_runs := \<lparr>rs_runs = [(''a'', PendingForegroundRun 0 [] (StartStarted ''t''))], rs_settled = [], rs_created = 1\<rparr>,
     tw_streams := [new_stream ''t''],
     tw_calls := [\<lparr>ca_token = 0, ca_isReplacement = False, ca_prompt = ''go'', ca_clientMessageId = None, ca_state = CallStreaming 0\<rparr>],
     tw_queue := q, tw_previousStatus := Some LifeRunning,
     tw_out := [AgentStreamEventOf \<lparr>ae_provider = ''p'', ae_turnId = Some ''t'', ae_body = TurnStarted\<rparr> None, PersistSnapshot,
        AgentStateEvent (running_agent [])]\<rparr>"

lemmas example_steps = turn_step_def map_has_def set_run_start_def openActiveTurn_def touch_def touchUpdatedAt_def dispatchStream_def
  emit_def limitAgentStreamEventContent_def turn_started_event_def staged_events_def echo_index_def replayed_def upd_runs_def
  clear_staged_def emitState_def checkAndSetAttention_def new_stream_def streamAgent_def active_foreground_def truthy_def
  createPendingRun_def new_run_state_def put_run_def hasRun_def agent_id_def upd_agent_def Let_def call_first_def set_call_def
  start_resolves_def is_settled_def start_accepted_def getRun_def

lemmas example_worlds = example_world_def new_turn_world_def new_agent_def running_world_def running_agent_def

lemma example_prompt:
  "turn_step id (CallFirst 0) (turn_step id (StreamPrompt ''go'' None) example_world) = example_world\<lparr>
     tw_runs := \<lparr>rs_runs = [(''a'', PendingForegroundRun 0 [] StartPending)], rs_settled = [], rs_created = 1\<rparr>,
     tw_calls := [\<lparr>ca_token = 0, ca_isReplacement = False, ca_prompt = ''go'', ca_clientMessageId = None, ca_state = CallStarting\<rparr>]\<rparr>"
  by (simp add: example_steps example_worlds)

lemma example_accepted:
  "turn_step id (StartResolves example_readings 0 ''t'') (turn_step id (CallFirst 0) (turn_step id (StreamPrompt ''go'' None) example_world))
     = running_world []"
  unfolding example_prompt by (simp add: example_steps example_worlds example_readings_def)

lemma example_run: "turn_run id (example_ops op) example_world = turn_step id op (running_world [])"
  by (simp add: turn_run_def example_ops_def example_accepted)

lemma example_event: "turn_step id (SessionEmits ev) (running_world []) = running_world [ev]"
  by (simp add: turn_step_def enqueueSessionEvent_def running_world_def example_world_def new_turn_world_def getRun_def agent_id_def)

lemma example_cancel:
  "turn_step id CancelBegin (running_world []) = (running_world [])\<lparr>tw_cancel := Some (PendingForegroundRun 0 [] (StartStarted ''t''))\<rparr>"
  by (simp add: turn_step_def cancel_begin_def running_world_def example_world_def new_turn_world_def getRun_def agent_id_def
      running_agent_def new_agent_def)

lemma example_fresh: "fresh_run id (example_ops (SessionEmits ev)) example_world" "fresh_run id (example_ops CancelBegin) example_world"
  unfolding example_ops_def fresh_run.simps example_prompt
  by (simp_all add: op_fresh_def example_world_def new_turn_world_def new_agent_def)

lemma example_call:
  "0 < length (tw_calls (running_world q))" "ca_state (tw_calls (running_world q) ! 0) = CallStreaming 0"
  "\<not> is_settled (ca_token (tw_calls (running_world q) ! 0)) (tw_runs (running_world q))"
  "ma_activeForegroundTurnId (tw_agent (running_world q)) = Some ''t''" "isTurnTerminalEvent (completed x)"
  by (simp_all add: running_world_def running_agent_def is_settled_def completed_def isTurnTerminalEvent_def is_terminal_body_def)

section \<open>Consistent states\<close>

lemma reached_inv: "fresh_run lim ops (new_turn_world (new_agent i p now) timeline)
    \<Longrightarrow> turn_inv (turn_run lim ops (new_turn_world (new_agent i p now) timeline))"
  using turn_run_inv [OF new_world_inv] .

lemma one_prompt:
  assumes core: "core_inv w" and c: "c \<in> set (tw_calls w)" "d \<in> set (tw_calls w)"
    "\<not> is_settled (ca_token c) (tw_runs w)" "\<not> is_settled (ca_token d) (tw_runs w)"
  shows "ca_token c = ca_token d"
  using unsettled_tracked [OF core c(1,3)] token_unique [OF core c(1,3)] token_unique [OF core c(2,4)] by fastforce

text \<open>C13. An agent's states are consistent in every history of prompts, replacements, steerings, cancellations, permissions,
  session events and closings, in which the provider names its turns and does not restart one that has ended: while the turn of
  a prompt is open the agent is running and this is its active turn, at most one prompt has a run that has not settled, and every
  state told to subscribers shows an agent with a prompt's turn as running, and an agent whose turn is being replaced as running
  or failed, never as idle.\<close>
theorem agent_states_consistent:
  assumes "fresh_run lim ops (new_turn_world (new_agent i p now) timeline)"
    and "w = turn_run lim ops (new_turn_world (new_agent i p now) timeline)"
  shows "(\<forall>t. ma_activeForegroundTurnId (tw_agent w) = Some t \<longrightarrow>
            ma_lifecycle (tw_agent w) = LifeRunning \<and> ma_activeTurnId (tw_agent w) = Some t)
    \<and> (\<forall>c\<in>set (tw_calls w). \<forall>d\<in>set (tw_calls w). \<not> is_settled (ca_token c) (tw_runs w) \<longrightarrow>
         \<not> is_settled (ca_token d) (tw_runs w) \<longrightarrow> ca_token c = ca_token d)
    \<and> (\<forall>a. AgentStateEvent a \<in> set (tw_out w) \<longrightarrow>
         (ma_activeForegroundTurnId a \<noteq> None \<longrightarrow> ma_lifecycle a = LifeRunning)
         \<and> (ma_pendingReplacement a \<longrightarrow> ma_lifecycle a = LifeRunning \<or> ma_lifecycle a = LifeError))"
proof -
  have inv: "core_inv w" "out_ok w" using reached_inv [OF assms(1)] assms(2) by (simp_all add: turn_inv_def)
  moreover have "agent_ok (tw_agent w)" using inv(1) by (simp add: core_inv_def)
  ultimately show ?thesis using one_prompt [OF inv(1)] by (auto simp: agent_ok_def out_ok_def shown_ok_def)
qed

lemma agent_states_consistent_witness:
  "ma_lifecycle (tw_agent (turn_run id (example_ops (SessionEmits (completed None))) example_world)) = LifeRunning"
  using agent_states_consistent [OF example_fresh(1) [of "completed None", unfolded example_world_def] refl]
  unfolding example_world_def [symmetric] example_run example_event by (simp add: running_world_def running_agent_def)

section \<open>The end of a turn\<close>

text \<open>The resumptions of a prompt are those of its stream, until the stream ends.\<close>

lemma call_next_run:
  assumes "k < length (tw_calls w)" "ca_state (tw_calls w ! k) = CallStreaming j" "j < length (tw_streams w)"
    "\<not> ts_finished (tw_streams w ! j)"
  shows "let w2 = (turn_step lim (CallNext k) ^^ n) w; s = (stream_next isTurnTerminalEvent ^^ n) (tw_streams w ! j)
    in k < length (tw_calls w2) \<and> j < length (tw_streams w2) \<and> ts_received (tw_streams w2 ! j) = ts_received s
       \<and> (if ts_finished s then ca_state (tw_calls w2 ! k) = CallEnded
          else ca_state (tw_calls w2 ! k) = CallStreaming j \<and> tw_streams w2 ! j = s)"
proof (induction n)
  case 0
  with assms show ?case by simp
next
  case (Suc n)
  define v where "v = (turn_step lim (CallNext k) ^^ n) w"
  define s where "s = (stream_next isTurnTerminalEvent ^^ n) (tw_streams w ! j)"
  have IH: "k < length (tw_calls v)" "j < length (tw_streams v)" "ts_received (tw_streams v ! j) = ts_received s"
      "if ts_finished s then ca_state (tw_calls v ! k) = CallEnded else ca_state (tw_calls v ! k) = CallStreaming j \<and> tw_streams v ! j = s"
    using Suc.IH unfolding v_def [symmetric] s_def [symmetric] by (simp_all add: Let_def)
  have step: "turn_step lim (CallNext k) v = call_next k v" using IH(1) by (simp add: turn_step_def)
  show ?case
  proof (cases "ts_finished s")
    case True
    then have "call_next k v = v" "stream_next isTurnTerminalEvent s = s" using IH(4) by (simp_all add: call_next_def stream_next_def)
    with IH True show ?thesis by (simp add: v_def [symmetric] s_def [symmetric] Let_def step)
  next
    case False
    with IH show ?thesis
      by (simp add: v_def [symmetric] s_def [symmetric] Let_def step call_next_def call_finally_def set_call_def upd_runs_def
          upd_agent_def settleWaiter_def)
  qed
qed

text \<open>The prompt of an open foreground turn is streaming it, and its stream is told of the end.\<close>

lemma streaming_turn:
  assumes core: "core_inv w" and t: "ma_activeForegroundTurnId (tw_agent w) = Some t" and c: "c \<in> set (tw_calls w)"
    "ca_state c = CallStreaming j" "\<not> is_settled (ca_token c) (tw_runs w)"
  shows "j < length (tw_streams w)" "\<not> ts_settled (tw_streams w ! j)" "j \<in> set (agent_waiters (Some t) w)"
    "tracked w = Some (PendingForegroundRun (ca_token c) es st) \<Longrightarrow> st = StartStarted t"
    "\<exists>es. tracked w = Some (PendingForegroundRun (ca_token c) es (StartStarted t))"
proof -
  have "call_ok w c" using core c by (simp add: core_inv_def calls_ok_def)
  then obtain es where j: "j < length (tw_streams w)" "j \<in> set (ma_waiters (tw_agent w))" "\<not> ts_settled (tw_streams w ! j)"
      "tracked w = Some (PendingForegroundRun (ca_token c) es (StartStarted (ts_turnId (tw_streams w ! j))))"
    using c by (auto simp: call_ok_def)
  then have turn: "ts_turnId (tw_streams w ! j) = t" using core t by (simp add: core_inv_def run_ok_def)
  then show "j < length (tw_streams w)" "\<not> ts_settled (tw_streams w ! j)" "j \<in> set (agent_waiters (Some t) w)"
    "tracked w = Some (PendingForegroundRun (ca_token c) es st) \<Longrightarrow> st = StartStarted t" for es st
    using j by (auto simp: agent_waiters_def getMatchingWaiters_def)
  show "\<exists>es. tracked w = Some (PendingForegroundRun (ca_token c) es (StartStarted t))" using j(4) turn by blast
qed

lemma foreground_end:
  assumes inv: "turn_inv w" and t: "ma_activeForegroundTurnId (tw_agent w) = Some t" and ev: "isTurnTerminalEvent ev"
    "ae_turnId ev = Some t \<or> ae_turnId ev = None" and k: "tracked w = Some (PendingForegroundRun k es (StartStarted t))"
  obtains w1 where "list_all2 stream_kept (tw_streams w) (tw_streams w1)" "dispatchSessionEvent lim rd ev w =
       w1\<lparr>tw_streams := notifyWaiters (agent_waiters (ae_turnId ev) w) ev True (tw_streams w1)\<rparr>"
    "ma_activeForegroundTurnId (tw_agent w1) = None" "ma_activeTurnId (tw_agent w1) = None" "tracked w1 = None"
    "ma_lifecycle (tw_agent w1) = (if truthy (failure (ae_body ev)) \<noteq> None then LifeError
        else if ma_pendingReplacement (tw_agent w) then LifeRunning else LifeIdle)"
    "tw_calls w1 = tw_calls w" "is_settled k (tw_runs w1)" "tw_closed w1 = tw_closed w" "agent_id w1 = agent_id w"
proof -
  have core: "core_inv w" using inv by (simp add: turn_inv_def)
  then have turn: "ma_activeTurnId (tw_agent w) = Some t" "t \<noteq> []" "t \<notin> set (ma_finalizedTurns (tw_agent w))"
    using t by (auto simp: core_inv_def agent_ok_def)
  have tt: "terminal_turn (tw_agent w) ev = Some t" using ev(2) t by (auto simp: terminal_turn_def current_turn_def)
  have fresh: "event_fresh rd w ev" using ev turn by (auto simp: event_fresh_def isTurnTerminalEvent_def is_terminal_body_def)
  obtain w1 where w1: "kept (ended_world (ae_body ev) (Some t) w) w1" "dispatchSessionEvent lim rd ev w =
       w1\<lparr>tw_streams := notifyWaiters (agent_waiters (ae_turnId ev) w) ev True (tw_streams w1)\<rparr>"
    using dispatch_terminal [OF inv ev(1) fresh, of lim] turn unfolding tt by blast
  let ?e = "ended_view (ae_body ev) (Some t) (tw_agent w)"
  have e: "ma_activeForegroundTurnId ?e = None" "ma_activeTurnId ?e = None" "ma_lifecycle ?e = (if truthy (failure (ae_body ev)) \<noteq> None then LifeError
        else if ma_pendingReplacement (tw_agent w) then LifeRunning else LifeIdle)"
    using ended_foreground [OF turn(1) t turn(2), of "ae_body ev"] by simp_all
  have cleared: "settleTerminalRun (agent_id w) (Some t) (tw_runs w) = clearRun (agent_id w) (PendingForegroundRun k es (StartStarted t)) (tw_runs w)"
    using k by (simp add: settleTerminalRun_def tracked_def)
  have view: "turn_view (tw_agent w1) = turn_view ?e" and same: "tw_runs w1 = clearRun (agent_id w) (PendingForegroundRun k es (StartStarted t)) (tw_runs w)"
      "tw_calls w1 = tw_calls w" "list_all2 stream_kept (tw_streams w) (tw_streams w1)" "tw_closed w1 = tw_closed w"
    using w1(1) unfolding kept_iff by (simp_all add: ended_world_def cleared)
  then have "agent_id w1 = agent_id w" by (simp add: agent_id_def)
  with that [OF same(3) w1(2)] view e same show ?thesis by (simp add: tracked_def is_settled_def runs)
qed

text \<open>C14. The end of a turn reaches its caller. In every such history, when the session's next event ends the turn of a prompt
  whose caller is still reading, handling it frees the agent: no turn is active, no run is tracked, the run of the prompt has
  settled and the agent is idle, failed, or kept running for the replacement that waits for it; and the caller, who need only keep
  reading, gets the event as its last one and its stream ends.\<close>
theorem turn_end_reaches_caller:
  assumes "fresh_run lim ops (new_turn_world (new_agent i p now) timeline)"
    and w: "w = turn_run lim ops (new_turn_world (new_agent i p now) timeline)" "w' = turn_step lim (DequeueEvent rd) w"
    and ev: "tw_queue w = ev # rest" "isTurnTerminalEvent ev" "ae_turnId ev = Some t" "ma_activeForegroundTurnId (tw_agent w) = Some t"
    and c: "k < length (tw_calls w)" "ca_state (tw_calls w ! k) = CallStreaming j" "\<not> is_settled (ca_token (tw_calls w ! k)) (tw_runs w)"
    and n: "n \<ge> length (ts_queue (tw_streams w' ! j)) + 2" and w2: "w2 = (turn_step lim (CallNext k) ^^ n) w'"
  shows "ma_activeForegroundTurnId (tw_agent w') = None \<and> ma_activeTurnId (tw_agent w') = None
    \<and> getRun (agent_id w') (tw_runs w') = None \<and> is_settled (ca_token (tw_calls w' ! k)) (tw_runs w')
    \<and> ma_lifecycle (tw_agent w') = (if truthy (failure (ae_body ev)) \<noteq> None then LifeError
         else if ma_pendingReplacement (tw_agent w) then LifeRunning else LifeIdle)
    \<and> ca_state (tw_calls w2 ! k) = CallEnded \<and> last (ts_received (tw_streams w2 ! j)) = ev"
proof -
  have inv: "turn_inv w" using reached_inv [OF assms(1)] w(1) by simp
  have open_world: "\<not> tw_closed w" using inv ev(4) by (auto simp: turn_inv_def core_inv_def closed_ok_def)
  define v where "v = w\<lparr>tw_queue := rest\<rparr>"
  have v: "turn_inv v" "ma_activeForegroundTurnId (tw_agent v) = Some t" "tw_calls v = tw_calls w" "\<not> is_settled (ca_token (tw_calls v ! k)) (tw_runs v)"
    using inv_queue [OF inv] ev c by (simp_all add: v_def)
  have core: "core_inv v" using v(1) by (simp add: turn_inv_def)
  have w': "w' = dispatchSessionEvent lim rd ev v"
    using open_world ev(1) by (simp add: w turn_step_def dequeue_session_event_def v_def Let_def)
  have mem: "tw_calls v ! k \<in> set (tw_calls v)" "ca_state (tw_calls v ! k) = CallStreaming j" using c by (simp_all add: v_def)
  note s = streaming_turn [OF core v(2) mem v(4)]
  obtain es where tracked: "tracked v = Some (PendingForegroundRun (ca_token (tw_calls v ! k)) es (StartStarted t))" using s(5) by blast
  obtain w1 where w1: "list_all2 stream_kept (tw_streams v) (tw_streams w1)"
      "w' = w1\<lparr>tw_streams := notifyWaiters (agent_waiters (Some t) v) ev True (tw_streams w1)\<rparr>"
      "ma_activeForegroundTurnId (tw_agent w1) = None" "ma_activeTurnId (tw_agent w1) = None" "tracked w1 = None"
      "ma_lifecycle (tw_agent w1) = (if truthy (failure (ae_body ev)) \<noteq> None then LifeError
         else if ma_pendingReplacement (tw_agent v) then LifeRunning else LifeIdle)"
      "tw_calls w1 = tw_calls v" "is_settled (ca_token (tw_calls v ! k)) (tw_runs w1)"
    using foreground_end [OF v(1,2) ev(2) _ tracked, of lim rd] ev(3) unfolding w' by metis
  have distinct: "distinct (agent_waiters (Some t) v)" using core by (simp add: agent_waiters_def matching_distinct core_inv_def agent_ok_def)
  define s0 where "s0 = tw_streams w1 ! j"
  have len: "j < length (tw_streams w1)" using w1(1) s(1) by (simp add: list_all2_lengthD [symmetric])
  have s0: "stream_ok isTurnTerminalEvent s0" "\<not> ts_settled s0"
  proof -
    have "stream_ok isTurnTerminalEvent (tw_streams v ! j)" using core agent_waiters_open [OF s(3)] by (simp add: core_inv_def waiters_ok_def)
    with w1(1) s(1,2) show "stream_ok isTurnTerminalEvent s0" "\<not> ts_settled s0"
      by (auto simp: s0_def list_all2_conv_all_nth stream_kept_def)
  qed
  let ?s = "tw_streams w' ! j"
  have stream: "?s = settleWaiter (waiter_callback ev s0)" using notify_last [OF distinct len, of ev] s(3) by (simp add: w1(2) s0_def)
  have ok: "stream_ok isTurnTerminalEvent ?s" "ts_settled ?s" "\<not> ts_finished ?s" "last (ts_received ?s @ ts_queue ?s) = ev"
    unfolding stream using hand_last_ok [OF s0 ev(2)] s0 by (simp_all add: settleWaiter_def waiter_callback_def wake_def stream_ok_def)
  have drained: "ts_finished ((stream_next isTurnTerminalEvent ^^ n) ?s)" "ts_received ((stream_next isTurnTerminalEvent ^^ n) ?s) = ts_received ?s @ ts_queue ?s"
    using settled_drains [OF ok(1,2) n] by simp_all
  have "k < length (tw_calls w')" "ca_state (tw_calls w' ! k) = CallStreaming j" "j < length (tw_streams w')"
    using c w1(7) len by (simp_all add: w1(2) v_def)
  from call_next_run [OF this ok(3), of n lim] drained ok(4)
  have "ca_state (tw_calls w2 ! k) = CallEnded" "last (ts_received (tw_streams w2 ! j)) = ev" by (simp_all add: Let_def w2)
  moreover have "tracked w' = None" using w1(5) by (simp add: w1(2) tracked_def agent_id_def)
  ultimately show ?thesis using w1(3,4,6,7,8) unfolding tracked_def by (simp add: w1(2) v_def)
qed

lemma turn_end_reaches_caller_witness:
  "ma_lifecycle (tw_agent (turn_step id (DequeueEvent example_readings) (running_world [completed (Some ''t'')]))) = LifeIdle"
proof -
  let ?ev = "completed (Some ''t'')"
  have w: "running_world [?ev] = turn_run id (example_ops (SessionEmits ?ev)) example_world" by (simp add: example_run example_event)
  have ev: "tw_queue (running_world [?ev]) = ?ev # []" "ae_turnId ?ev = Some ''t''" "truthy (failure (ae_body ?ev)) = None"
      "\<not> ma_pendingReplacement (tw_agent (running_world [?ev]))"
    by (simp_all add: running_world_def completed_def running_agent_def failure_def truthy_def new_agent_def)
  from turn_end_reaches_caller [OF example_fresh(1) [of ?ev, unfolded example_world_def] w [unfolded example_world_def]
      refl ev(1) example_call(5) ev(2) example_call(4,1-3) order_refl refl, of example_readings] ev(3,4)
  show ?thesis by simp
qed

text \<open>C40. A terminal event that does not name its turn strands the caller. In every such history, when the session ends the turn of
  a prompt with an event that carries no turn id, handling it ends the turn, since the manager attaches the id of the current turn,
  and settles the run; but the streams to notify are looked up by the id the event came with, so the caller's stream is neither
  given the event nor settled, and the caller waits on it however often it reads.\<close>
theorem untagged_end_strands_caller:
  assumes "fresh_run lim ops (new_turn_world (new_agent i p now) timeline)"
    and w: "w = turn_run lim ops (new_turn_world (new_agent i p now) timeline)" "w' = turn_step lim (DequeueEvent rd) w"
    and ev: "tw_queue w = ev # rest" "isTurnTerminalEvent ev" "ae_turnId ev = None" "ma_activeForegroundTurnId (tw_agent w) = Some t"
    and c: "k < length (tw_calls w)" "ca_state (tw_calls w ! k) = CallStreaming j" "\<not> is_settled (ca_token (tw_calls w ! k)) (tw_runs w)"
  shows "ma_activeForegroundTurnId (tw_agent w') = None \<and> is_settled (ca_token (tw_calls w' ! k)) (tw_runs w')
    \<and> \<not> ts_settled (tw_streams w' ! j) \<and> ca_state (tw_calls ((turn_step lim (CallNext k) ^^ n) w') ! k) = CallStreaming j"
proof -
  have inv: "turn_inv w" using reached_inv [OF assms(1)] w(1) by simp
  have open_world: "\<not> tw_closed w" using inv ev(4) by (auto simp: turn_inv_def core_inv_def closed_ok_def)
  define v where "v = w\<lparr>tw_queue := rest\<rparr>"
  have v: "turn_inv v" "ma_activeForegroundTurnId (tw_agent v) = Some t" "tw_calls v = tw_calls w" "\<not> is_settled (ca_token (tw_calls v ! k)) (tw_runs v)"
    using inv_queue [OF inv] ev c by (simp_all add: v_def)
  have core: "core_inv v" using v(1) by (simp add: turn_inv_def)
  have mem: "tw_calls v ! k \<in> set (tw_calls v)" "ca_state (tw_calls v ! k) = CallStreaming j" using c by (simp_all add: v_def)
  note s = streaming_turn [OF core v(2) mem v(4)]
  obtain es where tracked: "tracked v = Some (PendingForegroundRun (ca_token (tw_calls v ! k)) es (StartStarted t))" using s(5) by blast
  have w': "w' = dispatchSessionEvent lim rd ev v"
    using open_world ev(1) by (simp add: w turn_step_def dequeue_session_event_def v_def Let_def)
  obtain w1 where w1: "list_all2 stream_kept (tw_streams v) (tw_streams w1)" "w' = w1"
      "ma_activeForegroundTurnId (tw_agent w1) = None" "tw_calls w1 = tw_calls v" "is_settled (ca_token (tw_calls v ! k)) (tw_runs w1)"
  proof (rule foreground_end [OF v(1,2) ev(2) _ tracked, of lim rd])
    show "ae_turnId ev = Some t \<or> ae_turnId ev = None" using ev(3) by simp
  qed (use ev(3) w' that in auto)
  have "stream_ok isTurnTerminalEvent (tw_streams v ! j)" using core agent_waiters_open [OF s(3)] by (simp add: core_inv_def waiters_ok_def)
  with w1(1) s(1,2) have ok: "stream_ok isTurnTerminalEvent (tw_streams w' ! j)" "\<not> ts_settled (tw_streams w' ! j)" "j < length (tw_streams w')"
    by (auto simp: w1(2) list_all2_conv_all_nth stream_kept_def)
  have waits: "stream_ok isTurnTerminalEvent ((stream_next isTurnTerminalEvent ^^ n) (tw_streams w' ! j))
      \<and> \<not> ts_settled ((stream_next isTurnTerminalEvent ^^ n) (tw_streams w' ! j))"
    using ok by (induction n) (simp_all add: next_ok)
  then have "\<not> ts_finished ((stream_next isTurnTerminalEvent ^^ n) (tw_streams w' ! j))" by (auto simp: stream_ok_def)
  moreover have "\<not> ts_finished (tw_streams w' ! j)" using ok by (auto simp: stream_ok_def)
  moreover have "k < length (tw_calls w')" "ca_state (tw_calls w' ! k) = CallStreaming j" using c w1(4) by (simp_all add: w1(2) v_def)
  ultimately have "ca_state (tw_calls ((turn_step lim (CallNext k) ^^ n) w') ! k) = CallStreaming j"
    using call_next_run [where lim = lim and n = n, of k w' j] ok(3) by (simp add: Let_def)
  with ok(2) w1(3,5) show ?thesis by (simp add: w1(2,4) v_def)
qed

lemma untagged_end_strands_caller_witness:
  "\<not> ts_settled (tw_streams (turn_step id (DequeueEvent example_readings) (running_world [completed None])) ! 0)"
proof -
  let ?ev = "completed None"
  have w: "running_world [?ev] = turn_run id (example_ops (SessionEmits ?ev)) example_world" by (simp add: example_run example_event)
  have ev: "tw_queue (running_world [?ev]) = ?ev # []" "ae_turnId ?ev = None" by (simp_all add: running_world_def completed_def)
  from untagged_end_strands_caller [OF example_fresh(1) [of ?ev, unfolded example_world_def] w [unfolded example_world_def]
      refl ev(1) example_call(5) ev(2) example_call(4,1-3), of example_readings]
  show ?thesis by simp
qed

section \<open>Cancelling\<close>

lemma autonomous_end:
  assumes inv: "turn_inv w" and r: "tracked w = Some (AutonomousAgentRun k x)"
  shows "is_settled k (tw_runs (dispatchSessionEvent lim rd (canceled_event w x) w))"
    "tracked (dispatchSessionEvent lim rd (canceled_event w x) w) = None"
proof -
  have core: "core_inv w" using inv by (simp add: turn_inv_def)
  let ?ev = "canceled_event w x" and ?t = "terminal_turn (tw_agent w) (canceled_event w x)"
  have x: "x \<noteq> Some []" using core r by (auto simp: core_inv_def run_ok_def)
  have unfinished: "y \<notin> set (ma_finalizedTurns (tw_agent w))" if "?t = Some y" for y
    using that core r by (cases x) (auto simp: terminal_turn_def canceled_event_def core_inv_def agent_ok_def run_ok_def
        current_turn_def split: option.splits)
  obtain w1 where w1: "kept (ended_world (ae_body ?ev) ?t w) w1" "dispatchSessionEvent lim rd ?ev w =
       w1\<lparr>tw_streams := notifyWaiters (agent_waiters (ae_turnId ?ev) w) ?ev True (tw_streams w1)\<rparr>"
    using dispatch_terminal [OF inv canceled_terminal canceled_fresh [OF x] unfinished, of lim rd] by blast
  have ends: "ends_run ?t (AutonomousAgentRun k x)" by (cases x) (simp_all add: terminal_turn_def canceled_event_def)
  have runs: "tw_runs w1 = settleTerminalRun (agent_id w) ?t (tw_runs w)" "agent_id w1 = agent_id w"
    using w1(1) unfolding kept_iff by (simp_all add: ended_world_def agent_id_def)
  show "is_settled k (tw_runs (dispatchSessionEvent lim rd ?ev w))" "tracked (dispatchSessionEvent lim rd ?ev w) = None"
    using r ends runs settle_tracked [of "agent_id w" ?t "tw_runs w"] settle_settled(1) [of "agent_id w" ?t "tw_runs w"]
    unfolding w1(2) by (simp_all add: is_settled_def tracked_def agent_id_def)
qed

lemma timed_out_settles:
  assumes inv: "turn_inv w" and r: "tracked w = Some r" "run_token r = run_token run" "is_foreground_run r = is_foreground_run run"
  shows "is_settled (run_token run) (tw_runs (cancel_timed_out lim rd run w)) \<and> tracked (cancel_timed_out lim rd run w) = None
    \<and> (is_foreground_run run \<longrightarrow> ma_activeForegroundTurnId (tw_agent (cancel_timed_out lim rd run w)) = None
         \<and> (\<not> ma_pendingReplacement (tw_agent w) \<longrightarrow> ma_lifecycle (tw_agent (cancel_timed_out lim rd run w)) = LifeIdle))"
proof -
  have core: "core_inv w" using inv by (simp add: turn_inv_def)
  show ?thesis
  proof (cases r)
    case (AutonomousAgentRun k x)
    then have own: "\<not> is_foreground_run run" "run_token run = k" using r by (simp_all add: is_foreground_run_def)
    have "truthy (getTurnId (agent_id w) (tw_runs w)) = x"
      using core r AutonomousAgentRun by (cases x) (auto simp: core_inv_def run_ok_def tracked_def truthy_def getTurnId_def)
    then have "cancel_timed_out lim rd run w = dispatchSessionEvent lim rd (canceled_event w x) w"
      using own by (cases x) (simp_all add: cancel_timed_out_def)
    with autonomous_end [OF inv r(1) [unfolded AutonomousAgentRun], of lim rd] own show ?thesis by simp
  next
    case (PendingForegroundRun k es start)
    then have fg: "is_foreground_run run" "run_token run = k" using r by (simp_all add: is_foreground_run_def)
    show ?thesis
    proof (cases start)
      case (StartStarted t)
      then have t: "ma_activeForegroundTurnId (tw_agent w) = Some t" "t \<noteq> []" "getTurnId (agent_id w) (tw_runs w) = Some t"
        using core r PendingForegroundRun by (auto simp: core_inv_def run_ok_def agent_ok_def tracked_def getTurnId_def)
      then have eq: "cancel_timed_out lim rd run w = dispatchSessionEvent lim rd (canceled_event w (Some t)) w"
        by (simp add: cancel_timed_out_def truthy_def)
      have "ae_turnId (canceled_event w (Some t)) = Some t \<or> ae_turnId (canceled_event w (Some t)) = None"
        by (simp add: canceled_event_def)
      from foreground_end [OF inv t(1) canceled_terminal this r(1) [unfolded PendingForegroundRun StartStarted], of lim rd]
      obtain w1 where w1: "dispatchSessionEvent lim rd (canceled_event w (Some t)) w =
          w1\<lparr>tw_streams := notifyWaiters (agent_waiters (ae_turnId (canceled_event w (Some t))) w) (canceled_event w (Some t)) True (tw_streams w1)\<rparr>"
          "ma_activeForegroundTurnId (tw_agent w1) = None" "tracked w1 = None" "is_settled k (tw_runs w1)"
          "ma_lifecycle (tw_agent w1) = (if truthy (failure (ae_body (canceled_event w (Some t)))) \<noteq> None then LifeError
              else if ma_pendingReplacement (tw_agent w) then LifeRunning else LifeIdle)"
        by metis
      have "tracked (dispatchSessionEvent lim rd (canceled_event w (Some t)) w) = None"
        using w1(3) unfolding w1(1) by (simp add: tracked_def agent_id_def)
      moreover have "failure (ae_body (canceled_event w (Some t))) = None" by (simp add: canceled_event_def failure_def)
      ultimately show ?thesis using w1 fg unfolding eq by (simp add: truthy_def)
    next
      case StartPending
      have none: "ma_activeForegroundTurnId (tw_agent w) = None" "truthy (getTurnId (agent_id w) (tw_runs w)) = None"
        using core r PendingForegroundRun StartPending by (auto simp: core_inv_def run_ok_def tracked_def getTurnId_def truthy_def)
      let ?v = "upd_runs (settleForegroundRun (agent_id w) k) w"
      have v: "tracked ?v = None" "is_settled k (tw_runs ?v)"
        using r PendingForegroundRun fg by (simp_all add: settleForegroundRun_def tracked_def runs agent_id_def is_settled_def)
      show ?thesis
      proof (cases "ma_pendingReplacement (tw_agent w)")
        case True
        with v none fg show ?thesis by (simp add: cancel_timed_out_def Let_def)
      next
        case False
        let ?u = "upd_agent (\<lambda>a. a\<lparr>ma_lifecycle := LifeIdle\<rparr>) ?v"
        have eq: "cancel_timed_out lim rd run w = emitState rd True (touch rd ?u)"
          using False none fg by (simp add: cancel_timed_out_def Let_def)
        have q: "quiet ?u (emitState rd True (touch rd ?u))" by simp
        then have "turn_view (tw_agent (emitState rd True (touch rd ?u))) = turn_view (tw_agent ?u)"
            "tw_runs (emitState rd True (touch rd ?u)) = tw_runs ?u" by (simp_all only: quiet_def)
        moreover have "tracked ?u = None" using v by (simp add: tracked_def agent_id_def upd_runs_def)
        ultimately show ?thesis using v none fg kept_tracked [OF quiet_kept [OF q]] unfolding eq by simp
      qed
    next
      case (StartFailed e)
      with core r PendingForegroundRun show ?thesis by (simp add: core_inv_def run_ok_def)
    qed
  qed
qed

text \<open>C19. A cancellation does not wait for ever. In every such history, when the session has acknowledged the interruption of a
  run and the run has still not settled when the wait for it times out, the manager ends it itself: the run settles and no run is
  tracked; and when the run was a prompt's, whether its turn was starting or under way, the agent no longer has a turn of a
  prompt, and is idle unless a replacement waits.\<close>
theorem cancel_settles_run:
  assumes "fresh_run lim ops (new_turn_world (new_agent i p now) timeline)"
    and w: "w = turn_run lim ops (new_turn_world (new_agent i p now) timeline)" "w' = turn_step lim (CancelEnd rd True True) w"
    and c: "\<not> tw_closed w" "tw_cancel w = Some run" "\<not> is_settled (run_token run) (tw_runs w)"
  shows "is_settled (run_token run) (tw_runs w') \<and> getRun (agent_id w') (tw_runs w') = None
    \<and> (is_foreground_run run \<longrightarrow> ma_activeForegroundTurnId (tw_agent w') = None
         \<and> (\<not> ma_pendingReplacement (tw_agent w) \<longrightarrow> ma_lifecycle (tw_agent w') = LifeIdle))"
proof -
  have inv: "turn_inv w" using reached_inv [OF assms(1)] w(1) by simp
  obtain r where r: "tracked w = Some r" "run_token r = run_token run" "is_foreground_run r = is_foreground_run run"
    using inv c by (auto simp: turn_inv_def core_inv_def cancel_ok_def)
  let ?w = "w\<lparr>tw_cancel := None\<rparr>" and ?v = "cancel_timed_out lim rd run (w\<lparr>tw_cancel := None\<rparr>)"
  have "tracked ?w = Some r" using r by (simp add: tracked_def agent_id_def)
  from timed_out_settles [OF inv_cancel [OF inv] this r(2,3), of lim rd]
  have v: "is_settled (run_token run) (tw_runs ?v)" "tracked ?v = None" "is_foreground_run run \<longrightarrow>
      ma_activeForegroundTurnId (tw_agent ?v) = None \<and> (\<not> ma_pendingReplacement (tw_agent w) \<longrightarrow> ma_lifecycle (tw_agent ?v) = LifeIdle)"
    by simp_all
  have w': "w' = cancel_clears_permissions lim rd ?v" using c by (simp add: w(2) turn_step_def cancel_end_def Let_def)
  have q: "quiet ?v w'" unfolding w' by (rule cancel_permissions_quiet)
  then have "turn_view (tw_agent w') = turn_view (tw_agent ?v)" "tw_runs w' = tw_runs ?v" by (simp_all only: quiet_def)
  with v kept_tracked [OF quiet_kept [OF q]] show ?thesis by (simp add: tracked_def)
qed

lemma cancel_settles_run_witness:
  "ma_lifecycle (tw_agent (turn_step id (CancelEnd example_readings True True) (turn_step id CancelBegin (running_world [])))) = LifeIdle"
proof -
  let ?w = "turn_step id CancelBegin (running_world [])" and ?run = "PendingForegroundRun 0 [] (StartStarted ''t'')"
  have w: "?w = turn_run id (example_ops CancelBegin) example_world" by (simp add: example_run)
  have c: "\<not> tw_closed ?w" "tw_cancel ?w = Some ?run" "\<not> is_settled (run_token ?run) (tw_runs ?w)"
      "is_foreground_run ?run" "\<not> ma_pendingReplacement (tw_agent ?w)"
    by (simp_all add: example_cancel) (simp_all add: example_worlds is_settled_def is_foreground_run_def)
  from cancel_settles_run [OF example_fresh(2) [unfolded example_world_def] w [unfolded example_world_def] refl c(1-3), of example_readings] c(4,5)
  show ?thesis by simp
qed

section \<open>A resolution that is lost\<close>

text \<open>A permission that the session resolves while a response to it is in flight is taken off the pending ones and the event held
  back; when the response then throws, the event is dropped and subscribers are not told.\<close>

lemma buffered_resolution_dropped:
  assumes "r \<in> set (ma_inFlightResponses (tw_agent w))"
    and w1: "w1 = fst (onStreamPermissionResolved rd False ev r w)" and w2: "w2 = permission_response_throws r w1"
  shows "tw_out w2 = tw_out w" "map_get (ma_pendingPermissions (tw_agent w2)) r = None" "map_get (ma_bufferedResolutions (tw_agent w2)) r = None"
  using assms by (simp_all add: onStreamPermissionResolved_def permission_response_throws_def response_finally_def upd_agent_def
      Let_def get_delete)

end
