(* ===== verification/Spec2Isabelle.thy ===== *)
theory Spec2Isabelle
  imports Authorization PairingSafety Hostnames PairingRoutes TimelinePages StreamCoalescer DirectorySync
    LabelCatalog ProjectTodos FileUpload RelayTransport PidLock AgentTurnTheorems
begin

text \<open>
  A verification library for Frogg, a daemon that runs coding agents on a developer's machine and serves them to apps on
  other devices. It models the core of the daemon (\<open>packages/server/src/server\<close>), of the protocol
  (\<open>packages/protocol/src\<close>), of the relay (\<open>packages/relay/src\<close>) and the part of the client
  (\<open>packages/client/src\<close>) that uploads files. Paths below are relative to these directories.

  \<^bold>\<open>How the parts work together.\<close> A device reaches the daemon over the local network or through the relay. The relay joins
  the sockets of a daemon and its clients without reading them; the two ends run an encrypted channel through it. A request
  is classified by where it comes from, throttled when it keeps failing, and authenticated by a device credential, the
  password or the local token; a device gets its credential by pairing. What a session may send and receive follows from the
  role of its device and the permissions it was granted. Admitted clients follow the directory of projects, workspaces and
  agents, label workspaces, edit to-dos, upload files and talk to agents: a prompt starts a turn of the provider's session,
  whose events are put together by a coalescer, numbered in the agent's timeline, projected for display and read in pages. A
  lock file keeps a second daemon from using the same state.

  \<^bold>\<open>Conventions.\<close> A class is a record of its state with one function per method, in the order of the source; the state is
  passed and returned. An exception, a refusal and an early return are values of a sum or option type. A \<open>Map\<close> is an
  association list in insertion order with one entry per key (\<open>Prelude\<close>), since several loops of the code rely on the order.
  Clocks, random draws, identifiers and the answers of the environment are arguments; libraries that are not part of the
  repository are parameters, and what is relied on of them is a named hypothesis. Code between two awaits is one step;
  where operations interleave, a history is a list of steps and the theorems hold for all of them. Integers are \<open>int\<close> or
  \<open>nat\<close>, words where the code works on bytes and bits.

  \<^bold>\<open>Shared theories.\<close> \<open>Prelude\<close>, \<open>JsString\<close>, \<open>JsArray\<close> (the library functions of JavaScript that are used), \<open>Utf8\<close> and
  \<open>Json\<close> (text encoding, parser and printer with their round trips).

  \<^bold>\<open>Authority.\<close>
  \<^item> \<open>Roles\<close>, \<open>Operations\<close>, \<open>Authorization\<close>: \<open>authorization/roles.ts\<close>, \<open>operation-permissions.ts\<close>, \<open>index.ts\<close>. The tables row
    by row and every method of \<open>SessionAuthorization\<close>. Lemmas: the role of an
    operation follows from its permission, with the exceptions named, and a viewer may ask for three reads whose answers it may not receive.
  \<^item> \<open>ExpiringMap\<close>, \<open>PairingStores\<close>, \<open>PairingSafety\<close>: \<open>claim-offer-store.ts\<close>, \<open>pairing-code-store.ts\<close>,
    \<open>pairing-request-store.ts\<close>, \<open>file-download/token-store.ts\<close>. The locale \<open>single_use\<close> states once what a store of secrets promises
    (nothing is redeemed more often than it was issued) and is interpreted for all four.
  \<^item> \<open>RateLimit\<close>: \<open>auth-rate-limit.ts\<close>. Blocking after repeated failures, and the bound on the memory of the limiter.
  \<^item> \<open>NetAddress\<close>, \<open>AccessPolicy\<close>, \<open>Hostnames\<close>: \<open>access-policy.ts\<close>, \<open>hostnames.ts\<close>. Address classes, the walk through
    \<open>X-Forwarded-For\<close>, the policy and the host allowlist, each with a declarative characterisation.
  \<^item> \<open>ClaimStore\<close>: \<open>claim-store.ts\<close>. Every operation on the file of devices; the file refines an abstract directory of devices,
    and the claim is latched.
  \<^item> \<open>BearerAuth\<close>: \<open>auth.ts\<close>, \<open>local-token.ts\<close>, \<open>authorization/admission.ts\<close>. The decision pipeline with the throttle: an
    admission rests on a credential, and a burst of wrong tokens is refused.
  \<^item> \<open>DeviceAccess\<close>, \<open>PairingRoutes\<close>: \<open>device-access-service.ts\<close>, \<open>device-access-routes.ts\<close>. The service and the HTTP handlers over
    the stores above; no escalation, an owner always remains, and a route answers with a credential only for a valid reason.

  \<^bold>\<open>Transport.\<close>
  \<^item> \<open>EncryptedChannel\<close>: \<open>relay/src/encrypted-channel.ts\<close>, \<open>crypto.ts\<close>, \<open>base64.ts\<close>. Both ends of the channel; authenticity against
    any frames, faithful delivery between agreeing ends, and the replay of a recorded session that the design admits.
  \<^item> \<open>RelayObject\<close>, \<open>RelayTransport\<close>: \<open>relay/src/cloudflare-adapter.ts\<close>, \<open>server/relay-transport.ts\<close>. The relay as a step relation over
    sockets, with what each socket is sent; the daemon's control socket, its keepalive and reconnection; and their composition.
  \<^item> \<open>BinaryFrames\<close>, \<open>FileUpload\<close>: \<open>protocol/src/binary-frames/\<close>, \<open>file-upload/index.ts\<close> and \<open>uploadFile\<close> of
    \<open>client/src/daemon-client.ts\<close>. Frame round trips; uploads that interleave, expire and fail.

  \<^bold>\<open>What clients see.\<close>
  \<^item> \<open>Timeline\<close>, \<open>TimelineProjection\<close>, \<open>TimelinePages\<close>: \<open>agent/agent-timeline-store.ts\<close>, \<open>agent/timeline-projection.ts\<close>. The locale
    \<open>paged_log\<close> proves once that paging reaches every row once and ends, and is interpreted for rows forward and backward and
    for projected entries; \<open>stream_reading\<close> and \<open>plain_reading\<close> carry what the projection keeps.
  \<^item> \<open>StreamCoalescer\<close>: \<open>agent/agent-stream-coalescer.ts\<close>. What is flushed and what waits is what was handed in, through the
    locales \<open>chunk_reading\<close> and \<open>observed_reading\<close>.
  \<^item> \<open>DirectorySync\<close>: \<open>directory-sync/\<close>. A client that applies what it is sent holds the daemon's directory.
  \<^item> \<open>WorkspaceLabels\<close>, \<open>LabelCatalog\<close>: \<open>workspace-labels/\<close>, part of \<open>workspace-registry.ts\<close>. The journal of labels, and the
    transaction over two files under any fault and crash in which restarts read the registry, and the torn change when one
    does not; the locale \<open>label_planner\<close> is interpreted for the four mutations.
  \<^item> \<open>ProjectTodos\<close>: \<open>project-todos/\<close>. Claims of agents on items; \<open>item_invariant\<close> carries the invariants through the service.
  \<^item> \<open>PidLock\<close>: \<open>pid-lock.ts\<close>. Interleaved daemons as processes with a program counter, and heartbeats.

  \<^bold>\<open>Agents.\<close>
  \<^item> \<open>AgentRuns\<close>: \<open>agent/agent-run-state.ts\<close>. The tracked run of an agent and the stream that reports a turn to its caller.
  \<^item> \<open>AgentTurns\<close> (definitions): the turn machinery of \<open>agent/agent-manager.ts\<close>. The record \<open>turn_world\<close> is what the manager keeps
    for an agent: the agent, its run, the streams, the queue of session events, the barrier of a steering, the
    coalescer, the timeline, the prompts in progress and what subscribers were told. \<open>turn_step\<close> has one operation for each entry
    from the session, the timers, the callers and the user; \<open>turn_run\<close> is a history. \<open>AgentTurnFrames\<close> shows which steps leave turns
    alone, \<open>AgentTurnEnds\<close> puts a terminal event into one update of the agent, \<open>AgentTurnSafety\<close> states the invariant,
    \<open>AgentTurnSteps\<close>, \<open>AgentTurnInvariant\<close> and \<open>AgentTurnHistory\<close> preserve it, and \<open>AgentTurnTheorems\<close> holds the theorems: consistent
    states, the end of a turn reaches its caller, a cancellation settles its run, and an end without a turn id strands the caller.
    They ask of a provider that it names its turns and does not restart one that has ended.

  \<^bold>\<open>Bounds and fuel.\<close> The JSON parser descends on one more than the length of the text, which its round trip shows to be enough.
  The expansion of a page (\<open>TimelinePages\<close>) is shown to reach the smallest closed range within the number of rows.
  Reading pages is bounded by a number of requests and None when that runs out; as many as there are rows are enough. A pairing code is drawn from a
  list of draws and the result is None when all are in use, which is the loop of the code that draws again. A daemon that starts
  alone decides within 23 operations on the lock file, and a stream whose turn is over ends after as many resumptions as events are
  queued and two. All other loops are structural or have a measure.

  \<^bold>\<open>Not modelled.\<close> Strings are 8-bit characters, or code points in the JSON and channel theories; UTF-16 surrogates are left out.
  Cryptographic functions, bcrypt and scrypt are parameters. Not modelled are: the routing of requests in \<open>session.ts\<close>, the WebSocket
  server and the start of the daemon; the creation, loading, import, archiving and rewinding of agents and their storage; the
  providers, speech, the companion, plugins, terminals, git, forges and worktrees, whose behaviour is that of programs outside
  the repository; message schemas and the validators generated from them; tasks, the service proxy, push and presence; and the user
  interfaces, the command line, the desktop and Rust programs. In the turns of an agent one event is handled as one step, the
  truncation of item content is an argument, and sub-agents, the callbacks of tool calls on changed files, shell context,
  clean-cut summaries and the refresh of runtime information are left out. Timers that only log and messages of errors are
  left out throughout.
\<close>

end
